(* ===== verification/Prelude.thy ===== *)
theory Prelude
  imports Complex_Main "HOL-Library.Word"
begin

text \<open>
  Shared material of the development.

  \<^item> JavaScript values: \<open>undefined\<close>/\<open>null\<close> is \<^term>\<open>None\<close>; the truthiness tests of
    optional strings and numbers; results that may throw (\<^term>\<open>Inl\<close> is the exception).
  \<^item> The ECMAScript \<open>Map\<close>: an insertion-ordered association list, with its interface stated
    as the locale \<open>js_map\<close> and interpreted on the lists.
  \<^item> Two interfaces several components share: a table-driven state machine
    (\<open>transition_table\<close>, provided by transactions and by the \<open>makeStateMachine\<close> users) and a
    value that only moves forward (\<open>advancing\<close>, provided by cluster time and operation time).
  \<^item> The \<open>named_theorems\<close> collections the component proofs use.
\<close>

section \<open>Collections of facts\<close>

named_theorems js_simps \<open>truthiness and result rewriting\<close>
named_theorems map_simps \<open>laws of the ordered Map\<close>
named_theorems keeps \<open>an operation keeps a field, an invariant or a class of states\<close>

section \<open>JavaScript values\<close>

text \<open>A string or number is falsy when it is absent, empty or zero.\<close>

definition truthy_str :: "string option \<Rightarrow> bool" where
  "truthy_str s = (case s of None \<Rightarrow> False | Some x \<Rightarrow> x \<noteq> [])"

definition truthy_num :: "int option \<Rightarrow> bool" where
  "truthy_num n = (case n of None \<Rightarrow> False | Some x \<Rightarrow> x \<noteq> 0)"

lemma truthy_str_simps [simp, js_simps]:
  "truthy_str None = False" "truthy_str (Some x) = (x \<noteq> [])"
  by (simp_all add: truthy_str_def)

lemma truthy_num_simps [simp, js_simps]:
  "truthy_num None = False" "truthy_num (Some n) = (n \<noteq> 0)"
  by (simp_all add: truthy_num_def)

lemma truthy_strE:
  assumes "truthy_str s" obtains x where "s = Some x" "x \<noteq> []"
  using assms by (cases s) auto

text \<open>\<open>a || b\<close> on optional strings, \<open>a ?? b\<close> on any optional value.\<close>

definition str_or :: "string option \<Rightarrow> string option \<Rightarrow> string option" where
  "str_or a b = (if truthy_str a then a else b)"

fun coalesce :: "'a option \<Rightarrow> 'a option \<Rightarrow> 'a option" where
  "coalesce (Some x) _ = Some x"
| "coalesce None y = y"

lemma coalesce_eq_None [simp]: "coalesce a b = None \<longleftrightarrow> a = None \<and> b = None"
  by (cases a) auto

definition the_default :: "'a \<Rightarrow> 'a option \<Rightarrow> 'a" where
  "the_default d x = (case x of None \<Rightarrow> d | Some y \<Rightarrow> y)"

lemma the_default_simps [simp, js_simps]: "the_default d None = d" "the_default d (Some x) = x"
  by (simp_all add: the_default_def)

text \<open>The function that runs the rest of a computation when nothing was thrown.\<close>

fun rbind :: "'e + 'a \<Rightarrow> ('a \<Rightarrow> 'e + 'b) \<Rightarrow> 'e + 'b" where
  "rbind (Inl e) f = Inl e"
| "rbind (Inr x) f = f x"

lemma rbind_Inr_iff [js_simps]: "rbind r f = Inr y \<longleftrightarrow> (\<exists>x. r = Inr x \<and> f x = Inr y)"
  by (cases r) auto

lemma rbind_Inl_iff [js_simps]:
  "rbind r f = Inl e \<longleftrightarrow> r = Inl e \<or> (\<exists>x. r = Inr x \<and> f x = Inl e)"
  by (cases r) auto

text \<open>\<open>s.indexOf(p) !== -1\<close>, and a regular expression that is a plain literal.\<close>

fun contains_sub :: "string \<Rightarrow> string \<Rightarrow> bool" where
  "contains_sub p [] = (p = [])"
| "contains_sub p (c # cs) = (take (length p) (c # cs) = p \<or> contains_sub p cs)"

lemma contains_sub_iff: "contains_sub p s \<longleftrightarrow> (\<exists>a b. s = a @ p @ b)"
proof (induction s)
  case Nil
  then show ?case by auto
next
  case (Cons c cs)
  have "take (length p) (c # cs) = p \<longleftrightarrow> (\<exists>b. c # cs = p @ b)"
    by (metis append_eq_conv_conj append_take_drop_id)
  then have "contains_sub p (c # cs) \<longleftrightarrow>
      (\<exists>b. c # cs = p @ b) \<or> (\<exists>a b. cs = a @ p @ b)"
    using Cons.IH by simp
  also have "\<dots> \<longleftrightarrow> (\<exists>a b. c # cs = a @ p @ b)"
    by (metis append_Cons append_Nil neq_Nil_conv list.inject)
  finally show ?case .
qed

section \<open>The ECMAScript Map\<close>

type_synonym ('k, 'v) jsmap = "('k \<times> 'v) list"

abbreviation map_get :: "('k, 'v) jsmap \<Rightarrow> 'k \<Rightarrow> 'v option" where
  "map_get m k \<equiv> map_of m k"

fun map_set :: "'k \<Rightarrow> 'v \<Rightarrow> ('k, 'v) jsmap \<Rightarrow> ('k, 'v) jsmap" where
  "map_set k v [] = [(k, v)]"
| "map_set k v ((k', v') # m) =
     (if k' = k then (k, v) # m else (k', v') # map_set k v m)"

definition map_delete :: "'k \<Rightarrow> ('k, 'v) jsmap \<Rightarrow> ('k, 'v) jsmap" where
  "map_delete k m = filter (\<lambda>e. fst e \<noteq> k) m"

definition map_keys :: "('k, 'v) jsmap \<Rightarrow> 'k list" where
  "map_keys m = map fst m"

definition map_values :: "('k, 'v) jsmap \<Rightarrow> 'v list" where
  "map_values m = map snd m"

definition map_has :: "('k, 'v) jsmap \<Rightarrow> 'k \<Rightarrow> bool" where
  "map_has m k = (map_of m k \<noteq> None)"

definition map_wf :: "('k, 'v) jsmap \<Rightarrow> bool" where
  "map_wf m = distinct (map_keys m)"

text \<open>
  What a client of a \<open>Map\<close> may rely on: lookup after set and delete, iteration order (a new
  key goes last, a known key keeps its place), and that keys stay distinct.
\<close>

locale js_map =
  fixes get :: "'m \<Rightarrow> 'k \<Rightarrow> 'v option"
    and upd :: "'k \<Rightarrow> 'v \<Rightarrow> 'm \<Rightarrow> 'm"
    and del :: "'k \<Rightarrow> 'm \<Rightarrow> 'm"
    and keys :: "'m \<Rightarrow> 'k list"
    and wf :: "'m \<Rightarrow> bool"
  assumes get_upd: "get (upd k v m) j = (if j = k then Some v else get m j)"
    and get_del: "get (del k m) j = (if j = k then None else get m j)"
    and keys_upd: "keys (upd k v m) = (if k \<in> set (keys m) then keys m else keys m @ [k])"
    and keys_del: "keys (del k m) = removeAll k (keys m)"
    and get_None: "get m k = None \<longleftrightarrow> k \<notin> set (keys m)"
    and wf_keys: "wf m \<longleftrightarrow> distinct (keys m)"
begin

lemma wf_upd: "wf m \<Longrightarrow> wf (upd k v m)"
  by (simp add: wf_keys keys_upd)

lemma wf_del: "wf m \<Longrightarrow> wf (del k m)"
  by (simp add: wf_keys keys_del distinct_removeAll)

text \<open>Deleting a list of keys one by one.\<close>

lemma get_del_fold: "get (fold del ks m) j = (if j \<in> set ks then None else get m j)"
  by (induction ks arbitrary: m) (auto simp: get_del)

lemma keys_del_fold: "keys (fold del ks m) = filter (\<lambda>k. k \<notin> set ks) (keys m)"
proof (induction ks arbitrary: m)
  case Nil
  then show ?case by simp
next
  case (Cons k ks)
  then show ?case
    by (simp add: keys_del removeAll_filter_not_eq conj_commute) metis
qed

lemma wf_del_fold: "wf m \<Longrightarrow> wf (fold del ks m)"
  by (simp add: wf_keys keys_del_fold)

lemma size_upd_new: "k \<notin> set (keys m) \<Longrightarrow> length (keys (upd k v m)) = Suc (length (keys m))"
  by (simp add: keys_upd)

end

lemma map_of_map_set: "map_of (map_set k v m) j = (if j = k then Some v else map_of m j)"
  by (induction k v m rule: map_set.induct) auto

lemma map_keys_map_set:
  "map_keys (map_set k v m) = (if k \<in> set (map_keys m) then map_keys m else map_keys m @ [k])"
  by (induction k v m rule: map_set.induct) (auto simp: map_keys_def)

lemma map_of_map_delete: "map_of (map_delete k m) j = (if j = k then None else map_of m j)"
  by (induction m) (auto simp: map_delete_def)

lemma map_keys_map_delete: "map_keys (map_delete k m) = removeAll k (map_keys m)"
  by (induction m) (auto simp: map_delete_def map_keys_def)

lemma map_of_None_keys: "map_of m k = None \<longleftrightarrow> k \<notin> set (map_keys m)"
  by (simp add: map_of_eq_None_iff map_keys_def)

interpretation jm: js_map "\<lambda>m k. map_of m k" map_set map_delete map_keys map_wf
  by unfold_locales
    (simp_all add: map_of_map_set map_of_map_delete map_keys_map_set map_keys_map_delete
      map_of_None_keys map_wf_def)

lemmas map_laws [map_simps] =
  map_of_map_set map_of_map_delete map_keys_map_set map_keys_map_delete
  jm.get_del_fold jm.keys_del_fold

lemma map_has_iff [map_simps]: "map_has m k \<longleftrightarrow> k \<in> set (map_keys m)"
  by (simp add: map_has_def map_of_None_keys)

lemma map_keys_Nil [simp]: "map_keys [] = []"
  by (simp add: map_keys_def)

lemma map_values_Nil [simp]: "map_values [] = []"
  by (simp add: map_values_def)

lemma in_map_values:
  assumes "map_wf m" shows "v \<in> set (map_values m) \<longleftrightarrow> (\<exists>k. map_of m k = Some v)"
proof -
  have "\<exists>k. map_of m k = Some v" if "(k, v) \<in> set m" for k
    using assms that by (auto simp: map_wf_def map_keys_def intro: map_of_is_SomeI)
  then show ?thesis
    by (auto simp: map_values_def dest: map_of_SomeD intro: rev_image_eqI)
qed

section \<open>Table-driven state machines\<close>

text \<open>
  An object with a state field and an operation that moves it to a requested state, throwing
  unless the table lists the requested state for the current one.
\<close>

locale transition_table =
  fixes legal :: "'s \<Rightarrow> 's list"
    and state_of :: "'o \<Rightarrow> 's"
    and trans :: "'o \<Rightarrow> 's \<Rightarrow> 'e + 'o"
  assumes accepts: "t \<in> set (legal (state_of x)) \<Longrightarrow> \<exists>y. trans x t = Inr y \<and> state_of y = t"
    and rejects: "t \<notin> set (legal (state_of x)) \<Longrightarrow> \<exists>e. trans x t = Inl e"
begin

lemma trans_Inr_iff: "(\<exists>y. trans x t = Inr y) \<longleftrightarrow> t \<in> set (legal (state_of x))"
  using accepts [of t x] rejects [of t x]
  by (cases "t \<in> set (legal (state_of x))") auto

lemma trans_state: "trans x t = Inr y \<Longrightarrow> state_of y = t"
  using accepts [of t x] rejects [of t x] by (cases "t \<in> set (legal (state_of x))") auto

text \<open>A sequence of requests, stopping at the first throw.\<close>

fun run :: "'o \<Rightarrow> 's list \<Rightarrow> 'e + 'o" where
  "run x [] = Inr x"
| "run x (t # ts) = rbind (trans x t) (\<lambda>y. run y ts)"

fun path :: "'s \<Rightarrow> 's list \<Rightarrow> bool" where
  "path s [] = True"
| "path s (t # ts) = (t \<in> set (legal s) \<and> path t ts)"

lemma run_succeeds_iff: "(\<exists>y. run x ts = Inr y) \<longleftrightarrow> path (state_of x) ts"
proof (induction ts arbitrary: x)
  case Nil
  then show ?case by simp
next
  case (Cons t ts)
  show ?case
  proof (cases "t \<in> set (legal (state_of x))")
    case True
    then obtain y where "trans x t = Inr y" "state_of y = t"
      using accepts by blast
    with True Cons.IH [of y] show ?thesis by simp
  next
    case False
    then obtain e where "trans x t = Inl e" using rejects by blast
    with False show ?thesis by simp
  qed
qed

lemma run_state: "run x ts = Inr y \<Longrightarrow> state_of y = last (state_of x # ts)"
proof (induction ts arbitrary: x)
  case Nil
  then show ?case by simp
next
  case (Cons t ts)
  then obtain z where "trans x t = Inr z" "run z ts = Inr y"
    by (auto simp: rbind_Inr_iff)
  with Cons.IH [of z] trans_state show ?case by auto
qed

lemma path_closed:
  "(\<And>s t. s \<in> S \<Longrightarrow> t \<in> set (legal s) \<Longrightarrow> t \<in> S) \<Longrightarrow> s \<in> S \<Longrightarrow> path s ts \<Longrightarrow> set ts \<subseteq> S"
  by (induction ts arbitrary: s) auto

end

section \<open>Values that only move forward\<close>

text \<open>
  An optional value replaced by a newer one: the result is one of the two, and its key is at
  least both keys.
\<close>

locale advancing =
  fixes key :: "'a \<Rightarrow> 't::linorder"
    and adv :: "'a option \<Rightarrow> 'a \<Rightarrow> 'a option"
  assumes adv_choice: "adv old x = Some x \<or> (adv old x = old \<and> old \<noteq> None)"
    and adv_new: "adv old x = Some z \<Longrightarrow> key x \<le> key z"
    and adv_old: "adv (Some y) x = Some z \<Longrightarrow> key y \<le> key z"
begin

lemma adv_Some: "\<exists>z. adv old x = Some z"
  using adv_choice [of old x] by auto

lemma foldl_adv_Some: "\<exists>z. foldl adv (Some y) xs = Some z \<and> key y \<le> key z"
proof (induction xs arbitrary: y)
  case Nil
  then show ?case by simp
next
  case (Cons x xs)
  obtain z where z: "adv (Some y) x = Some z" using adv_Some by blast
  then have "key y \<le> key z" by (rule adv_old)
  moreover obtain w where "foldl adv (Some z) xs = Some w" "key z \<le> key w"
    using Cons.IH by blast
  ultimately show ?case using z by (auto intro: order_trans)
qed

text \<open>After any sequence of updates the value is the newest of all that were seen.\<close>

lemma foldl_adv_ge:
  "foldl adv old xs = Some z \<Longrightarrow> x \<in> set xs \<Longrightarrow> key x \<le> key z"
proof (induction xs arbitrary: old)
  case Nil
  then show ?case by simp
next
  case (Cons u us)
  obtain w where w: "adv old u = Some w" using adv_Some by blast
  obtain v where v: "foldl adv (Some w) us = Some v" "key w \<le> key v"
    using foldl_adv_Some by blast
  with Cons.prems w have "v = z" by simp
  then show ?case
    using Cons.prems Cons.IH [of "Some w"] w v adv_new [OF w]
    by (auto intro: order_trans)
qed

lemma foldl_adv_mem:
  "foldl adv old xs = Some z \<Longrightarrow> z \<in> set xs \<or> old = Some z"
proof (induction xs arbitrary: old)
  case Nil
  then show ?case by simp
next
  case (Cons u us)
  then show ?case using adv_choice [of old u] by fastforce
qed

end

text \<open>Reading an array element: out of range it is \<open>undefined\<close>.\<close>

definition nth_opt :: "'a list \<Rightarrow> nat \<Rightarrow> 'a option" where
  "nth_opt xs i = (if i < length xs then Some (xs ! i) else None)"

lemma nth_opt_simps [simp]:
  "nth_opt [] i = None" "nth_opt (x # xs) 0 = Some x" "nth_opt (x # xs) (Suc i) = nth_opt xs i"
  by (simp_all add: nth_opt_def)

lemma nth_opt_append: "nth_opt (xs @ ys) i = (if i < length xs then nth_opt xs i else nth_opt ys (i - length xs))"
  by (auto simp: nth_opt_def nth_append)

end
