(* ===== verification/Errors.thy ===== *)
theory Errors
  imports Prelude
begin

text \<open>
  \<open>src/error.ts\<close> and \<open>src/cmap/errors.ts\<close>: the class hierarchy of the driver's errors, the
  error labels, the server error codes, and the classifiers that the rest of the driver
  branches on (retryable, retryable write, node recovering, not primary, shutting down,
  network timeout, resumable).  The BSON values errors and hello replies carry (ObjectId,
  topology version) are defined here, since they are the first to use them.
\<close>

section \<open>BSON values\<close>

text \<open>
  An \<open>ObjectId\<close> is its byte buffer.  A topology version's counter is a 64-bit \<open>Long\<close> or, with
  \<open>promoteLongs\<close>, a plain number; the code distinguishes the two, so the model does.
\<close>

type_synonym byte = "8 word"
type_synonym objectId = "byte list"

datatype counter = LongCounter int | NumCounter int

record topologyVersion =
  tv_processId :: objectId
  tv_counter :: counter

section \<open>The class hierarchy\<close>

datatype errClass =
    JSError | JSTypeError
  | MongoError | MongoServerError | MongoDriverError | MongoAPIError | MongoRuntimeError
  | MongoBatchReExecutionError | MongoDecompressionError | MongoNotConnectedError
  | MongoTransactionError | MongoExpiredSessionError | MongoKerberosError
  | MongoChangeStreamError | MongoTailableCursorError | MongoGridFSStreamError
  | MongoGridFSChunkError | MongoCursorInUseError | MongoServerClosedError
  | MongoCursorExhaustedError | MongoTopologyClosedError | MongoNetworkError
  | MongoNetworkTimeoutError | MongoParseError | MongoInvalidArgumentError
  | MongoCompatibilityError | MongoMissingCredentialsError | MongoMissingDependencyError
  | MongoSystemError | MongoServerSelectionError | MongoWriteConcernError
  | PoolClosedError | WaitQueueTimeoutError

text \<open>The class each class extends.\<close>

fun extends :: "errClass \<Rightarrow> errClass option" where
  "extends JSError = None"
| "extends JSTypeError = Some JSError"
| "extends MongoError = Some JSError"
| "extends MongoServerError = Some MongoError"
| "extends MongoDriverError = Some MongoError"
| "extends MongoAPIError = Some MongoDriverError"
| "extends MongoRuntimeError = Some MongoDriverError"
| "extends MongoBatchReExecutionError = Some MongoAPIError"
| "extends MongoDecompressionError = Some MongoRuntimeError"
| "extends MongoNotConnectedError = Some MongoAPIError"
| "extends MongoTransactionError = Some MongoAPIError"
| "extends MongoExpiredSessionError = Some MongoAPIError"
| "extends MongoKerberosError = Some MongoRuntimeError"
| "extends MongoChangeStreamError = Some MongoRuntimeError"
| "extends MongoTailableCursorError = Some MongoAPIError"
| "extends MongoGridFSStreamError = Some MongoRuntimeError"
| "extends MongoGridFSChunkError = Some MongoRuntimeError"
| "extends MongoCursorInUseError = Some MongoAPIError"
| "extends MongoServerClosedError = Some MongoAPIError"
| "extends MongoCursorExhaustedError = Some MongoAPIError"
| "extends MongoTopologyClosedError = Some MongoAPIError"
| "extends MongoNetworkError = Some MongoError"
| "extends MongoNetworkTimeoutError = Some MongoNetworkError"
| "extends MongoParseError = Some MongoDriverError"
| "extends MongoInvalidArgumentError = Some MongoAPIError"
| "extends MongoCompatibilityError = Some MongoAPIError"
| "extends MongoMissingCredentialsError = Some MongoAPIError"
| "extends MongoMissingDependencyError = Some MongoAPIError"
| "extends MongoSystemError = Some MongoError"
| "extends MongoServerSelectionError = Some MongoSystemError"
| "extends MongoWriteConcernError = Some MongoServerError"
| "extends PoolClosedError = Some MongoDriverError"
| "extends WaitQueueTimeoutError = Some MongoDriverError"

text \<open>The length of the prototype chain, which bounds \<open>instanceof\<close>.\<close>

fun chain_depth :: "errClass \<Rightarrow> nat" where
  "chain_depth JSError = 0"
| "chain_depth c =
     (if c \<in> {JSTypeError, MongoError} then 1
      else if c \<in> {MongoServerError, MongoDriverError, MongoNetworkError, MongoSystemError} then 2
      else if c \<in> {MongoAPIError, MongoRuntimeError, MongoNetworkTimeoutError, MongoParseError,
        MongoServerSelectionError, MongoWriteConcernError, PoolClosedError,
        WaitQueueTimeoutError} then 3
      else 4)"

lemma extends_depth: "extends c = Some d \<Longrightarrow> chain_depth d < chain_depth c"
  by (cases c) auto

function instanceof_class :: "errClass \<Rightarrow> errClass \<Rightarrow> bool" where
  "instanceof_class c d =
     (c = d \<or> (case extends c of None \<Rightarrow> False | Some p \<Rightarrow> instanceof_class p d))"
  by pat_completeness auto
termination
  by (relation "measure (\<lambda>(c, d). chain_depth c)") (auto dest: extends_depth)

declare instanceof_class.simps [simp del]

lemma instanceof_class_refl [simp]: "instanceof_class c c"
  by (subst instanceof_class.simps) simp

lemma instanceof_class_trans:
  "instanceof_class a b \<Longrightarrow> instanceof_class b c \<Longrightarrow> instanceof_class a c"
proof (induction a b rule: instanceof_class.induct)
  case (1 a b)
  show ?case
  proof (cases "a = b")
    case True
    with 1 show ?thesis by simp
  next
    case False
    with "1.prems" obtain p where "extends a = Some p" "instanceof_class p b"
      by (auto simp: instanceof_class.simps [of a b] split: option.splits)
    with "1.IH" "1.prems" show ?thesis
      by (auto simp: instanceof_class.simps [of a c])
  qed
qed

section \<open>Errors and their labels\<close>

datatype errCode = CodeNum int | CodeStr string

text \<open>
  The fields of an error object the driver reads.  \<open>e_labels\<close> is the \<open>Set\<close> under \<open>kErrorLabels\<close>
  (an absent set and an empty one answer every query alike); \<open>e_wceCode\<close> is
  \<open>writeConcernError?.code\<close> and \<open>e_resultCode\<close> is \<open>result?.code\<close>.
\<close>

record mongoError =
  e_class :: errClass
  e_message :: string
  e_code :: "errCode option"
  e_codeName :: "string option"
  e_labels :: "string list"
  e_topologyVersion :: "topologyVersion option"
  e_beforeHandshake :: "bool option"
  e_wceCode :: "int option"
  e_resultCode :: "int option"

definition mk_error :: "errClass \<Rightarrow> string \<Rightarrow> mongoError" where
  "mk_error c msg = \<lparr>e_class = c, e_message = msg, e_code = None, e_codeName = None,
     e_labels = [], e_topologyVersion = None, e_beforeHandshake = None, e_wceCode = None,
     e_resultCode = None\<rparr>"

definition invalid_argument :: "string \<Rightarrow> mongoError" where
  "invalid_argument m = mk_error MongoInvalidArgumentError m"

definition instanceof :: "mongoError \<Rightarrow> errClass \<Rightarrow> bool" where
  "instanceof e c = instanceof_class (e_class e) c"

definition hasErrorLabel :: "mongoError \<Rightarrow> string \<Rightarrow> bool" where
  "hasErrorLabel e l = (l \<in> set (e_labels e))"

definition addErrorLabel :: "mongoError \<Rightarrow> string \<Rightarrow> mongoError" where
  "addErrorLabel e l = (if l \<in> set (e_labels e) then e else e\<lparr>e_labels := e_labels e @ [l]\<rparr>)"

lemma hasErrorLabel_add [simp]:
  "hasErrorLabel (addErrorLabel e l) k \<longleftrightarrow> k = l \<or> hasErrorLabel e k"
  by (auto simp: hasErrorLabel_def addErrorLabel_def)

lemma addErrorLabel_keeps [simp, keeps]:
  "e_class (addErrorLabel e l) = e_class e" "e_message (addErrorLabel e l) = e_message e"
  "e_code (addErrorLabel e l) = e_code e" "e_codeName (addErrorLabel e l) = e_codeName e"
  "e_topologyVersion (addErrorLabel e l) = e_topologyVersion e"
  "e_wceCode (addErrorLabel e l) = e_wceCode e"
  "e_resultCode (addErrorLabel e l) = e_resultCode e"
  "e_beforeHandshake (addErrorLabel e l) = e_beforeHandshake e"
  by (simp_all add: addErrorLabel_def)

lemma instanceof_add [simp]: "instanceof (addErrorLabel e l) c = instanceof e c"
  by (simp add: instanceof_def)

text \<open>What the server sends, and the error built from it.\<close>

record errorDescription =
  ed_message :: "string option"
  ed_errmsg :: "string option"
  ed_err :: "string option"
  ed_errorLabels :: "string list option"
  ed_code :: "int option"
  ed_codeName :: "string option"
  ed_topologyVersion :: "topologyVersion option"
  ed_wceCode :: "int option"

definition MongoServerError_new :: "errorDescription \<Rightarrow> mongoError" where
  "MongoServerError_new d =
     (mk_error MongoServerError
        (case str_or (ed_message d) (str_or (ed_errmsg d) (ed_err d)) of
           Some m \<Rightarrow> (if m = [] then ''n/a'' else m) | None \<Rightarrow> ''n/a''))
     \<lparr>e_labels := remdups (case ed_errorLabels d of None \<Rightarrow> [] | Some ls \<Rightarrow> ls),
      e_code := map_option CodeNum (ed_code d), e_codeName := ed_codeName d,
      e_topologyVersion := ed_topologyVersion d, e_wceCode := ed_wceCode d\<rparr>"

record wcResult =
  r_ok :: "int option"
  r_errmsg :: "string option"
  r_code :: "int option"
  r_codeName :: "string option"
  r_errorLabels :: "string list option"

definition makeWriteConcernResultObject :: "wcResult \<Rightarrow> wcResult" where
  "makeWriteConcernResultObject r =
     (if r_ok r = Some 0
      then r\<lparr>r_ok := Some 1, r_errmsg := None, r_code := None, r_codeName := None\<rparr>
      else r)"

definition MongoWriteConcernError_new :: "errorDescription \<Rightarrow> wcResult option \<Rightarrow> mongoError" where
  "MongoWriteConcernError_new d res =
     (let d' = (case res of
                  Some r \<Rightarrow> (case r_errorLabels r of
                              Some ls \<Rightarrow> d\<lparr>ed_errorLabels := Some ls\<rparr> | None \<Rightarrow> d)
                | None \<Rightarrow> d)
      in (MongoServerError_new d')
           \<lparr>e_class := MongoWriteConcernError,
            e_resultCode := (case res of None \<Rightarrow> None
                             | Some r \<Rightarrow> r_code (makeWriteConcernResultObject r))\<rparr>)"

definition MongoNetworkError_new :: "string \<Rightarrow> bool option \<Rightarrow> mongoError" where
  "MongoNetworkError_new msg beforeHandshake =
     (mk_error MongoNetworkError msg)\<lparr>e_beforeHandshake := beforeHandshake\<rparr>"

section \<open>Error codes\<close>

datatype mongodbErrorCode =
    HostUnreachable | HostNotFound | NetworkTimeout | ShutdownInProgress | PrimarySteppedDown
  | ExceededTimeLimit | SocketException | NotWritablePrimary | InterruptedAtShutdown
  | InterruptedDueToReplStateChange | NotPrimaryNoSecondaryOk | NotPrimaryOrSecondary
  | StaleShardVersion | StaleEpoch | StaleConfig | RetryChangeStream
  | FailedToSatisfyReadPreference | CursorNotFound | LegacyNotPrimary | WriteConcernFailed
  | NamespaceNotFound | IllegalOperation | MaxTimeMSExpired | UnknownReplWriteConcern
  | UnsatisfiableWriteConcern

fun MONGODB_ERROR_CODES :: "mongodbErrorCode \<Rightarrow> int" where
  "MONGODB_ERROR_CODES HostUnreachable = 6"
| "MONGODB_ERROR_CODES HostNotFound = 7"
| "MONGODB_ERROR_CODES NetworkTimeout = 89"
| "MONGODB_ERROR_CODES ShutdownInProgress = 91"
| "MONGODB_ERROR_CODES PrimarySteppedDown = 189"
| "MONGODB_ERROR_CODES ExceededTimeLimit = 262"
| "MONGODB_ERROR_CODES SocketException = 9001"
| "MONGODB_ERROR_CODES NotWritablePrimary = 10107"
| "MONGODB_ERROR_CODES InterruptedAtShutdown = 11600"
| "MONGODB_ERROR_CODES InterruptedDueToReplStateChange = 11602"
| "MONGODB_ERROR_CODES NotPrimaryNoSecondaryOk = 13435"
| "MONGODB_ERROR_CODES NotPrimaryOrSecondary = 13436"
| "MONGODB_ERROR_CODES StaleShardVersion = 63"
| "MONGODB_ERROR_CODES StaleEpoch = 150"
| "MONGODB_ERROR_CODES StaleConfig = 13388"
| "MONGODB_ERROR_CODES RetryChangeStream = 234"
| "MONGODB_ERROR_CODES FailedToSatisfyReadPreference = 133"
| "MONGODB_ERROR_CODES CursorNotFound = 43"
| "MONGODB_ERROR_CODES LegacyNotPrimary = 10058"
| "MONGODB_ERROR_CODES WriteConcernFailed = 64"
| "MONGODB_ERROR_CODES NamespaceNotFound = 26"
| "MONGODB_ERROR_CODES IllegalOperation = 20"
| "MONGODB_ERROR_CODES MaxTimeMSExpired = 50"
| "MONGODB_ERROR_CODES UnknownReplWriteConcern = 79"
| "MONGODB_ERROR_CODES UnsatisfiableWriteConcern = 100"

definition GET_MORE_RESUMABLE_CODES :: "int list" where
  "GET_MORE_RESUMABLE_CODES = map MONGODB_ERROR_CODES
     [HostUnreachable, HostNotFound, NetworkTimeout, ShutdownInProgress, PrimarySteppedDown,
      ExceededTimeLimit, SocketException, NotWritablePrimary, InterruptedAtShutdown,
      InterruptedDueToReplStateChange, NotPrimaryNoSecondaryOk, NotPrimaryOrSecondary,
      StaleShardVersion, StaleEpoch, StaleConfig, RetryChangeStream,
      FailedToSatisfyReadPreference, CursorNotFound]"

definition RETRYABLE_ERROR_CODES :: "int list" where
  "RETRYABLE_ERROR_CODES = map MONGODB_ERROR_CODES
     [HostUnreachable, HostNotFound, NetworkTimeout, ShutdownInProgress, PrimarySteppedDown,
      SocketException, NotWritablePrimary, InterruptedAtShutdown,
      InterruptedDueToReplStateChange, NotPrimaryNoSecondaryOk, NotPrimaryOrSecondary]"

definition RETRYABLE_WRITE_ERROR_CODES :: "int list" where
  "RETRYABLE_WRITE_ERROR_CODES = map MONGODB_ERROR_CODES
     [InterruptedAtShutdown, InterruptedDueToReplStateChange, NotWritablePrimary,
      NotPrimaryNoSecondaryOk, NotPrimaryOrSecondary, PrimarySteppedDown, ShutdownInProgress,
      HostNotFound, HostUnreachable, NetworkTimeout, SocketException, ExceededTimeLimit]"

definition SDAM_RECOVERING_CODES :: "int list" where
  "SDAM_RECOVERING_CODES = map MONGODB_ERROR_CODES
     [ShutdownInProgress, PrimarySteppedDown, InterruptedAtShutdown,
      InterruptedDueToReplStateChange, NotPrimaryOrSecondary]"

definition SDAM_NOTPRIMARY_CODES :: "int list" where
  "SDAM_NOTPRIMARY_CODES = map MONGODB_ERROR_CODES
     [NotWritablePrimary, NotPrimaryNoSecondaryOk, LegacyNotPrimary]"

definition SDAM_NODE_SHUTTING_DOWN_ERROR_CODES :: "int list" where
  "SDAM_NODE_SHUTTING_DOWN_ERROR_CODES = map MONGODB_ERROR_CODES
     [InterruptedAtShutdown, ShutdownInProgress]"

lemmas code_sets = GET_MORE_RESUMABLE_CODES_def RETRYABLE_ERROR_CODES_def
  RETRYABLE_WRITE_ERROR_CODES_def SDAM_RECOVERING_CODES_def SDAM_NOTPRIMARY_CODES_def
  SDAM_NODE_SHUTTING_DOWN_ERROR_CODES_def

section \<open>Classifiers\<close>

definition LEGACY_NOT_WRITABLE_PRIMARY_ERROR_MESSAGE :: string where
  "LEGACY_NOT_WRITABLE_PRIMARY_ERROR_MESSAGE = ''not master''"

definition LEGACY_NOT_PRIMARY_OR_SECONDARY_ERROR_MESSAGE :: string where
  "LEGACY_NOT_PRIMARY_OR_SECONDARY_ERROR_MESSAGE = ''not master or secondary''"

definition NODE_IS_RECOVERING_ERROR_MESSAGE :: string where
  "NODE_IS_RECOVERING_ERROR_MESSAGE = ''node is recovering''"

fun code_in :: "errCode option \<Rightarrow> int list \<Rightarrow> bool" where
  "code_in (Some (CodeNum n)) S = (n \<in> set S)"
| "code_in _ S = False"

definition has_numeric_code :: "mongoError \<Rightarrow> bool" where
  "has_numeric_code e = (case e_code e of Some (CodeNum _) \<Rightarrow> True | _ \<Rightarrow> False)"

definition isRetryableEndTransactionError :: "mongoError \<Rightarrow> bool" where
  "isRetryableEndTransactionError e = hasErrorLabel e ''RetryableWriteError''"

definition isRetryableWriteError :: "mongoError \<Rightarrow> bool" where
  "isRetryableWriteError e =
     (if instanceof e MongoWriteConcernError
      then code_in (coalesce (map_option CodeNum (e_resultCode e))
                      (coalesce (e_code e) (Some (CodeNum 0)))) RETRYABLE_WRITE_ERROR_CODES
      else code_in (e_code e) RETRYABLE_WRITE_ERROR_CODES)"

definition isRetryableError :: "mongoError \<Rightarrow> bool" where
  "isRetryableError e =
     (code_in (e_code e) RETRYABLE_ERROR_CODES
      \<or> instanceof e MongoNetworkError
      \<or> contains_sub LEGACY_NOT_WRITABLE_PRIMARY_ERROR_MESSAGE (e_message e)
      \<or> contains_sub NODE_IS_RECOVERING_ERROR_MESSAGE (e_message e))"

definition isRecoveringError :: "mongoError \<Rightarrow> bool" where
  "isRecoveringError e =
     (if has_numeric_code e then code_in (e_code e) SDAM_RECOVERING_CODES
      else contains_sub LEGACY_NOT_PRIMARY_OR_SECONDARY_ERROR_MESSAGE (e_message e)
        \<or> contains_sub NODE_IS_RECOVERING_ERROR_MESSAGE (e_message e))"

definition isNotWritablePrimaryError :: "mongoError \<Rightarrow> bool" where
  "isNotWritablePrimaryError e =
     (if has_numeric_code e then code_in (e_code e) SDAM_NOTPRIMARY_CODES
      else if isRecoveringError e then False
      else contains_sub LEGACY_NOT_WRITABLE_PRIMARY_ERROR_MESSAGE (e_message e))"

definition isNodeShuttingDownError :: "mongoError \<Rightarrow> bool" where
  "isNodeShuttingDownError e = code_in (e_code e) SDAM_NODE_SHUTTING_DOWN_ERROR_CODES"

text \<open>The argument is \<^term>\<open>None\<close> for a missing error.\<close>

definition isSDAMUnrecoverableError :: "mongoError option \<Rightarrow> bool" where
  "isSDAMUnrecoverableError err =
     (case err of
        None \<Rightarrow> True
      | Some e \<Rightarrow>
          if instanceof e MongoParseError then True
          else isRecoveringError e \<or> isNotWritablePrimaryError e)"

definition isNetworkTimeoutError :: "mongoError \<Rightarrow> bool" where
  "isNetworkTimeoutError e =
     (instanceof e MongoNetworkError \<and> contains_sub ''timed out'' (e_message e))"

definition isNetworkErrorBeforeHandshake :: "mongoError \<Rightarrow> bool" where
  "isNetworkErrorBeforeHandshake e = (e_beforeHandshake e = Some True)"

definition isResumableError :: "mongoError option \<Rightarrow> int option \<Rightarrow> bool" where
  "isResumableError err wireVersion =
     (case err of
        None \<Rightarrow> False
      | Some e \<Rightarrow>
          if instanceof e MongoNetworkError then True
          else if (case wireVersion of None \<Rightarrow> False | Some v \<Rightarrow> v \<ge> 9) then
            (if instanceof e MongoError \<and> e_code e = Some (CodeNum 43) then True
             else instanceof e MongoError \<and> hasErrorLabel e ''ResumableChangeStreamError'')
          else code_in (e_code e) GET_MORE_RESUMABLE_CODES)"

lemmas classifier_defs = isRetryableWriteError_def isRetryableError_def isRecoveringError_def
  isNotWritablePrimaryError_def isNodeShuttingDownError_def isSDAMUnrecoverableError_def

lemma code_inE:
  assumes "code_in c S" obtains n where "c = Some (CodeNum n)" "n \<in> set S"
  using assms by (cases "(c, S)" rule: code_in.cases) auto

lemma has_numeric_code_iff: "has_numeric_code e \<longleftrightarrow> (\<exists>n. e_code e = Some (CodeNum n))"
  by (auto simp: has_numeric_code_def split: option.splits errCode.splits)

lemma classifiers_add_label [simp]:
  "isRetryableError (addErrorLabel e l) = isRetryableError e"
  "isRetryableWriteError (addErrorLabel e l) = isRetryableWriteError e"
  by (simp_all add: classifier_defs)

section \<open>Properties\<close>

lemma not_master_or_secondary_contains:
  "contains_sub LEGACY_NOT_PRIMARY_OR_SECONDARY_ERROR_MESSAGE s \<Longrightarrow>
   contains_sub LEGACY_NOT_WRITABLE_PRIMARY_ERROR_MESSAGE s"
proof -
  have "LEGACY_NOT_PRIMARY_OR_SECONDARY_ERROR_MESSAGE =
      LEGACY_NOT_WRITABLE_PRIMARY_ERROR_MESSAGE @ '' or secondary''"
    by (simp add: LEGACY_NOT_PRIMARY_OR_SECONDARY_ERROR_MESSAGE_def
        LEGACY_NOT_WRITABLE_PRIMARY_ERROR_MESSAGE_def)
  then show "contains_sub LEGACY_NOT_PRIMARY_OR_SECONDARY_ERROR_MESSAGE s \<Longrightarrow> ?thesis"
    unfolding contains_sub_iff by (metis append_assoc)
qed

lemma retryable_write_codes:
  "code_in c RETRYABLE_WRITE_ERROR_CODES \<longleftrightarrow>
   code_in c RETRYABLE_ERROR_CODES \<or> c = Some (CodeNum (MONGODB_ERROR_CODES ExceededTimeLimit))"
  by (cases "(c, RETRYABLE_ERROR_CODES)" rule: code_in.cases) (auto simp: code_sets)

lemma recovering_codes_not_notprimary:
  "code_in c SDAM_RECOVERING_CODES \<Longrightarrow> \<not> code_in c SDAM_NOTPRIMARY_CODES"
  by (auto elim!: code_inE simp: code_sets)

lemma sdam_codes_retryable:
  "code_in c SDAM_RECOVERING_CODES \<or> code_in c SDAM_NOTPRIMARY_CODES \<Longrightarrow>
   c \<noteq> Some (CodeNum (MONGODB_ERROR_CODES LegacyNotPrimary)) \<Longrightarrow>
   code_in c RETRYABLE_ERROR_CODES"
  by (auto elim!: code_inE simp: code_sets)

text \<open>
  The two kinds of state-change error are exclusive: no error is classified both as "node
  is recovering" and as "not writable primary", whether the decision is made on the numeric
  code or on the legacy message text (where "not master" is a substring of "not master or
  secondary").
\<close>

theorem state_change_errors_exclusive:
  "\<not> (isRecoveringError e \<and> isNotWritablePrimaryError e)"
  using recovering_codes_not_notprimary
  by (auto simp: isNotWritablePrimaryError_def isRecoveringError_def)

text \<open>
  Every server error for which SDAM resets the server is also one the driver retries:
  the recovering and not-primary codes and messages are all retryable, with the single
  exception of the legacy code 10058.
\<close>

theorem sdam_unrecoverable_retryable:
  assumes "isSDAMUnrecoverableError (Some e)"
    and "\<not> instanceof e MongoParseError"
    and "e_code e \<noteq> Some (CodeNum (MONGODB_ERROR_CODES LegacyNotPrimary))"
  shows "isRetryableError e"
proof (cases "has_numeric_code e")
  case True
  with assms have "code_in (e_code e) SDAM_RECOVERING_CODES \<or> code_in (e_code e) SDAM_NOTPRIMARY_CODES"
    by (auto simp: isSDAMUnrecoverableError_def isRecoveringError_def isNotWritablePrimaryError_def)
  with assms(3) have "code_in (e_code e) RETRYABLE_ERROR_CODES"
    by (rule sdam_codes_retryable [rotated -1])
  then show ?thesis by (simp add: isRetryableError_def)
next
  case False
  with assms show ?thesis
    by (auto simp: classifier_defs split: if_splits dest: not_master_or_secondary_contains)
qed

theorem sdam_unrecoverable_retryable_witness:
  "isRetryableError (mk_error MongoServerError ''not master or secondary'')"
  by (rule sdam_unrecoverable_retryable)
    (simp_all add: mk_error_def classifier_defs has_numeric_code_iff instanceof_def
      instanceof_class.simps LEGACY_NOT_PRIMARY_OR_SECONDARY_ERROR_MESSAGE_def)

end
