(* ===== verification/Utils.thy ===== *)
theory Utils
  imports Errors "HOL-Library.Multiset"
begin

text \<open>
  \<open>src/utils.ts\<close>: the helpers the other components call.  Host addresses (with the part of the
  WHATWG URL parser they use), namespaces, the table-driven state machine, durations, strict
  equality, the version-4 UUID, the limited Fisher-Yates shuffle, the collection-name check, and
  the interruptible interval that paces server monitoring.
\<close>

unbundle bit_operations_syntax

section \<open>Strings\<close>

text \<open>\<open>s.split(c)\<close> and \<open>parts.join(c)\<close> for a one-character separator.\<close>

fun split_char :: "char \<Rightarrow> string \<Rightarrow> string list" where
  "split_char c [] = [[]]"
| "split_char c (x # xs) =
     (if x = c then [] # split_char c xs
      else (case split_char c xs of [] \<Rightarrow> [[x]] | p # ps \<Rightarrow> (x # p) # ps))"

fun join_with :: "string \<Rightarrow> string list \<Rightarrow> string" where
  "join_with sep [] = []"
| "join_with sep [p] = p"
| "join_with sep (p # q # ps) = p @ sep @ join_with sep (q # ps)"

lemma split_char_ne [simp]: "split_char c s \<noteq> []"
  by (induction s) (auto split: list.splits)

lemma join_split_char: "join_with [c] (split_char c s) = s"
proof (induction s)
  case Nil
  then show ?case by simp
next
  case (Cons x xs)
  obtain p ps where ps: "split_char c xs = p # ps"
    by (cases "split_char c xs") auto
  with Cons.IH show ?case by (cases ps) auto
qed

lemma split_char_append:
  "c \<notin> set p \<Longrightarrow> split_char c (p @ c # s) = p # split_char c s"
  by (induction p) auto

lemma split_char_single: "c \<notin> set p \<Longrightarrow> split_char c p = [p]"
  by (induction p) auto

text \<open>Decimal rendering and reading of a number; \<open>toLowerCase\<close> on ASCII.\<close>

definition digit_char :: "nat \<Rightarrow> char" where
  "digit_char d = char_of (48 + d)"

fun show_nat :: "nat \<Rightarrow> string" where
  "show_nat n = (if n < 10 then [digit_char n] else show_nat (n div 10) @ [digit_char (n mod 10)])"

definition show_int :: "int \<Rightarrow> string" where
  "show_int i = (if i < 0 then ''-'' @ show_nat (nat (- i)) else show_nat (nat i))"

declare show_nat.simps [simp del]

definition is_digit :: "char \<Rightarrow> bool" where
  "is_digit c = (48 \<le> (of_char c :: nat) \<and> (of_char c :: nat) \<le> 57)"

definition digit_val :: "char \<Rightarrow> nat" where
  "digit_val c = of_char c - 48"

definition parse_nat :: "string \<Rightarrow> nat" where
  "parse_nat s = foldl (\<lambda>n c. 10 * n + digit_val c) 0 s"

definition lower_char :: "char \<Rightarrow> char" where
  "lower_char c =
     (let n = (of_char c :: nat) in if 65 \<le> n \<and> n \<le> 90 then char_of (n + 32) else c)"

definition toLowerCase :: "string \<Rightarrow> string" where
  "toLowerCase s = map lower_char s"

lemma of_char_digit_char [simp]: "d < 10 \<Longrightarrow> (of_char (digit_char d) :: nat) = 48 + d"
  by (simp add: digit_char_def)

text \<open>Rendering a concrete digit, for evaluation.\<close>

lemma digit_char_eval:
  "digit_char 0 = CHR ''0''" "digit_char (Suc 0) = CHR ''1''" "digit_char 1 = CHR ''1''"
  "digit_char 2 = CHR ''2''" "digit_char 3 = CHR ''3''" "digit_char 4 = CHR ''4''"
  "digit_char 5 = CHR ''5''" "digit_char 6 = CHR ''6''" "digit_char 7 = CHR ''7''"
  "digit_char 8 = CHR ''8''" "digit_char 9 = CHR ''9''"
  by (simp_all add: digit_char_def char_of_def bit_iff_odd)

lemma is_digit_digit_char [simp]: "d < 10 \<Longrightarrow> is_digit (digit_char d)"
  by (simp add: is_digit_def)

lemma digit_val_digit_char [simp]: "d < 10 \<Longrightarrow> digit_val (digit_char d) = d"
  by (simp add: digit_val_def)

lemma show_nat_ne [simp]: "show_nat n \<noteq> []"
  by (subst show_nat.simps) simp

lemma show_nat_digits: "\<forall>c \<in> set (show_nat n). is_digit c"
proof (induction n rule: show_nat.induct)
  case (1 n)
  then show ?case by (subst show_nat.simps) auto
qed

lemma parse_show_nat: "parse_nat (show_nat n) = n"
proof (induction n rule: show_nat.induct)
  case (1 n)
  show ?case
  proof (cases "n < 10")
    case True
    then show ?thesis by (simp add: show_nat.simps [of n] parse_nat_def)
  next
    case False
    with "1.IH" show ?thesis by (simp add: show_nat.simps [of n] parse_nat_def)
  qed
qed

section \<open>Namespaces\<close>

record mongoDBNamespace =
  ns_db :: string
  ns_collection :: "string option"

definition MongoDBNamespace_toString :: "mongoDBNamespace \<Rightarrow> string" where
  "MongoDBNamespace_toString n =
     (case ns_collection n of
        Some c \<Rightarrow> (if c = [] then ns_db n else ns_db n @ ''.'' @ c)
      | None \<Rightarrow> ns_db n)"

definition withCollection :: "mongoDBNamespace \<Rightarrow> string \<Rightarrow> mongoDBNamespace" where
  "withCollection n c = \<lparr>ns_db = ns_db n, ns_collection = Some c\<rparr>"

definition MongoDBNamespace_fromString :: "string option \<Rightarrow> mongoError + mongoDBNamespace" where
  "MongoDBNamespace_fromString s =
     (case s of
        None \<Rightarrow> Inl (mk_error MongoRuntimeError ''Cannot parse namespace'')
      | Some x \<Rightarrow>
          if x = [] then Inl (mk_error MongoRuntimeError ''Cannot parse namespace'')
          else (case split_char (CHR ''.'') x of
                  [] \<Rightarrow> Inl (mk_error MongoRuntimeError ''Cannot parse namespace'')
                | db # coll \<Rightarrow> Inr \<lparr>ns_db = db, ns_collection = Some (join_with ''.'' coll)\<rparr>))"

definition databaseNamespace :: "string \<Rightarrow> string" where
  "databaseNamespace s = hd (split_char (CHR ''.'') s)"

text \<open>
  Parsing a namespace and printing it gives the string back, for every non-empty string but
  one shape: a database name followed by a lone trailing dot, whose dot is lost.
\<close>

theorem namespace_roundtrip:
  assumes "s \<noteq> []"
  shows "\<exists>n. MongoDBNamespace_fromString (Some s) = Inr n
           \<and> ns_db n = databaseNamespace s
           \<and> (MongoDBNamespace_toString n = s \<or> s = ns_db n @ ''.'')"
proof -
  obtain db coll where sp: "split_char (CHR ''.'') s = db # coll"
    by (cases "split_char (CHR ''.'') s") auto
  have s: "s = join_with ''.'' (db # coll)"
    using join_split_char [of "CHR ''.''" s] sp by simp
  have "join_with ''.'' (db # coll) = db @ ''.'' @ join_with ''.'' coll" if "coll \<noteq> []"
    using that by (cases coll) auto
  with s sp assms show ?thesis
    by (cases coll)
      (auto simp: MongoDBNamespace_fromString_def MongoDBNamespace_toString_def databaseNamespace_def)
qed

theorem namespace_roundtrip_witness:
  "\<exists>n. MongoDBNamespace_fromString (Some ''db.a.b'') = Inr n
     \<and> ns_db n = databaseNamespace ''db.a.b''
     \<and> (MongoDBNamespace_toString n = ''db.a.b'' \<or> ''db.a.b'' = ns_db n @ ''.'')"
  by (rule namespace_roundtrip) simp

section \<open>Host addresses\<close>

text \<open>
  \<open>new URL('mongodb://' + s)\<close> for a scheme that is not special: the authority ends at \<open>/\<close>,
  \<open>?\<close> or \<open>#\<close>, credentials end at the last \<open>@\<close>, a port follows a colon outside brackets.  A
  bracketed IPv6 literal is taken as written (the parser's compression of IPv6 addresses is not
  modelled).  \<^term>\<open>None\<close> is the \<open>TypeError\<close> of an invalid URL.
\<close>

definition forbidden_host_char :: "char \<Rightarrow> bool" where
  "forbidden_host_char c =
     (c \<in> set '' #/:<>?@[]^|'' \<or> c = CHR 0x5C \<or> of_char c \<in> {0 :: nat, 9, 10, 13})"

definition url_authority :: "string \<Rightarrow> string" where
  "url_authority s =
     (let a = takeWhile (\<lambda>c. c \<notin> set ''/?#'') s
      in rev (takeWhile (\<lambda>c. c \<noteq> CHR ''@'') (rev a)))"

definition url_port :: "string \<Rightarrow> string option" where
  "url_port p =
     (if \<not> list_all is_digit p then None
      else if p = [] then Some []
      else if parse_nat p > 65535 then None
      else Some (show_nat (parse_nat p)))"

definition url_host_port :: "string \<Rightarrow> (string \<times> string) option" where
  "url_host_port s =
     (let a = url_authority s in
      if a \<noteq> [] \<and> hd a = CHR ''['' then
        (let lit = takeWhile (\<lambda>c. c \<noteq> CHR '']'') a; rest = dropWhile (\<lambda>c. c \<noteq> CHR '']'') a in
         case rest of
           [] \<Rightarrow> None
         | _ # [] \<Rightarrow> Some (lit @ '']'', [])
         | _ # c # p \<Rightarrow> (if c = CHR '':'' then map_option (Pair (lit @ '']'')) (url_port p) else None))
      else
        (let h = takeWhile (\<lambda>c. c \<noteq> CHR '':'') a; rest = dropWhile (\<lambda>c. c \<noteq> CHR '':'') a in
         if list_ex forbidden_host_char h then None
         else (case rest of
                 [] \<Rightarrow> Some (h, [])
               | _ # p \<Rightarrow> (if h = [] then None else map_option (Pair h) (url_port p)))))"

text \<open>\<open>decodeURIComponent\<close> on ASCII escapes; \<^term>\<open>None\<close> is the \<open>URIError\<close>.\<close>

definition hex_val :: "char \<Rightarrow> nat option" where
  "hex_val c =
     (let n = (of_char c :: nat) in
      if 48 \<le> n \<and> n \<le> 57 then Some (n - 48)
      else if 65 \<le> n \<and> n \<le> 70 then Some (n - 55)
      else if 97 \<le> n \<and> n \<le> 102 then Some (n - 87) else None)"

fun decodeURIComponent :: "string \<Rightarrow> string option" where
  "decodeURIComponent [] = Some []"
| "decodeURIComponent (c # cs) =
     (if c = CHR ''%'' then
        (case cs of
           h # l # rest \<Rightarrow>
             (case (hex_val h, hex_val l) of
                (Some a, Some b) \<Rightarrow>
                  (if 16 * a + b < 128
                   then map_option ((#) (char_of (16 * a + b))) (decodeURIComponent rest) else None)
              | _ \<Rightarrow> None)
         | _ \<Rightarrow> None)
      else map_option ((#) c) (decodeURIComponent cs))"

record hostAddress =
  ha_host :: "string option"
  ha_port :: "nat option"
  ha_socketPath :: "string option"
  ha_isIPv6 :: bool

definition ends_with :: "string \<Rightarrow> string \<Rightarrow> bool" where
  "ends_with suf s = (drop (length s - length suf) s = suf \<and> length suf \<le> length s)"

definition js_type_error :: "string \<Rightarrow> mongoError" where
  "js_type_error m = mk_error JSTypeError m"

definition HostAddress_new :: "string \<Rightarrow> mongoError + hostAddress" where
  "HostAddress_new hostString =
     (let escaped = join_with ''%20'' (split_char (CHR '' '') hostString) in
      case url_host_port escaped of
        None \<Rightarrow> Inl (js_type_error ''Invalid URL'')
      | Some (hostname, port) \<Rightarrow>
          (case decodeURIComponent hostname of
             None \<Rightarrow> Inl (js_type_error ''URI malformed'')
           | Some decoded \<Rightarrow>
               if ends_with ''.sock'' hostname then
                 Inr \<lparr>ha_host = None, ha_port = None, ha_socketPath = Some decoded, ha_isIPv6 = False\<rparr>
               else
                 (let normalized = toLowerCase decoded;
                      v6 = (normalized \<noteq> [] \<and> hd normalized = CHR ''['' \<and> ends_with '']'' normalized);
                      host = (if v6 then take (length hostname - 2) (tl normalized) else normalized);
                      p = (if port = [] then 27017 else parse_nat port)
                  in if p = 0 then Inl (mk_error MongoParseError ''Invalid port (zero) with hostname'')
                     else Inr \<lparr>ha_host = Some (toLowerCase host), ha_port = Some p,
                               ha_socketPath = None, ha_isIPv6 = v6\<rparr>)))"

definition HostAddress_toString :: "hostAddress \<Rightarrow> bool \<Rightarrow> string" where
  "HostAddress_toString h ipv6Brackets =
     (case ha_host h of
        Some host \<Rightarrow>
          (let port = (case ha_port h of Some p \<Rightarrow> show_nat p | None \<Rightarrow> ''undefined'') in
           if ha_isIPv6 h \<and> ipv6Brackets then ''['' @ host @ '']:'' @ port
           else host @ '':'' @ port)
      | None \<Rightarrow> (case ha_socketPath h of Some s \<Rightarrow> s | None \<Rightarrow> ''undefined''))"

definition HostAddress_fromHostPort :: "string \<Rightarrow> nat \<Rightarrow> mongoError + hostAddress" where
  "HostAddress_fromHostPort host port =
     HostAddress_new ((if CHR '':'' \<in> set host then ''['' @ host @ '']'' else host)
                       @ '':'' @ show_nat port)"

text \<open>The address string SDAM uses as a key: \<open>new HostAddress(s).toString()\<close>.\<close>

definition addressOf :: "string \<Rightarrow> mongoError + string" where
  "addressOf s = rbind (HostAddress_new s) (\<lambda>h. Inr (HostAddress_toString h False))"

definition canonical_address :: "string \<Rightarrow> bool" where
  "canonical_address s = (addressOf s = Inr s)"

text \<open>Plain host names, as hello replies list them: lower-case letters, digits, dots, dashes.\<close>

definition plain_host_char :: "char \<Rightarrow> bool" where
  "plain_host_char c =
     (let n = (of_char c :: nat) in
      (97 \<le> n \<and> n \<le> 122) \<or> (48 \<le> n \<and> n \<le> 57) \<or> c = CHR ''.'' \<or> c = CHR ''-'')"

definition plain_host :: "string \<Rightarrow> bool" where
  "plain_host h = (h \<noteq> [] \<and> list_all plain_host_char h \<and> \<not> ends_with ''.sock'' h)"

lemma plain_host_char_neq:
  assumes "plain_host_char c"
  shows "c \<notin> set '' #/:<>?@[]^|%''" "c \<noteq> CHR 0x5C" "of_char c \<notin> {0 :: nat, 9, 10, 13}"
    "lower_char c = c"
  using assms by (auto simp: plain_host_char_def lower_char_def Let_def)

lemma is_digit_plain: "is_digit c \<Longrightarrow> plain_host_char c"
  by (simp add: is_digit_def plain_host_char_def Let_def)

lemma plain_decode: "list_all plain_host_char h \<Longrightarrow> decodeURIComponent h = Some h"
  using plain_host_char_neq(1) by (induction h) auto

lemma plain_lower: "list_all plain_host_char h \<Longrightarrow> toLowerCase h = h"
  using plain_host_char_neq(4) by (induction h) (auto simp: toLowerCase_def)

lemma plain_not_forbidden: "list_all plain_host_char h \<Longrightarrow> \<not> list_ex forbidden_host_char h"
proof (induction h)
  case (Cons c h)
  then show ?case
    using plain_host_char_neq [of c] by (auto simp: forbidden_host_char_def)
qed simp

lemma plain_no_space:
  "list_all plain_host_char h \<Longrightarrow> CHR '' '' \<notin> set h"
  using plain_host_char_neq(1) by (auto simp: list_all_iff)

lemma url_authority_plain:
  assumes "\<forall>c \<in> set s. c \<notin> set ''/?#@''"
  shows "url_authority s = s"
proof -
  have "takeWhile (\<lambda>c. c \<notin> set ''/?#'') s = s"
    using assms by (auto simp: takeWhile_eq_all_conv)
  moreover have "takeWhile (\<lambda>c. c \<noteq> CHR ''@'') (rev s) = rev s"
    using assms by (auto simp: takeWhile_eq_all_conv)
  ultimately show ?thesis unfolding url_authority_def Let_def by (simp only: rev_rev_ident)
qed

lemma url_host_port_plain:
  assumes "plain_host h" and "p \<le> 65535"
  shows "url_host_port (h @ CHR '':'' # show_nat p) = Some (h, show_nat p)"
proof -
  let ?s = "h @ CHR '':'' # show_nat p"
  have plain: "\<forall>c \<in> set h. plain_host_char c" "h \<noteq> []"
    using assms(1) by (auto simp: plain_host_def list_all_iff)
  then have nc: "\<forall>c \<in> set h \<union> set (show_nat p). c \<notin> set '' #/:<>?@[]^|%''"
    using show_nat_digits [of p] is_digit_plain plain_host_char_neq(1) by blast
  then have au: "url_authority ?s = ?s"
    by (intro url_authority_plain) auto
  have tw: "takeWhile (\<lambda>c. c \<noteq> CHR '':'') ?s = h" "dropWhile (\<lambda>c. c \<noteq> CHR '':'') ?s = CHR '':'' # show_nat p"
    using nc by (auto simp: takeWhile_append2 dropWhile_append2)
  have "hd ?s \<noteq> CHR ''[''" using plain nc by (cases h) auto
  moreover have "url_port (show_nat p) = Some (show_nat p)"
    using assms(2) show_nat_digits [of p] by (simp add: url_port_def parse_show_nat list_all_iff)
  moreover have "\<not> list_ex forbidden_host_char h"
    using assms(1) by (simp add: plain_host_def plain_not_forbidden)
  ultimately show ?thesis
    using plain(2) by (simp add: url_host_port_def Let_def au tw)
qed

lemma plain_address_canonical:
  assumes "plain_host h" and "0 < p" and "p \<le> 65535"
  shows "HostAddress_new (h @ CHR '':'' # show_nat p) =
      Inr \<lparr>ha_host = Some h, ha_port = Some p, ha_socketPath = None, ha_isIPv6 = False\<rparr>"
proof -
  let ?s = "h @ CHR '':'' # show_nat p"
  have h: "h \<noteq> []" "list_all plain_host_char h" "\<not> ends_with ''.sock'' h"
    using assms(1) by (auto simp: plain_host_def)
  have "CHR '' '' \<notin> set ?s"
    using plain_no_space [OF h(2)] plain_no_space [of "show_nat p"] show_nat_digits [of p] is_digit_plain
    by (auto simp: list_all_iff)
  then have "join_with ''%20'' (split_char (CHR '' '') ?s) = ?s"
    by (simp add: split_char_single)
  moreover have "hd h \<noteq> CHR ''[''"
    using h plain_host_char_neq(1) [of "hd h"] by (cases h) auto
  ultimately show ?thesis
    using url_host_port_plain [OF assms(1,3)] h assms(2)
    by (simp add: HostAddress_new_def Let_def plain_decode plain_lower parse_show_nat)
qed

text \<open>
  Host addresses are canonical: \<open>fromHostPort\<close> of a plain host name and a valid port parses
  to exactly that host and port, and printing the parsed address gives the input back, so an
  address listed in a hello reply is its own key in the server map.
\<close>

theorem hostAddress_roundtrip:
  assumes "plain_host h" and "0 < p" and "p \<le> 65535"
  shows "HostAddress_fromHostPort h p =
      Inr \<lparr>ha_host = Some h, ha_port = Some p, ha_socketPath = None, ha_isIPv6 = False\<rparr>
    \<and> addressOf (h @ '':'' @ show_nat p) = Inr (h @ '':'' @ show_nat p)"
proof -
  have "CHR '':'' \<notin> set h"
    using assms(1) plain_host_char_neq(1) by (auto simp: plain_host_def list_all_iff)
  with plain_address_canonical [OF assms] show ?thesis
    by (simp add: HostAddress_fromHostPort_def addressOf_def HostAddress_toString_def)
qed

theorem hostAddress_roundtrip_witness:
  "HostAddress_fromHostPort ''db-1.example'' 27018 =
      Inr \<lparr>ha_host = Some ''db-1.example'', ha_port = Some 27018, ha_socketPath = None, ha_isIPv6 = False\<rparr>
    \<and> addressOf (''db-1.example'' @ '':'' @ show_nat 27018) = Inr (''db-1.example'' @ '':'' @ show_nat 27018)"
  by (rule hostAddress_roundtrip) (simp_all add: plain_host_def plain_host_char_def ends_with_def)

section \<open>State machines, durations, equality\<close>

text \<open>
  \<open>makeStateMachine(table)(target, newState)\<close>: throws when the current state has a row that does
  not list the new state; a state with no row may go anywhere.
\<close>

definition makeStateMachine :: "('s \<Rightarrow> 's list option) \<Rightarrow> 's \<Rightarrow> 's \<Rightarrow> mongoError + 's" where
  "makeStateMachine stateTable current newState =
     (case stateTable current of
        Some legalStates \<Rightarrow>
          (if newState \<notin> set legalStates
           then Inl (mk_error MongoRuntimeError ''illegal state transition'') else Inr newState)
      | None \<Rightarrow> Inr newState)"

definition calculateDurationInMs :: "int \<Rightarrow> int \<Rightarrow> int" where
  "calculateDurationInMs now started = (let elapsed = now - started in if elapsed < 0 then 0 else elapsed)"

lemma calculateDurationInMs_max [simp]: "calculateDurationInMs n s = max 0 (n - s)"
  by (simp add: calculateDurationInMs_def Let_def)

definition arrayStrictEqual :: "'a list \<Rightarrow> 'a list \<Rightarrow> bool" where
  "arrayStrictEqual a b = (length a = length b \<and> list_all2 (=) a b)"

lemma arrayStrictEqual_iff [simp]: "arrayStrictEqual a b \<longleftrightarrow> a = b"
  by (auto simp: arrayStrictEqual_def list_all2_eq [symmetric])

text \<open>\<open>constructor.name\<close> and message decide; identity of objects is subsumed.\<close>

definition errorStrictEqual :: "mongoError option \<Rightarrow> mongoError option \<Rightarrow> bool" where
  "errorStrictEqual lhs rhs =
     (case (lhs, rhs) of
        (None, None) \<Rightarrow> True
      | (Some a, Some b) \<Rightarrow> e_class a = e_class b \<and> e_message a = e_message b
      | _ \<Rightarrow> False)"

definition setDifference :: "'a list \<Rightarrow> 'a list \<Rightarrow> 'a list" where
  "setDifference a b = fold removeAll b (remdups a)"

definition isSuperset :: "'a list \<Rightarrow> 'a list \<Rightarrow> bool" where
  "isSuperset s sub = list_all (\<lambda>x. x \<in> set s) sub"

section \<open>UUIDs\<close>

text \<open>The sixteen random bytes come from \<open>crypto.randomBytes\<close>.\<close>

definition uuidV4 :: "byte list \<Rightarrow> byte list" where
  "uuidV4 r = (let r1 = r[6 := ((r ! 6) AND 0x0f) OR 0x40] in r1[8 := ((r1 ! 8) AND 0x3f) OR 0x80])"

section \<open>Shuffle\<close>

text \<open>
  The Fisher-Yates loop; \<open>rnd k\<close> is \<open>Math.floor(Math.random() * k)\<close>, an index below \<open>k\<close>.  On the
  empty array \<open>limit % 0\<close> is \<open>NaN\<close>, and the loop and the slice are empty.
\<close>

fun shuffle_loop :: "(nat \<Rightarrow> nat) \<Rightarrow> nat \<Rightarrow> nat \<Rightarrow> 'a list \<Rightarrow> 'a list" where
  "shuffle_loop rnd lowerBound 0 items = items"
| "shuffle_loop rnd lowerBound (Suc k) items =
     (if Suc k > lowerBound then
        (let r = rnd (Suc k)
         in shuffle_loop rnd lowerBound k (items[k := items ! r, r := items ! k]))
      else items)"

definition shuffle :: "(nat \<Rightarrow> nat) \<Rightarrow> 'a list \<Rightarrow> nat \<Rightarrow> mongoError + 'a list" where
  "shuffle rnd sequence limit =
     (let n = length sequence in
      if limit > n then Inl (mk_error MongoRuntimeError ''Limit must be less than the number of items'')
      else if n = 0 then Inr []
      else
        (let lowerBound = (if limit mod n = 0 then 1 else n - limit);
             items = shuffle_loop rnd lowerBound n sequence
         in Inr (if limit mod n = 0 then items else drop lowerBound items)))"

lemma distinct_subseteq_mset:
  assumes "distinct ys" "mset xs \<subseteq># mset ys"
  shows "distinct xs"
proof -
  have "count (mset xs) a = (if a \<in> set xs then 1 else 0)" for a
  proof -
    have "count (mset xs) a \<le> count (mset ys) a" using assms(2) by (rule mset_subset_eq_count)
    also have "\<dots> \<le> 1" using assms(1) by (simp add: distinct_count_atmost_1)
    finally have "count (mset xs) a \<le> 1" .
    moreover have "count (mset xs) a > 0 \<longleftrightarrow> a \<in> set xs" by (simp add: count_greater_zero_iff)
    ultimately show ?thesis by (auto simp: le_Suc_eq)
  qed
  then show ?thesis by (simp add: distinct_count_atmost_1)
qed

lemma mset_swap2:
  assumes "i < length xs" "j < length xs"
  shows "mset (xs[i := xs ! j, j := xs ! i]) = mset xs"
  using mset_swap [OF assms(2,1)] by simp

lemma shuffle_loop_mset:
  assumes "\<And>k. 0 < k \<Longrightarrow> rnd k < k" and "k \<le> length items"
  shows "mset (shuffle_loop rnd lb k items) = mset items"
  using assms(2)
proof (induction k arbitrary: items)
  case 0
  then show ?case by simp
next
  case (Suc k)
  then have "rnd (Suc k) < length items" "k < length items"
    using assms(1) [of "Suc k"] by auto
  with Suc.IH [of "items[k := items ! rnd (Suc k), rnd (Suc k) := items ! k]"] Suc.prems
  show ?case by (simp add: Let_def mset_swap2)
qed

text \<open>
  \<open>shuffle\<close> with an in-range random source returns a sub-multiset of its input of the
  requested size (all of it for limit zero), and throws exactly when the limit is larger than
  the input.
\<close>

theorem shuffle_selects:
  assumes "\<And>k. 0 < k \<Longrightarrow> rnd k < k"
  shows "if length xs < limit then \<exists>e. shuffle rnd xs limit = Inl e
         else \<exists>ys. shuffle rnd xs limit = Inr ys \<and> mset ys \<subseteq># mset xs
                \<and> length ys = (if limit = 0 then length xs else limit)"
proof (cases "xs = [] \<or> length xs < limit")
  case True
  then show ?thesis by (auto simp: shuffle_def)
next
  case False
  let ?items = "\<lambda>lb. shuffle_loop rnd lb (length xs) xs"
  have m: "mset (?items lb) = mset xs" for lb
    using assms by (rule shuffle_loop_mset) simp_all
  then have len: "length (?items lb) = length xs" for lb
    by (metis size_mset)
  have sub: "mset (drop lb (?items lb)) \<subseteq># mset xs" for lb
    using m by (metis append_take_drop_id mset_append mset_subset_eq_add_right)
  have "limit mod length xs = 0 \<longleftrightarrow> limit = 0 \<or> limit = length xs"
    using False by (cases "limit = length xs") auto
  with False m len sub show ?thesis by (auto simp: shuffle_def Let_def)
qed

theorem shuffle_selects_witness:
  "if length ''abc'' < 2 then \<exists>e. shuffle (\<lambda>k. k - 1) ''abc'' 2 = Inl e
   else \<exists>ys. shuffle (\<lambda>k. k - 1) ''abc'' 2 = Inr ys \<and> mset ys \<subseteq># mset ''abc''
     \<and> length ys = (if (2::nat) = 0 then length ''abc'' else 2)"
  by (rule shuffle_selects) simp

section \<open>Collection names\<close>

definition checkCollectionName :: "string \<Rightarrow> mongoError + unit" where
  "checkCollectionName name =
     (if name = [] \<or> contains_sub ''..'' name
      then Inl (mk_error MongoInvalidArgumentError ''Collection names cannot be empty'')
      else if CHR ''$'' \<in> set name
              \<and> \<not> (take 4 name = ''$cmd'' \<or> contains_sub ''oplog.$main'' name)
      then Inl (mk_error MongoInvalidArgumentError ''Collection names must not contain $'')
      else if hd name = CHR ''.'' \<or> last name = CHR ''.''
      then Inl (mk_error MongoInvalidArgumentError ''Collection names must not start or end with .'')
      else if CHR 0x00 \<in> set name
      then Inl (mk_error MongoInvalidArgumentError ''Collection names cannot contain a null character'')
      else Inr ())"

end
