(* ===== verification/Server_Description.thy ===== *)
theory Server_Description
  imports Utils
begin

text \<open>
  \<open>src/sdam/common.ts\<close> and \<open>src/sdam/server_description.ts\<close>: the server and topology types,
  gossiped cluster times, and the client's view of one server, built from a hello reply.  A hello
  document is the record \<open>hello\<close> of the fields the driver reads; a flag is its truthiness.
\<close>

section \<open>Types and cluster time\<close>

datatype topologyType =
  Single | ReplicaSetNoPrimary | ReplicaSetWithPrimary | Sharded | TopologyUnknown | LoadBalanced

datatype serverType =
  Standalone | Mongos | PossiblePrimary | RSPrimary | RSSecondary | RSArbiter | RSOther
  | RSGhost | ServerUnknown | LoadBalancer

text \<open>A BSON \<open>Timestamp\<close> is an unsigned 64-bit integer, compared as one.\<close>

type_synonym timestamp = "64 word"

record clusterTime =
  ct_clusterTime :: timestamp
  ct_hash :: "byte list"
  ct_keyId :: int

definition advanceClusterTime :: "clusterTime option \<Rightarrow> clusterTime \<Rightarrow> clusterTime option" where
  "advanceClusterTime entity ct =
     (case entity of
        None \<Rightarrow> Some ct
      | Some old \<Rightarrow> (if ct_clusterTime ct > ct_clusterTime old then Some ct else entity))"

interpretation ct: advancing ct_clusterTime advanceClusterTime
proof unfold_locales
  show "advanceClusterTime old x = Some x \<or> advanceClusterTime old x = old \<and> old \<noteq> None" for old x
    by (auto simp: advanceClusterTime_def split: option.splits)
qed (auto simp: advanceClusterTime_def split: option.splits if_splits)

section \<open>Hello replies\<close>

type_synonym tagSet = "(string, string) jsmap"

record hello =
  h_ok :: bool
  h_isreplicaset :: bool
  h_msg :: "string option"
  h_setName :: "string option"
  h_hidden :: bool
  h_isWritablePrimary :: bool
  h_secondary :: bool
  h_arbiterOnly :: bool
  h_hosts :: "string list option"
  h_passives :: "string list option"
  h_arbiters :: "string list option"
  h_tags :: "tagSet option"
  h_minWireVersion :: "int option"
  h_maxWireVersion :: "int option"
  h_lastWriteDate :: "int option"
  h_topologyVersion :: "topologyVersion option"
  h_primary :: "string option"
  h_me :: "string option"
  h_setVersion :: "int option"
  h_electionId :: "objectId option"
  h_logicalSessionTimeoutMinutes :: "int option"
  h_clusterTime :: "clusterTime option"

text \<open>The options of a server description; \<open>roundTripTime\<close> is a number of milliseconds.\<close>

record sdOptions =
  so_error :: "mongoError option"
  so_roundTripTime :: "rat option"
  so_topologyVersion :: "topologyVersion option"
  so_loadBalanced :: bool

definition no_sdOptions :: sdOptions where
  "no_sdOptions = \<lparr>so_error = None, so_roundTripTime = None, so_topologyVersion = None,
     so_loadBalanced = False\<rparr>"

definition parseServerType :: "hello option \<Rightarrow> sdOptions \<Rightarrow> serverType" where
  "parseServerType hello options =
     (if so_loadBalanced options then LoadBalancer
      else case hello of
        None \<Rightarrow> ServerUnknown
      | Some h \<Rightarrow>
          if \<not> h_ok h then ServerUnknown
          else if h_isreplicaset h then RSGhost
          else if h_msg h = Some ''isdbgrid'' then Mongos
          else if truthy_str (h_setName h) then
            (if h_hidden h then RSOther
             else if h_isWritablePrimary h then RSPrimary
             else if h_secondary h then RSSecondary
             else if h_arbiterOnly h then RSArbiter
             else RSOther)
          else Standalone)"

section \<open>Server descriptions\<close>

record serverDescription =
  sd_address :: string
  sd_type :: serverType
  sd_hosts :: "string list"
  sd_passives :: "string list"
  sd_arbiters :: "string list"
  sd_tags :: tagSet
  sd_error :: "mongoError option"
  sd_topologyVersion :: "topologyVersion option"
  sd_minWireVersion :: int
  sd_maxWireVersion :: int
  sd_roundTripTime :: rat
  sd_lastUpdateTime :: int
  sd_lastWriteDate :: int
  sd_me :: "string option"
  sd_primary :: "string option"
  sd_setName :: "string option"
  sd_setVersion :: "int option"
  sd_electionId :: "objectId option"
  sd_logicalSessionTimeoutMinutes :: "int option"
  sd_clusterTime :: "clusterTime option"

definition opt_field :: "hello option \<Rightarrow> (hello \<Rightarrow> 'a option) \<Rightarrow> 'a option" where
  "opt_field h f = Option.bind h f"

definition keep_str :: "string option \<Rightarrow> string option" where
  "keep_str s = (if truthy_str s then s else None)"

definition keep_num :: "int option \<Rightarrow> int option" where
  "keep_num n = (if truthy_num n then n else None)"

definition lower_all :: "string list option \<Rightarrow> string list" where
  "lower_all hs = (case hs of None \<Rightarrow> [] | Some l \<Rightarrow> map toLowerCase l)"

text \<open>The constructor on a \<open>HostAddress\<close>, whose string form is \<open>address\<close>; \<open>now\<close> is the clock.\<close>

definition ServerDescription_of :: "int \<Rightarrow> string \<Rightarrow> hello option \<Rightarrow> sdOptions \<Rightarrow> serverDescription" where
  "ServerDescription_of now address hello options =
     \<lparr>sd_address = address,
      sd_type = parseServerType hello options,
      sd_hosts = lower_all (opt_field hello h_hosts),
      sd_passives = lower_all (opt_field hello h_passives),
      sd_arbiters = lower_all (opt_field hello h_arbiters),
      sd_tags = (case opt_field hello h_tags of None \<Rightarrow> [] | Some t \<Rightarrow> t),
      sd_error = so_error options,
      sd_topologyVersion =
        coalesce (so_topologyVersion options) (opt_field hello h_topologyVersion),
      sd_minWireVersion = (case opt_field hello h_minWireVersion of None \<Rightarrow> 0 | Some v \<Rightarrow> v),
      sd_maxWireVersion = (case opt_field hello h_maxWireVersion of None \<Rightarrow> 0 | Some v \<Rightarrow> v),
      sd_roundTripTime = (case so_roundTripTime options of None \<Rightarrow> -1 | Some r \<Rightarrow> r),
      sd_lastUpdateTime = now,
      sd_lastWriteDate = (case opt_field hello h_lastWriteDate of None \<Rightarrow> 0 | Some d \<Rightarrow> d),
      sd_me = map_option toLowerCase (keep_str (opt_field hello h_me)),
      sd_primary = keep_str (opt_field hello h_primary),
      sd_setName = keep_str (opt_field hello h_setName),
      sd_setVersion = keep_num (opt_field hello h_setVersion),
      sd_electionId = opt_field hello h_electionId,
      sd_logicalSessionTimeoutMinutes = keep_num (opt_field hello h_logicalSessionTimeoutMinutes),
      sd_clusterTime = opt_field hello h_clusterTime\<rparr>"

text \<open>The constructor on a string, which goes through \<open>new HostAddress\<close> and may throw.\<close>

definition ServerDescription_new ::
    "int \<Rightarrow> string \<Rightarrow> hello option \<Rightarrow> sdOptions \<Rightarrow> mongoError + serverDescription" where
  "ServerDescription_new now s hello options =
     rbind (addressOf s) (\<lambda>a. Inr (ServerDescription_of now a hello options))"

definition allHosts :: "serverDescription \<Rightarrow> string list" where
  "allHosts sd = sd_hosts sd @ sd_arbiters sd @ sd_passives sd"

definition WRITABLE_SERVER_TYPES :: "serverType list" where
  "WRITABLE_SERVER_TYPES = [RSPrimary, Standalone, Mongos, LoadBalancer]"

definition DATA_BEARING_SERVER_TYPES :: "serverType list" where
  "DATA_BEARING_SERVER_TYPES = [RSPrimary, RSSecondary, Mongos, Standalone, LoadBalancer]"

definition isWritable :: "serverDescription \<Rightarrow> bool" where
  "isWritable sd = (sd_type sd \<in> set WRITABLE_SERVER_TYPES)"

definition isReadable :: "serverDescription \<Rightarrow> bool" where
  "isReadable sd = (sd_type sd = RSSecondary \<or> isWritable sd)"

definition isDataBearing :: "serverDescription \<Rightarrow> bool" where
  "isDataBearing sd = (sd_type sd \<in> set DATA_BEARING_SERVER_TYPES)"

definition sd_port :: "serverDescription \<Rightarrow> nat" where
  "sd_port sd =
     (let port = last (split_char (CHR '':'') (sd_address sd))
      in if port = [] then 27017 else parse_nat port)"

definition sd_host :: "serverDescription \<Rightarrow> string" where
  "sd_host sd =
     take (length (sd_address sd) - length ('':'' @ show_nat (sd_port sd))) (sd_address sd)"

lemma readable_iff_data_bearing: "isReadable sd = isDataBearing sd"
  by (auto simp: isReadable_def isWritable_def isDataBearing_def WRITABLE_SERVER_TYPES_def
      DATA_BEARING_SERVER_TYPES_def)

section \<open>Comparing descriptions\<close>

text \<open>\<open>Long.fromNumber\<close> saturates at the 64-bit range; \<open>Long.compare\<close> is the sign of the difference.\<close>

definition Long_fromNumber :: "int \<Rightarrow> int" where
  "Long_fromNumber n = max (- (2 ^ 63)) (min (2 ^ 63 - 1) n)"

definition Long_compare :: "int \<Rightarrow> int \<Rightarrow> int" where
  "Long_compare a b = (if a = b then 0 else if a < b then -1 else 1)"

fun as_Long :: "counter \<Rightarrow> int" where
  "as_Long (LongCounter n) = n"
| "as_Long (NumCounter n) = Long_fromNumber n"

text \<open>
  The counter taken for the right-hand side when it is a \<open>Long\<close> is the left-hand one, as the
  code has it (\<open>Long.isLong(rhs.counter) ? lhs.counter : ...\<close>).
\<close>

definition compareTopologyVersion :: "topologyVersion option \<Rightarrow> topologyVersion option \<Rightarrow> int" where
  "compareTopologyVersion lhs rhs =
     (case (lhs, rhs) of
        (Some l, Some r) \<Rightarrow>
          (if tv_processId l = tv_processId r then
             (let lhsCounter = as_Long (tv_counter l);
                  rhsCounter = (case tv_counter r of
                                  LongCounter _ \<Rightarrow> as_Long (tv_counter l)
                                | NumCounter n \<Rightarrow> Long_fromNumber n)
              in Long_compare lhsCounter rhsCounter)
           else -1)
      | _ \<Rightarrow> -1)"

definition tagsStrictEqual :: "tagSet \<Rightarrow> tagSet \<Rightarrow> bool" where
  "tagsStrictEqual tags tags2 =
     (length (map_keys tags) = length (map_keys tags2)
      \<and> list_all (\<lambda>k. map_get tags2 k = map_get tags k) (map_keys tags))"

definition ServerDescription_equals :: "serverDescription \<Rightarrow> serverDescription \<Rightarrow> bool" where
  "ServerDescription_equals a b =
     (let topologyVersionsEqual =
            (sd_topologyVersion a = sd_topologyVersion b
             \<or> compareTopologyVersion (sd_topologyVersion a) (sd_topologyVersion b) = 0);
          electionIdsEqual = (sd_electionId a = sd_electionId b)
      in errorStrictEqual (sd_error a) (sd_error b)
         \<and> sd_type a = sd_type b
         \<and> sd_minWireVersion a = sd_minWireVersion b
         \<and> arrayStrictEqual (sd_hosts a) (sd_hosts b)
         \<and> tagsStrictEqual (sd_tags a) (sd_tags b)
         \<and> sd_setName a = sd_setName b
         \<and> sd_setVersion a = sd_setVersion b
         \<and> electionIdsEqual
         \<and> sd_primary a = sd_primary b
         \<and> sd_logicalSessionTimeoutMinutes a = sd_logicalSessionTimeoutMinutes b
         \<and> topologyVersionsEqual)"

section \<open>Properties\<close>

text \<open>What the constructor establishes: members of a replica set carry its name.\<close>

definition rs_member :: "serverType \<Rightarrow> bool" where
  "rs_member t = (t \<in> {RSPrimary, RSSecondary, RSArbiter, RSOther})"

definition sd_wf :: "serverDescription \<Rightarrow> bool" where
  "sd_wf sd = (rs_member (sd_type sd) \<longrightarrow> truthy_str (sd_setName sd))"

lemma ServerDescription_of_wf: "sd_wf (ServerDescription_of now a hello options)"
  by (auto simp: sd_wf_def rs_member_def ServerDescription_of_def parseServerType_def keep_str_def
      opt_field_def split: option.splits if_splits)

definition unknownDescription :: "int \<Rightarrow> string \<Rightarrow> serverDescription" where
  "unknownDescription now a = ServerDescription_of now a None no_sdOptions"

lemma unknownDescription_simps [simp]:
  "sd_type (unknownDescription now a) = ServerUnknown"
  "sd_address (unknownDescription now a) = a"
  "sd_setName (unknownDescription now a) = None"
  "sd_hosts (unknownDescription now a) = []"
  "sd_arbiters (unknownDescription now a) = []"
  "sd_passives (unknownDescription now a) = []"
  "sd_maxWireVersion (unknownDescription now a) = 0"
  by (simp_all add: unknownDescription_def ServerDescription_of_def parseServerType_def
      no_sdOptions_def opt_field_def lower_all_def keep_str_def)

lemma ServerDescription_new_unknown:
  "ServerDescription_new now s None no_sdOptions =
     rbind (addressOf s) (\<lambda>a. Inr (unknownDescription now a))"
  by (simp add: ServerDescription_new_def unknownDescription_def)

lemma Long_compare_refl [simp]: "Long_compare a a = 0"
  by (simp add: Long_compare_def)

text \<open>
  Comparing topology versions of one server process: against a plain-number counter the
  result is the order of the counters, but against a \<open>Long\<close> counter the result is always
  "equal", whatever the two counters are.
\<close>

theorem compareTopologyVersion_same_process:
  assumes "tv_processId l = tv_processId r"
  shows "compareTopologyVersion (Some l) (Some r) =
     (case tv_counter r of
        NumCounter n \<Rightarrow> Long_compare (as_Long (tv_counter l)) (Long_fromNumber n)
      | LongCounter _ \<Rightarrow> 0)"
  using assms by (simp add: compareTopologyVersion_def split: counter.splits)

theorem compareTopologyVersion_same_process_witness:
  "compareTopologyVersion (Some \<lparr>tv_processId = [1], tv_counter = LongCounter 1\<rparr>)
     (Some \<lparr>tv_processId = [1], tv_counter = LongCounter 7\<rparr>) = 0"
  using compareTopologyVersion_same_process
    [of "\<lparr>tv_processId = [1], tv_counter = LongCounter 1\<rparr>" "\<lparr>tv_processId = [1], tv_counter = LongCounter 7\<rparr>"]
  by simp

text \<open>
  The server type read off a hello reply: a server is a replica-set member exactly when the
  reply is ok, is neither a ghost's nor a mongos's, and names a set; and among those it is the
  primary exactly when it is not hidden and says it is the writable primary.
\<close>

theorem parseServerType_members:
  "(rs_member (parseServerType (Some h) no_sdOptions) \<longleftrightarrow>
      h_ok h \<and> \<not> h_isreplicaset h \<and> h_msg h \<noteq> Some ''isdbgrid'' \<and> truthy_str (h_setName h))
   \<and> (parseServerType (Some h) no_sdOptions = RSPrimary \<longleftrightarrow>
      rs_member (parseServerType (Some h) no_sdOptions) \<and> \<not> h_hidden h \<and> h_isWritablePrimary h)"
  by (auto simp: parseServerType_def rs_member_def no_sdOptions_def)

text \<open>
  An IPv6 server's address string cannot be parsed again: \<open>new HostAddress('[::1]:27017')\<close>
  prints as \<open>::1:27017\<close>, which \<open>new HostAddress\<close> rejects, so a description built from another
  description's address throws for IPv6 servers.
\<close>

theorem ipv6_address_not_reparsable:
  "addressOf ''[::1]:27017'' = Inr ''::1:27017''
   \<and> (\<exists>e. ServerDescription_new now ''::1:27017'' None no_sdOptions = Inl e \<and> e_class e = JSTypeError)"
proof -
  have "show_nat 27017 = ''27017''" "parse_nat ''27017'' = 27017"
    by (simp_all add: show_nat.simps digit_char_eval parse_nat_def digit_val_def)
  then show ?thesis
    by (simp add: addressOf_def HostAddress_new_def url_host_port_def url_authority_def url_port_def
        is_digit_def HostAddress_toString_def toLowerCase_def lower_char_def ends_with_def
        ServerDescription_new_def js_type_error_def mk_error_def)
qed

end
