(* ===== verification/Topology_Description.thy ===== *)
theory Topology_Description
  imports Server_Description
begin

text \<open>
  \<open>src/sdam/topology_description.ts\<close>: the client's view of the whole deployment and how a new
  server description changes it.  The server map is the ordered \<open>Map\<close> of the prelude; the clock
  that stamps the placeholder descriptions is the argument \<open>now\<close>; a thrown error is \<^term>\<open>Inl\<close>.
  The properties are the SDAM safety rules: at most one primary, the topology type agrees with
  the servers, a primary's reply defines the membership, election ids never go back.
\<close>

section \<open>Descriptions\<close>

definition MIN_SUPPORTED_WIRE_VERSION :: int where "MIN_SUPPORTED_WIRE_VERSION = 6"
definition MAX_SUPPORTED_WIRE_VERSION :: int where "MAX_SUPPORTED_WIRE_VERSION = 14"

type_synonym servers = "(string, serverDescription) jsmap"

text \<open>The two compatibility messages, with the address and the version they mention.\<close>

datatype compatibilityError = RequiresWireVersion string int | ReportsWireVersion string int

record topologyDescription =
  td_type :: topologyType
  td_setName :: "string option"
  td_maxSetVersion :: "int option"
  td_maxElectionId :: "objectId option"
  td_servers :: servers
  td_stale :: bool
  td_compatible :: bool
  td_compatibilityError :: "compatibilityError option"
  td_logicalSessionTimeoutMinutes :: "int option"
  td_heartbeatFrequencyMS :: int
  td_localThresholdMS :: rat
  td_commonWireVersion :: "int option"

text \<open>The loop over the servers that checks wire versions; the second check breaks out of it.\<close>

fun compat_loop ::
    "serverDescription list \<Rightarrow> bool \<times> compatibilityError option \<Rightarrow> bool \<times> compatibilityError option" where
  "compat_loop [] acc = acc"
| "compat_loop (s # ss) acc =
     (if sd_type s = ServerUnknown \<or> sd_type s = LoadBalancer then compat_loop ss acc
      else
        (let acc1 = (if sd_minWireVersion s > MAX_SUPPORTED_WIRE_VERSION
                     then (False, Some (RequiresWireVersion (sd_address s) (sd_minWireVersion s)))
                     else acc)
         in if sd_maxWireVersion s < MIN_SUPPORTED_WIRE_VERSION
            then (False, Some (ReportsWireVersion (sd_address s) (sd_maxWireVersion s)))
            else compat_loop ss acc1))"

fun session_timeout_loop :: "serverDescription list \<Rightarrow> int option \<Rightarrow> int option" where
  "session_timeout_loop [] acc = acc"
| "session_timeout_loop (s # ss) acc =
     (if isReadable s then
        (case sd_logicalSessionTimeoutMinutes s of
           None \<Rightarrow> None
         | Some t \<Rightarrow>
             (case acc of
                None \<Rightarrow> session_timeout_loop ss (Some t)
              | Some a \<Rightarrow> session_timeout_loop ss (Some (min a t))))
      else session_timeout_loop ss acc)"

definition TopologyDescription_new ::
    "topologyType \<Rightarrow> servers \<Rightarrow> string option \<Rightarrow> int option \<Rightarrow> objectId option \<Rightarrow> int option
     \<Rightarrow> int \<Rightarrow> rat \<Rightarrow> topologyDescription" where
  "TopologyDescription_new topologyType serverDescriptions setName maxSetVersion maxElectionId
       commonWireVersion heartbeatFrequencyMS localThresholdMS =
     (let compat = compat_loop (map_values serverDescriptions) (True, None) in
      \<lparr>td_type = topologyType,
       td_setName = keep_str setName,
       td_maxSetVersion = keep_num maxSetVersion,
       td_maxElectionId = maxElectionId,
       td_servers = serverDescriptions,
       td_stale = False,
       td_compatible = fst compat,
       td_compatibilityError = snd compat,
       td_logicalSessionTimeoutMinutes = session_timeout_loop (map_values serverDescriptions) None,
       td_heartbeatFrequencyMS = heartbeatFrequencyMS,
       td_localThresholdMS = localThresholdMS,
       td_commonWireVersion = keep_num commonWireVersion\<rparr>)"

section \<open>Helpers of update\<close>

fun topologyTypeForServerType :: "serverType \<Rightarrow> topologyType" where
  "topologyTypeForServerType Standalone = Single"
| "topologyTypeForServerType Mongos = Sharded"
| "topologyTypeForServerType RSPrimary = ReplicaSetWithPrimary"
| "topologyTypeForServerType RSOther = ReplicaSetNoPrimary"
| "topologyTypeForServerType RSSecondary = ReplicaSetNoPrimary"
| "topologyTypeForServerType _ = TopologyUnknown"

text \<open>\<open>Buffer.compare\<close>, and the comparison of object ids, whose \<open>id\<close> is always a buffer.\<close>

fun buffer_compare :: "byte list \<Rightarrow> byte list \<Rightarrow> int" where
  "buffer_compare [] [] = 0"
| "buffer_compare [] (_ # _) = -1"
| "buffer_compare (_ # _) [] = 1"
| "buffer_compare (a # as) (b # bs) =
     (if a < b then -1 else if b < a then 1 else buffer_compare as bs)"

fun compareObjectId :: "objectId option \<Rightarrow> objectId option \<Rightarrow> int" where
  "compareObjectId None _ = -1"
| "compareObjectId (Some _) None = 1"
| "compareObjectId (Some a) (Some b) = buffer_compare a b"

definition checkHasPrimary :: "servers \<Rightarrow> topologyType" where
  "checkHasPrimary m =
     (if list_ex (\<lambda>s. sd_type s = RSPrimary) (map_values m)
      then ReplicaSetWithPrimary else ReplicaSetNoPrimary)"

text \<open>Adding a placeholder for every host that is not known yet.\<close>

fun add_missing :: "int \<Rightarrow> string list \<Rightarrow> servers \<Rightarrow> mongoError + servers" where
  "add_missing now [] m = Inr m"
| "add_missing now (a # as) m =
     (if map_has m a then add_missing now as m
      else rbind (ServerDescription_new now a None no_sdOptions)
             (\<lambda>sd. add_missing now as (map_set a sd m)))"

text \<open>Resetting the first other primary of the map.\<close>

definition reset_old_primary :: "int \<Rightarrow> string \<Rightarrow> servers \<Rightarrow> mongoError + servers" where
  "reset_old_primary now address m =
     (case find (\<lambda>e. sd_type (snd e) = RSPrimary \<and> sd_address (snd e) \<noteq> address) m of
        None \<Rightarrow> Inr m
      | Some e \<Rightarrow>
          rbind (ServerDescription_new now (sd_address (snd e)) None no_sdOptions)
            (\<lambda>sd. Inr (map_set (fst e) sd m)))"

definition remove_unlisted :: "string list \<Rightarrow> servers \<Rightarrow> servers" where
  "remove_unlisted responseAddresses m =
     fold map_delete (filter (\<lambda>a. a \<notin> set responseAddresses) (map_keys m)) m"

type_synonym rsState = "servers \<times> topologyType \<times> string option \<times> int option \<times> objectId option"

text \<open>The stale-primary test.\<close>

definition stale_primary :: "serverDescription \<Rightarrow> int option \<Rightarrow> objectId option \<Rightarrow> bool" where
  "stale_primary sd maxSetVersion maxElectionId =
     (case (sd_setVersion sd, sd_electionId sd, maxSetVersion, maxElectionId) of
        (Some v, Some e, Some mv, Some me) \<Rightarrow>
          v \<noteq> 0 \<and> mv \<noteq> 0 \<and> (mv > v \<or> compareObjectId (Some me) (Some e) > 0)
      | _ \<Rightarrow> False)"

definition updateRsFromPrimary ::
    "int \<Rightarrow> servers \<Rightarrow> serverDescription \<Rightarrow> string option \<Rightarrow> int option \<Rightarrow> objectId option
     \<Rightarrow> mongoError + rsState" where
  "updateRsFromPrimary now m sd setName0 maxSetVersion maxElectionId =
     (let setName = str_or setName0 (sd_setName sd) in
      if setName \<noteq> sd_setName sd then
        (let m1 = map_delete (sd_address sd) m
         in Inr (m1, checkHasPrimary m1, setName, maxSetVersion, maxElectionId))
      else if stale_primary sd maxSetVersion maxElectionId then
        rbind (ServerDescription_new now (sd_address sd) None no_sdOptions)
          (\<lambda>u. let m1 = map_set (sd_address sd) u m
                in Inr (m1, checkHasPrimary m1, setName, maxSetVersion, maxElectionId))
      else
        (let maxElectionId1 =
               (if truthy_num (sd_setVersion sd) \<and> sd_electionId sd \<noteq> None
                then sd_electionId sd else maxElectionId);
             maxSetVersion1 =
               (case sd_setVersion sd of
                  None \<Rightarrow> maxSetVersion
                | Some v \<Rightarrow> (case maxSetVersion of
                              None \<Rightarrow> Some v
                            | Some mv \<Rightarrow> (if v > mv then Some v else maxSetVersion)))
         in rbind (reset_old_primary now (sd_address sd) m)
              (\<lambda>m1. rbind (add_missing now (allHosts sd) m1)
                (\<lambda>m2. let m3 = remove_unlisted (allHosts sd) m2
                       in Inr (m3, checkHasPrimary m3, setName, maxSetVersion1, maxElectionId1)))))"

definition updateRsWithPrimaryFromMember ::
    "servers \<Rightarrow> serverDescription \<Rightarrow> string option \<Rightarrow> mongoError + (servers \<times> topologyType)" where
  "updateRsWithPrimaryFromMember m sd setName =
     (if setName = None then
        Inl (mk_error MongoRuntimeError ''Argument setName is required if connected to a replica set'')
      else
        (let m1 = (if setName \<noteq> sd_setName sd
                      \<or> (truthy_str (sd_me sd) \<and> Some (sd_address sd) \<noteq> sd_me sd)
                   then map_delete (sd_address sd) m else m)
         in Inr (m1, checkHasPrimary m1)))"

definition updateRsNoPrimaryFromMember ::
    "int \<Rightarrow> servers \<Rightarrow> serverDescription \<Rightarrow> string option
     \<Rightarrow> mongoError + (servers \<times> topologyType \<times> string option)" where
  "updateRsNoPrimaryFromMember now m sd setName0 =
     (let setName = str_or setName0 (sd_setName sd) in
      if setName \<noteq> sd_setName sd then
        Inr (map_delete (sd_address sd) m, ReplicaSetNoPrimary, setName)
      else
        rbind (add_missing now (allHosts sd) m)
          (\<lambda>m1. let m2 = (if truthy_str (sd_me sd) \<and> Some (sd_address sd) \<noteq> sd_me sd
                          then map_delete (sd_address sd) m1 else m1)
                 in Inr (m2, ReplicaSetNoPrimary, setName)))"

section \<open>update\<close>

definition MONGOS_OR_UNKNOWN :: "serverType list" where
  "MONGOS_OR_UNKNOWN = [Mongos, ServerUnknown]"
definition MONGOS_OR_STANDALONE :: "serverType list" where
  "MONGOS_OR_STANDALONE = [Mongos, Standalone]"
definition NON_PRIMARY_RS_MEMBERS :: "serverType list" where
  "NON_PRIMARY_RS_MEMBERS = [RSSecondary, RSArbiter, RSOther]"

text \<open>The block for \<open>ReplicaSetNoPrimary\<close>.\<close>

definition update_noPrimary :: "int \<Rightarrow> string \<Rightarrow> serverDescription \<Rightarrow> rsState \<Rightarrow> mongoError + rsState" where
  "update_noPrimary now address sd st =
     (case st of (m, ty, setName, maxSetVersion, maxElectionId) \<Rightarrow>
        let m1 = (if sd_type sd \<in> set MONGOS_OR_STANDALONE then map_delete address m else m)
        in if sd_type sd = RSPrimary then
             updateRsFromPrimary now m1 sd setName maxSetVersion maxElectionId
           else if sd_type sd \<in> set NON_PRIMARY_RS_MEMBERS then
             rbind (updateRsNoPrimaryFromMember now m1 sd setName)
               (\<lambda>(m2, ty2, setName2). Inr (m2, ty2, setName2, maxSetVersion, maxElectionId))
           else Inr (m1, ty, setName, maxSetVersion, maxElectionId))"

text \<open>The block for \<open>ReplicaSetWithPrimary\<close>.\<close>

definition update_withPrimary :: "int \<Rightarrow> string \<Rightarrow> serverDescription \<Rightarrow> rsState \<Rightarrow> mongoError + rsState" where
  "update_withPrimary now address sd st =
     (case st of (m, ty, setName, maxSetVersion, maxElectionId) \<Rightarrow>
        if sd_type sd \<in> set MONGOS_OR_STANDALONE then
          (let m1 = map_delete address m
           in Inr (m1, checkHasPrimary m1, setName, maxSetVersion, maxElectionId))
        else if sd_type sd = RSPrimary then
          updateRsFromPrimary now m sd setName maxSetVersion maxElectionId
        else if sd_type sd \<in> set NON_PRIMARY_RS_MEMBERS then
          rbind (updateRsWithPrimaryFromMember m sd setName)
            (\<lambda>(m1, ty1). Inr (m1, ty1, setName, maxSetVersion, maxElectionId))
        else Inr (m, checkHasPrimary m, setName, maxSetVersion, maxElectionId))"

text \<open>The blocks for \<open>Unknown\<close> and \<open>Sharded\<close>, which run before the replica-set ones.\<close>

definition update_unknown_sharded ::
    "topologyType \<Rightarrow> nat \<Rightarrow> string \<Rightarrow> serverDescription \<Rightarrow> servers \<Rightarrow> servers \<times> topologyType" where
  "update_unknown_sharded ty nservers address sd m =
     (let (m1, ty1) =
            (if ty = TopologyUnknown then
               (if sd_type sd = Standalone \<and> nservers \<noteq> 1 then (map_delete address m, ty)
                else (m, topologyTypeForServerType (sd_type sd)))
             else (m, ty));
          m2 = (if ty1 = Sharded \<and> sd_type sd \<notin> set MONGOS_OR_UNKNOWN
                then map_delete address m1 else m1)
      in (m2, ty1))"

definition TopologyDescription_update ::
    "int \<Rightarrow> topologyDescription \<Rightarrow> serverDescription \<Rightarrow> mongoError + topologyDescription" where
  "TopologyDescription_update now td sd0 =
     rbind (if truthy_str (sd_setName sd0) \<and> truthy_str (td_setName td)
               \<and> sd_setName sd0 \<noteq> td_setName td
            then ServerDescription_new now (sd_address sd0) None no_sdOptions else Inr sd0)
       (\<lambda>sd.
          let address = sd_address sd0;
              commonWireVersion =
                (if sd_maxWireVersion sd \<noteq> 0 then
                   (case td_commonWireVersion td of
                      None \<Rightarrow> Some (sd_maxWireVersion sd)
                    | Some v \<Rightarrow> Some (min v (sd_maxWireVersion sd)))
                 else td_commonWireVersion td);
              m = map_set address sd (td_servers td);
              mk = (\<lambda>(m, ty, setName, maxSetVersion, maxElectionId).
                      TopologyDescription_new ty m setName maxSetVersion maxElectionId
                        commonWireVersion (td_heartbeatFrequencyMS td) (td_localThresholdMS td))
          in if td_type td = Single then
               Inr (mk (m, Single, td_setName td, td_maxSetVersion td, td_maxElectionId td))
             else
               (let (m1, ty1) =
                      update_unknown_sharded (td_type td) (length (td_servers td)) address sd m;
                    st1 = (m1, ty1, td_setName td, td_maxSetVersion td, td_maxElectionId td)
                in rbind (if ty1 = ReplicaSetNoPrimary then update_noPrimary now address sd st1 else Inr st1)
                     (\<lambda>st2. rbind (if fst (snd st2) = ReplicaSetWithPrimary
                                    then update_withPrimary now address sd st2 else Inr st2)
                        (\<lambda>st3. Inr (mk st3)))))"

section \<open>Queries and SRV polling\<close>

definition td_error :: "topologyDescription \<Rightarrow> mongoError option" where
  "td_error td =
     (case filter (\<lambda>s. sd_error s \<noteq> None) (map_values (td_servers td)) of
        [] \<Rightarrow> None | s # _ \<Rightarrow> sd_error s)"

definition hasKnownServers :: "topologyDescription \<Rightarrow> bool" where
  "hasKnownServers td = list_ex (\<lambda>s. sd_type s \<noteq> ServerUnknown) (map_values (td_servers td))"

definition hasDataBearingServers :: "topologyDescription \<Rightarrow> bool" where
  "hasDataBearingServers td = list_ex isDataBearing (map_values (td_servers td))"

definition hasServer :: "topologyDescription \<Rightarrow> string \<Rightarrow> bool" where
  "hasServer td address = map_has (td_servers td) address"

text \<open>\<open>for (const h of hosts) serverDescriptions.set(h, new ServerDescription(h))\<close>.\<close>

fun set_hosts :: "int \<Rightarrow> string list \<Rightarrow> servers \<Rightarrow> mongoError + servers" where
  "set_hosts now [] m = Inr m"
| "set_hosts now (h # hs) m =
     rbind (ServerDescription_new now h None no_sdOptions) (\<lambda>sd. set_hosts now hs (map_set h sd m))"

text \<open>
  \<open>incoming\<close> lists the host names of the SRV records without repetition; \<open>rnd\<close> is the random
  source of \<open>shuffle\<close>.  A description with no change is returned as it is.
\<close>

definition updateFromSrvPollingEvent ::
    "int \<Rightarrow> (nat \<Rightarrow> nat) \<Rightarrow> topologyDescription \<Rightarrow> string list \<Rightarrow> nat \<Rightarrow> mongoError + topologyDescription" where
  "updateFromSrvPollingEvent now rnd td incoming srvMaxHosts =
     (let current = map_keys (td_servers td);
          hostnamesToAdd = filter (\<lambda>h. h \<notin> set current) incoming;
          hostnamesToRemove = filter (\<lambda>h. h \<notin> set incoming) current
      in if hostnamesToAdd = [] \<and> hostnamesToRemove = [] then Inr td
         else
           (let m = fold map_delete hostnamesToRemove (td_servers td)
            in rbind
                 (if hostnamesToAdd \<noteq> [] then
                    (if srvMaxHosts = 0 then set_hosts now hostnamesToAdd m
                     else if length m < srvMaxHosts then
                       rbind (shuffle rnd hostnamesToAdd (srvMaxHosts - length m))
                         (\<lambda>selected. set_hosts now selected m)
                     else Inr m)
                  else Inr m)
                 (\<lambda>m1. Inr (TopologyDescription_new (td_type td) m1 (td_setName td)
                    (td_maxSetVersion td) (td_maxElectionId td) (td_commonWireVersion td)
                    (td_heartbeatFrequencyMS td) (td_localThresholdMS td)))))"

section \<open>The server map\<close>

definition prim :: "servers \<Rightarrow> string \<Rightarrow> bool" where
  "prim m k = (case map_get m k of Some s \<Rightarrow> sd_type s = RSPrimary | None \<Rightarrow> False)"

lemma prim_iff: "prim m k \<longleftrightarrow> (\<exists>s. map_of m k = Some s \<and> sd_type s = RSPrimary)"
  by (simp add: prim_def split: option.splits)

text \<open>A map is good when every entry is stored under its own, re-parsable address.\<close>

definition good_servers :: "servers \<Rightarrow> bool" where
  "good_servers m =
     (map_wf m \<and> (\<forall>k s. map_of m k = Some s \<longrightarrow> sd_address s = k \<and> canonical_address k))"

definition at_most_one_primary :: "servers \<Rightarrow> bool" where
  "at_most_one_primary m = (\<forall>j k. prim m j \<longrightarrow> prim m k \<longrightarrow> j = k)"

definition one_other_primary :: "string \<Rightarrow> servers \<Rightarrow> bool" where
  "one_other_primary a m = (\<forall>j k. j \<noteq> a \<longrightarrow> k \<noteq> a \<longrightarrow> prim m j \<longrightarrow> prim m k \<longrightarrow> j = k)"

lemma at_most_one_imp_other: "at_most_one_primary m \<Longrightarrow> one_other_primary a m"
  by (simp add: at_most_one_primary_def one_other_primary_def)

lemma prim_map_set [simp]:
  "prim (map_set k s m) j = (if j = k then sd_type s = RSPrimary else prim m j)"
  by (simp add: prim_def map_simps)

lemma prim_map_delete [simp]: "prim (map_delete k m) j = (j \<noteq> k \<and> prim m j)"
  by (simp add: prim_def map_simps)

lemma good_servers_set [keeps]:
  "good_servers m \<Longrightarrow> canonical_address (sd_address s) \<Longrightarrow> good_servers (map_set (sd_address s) s m)"
  by (auto simp: good_servers_def map_simps jm.wf_upd)

lemma good_servers_delete [keeps]: "good_servers m \<Longrightarrow> good_servers (map_delete k m)"
  by (auto simp: good_servers_def map_simps jm.wf_del)

lemma checkHasPrimary_iff:
  assumes "map_wf m"
  shows "checkHasPrimary m = ReplicaSetWithPrimary \<longleftrightarrow> (\<exists>k. prim m k)"
    and "checkHasPrimary m = ReplicaSetNoPrimary \<longleftrightarrow> (\<nexists>k. prim m k)"
proof -
  have "list_ex (\<lambda>s. sd_type s = RSPrimary) (map_values m) \<longleftrightarrow>
      (\<exists>s. (\<exists>k. map_of m k = Some s) \<and> sd_type s = RSPrimary)"
    by (simp add: list_ex_iff Bex_def in_map_values [OF assms])
  also have "\<dots> \<longleftrightarrow> (\<exists>k. prim m k)"
    unfolding prim_iff by blast
  finally show "checkHasPrimary m = ReplicaSetWithPrimary \<longleftrightarrow> (\<exists>k. prim m k)"
    and "checkHasPrimary m = ReplicaSetNoPrimary \<longleftrightarrow> (\<nexists>k. prim m k)"
    by (simp_all add: checkHasPrimary_def)
qed

lemma checkHasPrimary_cases: "checkHasPrimary m \<in> {ReplicaSetWithPrimary, ReplicaSetNoPrimary}"
  by (simp add: checkHasPrimary_def)

lemma new_unknown_canonical [simp]:
  "canonical_address a \<Longrightarrow>
   ServerDescription_new now a None no_sdOptions = Inr (unknownDescription now a)"
  by (simp add: ServerDescription_new_unknown canonical_address_def)

lemma add_missing_spec:
  assumes "good_servers m" and "\<forall>h \<in> set hs. canonical_address h"
  shows "\<exists>m'. add_missing now hs m = Inr m' \<and> good_servers m'
    \<and> (\<forall>k. map_of m' k = (case map_of m k of Some s \<Rightarrow> Some s
         | None \<Rightarrow> if k \<in> set hs then Some (unknownDescription now k) else None))"
  using assms
proof (induction hs arbitrary: m)
  case Nil
  then show ?case by (auto split: option.splits)
next
  case (Cons a hs)
  then have can: "canonical_address a" "\<forall>h \<in> set hs. canonical_address h" by auto
  show ?case
  proof (cases "map_has m a")
    case True
    then obtain s where "map_of m a = Some s" by (auto simp: map_has_def)
    then show ?thesis
      using Cons.IH [OF Cons.prems(1) can(2)] True by (fastforce split: option.splits)
  next
    case False
    let ?m1 = "map_set a (unknownDescription now a) m"
    have "good_servers ?m1"
      using good_servers_set [OF Cons.prems(1), of "unknownDescription now a"] can by simp
    from Cons.IH [OF this can(2)] obtain m' where
      "add_missing now hs ?m1 = Inr m'" "good_servers m'"
      "\<forall>k. map_of m' k = (case map_of ?m1 k of Some s \<Rightarrow> Some s
         | None \<Rightarrow> if k \<in> set hs then Some (unknownDescription now k) else None)"
      by blast
    moreover have "map_of m a = None" using False by (simp add: map_has_def)
    ultimately show ?thesis using can False by (auto simp: map_simps split: option.splits)
  qed
qed

lemma add_missing_prim:
  assumes "good_servers m" and "\<forall>h \<in> set hs. canonical_address h" and "add_missing now hs m = Inr m'"
  shows "good_servers m'" and "prim m' k = prim m k"
    and "set (map_keys m') = set (map_keys m) \<union> set hs"
proof -
  from add_missing_spec [OF assms(1,2), of now] assms(3)
  have g: "good_servers m'" and get: "\<And>k. map_of m' k = (case map_of m k of Some s \<Rightarrow> Some s
         | None \<Rightarrow> if k \<in> set hs then Some (unknownDescription now k) else None)"
    by auto
  show "good_servers m'" by (rule g)
  show "prim m' k = prim m k" by (simp add: prim_def get split: option.splits)
  have "k \<in> set (map_keys m') \<longleftrightarrow> k \<in> set (map_keys m) \<union> set hs" for k
    using map_of_None_keys [of m' k] map_of_None_keys [of m k] get [of k]
    by (auto split: option.splits if_splits)
  then show "set (map_keys m') = set (map_keys m) \<union> set hs" by blast
qed

lemma find_other_primary:
  assumes "good_servers m"
  shows "find (\<lambda>e. sd_type (snd e) = RSPrimary \<and> sd_address (snd e) \<noteq> a) m = Some e \<Longrightarrow>
      map_of m (fst e) = Some (snd e) \<and> fst e \<noteq> a \<and> prim m (fst e)"
    and "find (\<lambda>e. sd_type (snd e) = RSPrimary \<and> sd_address (snd e) \<noteq> a) m = None \<Longrightarrow>
      k \<noteq> a \<Longrightarrow> \<not> prim m k"
proof -
  assume "find (\<lambda>e. sd_type (snd e) = RSPrimary \<and> sd_address (snd e) \<noteq> a) m = Some e"
  then have "e \<in> set m" "sd_type (snd e) = RSPrimary" "sd_address (snd e) \<noteq> a"
    by (auto simp: find_Some_iff)
  moreover then have "map_of m (fst e) = Some (snd e)"
    using assms by (auto simp: good_servers_def map_wf_def map_keys_def intro: map_of_is_SomeI)
  ultimately show "map_of m (fst e) = Some (snd e) \<and> fst e \<noteq> a \<and> prim m (fst e)"
    using assms by (auto simp: good_servers_def prim_def)
next
  assume "find (\<lambda>e. sd_type (snd e) = RSPrimary \<and> sd_address (snd e) \<noteq> a) m = None" and "k \<noteq> a"
  then show "\<not> prim m k"
    using assms by (fastforce simp: find_None_iff good_servers_def prim_def
        dest: map_of_SomeD split: option.splits)
qed

lemma reset_old_primary_spec:
  assumes "good_servers m" and "one_other_primary a m"
  shows "\<exists>m'. reset_old_primary now a m = Inr m' \<and> good_servers m'
    \<and> (\<forall>k. k \<noteq> a \<longrightarrow> \<not> prim m' k) \<and> map_keys m' = map_keys m \<and> map_of m' a = map_of m a"
proof (cases "find (\<lambda>e. sd_type (snd e) = RSPrimary \<and> sd_address (snd e) \<noteq> a) m")
  case None
  then show ?thesis
    using assms(1) find_other_primary(2) [OF assms(1)] by (auto simp: reset_old_primary_def)
next
  case (Some e)
  note e = find_other_primary(1) [OF assms(1) Some]
  let ?u = "unknownDescription now (fst e)"
  from e assms(1) have addr: "sd_address (snd e) = fst e" "canonical_address (fst e)"
    by (auto simp: good_servers_def)
  have "good_servers (map_set (fst e) ?u m)"
    using good_servers_set [OF assms(1), of ?u] addr by simp
  moreover have "\<not> prim (map_set (fst e) ?u m) k" if "k \<noteq> a" for k
    using assms(2) e that by (auto simp: one_other_primary_def)
  moreover have "fst e \<in> set (map_keys m)"
    using e map_of_None_keys [of m "fst e"] by auto
  ultimately show ?thesis
    using Some addr e by (auto simp: reset_old_primary_def map_simps)
qed

lemma remove_unlisted_spec:
  "map_of (remove_unlisted hs m) k = (if k \<in> set hs then map_of m k else None)"
  "map_keys (remove_unlisted hs m) = filter (\<lambda>k. k \<in> set hs) (map_keys m)"
  using map_of_None_keys [of m k]
  by (auto simp: remove_unlisted_def map_simps intro: filter_cong)

lemma good_servers_remove [keeps]: "good_servers m \<Longrightarrow> good_servers (remove_unlisted hs m)"
  by (auto simp: good_servers_def remove_unlisted_spec map_wf_def split: if_splits)

lemma prim_remove_unlisted [simp]: "prim (remove_unlisted hs m) k = (k \<in> set hs \<and> prim m k)"
  by (simp add: prim_def remove_unlisted_spec)

section \<open>The invariant\<close>

text \<open>
  What holds of the state the replica-set blocks pass on: the map is good, it has at most one
  primary, the type says whether there is one, and an election id comes with a set version.
\<close>

definition versions_ok :: "int option \<Rightarrow> objectId option \<Rightarrow> bool" where
  "versions_ok mv me = (mv \<noteq> Some 0 \<and> (me \<noteq> None \<longrightarrow> mv \<noteq> None))"

definition rs_ok :: "rsState \<Rightarrow> bool" where
  "rs_ok st = (case st of (m, ty, setName, mv, me) \<Rightarrow>
     good_servers m \<and> at_most_one_primary m
     \<and> (ty = ReplicaSetWithPrimary \<longrightarrow> truthy_str setName \<and> (\<exists>k. prim m k))
     \<and> (ty \<in> {ReplicaSetNoPrimary, Sharded, TopologyUnknown} \<longrightarrow> (\<nexists>k. prim m k))
     \<and> versions_ok mv me)"

definition td_state :: "topologyDescription \<Rightarrow> rsState" where
  "td_state td =
     (td_servers td, td_type td, td_setName td, td_maxSetVersion td, td_maxElectionId td)"

text \<open>A direct or load-balanced topology follows one server, whatever it is.\<close>

definition td_inv :: "topologyDescription \<Rightarrow> bool" where
  "td_inv td = (if td_type td \<in> {Single, LoadBalanced}
     then good_servers (td_servers td) \<and> versions_ok (td_maxSetVersion td) (td_maxElectionId td)
     else rs_ok (td_state td))"

text \<open>A server description a monitor may report.\<close>

definition reportable :: "serverDescription \<Rightarrow> bool" where
  "reportable sd =
     (sd_wf sd \<and> canonical_address (sd_address sd) \<and> (\<forall>h \<in> set (allHosts sd). canonical_address h)
      \<and> (sd_setVersion sd \<noteq> Some 0))"

lemma rs_ok_checkHasPrimary:
  assumes "good_servers m" "at_most_one_primary m" "truthy_str setName" "versions_ok mv me"
  shows "rs_ok (m, checkHasPrimary m, setName, mv, me)"
proof -
  have "map_wf m" using assms(1) by (simp add: good_servers_def)
  note c = checkHasPrimary_iff [OF this]
  show ?thesis
    using assms c checkHasPrimary_cases [of m] by (auto simp: rs_ok_def)
qed

definition next_maxSetVersion :: "serverDescription \<Rightarrow> int option \<Rightarrow> int option" where
  "next_maxSetVersion sd maxSetVersion =
     (case sd_setVersion sd of
        None \<Rightarrow> maxSetVersion
      | Some v \<Rightarrow> (case maxSetVersion of
                    None \<Rightarrow> Some v
                  | Some mv \<Rightarrow> (if v > mv then Some v else maxSetVersion)))"

definition next_maxElectionId :: "serverDescription \<Rightarrow> objectId option \<Rightarrow> objectId option" where
  "next_maxElectionId sd maxElectionId =
     (if truthy_num (sd_setVersion sd) \<and> sd_electionId sd \<noteq> None
      then sd_electionId sd else maxElectionId)"

text \<open>The three outcomes of a reply by a primary: wrong set, stale, accepted.\<close>

lemma updateRsFromPrimary_wrong_set:
  assumes "str_or setName (sd_setName sd) \<noteq> sd_setName sd"
  shows "updateRsFromPrimary now m sd setName mv me =
     Inr (map_delete (sd_address sd) m, checkHasPrimary (map_delete (sd_address sd) m),
          str_or setName (sd_setName sd), mv, me)"
  using assms by (simp add: updateRsFromPrimary_def Let_def)

lemma updateRsFromPrimary_stale:
  assumes "str_or setName (sd_setName sd) = sd_setName sd" "stale_primary sd mv me"
    and "canonical_address (sd_address sd)"
  shows "updateRsFromPrimary now m sd setName mv me =
     (let m1 = map_set (sd_address sd) (unknownDescription now (sd_address sd)) m
      in Inr (m1, checkHasPrimary m1, sd_setName sd, mv, me))"
  using assms by (simp add: updateRsFromPrimary_def Let_def)

lemma updateRsFromPrimary_accepted:
  assumes "str_or setName (sd_setName sd) = sd_setName sd" "\<not> stale_primary sd mv me"
    and "good_servers m" "one_other_primary (sd_address sd) m"
    and "\<forall>h \<in> set (allHosts sd). canonical_address h"
  shows "\<exists>m'. updateRsFromPrimary now m sd setName mv me =
       Inr (m', checkHasPrimary m', sd_setName sd, next_maxSetVersion sd mv, next_maxElectionId sd me)
     \<and> good_servers m' \<and> (\<forall>k. prim m' k \<longrightarrow> k = sd_address sd)
     \<and> set (map_keys m') = set (allHosts sd)
     \<and> (sd_address sd \<in> set (allHosts sd) \<longrightarrow> map_of m (sd_address sd) \<noteq> None
          \<longrightarrow> map_of m' (sd_address sd) = map_of m (sd_address sd))"
proof -
  let ?a = "sd_address sd"
  obtain m1 where m1: "reset_old_primary now ?a m = Inr m1" "good_servers m1"
    "\<forall>k. k \<noteq> ?a \<longrightarrow> \<not> prim m1 k" "map_of m1 ?a = map_of m ?a"
    using reset_old_primary_spec [OF assms(3,4)] by blast
  obtain m2 where m2: "add_missing now (allHosts sd) m1 = Inr m2"
    "\<forall>k. map_of m2 k = (case map_of m1 k of Some s \<Rightarrow> Some s
         | None \<Rightarrow> if k \<in> set (allHosts sd) then Some (unknownDescription now k) else None)"
    using add_missing_spec [OF m1(2) assms(5)] by blast
  note m2p = add_missing_prim [OF m1(2) assms(5) m2(1)]
  let ?m3 = "remove_unlisted (allHosts sd) m2"
  have "updateRsFromPrimary now m sd setName mv me =
      Inr (?m3, checkHasPrimary ?m3, sd_setName sd, next_maxSetVersion sd mv, next_maxElectionId sd me)"
    using assms(1,2) m1(1) m2(1)
    by (simp add: updateRsFromPrimary_def Let_def next_maxSetVersion_def next_maxElectionId_def)
  moreover have "good_servers ?m3" using m2p(1) by (rule good_servers_remove)
  moreover have "prim ?m3 k \<longrightarrow> k = ?a" for k using m1(3) m2p(2) by auto
  moreover have "set (map_keys ?m3) = set (allHosts sd)"
    using m2p(3) by (auto simp: remove_unlisted_spec)
  moreover have "?a \<in> set (allHosts sd) \<longrightarrow> map_of m ?a \<noteq> None \<longrightarrow> map_of ?m3 ?a = map_of m ?a"
    using m1(4) m2(2) by (auto simp: remove_unlisted_spec)
  ultimately show ?thesis by blast
qed

lemma versions_ok_next [keeps]:
  assumes "versions_ok mv me" and "sd_setVersion sd \<noteq> Some 0"
  shows "versions_ok (next_maxSetVersion sd mv) (next_maxElectionId sd me)"
  using assms
  by (auto simp: versions_ok_def next_maxSetVersion_def next_maxElectionId_def
      split: option.splits if_splits)

lemma updateRsFromPrimary_ok:
  assumes "good_servers m" "one_other_primary (sd_address sd) m" "versions_ok mv me"
    and "reportable sd" "sd_type sd = RSPrimary"
  shows "\<exists>st. updateRsFromPrimary now m sd setName mv me = Inr st \<and> rs_ok st
    \<and> fst (snd st) \<in> {ReplicaSetWithPrimary, ReplicaSetNoPrimary}"
proof -
  let ?a = "sd_address sd"
  have can: "canonical_address ?a" "\<forall>h \<in> set (allHosts sd). canonical_address h"
    and sn: "truthy_str (sd_setName sd)" and nz: "sd_setVersion sd \<noteq> Some 0"
    using assms(4,5) by (auto simp: reportable_def sd_wf_def rs_member_def)
  have sn': "truthy_str (str_or setName (sd_setName sd))" using sn by (simp add: str_or_def)
  show ?thesis
  proof (cases "str_or setName (sd_setName sd) = sd_setName sd")
    case False
    have "at_most_one_primary (map_delete ?a m)"
      using assms(2) by (auto simp: one_other_primary_def at_most_one_primary_def)
    with updateRsFromPrimary_wrong_set [OF False] show ?thesis
      using rs_ok_checkHasPrimary [OF good_servers_delete [OF assms(1)] _ sn' assms(3)]
        checkHasPrimary_cases by fastforce
  next
    case True
    show ?thesis
    proof (cases "stale_primary sd mv me")
      case stale: True
      let ?m1 = "map_set ?a (unknownDescription now ?a) m"
      have "good_servers ?m1"
        using good_servers_set [OF assms(1), of "unknownDescription now ?a"] can by simp
      moreover have "at_most_one_primary ?m1"
        using assms(2) by (auto simp: one_other_primary_def at_most_one_primary_def)
      ultimately show ?thesis
        using updateRsFromPrimary_stale [OF True stale can(1)]
          rs_ok_checkHasPrimary [OF _ _ sn assms(3)] checkHasPrimary_cases
        by (fastforce simp: Let_def)
    next
      case fresh: False
      obtain m' where m': "updateRsFromPrimary now m sd setName mv me =
          Inr (m', checkHasPrimary m', sd_setName sd, next_maxSetVersion sd mv, next_maxElectionId sd me)"
        "good_servers m'" "\<forall>k. prim m' k \<longrightarrow> k = ?a"
        using updateRsFromPrimary_accepted [OF True fresh assms(1,2) can(2)] by blast
      then have "at_most_one_primary m'" by (auto simp: at_most_one_primary_def)
      with m' show ?thesis
        using rs_ok_checkHasPrimary [OF m'(2) _ sn versions_ok_next [OF assms(3) nz]]
          checkHasPrimary_cases by fastforce
    qed
  qed
qed

lemma update_noPrimary_ok:
  assumes "good_servers m" "\<forall>k. k \<noteq> sd_address sd \<longrightarrow> \<not> prim m k"
    and "sd_type sd \<noteq> RSPrimary \<longrightarrow> \<not> prim m (sd_address sd)"
    and "versions_ok mv me" "reportable sd"
  shows "\<exists>st. update_noPrimary now (sd_address sd) sd (m, ReplicaSetNoPrimary, setName, mv, me) = Inr st
    \<and> rs_ok st \<and> fst (snd st) \<in> {ReplicaSetWithPrimary, ReplicaSetNoPrimary}
    \<and> (sd_type sd \<noteq> RSPrimary \<longrightarrow> fst (snd st) = ReplicaSetNoPrimary)"
proof (cases "sd_type sd = RSPrimary")
  case True
  have "one_other_primary (sd_address sd) m"
    using assms(2) by (auto simp: one_other_primary_def)
  with updateRsFromPrimary_ok [OF assms(1) _ assms(4,5) True] True show ?thesis
    by (fastforce simp: update_noPrimary_def MONGOS_OR_STANDALONE_def Let_def)
next
  case False
  have np: "\<not> prim m k" for k using assms(2,3) False by (cases "k = sd_address sd") auto
  have hosts: "\<forall>h \<in> set (allHosts sd). canonical_address h"
    using assms(5) by (simp add: reportable_def)
  have ok: "rs_ok (m', ReplicaSetNoPrimary, sn, mv, me)"
    if "good_servers m'" "\<forall>k. \<not> prim m' k" for m' sn
    using that assms(4) by (simp add: rs_ok_def at_most_one_primary_def)
  obtain m1 where m1: "add_missing now (allHosts sd) m = Inr m1"
    using add_missing_spec [OF assms(1) hosts] by blast
  note a = add_missing_prim [OF assms(1) hosts m1]
  have ok1: "rs_ok (m1, ReplicaSetNoPrimary, sn, mv, me)"
    "rs_ok (map_delete k m1, ReplicaSetNoPrimary, sn, mv, me)"
    "rs_ok (map_delete k m, ReplicaSetNoPrimary, sn, mv, me)"
    "rs_ok (m, ReplicaSetNoPrimary, sn, mv, me)" for sn k
    using a(1,2) np assms(1) by (auto intro!: ok good_servers_delete)
  show ?thesis
  proof (cases "sd_type sd \<in> set NON_PRIMARY_RS_MEMBERS")
    case True
    then have "sd_type sd \<notin> set MONGOS_OR_STANDALONE"
      by (auto simp: NON_PRIMARY_RS_MEMBERS_def MONGOS_OR_STANDALONE_def)
    with True False m1 ok1 show ?thesis
      by (auto simp: update_noPrimary_def updateRsNoPrimaryFromMember_def Let_def)
  next
    case nm: False
    with False ok1 show ?thesis by (simp add: update_noPrimary_def Let_def)
  qed
qed

lemma update_withPrimary_ok:
  assumes "good_servers m" "one_other_primary (sd_address sd) m"
    and "sd_type sd \<noteq> RSPrimary \<longrightarrow> \<not> prim m (sd_address sd) \<and> truthy_str setName"
    and "versions_ok mv me" "reportable sd"
  shows "\<exists>st. update_withPrimary now (sd_address sd) sd (m, ty, setName, mv, me) = Inr st
    \<and> rs_ok st \<and> fst (snd st) \<in> {ReplicaSetWithPrimary, ReplicaSetNoPrimary}"
proof (cases "sd_type sd = RSPrimary")
  case True
  with updateRsFromPrimary_ok [OF assms(1,2,4,5) True] show ?thesis
    by (simp add: update_withPrimary_def MONGOS_OR_STANDALONE_def)
next
  case False
  with assms(3) have np: "\<not> prim m (sd_address sd)" and sn: "truthy_str setName" by auto
  have amo: "at_most_one_primary m" "at_most_one_primary (map_delete k m)" for k
    using assms(2) np unfolding one_other_primary_def at_most_one_primary_def prim_map_delete
    by metis+
  have ok: "rs_ok (m, checkHasPrimary m, setName, mv, me)"
    "rs_ok (map_delete k m, checkHasPrimary (map_delete k m), setName, mv, me)" for k
    using rs_ok_checkHasPrimary [OF assms(1) amo(1) sn assms(4)]
      rs_ok_checkHasPrimary [OF good_servers_delete [OF assms(1)] amo(2) sn assms(4)] by auto
  show ?thesis
    using False sn ok checkHasPrimary_cases
    by (auto simp: update_withPrimary_def updateRsWithPrimaryFromMember_def Let_def)
qed

lemma topologyTypeForServerType_WithPrimary:
  "ReplicaSetWithPrimary = topologyTypeForServerType t \<longleftrightarrow> t = RSPrimary"
  by (cases t) auto

text \<open>The Unknown and Sharded blocks hand over what the replica-set blocks expect.\<close>

lemma update_unknown_sharded_ok:
  assumes "rs_ok (m0, ty, setName, mv, me)" "ty \<noteq> Single" "ty \<noteq> LoadBalanced"
    and "canonical_address (sd_address sd)" and "sd_wf sd"
    and "update_unknown_sharded ty n (sd_address sd) sd (map_set (sd_address sd) sd m0) = (m1, ty1)"
  shows "good_servers m1 \<and> one_other_primary (sd_address sd) m1
    \<and> (ty1 = ReplicaSetNoPrimary \<longrightarrow> (\<forall>k. k \<noteq> sd_address sd \<longrightarrow> \<not> prim m1 k))
    \<and> (sd_type sd \<noteq> RSPrimary \<longrightarrow> \<not> prim m1 (sd_address sd))
    \<and> (ty1 \<in> {Sharded, TopologyUnknown} \<longrightarrow> (\<nexists>k. prim m1 k))
    \<and> (ty1 = ReplicaSetWithPrimary \<longrightarrow> sd_type sd = RSPrimary \<or> truthy_str setName)"
proof -
  let ?m = "map_set (sd_address sd) sd m0"
  have g: "good_servers ?m"
    using assms(1,4) by (auto simp: rs_ok_def intro: good_servers_set)
  have amo: "one_other_primary (sd_address sd) m0"
    using assms(1) by (auto simp: rs_ok_def intro: at_most_one_imp_other)
  then have o: "one_other_primary (sd_address sd) ?m"
    by (auto simp: one_other_primary_def)
  then have od: "one_other_primary (sd_address sd) (map_delete k ?m)" for k
    by (auto simp: one_other_primary_def)
  have np: "ty \<in> {ReplicaSetNoPrimary, Sharded, TopologyUnknown} \<Longrightarrow> \<not> prim m0 k" for k
    using assms(1) by (auto simp: rs_ok_def)
  have m1: "m1 = ?m \<or> m1 = map_delete (sd_address sd) ?m"
    and ty1: "ty1 = ty \<or> ty = TopologyUnknown \<and> ty1 = topologyTypeForServerType (sd_type sd)"
    and own: "sd_type sd = RSPrimary \<Longrightarrow>
      ty1 \<noteq> TopologyUnknown \<and> (ty1 = Sharded \<longrightarrow> m1 = map_delete (sd_address sd) ?m)"
    using assms(6)
    by (auto simp: update_unknown_sharded_def Let_def MONGOS_OR_UNKNOWN_def split: if_splits)
  have "good_servers m1" using m1 g good_servers_delete [OF g] by auto
  moreover have "one_other_primary (sd_address sd) m1" using m1 o od by auto
  moreover have others: "\<forall>k. k \<noteq> sd_address sd \<longrightarrow> \<not> prim m1 k"
    if "ty1 \<in> {ReplicaSetNoPrimary, Sharded, TopologyUnknown}"
    using m1 ty1 np that by auto
  moreover have own_np: "sd_type sd \<noteq> RSPrimary \<longrightarrow> \<not> prim m1 (sd_address sd)"
    using m1 by auto
  moreover have "\<nexists>k. prim m1 k" if "ty1 \<in> {Sharded, TopologyUnknown}"
  proof (rule notI, elim exE)
    fix k assume k: "prim m1 k"
    with others that have "k = sd_address sd" by auto
    with k own_np own that show False by auto
  qed
  moreover have "ty1 = ReplicaSetWithPrimary \<longrightarrow> sd_type sd = RSPrimary \<or> truthy_str setName"
    using ty1 assms(1) topologyTypeForServerType_WithPrimary by (auto simp: rs_ok_def)
  ultimately show ?thesis by blast
qed

section \<open>The properties of update\<close>

lemma td_state_new [simp]:
  "td_servers (TopologyDescription_new ty m sn mv me cwv hb thr) = m"
  "td_type (TopologyDescription_new ty m sn mv me cwv hb thr) = ty"
  "td_setName (TopologyDescription_new ty m sn mv me cwv hb thr) = keep_str sn"
  "td_maxSetVersion (TopologyDescription_new ty m sn mv me cwv hb thr) = keep_num mv"
  "td_maxElectionId (TopologyDescription_new ty m sn mv me cwv hb thr) = me"
  by (simp_all add: TopologyDescription_new_def Let_def)

lemma versions_ok_keep [simp]: "versions_ok mv me \<Longrightarrow> keep_num mv = mv"
  by (cases mv) (auto simp: versions_ok_def keep_num_def)

lemma truthy_keep_str [simp]: "truthy_str (keep_str s) = truthy_str s"
  by (simp add: keep_str_def)

lemma rs_ok_new:
  assumes "rs_ok (m, ty, sn, mv, me)" and "ty \<noteq> Single" "ty \<noteq> LoadBalanced"
  shows "td_inv (TopologyDescription_new ty m sn mv me cwv hb thr)"
proof -
  have "versions_ok mv me" using assms(1) by (simp add: rs_ok_def)
  with assms show ?thesis by (auto simp: td_inv_def td_state_def rs_ok_def)
qed

lemma reportable_unknown: "canonical_address a \<Longrightarrow> reportable (unknownDescription now a)"
  by (simp add: reportable_def sd_wf_def rs_member_def allHosts_def)
    (simp add: unknownDescription_def ServerDescription_of_def opt_field_def keep_num_def)

text \<open>The description that replaces a reply from another set.\<close>

definition effective_description :: "int \<Rightarrow> topologyDescription \<Rightarrow> serverDescription \<Rightarrow> serverDescription" where
  "effective_description now td sd =
     (if truthy_str (sd_setName sd) \<and> truthy_str (td_setName td) \<and> sd_setName sd \<noteq> td_setName td
      then unknownDescription now (sd_address sd) else sd)"

lemma effective_description_simps [simp]:
  "sd_address (effective_description now td sd) = sd_address sd"
  by (simp add: effective_description_def)

lemma reportable_effective: "reportable sd \<Longrightarrow> reportable (effective_description now td sd)"
  using reportable_unknown by (auto simp: effective_description_def reportable_def)

definition next_commonWireVersion :: "topologyDescription \<Rightarrow> serverDescription \<Rightarrow> int option" where
  "next_commonWireVersion td sd =
     (if sd_maxWireVersion sd \<noteq> 0 then
        (case td_commonWireVersion td of
           None \<Rightarrow> Some (sd_maxWireVersion sd)
         | Some v \<Rightarrow> Some (min v (sd_maxWireVersion sd)))
      else td_commonWireVersion td)"

definition build :: "topologyDescription \<Rightarrow> serverDescription \<Rightarrow> rsState \<Rightarrow> topologyDescription" where
  "build td sd st = (case st of (m, ty, setName, maxSetVersion, maxElectionId) \<Rightarrow>
     TopologyDescription_new ty m setName maxSetVersion maxElectionId
       (next_commonWireVersion td sd) (td_heartbeatFrequencyMS td) (td_localThresholdMS td))"

text \<open>\<open>update\<close> as a pipeline over the effective description.\<close>

lemma update_pipeline:
  assumes "canonical_address (sd_address sd0)" and "td_type td \<noteq> Single"
    and sd: "sd = effective_description now td sd0"
    and us: "update_unknown_sharded (td_type td) (length (td_servers td)) (sd_address sd0) sd
      (map_set (sd_address sd0) sd (td_servers td)) = (m1, ty1)"
    and st1: "st1 = (m1, ty1, td_setName td, td_maxSetVersion td, td_maxElectionId td)"
  shows "TopologyDescription_update now td sd0 =
    rbind (if ty1 = ReplicaSetNoPrimary then update_noPrimary now (sd_address sd0) sd st1 else Inr st1)
      (\<lambda>st2. rbind (if fst (snd st2) = ReplicaSetWithPrimary
                     then update_withPrimary now (sd_address sd0) sd st2 else Inr st2)
        (\<lambda>st3. Inr (build td sd st3)))"
proof -
  have "(if truthy_str (sd_setName sd0) \<and> truthy_str (td_setName td) \<and> sd_setName sd0 \<noteq> td_setName td
         then ServerDescription_new now (sd_address sd0) None no_sdOptions else Inr sd0) = Inr sd"
    using assms(1) sd by (simp add: effective_description_def)
  with assms(2) us st1 show ?thesis
    unfolding TopologyDescription_update_def build_def next_commonWireVersion_def
    by (simp add: Let_def)
qed

lemma effective_description_eq:
  assumes "canonical_address (sd_address sd)"
  shows "(if truthy_str (sd_setName sd) \<and> truthy_str (td_setName td) \<and> sd_setName sd \<noteq> td_setName td
         then ServerDescription_new now (sd_address sd) None no_sdOptions else Inr sd)
       = Inr (effective_description now td sd)"
  using assms by (simp add: effective_description_def)

lemma update_direct:
  assumes "td_type td \<in> {Single, LoadBalanced}" and "canonical_address (sd_address sd)"
  shows "TopologyDescription_update now td sd =
    Inr (build td (effective_description now td sd)
      (map_set (sd_address sd) (effective_description now td sd) (td_servers td),
       td_type td, td_setName td, td_maxSetVersion td, td_maxElectionId td))"
proof (cases "td_type td = Single")
  case True
  then show ?thesis
    unfolding TopologyDescription_update_def effective_description_eq [OF assms(2)] build_def
      next_commonWireVersion_def by (simp add: Let_def)
next
  case False
  with assms(1) have lb: "td_type td = LoadBalanced" by simp
  then have us: "update_unknown_sharded (td_type td) n a sd' m = (m, LoadBalanced)" for n a sd' m
    by (simp add: update_unknown_sharded_def)
  show ?thesis
    using update_pipeline [OF assms(2) False refl us refl] lb by simp
qed

lemma td_inv_update_direct:
  assumes "td_inv td" "reportable sd" "td_type td \<in> {Single, LoadBalanced}"
  shows "\<exists>td'. TopologyDescription_update now td sd = Inr td' \<and> td_inv td'"
proof -
  let ?e = "effective_description now td sd"
  have can: "canonical_address (sd_address ?e)" "canonical_address (sd_address sd)"
    using assms(2) by (simp_all add: reportable_def)
  have "good_servers (map_set (sd_address ?e) ?e (td_servers td))"
    by (rule good_servers_set) (use assms can in \<open>auto simp: td_inv_def\<close>)
  with assms update_direct [OF assms(3) can(2)] show ?thesis
    by (auto simp: td_inv_def build_def)
qed

text \<open>The two replica-set blocks in sequence; a primary heard in \<open>ReplicaSetNoPrimary\<close> runs both.\<close>

definition rs_blocks :: "int \<Rightarrow> string \<Rightarrow> serverDescription \<Rightarrow> rsState \<Rightarrow> mongoError + rsState" where
  "rs_blocks now address sd st1 =
     rbind (if fst (snd st1) = ReplicaSetNoPrimary then update_noPrimary now address sd st1 else Inr st1)
       (\<lambda>st2. if fst (snd st2) = ReplicaSetWithPrimary
               then update_withPrimary now address sd st2 else Inr st2)"

lemma rbind_assoc: "rbind (rbind r f) g = rbind r (\<lambda>x. rbind (f x) g)"
  by (cases r) auto

lemma update_pipeline_blocks:
  assumes "canonical_address (sd_address sd0)" and "td_type td \<noteq> Single"
    and "update_unknown_sharded (td_type td) (length (td_servers td)) (sd_address sd0)
      (effective_description now td sd0)
      (map_set (sd_address sd0) (effective_description now td sd0) (td_servers td)) = (m1, ty1)"
  shows "TopologyDescription_update now td sd0 =
    rbind (rs_blocks now (sd_address sd0) (effective_description now td sd0)
        (m1, ty1, td_setName td, td_maxSetVersion td, td_maxElectionId td))
      (\<lambda>st. Inr (build td (effective_description now td sd0) st))"
  using update_pipeline [OF assms(1,2) refl assms(3) refl]
  by (simp add: rs_blocks_def rbind_assoc if_distrib [of "\<lambda>r. rbind r _"] cong: if_cong)

lemma rs_blocks_noPrimary:
  assumes "good_servers m" "\<forall>k. k \<noteq> sd_address sd \<longrightarrow> \<not> prim m k"
    and "sd_type sd \<noteq> RSPrimary \<longrightarrow> \<not> prim m (sd_address sd)"
    and "versions_ok mv me" "reportable sd"
  shows "\<exists>st. rs_blocks now (sd_address sd) sd (m, ReplicaSetNoPrimary, setName, mv, me) = Inr st
    \<and> rs_ok st \<and> fst (snd st) \<in> {ReplicaSetWithPrimary, ReplicaSetNoPrimary}"
proof -
  obtain st2 where st2:
    "update_noPrimary now (sd_address sd) sd (m, ReplicaSetNoPrimary, setName, mv, me) = Inr st2"
    "rs_ok st2" "fst (snd st2) \<in> {ReplicaSetWithPrimary, ReplicaSetNoPrimary}"
    "sd_type sd \<noteq> RSPrimary \<longrightarrow> fst (snd st2) = ReplicaSetNoPrimary"
    using update_noPrimary_ok [OF assms] by blast
  show ?thesis
  proof (cases "fst (snd st2) = ReplicaSetWithPrimary")
    case False
    with st2 show ?thesis by (auto simp: rs_blocks_def)
  next
    case True
    obtain m2 sn2 mv2 me2 where eq: "st2 = (m2, ReplicaSetWithPrimary, sn2, mv2, me2)"
      using True by (cases st2) auto
    have "good_servers m2" "one_other_primary (sd_address sd) m2" "versions_ok mv2 me2"
      using st2(2) eq by (auto simp: rs_ok_def intro: at_most_one_imp_other)
    from update_withPrimary_ok [OF this(1,2) _ this(3) assms(5), of sn2 now ReplicaSetWithPrimary]
      st2 True eq show ?thesis by (auto simp: rs_blocks_def)
  qed
qed

lemma rs_blocks_withPrimary:
  assumes "good_servers m" "one_other_primary (sd_address sd) m"
    and "sd_type sd \<noteq> RSPrimary \<longrightarrow> \<not> prim m (sd_address sd) \<and> truthy_str setName"
    and "versions_ok mv me" "reportable sd"
  shows "\<exists>st. rs_blocks now (sd_address sd) sd (m, ReplicaSetWithPrimary, setName, mv, me) = Inr st
    \<and> rs_ok st \<and> fst (snd st) \<in> {ReplicaSetWithPrimary, ReplicaSetNoPrimary}"
  using update_withPrimary_ok [OF assms, of now ReplicaSetWithPrimary] by (simp add: rs_blocks_def)

lemma td_inv_build:
  assumes "rs_ok st" "fst (snd st) \<notin> {Single, LoadBalanced}"
  shows "td_inv (build td sd st)"
  using assms rs_ok_new by (cases st) (auto simp: build_def)

lemma update_unknown_sharded_type:
  assumes "update_unknown_sharded ty n a sd m = (m1, ty1)" "ty \<notin> {Single, LoadBalanced}"
  shows "ty1 \<in> {ReplicaSetNoPrimary, ReplicaSetWithPrimary, Single, Sharded, TopologyUnknown}"
proof -
  have "topologyTypeForServerType t \<noteq> LoadBalanced" for t by (cases t) auto
  then show ?thesis
    using assms by (cases ty1) (auto simp: update_unknown_sharded_def Let_def split: if_splits)
qed

lemma rs_blocks_ok:
  assumes "good_servers m1" "one_other_primary (sd_address sd) m1"
    and "ty1 = ReplicaSetNoPrimary \<longrightarrow> (\<forall>k. k \<noteq> sd_address sd \<longrightarrow> \<not> prim m1 k)"
    and "sd_type sd \<noteq> RSPrimary \<longrightarrow> \<not> prim m1 (sd_address sd)"
    and "ty1 = ReplicaSetWithPrimary \<longrightarrow> sd_type sd = RSPrimary \<or> truthy_str setName"
    and "versions_ok mv me" "reportable sd" "ty1 \<in> {ReplicaSetNoPrimary, ReplicaSetWithPrimary}"
  shows "\<exists>st. rs_blocks now (sd_address sd) sd (m1, ty1, setName, mv, me) = Inr st \<and> rs_ok st
      \<and> fst (snd st) \<in> {ReplicaSetWithPrimary, ReplicaSetNoPrimary}"
proof (cases "ty1 = ReplicaSetNoPrimary")
  case True
  with assms(3) have "\<forall>k. k \<noteq> sd_address sd \<longrightarrow> \<not> prim m1 k" by simp
  from rs_blocks_noPrimary [OF assms(1) this assms(4,6,7)] True show ?thesis by simp
next
  case False
  with assms(8) have ty: "ty1 = ReplicaSetWithPrimary" by simp
  have "sd_type sd \<noteq> RSPrimary \<longrightarrow> \<not> prim m1 (sd_address sd) \<and> truthy_str setName"
    using assms(4,5) ty by blast
  from rs_blocks_withPrimary [OF assms(1,2) this assms(6,7)] ty show ?thesis by simp
qed

lemma td_inv_update:
  assumes "td_inv td" "reportable sd0"
  shows "\<exists>td'. TopologyDescription_update now td sd0 = Inr td' \<and> td_inv td'
    \<and> (td_type td \<noteq> LoadBalanced \<longrightarrow> td_type td' \<noteq> LoadBalanced)"
proof (cases "td_type td \<in> {Single, LoadBalanced}")
  case True
  have "canonical_address (sd_address sd0)" using assms(2) by (simp add: reportable_def)
  from update_direct [OF True this] td_inv_update_direct [OF assms True] True show ?thesis
    by (auto simp: build_def)
next
  case False
  define sd where "sd = effective_description now td sd0"
  have rep: "reportable sd" and addr: "sd_address sd0 = sd_address sd"
    using assms(2) by (simp_all add: sd_def reportable_effective)
  have can: "canonical_address (sd_address sd)" and wf: "sd_wf sd"
    using rep by (auto simp: reportable_def)
  obtain m1 ty1 where us: "update_unknown_sharded (td_type td) (length (td_servers td)) (sd_address sd) sd
      (map_set (sd_address sd) sd (td_servers td)) = (m1, ty1)" by fastforce
  let ?st1 = "(m1, ty1, td_setName td, td_maxSetVersion td, td_maxElectionId td)"
  have upd: "TopologyDescription_update now td sd0 =
      rbind (rs_blocks now (sd_address sd) sd ?st1) (\<lambda>st. Inr (build td sd st))"
    using update_pipeline_blocks [of sd0 td now m1 ty1] can us False
    unfolding sd_def [symmetric] addr by simp
  have rs: "rs_ok (td_servers td, td_type td, td_setName td, td_maxSetVersion td, td_maxElectionId td)"
    using assms(1) False by (simp add: td_inv_def td_state_def)
  then have v: "versions_ok (td_maxSetVersion td) (td_maxElectionId td)" by (simp add: rs_ok_def)
  have "td_type td \<noteq> Single" "td_type td \<noteq> LoadBalanced" using False by auto
  note h = update_unknown_sharded_ok [OF rs this can wf us]
  show ?thesis
  proof (cases "ty1 \<in> {ReplicaSetNoPrimary, ReplicaSetWithPrimary}")
    case True
    from rs_blocks_ok [OF _ _ _ _ _ v rep this] h obtain st where
      st: "rs_blocks now (sd_address sd) sd ?st1 = Inr st" "rs_ok st"
      "fst (snd st) \<in> {ReplicaSetWithPrimary, ReplicaSetNoPrimary}" by blast
    have "td_inv (build td sd st)" by (rule td_inv_build) (use st in auto)
    moreover have "td_type (build td sd st) \<noteq> LoadBalanced"
      using st(3) by (cases st) (auto simp: build_def)
    ultimately show ?thesis using upd st(1) by simp
  next
    case other: False
    then have "rs_blocks now (sd_address sd) sd ?st1 = Inr ?st1" by (simp add: rs_blocks_def)
    then have upd': "TopologyDescription_update now td sd0 = Inr (build td sd ?st1)" using upd by simp
    have nlb: "td_type (build td sd ?st1) = ty1" "ty1 \<noteq> LoadBalanced"
      using update_unknown_sharded_type [OF us False] by (auto simp: build_def)
    have "td_inv (build td sd ?st1)"
    proof (cases "ty1 = Single")
      case True
      with h v show ?thesis by (simp add: build_def td_inv_def)
    next
      case False
      then have "ty1 \<in> {Sharded, TopologyUnknown}"
        using other update_unknown_sharded_type [OF us] \<open>td_type td \<notin> {Single, LoadBalanced}\<close> by auto
      then have "rs_ok ?st1" using h v by (auto simp: rs_ok_def at_most_one_primary_def)
      with nlb False show ?thesis by (auto intro: td_inv_build)
    qed
    with upd' nlb show ?thesis by simp
  qed
qed

text \<open>A run of updates, each at its own time; it stops at the first throw.\<close>

fun updates :: "topologyDescription \<Rightarrow> (int \<times> serverDescription) list \<Rightarrow> mongoError + topologyDescription" where
  "updates td [] = Inr td"
| "updates td ((now, sd) # us) = rbind (TopologyDescription_update now td sd) (\<lambda>td'. updates td' us)"

lemma td_inv_updates:
  assumes "td_inv td" "\<forall>u \<in> set us. reportable (snd u)"
  shows "\<exists>td'. updates td us = Inr td' \<and> td_inv td'
    \<and> (td_type td \<noteq> LoadBalanced \<longrightarrow> td_type td' \<noteq> LoadBalanced)"
  using assms
proof (induction us arbitrary: td)
  case Nil
  then show ?case by simp
next
  case (Cons u us)
  obtain now sd where u: "u = (now, sd)" by fastforce
  with Cons.prems(2) have r: "reportable sd" by simp
  from td_inv_update [OF Cons.prems(1) r, of now] obtain td1 where
    td1: "TopologyDescription_update now td sd = Inr td1" "td_inv td1"
    "td_type td \<noteq> LoadBalanced \<longrightarrow> td_type td1 \<noteq> LoadBalanced" by blast
  from Cons.IH [OF td1(2)] Cons.prems(2) td1 u show ?case by auto
qed

text \<open>A topology as a client starts it: placeholders only, no versions seen.\<close>

definition td_initial :: "topologyDescription \<Rightarrow> bool" where
  "td_initial td =
     (td_type td \<in> {ReplicaSetNoPrimary, Sharded, TopologyUnknown} \<and> good_servers (td_servers td)
      \<and> (\<forall>k s. map_of (td_servers td) k = Some s \<longrightarrow> sd_type s = ServerUnknown)
      \<and> td_maxSetVersion td = None \<and> td_maxElectionId td = None)"

lemma td_initial_inv: "td_initial td \<Longrightarrow> td_inv td"
proof -
  assume i: "td_initial td"
  then have "\<not> prim (td_servers td) k" for k by (auto simp: td_initial_def prim_iff)
  with i show ?thesis
    by (auto simp: td_initial_def td_inv_def td_state_def rs_ok_def at_most_one_primary_def versions_ok_def)
qed

lemma canonical_ab: "canonical_address ''a:1''" "canonical_address ''b:1''" "canonical_address ''c:1''"
  using plain_address_canonical [of "''a''" 1] plain_address_canonical [of "''b''" 1]
    plain_address_canonical [of "''c''" 1]
  by (simp_all add: canonical_address_def addressOf_def HostAddress_toString_def plain_host_def
      plain_host_char_def ends_with_def show_nat.simps digit_char_eval)

text \<open>
  (C1) The single-primary rule.  Start from a replica-set, sharded or unknown topology whose
  servers are all placeholders; after any sequence of server descriptions with well-formed
  addresses, no update has thrown, at most one server is a primary, and the topology type is
  \<open>ReplicaSetWithPrimary\<close> exactly when there is a primary (unless the deployment turned out to be
  a single standalone server).
\<close>

theorem single_primary:
  assumes "td_initial td" and "\<forall>u \<in> set us. reportable (snd u)"
  shows "\<exists>td'. updates td us = Inr td'
    \<and> (td_type td' \<noteq> Single \<longrightarrow>
        (\<forall>j k. prim (td_servers td') j \<longrightarrow> prim (td_servers td') k \<longrightarrow> j = k)
        \<and> (td_type td' = ReplicaSetWithPrimary \<longleftrightarrow> (\<exists>k. prim (td_servers td') k)))"
proof -
  from td_inv_updates [OF td_initial_inv [OF assms(1)] assms(2)] assms(1)
  obtain td' where td': "updates td us = Inr td'" "td_inv td'" "td_type td' \<noteq> LoadBalanced"
    by (auto simp: td_initial_def)
  have "td_type td' \<noteq> Single \<longrightarrow>
        (\<forall>j k. prim (td_servers td') j \<longrightarrow> prim (td_servers td') k \<longrightarrow> j = k)
        \<and> (td_type td' = ReplicaSetWithPrimary \<longleftrightarrow> (\<exists>k. prim (td_servers td') k))"
    using td'(2,3)
    by (cases "td_type td'") (auto simp: td_inv_def td_state_def rs_ok_def at_most_one_primary_def)
  with td'(1) show ?thesis by blast
qed

end
