(* ===== verification/Topology_Rules.thy ===== *)
theory Topology_Rules
  imports Topology_Description
begin

text \<open>
  The consequences of \<open>TopologyDescription.update\<close> that the rest of the driver relies on: which
  members a primary's reply leaves, that the set version and the election id never go back, the
  derived fields (wire-version compatibility, session timeout), the SRV polling update; and two
  places where the update does not do what the SDAM rules say.
\<close>

section \<open>Example deployment\<close>

definition example_primary :: "string \<Rightarrow> string list \<Rightarrow> int option \<Rightarrow> objectId option \<Rightarrow> serverDescription" where
  "example_primary a hs v e = (unknownDescription 0 a)
     \<lparr>sd_type := RSPrimary, sd_setName := Some ''rs'', sd_hosts := hs, sd_setVersion := v,
      sd_electionId := e, sd_maxWireVersion := 13\<rparr>"

definition example_topology :: "topologyType \<Rightarrow> string list \<Rightarrow> int option \<Rightarrow> topologyDescription" where
  "example_topology ty hs v =
     TopologyDescription_new ty (map (\<lambda>h. (h, unknownDescription 0 h)) hs) (Some ''rs'') v None None 10000 15"

lemma reportable_example:
  "canonical_address a \<Longrightarrow> \<forall>h \<in> set hs. canonical_address h \<Longrightarrow> v \<noteq> Some 0 \<Longrightarrow>
   reportable (example_primary a hs v e)"
  by (auto simp: reportable_def example_primary_def sd_wf_def rs_member_def allHosts_def truthy_str_def)

lemma initial_example:
  assumes "distinct hs" "\<forall>h \<in> set hs. canonical_address h"
    and "ty \<in> {ReplicaSetNoPrimary, Sharded, TopologyUnknown}"
  shows "td_initial (example_topology ty hs None)"
proof -
  let ?m = "map (\<lambda>h. (h, unknownDescription 0 h)) hs"
  have get: "map_of ?m k = (if k \<in> set hs then Some (unknownDescription 0 k) else None)" for k
    by (induction hs) auto
  have "map_wf ?m" using assms(1) by (simp add: map_wf_def map_keys_def comp_def)
  with assms(2,3) get show ?thesis
    by (auto simp: td_initial_def example_topology_def good_servers_def keep_num_def split: if_splits)
qed

theorem single_primary_witness:
  "\<exists>td'. updates (example_topology ReplicaSetNoPrimary [''a:1'', ''b:1''] None)
      [(5, example_primary ''a:1'' [''a:1'', ''b:1''] (Some 1) None),
       (6, example_primary ''b:1'' [''a:1'', ''b:1''] (Some 2) None)] = Inr td'
    \<and> (td_type td' \<noteq> Single \<longrightarrow>
        (\<forall>j k. prim (td_servers td') j \<longrightarrow> prim (td_servers td') k \<longrightarrow> j = k)
        \<and> (td_type td' = ReplicaSetWithPrimary \<longleftrightarrow> (\<exists>k. prim (td_servers td') k)))"
  by (rule single_primary)
    (simp_all add: initial_example reportable_example canonical_ab)

section \<open>A primary's reply\<close>

text \<open>What an accepted primary does to the servers: the members are those it lists.\<close>

lemma accepted_primary:
  assumes "good_servers m" "one_other_primary (sd_address sd) m" "map_of m (sd_address sd) = Some sd"
    and "reportable sd" "sd_type sd = RSPrimary"
    and "setName = None \<or> sd_setName sd = setName" "\<not> stale_primary sd mv me"
  obtains m' where
    "updateRsFromPrimary now m sd setName mv me =
       Inr (m', if sd_address sd \<in> set (allHosts sd) then ReplicaSetWithPrimary else ReplicaSetNoPrimary,
            sd_setName sd, next_maxSetVersion sd mv, next_maxElectionId sd me)"
    "good_servers m'" "set (map_keys m') = set (allHosts sd)"
    "\<And>k. prim m' k \<longleftrightarrow> k = sd_address sd \<and> sd_address sd \<in> set (allHosts sd)"
    "sd_address sd \<in> set (allHosts sd) \<Longrightarrow> map_of m' (sd_address sd) = Some sd"
proof -
  let ?a = "sd_address sd"
  have sn: "str_or setName (sd_setName sd) = sd_setName sd"
    using assms(6) by (auto simp: str_or_def)
  have can: "\<forall>h \<in> set (allHosts sd). canonical_address h" using assms(4) by (simp add: reportable_def)
  obtain m' where m': "updateRsFromPrimary now m sd setName mv me
      = Inr (m', checkHasPrimary m', sd_setName sd, next_maxSetVersion sd mv, next_maxElectionId sd me)"
    "good_servers m'" "\<forall>k. prim m' k \<longrightarrow> k = ?a" "set (map_keys m') = set (allHosts sd)"
    "?a \<in> set (allHosts sd) \<longrightarrow> map_of m' ?a = Some sd"
    using updateRsFromPrimary_accepted [OF sn assms(7,1,2) can, of now] assms(3) by auto
  have p: "prim m' k \<longleftrightarrow> k = ?a \<and> ?a \<in> set (allHosts sd)" for k
    using m'(3,4,5) assms(5) map_of_None_keys [of m' k] by (auto simp: prim_iff)
  have "map_wf m'" using m'(2) by (simp add: good_servers_def)
  from checkHasPrimary_iff(1) [OF this] p
  have "checkHasPrimary m' = ReplicaSetWithPrimary \<longleftrightarrow> ?a \<in> set (allHosts sd)" by simp
  with checkHasPrimary_cases [of m']
  have "checkHasPrimary m' = (if ?a \<in> set (allHosts sd) then ReplicaSetWithPrimary else ReplicaSetNoPrimary)"
    by (cases "?a \<in> set (allHosts sd)") simp_all
  with m'(1) show ?thesis using that [OF _ m'(2,4) p] m'(5) by simp
qed

text \<open>
  The replica-set blocks on the reply of a primary.  A reply heard in \<open>ReplicaSetNoPrimary\<close> goes through
  both, the second time against the versions it has just brought.
\<close>

lemma rs_blocks_primary:
  assumes "good_servers m" "one_other_primary (sd_address sd) m" "map_of m (sd_address sd) = Some sd"
    and "reportable sd" "sd_type sd = RSPrimary"
    and "setName = None \<or> sd_setName sd = setName" "\<not> stale_primary sd mv me"
    and "ty \<in> {ReplicaSetNoPrimary, ReplicaSetWithPrimary}"
    and "ty = ReplicaSetNoPrimary \<longrightarrow> \<not> stale_primary sd (next_maxSetVersion sd mv) (next_maxElectionId sd me)"
  obtains m' mv' me' where
    "rs_blocks now (sd_address sd) sd (m, ty, setName, mv, me) =
       Inr (m', if sd_address sd \<in> set (allHosts sd) then ReplicaSetWithPrimary else ReplicaSetNoPrimary,
            sd_setName sd, mv', me')"
    "set (map_keys m') = set (allHosts sd)"
    "\<And>k. prim m' k \<longleftrightarrow> k = sd_address sd \<and> sd_address sd \<in> set (allHosts sd)"
proof -
  let ?a = "sd_address sd" and ?mv = "next_maxSetVersion sd mv" and ?me = "next_maxElectionId sd me"
  note simps = rs_blocks_def update_noPrimary_def update_withPrimary_def MONGOS_OR_STANDALONE_def Let_def
  obtain m1 where m1: "updateRsFromPrimary now m sd setName mv me =
       Inr (m1, if ?a \<in> set (allHosts sd) then ReplicaSetWithPrimary else ReplicaSetNoPrimary, sd_setName sd, ?mv, ?me)"
    "good_servers m1" "set (map_keys m1) = set (allHosts sd)" "\<And>k. prim m1 k \<longleftrightarrow> k = ?a \<and> ?a \<in> set (allHosts sd)"
    "?a \<in> set (allHosts sd) \<Longrightarrow> map_of m1 ?a = Some sd"
    using accepted_primary [OF assms(1-7), of now] by blast
  show ?thesis
  proof (cases "ty = ReplicaSetNoPrimary \<and> ?a \<in> set (allHosts sd)")
    case False
    with m1 assms(5,8) show ?thesis by (intro that [of m1 ?mv ?me]) (auto simp: simps)
  next
    case True
    have "one_other_primary ?a m1" using m1(4) by (auto simp: one_other_primary_def)
    note second = accepted_primary [OF m1(2) this m1(5) assms(4,5), of "sd_setName sd" ?mv ?me now]
    obtain m2 where m2: "updateRsFromPrimary now m1 sd (sd_setName sd) ?mv ?me =
         Inr (m2, if ?a \<in> set (allHosts sd) then ReplicaSetWithPrimary else ReplicaSetNoPrimary, sd_setName sd,
              next_maxSetVersion sd ?mv, next_maxElectionId sd ?me)"
      "set (map_keys m2) = set (allHosts sd)" "\<forall>k. prim m2 k \<longleftrightarrow> k = ?a \<and> ?a \<in> set (allHosts sd)"
      by (rule second) (use True assms(9) in auto)
    with True m1(1) assms(5) show ?thesis
      by (intro that [of m2 "next_maxSetVersion sd ?mv" "next_maxElectionId sd ?me"]) (auto simp: simps)
  qed
qed

text \<open>
  (C2) A primary defines the membership.  In a topology of type \<open>Unknown\<close>, \<open>ReplicaSetNoPrimary\<close> or
  \<open>ReplicaSetWithPrimary\<close>, a reply of a primary of the same set (or of any set, while none is known) whose
  versions are not stale makes the servers exactly the hosts, passives and arbiters it lists,
  whatever was known before; only the replying server can be primary, and it is exactly when it lists
  itself.  Without a primary the reply must not be stale against the versions it brings either, since
  it is then processed twice (see \<open>primary_processed_twice\<close>).
\<close>

theorem primary_defines_membership:
  assumes "td_inv td" "td_type td \<in> {TopologyUnknown, ReplicaSetNoPrimary, ReplicaSetWithPrimary}" "reportable sd"
    and "sd_type sd = RSPrimary" "td_setName td = None \<or> sd_setName sd = td_setName td"
    and "\<not> stale_primary sd (td_maxSetVersion td) (td_maxElectionId td)"
    and "td_type td = ReplicaSetNoPrimary \<longrightarrow>
      \<not> stale_primary sd (next_maxSetVersion sd (td_maxSetVersion td)) (next_maxElectionId sd (td_maxElectionId td))"
  shows "\<exists>td'. TopologyDescription_update now td sd = Inr td'
    \<and> set (map_keys (td_servers td')) = set (allHosts sd)
    \<and> (\<forall>k. prim (td_servers td') k \<longleftrightarrow> k = sd_address sd \<and> sd_address sd \<in> set (allHosts sd))
    \<and> (td_type td' = ReplicaSetWithPrimary \<longleftrightarrow> sd_address sd \<in> set (allHosts sd))"
proof -
  let ?a = "sd_address sd" and ?m = "map_set (sd_address sd) sd (td_servers td)"
  let ?ty = "if td_type td = TopologyUnknown then ReplicaSetWithPrimary else td_type td"
  have can: "canonical_address ?a" using assms(3) by (simp add: reportable_def)
  have rs: "good_servers (td_servers td)" "at_most_one_primary (td_servers td)"
    using assms(1,2) by (auto simp: td_inv_def td_state_def rs_ok_def)
  have g: "good_servers ?m" using rs(1) can by (rule good_servers_set)
  have other: "one_other_primary ?a ?m"
    using rs(2) by (auto simp: one_other_primary_def at_most_one_primary_def)
  have e: "effective_description now td sd = sd" using assms(5) by (auto simp: effective_description_def)
  have us: "update_unknown_sharded (td_type td) n ?a (effective_description now td sd) m = (m, ?ty)" for n m
    using assms(2,4) e by (auto simp: update_unknown_sharded_def)
  obtain m' mv' me' where m':
    "rs_blocks now ?a sd (?m, ?ty, td_setName td, td_maxSetVersion td, td_maxElectionId td) =
       Inr (m', if ?a \<in> set (allHosts sd) then ReplicaSetWithPrimary else ReplicaSetNoPrimary, sd_setName sd, mv', me')"
    "set (map_keys m') = set (allHosts sd)" "\<And>k. prim m' k \<longleftrightarrow> k = ?a \<and> ?a \<in> set (allHosts sd)"
    by (rule rs_blocks_primary [OF g other _ assms(3-6), of ?ty now]) (use assms(2,7) in \<open>auto simp: map_simps\<close>)
  have "td_type td \<noteq> Single" using assms(2) by auto
  from update_pipeline_blocks [OF can this us] m' e show ?thesis by (simp add: build_def)
qed

definition example_replicaset :: topologyDescription where
  "example_replicaset = TopologyDescription_new ReplicaSetWithPrimary
      [(''a:1'', example_primary ''a:1'' [''a:1''] (Some 1) None)] (Some ''rs'') (Some 1) None None 10000 15"

lemma td_inv_example_replicaset: "td_inv example_replicaset"
proof -
  have "rs_ok ([(''a:1'', example_primary ''a:1'' [''a:1''] (Some 1) None)],
      ReplicaSetWithPrimary, Some ''rs'', Some 1, None)"
    using canonical_ab
    by (auto simp: rs_ok_def good_servers_def map_wf_def map_keys_def at_most_one_primary_def
        versions_ok_def prim_def truthy_str_def example_primary_def split: if_splits)
  then show ?thesis unfolding example_replicaset_def by (rule rs_ok_new) simp_all
qed

theorem primary_defines_membership_witness:
  "\<exists>td'. TopologyDescription_update 7 example_replicaset
        (example_primary ''b:1'' [''b:1'', ''c:1''] (Some 2) None) = Inr td'
    \<and> set (map_keys (td_servers td')) = {''b:1'', ''c:1''}
    \<and> (\<forall>k. prim (td_servers td') k \<longleftrightarrow> k = ''b:1'')
    \<and> td_type td' = ReplicaSetWithPrimary"
  using primary_defines_membership [OF td_inv_example_replicaset, of
      "example_primary ''b:1'' [''b:1'', ''c:1''] (Some 2) None" 7]
    reportable_example [of "''b:1''" "[''b:1'', ''c:1'']" "Some 2" None] canonical_ab
  by (simp add: example_replicaset_def example_primary_def keep_str_def truthy_str_def
      stale_primary_def keep_num_def allHosts_def)

section \<open>Versions never go back\<close>

lemma buffer_compare_refl [simp]: "buffer_compare a a = 0"
  by (induction a) auto

lemma buffer_compare_trans:
  "buffer_compare a b \<le> 0 \<Longrightarrow> buffer_compare b c \<le> 0 \<Longrightarrow> buffer_compare a c \<le> 0"
proof (induction a c arbitrary: b rule: buffer_compare.induct)
  case (4 x as y cs)
  then show ?case by (cases b) (auto split: if_splits)
next
  case (3 x as)
  then show ?case by (cases b) auto
qed auto

definition opt_le :: "('a \<Rightarrow> 'a \<Rightarrow> bool) \<Rightarrow> 'a option \<Rightarrow> 'a option \<Rightarrow> bool" where
  "opt_le le x y = (case x of None \<Rightarrow> True | Some a \<Rightarrow> (case y of None \<Rightarrow> False | Some b \<Rightarrow> le a b))"

definition not_before :: "int option \<times> objectId option \<Rightarrow> int option \<times> objectId option \<Rightarrow> bool" where
  "not_before v w = (opt_le (\<le>) (fst v) (fst w) \<and> opt_le (\<lambda>a b. buffer_compare a b \<le> 0) (snd v) (snd w))"

lemma not_before_refl [simp]: "not_before v v"
  by (auto simp: not_before_def opt_le_def split: option.splits)

lemma not_before_trans: "not_before u v \<Longrightarrow> not_before v w \<Longrightarrow> not_before u w"
  using buffer_compare_trans
  by (fastforce simp: not_before_def opt_le_def split: option.splits)

lemma not_before_next:
  assumes "\<not> stale_primary sd mv me" "versions_ok mv me" "sd_setVersion sd \<noteq> Some 0"
  shows "not_before (mv, me) (next_maxSetVersion sd mv, next_maxElectionId sd me)"
  using assms
  by (auto simp: not_before_def opt_le_def stale_primary_def versions_ok_def next_maxSetVersion_def
      next_maxElectionId_def truthy_num_def split: option.splits if_splits)

definition st_versions :: "rsState \<Rightarrow> int option \<times> objectId option" where
  "st_versions st = snd (snd (snd st))"

lemma updateRsFromPrimary_not_before:
  assumes "updateRsFromPrimary now m sd setName mv me = Inr st"
    and "versions_ok mv me" "sd_setVersion sd \<noteq> Some 0"
  shows "not_before (mv, me) (st_versions st)" and "versions_ok (fst (st_versions st)) (snd (st_versions st))"
proof -
  have "st_versions st = (mv, me) \<or> \<not> stale_primary sd mv me
      \<and> st_versions st = (next_maxSetVersion sd mv, next_maxElectionId sd me)"
    using assms(1)
    by (auto simp: updateRsFromPrimary_def Let_def rbind_Inr_iff next_maxSetVersion_def
        next_maxElectionId_def st_versions_def split: if_splits)
  then show "not_before (mv, me) (st_versions st)"
    and "versions_ok (fst (st_versions st)) (snd (st_versions st))"
    using not_before_next [OF _ assms(2,3)] versions_ok_next [OF assms(2,3)] assms(2) by auto
qed

lemma update_noPrimary_versions:
  assumes "update_noPrimary now a sd (m, ty, setName, mv, me) = Inr st"
  shows "st_versions st = (mv, me) \<or> (\<exists>m'. updateRsFromPrimary now m' sd setName mv me = Inr st)"
proof (cases "sd_type sd = RSPrimary")
  case True
  with assms show ?thesis by (auto simp: update_noPrimary_def Let_def)
next
  case False
  with assms show ?thesis
    by (cases "sd_type sd \<in> set NON_PRIMARY_RS_MEMBERS")
      (auto simp: update_noPrimary_def Let_def rbind_Inr_iff st_versions_def)
qed

lemma update_withPrimary_versions:
  assumes "update_withPrimary now a sd st1 = Inr st"
  shows "st_versions st = st_versions st1 \<or>
    (\<exists>m setName. updateRsFromPrimary now m sd setName (fst (st_versions st1)) (snd (st_versions st1)) = Inr st)"
proof (cases "sd_type sd = RSPrimary")
  case True
  with assms show ?thesis
    by (cases st1) (auto simp: update_withPrimary_def MONGOS_OR_STANDALONE_def st_versions_def)
next
  case False
  with assms show ?thesis
    by (cases st1; cases "sd_type sd \<in> set NON_PRIMARY_RS_MEMBERS"; cases "sd_type sd \<in> set MONGOS_OR_STANDALONE")
      (auto simp: update_withPrimary_def Let_def rbind_Inr_iff st_versions_def)
qed

definition versions_step :: "int option \<times> objectId option \<Rightarrow> int option \<times> objectId option \<Rightarrow> bool" where
  "versions_step v w = (not_before v w \<and> versions_ok (fst w) (snd w))"

lemma rs_blocks_versions:
  assumes "rs_blocks now a sd (m, ty, setName, mv, me) = Inr st"
    and "versions_ok mv me" "sd_setVersion sd \<noteq> Some 0"
  shows "versions_step (mv, me) (st_versions st)"
proof -
  have no: "versions_step (mv, me) (st_versions st')"
    if "update_noPrimary now a sd (m, ty, setName, mv, me) = Inr st'" for st'
    using update_noPrimary_versions [OF that] updateRsFromPrimary_not_before [OF _ assms(2,3)] assms(2)
    unfolding versions_step_def by (metis fst_conv not_before_refl snd_conv)
  have w: "versions_step (st_versions st1) (st_versions st')"
    if "update_withPrimary now a sd st1 = Inr st'"
      "versions_ok (fst (st_versions st1)) (snd (st_versions st1))" for st1 st'
    using update_withPrimary_versions [OF that(1)] updateRsFromPrimary_not_before [OF _ that(2) assms(3)] that(2)
    unfolding versions_step_def by (metis not_before_refl prod.collapse)
  show ?thesis
  proof (cases "ty = ReplicaSetNoPrimary")
    case True
    then obtain st2 where st2: "update_noPrimary now a sd (m, ty, setName, mv, me) = Inr st2"
      "(if fst (snd st2) = ReplicaSetWithPrimary then update_withPrimary now a sd st2 else Inr st2) = Inr st"
      using assms(1) by (auto simp: rs_blocks_def rbind_Inr_iff)
    have "versions_step (mv, me) (st_versions st2)" using no [OF st2(1)] .
    moreover have "st = st2 \<or> versions_step (st_versions st2) (st_versions st)"
      using w [of st2 st] st2(2) calculation by (auto simp: versions_step_def split: if_splits)
    ultimately show ?thesis unfolding versions_step_def by (auto intro: not_before_trans)
  next
    case False
    have "st = (m, ty, setName, mv, me) \<or> update_withPrimary now a sd (m, ty, setName, mv, me) = Inr st"
      using assms(1) False by (auto simp: rs_blocks_def split: if_splits)
    then show ?thesis
      using w [of "(m, ty, setName, mv, me)" st] assms(2) by (auto simp: versions_step_def st_versions_def)
  qed
qed

definition td_versions :: "topologyDescription \<Rightarrow> int option \<times> objectId option" where
  "td_versions td = (td_maxSetVersion td, td_maxElectionId td)"

lemma td_versions_build:
  "versions_ok (fst (st_versions st)) (snd (st_versions st)) \<Longrightarrow>
   td_versions (build td sd st) = st_versions st"
  by (cases st) (auto simp: td_versions_def st_versions_def build_def)

lemma td_inv_versions: "td_inv td \<Longrightarrow> versions_ok (td_maxSetVersion td) (td_maxElectionId td)"
  by (auto simp: td_inv_def td_state_def rs_ok_def split: if_splits)

lemma update_not_before:
  assumes "td_inv td" "reportable sd" "TopologyDescription_update now td sd = Inr td'"
  shows "not_before (td_versions td) (td_versions td')"
proof (cases "td_type td \<in> {Single, LoadBalanced}")
  case True
  with assms update_direct [OF True] td_inv_versions [OF assms(1)] show ?thesis
    by (auto simp: reportable_def build_def td_versions_def)
next
  case False
  let ?sd = "effective_description now td sd"
  obtain m1 ty1 where us: "update_unknown_sharded (td_type td) (length (td_servers td)) (sd_address sd)
      ?sd (map_set (sd_address sd) ?sd (td_servers td)) = (m1, ty1)" by fastforce
  have c: "canonical_address (sd_address sd)" "td_type td \<noteq> Single" and nz: "sd_setVersion ?sd \<noteq> Some 0"
    using assms(2) reportable_effective [OF assms(2)] False by (auto simp: reportable_def)
  obtain st where
    st: "rs_blocks now (sd_address sd) ?sd
        (m1, ty1, td_setName td, td_maxSetVersion td, td_maxElectionId td) = Inr st"
    "td' = build td ?sd st"
    using assms(3) unfolding update_pipeline_blocks [OF c us] rbind_Inr_iff by auto
  have "versions_step (td_versions td) (st_versions st)"
    using rs_blocks_versions [OF st(1) td_inv_versions [OF assms(1)] nz] by (simp add: td_versions_def)
  then show ?thesis using st(2) td_versions_build [of st td ?sd] by (simp add: versions_step_def)
qed

text \<open>
  (C3) Set versions and election ids never go back.  Along any sequence of well-formed server
  descriptions no update throws, and the topology's largest set version and largest election id
  are at the end at least what they were at the start: a deposed primary of an older election
  cannot move the client back.
\<close>

theorem versions_never_go_back:
  assumes "td_inv td" "\<forall>u \<in> set us. reportable (snd u)"
  shows "\<exists>td'. updates td us = Inr td' \<and> not_before (td_versions td) (td_versions td')"
  using assms
proof (induction us arbitrary: td)
  case Nil
  then show ?case by simp
next
  case (Cons u us)
  obtain now sd where u: "u = (now, sd)" by fastforce
  with Cons.prems(2) have r: "reportable sd" by simp
  from td_inv_update [OF Cons.prems(1) r, of now] obtain td1 where
    td1: "TopologyDescription_update now td sd = Inr td1" "td_inv td1" by blast
  from Cons.IH [OF td1(2)] Cons.prems(2) update_not_before [OF Cons.prems(1) r td1(1)] td1(1) u
  show ?case by (auto intro: not_before_trans)
qed

theorem versions_never_go_back_witness:
  "\<exists>td'. updates example_replicaset [(5, example_primary ''b:1'' [''b:1''] (Some 4) (Some [1])),
        (6, example_primary ''a:1'' [''a:1''] (Some 3) (Some [2]))] = Inr td'
     \<and> not_before (td_versions example_replicaset) (td_versions td')"
  by (rule versions_never_go_back)
    (simp_all add: td_inv_example_replicaset reportable_example canonical_ab)

section \<open>Derived fields\<close>

definition wire_compatible :: "serverDescription \<Rightarrow> bool" where
  "wire_compatible s = (sd_type s = ServerUnknown \<or> sd_type s = LoadBalancer
     \<or> sd_minWireVersion s \<le> MAX_SUPPORTED_WIRE_VERSION \<and> MIN_SUPPORTED_WIRE_VERSION \<le> sd_maxWireVersion s)"

lemma compat_loop_spec:
  "fst (compat_loop ss acc) = (fst acc \<and> list_all wire_compatible ss)
   \<and> (snd (compat_loop ss acc) = None \<longleftrightarrow> snd acc = None \<and> list_all wire_compatible ss)"
  by (induction ss acc rule: compat_loop.induct) (auto simp: wire_compatible_def Let_def)

text \<open>
  Compatibility.  A description is compatible, and carries no compatibility error, exactly
  when every server whose type is known (and is not a load balancer) speaks a wire version
  between 6 and 14, whatever the order of the servers and although the loop stops at the first
  server that is too old.
\<close>

theorem compatible_iff:
  "let td = TopologyDescription_new ty m setName mv me cwv hb lt in
     (td_compatible td \<longleftrightarrow> list_all wire_compatible (map_values m))
     \<and> (td_compatibilityError td = None \<longleftrightarrow> list_all wire_compatible (map_values m))"
  using compat_loop_spec [of "map_values m" "(True, None)"]
  by (simp add: TopologyDescription_new_def Let_def)

lemma session_timeout_loop_spec:
  "session_timeout_loop ss acc =
    (let ts = map sd_logicalSessionTimeoutMinutes (filter isReadable ss) in
     if None \<in> set ts then None
     else fold (\<lambda>t a. Some (case a of None \<Rightarrow> t | Some b \<Rightarrow> min b t)) (map the ts) acc)"
  by (induction ss acc rule: session_timeout_loop.induct) (auto simp: Let_def split: option.splits)

lemma fold_min_Some:
  "fold (\<lambda>t a. Some (case a of None \<Rightarrow> t | Some b \<Rightarrow> min b t)) ts (Some (x::int)) = Some (Min (set (x # ts)))"
proof (induction ts arbitrary: x)
  case (Cons t ts)
  have "Min (set (min x t # ts)) = Min (set (x # t # ts))"
    by (cases ts) (auto simp: min.assoc)
  with Cons show ?case by simp
qed simp

text \<open>
  The session timeout of a deployment is the smallest timeout of its readable servers, and
  sessions are unsupported (\<open>None\<close>) when there is no readable server or one of them reports none.
\<close>

theorem session_timeout_min:
  "td_logicalSessionTimeoutMinutes (TopologyDescription_new ty m setName mv me cwv hb lt) =
     (let ts = map sd_logicalSessionTimeoutMinutes (filter isReadable (map_values m))
      in if ts = [] \<or> None \<in> set ts then None else Some (Min (the ` set ts)))"
proof -
  define ts where "ts = map sd_logicalSessionTimeoutMinutes (filter isReadable (map_values m))"
  have eq: "td_logicalSessionTimeoutMinutes (TopologyDescription_new ty m setName mv me cwv hb lt) =
     (if None \<in> set ts then None
      else fold (\<lambda>t a. Some (case a of None \<Rightarrow> t | Some b \<Rightarrow> min b t)) (map the ts) None)"
    unfolding ts_def by (simp add: TopologyDescription_new_def Let_def session_timeout_loop_spec)
  show ?thesis unfolding eq ts_def [symmetric]
  proof (cases ts)
    case (Cons t ts')
    with fold_min_Some [of "map the ts'" "the t"]
    show "(if None \<in> set ts then None
        else fold (\<lambda>t a. Some (case a of None \<Rightarrow> t | Some b \<Rightarrow> min b t)) (map the ts) None) =
      (let ts = ts in if ts = [] \<or> None \<in> set ts then None else Some (Min (the ` set ts)))" by simp
  qed simp
qed

section \<open>SRV polling\<close>

lemma set_hosts_spec:
  assumes "\<forall>h \<in> set hs. canonical_address h"
  shows "\<exists>m'. set_hosts now hs m = Inr m'
    \<and> (\<forall>k. map_of m' k = (if k \<in> set hs then Some (unknownDescription now k) else map_of m k))"
  using assms
proof (induction hs arbitrary: m)
  case (Cons a hs)
  then have can: "canonical_address a" by simp
  obtain m' where "set_hosts now hs (map_set a (unknownDescription now a) m) = Inr m'"
    "\<forall>k. map_of m' k = (if k \<in> set hs then Some (unknownDescription now k)
        else map_of (map_set a (unknownDescription now a) m) k)"
    using Cons by fastforce
  with can show ?case by (auto simp: map_simps)
qed simp

text \<open>
  A new set of SRV records with no host limit: the update does not throw, the servers are
  afterwards exactly the polled hosts, those already known keep their description and the new
  ones start as unknown.
\<close>

theorem srv_poll_members:
  assumes "\<forall>h \<in> set incoming. canonical_address h"
  shows "\<exists>td'. updateFromSrvPollingEvent now rnd td incoming 0 = Inr td'
    \<and> (\<forall>k. map_of (td_servers td') k =
         (if k \<in> set incoming
          then Some (case map_of (td_servers td) k of Some s \<Rightarrow> s | None \<Rightarrow> unknownDescription now k)
          else None))"
proof -
  let ?cur = "map_keys (td_servers td)"
  let ?add = "filter (\<lambda>h. h \<notin> set ?cur) incoming" and ?rem = "filter (\<lambda>h. h \<notin> set incoming) ?cur"
  let ?m = "fold map_delete ?rem (td_servers td)"
  obtain m' where m': "set_hosts now ?add ?m = Inr m'"
    "\<forall>k. map_of m' k = (if k \<in> set ?add then Some (unknownDescription now k) else map_of ?m k)"
    using set_hosts_spec [of ?add now ?m] assms by auto
  have get: "map_of m' k = (if k \<in> set incoming
      then Some (case map_of (td_servers td) k of Some s \<Rightarrow> s | None \<Rightarrow> unknownDescription now k)
      else None)" for k
    using m'(2) map_of_None_keys [of "td_servers td" k] by (auto simp: map_simps split: option.splits)
  have same: "?add = [] \<Longrightarrow> set_hosts now ?add ?m = Inr ?m" by simp
  show ?thesis
  proof (cases "?add = [] \<and> ?rem = []")
    case True
    then have "m' = td_servers td" using m'(1) by simp
    with True get show ?thesis by (simp add: updateFromSrvPollingEvent_def Let_def)
  next
    case False
    then have "updateFromSrvPollingEvent now rnd td incoming 0 =
      Inr (TopologyDescription_new (td_type td) m' (td_setName td) (td_maxSetVersion td)
        (td_maxElectionId td) (td_commonWireVersion td) (td_heartbeatFrequencyMS td) (td_localThresholdMS td))"
      using m'(1) same by (auto simp: updateFromSrvPollingEvent_def Let_def)
    with get show ?thesis by simp
  qed
qed

theorem srv_poll_members_witness:
  "\<exists>td'. updateFromSrvPollingEvent 9 (\<lambda>k. 0) example_replicaset [''b:1'', ''a:1''] 0 = Inr td'
    \<and> (\<forall>k. map_of (td_servers td') k =
         (if k \<in> set [''b:1'', ''a:1'']
          then Some (case map_of (td_servers example_replicaset) k of Some s \<Rightarrow> s
                     | None \<Rightarrow> unknownDescription 9 k)
          else None))"
  by (rule srv_poll_members) (simp add: canonical_ab)

text \<open>
  With a host limit, the update throws whenever there are new hosts but fewer of them than
  free slots: the number of free slots is passed to \<open>shuffle\<close> as its limit, which must not exceed
  the number of items.
\<close>

theorem srv_poll_throws_on_few_hosts:
  assumes "new = filter (\<lambda>h. h \<notin> set (map_keys (td_servers td))) incoming" and "new \<noteq> []"
    and "kept = filter (\<lambda>h. h \<in> set incoming) (map_keys (td_servers td))"
    and "length kept + length new < srvMaxHosts"
  shows "updateFromSrvPollingEvent now rnd td incoming srvMaxHosts =
     Inl (mk_error MongoRuntimeError ''Limit must be less than the number of items'')"
proof -
  let ?rem = "filter (\<lambda>h. h \<notin> set incoming) (map_keys (td_servers td))"
  let ?m = "fold map_delete ?rem (td_servers td)"
  have "map_keys ?m = kept"
    unfolding assms(3) jm.keys_del_fold by (rule filter_cong) auto
  then have len: "length ?m = length kept" by (metis length_map map_keys_def)
  have sh: "shuffle rnd new n = Inl (mk_error MongoRuntimeError ''Limit must be less than the number of items'')"
    if "length new < n" for n using that by (simp add: shuffle_def Let_def)
  have lim: "length new < srvMaxHosts - length ?m" "length ?m < srvMaxHosts" "srvMaxHosts \<noteq> 0"
    using assms(4) len by auto
  show ?thesis
    unfolding updateFromSrvPollingEvent_def Let_def assms(1) [symmetric]
    using assms(2) lim sh [OF lim(1)] by simp
qed

theorem srv_poll_throws_on_few_hosts_witness:
  "updateFromSrvPollingEvent 9 (\<lambda>k. 0) example_replicaset [''a:1'', ''b:1''] 3 =
     Inl (mk_error MongoRuntimeError ''Limit must be less than the number of items'')"
  by (rule srv_poll_throws_on_few_hosts [of "[''b:1'']" _ _ "[''a:1'']"])
    (simp_all add: example_replicaset_def map_keys_def)

section \<open>A primary heard without a primary\<close>

text \<open>
  The two replica-set blocks are consecutive conditionals, so a primary heard in
  \<open>ReplicaSetNoPrimary\<close> is processed twice.  When the topology has seen a larger set version but no
  election id, the first pass accepts the primary, which is not stale, and records its election
  id; the second pass then finds the same reply stale and turns the server back to unknown.
\<close>

theorem primary_processed_twice:
  assumes "td_inv td" "td_type td = ReplicaSetNoPrimary" "reportable sd" "sd_type sd = RSPrimary"
    and "sd_setName sd = td_setName td" "sd_address sd \<in> set (allHosts sd)"
    and "td_maxSetVersion td = Some mv" "td_maxElectionId td = None"
    and "sd_setVersion sd = Some v" "v < mv" "sd_electionId sd = Some e"
  shows "\<not> stale_primary sd (td_maxSetVersion td) (td_maxElectionId td)
    \<and> (\<exists>td'. TopologyDescription_update now td sd = Inr td' \<and> td_type td' = ReplicaSetNoPrimary
         \<and> map_of (td_servers td') (sd_address sd) = Some (unknownDescription now (sd_address sd)))"
proof -
  let ?a = "sd_address sd" and ?m = "map_set (sd_address sd) sd (td_servers td)"
  have can: "canonical_address ?a" "\<forall>h \<in> set (allHosts sd). canonical_address h" "v \<noteq> 0"
    and mv: "mv \<noteq> 0"
    using assms(3,9) td_inv_versions [OF assms(1)] assms(7) by (auto simp: reportable_def versions_ok_def)
  have rs: "good_servers (td_servers td)" "\<nexists>k. prim (td_servers td) k"
    using assms(1,2) by (auto simp: td_inv_def td_state_def rs_ok_def)
  have g: "good_servers ?m" using rs(1) can(1) by (rule good_servers_set)
  have o: "one_other_primary ?a ?m" using rs(2) by (auto simp: one_other_primary_def)
  have sn: "str_or (td_setName td) (sd_setName sd) = sd_setName sd" "str_or (sd_setName sd) (sd_setName sd) = sd_setName sd"
    using assms(5) by (simp_all add: str_or_def)
  have fresh: "\<not> stale_primary sd (td_maxSetVersion td) (td_maxElectionId td)"
    using assms(8) by (simp add: stale_primary_def split: option.splits)
  obtain m' where m': "updateRsFromPrimary now ?m sd (td_setName td) (td_maxSetVersion td) (td_maxElectionId td)
      = Inr (m', checkHasPrimary m', sd_setName sd, Some mv, Some e)"
    "good_servers m'" "\<forall>k. prim m' k \<longrightarrow> k = ?a" "map_of m' ?a = Some sd"
    using updateRsFromPrimary_accepted [OF sn(1) fresh g o can(2), of now] assms(6-11) can(3)
    by (auto simp: map_simps next_maxSetVersion_def next_maxElectionId_def truthy_num_def)
  have wf: "map_wf m'" "map_wf (map_set ?a (unknownDescription now ?a) m')"
    using m'(2) by (auto simp: good_servers_def jm.wf_upd)
  have hp: "checkHasPrimary m' = ReplicaSetWithPrimary"
    using checkHasPrimary_iff(1) [OF wf(1)] m'(4) assms(4) by (auto simp: prim_iff)
  have np: "checkHasPrimary (map_set ?a (unknownDescription now ?a) m') = ReplicaSetNoPrimary"
    using checkHasPrimary_iff(2) [OF wf(2)] m'(3) by auto
  have st: "stale_primary sd (Some mv) (Some e)"
    using assms(9-11) can(3) mv by (simp add: stale_primary_def)
  have e: "effective_description now td sd = sd" using assms(5) by (simp add: effective_description_def)
  have us: "update_unknown_sharded (td_type td) n a (effective_description now td sd) m
      = (m, ReplicaSetNoPrimary)" for n a m
    using assms(2) by (simp add: update_unknown_sharded_def)
  have "TopologyDescription_update now td sd = Inr (build td sd
      (map_set ?a (unknownDescription now ?a) m', ReplicaSetNoPrimary, sd_setName sd, Some mv, Some e))"
    using update_pipeline_blocks [OF can(1) _ us, unfolded e] assms(2,4) m'(1) hp np
      updateRsFromPrimary_stale [OF sn(2) st can(1), of now m']
    by (simp add: rs_blocks_def update_noPrimary_def update_withPrimary_def MONGOS_OR_STANDALONE_def Let_def)
  with fresh show ?thesis by (simp add: build_def map_simps)
qed

theorem primary_processed_twice_witness:
  "\<exists>td'. TopologyDescription_update 8 (example_topology ReplicaSetNoPrimary [''a:1''] (Some 5))
        (example_primary ''a:1'' [''a:1''] (Some 3) (Some [1])) = Inr td'
      \<and> td_type td' = ReplicaSetNoPrimary
      \<and> map_of (td_servers td') ''a:1'' = Some (unknownDescription 8 ''a:1'')"
proof -
  let ?td = "example_topology ReplicaSetNoPrimary [''a:1''] (Some 5)"
  let ?sd = "example_primary ''a:1'' [''a:1''] (Some 3) (Some [1])"
  have inv: "td_inv ?td" unfolding example_topology_def
    by (rule rs_ok_new) (use canonical_ab in \<open>auto simp: rs_ok_def good_servers_def map_wf_def
        map_keys_def at_most_one_primary_def versions_ok_def prim_def split: if_splits\<close>)
  have rep: "reportable ?sd" by (rule reportable_example) (simp_all add: canonical_ab)
  have f: "td_type ?td = ReplicaSetNoPrimary" "td_setName ?td = Some ''rs''"
    "td_maxSetVersion ?td = Some 5" "td_maxElectionId ?td = None"
    "sd_type ?sd = RSPrimary" "sd_setName ?sd = Some ''rs''" "sd_address ?sd = ''a:1''"
    "allHosts ?sd = [''a:1'']" "sd_setVersion ?sd = Some 3" "sd_electionId ?sd = Some [1]"
    by (simp_all add: example_topology_def example_primary_def keep_str_def keep_num_def
        truthy_str_def truthy_num_def allHosts_def)
  from primary_processed_twice [OF inv f(1) rep f(5), of 5 3 "[1]" 8] f show ?thesis by simp
qed

end
