(* ===== verification/Read_Preference.thy ===== *)
theory Read_Preference
  imports Server_Description
begin

text \<open>
  \<open>src/read_preference.ts\<close>.  A mode is a string or \<open>null\<close> (\<^term>\<open>None\<close>), which \<open>isValid\<close> accepts.
  Numbers are rationals.  The value given as \<open>readPreference\<close> in options is a string, an instance
  or a plain object; the interpolated parts of error messages are left out.
\<close>

section \<open>Modes\<close>

type_synonym readPreferenceMode = "string option"

definition PRIMARY :: readPreferenceMode where "PRIMARY = Some ''primary''"
definition PRIMARY_PREFERRED :: readPreferenceMode where "PRIMARY_PREFERRED = Some ''primaryPreferred''"
definition SECONDARY :: readPreferenceMode where "SECONDARY = Some ''secondary''"
definition SECONDARY_PREFERRED :: readPreferenceMode where "SECONDARY_PREFERRED = Some ''secondaryPreferred''"
definition NEAREST :: readPreferenceMode where "NEAREST = Some ''nearest''"

lemmas mode_defs = PRIMARY_def PRIMARY_PREFERRED_def SECONDARY_def SECONDARY_PREFERRED_def NEAREST_def

definition VALID_MODES :: "readPreferenceMode list" where
  "VALID_MODES = [PRIMARY, PRIMARY_PREFERRED, SECONDARY, SECONDARY_PREFERRED, NEAREST, None]"

definition ReadPreference_isValid :: "readPreferenceMode \<Rightarrow> bool" where
  "ReadPreference_isValid mode = (mode \<in> set VALID_MODES)"

section \<open>Instances\<close>

record hedgeOptions =
  hedge_enabled :: "bool option"

record readPreferenceOptions =
  rpo_maxStalenessSeconds :: "rat option"
  rpo_hedge :: "hedgeOptions option"

definition no_rpOptions :: readPreferenceOptions where
  "no_rpOptions = \<lparr>rpo_maxStalenessSeconds = None, rpo_hedge = None\<rparr>"

record readPreference =
  rp_mode :: readPreferenceMode
  rp_tags :: "tagSet list option"
  rp_hedge :: "hedgeOptions option"
  rp_maxStalenessSeconds :: "rat option"
  rp_minWireVersion :: "int option"

text \<open>The second constructor argument: an array of tag sets, an options object, or something else.\<close>

datatype tagsArg = NoTags | TagsArray "tagSet list" | TagsOptions readPreferenceOptions | TagsOther

definition resolve_tags ::
    "tagsArg \<Rightarrow> readPreferenceOptions option \<Rightarrow> mongoError + (tagSet list option \<times> readPreferenceOptions option)" where
  "resolve_tags tags options =
     (case tags of
        NoTags \<Rightarrow> Inr (None, options)
      | TagsArray ts \<Rightarrow> Inr (Some ts, options)
      | TagsOptions opts \<Rightarrow>
          (if options = None then Inr (None, Some opts)
           else Inl (invalid_argument ''ReadPreference tags must be an array''))
      | TagsOther \<Rightarrow> Inl (invalid_argument ''ReadPreference tags must be an array''))"

text \<open>The checks on the primary mode, on the fields already set.\<close>

definition check_primary :: "readPreference \<Rightarrow> mongoError + readPreference" where
  "check_primary rp =
     (if rp_mode rp = PRIMARY then
        (if (case rp_tags rp of Some ts \<Rightarrow> length ts > 0 | None \<Rightarrow> False)
         then Inl (invalid_argument ''Primary read preference cannot be combined with tags'')
         else if (case rp_maxStalenessSeconds rp of Some s \<Rightarrow> s \<noteq> 0 | None \<Rightarrow> False)
         then Inl (invalid_argument ''Primary read preference cannot be combined with maxStalenessSeconds'')
         else if rp_hedge rp \<noteq> None
         then Inl (invalid_argument ''Primary read preference cannot be combined with hedge'')
         else Inr rp)
      else Inr rp)"

definition rp_init ::
    "readPreferenceMode \<Rightarrow> tagSet list option \<Rightarrow> readPreferenceOptions \<Rightarrow> mongoError + readPreference" where
  "rp_init mode tags options =
     (let rp = \<lparr>rp_mode = mode, rp_tags = tags, rp_hedge = rpo_hedge options,
                rp_maxStalenessSeconds = None, rp_minWireVersion = None\<rparr>
      in case rpo_maxStalenessSeconds options of
           None \<Rightarrow> check_primary rp
         | Some s \<Rightarrow>
             (if s \<le> 0 then Inl (invalid_argument ''maxStalenessSeconds must be a positive integer'')
              else check_primary (rp\<lparr>rp_maxStalenessSeconds := Some s, rp_minWireVersion := Some 5\<rparr>)))"

definition ReadPreference_new ::
    "readPreferenceMode \<Rightarrow> tagsArg \<Rightarrow> readPreferenceOptions option \<Rightarrow> mongoError + readPreference" where
  "ReadPreference_new mode tags0 options0 =
     (if \<not> ReadPreference_isValid mode then Inl (invalid_argument ''Invalid read preference mode'')
      else rbind (resolve_tags tags0 options0)
             (\<lambda>(tags, options). rp_init mode tags
                (case options of Some opts \<Rightarrow> opts | None \<Rightarrow> no_rpOptions)))"

definition ReadPreference_fromString :: "string \<Rightarrow> mongoError + readPreference" where
  "ReadPreference_fromString mode = ReadPreference_new (Some mode) NoTags None"

text \<open>\<open>ReadPreference.primary\<close>, the value of the static field.\<close>

definition ReadPreference_primary :: readPreference where
  "ReadPreference_primary = \<lparr>rp_mode = PRIMARY, rp_tags = None, rp_hedge = None,
     rp_maxStalenessSeconds = None, rp_minWireVersion = None\<rparr>"

section \<open>Read preferences from options\<close>

record rpObject =
  rpx_mode :: "string option"
  rpx_preference :: "string option"
  rpx_tags :: "tagSet list option"
  rpx_maxStalenessSeconds :: "rat option"

datatype readPreferenceLike = RPString string | RPInstance readPreference | RPObject rpObject

record readPreferenceFromOptions =
  rpf_readPreference :: "readPreferenceLike option"
  rpf_session :: "readPreferenceLike option option"
  rpf_readPreferenceTags :: "tagSet list option"
  rpf_maxStalenessSeconds :: "rat option"
  rpf_hedge :: "hedgeOptions option"

definition tags_arg :: "tagSet list option \<Rightarrow> tagsArg" where
  "tags_arg t = (case t of Some ts \<Rightarrow> TagsArray ts | None \<Rightarrow> NoTags)"

text \<open>
  \<open>rpf_session\<close> holds the read preference of the session's transaction options.  An instance (or
  an object without a mode) is returned as it is, with the tags overwritten in place.
\<close>

definition ReadPreference_fromOptions ::
    "readPreferenceFromOptions option \<Rightarrow> mongoError + readPreferenceLike option" where
  "ReadPreference_fromOptions options =
     (case options of
        None \<Rightarrow> Inr None
      | Some opts \<Rightarrow>
          (let readPreference = (case rpf_readPreference opts of
                 Some r \<Rightarrow> Some r
               | None \<Rightarrow> (case rpf_session opts of Some r \<Rightarrow> r | None \<Rightarrow> None));
               tags = rpf_readPreferenceTags opts
           in case readPreference of
                None \<Rightarrow> Inr None
              | Some (RPString s) \<Rightarrow>
                  rbind (ReadPreference_new (Some s) (tags_arg tags)
                      (Some \<lparr>rpo_maxStalenessSeconds = rpf_maxStalenessSeconds opts, rpo_hedge = rpf_hedge opts\<rparr>))
                    (\<lambda>rp. Inr (Some (RPInstance rp)))
              | Some (RPObject x) \<Rightarrow>
                  (let mode = str_or (rpx_mode x) (rpx_preference x) in
                   if truthy_str mode then
                     rbind (ReadPreference_new mode (tags_arg (coalesce (rpx_tags x) tags))
                         (Some \<lparr>rpo_maxStalenessSeconds = rpx_maxStalenessSeconds x, rpo_hedge = rpf_hedge opts\<rparr>))
                       (\<lambda>rp. Inr (Some (RPInstance rp)))
                   else Inr (Some (RPObject (case tags of Some t \<Rightarrow> x\<lparr>rpx_tags := Some t\<rparr> | None \<Rightarrow> x))))
              | Some (RPInstance rp) \<Rightarrow>
                  Inr (Some (RPInstance (case tags of Some t \<Rightarrow> rp\<lparr>rp_tags := Some t\<rparr> | None \<Rightarrow> rp)))))"

text \<open>\<open>translate\<close>, on the \<open>readPreference\<close> field it replaces.\<close>

definition ReadPreference_translate :: "readPreferenceLike option \<Rightarrow> mongoError + readPreferenceLike option" where
  "ReadPreference_translate r =
     (case r of
        None \<Rightarrow> Inr None
      | Some (RPString s) \<Rightarrow>
          rbind (ReadPreference_new (Some s) NoTags None) (\<lambda>rp. Inr (Some (RPInstance rp)))
      | Some (RPObject x) \<Rightarrow>
          (let mode = str_or (rpx_mode x) (rpx_preference x) in
           if truthy_str mode then
             rbind (ReadPreference_new mode (tags_arg (rpx_tags x))
                 (Some \<lparr>rpo_maxStalenessSeconds = rpx_maxStalenessSeconds x, rpo_hedge = None\<rparr>))
               (\<lambda>rp. Inr (Some (RPInstance rp)))
           else Inr r)
      | Some (RPInstance rp) \<Rightarrow> Inr r)"

section \<open>Queries\<close>

definition rp_isValid :: "readPreference \<Rightarrow> string option \<Rightarrow> bool" where
  "rp_isValid rp mode =
     ReadPreference_isValid (case mode of Some m \<Rightarrow> Some m | None \<Rightarrow> rp_mode rp)"

definition secondaryOk :: "readPreference \<Rightarrow> bool" where
  "secondaryOk rp = (rp_mode rp \<in> set [PRIMARY_PREFERRED, SECONDARY, SECONDARY_PREFERRED, NEAREST])"

definition rp_equals :: "readPreference \<Rightarrow> readPreference \<Rightarrow> bool" where
  "rp_equals this readPreference = (rp_mode readPreference = rp_mode this)"

record rpJSON =
  j_mode :: readPreferenceMode
  j_tags :: "tagSet list option"
  j_maxStalenessSeconds :: "rat option"
  j_hedge :: "hedgeOptions option"

definition rp_toJSON :: "readPreference \<Rightarrow> rpJSON" where
  "rp_toJSON rp = \<lparr>j_mode = rp_mode rp, j_tags = rp_tags rp,
     j_maxStalenessSeconds = (case rp_maxStalenessSeconds rp of
        Some s \<Rightarrow> (if s \<noteq> 0 then Some s else None) | None \<Rightarrow> None),
     j_hedge = rp_hedge rp\<rparr>"

section \<open>Well-formed read preferences\<close>

text \<open>What every instance the constructor returns satisfies.\<close>

definition rp_wf :: "readPreference \<Rightarrow> bool" where
  "rp_wf rp =
     (ReadPreference_isValid (rp_mode rp)
      \<and> (case rp_maxStalenessSeconds rp of Some s \<Rightarrow> 0 < s | None \<Rightarrow> True)
      \<and> (rp_minWireVersion rp = (if rp_maxStalenessSeconds rp = None then None else Some 5))
      \<and> (rp_mode rp = PRIMARY \<longrightarrow>
           (rp_tags rp = None \<or> rp_tags rp = Some []) \<and> rp_maxStalenessSeconds rp = None \<and> rp_hedge rp = None))"

lemma check_primary_Inr:
  "check_primary rp = Inr rp' \<longleftrightarrow> rp' = rp
     \<and> (rp_mode rp = PRIMARY \<longrightarrow> (rp_tags rp = None \<or> rp_tags rp = Some [])
          \<and> (rp_maxStalenessSeconds rp = None \<or> rp_maxStalenessSeconds rp = Some 0) \<and> rp_hedge rp = None)"
  by (auto simp: check_primary_def split: option.splits)

lemma rp_init_wf:
  assumes "rp_init mode tags opts = Inr rp" "ReadPreference_isValid mode"
  shows "rp_wf rp \<and> rp_mode rp = mode"
  using assms
  by (cases "rpo_maxStalenessSeconds opts")
    (auto simp: rp_init_def check_primary_Inr rp_wf_def split: if_splits)

text \<open>
  (C23) Every read preference the constructor returns is well-formed: the mode is valid, a maximum
  staleness is positive and demands wire version 5, and the primary mode comes with no tags, no
  staleness and no hedge; and the constructor succeeds on array tags exactly for such arguments.
\<close>

theorem readPreference_new_wf:
  "(\<forall>rp. ReadPreference_new mode tags options = Inr rp \<longrightarrow> rp_wf rp \<and> rp_mode rp = mode)
   \<and> ((\<exists>rp. ReadPreference_new mode (TagsArray ts) (Some opts) = Inr rp) \<longleftrightarrow>
        ReadPreference_isValid mode
        \<and> (case rpo_maxStalenessSeconds opts of Some s \<Rightarrow> 0 < s | None \<Rightarrow> True)
        \<and> (mode = PRIMARY \<longrightarrow> ts = [] \<and> rpo_maxStalenessSeconds opts = None \<and> rpo_hedge opts = None))"
proof
  show "\<forall>rp. ReadPreference_new mode tags options = Inr rp \<longrightarrow> rp_wf rp \<and> rp_mode rp = mode"
    by (auto simp: ReadPreference_new_def rbind_Inr_iff dest: rp_init_wf split: if_splits)
  show "(\<exists>rp. ReadPreference_new mode (TagsArray ts) (Some opts) = Inr rp) \<longleftrightarrow>
        ReadPreference_isValid mode
        \<and> (case rpo_maxStalenessSeconds opts of Some s \<Rightarrow> 0 < s | None \<Rightarrow> True)
        \<and> (mode = PRIMARY \<longrightarrow> ts = [] \<and> rpo_maxStalenessSeconds opts = None \<and> rpo_hedge opts = None)"
    by (cases "rpo_maxStalenessSeconds opts")
      (auto simp: ReadPreference_new_def resolve_tags_def rp_init_def check_primary_Inr)
qed

theorem readPreference_new_wf_witness:
  "let made = ReadPreference_new SECONDARY (TagsArray []) (Some (no_rpOptions\<lparr>rpo_maxStalenessSeconds := Some 120\<rparr>))
   in \<exists>rp. made = Inr rp \<and> rp_wf rp \<and> rp_mode rp = SECONDARY"
proof -
  let ?opts = "no_rpOptions\<lparr>rpo_maxStalenessSeconds := Some 120\<rparr>"
  note wf = readPreference_new_wf [of SECONDARY "TagsArray []" "Some ?opts" "[]" ?opts]
  have "\<exists>rp. ReadPreference_new SECONDARY (TagsArray []) (Some ?opts) = Inr rp"
    unfolding conjunct2 [OF wf]
    by (simp add: ReadPreference_isValid_def VALID_MODES_def SECONDARY_def PRIMARY_def)
  then obtain rp where made: "ReadPreference_new SECONDARY (TagsArray []) (Some ?opts) = Inr rp" by blast
  then have "rp_wf rp \<and> rp_mode rp = SECONDARY" using conjunct1 [OF wf] by blast
  with made show ?thesis by (simp add: Let_def)
qed

text \<open>
  \<open>fromOptions\<close> does not validate an instance it is given: with \<open>readPreferenceTags\<close> it writes the
  tags into the instance, so the primary instance comes back with tags, a combination the
  constructor rejects.
\<close>

theorem fromOptions_primary_with_tags:
  "ReadPreference_fromOptions (Some \<lparr>rpf_readPreference = Some (RPInstance ReadPreference_primary),
      rpf_session = s, rpf_readPreferenceTags = Some (t # ts), rpf_maxStalenessSeconds = m, rpf_hedge = h\<rparr>)
     = Inr (Some (RPInstance (ReadPreference_primary\<lparr>rp_tags := Some (t # ts)\<rparr>)))
   \<and> ReadPreference_new (rp_mode ReadPreference_primary) (TagsArray (t # ts)) None
     = Inl (invalid_argument ''Primary read preference cannot be combined with tags'')"
  by (simp add: ReadPreference_fromOptions_def ReadPreference_primary_def ReadPreference_new_def
      ReadPreference_isValid_def VALID_MODES_def resolve_tags_def rp_init_def check_primary_def
      no_rpOptions_def)

end
