(* ===== verification/Server_Selection.thy ===== *)
theory Server_Selection
  imports Topology_Description Read_Preference
begin

text \<open>
  \<open>src/sdam/server_selection.ts\<close>: the selectors that pick the candidate servers of an operation.
  A selector is a function from the topology description and a list of servers to a list of
  servers, or a thrown error.  The interface the topology relies on, that a selector only
  returns servers it was given, is the locale \<open>server_selector\<close>, which every selector of the file
  interprets.  Round-trip times and seconds are rationals, times in milliseconds integers.
\<close>

section \<open>Reducers\<close>

definition IDLE_WRITE_PERIOD :: int where "IDLE_WRITE_PERIOD = 10000"
definition SMALLEST_MAX_STALENESS_SECONDS :: rat where "SMALLEST_MAX_STALENESS_SECONDS = 90"
definition MIN_SECONDARY_WRITE_WIRE_VERSION :: int where "MIN_SECONDARY_WRITE_WIRE_VERSION = 13"

type_synonym serverSelector =
  "topologyDescription \<Rightarrow> serverDescription list \<Rightarrow> mongoError + serverDescription list"

definition primaryFilter :: "serverDescription \<Rightarrow> bool" where
  "primaryFilter s = (sd_type s = RSPrimary)"
definition secondaryFilter :: "serverDescription \<Rightarrow> bool" where
  "secondaryFilter s = (sd_type s = RSSecondary)"
definition nearestFilter :: "serverDescription \<Rightarrow> bool" where
  "nearestFilter s = (sd_type s = RSSecondary \<or> sd_type s = RSPrimary)"
definition knownFilter :: "serverDescription \<Rightarrow> bool" where
  "knownFilter s = (sd_type s \<noteq> ServerUnknown)"
definition loadBalancerFilter :: "serverDescription \<Rightarrow> bool" where
  "loadBalancerFilter s = (sd_type s = LoadBalancer)"

lemmas filter_defs = primaryFilter_def secondaryFilter_def nearestFilter_def knownFilter_def
  loadBalancerFilter_def

text \<open>\<open>reduce\<close> to the most recently written server; the first one wins a tie.\<close>

fun latest_write :: "serverDescription \<Rightarrow> serverDescription list \<Rightarrow> serverDescription" where
  "latest_write m [] = m"
| "latest_write m (s # ss) = latest_write (if sd_lastWriteDate s > sd_lastWriteDate m then s else m) ss"

definition staleness_with_primary :: "topologyDescription \<Rightarrow> serverDescription \<Rightarrow> serverDescription \<Rightarrow> rat" where
  "staleness_with_primary td primary server =
     of_int (sd_lastUpdateTime server - sd_lastWriteDate server
       - (sd_lastUpdateTime primary - sd_lastWriteDate primary) + td_heartbeatFrequencyMS td) / 1000"

definition staleness_no_primary :: "topologyDescription \<Rightarrow> serverDescription \<Rightarrow> serverDescription \<Rightarrow> rat" where
  "staleness_no_primary td sMax server =
     of_int (sd_lastWriteDate sMax - sd_lastWriteDate server + td_heartbeatFrequencyMS td) / 1000"

definition maxStalenessReducer :: "readPreference \<Rightarrow> serverSelector" where
  "maxStalenessReducer rp td servers =
     (case rp_maxStalenessSeconds rp of
        None \<Rightarrow> Inr servers
      | Some maxStaleness \<Rightarrow>
          if maxStaleness < 0 then Inr servers
          else if maxStaleness < of_int (td_heartbeatFrequencyMS td + IDLE_WRITE_PERIOD) / 1000
          then Inl (invalid_argument ''Option maxStalenessSeconds is too small for the heartbeat frequency'')
          else if maxStaleness < SMALLEST_MAX_STALENESS_SECONDS
          then Inl (invalid_argument ''Option maxStalenessSeconds must be at least 90 seconds'')
          else if td_type td = ReplicaSetWithPrimary then
            (case filter primaryFilter (map_values (td_servers td)) of
               [] \<Rightarrow> (if servers = [] then Inr []
                      else Inl (js_type_error ''Cannot read properties of undefined''))
             | primary # _ \<Rightarrow>
                 Inr (filter (\<lambda>s. staleness_with_primary td primary s \<le> maxStaleness) servers))
          else if td_type td = ReplicaSetNoPrimary then
            (case servers of
               [] \<Rightarrow> Inr servers
             | s0 # ss \<Rightarrow>
                 (let sMax = latest_write s0 ss
                  in Inr (filter (\<lambda>s. staleness_no_primary td sMax s \<le> maxStaleness) servers)))
          else Inr servers)"

text \<open>Tag sets are objects: association lists with the own keys, each once.\<close>

definition tagSetMatch :: "tagSet \<Rightarrow> tagSet \<Rightarrow> bool" where
  "tagSetMatch tagSet serverTags =
     list_all (\<lambda>key. map_of serverTags key \<noteq> None \<and> map_of serverTags key = map_of tagSet key)
       (map fst tagSet)"

fun tagSet_loop :: "tagSet list \<Rightarrow> serverDescription list \<Rightarrow> serverDescription list" where
  "tagSet_loop [] servers = []"
| "tagSet_loop (t # ts) servers =
     (let matching = filter (\<lambda>s. tagSetMatch t (sd_tags s)) servers
      in if matching \<noteq> [] then matching else tagSet_loop ts servers)"

definition tagSetReducer :: "readPreference \<Rightarrow> serverDescription list \<Rightarrow> serverDescription list" where
  "tagSetReducer rp servers =
     (case rp_tags rp of
        None \<Rightarrow> servers
      | Some ts \<Rightarrow> (if ts = [] then servers else tagSet_loop ts servers))"

definition latency_low :: "serverDescription list \<Rightarrow> rat" where
  "latency_low servers =
     foldl (\<lambda>m s. if m = -1 then sd_roundTripTime s else min (sd_roundTripTime s) m) (-1) servers"

definition latencyWindowReducer ::
    "topologyDescription \<Rightarrow> serverDescription list \<Rightarrow> serverDescription list" where
  "latencyWindowReducer td servers =
     (let low = latency_low servers; high = low + td_localThresholdMS td
      in filter (\<lambda>s. sd_roundTripTime s \<le> high \<and> sd_roundTripTime s \<ge> low) servers)"

section \<open>Selectors\<close>

definition writableServerSelector :: serverSelector where
  "writableServerSelector td servers = Inr (latencyWindowReducer td (filter isWritable servers))"

definition sameServerSelector :: "serverDescription option \<Rightarrow> serverSelector" where
  "sameServerSelector description td servers =
     (case description of
        None \<Rightarrow> Inr []
      | Some d \<Rightarrow>
          Inr (filter (\<lambda>sd. sd_address sd = sd_address d \<and> sd_type sd \<noteq> ServerUnknown) servers))"

text \<open>The replica-set part of the selector.\<close>

definition replicaSet_select :: "readPreference \<Rightarrow> serverSelector" where
  "replicaSet_select rp td servers =
     (let mode = rp_mode rp in
      if mode = PRIMARY then Inr (filter primaryFilter servers)
      else if mode = PRIMARY_PREFERRED \<and> filter primaryFilter servers \<noteq> []
      then Inr (filter primaryFilter servers)
      else
        rbind (maxStalenessReducer rp td
                 (filter (if mode = NEAREST then nearestFilter else secondaryFilter) servers))
          (\<lambda>eligible.
             let selected = latencyWindowReducer td (tagSetReducer rp eligible)
             in if mode = SECONDARY_PREFERRED \<and> selected = []
                then Inr (filter primaryFilter servers)
                else Inr selected))"

definition read_select :: "readPreference \<Rightarrow> serverSelector" where
  "read_select rp td servers =
     (if (case (td_commonWireVersion td, rp_minWireVersion rp) of
            (Some c, Some m) \<Rightarrow> c \<noteq> 0 \<and> m \<noteq> 0 \<and> m > c | _ \<Rightarrow> False)
      then Inl (mk_error MongoCompatibilityError ''Minimum wire version required'')
      else if td_type td = topologyType.LoadBalanced then Inr (filter loadBalancerFilter servers)
      else if td_type td = TopologyUnknown then Inr []
      else if td_type td = Single \<or> td_type td = Sharded
      then Inr (latencyWindowReducer td (filter knownFilter servers))
      else replicaSet_select rp td servers)"

text \<open>The validity check throws when the selector is built, before any topology is looked at.\<close>

definition readPreferenceServerSelector :: "readPreference \<Rightarrow> mongoError + serverSelector" where
  "readPreferenceServerSelector rp =
     (if \<not> rp_isValid rp None then Inl (invalid_argument ''Invalid read preference specified'')
      else Inr (read_select rp))"

definition secondaryWritableServerSelector ::
    "int option \<Rightarrow> readPreference option \<Rightarrow> mongoError + serverSelector" where
  "secondaryWritableServerSelector wireVersion readPreference =
     (case (readPreference, wireVersion) of
        (Some rp, Some w) \<Rightarrow>
          (if w = 0 \<or> w < MIN_SECONDARY_WRITE_WIRE_VERSION
           then readPreferenceServerSelector ReadPreference_primary
           else readPreferenceServerSelector rp)
      | _ \<Rightarrow> readPreferenceServerSelector ReadPreference_primary)"

section \<open>The interface of a selector\<close>

lemma good_servers_value:
  assumes "good_servers m" "s \<in> set (map_values m)"
  shows "map_of m (sd_address s) = Some s"
proof -
  have "map_wf m" using assms(1) by (simp add: good_servers_def)
  with assms(2) obtain k where k: "map_of m k = Some s" by (auto simp: in_map_values)
  then have "sd_address s = k" using assms(1) unfolding good_servers_def by blast
  with k show ?thesis by simp
qed

lemma td_inv_good: "td_inv td \<Longrightarrow> good_servers (td_servers td)"
  by (auto simp: td_inv_def td_state_def rs_ok_def split: if_splits)

text \<open>
  What the topology expects of a selector: it picks among the servers it is given, and what it
  throws is an error of the driver, never a \<open>TypeError\<close>, when it is given the servers of a
  consistent description.
\<close>

locale server_selector =
  fixes select :: "topologyDescription \<Rightarrow> serverDescription list \<Rightarrow> mongoError + serverDescription list"
  assumes picks: "select td servers = Inr sel \<Longrightarrow> set sel \<subseteq> set servers"
    and throws: "td_inv td \<Longrightarrow> select td (map_values (td_servers td)) = Inl e \<Longrightarrow> e_class e \<noteq> JSTypeError"
begin

text \<open>A selected description is the one the topology holds under its address.\<close>

lemma selected_known:
  assumes "td_inv td" "select td (map_values (td_servers td)) = Inr sel" "s \<in> set sel"
  shows "map_of (td_servers td) (sd_address s) = Some s"
  using good_servers_value [OF td_inv_good [OF assms(1)]] picks [OF assms(2)] assms(3) by blast

end

lemma latencyWindowReducer_subset: "set (latencyWindowReducer td ss) \<subseteq> set ss"
  by (auto simp: latencyWindowReducer_def Let_def)

lemma tagSet_loop_subset: "set (tagSet_loop ts ss) \<subseteq> set ss"
  by (induction ts) (auto simp: Let_def)

lemma tagSetReducer_subset: "set (tagSetReducer rp ss) \<subseteq> set ss"
  using tagSet_loop_subset by (auto simp: tagSetReducer_def split: option.splits)

lemma maxStalenessReducer_subset:
  "maxStalenessReducer rp td ss = Inr r \<Longrightarrow> set r \<subseteq> set ss"
  by (auto simp: maxStalenessReducer_def Let_def split: option.splits if_splits list.splits)

lemma td_inv_has_primary:
  assumes "td_inv td" "td_type td = ReplicaSetWithPrimary"
  shows "filter primaryFilter (map_values (td_servers td)) \<noteq> []"
proof -
  have rs: "good_servers (td_servers td)" "\<exists>k. prim (td_servers td) k"
    using assms by (auto simp: td_inv_def td_state_def rs_ok_def)
  then obtain k s where s: "map_of (td_servers td) k = Some s" "sd_type s = RSPrimary"
    by (auto simp: prim_iff)
  have "s \<in> set (map_values (td_servers td))"
    using s(1) rs(1) in_map_values [of "td_servers td" s] by (auto simp: good_servers_def)
  with s(2) show ?thesis by (auto simp: primaryFilter_def filter_empty_conv)
qed

lemma maxStalenessReducer_throws:
  assumes "td_inv td" "maxStalenessReducer rp td ss = Inl e"
  shows "e_class e = MongoInvalidArgumentError"
  using assms td_inv_has_primary [OF assms(1)]
  by (auto simp: maxStalenessReducer_def Let_def invalid_argument_def mk_error_def
      split: option.splits if_splits list.splits)

lemma replicaSet_select_subset: "replicaSet_select rp td ss = Inr r \<Longrightarrow> set r \<subseteq> set ss"
  using latencyWindowReducer_subset tagSetReducer_subset
  by (fastforce simp: replicaSet_select_def Let_def rbind_Inr_iff split: if_splits
      dest: maxStalenessReducer_subset)

lemma read_select_subset: "read_select rp td ss = Inr r \<Longrightarrow> set r \<subseteq> set ss"
  using latencyWindowReducer_subset replicaSet_select_subset
  by (fastforce simp: read_select_def split: if_splits)

lemma read_select_throws:
  assumes "td_inv td" "read_select rp td ss = Inl e"
  shows "e_class e \<in> {MongoInvalidArgumentError, MongoCompatibilityError}"
  using assms maxStalenessReducer_throws [OF assms(1)]
  by (auto simp: read_select_def replicaSet_select_def Let_def rbind_Inl_iff mk_error_def split: if_splits)

interpretation writable: server_selector writableServerSelector
  using latencyWindowReducer_subset
  by unfold_locales (fastforce simp: writableServerSelector_def)+

interpretation same: server_selector "sameServerSelector d"
  by unfold_locales (auto simp: sameServerSelector_def split: option.splits)

interpretation rp: server_selector "read_select rp"
  using read_select_subset read_select_throws by unfold_locales fastforce+

section \<open>What is selected\<close>

lemma latency_low_Min:
  assumes "\<forall>s \<in> set ss. sd_roundTripTime s \<ge> 0" "ss \<noteq> []"
  shows "latency_low ss = Min (sd_roundTripTime ` set ss)"
proof -
  let ?f = "\<lambda>m s. if m = -1 then sd_roundTripTime s else min (sd_roundTripTime s) m"
  have step: "foldl ?f m ts = Min (insert m (sd_roundTripTime ` set ts))"
    if "m \<ge> 0" "\<forall>s \<in> set ts. sd_roundTripTime s \<ge> 0" for m ts
    using that
  proof (induction ts arbitrary: m)
    case (Cons t ts)
    have "foldl ?f m (t # ts) = foldl ?f (min (sd_roundTripTime t) m) ts" using Cons.prems by simp
    also have "\<dots> = Min (insert (min (sd_roundTripTime t) m) (sd_roundTripTime ` set ts))"
      using Cons by (simp add: min_def)
    also have "\<dots> = Min (insert m (sd_roundTripTime ` set (t # ts)))"
      by (cases ts) (auto simp: min.assoc min.left_commute)
    finally show ?case .
  qed simp
  obtain t ts where "ss = t # ts" using assms(2) by (cases ss) auto
  with assms step [of "sd_roundTripTime t" ts] show ?thesis by (simp add: latency_low_def)
qed

text \<open>
  The latency window.  When the round-trip times are known, the reducer keeps exactly the
  servers within the local threshold of the fastest one, in order, and with a threshold that is
  not negative it never drops all of them.
\<close>

theorem latency_window:
  assumes "\<forall>s \<in> set ss. sd_roundTripTime s \<ge> 0" "ss \<noteq> []" "td_localThresholdMS td \<ge> 0"
  shows "latencyWindowReducer td ss =
      filter (\<lambda>s. sd_roundTripTime s \<le> Min (sd_roundTripTime ` set ss) + td_localThresholdMS td) ss
    \<and> latencyWindowReducer td ss \<noteq> []"
proof -
  let ?low = "Min (sd_roundTripTime ` set ss)"
  have ge: "s \<in> set ss \<Longrightarrow> ?low \<le> sd_roundTripTime s" for s by simp
  have eq: "latencyWindowReducer td ss =
      filter (\<lambda>s. sd_roundTripTime s \<le> ?low + td_localThresholdMS td) ss"
    unfolding latencyWindowReducer_def Let_def latency_low_Min [OF assms(1,2)]
    by (rule filter_cong) (auto simp: ge)
  have "?low \<in> sd_roundTripTime ` set ss" using assms(2) by (intro Min_in) auto
  then obtain s where s: "s \<in> set ss" "sd_roundTripTime s = ?low" by auto
  then have "sd_roundTripTime s \<le> ?low + td_localThresholdMS td" using assms(3) by linarith
  with s(1) have "filter (\<lambda>s. sd_roundTripTime s \<le> ?low + td_localThresholdMS td) ss \<noteq> []"
    unfolding filter_empty_conv by blast
  with eq show ?thesis by simp
qed

definition example_secondary :: "string \<Rightarrow> rat \<Rightarrow> serverDescription" where
  "example_secondary a rtt = (unknownDescription 0 a)
     \<lparr>sd_type := RSSecondary, sd_setName := Some ''rs'', sd_roundTripTime := rtt,
      sd_tags := [(''dc'', ''ny'')]\<rparr>"

definition example_description :: "topologyType \<Rightarrow> serverDescription list \<Rightarrow> topologyDescription" where
  "example_description ty ss = TopologyDescription_new ty (map (\<lambda>s. (sd_address s, s)) ss)
     (Some ''rs'') None None (Some 13) 10000 15"

theorem latency_window_witness:
  "latencyWindowReducer (example_description ReplicaSetNoPrimary [])
      [example_secondary ''a:1'' 40, example_secondary ''b:1'' 10, example_secondary ''c:1'' 20] =
   [example_secondary ''b:1'' 10, example_secondary ''c:1'' 20]"
proof -
  have t: "td_localThresholdMS (example_description ReplicaSetNoPrimary []) = 15"
    by (simp add: example_description_def TopologyDescription_new_def Let_def)
  have r: "sd_roundTripTime (example_secondary a x) = x" for a x
    by (simp add: example_secondary_def)
  show ?thesis
    using latency_window [of "[example_secondary ''a:1'' 40, example_secondary ''b:1'' 10,
        example_secondary ''c:1'' 20]" "example_description ReplicaSetNoPrimary []"] t r by simp
qed

lemma tagSet_loop_first:
  "(tagSet_loop ts ss = [] \<and> (\<forall>t \<in> set ts. \<forall>s \<in> set ss. \<not> tagSetMatch t (sd_tags s)))
   \<or> (\<exists>i < length ts. tagSet_loop ts ss = filter (\<lambda>s. tagSetMatch (ts ! i) (sd_tags s)) ss
        \<and> tagSet_loop ts ss \<noteq> [] \<and> (\<forall>j < i. \<forall>s \<in> set ss. \<not> tagSetMatch (ts ! j) (sd_tags s)))"
proof (induction ts)
  case (Cons t ts)
  show ?case
  proof (cases "filter (\<lambda>s. tagSetMatch t (sd_tags s)) ss = []")
    case False
    then show ?thesis by (intro disjI2 exI [of _ 0]) simp
  next
    case True
    then have none: "\<forall>s \<in> set ss. \<not> tagSetMatch t (sd_tags s)" by (simp add: filter_empty_conv)
    from Cons.IH show ?thesis
    proof (elim disjE exE conjE)
      fix i assume "i < length ts" "tagSet_loop ts ss = filter (\<lambda>s. tagSetMatch (ts ! i) (sd_tags s)) ss"
        "tagSet_loop ts ss \<noteq> []" "\<forall>j < i. \<forall>s \<in> set ss. \<not> tagSetMatch (ts ! j) (sd_tags s)"
      with True none show ?thesis
        by (intro disjI2 exI [of _ "Suc i"]) (auto simp: less_Suc_eq_0_disj)
    qed (use True none in auto)
  qed
qed simp

text \<open>
  Tag sets are tried in order: the result is either empty, and then no tag set matches any
  server, or it is all the servers matching the first tag set that matches one.
\<close>

theorem tag_sets_in_order:
  assumes "rp_tags rp = Some ts" "ts \<noteq> []"
  shows "(tagSetReducer rp ss = [] \<and> (\<forall>t \<in> set ts. \<forall>s \<in> set ss. \<not> tagSetMatch t (sd_tags s)))
   \<or> (\<exists>i < length ts. tagSetReducer rp ss = filter (\<lambda>s. tagSetMatch (ts ! i) (sd_tags s)) ss
        \<and> tagSetReducer rp ss \<noteq> [] \<and> (\<forall>j < i. \<forall>s \<in> set ss. \<not> tagSetMatch (ts ! j) (sd_tags s)))"
  using tagSet_loop_first [of ts ss] assms by (simp add: tagSetReducer_def)

theorem tag_sets_in_order_witness:
  "let rp = ReadPreference_primary\<lparr>rp_tags := Some [[(''dc'', ''la'')], []]\<rparr>;
       ts = [[(''dc'', ''la'')], []]; ss = [example_secondary ''a:1'' 5]
   in (tagSetReducer rp ss = [] \<and> (\<forall>t \<in> set ts. \<forall>s \<in> set ss. \<not> tagSetMatch t (sd_tags s)))
   \<or> (\<exists>i < length ts. tagSetReducer rp ss = filter (\<lambda>s. tagSetMatch (ts ! i) (sd_tags s)) ss
        \<and> tagSetReducer rp ss \<noteq> [] \<and> (\<forall>j < i. \<forall>s \<in> set ss. \<not> tagSetMatch (ts ! j) (sd_tags s)))"
  unfolding Let_def by (rule tag_sets_in_order) simp_all

section \<open>Staleness\<close>

lemma latest_write_max: "s \<in> set (m # ss) \<Longrightarrow> sd_lastWriteDate s \<le> sd_lastWriteDate (latest_write m ss)"
proof (induction ss arbitrary: m s)
  case (Cons t ss)
  let ?m = "if sd_lastWriteDate t > sd_lastWriteDate m then t else m"
  have "sd_lastWriteDate ?m \<le> sd_lastWriteDate (latest_write ?m ss)" using Cons.IH [of ?m ?m] by simp
  moreover have "sd_lastWriteDate m \<le> sd_lastWriteDate ?m" "sd_lastWriteDate t \<le> sd_lastWriteDate ?m" by auto
  ultimately have "sd_lastWriteDate m \<le> sd_lastWriteDate (latest_write ?m ss)"
    "sd_lastWriteDate t \<le> sd_lastWriteDate (latest_write ?m ss)" by linarith+
  with Cons.prems Cons.IH [of s ?m] show ?case by auto
qed simp

lemma latest_write_in: "latest_write m ss \<in> set (m # ss)"
proof (induction ss arbitrary: m)
  case (Cons t ss)
  from Cons.IH [of "if sd_lastWriteDate t > sd_lastWriteDate m then t else m"]
  show ?case by (auto split: if_splits)
qed simp

text \<open>
  Staleness.  A read preference with a maximum staleness is rejected exactly when the bound
  is below 90 seconds or below the heartbeat period plus the idle write period; otherwise, in a
  replica set without a primary, the reducer keeps exactly the servers whose last write is at most
  the bound minus a heartbeat behind the most recent one, and it always keeps that one.
\<close>

theorem staleness_without_primary:
  assumes "td_type td = ReplicaSetNoPrimary" "rp_maxStalenessSeconds rp = Some m" "m \<ge> 0" "ss \<noteq> []"
  shows "if m < 90 \<or> m < of_int (td_heartbeatFrequencyMS td + 10000) / 1000
    then \<exists>e. maxStalenessReducer rp td ss = Inl e \<and> e_class e = MongoInvalidArgumentError
    else \<exists>sMax r. sMax \<in> set ss \<and> (\<forall>s \<in> set ss. sd_lastWriteDate s \<le> sd_lastWriteDate sMax)
      \<and> maxStalenessReducer rp td ss = Inr r \<and> sMax \<in> set r
      \<and> r = filter (\<lambda>s. of_int (sd_lastWriteDate sMax - sd_lastWriteDate s + td_heartbeatFrequencyMS td) / 1000 \<le> m) ss"
proof (cases "m < 90 \<or> m < of_int (td_heartbeatFrequencyMS td + 10000) / 1000")
  case True
  with assms show ?thesis
    by (auto simp: maxStalenessReducer_def IDLE_WRITE_PERIOD_def SMALLEST_MAX_STALENESS_SECONDS_def
        invalid_argument_def mk_error_def)
next
  case False
  obtain s0 ss' where ss: "ss = s0 # ss'" using assms(4) by (cases ss) auto
  let ?x = "latest_write s0 ss'"
  have x: "?x \<in> set ss" "\<forall>s \<in> set ss. sd_lastWriteDate s \<le> sd_lastWriteDate ?x"
    using latest_write_in [of s0 ss'] latest_write_max [of _ s0 ss'] ss by auto
  have "of_int (td_heartbeatFrequencyMS td) / 1000 \<le> m" using False by (simp add: divide_simps)
  with False assms x ss show ?thesis
    by (auto simp: maxStalenessReducer_def IDLE_WRITE_PERIOD_def SMALLEST_MAX_STALENESS_SECONDS_def
        staleness_no_primary_def Let_def)
qed

theorem staleness_without_primary_witness:
  "let rp = ReadPreference_primary\<lparr>rp_mode := SECONDARY, rp_maxStalenessSeconds := Some 100\<rparr>;
       td = example_description ReplicaSetNoPrimary []; ss = [example_secondary ''a:1'' 5]
   in \<exists>sMax r. sMax \<in> set ss \<and> (\<forall>s \<in> set ss. sd_lastWriteDate s \<le> sd_lastWriteDate sMax)
      \<and> maxStalenessReducer rp td ss = Inr r \<and> sMax \<in> set r"
proof -
  let ?rp = "ReadPreference_primary\<lparr>rp_mode := SECONDARY, rp_maxStalenessSeconds := Some 100\<rparr>"
  let ?td = "example_description ReplicaSetNoPrimary []"
  have "td_type ?td = ReplicaSetNoPrimary" "td_heartbeatFrequencyMS ?td = 10000"
    by (simp_all add: example_description_def TopologyDescription_new_def Let_def)
  with staleness_without_primary [of ?td ?rp 100 "[example_secondary ''a:1'' 5]"]
  show ?thesis unfolding Let_def by auto
qed

section \<open>Modes\<close>

text \<open>The part of the replica-set selection that the staleness, tag and latency reducers share.\<close>

lemma reduced_from:
  assumes "maxStalenessReducer rp td (filter f ss) = Inr el"
    and "s \<in> set (latencyWindowReducer td (tagSetReducer rp el))"
  shows "s \<in> set ss \<and> f s"
  using maxStalenessReducer_subset [OF assms(1)] latencyWindowReducer_subset tagSetReducer_subset assms(2)
  by fastforce

definition mode_allows :: "readPreferenceMode \<Rightarrow> bool \<Rightarrow> serverType \<Rightarrow> bool" where
  "mode_allows mode has_primary t =
     (if mode = PRIMARY then t = RSPrimary
      else if mode = PRIMARY_PREFERRED then (if has_primary then t = RSPrimary else t = RSSecondary)
      else if mode = SECONDARY_PREFERRED then t = RSPrimary \<or> t = RSSecondary
      else if mode = NEAREST then t = RSPrimary \<or> t = RSSecondary
      else t = RSSecondary)"

lemma replicaSet_select_allowed:
  assumes "replicaSet_select rp td ss = Inr r" "s \<in> set r"
  shows "mode_allows (rp_mode rp) (list_ex primaryFilter ss) (sd_type s)"
proof -
  have neq: "PRIMARY \<noteq> PRIMARY_PREFERRED" "PRIMARY \<noteq> SECONDARY_PREFERRED" "PRIMARY \<noteq> NEAREST"
    "PRIMARY_PREFERRED \<noteq> SECONDARY_PREFERRED" "PRIMARY_PREFERRED \<noteq> NEAREST" "SECONDARY_PREFERRED \<noteq> NEAREST"
    by (simp_all add: mode_defs)
  have ex: "filter primaryFilter ss \<noteq> [] \<longleftrightarrow> list_ex primaryFilter ss"
    by (auto simp: filter_empty_conv list_ex_iff)
  consider "r = filter primaryFilter ss" "rp_mode rp = PRIMARY \<or> rp_mode rp = SECONDARY_PREFERRED
        \<or> (rp_mode rp = PRIMARY_PREFERRED \<and> list_ex primaryFilter ss)"
    | el where "rp_mode rp \<noteq> PRIMARY" "\<not> (rp_mode rp = PRIMARY_PREFERRED \<and> list_ex primaryFilter ss)"
      "maxStalenessReducer rp td (filter (if rp_mode rp = NEAREST then nearestFilter else secondaryFilter) ss) = Inr el"
      "r = latencyWindowReducer td (tagSetReducer rp el)"
    using assms(1) ex by (auto simp: replicaSet_select_def Let_def rbind_Inr_iff split: if_splits)
  then show ?thesis
  proof cases
    case 1
    with assms(2) neq show ?thesis by (auto simp: mode_allows_def primaryFilter_def)
  next
    case 2
    with reduced_from [OF 2(3), of s] assms(2) neq show ?thesis
      by (auto simp: mode_allows_def nearestFilter_def secondaryFilter_def split: if_splits)
  qed
qed

text \<open>
  The types of servers a selection may return.  In a replica set the mode decides; behind a load
  balancer it is the balancer; in a direct connection and a sharded cluster the mode is for the
  server to apply, and any known server will do; an unknown topology has nothing to select.
\<close>

definition selection_allows :: "topologyDescription \<Rightarrow> readPreferenceMode \<Rightarrow> serverType \<Rightarrow> bool" where
  "selection_allows td mode t =
     (case td_type td of
        ReplicaSetWithPrimary \<Rightarrow> mode_allows mode True t
      | ReplicaSetNoPrimary \<Rightarrow> mode_allows mode False t
      | topologyType.LoadBalanced \<Rightarrow> t = LoadBalancer
      | TopologyUnknown \<Rightarrow> False
      | _ \<Rightarrow> t \<noteq> ServerUnknown)"

lemma read_select_allowed:
  assumes "td_inv td" "read_select rp td (map_values (td_servers td)) = Inr sel" "s \<in> set sel"
  shows "selection_allows td (rp_mode rp) (sd_type s)"
proof (cases "td_type td \<in> {ReplicaSetWithPrimary, ReplicaSetNoPrimary}")
  case True
  then have rs: "replicaSet_select rp td (map_values (td_servers td)) = Inr sel"
    using assms(2) by (auto simp: read_select_def split: if_splits)
  have wf: "map_wf (td_servers td)" using td_inv_good [OF assms(1)] by (simp add: good_servers_def)
  have "checkHasPrimary (td_servers td) = td_type td"
    using checkHasPrimary_iff [OF wf] assms(1) True by (auto simp: td_inv_def td_state_def rs_ok_def)
  then have "list_ex primaryFilter (map_values (td_servers td)) = (td_type td = ReplicaSetWithPrimary)"
    by (auto simp: checkHasPrimary_def primaryFilter_def [abs_def] split: if_splits)
  with replicaSet_select_allowed [OF rs assms(3)] True show ?thesis by (auto simp: selection_allows_def)
next
  case False
  then show ?thesis
    using assms(2,3) latencyWindowReducer_subset [of td "filter knownFilter (map_values (td_servers td))"]
    by (cases "td_type td") (auto simp: read_select_def selection_allows_def filter_defs split: if_splits)
qed

text \<open>
  (C22) Selection by read preference.  On a consistent description of any type the selector fails only
  with an invalid-argument or compatibility error, and every server it selects is one the topology
  holds under its own address and has an allowed type: in a replica set primaries for \<open>primary\<close>,
  secondaries for \<open>secondary\<close>, the primary for \<open>primaryPreferred\<close> whenever there is one, either for
  the others; the balancer behind a load balancer; any known server, whatever the mode, in a direct
  connection or a sharded cluster; and none while the topology is unknown.
\<close>

theorem selection_respects_mode:
  assumes "td_inv td"
  shows "case read_select rp td (map_values (td_servers td)) of
      Inl e \<Rightarrow> e_class e \<in> {MongoInvalidArgumentError, MongoCompatibilityError}
    | Inr sel \<Rightarrow> list_all (\<lambda>s. map_of (td_servers td) (sd_address s) = Some s
        \<and> selection_allows td (rp_mode rp) (sd_type s)) sel"
proof (cases "read_select rp td (map_values (td_servers td))")
  case (Inl e)
  with read_select_throws [OF assms Inl] show ?thesis by simp
next
  case (Inr sel)
  with rp.selected_known [OF assms Inr] read_select_allowed [OF assms Inr] show ?thesis
    by (simp add: list_all_iff)
qed

lemma td_inv_example_description:
  assumes "distinct (map sd_address ss)" "\<forall>s \<in> set ss. canonical_address (sd_address s) \<and> sd_type s \<noteq> RSPrimary"
  shows "td_inv (example_description ReplicaSetNoPrimary ss)"
proof -
  let ?m = "map (\<lambda>s. (sd_address s, s)) ss"
  have get: "map_of ?m k = Some s \<Longrightarrow> s \<in> set ss \<and> sd_address s = k" for k s
    by (auto dest: map_of_SomeD)
  have wf: "map_wf ?m" using assms(1) by (simp add: map_wf_def map_keys_def comp_def)
  have "sd_address s = k \<and> canonical_address k" if "map_of ?m k = Some s" for k s
    using get [OF that] assms(2) by blast
  with wf have "good_servers ?m" unfolding good_servers_def by blast
  moreover have "\<not> prim ?m k" for k unfolding prim_iff using assms(2) get by blast
  ultimately have "rs_ok (?m, ReplicaSetNoPrimary, Some ''rs'', None, None)"
    by (simp add: rs_ok_def at_most_one_primary_def versions_ok_def)
  then show ?thesis unfolding example_description_def by (rule rs_ok_new) simp_all
qed

theorem selection_respects_mode_witness:
  "let td = example_description ReplicaSetNoPrimary [example_secondary ''a:1'' 40, example_secondary ''b:1'' 10];
       rp = ReadPreference_primary\<lparr>rp_mode := SECONDARY\<rparr>
   in read_select rp td (map_values (td_servers td)) = Inr [example_secondary ''b:1'' 10]
      \<and> selection_allows td SECONDARY (sd_type (example_secondary ''b:1'' 10))"
proof -
  let ?ss = "[example_secondary ''a:1'' 40, example_secondary ''b:1'' 10]"
  let ?td = "example_description ReplicaSetNoPrimary ?ss" and ?rp = "ReadPreference_primary\<lparr>rp_mode := SECONDARY\<rparr>"
  have inv: "td_inv ?td"
    by (rule td_inv_example_description) (simp_all add: example_secondary_def canonical_ab)
  have sel: "read_select ?rp ?td (map_values (td_servers ?td)) = Inr [example_secondary ''b:1'' 10]"
    by (simp add: read_select_def replicaSet_select_def example_description_def ReadPreference_primary_def mode_defs
        map_values_def secondaryFilter_def maxStalenessReducer_def tagSetReducer_def latencyWindowReducer_def
        latency_low_def example_secondary_def TopologyDescription_new_def Let_def split: option.splits)
  with selection_respects_mode [OF inv, of ?rp] show ?thesis by (simp add: Let_def)
qed

text \<open>
  The preferred modes fall back.  If a primary is among the servers and the selection does
  not throw, \<open>primaryPreferred\<close> and \<open>secondaryPreferred\<close> select at least one server, whatever the
  tags, the staleness bound and the round-trip times are.
\<close>

theorem preferred_modes_fall_back:
  assumes "rp_mode rp \<in> {PRIMARY_PREFERRED, SECONDARY_PREFERRED}" "list_ex primaryFilter ss"
    and "replicaSet_select rp td ss = Inr sel"
  shows "sel \<noteq> []"
proof -
  have "filter primaryFilter ss \<noteq> []" using assms(2) by (auto simp: filter_empty_conv list_ex_iff)
  moreover have "PRIMARY_PREFERRED \<noteq> PRIMARY" "SECONDARY_PREFERRED \<noteq> PRIMARY"
    "PRIMARY_PREFERRED \<noteq> SECONDARY_PREFERRED" by (simp_all add: mode_defs)
  ultimately show ?thesis
    using assms(1,3) by (auto simp: replicaSet_select_def Let_def rbind_Inr_iff split: if_splits)
qed

theorem preferred_modes_fall_back_witness:
  "replicaSet_select (ReadPreference_primary\<lparr>rp_mode := SECONDARY_PREFERRED\<rparr>)
     (example_description ReplicaSetWithPrimary []) [(example_secondary ''a:1'' 5)\<lparr>sd_type := RSPrimary\<rparr>]
   = Inr [(example_secondary ''a:1'' 5)\<lparr>sd_type := RSPrimary\<rparr>]"
proof -
  let ?rp = "ReadPreference_primary\<lparr>rp_mode := SECONDARY_PREFERRED\<rparr>"
  let ?td = "example_description ReplicaSetWithPrimary []"
  let ?s = "(example_secondary ''a:1'' 5)\<lparr>sd_type := RSPrimary\<rparr>"
  have eq: "replicaSet_select ?rp ?td [?s] = Inr [?s]"
    by (simp add: replicaSet_select_def ReadPreference_primary_def mode_defs maxStalenessReducer_def
        filter_defs tagSetReducer_def latencyWindowReducer_def)
  moreover have "[?s] \<noteq> []"
    by (rule preferred_modes_fall_back [OF _ _ eq]) (simp_all add: primaryFilter_def)
  ultimately show ?thesis by simp
qed

end
