(* ===== verification/Session_Pool.thy ===== *)
theory Session_Pool
  imports Topology_Description
begin

text \<open>
  The server sessions of \<open>src/sessions.ts\<close> (\<open>ServerSession\<close>, \<open>ServerSessionPool\<close>) and the part of
  the topology they read.  The clock is the argument \<open>now\<close>; the random bytes of a new session id
  are an argument too.  The pool is the list of its sessions, first one first.
\<close>

section \<open>The topology as sessions see it\<close>

text \<open>
  \<open>description\<close> and the \<open>loadBalanced\<close> option of \<open>Topology\<close>, with the derived values sessions ask
  for: \<open>logicalSessionTimeoutMinutes\<close>, whether it is sharded, its largest wire version.
\<close>

record sessionTopology =
  sto_description :: topologyDescription
  sto_loadBalanced :: bool

definition logicalSessionTimeoutMinutes :: "sessionTopology \<Rightarrow> int option" where
  "logicalSessionTimeoutMinutes tp = td_logicalSessionTimeoutMinutes (sto_description tp)"

definition isSharded :: "sessionTopology \<Rightarrow> bool" where
  "isSharded tp = list_ex (\<lambda>s. sd_type s = Mongos) (map_values (td_servers (sto_description tp)))"

text \<open>\<open>lastHello().maxWireVersion\<close>: of the first known server, else the common wire version.\<close>

definition lastHello_maxWireVersion :: "sessionTopology \<Rightarrow> int option" where
  "lastHello_maxWireVersion tp =
     (let sds = map_values (td_servers (sto_description tp)) in
      if sds = [] then None
      else (case filter (\<lambda>s. sd_type s \<noteq> ServerUnknown) sds of
              s # _ \<Rightarrow> Some (sd_maxWireVersion s)
            | [] \<Rightarrow> td_commonWireVersion (sto_description tp)))"

definition maxWireVersion :: "sessionTopology \<Rightarrow> int option" where
  "maxWireVersion tp =
     (if sto_loadBalanced tp then Some MAX_SUPPORTED_WIRE_VERSION else lastHello_maxWireVersion tp)"

definition hasSessionSupport :: "sessionTopology \<Rightarrow> bool" where
  "hasSessionSupport tp = (sto_loadBalanced tp \<or> logicalSessionTimeoutMinutes tp \<noteq> None)"

definition shouldCheckForSessionSupport :: "sessionTopology \<Rightarrow> bool" where
  "shouldCheckForSessionSupport tp =
     (if td_type (sto_description tp) = Single then \<not> hasKnownServers (sto_description tp)
      else \<not> hasDataBearingServers (sto_description tp))"

section \<open>Server sessions\<close>

record serverSession =
  ss_id :: "byte list"
  ss_lastUse :: int
  ss_txnNumber :: int
  ss_isDirty :: bool

definition ServerSession_new :: "int \<Rightarrow> byte list \<Rightarrow> serverSession" where
  "ServerSession_new now randomBytes =
     \<lparr>ss_id = uuidV4 randomBytes, ss_lastUse = now, ss_txnNumber = 0, ss_isDirty = False\<rparr>"

text \<open>\<open>Math.round(x / 60000)\<close> of a non-negative integer: halves round up.\<close>

definition round_minutes :: "int \<Rightarrow> int" where
  "round_minutes ms = (ms + 30000) div 60000"

definition hasTimedOut :: "int \<Rightarrow> serverSession \<Rightarrow> int \<Rightarrow> bool" where
  "hasTimedOut now session sessionTimeoutMinutes =
     (let idleTimeMinutes =
            round_minutes ((calculateDurationInMs now (ss_lastUse session) mod 86400000) mod 3600000)
      in idleTimeMinutes > sessionTimeoutMinutes - 1)"

section \<open>The pool\<close>

fun acquire_loop :: "bool \<Rightarrow> int \<Rightarrow> int \<Rightarrow> serverSession list \<Rightarrow> serverSession option \<times> serverSession list" where
  "acquire_loop loadBalanced now timeout [] = (None, [])"
| "acquire_loop loadBalanced now timeout (s # ss) =
     (if loadBalanced \<or> \<not> hasTimedOut now s timeout then (Some s, ss)
      else acquire_loop loadBalanced now timeout ss)"

definition acquire ::
    "sessionTopology \<Rightarrow> int \<Rightarrow> byte list \<Rightarrow> serverSession list \<Rightarrow> serverSession \<times> serverSession list" where
  "acquire tp now randomBytes sessions =
     (let timeout = (case logicalSessionTimeoutMinutes tp of
                       Some t \<Rightarrow> (if t = 0 then 10 else t) | None \<Rightarrow> 10)
      in case acquire_loop (sto_loadBalanced tp) now timeout sessions of
           (Some s, rest) \<Rightarrow> (s, rest)
         | (None, rest) \<Rightarrow> (ServerSession_new now randomBytes, rest))"

text \<open>Popping the timed-out sessions off the end.\<close>

definition pop_timed_out :: "int \<Rightarrow> int \<Rightarrow> serverSession list \<Rightarrow> serverSession list" where
  "pop_timed_out now timeout sessions = rev (dropWhile (\<lambda>s. hasTimedOut now s timeout) (rev sessions))"

definition release :: "sessionTopology \<Rightarrow> int \<Rightarrow> serverSession \<Rightarrow> serverSession list \<Rightarrow> serverSession list" where
  "release tp now session sessions =
     (case logicalSessionTimeoutMinutes tp of
        Some t \<Rightarrow>
          (if t = 0 then (if sto_loadBalanced tp then session # sessions else sessions)
           else
             (let kept = pop_timed_out now t sessions
              in if \<not> hasTimedOut now session t \<and> \<not> ss_isDirty session then session # kept else kept))
      | None \<Rightarrow> (if sto_loadBalanced tp then session # sessions else sessions))"

text \<open>\<open>endAllPooledSessions\<close>: the ids sent in \<open>endSessions\<close>, and the pool once the reply is in.\<close>

definition endAllPooledSessions :: "serverSession list \<Rightarrow> byte list list option \<times> serverSession list" where
  "endAllPooledSessions sessions =
     (if sessions \<noteq> [] then (Some (map ss_id sessions), []) else (None, sessions))"

section \<open>Properties\<close>

text \<open>
  Idle times wrap every hour.  The idle time is taken modulo a day and then modulo an hour
  before it is converted to minutes, so a session looks exactly as idle as it did a whole number
  of hours earlier: a session that timed out is considered fresh again after an hour.
\<close>

theorem idle_time_wraps_hourly:
  assumes "ss_lastUse s \<le> now"
  shows "hasTimedOut (now + 3600000 * int k) s timeout = hasTimedOut now s timeout
    \<and> (hasTimedOut now s timeout \<longrightarrow> timeout \<le> 60)"
proof -
  have d: "((x mod 86400000) mod 3600000) = x mod (3600000::int)" for x
    by (rule mod_mod_cancel) simp
  have "(now + 3600000 * int k - ss_lastUse s) mod 3600000 = (now - ss_lastUse s) mod 3600000"
    using mod_mult_self1 [of "now - ss_lastUse s" "int k" 3600000] by (simp add: algebra_simps)
  then have "hasTimedOut (now + 3600000 * int k) s timeout = hasTimedOut now s timeout"
    using assms unfolding hasTimedOut_def Let_def d by (simp add: max_def)
  moreover have "timeout \<le> 60" if "hasTimedOut now s timeout"
  proof -
    have "max 0 (now - ss_lastUse s) mod 3600000 < 3600000" by simp
    then have "round_minutes (max 0 (now - ss_lastUse s) mod 3600000) \<le> 60"
      unfolding round_minutes_def by linarith
    with that show ?thesis unfolding hasTimedOut_def Let_def d by simp
  qed
  ultimately show ?thesis by blast
qed

theorem idle_time_wraps_hourly_witness:
  "hasTimedOut 3900000 (ServerSession_new 0 (replicate 16 0)) 30 = False
   \<and> hasTimedOut 1800000 (ServerSession_new 0 (replicate 16 0)) 30"
proof -
  have l: "ss_lastUse (ServerSession_new 0 (replicate 16 0)) = 0" by (simp add: ServerSession_new_def)
  have "hasTimedOut 300000 (ServerSession_new 0 (replicate 16 0)) 30 = False"
    by (simp add: hasTimedOut_def l round_minutes_def)
  then show ?thesis
    using idle_time_wraps_hourly [of "ServerSession_new 0 (replicate 16 0)" 300000 1 30]
    by (simp add: l hasTimedOut_def round_minutes_def)
qed

lemma acquire_loop_spec:
  "acquire_loop lb now t ss =
    (case dropWhile (\<lambda>s. \<not> lb \<and> hasTimedOut now s t) ss of [] \<Rightarrow> (None, []) | s # r \<Rightarrow> (Some s, r))"
  by (induction ss) auto

lemma acquire_cases:
  "(\<exists>stale s rest. sessions = stale @ s # rest \<and> acquire tp now rb sessions = (s, rest))
   \<or> acquire tp now rb sessions = (ServerSession_new now rb, [])"
proof -
  let ?t = "case logicalSessionTimeoutMinutes tp of Some t \<Rightarrow> (if t = 0 then 10 else t) | None \<Rightarrow> 10"
  let ?P = "\<lambda>s. \<not> sto_loadBalanced tp \<and> hasTimedOut now s ?t"
  have split: "sessions = takeWhile ?P sessions @ dropWhile ?P sessions" by simp
  have acq: "acquire tp now rb sessions =
      (case dropWhile ?P sessions of [] \<Rightarrow> (ServerSession_new now rb, []) | s # r \<Rightarrow> (s, r))"
    unfolding acquire_def Let_def acquire_loop_spec
    by (cases "dropWhile ?P sessions") (simp_all del: dropWhile_eq_Nil_conv)
  show ?thesis
  proof (cases "dropWhile ?P sessions")
    case Nil
    with acq show ?thesis by simp
  next
    case (Cons s r)
    with split acq show ?thesis by (metis (no_types, lifting) list.simps(5))
  qed
qed

text \<open>
  The sessions of a client: those in use and those in the pool.  Using a session stamps it, a
  network error makes it dirty, and ending one releases it.
\<close>

record sessionStore =
  in_use :: "serverSession list"
  pooled :: "serverSession list"

datatype poolOp = Acquire "byte list" | Release nat | Touch nat | MarkDirty nat

fun pool_step :: "sessionTopology \<Rightarrow> int \<Rightarrow> sessionStore \<Rightarrow> poolOp \<Rightarrow> sessionStore" where
  "pool_step tp now st (Acquire rb) =
     (let (s, rest) = acquire tp now rb (pooled st) in \<lparr>in_use = s # in_use st, pooled = rest\<rparr>)"
| "pool_step tp now st (Release i) =
     (if i < length (in_use st) then
        \<lparr>in_use = take i (in_use st) @ drop (Suc i) (in_use st),
         pooled = release tp now (in_use st ! i) (pooled st)\<rparr>
      else st)"
| "pool_step tp now st (Touch i) =
     st\<lparr>in_use := (in_use st)[i := (in_use st ! i)\<lparr>ss_lastUse := now\<rparr>]\<rparr>"
| "pool_step tp now st (MarkDirty i) =
     st\<lparr>in_use := (in_use st)[i := (in_use st ! i)\<lparr>ss_isDirty := True\<rparr>]\<rparr>"


fun pool_run :: "sessionStore \<Rightarrow> (sessionTopology \<times> int \<times> poolOp) list \<Rightarrow> sessionStore" where
  "pool_run st [] = st"
| "pool_run st ((tp, now, x) # ops) = pool_run (pool_step tp now st x) ops"

definition store_ids :: "sessionStore \<Rightarrow> byte list list" where
  "store_ids st = map ss_id (in_use st) @ map ss_id (pooled st)"

text \<open>The random bytes of every acquisition give an id that no live session has.\<close>

fun fresh_ids :: "sessionStore \<Rightarrow> (sessionTopology \<times> int \<times> poolOp) list \<Rightarrow> bool" where
  "fresh_ids st [] = True"
| "fresh_ids st ((tp, now, x) # ops) =
     ((case x of Acquire rb \<Rightarrow> uuidV4 rb \<notin> set (store_ids st) | _ \<Rightarrow> True)
      \<and> fresh_ids (pool_step tp now st x) ops)"

lemma mset_pop_timed_out: "mset (map ss_id (pop_timed_out now t ss)) \<subseteq># mset (map ss_id ss)"
proof -
  have "mset (dropWhile P xs) \<subseteq># mset xs" for P and xs :: "serverSession list"
    by (metis mset_append mset_subset_eq_add_right takeWhile_dropWhile_id)
  from this [of "\<lambda>s. hasTimedOut now s t" "rev ss"] show ?thesis
    by (simp add: pop_timed_out_def image_mset_subseteq_mono)
qed

lemma mset_release:
  "mset (map ss_id (release tp now s ss)) \<subseteq># add_mset (ss_id s) (mset (map ss_id ss))"
proof -
  have "mset (map ss_id (pop_timed_out now t ss)) \<subseteq># add_mset (ss_id s) (mset (map ss_id ss))" for t
    using mset_pop_timed_out [of now t ss] by (metis add_mset_add_single mset_subset_eq_add_left subset_mset.order_trans)
  moreover have "mset (map ss_id (s # pop_timed_out now t ss)) \<subseteq># add_mset (ss_id s) (mset (map ss_id ss))" for t
    using mset_pop_timed_out [of now t ss] by simp
  ultimately show ?thesis
    by (auto simp: release_def Let_def split: option.splits)
qed

lemma update_same_id: "ss_id v = ss_id (xs ! i) \<Longrightarrow> map ss_id (xs[i := v]) = map ss_id xs"
  by (cases "i < length xs") (simp_all add: map_update list_update_same_conv list_update_beyond)

definition new_ids :: "poolOp \<Rightarrow> byte list list" where
  "new_ids x = (case x of Acquire rb \<Rightarrow> [uuidV4 rb] | _ \<Rightarrow> [])"

lemma pool_step_ids: "mset (store_ids (pool_step tp now st x)) \<subseteq># mset (new_ids x @ store_ids st)"
proof (cases x)
  case (Acquire rb)
  have "(\<exists>stale s rest. pooled st = stale @ s # rest \<and> acquire tp now rb (pooled st) = (s, rest))
      \<or> acquire tp now rb (pooled st) = (ServerSession_new now rb, [])" by (rule acquire_cases)
  then show ?thesis
    using Acquire
    by (auto simp: store_ids_def new_ids_def ServerSession_new_def subseteq_mset_def)
next
  case (Release i)
  show ?thesis
  proof (cases "i < length (in_use st)")
    case True
    have "mset (map ss_id (in_use st)) =
        add_mset (ss_id (in_use st ! i)) (mset (map ss_id (take i (in_use st) @ drop (Suc i) (in_use st))))"
      by (subst id_take_nth_drop [OF True]) simp
    then show ?thesis
      using Release True mset_release [of tp now "in_use st ! i" "pooled st"]
      by (simp add: store_ids_def new_ids_def)
  next
    case False
    with Release show ?thesis by (simp add: new_ids_def)
  qed
qed (simp_all add: store_ids_def new_ids_def update_same_id)

text \<open>
  (C21) A server session is never used by two client sessions at once.  Starting from no sessions,
  after any sequence of acquisitions (with fresh ids), releases, uses and network errors, at any
  times and whatever the topology reports, all sessions in use and in the pool have pairwise
  different ids.
\<close>

theorem sessions_never_shared:
  assumes "distinct (store_ids st)" "fresh_ids st ops"
  shows "distinct (store_ids (pool_run st ops))"
  using assms
proof (induction st ops rule: pool_run.induct)
  case (2 st tp now x ops)
  have "distinct (new_ids x @ store_ids st)"
    using 2(2,3) by (cases x) (auto simp: new_ids_def)
  then have "distinct (store_ids (pool_step tp now st x))"
    using pool_step_ids by (rule distinct_subseteq_mset)
  with 2 show ?case by simp
qed simp

definition example_sessionTopology :: sessionTopology where
  "example_sessionTopology = \<lparr>sto_description = (TopologyDescription_new Sharded [] None None None None 10000 15)
     \<lparr>td_logicalSessionTimeoutMinutes := Some 30\<rparr>, sto_loadBalanced = False\<rparr>"

theorem sessions_never_shared_witness:
  "distinct (store_ids (pool_run \<lparr>in_use = [], pooled = []\<rparr>
     [(example_sessionTopology, 0, Acquire (replicate 16 1)), (example_sessionTopology, 5, Release 0),
      (example_sessionTopology, 9, Acquire (replicate 16 2))]))"
proof (rule sessions_never_shared)
  have neq: "uuidV4 (replicate 16 2) \<noteq> uuidV4 (replicate 16 1)"
    by (simp add: uuidV4_def numeral_eq_Suc)
  have "set (store_ids (pool_step example_sessionTopology 5
      (pool_step example_sessionTopology 0 \<lparr>in_use = [], pooled = []\<rparr> (Acquire (replicate 16 1))) (Release 0)))
      \<subseteq> {uuidV4 (replicate 16 1)}"
    by (auto simp: store_ids_def acquire_def ServerSession_new_def release_def example_sessionTopology_def
        logicalSessionTimeoutMinutes_def pop_timed_out_def)
  with neq show "fresh_ids \<lparr>in_use = [], pooled = []\<rparr>
     [(example_sessionTopology, 0, Acquire (replicate 16 1)), (example_sessionTopology, 5, Release 0),
      (example_sessionTopology, 9, Acquire (replicate 16 2))]"
    by (auto simp: store_ids_def simp del: pool_step.simps)
qed (simp add: store_ids_def)

end
