(* ===== verification/Transactions.thy ===== *)
theory Transactions
  imports Read_Preference
begin

text \<open>
  \<open>src/write_concern.ts\<close>, \<open>src/read_concern.ts\<close> and \<open>src/transactions.ts\<close>: the concerns a command
  carries and the transaction state machine of a session.  A server is named by its address, an
  opaque BSON document by its serialised form.  The transition table interprets the prelude's
  \<open>transition_table\<close>.
\<close>

type_synonym document = string

section \<open>Write concern\<close>

datatype wValue = WNum int | WStr string
datatype fsyncValue = FsyncBool bool | FsyncOne

record writeConcern =
  wc_w :: "wValue option"
  wc_wtimeout :: "int option"
  wc_j :: "bool option"
  wc_fsync :: "fsyncValue option"

record writeConcernSettings =
  wcs_w :: "wValue option"
  wcs_wtimeoutMS :: "int option"
  wcs_journal :: "bool option"
  wcs_j :: "bool option"
  wcs_wtimeout :: "int option"
  wcs_fsync :: "fsyncValue option"

definition no_settings :: writeConcernSettings where
  "no_settings = \<lparr>wcs_w = None, wcs_wtimeoutMS = None, wcs_journal = None, wcs_j = None,
     wcs_wtimeout = None, wcs_fsync = None\<rparr>"

text \<open>
  \<open>Number(s)\<close> of a string, for blank strings and decimal integers with an optional sign;
  \<^term>\<open>None\<close> is \<open>NaN\<close>.  Fractions, exponents and other radixes are not modelled.
\<close>

definition js_Number :: "string \<Rightarrow> int option" where
  "js_Number s =
     (let t = dropWhile (\<lambda>c. c = CHR '' '') (rev (dropWhile (\<lambda>c. c = CHR '' '') (rev s)));
          digits = (if t \<noteq> [] \<and> hd t \<in> set ''+-'' then tl t else t)
      in if t = [] then Some 0
         else if digits \<noteq> [] \<and> list_all is_digit digits
         then Some (if hd t = CHR ''-'' then - int (parse_nat digits) else int (parse_nat digits))
         else None)"

fun numeric_w :: "wValue \<Rightarrow> wValue" where
  "numeric_w (WNum n) = WNum n"
| "numeric_w (WStr s) = (case js_Number s of Some n \<Rightarrow> WNum n | None \<Rightarrow> WStr s)"

definition WriteConcern_new ::
    "wValue option \<Rightarrow> int option \<Rightarrow> bool option \<Rightarrow> fsyncValue option \<Rightarrow> writeConcern" where
  "WriteConcern_new w wtimeout j fsync =
     \<lparr>wc_w = map_option numeric_w w, wc_wtimeout = wtimeout, wc_j = j, wc_fsync = fsync\<rparr>"

text \<open>What \<open>fromOptions\<close> is given: a bare value, an instance, or an options object.\<close>

datatype writeConcernLike = WCInstance writeConcern | WCSettings writeConcernSettings
datatype writeConcernArg = WCValue wValue | WCConcern writeConcern | WCOptions "writeConcernLike option"

definition settings_of_concern :: "writeConcern \<Rightarrow> writeConcernSettings" where
  "settings_of_concern c = no_settings\<lparr>wcs_w := wc_w c, wcs_wtimeout := wc_wtimeout c,
     wcs_j := wc_j c, wcs_fsync := wc_fsync c\<rparr>"

fun settings_of :: "writeConcernLike option \<Rightarrow> writeConcernSettings" where
  "settings_of None = no_settings"
| "settings_of (Some (WCInstance c)) = settings_of_concern c"
| "settings_of (Some (WCSettings s)) = s"

fun arg_settings :: "writeConcernArg \<Rightarrow> writeConcernSettings" where
  "arg_settings (WCValue w) = no_settings\<lparr>wcs_w := Some w\<rparr>"
| "arg_settings (WCConcern c) = settings_of_concern c"
| "arg_settings (WCOptions l) = settings_of l"

text \<open>\<open>{...parentOpts, ...opts}\<close>; an absent property does not override.\<close>

definition merge_settings :: "writeConcernSettings \<Rightarrow> writeConcernSettings \<Rightarrow> writeConcernSettings" where
  "merge_settings p s =
     \<lparr>wcs_w = coalesce (wcs_w s) (wcs_w p), wcs_wtimeoutMS = coalesce (wcs_wtimeoutMS s) (wcs_wtimeoutMS p),
      wcs_journal = coalesce (wcs_journal s) (wcs_journal p), wcs_j = coalesce (wcs_j s) (wcs_j p),
      wcs_wtimeout = coalesce (wcs_wtimeout s) (wcs_wtimeout p), wcs_fsync = coalesce (wcs_fsync s) (wcs_fsync p)\<rparr>"

definition WriteConcern_fromOptions ::
    "writeConcernArg option \<Rightarrow> writeConcernArg option \<Rightarrow> writeConcern option" where
  "WriteConcern_fromOptions options inherit =
     (case options of
        None \<Rightarrow> None
      | Some a \<Rightarrow>
          (let m = merge_settings
                 (case inherit of Some p \<Rightarrow> arg_settings p | None \<Rightarrow> no_settings) (arg_settings a)
           in if wcs_w m \<noteq> None \<or> wcs_wtimeout m \<noteq> None \<or> wcs_wtimeoutMS m \<noteq> None \<or> wcs_j m \<noteq> None
                 \<or> wcs_journal m \<noteq> None \<or> wcs_fsync m \<noteq> None
              then Some (WriteConcern_new (wcs_w m) (coalesce (wcs_wtimeout m) (wcs_wtimeoutMS m))
                     (coalesce (wcs_j m) (wcs_journal m)) (wcs_fsync m))
              else None))"

section \<open>Read concern\<close>

record readConcern =
  rc_level :: string

datatype readConcernLike = RCInstance readConcern | RCString string | RCObject "string option"

text \<open>\<open>ReadConcernLevel[level] ?? level\<close>: every level of the table maps to itself.\<close>

definition ReadConcern_new :: "string \<Rightarrow> readConcern" where
  "ReadConcern_new level = \<lparr>rc_level = level\<rparr>"

definition ReadConcern_fromOptions ::
    "(readConcernLike option \<times> string option) option \<Rightarrow> readConcern option" where
  "ReadConcern_fromOptions options =
     (case options of
        None \<Rightarrow> None
      | Some (readConcern, level) \<Rightarrow>
          (let by_level = (if truthy_str level then map_option ReadConcern_new level else None)
           in case readConcern of
                Some (RCInstance rc) \<Rightarrow> Some rc
              | Some (RCString s) \<Rightarrow> (if s \<noteq> [] then Some (ReadConcern_new s) else by_level)
              | Some (RCObject l) \<Rightarrow>
                  (if truthy_str l then map_option ReadConcern_new l else by_level)
              | None \<Rightarrow> by_level))"

section \<open>The transaction state machine\<close>

datatype txnState = NO_TRANSACTION | STARTING_TRANSACTION | TRANSACTION_IN_PROGRESS
  | TRANSACTION_COMMITTED | TRANSACTION_COMMITTED_EMPTY | TRANSACTION_ABORTED

fun stateMachine :: "txnState \<Rightarrow> txnState list" where
  "stateMachine NO_TRANSACTION = [NO_TRANSACTION, STARTING_TRANSACTION]"
| "stateMachine STARTING_TRANSACTION =
     [TRANSACTION_IN_PROGRESS, TRANSACTION_COMMITTED, TRANSACTION_COMMITTED_EMPTY, TRANSACTION_ABORTED]"
| "stateMachine TRANSACTION_IN_PROGRESS =
     [TRANSACTION_IN_PROGRESS, TRANSACTION_COMMITTED, TRANSACTION_ABORTED]"
| "stateMachine TRANSACTION_COMMITTED =
     [TRANSACTION_COMMITTED, TRANSACTION_COMMITTED_EMPTY, STARTING_TRANSACTION, NO_TRANSACTION]"
| "stateMachine TRANSACTION_ABORTED = [STARTING_TRANSACTION, NO_TRANSACTION]"
| "stateMachine TRANSACTION_COMMITTED_EMPTY = [TRANSACTION_COMMITTED_EMPTY, NO_TRANSACTION]"

definition ACTIVE_STATES :: "txnState list" where
  "ACTIVE_STATES = [STARTING_TRANSACTION, TRANSACTION_IN_PROGRESS]"

definition COMMITTED_STATES :: "txnState list" where
  "COMMITTED_STATES = [TRANSACTION_COMMITTED, TRANSACTION_COMMITTED_EMPTY, TRANSACTION_ABORTED]"

text \<open>The options a caller gives, and those a transaction keeps.\<close>

record transactionOptions =
  topt_readConcern :: "readConcernLike option"
  topt_writeConcern :: "writeConcernLike option"
  topt_readPreference :: "readPreferenceLike option"
  topt_maxCommitTimeMS :: "int option"

definition no_txnOptions :: transactionOptions where
  "no_txnOptions = \<lparr>topt_readConcern = None, topt_writeConcern = None, topt_readPreference = None,
     topt_maxCommitTimeMS = None\<rparr>"

record txnOptions =
  to_readConcern :: "readConcern option"
  to_writeConcern :: "writeConcern option"
  to_readPreference :: "readPreferenceLike option"
  to_maxTimeMS :: "int option"

record transaction =
  t_state :: txnState
  t_options :: txnOptions
  t_pinnedServer :: "string option"
  t_recoveryToken :: "document option"

definition Transaction_new :: "transactionOptions \<Rightarrow> mongoError + transaction" where
  "Transaction_new options =
     (let writeConcern = WriteConcern_fromOptions (Some (WCOptions (topt_writeConcern options))) None
      in if (case writeConcern of Some c \<Rightarrow> wc_w c = Some (WNum 0) | None \<Rightarrow> False)
         then Inl (mk_error MongoTransactionError ''Transactions do not support unacknowledged write concern'')
         else
           rbind (ReadPreference_fromOptions
                    (Some \<lparr>rpf_readPreference = topt_readPreference options, rpf_session = None,
                       rpf_readPreferenceTags = None, rpf_maxStalenessSeconds = None, rpf_hedge = None\<rparr>))
             (\<lambda>rp. Inr
                \<lparr>t_state = NO_TRANSACTION,
                 t_options =
                   \<lparr>to_readConcern =
                      (if topt_readConcern options = None \<or> topt_readConcern options = Some (RCString []) then None
                       else ReadConcern_fromOptions (Some (topt_readConcern options, None))),
                    to_writeConcern = writeConcern,
                    to_readPreference = rp,
                    to_maxTimeMS = keep_num (topt_maxCommitTimeMS options)\<rparr>,
                 t_pinnedServer = None,
                 t_recoveryToken = None\<rparr>))"

definition isPinned_txn :: "transaction \<Rightarrow> bool" where
  "isPinned_txn t = (t_pinnedServer t \<noteq> None)"

definition isStarting :: "transaction \<Rightarrow> bool" where
  "isStarting t = (t_state t = STARTING_TRANSACTION)"

definition isActive :: "transaction \<Rightarrow> bool" where
  "isActive t = (t_state t \<in> set ACTIVE_STATES)"

definition isCommitted :: "transaction \<Rightarrow> bool" where
  "isCommitted t = (t_state t \<in> set COMMITTED_STATES)"

definition unpinServer :: "transaction \<Rightarrow> transaction" where
  "unpinServer t = t\<lparr>t_pinnedServer := None\<rparr>"

definition pinServer :: "string \<Rightarrow> transaction \<Rightarrow> transaction" where
  "pinServer server t = (if isActive t then t\<lparr>t_pinnedServer := Some server\<rparr> else t)"

definition transition :: "transaction \<Rightarrow> txnState \<Rightarrow> mongoError + transaction" where
  "transition t nextState =
     (if nextState \<in> set (stateMachine (t_state t)) then
        (let t1 = t\<lparr>t_state := nextState\<rparr>
         in Inr (if nextState \<in> {NO_TRANSACTION, STARTING_TRANSACTION, TRANSACTION_ABORTED}
                 then unpinServer t1 else t1))
      else Inl (mk_error MongoRuntimeError ''Attempted illegal state transition''))"

section \<open>Properties of transactions\<close>

interpretation txn: transition_table stateMachine t_state transition
  by unfold_locales (auto simp: transition_def unpinServer_def Let_def)

text \<open>An operation on the transaction: a transition request or a pin.\<close>

datatype txnOp = Transition txnState | Pin string | Unpin

fun txn_step :: "transaction \<Rightarrow> txnOp \<Rightarrow> transaction" where
  "txn_step t (Transition s) = (case transition t s of Inr t' \<Rightarrow> t' | Inl _ \<Rightarrow> t)"
| "txn_step t (Pin server) = pinServer server t"
| "txn_step t Unpin = unpinServer t"

definition pin_inv :: "transaction \<Rightarrow> bool" where
  "pin_inv t = (t_state t \<in> {NO_TRANSACTION, TRANSACTION_ABORTED} \<longrightarrow> t_pinnedServer t = None)"

lemma pin_inv_step [keeps]: "pin_inv t \<Longrightarrow> pin_inv (txn_step t x)"
  by (cases x) (auto simp: pin_inv_def transition_def pinServer_def unpinServer_def isActive_def
      ACTIVE_STATES_def Let_def split: sum.splits)

text \<open>
  A transaction is pinned to a server only while it can still use it: whatever sequence of
  transitions (legal or refused), pins and unpins runs on a new transaction, a transaction in
  \<open>NO_TRANSACTION\<close> or \<open>TRANSACTION_ABORTED\<close> has no pinned server.
\<close>

theorem no_stale_pin:
  assumes "Transaction_new options = Inr t"
  shows "pin_inv (foldl txn_step t ops)"
proof -
  have "pin_inv t" using assms
    by (auto simp: Transaction_new_def Let_def rbind_Inr_iff pin_inv_def split: if_splits)
  then show ?thesis by (induction ops arbitrary: t) (auto intro: pin_inv_step)
qed

definition example_transaction :: transaction where
  "example_transaction = \<lparr>t_state = NO_TRANSACTION,
     t_options = \<lparr>to_readConcern = None, to_writeConcern = None, to_readPreference = None, to_maxTimeMS = None\<rparr>,
     t_pinnedServer = None, t_recoveryToken = None\<rparr>"

lemma Transaction_new_default: "Transaction_new no_txnOptions = Inr example_transaction"
  by (simp add: Transaction_new_def no_txnOptions_def WriteConcern_fromOptions_def merge_settings_def
      no_settings_def ReadPreference_fromOptions_def example_transaction_def keep_num_def truthy_num_def)

theorem no_stale_pin_witness:
  "pin_inv (foldl txn_step example_transaction
     [Transition STARTING_TRANSACTION, Pin ''a:1'', Transition TRANSACTION_ABORTED])"
  by (rule no_stale_pin [OF Transaction_new_default])

text \<open>
  The state machine.  A sequence of transition requests all succeed exactly when each one is
  listed in the table for the state before it, and then the last requested state is the state;
  in particular a committed transaction can be committed again (a retried commit) and an aborted
  one never.
\<close>

theorem transitions_follow_table:
  "((\<exists>t'. txn.run t ts = Inr t') \<longleftrightarrow> txn.path (t_state t) ts)
   \<and> (\<forall>t'. txn.run t ts = Inr t' \<longrightarrow> t_state t' = last (t_state t # ts))
   \<and> (\<nexists>t'. txn.run t [TRANSACTION_ABORTED, TRANSACTION_COMMITTED] = Inr t')"
proof (intro conjI)
  show "(\<exists>t'. txn.run t ts = Inr t') \<longleftrightarrow> txn.path (t_state t) ts" by (rule txn.run_succeeds_iff)
  show "\<forall>t'. txn.run t ts = Inr t' \<longrightarrow> t_state t' = last (t_state t # ts)"
    using txn.run_state by blast
  show "\<nexists>t'. txn.run t [TRANSACTION_ABORTED, TRANSACTION_COMMITTED] = Inr t'"
    unfolding txn.run_succeeds_iff by simp
qed

theorem transitions_follow_table_witness:
  "\<exists>t'. txn.run example_transaction
      [STARTING_TRANSACTION, TRANSACTION_IN_PROGRESS, TRANSACTION_COMMITTED, TRANSACTION_COMMITTED] = Inr t'
    \<and> t_state t' = TRANSACTION_COMMITTED"
proof -
  let ?ts = "[STARTING_TRANSACTION, TRANSACTION_IN_PROGRESS, TRANSACTION_COMMITTED, TRANSACTION_COMMITTED]"
  have p: "txn.path (t_state example_transaction) ?ts" by (simp add: example_transaction_def)
  from transitions_follow_table [of example_transaction ?ts] p obtain t' where
    t': "txn.run example_transaction ?ts = Inr t'" by blast
  moreover have "t_state t' = last (t_state example_transaction # ?ts)"
    using transitions_follow_table [of example_transaction ?ts] t' by blast
  ultimately show ?thesis by auto
qed

end
