(* ===== verification/Sessions.thy ===== *)
theory Sessions
  imports Session_Pool Transactions
begin

text \<open>
  \<open>ClientSession\<close> of \<open>src/sessions.ts\<close>: its operations, the end of a transaction, the decoration
  of commands and what is learnt from replies.  The session's server session is held in the
  session record; the pool, the clock, the random source and the actions on the load balancer's
  connection pool are the record \<open>sessionWorld\<close>.  An asynchronous operation is cut at the points
  where it waits for \<open>executeOperation\<close>: each part is a definition that returns what the code does
  next.  A pinned connection is always one of the load balancer, the topology's first server.
\<close>

section \<open>State\<close>

record connection =
  conn_id :: nat
  conn_serviceId :: "objectId option"

datatype metric = TXN | CURSOR

datatype lbAction = CheckIn connection | PinnedEvent connection metric
  | UnpinnedEvent connection metric | ClearPool "objectId option"

record clientOptions =
  co_readConcern :: "readConcern option"
  co_writeConcern :: "writeConcern option"
  co_readPreference :: "readPreference option"

record clientSession =
  cs_hasEnded :: bool
  cs_clientOptions :: "clientOptions option"
  cs_causalConsistency :: bool
  cs_clusterTime :: "clusterTime option"
  cs_operationTime :: "timestamp option"
  cs_explicit :: bool
  cs_defaultTransactionOptions :: transactionOptions
  cs_transaction :: transaction
  cs_serverSession :: "serverSession option"
  cs_snapshotTime :: "timestamp option"
  cs_snapshotEnabled :: bool
  cs_pinnedConnection :: "connection option"

record sessionWorld =
  w_topology :: sessionTopology
  w_pool :: "serverSession list"
  w_now :: int
  w_random :: "nat \<Rightarrow> byte list"
  w_drawn :: nat
  w_lb :: "lbAction list"

type_synonym sessionState = "clientSession \<times> sessionWorld"

record clientSessionOptions =
  cso_causalConsistency :: "bool option"
  cso_snapshot :: "bool option"
  cso_defaultTransactionOptions :: transactionOptions
  cso_explicit :: bool
  cso_initialClusterTime :: "clusterTime option"

text \<open>The transaction a session starts with: \<open>new Transaction()\<close>, which cannot throw.\<close>

definition initial_transaction :: transaction where
  "initial_transaction =
     (case Transaction_new no_txnOptions of Inr t \<Rightarrow> t | Inl _ \<Rightarrow> example_transaction)"

definition ClientSession_new ::
    "clientSessionOptions \<Rightarrow> clientOptions option \<Rightarrow> mongoError + clientSession" where
  "ClientSession_new options clientOptions =
     (if cso_snapshot options = Some True \<and> cso_causalConsistency options = Some True
      then Inl (mk_error MongoInvalidArgumentError
             ''Properties causalConsistency and snapshot are mutually exclusive'')
      else Inr \<lparr>cs_hasEnded = False, cs_clientOptions = clientOptions,
        cs_causalConsistency =
          (cso_snapshot options \<noteq> Some True \<and> cso_causalConsistency options \<noteq> Some False),
        cs_clusterTime = cso_initialClusterTime options, cs_operationTime = None,
        cs_explicit = cso_explicit options,
        cs_defaultTransactionOptions = cso_defaultTransactionOptions options,
        cs_transaction = initial_transaction, cs_serverSession = None, cs_snapshotTime = None,
        cs_snapshotEnabled = (cso_snapshot options = Some True), cs_pinnedConnection = None\<rparr>)"

section \<open>Accessors\<close>

text \<open>The \<open>serverSession\<close> getter acquires one from the pool when the session has none.\<close>

definition serverSession_get :: "sessionState \<Rightarrow> serverSession option \<times> sessionState" where
  "serverSession_get st = (case st of (cs, w) \<Rightarrow>
     (case cs_serverSession cs of
        Some ss \<Rightarrow> (Some ss, st)
      | None \<Rightarrow>
          (let (ss, rest) = acquire (w_topology w) (w_now w) (w_random w (w_drawn w)) (w_pool w)
           in (Some ss, (cs\<lparr>cs_serverSession := Some ss\<rparr>,
                         w\<lparr>w_pool := rest, w_drawn := Suc (w_drawn w)\<rparr>)))))"

definition expired_session :: mongoError where
  "expired_session = mk_error MongoExpiredSessionError ''Cannot use a session that has ended''"

definition assertAlive :: "sessionState \<Rightarrow> mongoError option \<times> sessionState" where
  "assertAlive st = (case serverSession_get st of
     (None, st') \<Rightarrow> (Some expired_session, st') | (Some _, st') \<Rightarrow> (None, st'))"

definition session_loadBalanced :: "sessionState \<Rightarrow> bool" where
  "session_loadBalanced st = (td_type (sto_description (w_topology (snd st))) = topologyType.LoadBalanced)"

definition inTransaction :: "clientSession \<Rightarrow> bool" where
  "inTransaction cs = isActive (cs_transaction cs)"

definition session_isPinned :: "sessionState \<Rightarrow> bool" where
  "session_isPinned st =
     (if session_loadBalanced st then cs_pinnedConnection (fst st) \<noteq> None
      else isPinned_txn (cs_transaction (fst st)))"

section \<open>Pinning\<close>

record endSessionOptions =
  eo_error :: "mongoError option"
  eo_force :: bool
  eo_forceClear :: bool

definition no_endOptions :: endSessionOptions where
  "no_endOptions = \<lparr>eo_error = None, eo_force = False, eo_forceClear = False\<rparr>"

definition lb_do :: "lbAction list \<Rightarrow> sessionWorld \<Rightarrow> sessionWorld" where
  "lb_do acts w = w\<lparr>w_lb := w_lb w @ acts\<rparr>"

definition session_pin :: "connection \<Rightarrow> sessionState \<Rightarrow> mongoError + sessionState" where
  "session_pin conn st = (case st of (cs, w) \<Rightarrow>
     if cs_pinnedConnection cs \<noteq> None
     then Inl (js_type_error ''Cannot pin multiple connections to the same session'')
     else Inr (cs\<lparr>cs_pinnedConnection := Some conn\<rparr>,
               lb_do [PinnedEvent conn (if inTransaction cs then TXN else CURSOR)] w))"

definition maybeClearPinnedConnection :: "endSessionOptions \<Rightarrow> sessionState \<Rightarrow> sessionState" where
  "maybeClearPinnedConnection options st = (case st of (cs, w) \<Rightarrow>
     if inTransaction cs \<and> (case eo_error options of
          Some e \<Rightarrow> instanceof e MongoError \<and> hasErrorLabel e ''TransientTransactionError'' | None \<Rightarrow> False)
     then st
     else (case cs_pinnedConnection cs of
             None \<Rightarrow> st
           | Some conn \<Rightarrow>
               (cs\<lparr>cs_pinnedConnection := None\<rparr>,
                if eo_error options = None \<or> eo_force options
                then lb_do ([CheckIn conn,
                       UnpinnedEvent conn
                         (if t_state (cs_transaction cs) \<noteq> NO_TRANSACTION then TXN else CURSOR)]
                       @ (if eo_forceClear options then [ClearPool (conn_serviceId conn)] else [])) w
                else w)))"

definition unpin :: "endSessionOptions \<Rightarrow> sessionState \<Rightarrow> sessionState" where
  "unpin options st =
     (if session_loadBalanced st then maybeClearPinnedConnection options st
      else (case st of (cs, w) \<Rightarrow> (cs\<lparr>cs_transaction := unpinServer (cs_transaction cs)\<rparr>, w)))"

section \<open>Starting a transaction\<close>

definition minWireVersionForShardedTransactions :: int where
  "minWireVersionForShardedTransactions = 8"

definition incrementTransactionNumber :: "sessionState \<Rightarrow> sessionState" where
  "incrementTransactionNumber st = (case serverSession_get st of
     (Some ss, (cs, w)) \<Rightarrow>
       (cs\<lparr>cs_serverSession := Some (ss\<lparr>ss_txnNumber := ss_txnNumber ss + 1\<rparr>)\<rparr>, w)
   | (None, st') \<Rightarrow> st')"

definition resolve_txnOptions :: "clientSession \<Rightarrow> transactionOptions option \<Rightarrow> transactionOptions" where
  "resolve_txnOptions cs options =
     (\<lparr>topt_readConcern = coalesce (Option.bind options topt_readConcern)
            (coalesce (topt_readConcern (cs_defaultTransactionOptions cs))
              (Option.bind (cs_clientOptions cs) (\<lambda>c. map_option RCInstance (co_readConcern c)))),
          topt_writeConcern = coalesce (Option.bind options topt_writeConcern)
            (coalesce (topt_writeConcern (cs_defaultTransactionOptions cs))
              (Option.bind (cs_clientOptions cs) (\<lambda>c. map_option WCInstance (co_writeConcern c)))),
          topt_readPreference = coalesce (Option.bind options topt_readPreference)
            (coalesce (topt_readPreference (cs_defaultTransactionOptions cs))
              (Option.bind (cs_clientOptions cs) (\<lambda>c. map_option RPInstance (co_readPreference c)))),
          topt_maxCommitTimeMS = coalesce (Option.bind options topt_maxCommitTimeMS)
            (topt_maxCommitTimeMS (cs_defaultTransactionOptions cs))\<rparr>)"

text \<open>The result is the thrown error, if any, and the state at that point.\<close>

definition startTransaction ::
    "transactionOptions option \<Rightarrow> sessionState \<Rightarrow> mongoError option \<times> sessionState" where
  "startTransaction options st0 =
     (if cs_snapshotEnabled (fst st0)
      then (Some (mk_error MongoCompatibilityError ''Transactions are not allowed with snapshot sessions''), st0)
      else (case assertAlive st0 of
        (Some e, st1) \<Rightarrow> (Some e, st1)
      | (None, st1) \<Rightarrow>
          if inTransaction (fst st1)
          then (Some (mk_error MongoTransactionError ''Transaction already in progress''), st1)
          else
            (let st2 = (if session_isPinned st1 \<and> isCommitted (cs_transaction (fst st1))
                        then unpin no_endOptions st1 else st1)
             in if isSharded (w_topology (snd st2))
                   \<and> (case maxWireVersion (w_topology (snd st2)) of
                        Some v \<Rightarrow> v < minWireVersionForShardedTransactions | None \<Rightarrow> False)
                then (Some (mk_error MongoCompatibilityError
                       ''Transactions are not supported on sharded clusters in MongoDB < 4.2.''), st2)
                else
                  (let (cs3, w3) = incrementTransactionNumber st2
                   in case Transaction_new (resolve_txnOptions cs3 options) of
                        Inl e \<Rightarrow> (Some e, (cs3, w3))
                      | Inr t \<Rightarrow>
                          (case transition t STARTING_TRANSACTION of
                             Inl e \<Rightarrow> (Some e, (cs3\<lparr>cs_transaction := t\<rparr>, w3))
                           | Inr t' \<Rightarrow> (None, (cs3\<lparr>cs_transaction := t'\<rparr>, w3)))))))"

section \<open>Ending a transaction\<close>

definition isMaxTimeMSExpiredError :: "mongoError \<Rightarrow> bool" where
  "isMaxTimeMSExpiredError e =
     (instanceof e MongoServerError
      \<and> (e_code e = Some (CodeNum (MONGODB_ERROR_CODES MaxTimeMSExpired))
         \<or> e_wceCode e = Some (MONGODB_ERROR_CODES MaxTimeMSExpired)))"

definition NON_DETERMINISTIC_WRITE_CONCERN_ERRORS :: "string list" where
  "NON_DETERMINISTIC_WRITE_CONCERN_ERRORS =
     [''CannotSatisfyWriteConcern'', ''UnknownReplWriteConcern'', ''UnsatisfiableWriteConcern'']"

definition isUnknownTransactionCommitResult :: "mongoError \<Rightarrow> bool" where
  "isUnknownTransactionCommitResult e =
     (let nonDeterministic = (instanceof e MongoServerError
            \<and> (case e_codeName e of Some n \<Rightarrow> n \<in> set NON_DETERMINISTIC_WRITE_CONCERN_ERRORS | None \<Rightarrow> False))
      in isMaxTimeMSExpiredError e
         \<or> (\<not> nonDeterministic
            \<and> e_code e \<noteq> Some (CodeNum (MONGODB_ERROR_CODES UnsatisfiableWriteConcern))
            \<and> e_code e \<noteq> Some (CodeNum (MONGODB_ERROR_CODES UnknownReplWriteConcern))))"

datatype endCommand = CommitTransaction | AbortTransaction

record txnCommand =
  tc_command :: endCommand
  tc_writeConcern :: "writeConcern option"
  tc_maxTimeMS :: "int option"
  tc_recoveryToken :: "document option"

text \<open>What an asynchronous operation does next: call back, throw, or send a command and wait.\<close>

datatype endStep = Finished "mongoError option" | Threw mongoError | Send txnCommand

definition txn_error :: "string \<Rightarrow> endStep" where
  "txn_error m = Finished (Some (mk_error MongoTransactionError m))"

definition session_transition :: "txnState \<Rightarrow> endStep \<Rightarrow> sessionState \<Rightarrow> endStep \<times> sessionState" where
  "session_transition s next st = (case st of (cs, w) \<Rightarrow>
     (case transition (cs_transaction cs) s of
        Inl e \<Rightarrow> (Threw e, st)
      | Inr t \<Rightarrow> (next, (cs\<lparr>cs_transaction := t\<rparr>, w))))"

text \<open>\<open>Object.assign({wtimeout: 10000}, writeConcern, {w: 'majority'})\<close>\<close>

definition majority_concern :: "writeConcern option \<Rightarrow> writeConcern" where
  "majority_concern c =
     (let base = (case c of Some x \<Rightarrow> x | None \<Rightarrow> \<lparr>wc_w = None, wc_wtimeout = None, wc_j = None, wc_fsync = None\<rparr>)
      in base\<lparr>wc_w := Some (WStr ''majority''), wc_wtimeout := coalesce (wc_wtimeout base) (Some 10000)\<rparr>)"

definition end_command :: "endCommand \<Rightarrow> clientSession \<Rightarrow> txnCommand" where
  "end_command name cs =
     (let t = cs_transaction cs;
          wc0 = (case to_writeConcern (t_options t) of
                   Some c \<Rightarrow> Some c
                 | None \<Rightarrow> (case Option.bind (cs_clientOptions cs) co_writeConcern of
                             Some c \<Rightarrow> Some \<lparr>wc_w = wc_w c, wc_wtimeout = None, wc_j = None, wc_fsync = None\<rparr>
                           | None \<Rightarrow> None));
          wc = (if t_state t = TRANSACTION_COMMITTED then Some (majority_concern wc0) else wc0)
      in \<lparr>tc_command = name, tc_writeConcern = wc,
          tc_maxTimeMS = (if name = CommitTransaction then keep_num (to_maxTimeMS (t_options t)) else None),
          tc_recoveryToken = t_recoveryToken t\<rparr>)"

definition endTransaction :: "endCommand \<Rightarrow> sessionState \<Rightarrow> endStep \<times> sessionState" where
  "endTransaction name st0 = (case assertAlive st0 of
     (Some e, st) \<Rightarrow> (Finished (Some e), st)
   | (None, st) \<Rightarrow>
       (let txnState = t_state (cs_transaction (fst st)) in
        if txnState = NO_TRANSACTION then (txn_error ''No transaction started'', st)
        else if name = CommitTransaction then
          (if txnState = STARTING_TRANSACTION \<or> txnState = TRANSACTION_COMMITTED_EMPTY
           then session_transition TRANSACTION_COMMITTED_EMPTY (Finished None) st
           else if txnState = TRANSACTION_ABORTED
           then (txn_error ''Cannot call commitTransaction after calling abortTransaction'', st)
           else (Send (end_command name (fst st)), st))
        else
          (if txnState = STARTING_TRANSACTION
           then session_transition TRANSACTION_ABORTED (Finished None) st
           else if txnState = TRANSACTION_ABORTED
           then (txn_error ''Cannot call abortTransaction twice'', st)
           else if txnState = TRANSACTION_COMMITTED \<or> txnState = TRANSACTION_COMMITTED_EMPTY
           then (txn_error ''Cannot call abortTransaction after calling commitTransaction'', st)
           else (Send (end_command name (fst st)), st))))"

text \<open>The handler of the final reply.\<close>

definition commandHandler :: "endCommand \<Rightarrow> mongoError option \<Rightarrow> sessionState \<Rightarrow> endStep \<times> sessionState" where
  "commandHandler name err st0 =
     (if name \<noteq> CommitTransaction then
        (case session_transition TRANSACTION_ABORTED (Finished None) st0 of
           (Threw e, st) \<Rightarrow> (Threw e, st)
         | (step, st) \<Rightarrow>
             (Finished None, if session_loadBalanced st then maybeClearPinnedConnection no_endOptions st else st))
      else
        (case session_transition TRANSACTION_COMMITTED (Finished None) st0 of
           (Threw e, st) \<Rightarrow> (Threw e, st)
         | (step, st) \<Rightarrow>
             (case err of
                None \<Rightarrow> (Finished None, st)
              | Some e \<Rightarrow>
                  if instanceof e MongoNetworkError \<or> instanceof e MongoWriteConcernError
                     \<or> isRetryableError e \<or> isMaxTimeMSExpiredError e
                  then (if isUnknownTransactionCommitResult e
                        then (let e' = addErrorLabel e ''UnknownTransactionCommitResult''
                              in (Finished (Some e'), unpin (no_endOptions\<lparr>eo_error := Some e'\<rparr>) st))
                        else (Finished (Some e), st))
                  else if hasErrorLabel e ''TransientTransactionError''
                  then (Finished (Some e), unpin (no_endOptions\<lparr>eo_error := Some e\<rparr>) st)
                  else (Finished (Some e), st))))"

text \<open>The callback of the first \<open>executeOperation\<close>: retry once, or hand over to the handler.\<close>

definition endTransaction_reply :: "txnCommand \<Rightarrow> mongoError option \<Rightarrow> sessionState \<Rightarrow> endStep \<times> sessionState" where
  "endTransaction_reply cmd err st0 =
     (let st1 = (if tc_command cmd = AbortTransaction then unpin no_endOptions st0 else st0)
      in case err of
           Some e \<Rightarrow>
             (if isRetryableEndTransactionError e then
                (if tc_command cmd = CommitTransaction
                 then (Send (cmd\<lparr>tc_writeConcern := Some (majority_concern (tc_writeConcern cmd))\<rparr>),
                       unpin (no_endOptions\<lparr>eo_force := True\<rparr>) st1)
                 else (Send cmd, st1))
              else commandHandler (tc_command cmd) err st1)
         | None \<Rightarrow> commandHandler (tc_command cmd) err st1)"

section \<open>Ending a session\<close>

definition completeEndSession :: "endSessionOptions \<Rightarrow> sessionState \<Rightarrow> sessionState" where
  "completeEndSession options st0 =
     (case serverSession_get (maybeClearPinnedConnection options st0) of
        (Some ss, (cs, w)) \<Rightarrow>
          (cs\<lparr>cs_serverSession := None, cs_hasEnded := True\<rparr>,
           w\<lparr>w_pool := release (w_topology w) (w_now w) ss (w_pool w)\<rparr>)
      | (None, (cs, w)) \<Rightarrow> (cs\<lparr>cs_serverSession := None, cs_hasEnded := True\<rparr>, w))"

text \<open>
  \<open>endSession\<close>; the caller's options have \<open>force\<close> set unless given.  When a transaction is active
  it is aborted first, and \<open>endSession_aborted\<close> runs in the abort's callback.
\<close>

definition endSession :: "endSessionOptions \<Rightarrow> sessionState \<Rightarrow> endStep \<times> sessionState" where
  "endSession options st0 =
     (if cs_hasEnded (fst st0) then (Finished None, maybeClearPinnedConnection options st0)
      else (case serverSession_get st0 of
        (ss, st) \<Rightarrow>
          if ss \<noteq> None \<and> inTransaction (fst st) then
            (case endTransaction AbortTransaction st of
               (Finished None, st') \<Rightarrow> (Finished None, completeEndSession options st')
             | (step, st') \<Rightarrow> (step, st'))
          else (Finished None, completeEndSession options st)))"

definition endSession_aborted :: "endSessionOptions \<Rightarrow> endStep \<times> sessionState \<Rightarrow> endStep \<times> sessionState" where
  "endSession_aborted options r = (case r of
     (Finished None, st) \<Rightarrow> (Finished None, completeEndSession options st) | (step, st) \<Rightarrow> (step, st))"

section \<open>Commands and replies\<close>

record cmdReadConcern =
  crc_level :: "string option"
  crc_afterClusterTime :: "timestamp option"
  crc_atClusterTime :: "timestamp option"

definition empty_readConcern :: cmdReadConcern where
  "empty_readConcern = \<lparr>crc_level = None, crc_afterClusterTime = None, crc_atClusterTime = None\<rparr>"

text \<open>The fields of a command \<open>applySession\<close> reads or writes; \<open>cmd_name\<close> is its first key.\<close>

record command =
  cmd_name :: string
  cmd_lsid :: "byte list option"
  cmd_txnNumber :: "int option"
  cmd_readConcern :: "cmdReadConcern option"
  cmd_autocommit :: "bool option"
  cmd_startTransaction :: "bool option"

record commandOptions =
  cop_writeConcern :: "writeConcern option"
  cop_willRetryWrite :: bool
  cop_outInline :: bool

definition isTransactionCommand :: "command \<Rightarrow> bool" where
  "isTransactionCommand c = (cmd_name c = ''commitTransaction'' \<or> cmd_name c = ''abortTransaction'')"

definition commandSupportsReadConcern :: "command \<Rightarrow> commandOptions \<Rightarrow> bool" where
  "commandSupportsReadConcern c options =
     (cmd_name c \<in> {''aggregate'', ''count'', ''distinct'', ''find'', ''geoNear''}
      \<or> (cmd_name c = ''mapReduce'' \<and> cop_outInline options))"

definition with_afterClusterTime :: "timestamp option \<Rightarrow> command \<Rightarrow> command" where
  "with_afterClusterTime ts c = c\<lparr>cmd_readConcern :=
     Some ((case cmd_readConcern c of Some rc \<Rightarrow> rc | None \<Rightarrow> empty_readConcern)\<lparr>crc_afterClusterTime := ts\<rparr>)\<rparr>"

text \<open>The part for a command outside transactions, after a finished transaction was reset.\<close>

definition apply_nonTransaction :: "clientSession \<Rightarrow> commandOptions \<Rightarrow> command \<Rightarrow> command" where
  "apply_nonTransaction cs options c =
     (if cs_causalConsistency cs \<and> cs_operationTime cs \<noteq> None \<and> commandSupportsReadConcern c options
      then with_afterClusterTime (cs_operationTime cs) c
      else if cs_snapshotEnabled cs then
        (let rc = (case cmd_readConcern c of
                     Some rc \<Rightarrow> rc | None \<Rightarrow> empty_readConcern\<lparr>crc_level := Some ''snapshot''\<rparr>)
         in c\<lparr>cmd_readConcern := Some (if cs_snapshotTime cs \<noteq> None
                then rc\<lparr>crc_atClusterTime := cs_snapshotTime cs\<rparr> else rc)\<rparr>)
      else c)"

text \<open>The part for the first command of a transaction.\<close>

definition apply_startTransaction :: "clientSession \<Rightarrow> command \<Rightarrow> command" where
  "apply_startTransaction cs c =
     (let rc = coalesce (to_readConcern (t_options (cs_transaction cs)))
                 (Option.bind (cs_clientOptions cs) co_readConcern);
          c1 = c\<lparr>cmd_startTransaction := Some True\<rparr>;
          c2 = (case rc of
                  Some r \<Rightarrow> c1\<lparr>cmd_readConcern := Some (empty_readConcern\<lparr>crc_level := Some (rc_level r)\<rparr>)\<rparr>
                | None \<Rightarrow> c1)
      in if cs_causalConsistency cs \<and> cs_operationTime cs \<noteq> None
         then with_afterClusterTime (cs_operationTime cs) c2 else c2)"

text \<open>The result: the returned error, if any, the command, and the state; or a throw.\<close>

definition applySession ::
    "commandOptions \<Rightarrow> command \<Rightarrow> sessionState \<Rightarrow> mongoError + (mongoError option \<times> command \<times> sessionState)" where
  "applySession options c st0 =
     (if cs_hasEnded (fst st0) then Inr (Some expired_session, c, st0)
      else (case serverSession_get st0 of
        (None, st) \<Rightarrow> Inr (Some (mk_error MongoRuntimeError ''Unable to acquire server session''), c, st)
      | (Some ss, (cs, w)) \<Rightarrow>
          if (case cop_writeConcern options of Some wc \<Rightarrow> wc_w wc = Some (WNum 0) | None \<Rightarrow> False)
          then Inr (if cs_explicit cs
                    then Some (mk_error MongoAPIError ''Cannot have explicit session with unacknowledged writes'')
                    else None, c, (cs, w))
          else
            (let cs1 = cs\<lparr>cs_serverSession := Some (ss\<lparr>ss_lastUse := w_now w\<rparr>)\<rparr>;
                 inTxn = inTransaction cs1 \<or> isTransactionCommand c;
                 c1 = c\<lparr>cmd_lsid := Some (ss_id ss)\<rparr>;
                 c2 = (if ss_txnNumber ss \<noteq> 0 \<and> (cop_willRetryWrite options \<or> inTxn)
                       then c1\<lparr>cmd_txnNumber := Some (ss_txnNumber ss)\<rparr> else c1)
             in if \<not> inTxn then
                  rbind (if t_state (cs_transaction cs1) \<noteq> NO_TRANSACTION
                         then transition (cs_transaction cs1) NO_TRANSACTION else Inr (cs_transaction cs1))
                    (\<lambda>t. let cs2 = cs1\<lparr>cs_transaction := t\<rparr>
                          in Inr (None, apply_nonTransaction cs2 options c2, (cs2, w)))
                else
                  (let c3 = c2\<lparr>cmd_autocommit := Some False\<rparr>
                   in if t_state (cs_transaction cs1) = STARTING_TRANSACTION then
                        rbind (transition (cs_transaction cs1) TRANSACTION_IN_PROGRESS)
                          (\<lambda>t. let cs2 = cs1\<lparr>cs_transaction := t\<rparr>
                                in Inr (None, apply_startTransaction cs2 c3, (cs2, w)))
                      else Inr (None, c3, (cs1, w))))))"

definition advanceOperationTime :: "timestamp option \<Rightarrow> timestamp \<Rightarrow> timestamp option" where
  "advanceOperationTime old t =
     (case old of None \<Rightarrow> Some t | Some u \<Rightarrow> (if t > u then Some t else old))"

text \<open>\<open>ClientSession.advanceClusterTime\<close>; the flags are the outcomes of its type tests.\<close>

record clusterTimeArg =
  cta_value :: clusterTime
  cta_isObject :: bool
  cta_timestampOk :: bool
  cta_signatureOk :: bool

definition session_advanceClusterTime :: "clusterTimeArg \<Rightarrow> clientSession \<Rightarrow> mongoError + clientSession" where
  "session_advanceClusterTime a cs =
     (if \<not> cta_isObject a then Inl (invalid_argument ''input cluster time must be an object'')
      else if \<not> cta_timestampOk a
      then Inl (invalid_argument ''input cluster time clusterTime property must be a valid BSON Timestamp'')
      else if \<not> cta_signatureOk a
      then Inl (invalid_argument ''input cluster time must have a valid signature property'')
      else Inr (cs\<lparr>cs_clusterTime := advanceClusterTime (cs_clusterTime cs) (cta_value a)\<rparr>))"

record response =
  res_clusterTime :: "clusterTime option"
  res_operationTime :: "timestamp option"
  res_recoveryToken :: "document option"
  res_cursorAtClusterTime :: "timestamp option"
  res_atClusterTime :: "timestamp option"

definition updateSessionFromResponse :: "clientSession \<Rightarrow> response \<Rightarrow> clientSession" where
  "updateSessionFromResponse cs0 r =
     (let cs1 = (case res_clusterTime r of
                   Some ct \<Rightarrow> cs0\<lparr>cs_clusterTime := advanceClusterTime (cs_clusterTime cs0) ct\<rparr>
                 | None \<Rightarrow> cs0);
          cs2 = (case res_operationTime r of
                   Some t \<Rightarrow> (if cs_causalConsistency cs1
                              then cs1\<lparr>cs_operationTime := advanceOperationTime (cs_operationTime cs1) t\<rparr> else cs1)
                 | None \<Rightarrow> cs1);
          cs3 = (case res_recoveryToken r of
                   Some tok \<Rightarrow> (if inTransaction cs2
                                then cs2\<lparr>cs_transaction := (cs_transaction cs2)\<lparr>t_recoveryToken := Some tok\<rparr>\<rparr>
                                else cs2)
                 | None \<Rightarrow> cs2)
      in if cs_snapshotEnabled cs3 \<and> cs_snapshotTime cs3 = None
         then (case coalesce (res_cursorAtClusterTime r) (res_atClusterTime r) of
                 Some t \<Rightarrow> cs3\<lparr>cs_snapshotTime := Some t\<rparr> | None \<Rightarrow> cs3)
         else cs3)"

section \<open>Properties of sessions\<close>

lemma serverSession_get_Some:
  "\<exists>ss cs' w'. serverSession_get st = (Some ss, (cs', w')) \<and> cs_serverSession cs' = Some ss
     \<and> cs_transaction cs' = cs_transaction (fst st) \<and> cs_hasEnded cs' = cs_hasEnded (fst st)
     \<and> cs_explicit cs' = cs_explicit (fst st) \<and> w_topology w' = w_topology (snd st)"
  by (auto simp: serverSession_get_def split: prod.splits option.splits)

lemma assertAlive_None:
  "\<exists>ss cs' w'. assertAlive st = (None, (cs', w')) \<and> cs_serverSession cs' = Some ss
     \<and> cs_transaction cs' = cs_transaction (fst st) \<and> cs_hasEnded cs' = cs_hasEnded (fst st)
     \<and> w_topology w' = w_topology (snd st)"
  using serverSession_get_Some [of st] by (auto simp: assertAlive_def)

text \<open>
  The liveness check never fails.  After \<open>endSession\<close> completed, the session is marked ended
  and has given its server session back, but \<open>assertAlive\<close> reads the \<open>serverSession\<close> getter, which
  acquires another one: the check passes and the ended session holds a server session again.
\<close>

theorem ended_session_passes_assertAlive:
  "let st1 = completeEndSession options st; (err, st2) = assertAlive st1
   in cs_hasEnded (fst st1) \<and> cs_serverSession (fst st1) = None
      \<and> err = None \<and> cs_hasEnded (fst st2) \<and> cs_serverSession (fst st2) \<noteq> None"
proof -
  have "cs_hasEnded (fst (completeEndSession options st))"
    "cs_serverSession (fst (completeEndSession options st)) = None"
    by (auto simp: completeEndSession_def split: prod.splits option.splits)
  with assertAlive_None [of "completeEndSession options st"] show ?thesis by auto
qed

section \<open>Ending transactions\<close>

text \<open>
  The whole of \<open>endTransaction\<close>, with \<open>executeOperation\<close> as the argument \<open>exec\<close>: the commands sent,
  the way the operation ended, and the final state.
\<close>

definition end_rounds ::
    "(txnCommand \<Rightarrow> sessionState \<Rightarrow> mongoError option \<times> sessionState) \<Rightarrow> endCommand \<Rightarrow> sessionState
     \<Rightarrow> txnCommand list \<times> endStep \<times> sessionState" where
  "end_rounds exec name st0 =
     (case endTransaction name st0 of
        (Send cmd, st) \<Rightarrow>
          (let (err, st1) = exec cmd st
           in case endTransaction_reply cmd err st1 of
                (Send cmd2, st2) \<Rightarrow>
                  (let (err2, st3) = exec cmd2 st2; (step, st4) = commandHandler name err2 st3
                   in ([cmd, cmd2], step, st4))
              | (step, st2) \<Rightarrow> ([cmd], step, st2))
      | (step, st) \<Rightarrow> ([], step, st))"

abbreviation txn_state :: "sessionState \<Rightarrow> txnState" where
  "txn_state st \<equiv> t_state (cs_transaction (fst st))"

lemma unpin_state [simp]: "txn_state (unpin options st) = txn_state st"
  by (auto simp: unpin_def maybeClearPinnedConnection_def unpinServer_def split: prod.splits option.splits)

lemma maybeClear_state [simp]: "txn_state (maybeClearPinnedConnection options st) = txn_state st"
  by (auto simp: maybeClearPinnedConnection_def split: prod.splits option.splits)

lemma session_transition_ok:
  assumes "s \<in> set (stateMachine (txn_state st))"
  shows "\<exists>st'. session_transition s next st = (next, st') \<and> txn_state st' = s"
  using txn.accepts [OF assms] by (cases st) (auto simp: session_transition_def)

lemma commandHandler_commit:
  assumes "txn_state st \<in> {TRANSACTION_IN_PROGRESS, TRANSACTION_COMMITTED}"
  shows "\<exists>e. fst (commandHandler CommitTransaction err st) = Finished e \<and> (e = None \<longleftrightarrow> err = None)"
    and "txn_state (snd (commandHandler CommitTransaction err st)) = TRANSACTION_COMMITTED"
proof -
  have "TRANSACTION_COMMITTED \<in> set (stateMachine (txn_state st))" using assms by auto
  from session_transition_ok [OF this, of "Finished None"] obtain st1 where
    st1: "session_transition TRANSACTION_COMMITTED (Finished None) st = (Finished None, st1)"
    "txn_state st1 = TRANSACTION_COMMITTED" by blast
  show "\<exists>e. fst (commandHandler CommitTransaction err st) = Finished e \<and> (e = None \<longleftrightarrow> err = None)"
    by (cases err) (simp_all add: commandHandler_def Let_def st1(1))
  show "txn_state (snd (commandHandler CommitTransaction err st)) = TRANSACTION_COMMITTED"
    by (cases err) (simp_all add: commandHandler_def Let_def st1)
qed

lemma commandHandler_abort:
  assumes "txn_state st = TRANSACTION_IN_PROGRESS"
  shows "fst (commandHandler AbortTransaction err st) = Finished None"
    and "txn_state (snd (commandHandler AbortTransaction err st)) = TRANSACTION_ABORTED"
proof -
  have "TRANSACTION_ABORTED \<in> set (stateMachine (txn_state st))" using assms by auto
  from session_transition_ok [OF this, of "Finished None"] obtain st1 where
    st1: "session_transition TRANSACTION_ABORTED (Finished None) st = (Finished None, st1)"
    "txn_state st1 = TRANSACTION_ABORTED" by blast
  show "fst (commandHandler AbortTransaction err st) = Finished None"
    "txn_state (snd (commandHandler AbortTransaction err st)) = TRANSACTION_ABORTED"
    by (simp_all add: commandHandler_def st1)
qed

lemma endTransaction_sends:
  assumes "txn_state st = TRANSACTION_IN_PROGRESS \<or> name = CommitTransaction \<and> txn_state st = TRANSACTION_COMMITTED"
  shows "\<exists>cmd st1. endTransaction name st = (Send cmd, st1) \<and> tc_command cmd = name \<and> txn_state st1 = txn_state st"
proof -
  obtain st1 where st1: "assertAlive st = (None, st1)" "cs_transaction (fst st1) = cs_transaction (fst st)"
    using assertAlive_None [of st] by auto
  with assms have "endTransaction name st = (Send (end_command name (fst st1)), st1)"
    by (cases name) (auto simp: endTransaction_def Let_def)
  moreover have "tc_command (end_command name (fst st1)) = name" by (simp add: end_command_def Let_def)
  ultimately show ?thesis using st1(2) by simp
qed

definition keeps_txn_state :: "(txnCommand \<Rightarrow> sessionState \<Rightarrow> mongoError option \<times> sessionState) \<Rightarrow> bool" where
  "keeps_txn_state exec = (\<forall>c st. txn_state (snd (exec c st)) = txn_state st)"

text \<open>
  (C40) Committing.  From a transaction in progress, or one already committed, \<open>commitTransaction\<close> sends a
  commit command, and sends it once more, with a majority write concern and the session unpinned, exactly
  when the first one failed with an error that the end of a transaction is retried for.  Whatever the
  replies are, it then calls back and does not throw, with an error exactly when the last command failed,
  and the transaction is committed.  Running a command is supposed to keep the state of the transaction.
\<close>

theorem commit_rounds:
  assumes "txn_state st \<in> {TRANSACTION_IN_PROGRESS, TRANSACTION_COMMITTED}" "keeps_txn_state exec"
  shows "\<exists>c st1. endTransaction CommitTransaction st = (Send c, st1) \<and> tc_command c = CommitTransaction
    \<and> (let c2 = c\<lparr>tc_writeConcern := Some (majority_concern (tc_writeConcern c))\<rparr>;
           (err, st2) = exec c st1;
           (err2, st3) = exec c2 (unpin (no_endOptions\<lparr>eo_force := True\<rparr>) st2);
           retry = (\<exists>e. err = Some e \<and> isRetryableEndTransactionError e);
           (cmds, step, st') = end_rounds exec CommitTransaction st
       in cmds = (if retry then [c, c2] else [c])
        \<and> (\<exists>e. step = Finished e \<and> (e = None \<longleftrightarrow> (if retry then err2 else err) = None))
        \<and> txn_state st' = TRANSACTION_COMMITTED)"
proof -
  obtain cmd st1 where s: "endTransaction CommitTransaction st = (Send cmd, st1)"
    "tc_command cmd = CommitTransaction" "txn_state st1 = txn_state st"
    using endTransaction_sends [of st CommitTransaction] assms(1) by auto
  obtain err st2 where x: "exec cmd st1 = (err, st2)" by (rule prod.exhaust)
  then have ts2: "txn_state st2 \<in> {TRANSACTION_IN_PROGRESS, TRANSACTION_COMMITTED}"
    using assms s(3) unfolding keeps_txn_state_def by (metis snd_conv)
  let ?cmd2 = "cmd\<lparr>tc_writeConcern := Some (majority_concern (tc_writeConcern cmd))\<rparr>"
  let ?st3 = "unpin (no_endOptions\<lparr>eo_force := True\<rparr>) st2"
  obtain err2 st4 where x2: "exec ?cmd2 ?st3 = (err2, st4)" by (rule prod.exhaust)
  have ts4: "txn_state st4 \<in> {TRANSACTION_IN_PROGRESS, TRANSACTION_COMMITTED}"
    using assms(2) x2 ts2 unpin_state [of _ st2] unfolding keeps_txn_state_def by (metis snd_conv)
  note both = commandHandler_commit [OF ts2, of err] commandHandler_commit [OF ts4, of err2]
  show ?thesis
  proof (cases "\<exists>e. err = Some e \<and> isRetryableEndTransactionError e")
    case True
    then have "endTransaction_reply cmd err st2 = (Send ?cmd2, ?st3)"
      using s(2) by (auto simp: endTransaction_reply_def Let_def)
    with both x x2 s True show ?thesis by (auto simp: end_rounds_def split: prod.splits)
  next
    case False
    then have "endTransaction_reply cmd err st2 = commandHandler CommitTransaction err st2"
      using s(2) by (auto simp: endTransaction_reply_def Let_def split: option.splits)
    with both x x2 s False show ?thesis by (auto simp: end_rounds_def split: prod.splits)
  qed
qed

definition example_session :: clientSession where
  "example_session = \<lparr>cs_hasEnded = False, cs_clientOptions = None, cs_causalConsistency = True,
     cs_clusterTime = None, cs_operationTime = None, cs_explicit = True,
     cs_defaultTransactionOptions = no_txnOptions,
     cs_transaction = example_transaction\<lparr>t_state := TRANSACTION_IN_PROGRESS\<rparr>,
     cs_serverSession = None, cs_snapshotTime = None, cs_snapshotEnabled = False, cs_pinnedConnection = None\<rparr>"

definition example_world :: sessionWorld where
  "example_world = \<lparr>w_topology = example_sessionTopology, w_pool = [], w_now = 0,
     w_random = (\<lambda>n. replicate 16 (of_nat n)), w_drawn = 0, w_lb = []\<rparr>"

text \<open>An \<open>executeOperation\<close> that always fails with a retryable network error.\<close>

definition exec_failing :: "txnCommand \<Rightarrow> sessionState \<Rightarrow> mongoError option \<times> sessionState" where
  "exec_failing c st =
     (Some ((MongoNetworkError_new ''closed'' None)\<lparr>e_labels := [''RetryableWriteError'']\<rparr>), st)"

lemma keeps_txn_state_failing: "keeps_txn_state exec_failing"
  by (simp add: keeps_txn_state_def exec_failing_def)

theorem commit_rounds_witness:
  "case end_rounds exec_failing CommitTransaction (example_session, example_world) of (cmds, step, st') \<Rightarrow>
      txn_state st' = TRANSACTION_COMMITTED \<and> (\<exists>e. step = Finished (Some e)) \<and> length cmds = 2"
proof -
  obtain x where x: "exec_failing c st = (Some x, st)" "isRetryableEndTransactionError x" for c st
    by (simp add: exec_failing_def isRetryableEndTransactionError_def MongoNetworkError_new_def hasErrorLabel_def)
  have "txn_state (example_session, example_world) \<in> {TRANSACTION_IN_PROGRESS, TRANSACTION_COMMITTED}"
    by (simp add: example_session_def)
  from commit_rounds [OF this keeps_txn_state_failing] show ?thesis
    by (auto simp: x Let_def split: prod.splits)
qed

text \<open>
  Aborting.  From a transaction in progress \<open>abortTransaction\<close> sends the abort command once or
  twice, always calls back without an error, whatever the server answered, and leaves the
  transaction aborted.
\<close>

theorem abort_rounds:
  assumes "txn_state st = TRANSACTION_IN_PROGRESS" "keeps_txn_state exec"
  shows "case end_rounds exec AbortTransaction st of (cmds, step, st') \<Rightarrow>
      txn_state st' = TRANSACTION_ABORTED \<and> step = Finished None \<and> length cmds \<in> {1, 2}
      \<and> (\<forall>c \<in> set cmds. tc_command c = AbortTransaction)"
proof -
  obtain cmd st1 where s: "endTransaction AbortTransaction st = (Send cmd, st1)"
    "tc_command cmd = AbortTransaction" "txn_state st1 = TRANSACTION_IN_PROGRESS"
    using endTransaction_sends [of st AbortTransaction] assms(1) by auto
  obtain err st2 where x: "exec cmd st1 = (err, st2)" by (rule prod.exhaust)
  let ?st3 = "unpin no_endOptions st2"
  have ts3: "txn_state ?st3 = TRANSACTION_IN_PROGRESS"
    using assms(2) s(3) x unpin_state [of no_endOptions st2] unfolding keeps_txn_state_def by (metis snd_conv)
  show ?thesis
  proof (cases "\<exists>e. err = Some e \<and> isRetryableEndTransactionError e")
    case True
    have r: "endTransaction_reply cmd err st2 = (Send cmd, ?st3)"
      using True s(2) by (auto simp: endTransaction_reply_def Let_def)
    obtain err2 st4 where x2: "exec cmd ?st3 = (err2, st4)" by (rule prod.exhaust)
    then have "txn_state st4 = TRANSACTION_IN_PROGRESS"
      using assms(2) ts3 unfolding keeps_txn_state_def by (metis snd_conv)
    from commandHandler_abort [OF this, of err2] x x2 s r show ?thesis
      by (auto simp: end_rounds_def split: prod.splits)
  next
    case False
    then have "endTransaction_reply cmd err st2 = commandHandler AbortTransaction err ?st3"
      using s(2) by (auto simp: endTransaction_reply_def Let_def split: option.splits)
    with commandHandler_abort [OF ts3, of err] x s show ?thesis
      by (auto simp: end_rounds_def split: prod.splits)
  qed
qed

theorem abort_rounds_witness:
  "case end_rounds exec_failing AbortTransaction (example_session, example_world) of (cmds, step, st') \<Rightarrow>
      txn_state st' = TRANSACTION_ABORTED \<and> step = Finished None \<and> length cmds \<in> {1, 2}
      \<and> (\<forall>c \<in> set cmds. tc_command c = AbortTransaction)"
  by (rule abort_rounds [OF _ keeps_txn_state_failing]) (simp add: example_session_def)

section \<open>Decorating commands\<close>

lemma apply_fields:
  "cmd_lsid (apply_nonTransaction cs options c) = cmd_lsid c"
  "cmd_autocommit (apply_nonTransaction cs options c) = cmd_autocommit c"
  "cmd_startTransaction (apply_nonTransaction cs options c) = cmd_startTransaction c"
  "cmd_txnNumber (apply_nonTransaction cs options c) = cmd_txnNumber c"
  "cmd_lsid (apply_startTransaction cs c) = cmd_lsid c"
  "cmd_autocommit (apply_startTransaction cs c) = cmd_autocommit c"
  "cmd_startTransaction (apply_startTransaction cs c) = Some True"
  "cmd_txnNumber (apply_startTransaction cs c) = cmd_txnNumber c"
  by (auto simp: apply_nonTransaction_def apply_startTransaction_def with_afterClusterTime_def Let_def
      split: option.splits)

text \<open>
  Decorating a command.  For a live session and an acknowledged command, \<open>applySession\<close> neither
  throws nor fails; the command carries the id of the session's server session, whose last use is
  now; \<open>autocommit: false\<close> is set exactly for commands of a transaction, \<open>startTransaction\<close> exactly
  for the first one; and the transaction moves to in-progress at the first command and back to
  none at the first command after it ended.
\<close>

theorem applySession_decorates:
  assumes "\<not> cs_hasEnded (fst st)" "cop_writeConcern options = None"
    and "cmd_autocommit c = None" "cmd_startTransaction c = None"
  shows "\<exists>c' cs' w' ss. applySession options c st = Inr (None, c', (cs', w'))
    \<and> cs_serverSession cs' = Some ss \<and> cmd_lsid c' = Some (ss_id ss) \<and> ss_lastUse ss = w_now w'
    \<and> (cmd_autocommit c' = Some False \<longleftrightarrow> inTransaction (fst st) \<or> isTransactionCommand c)
    \<and> (cmd_startTransaction c' = Some True \<longleftrightarrow> txn_state st = STARTING_TRANSACTION)
    \<and> t_state (cs_transaction cs') =
        (if txn_state st = STARTING_TRANSACTION then TRANSACTION_IN_PROGRESS
         else if inTransaction (fst st) \<or> isTransactionCommand c then txn_state st
         else NO_TRANSACTION)"
proof -
  obtain ss cs w where g: "serverSession_get st = (Some ss, (cs, w))"
    "cs_transaction cs = cs_transaction (fst st)"
    using serverSession_get_Some [of st] by blast
  have act: "isActive t \<longleftrightarrow> t_state t = STARTING_TRANSACTION \<or> t_state t = TRANSACTION_IN_PROGRESS" for t
    by (simp add: isActive_def ACTIVE_STATES_def)
  show ?thesis
    using assms g
    by (cases "txn_state st"; cases "isTransactionCommand c")
      (auto simp: applySession_def Let_def transition_def unpinServer_def apply_fields inTransaction_def act)
qed

definition example_command :: "string \<Rightarrow> command" where
  "example_command n = \<lparr>cmd_name = n, cmd_lsid = None, cmd_txnNumber = None, cmd_readConcern = None,
     cmd_autocommit = None, cmd_startTransaction = None\<rparr>"

theorem applySession_decorates_witness:
  "\<exists>c' cs' w' ss. applySession \<lparr>cop_writeConcern = None, cop_willRetryWrite = False, cop_outInline = False\<rparr>
      (example_command ''find'') (example_session, example_world) = Inr (None, c', (cs', w'))
    \<and> cs_serverSession cs' = Some ss \<and> cmd_lsid c' = Some (ss_id ss)
    \<and> cmd_autocommit c' = Some False"
  using applySession_decorates [of "(example_session, example_world)"
      "\<lparr>cop_writeConcern = None, cop_willRetryWrite = False, cop_outInline = False\<rparr>" "example_command ''find''"]
  by (auto simp: example_command_def example_session_def inTransaction_def isActive_def ACTIVE_STATES_def)

section \<open>Causal consistency\<close>

interpretation ot: advancing "\<lambda>t. t" advanceOperationTime
proof unfold_locales
  show "advanceOperationTime old x = Some x \<or> advanceOperationTime old x = old \<and> old \<noteq> None" for old x
    by (auto simp: advanceOperationTime_def split: option.splits)
qed (auto simp: advanceOperationTime_def split: option.splits if_splits)

lemma update_response_fields:
  "cs_causalConsistency (updateSessionFromResponse cs r) = cs_causalConsistency cs"
  "cs_clusterTime (updateSessionFromResponse cs r) =
     (case res_clusterTime r of Some x \<Rightarrow> advanceClusterTime (cs_clusterTime cs) x | None \<Rightarrow> cs_clusterTime cs)"
  "cs_causalConsistency cs \<Longrightarrow> cs_operationTime (updateSessionFromResponse cs r) =
     (case res_operationTime r of Some x \<Rightarrow> advanceOperationTime (cs_operationTime cs) x | None \<Rightarrow> cs_operationTime cs)"
  "cs_snapshotTime cs = Some t \<Longrightarrow> cs_snapshotTime (updateSessionFromResponse cs r) = Some t"
  by (auto simp: updateSessionFromResponse_def Let_def split: option.splits)

lemma responses_times:
  "cs_clusterTime (foldl updateSessionFromResponse cs rs) =
     foldl advanceClusterTime (cs_clusterTime cs) (List.map_filter res_clusterTime rs)"
  "cs_causalConsistency cs \<Longrightarrow> cs_operationTime (foldl updateSessionFromResponse cs rs) =
     foldl advanceOperationTime (cs_operationTime cs) (List.map_filter res_operationTime rs)"
  "cs_snapshotTime cs = Some t \<Longrightarrow> cs_snapshotTime (foldl updateSessionFromResponse cs rs) = Some t"
  by (induction rs arbitrary: cs)
    (auto simp: update_response_fields List.map_filter_simps split: option.splits)

text \<open>
  Causal consistency.  After any sequence of replies, the cluster time and (in a causally
  consistent session) the operation time of the session are at least those of every reply seen,
  so the \<open>afterClusterTime\<close> sent next covers
  everything the session has read or written.
\<close>

theorem session_sees_newest_times:
  assumes "cs_causalConsistency cs" "r \<in> set rs" "res_clusterTime r = Some ct" "res_operationTime r = Some t"
  shows "\<exists>ct' t'. cs_clusterTime (foldl updateSessionFromResponse cs rs) = Some ct'
      \<and> ct_clusterTime ct \<le> ct_clusterTime ct'
      \<and> cs_operationTime (foldl updateSessionFromResponse cs rs) = Some t' \<and> t \<le> t'"
proof -
  have mem: "ct \<in> set (List.map_filter res_clusterTime rs)" "t \<in> set (List.map_filter res_operationTime rs)"
    using assms(2-4) by (force simp: List.map_filter_def)+
  have ne: "foldl adv old xs \<noteq> None"
    if "x \<in> set xs" "\<And>o' y. adv o' y \<noteq> None" for adv :: "'a option \<Rightarrow> 'b \<Rightarrow> 'a option" and old xs and x :: 'b
    using that(1) by (induction xs arbitrary: old rule: rev_induct) (auto simp: that(2))
  have "foldl advanceClusterTime (cs_clusterTime cs) (List.map_filter res_clusterTime rs) \<noteq> None"
    "foldl advanceOperationTime (cs_operationTime cs) (List.map_filter res_operationTime rs) \<noteq> None"
    by (rule ne [OF mem(1)], use ct.adv_Some in force) (rule ne [OF mem(2)], use ot.adv_Some in force)
  then obtain ct' t' where
    z: "foldl advanceClusterTime (cs_clusterTime cs) (List.map_filter res_clusterTime rs) = Some ct'"
    "foldl advanceOperationTime (cs_operationTime cs) (List.map_filter res_operationTime rs) = Some t'" by auto
  show ?thesis
    using z ct.foldl_adv_ge [OF z(1) mem(1)] ot.foldl_adv_ge [OF z(2) mem(2)]
    by (simp add: responses_times assms(1))
qed

definition example_response :: "nat \<Rightarrow> response" where
  "example_response n = \<lparr>res_clusterTime = Some \<lparr>ct_clusterTime = of_nat n, ct_hash = [], ct_keyId = 0\<rparr>,
     res_operationTime = Some (of_nat n), res_recoveryToken = None, res_cursorAtClusterTime = None,
     res_atClusterTime = None\<rparr>"

theorem session_sees_newest_times_witness:
  "\<exists>ct' t'. cs_clusterTime (foldl updateSessionFromResponse example_session
        [example_response 7, example_response 3]) = Some ct'
      \<and> 7 \<le> ct_clusterTime ct'
      \<and> cs_operationTime (foldl updateSessionFromResponse example_session
        [example_response 7, example_response 3]) = Some t' \<and> 7 \<le> t'"
  using session_sees_newest_times [of example_session "example_response 7"
      "[example_response 7, example_response 3]" "\<lparr>ct_clusterTime = 7, ct_hash = [], ct_keyId = 0\<rparr>" 7]
  by (simp add: example_response_def example_session_def)

end
