(* ===== verification/Connection_Pool.thy ===== *)
theory Connection_Pool
  imports Utils
begin

text \<open>
  \<open>src/cmap/connection_pool.ts\<close> and \<open>src/cmap/metrics.ts\<close>.  The pool record has the fields of the
  class; below them it has what the code leaves with the event loop and with its callers: the
  scheduled \<open>processWaitQueue\<close> ticks, the connection attempts in flight, the connections in use,
  and the log of the callbacks made to check-out requests, which are numbered.  A callback is
  logged; what it does next is a later step.  Time is an argument, logging and events are left
  out.
\<close>

section \<open>Metrics\<close>

record poolMetrics =
  m_txnConnections :: int
  m_cursorConnections :: int
  m_otherConnections :: int

definition markPinned :: "string \<Rightarrow> poolMetrics \<Rightarrow> poolMetrics" where
  "markPinned pinType m =
     (if pinType = ''txn'' then m\<lparr>m_txnConnections := m_txnConnections m + 1\<rparr>
      else if pinType = ''cursor'' then m\<lparr>m_cursorConnections := m_cursorConnections m + 1\<rparr>
      else m\<lparr>m_otherConnections := m_otherConnections m + 1\<rparr>)"

definition markUnpinned :: "string \<Rightarrow> poolMetrics \<Rightarrow> poolMetrics" where
  "markUnpinned pinType m =
     (if pinType = ''txn'' then m\<lparr>m_txnConnections := m_txnConnections m - 1\<rparr>
      else if pinType = ''cursor'' then m\<lparr>m_cursorConnections := m_cursorConnections m - 1\<rparr>
      else m\<lparr>m_otherConnections := m_otherConnections m - 1\<rparr>)"

definition metrics_reset :: "poolMetrics \<Rightarrow> poolMetrics" where
  "metrics_reset m = \<lparr>m_txnConnections = 0, m_cursorConnections = 0, m_otherConnections = 0\<rparr>"

definition metrics_info :: "int \<Rightarrow> poolMetrics \<Rightarrow> string" where
  "metrics_info maxPoolSize m =
     ''Timed out while checking out a connection from connection pool: maxPoolSize: '' @ show_int maxPoolSize
     @ '', connections in use by cursors: '' @ show_int (m_cursorConnections m)
     @ '', connections in use by transactions: '' @ show_int (m_txnConnections m)
     @ '', connections in use by other operations: '' @ show_int (m_otherConnections m)"

section \<open>State\<close>

record poolOptions =
  po_maxPoolSize :: int
  po_minPoolSize :: int
  po_maxIdleTimeMS :: int
  po_waitQueueTimeoutMS :: int
  po_loadBalanced :: bool

record conn =
  cn_id :: nat
  cn_generation :: int
  cn_serviceId :: "objectId option"
  cn_closed :: bool
  cn_lastUse :: int

record waiter =
  wq_id :: nat
  wq_cancelled :: bool

datatype purpose = ForQueue | ForMinSize

record attempt =
  at_id :: nat
  at_generation :: int
  at_purpose :: purpose

datatype outcome = GotConnection nat | CheckOutFailed mongoError

record pool =
  p_options :: poolOptions
  p_closed :: bool
  p_connections :: "conn list"
  p_permits :: int
  p_minPoolSizeTimer :: bool
  p_generation :: int
  p_serviceGenerations :: "(objectId, int) jsmap"
  p_connectionCounter :: nat
  p_waitQueue :: "waiter list"
  p_metrics :: poolMetrics
  p_checkedOut :: int
  p_processingWaitQueue :: bool
  p_ticks :: nat
  p_attempts :: "attempt list"
  p_out :: "conn list"
  p_called :: "(nat \<times> outcome) list"
  p_nextWaiter :: nat

definition ConnectionPool_new :: "poolOptions \<Rightarrow> mongoError + pool" where
  "ConnectionPool_new options =
     (if po_minPoolSize options > po_maxPoolSize options
      then Inl (mk_error MongoInvalidArgumentError
             ''Connection pool minimum size must not be greater than maximum pool size'')
      else Inr \<lparr>p_options = options, p_closed = False, p_connections = [],
        p_permits = po_maxPoolSize options, p_minPoolSizeTimer = False, p_generation = 0,
        p_serviceGenerations = [], p_connectionCounter = 1, p_waitQueue = [],
        p_metrics = \<lparr>m_txnConnections = 0, m_cursorConnections = 0, m_otherConnections = 0\<rparr>,
        p_checkedOut = 0, p_processingWaitQueue = False, p_ticks = 0, p_attempts = [], p_out = [],
        p_called = [], p_nextWaiter = 0\<rparr>)"

definition totalConnectionCount :: "pool \<Rightarrow> int" where
  "totalConnectionCount p =
     int (length (p_connections p)) + (po_maxPoolSize (p_options p) - p_permits p)"

definition availableConnectionCount :: "pool \<Rightarrow> nat" where
  "availableConnectionCount p = length (p_connections p)"

definition waitQueueSize :: "pool \<Rightarrow> nat" where
  "waitQueueSize p = length (p_waitQueue p)"

section \<open>Connections\<close>

definition connectionIsStale :: "pool \<Rightarrow> conn \<Rightarrow> bool" where
  "connectionIsStale p c =
     (case (po_loadBalanced (p_options p), cn_serviceId c) of
        (True, Some sid) \<Rightarrow> Some (cn_generation c) \<noteq> map_get (p_serviceGenerations p) sid
      | _ \<Rightarrow> cn_generation c \<noteq> p_generation p)"

definition connectionIsIdle :: "int \<Rightarrow> pool \<Rightarrow> conn \<Rightarrow> bool" where
  "connectionIsIdle now p c =
     (po_maxIdleTimeMS (p_options p) \<noteq> 0
      \<and> calculateDurationInMs now (cn_lastUse c) > po_maxIdleTimeMS (p_options p))"

text \<open>The part of \<open>createConnection\<close> before the connection is established.\<close>

definition createConnection :: "purpose \<Rightarrow> pool \<Rightarrow> pool" where
  "createConnection purpose p =
     p\<lparr>p_connectionCounter := Suc (p_connectionCounter p), p_permits := p_permits p - 1,
       p_attempts := p_attempts p @
         [\<lparr>at_id = p_connectionCounter p, at_generation = p_generation p, at_purpose = purpose\<rparr>]\<rparr>"

definition destroyConnection :: "pool \<Rightarrow> pool" where
  "destroyConnection p = p\<lparr>p_permits := p_permits p + 1\<rparr>"

section \<open>The wait queue\<close>

function wait_loop :: "int \<Rightarrow> pool \<Rightarrow> pool" where
  "wait_loop now p =
     (case p_waitQueue p of
        [] \<Rightarrow> p
      | m # ms \<Rightarrow>
          if wq_cancelled m then wait_loop now (p\<lparr>p_waitQueue := ms\<rparr>)
          else (case p_connections p of
                  [] \<Rightarrow> p
                | c # cs \<Rightarrow>
                    (let p1 = p\<lparr>p_connections := cs\<rparr> in
                     if \<not> connectionIsStale p1 c \<and> \<not> connectionIsIdle now p1 c \<and> \<not> cn_closed c
                     then wait_loop now (p1\<lparr>p_waitQueue := ms, p_out := c # p_out p,
                            p_called := p_called p @ [(wq_id m, GotConnection (cn_id c))]\<rparr>)
                     else wait_loop now (destroyConnection p1))))"
  by pat_completeness auto
termination
  by (relation "measure (\<lambda>(now, p). length (p_waitQueue p) + length (p_connections p))")
    (auto simp: destroyConnection_def)

declare wait_loop.simps [simp del]

definition processWaitQueue :: "int \<Rightarrow> pool \<Rightarrow> pool" where
  "processWaitQueue now p =
     (if p_closed p \<or> p_processingWaitQueue p then p
      else
        (let p1 = wait_loop now (p\<lparr>p_processingWaitQueue := True\<rparr>);
             maxPoolSize = po_maxPoolSize (p_options p)
         in if p_waitQueue p1 \<noteq> [] \<and> (maxPoolSize \<le> 0 \<or> totalConnectionCount p1 < maxPoolSize)
            then createConnection ForQueue p1
            else p1\<lparr>p_processingWaitQueue := False\<rparr>))"

text \<open>The callback \<open>processWaitQueue\<close> gives to \<open>createConnection\<close>.\<close>

definition queue_callback :: "mongoError + conn \<Rightarrow> pool \<Rightarrow> pool" where
  "queue_callback r p =
     (let skip = (\<lambda>p. (case r of Inr c \<Rightarrow> p\<lparr>p_connections := p_connections p @ [c]\<rparr> | Inl _ \<Rightarrow> p)
                       \<lparr>p_processingWaitQueue := False\<rparr>)
      in case p_waitQueue p of
           [] \<Rightarrow> skip p
         | m # ms \<Rightarrow>
             (let p1 = p\<lparr>p_waitQueue := ms\<rparr> in
              if wq_cancelled m then skip p1
              else
                (case r of
                   Inl e \<Rightarrow> p1\<lparr>p_called := p_called p @ [(wq_id m, CheckOutFailed e)]\<rparr>
                 | Inr c \<Rightarrow> p1\<lparr>p_called := p_called p @ [(wq_id m, GotConnection (cn_id c))],
                               p_out := c # p_out p\<rparr>)
                \<lparr>p_processingWaitQueue := False, p_ticks := Suc (p_ticks p)\<rparr>))"

text \<open>
  The callback of \<open>connect\<close> for the attempt \<open>a\<close>: the error, or the service id the handshake
  reported for the new connection.
\<close>

definition new_conn :: "int \<Rightarrow> attempt \<Rightarrow> objectId option \<Rightarrow> pool \<Rightarrow> conn \<times> pool" where
  "new_conn now a serviceId p =
     (let c = \<lparr>cn_id = at_id a, cn_generation = at_generation a, cn_serviceId = serviceId,
               cn_closed = False, cn_lastUse = now\<rparr>
      in case (po_loadBalanced (p_options p), serviceId) of
           (True, Some sid) \<Rightarrow>
             (case map_get (p_serviceGenerations p) sid of
                Some g \<Rightarrow>
                  (if g \<noteq> 0 then (c\<lparr>cn_generation := g\<rparr>, p)
                   else (c\<lparr>cn_generation := 0\<rparr>, p\<lparr>p_serviceGenerations := map_set sid 0 (p_serviceGenerations p)\<rparr>))
              | None \<Rightarrow>
                  (c\<lparr>cn_generation := 0\<rparr>, p\<lparr>p_serviceGenerations := map_set sid 0 (p_serviceGenerations p)\<rparr>))
         | _ \<Rightarrow> (c, p))"

definition connect_done :: "int \<Rightarrow> attempt \<Rightarrow> mongoError + objectId option \<Rightarrow> pool \<Rightarrow> pool" where
  "connect_done now a r p0 =
     (let p = p0\<lparr>p_attempts := filter (\<lambda>b. at_id b \<noteq> at_id a) (p_attempts p0)\<rparr> in
      case r of
        Inl e \<Rightarrow>
          (let p1 = p\<lparr>p_permits := p_permits p + 1\<rparr>
           in if at_purpose a = ForQueue then queue_callback (Inl e) p1 else p1)
      | Inr serviceId \<Rightarrow>
          if p_closed p then p
          else
            (let (c, p1) = new_conn now a serviceId p
             in if at_purpose a = ForQueue then queue_callback (Inr c) p1
                else p1\<lparr>p_connections := p_connections p1 @ [c], p_ticks := Suc (p_ticks p1)\<rparr>))"

section \<open>Operations\<close>

definition pool_closed_error :: mongoError where
  "pool_closed_error = mk_error PoolClosedError ''Attempted to check out a connection from closed connection pool''"

text \<open>A check-out request gets the next number.\<close>

definition checkOut :: "pool \<Rightarrow> pool" where
  "checkOut p =
     (let n = p_nextWaiter p; p0 = p\<lparr>p_nextWaiter := Suc n\<rparr> in
      if p_closed p then p0\<lparr>p_called := p_called p @ [(n, CheckOutFailed pool_closed_error)]\<rparr>
      else p0\<lparr>p_checkedOut := p_checkedOut p + 1,
              p_waitQueue := p_waitQueue p @ [\<lparr>wq_id = n, wq_cancelled = False\<rparr>],
              p_ticks := Suc (p_ticks p)\<rparr>)"

definition wait_timeout_error :: "pool \<Rightarrow> mongoError" where
  "wait_timeout_error p = mk_error WaitQueueTimeoutError
     (if po_loadBalanced (p_options p) then metrics_info (po_maxPoolSize (p_options p)) (p_metrics p)
      else ''Timed out while checking out a connection from connection pool'')"

text \<open>The timer of a queued request.\<close>

definition checkOut_timeout :: "nat \<Rightarrow> pool \<Rightarrow> pool" where
  "checkOut_timeout n p =
     p\<lparr>p_waitQueue := map (\<lambda>m. if wq_id m = n then m\<lparr>wq_cancelled := True\<rparr> else m) (p_waitQueue p),
       p_called := p_called p @ [(n, CheckOutFailed (wait_timeout_error p))]\<rparr>"

definition checkIn :: "int \<Rightarrow> conn \<Rightarrow> pool \<Rightarrow> pool" where
  "checkIn now c p0 =
     (let p = p0\<lparr>p_out := filter (\<lambda>x. cn_id x \<noteq> cn_id c) (p_out p0)\<rparr>;
          willDestroy = (p_closed p \<or> connectionIsStale p c \<or> cn_closed c);
          p1 = (if willDestroy then p
                else p\<lparr>p_connections := c\<lparr>cn_lastUse := now\<rparr> # p_connections p\<rparr>);
          p2 = p1\<lparr>p_checkedOut := p_checkedOut p1 - 1\<rparr>;
          p3 = (if willDestroy then destroyConnection p2 else p2)
      in p3\<lparr>p_ticks := Suc (p_ticks p3)\<rparr>)"

definition clear :: "objectId option \<Rightarrow> pool \<Rightarrow> mongoError + pool" where
  "clear serviceId p =
     (case (po_loadBalanced (p_options p), serviceId) of
        (True, Some sid) \<Rightarrow>
          (case map_get (p_serviceGenerations p) sid of
             None \<Rightarrow> Inl (mk_error MongoRuntimeError ''Service generations are required in load balancer mode.'')
           | Some g \<Rightarrow> Inr (p\<lparr>p_serviceGenerations := map_set sid (g + 1) (p_serviceGenerations p)\<rparr>))
      | _ \<Rightarrow> Inr (p\<lparr>p_generation := p_generation p + 1\<rparr>))"

text \<open>The synchronous part of \<open>close\<close>: the queue is drained from its end, the pool marked closed.\<close>

definition close_pool :: "pool \<Rightarrow> pool" where
  "close_pool p =
     (if p_closed p then p
      else p\<lparr>p_waitQueue := [],
             p_called := p_called p @ map (\<lambda>m. (wq_id m,
                 CheckOutFailed (mk_error MongoRuntimeError ''Connection pool closed'')))
               (filter (\<lambda>m. \<not> wq_cancelled m) (rev (p_waitQueue p))),
             p_minPoolSizeTimer := False, p_closed := True\<rparr>)"

text \<open>Its last callback, once every pooled connection is destroyed.\<close>

definition close_done :: "pool \<Rightarrow> pool" where
  "close_done p = p\<lparr>p_connections := []\<rparr>"

text \<open>
  \<open>withConnection\<close>: a given (pinned) connection is used as it is; otherwise one is checked out, and
  the function runs when the request is answered.  \<open>withConnection_done\<close> is what happens when the
  function has called back: a connection that was checked out here, and only such a one, is checked
  in again.
\<close>

definition withConnection :: "conn option \<Rightarrow> pool \<Rightarrow> pool" where
  "withConnection given p = (case given of Some _ \<Rightarrow> p | None \<Rightarrow> checkOut p)"

definition withConnection_done :: "int \<Rightarrow> conn option \<Rightarrow> conn option \<Rightarrow> pool \<Rightarrow> pool" where
  "withConnection_done now given got p =
     (case (given, got) of (None, Some c) \<Rightarrow> checkIn now c p | _ \<Rightarrow> p)"

definition ensureMinPoolSize :: "pool \<Rightarrow> pool" where
  "ensureMinPoolSize p =
     (if p_closed p \<or> po_minPoolSize (p_options p) = 0 then p
      else ((createConnection ForMinSize) ^^ nat (po_minPoolSize (p_options p) - totalConnectionCount p)) p
             \<lparr>p_minPoolSizeTimer := True\<rparr>)"

text \<open>The socket of a connection closes, wherever the connection is.\<close>

definition socket_closes :: "nat \<Rightarrow> pool \<Rightarrow> pool" where
  "socket_closes i p =
     (let f = map (\<lambda>c. if cn_id c = i then c\<lparr>cn_closed := True\<rparr> else c)
      in p\<lparr>p_connections := f (p_connections p), p_out := f (p_out p)\<rparr>)"

section \<open>The pool as a transition system\<close>

inductive pstep :: "pool \<Rightarrow> pool \<Rightarrow> bool" where
  checkOut: "pstep p (checkOut p)"
| timeout: "m \<in> set (p_waitQueue p) \<Longrightarrow> \<not> wq_cancelled m \<Longrightarrow> po_waitQueueTimeoutMS (p_options p) \<noteq> 0
     \<Longrightarrow> pstep p (checkOut_timeout (wq_id m) p)"
| tick: "p_ticks p = Suc n \<Longrightarrow> pstep p (processWaitQueue now (p\<lparr>p_ticks := n\<rparr>))"
| connected: "a \<in> set (p_attempts p) \<Longrightarrow> pstep p (connect_done now a r p)"
| checkIn: "c \<in> set (p_out p) \<Longrightarrow> pstep p (checkIn now c p)"
| socket: "pstep p (socket_closes i p)"
| clear: "clear sid p = Inr p' \<Longrightarrow> pstep p p'"
| close: "pstep p (close_pool p)"
| closed: "p_closed p \<Longrightarrow> pstep p (close_done p)"
| min_size: "pstep p (ensureMinPoolSize p)"
| pinned: "pstep p (p\<lparr>p_metrics := markPinned t (p_metrics p)\<rparr>)"
| unpinned: "pstep p (p\<lparr>p_metrics := markUnpinned t (p_metrics p)\<rparr>)"

inductive pool_reachable :: "poolOptions \<Rightarrow> pool \<Rightarrow> bool" for options where
  init: "ConnectionPool_new options = Inr p \<Longrightarrow> pool_reachable options p"
| step: "pool_reachable options p \<Longrightarrow> pstep p p' \<Longrightarrow> pool_reachable options p'"

inductive_cases pstepE: "pstep p p'"

section \<open>Counting connections\<close>

definition live :: "pool \<Rightarrow> nat" where
  "live p = length (p_connections p) + length (p_out p) + length (p_attempts p)"

definition conn_ids :: "pool \<Rightarrow> nat list" where
  "conn_ids p = map cn_id (p_connections p) @ map cn_id (p_out p) @ map at_id (p_attempts p)"

text \<open>Every connection and every attempt of the pool has its own number.\<close>

definition ids_ok :: "pool \<Rightarrow> bool" where
  "ids_ok p = (distinct (conn_ids p) \<and> (\<forall>i \<in> set (conn_ids p). i < p_connectionCounter p))"

text \<open>Permits count what is alive, and while the pool is open this stays within the maximum.\<close>

definition permits_ok :: "pool \<Rightarrow> bool" where
  "permits_ok p = (\<not> p_closed p \<longrightarrow>
     p_permits p + int (live p) = po_maxPoolSize (p_options p)
     \<and> (0 < po_maxPoolSize (p_options p) \<longrightarrow> int (live p) \<le> po_maxPoolSize (p_options p)))"

definition min_ok :: "pool \<Rightarrow> bool" where
  "min_ok p = (po_minPoolSize (p_options p) \<le> po_maxPoolSize (p_options p))"

lemma stale_idle_update [simp]:
  "connectionIsStale (p\<lparr>p_connections := cs\<rparr>) c = connectionIsStale p c"
  "connectionIsStale (p\<lparr>p_out := cs\<rparr>) c = connectionIsStale p c"
  "connectionIsIdle now (p\<lparr>p_connections := cs\<rparr>) c = connectionIsIdle now p c"
  by (cases "po_loadBalanced (p_options p)"; cases "cn_serviceId c";
      simp add: connectionIsStale_def connectionIsIdle_def)+

text \<open>What each round of the loop keeps, the loop keeps.\<close>

abbreviation deliver :: "waiter \<Rightarrow> waiter list \<Rightarrow> conn \<Rightarrow> conn list \<Rightarrow> pool \<Rightarrow> pool" where
  "deliver m ms c cs p \<equiv> p\<lparr>p_connections := cs, p_waitQueue := ms, p_out := c # p_out p,
     p_called := p_called p @ [(wq_id m, GotConnection (cn_id c))]\<rparr>"

abbreviation usable :: "int \<Rightarrow> pool \<Rightarrow> conn \<Rightarrow> bool" where
  "usable now p c \<equiv> \<not> connectionIsStale p c \<and> \<not> connectionIsIdle now p c \<and> \<not> cn_closed c"

lemma wait_loop_eqs:
  "p_waitQueue p = [] \<Longrightarrow> wait_loop now p = p"
  "p_waitQueue p = m # ms \<Longrightarrow> wq_cancelled m \<Longrightarrow> wait_loop now p = wait_loop now (p\<lparr>p_waitQueue := ms\<rparr>)"
  "p_waitQueue p = m # ms \<Longrightarrow> \<not> wq_cancelled m \<Longrightarrow> p_connections p = [] \<Longrightarrow> wait_loop now p = p"
  "p_waitQueue p = m # ms \<Longrightarrow> \<not> wq_cancelled m \<Longrightarrow> p_connections p = c # cs \<Longrightarrow> usable now p c \<Longrightarrow>
     wait_loop now p = wait_loop now (deliver m ms c cs p)"
  "p_waitQueue p = m # ms \<Longrightarrow> \<not> wq_cancelled m \<Longrightarrow> p_connections p = c # cs \<Longrightarrow> \<not> usable now p c \<Longrightarrow>
     wait_loop now p = wait_loop now (destroyConnection (p\<lparr>p_connections := cs\<rparr>))"
  by (subst wait_loop.simps; auto simp: Let_def)+

lemma wait_loop_induct [case_names stop cancelled blocked deliver destroy]:
  assumes "\<And>p. p_waitQueue p = [] \<Longrightarrow> P p"
    and "\<And>p m ms. p_waitQueue p = m # ms \<Longrightarrow> wq_cancelled m \<Longrightarrow> P (p\<lparr>p_waitQueue := ms\<rparr>) \<Longrightarrow> P p"
    and "\<And>p m ms. p_waitQueue p = m # ms \<Longrightarrow> \<not> wq_cancelled m \<Longrightarrow> p_connections p = [] \<Longrightarrow> P p"
    and "\<And>p m ms c cs. p_waitQueue p = m # ms \<Longrightarrow> \<not> wq_cancelled m \<Longrightarrow> p_connections p = c # cs \<Longrightarrow>
      usable now p c \<Longrightarrow> P (deliver m ms c cs p) \<Longrightarrow> P p"
    and "\<And>p m ms c cs. p_waitQueue p = m # ms \<Longrightarrow> \<not> wq_cancelled m \<Longrightarrow> p_connections p = c # cs \<Longrightarrow>
      \<not> usable now p c \<Longrightarrow> P (destroyConnection (p\<lparr>p_connections := cs\<rparr>)) \<Longrightarrow> P p"
  shows "P (p :: pool)"
proof (induction "length (p_waitQueue p) + length (p_connections p)" arbitrary: p rule: less_induct)
  case less
  show ?case
  proof (cases "p_waitQueue p")
    case Nil
    then show ?thesis by (rule assms(1))
  next
    case (Cons m ms)
    show ?thesis
    proof (cases "wq_cancelled m")
      case True
      show ?thesis by (rule assms(2) [OF Cons True]) (rule less, simp add: Cons)
    next
      case False
      show ?thesis
      proof (cases "p_connections p")
        case Nil
        with Cons False show ?thesis by (rule assms(3))
      next
        case conn: (Cons c cs)
        show ?thesis
        proof (cases "usable now p c")
          case True
          show ?thesis by (rule assms(4) [OF Cons False conn True]) (rule less, simp add: Cons conn)
        next
          case bad: False
          show ?thesis
            by (rule assms(5) [OF Cons False conn bad])
              (rule less, simp add: Cons conn destroyConnection_def)
        qed
      qed
    qed
  qed
qed

lemma wait_loop_keeps [consumes 1, case_names cancelled deliver destroy]:
  assumes "I p"
    and "\<And>p m ms. I p \<Longrightarrow> p_waitQueue p = m # ms \<Longrightarrow> wq_cancelled m \<Longrightarrow> I (p\<lparr>p_waitQueue := ms\<rparr>)"
    and "\<And>p m ms c cs. I p \<Longrightarrow> p_waitQueue p = m # ms \<Longrightarrow> \<not> wq_cancelled m \<Longrightarrow> p_connections p = c # cs \<Longrightarrow>
      usable now p c \<Longrightarrow> I (deliver m ms c cs p)"
    and "\<And>p m ms c cs. I p \<Longrightarrow> p_waitQueue p = m # ms \<Longrightarrow> \<not> wq_cancelled m \<Longrightarrow> p_connections p = c # cs \<Longrightarrow>
      I (destroyConnection (p\<lparr>p_connections := cs\<rparr>))"
  shows "I (wait_loop now p)"
  using assms(1)
proof (induction p rule: wait_loop_induct [where now = now])
  case (stop p)
  then show ?case by (simp add: wait_loop_eqs(1))
next
  case (cancelled p m ms)
  then show ?case using assms(2) [of p m ms] by (simp add: wait_loop_eqs(2))
next
  case (blocked p m ms)
  then show ?case by (simp add: wait_loop_eqs(3))
next
  case (deliver p m ms c cs)
  then show ?case using assms(3) [of p m ms c cs] by (simp add: wait_loop_eqs(4))
next
  case (destroy p m ms c cs)
  then show ?case using assms(4) [of p m ms c cs] wait_loop_eqs(5) [of p m ms c cs now] by simp
qed

lemma wait_loop_fields [simp]:
  "p_options (wait_loop now p) = p_options p" "p_closed (wait_loop now p) = p_closed p"
  "p_attempts (wait_loop now p) = p_attempts p" "p_ticks (wait_loop now p) = p_ticks p"
  "p_connectionCounter (wait_loop now p) = p_connectionCounter p"
  "p_processingWaitQueue (wait_loop now p) = p_processingWaitQueue p"
  "p_nextWaiter (wait_loop now p) = p_nextWaiter p"
  "p_generation (wait_loop now p) = p_generation p"
  "p_serviceGenerations (wait_loop now p) = p_serviceGenerations p"
  by (rule wait_loop_keeps [where I = "\<lambda>q. _ q = _ p"]; simp add: destroyConnection_def)+

lemma wait_loop_live:
  "p_permits (wait_loop now p) + int (live (wait_loop now p)) = p_permits p + int (live p)
   \<and> live (wait_loop now p) \<le> live p"
  by (rule wait_loop_keeps [where I = "\<lambda>q. p_permits q + int (live q) = p_permits p + int (live p) \<and> live q \<le> live p"])
    (auto simp: live_def destroyConnection_def)

lemma wait_loop_exhausts:
  "p_waitQueue (wait_loop now p) \<noteq> [] \<Longrightarrow>
   p_connections (wait_loop now p) = [] \<and> \<not> wq_cancelled (hd (p_waitQueue (wait_loop now p)))"
proof (induction p rule: wait_loop_induct [where now = now])
  case (destroy p m ms c cs)
  then show ?case using wait_loop_eqs(5) [of p m ms c cs now] by simp
qed (simp_all add: wait_loop_eqs)

section \<open>The maximum pool size\<close>

lemma createConnection_fields [simp]:
  "p_options (createConnection pu p) = p_options p" "p_closed (createConnection pu p) = p_closed p"
  "p_connections (createConnection pu p) = p_connections p" "p_out (createConnection pu p) = p_out p"
  "p_permits (createConnection pu p) = p_permits p - 1" "live (createConnection pu p) = Suc (live p)"
  "p_waitQueue (createConnection pu p) = p_waitQueue p" "p_called (createConnection pu p) = p_called p"
  "p_nextWaiter (createConnection pu p) = p_nextWaiter p" "p_ticks (createConnection pu p) = p_ticks p"
  "p_processingWaitQueue (createConnection pu p) = p_processingWaitQueue p"
  by (simp_all add: createConnection_def live_def)

lemma createConnection_pow [simp]:
  "p_options ((createConnection pu ^^ n) p) = p_options p" "p_closed ((createConnection pu ^^ n) p) = p_closed p"
  "p_permits ((createConnection pu ^^ n) p) = p_permits p - int n" "live ((createConnection pu ^^ n) p) = live p + n"
  "p_waitQueue ((createConnection pu ^^ n) p) = p_waitQueue p" "p_called ((createConnection pu ^^ n) p) = p_called p"
  "p_nextWaiter ((createConnection pu ^^ n) p) = p_nextWaiter p"
  "p_processingWaitQueue ((createConnection pu ^^ n) p) = p_processingWaitQueue p"
  by (induction n) simp_all

definition options_ok :: "poolOptions \<Rightarrow> pool \<Rightarrow> bool" where
  "options_ok options p = (p_options p = options \<and> po_minPoolSize options \<le> po_maxPoolSize options)"

lemma live_update [simp]:
  "live (p\<lparr>p_processingWaitQueue := b\<rparr>) = live p" "live (p\<lparr>p_ticks := n\<rparr>) = live p"
  "live (p\<lparr>p_metrics := mt\<rparr>) = live p" "live (p\<lparr>p_minPoolSizeTimer := b\<rparr>) = live p"
  "live (p\<lparr>p_generation := g\<rparr>) = live p" "live (p\<lparr>p_serviceGenerations := sg\<rparr>) = live p"
  by (simp_all add: live_def)

lemma permits_processWaitQueue:
  assumes "permits_ok p" shows "permits_ok (processWaitQueue now p)"
proof (cases "p_closed p \<or> p_processingWaitQueue p")
  case True
  with assms show ?thesis by (simp add: processWaitQueue_def)
next
  case False
  let ?p0 = "p\<lparr>p_processingWaitQueue := True\<rparr>"
  let ?p1 = "wait_loop now ?p0" and ?max = "po_maxPoolSize (p_options p)"
  have l: "p_permits ?p1 + int (live ?p1) = ?max" "0 < ?max \<longrightarrow> int (live ?p1) \<le> ?max"
    using wait_loop_live [of now ?p0] assms False by (auto simp: permits_ok_def)
  show ?thesis
  proof (cases "p_waitQueue ?p1 \<noteq> [] \<and> (?max \<le> 0 \<or> totalConnectionCount ?p1 < ?max)")
    case True
    have "p_connections ?p1 = []" using wait_loop_exhausts True by blast
    with True l(1) have "0 < ?max \<longrightarrow> int (live ?p1) < ?max" by (auto simp: totalConnectionCount_def)
    with True False l show ?thesis by (auto simp: processWaitQueue_def Let_def permits_ok_def)
  next
    case no: False
    have "processWaitQueue now p = ?p1\<lparr>p_processingWaitQueue := False\<rparr>"
      using no False by (auto simp: processWaitQueue_def Let_def)
    with l show ?thesis by (simp add: permits_ok_def)
  qed
qed

lemma permits_ensureMinPoolSize:
  assumes "permits_ok p" "options_ok options p" shows "permits_ok (ensureMinPoolSize p)"
proof (cases "p_closed p \<or> po_minPoolSize (p_options p) = 0")
  case True
  with assms show ?thesis by (simp add: ensureMinPoolSize_def)
next
  case False
  let ?n = "nat (po_minPoolSize (p_options p) - totalConnectionCount p)" and ?max = "po_maxPoolSize (p_options p)"
  have "p_permits p + int (live p) = ?max" "0 < ?max \<longrightarrow> int (live p) \<le> ?max"
    "po_minPoolSize (p_options p) \<le> ?max"
    using assms False by (auto simp: permits_ok_def options_ok_def)
  moreover then have "0 < ?max \<longrightarrow> int (live p + ?n) \<le> ?max"
    by (auto simp: totalConnectionCount_def)
  ultimately show ?thesis using False by (simp add: ensureMinPoolSize_def permits_ok_def)
qed

lemma length_remove_key:
  assumes "distinct (map f xs)" "x \<in> set xs"
  shows "Suc (length (filter (\<lambda>y. f y \<noteq> f x) xs)) = length xs"
  using assms
proof (induction xs)
  case (Cons y ys)
  show ?case
  proof (cases "f y = f x")
    case True
    have "f z \<noteq> f x" if "z \<in> set ys" for z
      using Cons.prems(1) True imageI [OF that, of f] by (metis distinct.simps(2) list.simps(9) set_map)
    then have "filter (\<lambda>y. f y \<noteq> f x) ys = ys" by (simp add: filter_id_conv)
    then show ?thesis using True by simp
  next
    case False
    with Cons show ?thesis by auto
  qed
qed simp

lemma ids_ok_remove:
  assumes "ids_ok p"
  shows "a \<in> set (p_attempts p) \<Longrightarrow>
      Suc (length (filter (\<lambda>b. at_id b \<noteq> at_id a) (p_attempts p))) = length (p_attempts p)"
    and "c \<in> set (p_out p) \<Longrightarrow>
      Suc (length (filter (\<lambda>x. cn_id x \<noteq> cn_id c) (p_out p))) = length (p_out p)"
  using assms length_remove_key [of at_id "p_attempts p" a] length_remove_key [of cn_id "p_out p" c]
  by (simp_all add: ids_ok_def conn_ids_def)

lemma live_queue_callback:
  "p_permits (queue_callback r p) = p_permits p"
  "live (queue_callback r p) = live p + (case r of Inr _ \<Rightarrow> 1 | Inl _ \<Rightarrow> 0)"
  "p_options (queue_callback r p) = p_options p" "p_closed (queue_callback r p) = p_closed p"
  by (cases r; cases "p_waitQueue p"; simp add: queue_callback_def Let_def live_def)+

lemma new_conn_fields:
  "new_conn now a sid p = (c, p') \<Longrightarrow> p_options p' = p_options p \<and> p_closed p' = p_closed p
     \<and> p_permits p' = p_permits p \<and> live p' = live p \<and> p_connections p' = p_connections p
     \<and> p_out p' = p_out p \<and> p_attempts p' = p_attempts p \<and> p_waitQueue p' = p_waitQueue p
     \<and> p_called p' = p_called p \<and> p_nextWaiter p' = p_nextWaiter p
     \<and> p_connectionCounter p' = p_connectionCounter p
     \<and> p_processingWaitQueue p' = p_processingWaitQueue p \<and> cn_id c = at_id a"
  by (cases "po_loadBalanced (p_options p)"; cases sid)
    (auto simp: new_conn_def Let_def split: option.splits if_splits)

lemma permits_connect_done:
  assumes "permits_ok p" "ids_ok p" "a \<in> set (p_attempts p)"
  shows "permits_ok (connect_done now a r p)"
proof -
  let ?p = "p\<lparr>p_attempts := filter (\<lambda>b. at_id b \<noteq> at_id a) (p_attempts p)\<rparr>"
  have l: "Suc (live ?p) = live p" using ids_ok_remove(1) [OF assms(2,3)] by (simp add: live_def)
  show ?thesis
  proof (cases r)
    case (Inl e)
    have "live (?p\<lparr>p_permits := p_permits p + 1\<rparr>) = live ?p" by (simp add: live_def)
    with Inl l assms(1) show ?thesis
      by (auto simp: connect_done_def Let_def permits_ok_def live_queue_callback)
  next
    case (Inr sid)
    obtain c p1 where n: "new_conn now a sid ?p = (c, p1)" by fastforce
    note f = new_conn_fields [OF n]
    let ?pm = "p1\<lparr>p_connections := p_connections p1 @ [c], p_ticks := Suc (p_ticks p1)\<rparr>"
    show ?thesis
    proof (cases "p_closed p")
      case True
      with Inr show ?thesis by (simp add: connect_done_def permits_ok_def)
    next
      case False
      have "live ?pm = Suc (live p1)" by (simp add: live_def)
      then have "permits_ok ?pm" "permits_ok (queue_callback (Inr c) p1)"
        using f l assms(1) False by (auto simp: permits_ok_def live_queue_callback)
      then show ?thesis using Inr n False by (simp add: connect_done_def)
    qed
  qed
qed

lemma permits_checkIn:
  assumes "permits_ok p" "ids_ok p" "c \<in> set (p_out p)"
  shows "permits_ok (checkIn now c p)"
proof -
  have "live (checkIn now c p) = (if p_closed p \<or> connectionIsStale p c \<or> cn_closed c then live p - 1 else live p)
     \<and> live p > 0"
    using ids_ok_remove(2) [OF assms(2,3)]
    by (auto simp: checkIn_def Let_def live_def destroyConnection_def)
  with assms(1) show ?thesis
    by (auto simp: permits_ok_def checkIn_def Let_def destroyConnection_def)
qed


lemma clear_cases:
  assumes "clear sid p = Inr p'"
  shows "(\<exists>g. p' = p\<lparr>p_generation := g\<rparr>) \<or> (\<exists>g. p' = p\<lparr>p_serviceGenerations := g\<rparr>)"
  using assms by (cases "po_loadBalanced (p_options p)"; cases sid) (auto simp: clear_def split: option.splits)

lemma permits_others:
  assumes "permits_ok p"
  shows "permits_ok (checkOut p)" "permits_ok (checkOut_timeout n p)" "permits_ok (socket_closes i p)"
    "permits_ok (close_pool p)" "clear sid p = Inr p' \<Longrightarrow> permits_ok p'"
    "permits_ok (p\<lparr>p_metrics := mt\<rparr>)" "permits_ok (p\<lparr>p_ticks := k\<rparr>)"
    "p_closed p \<Longrightarrow> permits_ok (close_done p)"
proof -
  show "clear sid p = Inr p' \<Longrightarrow> permits_ok p'"
    using clear_cases [of sid p p'] assms by (auto simp: permits_ok_def live_def)
qed (use assms in \<open>auto simp: permits_ok_def live_def checkOut_def checkOut_timeout_def socket_closes_def
    close_pool_def close_done_def Let_def\<close>)

section \<open>Connection numbers\<close>

lemma ids_wait_loop: "mset (conn_ids (wait_loop now p)) \<subseteq># mset (conn_ids p)"
proof (rule wait_loop_keeps [where I = "\<lambda>q. mset (conn_ids q) \<subseteq># mset (conn_ids p)"])
  fix q m ms c cs
  assume q: "mset (conn_ids q) \<subseteq># mset (conn_ids p)" "p_connections q = c # cs"
  then show "mset (conn_ids (deliver m ms c cs q)) \<subseteq># mset (conn_ids p)" by (simp add: conn_ids_def)
  have "mset (conn_ids (destroyConnection (q\<lparr>p_connections := cs\<rparr>))) \<subseteq># mset (conn_ids q)"
    using q(2) by (simp add: conn_ids_def destroyConnection_def)
  with q(1) show "mset (conn_ids (destroyConnection (q\<lparr>p_connections := cs\<rparr>))) \<subseteq># mset (conn_ids p)"
    by (rule subset_mset.order_trans [rotated])
qed (simp_all add: conn_ids_def)

lemma ids_ok_mono:
  assumes "ids_ok p" "mset (conn_ids q) \<subseteq># mset (conn_ids p)" "p_connectionCounter p \<le> p_connectionCounter q"
  shows "ids_ok q"
proof -
  have "set (conn_ids q) \<subseteq> set (conn_ids p)" using set_mset_mono [OF assms(2)] by simp
  with assms show ?thesis
    unfolding ids_ok_def using distinct_subseteq_mset [OF _ assms(2)] by fastforce
qed

lemma ids_ok_cong: "ids_ok p \<Longrightarrow> conn_ids q = conn_ids p \<Longrightarrow> p_connectionCounter q = p_connectionCounter p \<Longrightarrow> ids_ok q"
  by (simp add: ids_ok_def)

lemma ids_createConnection: "ids_ok p \<Longrightarrow> ids_ok (createConnection pu p)"
  by (auto simp: ids_ok_def conn_ids_def createConnection_def less_Suc_eq)

lemma ids_processWaitQueue:
  assumes "ids_ok p" shows "ids_ok (processWaitQueue now p)"
proof -
  let ?p1 = "wait_loop now (p\<lparr>p_processingWaitQueue := True\<rparr>)"
  have "ids_ok (p\<lparr>p_processingWaitQueue := True\<rparr>)" by (rule ids_ok_cong [OF assms]) (simp_all add: conn_ids_def)
  then have ok: "ids_ok ?p1" by (rule ids_ok_mono [OF _ ids_wait_loop]) simp
  moreover have "ids_ok (?p1\<lparr>p_processingWaitQueue := False\<rparr>)"
    by (rule ids_ok_cong [OF ok]) (simp_all add: conn_ids_def)
  ultimately show ?thesis using assms by (auto simp: processWaitQueue_def Let_def ids_createConnection)
qed

lemma ids_queue_callback:
  "mset (conn_ids (queue_callback r p)) = mset ((case r of Inr c \<Rightarrow> [cn_id c] | Inl _ \<Rightarrow> []) @ conn_ids p)"
  "p_connectionCounter (queue_callback r p) = p_connectionCounter p"
  by (cases r; cases "p_waitQueue p"; simp add: queue_callback_def Let_def conn_ids_def)+

lemma mset_remove_key:
  assumes "x \<in> set xs"
  shows "add_mset (f x) (mset (map f (filter (\<lambda>y. f y \<noteq> f x) xs))) \<subseteq># mset (map f xs)"
  using assms
proof (induction xs)
  case (Cons y ys)
  show ?case
  proof (cases "f y = f x")
    case True
    have "mset (map f (filter (\<lambda>y. f y \<noteq> f x) ys)) \<subseteq># mset (map f ys)"
      by (simp add: image_mset_subseteq_mono multiset_filter_subset mset_filter)
    with True show ?thesis by simp
  next
    case False
    with Cons have "add_mset (f x) (mset (map f (filter (\<lambda>y. f y \<noteq> f x) ys))) \<subseteq># mset (map f ys)" by auto
    with False show ?thesis by (simp add: add_mset_commute [of "f x"])
  qed
qed simp

lemma ids_connect_done:
  assumes "ids_ok p" "a \<in> set (p_attempts p)"
  shows "ids_ok (connect_done now a r p)"
proof -
  let ?p = "p\<lparr>p_attempts := filter (\<lambda>b. at_id b \<noteq> at_id a) (p_attempts p)\<rparr>"
  have rem: "add_mset (at_id a) (mset (conn_ids ?p)) \<subseteq># mset (conn_ids p)"
    using mset_remove_key [OF assms(2), of at_id] by (simp add: conn_ids_def)
  then have sub: "mset (conn_ids ?p) \<subseteq># mset (conn_ids p)" by (rule subset_mset.order_trans [rotated]) simp
  show ?thesis
  proof (cases r)
    case (Inl e)
    have "conn_ids (?p\<lparr>p_permits := p_permits p + 1\<rparr>) = conn_ids ?p" by (simp add: conn_ids_def)
    with Inl sub show ?thesis
      by (intro ids_ok_mono [OF assms(1)]) (simp_all add: connect_done_def Let_def ids_queue_callback)
  next
    case (Inr sid)
    obtain c p1 where n: "new_conn now a sid ?p = (c, p1)" by fastforce
    note f = new_conn_fields [OF n]
    have "conn_ids p1 = conn_ids ?p" using f by (simp add: conn_ids_def)
    then have "mset (conn_ids (queue_callback (Inr c) p1)) \<subseteq># mset (conn_ids p)"
      "mset (conn_ids (p1\<lparr>p_connections := p_connections p1 @ [c], p_ticks := Suc (p_ticks p1)\<rparr>)) \<subseteq># mset (conn_ids p)"
      using rem f by (simp_all add: ids_queue_callback) (simp add: conn_ids_def)
    moreover have "connect_done now a r p =
        (if p_closed p then ?p else if at_purpose a = ForQueue then queue_callback (Inr c) p1
         else p1\<lparr>p_connections := p_connections p1 @ [c], p_ticks := Suc (p_ticks p1)\<rparr>)"
      using Inr n by (simp add: connect_done_def)
    ultimately show ?thesis
      using sub f by (intro ids_ok_mono [OF assms(1)]) (simp_all add: ids_queue_callback)
  qed
qed

lemma ids_checkIn:
  assumes "ids_ok p" "c \<in> set (p_out p)"
  shows "ids_ok (checkIn now c p)"
proof -
  let ?p = "p\<lparr>p_out := filter (\<lambda>x. cn_id x \<noteq> cn_id c) (p_out p)\<rparr>"
  have rem: "add_mset (cn_id c) (mset (conn_ids ?p)) \<subseteq># mset (conn_ids p)"
    using mset_remove_key [OF assms(2), of cn_id] by (simp add: conn_ids_def)
  then have sub: "mset (conn_ids ?p) \<subseteq># mset (conn_ids p)" by (rule subset_mset.order_trans [rotated]) simp
  have "mset (conn_ids (checkIn now c p)) = mset (conn_ids ?p)
      \<or> mset (conn_ids (checkIn now c p)) = add_mset (cn_id c) (mset (conn_ids ?p))"
    by (auto simp: checkIn_def Let_def conn_ids_def destroyConnection_def)
  with rem sub have "mset (conn_ids (checkIn now c p)) \<subseteq># mset (conn_ids p)" by auto
  then show ?thesis
    by (rule ids_ok_mono [OF assms(1)]) (simp add: checkIn_def Let_def destroyConnection_def)
qed

lemma ids_others:
  assumes "ids_ok p"
  shows "ids_ok (checkOut p)" "ids_ok (checkOut_timeout n p)" "ids_ok (socket_closes i p)"
    "ids_ok (close_pool p)" "clear sid p = Inr p' \<Longrightarrow> ids_ok p'"
    "ids_ok (p\<lparr>p_metrics := mt\<rparr>)" "ids_ok (p\<lparr>p_ticks := k\<rparr>)" "ids_ok (close_done p)"
    "ids_ok (ensureMinPoolSize p)"
proof -
  have "ids_ok ((createConnection pu ^^ k) p)" for pu k
    using assms by (induction k) (simp_all add: ids_createConnection)
  then have "ids_ok ((createConnection pu ^^ k) p\<lparr>p_minPoolSizeTimer := True\<rparr>)" for pu k
    by (rule ids_ok_cong) (simp_all add: conn_ids_def)
  then show "ids_ok (ensureMinPoolSize p)" using assms by (simp add: ensureMinPoolSize_def)
  have "map cn_id (map (\<lambda>c. if cn_id c = i then c\<lparr>cn_closed := True\<rparr> else c) cs) = map cn_id cs" for cs :: "conn list"
    by (induction cs) simp_all
  then have "conn_ids (socket_closes i p) = conn_ids p"
    by (simp add: conn_ids_def socket_closes_def Let_def del: map_map)
  then show "ids_ok (socket_closes i p)"
    by (rule ids_ok_cong [OF assms]) (simp add: socket_closes_def Let_def)
  show "ids_ok (close_done p)"
    by (rule ids_ok_mono [OF assms]) (simp_all add: close_done_def conn_ids_def)
  show "ids_ok p'" if "clear sid p = Inr p'"
    by (rule ids_ok_cong [OF assms]) (use clear_cases [OF that] in \<open>auto simp: conn_ids_def\<close>)
qed (rule ids_ok_cong [OF assms]; simp add: conn_ids_def checkOut_def checkOut_timeout_def close_pool_def Let_def)+

section \<open>The invariant of reachable pools\<close>

definition pool_inv :: "poolOptions \<Rightarrow> pool \<Rightarrow> bool" where
  "pool_inv options p = (options_ok options p \<and> permits_ok p \<and> ids_ok p)"

lemma pstep_options: "pstep p p' \<Longrightarrow> p_options p' = p_options p"
proof (induction rule: pstep.induct)
  case (connected a p now r)
  have "p_options (connect_done now a r p) = p_options p"
  proof (cases r)
    case (Inr sid)
    obtain c p1 where n: "new_conn now a sid (p\<lparr>p_attempts := filter (\<lambda>b. at_id b \<noteq> at_id a) (p_attempts p)\<rparr>) = (c, p1)"
      by fastforce
    with Inr new_conn_fields [OF n] show ?thesis by (simp add: connect_done_def Let_def live_queue_callback)
  qed (simp add: connect_done_def Let_def live_queue_callback)
  then show ?case .
next
  case (clear sid p p')
  then show ?case using clear_cases [of sid p p'] by auto
qed (auto simp: checkOut_def checkOut_timeout_def processWaitQueue_def checkIn_def destroyConnection_def
    socket_closes_def close_pool_def close_done_def ensureMinPoolSize_def Let_def)

lemma pool_inv_step: "pstep p p' \<Longrightarrow> pool_inv options p \<Longrightarrow> pool_inv options p'"
proof -
  assume st: "pstep p p'" and inv: "pool_inv options p"
  have o: "options_ok options p'" using inv pstep_options [OF st] by (simp add: pool_inv_def options_ok_def)
  have "permits_ok p' \<and> ids_ok p'"
    using st inv unfolding pool_inv_def
  proof (induction rule: pstep.induct)
    case (tick p n now)
    then have "permits_ok (p\<lparr>p_ticks := n\<rparr>)" "ids_ok (p\<lparr>p_ticks := n\<rparr>)" by (simp_all add: permits_others ids_others)
    then show ?case by (simp add: permits_processWaitQueue ids_processWaitQueue)
  qed (auto intro: permits_others ids_others permits_connect_done ids_connect_done permits_checkIn ids_checkIn
      permits_ensureMinPoolSize)
  with o show ?thesis by (simp add: pool_inv_def)
qed

lemma pool_inv_reachable: "pool_reachable options p \<Longrightarrow> pool_inv options p"
proof (induction rule: pool_reachable.induct)
  case (init p)
  then show ?case
    by (auto simp: ConnectionPool_new_def pool_inv_def options_ok_def permits_ok_def ids_ok_def conn_ids_def
        live_def split: if_splits)
next
  case (step p p')
  from pool_inv_step [OF step(2) step(3)] show ?case .
qed

text \<open>
  (C4) The pool never exceeds its maximum size.  In every reachable state of an open pool with a
  positive maximum, the connections that are idle in the pool, in use by callers and being
  established together number at most \<open>maxPoolSize\<close>, the permits are exactly what is left, and no
  two of them are the same connection.
\<close>

theorem pool_size_bounded:
  assumes "pool_reachable options p" "\<not> p_closed p" "0 < po_maxPoolSize options"
  shows "int (length (p_connections p) + length (p_out p) + length (p_attempts p)) \<le> po_maxPoolSize options
    \<and> p_permits p = po_maxPoolSize options
        - int (length (p_connections p) + length (p_out p) + length (p_attempts p))
    \<and> distinct (map cn_id (p_connections p @ p_out p) @ map at_id (p_attempts p))"
proof -
  have inv: "options_ok options p" "permits_ok p" "ids_ok p"
    using pool_inv_reachable [OF assms(1)] by (simp_all add: pool_inv_def)
  then have "p_permits p + int (live p) = po_maxPoolSize options" "int (live p) \<le> po_maxPoolSize options"
    using assms(2,3) by (auto simp: options_ok_def permits_ok_def)
  moreover have "distinct (conn_ids p)" using inv(3) by (simp add: ids_ok_def)
  ultimately show ?thesis by (simp add: live_def conn_ids_def)
qed

definition example_options :: "int \<Rightarrow> int \<Rightarrow> poolOptions" where
  "example_options hi lo = \<lparr>po_maxPoolSize = hi, po_minPoolSize = lo, po_maxIdleTimeMS = 0,
     po_waitQueueTimeoutMS = 1000, po_loadBalanced = False\<rparr>"

definition example_pool :: "int \<Rightarrow> int \<Rightarrow> pool" where
  "example_pool hi lo = projr (ConnectionPool_new (example_options hi lo))"

lemma example_pool_reachable: "lo \<le> hi \<Longrightarrow> pool_reachable (example_options hi lo) (example_pool hi lo)"
  by (rule pool_reachable.init) (simp add: example_pool_def ConnectionPool_new_def example_options_def)

theorem pool_size_bounded_witness:
  "int (length (p_connections (checkOut (example_pool 2 0))) + length (p_out (checkOut (example_pool 2 0)))
       + length (p_attempts (checkOut (example_pool 2 0)))) \<le> 2"
proof -
  have r: "pool_reachable (example_options 2 0) (checkOut (example_pool 2 0))"
    by (rule pool_reachable.step [OF example_pool_reachable pstep.checkOut]) simp
  have "\<not> p_closed (checkOut (example_pool 2 0))" "0 < po_maxPoolSize (example_options 2 0)"
    by (simp_all add: checkOut_def example_pool_def ConnectionPool_new_def example_options_def Let_def)
  from pool_size_bounded [OF r this] show ?thesis by (simp add: example_options_def)
qed

end
