(* ===== verification/Pool_Requests.thy ===== *)
theory Pool_Requests
  imports Connection_Pool
begin

text \<open>
  The check-out requests of the connection pool: each is answered exactly once, what the wait
  queue hands out is usable, and four places where the pool goes wrong (a stale connection handed out, a lost wake-up,
  connections counted twice, a counter that is never given back).
\<close>

section \<open>Answers\<close>

abbreviation answered :: "pool \<Rightarrow> nat list" where
  "answered p \<equiv> map fst (p_called p)"

definition calls_ok :: "pool \<Rightarrow> bool" where
  "calls_ok p =
     (distinct (answered p) \<and> distinct (map wq_id (p_waitQueue p))
      \<and> (\<forall>m \<in> set (p_waitQueue p). wq_cancelled m \<longleftrightarrow> wq_id m \<in> set (answered p))
      \<and> set (answered p) \<union> wq_id ` set (p_waitQueue p) = {..<p_nextWaiter p}
      \<and> (p_closed p \<longrightarrow> p_waitQueue p = []))"

text \<open>The first request leaves the queue: already answered, or answered now.\<close>

lemma calls_ok_shift:
  assumes "calls_ok p" "p_waitQueue p = m # ms" "wq_cancelled m"
    and "p_waitQueue q = ms" "p_called q = p_called p" "p_nextWaiter q = p_nextWaiter p" "p_closed q = p_closed p"
  shows "calls_ok q"
proof -
  have m: "wq_id m \<in> set (answered p)" using assms(1-3) by (simp add: calls_ok_def)
  have "insert (wq_id m) (set (answered p) \<union> wq_id ` set ms) = {..<p_nextWaiter p}"
    using assms(1,2) by (simp add: calls_ok_def)
  then have "set (answered p) \<union> wq_id ` set ms = {..<p_nextWaiter p}"
    using m by (metis UnI1 insert_absorb)
  then show ?thesis
    unfolding calls_ok_def assms(4-7) using assms(1,2) by (simp add: calls_ok_def)
qed

lemma calls_ok_answer:
  assumes "calls_ok p" "p_waitQueue p = m # ms" "\<not> wq_cancelled m"
    and "p_waitQueue q = ms" "p_called q = p_called p @ [(wq_id m, r)]" "p_nextWaiter q = p_nextWaiter p"
    and "p_closed q = p_closed p"
  shows "calls_ok q"
proof -
  have m: "wq_id m \<notin> set (answered p)" "wq_id m \<notin> wq_id ` set ms"
    using assms(1-3) by (auto simp: calls_ok_def)
  have d: "\<forall>x \<in> set ms. wq_id x \<noteq> wq_id m" using m(2) by (metis imageI)
  show ?thesis
    unfolding calls_ok_def assms(4-7)
    using assms(1,2) m d by (simp add: calls_ok_def)
qed

lemma calls_ok_cong:
  assumes "calls_ok p" "p_waitQueue q = p_waitQueue p" "p_called q = p_called p"
    "p_nextWaiter q = p_nextWaiter p" "p_closed q = p_closed p"
  shows "calls_ok q"
  using assms by (simp add: calls_ok_def)

lemma calls_wait_loop: "calls_ok p \<Longrightarrow> calls_ok (wait_loop now p)"
proof (rule wait_loop_keeps [where I = calls_ok])
  fix q m ms c cs
  assume q: "calls_ok q" "p_waitQueue q = m # ms"
  show "wq_cancelled m \<Longrightarrow> calls_ok (q\<lparr>p_waitQueue := ms\<rparr>)" by (rule calls_ok_shift [OF q]) simp_all
  show "\<not> wq_cancelled m \<Longrightarrow> calls_ok (deliver m ms c cs q)" by (rule calls_ok_answer [OF q]) simp_all
  show "calls_ok (destroyConnection (q\<lparr>p_connections := cs\<rparr>))"
    by (rule calls_ok_cong [OF q(1)]) (simp_all add: destroyConnection_def)
qed

lemma calls_processWaitQueue: "calls_ok p \<Longrightarrow> calls_ok (processWaitQueue now p)"
proof -
  assume c: "calls_ok p"
  let ?p1 = "wait_loop now (p\<lparr>p_processingWaitQueue := True\<rparr>)"
  have "calls_ok ?p1" by (rule calls_wait_loop, rule calls_ok_cong [OF c]) simp_all
  then have "calls_ok (createConnection ForQueue ?p1)" "calls_ok (?p1\<lparr>p_processingWaitQueue := False\<rparr>)"
    by (rule calls_ok_cong; simp)+
  with c show ?thesis by (simp add: processWaitQueue_def Let_def)
qed

lemma calls_queue_callback:
  assumes "calls_ok p" shows "calls_ok (queue_callback r p)"
proof (cases "p_waitQueue p")
  case Nil
  then show ?thesis
    by (intro calls_ok_cong [OF assms]; cases r; simp add: queue_callback_def)
next
  case (Cons m ms)
  show ?thesis
  proof (cases "wq_cancelled m")
    case True
    then show ?thesis
      by (intro calls_ok_shift [OF assms Cons]; cases r; simp add: queue_callback_def Cons Let_def)
  next
    case False
    show ?thesis
    proof (cases r)
      case (Inl e)
      with False show ?thesis
        by (intro calls_ok_answer [OF assms Cons]) (simp_all add: queue_callback_def Cons)
    next
      case (Inr c)
      with False show ?thesis
        by (intro calls_ok_answer [OF assms Cons]) (simp_all add: queue_callback_def Cons)
    qed
  qed
qed

lemma calls_connect_done:
  assumes "calls_ok p" shows "calls_ok (connect_done now a r p)"
proof -
  let ?p = "p\<lparr>p_attempts := filter (\<lambda>b. at_id b \<noteq> at_id a) (p_attempts p)\<rparr>"
  have base: "calls_ok ?p" "calls_ok (?p\<lparr>p_permits := x\<rparr>)" for x
    by (rule calls_ok_cong [OF assms]; simp)+
  show ?thesis
  proof (cases r)
    case (Inl e)
    with base(2) show ?thesis by (simp add: connect_done_def Let_def calls_queue_callback)
  next
    case (Inr sid)
    obtain c p1 where n: "new_conn now a sid ?p = (c, p1)" by fastforce
    have p1: "calls_ok p1" using new_conn_fields [OF n] by (intro calls_ok_cong [OF base(1)]) simp_all
    then have "calls_ok (p1\<lparr>p_connections := cs, p_ticks := t\<rparr>)" for cs t by (rule calls_ok_cong) simp_all
    with Inr n base(1) p1 show ?thesis by (simp add: connect_done_def Let_def calls_queue_callback)
  qed
qed

lemma calls_timeout:
  assumes "calls_ok p" "m \<in> set (p_waitQueue p)" "\<not> wq_cancelled m"
  shows "calls_ok (checkOut_timeout (wq_id m) p)"
proof -
  let ?f = "\<lambda>x. if wq_id x = wq_id m then x\<lparr>wq_cancelled := True\<rparr> else x"
  have ids: "map wq_id (map ?f xs) = map wq_id xs" for xs :: "waiter list" by (induction xs) simp_all
  have m: "wq_id m \<notin> set (answered p)" "wq_id m < p_nextWaiter p" using assms by (auto simp: calls_ok_def)
  have can: "wq_cancelled x \<longleftrightarrow> wq_id x \<in> insert (wq_id m) (set (answered p))"
    if "x \<in> ?f ` set (p_waitQueue p)" for x
    using that assms(1) by (auto simp: calls_ok_def)
  have img: "wq_id ` ?f ` set (p_waitQueue p) = wq_id ` set (p_waitQueue p)"
    using ids [of "p_waitQueue p"] by (metis set_map)
  let ?q = "checkOut_timeout (wq_id m) p"
  have q: "p_waitQueue ?q = map ?f (p_waitQueue p)" "answered ?q = answered p @ [wq_id m]"
    "p_nextWaiter ?q = p_nextWaiter p" "p_closed ?q = p_closed p"
    by (simp_all add: checkOut_timeout_def)
  have u: "set (answered p) \<union> wq_id ` set (p_waitQueue p) = {..<p_nextWaiter p}"
    and dd: "distinct (answered p)" "distinct (map wq_id (p_waitQueue p))"
    and cl: "p_closed p \<longrightarrow> p_waitQueue p = []"
    using assms(1) by (simp_all add: calls_ok_def)
  show ?thesis
    unfolding calls_ok_def q ids
  proof (intro conjI)
    show "distinct (answered p @ [wq_id m])" using dd(1) m(1) by simp
    show "\<forall>x \<in> set (map ?f (p_waitQueue p)). wq_cancelled x \<longleftrightarrow> wq_id x \<in> set (answered p @ [wq_id m])"
    proof
      fix x assume "x \<in> set (map ?f (p_waitQueue p))"
      then have "x \<in> ?f ` set (p_waitQueue p)" by (simp only: set_map)
      from can [OF this] show "wq_cancelled x \<longleftrightarrow> wq_id x \<in> set (answered p @ [wq_id m])" by simp
    qed
    show "set (answered p @ [wq_id m]) \<union> wq_id ` set (map ?f (p_waitQueue p)) = {..<p_nextWaiter p}"
    proof -
      have "set (answered p @ [wq_id m]) \<union> wq_id ` set (p_waitQueue p) =
          insert (wq_id m) (set (answered p) \<union> wq_id ` set (p_waitQueue p))" by simp
      also have "\<dots> = {..<p_nextWaiter p}" unfolding u using m(2) by (simp add: insert_absorb)
      finally show ?thesis unfolding set_map img .
    qed
  qed (use dd cl in auto)
qed

lemma calls_close:
  assumes "calls_ok p" shows "calls_ok (close_pool p)"
proof (cases "p_closed p")
  case False
  let ?open = "filter (\<lambda>m. \<not> wq_cancelled m) (rev (p_waitQueue p))"
  have "distinct (map wq_id ?open)" using assms by (simp add: calls_ok_def distinct_map_filter rev_map [symmetric])
  moreover have "wq_id ` set ?open = wq_id ` set (p_waitQueue p) - set (answered p)"
    using assms by (auto simp: calls_ok_def)
  moreover have "set (answered p) \<union> wq_id ` set (p_waitQueue p) = {..<p_nextWaiter p}" "distinct (answered p)"
    using assms by (simp_all add: calls_ok_def)
  moreover have "answered (close_pool p) = answered p @ map wq_id ?open"
    "p_waitQueue (close_pool p) = []" "p_nextWaiter (close_pool p) = p_nextWaiter p"
    using False by (simp_all add: close_pool_def)
  ultimately show ?thesis unfolding calls_ok_def by auto
qed (simp add: close_pool_def assms)


lemma calls_others:
  assumes "calls_ok p"
  shows "calls_ok (checkOut p)" "calls_ok (checkIn now c p)" "calls_ok (socket_closes i p)"
    "clear sid p = Inr p' \<Longrightarrow> calls_ok p'" "calls_ok (close_done p)" "calls_ok (ensureMinPoolSize p)"
    "calls_ok (p\<lparr>p_metrics := mt\<rparr>)" "calls_ok (p\<lparr>p_ticks := k\<rparr>)"
proof -
  let ?n = "p_nextWaiter p"
  have u: "set (answered p) \<union> wq_id ` set (p_waitQueue p) = {..<?n}" using assms by (simp add: calls_ok_def)
  have new: "?n \<notin> set (answered p)" "?n \<notin> wq_id ` set (p_waitQueue p)"
    using u by (metis UnI1 UnI2 lessThan_iff less_irrefl)+
  have ins: "insert ?n {..<?n} = {..<Suc ?n}" by (rule lessThan_Suc [symmetric])
  have lt: "wq_id m \<noteq> ?n" if "m \<in> set (p_waitQueue p)" for m
    using new(2) that by (metis imageI)
  show "calls_ok (checkOut p)"
  proof (cases "p_closed p")
    case True
    with assms have e: "p_waitQueue p = []" by (simp add: calls_ok_def)
    have s: "set (answered p) = {..<?n}" using u e by simp
    show ?thesis
      unfolding calls_ok_def using assms True e new(1) ins s
      by (simp add: checkOut_def Let_def calls_ok_def)
  next
    case False
    have "insert ?n (set (answered p) \<union> wq_id ` set (p_waitQueue p)) = {..<Suc ?n}" unfolding u by (rule ins)
    then show ?thesis
      unfolding calls_ok_def using assms False new lt
      by (simp add: checkOut_def Let_def calls_ok_def)
  qed
  show "calls_ok p'" if "clear sid p = Inr p'"
    by (rule calls_ok_cong [OF assms]) (use clear_cases [OF that] in auto)
qed (rule calls_ok_cong [OF assms];
    simp add: checkIn_def destroyConnection_def socket_closes_def close_done_def ensureMinPoolSize_def Let_def)+

lemma calls_ok_reachable: "pool_reachable options p \<Longrightarrow> calls_ok p"
proof (induction rule: pool_reachable.induct)
  case (init p)
  then show ?case by (auto simp: ConnectionPool_new_def calls_ok_def split: if_splits)
next
  case (step p p')
  from step(2,3) show ?case
  proof (induction rule: pstep.induct)
    case (tick p n now)
    then show ?case by (simp add: calls_processWaitQueue calls_others)
  qed (simp_all add: calls_others calls_timeout calls_connect_done calls_close)
qed

text \<open>
  (C11) Every check-out request is answered exactly once.  In every reachable state no request has
  been called back twice, a request that was made is either answered or waiting in the queue with
  its timer not yet expired, never both, and once the pool is closed all of them are answered.
\<close>

theorem requests_answered_once:
  assumes "pool_reachable options p"
  shows "distinct (answered p)
    \<and> (\<forall>n < p_nextWaiter p. n \<notin> set (answered p) \<longleftrightarrow>
         (\<exists>m \<in> set (p_waitQueue p). wq_id m = n \<and> \<not> wq_cancelled m))
    \<and> (p_closed p \<longrightarrow> set (answered p) = {..<p_nextWaiter p})"
proof -
  have c: "calls_ok p" using assms by (rule calls_ok_reachable)
  then have u: "set (answered p) \<union> wq_id ` set (p_waitQueue p) = {..<p_nextWaiter p}"
    and cl: "p_closed p \<longrightarrow> p_waitQueue p = []"
    and can: "\<forall>m \<in> set (p_waitQueue p). wq_cancelled m \<longleftrightarrow> wq_id m \<in> set (answered p)"
    and d: "distinct (answered p)"
    by (simp_all add: calls_ok_def)
  have "n \<notin> set (answered p) \<longleftrightarrow> (\<exists>m \<in> set (p_waitQueue p). wq_id m = n \<and> \<not> wq_cancelled m)"
    if "n < p_nextWaiter p" for n
  proof -
    have "n \<in> set (answered p) \<union> wq_id ` set (p_waitQueue p)" unfolding u using that by simp
    then show ?thesis using can by blast
  qed
  with u cl d show ?thesis by auto
qed

theorem requests_answered_once_witness:
  "distinct (answered (close_pool (checkOut (example_pool 2 0))))
   \<and> set (answered (close_pool (checkOut (example_pool 2 0)))) = {..<1}"
proof -
  have r: "pool_reachable (example_options 2 0) (close_pool (checkOut (example_pool 2 0)))"
    by (rule pool_reachable.step [OF pool_reachable.step [OF example_pool_reachable pstep.checkOut] pstep.close]) simp
  have "p_closed (close_pool (checkOut (example_pool 2 0)))"
    "p_nextWaiter (close_pool (checkOut (example_pool 2 0))) = 1"
    by (simp_all add: checkOut_def close_pool_def example_pool_def ConnectionPool_new_def example_options_def Let_def)
  with requests_answered_once [OF r] show ?thesis by auto
qed

section \<open>What is handed out\<close>

lemma usable_cong:
  assumes "p_options q = p_options p" "p_generation q = p_generation p"
    "p_serviceGenerations q = p_serviceGenerations p"
  shows "usable now q c = usable now p c"
  unfolding connectionIsStale_def connectionIsIdle_def assms ..

text \<open>What one pass over the wait queue hands out was in the pool, and usable.\<close>

lemma wait_queue_delivers:
  assumes "c \<in> set (p_out (processWaitQueue now p))" "c \<notin> set (p_out p)"
  shows "c \<in> set (p_connections p) \<and> usable now p c"
proof -
  let ?p0 = "p\<lparr>p_processingWaitQueue := True\<rparr>"
  let ?I = "\<lambda>q. p_options q = p_options p \<and> p_generation q = p_generation p
      \<and> p_serviceGenerations q = p_serviceGenerations p \<and> set (p_connections q) \<subseteq> set (p_connections p)
      \<and> (\<forall>x \<in> set (p_out q). x \<in> set (p_out p) \<or> x \<in> set (p_connections p) \<and> usable now p x)"
  have "?I (wait_loop now ?p0)"
  proof (rule wait_loop_keeps [where I = ?I])
    fix q m ms c cs
    assume q: "?I q" "usable now q c" "p_connections q = c # cs"
    then have "usable now p c" using usable_cong [of q p] by blast
    with q(1,3) show "?I (deliver m ms c cs q)" by simp
  qed (auto simp: destroyConnection_def)
  moreover have "p_out (processWaitQueue now p) \<in> {p_out p, p_out (wait_loop now ?p0)}"
    by (simp add: processWaitQueue_def createConnection_def Let_def)
  ultimately show ?thesis using assms by auto
qed

text \<open>A connection that was just established is open, and of the current generation if the attempt was.\<close>

lemma new_conn_current:
  assumes "new_conn now a sid p = (c, p1)"
  shows "cn_id c = at_id a \<and> \<not> cn_closed c \<and> cn_lastUse c = now \<and> p_out p1 = p_out p
    \<and> (at_generation a = p_generation p \<longrightarrow> \<not> connectionIsStale p1 c)"
  using assms
  by (auto simp: new_conn_def connectionIsStale_def map_simps Let_def split: bool.splits option.splits if_splits)

lemma queue_callback_out:
  "p_options (queue_callback r p) = p_options p" "p_generation (queue_callback r p) = p_generation p"
  "p_serviceGenerations (queue_callback r p) = p_serviceGenerations p"
  "x \<in> set (p_out (queue_callback r p)) \<Longrightarrow> x \<in> set (p_out p) \<or> r = Inr x"
  by (auto simp: queue_callback_def Let_def split: list.splits sum.splits if_splits)

lemma connect_delivers:
  assumes "c \<in> set (p_out (connect_done now a r p))" "c \<notin> set (p_out p)"
  shows "\<exists>sid. r = Inr sid \<and> cn_id c = at_id a \<and> \<not> cn_closed c \<and> cn_lastUse c = now
    \<and> (at_generation a = p_generation p \<longrightarrow> \<not> connectionIsStale (connect_done now a r p) c)"
proof -
  let ?p = "p\<lparr>p_attempts := filter (\<lambda>b. at_id b \<noteq> at_id a) (p_attempts p)\<rparr>"
  from assms obtain sid where r: "r = Inr sid" "\<not> p_closed p" "at_purpose a = ForQueue"
    by (cases r) (auto simp: connect_done_def Let_def new_conn_current dest: queue_callback_out(4)
        split: if_splits prod.splits)
  obtain c1 p1 where n: "new_conn now a sid ?p = (c1, p1)" by (rule prod.exhaust)
  with r have q: "connect_done now a r p = queue_callback (Inr c1) p1" by (simp add: connect_done_def Let_def)
  with assms new_conn_current [OF n] have c: "c = c1" using queue_callback_out(4) [of c "Inr c1" p1] by auto
  have "connectionIsStale (queue_callback (Inr c1) p1) c1 = connectionIsStale p1 c1"
    unfolding connectionIsStale_def queue_callback_out ..
  with new_conn_current [OF n] r(1) q c show ?thesis by simp
qed

text \<open>The steps that hand out connections.\<close>

lemma delivering_steps:
  assumes "pstep p q" "c \<in> set (p_out q)" "cn_id c \<notin> cn_id ` set (p_out p)"
  shows "(\<exists>now n. p_ticks p = Suc n \<and> q = processWaitQueue now (p\<lparr>p_ticks := n\<rparr>))
    \<or> (\<exists>now a r. a \<in> set (p_attempts p) \<and> q = connect_done now a r p)"
  using assms
proof (cases rule: pstep.cases)
  case min_size
  have "p_out ((createConnection ForMinSize ^^ k) p) = p_out p" for k
    by (induction k) (simp_all add: createConnection_def)
  with min_size assms(2,3) show ?thesis by (auto simp: ensureMinPoolSize_def split: if_splits)
next
  case (clear sid)
  then have "p_out q = p_out p" by (auto simp: clear_def split: bool.splits option.splits)
  with assms(2,3) show ?thesis by auto
next
  case (connected a now r)
  then show ?thesis by blast
qed (use assms(2,3) in \<open>auto simp: checkOut_def checkOut_timeout_def checkIn_def destroyConnection_def socket_closes_def
      close_pool_def close_done_def Let_def split: if_splits\<close>)

text \<open>
  (C12) What is handed out.  When a step of the pool gives a connection to a request, it is either a
  pass over the wait queue, and the connection was in the pool, belongs to the current generation (of
  its service, behind a load balancer), has not been idle longer than \<open>maxIdleTimeMS\<close> and is not closed;
  or it is the end of the attempt that made this very connection, which is open and has just been
  used, and belongs to the current generation unless the pool was cleared while it was established.
\<close>

theorem delivered_connections_usable:
  assumes "pstep p q" "c \<in> set (p_out q)" "cn_id c \<notin> cn_id ` set (p_out p)"
  shows "(\<exists>now n. p_ticks p = Suc n \<and> q = processWaitQueue now (p\<lparr>p_ticks := n\<rparr>) \<and> c \<in> set (p_connections p)
        \<and> \<not> connectionIsStale p c \<and> \<not> connectionIsIdle now p c \<and> \<not> cn_closed c)
    \<or> (\<exists>now a sid. a \<in> set (p_attempts p) \<and> q = connect_done now a (Inr sid) p \<and> cn_id c = at_id a
        \<and> \<not> cn_closed c \<and> cn_lastUse c = now \<and> (at_generation a = p_generation p \<longrightarrow> \<not> connectionIsStale q c))"
proof -
  have new: "c \<notin> set (p_out p)" using assms(3) by auto
  from delivering_steps [OF assms] show ?thesis
  proof (elim disjE exE conjE)
    fix now n assume q: "p_ticks p = Suc n" "q = processWaitQueue now (p\<lparr>p_ticks := n\<rparr>)"
    have "usable now (p\<lparr>p_ticks := n\<rparr>) c = usable now p c" by (rule usable_cong) simp_all
    with wait_queue_delivers [of c now "p\<lparr>p_ticks := n\<rparr>"] assms(2) new q show ?thesis by auto
  next
    fix now a r assume "a \<in> set (p_attempts p)" "q = connect_done now a r p"
    with connect_delivers [of c now a r p] assms(2) new show ?thesis by blast
  qed
qed

text \<open>
  Clearing the pool does not reach connections that are being established: one that was begun
  before and done after is handed to the first request, although it is stale.
\<close>

theorem stale_connection_delivered:
  assumes "at_purpose a = ForQueue" "\<not> po_loadBalanced (p_options p)" "\<not> p_closed p"
    and "p_waitQueue p = m # ms" "\<not> wq_cancelled m" "at_generation a \<noteq> p_generation p"
  shows "\<exists>c. cn_id c = at_id a \<and> c \<in> set (p_out (connect_done now a (Inr sid) p))
    \<and> (wq_id m, GotConnection (cn_id c)) \<in> set (p_called (connect_done now a (Inr sid) p))
    \<and> connectionIsStale (connect_done now a (Inr sid) p) c"
  using assms
  by (intro exI [of _ "fst (new_conn now a sid p)"])
    (simp add: connect_done_def new_conn_def queue_callback_def connectionIsStale_def)

lemma example_pool_eq:
  "lo \<le> hi \<Longrightarrow> example_pool hi lo = \<lparr>p_options = example_options hi lo, p_closed = False, p_connections = [],
        p_permits = hi, p_minPoolSizeTimer = False, p_generation = 0,
        p_serviceGenerations = [], p_connectionCounter = 1, p_waitQueue = [],
        p_metrics = \<lparr>m_txnConnections = 0, m_cursorConnections = 0, m_otherConnections = 0\<rparr>,
        p_checkedOut = 0, p_processingWaitQueue = False, p_ticks = 0, p_attempts = [], p_out = [],
        p_called = [], p_nextWaiter = 0\<rparr>"
  by (simp add: example_pool_def ConnectionPool_new_def example_options_def)

definition example_conn :: "nat \<Rightarrow> conn" where
  "example_conn i = \<lparr>cn_id = i, cn_generation = 0, cn_serviceId = None, cn_closed = False, cn_lastUse = 0\<rparr>"

theorem delivered_connections_usable_witness:
  "let p = checkOut ((example_pool 2 0)\<lparr>p_connections := [example_conn 1]\<rparr>);
       q = processWaitQueue 5 (p\<lparr>p_ticks := 0\<rparr>)
   in example_conn 1 \<in> set (p_out q)
      \<and> (\<exists>now. q = processWaitQueue now (p\<lparr>p_ticks := 0\<rparr>) \<and> \<not> connectionIsStale p (example_conn 1)
           \<and> \<not> connectionIsIdle now p (example_conn 1) \<and> \<not> cn_closed (example_conn 1))"
proof -
  let ?p = "checkOut ((example_pool 2 0)\<lparr>p_connections := [example_conn 1]\<rparr>)"
  let ?q = "processWaitQueue 5 (?p\<lparr>p_ticks := 0\<rparr>)"
  have p: "p_ticks ?p = Suc 0" "p_attempts ?p = []" "p_out ?p = []"
    by (simp_all add: checkOut_def example_pool_eq Let_def)
  have out: "example_conn 1 \<in> set (p_out ?q)"
    by (simp add: example_pool_eq checkOut_def processWaitQueue_def wait_loop.simps connectionIsStale_def
        connectionIsIdle_def example_options_def example_conn_def Let_def)
  from delivered_connections_usable [OF pstep.tick [OF p(1)] out] p out show ?thesis
    unfolding Let_def by auto
qed

section \<open>Bookkeeping\<close>

text \<open>
  A lost wake-up.  A state is reachable in which the pool is open, a usable connection is
  available and a live request waits first in the queue, but the queue is not being processed and
  nothing is scheduled to process it: this happens when the request a connection was being
  established for timed out in the meantime, because that branch does not schedule
  \<open>processWaitQueue\<close>.
\<close>

theorem lost_wakeup:
  "\<exists>p c cs m ms. pool_reachable (example_options 1 0) p \<and> \<not> p_closed p
     \<and> p_connections p = c # cs \<and> usable 0 p c \<and> p_waitQueue p = m # ms \<and> \<not> wq_cancelled m
     \<and> p_ticks p = 0 \<and> \<not> p_processingWaitQueue p \<and> p_attempts p = []"
proof -
  let ?o = "example_options 1 0"
  define p1 where "p1 = checkOut (example_pool 1 0)"
  define p2 where "p2 = processWaitQueue 0 (p1\<lparr>p_ticks := 0\<rparr>)"
  define p3 where "p3 = checkOut p2"
  define p4 where "p4 = processWaitQueue 0 (p3\<lparr>p_ticks := 0\<rparr>)"
  define p5 where "p5 = checkOut_timeout 0 p4"
  define a where "a = \<lparr>at_id = 1, at_generation = 0, at_purpose = ForQueue\<rparr>"
  define p6 where "p6 = connect_done 0 a (Inr None) p5"
  note ev = example_pool_eq checkOut_def example_options_def Let_def processWaitQueue_def wait_loop.simps
    totalConnectionCount_def createConnection_def
  have p1: "p_ticks p1 = Suc 0" by (simp add: p1_def ev)
  have p2: "p_ticks p2 = 0" "p_waitQueue p2 = [\<lparr>wq_id = 0, wq_cancelled = False\<rparr>]" "p_closed p2 = False"
    "p_processingWaitQueue p2" "p_attempts p2 = [a]" "p_connections p2 = []" "p_nextWaiter p2 = 1"
    "p_options p2 = ?o" "p_generation p2 = 0"
    by (simp_all add: p2_def p1_def a_def ev)
  have p4: "p4 = p3\<lparr>p_ticks := 0\<rparr>" using p2 by (simp add: p4_def p3_def processWaitQueue_def checkOut_def Let_def)
  have p3: "p_ticks p3 = Suc 0" using p2 by (simp add: p3_def checkOut_def Let_def)
  have w4: "p_waitQueue p4 = [\<lparr>wq_id = 0, wq_cancelled = False\<rparr>, \<lparr>wq_id = 1, wq_cancelled = False\<rparr>]"
    "p_attempts p4 = [a]" "p_options p4 = ?o"
    using p2 by (simp_all add: p4 p3_def checkOut_def Let_def)
  have p6: "p_closed p6 = False" "p_connections p6 = [example_conn 1]" "p_ticks p6 = 0"
    "p_waitQueue p6 = [\<lparr>wq_id = 1, wq_cancelled = False\<rparr>]" "\<not> p_processingWaitQueue p6" "p_attempts p6 = []"
    "p_options p6 = ?o" "p_generation p6 = 0"
    using p2 by (simp_all add: p6_def p5_def p4 p3_def a_def checkOut_timeout_def checkOut_def connect_done_def
        new_conn_def queue_callback_def example_conn_def example_options_def Let_def)
  have "pool_reachable ?o p1" unfolding p1_def
    by (rule pool_reachable.step [OF example_pool_reachable pstep.checkOut]) simp
  then have "pool_reachable ?o p2" unfolding p2_def by (rule pool_reachable.step) (rule pstep.tick [OF p1])
  then have "pool_reachable ?o p3" unfolding p3_def by (rule pool_reachable.step) (rule pstep.checkOut)
  then have "pool_reachable ?o p4" unfolding p4_def by (rule pool_reachable.step) (rule pstep.tick [OF p3])
  then have "pool_reachable ?o p5"
    unfolding p5_def using pstep.timeout [of "\<lparr>wq_id = 0, wq_cancelled = False\<rparr>" p4] w4
    by (simp add: example_options_def) (blast intro: pool_reachable.step)
  moreover have "a \<in> set (p_attempts p5)" using w4 by (simp add: p5_def checkOut_timeout_def)
  ultimately have r: "pool_reachable ?o p6"
    unfolding p6_def by (meson pool_reachable.step pstep.connected)
  have "usable 0 p6 (example_conn 1)"
    using p6 by (simp add: connectionIsStale_def connectionIsIdle_def example_conn_def example_options_def)
  with r p6 show ?thesis by (intro exI [of _ p6] exI [of _ "example_conn 1"]) simp
qed

text \<open>
  Idle connections are counted twice.  In every reachable open pool \<open>totalConnectionCount\<close> is
  twice the number of idle connections plus the ones in use and in progress, since the permits
  already account for the idle ones; so \<open>ensureMinPoolSize\<close> starts no connection as soon as the idle
  ones make up half of \<open>minPoolSize\<close>.
\<close>

theorem min_pool_size_counts_idle_twice:
  assumes "pool_reachable options p" "\<not> p_closed p"
  shows "totalConnectionCount p =
      int (2 * length (p_connections p) + length (p_out p) + length (p_attempts p))
    \<and> (po_minPoolSize options \<le> int (2 * length (p_connections p)) \<longrightarrow>
        p_attempts (ensureMinPoolSize p) = p_attempts p)"
proof -
  have inv: "p_options p = options" "p_permits p + int (live p) = po_maxPoolSize options"
    using pool_inv_reachable [OF assms(1)] assms(2) by (auto simp: pool_inv_def options_ok_def permits_ok_def)
  then have t: "totalConnectionCount p =
      int (2 * length (p_connections p) + length (p_out p) + length (p_attempts p))"
    by (simp add: totalConnectionCount_def live_def)
  then show ?thesis using inv(1) by (auto simp: ensureMinPoolSize_def)
qed

text \<open>With a minimum of two, one connection that was established and one that failed.\<close>

theorem min_pool_size_counts_idle_twice_witness:
  "\<exists>p. pool_reachable (example_options 2 2) p \<and> length (p_connections p) = 1 \<and> p_out p = []
     \<and> p_attempts p = [] \<and> p_attempts (ensureMinPoolSize p) = []"
proof -
  let ?o = "example_options 2 2"
  define p1 where "p1 = ensureMinPoolSize (example_pool 2 2)"
  define a where "a i = \<lparr>at_id = i, at_generation = 0, at_purpose = ForMinSize\<rparr>" for i
  define p2 where "p2 = connect_done 0 (a 1) (Inr None) p1"
  define p3 where "p3 = connect_done 0 (a 2) (Inl (MongoNetworkError_new ''closed'' None)) p2"
  have p1: "p_attempts p1 = [a 1, a 2]" "p_connections p1 = []" "p_out p1 = []" "p_closed p1 = False"
    "p_options p1 = ?o" "p_generation p1 = 0"
    by (simp_all add: p1_def a_def ensureMinPoolSize_def example_pool_eq totalConnectionCount_def
        example_options_def createConnection_def numeral_2_eq_2)
  have p2: "p_attempts p2 = [a 2]" "length (p_connections p2) = 1" "p_out p2 = []" "p_closed p2 = False"
    using p1 by (simp_all add: p2_def connect_done_def new_conn_def a_def example_options_def Let_def)
  have p3: "p_attempts p3 = []" "length (p_connections p3) = 1" "p_out p3 = []" "p_closed p3 = False"
    using p2 by (simp_all add: p3_def connect_done_def a_def Let_def)
  have "pool_reachable ?o p1" unfolding p1_def
    by (rule pool_reachable.step [OF example_pool_reachable pstep.min_size]) simp
  moreover have "a 1 \<in> set (p_attempts p1)" using p1 by simp
  ultimately have "pool_reachable ?o p2" unfolding p2_def by (meson pool_reachable.step pstep.connected)
  moreover have "a 2 \<in> set (p_attempts p2)" using p2 by simp
  ultimately have r: "pool_reachable ?o p3" unfolding p3_def by (meson pool_reachable.step pstep.connected)
  have "po_minPoolSize ?o \<le> int (2 * length (p_connections p3))" using p3(2) by (simp add: example_options_def)
  with min_pool_size_counts_idle_twice [OF r] p3 have "p_attempts (ensureMinPoolSize p3) = []" by simp
  with r p3 show ?thesis by blast
qed

text \<open>
  The count of checked-out connections is not given back when a request fails: it is
  incremented when the request is queued and decremented only by \<open>checkIn\<close>, so after a failed
  connection attempt it stays at one although no connection is in use and no request is waiting.
\<close>

theorem checked_out_count_leaks:
  "\<exists>p. pool_reachable (example_options 1 0) p \<and> \<not> p_closed p \<and> p_out p = [] \<and> p_waitQueue p = []
     \<and> p_attempts p = [] \<and> p_checkedOut p = 1"
proof -
  let ?o = "example_options 1 0"
  define p1 where "p1 = checkOut (example_pool 1 0)"
  define p2 where "p2 = processWaitQueue 0 (p1\<lparr>p_ticks := 0\<rparr>)"
  define a where "a = \<lparr>at_id = 1, at_generation = 0, at_purpose = ForQueue\<rparr>"
  define p3 where "p3 = connect_done 0 a (Inl (MongoNetworkError_new ''closed'' None)) p2"
  note ev = example_pool_eq checkOut_def example_options_def Let_def processWaitQueue_def wait_loop.simps
    totalConnectionCount_def createConnection_def
  have p1: "p_ticks p1 = Suc 0" by (simp add: p1_def ev)
  have p2: "p_waitQueue p2 = [\<lparr>wq_id = 0, wq_cancelled = False\<rparr>]" "p_closed p2 = False"
    "p_attempts p2 = [a]" "p_connections p2 = []" "p_checkedOut p2 = 1" "p_out p2 = []"
    by (simp_all add: p2_def p1_def a_def ev)
  have p3: "\<not> p_closed p3" "p_out p3 = []" "p_waitQueue p3 = []" "p_attempts p3 = []" "p_checkedOut p3 = 1"
    using p2 by (simp_all add: p3_def a_def connect_done_def queue_callback_def Let_def)
  have "pool_reachable ?o p1" unfolding p1_def
    by (rule pool_reachable.step [OF example_pool_reachable pstep.checkOut]) simp
  then have "pool_reachable ?o p2" unfolding p2_def by (rule pool_reachable.step) (rule pstep.tick [OF p1])
  moreover have "a \<in> set (p_attempts p2)" using p2 by simp
  ultimately have "pool_reachable ?o p3" unfolding p3_def by (meson pool_reachable.step pstep.connected)
  with p3 show ?thesis by blast
qed

end
