(* ===== verification/Monitor.thy ===== *)
theory Monitor
  imports Server_Description
begin

text \<open>
  \<open>src/sdam/monitor.ts\<close> and the timer it runs on, \<open>makeInterruptibleAsyncInterval\<close> of
  \<open>src/utils.ts\<close>.  The timer's closure variables are the record \<open>interval\<close>, with the start times of
  the calls of its function as a log; the monitor's pending checks (a command or a connection
  attempt whose callback has not run) are part of its record, since the code leaves them with the
  event loop.  Time is an argument.  What the monitor emits is the list of events each operation
  returns; logging is left out.
\<close>

section \<open>The interruptible interval\<close>

text \<open>
  \<open>iv_timer\<close> is the time the pending timer is due.  \<open>iv_calls\<close> lists the times the function was
  called, latest first; \<open>iv_running\<close> counts the calls that have not called back.
\<close>

record interval =
  iv_interval :: int
  iv_minInterval :: int
  iv_timer :: "int option"
  iv_lastCallTime :: int
  iv_cannotBeExpedited :: bool
  iv_stopped :: bool
  iv_calls :: "int list"
  iv_running :: nat

definition reschedule :: "int \<Rightarrow> int \<Rightarrow> interval \<Rightarrow> interval" where
  "reschedule now ms iv =
     (if iv_stopped iv then iv
      else iv\<lparr>iv_timer := Some (now + (if ms \<noteq> 0 then ms else iv_interval iv))\<rparr>)"

definition executeAndReschedule :: "int \<Rightarrow> interval \<Rightarrow> interval" where
  "executeAndReschedule now iv =
     iv\<lparr>iv_cannotBeExpedited := False, iv_lastCallTime := now, iv_calls := now # iv_calls iv,
        iv_running := Suc (iv_running iv)\<rparr>"

text \<open>The callback the function is given.\<close>

definition fn_done :: "int \<Rightarrow> interval \<Rightarrow> interval" where
  "fn_done now iv = reschedule now (iv_interval iv) (iv\<lparr>iv_running := iv_running iv - 1\<rparr>)"

definition wake :: "int \<Rightarrow> interval \<Rightarrow> interval" where
  "wake now iv =
     (let nextScheduledCallTime = iv_lastCallTime iv + iv_interval iv;
          timeUntilNextCall = nextScheduledCallTime - now
      in if timeUntilNextCall < 0 then executeAndReschedule now iv
         else if iv_cannotBeExpedited iv then iv
         else if timeUntilNextCall > iv_minInterval iv
         then (reschedule now (iv_minInterval iv) iv)\<lparr>iv_cannotBeExpedited := True\<rparr>
         else iv)"

definition stop_interval :: "interval \<Rightarrow> interval" where
  "stop_interval iv = iv\<lparr>iv_stopped := True, iv_timer := None, iv_lastCallTime := 0,
     iv_cannotBeExpedited := False\<rparr>"

text \<open>The timer fires: it is no longer pending and the function is called.\<close>

definition timer_fires :: "int \<Rightarrow> interval \<Rightarrow> interval" where
  "timer_fires now iv = executeAndReschedule now (iv\<lparr>iv_timer := None\<rparr>)"

definition makeInterruptibleAsyncInterval :: "int \<Rightarrow> int \<Rightarrow> int \<Rightarrow> bool \<Rightarrow> interval" where
  "makeInterruptibleAsyncInterval now interval_opt minInterval_opt immediate =
     (let iv = \<lparr>iv_interval = (if interval_opt \<noteq> 0 then interval_opt else 1000),
                iv_minInterval = (if minInterval_opt \<noteq> 0 then minInterval_opt else 500),
                iv_timer = None, iv_lastCallTime = now, iv_cannotBeExpedited = False,
                iv_stopped = False, iv_calls = [], iv_running = 0\<rparr>
      in if immediate then executeAndReschedule now iv else reschedule now 0 iv)"

text \<open>
  What can happen to an interval between two instants: its timer fires at its due time or later,
  a call of its function finishes, someone wakes or stops it.  The clock is the second component.
\<close>

inductive iv_step :: "interval \<times> int \<Rightarrow> interval \<times> int \<Rightarrow> bool" where
  iv_fire: "iv_timer iv = Some due \<Longrightarrow> t \<le> t' \<Longrightarrow> due \<le> t' \<Longrightarrow> iv_step (iv, t) (timer_fires t' iv, t')"
| iv_done: "iv_running iv > 0 \<Longrightarrow> t \<le> t' \<Longrightarrow> iv_step (iv, t) (fn_done t' iv, t')"
| iv_wake: "t \<le> t' \<Longrightarrow> iv_step (iv, t) (wake t' iv, t')"
| iv_stop: "t \<le> t' \<Longrightarrow> iv_step (iv, t) (stop_interval iv, t')"

text \<open>The same with wakes only while the next call is not overdue.\<close>

inductive iv_timely :: "interval \<times> int \<Rightarrow> interval \<times> int \<Rightarrow> bool" where
  ivt_fire: "iv_timer iv = Some due \<Longrightarrow> t \<le> t' \<Longrightarrow> due \<le> t' \<Longrightarrow> iv_timely (iv, t) (timer_fires t' iv, t')"
| ivt_done: "iv_running iv > 0 \<Longrightarrow> t \<le> t' \<Longrightarrow> iv_timely (iv, t) (fn_done t' iv, t')"
| ivt_wake: "t \<le> t' \<Longrightarrow> t' \<le> iv_lastCallTime iv + iv_interval iv \<Longrightarrow> iv_timely (iv, t) (wake t' iv, t')"
| ivt_stop: "t \<le> t' \<Longrightarrow> iv_timely (iv, t) (stop_interval iv, t')"

fun spaced :: "int \<Rightarrow> int list \<Rightarrow> bool" where
  "spaced d (b # a # ts) = (d \<le> b - a \<and> spaced d (a # ts))"
| "spaced d _ = True"

text \<open>
  The invariant of timely runs: calls are spaced, the pending timer is at least the minimum
  interval after the last call, and the clock is past every call.
\<close>

definition iv_inv :: "int \<Rightarrow> interval \<times> int \<Rightarrow> bool" where
  "iv_inv d st = (case st of (iv, t) \<Rightarrow>
     d \<le> iv_minInterval iv \<and> d \<le> iv_interval iv \<and> 0 < d
     \<and> spaced d (iv_calls iv)
     \<and> (iv_calls iv \<noteq> [] \<longrightarrow> hd (iv_calls iv) \<le> t)
     \<and> (\<forall>due. iv_timer iv = Some due \<longrightarrow> iv_calls iv \<noteq> [] \<longrightarrow> d \<le> due - hd (iv_calls iv)))"

lemma spaced_Cons: "spaced d (t # ts) \<longleftrightarrow> (ts = [] \<or> d \<le> t - hd ts) \<and> spaced d ts"
  by (cases ts) auto

lemma iv_timely_inv: "iv_timely st st' \<Longrightarrow> iv_inv d st \<Longrightarrow> iv_inv d st'"
proof (induction rule: iv_timely.induct)
  case (ivt_fire iv due t t')
  then show ?case
    by (auto simp: iv_inv_def timer_fires_def executeAndReschedule_def spaced_Cons)
next
  case (ivt_done iv t t')
  then show ?case by (auto simp: iv_inv_def fn_done_def reschedule_def)
next
  case (ivt_wake t t' iv)
  then show ?case by (auto simp: iv_inv_def wake_def Let_def reschedule_def)
next
  case (ivt_stop t t' iv)
  then show ?case by (auto simp: iv_inv_def stop_interval_def)
qed

lemma makeInterval_inv:
  assumes "0 < d" "d \<le> i" "d \<le> m"
  shows "iv_inv d (makeInterruptibleAsyncInterval now i m b, now)"
  using assms
  by (auto simp: iv_inv_def makeInterruptibleAsyncInterval_def executeAndReschedule_def reschedule_def Let_def)

text \<open>
  The interval never calls its function twice within the minimum interval, as long as it is
  not woken after the next call was due: for any sequence of firings, completions, stops and such
  wakes, the calls are at least the smaller of the two intervals apart.
\<close>

theorem interval_calls_spaced:
  assumes "0 < i" "0 < m"
    and "iv_timely\<^sup>*\<^sup>* (makeInterruptibleAsyncInterval now i m b, now) (iv, t)"
  shows "spaced (min i m) (iv_calls iv)"
proof -
  have "iv_inv (min i m) (iv, t)"
    using assms(3)
  proof (induction rule: rtranclp_induct)
    case base
    show ?case by (rule makeInterval_inv) (use assms(1,2) in auto)
  qed (blast intro: iv_timely_inv)
  then show ?thesis by (simp add: iv_inv_def)
qed

theorem interval_calls_spaced_witness:
  "let i0 = makeInterruptibleAsyncInterval 0 10000 500 True;
       i1 = timer_fires 600 (wake 100 (fn_done 5 i0))
   in iv_calls i1 = [600, 0] \<and> spaced 500 (iv_calls i1)"
proof -
  let ?i0 = "makeInterruptibleAsyncInterval 0 10000 500 True"
  have i0: "?i0 = \<lparr>iv_interval = 10000, iv_minInterval = 500, iv_timer = None, iv_lastCallTime = 0,
      iv_cannotBeExpedited = False, iv_stopped = False, iv_calls = [0], iv_running = 1\<rparr>"
    by (simp add: makeInterruptibleAsyncInterval_def executeAndReschedule_def)
  have "iv_timely (?i0, 0) (fn_done 5 ?i0, 5)" by (rule ivt_done) (simp_all add: i0)
  moreover have "iv_timely (fn_done 5 ?i0, 5) (wake 100 (fn_done 5 ?i0), 100)"
    by (rule ivt_wake) (simp_all add: i0 fn_done_def reschedule_def)
  moreover have "iv_timely (wake 100 (fn_done 5 ?i0), 100) (timer_fires 600 (wake 100 (fn_done 5 ?i0)), 600)"
    by (rule ivt_fire [where due = 600]) (simp_all add: i0 fn_done_def reschedule_def wake_def)
  ultimately have "iv_timely\<^sup>*\<^sup>* (?i0, 0) (timer_fires 600 (wake 100 (fn_done 5 ?i0)), 600)"
    by (meson converse_rtranclp_into_rtranclp rtranclp.rtrancl_refl)
  from interval_calls_spaced [OF _ _ this] show ?thesis
    by (simp add: i0 fn_done_def reschedule_def wake_def timer_fires_def executeAndReschedule_def Let_def)
qed

text \<open>
  A wake after the next call was due calls the function at once but leaves the timer of the
  previous round pending.  With the driver's defaults (an interval of 10 s, a minimum of 500 ms),
  a check that took 5 ms and a wake at 10002 ms, the function is called again 3 ms later while the
  first call is still running.
\<close>

theorem overdue_wake_double_call:
  "\<exists>iv. iv_step\<^sup>*\<^sup>* (makeInterruptibleAsyncInterval 0 10000 500 True, 0) (iv, 10005)
     \<and> iv_calls iv = [10005, 10002, 0] \<and> iv_running iv = 2 \<and> \<not> spaced 500 (iv_calls iv)"
proof -
  let ?i0 = "makeInterruptibleAsyncInterval 0 10000 500 True"
  let ?i1 = "fn_done 5 ?i0" let ?i2 = "wake 10002 ?i1" let ?i3 = "timer_fires 10005 ?i2"
  have i0: "?i0 = \<lparr>iv_interval = 10000, iv_minInterval = 500, iv_timer = None, iv_lastCallTime = 0,
      iv_cannotBeExpedited = False, iv_stopped = False, iv_calls = [0], iv_running = 1\<rparr>"
    by (simp add: makeInterruptibleAsyncInterval_def executeAndReschedule_def)
  have "iv_step (?i0, 0) (?i1, 5)" by (rule iv_done) (simp_all add: i0)
  moreover have "iv_step (?i1, 5) (?i2, 10002)" by (rule iv_wake) simp
  moreover have "iv_step (?i2, 10002) (?i3, 10005)"
    by (rule iv_fire [where due = 10005])
      (simp_all add: i0 fn_done_def reschedule_def wake_def executeAndReschedule_def)
  ultimately have "iv_step\<^sup>*\<^sup>* (?i0, 0) (?i3, 10005)"
    by (meson converse_rtranclp_into_rtranclp rtranclp.rtrancl_refl)
  moreover have "iv_calls ?i3 = [10005, 10002, 0]" "iv_running ?i3 = 2"
    by (simp_all add: i0 fn_done_def reschedule_def wake_def executeAndReschedule_def timer_fires_def)
  ultimately show ?thesis by (intro exI [of _ ?i3]) simp
qed

section \<open>Monitors\<close>

text \<open>The states, their table and the tests on them.\<close>

datatype monitorState = MONITOR_CLOSING | MONITOR_CLOSED | STATE_IDLE | STATE_MONITORING

fun monitorTable :: "monitorState \<Rightarrow> monitorState list option" where
  "monitorTable MONITOR_CLOSING = Some [MONITOR_CLOSING, STATE_IDLE, MONITOR_CLOSED]"
| "monitorTable MONITOR_CLOSED = Some [MONITOR_CLOSED, STATE_MONITORING]"
| "monitorTable STATE_IDLE = Some [STATE_IDLE, STATE_MONITORING, MONITOR_CLOSING]"
| "monitorTable STATE_MONITORING = Some [STATE_MONITORING, STATE_IDLE, MONITOR_CLOSING]"

definition INVALID_REQUEST_CHECK_STATES :: "monitorState list" where
  "INVALID_REQUEST_CHECK_STATES = [MONITOR_CLOSING, MONITOR_CLOSED, STATE_MONITORING]"

record monitorOptions =
  mo_connectTimeoutMS :: int
  mo_heartbeatFrequencyMS :: int
  mo_minHeartbeatFrequencyMS :: int

record monitorConnection =
  mc_id :: nat
  mc_closed :: bool
  mc_serverApi :: bool
  mc_helloOk :: bool

text \<open>The round-trip-time pinger; \<open>rp_timer\<close> is the time of its next measurement.\<close>

record rttPinger =
  rp_connection :: "nat option"
  rp_roundTripTime :: int
  rp_closed :: bool
  rp_timer :: "int option"

definition RTTPinger_new :: "int \<Rightarrow> int \<Rightarrow> rttPinger" where
  "RTTPinger_new now heartbeatFrequencyMS =
     \<lparr>rp_connection = None, rp_roundTripTime = 0, rp_closed = False, rp_timer = Some (now + heartbeatFrequencyMS)\<rparr>"

definition rttPinger_close :: "rttPinger \<Rightarrow> rttPinger" where
  "rttPinger_close p = p\<lparr>rp_closed := True, rp_timer := None, rp_connection := None\<rparr>"

text \<open>What a due measurement does: nothing, connect, or send a hello on the connection it has.\<close>

datatype measurement = MeasureNothing | MeasureConnect | MeasureCommand nat

definition measureRoundTripTime :: "rttPinger \<Rightarrow> measurement" where
  "measureRoundTripTime p =
     (if rp_closed p then MeasureNothing
      else case rp_connection p of None \<Rightarrow> MeasureConnect | Some c \<Rightarrow> MeasureCommand c)"

definition measureAndReschedule :: "int \<Rightarrow> int \<Rightarrow> int \<Rightarrow> nat option \<Rightarrow> rttPinger \<Rightarrow> rttPinger" where
  "measureAndReschedule now start heartbeatFrequencyMS conn p =
     (if rp_closed p then p
      else p\<lparr>rp_connection := (if rp_connection p = None then conn else rp_connection p),
             rp_roundTripTime := calculateDurationInMs now start,
             rp_timer := Some (now + heartbeatFrequencyMS)\<rparr>)"

text \<open>The callback of either measurement: an error, or the new connection if one was made.\<close>

definition measured :: "int \<Rightarrow> int \<Rightarrow> int \<Rightarrow> mongoError + nat option \<Rightarrow> rttPinger \<Rightarrow> rttPinger" where
  "measured now start heartbeatFrequencyMS r p =
     (case r of
        Inl _ \<Rightarrow> p\<lparr>rp_connection := None, rp_roundTripTime := 0, rp_timer := None\<rparr>
      | Inr conn \<Rightarrow> measureAndReschedule now start heartbeatFrequencyMS conn p)"

text \<open>The hello command of a check: its name, what it awaits, and the options it is sent with.\<close>

record helloCommand =
  hc_hello :: bool
  hc_awaitable :: "(int \<times> topologyVersion) option"
  hc_socketTimeoutMS :: int
  hc_exhaustAllowed :: bool

text \<open>
  A check in flight: its start time, the interval whose callback it owes, and whether it is a
  hello command or a connection attempt.
\<close>

datatype checkKind = HelloCommand helloCommand | ConnectHello

record pendingCheck =
  pc_id :: nat
  pc_start :: int
  pc_owner :: nat
  pc_kind :: checkKind

text \<open>
  The monitor.  \<open>mon_interval\<close> is \<open>kMonitorId\<close>, with the number of the interval; \<open>mon_wakes\<close> counts
  the scheduled immediate wakes.
\<close>

record monitor =
  mon_state :: monitorState
  mon_options :: monitorOptions
  mon_interval :: "(nat \<times> interval) option"
  mon_connection :: "monitorConnection option"
  mon_rttPinger :: "rttPinger option"
  mon_checks :: "pendingCheck list"
  mon_wakes :: nat
  mon_counter :: nat

definition Monitor_new :: "int option \<Rightarrow> int option \<Rightarrow> int option \<Rightarrow> monitor" where
  "Monitor_new connectTimeoutMS heartbeatFrequencyMS minHeartbeatFrequencyMS =
     \<lparr>mon_state = MONITOR_CLOSED,
      mon_options = \<lparr>mo_connectTimeoutMS = the_default 10000 connectTimeoutMS,
        mo_heartbeatFrequencyMS = the_default 10000 heartbeatFrequencyMS,
        mo_minHeartbeatFrequencyMS = the_default 500 minHeartbeatFrequencyMS\<rparr>,
      mon_interval = None, mon_connection = None, mon_rttPinger = None, mon_checks = [],
      mon_wakes = 0, mon_counter = 0\<rparr>"

definition isInCloseState :: "monitor \<Rightarrow> bool" where
  "isInCloseState m = (mon_state m = MONITOR_CLOSED \<or> mon_state m = MONITOR_CLOSING)"

text \<open>
  What the monitor emits.  The listeners are the server's; they run at once and may act on the
  monitor, so an operation works on the pair of the listeners' world and the monitor, and a
  listener is a function on that pair.  \<open>me_description\<close> reads the server's description.
\<close>

datatype monitorEvent =
    HeartbeatStarted | HeartbeatSucceeded int hello | HeartbeatFailed int mongoError
  | ResetServer mongoError | ResetConnectionPool | MonitorClose

record 'w monitorEnv =
  me_description :: "'w \<Rightarrow> serverDescription"
  me_listen :: "int \<Rightarrow> monitorEvent \<Rightarrow> 'w \<times> monitor \<Rightarrow> mongoError + ('w \<times> monitor)"

fun emit_all :: "'w monitorEnv \<Rightarrow> int \<Rightarrow> monitorEvent list \<Rightarrow> 'w \<times> monitor \<Rightarrow> mongoError + ('w \<times> monitor)" where
  "emit_all env now [] st = Inr st"
| "emit_all env now (e # es) st = rbind (me_listen env now e st) (emit_all env now es)"

definition monitor_transition :: "monitorState \<Rightarrow> monitor \<Rightarrow> mongoError + monitor" where
  "monitor_transition newState m =
     rbind (makeStateMachine monitorTable (mon_state m) newState) (\<lambda>s. Inr (m\<lparr>mon_state := s\<rparr>))"

definition resetMonitorState :: "monitor \<Rightarrow> monitor" where
  "resetMonitorState m = m\<lparr>mon_interval := None, mon_rttPinger := None, mon_connection := None\<rparr>"

section \<open>Checks\<close>

definition makeTopologyVersion :: "topologyVersion \<Rightarrow> topologyVersion" where
  "makeTopologyVersion tv = tv\<lparr>tv_counter := (case tv_counter tv of
     LongCounter n \<Rightarrow> LongCounter n | NumCounter n \<Rightarrow> LongCounter (Long_fromNumber n))\<rparr>"

text \<open>The command a check sends on an open connection.\<close>

definition hello_command :: "monitorOptions \<Rightarrow> monitorConnection \<Rightarrow> topologyVersion option \<Rightarrow> helloCommand" where
  "hello_command options c tv =
     \<lparr>hc_hello = (mc_serverApi c \<or> mc_helloOk c),
      hc_awaitable = map_option (\<lambda>v. (mo_heartbeatFrequencyMS options, makeTopologyVersion v)) tv,
      hc_socketTimeoutMS =
        (case tv of
           Some _ \<Rightarrow> (if mo_connectTimeoutMS options \<noteq> 0
                      then mo_connectTimeoutMS options + mo_heartbeatFrequencyMS options else 0)
         | None \<Rightarrow> mo_connectTimeoutMS options),
      hc_exhaustAllowed = (tv \<noteq> None)\<rparr>"

definition checkServer :: "'w monitorEnv \<Rightarrow> int \<Rightarrow> nat \<Rightarrow> 'w \<times> monitor \<Rightarrow> mongoError + ('w \<times> monitor)" where
  "checkServer env now owner st =
     rbind (emit_all env now [HeartbeatStarted] st)
       (\<lambda>(w, m).
          let add = (\<lambda>k m. m\<lparr>mon_checks := mon_checks m @
                 [\<lparr>pc_id = mon_counter m, pc_start = now, pc_owner = owner, pc_kind = k\<rparr>],
                 mon_counter := Suc (mon_counter m)\<rparr>);
              tv = sd_topologyVersion (me_description env w)
          in case mon_connection m of
               Some c \<Rightarrow>
                 (if mc_closed c then Inr (w, add ConnectHello m)
                  else Inr (w, add (HelloCommand (hello_command (mon_options m) c tv))
                    (if tv \<noteq> None \<and> mon_rttPinger m = None
                     then m\<lparr>mon_rttPinger := Some (RTTPinger_new now (mo_heartbeatFrequencyMS (mon_options m)))\<rparr>
                     else m)))
             | None \<Rightarrow> Inr (w, add ConnectHello m))"

definition monitorServer :: "'w monitorEnv \<Rightarrow> int \<Rightarrow> nat \<Rightarrow> 'w \<times> monitor \<Rightarrow> mongoError + ('w \<times> monitor)" where
  "monitorServer env now owner st = (case st of (w, m) \<Rightarrow>
     rbind (monitor_transition STATE_MONITORING m) (\<lambda>m1. checkServer env now owner (w, m1)))"

text \<open>The callback of the interval a check belongs to; a replaced interval is stopped and does nothing.\<close>

definition interval_callback :: "int \<Rightarrow> nat \<Rightarrow> monitor \<Rightarrow> monitor" where
  "interval_callback now owner m =
     (case mon_interval m of
        Some (i, iv) \<Rightarrow> (if i = owner then m\<lparr>mon_interval := Some (i, fn_done now iv)\<rparr> else m)
      | None \<Rightarrow> m)"

definition monitor_done :: "int \<Rightarrow> nat \<Rightarrow> 'w \<times> monitor \<Rightarrow> mongoError + ('w \<times> monitor)" where
  "monitor_done now owner st = (case st of (w, m) \<Rightarrow>
     rbind (if \<not> isInCloseState m then monitor_transition STATE_IDLE m else Inr m)
       (\<lambda>m1. Inr (w, interval_callback now owner m1)))"

text \<open>The callback \<open>monitorServer\<close> gives to \<open>checkServer\<close>.\<close>

definition check_callback ::
    "'w monitorEnv \<Rightarrow> int \<Rightarrow> nat \<Rightarrow> mongoError + hello \<Rightarrow> 'w \<times> monitor \<Rightarrow> mongoError + ('w \<times> monitor)" where
  "check_callback env now owner r st =
     (case r of
        Inl err \<Rightarrow>
          (if sd_type (me_description env (fst st)) = ServerUnknown
           then rbind (emit_all env now [ResetServer err] st) (monitor_done now owner)
           else monitor_done now owner st)
      | Inr h \<Rightarrow>
          monitor_done now owner
            (if h_topologyVersion h \<noteq> None
             then (fst st, (snd st)\<lparr>mon_wakes := Suc (mon_wakes (snd st))\<rparr>) else st))"

definition failureHandler ::
    "'w monitorEnv \<Rightarrow> int \<Rightarrow> pendingCheck \<Rightarrow> mongoError \<Rightarrow> 'w \<times> monitor \<Rightarrow> mongoError + ('w \<times> monitor)" where
  "failureHandler env now pc err st = (case st of (w, m) \<Rightarrow>
     rbind (emit_all env now
              [HeartbeatFailed (calculateDurationInMs now (pc_start pc)) err, ResetServer err, ResetConnectionPool]
              (w, m\<lparr>mon_connection := None\<rparr>))
       (check_callback env now (pc_owner pc) (Inl err)))"

text \<open>
  The reply to a hello: the document, with its \<open>isWritablePrimary\<close> if it has one and the value of
  the legacy field.
\<close>

record helloReply =
  hr_hello :: hello
  hr_isWritablePrimary :: "bool option"
  hr_legacy :: bool

definition normalize_hello :: "helloReply \<Rightarrow> hello" where
  "normalize_hello r = (hr_hello r)\<lparr>h_isWritablePrimary :=
     (case hr_isWritablePrimary r of None \<Rightarrow> hr_legacy r | Some b \<Rightarrow> b)\<rparr>"

definition drop_check :: "pendingCheck \<Rightarrow> monitor \<Rightarrow> monitor" where
  "drop_check pc m = m\<lparr>mon_checks := filter (\<lambda>c. pc_id c \<noteq> pc_id pc) (mon_checks m)\<rparr>"

text \<open>
  The callback of \<open>connection.command\<close>.  A streaming reply leaves the check pending with a new
  start time, since the connection calls back for each further reply.
\<close>

definition hello_replied ::
    "'w monitorEnv \<Rightarrow> int \<Rightarrow> pendingCheck \<Rightarrow> helloCommand \<Rightarrow> mongoError + helloReply \<Rightarrow> 'w \<times> monitor
     \<Rightarrow> mongoError + ('w \<times> monitor)" where
  "hello_replied env now pc cmd r st = (case st of (w, m0) \<Rightarrow>
     (case r of
        Inl err \<Rightarrow> failureHandler env now pc err (w, drop_check pc m0)
      | Inr reply \<Rightarrow>
          let h = normalize_hello reply;
              isAwaitable = hc_exhaustAllowed cmd;
              duration = (case mon_rttPinger m0 of
                            Some p \<Rightarrow> (if isAwaitable then rp_roundTripTime p
                                       else calculateDurationInMs now (pc_start pc))
                          | None \<Rightarrow> calculateDurationInMs now (pc_start pc))
          in if isAwaitable \<and> h_topologyVersion h \<noteq> None
             then rbind (emit_all env now [HeartbeatSucceeded duration h, HeartbeatStarted] st)
                    (\<lambda>(w1, m1). Inr (w1, m1\<lparr>mon_checks :=
                        map (\<lambda>c. if pc_id c = pc_id pc then c\<lparr>pc_start := now\<rparr> else c) (mon_checks m1)\<rparr>))
             else rbind (emit_all env now [HeartbeatSucceeded duration h] (w, drop_check pc m0))
                    (\<lambda>(w1, m1). check_callback env now (pc_owner pc) (Inr h)
                                  (w1, m1\<lparr>mon_rttPinger := None\<rparr>))))"

text \<open>The callback of \<open>connect\<close>, which performs the first hello.\<close>

definition connected ::
    "'w monitorEnv \<Rightarrow> int \<Rightarrow> pendingCheck \<Rightarrow> mongoError + monitorConnection \<times> hello \<Rightarrow> 'w \<times> monitor
     \<Rightarrow> mongoError + ('w \<times> monitor)" where
  "connected env now pc r st0 = (case st0 of (w, m0) \<Rightarrow>
     (let m = drop_check pc m0 in
      case r of
        Inl err \<Rightarrow>
          rbind (emit_all env now (if \<not> instanceof err MongoNetworkError then [ResetConnectionPool] else [])
                   (w, m\<lparr>mon_connection := None\<rparr>))
            (failureHandler env now pc err)
      | Inr (c, h) \<Rightarrow>
          if isInCloseState m then Inr (w, m)
          else rbind (emit_all env now [HeartbeatSucceeded (calculateDurationInMs now (pc_start pc)) h]
                        (w, m\<lparr>mon_connection := Some c\<rparr>))
                 (check_callback env now (pc_owner pc) (Inr h))))"

section \<open>Operations\<close>

text \<open>\<open>connect\<close>: the first check runs before the new interval is stored.\<close>

definition monitor_connect :: "'w monitorEnv \<Rightarrow> int \<Rightarrow> 'w \<times> monitor \<Rightarrow> mongoError + ('w \<times> monitor)" where
  "monitor_connect env now st = (case st of (w, m) \<Rightarrow>
     if mon_state m \<noteq> MONITOR_CLOSED then Inr st
     else (let i = mon_counter m;
               iv = makeInterruptibleAsyncInterval now (mo_heartbeatFrequencyMS (mon_options m))
                      (mo_minHeartbeatFrequencyMS (mon_options m)) True
           in rbind (monitorServer env now i (w, m\<lparr>mon_counter := Suc i\<rparr>))
                (\<lambda>(w1, m1). Inr (w1, m1\<lparr>mon_interval := Some (i, iv)\<rparr>))))"

text \<open>Waking or firing the current interval, and running the check when it calls its function.\<close>

definition with_interval ::
    "(interval \<Rightarrow> interval) \<Rightarrow> 'w monitorEnv \<Rightarrow> int \<Rightarrow> 'w \<times> monitor \<Rightarrow> mongoError + ('w \<times> monitor)" where
  "with_interval f env now st = (case st of (w, m) \<Rightarrow>
     (case mon_interval m of
        None \<Rightarrow> Inr st
      | Some (i, iv) \<Rightarrow>
          (let iv1 = f iv; st1 = (w, m\<lparr>mon_interval := Some (i, iv1)\<rparr>)
           in if length (iv_calls iv1) > length (iv_calls iv) then monitorServer env now i st1 else Inr st1)))"

definition monitor_requestCheck :: "'w monitorEnv \<Rightarrow> int \<Rightarrow> 'w \<times> monitor \<Rightarrow> mongoError + ('w \<times> monitor)" where
  "monitor_requestCheck env now st =
     (if mon_state (snd st) \<in> set INVALID_REQUEST_CHECK_STATES then Inr st
      else with_interval (wake now) env now st)"

text \<open>The scheduled wake after a reply that supports streaming.\<close>

definition streaming_wake :: "'w monitorEnv \<Rightarrow> int \<Rightarrow> 'w \<times> monitor \<Rightarrow> mongoError + ('w \<times> monitor)" where
  "streaming_wake env now st = (case st of (w, m0) \<Rightarrow>
     (let m = m0\<lparr>mon_wakes := mon_wakes m0 - 1\<rparr> in
      if isInCloseState m then Inr (w, m) else with_interval (wake now) env now (w, m)))"

definition monitor_reset :: "int \<Rightarrow> topologyVersion option \<Rightarrow> monitor \<Rightarrow> mongoError + monitor" where
  "monitor_reset now topologyVersion m =
     (if isInCloseState m \<or> topologyVersion = None then Inr m
      else rbind (monitor_transition MONITOR_CLOSING m)
        (\<lambda>m1. rbind (monitor_transition STATE_IDLE (resetMonitorState m1))
          (\<lambda>m2. Inr (m2\<lparr>mon_interval := Some (mon_counter m2,
              makeInterruptibleAsyncInterval now (mo_heartbeatFrequencyMS (mon_options m2))
                (mo_minHeartbeatFrequencyMS (mon_options m2)) False),
              mon_counter := Suc (mon_counter m2)\<rparr>))))"

definition monitor_close :: "'w monitorEnv \<Rightarrow> int \<Rightarrow> 'w \<times> monitor \<Rightarrow> mongoError + ('w \<times> monitor)" where
  "monitor_close env now st = (case st of (w, m) \<Rightarrow>
     if isInCloseState m then Inr st
     else rbind (monitor_transition MONITOR_CLOSING m)
       (\<lambda>m1. rbind (emit_all env now [MonitorClose] (w, resetMonitorState m1))
         (\<lambda>(w1, m2). rbind (monitor_transition MONITOR_CLOSED m2) (\<lambda>m3. Inr (w1, m3)))))"

section \<open>The monitor as a transition system\<close>

text \<open>
  The invariant between operations: the monitor is never seen closing, and a closed monitor has
  no interval and no connection.
\<close>

definition mon_ok :: "monitor \<Rightarrow> bool" where
  "mon_ok m = (mon_state m \<noteq> MONITOR_CLOSING
     \<and> (mon_state m = MONITOR_CLOSED \<longrightarrow> mon_interval m = None \<and> mon_connection m = None))"

definition mon_result :: "mongoError + ('w \<times> monitor) \<Rightarrow> bool" where
  "mon_result r = (case r of Inl _ \<Rightarrow> False | Inr (w, m) \<Rightarrow> mon_ok m)"

lemma mon_result_Inr [simp]: "mon_result (Inr (w, m)) = mon_ok m"
  by (simp add: mon_result_def)

lemma mon_result_bind [intro]:
  "mon_result r \<Longrightarrow> (\<And>w m. mon_ok m \<Longrightarrow> mon_result (f (w, m))) \<Longrightarrow> mon_result (rbind r f)"
  by (cases r) (auto simp: mon_result_def)

lemma monitor_transition_legal:
  "newState \<in> set (the (monitorTable (mon_state m))) \<Longrightarrow>
     monitor_transition newState m = Inr (m\<lparr>mon_state := newState\<rparr>)"
  by (cases "mon_state m") (auto simp: monitor_transition_def makeStateMachine_def)

lemma mon_ok_reset:
  "mon_ok m \<Longrightarrow> \<exists>m'. monitor_reset now tv m = Inr m' \<and> mon_ok m'"
  by (cases "mon_state m")
    (auto simp: monitor_reset_def isInCloseState_def resetMonitorState_def mon_ok_def monitor_transition_legal)

text \<open>
  What the monitor expects of its listeners: they do not throw and keep the invariant, and they
  leave the monitor alone when a check starts and when it closes.
\<close>

locale monitor_listener =
  fixes env :: "'w monitorEnv"
  assumes listens: "mon_ok m \<Longrightarrow> mon_result (me_listen env now e (w, m))"
    and leaves_alone: "e = HeartbeatStarted \<or> e = MonitorClose \<Longrightarrow> \<exists>w'. me_listen env now e (w, m) = Inr (w', m)"
begin

lemma emits: "mon_ok m \<Longrightarrow> mon_result (emit_all env now es (w, m))"
  by (induction es arbitrary: w m) (auto intro!: mon_result_bind listens)

lemma done_ok: "mon_ok m \<Longrightarrow> mon_result (monitor_done now owner (w, m))"
  by (cases "mon_state m")
    (auto simp: monitor_done_def isInCloseState_def monitor_transition_legal interval_callback_def mon_ok_def
      split: option.splits)

lemma callback_ok: "mon_ok m \<Longrightarrow> mon_result (check_callback env now owner r (w, m))"
proof (cases r)
  case (Inl err)
  assume ok: "mon_ok m"
  have "mon_result (rbind (emit_all env now [ResetServer err] (w, m)) (monitor_done now owner))"
    by (intro mon_result_bind emits done_ok ok)
  with Inl ok show ?thesis by (simp add: check_callback_def done_ok del: emit_all.simps)
next
  case (Inr h)
  assume "mon_ok m"
  with Inr show ?thesis by (simp add: check_callback_def done_ok mon_ok_def)
qed

lemma failure_ok: "mon_ok m \<Longrightarrow> mon_result (failureHandler env now pc err (w, m))"
  unfolding failureHandler_def prod.case
  by (intro mon_result_bind emits callback_ok) (auto simp: mon_ok_def)

lemma monitorServer_ok:
  assumes "mon_ok m"
  shows "\<exists>w' m'. monitorServer env now owner (w, m) = Inr (w', m')
    \<and> mon_state m' = STATE_MONITORING \<and> mon_ok m'"
proof -
  have tr: "monitor_transition STATE_MONITORING m = Inr (m\<lparr>mon_state := STATE_MONITORING\<rparr>)"
    using assms by (cases "mon_state m") (auto simp: monitor_transition_legal mon_ok_def)
  obtain w1 where w1: "me_listen env now HeartbeatStarted (w, m\<lparr>mon_state := STATE_MONITORING\<rparr>)
      = Inr (w1, m\<lparr>mon_state := STATE_MONITORING\<rparr>)" using leaves_alone by blast
  show ?thesis
    by (cases "mon_connection m") (auto simp: monitorServer_def tr checkServer_def w1 Let_def mon_ok_def)
qed

lemma with_interval_ok: "mon_ok m \<Longrightarrow> mon_result (with_interval f env now (w, m))"
proof (cases "mon_interval m")
  case (Some e)
  obtain i iv where e: "e = (i, iv)" by fastforce
  assume ok: "mon_ok m"
  with Some have ok1: "mon_ok (m\<lparr>mon_interval := Some (i, f iv)\<rparr>)" by (simp add: mon_ok_def)
  with monitorServer_ok [OF ok1, of now i w] Some e show ?thesis
    by (auto simp: with_interval_def Let_def)
qed (simp add: with_interval_def)

lemma connect_ok: "mon_ok m \<Longrightarrow> mon_result (monitor_connect env now (w, m))"
proof (cases "mon_state m = MONITOR_CLOSED")
  case True
  assume "mon_ok m"
  then have "mon_ok (m\<lparr>mon_counter := Suc (mon_counter m)\<rparr>)" by (simp add: mon_ok_def)
  from monitorServer_ok [OF this, of now "mon_counter m" w] True show ?thesis
    by (auto simp: monitor_connect_def Let_def mon_ok_def)
qed (simp add: monitor_connect_def)

lemma requestCheck_ok: "mon_ok m \<Longrightarrow> mon_result (monitor_requestCheck env now (w, m))"
  by (simp add: monitor_requestCheck_def with_interval_ok)

lemma streaming_wake_ok: "mon_ok m \<Longrightarrow> mon_result (streaming_wake env now (w, m))"
  unfolding streaming_wake_def by (auto simp: Let_def mon_ok_def isInCloseState_def intro!: with_interval_ok)

lemma hello_replied_ok: "mon_ok m \<Longrightarrow> mon_result (hello_replied env now pc aw r (w, m))"
proof (cases r)
  case (Inl err)
  assume "mon_ok m"
  then have "mon_ok (drop_check pc m)" by (simp add: mon_ok_def drop_check_def)
  with Inl show ?thesis by (simp add: hello_replied_def failure_ok)
next
  case (Inr reply)
  assume ok: "mon_ok m"
  then have "mon_ok (drop_check pc m)" by (simp add: mon_ok_def drop_check_def)
  with Inr ok show ?thesis
    by (auto simp: hello_replied_def Let_def simp del: emit_all.simps intro!: mon_result_bind emits callback_ok)
      (auto simp: mon_ok_def)
qed

lemma connected_ok: "mon_ok m \<Longrightarrow> mon_result (connected env now pc r (w, m))"
proof -
  assume "mon_ok m"
  then have ok: "mon_ok (drop_check pc m)" by (simp add: mon_ok_def drop_check_def)
  show ?thesis
  proof (cases r)
    case (Inl err)
    have "mon_result (rbind (emit_all env now es (w, (drop_check pc m)\<lparr>mon_connection := None\<rparr>))
        (failureHandler env now pc err))" for es
      by (intro mon_result_bind emits failure_ok) (use ok in \<open>auto simp: mon_ok_def\<close>)
    with Inl show ?thesis by (simp add: connected_def Let_def)
  next
    case (Inr ch)
    obtain c h where ch: "ch = (c, h)" by fastforce
    have "mon_result (rbind (emit_all env now es (w, (drop_check pc m)\<lparr>mon_connection := Some c\<rparr>))
        (check_callback env now owner (Inr h)))" if "\<not> isInCloseState (drop_check pc m)" for es owner
      by (intro mon_result_bind emits callback_ok) (use ok that in \<open>auto simp: mon_ok_def isInCloseState_def\<close>)
    with Inr ch ok show ?thesis by (auto simp: connected_def Let_def simp del: emit_all.simps)
  qed
qed

lemma close_ok:
  assumes "mon_ok m"
  shows "\<exists>w' m'. monitor_close env now (w, m) = Inr (w', m') \<and> mon_ok m' \<and> mon_state m' = MONITOR_CLOSED"
proof (cases "isInCloseState m")
  case False
  then have tr: "monitor_transition MONITOR_CLOSING m = Inr (m\<lparr>mon_state := MONITOR_CLOSING\<rparr>)"
    by (cases "mon_state m") (auto simp: monitor_transition_legal isInCloseState_def)
  obtain w1 where "me_listen env now MonitorClose (w, resetMonitorState (m\<lparr>mon_state := MONITOR_CLOSING\<rparr>))
      = Inr (w1, resetMonitorState (m\<lparr>mon_state := MONITOR_CLOSING\<rparr>))" using leaves_alone by blast
  with False tr show ?thesis
    by (auto simp: monitor_close_def monitor_transition_legal resetMonitorState_def mon_ok_def)
qed (use assms in \<open>auto simp: monitor_close_def isInCloseState_def mon_ok_def\<close>)

end

text \<open>
  A run of a monitor: the operations of its server, the firing of its timer, the callbacks of
  its pending checks and the scheduled wakes, each at some time; a throw stops the run.
\<close>

datatype monitorInput =
    MonConnect | MonRequestCheck | MonClose | MonReset | MonFire | MonWake
  | MonHello pendingCheck helloCommand "mongoError + helloReply"
  | MonConnected pendingCheck "mongoError + monitorConnection \<times> hello"

fun mon_input :: "'w monitorEnv \<Rightarrow> int \<Rightarrow> monitorInput \<Rightarrow> 'w \<times> monitor \<Rightarrow> mongoError + ('w \<times> monitor)" where
  "mon_input env now MonConnect st = monitor_connect env now st"
| "mon_input env now MonRequestCheck st = monitor_requestCheck env now st"
| "mon_input env now MonClose st = monitor_close env now st"
| "mon_input env now MonReset st =
     rbind (monitor_reset now (sd_topologyVersion (me_description env (fst st))) (snd st)) (\<lambda>m. Inr (fst st, m))"
| "mon_input env now MonFire st = with_interval (timer_fires now) env now st"
| "mon_input env now MonWake st = streaming_wake env now st"
| "mon_input env now (MonHello pc cmd r) st = hello_replied env now pc cmd r st"
| "mon_input env now (MonConnected pc r) st = connected env now pc r st"

fun mon_run :: "'w monitorEnv \<Rightarrow> (int \<times> monitorInput) list \<Rightarrow> 'w \<times> monitor \<Rightarrow> mongoError + ('w \<times> monitor)" where
  "mon_run env [] st = Inr st"
| "mon_run env ((now, i) # is) st = rbind (mon_input env now i st) (mon_run env is)"

context monitor_listener
begin

lemma input_ok: "mon_ok m \<Longrightarrow> mon_result (mon_input env now i (w, m))"
proof (cases i)
  case MonClose
  assume "mon_ok m"
  with close_ok [of m now w] MonClose show ?thesis by auto
next
  case MonReset
  assume "mon_ok m"
  with mon_ok_reset [of m now "sd_topologyVersion (me_description env w)"] MonReset show ?thesis by auto
qed (simp_all add: connect_ok requestCheck_ok with_interval_ok streaming_wake_ok hello_replied_ok connected_ok)

lemma run_ok: "mon_ok m \<Longrightarrow> mon_result (mon_run env is (w, m))"
proof (induction "is" arbitrary: w m)
  case (Cons x xs)
  obtain now i where x: "x = (now, i)" by fastforce
  show ?case unfolding x mon_run.simps
    by (intro mon_result_bind input_ok Cons.prems Cons.IH)
qed simp

end

end
