(* ===== verification/Server.thy ===== *)
theory Server
  imports Monitor Sessions Connection_Pool
begin

text \<open>
  \<open>src/sdam/server.ts\<close>: one server of the topology, with its connection pool and its monitor, and
  the handling of operation results (error labels, clearing the pool, marking the server unknown).
  The description a server emits goes to the topology, which may store it as the server's own:
  that decision is the parameter \<open>se_accepts\<close>, which may depend on all descriptions emitted so far.
  In load-balanced mode no operation touches the monitor.  Relayed events and logging are left out.
\<close>

section \<open>State\<close>

datatype sdamState = STATE_CLOSING | STATE_CLOSED | STATE_CONNECTING | STATE_CONNECTED

fun sdamTable :: "sdamState \<Rightarrow> sdamState list option" where
  "sdamTable STATE_CLOSED = Some [STATE_CLOSED, STATE_CONNECTING]"
| "sdamTable STATE_CONNECTING = Some [STATE_CONNECTING, STATE_CLOSING, STATE_CONNECTED, STATE_CLOSED]"
| "sdamTable STATE_CONNECTED = Some [STATE_CONNECTED, STATE_CLOSING, STATE_CLOSED]"
| "sdamTable STATE_CLOSING = Some [STATE_CLOSING, STATE_CLOSED]"

text \<open>
  \<open>sv_emitted\<close> lists the descriptions sent to the topology and \<open>sv_checks\<close> counts the scheduled
  \<open>requestCheck\<close> calls.
\<close>

record server =
  sv_address :: string
  sv_state :: sdamState
  sv_description :: serverDescription
  sv_pool :: pool
  sv_emitted :: "serverDescription list"
  sv_checks :: nat

record serverEnv =
  se_loadBalanced :: bool
  se_retryWrites :: "bool option"
  se_accepts :: "serverDescription list \<Rightarrow> serverDescription \<Rightarrow> bool"

type_synonym serverState = "server \<times> monitor"

definition Server_new :: "poolOptions \<Rightarrow> int option \<Rightarrow> int option \<Rightarrow> int option \<Rightarrow> serverDescription
    \<Rightarrow> mongoError + serverState" where
  "Server_new options connectTimeoutMS heartbeatFrequencyMS minHeartbeatFrequencyMS description =
     rbind (ConnectionPool_new options)
       (\<lambda>p. Inr (\<lparr>sv_address = sd_address description, sv_state = STATE_CLOSED,
                  sv_description = description, sv_pool = p, sv_emitted = [], sv_checks = 0\<rparr>,
                 Monitor_new connectTimeoutMS heartbeatFrequencyMS minHeartbeatFrequencyMS))"

definition server_transition :: "sdamState \<Rightarrow> server \<Rightarrow> mongoError + server" where
  "server_transition newState s =
     rbind (makeStateMachine sdamTable (sv_state s) newState) (\<lambda>t. Inr (s\<lparr>sv_state := t\<rparr>))"

definition emit_description :: "serverEnv \<Rightarrow> serverDescription \<Rightarrow> server \<Rightarrow> server" where
  "emit_description senv sd s =
     (if se_accepts senv (sv_emitted s) sd then s\<lparr>sv_description := sd\<rparr> else s)
     \<lparr>sv_emitted := sv_emitted s @ [sd]\<rparr>"

definition calculateRoundTripTime :: "rat \<Rightarrow> rat \<Rightarrow> rat" where
  "calculateRoundTripTime oldRtt duration =
     (if oldRtt = -1 then duration
      else let alpha = 2 / 10 in alpha * duration + (1 - alpha) * oldRtt)"

definition unknown_options :: "mongoError option \<Rightarrow> server \<Rightarrow> sdOptions" where
  "unknown_options err s = \<lparr>so_error = err, so_roundTripTime = None,
     so_topologyVersion = coalesce (Option.bind err e_topologyVersion) (sd_topologyVersion (sv_description s)),
     so_loadBalanced = False\<rparr>"

definition markServerUnknown :: "serverEnv \<Rightarrow> int \<Rightarrow> mongoError option \<Rightarrow> serverState \<Rightarrow> mongoError + serverState" where
  "markServerUnknown senv now err st = (case st of (s, m) \<Rightarrow>
     if se_loadBalanced senv then Inr st
     else rbind (if (case err of Some e \<Rightarrow> instanceof e MongoNetworkError \<and> \<not> instanceof e MongoNetworkTimeoutError
                     | None \<Rightarrow> False)
                 then monitor_reset now (sd_topologyVersion (sv_description s)) m else Inr m)
            (\<lambda>m1. Inr (emit_description senv
                (ServerDescription_of now (sv_address s) None (unknown_options err s)) s, m1)))"

text \<open>The listeners the constructor installs on the monitor.\<close>

definition on_heartbeat :: "serverEnv \<Rightarrow> int \<Rightarrow> int \<Rightarrow> hello \<Rightarrow> server \<Rightarrow> mongoError + server" where
  "on_heartbeat senv now duration reply s =
     (let s1 = emit_description senv (ServerDescription_of now (sv_address s) (Some reply)
             (no_sdOptions\<lparr>so_roundTripTime :=
                Some (calculateRoundTripTime (sd_roundTripTime (sv_description s)) (of_int duration))\<rparr>)) s
      in if sv_state s1 = STATE_CONNECTING then server_transition STATE_CONNECTED s1 else Inr s1)"

definition monitor_listen :: "serverEnv \<Rightarrow> int \<Rightarrow> monitorEvent \<Rightarrow> serverState \<Rightarrow> mongoError + serverState" where
  "monitor_listen senv now e st = (case st of (s, m) \<Rightarrow>
     (case e of
        ResetConnectionPool \<Rightarrow> rbind (clear None (sv_pool s)) (\<lambda>p. Inr (s\<lparr>sv_pool := p\<rparr>, m))
      | ResetServer err \<Rightarrow> markServerUnknown senv now (Some err) st
      | HeartbeatSucceeded duration reply \<Rightarrow>
          rbind (on_heartbeat senv now duration reply s) (\<lambda>s1. Inr (s1, m))
      | _ \<Rightarrow> Inr st))"

definition server_monitorEnv :: "serverEnv \<Rightarrow> server monitorEnv" where
  "server_monitorEnv senv = \<lparr>me_description = sv_description, me_listen = monitor_listen senv\<rparr>"

section \<open>Operations\<close>

definition Server_connect :: "serverEnv \<Rightarrow> int \<Rightarrow> serverState \<Rightarrow> mongoError + serverState" where
  "Server_connect senv now st = (case st of (s, m) \<Rightarrow>
     if sv_state s \<noteq> STATE_CLOSED then Inr st
     else rbind (server_transition STATE_CONNECTING s)
       (\<lambda>s1. if \<not> se_loadBalanced senv then monitor_connect (server_monitorEnv senv) now (s1, m)
             else rbind (server_transition STATE_CONNECTED s1) (\<lambda>s2. Inr (s2, m))))"

text \<open>\<open>destroy\<close> up to the point where it waits for the pool, and its last callback.\<close>

definition Server_destroy :: "serverEnv \<Rightarrow> int \<Rightarrow> serverState \<Rightarrow> mongoError + serverState" where
  "Server_destroy senv now st = (case st of (s, m) \<Rightarrow>
     if sv_state s = STATE_CLOSED then Inr st
     else rbind (server_transition STATE_CLOSING s)
       (\<lambda>s1. rbind (if \<not> se_loadBalanced senv then monitor_close (server_monitorEnv senv) now (s1, m)
                    else Inr (s1, m))
         (\<lambda>(s2, m2). Inr (s2\<lparr>sv_pool := close_pool (sv_pool s2)\<rparr>, m2))))"

definition destroy_done :: "serverState \<Rightarrow> mongoError + serverState" where
  "destroy_done st = (case st of (s, m) \<Rightarrow>
     rbind (server_transition STATE_CLOSED (s\<lparr>sv_pool := close_done (sv_pool s)\<rparr>)) (\<lambda>s1. Inr (s1, m)))"

definition Server_requestCheck :: "serverEnv \<Rightarrow> int \<Rightarrow> serverState \<Rightarrow> mongoError + serverState" where
  "Server_requestCheck senv now st =
     (if \<not> se_loadBalanced senv then monitor_requestCheck (server_monitorEnv senv) now st else Inr st)"

definition server_maxWireVersion :: "serverEnv \<Rightarrow> server \<Rightarrow> int" where
  "server_maxWireVersion senv s =
     (if se_loadBalanced senv then MAX_SUPPORTED_WIRE_VERSION else sd_maxWireVersion (sv_description s))"

definition collationNotSupported :: "serverEnv \<Rightarrow> server \<Rightarrow> bool \<Rightarrow> bool" where
  "collationNotSupported senv s hasCollation = (hasCollation \<and> server_maxWireVersion senv s < 5)"

definition isPinnableCommand :: "command \<Rightarrow> clientSession option \<Rightarrow> bool" where
  "isPinnableCommand cmd session =
     (case session of
        Some cs \<Rightarrow> inTransaction cs
          \<or> cmd_name cmd \<in> {''aggregate'', ''find'', ''getMore'', ''listCollections'', ''listIndexes''}
      | None \<Rightarrow> False)"

text \<open>
  How \<open>command\<close> begins: it fails at once, first checks out a connection to pin, or runs on the
  given connection or one of the pool.
\<close>

datatype commandStart = CommandFailed mongoError | PinFirst | WithConnection "connection option"

definition server_closed_error :: mongoError where
  "server_closed_error = mk_error MongoServerClosedError ''Server is closed''"

definition Server_command :: "serverEnv \<Rightarrow> command \<Rightarrow> bool \<Rightarrow> clientSession option \<Rightarrow> server \<Rightarrow> commandStart" where
  "Server_command senv cmd hasCollation session s =
     (if sv_state s = STATE_CLOSING \<or> sv_state s = STATE_CLOSED then CommandFailed server_closed_error
      else if collationNotSupported senv s hasCollation
      then CommandFailed (mk_error MongoCompatibilityError ''Server does not support collation'')
      else (let pinned = Option.bind session cs_pinnedConnection
            in if se_loadBalanced senv \<and> session \<noteq> None \<and> pinned = None \<and> isPinnableCommand cmd session
               then PinFirst else WithConnection pinned))"

text \<open>\<open>query\<close>, \<open>getMore\<close> and \<open>killCursors\<close>: a query never uses the pinned connection.\<close>

definition Server_query :: "server \<Rightarrow> commandStart" where
  "Server_query s =
     (if sv_state s = STATE_CLOSING \<or> sv_state s = STATE_CLOSED then CommandFailed server_closed_error
      else WithConnection None)"

definition Server_getMore :: "clientSession option \<Rightarrow> server \<Rightarrow> commandStart" where
  "Server_getMore session s =
     (if sv_state s = STATE_CLOSING \<or> sv_state s = STATE_CLOSED then CommandFailed server_closed_error
      else WithConnection (Option.bind session cs_pinnedConnection))"

definition Server_killCursors :: "clientSession option \<Rightarrow> server \<Rightarrow> commandStart" where
  "Server_killCursors session s =
     (if sv_state s = STATE_CLOSING \<or> sv_state s = STATE_CLOSED then CommandFailed server_closed_error
      else WithConnection (Option.bind session cs_pinnedConnection))"

text \<open>The callback of \<open>withConnection\<close> when no connection could be checked out.\<close>

definition checkout_failed :: "serverEnv \<Rightarrow> int \<Rightarrow> mongoError option \<Rightarrow> serverState \<Rightarrow> mongoError + serverState" where
  "checkout_failed senv now err st = markServerUnknown senv now err st"

section \<open>Results of operations\<close>

definition server_connectionIsStale :: "pool \<Rightarrow> conn \<Rightarrow> bool" where
  "server_connectionIsStale p c =
     (case cn_serviceId c of
        Some sid \<Rightarrow> Some (cn_generation c) \<noteq> map_get (p_serviceGenerations p) sid
      | None \<Rightarrow> cn_generation c \<noteq> p_generation p)"

definition shouldHandleStateChangeError :: "server \<Rightarrow> mongoError \<Rightarrow> bool" where
  "shouldHandleStateChangeError s err =
     (compareTopologyVersion (sd_topologyVersion (sv_description s)) (e_topologyVersion err) < 0)"

definition inActiveTransaction :: "sessionState option \<Rightarrow> command \<Rightarrow> bool" where
  "inActiveTransaction session cmd =
     (case session of Some st \<Rightarrow> inTransaction (fst st) \<and> \<not> isTransactionCommand cmd | None \<Rightarrow> False)"

definition isRetryableWritesEnabled :: "serverEnv \<Rightarrow> bool" where
  "isRetryableWritesEnabled senv = (se_retryWrites senv \<noteq> Some False)"

definition supportsRetryableWrites :: "serverEnv \<Rightarrow> server \<Rightarrow> bool" where
  "supportsRetryableWrites senv s =
     (se_loadBalanced senv
      \<or> (sd_maxWireVersion (sv_description s) \<ge> 6
         \<and> truthy_num (sd_logicalSessionTimeoutMinutes (sv_description s))
         \<and> sd_type (sv_description s) \<noteq> Standalone))"

text \<open>\<open>session.serverSession.isDirty = true\<close>, through the getter, for a session that has not ended.\<close>

definition mark_dirty :: "sessionState \<Rightarrow> sessionState" where
  "mark_dirty st =
     (if cs_hasEnded (fst st) then st
      else (case serverSession_get st of
              (Some ss, (cs, w)) \<Rightarrow> (cs\<lparr>cs_serverSession := Some (ss\<lparr>ss_isDirty := True\<rparr>)\<rparr>, w)
            | (None, st') \<Rightarrow> st'))"

definition clear_server_pool :: "objectId option \<Rightarrow> serverState \<Rightarrow> mongoError + serverState" where
  "clear_server_pool serviceId st = (case st of (s, m) \<Rightarrow>
     rbind (clear serviceId (sv_pool s)) (\<lambda>p. Inr (s\<lparr>sv_pool := p\<rparr>, m)))"

definition label_network_error :: "serverEnv \<Rightarrow> command \<Rightarrow> sessionState option \<Rightarrow> server \<Rightarrow> mongoError \<Rightarrow> mongoError" where
  "label_network_error senv cmd session s err =
     (let err1 = (if inActiveTransaction session cmd \<and> \<not> hasErrorLabel err ''TransientTransactionError''
                  then addErrorLabel err ''TransientTransactionError'' else err)
      in if (isRetryableWritesEnabled senv \<or> isTransactionCommand cmd) \<and> supportsRetryableWrites senv s
            \<and> \<not> inActiveTransaction session cmd
         then addErrorLabel err1 ''RetryableWriteError'' else err1)"

definition handle_network_error ::
    "serverEnv \<Rightarrow> int \<Rightarrow> conn \<Rightarrow> mongoError \<Rightarrow> serverState \<Rightarrow> mongoError + serverState" where
  "handle_network_error senv now c err st =
     (if \<not> instanceof err MongoNetworkTimeoutError \<or> isNetworkErrorBeforeHandshake err
      then rbind (clear_server_pool (cn_serviceId c) st)
             (\<lambda>st1. if \<not> se_loadBalanced senv then markServerUnknown senv now (Some err) st1 else Inr st1)
      else Inr st)"

definition label_other_error :: "serverEnv \<Rightarrow> command \<Rightarrow> sessionState option \<Rightarrow> server \<Rightarrow> mongoError \<Rightarrow> mongoError" where
  "label_other_error senv cmd session s err =
     (if (isRetryableWritesEnabled senv \<or> isTransactionCommand cmd) \<and> server_maxWireVersion senv s < 9
         \<and> isRetryableWriteError err \<and> \<not> inActiveTransaction session cmd
      then addErrorLabel err ''RetryableWriteError'' else err)"

definition handle_other_error ::
    "serverEnv \<Rightarrow> int \<Rightarrow> conn \<Rightarrow> mongoError \<Rightarrow> serverState \<Rightarrow> mongoError + serverState" where
  "handle_other_error senv now c err st =
     (if isSDAMUnrecoverableError (Some err) \<and> shouldHandleStateChangeError (fst st) err then
        rbind (if server_maxWireVersion senv (fst st) \<le> 7 \<or> isNodeShuttingDownError err
               then clear_server_pool (cn_serviceId c) st else Inr st)
          (\<lambda>st1. if \<not> se_loadBalanced senv
                 then rbind (markServerUnknown senv now (Some err) st1)
                        (\<lambda>(s2, m2). Inr (s2\<lparr>sv_checks := Suc (sv_checks s2)\<rparr>, m2))
                 else Inr st1)
      else Inr st)"

text \<open>
  \<open>handleOperationResult\<close>: the error passed on, the server and the session; \<^term>\<open>Inl\<close> when clearing
  the pool throws.
\<close>

type_synonym handled = "mongoError option \<times> serverState \<times> sessionState option"

definition unpin_on_transient :: "mongoError \<Rightarrow> sessionState option \<Rightarrow> sessionState option" where
  "unpin_on_transient err session =
     map_option (\<lambda>st. if session_isPinned st \<and> hasErrorLabel err ''TransientTransactionError''
        then unpin (no_endOptions\<lparr>eo_force := True\<rparr>) st else st) session"

definition handleOperationResult ::
    "serverEnv \<Rightarrow> int \<Rightarrow> command \<Rightarrow> conn \<Rightarrow> mongoError option \<Rightarrow> serverState \<Rightarrow> sessionState option
     \<Rightarrow> mongoError + handled" where
  "handleOperationResult senv now cmd c result st session =
     (case result of
        None \<Rightarrow> Inr (None, st, session)
      | Some err \<Rightarrow>
          if server_connectionIsStale (sv_pool (fst st)) c then Inr (Some err, st, session)
          else if instanceof err MongoNetworkError then
            (let session1 = map_option mark_dirty session;
                 err1 = label_network_error senv cmd session1 (fst st) err
             in rbind (handle_network_error senv now c err1 st)
                  (\<lambda>st1. Inr (Some err1, st1, unpin_on_transient err1 session1)))
          else
            (let err1 = label_other_error senv cmd session (fst st) err
             in rbind (handle_other_error senv now c err1 st)
                  (\<lambda>st1. Inr (Some err1, st1, unpin_on_transient err1 session))))"

section \<open>The monitor's listeners\<close>

lemma server_transition_legal:
  "newState \<in> set (the (sdamTable (sv_state s))) \<Longrightarrow> server_transition newState s = Inr (s\<lparr>sv_state := newState\<rparr>)"
  by (cases "sv_state s") (auto simp: server_transition_def makeStateMachine_def)

lemma emit_description_keeps [simp, keeps]:
  "sv_state (emit_description senv sd s) = sv_state s"
  "sv_pool (emit_description senv sd s) = sv_pool s"
  "sv_address (emit_description senv sd s) = sv_address s"
  "sv_emitted (emit_description senv sd s) = sv_emitted s @ [sd]"
  by (simp_all add: emit_description_def)

lemma on_heartbeat_Inr: "\<exists>s1. on_heartbeat senv now d h s = Inr s1"
  by (auto simp: on_heartbeat_def Let_def server_transition_legal)

lemma markServerUnknown_ok:
  assumes "mon_ok m"
  shows "\<exists>s1 m1. markServerUnknown senv now err (s, m) = Inr (s1, m1) \<and> mon_ok m1
    \<and> sv_pool s1 = sv_pool s \<and> sv_state s1 = sv_state s"
proof -
  obtain m1 where "monitor_reset now (sd_topologyVersion (sv_description s)) m = Inr m1" "mon_ok m1"
    using mon_ok_reset [OF assms] by blast
  with assms show ?thesis by (auto simp: markServerUnknown_def)
qed

lemma clear_None: "\<exists>p'. clear None p = Inr p'"
  by (auto simp: clear_def split: bool.splits)

interpretation sm: monitor_listener "server_monitorEnv senv" for senv
proof unfold_locales
  fix m now e w
  assume ok: "mon_ok m"
  show "mon_result (me_listen (server_monitorEnv senv) now e (w, m))"
  proof (cases e)
    case (HeartbeatSucceeded d h)
    with ok on_heartbeat_Inr [of senv now d h w] show ?thesis
      by (auto simp: server_monitorEnv_def monitor_listen_def)
  next
    case (ResetServer err)
    with markServerUnknown_ok [OF ok, of senv now "Some err" w] show ?thesis
      by (auto simp: server_monitorEnv_def monitor_listen_def)
  next
    case ResetConnectionPool
    with ok clear_None [of "sv_pool w"] show ?thesis
      by (auto simp: server_monitorEnv_def monitor_listen_def)
  qed (use ok in \<open>simp_all add: server_monitorEnv_def monitor_listen_def\<close>)
qed (auto simp: server_monitorEnv_def monitor_listen_def)

lemma Monitor_new_ok: "mon_ok (Monitor_new a b c)"
  by (simp add: Monitor_new_def mon_ok_def)

text \<open>
  A server's monitor never makes an illegal state transition.  From a new monitor, whatever
  the server, the timers and the replies do, in any order and at any time, no step throws, the
  monitor is never left in the closing state, and while it is closed it has no timer and no
  connection.
\<close>

theorem monitor_never_throws:
  "\<exists>s' m'. mon_run (server_monitorEnv senv) inputs (s, Monitor_new ct hf mhf) = Inr (s', m')
     \<and> (mon_state m' \<in> {STATE_IDLE, STATE_MONITORING}
          \<or> mon_state m' = MONITOR_CLOSED \<and> mon_interval m' = None \<and> mon_connection m' = None)"
proof -
  have "mon_result (mon_run (server_monitorEnv senv) inputs (s, Monitor_new ct hf mhf))"
    by (rule sm.run_ok) (rule Monitor_new_ok)
  then obtain s' m' where r: "mon_run (server_monitorEnv senv) inputs (s, Monitor_new ct hf mhf) = Inr (s', m')"
      and ok: "mon_ok m'"
    by (cases "mon_run (server_monitorEnv senv) inputs (s, Monitor_new ct hf mhf)") (auto simp: mon_result_def)
  from ok show ?thesis unfolding r by (cases "mon_state m'") (auto simp: mon_ok_def)
qed

section \<open>Handling errors\<close>

lemma mark_dirty_transaction [simp]: "cs_transaction (fst (mark_dirty st)) = cs_transaction (fst st)"
  by (cases st)
    (auto simp: mark_dirty_def serverSession_get_def split: option.splits prod.splits)

lemma inActiveTransaction_dirty [simp]:
  "inActiveTransaction (map_option mark_dirty session) cmd = inActiveTransaction session cmd"
  by (cases session) (simp_all add: inActiveTransaction_def inTransaction_def)

text \<open>
  Outside load-balanced mode a handled error never throws, and it clears the pool at most once,
  and only on a connection of the current generation.
\<close>

definition clears_once :: "pool \<Rightarrow> conn \<Rightarrow> pool \<Rightarrow> bool" where
  "clears_once p c p' = (p' = p \<or> (cn_generation c = p_generation p \<and> p' = p\<lparr>p_generation := p_generation p + 1\<rparr>))"

lemma clear_server_pool_None:
  "clear_server_pool None (s, m) = Inr (s\<lparr>sv_pool := (sv_pool s)\<lparr>p_generation := p_generation (sv_pool s) + 1\<rparr>\<rparr>, m)"
  by (simp add: clear_server_pool_def clear_def split: bool.splits)

lemma mark_unknown_after:
  assumes "mon_ok m"
  shows "\<exists>s' m'. (if \<not> lb then markServerUnknown senv now err (s, m) else Inr (s, m)) = Inr (s', m')
    \<and> mon_ok m' \<and> sv_pool s' = sv_pool s"
  using markServerUnknown_ok [OF assms, of senv now err s] assms by auto

lemma handle_network_error_ok:
  assumes "mon_ok m" "cn_serviceId c = None" "cn_generation c = p_generation (sv_pool s)"
  shows "\<exists>s' m'. handle_network_error senv now c err (s, m) = Inr (s', m') \<and> mon_ok m'
    \<and> clears_once (sv_pool s) c (sv_pool s')"
  using mark_unknown_after [OF assms(1), of "se_loadBalanced senv" senv now "Some err"
      "s\<lparr>sv_pool := (sv_pool s)\<lparr>p_generation := p_generation (sv_pool s) + 1\<rparr>\<rparr>"] assms
  by (fastforce simp: handle_network_error_def clear_server_pool_None clears_once_def)

lemma handle_other_error_ok:
  assumes "mon_ok m" "cn_serviceId c = None" "cn_generation c = p_generation (sv_pool s)"
  shows "\<exists>s' m'. handle_other_error senv now c err (s, m) = Inr (s', m') \<and> mon_ok m'
    \<and> clears_once (sv_pool s) c (sv_pool s')"
proof -
  let ?clear = "server_maxWireVersion senv s \<le> 7 \<or> isNodeShuttingDownError err"
  let ?s1 = "if ?clear then s\<lparr>sv_pool := (sv_pool s)\<lparr>p_generation := p_generation (sv_pool s) + 1\<rparr>\<rparr> else s"
  have once: "clears_once (sv_pool s) c (sv_pool ?s1)" using assms(3) by (simp add: clears_once_def)
  have c1: "(if ?clear then clear_server_pool (cn_serviceId c) (s, m) else Inr (s, m)) = Inr (?s1, m)"
    using assms(2) by (simp add: clear_server_pool_None)
  obtain s2 m2 where "markServerUnknown senv now (Some err) (?s1, m) = Inr (s2, m2)" "mon_ok m2"
      "sv_pool s2 = sv_pool ?s1"
    using markServerUnknown_ok [OF assms(1)] by blast
  with once assms(1) show ?thesis
    unfolding handle_other_error_def fst_conv c1 by (auto simp: clears_once_def)
qed

lemma handle_ok:
  assumes "mon_ok m" "cn_serviceId c = None"
  shows "\<exists>err' s' m' session'.
    handleOperationResult senv now cmd c (Some err) (s, m) session = Inr (Some err', (s', m'), session')
    \<and> mon_ok m' \<and> clears_once (sv_pool s) c (sv_pool s')"
proof (cases "server_connectionIsStale (sv_pool s) c")
  case True
  with assms(1) show ?thesis by (simp add: handleOperationResult_def clears_once_def)
next
  case False
  with assms(2) have gen: "cn_generation c = p_generation (sv_pool s)"
    by (simp add: server_connectionIsStale_def)
  show ?thesis
  proof (cases "instanceof err MongoNetworkError")
    case True
    let ?e = "label_network_error senv cmd (map_option mark_dirty session) s err"
    obtain s' m' where "handle_network_error senv now c ?e (s, m) = Inr (s', m')" "mon_ok m'"
        "clears_once (sv_pool s) c (sv_pool s')"
      using handle_network_error_ok [OF assms gen] by blast
    with True False show ?thesis by (simp add: handleOperationResult_def Let_def)
  next
    case other: False
    let ?e = "label_other_error senv cmd session s err"
    obtain s' m' where "handle_other_error senv now c ?e (s, m) = Inr (s', m')" "mon_ok m'"
        "clears_once (sv_pool s) c (sv_pool s')"
      using handle_other_error_ok [OF assms gen] by blast
    with other False show ?thesis by (simp add: handleOperationResult_def Let_def)
  qed
qed

text \<open>
  The labels of a network error.  On a connection of the current generation the error comes
  out with \<open>TransientTransactionError\<close> exactly when it had the label or the command ran inside an
  active transaction, and with \<open>RetryableWriteError\<close> exactly when it had it or the command ran
  outside one, retryable writes are enabled (or it was a commit or abort) and the server supports
  them; the driver never adds both.
\<close>

theorem network_error_labels:
  assumes "handleOperationResult senv now cmd c (Some err) st session = Inr (Some err', st', session')"
    and "instanceof err MongoNetworkError" "\<not> server_connectionIsStale (sv_pool (fst st)) c"
  shows "(hasErrorLabel err' ''TransientTransactionError'' \<longleftrightarrow>
            hasErrorLabel err ''TransientTransactionError'' \<or> inActiveTransaction session cmd)
    \<and> (hasErrorLabel err' ''RetryableWriteError'' \<longleftrightarrow>
            hasErrorLabel err ''RetryableWriteError''
            \<or> (\<not> inActiveTransaction session cmd \<and> supportsRetryableWrites senv (fst st)
               \<and> (isRetryableWritesEnabled senv \<or> isTransactionCommand cmd)))
    \<and> err'\<lparr>e_labels := []\<rparr> = err\<lparr>e_labels := []\<rparr>"
proof -
  have "err' = label_network_error senv cmd (map_option mark_dirty session) (fst st) err"
    using assms by (auto simp: handleOperationResult_def Let_def rbind_Inr_iff)
  then show ?thesis
    by (auto simp: label_network_error_def Let_def addErrorLabel_def hasErrorLabel_def)
qed

definition example_server :: server where
  "example_server = \<lparr>sv_address = ''a:27017'', sv_state = STATE_CONNECTED,
     sv_description = (unknownDescription 0 ''a:27017'')\<lparr>sd_type := RSPrimary, sd_maxWireVersion := 13,
       sd_logicalSessionTimeoutMinutes := Some 30\<rparr>,
     sv_pool = example_pool 10 0, sv_emitted = [], sv_checks = 0\<rparr>"

definition example_senv :: serverEnv where
  "example_senv = \<lparr>se_loadBalanced = False, se_retryWrites = None, se_accepts = (\<lambda>_ _. True)\<rparr>"

definition pooled_conn :: "nat \<Rightarrow> conn" where
  "pooled_conn i = \<lparr>cn_id = i, cn_generation = 0, cn_serviceId = None, cn_closed = False, cn_lastUse = 0\<rparr>"

lemma example_server_fresh: "\<not> server_connectionIsStale (sv_pool example_server) (pooled_conn i)"
  by (simp add: server_connectionIsStale_def pooled_conn_def example_server_def example_pool_def
      example_options_def ConnectionPool_new_def)

theorem network_error_labels_witness:
  "\<exists>err' st' session'. handleOperationResult example_senv 5 (example_command ''insert'') (pooled_conn 1)
       (Some (mk_error MongoNetworkError ''connection reset'')) (example_server, Monitor_new None None None) None
     = Inr (Some err', st', session')
   \<and> hasErrorLabel err' ''RetryableWriteError'' \<and> \<not> hasErrorLabel err' ''TransientTransactionError''"
proof -
  let ?err = "mk_error MongoNetworkError ''connection reset''"
  have "cn_serviceId (pooled_conn 1) = None" by (simp add: pooled_conn_def)
  from handle_ok [OF Monitor_new_ok this] obtain err' s' m' session' where
    run: "handleOperationResult example_senv 5 (example_command ''insert'') (pooled_conn 1) (Some ?err)
      (example_server, Monitor_new None None None) None = Inr (Some err', (s', m'), session')" by blast
  have net: "instanceof ?err MongoNetworkError" by (simp add: instanceof_def mk_error_def)
  have lab: "hasErrorLabel ?err ''RetryableWriteError'' = False" "hasErrorLabel ?err ''TransientTransactionError'' = False"
    by (simp_all add: hasErrorLabel_def mk_error_def)
  show ?thesis
    using network_error_labels [OF run net] run lab example_server_fresh
    by (simp add: inActiveTransaction_def supportsRetryableWrites_def example_server_def
        isRetryableWritesEnabled_def example_senv_def)
qed

text \<open>Handling the errors of several operations one after another.\<close>

record failure =
  fl_now :: int
  fl_cmd :: command
  fl_conn :: conn
  fl_err :: mongoError
  fl_session :: "sessionState option"

fun handle_all :: "serverEnv \<Rightarrow> failure list \<Rightarrow> serverState \<Rightarrow> mongoError + serverState" where
  "handle_all senv [] st = Inr st"
| "handle_all senv (f # fs) st =
     rbind (handleOperationResult senv (fl_now f) (fl_cmd f) (fl_conn f) (Some (fl_err f)) st (fl_session f))
       (\<lambda>(_, st', _). handle_all senv fs st')"

text \<open>
  (C13) However many operations fail on connections of one generation, of whatever kind the errors
  are, nothing throws and the pool is cleared at most once: its generation grows by at most one,
  and not at all when the pool had already moved past that generation; nothing else of the pool
  changes.
\<close>

theorem pool_cleared_once:
  assumes "mon_ok m" and "\<forall>f \<in> set fs. cn_serviceId (fl_conn f) = None \<and> cn_generation (fl_conn f) = g"
    and "g \<le> p_generation (sv_pool s)"
  shows "\<exists>s' m'. handle_all senv fs (s, m) = Inr (s', m')
    \<and> (sv_pool s' = sv_pool s
       \<or> (p_generation (sv_pool s) = g \<and> sv_pool s' = (sv_pool s)\<lparr>p_generation := g + 1\<rparr>))"
  using assms
proof (induction fs arbitrary: s m)
  case Nil
  then show ?case by simp
next
  case (Cons f fs)
  have "cn_serviceId (fl_conn f) = None" using Cons.prems(2) by simp
  from handle_ok [OF Cons.prems(1) this] obtain e s1 m1 se where
    h: "handleOperationResult senv (fl_now f) (fl_cmd f) (fl_conn f) (Some (fl_err f)) (s, m) (fl_session f)
      = Inr (Some e, (s1, m1), se)" "mon_ok m1" "clears_once (sv_pool s) (fl_conn f) (sv_pool s1)" by blast
  have le: "g \<le> p_generation (sv_pool s1)" and gen: "cn_generation (fl_conn f) = g"
    using h(3) Cons.prems(2,3) by (auto simp: clears_once_def)
  from Cons.IH [OF h(2) _ le] Cons.prems(2) obtain s2 m2 where
    r: "handle_all senv fs (s1, m1) = Inr (s2, m2)"
      "sv_pool s2 = sv_pool s1 \<or> (p_generation (sv_pool s1) = g \<and> sv_pool s2 = (sv_pool s1)\<lparr>p_generation := g + 1\<rparr>)"
    by auto
  show ?case using r h(1) h(3) gen by (auto simp: clears_once_def)
qed

theorem pool_cleared_once_witness:
  "let err = mk_error MongoNetworkError ''connection reset'';
       fs = map (\<lambda>i. \<lparr>fl_now = 5, fl_cmd = example_command ''insert'', fl_conn = pooled_conn i, fl_err = err,
                      fl_session = None\<rparr>) [1, 2, 3]
   in \<exists>s' m'. handle_all example_senv fs (example_server, Monitor_new None None None) = Inr (s', m')
        \<and> p_generation (sv_pool s') \<in> {0, 1}"
proof -
  let ?fs = "map (\<lambda>i. \<lparr>fl_now = 5, fl_cmd = example_command ''insert'', fl_conn = pooled_conn i,
      fl_err = mk_error MongoNetworkError ''connection reset'', fl_session = None\<rparr>) [1, 2, 3]"
  have g: "p_generation (sv_pool example_server) = 0"
    by (simp add: example_server_def example_pool_def example_options_def ConnectionPool_new_def)
  have "\<exists>s' m'. handle_all example_senv ?fs (example_server, Monitor_new None None None) = Inr (s', m')
    \<and> (sv_pool s' = sv_pool example_server
       \<or> (p_generation (sv_pool example_server) = 0 \<and> sv_pool s' = (sv_pool example_server)\<lparr>p_generation := 0 + 1\<rparr>))"
    by (rule pool_cleared_once) (simp_all add: Monitor_new_ok g pooled_conn_def)
  with g show ?thesis by (auto simp: Let_def)
qed

section \<open>Round-trip times\<close>

text \<open>
  The exponentially weighted average stays within the range of the samples: once the first
  sample replaces the placeholder -1, the round-trip time a server is given never leaves the
  interval between the smallest and the largest duration measured.
\<close>

theorem round_trip_time_bounds:
  assumes "0 \<le> lo" "durations \<noteq> []" "\<forall>d \<in> set durations. lo \<le> d \<and> d \<le> hi"
  shows "foldl calculateRoundTripTime (-1) durations \<in> {lo..hi}"
proof -
  have step: "foldl calculateRoundTripTime r ds \<in> {lo..hi}"
    if "r \<in> {lo..hi}" "\<forall>d \<in> set ds. lo \<le> d \<and> d \<le> hi" for r ds
    using that
  proof (induction ds arbitrary: r)
    case (Cons d ds)
    have "calculateRoundTripTime r d \<in> {lo..hi}"
      using Cons.prems assms(1) by (auto simp: calculateRoundTripTime_def Let_def field_simps)
    with Cons show ?case by simp
  qed simp
  obtain d ds where "durations = d # ds" using assms(2) by (cases durations) auto
  with assms(3) step [of d ds] show ?thesis by (simp add: calculateRoundTripTime_def)
qed

theorem round_trip_time_bounds_witness:
  "foldl calculateRoundTripTime (-1) [20, 30, 25] \<in> {20..30}"
  using round_trip_time_bounds [of 20 "[20, 30, 25]" 30] by simp

end
