(* ===== verification/Topology.thy ===== *)
theory Topology
  imports Server Server_Selection Topology_Rules
begin

text \<open>
  \<open>src/sdam/topology.ts\<close>: the topology that owns the servers, feeds server descriptions into the
  topology description and answers server selection requests.  Servers are kept under their address
  with their monitor (theory \<open>Server\<close>); a request and a transaction are known by a number, and the
  transactions, which the wait queue pins, are the store \<open>tp_txn\<close>.  Callbacks are logged in
  \<open>tp_answered\<close> and monitoring events in \<open>tp_events\<close>; what a callback does next is a later step.
  Randomness and time are arguments.
\<close>

section \<open>State\<close>

record topologyOptions =
  top_directConnection :: bool
  top_replicaSet :: "string option"
  top_loadBalanced :: bool
  top_srvHost :: "string option"
  top_srvMaxHosts :: "nat option"
  top_retryWrites :: "bool option"
  top_serverSelectionTimeoutMS :: int
  top_heartbeatFrequencyMS :: int
  top_minHeartbeatFrequencyMS :: "int option"
  top_connectTimeoutMS :: "int option"
  top_localThresholdMS :: rat
  top_pool :: poolOptions

text \<open>A server selection request.\<close>

record selectionRequest =
  rq_id :: nat
  rq_selector :: serverSelector
  rq_transaction :: "nat option"
  rq_timer :: bool
  rq_cancelled :: bool

datatype selection = Selected "string option" | SelectionFailed mongoError

datatype topologyEvent =
    TopologyOpening | TopologyClosed | ServerOpening string | ServerClosed string
  | ServerDescriptionChanged string serverDescription serverDescription
  | TopologyDescriptionChanged topologyDescription topologyDescription
  | TopologyError mongoError | TopologyOpen

record topology =
  tp_options :: topologyOptions
  tp_seedlist :: "string list"
  tp_state :: sdamState
  tp_description :: topologyDescription
  tp_servers :: "(string, serverState) jsmap"
  tp_waitQueue :: "selectionRequest list"
  tp_clusterTime :: "clusterTime option"
  tp_detecting :: bool
  tp_srvPolling :: bool
  tp_txn :: "nat \<Rightarrow> transaction"
  tp_answered :: "(nat \<times> selection) list"
  tp_nextRequest :: nat
  tp_checks :: "string list"
  tp_events :: "topologyEvent list"

definition tp_emit :: "topologyEvent \<Rightarrow> topology \<Rightarrow> topology" where
  "tp_emit e tp = tp\<lparr>tp_events := tp_events tp @ [e]\<rparr>"

definition topologyTypeFromOptions :: "topologyOptions \<Rightarrow> topologyType" where
  "topologyTypeFromOptions options =
     (if top_directConnection options then Single
      else if truthy_str (top_replicaSet options) then ReplicaSetNoPrimary
      else if top_loadBalanced options then topologyType.LoadBalanced
      else TopologyUnknown)"

text \<open>A seed is a string, a host address (its string form) or something else.\<close>

datatype seed = SeedString string | SeedAddress string | SeedOther

fun seedlist_of :: "seed list \<Rightarrow> mongoError + string list" where
  "seedlist_of [] = Inr []"
| "seedlist_of (SeedString s # ss) = rbind (addressOf s) (\<lambda>a. rbind (seedlist_of ss) (\<lambda>as. Inr (a # as)))"
| "seedlist_of (SeedAddress a # ss) = rbind (seedlist_of ss) (\<lambda>as. Inr (a # as))"
| "seedlist_of (SeedOther # ss) = Inl (mk_error MongoRuntimeError ''Topology cannot be constructed from'')"

definition selectedHosts :: "(nat \<Rightarrow> nat) \<Rightarrow> nat option \<Rightarrow> string list \<Rightarrow> mongoError + string list" where
  "selectedHosts rnd srvMaxHosts seedlist =
     (case srvMaxHosts of
        None \<Rightarrow> Inr seedlist
      | Some n \<Rightarrow> if n = 0 \<or> n \<ge> length seedlist then Inr seedlist else shuffle rnd seedlist n)"

definition Topology_new ::
    "int \<Rightarrow> (nat \<Rightarrow> nat) \<Rightarrow> (nat \<Rightarrow> transaction) \<Rightarrow> seed list \<Rightarrow> topologyOptions \<Rightarrow> mongoError + topology" where
  "Topology_new now rnd txns seeds options =
     rbind (seedlist_of seeds) (\<lambda>seedlist.
       rbind (selectedHosts rnd (top_srvMaxHosts options) seedlist) (\<lambda>hosts.
         let descriptions = foldl (\<lambda>m a. map_set a (ServerDescription_of now a None no_sdOptions) m) [] hosts
         in Inr \<lparr>tp_options = options, tp_seedlist = seedlist, tp_state = STATE_CLOSED,
              tp_description = TopologyDescription_new (topologyTypeFromOptions options) descriptions
                (top_replicaSet options) None None None (top_heartbeatFrequencyMS options)
                (top_localThresholdMS options),
              tp_servers = [], tp_waitQueue = [], tp_clusterTime = None,
              tp_detecting = (truthy_str (top_srvHost options) \<and> \<not> top_loadBalanced options),
              tp_srvPolling = False, tp_txn = txns, tp_answered = [], tp_nextRequest = 0,
              tp_checks = [], tp_events = []\<rparr>))"

definition tp_transition :: "sdamState \<Rightarrow> topology \<Rightarrow> mongoError + topology" where
  "tp_transition newState tp =
     rbind (makeStateMachine sdamTable (tp_state tp) newState) (\<lambda>s. Inr (tp\<lparr>tp_state := s\<rparr>))"

section \<open>Servers\<close>

text \<open>
  The server's view of the topology while it connects or is destroyed; neither emits a server
  description, so what the topology would do with one does not matter here.
\<close>

definition topology_senv :: "topology \<Rightarrow> serverEnv" where
  "topology_senv tp = \<lparr>se_loadBalanced = (td_type (tp_description tp) = topologyType.LoadBalanced),
     se_retryWrites = top_retryWrites (tp_options tp), se_accepts = (\<lambda>_ _. False)\<rparr>"

definition createAndConnectServer :: "int \<Rightarrow> serverDescription \<Rightarrow> topology \<Rightarrow> mongoError + (serverState \<times> topology)" where
  "createAndConnectServer now sd tp =
     (let options = tp_options tp; tp1 = tp_emit (ServerOpening (sd_address sd)) tp
      in rbind (Server_new (top_pool options) (top_connectTimeoutMS options)
             (Some (top_heartbeatFrequencyMS options)) (top_minHeartbeatFrequencyMS options) sd)
           (\<lambda>st. rbind (Server_connect (topology_senv tp1) now st) (\<lambda>st1. Inr (st1, tp1))))"

text \<open>Creating servers for the descriptions whose address has none yet.\<close>

fun create_servers :: "int \<Rightarrow> serverDescription list \<Rightarrow> topology \<Rightarrow> mongoError + topology" where
  "create_servers now [] tp = Inr tp"
| "create_servers now (sd # sds) tp =
     (if map_has (tp_servers tp) (sd_address sd) then create_servers now sds tp
      else rbind (createAndConnectServer now sd tp)
             (\<lambda>(st, tp1). create_servers now sds
                (tp1\<lparr>tp_servers := map_set (sd_address sd) st (tp_servers tp1)\<rparr>)))"

text \<open>Connecting every description, into a new map.\<close>

fun connect_all :: "int \<Rightarrow> serverDescription list \<Rightarrow> (string, serverState) jsmap \<Rightarrow> topology
    \<Rightarrow> mongoError + ((string, serverState) jsmap \<times> topology)" where
  "connect_all now [] m tp = Inr (m, tp)"
| "connect_all now (sd # sds) m tp =
     rbind (createAndConnectServer now sd tp)
       (\<lambda>(st, tp1). connect_all now sds (map_set (sd_address sd) st m) tp1)"

definition connectServers :: "int \<Rightarrow> serverDescription list \<Rightarrow> topology \<Rightarrow> mongoError + topology" where
  "connectServers now sds tp =
     rbind (connect_all now sds [] tp) (\<lambda>(m, tp1). Inr (tp1\<lparr>tp_servers := m\<rparr>))"

text \<open>
  \<open>destroyServer\<close> on a server that has been removed from the map: the server is told to destroy
  itself and its closing is announced; what is left of it is garbage.
\<close>

definition destroyServer :: "int \<Rightarrow> serverState \<Rightarrow> topology \<Rightarrow> mongoError + topology" where
  "destroyServer now st tp =
     rbind (Server_destroy (topology_senv tp) now st)
       (\<lambda>st1. Inr (tp_emit (ServerClosed (sd_address (sv_description (fst st1)))) tp))"

fun destroy_servers :: "int \<Rightarrow> string list \<Rightarrow> topology \<Rightarrow> mongoError + topology" where
  "destroy_servers now [] tp = Inr tp"
| "destroy_servers now (a # as) tp =
     (case map_get (tp_servers tp) a of
        None \<Rightarrow> destroy_servers now as tp
      | Some st \<Rightarrow>
          rbind (destroyServer now st (tp\<lparr>tp_servers := map_delete a (tp_servers tp)\<rparr>)) (destroy_servers now as))"

definition set_server_description :: "serverDescription \<Rightarrow> (string, serverState) jsmap \<Rightarrow> (string, serverState) jsmap" where
  "set_server_description sd m =
     (case map_get m (sd_address sd) of
        Some (s, mon) \<Rightarrow> map_set (sd_address sd) (s\<lparr>sv_description := sd\<rparr>, mon) m
      | None \<Rightarrow> m)"

definition updateServers :: "int \<Rightarrow> serverDescription option \<Rightarrow> topology \<Rightarrow> mongoError + topology" where
  "updateServers now incoming tp =
     (let tp1 = (case incoming of
                   Some sd \<Rightarrow> tp\<lparr>tp_servers := set_server_description sd (tp_servers tp)\<rparr>
                 | None \<Rightarrow> tp)
      in rbind (create_servers now (map_values (td_servers (tp_description tp1))) tp1)
           (\<lambda>tp2. destroy_servers now
              (filter (\<lambda>a. \<not> hasServer (tp_description tp2) a) (map_keys (tp_servers tp2))) tp2))"

section \<open>The wait queue\<close>

definition topology_closed_error :: mongoError where
  "topology_closed_error = mk_error MongoTopologyClosedError ''Topology is closed''"

definition answer :: "selectionRequest \<Rightarrow> selection \<Rightarrow> topology \<Rightarrow> topology" where
  "answer r s tp = tp\<lparr>tp_answered := tp_answered tp @ [(rq_id r, s)]\<rparr>"

fun drain_loop :: "mongoError \<Rightarrow> selectionRequest list \<Rightarrow> topology \<Rightarrow> topology" where
  "drain_loop err [] tp = tp"
| "drain_loop err (r # rs) tp =
     drain_loop err rs (if rq_cancelled r then tp else answer r (SelectionFailed err) tp)"

definition drainWaitQueue :: "mongoError \<Rightarrow> topology \<Rightarrow> topology" where
  "drainWaitQueue err tp = (drain_loop err (tp_waitQueue tp) tp)\<lparr>tp_waitQueue := []\<rparr>"

text \<open>\<open>Math.floor(Math.random() * length)\<close>, with the random number as an argument.\<close>

definition randomSelection :: "rat \<Rightarrow> 'a list \<Rightarrow> 'a" where
  "randomSelection r xs = xs ! nat \<lfloor>r * of_nat (length xs)\<rfloor>"

definition pin_selected :: "selectionRequest \<Rightarrow> string option \<Rightarrow> topology \<Rightarrow> topology" where
  "pin_selected r selectedServer tp =
     (case (rq_transaction r, selectedServer) of
        (Some t, Some a) \<Rightarrow>
          (if td_type (tp_description tp) = Sharded \<and> isActive (tp_txn tp t)
           then tp\<lparr>tp_txn := (tp_txn tp)(t := pinServer a (tp_txn tp t))\<rparr> else tp)
      | _ \<Rightarrow> tp)"

text \<open>One member of the queue, already taken off it.\<close>

definition process_member :: "rat \<Rightarrow> selectionRequest \<Rightarrow> topology \<Rightarrow> topology" where
  "process_member random r tp =
     (if rq_cancelled r then tp
      else (case rq_selector r (tp_description tp) (map_values (td_servers (tp_description tp))) of
              Inl e \<Rightarrow> answer r (SelectionFailed e) tp
            | Inr [] \<Rightarrow> tp\<lparr>tp_waitQueue := tp_waitQueue tp @ [r]\<rparr>
            | Inr selected \<Rightarrow>
                (let a = sd_address (randomSelection random selected);
                     selectedServer = (if map_has (tp_servers tp) a then Some a else None)
                 in answer r (Selected selectedServer) (pin_selected r selectedServer tp))))"

text \<open>The loop takes as many members off the front as the queue had when it started.\<close>

fun process_loop :: "(nat \<Rightarrow> rat) \<Rightarrow> nat \<Rightarrow> topology \<Rightarrow> topology" where
  "process_loop random 0 tp = tp"
| "process_loop random (Suc n) tp =
     (case tp_waitQueue tp of
        [] \<Rightarrow> process_loop random n tp
      | r # rs \<Rightarrow> process_loop random n (process_member (random n) r (tp\<lparr>tp_waitQueue := rs\<rparr>)))"

definition topology_processWaitQueue :: "(nat \<Rightarrow> rat) \<Rightarrow> topology \<Rightarrow> topology" where
  "topology_processWaitQueue random tp =
     (if tp_state tp = STATE_CLOSED then drainWaitQueue topology_closed_error tp
      else (let tp1 = process_loop random (length (tp_waitQueue tp)) tp
            in if tp_waitQueue tp1 \<noteq> [] then tp1\<lparr>tp_checks := tp_checks tp1 @ map_keys (tp_servers tp1)\<rparr> else tp1))"

section \<open>Server selection\<close>

datatype selectorArg = SelFunction serverSelector | SelString string | SelPreference readPreference
  | SelOptions

definition resolve_selector :: "selectorArg \<Rightarrow> readPreferenceLike option \<Rightarrow> mongoError + serverSelector" where
  "resolve_selector selector optReadPreference =
     (case selector of
        SelFunction f \<Rightarrow> Inr f
      | SelString s \<Rightarrow> rbind (ReadPreference_fromString s) readPreferenceServerSelector
      | SelPreference rp \<Rightarrow> readPreferenceServerSelector rp
      | SelOptions \<Rightarrow>
          rbind (ReadPreference_translate optReadPreference)
            (\<lambda>r. case r of
               Some (RPInstance rp) \<Rightarrow> readPreferenceServerSelector rp
             | None \<Rightarrow> readPreferenceServerSelector ReadPreference_primary
             | _ \<Rightarrow> Inl (js_type_error ''readPreference.isValid is not a function'')))"

text \<open>
  \<open>selectServer\<close>; \<open>txn\<close> is the transaction of the session, if there is one, and \<open>timeout\<close> the
  \<open>serverSelectionTimeoutMS\<close> of the options when they have it.
\<close>

definition selectServer ::
    "(nat \<Rightarrow> rat) \<Rightarrow> selectorArg \<Rightarrow> readPreferenceLike option \<Rightarrow> nat option \<Rightarrow> int option \<Rightarrow> topology
     \<Rightarrow> mongoError + topology" where
  "selectServer random selector optReadPreference txn timeout tp =
     rbind (resolve_selector selector optReadPreference) (\<lambda>f.
       let r = \<lparr>rq_id = tp_nextRequest tp, rq_selector = f, rq_transaction = txn,
                rq_timer = (the_default (top_serverSelectionTimeoutMS (tp_options tp)) timeout \<noteq> 0),
                rq_cancelled = False\<rparr>;
           tp1 = tp\<lparr>tp_nextRequest := Suc (tp_nextRequest tp)\<rparr>
       in Inr (case Option.bind txn (\<lambda>t. t_pinnedServer (tp_txn tp t)) of
                 Some a \<Rightarrow>
                   (if td_type (tp_description tp) = Sharded then answer r (Selected (Some a)) tp1
                    else topology_processWaitQueue random (tp1\<lparr>tp_waitQueue := tp_waitQueue tp1 @ [r]\<rparr>))
               | None \<Rightarrow>
                   topology_processWaitQueue random (tp1\<lparr>tp_waitQueue := tp_waitQueue tp1 @ [r]\<rparr>)))"

definition selection_timeout_error :: mongoError where
  "selection_timeout_error = mk_error MongoServerSelectionError ''Server selection timed out''"

text \<open>The timer of the queued request \<open>r\<close>.\<close>

definition selection_timeout :: "selectionRequest \<Rightarrow> topology \<Rightarrow> topology" where
  "selection_timeout r tp =
     answer r (SelectionFailed selection_timeout_error)
       (tp\<lparr>tp_waitQueue := map (\<lambda>q. if rq_id q = rq_id r then q\<lparr>rq_cancelled := True, rq_timer := False\<rparr> else q)
              (tp_waitQueue tp)\<rparr>)"

section \<open>Descriptions\<close>

definition isStaleServerDescription :: "topologyDescription \<Rightarrow> serverDescription \<Rightarrow> bool" where
  "isStaleServerDescription td sd =
     (compareTopologyVersion (Option.bind (map_get (td_servers td) (sd_address sd)) sd_topologyVersion)
        (sd_topologyVersion sd) > 0)"

text \<open>The listener on description changes that starts SRV polling.\<close>

definition detectShardedTopology :: "topologyDescription \<Rightarrow> topologyDescription \<Rightarrow> topology \<Rightarrow> topology" where
  "detectShardedTopology previous new tp =
     (if tp_detecting tp \<and> td_type previous \<noteq> Sharded \<and> td_type new = Sharded \<and> \<not> tp_srvPolling tp
      then tp\<lparr>tp_srvPolling := True\<rparr> else tp)"

definition description_changed :: "topologyDescription \<Rightarrow> topology \<Rightarrow> topology" where
  "description_changed previous tp =
     detectShardedTopology previous (tp_description tp)
       (tp_emit (TopologyDescriptionChanged previous (tp_description tp)) tp)"

definition detectSrvRecords :: "int \<Rightarrow> (nat \<Rightarrow> nat) \<Rightarrow> string list \<Rightarrow> topology \<Rightarrow> mongoError + topology" where
  "detectSrvRecords now rnd hosts tp =
     (let previous = tp_description tp in
      rbind (updateFromSrvPollingEvent now rnd previous hosts (the_default 0 (top_srvMaxHosts (tp_options tp))))
        (\<lambda>td. if set (map_keys (td_servers previous)) = set hosts then Inr tp
              else rbind (updateServers now None (tp\<lparr>tp_description := td\<rparr>))
                     (\<lambda>tp1. Inr (description_changed previous tp1))))"

text \<open>
  \<open>serverUpdateHandler\<close>.  The two monitoring events of a change are emitted only when the
  description says something new.
\<close>

definition announce_server :: "serverDescription \<Rightarrow> serverDescription \<Rightarrow> topology \<Rightarrow> topology" where
  "announce_server previous sd tp =
     (case map_get (td_servers (tp_description tp)) (sd_address sd) of
        Some new \<Rightarrow> tp_emit (ServerDescriptionChanged (sd_address sd) previous new) tp
      | None \<Rightarrow> tp)"

definition serverUpdateHandler ::
    "int \<Rightarrow> (nat \<Rightarrow> rat) \<Rightarrow> serverDescription \<Rightarrow> topology \<Rightarrow> mongoError + topology" where
  "serverUpdateHandler now random sd tp =
     (let previous = tp_description tp in
      if \<not> hasServer previous (sd_address sd) \<or> isStaleServerDescription previous sd then Inr tp
      else (case map_get (td_servers previous) (sd_address sd) of
        None \<Rightarrow> Inr tp
      | Some previousServer \<Rightarrow>
          (let tp1 = (case sd_clusterTime sd of
                        Some ct \<Rightarrow> tp\<lparr>tp_clusterTime := advanceClusterTime (tp_clusterTime tp) ct\<rparr>
                      | None \<Rightarrow> tp);
               equalDescriptions = ServerDescription_equals previousServer sd
           in rbind (TopologyDescription_update now previous sd) (\<lambda>td.
                let tp2 = tp1\<lparr>tp_description := td\<rparr> in
                if td_compatibilityError td \<noteq> None
                then Inr (tp_emit (TopologyError (mk_error MongoCompatibilityError ''incompatible server'')) tp2)
                else
                  rbind (updateServers now (Some sd)
                           (if equalDescriptions then tp2 else announce_server previousServer sd tp2))
                    (\<lambda>tp3.
                       let tp4 = (if tp_waitQueue tp3 \<noteq> [] then topology_processWaitQueue random tp3 else tp3)
                       in Inr (if equalDescriptions then tp4 else description_changed previous tp4))))))"

section \<open>Connecting and closing\<close>

text \<open>In load-balanced mode, the descriptions a monitor would have reported.\<close>

fun fake_updates :: "int \<Rightarrow> (nat \<Rightarrow> rat) \<Rightarrow> serverDescription list \<Rightarrow> topology \<Rightarrow> mongoError + topology" where
  "fake_updates now random [] tp = Inr tp"
| "fake_updates now random (sd # sds) tp =
     rbind (serverUpdateHandler now random
              (ServerDescription_of now (sd_address sd) None (no_sdOptions\<lparr>so_loadBalanced := True\<rparr>)) tp)
       (fake_updates now random sds)"

definition topology_connect ::
    "int \<Rightarrow> (nat \<Rightarrow> rat) \<Rightarrow> readPreference option \<Rightarrow> topology \<Rightarrow> mongoError + topology" where
  "topology_connect now random readPreference tp =
     (if tp_state tp = STATE_CONNECTED then Inr tp
      else rbind (tp_transition STATE_CONNECTING tp) (\<lambda>tp1.
        let initial = TopologyDescription_new TopologyUnknown [] None None None None 0 0;
            tp2 = description_changed initial (tp_emit TopologyOpening tp1);
            sds = map_values (td_servers (tp_description tp2))
        in rbind (connectServers now sds tp2) (\<lambda>tp3.
             rbind (if top_loadBalanced (tp_options tp3) then fake_updates now random sds tp3 else Inr tp3)
               (\<lambda>tp4. selectServer random
                  (SelPreference (the_default ReadPreference_primary readPreference)) None None None tp4))))"

text \<open>\<open>close\<close> up to the point where it waits for the sessions, and its last part.\<close>

definition topology_close :: "topology \<Rightarrow> mongoError + topology" where
  "topology_close tp =
     (if tp_state tp = STATE_CLOSED \<or> tp_state tp = STATE_CLOSING then Inr tp
      else rbind (tp_transition STATE_CLOSING tp)
             (\<lambda>tp1. Inr ((drainWaitQueue topology_closed_error tp1)\<lparr>tp_srvPolling := False, tp_detecting := False\<rparr>)))"

definition topology_close_servers :: "int \<Rightarrow> topology \<Rightarrow> mongoError + topology" where
  "topology_close_servers now tp =
     rbind (destroy_servers now (map_keys (tp_servers tp)) tp)
       (\<lambda>tp1. tp_transition STATE_CLOSED (tp_emit TopologyClosed (tp1\<lparr>tp_servers := []\<rparr>)))"

text \<open>The callback of the selection \<open>connect\<close> makes.\<close>

definition connect_selected :: "mongoError option \<Rightarrow> topology \<Rightarrow> mongoError + topology" where
  "connect_selected err tp =
     (case err of
        Some e \<Rightarrow> topology_close tp
      | None \<Rightarrow> rbind (tp_transition STATE_CONNECTED tp) (\<lambda>tp1. Inr (tp_emit TopologyOpen tp1)))"

section \<open>Queries\<close>

definition isConnected :: "topology \<Rightarrow> bool" where
  "isConnected tp = (tp_state tp = STATE_CONNECTED)"

definition isDestroyed :: "topology \<Rightarrow> bool" where
  "isDestroyed tp = (tp_state tp = STATE_CLOSED)"

text \<open>\<open>ServerCapabilities\<close>, on the wire versions of the last hello; an absent version is 0.\<close>

record serverCapabilities =
  cap_minWireVersion :: int
  cap_maxWireVersion :: int

definition ServerCapabilities_new :: "int option \<Rightarrow> int option \<Rightarrow> serverCapabilities" where
  "ServerCapabilities_new minWire maxWire =
     \<lparr>cap_minWireVersion = the_default 0 minWire, cap_maxWireVersion = the_default 0 maxWire\<rparr>"

definition hasAggregationCursor :: "serverCapabilities \<Rightarrow> bool" where
  "hasAggregationCursor c = (cap_maxWireVersion c \<ge> 1)"
definition hasWriteCommands :: "serverCapabilities \<Rightarrow> bool" where
  "hasWriteCommands c = (cap_maxWireVersion c \<ge> 2)"
definition hasTextSearch :: "serverCapabilities \<Rightarrow> bool" where
  "hasTextSearch c = (cap_minWireVersion c \<ge> 0)"
definition hasAuthCommands :: "serverCapabilities \<Rightarrow> bool" where
  "hasAuthCommands c = (cap_maxWireVersion c \<ge> 1)"
definition hasListCollectionsCommand :: "serverCapabilities \<Rightarrow> bool" where
  "hasListCollectionsCommand c = (cap_maxWireVersion c \<ge> 3)"
definition hasListIndexesCommand :: "serverCapabilities \<Rightarrow> bool" where
  "hasListIndexesCommand c = (cap_maxWireVersion c \<ge> 3)"
definition supportsSnapshotReads :: "serverCapabilities \<Rightarrow> bool" where
  "supportsSnapshotReads c = (cap_maxWireVersion c \<ge> 13)"
definition commandsTakeWriteConcern :: "serverCapabilities \<Rightarrow> bool" where
  "commandsTakeWriteConcern c = (cap_maxWireVersion c \<ge> 5)"
definition commandsTakeCollation :: "serverCapabilities \<Rightarrow> bool" where
  "commandsTakeCollation c = (cap_maxWireVersion c \<ge> 5)"

section \<open>Processing the wait queue\<close>

text \<open>A request waits when no server suits it, and is answered when one does or its selector throws.\<close>

abbreviation chosen :: "topology \<Rightarrow> selectionRequest \<Rightarrow> mongoError + serverDescription list" where
  "chosen tp r \<equiv> rq_selector r (tp_description tp) (map_values (td_servers (tp_description tp)))"

definition waiting :: "topology \<Rightarrow> selectionRequest \<Rightarrow> bool" where
  "waiting tp r = (\<not> rq_cancelled r \<and> (case chosen tp r of Inr [] \<Rightarrow> True | _ \<Rightarrow> False))"

definition answerable :: "topology \<Rightarrow> selectionRequest \<Rightarrow> bool" where
  "answerable tp r = (\<not> rq_cancelled r \<and> (case chosen tp r of Inr [] \<Rightarrow> False | _ \<Rightarrow> True))"

text \<open>What a processed request may be told.\<close>

definition right_answer :: "topology \<Rightarrow> selectionRequest \<Rightarrow> nat \<times> selection \<Rightarrow> bool" where
  "right_answer tp r a =
     (fst a = rq_id r
      \<and> (case chosen tp r of
           Inl e \<Rightarrow> snd a = SelectionFailed e
         | Inr sel \<Rightarrow> (\<exists>sd \<in> set sel. snd a =
              Selected (if map_has (tp_servers tp) (sd_address sd) then Some (sd_address sd) else None))))"

text \<open>The part of the topology the queue's processing does not touch.\<close>

definition same_frame :: "topology \<Rightarrow> topology \<Rightarrow> bool" where
  "same_frame tp tp' = (tp_description tp' = tp_description tp \<and> tp_servers tp' = tp_servers tp
     \<and> tp_state tp' = tp_state tp \<and> tp_nextRequest tp' = tp_nextRequest tp
     \<and> tp_options tp' = tp_options tp)"

lemma same_frame_refl [simp]: "same_frame tp tp"
  by (simp add: same_frame_def)

lemma same_frame_cong:
  assumes "same_frame tp tp'"
  shows "waiting tp' = waiting tp" "answerable tp' = answerable tp" "right_answer tp' = right_answer tp"
proof -
  have eqs: "tp_description tp' = tp_description tp" "tp_servers tp' = tp_servers tp"
    using assms by (simp_all add: same_frame_def)
  show "waiting tp' = waiting tp" "answerable tp' = answerable tp" "right_answer tp' = right_answer tp"
    unfolding waiting_def answerable_def right_answer_def fun_eq_iff eqs by (rule refl | intro allI)+
qed

lemma randomSelection_in:
  assumes "xs \<noteq> []" "0 \<le> r" "r < 1"
  shows "randomSelection r xs \<in> set xs"
proof -
  have "r * of_nat (length xs) < of_nat (length xs)" "0 \<le> r * of_nat (length xs)"
    using assms by (auto simp: mult_less_cancel_right2)
  then have "nat \<lfloor>r * of_nat (length xs)\<rfloor> < length xs"
    by (simp add: floor_less_iff nat_less_iff)
  then show ?thesis by (simp add: randomSelection_def)
qed

lemma pin_selected_frame [simp]:
  "same_frame tp (pin_selected r a tp)" "tp_answered (pin_selected r a tp) = tp_answered tp"
  "tp_waitQueue (pin_selected r a tp) = tp_waitQueue tp"
  by (auto simp: pin_selected_def same_frame_def split: option.splits)

lemma process_member_effect:
  assumes "0 \<le> random" "random < 1"
  shows "\<exists>answers. tp_answered (process_member random r tp) = tp_answered tp @ answers
    \<and> list_all2 (right_answer tp) (filter (answerable tp) [r]) answers
    \<and> tp_waitQueue (process_member random r tp) = tp_waitQueue tp @ filter (waiting tp) [r]
    \<and> same_frame tp (process_member random r tp)"
proof (cases "rq_cancelled r")
  case True
  then show ?thesis by (simp add: process_member_def answerable_def waiting_def)
next
  case False
  show ?thesis
  proof (cases "chosen tp r")
    case (Inl e)
    with False show ?thesis
      by (simp add: process_member_def answerable_def waiting_def answer_def right_answer_def same_frame_def)
  next
    case (Inr sel)
    show ?thesis
    proof (cases sel)
      case Nil
      with False Inr show ?thesis
        by (simp add: process_member_def answerable_def waiting_def same_frame_def)
    next
      case (Cons x xs)
      let ?sd = "randomSelection random sel"
      let ?a = "if map_has (tp_servers tp) (sd_address ?sd) then Some (sd_address ?sd) else None"
      have "?sd \<in> set sel" by (rule randomSelection_in [OF _ assms]) (simp add: Cons)
      then have "right_answer tp r (rq_id r, Selected ?a)" using Inr by (auto simp: right_answer_def)
      moreover have "process_member random r tp = answer r (Selected ?a) (pin_selected r ?a tp)"
        using False Inr Cons by (simp add: process_member_def Let_def)
      moreover have "same_frame tp (answer r (Selected ?a) (pin_selected r ?a tp))"
        using pin_selected_frame(1) [of tp r ?a] by (simp add: same_frame_def answer_def)
      ultimately show ?thesis using False Inr Cons
        by (simp add: answerable_def waiting_def answer_def)
    qed
  qed
qed

lemma process_loop_effect:
  assumes "\<forall>i. 0 \<le> random i \<and> random i < 1" "tp_waitQueue tp = qs @ acc"
  shows "\<exists>answers. tp_answered (process_loop random (length qs) tp) = tp_answered tp @ answers
    \<and> list_all2 (right_answer tp) (filter (answerable tp) qs) answers
    \<and> tp_waitQueue (process_loop random (length qs) tp) = acc @ filter (waiting tp) qs
    \<and> same_frame tp (process_loop random (length qs) tp)"
  using assms(2)
proof (induction qs arbitrary: tp acc)
  case Nil
  then show ?case by simp
next
  case (Cons r rs)
  let ?tp = "tp\<lparr>tp_waitQueue := rs @ acc\<rparr>"
  let ?tp1 = "process_member (random (length rs)) r ?tp"
  have f0: "same_frame tp ?tp" by (simp add: same_frame_def)
  obtain as where as: "tp_answered ?tp1 = tp_answered tp @ as"
      "list_all2 (right_answer tp) (filter (answerable tp) [r]) as"
      "tp_waitQueue ?tp1 = rs @ (acc @ filter (waiting tp) [r])" "same_frame tp ?tp1"
    using process_member_effect [of "random (length rs)" r ?tp] assms(1) same_frame_cong [OF f0] f0
    by (auto simp: same_frame_def)
  from Cons.IH [OF as(3)] obtain bs where bs:
      "tp_answered (process_loop random (length rs) ?tp1) = tp_answered tp @ as @ bs"
      "list_all2 (right_answer tp) (filter (answerable tp) rs) bs"
      "tp_waitQueue (process_loop random (length rs) ?tp1) = acc @ filter (waiting tp) [r] @ filter (waiting tp) rs"
      "same_frame ?tp1 (process_loop random (length rs) ?tp1)"
    using as(1) same_frame_cong [OF as(4)] by auto
  have "list_all2 (right_answer tp) (filter (answerable tp) (r # rs)) (as @ bs)"
    using list_all2_appendI [OF as(2) bs(2)] by (cases "answerable tp r") simp_all
  moreover have "same_frame tp (process_loop random (length rs) ?tp1)"
    using as(4) bs(4) by (simp add: same_frame_def)
  ultimately show ?case using bs(1,3) Cons.prems
    by (intro exI [of _ "as @ bs"]) (simp split: if_splits)
qed

lemma processWaitQueue_effect:
  assumes "\<forall>i. 0 \<le> random i \<and> random i < 1" "tp_state tp \<noteq> STATE_CLOSED"
  shows "\<exists>answers. tp_answered (topology_processWaitQueue random tp) = tp_answered tp @ answers
    \<and> list_all2 (right_answer tp) (filter (answerable tp) (tp_waitQueue tp)) answers
    \<and> tp_waitQueue (topology_processWaitQueue random tp) = filter (waiting tp) (tp_waitQueue tp)
    \<and> same_frame tp (topology_processWaitQueue random tp)"
  using process_loop_effect [OF assms(1), of tp "tp_waitQueue tp" "[]"] assms(2)
  by (auto simp: topology_processWaitQueue_def Let_def same_frame_def)

lemma drain_loop_effect:
  "tp_answered (drain_loop err qs tp) =
     tp_answered tp @ map (\<lambda>r. (rq_id r, SelectionFailed err)) (filter (\<lambda>r. \<not> rq_cancelled r) qs)
   \<and> same_frame tp (drain_loop err qs tp)"
  by (induction qs arbitrary: tp) (auto simp: answer_def same_frame_def)

lemma drainWaitQueue_effect:
  "tp_answered (drainWaitQueue err tp) =
     tp_answered tp @ map (\<lambda>r. (rq_id r, SelectionFailed err)) (filter (\<lambda>r. \<not> rq_cancelled r) (tp_waitQueue tp))"
  "tp_waitQueue (drainWaitQueue err tp) = []"
  "same_frame tp (drainWaitQueue err tp)"
  using drain_loop_effect [of err "tp_waitQueue tp" tp] by (auto simp: drainWaitQueue_def same_frame_def)

definition in_sync :: "topology \<Rightarrow> bool" where
  "in_sync tp = (set (map_keys (tp_servers tp)) = set (map_keys (td_servers (tp_description tp))))"

definition good_answer :: "topology \<Rightarrow> selectionRequest \<Rightarrow> nat \<times> selection \<Rightarrow> bool" where
  "good_answer tp r a =
     (fst a = rq_id r
      \<and> (case chosen tp r of
           Inl e \<Rightarrow> snd a = SelectionFailed e \<and> e_class e \<noteq> JSTypeError
         | Inr sel \<Rightarrow> (\<exists>sd \<in> set sel. snd a = Selected (Some (sd_address sd))
              \<and> map_of (td_servers (tp_description tp)) (sd_address sd) = Some sd
              \<and> map_has (tp_servers tp) (sd_address sd))))"

lemma right_answer_good:
  assumes "server_selector (rq_selector r)" "td_inv (tp_description tp)" "in_sync tp" "right_answer tp r a"
  shows "good_answer tp r a"
proof (cases "chosen tp r")
  case (Inl e)
  with server_selector.throws [OF assms(1,2)] assms(4) show ?thesis
    by (simp add: right_answer_def good_answer_def)
next
  case (Inr sel)
  from assms(4) Inr obtain sd where sd: "sd \<in> set sel" "fst a = rq_id r"
      "snd a = Selected (if map_has (tp_servers tp) (sd_address sd) then Some (sd_address sd) else None)"
    by (auto simp: right_answer_def)
  have known: "map_of (td_servers (tp_description tp)) (sd_address sd) = Some sd"
    by (rule server_selector.selected_known [OF assms(1,2) Inr sd(1)])
  then have "sd_address sd \<in> set (map_keys (td_servers (tp_description tp)))"
    by (metis map_of_None_keys option.distinct(1))
  with assms(3) have "map_has (tp_servers tp) (sd_address sd)" by (simp add: in_sync_def map_has_iff)
  with sd known Inr show ?thesis by (auto simp: good_answer_def)
qed

text \<open>
  (C8) Processing the wait queue of an open topology whose servers are those of its description:
  the requests that some server suits, or whose selector throws, are answered, each once and in the
  order they were made; a selected server is one its selector chose from the description, and the
  topology has it; the others stay in the queue in their order, and those that timed out are
  dropped.
\<close>

theorem wait_queue_processed:
  assumes "\<forall>i. 0 \<le> random i \<and> random i < 1" "tp_state tp \<noteq> STATE_CLOSED"
    and "td_inv (tp_description tp)" "in_sync tp" "\<forall>r \<in> set (tp_waitQueue tp). server_selector (rq_selector r)"
  shows "\<exists>answers. tp_answered (topology_processWaitQueue random tp) = tp_answered tp @ answers
    \<and> list_all2 (good_answer tp) (filter (answerable tp) (tp_waitQueue tp)) answers
    \<and> tp_waitQueue (topology_processWaitQueue random tp) = filter (waiting tp) (tp_waitQueue tp)"
proof -
  obtain as where as: "tp_answered (topology_processWaitQueue random tp) = tp_answered tp @ as"
      "list_all2 (right_answer tp) (filter (answerable tp) (tp_waitQueue tp)) as"
      "tp_waitQueue (topology_processWaitQueue random tp) = filter (waiting tp) (tp_waitQueue tp)"
    using processWaitQueue_effect [OF assms(1,2)] by blast
  have "list_all2 (good_answer tp) (filter (answerable tp) (tp_waitQueue tp)) as"
    by (rule list.rel_mono_strong [OF as(2)])
      (use assms(5) in \<open>auto intro: right_answer_good [OF _ assms(3,4)]\<close>)
  with as(1,3) show ?thesis by blast
qed

definition example_topologyOptions :: topologyOptions where
  "example_topologyOptions = \<lparr>top_directConnection = False, top_replicaSet = None, top_loadBalanced = False,
     top_srvHost = None, top_srvMaxHosts = None, top_retryWrites = None, top_serverSelectionTimeoutMS = 30000,
     top_heartbeatFrequencyMS = 10000, top_minHeartbeatFrequencyMS = None, top_connectTimeoutMS = None,
     top_localThresholdMS = 15, top_pool = example_options 10 0\<rparr>"

text \<open>A connected topology around the example replica set, with two requests waiting.\<close>

definition example_request :: "nat \<Rightarrow> serverSelector \<Rightarrow> selectionRequest" where
  "example_request n f = \<lparr>rq_id = n, rq_selector = f, rq_transaction = None, rq_timer = True, rq_cancelled = False\<rparr>"

definition example_tp :: topology where
  "example_tp = \<lparr>tp_options = example_topologyOptions, tp_seedlist = [''a:1''], tp_state = STATE_CONNECTED,
     tp_description = example_replicaset,
     tp_servers = [(''a:1'', (example_server, Monitor_new None None None))],
     tp_waitQueue = [example_request 0 writableServerSelector,
       example_request 1 (sameServerSelector None)],
     tp_clusterTime = None, tp_detecting = False, tp_srvPolling = False,
     tp_txn = (\<lambda>_. example_transaction), tp_answered = [], tp_nextRequest = 2, tp_checks = [], tp_events = []\<rparr>"

lemma example_tp_facts:
  "td_inv (tp_description example_tp)" "in_sync example_tp" "tp_state example_tp \<noteq> STATE_CLOSED"
  "\<forall>r \<in> set (tp_waitQueue example_tp). server_selector (rq_selector r)"
proof -
  show "td_inv (tp_description example_tp)" by (simp add: example_tp_def td_inv_example_replicaset)
qed (simp_all add: example_tp_def in_sync_def map_keys_def example_replicaset_def Let_def
    TopologyDescription_new_def example_request_def writable.server_selector_axioms same.server_selector_axioms)

lemma example_tp_chosen:
  "waiting example_tp (example_request 1 (sameServerSelector None))"
  "answerable example_tp (example_request 0 writableServerSelector)"
  "\<not> answerable example_tp (example_request 1 (sameServerSelector None))"
  "\<not> waiting example_tp (example_request 0 writableServerSelector)"
  by (simp_all add: waiting_def answerable_def example_request_def sameServerSelector_def
      writableServerSelector_def example_tp_def example_replicaset_def TopologyDescription_new_def
      map_values_def isWritable_def WRITABLE_SERVER_TYPES_def example_primary_def latencyWindowReducer_def
      latency_low_def Let_def unknownDescription_def ServerDescription_of_def)

theorem wait_queue_processed_witness:
  "\<exists>a. tp_answered (topology_processWaitQueue (\<lambda>_. 0) example_tp) = [a]
     \<and> good_answer example_tp (example_request 0 writableServerSelector) a
   \<and> tp_waitQueue (topology_processWaitQueue (\<lambda>_. 0) example_tp) = [example_request 1 (sameServerSelector None)]"
proof -
  have q: "filter (answerable example_tp) (tp_waitQueue example_tp) = [example_request 0 writableServerSelector]"
    "filter (waiting example_tp) (tp_waitQueue example_tp) = [example_request 1 (sameServerSelector None)]"
    "tp_answered example_tp = []"
    using example_tp_chosen by (simp_all add: example_tp_def)
  have "\<exists>answers. tp_answered (topology_processWaitQueue (\<lambda>_. 0) example_tp) = tp_answered example_tp @ answers
    \<and> list_all2 (good_answer example_tp) (filter (answerable example_tp) (tp_waitQueue example_tp)) answers
    \<and> tp_waitQueue (topology_processWaitQueue (\<lambda>_. 0) example_tp) = filter (waiting example_tp) (tp_waitQueue example_tp)"
    by (rule wait_queue_processed) (use example_tp_facts in auto)
  then show ?thesis unfolding q by (auto simp: list_all2_Cons1)
qed

section \<open>The servers follow the description\<close>

text \<open>What updating the servers relies on: the pool options are valid and the monitors consistent.\<close>

definition servers_ok :: "topology \<Rightarrow> bool" where
  "servers_ok tp = (po_minPoolSize (top_pool (tp_options tp)) \<le> po_maxPoolSize (top_pool (tp_options tp))
     \<and> (\<forall>a s m. map_of (tp_servers tp) a = Some (s, m) \<longrightarrow> mon_ok m))"

text \<open>Two topologies that differ at most in servers and events.\<close>

definition same_but_servers :: "topology \<Rightarrow> topology \<Rightarrow> bool" where
  "same_but_servers tp tp' = (tp' = tp\<lparr>tp_servers := tp_servers tp', tp_events := tp_events tp'\<rparr>)"

lemma same_but_servers_refl [simp]: "same_but_servers tp tp"
  by (simp add: same_but_servers_def)

lemma same_but_servers_trans: "same_but_servers a b \<Longrightarrow> same_but_servers b c \<Longrightarrow> same_but_servers a c"
  by (cases a; cases b; cases c) (simp add: same_but_servers_def)

lemma Server_connect_new:
  assumes "po_minPoolSize options \<le> po_maxPoolSize options"
  shows "\<exists>st s m. Server_new options a b c sd = Inr st \<and> Server_connect senv now st = Inr (s, m) \<and> mon_ok m"
proof -
  obtain p where p: "ConnectionPool_new options = Inr p"
    using assms by (auto simp: ConnectionPool_new_def)
  let ?s = "\<lparr>sv_address = sd_address sd, sv_state = STATE_CLOSED, sv_description = sd, sv_pool = p,
      sv_emitted = [], sv_checks = 0\<rparr>"
  have new: "Server_new options a b c sd = Inr (?s, Monitor_new a b c)" by (simp add: Server_new_def p)
  have tr: "server_transition STATE_CONNECTING ?s = Inr (?s\<lparr>sv_state := STATE_CONNECTING\<rparr>)"
    by (rule server_transition_legal) simp
  have tr2: "server_transition STATE_CONNECTED (?s\<lparr>sv_state := STATE_CONNECTING\<rparr>) = Inr (?s\<lparr>sv_state := STATE_CONNECTED\<rparr>)"
    by (simp add: server_transition_legal)
  have "mon_result (monitor_connect (server_monitorEnv senv) now (?s\<lparr>sv_state := STATE_CONNECTING\<rparr>, Monitor_new a b c))"
    by (rule sm.connect_ok) (rule Monitor_new_ok)
  then obtain s m where c: "monitor_connect (server_monitorEnv senv) now
      (?s\<lparr>sv_state := STATE_CONNECTING\<rparr>, Monitor_new a b c) = Inr (s, m)" "mon_ok m"
    by (auto simp: mon_result_def split: sum.splits)
  show ?thesis using new tr tr2 c Monitor_new_ok [of a b c] by (simp add: Server_connect_def)
qed

lemma Server_destroy_ok:
  assumes "mon_ok m"
  shows "\<exists>st. Server_destroy senv now (s, m) = Inr st"
proof (cases "sv_state s = STATE_CLOSED")
  case False
  then have tr: "server_transition STATE_CLOSING s = Inr (s\<lparr>sv_state := STATE_CLOSING\<rparr>)"
    by (cases "sv_state s") (auto simp: server_transition_legal)
  obtain w m' where "monitor_close (server_monitorEnv senv) now (s\<lparr>sv_state := STATE_CLOSING\<rparr>, m) = Inr (w, m')"
    using sm.close_ok [OF assms] by blast
  with False tr show ?thesis by (cases "se_loadBalanced senv") (simp_all add: Server_destroy_def)
qed (simp add: Server_destroy_def)

lemma createAndConnectServer_ok:
  assumes "servers_ok tp"
  shows "\<exists>s m. createAndConnectServer now sd tp = Inr ((s, m), tp_emit (ServerOpening (sd_address sd)) tp) \<and> mon_ok m"
  using Server_connect_new [of "top_pool (tp_options tp)" "top_connectTimeoutMS (tp_options tp)"
      "Some (top_heartbeatFrequencyMS (tp_options tp))" "top_minHeartbeatFrequencyMS (tp_options tp)" sd
      "topology_senv (tp_emit (ServerOpening (sd_address sd)) tp)" now] assms
  by (auto simp: createAndConnectServer_def Let_def servers_ok_def)

lemma servers_ok_set:
  "servers_ok tp \<Longrightarrow> mon_ok m \<Longrightarrow> tp_servers tp' = map_set a (s, m) (tp_servers tp) \<Longrightarrow> tp_options tp' = tp_options tp
   \<Longrightarrow> servers_ok tp'"
  by (auto simp: servers_ok_def map_simps)

lemma servers_ok_delete:
  "servers_ok tp \<Longrightarrow> tp_servers tp' = map_delete a (tp_servers tp) \<Longrightarrow> tp_options tp' = tp_options tp
   \<Longrightarrow> servers_ok tp'"
  by (auto simp: servers_ok_def map_simps split: if_splits)

lemma create_servers_ok:
  assumes "servers_ok tp"
  shows "\<exists>tp'. create_servers now sds tp = Inr tp' \<and> servers_ok tp' \<and> same_but_servers tp tp'
    \<and> set (map_keys (tp_servers tp')) = set (map_keys (tp_servers tp)) \<union> sd_address ` set sds"
  using assms
proof (induction sds arbitrary: tp)
  case Nil
  then show ?case by auto
next
  case (Cons sd sds)
  show ?case
  proof (cases "map_has (tp_servers tp) (sd_address sd)")
    case True
    with Cons.IH [OF Cons.prems] show ?thesis by (auto simp: map_has_iff insert_absorb)
  next
    case False
    from createAndConnectServer_ok [OF Cons.prems] obtain s m where
      c: "createAndConnectServer now sd tp = Inr ((s, m), tp_emit (ServerOpening (sd_address sd)) tp)" "mon_ok m"
      by blast
    let ?tp1 = "(tp_emit (ServerOpening (sd_address sd)) tp)
      \<lparr>tp_servers := map_set (sd_address sd) (s, m) (tp_servers tp)\<rparr>"
    have ok1: "servers_ok ?tp1" by (rule servers_ok_set [OF Cons.prems c(2)]) (simp_all add: tp_emit_def)
    have same1: "same_but_servers tp ?tp1" by (simp add: same_but_servers_def tp_emit_def)
    from Cons.IH [OF ok1] obtain tp' where tp': "create_servers now sds ?tp1 = Inr tp'" "servers_ok tp'"
        "same_but_servers ?tp1 tp'"
        "set (map_keys (tp_servers tp')) = set (map_keys (tp_servers ?tp1)) \<union> sd_address ` set sds" by blast
    have "tp_servers (tp_emit e tp) = tp_servers tp" for e by (simp add: tp_emit_def)
    with False c tp' same_but_servers_trans [OF same1 tp'(3)] show ?thesis
      by (auto simp: map_simps split: if_splits)
  qed
qed

lemma destroy_servers_ok:
  assumes "servers_ok tp"
  shows "\<exists>tp'. destroy_servers now as tp = Inr tp' \<and> servers_ok tp' \<and> same_but_servers tp tp'
    \<and> set (map_keys (tp_servers tp')) = set (map_keys (tp_servers tp)) - set as"
  using assms
proof (induction as arbitrary: tp)
  case Nil
  then show ?case by auto
next
  case (Cons a as)
  show ?case
  proof (cases "map_of (tp_servers tp) a")
    case None
    with Cons.IH [OF Cons.prems] map_of_None_keys [of "tp_servers tp" a] show ?thesis by auto
  next
    case (Some st)
    obtain s m where st: "st = (s, m)" by fastforce
    let ?tp0 = "tp\<lparr>tp_servers := map_delete a (tp_servers tp)\<rparr>"
    have "mon_ok m" using Cons.prems Some st unfolding servers_ok_def by blast
    from Server_destroy_ok [OF this] obtain st1 where
      d: "Server_destroy (topology_senv ?tp0) now (s, m) = Inr st1" by blast
    let ?tp1 = "tp_emit (ServerClosed (sd_address (sv_description (fst st1)))) ?tp0"
    have ok1: "servers_ok ?tp1" by (rule servers_ok_delete [OF Cons.prems]) (simp_all add: tp_emit_def)
    have same1: "same_but_servers tp ?tp1" by (simp add: same_but_servers_def tp_emit_def)
    from Cons.IH [OF ok1] obtain tp' where tp': "destroy_servers now as ?tp1 = Inr tp'" "servers_ok tp'"
        "same_but_servers ?tp1 tp'" "set (map_keys (tp_servers tp')) = set (map_keys (tp_servers ?tp1)) - set as"
      by blast
    have "set (map_keys (tp_servers ?tp1)) = set (map_keys (tp_servers tp)) - {a}"
      by (auto simp: tp_emit_def map_simps)
    with Some st d tp' same_but_servers_trans [OF same1 tp'(3)] show ?thesis
      by (auto simp: destroyServer_def)
  qed
qed

lemma set_server_description_ok:
  assumes "servers_ok tp"
  shows "servers_ok (tp\<lparr>tp_servers := set_server_description sd (tp_servers tp)\<rparr>)"
    and "set (map_keys (set_server_description sd (tp_servers tp))) = set (map_keys (tp_servers tp))"
proof -
  have "servers_ok (tp\<lparr>tp_servers := set_server_description sd (tp_servers tp)\<rparr>)
    \<and> set (map_keys (set_server_description sd (tp_servers tp))) = set (map_keys (tp_servers tp))"
  proof (cases "map_of (tp_servers tp) (sd_address sd)")
    case None
    with assms show ?thesis by (simp add: set_server_description_def servers_ok_def)
  next
    case (Some st)
    obtain s m where st: "st = (s, m)" by fastforce
    have "mon_ok m" using assms Some st unfolding servers_ok_def by blast
    then have "servers_ok (tp\<lparr>tp_servers := map_set (sd_address sd) (s\<lparr>sv_description := sd\<rparr>, m) (tp_servers tp)\<rparr>)"
      by (rule servers_ok_set [OF assms]) simp_all
    moreover have "sd_address sd \<in> set (map_keys (tp_servers tp))"
      using Some map_of_None_keys [of "tp_servers tp" "sd_address sd"] by auto
    ultimately show ?thesis using Some st by (simp add: set_server_description_def map_simps)
  qed
  then show "servers_ok (tp\<lparr>tp_servers := set_server_description sd (tp_servers tp)\<rparr>)"
    "set (map_keys (set_server_description sd (tp_servers tp))) = set (map_keys (tp_servers tp))" by auto
qed

lemma good_servers_addresses:
  assumes "good_servers m" shows "sd_address ` set (map_values m) = set (map_keys m)"
proof -
  have wf: "map_wf m" using assms by (simp add: good_servers_def)
  have "a \<in> sd_address ` set (map_values m) \<longleftrightarrow> a \<in> set (map_keys m)" for a
  proof
    assume "a \<in> sd_address ` set (map_values m)"
    then obtain s where "s \<in> set (map_values m)" "a = sd_address s" by auto
    with good_servers_value [OF assms] have "map_of m a = Some s" by simp
    then show "a \<in> set (map_keys m)" by (metis map_of_None_keys option.distinct(1))
  next
    assume "a \<in> set (map_keys m)"
    then obtain s where s: "map_of m a = Some s" by (metis map_of_None_keys not_None_eq)
    then have "sd_address s = a" "s \<in> set (map_values m)"
      using assms wf in_map_values [of m s] unfolding good_servers_def by blast+
    then show "a \<in> sd_address ` set (map_values m)" by blast
  qed
  then show ?thesis by blast
qed

lemma updateServers_ok:
  assumes "servers_ok tp" "good_servers (td_servers (tp_description tp))"
  shows "\<exists>tp'. updateServers now incoming tp = Inr tp' \<and> servers_ok tp' \<and> same_but_servers tp tp' \<and> in_sync tp'"
proof -
  let ?tp1 = "case incoming of Some sd \<Rightarrow> tp\<lparr>tp_servers := set_server_description sd (tp_servers tp)\<rparr> | None \<Rightarrow> tp"
  have tp1: "servers_ok ?tp1" "same_but_servers tp ?tp1"
    using set_server_description_ok(1) [OF assms(1)] assms(1)
    by (auto simp: same_but_servers_def split: option.splits)
  from create_servers_ok [OF tp1(1)] obtain tp2 where
    tp2: "create_servers now (map_values (td_servers (tp_description ?tp1))) ?tp1 = Inr tp2" "servers_ok tp2"
      "same_but_servers ?tp1 tp2"
      "set (map_keys (tp_servers tp2)) = set (map_keys (tp_servers ?tp1))
        \<union> sd_address ` set (map_values (td_servers (tp_description ?tp1)))" by blast
  let ?gone = "filter (\<lambda>a. \<not> hasServer (tp_description tp2) a) (map_keys (tp_servers tp2))"
  from destroy_servers_ok [OF tp2(2)] obtain tp3 where
    tp3: "destroy_servers now ?gone tp2 = Inr tp3" "servers_ok tp3" "same_but_servers tp2 tp3"
      "set (map_keys (tp_servers tp3)) = set (map_keys (tp_servers tp2)) - set ?gone" by blast
  have same: "same_but_servers tp tp3"
    using tp1(2) tp2(3) tp3(3) same_but_servers_trans by blast
  have desc: "tp_description x = tp_description tp" if "same_but_servers tp x" for x
    using that by (metis same_but_servers_def topology.select_convs(4) topology.surjective topology.update_convs(5,14))
  have "tp_description tp2 = tp_description tp" "tp_description tp3 = tp_description tp" "tp_description ?tp1 = tp_description tp"
    using desc same_but_servers_trans [OF tp1(2) tp2(3)] same tp1(2) by blast+
  then have "in_sync tp3"
    using tp3(4) tp2(4) good_servers_addresses [OF assms(2)]
    by (auto simp: in_sync_def hasServer_def map_has_iff)
  with tp2(1) tp3(1,2) same show ?thesis by (simp add: updateServers_def Let_def)
qed

lemma same_but_servers_fields:
  assumes "same_but_servers tp tp'"
  shows "tp_description tp' = tp_description tp" "tp_waitQueue tp' = tp_waitQueue tp"
    "tp_answered tp' = tp_answered tp" "tp_nextRequest tp' = tp_nextRequest tp" "tp_state tp' = tp_state tp"
    "tp_options tp' = tp_options tp"
  using assms by (cases tp; cases tp'; simp add: same_but_servers_def)+

lemma processWaitQueue_frame:
  assumes "\<forall>i. 0 \<le> random i \<and> random i < 1"
  shows "same_frame tp (topology_processWaitQueue random tp)"
proof (cases "tp_state tp = STATE_CLOSED")
  case True
  with drainWaitQueue_effect(3) show ?thesis by (simp add: topology_processWaitQueue_def)
next
  case False
  with processWaitQueue_effect [OF assms False] show ?thesis by blast
qed

lemma description_changed_frame:
  "same_frame tp (description_changed previous tp)"
  "tp_waitQueue (description_changed previous tp) = tp_waitQueue tp"
  "tp_answered (description_changed previous tp) = tp_answered tp"
  by (simp_all add: description_changed_def detectShardedTopology_def tp_emit_def same_frame_def)

definition tp_inv :: "topology \<Rightarrow> bool" where
  "tp_inv tp = (td_inv (tp_description tp) \<and> servers_ok tp
     \<and> (td_compatibilityError (tp_description tp) = None \<longrightarrow> in_sync tp))"

lemma tp_inv_frame: "same_frame tp tp' \<Longrightarrow> tp_inv tp \<Longrightarrow> tp_inv tp'"
  by (simp add: same_frame_def tp_inv_def servers_ok_def in_sync_def)

lemma serverUpdateHandler_cases:
  assumes "hasServer (tp_description tp) (sd_address sd)" "\<not> isStaleServerDescription (tp_description tp) sd"
    and "TopologyDescription_update now (tp_description tp) sd = Inr td"
  obtains ct ev tp1 tp2 where "tp1 = tp\<lparr>tp_clusterTime := ct, tp_description := td, tp_events := ev\<rparr>"
    and "serverUpdateHandler now random sd tp =
      (if td_compatibilityError td \<noteq> None then Inr tp1
       else rbind (updateServers now (Some sd) tp1)
         (\<lambda>tp3. let tp4 = (if tp_waitQueue tp3 \<noteq> [] then topology_processWaitQueue random tp3 else tp3)
                 in Inr (if tp2 then tp4 else description_changed (tp_description tp) tp4)))"
proof -
  obtain previous where previous: "map_of (td_servers (tp_description tp)) (sd_address sd) = Some previous"
    using assms(1) by (auto simp: hasServer_def map_has_def)
  let ?tp1 = "case sd_clusterTime sd of Some ct \<Rightarrow> tp\<lparr>tp_clusterTime := advanceClusterTime (tp_clusterTime tp) ct\<rparr> | None \<Rightarrow> tp"
  let ?tp2 = "?tp1\<lparr>tp_description := td\<rparr>"
  let ?eq = "ServerDescription_equals previous sd"
  let ?x = "if td_compatibilityError td \<noteq> None
    then tp_emit (TopologyError (mk_error MongoCompatibilityError ''incompatible server'')) ?tp2
    else if ?eq then ?tp2 else announce_server previous sd ?tp2"
  show ?thesis
  proof (rule that)
    show "?x = tp\<lparr>tp_clusterTime := tp_clusterTime ?x, tp_description := td, tp_events := tp_events ?x\<rparr>"
      by (cases tp) (simp add: tp_emit_def announce_server_def split: option.splits)
    show "serverUpdateHandler now random sd tp =
      (if td_compatibilityError td \<noteq> None then Inr ?x
       else rbind (updateServers now (Some sd) ?x)
         (\<lambda>tp3. let tp4 = (if tp_waitQueue tp3 \<noteq> [] then topology_processWaitQueue random tp3 else tp3)
                 in Inr (if ?eq then tp4 else description_changed (tp_description tp) tp4)))"
      using assms previous by (simp add: serverUpdateHandler_def Let_def)
  qed
qed

lemma serverUpdateHandler_inv:
  assumes "tp_inv tp" "reportable sd" "\<forall>i. 0 \<le> random i \<and> random i < 1"
  shows "\<exists>tp'. serverUpdateHandler now random sd tp = Inr tp' \<and> tp_inv tp'"
proof (cases "hasServer (tp_description tp) (sd_address sd) \<and> \<not> isStaleServerDescription (tp_description tp) sd")
  case False
  with assms(1) show ?thesis by (auto simp: serverUpdateHandler_def Let_def)
next
  case True
  obtain td where td: "TopologyDescription_update now (tp_description tp) sd = Inr td" "td_inv td"
    using td_inv_update [OF _ assms(2)] assms(1) by (auto simp: tp_inv_def)
  obtain ct ev tp1 eq where tp1: "tp1 = tp\<lparr>tp_clusterTime := ct, tp_description := td, tp_events := ev\<rparr>"
    and run: "serverUpdateHandler now random sd tp =
      (if td_compatibilityError td \<noteq> None then Inr tp1
       else rbind (updateServers now (Some sd) tp1)
         (\<lambda>tp3. let tp4 = (if tp_waitQueue tp3 \<noteq> [] then topology_processWaitQueue random tp3 else tp3)
                 in Inr (if eq then tp4 else description_changed (tp_description tp) tp4)))"
    by (rule serverUpdateHandler_cases [OF conjunct1 [OF True] conjunct2 [OF True] td(1), of random])
  have fields: "tp_description tp1 = td" "servers_ok tp1"
    using assms(1) unfolding tp1 by (simp_all add: tp_inv_def servers_ok_def)
  show ?thesis
  proof (cases "td_compatibilityError td = None")
    case False
    with run fields td(2) show ?thesis by (auto simp: tp_inv_def)
  next
    case compatible: True
    from updateServers_ok [OF fields(2), of now "Some sd"] fields(1) td_inv_good [OF td(2)] obtain tp3 where
      tp3: "updateServers now (Some sd) tp1 = Inr tp3" "servers_ok tp3" "same_but_servers tp1 tp3" "in_sync tp3" by blast
    have inv3: "tp_inv tp3" using tp3 td(2) fields(1) same_but_servers_fields(1) [OF tp3(3)] by (simp add: tp_inv_def)
    let ?tp4 = "if tp_waitQueue tp3 \<noteq> [] then topology_processWaitQueue random tp3 else tp3"
    have inv4: "tp_inv ?tp4" using tp_inv_frame [OF processWaitQueue_frame [OF assms(3)] inv3] inv3 by simp
    have "tp_inv (description_changed p ?tp4)" for p
      by (rule tp_inv_frame [OF description_changed_frame(1) inv4])
    with run tp3(1) inv4 compatible show ?thesis by (simp add: Let_def)
  qed
qed

text \<open>A run of descriptions the monitors report.\<close>

fun handle_updates :: "(nat \<Rightarrow> rat) \<Rightarrow> (int \<times> serverDescription) list \<Rightarrow> topology \<Rightarrow> mongoError + topology" where
  "handle_updates random [] tp = Inr tp"
| "handle_updates random ((now, sd) # us) tp = rbind (serverUpdateHandler now random sd tp) (handle_updates random us)"


lemma tp_inv_example: "tp_inv example_tp"
proof -
  have "servers_ok example_tp" unfolding servers_ok_def
    by (simp add: example_tp_def example_topologyOptions_def example_options_def Monitor_new_ok)
  with example_tp_facts(1,2) show ?thesis by (simp add: tp_inv_def)
qed


end
