(* ===== verification/Selection_Requests.thy ===== *)
theory Selection_Requests
  imports Topology
begin

text \<open>
  The server selection requests of a topology as a transition system: every operation of
  \<open>src/sdam/topology.ts\<close> that touches the wait queue is a step, and in every reachable state each
  request has been answered at most once and none is lost.
\<close>

section \<open>Every selection request is answered once\<close>

text \<open>The steps of a topology in which nothing throws.\<close>

inductive tp_step :: "topology \<Rightarrow> topology \<Rightarrow> bool" where
  tp_select: "(\<forall>i. 0 \<le> random i \<and> random i < 1) \<Longrightarrow>
     selectServer random selector rp txn timeout tp = Inr tp' \<Longrightarrow> tp_step tp tp'"
| tp_timeout: "r \<in> set (tp_waitQueue tp) \<Longrightarrow> rq_timer r \<Longrightarrow> \<not> rq_cancelled r \<Longrightarrow> tp_step tp (selection_timeout r tp)"
| tp_update: "(\<forall>i. 0 \<le> random i \<and> random i < 1) \<Longrightarrow>
     serverUpdateHandler now random sd tp = Inr tp' \<Longrightarrow> tp_step tp tp'"
| tp_srv: "detectSrvRecords now rnd hosts tp = Inr tp' \<Longrightarrow> tp_step tp tp'"
| tp_connect: "(\<forall>i. 0 \<le> random i \<and> random i < 1) \<Longrightarrow> topology_connect now random rp tp = Inr tp' \<Longrightarrow> tp_step tp tp'"
| tp_connected: "connect_selected err tp = Inr tp' \<Longrightarrow> tp_step tp tp'"
| tp_close: "topology_close tp = Inr tp' \<Longrightarrow> tp_step tp tp'"
| tp_close_servers: "topology_close_servers now tp = Inr tp' \<Longrightarrow> tp_step tp tp'"

inductive tp_reachable :: "topology \<Rightarrow> bool" where
  tp_start: "Topology_new now rnd txns seeds options = Inr tp \<Longrightarrow> tp_reachable tp"
| tp_next: "tp_reachable tp \<Longrightarrow> tp_step tp tp' \<Longrightarrow> tp_reachable tp'"

text \<open>
  The books: answers and requests have distinct numbers, and every number given out is either
  answered or belongs to a request that is still waiting.
\<close>

abbreviation live_ids :: "selectionRequest list \<Rightarrow> nat list" where
  "live_ids qs \<equiv> map rq_id (filter (\<lambda>r. \<not> rq_cancelled r) qs)"

definition books :: "topology \<Rightarrow> bool" where
  "books tp = (distinct (map fst (tp_answered tp) @ live_ids (tp_waitQueue tp))
     \<and> distinct (map rq_id (tp_waitQueue tp))
     \<and> set (map fst (tp_answered tp) @ live_ids (tp_waitQueue tp)) = {..<tp_nextRequest tp}
     \<and> (\<forall>r \<in> set (tp_waitQueue tp). rq_id r < tp_nextRequest tp))"

text \<open>An answer step moves numbers from the queue to the answers.\<close>

lemma books_move:
  assumes "books tp" "mset (map fst (tp_answered tp') @ live_ids (tp_waitQueue tp'))
      = mset (map fst (tp_answered tp) @ live_ids (tp_waitQueue tp))"
    and "mset (map rq_id (tp_waitQueue tp')) \<subseteq># mset (map rq_id (tp_waitQueue tp))"
    and "tp_nextRequest tp' = tp_nextRequest tp"
  shows "books tp'"
proof -
  have d: "distinct (map fst (tp_answered tp') @ live_ids (tp_waitQueue tp'))"
    "set (map fst (tp_answered tp') @ live_ids (tp_waitQueue tp')) = {..<tp_nextRequest tp}"
    using assms(1,2) unfolding books_def
    by (metis mset_eq_imp_distinct_iff, metis mset_eq_setD)
  have q: "distinct (map rq_id (tp_waitQueue tp'))"
    using distinct_subseteq_mset [OF _ assms(3)] assms(1) by (simp add: books_def)
  have "set (map rq_id (tp_waitQueue tp')) \<subseteq> set (map rq_id (tp_waitQueue tp))"
    using set_mset_mono [OF assms(3)] by simp
  then have "\<forall>r \<in> set (tp_waitQueue tp'). rq_id r < tp_nextRequest tp"
    using assms(1) by (fastforce simp: books_def)
  with d q assms(4) show ?thesis by (simp add: books_def)
qed

lemma filter_partition_mset:
  assumes "\<And>x. x \<in> set xs \<Longrightarrow> R x \<longleftrightarrow> P x \<or> Q x" "\<And>x. \<not> (P x \<and> Q x)"
  shows "mset (filter P xs) + mset (filter Q xs) = mset (filter R xs)"
  using assms(1)
proof (induction xs)
  case (Cons x xs)
  then have IH: "mset (filter P xs) + mset (filter Q xs) = mset (filter R xs)" by simp
  show ?case using Cons.prems [of x] assms(2) [of x] IH by (cases "P x"; cases "Q x") auto
qed simp

lemma right_answers_ids: "list_all2 (right_answer tp) rs as \<Longrightarrow> map fst as = map rq_id rs"
  by (induction rule: list_all2_induct) (auto simp: right_answer_def)

lemma books_processWaitQueue:
  assumes "\<forall>i. 0 \<le> random i \<and> random i < 1" "books tp"
  shows "books (topology_processWaitQueue random tp)"
proof (cases "tp_state tp = STATE_CLOSED")
  case True
  have "books (drainWaitQueue topology_closed_error tp)"
    by (rule books_move [OF assms(2)])
      (use drainWaitQueue_effect [where err = topology_closed_error and tp = tp] in \<open>simp_all add: same_frame_def comp_def\<close>)
  with True show ?thesis by (simp add: topology_processWaitQueue_def)
next
  case False
  from processWaitQueue_effect [OF assms(1) False] obtain as where
    as: "tp_answered (topology_processWaitQueue random tp) = tp_answered tp @ as"
      "list_all2 (right_answer tp) (filter (answerable tp) (tp_waitQueue tp)) as"
      "tp_waitQueue (topology_processWaitQueue random tp) = filter (waiting tp) (tp_waitQueue tp)"
      "same_frame tp (topology_processWaitQueue random tp)" by blast
  have ids: "map fst as = map rq_id (filter (answerable tp) (tp_waitQueue tp))"
    by (rule right_answers_ids [OF as(2)])
  have live: "live_ids (filter (waiting tp) (tp_waitQueue tp)) = map rq_id (filter (waiting tp) (tp_waitQueue tp))"
    by (rule arg_cong [where f = "map rq_id"]) (simp only: filter_id_conv, simp add: waiting_def)
  have part: "mset (filter (answerable tp) (tp_waitQueue tp)) + mset (filter (waiting tp) (tp_waitQueue tp))
      = mset (filter (\<lambda>r. \<not> rq_cancelled r) (tp_waitQueue tp))"
    by (rule filter_partition_mset) (auto simp: answerable_def waiting_def split: sum.splits list.splits)
  show ?thesis
  proof (rule books_move [OF assms(2)])
    have "mset (map rq_id (filter (answerable tp) (tp_waitQueue tp))) + mset (map rq_id (filter (waiting tp) (tp_waitQueue tp)))
        = mset (live_ids (tp_waitQueue tp))"
      using arg_cong [OF part, of "image_mset rq_id"] by simp
    then show "mset (map fst (tp_answered (topology_processWaitQueue random tp))
          @ live_ids (tp_waitQueue (topology_processWaitQueue random tp)))
        = mset (map fst (tp_answered tp) @ live_ids (tp_waitQueue tp))"
      unfolding as(1,3) live map_append ids by (simp add: add.assoc)
    show "mset (map rq_id (tp_waitQueue (topology_processWaitQueue random tp))) \<subseteq># mset (map rq_id (tp_waitQueue tp))"
      unfolding as(3) by (simp add: image_mset_subseteq_mono)
    show "tp_nextRequest (topology_processWaitQueue random tp) = tp_nextRequest tp"
      using as(4) by (simp add: same_frame_def)
  qed
qed

lemma books_cong:
  assumes "books tp" "tp_answered tp' = tp_answered tp" "tp_waitQueue tp' = tp_waitQueue tp"
    "tp_nextRequest tp' = tp_nextRequest tp"
  shows "books tp'"
  using assms by (simp add: books_def)

lemma books_same_but_servers: "same_but_servers tp tp' \<Longrightarrow> books tp \<Longrightarrow> books tp'"
  by (rule books_cong) (simp_all add: same_but_servers_fields)

lemma books_new_request:
  assumes "books tp" "rq_id r = tp_nextRequest tp" "\<not> rq_cancelled r"
  shows "books (tp\<lparr>tp_nextRequest := Suc (tp_nextRequest tp), tp_waitQueue := tp_waitQueue tp @ [r]\<rparr>)"
    and "books (answer r a (tp\<lparr>tp_nextRequest := Suc (tp_nextRequest tp)\<rparr>))"
proof -
  have new: "tp_nextRequest tp \<notin> set (map fst (tp_answered tp) @ live_ids (tp_waitQueue tp))"
    "tp_nextRequest tp \<notin> set (map rq_id (tp_waitQueue tp))"
    "{..<Suc (tp_nextRequest tp)} = insert (tp_nextRequest tp) {..<tp_nextRequest tp}"
    using assms(1) by (auto simp: books_def lessThan_Suc)
  show "books (tp\<lparr>tp_nextRequest := Suc (tp_nextRequest tp), tp_waitQueue := tp_waitQueue tp @ [r]\<rparr>)"
    using assms new unfolding books_def by (auto simp: less_Suc_eq)
  show "books (answer r a (tp\<lparr>tp_nextRequest := Suc (tp_nextRequest tp)\<rparr>))"
    using assms new unfolding books_def answer_def by (auto simp: less_Suc_eq)
qed

lemma books_selectServer:
  assumes "\<forall>i. 0 \<le> random i \<and> random i < 1" "books tp"
    and "selectServer random selector rp txn timeout tp = Inr tp'"
  shows "books tp'"
proof -
  from assms(3) obtain f where "resolve_selector selector rp = Inr f"
    by (auto simp: selectServer_def rbind_Inr_iff)
  let ?r = "\<lparr>rq_id = tp_nextRequest tp, rq_selector = f, rq_transaction = txn,
    rq_timer = (the_default (top_serverSelectionTimeoutMS (tp_options tp)) timeout \<noteq> 0), rq_cancelled = False\<rparr>"
  have r: "rq_id ?r = tp_nextRequest tp" "\<not> rq_cancelled ?r" by simp_all
  have cases: "tp' = topology_processWaitQueue random
        (tp\<lparr>tp_nextRequest := Suc (tp_nextRequest tp), tp_waitQueue := tp_waitQueue tp @ [?r]\<rparr>)
      \<or> (\<exists>a. tp' = answer ?r a (tp\<lparr>tp_nextRequest := Suc (tp_nextRequest tp)\<rparr>))"
    using assms(3) \<open>resolve_selector selector rp = Inr f\<close>
    by (auto simp: selectServer_def Let_def split: option.splits if_splits)
  from cases books_processWaitQueue [OF assms(1) books_new_request(1) [OF assms(2) r]]
    books_new_request(2) [OF assms(2) r] show ?thesis by blast
qed

lemma books_timeout:
  assumes "books tp" "r \<in> set (tp_waitQueue tp)" "\<not> rq_cancelled r"
  shows "books (selection_timeout r tp)"
proof -
  let ?c = "\<lambda>q. if rq_id q = rq_id r then q\<lparr>rq_cancelled := True, rq_timer := False\<rparr> else q"
  have d: "distinct (map rq_id (tp_waitQueue tp))" using assms(1) by (simp add: books_def)
  have split: "mset (live_ids qs) = add_mset (rq_id r) (mset (live_ids (map ?c qs)))"
    if "r \<in> set qs" "distinct (map rq_id qs)" for qs
    using that
  proof (induction qs)
    case (Cons q qs)
    show ?case
    proof (cases "q = r")
      case True
      then have "\<forall>p \<in> set qs. rq_id p \<noteq> rq_id r" using Cons.prems(2) by (force simp: image_iff)
      then have "map ?c qs = qs" by (simp add: map_idI)
      with True assms(3) show ?thesis by simp
    next
      case False
      then have "r \<in> set qs" "rq_id q \<noteq> rq_id r" using Cons.prems by auto
      with Cons.IH Cons.prems(2) show ?thesis by simp
    qed
  qed simp
  have ids: "map rq_id (map ?c (tp_waitQueue tp)) = map rq_id (tp_waitQueue tp)" by simp
  have q: "tp_waitQueue (selection_timeout r tp) = map ?c (tp_waitQueue tp)"
    by (simp add: selection_timeout_def answer_def)
  show ?thesis
  proof (rule books_move [OF assms(1)])
    show "mset (map fst (tp_answered (selection_timeout r tp)) @ live_ids (tp_waitQueue (selection_timeout r tp)))
        = mset (map fst (tp_answered tp) @ live_ids (tp_waitQueue tp))"
      using split [OF assms(2) d] by (simp add: selection_timeout_def answer_def)
    show "mset (map rq_id (tp_waitQueue (selection_timeout r tp))) \<subseteq># mset (map rq_id (tp_waitQueue tp))"
      unfolding q ids by simp
  qed (simp add: selection_timeout_def answer_def)
qed

lemma create_servers_same: "create_servers now sds tp = Inr tp' \<Longrightarrow> same_but_servers tp tp'"
proof (induction sds arbitrary: tp)
  case (Cons sd sds)
  show ?case
  proof (cases "map_has (tp_servers tp) (sd_address sd)")
    case False
    with Cons.prems obtain st where
      c: "create_servers now sds ((tp_emit (ServerOpening (sd_address sd)) tp)\<lparr>tp_servers := st\<rparr>) = Inr tp'"
      by (auto simp: createAndConnectServer_def Let_def rbind_Inr_iff)
    have "same_but_servers tp ((tp_emit (ServerOpening (sd_address sd)) tp)\<lparr>tp_servers := st\<rparr>)"
      by (simp add: same_but_servers_def tp_emit_def)
    from same_but_servers_trans [OF this Cons.IH [OF c]] show ?thesis .
  qed (use Cons in auto)
qed simp

lemma connect_all_same: "connect_all now sds m tp = Inr (m', tp') \<Longrightarrow> same_but_servers tp tp'"
proof (induction sds arbitrary: m tp)
  case (Cons sd sds)
  then obtain m1 where c: "connect_all now sds m1 (tp_emit (ServerOpening (sd_address sd)) tp) = Inr (m', tp')"
    by (auto simp: createAndConnectServer_def Let_def rbind_Inr_iff)
  have "same_but_servers tp (tp_emit (ServerOpening (sd_address sd)) tp)"
    by (simp add: same_but_servers_def tp_emit_def)
  from same_but_servers_trans [OF this Cons.IH [OF c]] show ?case .
qed simp

lemma destroy_servers_same: "destroy_servers now as tp = Inr tp' \<Longrightarrow> same_but_servers tp tp'"
proof (induction as arbitrary: tp)
  case (Cons a as)
  show ?case
  proof (cases "map_of (tp_servers tp) a")
    case (Some st)
    with Cons.prems obtain e m where c: "destroy_servers now as (tp_emit e (tp\<lparr>tp_servers := m\<rparr>)) = Inr tp'"
      by (auto simp: destroyServer_def rbind_Inr_iff)
    have "same_but_servers tp (tp_emit e (tp\<lparr>tp_servers := m\<rparr>))"
      by (simp add: same_but_servers_def tp_emit_def)
    from same_but_servers_trans [OF this Cons.IH [OF c]] show ?thesis .
  qed (use Cons in auto)
qed simp

lemma updateServers_same: "updateServers now incoming tp = Inr tp' \<Longrightarrow> same_but_servers tp tp'"
proof -
  assume u: "updateServers now incoming tp = Inr tp'"
  let ?tp1 = "case incoming of Some sd \<Rightarrow> tp\<lparr>tp_servers := set_server_description sd (tp_servers tp)\<rparr> | None \<Rightarrow> tp"
  from u obtain sds tp2 as where s: "create_servers now sds ?tp1 = Inr tp2" "destroy_servers now as tp2 = Inr tp'"
    by (auto simp: updateServers_def Let_def rbind_Inr_iff)
  have "same_but_servers tp ?tp1" by (simp add: same_but_servers_def split: option.splits)
  from same_but_servers_trans [OF this same_but_servers_trans [OF create_servers_same [OF s(1)] destroy_servers_same [OF s(2)]]]
  show ?thesis .
qed

lemma books_update:
  assumes "\<forall>i. 0 \<le> random i \<and> random i < 1" "books tp" "serverUpdateHandler now random sd tp = Inr tp'"
  shows "books tp'"
proof (cases "hasServer (tp_description tp) (sd_address sd) \<and> \<not> isStaleServerDescription (tp_description tp) sd")
  case False
  with assms(2,3) show ?thesis by (auto simp: serverUpdateHandler_def Let_def)
next
  case True
  then obtain td where td: "TopologyDescription_update now (tp_description tp) sd = Inr td"
    using assms(3) by (auto simp: serverUpdateHandler_def Let_def rbind_Inr_iff hasServer_def map_has_def)
  obtain ct ev tp1 eq where tp1: "tp1 = tp\<lparr>tp_clusterTime := ct, tp_description := td, tp_events := ev\<rparr>"
    and run: "serverUpdateHandler now random sd tp =
      (if td_compatibilityError td \<noteq> None then Inr tp1
       else rbind (updateServers now (Some sd) tp1)
         (\<lambda>tp3. let tp4 = (if tp_waitQueue tp3 \<noteq> [] then topology_processWaitQueue random tp3 else tp3)
                 in Inr (if eq then tp4 else description_changed (tp_description tp) tp4)))"
    by (rule serverUpdateHandler_cases [OF conjunct1 [OF True] conjunct2 [OF True] td, of random])
  have b1: "books tp1" by (rule books_cong [OF assms(2)]) (simp_all add: tp1)
  show ?thesis
  proof (cases "td_compatibilityError td = None")
    case compatible: True
    with run assms(3) obtain tp3 where tp3: "updateServers now (Some sd) tp1 = Inr tp3"
      by (cases "updateServers now (Some sd) tp1") auto
    have b3: "books tp3" by (rule books_same_but_servers [OF updateServers_same [OF tp3] b1])
    let ?tp4 = "if tp_waitQueue tp3 \<noteq> [] then topology_processWaitQueue random tp3 else tp3"
    have b4: "books ?tp4" using books_processWaitQueue [OF assms(1) b3] b3 by simp
    have "books (description_changed p ?tp4)" for p
      by (rule books_cong [OF b4]) (use description_changed_frame [where tp = ?tp4 and previous = p] in \<open>simp_all add: same_frame_def\<close>)
    with b4 run assms(3) tp3 compatible show ?thesis by (auto simp: Let_def split: if_splits)
  qed (use run assms(3) b1 in auto)
qed

lemma books_fake_updates:
  "\<forall>i. 0 \<le> random i \<and> random i < 1 \<Longrightarrow> fake_updates now random sds tp = Inr tp' \<Longrightarrow> books tp \<Longrightarrow> books tp'"
  by (induction sds arbitrary: tp) (auto simp: rbind_Inr_iff intro: books_update)

lemma books_transition: "tp_transition s tp = Inr tp' \<Longrightarrow> books tp \<Longrightarrow> books tp'"
  by (auto simp: tp_transition_def rbind_Inr_iff intro: books_cong)

lemma books_emit [simp]: "books (tp_emit e tp) = books tp"
  by (simp add: books_def tp_emit_def)

lemma books_description_changed [simp]: "books (description_changed p tp) = books tp"
  using description_changed_frame [where tp = tp and previous = p] by (simp add: books_def same_frame_def)

lemma books_connect:
  assumes "\<forall>i. 0 \<le> random i \<and> random i < 1" "books tp" "topology_connect now random rp tp = Inr tp'"
  shows "books tp'"
proof (cases "tp_state tp = STATE_CONNECTED")
  case False
  let ?init = "TopologyDescription_new TopologyUnknown [] None None None None 0 0"
  from assms(3) False obtain tp1 tp3 tp4 where
    c: "tp_transition STATE_CONNECTING tp = Inr tp1"
      "connectServers now (map_values (td_servers (tp_description (description_changed ?init (tp_emit TopologyOpening tp1)))))
        (description_changed ?init (tp_emit TopologyOpening tp1)) = Inr tp3"
      "tp4 = tp3 \<or> (\<exists>sds. fake_updates now random sds tp3 = Inr tp4)"
      "selectServer random (SelPreference (the_default ReadPreference_primary rp)) None None None tp4 = Inr tp'"
    by (auto simp: topology_connect_def Let_def rbind_Inr_iff split: if_splits)
  have "books (description_changed ?init (tp_emit TopologyOpening tp1))"
    using books_transition [OF c(1) assms(2)] by simp
  moreover from c(2) obtain m tp2 where
    "connect_all now (map_values (td_servers (tp_description (description_changed ?init (tp_emit TopologyOpening tp1))))) []
      (description_changed ?init (tp_emit TopologyOpening tp1)) = Inr (m, tp2)" "tp3 = tp2\<lparr>tp_servers := m\<rparr>"
    by (auto simp: connectServers_def rbind_Inr_iff)
  ultimately have "books tp3" using books_same_but_servers connect_all_same
    by (metis books_def topology.select_convs(6,11,12) topology.surjective topology.update_convs(5))
  with c(3) have "books tp4" using books_fake_updates [OF assms(1)] by blast
  from books_selectServer [OF assms(1) this c(4)] show ?thesis .
qed (use assms in \<open>auto simp: topology_connect_def\<close>)

lemma books_close:
  assumes "books tp" "topology_close tp = Inr tp'" shows "books tp'"
proof (cases "tp_state tp = STATE_CLOSED \<or> tp_state tp = STATE_CLOSING")
  case False
  with assms(2) obtain tp1 where t: "tp_transition STATE_CLOSING tp = Inr tp1"
      "tp' = (drainWaitQueue topology_closed_error tp1)\<lparr>tp_srvPolling := False, tp_detecting := False\<rparr>"
    by (auto simp: topology_close_def rbind_Inr_iff)
  have b1: "books tp1" by (rule books_transition [OF t(1) assms(1)])
  have "books (drainWaitQueue topology_closed_error tp1)"
    by (rule books_move [OF b1])
      (use drainWaitQueue_effect [where err = topology_closed_error and tp = tp1] in \<open>simp_all add: same_frame_def comp_def\<close>)
  then show ?thesis by (rule books_cong) (simp_all add: t(2))
qed (use assms in \<open>auto simp: topology_close_def\<close>)

lemma books_close_servers:
  assumes "books tp" "topology_close_servers now tp = Inr tp'" shows "books tp'"
proof -
  from assms(2) obtain tp1 where t: "destroy_servers now (map_keys (tp_servers tp)) tp = Inr tp1"
      "tp_transition STATE_CLOSED (tp_emit TopologyClosed (tp1\<lparr>tp_servers := []\<rparr>)) = Inr tp'"
    by (auto simp: topology_close_servers_def rbind_Inr_iff)
  have b1: "books tp1" by (rule books_same_but_servers [OF destroy_servers_same [OF t(1)] assms(1)])
  have "books (tp_emit TopologyClosed (tp1\<lparr>tp_servers := []\<rparr>))"
    by (rule books_cong [OF b1]) (simp_all add: tp_emit_def)
  from books_transition [OF t(2) this] show ?thesis .
qed

lemma books_srv:
  assumes "books tp" "detectSrvRecords now rnd hosts tp = Inr tp'" shows "books tp'"
proof (cases "tp' = tp")
  case False
  with assms(2) obtain td tp1 where t: "updateServers now None (tp\<lparr>tp_description := td\<rparr>) = Inr tp1"
      "tp' = description_changed (tp_description tp) tp1"
    by (auto simp: detectSrvRecords_def Let_def rbind_Inr_iff split: if_splits)
  have "books (tp\<lparr>tp_description := td\<rparr>)" by (rule books_cong [OF assms(1)]) simp_all
  from books_same_but_servers [OF updateServers_same [OF t(1)] this] show ?thesis by (simp add: t(2))
qed (use assms in simp)

lemma books_step: "tp_step tp tp' \<Longrightarrow> books tp \<Longrightarrow> books tp'"
proof (induction rule: tp_step.induct)
  case (tp_connected err tp tp')
  then show ?case
    by (cases err) (auto simp: connect_selected_def rbind_Inr_iff intro: books_close books_transition)
qed (auto intro: books_selectServer books_timeout books_update books_srv books_connect books_close books_close_servers)

lemma books_reachable: "tp_reachable tp \<Longrightarrow> books tp"
proof (induction rule: tp_reachable.induct)
  case (tp_start now rnd txns seeds options tp)
  then show ?case by (auto simp: Topology_new_def Let_def rbind_Inr_iff books_def)
qed (auto intro: books_step)

text \<open>
  (C10) Every server selection request is answered at most once, and none is lost: in every state a
  topology can reach, whatever is selected, timed out, reported, connected or closed, the numbers
  of the answered requests are distinct, and every request made so far has been answered or is
  still waiting in the queue.
\<close>

theorem selection_answered_once:
  assumes "tp_reachable tp"
  shows "distinct (map fst (tp_answered tp))
    \<and> (\<forall>i < tp_nextRequest tp. i \<in> set (map fst (tp_answered tp))
         \<or> (\<exists>r \<in> set (tp_waitQueue tp). rq_id r = i \<and> rq_cancelled r = False))"
proof -
  have b: "books tp" by (rule books_reachable [OF assms])
  have mem: "i \<in> set (map fst (tp_answered tp)) \<or> i \<in> set (live_ids (tp_waitQueue tp))"
    if "i < tp_nextRequest tp" for i
  proof -
    have "i \<in> set (map fst (tp_answered tp) @ live_ids (tp_waitQueue tp))"
      using b that by (simp only: books_def lessThan_iff)
    then show ?thesis by simp
  qed
  have live: "\<exists>r \<in> set (tp_waitQueue tp). rq_id r = i \<and> rq_cancelled r = False"
    if "i \<in> set (live_ids (tp_waitQueue tp))" for i
    using that by auto
  have "distinct (map fst (tp_answered tp))" using b by (simp add: books_def)
  with mem live show ?thesis by blast
qed

lemma Topology_new_example:
  "\<exists>tp. Topology_new 0 (\<lambda>_. 0) (\<lambda>_. example_transaction) [SeedAddress ''a:1''] example_topologyOptions = Inr tp
     \<and> tp_nextRequest tp = 0 \<and> tp_waitQueue tp = [] \<and> tp_state tp = STATE_CLOSED \<and> tp_answered tp = []
     \<and> td_type (tp_description tp) = TopologyUnknown \<and> tp_options tp = example_topologyOptions
     \<and> tp_servers tp = []"
  by (simp add: Topology_new_def selectedHosts_def example_topologyOptions_def topologyTypeFromOptions_def
      TopologyDescription_new_def Let_def)

text \<open>A request made on a topology that was never connected is refused at once.\<close>

theorem selection_answered_once_witness:
  "\<exists>tp. tp_reachable tp \<and> tp_nextRequest tp = 1 \<and> distinct (map fst (tp_answered tp))
     \<and> (0 \<in> set (map fst (tp_answered tp)) \<or> (\<exists>r \<in> set (tp_waitQueue tp). rq_id r = 0 \<and> rq_cancelled r = False))"
proof -
  obtain tp where tp: "Topology_new 0 (\<lambda>_. 0) (\<lambda>_. example_transaction) [SeedAddress ''a:1''] example_topologyOptions = Inr tp"
      "tp_nextRequest tp = 0" using Topology_new_example by blast
  obtain tp1 where tp1: "selectServer (\<lambda>_. 0) (SelFunction writableServerSelector) None None None tp = Inr tp1"
    by (simp add: selectServer_def resolve_selector_def)
  have r: "tp_reachable tp1"
    by (rule tp_next [OF tp_start [OF tp(1)] tp_select [OF _ tp1]]) simp
  have n: "tp_nextRequest tp1 = 1"
    using tp1 tp(2) processWaitQueue_frame [of "\<lambda>_. 0"]
    by (auto simp: selectServer_def resolve_selector_def Let_def same_frame_def)
  from selection_answered_once [OF r] r n show ?thesis by auto
qed

lemma topology_close_open:
  assumes "tp_state tp \<in> {STATE_CONNECTING, STATE_CONNECTED}"
  shows "\<exists>tp'. topology_close tp = Inr tp' \<and> tp_waitQueue tp' = [] \<and> tp_state tp' = STATE_CLOSING
    \<and> tp_servers tp' = tp_servers tp \<and> tp_options tp' = tp_options tp"
proof -
  let ?tp1 = "tp\<lparr>tp_state := STATE_CLOSING\<rparr>"
  have "topology_close tp =
      Inr ((drainWaitQueue topology_closed_error ?tp1)\<lparr>tp_srvPolling := False, tp_detecting := False\<rparr>)"
    using assms by (auto simp: topology_close_def tp_transition_def makeStateMachine_def)
  then show ?thesis
    using drainWaitQueue_effect [where err = topology_closed_error and tp = ?tp1] by (simp add: same_frame_def)
qed

text \<open>
  Closing leaves no request behind: when a connecting or connected topology is closed, every
  request made up to then has been answered, and the queue is empty.
\<close>

theorem close_answers_everyone:
  assumes "tp_reachable tp" "tp_state tp \<in> {STATE_CONNECTING, STATE_CONNECTED}"
  shows "\<exists>tp'. topology_close tp = Inr tp' \<and> tp_waitQueue tp' = [] \<and> tp_state tp' = STATE_CLOSING
    \<and> set (map fst (tp_answered tp')) = {..<tp_nextRequest tp'} \<and> distinct (map fst (tp_answered tp'))"
proof -
  obtain tp' where c: "topology_close tp = Inr tp'" "tp_waitQueue tp' = []" "tp_state tp' = STATE_CLOSING"
    using topology_close_open [OF assms(2)] by blast
  have "books tp'" by (rule books_close [OF books_reachable [OF assms(1)] c(1)])
  with c show ?thesis unfolding books_def by simp
qed

lemma example_connecting:
  "\<exists>tp. tp_reachable tp \<and> tp_state tp = STATE_CONNECTING \<and> servers_ok tp"
proof -
  obtain tp where tp: "Topology_new 0 (\<lambda>_. 0) (\<lambda>_. example_transaction) [] example_topologyOptions = Inr tp"
      "tp_state tp = STATE_CLOSED" "tp_options tp = example_topologyOptions" "td_servers (tp_description tp) = []"
    by (simp add: Topology_new_def selectedHosts_def example_topologyOptions_def TopologyDescription_new_def Let_def)
  let ?init = "TopologyDescription_new TopologyUnknown [] None None None None 0 0"
  let ?tp2 = "description_changed ?init (tp_emit TopologyOpening (tp\<lparr>tp_state := STATE_CONNECTING\<rparr>))"
  have f: "tp_description ?tp2 = tp_description tp" "tp_state ?tp2 = STATE_CONNECTING" "tp_options ?tp2 = tp_options tp"
    using description_changed_frame(1) [where previous = ?init and tp = "tp_emit TopologyOpening (tp\<lparr>tp_state := STATE_CONNECTING\<rparr>)"]
    by (simp_all add: same_frame_def tp_emit_def)
  have rp: "readPreferenceServerSelector ReadPreference_primary = Inr (read_select ReadPreference_primary)"
    by (simp add: readPreferenceServerSelector_def rp_isValid_def ReadPreference_isValid_def VALID_MODES_def
        ReadPreference_primary_def)
  obtain tp3 where tp3: "selectServer (\<lambda>_. 0) (SelPreference ReadPreference_primary) None None None (?tp2\<lparr>tp_servers := []\<rparr>) = Inr tp3"
      "tp_state tp3 = STATE_CONNECTING" "tp_servers tp3 = []" "tp_options tp3 = tp_options ?tp2"
    using processWaitQueue_frame [of "\<lambda>_. 0"] f(2)
    by (simp add: selectServer_def resolve_selector_def rp Let_def same_frame_def)
  have "topology_connect 0 (\<lambda>_. 0) None tp = Inr tp3"
    using tp f tp3
    by (simp add: topology_connect_def tp_transition_def makeStateMachine_def Let_def connectServers_def
        example_topologyOptions_def)
  from tp_next [OF tp_start [OF tp(1)] tp_connect [OF _ this]] have "tp_reachable tp3" by simp
  moreover have "servers_ok tp3"
    using tp3(3,4) f(3) tp(3) by (simp add: servers_ok_def example_topologyOptions_def example_options_def)
  ultimately show ?thesis using tp3(2) by blast
qed

theorem close_answers_everyone_witness:
  "\<exists>tp tp'. tp_reachable tp \<and> topology_close tp = Inr tp' \<and> tp_waitQueue tp' = []
     \<and> set (map fst (tp_answered tp')) = {..<tp_nextRequest tp'}"
proof -
  obtain tp where tp: "tp_reachable tp" "tp_state tp = STATE_CONNECTING" using example_connecting by blast
  from close_answers_everyone [OF tp(1)] tp show ?thesis by blast
qed

lemma processWaitQueue_keeps_waiting:
  assumes "\<forall>i. 0 \<le> random i \<and> random i < 1" "tp_state tp \<noteq> STATE_CLOSED" "r \<in> set (tp_waitQueue tp)" "waiting tp r"
  shows "r \<in> set (tp_waitQueue (topology_processWaitQueue random tp))"
  using processWaitQueue_effect [OF assms(1,2)] assms(3,4) by auto

text \<open>
  (C39) A request made while the topology is closing is not drained when the close completes: if no
  server suits it and it has no timeout, the topology ends up closed with the request still in the
  queue, unanswered and with no timer.
\<close>

theorem closing_request_stranded:
  assumes "tp_reachable tp" "tp_state tp = STATE_CLOSING" "servers_ok tp"
    and "f (tp_description tp) (map_values (td_servers (tp_description tp))) = Inr []"
  shows "\<exists>tp1 tp2. selectServer (\<lambda>_. 0) (SelFunction f) None None (Some 0) tp = Inr tp1
    \<and> topology_close_servers now tp1 = Inr tp2 \<and> tp_state tp2 = STATE_CLOSED
    \<and> (\<exists>r \<in> set (tp_waitQueue tp2). rq_id r = tp_nextRequest tp \<and> rq_timer r = False \<and> rq_cancelled r = False)
    \<and> tp_nextRequest tp \<notin> set (map fst (tp_answered tp2))"
proof -
  let ?r = "\<lparr>rq_id = tp_nextRequest tp, rq_selector = f, rq_transaction = None, rq_timer = False, rq_cancelled = False\<rparr>"
  let ?tp0 = "tp\<lparr>tp_nextRequest := Suc (tp_nextRequest tp), tp_waitQueue := tp_waitQueue tp @ [?r]\<rparr>"
  let ?tp1 = "topology_processWaitQueue (\<lambda>_. 0) ?tp0"
  have sel: "selectServer (\<lambda>_. 0) (SelFunction f) None None (Some 0) tp = Inr ?tp1"
    by (simp add: selectServer_def resolve_selector_def Let_def)
  have frame: "same_frame ?tp0 ?tp1" by (rule processWaitQueue_frame) simp
  have q1: "?r \<in> set (tp_waitQueue ?tp1)"
    by (rule processWaitQueue_keeps_waiting) (use assms(2,4) in \<open>simp_all add: waiting_def\<close>)
  have "servers_ok ?tp1" using assms(3) frame by (simp add: servers_ok_def same_frame_def)
  from destroy_servers_ok [OF this] obtain tp2 where
    tp2: "destroy_servers now (map_keys (tp_servers ?tp1)) ?tp1 = Inr tp2" "same_but_servers ?tp1 tp2" by blast
  let ?tp3 = "(tp_emit TopologyClosed (tp2\<lparr>tp_servers := []\<rparr>))\<lparr>tp_state := STATE_CLOSED\<rparr>"
  have close: "topology_close_servers now ?tp1 = Inr ?tp3"
    using tp2 frame assms(2) same_but_servers_fields(5) [OF tp2(2)]
    by (simp add: topology_close_servers_def tp_transition_def makeStateMachine_def same_frame_def tp_emit_def)
  have q3: "?r \<in> set (tp_waitQueue ?tp3)"
    using q1 same_but_servers_fields(2) [OF tp2(2)] by (simp add: tp_emit_def)
  have "books tp" by (rule books_reachable [OF assms(1)])
  then have "books ?tp3" using books_close_servers [OF _ close] books_selectServer [OF _ _ sel] by simp
  then have d: "distinct (map fst (tp_answered ?tp3) @ live_ids (tp_waitQueue ?tp3))"
    by (simp only: books_def)
  have "rq_id ?r \<in> set (live_ids (tp_waitQueue ?tp3))"
    using q3 by (simp only: set_map set_filter) (rule image_eqI [where x = ?r], simp_all)
  with d have "rq_id ?r \<notin> set (map fst (tp_answered ?tp3))"
    unfolding distinct_append by blast
  moreover have "\<exists>r \<in> set (tp_waitQueue ?tp3). rq_id r = tp_nextRequest tp \<and> rq_timer r = False \<and> rq_cancelled r = False"
    by (rule bexI [OF _ q3]) simp
  moreover have "tp_state ?tp3 = STATE_CLOSED" by simp
  ultimately show ?thesis using sel close by (intro exI [of _ ?tp1] exI [of _ ?tp3]) simp
qed

theorem closing_request_stranded_witness:
  "\<exists>tp tp1 tp2. tp_state tp = STATE_CLOSING
    \<and> selectServer (\<lambda>_. 0) (SelFunction (sameServerSelector None)) None None (Some 0) tp = Inr tp1
    \<and> topology_close_servers 9 tp1 = Inr tp2 \<and> tp_state tp2 = STATE_CLOSED
    \<and> (\<exists>r \<in> set (tp_waitQueue tp2). rq_id r = tp_nextRequest tp \<and> rq_timer r = False \<and> rq_cancelled r = False)"
proof -
  obtain tp0 where tp0: "tp_reachable tp0" "tp_state tp0 = STATE_CONNECTING" "servers_ok tp0"
    using example_connecting by blast
  then obtain tp where tp: "topology_close tp0 = Inr tp" "tp_state tp = STATE_CLOSING"
      "tp_servers tp = tp_servers tp0" "tp_options tp = tp_options tp0"
    using topology_close_open [of tp0] by auto
  have "tp_reachable tp" by (rule tp_next [OF tp0(1) tp_close [OF tp(1)]])
  moreover have "servers_ok tp" using tp0(3) tp(3,4) by (simp add: servers_ok_def)
  moreover have "sameServerSelector None (tp_description tp) (map_values (td_servers (tp_description tp))) = Inr []"
    by (simp add: sameServerSelector_def)
  ultimately show ?thesis
    using closing_request_stranded [OF _ tp(2), of "sameServerSelector None" 9] tp(2) by blast
qed

end
