(* ===== verification/Buffers.thy ===== *)
theory Buffers
  imports Utils
begin

text \<open>
  Node \<open>Buffer\<close>s as byte lists: little-endian reads and writes with their range errors, \<open>slice\<close>, and
  the \<open>BufferPool\<close> of \<open>src/utils.ts\<close>, which reads a list of chunks as if it were one buffer.  The
  pool refines a queue of bytes, an interface stated as the locale \<open>byte_queue\<close>.
\<close>

section \<open>Integers in buffers\<close>

definition range_error :: mongoError where
  "range_error = mk_error JSError ''ERR_OUT_OF_RANGE''"

definition le32 :: "int \<Rightarrow> byte list" where
  "le32 v = [word_of_int v, word_of_int (v div 256), word_of_int (v div 65536), word_of_int (v div 16777216)]"

definition le_value :: "byte list \<Rightarrow> int" where
  "le_value bs = foldr (\<lambda>b acc. uint b + 256 * acc) bs 0"

definition to_int32 :: "int \<Rightarrow> int" where
  "to_int32 n = (let u = n mod 4294967296 in if u < 2147483648 then u else u - 4294967296)"

definition readUInt32LE :: "byte list \<Rightarrow> nat \<Rightarrow> mongoError + nat" where
  "readUInt32LE buf offset =
     (if offset + 4 \<le> length buf then Inr (nat (le_value (take 4 (drop offset buf)))) else Inl range_error)"

definition readInt32LE :: "byte list \<Rightarrow> nat \<Rightarrow> mongoError + int" where
  "readInt32LE buf offset =
     (if offset + 4 \<le> length buf then Inr (to_int32 (le_value (take 4 (drop offset buf)))) else Inl range_error)"

definition writeInt32LE :: "int \<Rightarrow> mongoError + byte list" where
  "writeInt32LE v = (if -2147483648 \<le> v \<and> v < 2147483648 then Inr (le32 v) else Inl range_error)"

lemma length_le32 [simp]: "length (le32 v) = 4"
  by (simp add: le32_def)

lemma uint_byte_of_int: "uint (word_of_int v :: byte) = v mod 256"
  by (simp add: uint_word_of_int)

lemma mod_256_split: "v mod (256 * m) = v mod 256 + 256 * (v div 256 mod m)" if "0 < m" for v m :: int
  using zmod_zmult2_eq [of m v 256] that by simp

lemma le_value_le32: "le_value (le32 v) = v mod 4294967296"
proof -
  have d: "v div 65536 = v div 256 div 256" "v div 16777216 = v div 256 div 256 div 256"
    using zdiv_zmult2_eq [of 256 v 256] zdiv_zmult2_eq [of 256 v 65536] by simp_all
  have m: "(4294967296::int) = 256 * 16777216" "(16777216::int) = 256 * 65536" "(65536::int) = 256 * 256" by simp_all
  have "le_value (le32 v) = v mod 256 + 256 * (v div 256 mod 256 + 256 * (v div 256 div 256 mod 256
      + 256 * (v div 256 div 256 div 256 mod 256)))"
    unfolding le_value_def le32_def d by (simp add: uint_byte_of_int)
  also have "\<dots> = v mod 4294967296"
    by (simp only: m(1) mod_256_split [of 16777216] mod_256_split [of 65536] mod_256_split [of 256] m(2,3))
      (simp only: mod_256_split)
  finally show ?thesis .
qed

lemma to_int32_id:
  assumes "-2147483648 \<le> v" "v < 2147483648"
  shows "to_int32 (v mod 4294967296) = v"
proof (cases "0 \<le> v")
  case True
  with assms show ?thesis by (simp add: to_int32_def)
next
  case False
  have "v mod 4294967296 = (v + 4294967296) mod 4294967296" by simp
  also have "\<dots> = v + 4294967296" using False assms by (intro mod_pos_pos_trivial) auto
  finally show ?thesis using False assms by (simp add: to_int32_def)
qed

lemma readInt32LE_le32:
  assumes "-2147483648 \<le> v" "v < 2147483648" "length pre = n"
  shows "readInt32LE (pre @ le32 v @ rest) n = Inr v"
proof -
  have "take 4 (drop n (pre @ le32 v @ rest)) = le32 v" using assms(3) by simp
  then have "readInt32LE (pre @ le32 v @ rest) n = Inr (to_int32 (le_value (le32 v)))"
    using assms(3) by (simp add: readInt32LE_def)
  then show ?thesis by (simp only: le_value_le32 to_int32_id [OF assms(1,2)])
qed

lemma readUInt32LE_le32:
  assumes "0 \<le> v" "v < 4294967296" "length pre = n"
  shows "readUInt32LE (pre @ le32 v @ rest) n = Inr (nat v)"
proof -
  have "take 4 (drop n (pre @ le32 v @ rest)) = le32 v" using assms(3) by simp
  then have "readUInt32LE (pre @ le32 v @ rest) n = Inr (nat (le_value (le32 v)))"
    using assms(3) by (simp add: readUInt32LE_def)
  then show ?thesis using assms by (simp add: le_value_le32)
qed

lemma readInt32LE_append: "n + 4 \<le> length xs \<Longrightarrow> readInt32LE (xs @ ys) n = readInt32LE xs n"
  by (simp add: readInt32LE_def)

lemma writeInt32LE_le32: "writeInt32LE v = Inr bs \<Longrightarrow> bs = le32 v \<and> -2147483648 \<le> v \<and> v < 2147483648"
  by (auto simp: writeInt32LE_def split: if_splits)

text \<open>\<open>buf.slice(start, end)\<close>: negative positions count from the end, and both are clamped.\<close>

definition clamp :: "nat \<Rightarrow> int \<Rightarrow> nat" where
  "clamp len n = (if n < 0 then nat (max 0 (int len + n)) else min (nat n) len)"

definition slice :: "byte list \<Rightarrow> int \<Rightarrow> int \<Rightarrow> byte list" where
  "slice buf start stop =
     (let s = clamp (length buf) start; e = clamp (length buf) stop in take (e - s) (drop s buf))"

text \<open>\<open>buf[i]\<close> as a number in a bitwise expression, where \<open>undefined\<close> counts as 0.\<close>

definition byte_at :: "byte list \<Rightarrow> int \<Rightarrow> int" where
  "byte_at buf i = (if 0 \<le> i \<and> i < int (length buf) then uint (buf ! nat i) else 0)"

section \<open>The buffer pool\<close>

record bufferPool =
  bp_buffers :: "byte list list"
  bp_length :: nat

definition BufferPool_new :: bufferPool where
  "BufferPool_new = \<lparr>bp_buffers = [], bp_length = 0\<rparr>"

definition bp_append :: "byte list \<Rightarrow> bufferPool \<Rightarrow> bufferPool" where
  "bp_append buffer p = p\<lparr>bp_buffers := bp_buffers p @ [buffer], bp_length := bp_length p + length buffer\<rparr>"

text \<open>
  The copying loop: it copies whole buffers while more bytes are wanted than the buffer has, then a
  prefix of the next one.  The result is what was copied and the buffers from the last one on, with
  the copied prefix removed.
\<close>

fun copy_loop :: "nat \<Rightarrow> byte list list \<Rightarrow> byte list \<times> byte list list" where
  "copy_loop bytesToCopy [] = ([], [])"
| "copy_loop bytesToCopy (b # bs) =
     (if bytesToCopy > length b
      then (let (copied, rest) = copy_loop (bytesToCopy - length b) bs in (b @ copied, rest))
      else (take bytesToCopy b, drop bytesToCopy b # bs))"

definition bp_read :: "nat \<Rightarrow> bool \<Rightarrow> bufferPool \<Rightarrow> byte list \<times> bufferPool" where
  "bp_read n consume p =
     (if n > bp_length p then ([], p)
      else if n = bp_length p then
        (concat (bp_buffers p), if consume then p\<lparr>bp_buffers := [], bp_length := 0\<rparr> else p)
      else if n \<le> length (hd (bp_buffers p)) then
        (take n (hd (bp_buffers p)),
         if consume then p\<lparr>bp_buffers := drop n (hd (bp_buffers p)) # tl (bp_buffers p), bp_length := bp_length p - n\<rparr>
         else p)
      else
        (let (result, rest) = copy_loop n (bp_buffers p)
         in (result, if consume then p\<lparr>bp_buffers := rest, bp_length := bp_length p - n\<rparr> else p)))"

definition bp_peek :: "nat \<Rightarrow> bufferPool \<Rightarrow> byte list" where
  "bp_peek n p = fst (bp_read n False p)"

text \<open>The argument check of \<open>read\<close>, whose size is any number.\<close>

definition bp_read_checked :: "int \<Rightarrow> bool \<Rightarrow> bufferPool \<Rightarrow> mongoError + (byte list \<times> bufferPool)" where
  "bp_read_checked n consume p =
     (if n < 0 then Inl (mk_error MongoInvalidArgumentError ''Argument size must be a non-negative number'')
      else Inr (bp_read (nat n) consume p))"

section \<open>A queue of bytes\<close>

text \<open>
  What a reader of a byte stream may rely on: appending adds at the end, reading takes from the
  front all the bytes asked for or nothing, peeking takes nothing.
\<close>

locale byte_queue =
  fixes bytes :: "'q \<Rightarrow> byte list"
    and ok :: "'q \<Rightarrow> bool"
    and size_of :: "'q \<Rightarrow> nat"
    and append :: "byte list \<Rightarrow> 'q \<Rightarrow> 'q"
    and read :: "nat \<Rightarrow> bool \<Rightarrow> 'q \<Rightarrow> byte list \<times> 'q"
  assumes size_bytes: "ok q \<Longrightarrow> size_of q = length (bytes q)"
    and append_ok: "ok q \<Longrightarrow> ok (append b q)"
    and append_bytes: "ok q \<Longrightarrow> bytes (append b q) = bytes q @ b"
    and read_result: "ok q \<Longrightarrow> fst (read n c q) = (if n \<le> length (bytes q) then take n (bytes q) else [])"
    and read_bytes: "ok q \<Longrightarrow> bytes (snd (read n c q)) = (if c \<and> n \<le> length (bytes q) then drop n (bytes q) else bytes q)"
    and read_ok: "ok q \<Longrightarrow> ok (snd (read n c q))"
begin

lemma append_all: "ok q \<Longrightarrow> ok (fold append bs q) \<and> bytes (fold append bs q) = bytes q @ concat bs"
  by (induction bs arbitrary: q) (simp_all add: append_ok append_bytes)

lemma read_back: "ok q \<Longrightarrow> n \<le> size_of q \<Longrightarrow> fst (read n True q) @ bytes (snd (read n True q)) = bytes q"
  by (simp add: read_result read_bytes size_bytes)

lemma read_too_much: "ok q \<Longrightarrow> size_of q < n \<Longrightarrow> fst (read n c q) = [] \<and> bytes (snd (read n c q)) = bytes q"
  by (simp add: read_result read_bytes size_bytes)

lemma peek_keeps: "ok q \<Longrightarrow> bytes (snd (read n False q)) = bytes q"
  by (simp add: read_bytes)

end

definition bp_bytes :: "bufferPool \<Rightarrow> byte list" where
  "bp_bytes p = concat (bp_buffers p)"

definition bp_ok :: "bufferPool \<Rightarrow> bool" where
  "bp_ok p = (bp_length p = length (concat (bp_buffers p)))"

lemma copy_loop_spec:
  "n \<le> length (concat bs) \<Longrightarrow>
     fst (copy_loop n bs) = take n (concat bs) \<and> concat (snd (copy_loop n bs)) = drop n (concat bs)"
proof (induction bs arbitrary: n)
  case Nil
  then show ?case by simp
next
  case (Cons b bs)
  show ?case
  proof (cases "n > length b")
    case True
    with Cons.IH [of "n - length b"] Cons.prems show ?thesis
      by (cases "copy_loop (n - length b) bs") simp
  next
    case False
    then show ?thesis by simp
  qed
qed

lemma bp_read_spec:
  assumes "bp_ok p"
  shows "fst (bp_read n c p) = (if n \<le> length (bp_bytes p) then take n (bp_bytes p) else [])
    \<and> bp_bytes (snd (bp_read n c p)) = (if c \<and> n \<le> length (bp_bytes p) then drop n (bp_bytes p) else bp_bytes p)
    \<and> bp_ok (snd (bp_read n c p))"
proof -
  have len: "bp_length p = length (bp_bytes p)" using assms by (simp add: bp_ok_def bp_bytes_def)
  consider "n > bp_length p" | "n = bp_length p" | "n < bp_length p" by linarith
  then show ?thesis
  proof cases
    case 1
    with assms len show ?thesis by (simp add: bp_read_def)
  next
    case 2
    with len show ?thesis by (auto simp: bp_read_def bp_bytes_def bp_ok_def)
  next
    case 3
    with len have ne: "bp_buffers p \<noteq> []" by (auto simp: bp_bytes_def)
    then obtain b bs where bbs: "bp_buffers p = b # bs" by (cases "bp_buffers p") auto
    show ?thesis
    proof (cases "n \<le> length b")
      case True
      with 3 len assms bbs show ?thesis by (auto simp: bp_read_def bp_bytes_def bp_ok_def)
    next
      case False
      have "n \<le> length (concat (bp_buffers p))" using 3 len by (simp add: bp_bytes_def)
      note spec = copy_loop_spec [OF this]
      obtain r rest where cl: "copy_loop n (bp_buffers p) = (r, rest)" by fastforce
      have "bp_read n c p = (r, if c then p\<lparr>bp_buffers := rest, bp_length := bp_length p - n\<rparr> else p)"
        using False 3 bbs cl by (simp add: bp_read_def)
      with spec cl 3 len assms show ?thesis by (simp add: bp_bytes_def bp_ok_def)
    qed
  qed
qed

interpretation bp: byte_queue bp_bytes bp_ok bp_length bp_append bp_read
proof unfold_locales
  show "bp_ok q \<Longrightarrow> bp_length q = length (bp_bytes q)" for q by (simp add: bp_ok_def bp_bytes_def)
  show "bp_ok q \<Longrightarrow> bp_ok (bp_append b q)" for q b by (simp add: bp_ok_def bp_append_def)
  show "bp_ok q \<Longrightarrow> bp_bytes (bp_append b q) = bp_bytes q @ b" for q b
    by (simp add: bp_bytes_def bp_append_def)
qed (use bp_read_spec in blast)+

lemma bp_new_ok [simp]: "bp_ok BufferPool_new" "bp_bytes BufferPool_new = []"
  by (simp_all add: BufferPool_new_def bp_ok_def bp_bytes_def)

datatype poolAction = AppendBytes "byte list" | ReadBytes nat

fun bp_run :: "poolAction list \<Rightarrow> bufferPool \<Rightarrow> byte list \<times> bufferPool" where
  "bp_run [] p = ([], p)"
| "bp_run (AppendBytes b # as) p = bp_run as (bp_append b p)"
| "bp_run (ReadBytes n # as) p =
     (let (r, p1) = bp_read n True p; (rs, p2) = bp_run as p1 in (r @ rs, p2))"

fun appended :: "poolAction list \<Rightarrow> byte list" where
  "appended [] = []"
| "appended (AppendBytes b # as) = b @ appended as"
| "appended (ReadBytes n # as) = appended as"

lemma bp_run_spec:
  "bp_ok p \<Longrightarrow> bp_run as p = (r, p') \<Longrightarrow> r @ bp_bytes p' = bp_bytes p @ appended as \<and> bp_ok p'"
proof (induction as arbitrary: p r)
  case Nil
  then show ?case by simp
next
  case (Cons a as)
  show ?case
  proof (cases a)
    case (AppendBytes b)
    with Cons.IH [of "bp_append b p" r] Cons.prems show ?thesis
      by (simp add: bp.append_ok bp.append_bytes)
  next
    case (ReadBytes n)
    obtain r1 p1 where rd: "bp_read n True p = (r1, p1)" by fastforce
    obtain rs where rs: "bp_run as p1 = (rs, p')" "r = r1 @ rs"
      using Cons.prems(2) ReadBytes rd by (auto split: prod.splits)
    have "bp_ok p1" "r1 @ bp_bytes p1 = bp_bytes p"
      using bp_read_spec [OF Cons.prems(1), of n True] rd by (auto split: if_splits)
    with Cons.IH [OF _ rs(1)] rs(2) ReadBytes show ?thesis by simp
  qed
qed

text \<open>
  (C7) The buffer pool refines a queue of bytes.  After any appends and consuming reads, starting
  from the empty pool, the bytes read so far followed by the bytes left are the bytes appended, in
  order, whatever the chunk boundaries; a read that asks for more than there is returns nothing and
  takes nothing; and the recorded length is the number of bytes left.
\<close>

theorem buffer_pool_is_queue:
  "let (r, p) = bp_run actions BufferPool_new
   in r @ bp_bytes p = appended actions \<and> bp_length p = length (bp_bytes p)
      \<and> (\<forall>n c. bp_read n c p =
           (if n \<le> length (bp_bytes p) then (take n (bp_bytes p), snd (bp_read n c p)) else ([], p)))"
proof -
  obtain r p where rp: "bp_run actions BufferPool_new = (r, p)" by fastforce
  from bp_run_spec [OF bp_new_ok(1) rp] have q: "r @ bp_bytes p = appended actions" "bp_ok p" by simp_all
  have "bp_read n c p = (if n \<le> length (bp_bytes p) then (take n (bp_bytes p), snd (bp_read n c p)) else ([], p))" for n c
    using bp_read_spec [OF q(2), of n c] bp.size_bytes [OF q(2)]
    by (auto simp: prod_eq_iff bp_read_def split: if_splits)
  with q rp bp.size_bytes [OF q(2)] show ?thesis by simp
qed

end
