(* ===== verification/Wire_Protocol.thy ===== *)
theory Wire_Protocol
  imports Buffers
begin

text \<open>
  \<open>src/cmap/commands.ts\<close>: the wire-protocol messages the driver writes (\<open>OP_QUERY\<close>, \<open>OP_GETMORE\<close>,
  \<open>OP_KILL_CURSORS\<close>, \<open>OP_MSG\<close>) and the replies it parses (\<open>OP_REPLY\<close>, \<open>OP_MSG\<close>).  The BSON library is a
  parameter: \<open>ser\<close> serialises a document, \<open>deser\<close> reads one back or throws.  A namespace is its UTF-8
  bytes.  The global request counter is an argument.
\<close>

section \<open>Constants and request ids\<close>

definition OP_QUERY :: int where "OP_QUERY = 2004"
definition OP_GETMORE :: int where "OP_GETMORE = 2005"
definition OP_KILL_CURSORS :: int where "OP_KILL_CURSORS = 2007"
definition OP_COMPRESSED :: int where "OP_COMPRESSED = 2012"
definition OP_MSG :: int where "OP_MSG = 2013"

text \<open>Each returns the id and the new counter.\<close>

definition Query_getRequestId :: "int \<Rightarrow> int \<times> int" where
  "Query_getRequestId counter = (counter + 1, counter + 1)"

definition Msg_getRequestId :: "int \<Rightarrow> int \<times> int" where
  "Msg_getRequestId counter = (let n = (counter + 1) mod 2147483648 in (n, n))"

text \<open>The flag words; every flag is its own bit.\<close>

definition flag :: "bool \<Rightarrow> int \<Rightarrow> int" where
  "flag b v = (if b then v else 0)"

section \<open>Messages the driver writes\<close>

record 'd query =
  q_ns :: "byte list"
  q_query :: 'd
  q_numberToSkip :: int
  q_numberToReturn :: int
  q_returnFieldSelector :: "'d option"
  q_requestId :: int
  q_batchSize :: int
  q_secondaryOk :: bool
  q_tailable :: bool
  q_oplogReplay :: bool
  q_noCursorTimeout :: bool
  q_awaitData :: bool
  q_exhaust :: bool
  q_partial :: bool

definition Query_new ::
    "int \<Rightarrow> byte list option \<Rightarrow> 'd option \<Rightarrow> int option \<Rightarrow> int option \<Rightarrow> 'd option \<Rightarrow> bool option
     \<Rightarrow> mongoError + ('d query \<times> int)" where
  "Query_new counter ns query numberToSkip numberToReturn returnFieldSelector secondaryOk =
     (case (ns, query) of
        (None, _) \<Rightarrow> Inl (mk_error MongoRuntimeError ''Namespace must be specified for query'')
      | (_, None) \<Rightarrow> Inl (mk_error MongoRuntimeError ''A query document must be specified for query'')
      | (Some n, Some q) \<Rightarrow>
          if 0 \<in> set n then Inl (mk_error MongoRuntimeError ''Namespace cannot contain a null character'')
          else (let (i, counter1) = Query_getRequestId counter;
                    toReturn = the_default 0 numberToReturn
                in Inr (\<lparr>q_ns = n, q_query = q, q_numberToSkip = the_default 0 numberToSkip,
                     q_numberToReturn = toReturn, q_returnFieldSelector = returnFieldSelector,
                     q_requestId = i, q_batchSize = toReturn, q_secondaryOk = the_default False secondaryOk,
                     q_tailable = False, q_oplogReplay = False, q_noCursorTimeout = False,
                     q_awaitData = False, q_exhaust = False, q_partial = False\<rparr>, counter1)))"

definition query_flags :: "'d query \<Rightarrow> int" where
  "query_flags q = flag (q_tailable q) 2 + flag (q_secondaryOk q) 4 + flag (q_oplogReplay q) 8
     + flag (q_noCursorTimeout q) 16 + flag (q_awaitData q) 32 + flag (q_exhaust q) 64 + flag (q_partial q) 128"

text \<open>\<open>nonempty\<close> says whether the projection has any key; only then is it sent.\<close>

definition Query_toBin :: "('d \<Rightarrow> byte list) \<Rightarrow> ('d \<Rightarrow> bool) \<Rightarrow> 'd query \<Rightarrow> byte list list" where
  "Query_toBin ser nonempty q =
     (let headerLength = 4 * 4 + 4 + length (q_ns q) + 1 + 4 + 4;
          query = ser (q_query q);
          projection = (case q_returnFieldSelector q of
                          Some p \<Rightarrow> (if nonempty p then [ser p] else []) | None \<Rightarrow> []);
          totalLength = headerLength + length query + length (concat projection)
      in [le32 (int totalLength) @ le32 (q_requestId q) @ le32 0 @ le32 OP_QUERY @ le32 (query_flags q)
            @ q_ns q @ [0] @ le32 (q_numberToSkip q) @ le32 (q_batchSize q), query] @ projection)"

record getMore =
  gm_ns :: "byte list"
  gm_cursorId :: "64 word"
  gm_numberToReturn :: int
  gm_requestId :: int

text \<open>\<open>GetMore\<close> and \<open>KillCursor\<close> take the counter before incrementing it.\<close>

definition GetMore_new :: "int \<Rightarrow> byte list \<Rightarrow> 64 word \<Rightarrow> int option \<Rightarrow> getMore \<times> int" where
  "GetMore_new counter ns cursorId numberToReturn =
     (\<lparr>gm_ns = ns, gm_cursorId = cursorId, gm_numberToReturn = the_default 0 numberToReturn,
       gm_requestId = counter\<rparr>, counter + 1)"

definition low_bits :: "64 word \<Rightarrow> int" where "low_bits w = uint w mod 4294967296"
definition high_bits :: "64 word \<Rightarrow> int" where "high_bits w = uint w div 4294967296"

definition GetMore_toBin :: "getMore \<Rightarrow> byte list list" where
  "GetMore_toBin g =
     (let len = 4 + length (gm_ns g) + 1 + 4 + 8 + 4 * 4
      in [le32 (int len) @ le32 (gm_requestId g) @ le32 0 @ le32 OP_GETMORE @ le32 0
            @ gm_ns g @ [0] @ le32 (gm_numberToReturn g)
            @ le32 (low_bits (gm_cursorId g)) @ le32 (high_bits (gm_cursorId g))])"

record killCursor =
  kc_ns :: "byte list"
  kc_requestId :: int
  kc_cursorIds :: "64 word list"

definition KillCursor_new :: "int \<Rightarrow> byte list \<Rightarrow> 64 word list \<Rightarrow> killCursor \<times> int" where
  "KillCursor_new counter ns cursorIds = (\<lparr>kc_ns = ns, kc_requestId = counter, kc_cursorIds = cursorIds\<rparr>, counter + 1)"

definition KillCursor_toBin :: "killCursor \<Rightarrow> byte list list" where
  "KillCursor_toBin k =
     (let len = 4 + 4 + 4 * 4 + length (kc_cursorIds k) * 8
      in [le32 (int len) @ le32 (kc_requestId k) @ le32 0 @ le32 OP_KILL_CURSORS @ le32 0
            @ le32 (int (length (kc_cursorIds k)))
            @ concat (map (\<lambda>c. le32 (low_bits c) @ le32 (high_bits c)) (kc_cursorIds k))])"

record 'd msg =
  ms_command :: 'd
  ms_requestId :: int
  ms_checksumPresent :: bool
  ms_moreToCome :: bool
  ms_exhaustAllowed :: bool

text \<open>\<open>prepare\<close> sets \<open>$db\<close> and \<open>$readPreference\<close> on the command document.\<close>

definition Msg_new ::
    "('d \<Rightarrow> 'd) \<Rightarrow> int \<Rightarrow> 'd option \<Rightarrow> int option \<Rightarrow> bool \<Rightarrow> bool option \<Rightarrow> mongoError + ('d msg \<times> int)" where
  "Msg_new prepare counter command requestId moreToCome exhaustAllowed =
     (case command of
        None \<Rightarrow> Inl (mk_error MongoInvalidArgumentError ''Query document must be specified for query'')
      | Some c \<Rightarrow>
          (let (i, counter1) = (if truthy_num requestId then (the requestId, counter) else Msg_getRequestId counter)
           in Inr (\<lparr>ms_command = prepare c, ms_requestId = i, ms_checksumPresent = False,
                ms_moreToCome = moreToCome, ms_exhaustAllowed = the_default False exhaustAllowed\<rparr>, counter1)))"

definition msg_flags :: "'d msg \<Rightarrow> int" where
  "msg_flags m = flag (ms_checksumPresent m) 1 + flag (ms_moreToCome m) 2 + flag (ms_exhaustAllowed m) 65536"

definition makeDocumentSegment :: "('d \<Rightarrow> byte list) \<Rightarrow> 'd \<Rightarrow> byte list list" where
  "makeDocumentSegment ser d = [[0], ser d]"

text \<open>\<open>writeInt32LE\<close> throws when the total length or a given request id is out of range.\<close>

definition Msg_toBin :: "('d \<Rightarrow> byte list) \<Rightarrow> 'd msg \<Rightarrow> mongoError + byte list list" where
  "Msg_toBin ser m =
     (let segment = makeDocumentSegment ser (ms_command m);
          totalLength = 4 * 4 + 4 + length (concat segment)
      in rbind (writeInt32LE (int totalLength)) (\<lambda>l.
           rbind (writeInt32LE (ms_requestId m)) (\<lambda>r.
             Inr ((l @ r @ le32 0 @ le32 OP_MSG @ le32 (msg_flags m)) # segment))))"

section \<open>Replies\<close>

record messageHeader =
  mh_length :: int
  mh_requestId :: int
  mh_responseTo :: int
  mh_opCode :: int
  mh_fromCompressed :: bool

datatype 'd doc = Raw "byte list" | Parsed 'd

text \<open>\<open>Response\<close>: the \<open>OP_REPLY\<close> body.  A negative count makes \<open>new Array\<close> throw.\<close>

record response_msg =
  rs_header :: messageHeader
  rs_data :: "byte list"
  rs_responseFlags :: int
  rs_cursorId :: "int \<times> int"
  rs_startingFrom :: int
  rs_numberReturned :: int

definition bit_set :: "int \<Rightarrow> int \<Rightarrow> bool" where
  "bit_set flags m = (flags div m mod 2 = 1)"

definition cursorNotFound :: "response_msg \<Rightarrow> bool" where "cursorNotFound r = bit_set (rs_responseFlags r) 1"
definition queryFailure :: "response_msg \<Rightarrow> bool" where "queryFailure r = bit_set (rs_responseFlags r) 2"
definition shardConfigStale :: "response_msg \<Rightarrow> bool" where "shardConfigStale r = bit_set (rs_responseFlags r) 4"
definition awaitCapable :: "response_msg \<Rightarrow> bool" where "awaitCapable r = bit_set (rs_responseFlags r) 8"

definition Response_new :: "messageHeader \<Rightarrow> byte list \<Rightarrow> mongoError + response_msg" where
  "Response_new h body =
     rbind (readInt32LE body 0) (\<lambda>flags. rbind (readInt32LE body 4) (\<lambda>lo. rbind (readInt32LE body 8) (\<lambda>hi.
       rbind (readInt32LE body 12) (\<lambda>from. rbind (readInt32LE body 16) (\<lambda>n.
         if n < 0 then Inl (mk_error JSError ''Invalid array length'')
         else Inr \<lparr>rs_header = h, rs_data = body, rs_responseFlags = flags, rs_cursorId = (lo, hi),
                rs_startingFrom = from, rs_numberReturned = n\<rparr>)))))"

text \<open>The documents of the body, from the given position on; the size is read with \<open>|\<close> and \<open><<\<close>.\<close>

definition size_at :: "byte list \<Rightarrow> int \<Rightarrow> int" where
  "size_at data i = to_int32 (byte_at data i + 256 * byte_at data (i + 1) + 65536 * byte_at data (i + 2)
     + 16777216 * byte_at data (i + 3))"

fun reply_documents :: "(byte list \<Rightarrow> mongoError + 'd) \<Rightarrow> bool \<Rightarrow> byte list \<Rightarrow> nat \<Rightarrow> int \<Rightarrow> mongoError + 'd doc list" where
  "reply_documents deser raw data 0 i = Inr []"
| "reply_documents deser raw data (Suc n) i =
     (let bsonSize = size_at data i; bin = slice data i (i + bsonSize)
      in rbind (if raw then Inr (Raw bin) else rbind (deser bin) (\<lambda>d. Inr (Parsed d)))
           (\<lambda>d. rbind (reply_documents deser raw data n (i + bsonSize)) (\<lambda>ds. Inr (d # ds))))"

text \<open>With \<open>documentsReturnedIn\<close> and raw mode a single document is parsed once more, keeping that field raw.\<close>

definition single_raw :: "(byte list \<Rightarrow> mongoError + 'd) \<Rightarrow> bool \<Rightarrow> bool \<Rightarrow> 'd doc list \<Rightarrow> mongoError + 'd doc list" where
  "single_raw deserRaw raw returnedIn docs =
     (case docs of
        [Raw bin] \<Rightarrow> (if raw \<and> returnedIn then rbind (deserRaw bin) (\<lambda>d. Inr [Parsed d]) else Inr docs)
      | _ \<Rightarrow> Inr docs)"

definition Response_parse ::
    "(byte list \<Rightarrow> mongoError + 'd) \<Rightarrow> (byte list \<Rightarrow> mongoError + 'd) \<Rightarrow> bool \<Rightarrow> bool \<Rightarrow> response_msg \<Rightarrow> mongoError + 'd doc list" where
  "Response_parse deser deserRaw raw returnedIn r =
     rbind (reply_documents deser raw (rs_data r) (nat (rs_numberReturned r)) 20) (single_raw deserRaw raw returnedIn)"

text \<open>\<open>BinMsg\<close>: the \<open>OP_MSG\<close> body.\<close>

record binMsg =
  bm_header :: messageHeader
  bm_data :: "byte list"
  bm_responseFlags :: int

definition checksumPresent :: "binMsg \<Rightarrow> bool" where "checksumPresent b = bit_set (bm_responseFlags b) 1"
definition moreToCome :: "binMsg \<Rightarrow> bool" where "moreToCome b = bit_set (bm_responseFlags b) 2"
definition exhaustAllowed :: "binMsg \<Rightarrow> bool" where "exhaustAllowed b = bit_set (bm_responseFlags b) 65536"

definition BinMsg_new :: "messageHeader \<Rightarrow> byte list \<Rightarrow> mongoError + binMsg" where
  "BinMsg_new h body =
     rbind (readInt32LE body 0) (\<lambda>flags. Inr \<lparr>bm_header = h, bm_data = body, bm_responseFlags = flags\<rparr>)"

text \<open>
  The section loop, on the data from the current index on: a byte that is neither 0 nor 1 is
  skipped.
\<close>

function sections :: "(byte list \<Rightarrow> mongoError + 'd) \<Rightarrow> bool \<Rightarrow> byte list \<Rightarrow> mongoError + 'd doc list" where
  "sections deser raw [] = Inr []"
| "sections deser raw (t # rest) =
     (if t = 0 then
        rbind (readUInt32LE rest 0) (\<lambda>bsonSize.
          rbind (if raw then Inr (Raw (take bsonSize rest))
                 else rbind (deser (take bsonSize rest)) (\<lambda>d. Inr (Parsed d)))
            (\<lambda>d. rbind (sections deser raw (drop bsonSize rest)) (\<lambda>ds. Inr (d # ds))))
      else if t = 1 then Inl (mk_error MongoRuntimeError ''OP_MSG Payload Type 1 detected unsupported protocol'')
      else sections deser raw rest)"
  by pat_completeness auto
termination
  by (relation "measure (\<lambda>(deser, raw, bs). length bs)") auto

definition BinMsg_parse ::
    "(byte list \<Rightarrow> mongoError + 'd) \<Rightarrow> (byte list \<Rightarrow> mongoError + 'd) \<Rightarrow> bool \<Rightarrow> bool \<Rightarrow> binMsg \<Rightarrow> mongoError + 'd doc list" where
  "BinMsg_parse deser deserRaw raw returnedIn b =
     rbind (sections deser raw (drop 4 (bm_data b))) (single_raw deserRaw raw returnedIn)"

end
