(* ===== verification/Message_Stream.thy ===== *)
theory Message_Stream
  imports Wire_Protocol
begin

text \<open>
  \<open>src/cmap/message_stream.ts\<close> and the dispatch of \<open>src/cmap/wire_protocol/compression.ts\<close>: framing
  incoming bytes into messages, and writing commands with optional compression.  The compression
  libraries are parameters.  The \<open>Duplex\<close> contract is used as Node gives it: the next chunk is
  written only after the previous \<open>_write\<close> has called back, so the callback of a decompression
  continues at once.
\<close>

section \<open>Compression\<close>

definition uncompressibleCommands :: "string list" where
  "uncompressibleCommands = [''ismaster'', ''saslStart'', ''saslContinue'', ''getnonce'', ''authenticate'',
     ''createUser'', ''updateUser'', ''copydbSaslStart'', ''copydbgetnonce'', ''copydb'']"

definition canCompress :: "string \<Rightarrow> bool" where
  "canCompress commandName = (commandName \<notin> set uncompressibleCommands)"

text \<open>The compressors by number: 0 is none, 1 snappy, 2 zlib; the last two are external.\<close>

type_synonym codec = "nat \<Rightarrow> byte list \<Rightarrow> mongoError + byte list"

text \<open>How a write ends: it called back, called back with an error, or threw.\<close>

datatype ending = Written | WriteFailed mongoError | WriteThrew mongoError

definition decompress :: "codec \<Rightarrow> nat \<Rightarrow> byte list \<Rightarrow> ending + byte list" where
  "decompress inflate compressorID data =
     (if compressorID > 2
      then Inl (WriteThrew (mk_error MongoDecompressionError ''Server sent message compressed using an unsupported compressor.''))
      else if compressorID = 0 then Inr data
      else (case inflate compressorID data of Inl e \<Rightarrow> Inl (WriteFailed e) | Inr b \<Rightarrow> Inr b))"

section \<open>Incoming data\<close>

definition MESSAGE_HEADER_SIZE :: nat where "MESSAGE_HEADER_SIZE = 16"
definition COMPRESSION_DETAILS_SIZE :: nat where "COMPRESSION_DETAILS_SIZE = 9"
definition kDefaultMaxBsonMessageSize :: int where "kDefaultMaxBsonMessageSize = 1024 * 1024 * 16 * 4"

datatype incoming = ReplyMessage response_msg | BinMessage binMsg

definition read_header :: "byte list \<Rightarrow> mongoError + messageHeader" where
  "read_header message =
     rbind (readInt32LE message 0) (\<lambda>l. rbind (readInt32LE message 4) (\<lambda>i. rbind (readInt32LE message 8) (\<lambda>r.
       rbind (readInt32LE message 12) (\<lambda>opCode. Inr \<lparr>mh_length = l, mh_requestId = i, mh_responseTo = r,
         mh_opCode = opCode, mh_fromCompressed = False\<rparr>))))"

text \<open>\<open>new ResponseType(message, header, body)\<close>, which may throw.\<close>

definition new_message :: "messageHeader \<Rightarrow> byte list \<Rightarrow> ending + incoming" where
  "new_message h body =
     (case (if mh_opCode h = OP_MSG then rbind (BinMsg_new h body) (\<lambda>b. Inr (BinMessage b))
            else rbind (Response_new h body) (\<lambda>r. Inr (ReplyMessage r))) of
        Inl e \<Rightarrow> Inl (WriteThrew e) | Inr m \<Rightarrow> Inr m)"

definition new_compressed :: "codec \<Rightarrow> byte list \<Rightarrow> messageHeader \<Rightarrow> ending + incoming" where
  "new_compressed inflate message h =
     (case rbind (readInt32LE message MESSAGE_HEADER_SIZE) (\<lambda>opCode.
             rbind (readInt32LE message (MESSAGE_HEADER_SIZE + 4)) (\<lambda>l.
               Inr (h\<lparr>mh_fromCompressed := True, mh_opCode := opCode, mh_length := l\<rparr>))) of
        Inl e \<Rightarrow> Inl (WriteThrew e)
      | Inr h1 \<Rightarrow>
          rbind (decompress inflate (nat (byte_at message 24)) (drop (MESSAGE_HEADER_SIZE + 9) message))
            (\<lambda>body. if int (length body) \<noteq> mh_length h1
                    then Inl (WriteFailed (mk_error MongoDecompressionError
                           ''Message body and message header must be the same length''))
                    else new_message h1 body))"

text \<open>One complete message.\<close>

definition message_of :: "codec \<Rightarrow> byte list \<Rightarrow> ending + incoming" where
  "message_of inflate message =
     (case read_header message of
        Inl e \<Rightarrow> Inl (WriteThrew e)
      | Inr h \<Rightarrow>
          if mh_opCode h \<noteq> OP_COMPRESSED then new_message h (drop MESSAGE_HEADER_SIZE message)
          else new_compressed inflate message h)"

definition invalid_size :: mongoError where
  "invalid_size = mk_error MongoParseError ''Invalid message size''"

lemma message_of_length: "message_of inflate f = Inr m \<Longrightarrow> 16 \<le> length f"
  by (auto simp: message_of_def read_header_def readInt32LE_def rbind_Inr_iff split: sum.splits if_splits)

lemma length_copy_loop: "length (fst (copy_loop n bs)) \<le> n"
  by (induction n bs rule: copy_loop.induct) (auto simp: split_def Let_def)

lemma bp_read_shrinks:
  assumes "n \<le> bp_length p" "4 \<le> bp_length p" "16 \<le> length (fst (bp_read n True p))"
  shows "bp_length (snd (bp_read n True p)) < bp_length p"
proof (cases "n = bp_length p")
  case True
  with assms(2) show ?thesis by (simp add: bp_read_def)
next
  case False
  have "length (fst (bp_read n True p)) \<le> n"
    using False assms(1) length_copy_loop [of n "bp_buffers p"]
    by (auto simp: bp_read_def split_def Let_def)
  moreover have "bp_length (snd (bp_read n True p)) = bp_length p - n"
    using False assms(1) by (simp add: bp_read_def split_def Let_def)
  ultimately show ?thesis using assms by linarith
qed

function (sequential) processIncomingData ::
    "codec \<Rightarrow> int \<Rightarrow> bufferPool \<Rightarrow> incoming list \<times> ending \<times> bufferPool" where
  "processIncomingData inflate maxBsonMessageSize p =
     (if bp_length p < 4 then ([], Written, p)
      else (case readInt32LE (bp_peek 4 p) 0 of
        Inl e \<Rightarrow> ([], WriteThrew e, p)
      | Inr sizeOfMessage \<Rightarrow>
          if sizeOfMessage < 0 then ([], WriteFailed invalid_size, p)
          else if sizeOfMessage > maxBsonMessageSize then ([], WriteFailed invalid_size, p)
          else if sizeOfMessage > int (bp_length p) then ([], Written, p)
          else (case message_of inflate (fst (bp_read (nat sizeOfMessage) True p)) of
                  Inl stop \<Rightarrow> ([], stop, snd (bp_read (nat sizeOfMessage) True p))
                | Inr m \<Rightarrow>
                    if bp_length (snd (bp_read (nat sizeOfMessage) True p)) \<ge> 4
                    then (case processIncomingData inflate maxBsonMessageSize (snd (bp_read (nat sizeOfMessage) True p)) of
                            (ms, r, p2) \<Rightarrow> (m # ms, r, p2))
                    else ([m], Written, snd (bp_read (nat sizeOfMessage) True p)))))"
  by pat_completeness auto
termination
  by (relation "measure (\<lambda>(inflate, maxBsonMessageSize, p). bp_length p)")
    (auto dest!: message_of_length intro!: bp_read_shrinks)

declare processIncomingData.simps [simp del]

definition stream_write :: "codec \<Rightarrow> int \<Rightarrow> byte list \<Rightarrow> bufferPool \<Rightarrow> incoming list \<times> ending \<times> bufferPool" where
  "stream_write inflate maxBsonMessageSize chunk p =
     processIncomingData inflate maxBsonMessageSize (bp_append chunk p)"

text \<open>Chunk after chunk, until a write fails.\<close>

fun stream_writes :: "codec \<Rightarrow> int \<Rightarrow> byte list list \<Rightarrow> bufferPool \<Rightarrow> incoming list \<times> ending \<times> bufferPool" where
  "stream_writes inflate mx [] p = ([], Written, p)"
| "stream_writes inflate mx (c # cs) p =
     (case stream_write inflate mx c p of
        (ms, Written, p1) \<Rightarrow> (case stream_writes inflate mx cs p1 of (ms', r, p2) \<Rightarrow> (ms @ ms', r, p2))
      | (ms, r, p1) \<Rightarrow> (ms, r, p1))"

section \<open>Outgoing commands\<close>

text \<open>
  \<open>writeCommand\<close> on the bytes \<open>data\<close> of the command; \<open>compressorID\<close> is 0 when no compressor was agreed
  on.  An error of the compressor goes to the operation's callback.
\<close>

definition writeCommand :: "codec \<Rightarrow> nat \<Rightarrow> string \<Rightarrow> int \<Rightarrow> byte list \<Rightarrow> mongoError + byte list" where
  "writeCommand deflate compressorID commandName requestId data =
     (if compressorID = 0 \<or> \<not> canCompress commandName then Inr data
      else
        (let body = drop MESSAGE_HEADER_SIZE data
         in rbind (readInt32LE data 12) (\<lambda>originalOpCode.
              rbind (deflate compressorID body) (\<lambda>compressed.
                rbind (writeInt32LE (int (MESSAGE_HEADER_SIZE + COMPRESSION_DETAILS_SIZE + length compressed))) (\<lambda>l.
                  rbind (writeInt32LE requestId) (\<lambda>r.
                    Inr (l @ r @ le32 0 @ le32 OP_COMPRESSED @ le32 originalOpCode @ le32 (int (length body))
                         @ [of_nat compressorID] @ compressed)))))))"

section \<open>Framing\<close>

text \<open>A complete frame: its first field is its length, which is allowed, and it makes a message.\<close>

definition good_frame :: "codec \<Rightarrow> int \<Rightarrow> byte list \<Rightarrow> incoming \<Rightarrow> bool" where
  "good_frame inflate mx f m = (readInt32LE f 0 = Inr (int (length f)) \<and> int (length f) \<le> mx \<and> message_of inflate f = Inr m)"

text \<open>A rest that is not yet a frame.\<close>

definition incomplete :: "int \<Rightarrow> byte list \<Rightarrow> bool" where
  "incomplete mx r = (length r < 4 \<or> (\<exists>n. readInt32LE r 0 = Inr n \<and> int (length r) < n \<and> n \<le> mx))"

lemma readInt32LE_take: "4 \<le> length b \<Longrightarrow> readInt32LE (take 4 b) 0 = readInt32LE b 0"
  by (simp add: readInt32LE_def)

lemma bp_peek_4: "bp_ok p \<Longrightarrow> 4 \<le> length (bp_bytes p) \<Longrightarrow> bp_peek 4 p = take 4 (bp_bytes p)"
  by (simp add: bp_peek_def bp.read_result)

lemma process_incomplete:
  assumes "bp_ok p" "incomplete mx (bp_bytes p)"
  shows "processIncomingData inflate mx p = ([], Written, p)"
proof (cases "length (bp_bytes p) < 4")
  case True
  with assms(1) show ?thesis by (subst processIncomingData.simps) (simp add: bp.size_bytes)
next
  case False
  with assms obtain n where "readInt32LE (bp_bytes p) 0 = Inr n" "int (length (bp_bytes p)) < n" "n \<le> mx"
    by (auto simp: incomplete_def)
  with False assms(1) show ?thesis
    by (subst processIncomingData.simps) (simp add: bp.size_bytes bp_peek_4 readInt32LE_take)
qed

lemma process_frame:
  assumes "bp_ok p" "bp_bytes p = f @ rest" "good_frame inflate mx f m"
  shows "\<exists>p1. bp_ok p1 \<and> bp_bytes p1 = rest \<and> processIncomingData inflate mx p =
    (if 4 \<le> length rest then (case processIncomingData inflate mx p1 of (ms, r, p2) \<Rightarrow> (m # ms, r, p2))
     else ([m], Written, p1))"
proof -
  have f: "readInt32LE f 0 = Inr (int (length f))" "int (length f) \<le> mx" "message_of inflate f = Inr m" "16 \<le> length f"
    using assms(3) message_of_length by (auto simp: good_frame_def)
  let ?p1 = "snd (bp_read (length f) True p)"
  have "fst (bp_read (length f) True p) = f" "bp_ok ?p1" "bp_bytes ?p1 = rest"
    using bp_read_spec [OF assms(1), of "length f" True] assms(2) by simp_all
  moreover have "readInt32LE (bp_peek 4 p) 0 = Inr (int (length f))"
    using f(1,4) assms(1,2) by (simp add: bp_peek_4 readInt32LE_take)
  ultimately show ?thesis
    using f assms(1,2)
    by (intro exI [of _ ?p1]) (subst processIncomingData.simps, simp add: bp.size_bytes)
qed

lemma process_frames:
  assumes "bp_ok p" "bp_bytes p = concat fs @ rest" "list_all2 (good_frame inflate mx) fs ms" "incomplete mx rest"
  shows "\<exists>p1. processIncomingData inflate mx p = (ms, Written, p1) \<and> bp_ok p1 \<and> bp_bytes p1 = rest"
  using assms(3,1,2)
proof (induction arbitrary: p rule: list_all2_induct)
  case Nil
  with process_incomplete assms(4) show ?case by auto
next
  case (Cons f fs m ms)
  from Cons.prems(2) have "bp_bytes p = f @ (concat fs @ rest)" by simp
  from process_frame [OF Cons.prems(1) this Cons.hyps(1)] obtain p1 where
    p1: "bp_ok p1" "bp_bytes p1 = concat fs @ rest" and
    run: "processIncomingData inflate mx p =
      (if 4 \<le> length (concat fs @ rest) then (case processIncomingData inflate mx p1 of (ms, r, p2) \<Rightarrow> (m # ms, r, p2))
       else ([m], Written, p1))" by blast
  from Cons.IH [OF p1] obtain p2 where
    p2: "processIncomingData inflate mx p1 = (ms, Written, p2)" "bp_ok p2" "bp_bytes p2 = rest" by blast
  show ?case
  proof (cases "4 \<le> length (concat fs @ rest)")
    case True
    with run p2 show ?thesis by simp
  next
    case False
    then have "processIncomingData inflate mx p1 = ([], Written, p1)"
      using p1 by (intro process_incomplete) (simp_all add: incomplete_def)
    with p2 False run show ?thesis by simp
  qed
qed

text \<open>Any prefix of a sequence of frames is some whole frames and an incomplete rest.\<close>

lemma split_frames:
  assumes "list_all2 (good_frame inflate mx) fs ms" "x @ y = concat fs"
  shows "\<exists>k rest. k \<le> length fs \<and> x = concat (take k fs) @ rest \<and> rest @ y = concat (drop k fs) \<and> incomplete mx rest"
  using assms
proof (induction arbitrary: x rule: list_all2_induct)
  case Nil
  then show ?case by (simp add: incomplete_def)
next
  case (Cons f fs m ms)
  have gf: "readInt32LE f 0 = Inr (int (length f))" "int (length f) \<le> mx" "16 \<le> length f"
    using Cons.hyps(1) message_of_length by (auto simp: good_frame_def)
  show ?case
  proof (cases "length f \<le> length x")
    case True
    then obtain x' where x: "x = f @ x'" "x' @ y = concat fs"
      using Cons.prems by (auto simp: append_eq_append_conv2)
    from Cons.IH [OF x(2)] obtain k rest where "k \<le> length fs" "x' = concat (take k fs) @ rest"
        "rest @ y = concat (drop k fs)" "incomplete mx rest" by blast
    with x(1) show ?thesis by (intro exI [of _ "Suc k"] exI [of _ rest]) simp
  next
    case False
    then have pre: "x = take (length x) f" using Cons.prems by (auto simp: append_eq_append_conv2)
    have "incomplete mx x"
    proof (cases "length x < 4")
      case False
      have "readInt32LE x 0 = readInt32LE (take 4 f) 0"
        using pre False readInt32LE_take [of x] by (metis linorder_not_less min.absorb1 take_take)
      also have "\<dots> = Inr (int (length f))" using gf by (simp add: readInt32LE_take)
      finally show ?thesis using gf(2) \<open>\<not> length f \<le> length x\<close> by (auto simp: incomplete_def)
    qed (simp add: incomplete_def)
    with Cons.prems show ?thesis by (intro exI [of _ 0] exI [of _ x]) simp
  qed
qed

lemma writes_frames:
  assumes "bp_ok p" "bp_bytes p @ concat cs = concat fs" "list_all2 (good_frame inflate mx) fs ms" "incomplete mx (bp_bytes p)"
  shows "\<exists>p1. stream_writes inflate mx cs p = (ms, Written, p1) \<and> bp_ok p1 \<and> bp_bytes p1 = []"
  using assms
proof (induction cs arbitrary: p fs ms)
  case Nil
  show ?case
  proof (cases fs)
    case Nil
    with Nil.prems show ?thesis by simp
  next
    case (Cons f fs')
    with Nil.prems(3) have "readInt32LE f 0 = Inr (int (length f))" "16 \<le> length f"
      using message_of_length by (auto simp: good_frame_def list_all2_Cons1)
    with Nil.prems(2,4) Cons have False by (auto simp: incomplete_def readInt32LE_append)
    then show ?thesis ..
  qed
next
  case (Cons c cs)
  let ?p = "bp_append c p"
  have p: "bp_ok ?p" "bp_bytes ?p = bp_bytes p @ c"
    using Cons.prems(1) by (simp_all add: bp.append_ok bp.append_bytes)
  have "bp_bytes ?p @ concat cs = concat fs" using Cons.prems(2) p(2) by simp
  from split_frames [OF Cons.prems(3) this] obtain k rest where
    k: "k \<le> length fs" "bp_bytes ?p = concat (take k fs) @ rest" "rest @ concat cs = concat (drop k fs)" "incomplete mx rest"
    by blast
  have parts: "list_all2 (good_frame inflate mx) (take k fs) (take k ms)"
      "list_all2 (good_frame inflate mx) (drop k fs) (drop k ms)"
    using Cons.prems(3) by (simp_all add: list_all2_takeI list_all2_dropI)
  from process_frames [OF p(1) k(2) parts(1) k(4)] obtain p1 where
    p1: "processIncomingData inflate mx ?p = (take k ms, Written, p1)" "bp_ok p1" "bp_bytes p1 = rest" by blast
  from Cons.IH [of p1 "drop k fs" "drop k ms"] p1 k parts obtain p2 where
    "stream_writes inflate mx cs p1 = (drop k ms, Written, p2)" "bp_ok p2" "bp_bytes p2 = []" by auto
  with p1 show ?case by (simp add: stream_write_def)
qed

text \<open>
  (C5) Framing does not depend on how the network cuts the stream.  However a sequence of complete
  messages, compressed or not, is cut into chunks, even in the middle of a length field, the stream
  emits exactly those messages in order, reports no error, and ends with an empty buffer.
\<close>

theorem framing_independent_of_chunks:
  assumes "list_all2 (good_frame inflate mx) frames messages" "concat chunks = concat frames"
  shows "\<exists>p. stream_writes inflate mx chunks BufferPool_new = (messages, Written, p) \<and> bp_bytes p = []"
  using writes_frames [of BufferPool_new chunks frames inflate mx messages] assms
  by (auto simp: incomplete_def)

section \<open>Round trips\<close>

text \<open>What the driver relies on in the BSON library: a document starts with its own length.\<close>

definition self_sized :: "('d \<Rightarrow> byte list) \<Rightarrow> 'd \<Rightarrow> bool" where
  "self_sized ser d = (readUInt32LE (ser d) 0 = Inr (length (ser d)))"

lemma self_sized_length: "self_sized ser d \<Longrightarrow> 4 \<le> length (ser d)"
  by (auto simp: self_sized_def readUInt32LE_def split: if_splits)

lemma msg_flags_range: "0 \<le> msg_flags m \<and> msg_flags m < 131072"
  by (simp add: msg_flags_def flag_def)

text \<open>The message as the other side sees it.\<close>

definition msg_header :: "('d \<Rightarrow> byte list) \<Rightarrow> 'd msg \<Rightarrow> bool \<Rightarrow> messageHeader" where
  "msg_header ser m compressed =
     \<lparr>mh_length = (if compressed then 5 + int (length (ser (ms_command m))) else 21 + int (length (ser (ms_command m)))),
      mh_requestId = ms_requestId m, mh_responseTo = 0, mh_opCode = OP_MSG, mh_fromCompressed = compressed\<rparr>"

definition msg_body :: "('d \<Rightarrow> byte list) \<Rightarrow> 'd msg \<Rightarrow> byte list" where
  "msg_body ser m = le32 (msg_flags m) @ [0] @ ser (ms_command m)"

lemma Msg_toBin_bytes:
  assumes "Msg_toBin ser m = Inr bufs"
  shows "concat bufs = le32 (21 + int (length (ser (ms_command m)))) @ le32 (ms_requestId m) @ le32 0 @ le32 OP_MSG @ msg_body ser m"
    and "21 + int (length (ser (ms_command m))) < 2147483648" "-2147483648 \<le> ms_requestId m" "ms_requestId m < 2147483648"
proof -
  from assms obtain l r where w: "writeInt32LE (int (20 + length (concat (makeDocumentSegment ser (ms_command m))))) = Inr l"
      "writeInt32LE (ms_requestId m) = Inr r"
      "bufs = (l @ r @ le32 0 @ le32 OP_MSG @ le32 (msg_flags m)) # makeDocumentSegment ser (ms_command m)"
    by (auto simp: Msg_toBin_def Let_def rbind_Inr_iff)
  from writeInt32LE_le32 [OF w(1)] writeInt32LE_le32 [OF w(2)] w(3)
  show "concat bufs = le32 (21 + int (length (ser (ms_command m)))) @ le32 (ms_requestId m) @ le32 0 @ le32 OP_MSG @ msg_body ser m"
    "21 + int (length (ser (ms_command m))) < 2147483648" "-2147483648 \<le> ms_requestId m" "ms_requestId m < 2147483648"
    by (auto simp: makeDocumentSegment_def msg_body_def)
qed

lemma BinMsg_new_body:
  "new_message (h\<lparr>mh_opCode := OP_MSG\<rparr>) (msg_body ser m) =
     Inr (BinMessage \<lparr>bm_header = h\<lparr>mh_opCode := OP_MSG\<rparr>, bm_data = msg_body ser m, bm_responseFlags = msg_flags m\<rparr>)"
  using readInt32LE_le32 [of "msg_flags m" "[]" 0 "[0] @ ser (ms_command m)"] msg_flags_range [of m]
  by (simp add: new_message_def BinMsg_new_def msg_body_def)

lemma read_header_le32:
  assumes "\<forall>v \<in> {a, b, c, d}. -2147483648 \<le> v \<and> v < 2147483648"
  shows "read_header (le32 a @ le32 b @ le32 c @ le32 d @ rest) =
    Inr \<lparr>mh_length = a, mh_requestId = b, mh_responseTo = c, mh_opCode = d, mh_fromCompressed = False\<rparr>"
  using assms readInt32LE_le32 [of a "[]" 0 "le32 b @ le32 c @ le32 d @ rest"]
    readInt32LE_le32 [of b "le32 a" 4 "le32 c @ le32 d @ rest"]
    readInt32LE_le32 [of c "le32 a @ le32 b" 8 "le32 d @ rest"]
    readInt32LE_le32 [of d "le32 a @ le32 b @ le32 c" 12 rest]
  by (simp add: read_header_def)

lemma parse_msg_body:
  assumes "self_sized ser d" "deser (ser d) = Inr d"
  shows "sections deser False ([0] @ ser d) = Inr [Parsed d]"
  using assms by (simp add: self_sized_def)

text \<open>An uncompressed message is a good frame.\<close>

lemma Msg_frame:
  assumes "Msg_toBin ser m = Inr bufs" "21 + int (length (ser (ms_command m))) \<le> mx"
  shows "good_frame inflate mx (concat bufs)
    (BinMessage \<lparr>bm_header = msg_header ser m False, bm_data = msg_body ser m, bm_responseFlags = msg_flags m\<rparr>)"
proof -
  let ?n = "21 + int (length (ser (ms_command m)))"
  let ?h = "\<lparr>mh_length = ?n, mh_requestId = ms_requestId m, mh_responseTo = 0, mh_opCode = OP_MSG, mh_fromCompressed = False\<rparr>"
  note b = Msg_toBin_bytes [OF assms(1)]
  have len: "int (length (concat bufs)) = ?n" unfolding b(1) by (simp add: msg_body_def)
  have rh: "read_header (concat bufs) = Inr ?h"
    unfolding b(1) by (rule read_header_le32) (use b in \<open>simp add: OP_MSG_def\<close>)
  have d: "drop MESSAGE_HEADER_SIZE (concat bufs) = msg_body ser m"
    unfolding b(1) by (simp add: MESSAGE_HEADER_SIZE_def)
  have "message_of inflate (concat bufs) = new_message ?h (msg_body ser m)"
    by (simp add: message_of_def rh d OP_MSG_def OP_COMPRESSED_def)
  also have "\<dots> = Inr (BinMessage \<lparr>bm_header = ?h, bm_data = msg_body ser m, bm_responseFlags = msg_flags m\<rparr>)"
    using BinMsg_new_body [of ?h ser m] by simp
  finally have mo: "message_of inflate (concat bufs) =
    Inr (BinMessage \<lparr>bm_header = ?h, bm_data = msg_body ser m, bm_responseFlags = msg_flags m\<rparr>)" .
  have "readInt32LE (concat bufs) 0 = Inr ?n"
    unfolding b(1) using b(2) readInt32LE_le32 [of ?n "[]" 0] by simp
  with mo len assms(2) show ?thesis by (simp add: good_frame_def msg_header_def)
qed

text \<open>A compressed one is a good frame too, if the compressor is undone by the decompressor.\<close>

lemma writeCommand_bytes:
  assumes "writeCommand deflate compressorID name requestId data = Inr f" "compressorID \<noteq> 0" "canCompress name"
  shows "\<exists>opCode compressed. readInt32LE data 12 = Inr opCode \<and> deflate compressorID (drop 16 data) = Inr compressed
    \<and> f = le32 (25 + int (length compressed)) @ le32 requestId @ le32 0 @ le32 OP_COMPRESSED @ le32 opCode
        @ le32 (int (length (drop 16 data))) @ [of_nat compressorID] @ compressed
    \<and> 25 + int (length compressed) < 2147483648 \<and> -2147483648 \<le> requestId \<and> requestId < 2147483648"
proof -
  from assms obtain opCode compressed l r where w: "readInt32LE data 12 = Inr opCode"
      "deflate compressorID (drop 16 data) = Inr compressed"
      "writeInt32LE (int (MESSAGE_HEADER_SIZE + COMPRESSION_DETAILS_SIZE + length compressed)) = Inr l"
      "writeInt32LE requestId = Inr r"
      "f = l @ r @ le32 0 @ le32 OP_COMPRESSED @ le32 opCode @ le32 (int (length (drop 16 data))) @ [of_nat compressorID] @ compressed"
    by (auto simp: writeCommand_def Let_def rbind_Inr_iff MESSAGE_HEADER_SIZE_def)
  from writeInt32LE_le32 [OF w(3)] writeInt32LE_le32 [OF w(4)] w show ?thesis
    by (auto simp: MESSAGE_HEADER_SIZE_def COMPRESSION_DETAILS_SIZE_def)
qed

lemma compressed_frame:
  assumes "Msg_toBin ser m = Inr bufs" "compressorID \<in> {1, 2}" "canCompress name"
    and "writeCommand deflate compressorID name (ms_requestId m) (concat bufs) = Inr f" "int (length f) \<le> mx"
    and "\<forall>b c. deflate compressorID b = Inr c \<longrightarrow> inflate compressorID c = Inr b"
  shows "good_frame inflate mx f
    (BinMessage \<lparr>bm_header = msg_header ser m True, bm_data = msg_body ser m, bm_responseFlags = msg_flags m\<rparr>)"
proof -
  note b = Msg_toBin_bytes [OF assms(1)]
  have body: "drop 16 (concat bufs) = msg_body ser m" unfolding b(1) by simp
  have op: "readInt32LE (concat bufs) 12 = Inr OP_MSG"
    using readInt32LE_le32 [of OP_MSG "le32 (21 + int (length (ser (ms_command m)))) @ le32 (ms_requestId m) @ le32 0" 12 "msg_body ser m"]
    unfolding b(1) by (simp add: OP_MSG_def)
  have cid: "compressorID \<noteq> 0" using assms(2) by auto
  from writeCommand_bytes [OF assms(4) cid assms(3)] obtain compressed where
    c: "deflate compressorID (msg_body ser m) = Inr compressed" "25 + int (length compressed) < 2147483648" and
    f: "f = le32 (25 + int (length compressed)) @ le32 (ms_requestId m) @ le32 0 @ le32 OP_COMPRESSED @ le32 OP_MSG
        @ le32 (int (length (msg_body ser m))) @ [of_nat compressorID] @ compressed"
    by (auto simp: op body)
  let ?n = "25 + int (length compressed)" and ?k = "int (length (msg_body ser m))"
  let ?h = "\<lparr>mh_length = ?n, mh_requestId = ms_requestId m, mh_responseTo = 0, mh_opCode = OP_COMPRESSED, mh_fromCompressed = False\<rparr>"
  have k: "?k < 2147483648" using b(2) by (simp add: msg_body_def)
  have rh: "read_header f = Inr ?h"
    unfolding f by (rule read_header_le32) (use b c(2) in \<open>simp add: OP_COMPRESSED_def\<close>)
  have r16: "readInt32LE f 16 = Inr OP_MSG" "readInt32LE f 20 = Inr ?k"
    using readInt32LE_le32 [of OP_MSG "le32 ?n @ le32 (ms_requestId m) @ le32 0 @ le32 OP_COMPRESSED" 16]
      readInt32LE_le32 [of ?k "le32 ?n @ le32 (ms_requestId m) @ le32 0 @ le32 OP_COMPRESSED @ le32 OP_MSG" 20] k
    unfolding f by (simp_all add: OP_MSG_def)
  have b24: "nat (byte_at f 24) = compressorID" "drop 25 f = compressed"
    using assms(2) unfolding f by (auto simp: byte_at_def nth_append)
  have inf: "decompress inflate compressorID compressed = Inr (msg_body ser m)"
    using assms(2,6) c(1) by (auto simp: decompress_def)
  have "message_of inflate f = new_message (?h\<lparr>mh_fromCompressed := True, mh_opCode := OP_MSG, mh_length := ?k\<rparr>) (msg_body ser m)"
    using r16 b24 inf by (simp add: message_of_def rh new_compressed_def MESSAGE_HEADER_SIZE_def)
  also have "\<dots> = Inr (BinMessage \<lparr>bm_header = ?h\<lparr>mh_fromCompressed := True, mh_opCode := OP_MSG, mh_length := ?k\<rparr>,
      bm_data = msg_body ser m, bm_responseFlags = msg_flags m\<rparr>)"
    using BinMsg_new_body [of "?h\<lparr>mh_fromCompressed := True, mh_length := ?k\<rparr>" ser m] by simp
  finally have mo: "message_of inflate f = Inr (BinMessage \<lparr>bm_header = ?h\<lparr>mh_fromCompressed := True, mh_opCode := OP_MSG, mh_length := ?k\<rparr>,
      bm_data = msg_body ser m, bm_responseFlags = msg_flags m\<rparr>)" .
  have "readInt32LE f 0 = Inr (int (length f))"
    using readInt32LE_le32 [of ?n "[]" 0] c(2) unfolding f by simp
  with mo assms(5) show ?thesis
    by (simp add: good_frame_def msg_header_def msg_body_def)
qed

text \<open>
  (C6) A command survives the wire.  A command message written by one side, compressed with snappy
  or zlib or not at all, and cut into chunks in any way, is received by the other side's stream as
  one message with the same request id and flags, and its parse gives back exactly the command
  document.  The BSON and compression libraries are assumed to be inverse to themselves, and a
  BSON document to start with its length.
\<close>

theorem command_survives_wire:
  assumes "Msg_toBin ser m = Inr bufs" "compressorID \<le> 2"
    and "writeCommand deflate compressorID name (ms_requestId m) (concat bufs) = Inr f"
    and "concat chunks = f" "int (length f) \<le> mx"
    and "\<forall>b c. deflate compressorID b = Inr c \<longrightarrow> inflate compressorID c = Inr b"
    and "self_sized ser (ms_command m)" "deser (ser (ms_command m)) = Inr (ms_command m)"
  shows "\<exists>b p. stream_writes inflate mx chunks BufferPool_new = ([BinMessage b], Written, p) \<and> bp_bytes p = []
    \<and> BinMsg_parse deser deserRaw False returnedIn b = Inr [Parsed (ms_command m)]
    \<and> mh_requestId (bm_header b) = ms_requestId m \<and> bm_responseFlags b = msg_flags m"
proof -
  define compressed where "compressed = (compressorID \<noteq> 0 \<and> canCompress name)"
  define b where "b = \<lparr>bm_header = msg_header ser m compressed, bm_data = msg_body ser m, bm_responseFlags = msg_flags m\<rparr>"
  have gf: "good_frame inflate mx f (BinMessage b)"
  proof (cases compressed)
    case True
    then have "compressorID \<in> {1, 2}" "canCompress name" using assms(2) by (auto simp: compressed_def)
    from compressed_frame [where inflate = inflate and deflate = deflate, OF assms(1) this assms(3,5,6)] True show ?thesis by (simp add: b_def)
  next
    case False
    then have f: "f = concat bufs" using assms(3) by (auto simp: compressed_def writeCommand_def)
    have "int (length f) = 21 + int (length (ser (ms_command m)))"
      unfolding f Msg_toBin_bytes(1) [OF assms(1)] by (simp add: msg_body_def)
    with Msg_frame [OF assms(1)] assms(5) False f show ?thesis by (simp add: b_def)
  qed
  have "\<exists>p. stream_writes inflate mx chunks BufferPool_new = ([BinMessage b], Written, p) \<and> bp_bytes p = []"
    using writes_frames [of BufferPool_new chunks "[f]" inflate mx "[BinMessage b]"] gf assms(4)
    by (auto simp: incomplete_def)
  moreover have "BinMsg_parse deser deserRaw False returnedIn b = Inr [Parsed (ms_command m)]"
    using parse_msg_body [where deser = deser, OF assms(7,8)] by (simp add: BinMsg_parse_def b_def msg_body_def single_raw_def)
  ultimately show ?thesis by (auto simp: b_def msg_header_def)
qed

text \<open>
  The example codec stores the bytes behind a marker; the example documents are byte lists shorter
  than 250, serialised with their length first.
\<close>

definition example_deflate :: codec where
  "example_deflate n b = Inr (of_nat n # b)"

definition example_inflate :: codec where
  "example_inflate n c = (case c of x # b \<Rightarrow> Inr b | [] \<Rightarrow> Inl range_error)"

definition example_ser :: "byte list \<Rightarrow> byte list" where
  "example_ser d = le32 (int (length d + 4)) @ d"

definition example_deser :: "byte list \<Rightarrow> mongoError + byte list" where
  "example_deser b = Inr (drop 4 b)"

lemma example_ser_sized: "length d < 1000 \<Longrightarrow> self_sized example_ser d"
  using readUInt32LE_le32 [of "int (length d + 4)" "[]" 0 d] by (simp add: self_sized_def example_ser_def)

theorem command_survives_wire_witness:
  "\<exists>b p chunks. length chunks = 2
    \<and> stream_writes example_inflate 1000 chunks BufferPool_new = ([BinMessage b], Written, p)
    \<and> BinMsg_parse example_deser example_deser False False b = Inr [Parsed [1, 2, 3]] \<and> mh_requestId (bm_header b) = 9"
proof -
  let ?m = "\<lparr>ms_command = [1, 2, 3 :: byte], ms_requestId = 9, ms_checksumPresent = False, ms_moreToCome = False,
      ms_exhaustAllowed = False\<rparr>"
  obtain bufs where bufs: "Msg_toBin example_ser ?m = Inr bufs"
    by (simp add: Msg_toBin_def Let_def makeDocumentSegment_def example_ser_def writeInt32LE_def)
  have op: "\<exists>x. readInt32LE (concat bufs) 12 = Inr x"
    unfolding Msg_toBin_bytes(1) [OF bufs] by (simp add: readInt32LE_def msg_body_def)
  have len: "length (concat bufs) = 28"
    unfolding Msg_toBin_bytes(1) [OF bufs] by (simp add: msg_body_def example_ser_def)
  then obtain f where f: "writeCommand example_deflate 2 ''insert'' 9 (concat bufs) = Inr f" "length f = 38"
    using op by (auto simp: writeCommand_def canCompress_def uncompressibleCommands_def Let_def example_deflate_def
        writeInt32LE_def MESSAGE_HEADER_SIZE_def COMPRESSION_DETAILS_SIZE_def)
  let ?chunks = "[take 3 f, drop 3 f]"
  have "\<exists>b p. stream_writes example_inflate 1000 ?chunks BufferPool_new = ([BinMessage b], Written, p) \<and> bp_bytes p = []
    \<and> BinMsg_parse example_deser example_deser False False b = Inr [Parsed (ms_command ?m)]
    \<and> mh_requestId (bm_header b) = ms_requestId ?m \<and> bm_responseFlags b = msg_flags ?m"
    by (rule command_survives_wire [OF bufs, of 2 example_deflate "''insert''" f])
      (use f example_ser_sized [of "[1, 2, 3]"] in \<open>simp_all add: example_deflate_def example_inflate_def example_deser_def example_ser_def\<close>)
  then obtain b p where "stream_writes example_inflate 1000 ?chunks BufferPool_new = ([BinMessage b], Written, p)"
      "BinMsg_parse example_deser example_deser False False b = Inr [Parsed [1, 2, 3]]" "mh_requestId (bm_header b) = 9"
    by auto
  then show ?thesis by (intro exI [of _ b] exI [of _ p] exI [of _ ?chunks]) (simp only: list.size, simp)
qed

theorem framing_independent_of_chunks_witness:
  "\<exists>f m p. stream_writes example_inflate 1000 [take 2 (f @ f), drop 2 (f @ f)] BufferPool_new = ([m, m], Written, p)
     \<and> bp_bytes p = []"
proof -
  let ?m = "\<lparr>ms_command = [1, 2, 3 :: byte], ms_requestId = 9, ms_checksumPresent = False, ms_moreToCome = False,
      ms_exhaustAllowed = False\<rparr>"
  obtain bufs where bufs: "Msg_toBin example_ser ?m = Inr bufs"
    by (simp add: Msg_toBin_def Let_def makeDocumentSegment_def example_ser_def writeInt32LE_def)
  from Msg_frame [OF bufs, of 1000 example_inflate] obtain m where "good_frame example_inflate 1000 (concat bufs) m"
    by (auto simp: example_ser_def)
  then have "list_all2 (good_frame example_inflate 1000) [concat bufs, concat bufs] [m, m]" by simp
  from framing_independent_of_chunks [OF this, of "[take 2 (concat bufs @ concat bufs), drop 2 (concat bufs @ concat bufs)]"]
  have "\<exists>p. stream_writes example_inflate 1000
      [take 2 (concat bufs @ concat bufs), drop 2 (concat bufs @ concat bufs)] BufferPool_new = ([m, m], Written, p) \<and> bp_bytes p = []"
    by (simp only: concat.simps append_take_drop_id append_Nil2)
  then show ?thesis by blast
qed

end
