(* ===== verification/Execute_Operation.thy ===== *)
theory Execute_Operation
  imports Topology
begin

text \<open>
  \<open>src/operations/execute_operation.ts\<close> and the part of \<open>AbstractOperation\<close> (\<open>src/operations/operation.ts\<close>)
  it reads: implicit sessions, server selection and the single retry of a retryable operation.  The
  code waits at two kinds of call, \<open>topology.selectServer\<close> and \<open>operation.execute\<close>; it is cut there,
  and each part returns what the code does next.  The calls themselves are the arguments \<open>sel\<close> and
  \<open>exec\<close> of the whole run, with the number of the call, so that every outcome can differ.  The result
  of an operation is of any type.
\<close>

section \<open>Operations\<close>

datatype aspect = READ_OPERATION | WRITE_OPERATION | RETRYABLE | EXPLAINABLE | SKIP_COLLATION
  | CURSOR_CREATING | CURSOR_ITERATING

record operation =
  op_aspects :: "aspect list option"
  op_readPreference :: "readPreference option"
  op_server :: "serverDescription option"
  op_bypassPinningCheck :: bool
  op_trySecondaryWrite :: bool
  op_canRetryRead :: bool
  op_canRetryWrite :: bool
  op_willRetryWrite :: bool

definition hasAspect :: "operation \<Rightarrow> aspect \<Rightarrow> bool" where
  "hasAspect op a = (case op_aspects op of None \<Rightarrow> False | Some as \<Rightarrow> a \<in> set as)"

text \<open>\<open>defineAspects\<close> makes a set of a single aspect or a list of them; duplicates do not count.\<close>

definition defineAspects :: "aspect + aspect list \<Rightarrow> aspect list" where
  "defineAspects a = (case a of Inl x \<Rightarrow> [x] | Inr xs \<Rightarrow> remdups xs)"

text \<open>
  The constructor, on the options it reads.  A read preference given as an object without a mode
  stays an object without methods; the first use of it throws, which is the error here.
\<close>

definition AbstractOperation_new ::
    "aspect list option \<Rightarrow> readPreferenceFromOptions option \<Rightarrow> bool \<Rightarrow> mongoError + operation" where
  "AbstractOperation_new aspects options bypassPinningCheck =
     (let op = \<lparr>op_aspects = aspects, op_readPreference = Some ReadPreference_primary, op_server = None,
                op_bypassPinningCheck = bypassPinningCheck, op_trySecondaryWrite = False,
                op_canRetryRead = True, op_canRetryWrite = True, op_willRetryWrite = False\<rparr>
      in if hasAspect op WRITE_OPERATION then Inr op
         else rbind (ReadPreference_fromOptions options)
           (\<lambda>r. case r of
              None \<Rightarrow> Inr op
            | Some (RPInstance rp) \<Rightarrow> Inr (op\<lparr>op_readPreference := Some rp\<rparr>)
            | Some _ \<Rightarrow> Inl (js_type_error ''readPreference.equals is not a function'')))"

section \<open>Running an operation on a server\<close>

record execEnv =
  xe_retryReads :: "bool option"
  xe_senv :: serverEnv

type_synonym execState = "clientSession option \<times> sessionWorld"

text \<open>What the code does next; a callback has an error, a result, or (as JavaScript allows) neither.\<close>

datatype 'r execStep = CallBack "mongoError option" "'r option" | Throws mongoError
  | SelectServer serverSelector
  | SelectAgain serverSelector mongoError
  | Execute operation server
  | ExecuteWithRetry operation server serverSelector

definition supportsRetryableReads :: "serverEnv \<Rightarrow> server \<Rightarrow> bool" where
  "supportsRetryableReads senv s = (server_maxWireVersion senv s \<ge> 6)"

definition shouldRetryWrite :: "mongoError \<Rightarrow> bool" where
  "shouldRetryWrite e = (instanceof e MongoError \<and> hasErrorLabel e ''RetryableWriteError'')"

definition MMAPv1_RETRY_WRITES_ERROR_MESSAGE :: string where
  "MMAPv1_RETRY_WRITES_ERROR_MESSAGE =
     ''This MongoDB deployment does not support retryable writes. Please add retryWrites=false to your connection string.''"

definition session_inTransaction :: "execState \<Rightarrow> bool" where
  "session_inTransaction st = (case fst st of Some cs \<Rightarrow> inTransaction cs | None \<Rightarrow> False)"

definition on_session :: "(sessionState \<Rightarrow> sessionState) \<Rightarrow> execState \<Rightarrow> execState" where
  "on_session f st =
     (case st of (Some cs, w) \<Rightarrow> (let (cs', w') = f (cs, w) in (Some cs', w')) | (None, w) \<Rightarrow> (None, w))"

definition effective_readPreference :: "operation \<Rightarrow> readPreference" where
  "effective_readPreference op = (case op_readPreference op of Some rp \<Rightarrow> rp | None \<Rightarrow> ReadPreference_primary)"

definition operation_selector :: "operation \<Rightarrow> sessionWorld \<Rightarrow> mongoError + serverSelector" where
  "operation_selector op w =
     (if hasAspect op CURSOR_ITERATING then Inr (sameServerSelector (op_server op))
      else if op_trySecondaryWrite op
      then secondaryWritableServerSelector (td_commonWireVersion (sto_description (w_topology w)))
             (Some (effective_readPreference op))
      else resolve_selector (SelPreference (effective_readPreference op)) None)"

text \<open>The part before the first selection.\<close>

definition executeWithServerSelection :: "operation \<Rightarrow> execState \<Rightarrow> 'r execStep \<times> execState" where
  "executeWithServerSelection op st =
     (let st1 = (case st of
            (Some cs, w) \<Rightarrow>
              (if session_isPinned (cs, w) \<and> isCommitted (cs_transaction cs) \<and> \<not> op_bypassPinningCheck op
               then on_session (unpin no_endOptions) st else st)
          | _ \<Rightarrow> st)
      in if session_inTransaction st \<and> \<not> rp_equals (effective_readPreference op) ReadPreference_primary
         then (CallBack (Some (mk_error MongoTransactionError ''Read preference in a transaction must be primary'')) None, st)
         else (case operation_selector op (snd st1) of
                 Inl e \<Rightarrow> (Throws e, st1)
               | Inr f \<Rightarrow> (SelectServer f, st1)))"

text \<open>The callback of the first selection; \<open>inTxn\<close> was read before it.\<close>

definition willRetryRead :: "execEnv \<Rightarrow> bool \<Rightarrow> server \<Rightarrow> operation \<Rightarrow> bool" where
  "willRetryRead env inTxn s op =
     (xe_retryReads env \<noteq> Some False \<and> \<not> inTxn \<and> supportsRetryableReads (xe_senv env) s \<and> op_canRetryRead op)"

definition willRetryWrite :: "execEnv \<Rightarrow> bool \<Rightarrow> server \<Rightarrow> operation \<Rightarrow> bool" where
  "willRetryWrite env inTxn s op =
     (se_retryWrites (xe_senv env) = Some True \<and> \<not> inTxn \<and> supportsRetryableWrites (xe_senv env) s
      \<and> op_canRetryWrite op)"

definition server_selected ::
    "execEnv \<Rightarrow> bool \<Rightarrow> serverSelector \<Rightarrow> operation \<Rightarrow> mongoError + server \<Rightarrow> execState \<Rightarrow> 'r execStep \<times> execState" where
  "server_selected env inTxn f op outcome st =
     (case outcome of
        Inl e \<Rightarrow> (CallBack (Some e) None, st)
      | Inr s \<Rightarrow>
          (let retryWrite = (hasAspect op WRITE_OPERATION \<and> willRetryWrite env inTxn s op)
           in if fst st \<noteq> None \<and> hasAspect op RETRYABLE
                 \<and> ((hasAspect op READ_OPERATION \<and> willRetryRead env inTxn s op) \<or> retryWrite)
              then (if retryWrite
                    then (ExecuteWithRetry (op\<lparr>op_willRetryWrite := True\<rparr>) s f, on_session incrementTransactionNumber st)
                    else (ExecuteWithRetry op s f, st))
              else (Execute op s, st)))"

text \<open>The callback of a first attempt that may be retried.\<close>

definition callbackWithRetry ::
    "operation \<Rightarrow> serverSelector \<Rightarrow> mongoError option \<times> 'r option \<Rightarrow> execState \<Rightarrow> 'r execStep \<times> execState" where
  "callbackWithRetry op f reply st =
     (case reply of
        (None, result) \<Rightarrow> (CallBack None result, st)
      | (Some err, _) \<Rightarrow>
          if (hasAspect op READ_OPERATION \<and> \<not> isRetryableError err)
             \<or> (hasAspect op WRITE_OPERATION \<and> \<not> shouldRetryWrite err)
          then (CallBack (Some err) None, st)
          else if hasAspect op WRITE_OPERATION \<and> shouldRetryWrite err
                  \<and> e_code err = Some (CodeNum (MONGODB_ERROR_CODES IllegalOperation))
                  \<and> contains_sub ''Transaction numbers'' (e_message err)
          then (CallBack (Some (mk_error MongoServerError MMAPv1_RETRY_WRITES_ERROR_MESSAGE)) None, st)
          else (SelectAgain f err, st))"

text \<open>The callback of the second selection.\<close>

definition retry_selected ::
    "execEnv \<Rightarrow> operation \<Rightarrow> mongoError \<Rightarrow> mongoError + server \<Rightarrow> execState \<Rightarrow> 'r execStep \<times> execState" where
  "retry_selected env op err outcome st =
     (case outcome of
        Inl e \<Rightarrow> (CallBack (Some e) None, st)
      | Inr s \<Rightarrow>
          if (hasAspect op READ_OPERATION \<and> \<not> supportsRetryableReads (xe_senv env) s)
             \<or> (hasAspect op WRITE_OPERATION \<and> \<not> supportsRetryableWrites (xe_senv env) s)
          then (CallBack None None, st)
          else (Execute op s,
                if instanceof err MongoNetworkError \<and> se_loadBalanced (xe_senv env)
                   \<and> (case st of (Some cs, w) \<Rightarrow> session_isPinned (cs, w) \<and> \<not> inTransaction cs | _ \<Rightarrow> False)
                   \<and> hasAspect op CURSOR_CREATING
                then on_session (unpin (no_endOptions\<lparr>eo_force := True, eo_forceClear := True\<rparr>)) st else st))"

section \<open>The whole run\<close>

text \<open>The calls made, in order: each selection with its number, each execution with what it was given.\<close>

datatype execCall = Selection | Execution operation server execState

type_synonym selectCall = "nat \<Rightarrow> serverSelector \<Rightarrow> execState \<Rightarrow> (mongoError + server) \<times> execState"
type_synonym 'r executeCall =
  "nat \<Rightarrow> operation \<Rightarrow> server \<Rightarrow> execState \<Rightarrow> (mongoError option \<times> 'r option) \<times> execState"

definition run_execute :: "'r executeCall \<Rightarrow> nat \<Rightarrow> operation \<Rightarrow> server \<Rightarrow> execState
    \<Rightarrow> execCall list \<times> 'r execStep \<times> execState" where
  "run_execute exec n op s st =
     (let ((e, r), st1) = exec n op s st in ([Execution op s st], CallBack e r, st1))"

definition run_retry :: "execEnv \<Rightarrow> selectCall \<Rightarrow> 'r executeCall \<Rightarrow> operation \<Rightarrow> server \<Rightarrow> serverSelector \<Rightarrow> execState
    \<Rightarrow> execCall list \<times> 'r execStep \<times> execState" where
  "run_retry env sel exec op s f st =
     (let (reply, st1) = exec 0 op s st; first = Execution op s st
      in case callbackWithRetry op f reply st1 of
           (SelectAgain f' err, st2) \<Rightarrow>
             (let (outcome, st3) = sel 1 f' st2
              in case retry_selected env op err outcome st3 of
                   (Execute op' s', st4) \<Rightarrow>
                     (let (calls, step, st5) = run_execute exec 1 op' s' st4
                      in (first # Selection # calls, step, st5))
                 | (step, st4) \<Rightarrow> ([first, Selection], step, st4))
         | (step, st2) \<Rightarrow> ([first], step, st2))"

definition run_operation :: "execEnv \<Rightarrow> selectCall \<Rightarrow> 'r executeCall \<Rightarrow> operation \<Rightarrow> execState
    \<Rightarrow> execCall list \<times> 'r execStep \<times> execState" where
  "run_operation env sel exec op st =
     (case executeWithServerSelection op st of
        (SelectServer f, st1) \<Rightarrow>
          (let (outcome, st2) = sel 0 f st1
           in case server_selected env (session_inTransaction st) f op outcome st2 of
                (ExecuteWithRetry op' s f', st3) \<Rightarrow>
                  (let (calls, r) = run_retry env sel exec op' s f' st3 in (Selection # calls, r))
              | (Execute op' s, st3) \<Rightarrow>
                  (let (calls, r) = run_execute exec 0 op' s st3 in (Selection # calls, r))
              | (step, st3) \<Rightarrow> ([Selection], step, st3))
      | (step, st1) \<Rightarrow> ([], step, st1))"

section \<open>Implicit sessions\<close>

text \<open>\<open>topology.startSession({ owner, explicit: false })\<close>: no option of it can be refused.\<close>

definition implicit_options :: clientSessionOptions where
  "implicit_options = \<lparr>cso_causalConsistency = None, cso_snapshot = None,
     cso_defaultTransactionOptions = no_txnOptions, cso_explicit = False, cso_initialClusterTime = None\<rparr>"

text \<open>
  \<open>endSession\<close> from start to end; \<open>abort\<close> runs the abort command of a transaction still in progress.
\<close>

definition endSession_run ::
    "(txnCommand \<Rightarrow> sessionState \<Rightarrow> mongoError option \<times> sessionState) \<Rightarrow> sessionState \<Rightarrow> endStep \<times> sessionState" where
  "endSession_run abort st =
     (let options = no_endOptions\<lparr>eo_force := True\<rparr>
      in case endSession options st of
           (Send _, _) \<Rightarrow>
             (let (_, r) = end_rounds abort AbortTransaction (snd (serverSession_get st))
              in endSession_aborted options r)
         | r \<Rightarrow> r)"

definition finish_owned ::
    "(txnCommand \<Rightarrow> sessionState \<Rightarrow> mongoError option \<times> sessionState) \<Rightarrow> 'r execStep \<Rightarrow> execState
     \<Rightarrow> 'r execStep \<times> execState" where
  "finish_owned abort step st =
     (case st of
        (None, w) \<Rightarrow> (step, st)
      | (Some cs, w) \<Rightarrow>
          (let (e, (cs', w')) = endSession_run abort (cs, w); st' = (Some cs', w')
           in case step of
                CallBack err result \<Rightarrow>
                  (case e of
                     Finished err2 \<Rightarrow> (CallBack (coalesce err2 err) result, st')
                   | Threw e2 \<Rightarrow> (CallBack (Some e2) result, st')
                   | Send _ \<Rightarrow> (step, st'))
              | _ \<Rightarrow> (step, st')))"

text \<open>
  \<open>executeOperation\<close>; \<open>op_session\<close> is the session of the operation, and \<open>snapshots\<close> what
  \<open>topology.capabilities.supportsSnapshotReads\<close> says.  The check for session support may have to be
  repeated, hence the fuel; \<open>probe\<close> is the selection it makes.
\<close>

fun executeOperation :: "nat \<Rightarrow> execEnv
    \<Rightarrow> (nat \<Rightarrow> sessionWorld \<Rightarrow> mongoError option \<times> sessionWorld)
    \<Rightarrow> selectCall \<Rightarrow> 'r executeCall \<Rightarrow> (txnCommand \<Rightarrow> sessionState \<Rightarrow> mongoError option \<times> sessionState)
    \<Rightarrow> (sessionWorld \<Rightarrow> bool) \<Rightarrow> operation \<Rightarrow> execState \<Rightarrow> (execCall list \<times> 'r execStep \<times> execState) option" where
  "executeOperation 0 env probe sel exec abort snapshots op st = None"
| "executeOperation (Suc fuel) env probe sel exec abort snapshots op (session, w) =
     (let cb = (\<lambda>c m. Some ([], CallBack (Some (mk_error c m)) None, (session, w))) in
      if shouldCheckForSessionSupport (w_topology w) then
        (case probe fuel w of
           (Some e, w') \<Rightarrow> Some ([], CallBack (Some e) None, (session, w'))
         | (None, w') \<Rightarrow> executeOperation fuel env probe sel exec abort snapshots op (session, w'))
      else if hasSessionSupport (w_topology w) then
        (case session of
           None \<Rightarrow>
             (case ClientSession_new implicit_options None of
                Inl e \<Rightarrow> Some ([], Throws e, (session, w))
              | Inr cs \<Rightarrow>
                  (let (calls, step, st1) = run_operation env sel exec op (Some cs, w)
                   in Some (calls, finish_owned abort step st1)))
         | Some cs \<Rightarrow>
             if cs_hasEnded cs
             then cb MongoExpiredSessionError ''Use of expired sessions is not permitted''
             else if cs_snapshotEnabled cs \<and> \<not> snapshots w
             then cb MongoCompatibilityError ''Snapshot reads require MongoDB 5.0 or later''
             else Some (run_operation env sel exec op (session, w)))
      else if session \<noteq> None
      then cb MongoCompatibilityError ''Current topology does not support sessions''
      else Some (run_operation env sel exec op (session, w)))"

section \<open>Retries\<close>

fun executions :: "execCall list \<Rightarrow> (operation \<times> server \<times> execState) list" where
  "executions [] = []"
| "executions (Selection # cs) = executions cs"
| "executions (Execution op s st # cs) = (op, s, st) # executions cs"

text \<open>The operation ends: it calls back or throws.\<close>

fun ended :: "'r execStep \<Rightarrow> bool" where
  "ended (CallBack e r) = True"
| "ended (Throws e) = True"
| "ended _ = False"

definition retry_justified :: "operation \<Rightarrow> mongoError \<Rightarrow> bool" where
  "retry_justified op e =
     ((hasAspect op READ_OPERATION \<longrightarrow> isRetryableError e) \<and> (hasAspect op WRITE_OPERATION \<longrightarrow> shouldRetryWrite e))"

lemma hasAspect_update [simp]: "hasAspect (op\<lparr>op_willRetryWrite := b\<rparr>) a = hasAspect op a"
  by (simp add: hasAspect_def)

lemma callbackWithRetry_cases:
  "(\<exists>e r. fst (callbackWithRetry op f reply st) = CallBack e r)
   \<or> (\<exists>err r. reply = (Some err, r) \<and> callbackWithRetry op f reply st = (SelectAgain f err, st)
        \<and> retry_justified op err)"
  by (auto simp: callbackWithRetry_def retry_justified_def split: prod.splits option.splits)

lemma retry_selected_cases:
  "(\<exists>e. fst (retry_selected env op err outcome st) = CallBack e None)
   \<or> (\<exists>s. fst (retry_selected env op err outcome st) = Execute op s
        \<and> (snd (retry_selected env op err outcome st) = st
           \<or> snd (retry_selected env op err outcome st)
               = on_session (unpin (no_endOptions\<lparr>eo_force := True, eo_forceClear := True\<rparr>)) st))"
  by (cases outcome) (simp_all add: retry_selected_def)

lemma server_selected_cases:
  "(\<exists>e. server_selected env inTxn f op outcome st = (CallBack (Some e) None, st))
   \<or> (\<exists>s. server_selected env inTxn f op outcome st = (Execute op s, st))
   \<or> (\<exists>s. server_selected env inTxn f op outcome st
            = (ExecuteWithRetry (op\<lparr>op_willRetryWrite := True\<rparr>) s f, on_session incrementTransactionNumber st)
        \<and> hasAspect op RETRYABLE \<and> \<not> inTxn \<and> fst st \<noteq> None
        \<and> se_retryWrites (xe_senv env) = Some True \<and> hasAspect op WRITE_OPERATION)
   \<or> (\<exists>s. server_selected env inTxn f op outcome st = (ExecuteWithRetry op s f, st)
        \<and> hasAspect op RETRYABLE \<and> \<not> inTxn \<and> fst st \<noteq> None
        \<and> hasAspect op READ_OPERATION \<and> xe_retryReads env \<noteq> Some False)"
  by (cases outcome) (auto simp: server_selected_def Let_def willRetryRead_def willRetryWrite_def)

lemma executeWithServerSelection_cases:
  "(\<exists>e. fst (executeWithServerSelection op st) = CallBack (Some e) None)
   \<or> (\<exists>e. fst (executeWithServerSelection op st) = Throws e)
   \<or> (\<exists>f st'. executeWithServerSelection op st = (SelectServer f, st'))"
  by (auto simp: executeWithServerSelection_def Let_def split: sum.splits)

text \<open>One run after a first selection that allows a retry.\<close>

lemma run_retry_cases:
  obtains step st' where "run_retry env sel exec op s f st = ([Execution op s st], step, st')" "ended step"
  | step st' where "run_retry env sel exec op s f st = ([Execution op s st, Selection], step, st')" "ended step"
  | e r x outcome y s2 st2 step st' where
      "run_retry env sel exec op s f st = ([Execution op s st, Selection, Execution op s2 st2], step, st')" "ended step"
      "exec 0 op s st = ((Some e, r), x)" "retry_justified op e" "sel 1 f x = (outcome, y)"
      "st2 = y \<or> st2 = on_session (unpin (no_endOptions\<lparr>eo_force := True, eo_forceClear := True\<rparr>)) y"
proof -
  obtain reply x where x: "exec 0 op s st = (reply, x)" by (rule prod.exhaust)
  consider (cb) e r where "fst (callbackWithRetry op f reply x) = CallBack e r"
    | (again) err r where "reply = (Some err, r)" "callbackWithRetry op f reply x = (SelectAgain f err, x)"
        "retry_justified op err"
    using callbackWithRetry_cases [of op f reply x] by blast
  then show ?thesis
  proof cases
    case cb
    then obtain st2 where "callbackWithRetry op f reply x = (CallBack e r, st2)" by (metis prod.collapse)
    with x show ?thesis by (intro that(1) [of "CallBack e r" st2]) (simp_all add: run_retry_def)
  next
    case again
    obtain outcome y where y: "sel 1 f x = (outcome, y)" by (rule prod.exhaust)
    consider (cb) e where "fst (retry_selected env op err outcome y) = CallBack e (None :: 'a option)"
      | (go) s2 st2 where "retry_selected env op err outcome y = (Execute op s2 :: 'a execStep, st2)"
          "st2 = y \<or> st2 = on_session (unpin (no_endOptions\<lparr>eo_force := True, eo_forceClear := True\<rparr>)) y"
      using retry_selected_cases [where 'a = 'a, of env op err outcome y] by (metis prod.collapse)
    then show ?thesis
    proof cases
      case cb
      then obtain st2 where "retry_selected env op err outcome y = (CallBack e None :: 'a execStep, st2)"
        by (metis prod.collapse)
      with x y again show ?thesis
        by (intro that(2) [of "CallBack e None" st2]) (simp_all add: run_retry_def)
    next
      case go
      obtain e2 r2 z where "exec 1 op s2 st2 = ((e2, r2), z)" by (metis prod.collapse)
      with x y again go show ?thesis
        by (intro that(3) [of s2 st2 "CallBack e2 r2" z err r x outcome y])
          (simp_all add: run_retry_def run_execute_def)
    qed
  qed
qed

lemma run_operation_cases:
  fixes exec :: "'a executeCall"
  obtains step st' where "run_operation env sel exec op st = ([], step, st')" "ended step"
  | step st' where "run_operation env sel exec op st = ([Selection], step, st')" "ended step"
  | op1 s1 x1 step st' where "run_operation env sel exec op st = ([Selection, Execution op1 s1 x1], step, st')" "ended step"
  | op1 s1 x1 step st' where
      "run_operation env sel exec op st = ([Selection, Execution op1 s1 x1, Selection], step, st')" "ended step"
  | op1 s1 x1 s2 x2 step st' e r x f outcome y where
      "run_operation env sel exec op st
         = ([Selection, Execution op1 s1 x1, Selection, Execution op1 s2 x2], step, st')" "ended step"
      "exec 0 op1 s1 x1 = ((Some e, r), x)" "retry_justified op e" "sel 1 f x = (outcome, y)"
      "x2 = y \<or> x2 = on_session (unpin (no_endOptions\<lparr>eo_force := True, eo_forceClear := True\<rparr>)) y"
      "hasAspect op RETRYABLE" "\<not> session_inTransaction st"
      "op1 = op\<lparr>op_willRetryWrite := True\<rparr> \<and> (\<exists>f0 st1. executeWithServerSelection op st = (SelectServer f0 :: 'a execStep, st1)
             \<and> x1 = on_session incrementTransactionNumber (snd (sel 0 f0 st1)))
         \<and> hasAspect op WRITE_OPERATION \<and> se_retryWrites (xe_senv env) = Some True
       \<or> op1 = op \<and> hasAspect op READ_OPERATION \<and> xe_retryReads env \<noteq> Some False"
proof -
  let ?in = "session_inTransaction st"
  consider (stop) step st1 where "executeWithServerSelection op st = (step, st1)" "ended (step :: 'a execStep)"
    | (select) f st1 where "executeWithServerSelection op st = (SelectServer f :: 'a execStep, st1)"
    using executeWithServerSelection_cases [where 'a = 'a, of op st] by (metis ended.simps(1,2) prod.collapse)
  then show ?thesis
  proof cases
    case stop
    then show ?thesis by (intro that(1) [of step st1]) (cases step; simp add: run_operation_def)+
  next
    case select
    obtain outcome st2 where sel: "sel 0 f st1 = (outcome, st2)" by (rule prod.exhaust)
    consider (err) e where "server_selected env ?in f op outcome st2 = (CallBack (Some e) None :: 'a execStep, st2)"
      | (plain) s where "server_selected env ?in f op outcome st2 = (Execute op s :: 'a execStep, st2)"
      | (retry) s op' x1 where "server_selected env ?in f op outcome st2 = (ExecuteWithRetry op' s f :: 'a execStep, x1)"
        "hasAspect op RETRYABLE" "\<not> ?in"
        "op' = op\<lparr>op_willRetryWrite := True\<rparr> \<and> (\<exists>f0 st1. executeWithServerSelection op st = (SelectServer f0 :: 'a execStep, st1)
             \<and> x1 = on_session incrementTransactionNumber (snd (sel 0 f0 st1)))
           \<and> hasAspect op WRITE_OPERATION \<and> se_retryWrites (xe_senv env) = Some True
         \<or> op' = op \<and> hasAspect op READ_OPERATION \<and> xe_retryReads env \<noteq> Some False"
      using server_selected_cases [where 'a = 'a, of env ?in f op outcome st2] select sel by (metis snd_conv)
    then show ?thesis
    proof cases
      case err
      with select sel show ?thesis by (intro that(2) [of "CallBack (Some e) None" st2]) (simp_all add: run_operation_def)
    next
      case plain
      obtain e r x where "exec 0 op s st2 = ((e, r), x)" by (metis prod.collapse)
      with select sel plain show ?thesis
        by (intro that(3) [of op s st2 "CallBack e r" x]) (simp_all add: run_operation_def run_execute_def)
    next
      case retry
      have j: "retry_justified op' e \<Longrightarrow> retry_justified op e" for e
        using retry(4) by (auto simp: retry_justified_def)
      have run: "run_operation env sel exec op st = (let (calls, r) = run_retry env sel exec op' s f x1 in (Selection # calls, r))"
        using select sel retry(1) by (simp add: run_operation_def)
      show ?thesis
      proof (rule run_retry_cases [of env sel exec op' s f x1])
        fix step st' assume "run_retry env sel exec op' s f x1 = ([Execution op' s x1], step, st')" "ended step"
        then show ?thesis using that(3) [of op' s x1 step st'] run by simp
      next
        fix step st' assume "run_retry env sel exec op' s f x1 = ([Execution op' s x1, Selection], step, st')" "ended step"
        then show ?thesis using that(4) [of op' s x1 step st'] run by simp
      next
        fix e r x outcome' y s2 x2 step st'
        assume a: "run_retry env sel exec op' s f x1 = ([Execution op' s x1, Selection, Execution op' s2 x2], step, st')"
          "ended step" "exec 0 op' s x1 = ((Some e, r), x)" "retry_justified op' e" "sel 1 f x = (outcome', y)"
          "x2 = y \<or> x2 = on_session (unpin (no_endOptions\<lparr>eo_force := True, eo_forceClear := True\<rparr>)) y"
        from run a(1) have "run_operation env sel exec op st
            = ([Selection, Execution op' s x1, Selection, Execution op' s2 x2], step, st')" by simp
        from that(5) [OF this a(2,3) j [OF a(4)] a(5,6) retry(2,3,4)] show ?thesis .
      qed
    qed
  qed
qed

text \<open>
  (C14) An operation runs at most twice.  Whatever the selections and executions answer, the
  run ends by calling back or throwing; it executes at most twice, each time after a selection, and
  a second time only for a retryable operation outside a transaction, with the option for its kind
  on, and after an error that is retryable for that kind.
\<close>

theorem executed_at_most_twice:
  "case run_operation env sel exec op st of (calls, step, st') \<Rightarrow>
     ended step
     \<and> (case executions calls of
          [] \<Rightarrow> calls = [] \<or> calls = [Selection]
        | [(op1, s1, x1)] \<Rightarrow> hd calls = Selection
        | [(op1, s1, x1), (op2, s2, x2)] \<Rightarrow>
            calls = [Selection, Execution op1 s1 x1, Selection, Execution op2 s2 x2] \<and> op2 = op1
            \<and> hasAspect op RETRYABLE \<and> \<not> session_inTransaction st
            \<and> (hasAspect op WRITE_OPERATION \<and> se_retryWrites (xe_senv env) = Some True
               \<or> hasAspect op READ_OPERATION \<and> xe_retryReads env \<noteq> Some False)
            \<and> (\<exists>e r x. exec 0 op1 s1 x1 = ((Some e, r), x) \<and> retry_justified op e)
        | _ \<Rightarrow> False)"
  by (rule run_operation_cases [of env sel exec op st]) auto

text \<open>The transaction number of the session, if it has a server session.\<close>

definition txn_number :: "execState \<Rightarrow> int option" where
  "txn_number st = Option.bind (fst st) (\<lambda>cs. map_option ss_txnNumber (cs_serverSession cs))"

lemma unpin_serverSession: "cs_serverSession (fst (unpin options st)) = cs_serverSession (fst st)"
  by (auto simp: unpin_def maybeClearPinnedConnection_def split: prod.splits option.splits)

lemma txn_number_unpin [simp]: "txn_number (on_session (unpin options) st) = txn_number st"
  using unpin_serverSession
  by (cases st; cases "fst st") (auto simp: txn_number_def on_session_def split: prod.splits, metis fst_conv)

lemma txn_number_increment: "txn_number st = Some n \<Longrightarrow> txn_number (on_session incrementTransactionNumber st) = Some (n + 1)"
  by (auto simp: txn_number_def on_session_def incrementTransactionNumber_def serverSession_get_def bind_eq_Some_conv
      split: prod.splits option.splits)

lemma txn_number_selection:
  "executeWithServerSelection op st = (SelectServer f, st1) \<Longrightarrow> txn_number st1 = txn_number st"
  by (auto simp: executeWithServerSelection_def Let_def split: sum.splits if_splits prod.splits option.splits)

text \<open>
  (C15) A retried write is the same write.  Assume that selections and executions leave the session's
  transaction number alone.  When a write is executed twice, both executions are marked as retryable
  writes and carry the same number; the first runs in the state the first selection left, with the
  number raised exactly once, so a session that came with number \<open>n\<close> sends \<open>n + 1\<close> both times.
\<close>

theorem retried_write_same_number:
  fixes exec :: "'a executeCall"
  assumes "\<forall>n f x. txn_number (snd (sel n f x)) = txn_number x"
    and "\<forall>n o' s x. txn_number (snd (exec n o' s x)) = txn_number x"
    and "\<not> hasAspect op READ_OPERATION"
    and "fst (run_operation env sel exec op st) = calls" "executions calls = [(op1, s1, x1), (op2, s2, x2)]"
  shows "op_willRetryWrite op1 \<and> op2 = op1 \<and> txn_number x2 = txn_number x1
    \<and> (\<exists>f st1. executeWithServerSelection op st = (SelectServer f :: 'a execStep, st1)
          \<and> x1 = on_session incrementTransactionNumber (snd (sel 0 f st1)))
    \<and> (\<forall>n. txn_number st = Some n \<longrightarrow> txn_number x1 = Some (n + 1))"
proof (rule run_operation_cases [of env sel exec op st])
  fix op' s1' x1' s2' x2' step st' e r x f outcome y
  assume run: "run_operation env sel exec op st
         = ([Selection, Execution op' s1' x1', Selection, Execution op' s2' x2'], step, st')"
    and x: "exec 0 op' s1' x1' = ((Some e, r), x)" "sel 1 f x = (outcome, y)"
    and x2: "x2' = y \<or> x2' = on_session (unpin (no_endOptions\<lparr>eo_force := True, eo_forceClear := True\<rparr>)) y"
    and kind: "op' = op\<lparr>op_willRetryWrite := True\<rparr>
         \<and> (\<exists>f0 st1. executeWithServerSelection op st = (SelectServer f0 :: 'a execStep, st1)
             \<and> x1' = on_session incrementTransactionNumber (snd (sel 0 f0 st1)))
         \<and> hasAspect op WRITE_OPERATION \<and> se_retryWrites (xe_senv env) = Some True
       \<or> op' = op \<and> hasAspect op READ_OPERATION \<and> xe_retryReads env \<noteq> Some False"
  have "txn_number y = txn_number x1'" using assms(1,2) x by (metis snd_conv)
  then have "txn_number x2' = txn_number x1'" using x2 by auto
  moreover have ops: "op1 = op'" "op2 = op'" "x1 = x1'" "x2 = x2'" using run assms(4,5) by auto
  moreover obtain f0 st1 where first: "executeWithServerSelection op st = (SelectServer f0 :: 'a execStep, st1)"
      "x1' = on_session incrementTransactionNumber (snd (sel 0 f0 st1))" "op_willRetryWrite op'"
    using kind assms(3) by auto
  moreover have "txn_number x1' = Some (n + 1)" if "txn_number st = Some n" for n
    using txn_number_increment [of "snd (sel 0 f0 st1)" n] txn_number_selection [OF first(1)] assms(1) that first(2) by simp
  ultimately show ?thesis by blast
qed (use assms(4,5) in auto)

text \<open>
  A failed retry can be reported as success.  When the first attempt fails with an error
  that would be retried and the server selected for the retry does not support retries of this
  kind, the callback is called without an error and without a result: the error of the first
  attempt is lost.
\<close>

theorem retry_error_swallowed:
  assumes "exec 0 op s x = ((Some err, r), y)" "retry_justified op err"
    and "e_code err \<noteq> Some (CodeNum (MONGODB_ERROR_CODES IllegalOperation))"
    and "sel 1 f y = (Inr s2, z)"
    and "hasAspect op READ_OPERATION \<and> \<not> supportsRetryableReads (xe_senv env) s2
         \<or> hasAspect op WRITE_OPERATION \<and> \<not> supportsRetryableWrites (xe_senv env) s2"
  shows "run_retry env sel exec op s f x = ([Execution op s x, Selection], CallBack None None, z)"
proof -
  have "callbackWithRetry op f (Some err, r) y = (SelectAgain f err, y)"
    using assms(2,3) by (auto simp: callbackWithRetry_def retry_justified_def)
  with assms(1,4,5) show ?thesis by (auto simp: run_retry_def retry_selected_def)
qed

section \<open>Implicit sessions are closed\<close>

text \<open>An implicit session is never in a transaction and is not ended before its operation is.\<close>

definition quiet :: "execState \<Rightarrow> bool" where
  "quiet st = (case fst st of None \<Rightarrow> True | Some cs \<Rightarrow> \<not> inTransaction cs \<and> \<not> cs_hasEnded cs)"

definition keeps_session :: "execState \<Rightarrow> execState \<Rightarrow> bool" where
  "keeps_session st st' = ((fst st' = None \<longleftrightarrow> fst st = None) \<and> (quiet st \<longrightarrow> quiet st'))"

lemma keeps_session_refl [simp]: "keeps_session st st"
  by (simp add: keeps_session_def)

lemma keeps_session_trans [trans]: "keeps_session a b \<Longrightarrow> keeps_session b c \<Longrightarrow> keeps_session a c"
  by (simp add: keeps_session_def)

lemma keeps_session_on_session:
  assumes "\<And>cs w. \<not> inTransaction cs \<Longrightarrow> \<not> cs_hasEnded cs \<Longrightarrow>
      \<not> inTransaction (fst (g (cs, w))) \<and> \<not> cs_hasEnded (fst (g (cs, w)))"
  shows "keeps_session st (on_session g st)"
proof -
  obtain session w where st: "st = (session, w)" by (rule prod.exhaust)
  show ?thesis
  proof (cases session)
    case None
    with st show ?thesis by (simp add: on_session_def)
  next
    case (Some cs)
    obtain cs' w' where "g (cs, w) = (cs', w')" by (rule prod.exhaust)
    with assms [of cs w] Some st show ?thesis by (simp add: keeps_session_def on_session_def quiet_def)
  qed
qed

lemma keeps_session_unpin: "keeps_session st (on_session (unpin options) st)"
  by (rule keeps_session_on_session)
    (auto simp: unpin_def maybeClearPinnedConnection_def inTransaction_def isActive_def unpinServer_def split: option.splits)

lemma keeps_session_increment: "keeps_session st (on_session incrementTransactionNumber st)"
proof (rule keeps_session_on_session)
  fix cs w assume "\<not> inTransaction cs" "\<not> cs_hasEnded cs"
  with serverSession_get_Some [of "(cs, w)"]
  show "\<not> inTransaction (fst (incrementTransactionNumber (cs, w))) \<and> \<not> cs_hasEnded (fst (incrementTransactionNumber (cs, w)))"
    by (auto simp: incrementTransactionNumber_def inTransaction_def)
qed

lemma executeWithServerSelection_keeps: "keeps_session st (snd (executeWithServerSelection op st))"
proof -
  have "keeps_session st (case st of
            (Some cs, w) \<Rightarrow>
              (if session_isPinned (cs, w) \<and> isCommitted (cs_transaction cs) \<and> \<not> op_bypassPinningCheck op
               then on_session (unpin no_endOptions) st else st)
          | _ \<Rightarrow> st)"
    by (auto intro: keeps_session_unpin split: prod.splits option.splits)
  then show ?thesis by (simp add: executeWithServerSelection_def Let_def split: sum.splits)
qed

lemma server_selected_keeps: "keeps_session st (snd (server_selected env inTxn f op outcome st))"
  by (cases outcome) (auto simp: server_selected_def Let_def intro: keeps_session_increment)

lemma callbackWithRetry_keeps: "snd (callbackWithRetry op f reply st) = st"
  by (auto simp: callbackWithRetry_def split: prod.splits option.splits)

lemma retry_selected_keeps: "keeps_session st (snd (retry_selected env op err outcome st))"
  by (cases outcome) (auto simp: retry_selected_def intro: keeps_session_unpin)

lemma run_execute_keeps:
  fixes exec :: "'a executeCall"
  assumes "\<forall>n o' s x. keeps_session x (snd (exec n o' s x))"
  shows "keeps_session st (snd (snd (run_execute exec n op s st)))"
proof -
  have "snd (snd (run_execute exec n op s st)) = snd (exec n op s st)"
    by (simp add: run_execute_def split: prod.split)
  moreover have "keeps_session st (snd (exec n op s st))" using assms by blast
  ultimately show ?thesis by simp
qed

lemma run_retry_keeps:
  fixes exec :: "'a executeCall"
  assumes sel: "\<forall>n f x. keeps_session x (snd (sel n f x))" and exec: "\<forall>n o' s x. keeps_session x (snd (exec n o' s x))"
  shows "keeps_session st (snd (snd (run_retry env sel exec op s f st)))"
proof -
  obtain reply x where x: "exec 0 op s st = (reply, x)" by (rule prod.exhaust)
  obtain step1 where c: "callbackWithRetry op f reply x = (step1, x)"
    using callbackWithRetry_keeps [of op f reply x] by (metis prod.collapse)
  have kx: "keeps_session st x" using exec x by (metis snd_conv)
  show ?thesis
  proof (cases step1)
    case (SelectAgain f' err)
    obtain outcome y where y: "sel 1 f' x = (outcome, y)" by (rule prod.exhaust)
    obtain step2 :: "'a execStep" and z where z: "retry_selected env op err outcome y = (step2, z)" by (rule prod.exhaust)
    have kz: "keeps_session st z"
      using kx sel y retry_selected_keeps [of y env op err outcome] z by (metis keeps_session_trans snd_conv)
    show ?thesis
    proof (cases step2)
      case (Execute op' s')
      obtain calls step w where w: "run_execute exec 1 op' s' z = (calls, step, w)" by (rule prod_cases3)
      then have "keeps_session z w" using run_execute_keeps [OF exec, of z 1 op' s'] by simp
      with kz have "keeps_session st w" by (rule keeps_session_trans)
      with x c SelectAgain y z Execute w show ?thesis by (simp add: run_retry_def)
    qed (use x c SelectAgain y z kz in \<open>simp_all add: run_retry_def\<close>)
  qed (use x c kx in \<open>simp_all add: run_retry_def\<close>)
qed

lemma run_operation_keeps:
  fixes exec :: "'a executeCall"
  assumes sel: "\<forall>n f x. keeps_session x (snd (sel n f x))" and exec: "\<forall>n o' s x. keeps_session x (snd (exec n o' s x))"
  shows "keeps_session st (snd (snd (run_operation env sel exec op st)))"
proof -
  obtain step1 :: "'a execStep" and st1 where e: "executeWithServerSelection op st = (step1, st1)" by (rule prod.exhaust)
  have k1: "keeps_session st st1" using executeWithServerSelection_keeps [of st op] e by (metis snd_conv)
  show ?thesis
  proof (cases step1)
    case (SelectServer f)
    obtain outcome y where y: "sel 0 f st1 = (outcome, y)" by (rule prod.exhaust)
    obtain step2 :: "'a execStep" and z where z: "server_selected env (session_inTransaction st) f op outcome y = (step2, z)"
      by (rule prod.exhaust)
    have kz: "keeps_session st z"
      using k1 sel y server_selected_keeps [of y env "session_inTransaction st" f op outcome] z
      by (metis keeps_session_trans snd_conv)
    show ?thesis
    proof (cases step2)
      case (Execute op' s')
      obtain calls step w where w: "run_execute exec 0 op' s' z = (calls, step, w)" by (rule prod_cases3)
      then have "keeps_session z w" using run_execute_keeps [OF exec, of z 0 op' s'] by simp
      with kz have "keeps_session st w" by (rule keeps_session_trans)
      with e SelectServer y z Execute w show ?thesis by (simp add: run_operation_def)
    next
      case (ExecuteWithRetry op' s' f')
      obtain calls step w where w: "run_retry env sel exec op' s' f' z = (calls, step, w)" by (rule prod_cases3)
      then have "keeps_session z w" using run_retry_keeps [OF sel exec, of z env op' s' f'] by simp
      with kz have "keeps_session st w" by (rule keeps_session_trans)
      with e SelectServer y z ExecuteWithRetry w show ?thesis by (simp add: run_operation_def)
    qed (use e SelectServer y z kz in \<open>simp_all add: run_operation_def\<close>)
  qed (use e k1 in \<open>simp_all add: run_operation_def\<close>)
qed


lemma endSession_run_quiet:
  assumes "\<not> inTransaction cs" "\<not> cs_hasEnded cs"
  shows "\<exists>cs' w'. endSession_run abort (cs, w) = (Finished None, (cs', w'))
    \<and> cs_hasEnded cs' \<and> cs_serverSession cs' = None"
proof -
  let ?o = "no_endOptions\<lparr>eo_force := True\<rparr>"
  obtain ss cs1 w1 where g: "serverSession_get (cs, w) = (Some ss, (cs1, w1))" "cs_transaction cs1 = cs_transaction cs"
    using serverSession_get_Some [of "(cs, w)"] by auto
  obtain cs2 w2 where c: "completeEndSession ?o (cs1, w1) = (cs2, w2)" by (rule prod.exhaust)
  then have "cs_hasEnded cs2 \<and> cs_serverSession cs2 = None"
    by (auto simp: completeEndSession_def split: prod.splits option.splits)
  moreover have "endSession ?o (cs, w) = (Finished None, (cs2, w2))"
    using assms g c by (simp add: endSession_def inTransaction_def)
  ultimately show ?thesis by (simp add: endSession_run_def)
qed

lemma finish_owned_quiet:
  assumes "quiet (Some cs, w)" "ended step"
  shows "\<exists>cs' w'. finish_owned abort step (Some cs, w) = (step, (Some cs', w'))
    \<and> cs_hasEnded cs' \<and> cs_serverSession cs' = None"
proof -
  from assms(1) endSession_run_quiet [of cs abort w] obtain cs' w' where
    "endSession_run abort (cs, w) = (Finished None, (cs', w'))" "cs_hasEnded cs'" "cs_serverSession cs' = None"
    by (auto simp: quiet_def)
  with assms(2) show ?thesis by (cases step) (simp_all add: finish_owned_def)
qed

lemma run_operation_ended: "ended (fst (snd (run_operation env sel exec op st)))"
  by (rule run_operation_cases [of env sel exec op st]) auto


lemma new_session_quiet: "\<exists>cs. ClientSession_new implicit_options None = Inr cs \<and> quiet (Some cs, w)"
  by (simp add: ClientSession_new_def implicit_options_def quiet_def inTransaction_def initial_transaction_def
      Transaction_new_def no_txnOptions_def isActive_def Let_def WriteConcern_fromOptions_def ReadPreference_fromOptions_def
      example_transaction_def ACTIVE_STATES_def)

lemma executeOperation_ready:
  fixes exec :: "'a executeCall"
  assumes "\<forall>n f x. keeps_session x (snd (sel n f x))" "\<forall>n o' s x. keeps_session x (snd (exec n o' s x))"
    and "\<not> shouldCheckForSessionSupport (w_topology w)"
  shows "\<exists>calls step session' w'.
      executeOperation (Suc n) env probe sel exec abort snapshots op (None, w) = Some (calls, step, (session', w'))
      \<and> ended step \<and> (session' \<noteq> None \<longleftrightarrow> hasSessionSupport (w_topology w))
      \<and> (\<forall>cs. session' = Some cs \<longrightarrow> cs_hasEnded cs \<and> cs_serverSession cs = None)"
proof (cases "hasSessionSupport (w_topology w)")
  case True
  obtain cs where cs: "ClientSession_new implicit_options None = Inr cs" "quiet (Some cs, w)"
    using new_session_quiet by blast
  obtain calls step session1 w1 where r: "run_operation env sel exec op (Some cs, w) = (calls, step, (session1, w1))"
    by (metis prod.collapse)
  have "keeps_session (Some cs, w) (session1, w1)" "ended step"
    using run_operation_keeps [OF assms(1,2), of "(Some cs, w)" env op] run_operation_ended [of env sel exec op "(Some cs, w)"] r
    by simp_all
  with cs(2) obtain cs1 where cs1: "session1 = Some cs1" "quiet (Some cs1, w1)" "ended step"
    by (cases session1) (simp_all add: keeps_session_def)
  from finish_owned_quiet [OF cs1(2,3), of abort] obtain cs2 w2 where
    "finish_owned abort step (Some cs1, w1) = (step, (Some cs2, w2))" "cs_hasEnded cs2" "cs_serverSession cs2 = None"
    by blast
  with True assms(3) cs(1) r cs1 show ?thesis by simp
next
  case False
  obtain calls step session1 w1 where r: "run_operation env sel exec op (None, w) = (calls, step, (session1, w1))"
    by (metis prod.collapse)
  have "keeps_session (None, w) (session1, w1)" "ended step"
    using run_operation_keeps [OF assms(1,2), of "(None, w)" env op] run_operation_ended [of env sel exec op "(None, w)"] r
    by simp_all
  with False assms(3) r show ?thesis by (simp add: keeps_session_def)
qed

text \<open>
  (C16) Implicit sessions are closed.  Assume that selecting a server and executing the operation
  neither end a session nor start a transaction in it, and that a probe that succeeds leaves the deployment
  known.  Then an operation without a session returns, fuel for two rounds being enough, and whatever
  the outcome the session made for it is ended at the end and holds no server session; one is made
  exactly when a deployment that is already known supports sessions.
\<close>

theorem implicit_session_closed:
  fixes exec :: "'a executeCall"
  assumes "\<forall>n f x. keeps_session x (snd (sel n f x))" "\<forall>n o' s x. keeps_session x (snd (exec n o' s x))"
    and "\<forall>n w. fst (probe n w) = None \<longrightarrow> \<not> shouldCheckForSessionSupport (w_topology (snd (probe n w)))"
  shows "\<exists>calls step session' w'.
      executeOperation (Suc (Suc n)) env probe sel exec abort snapshots op (None, w) = Some (calls, step, (session', w'))
      \<and> ended step
      \<and> (\<not> shouldCheckForSessionSupport (w_topology w) \<longrightarrow>
            (session' \<noteq> None \<longleftrightarrow> hasSessionSupport (w_topology w)))
      \<and> (\<forall>cs. session' = Some cs \<longrightarrow> cs_hasEnded cs \<and> cs_serverSession cs = None)"
proof (cases "shouldCheckForSessionSupport (w_topology w)")
  case True
  obtain e w' where p: "probe (Suc n) w = (e, w')" by (rule prod.exhaust)
  show ?thesis
  proof (cases e)
    case None
    with assms(3) p have "\<not> shouldCheckForSessionSupport (w_topology w')" by (metis fst_conv snd_conv)
    from executeOperation_ready [OF assms(1,2) this, of n env probe abort snapshots op]
    obtain calls step session' w2 where
      "executeOperation (Suc n) env probe sel exec abort snapshots op (None, w') = Some (calls, step, (session', w2))"
      "ended step" "\<forall>cs. session' = Some cs \<longrightarrow> cs_hasEnded cs \<and> cs_serverSession cs = None"
      by blast
    moreover have "executeOperation (Suc (Suc n)) env probe sel exec abort snapshots op (None, w)
        = executeOperation (Suc n) env probe sel exec abort snapshots op (None, w')"
      using True p None by (subst executeOperation.simps(2)) (simp del: executeOperation.simps)
    ultimately show ?thesis using True
      by (intro exI [of _ calls] exI [of _ step] exI [of _ session'] exI [of _ w2]) (simp del: executeOperation.simps)
  next
    case (Some err)
    with True p show ?thesis by simp
  qed
next
  case False
  from executeOperation_ready [OF assms(1,2) False, of "Suc n" env probe abort snapshots op] False show ?thesis
    by (simp only: simp_thms)
qed

text \<open>An operation on the example server, whose executions fail with a labelled network error.\<close>

definition example_operation :: "aspect list \<Rightarrow> operation" where
  "example_operation as = \<lparr>op_aspects = Some as, op_readPreference = Some ReadPreference_primary, op_server = None,
     op_bypassPinningCheck = False, op_trySecondaryWrite = False, op_canRetryRead = True, op_canRetryWrite = True,
     op_willRetryWrite = False\<rparr>"

definition example_execEnv :: execEnv where
  "example_execEnv = \<lparr>xe_retryReads = None, xe_senv = example_senv\<lparr>se_retryWrites := Some True\<rparr>\<rparr>"

definition labelled_error :: mongoError where
  "labelled_error = (mk_error MongoNetworkError ''connection reset'')\<lparr>e_labels := [''RetryableWriteError'']\<rparr>"

definition example_sel :: "server \<Rightarrow> selectCall" where
  "example_sel again n f st = (Inr (if n = 0 then example_server else again), st)"

definition failing_exec :: "nat executeCall" where
  "failing_exec n op s st = ((Some labelled_error, None), st)"

theorem retry_error_swallowed_witness:
  "run_retry example_execEnv (example_sel (example_server\<lparr>sv_description := unknownDescription 0 ''a:27017''\<rparr>))
      failing_exec (example_operation [READ_OPERATION, RETRYABLE]) example_server (read_select ReadPreference_primary)
      (None, example_world)
     = ([Execution (example_operation [READ_OPERATION, RETRYABLE]) example_server (None, example_world), Selection],
        CallBack None None, (None, example_world))"
  by (rule retry_error_swallowed [where err = labelled_error and r = None and y = "(None, example_world)"
        and ?s2.0 = "example_server\<lparr>sv_description := unknownDescription 0 ''a:27017''\<rparr>"])
    (simp_all add: failing_exec_def example_sel_def retry_justified_def hasAspect_def example_operation_def labelled_error_def
      mk_error_def isRetryableError_def instanceof_def supportsRetryableReads_def server_maxWireVersion_def
      example_execEnv_def example_senv_def unknownDescription_def ServerDescription_of_def no_sdOptions_def opt_field_def)

theorem executed_at_most_twice_witness:
  "ended (fst (snd (run_operation example_execEnv (example_sel example_server) failing_exec
     (example_operation [WRITE_OPERATION, RETRYABLE]) (Some example_session, example_world))))"
  using executed_at_most_twice [where env = example_execEnv and sel = "example_sel example_server" and exec = failing_exec
     and op = "example_operation [WRITE_OPERATION, RETRYABLE]" and st = "(Some example_session, example_world)"]
  by (auto split: prod.splits)

text \<open>A deployment of one router that supports sessions.\<close>

definition session_world :: sessionWorld where
  "session_world = example_world\<lparr>w_topology := \<lparr>sto_description = TopologyDescription_new Sharded
     [(''a:27017'', (unknownDescription 0 ''a:27017'')\<lparr>sd_type := Mongos, sd_maxWireVersion := 13,
       sd_logicalSessionTimeoutMinutes := Some 30\<rparr>)] None None None None 10000 15, sto_loadBalanced = False\<rparr>\<rparr>"

lemma session_world_facts:
  "\<not> shouldCheckForSessionSupport (w_topology session_world)" "hasSessionSupport (w_topology session_world)"
  by (simp_all add: session_world_def shouldCheckForSessionSupport_def hasSessionSupport_def TopologyDescription_new_def
      hasDataBearingServers_def isDataBearing_def map_values_def logicalSessionTimeoutMinutes_def isReadable_def
      isWritable_def DATA_BEARING_SERVER_TYPES_def WRITABLE_SERVER_TYPES_def)

theorem implicit_session_closed_witness:
  "\<exists>calls step cs w'.
      executeOperation 2 example_execEnv (\<lambda>n w. (Some labelled_error, w)) (example_sel example_server) failing_exec
        exec_failing (\<lambda>_. True) (example_operation [WRITE_OPERATION, RETRYABLE]) (None, session_world)
        = Some (calls, step, (Some cs, w'))
      \<and> ended step \<and> cs_hasEnded cs \<and> cs_serverSession cs = None"
proof -
  have "\<forall>n f x. keeps_session x (snd (example_sel example_server n f x))"
    "\<forall>n o' s x. keeps_session x (snd (failing_exec n o' s x))"
    by (simp_all add: example_sel_def failing_exec_def)
  from implicit_session_closed [OF this, of "\<lambda>n w. (Some labelled_error, w)" 0 example_execEnv exec_failing "\<lambda>_. True"
     "example_operation [WRITE_OPERATION, RETRYABLE]" session_world] session_world_facts
  show ?thesis by (fastforce simp: numeral_2_eq_2 simp del: executeOperation.simps)
qed

definition idle_session :: clientSession where
  "idle_session = example_session\<lparr>cs_transaction := example_transaction,
     cs_serverSession := Some \<lparr>ss_id = replicate 16 7, ss_lastUse = 0, ss_txnNumber = 4, ss_isDirty = False\<rparr>\<rparr>"

lemma labelled_error_facts:
  "instanceof labelled_error MongoError" "hasErrorLabel labelled_error ''RetryableWriteError''"
  "e_code labelled_error = None"
  by (simp_all add: labelled_error_def instanceof_def instanceof_class.simps [of MongoNetworkError] mk_error_def hasErrorLabel_def)

lemma example_write_twice:
  defines "op \<equiv> example_operation [WRITE_OPERATION, RETRYABLE]"
    and "st \<equiv> (Some idle_session, example_world)"
  shows "executions (fst (run_operation example_execEnv (example_sel example_server) failing_exec op st))
   = [(op\<lparr>op_willRetryWrite := True\<rparr>, example_server, on_session incrementTransactionNumber st),
      (op\<lparr>op_willRetryWrite := True\<rparr>, example_server, on_session incrementTransactionNumber st)]"
proof -
  let ?f = "read_select ReadPreference_primary" and ?op = "op\<lparr>op_willRetryWrite := True\<rparr>"
  let ?x = "on_session incrementTransactionNumber st"
  have idle: "\<not> inTransaction idle_session" "\<not> session_isPinned (idle_session, example_world)"
    by (simp_all add: inTransaction_def idle_session_def example_session_def example_transaction_def isActive_def
        ACTIVE_STATES_def session_isPinned_def session_loadBalanced_def example_world_def example_sessionTopology_def
        isPinned_txn_def TopologyDescription_new_def)
  then have txn: "\<not> session_inTransaction st" by (simp add: session_inTransaction_def st_def)
  have aspects: "hasAspect op WRITE_OPERATION" "hasAspect op RETRYABLE" "\<not> hasAspect op READ_OPERATION"
    "\<not> hasAspect op CURSOR_ITERATING" "\<not> hasAspect op CURSOR_CREATING" "op_canRetryWrite op" "\<not> op_trySecondaryWrite op"
    "effective_readPreference op = ReadPreference_primary"
    by (simp_all add: op_def example_operation_def hasAspect_def effective_readPreference_def)
  have sup: "supportsRetryableWrites (xe_senv example_execEnv) example_server" "\<not> se_loadBalanced (xe_senv example_execEnv)"
    "se_retryWrites (xe_senv example_execEnv) = Some True"
    by (simp_all add: supportsRetryableWrites_def example_execEnv_def example_senv_def example_server_def)
  have s1: "executeWithServerSelection op st = (SelectServer ?f :: nat execStep, st)"
    using idle txn aspects
    by (simp add: executeWithServerSelection_def st_def operation_selector_def resolve_selector_def
        readPreferenceServerSelector_def rp_isValid_def ReadPreference_isValid_def VALID_MODES_def ReadPreference_primary_def)
  have s2: "server_selected example_execEnv False ?f op (Inr example_server) st = (ExecuteWithRetry ?op example_server ?f :: nat execStep, ?x)"
    using aspects sup by (simp add: server_selected_def willRetryWrite_def st_def)
  have s3: "callbackWithRetry ?op ?f (Some labelled_error, None) ?x = (SelectAgain ?f labelled_error :: nat execStep, ?x)"
    using aspects by (simp add: callbackWithRetry_def shouldRetryWrite_def labelled_error_facts)
  have s4: "retry_selected example_execEnv ?op labelled_error (Inr example_server) ?x = (Execute ?op example_server :: nat execStep, ?x)"
    using aspects sup by (simp add: retry_selected_def)
  show ?thesis
    using s1 s2 s3 s4 txn by (simp add: run_operation_def run_retry_def run_execute_def example_sel_def failing_exec_def)
qed

theorem retried_write_same_number_witness:
  "\<exists>op1 s1 x1 op2 s2 x2.
     executions (fst (run_operation example_execEnv (example_sel example_server) failing_exec
       (example_operation [WRITE_OPERATION, RETRYABLE]) (Some idle_session, example_world))) = [(op1, s1, x1), (op2, s2, x2)]
     \<and> op_willRetryWrite op1 \<and> op2 = op1 \<and> txn_number x1 = Some 5 \<and> txn_number x2 = Some 5"
proof -
  let ?op = "example_operation [WRITE_OPERATION, RETRYABLE]"
  have "\<forall>n f x. txn_number (snd (example_sel example_server n f x)) = txn_number x"
    "\<forall>n o' s x. txn_number (snd (failing_exec n o' s x)) = txn_number x" "\<not> hasAspect ?op READ_OPERATION"
    by (simp_all add: example_sel_def failing_exec_def hasAspect_def example_operation_def)
  from retried_write_same_number [OF this refl example_write_twice] example_write_twice
  show ?thesis by (auto simp: txn_number_def idle_session_def)
qed

end
