(* ===== verification/With_Transaction.thy ===== *)
theory With_Transaction
  imports Sessions
begin

text \<open>
  \<open>ClientSession.withTransaction\<close> of \<open>src/sessions.ts\<close>: it runs the user's function in a transaction
  and retries the commit or the whole transaction.  The user's function, the clock and
  \<open>executeOperation\<close> are arguments.  The theory proves that it ends and that it leaves no transaction
  behind.
\<close>

section \<open>The convenient API\<close>

text \<open>
  How a promise ends.  A throw of a synchronous part that runs inside a promise handler rejects the
  promise, so both are failures here.
\<close>

datatype settled = Resolved | Failed mongoError

text \<open>What the user's function does: return a promise that resolves or rejects (or throw, which the
  code turns into a rejection), or return something that is not a promise.\<close>

datatype fnOutcome = FnResolved | FnRejected mongoError | FnNotPromise

text \<open>The \<open>n\<close>-th call of the function, the \<open>k\<close>-th reading of the clock, and \<open>executeOperation\<close>.\<close>

record txnEnv =
  te_fn :: "nat \<Rightarrow> sessionState \<Rightarrow> fnOutcome \<times> sessionState"
  te_clock :: "nat \<Rightarrow> int"
  te_exec :: "txnCommand \<Rightarrow> sessionState \<Rightarrow> mongoError option \<times> sessionState"

definition MAX_WITH_TRANSACTION_TIMEOUT :: int where
  "MAX_WITH_TRANSACTION_TIMEOUT = 120000"

definition hasNotTimedOut :: "int \<Rightarrow> int \<Rightarrow> int \<Rightarrow> bool" where
  "hasNotTimedOut now startTime timeout = (calculateDurationInMs now startTime < timeout)"

definition USER_EXPLICIT_TXN_END_STATES :: "txnState list" where
  "USER_EXPLICIT_TXN_END_STATES = [NO_TRANSACTION, TRANSACTION_COMMITTED, TRANSACTION_ABORTED]"

definition userExplicitlyEndedTransaction :: "clientSession \<Rightarrow> bool" where
  "userExplicitlyEndedTransaction cs = (t_state (cs_transaction cs) \<in> set USER_EXPLICIT_TXN_END_STATES)"

text \<open>\<open>commitTransaction\<close> and \<open>abortTransaction\<close> as promises.\<close>

definition end_promise :: "txnEnv \<Rightarrow> endCommand \<Rightarrow> sessionState \<Rightarrow> settled \<times> sessionState" where
  "end_promise env name st =
     (case end_rounds (te_exec env) name st of
        (_, Finished None, st') \<Rightarrow> (Resolved, st')
      | (_, Finished (Some e), st') \<Rightarrow> (Failed e, st')
      | (_, Threw e, st') \<Rightarrow> (Failed e, st')
      | (_, Send _, st') \<Rightarrow> (Resolved, st'))"

text \<open>The test of \<open>maybeRetryOrThrow\<close>, and the error it throws otherwise.\<close>

definition retries_transaction :: "txnEnv \<Rightarrow> int \<Rightarrow> nat \<Rightarrow> mongoError \<Rightarrow> bool" where
  "retries_transaction env startTime k err =
     (instanceof err MongoError \<and> hasErrorLabel err ''TransientTransactionError''
      \<and> hasNotTimedOut (te_clock env k) startTime MAX_WITH_TRANSACTION_TIMEOUT)"

definition thrown_error :: "mongoError \<Rightarrow> mongoError" where
  "thrown_error err =
     (if isMaxTimeMSExpiredError err then addErrorLabel err ''UnknownTransactionCommitResult'' else err)"

text \<open>
  The two functions call each other without a bound on the number of rounds, hence the fuel; \<open>k\<close>
  counts the readings of the clock and \<open>n\<close> the calls of the user's function.
\<close>

fun attemptTransaction :: "nat \<Rightarrow> txnEnv \<Rightarrow> transactionOptions option \<Rightarrow> int \<Rightarrow> nat \<Rightarrow> nat \<Rightarrow> sessionState
      \<Rightarrow> (settled \<times> nat \<times> sessionState) option"
  and attemptTransactionCommit :: "nat \<Rightarrow> txnEnv \<Rightarrow> transactionOptions option \<Rightarrow> int \<Rightarrow> nat \<Rightarrow> nat \<Rightarrow> sessionState
      \<Rightarrow> (settled \<times> nat \<times> sessionState) option" where
  "attemptTransaction 0 env options startTime k n st = None"
| "attemptTransaction (Suc fuel) env options startTime k n st =
     (case startTransaction options st of
        (Some e, st1) \<Rightarrow> Some (Failed e, n, st1)
      | (None, st1) \<Rightarrow>
          (case te_fn env n st1 of
             (FnNotPromise, st2) \<Rightarrow>
               Some (Failed (invalid_argument ''Function provided to `withTransaction` must return a Promise''),
                     Suc n, snd (end_promise env AbortTransaction st2))
           | (FnResolved, st2) \<Rightarrow>
               if userExplicitlyEndedTransaction (fst st2) then Some (Resolved, Suc n, st2)
               else attemptTransactionCommit fuel env options startTime k (Suc n) st2
           | (FnRejected err, st2) \<Rightarrow>
               (case (if isActive (cs_transaction (fst st2)) then end_promise env AbortTransaction st2 else (Resolved, st2)) of
                  (Failed e, st3) \<Rightarrow> Some (Failed e, Suc n, st3)
                | (Resolved, st3) \<Rightarrow>
                    if retries_transaction env startTime k err
                    then attemptTransaction fuel env options startTime (Suc k) (Suc n) st3
                    else Some (Failed (thrown_error err), Suc n, st3))))"
| "attemptTransactionCommit 0 env options startTime k n st = None"
| "attemptTransactionCommit (Suc fuel) env options startTime k n st =
     (case end_promise env CommitTransaction st of
        (Resolved, st1) \<Rightarrow> Some (Resolved, n, st1)
      | (Failed err, st1) \<Rightarrow>
          if instanceof err MongoError \<and> hasNotTimedOut (te_clock env k) startTime MAX_WITH_TRANSACTION_TIMEOUT
             \<and> \<not> isMaxTimeMSExpiredError err
          then (if hasErrorLabel err ''UnknownTransactionCommitResult''
                then attemptTransactionCommit fuel env options startTime (Suc k) n st1
                else if hasErrorLabel err ''TransientTransactionError''
                then attemptTransaction fuel env options startTime (Suc k) n st1
                else Some (Failed err, n, st1))
          else Some (Failed err, n, st1))"

definition withTransaction :: "nat \<Rightarrow> txnEnv \<Rightarrow> transactionOptions option \<Rightarrow> sessionState
    \<Rightarrow> (settled \<times> nat \<times> sessionState) option" where
  "withTransaction fuel env options st = attemptTransaction fuel env options (te_clock env 0) 1 0 st"

section \<open>It ends\<close>

lemma timed_out:
  assumes "\<forall>k \<ge> K. te_clock env k \<ge> startTime + MAX_WITH_TRANSACTION_TIMEOUT"
    and "hasNotTimedOut (te_clock env k) startTime MAX_WITH_TRANSACTION_TIMEOUT"
  shows "k < K"
proof (rule ccontr)
  assume "\<not> k < K"
  with assms(1) have "te_clock env k \<ge> startTime + MAX_WITH_TRANSACTION_TIMEOUT" by simp
  with assms(2) show False
    by (simp add: hasNotTimedOut_def MAX_WITH_TRANSACTION_TIMEOUT_def)
qed

text \<open>Each round reads the clock once, and takes one unit of fuel for each of the two functions.\<close>

lemma attempts_return:
  assumes "\<forall>k \<ge> K. te_clock env k \<ge> startTime + MAX_WITH_TRANSACTION_TIMEOUT"
  shows "(2 * (K - k) + 2 \<le> fuel \<longrightarrow> (\<exists>r. attemptTransaction fuel env options startTime k n st = Some r))
    \<and> (2 * (K - k) + 1 \<le> fuel \<longrightarrow> (\<exists>r. attemptTransactionCommit fuel env options startTime k n st = Some r))"
proof (induction fuel arbitrary: k n st)
  case (Suc fuel)
  let ?notTimedOut = "hasNotTimedOut (te_clock env k) startTime MAX_WITH_TRANSACTION_TIMEOUT"
  have attempt: "\<exists>r. attemptTransaction fuel env options startTime (Suc k) n' st' = Some r"
    if ?notTimedOut "2 * (K - k) \<le> fuel" for n' st'
    using Suc.IH [of "Suc k" n' st'] timed_out [OF assms that(1)] that(2) by simp
  have commit: "\<exists>r. attemptTransactionCommit fuel env options startTime (Suc k) n' st' = Some r"
    if ?notTimedOut "2 * (K - k) \<le> fuel" for n' st'
    using Suc.IH [of "Suc k" n' st'] timed_out [OF assms that(1)] that(2) by simp
  have now: "\<exists>r. attemptTransactionCommit fuel env options startTime k n' st' = Some r"
    if "2 * (K - k) + 1 \<le> fuel" for n' st' using Suc.IH [of k n' st'] that by simp
  show ?case
  proof (intro conjI impI)
    assume "2 * (K - k) + 2 \<le> Suc fuel"
    with attempt now show "\<exists>r. attemptTransaction (Suc fuel) env options startTime k n st = Some r"
      by (auto simp: retries_transaction_def split: prod.split option.split fnOutcome.split settled.split)
  next
    assume "2 * (K - k) + 1 \<le> Suc fuel"
    with attempt commit show "\<exists>r. attemptTransactionCommit (Suc fuel) env options startTime k n st = Some r"
      by (auto split: prod.split settled.split)
  qed
qed simp

text \<open>
  (C17) \<open>withTransaction\<close> ends.  However the function, the commits and the aborts end, once the clock
  has passed the two minutes after the start at its \<open>K\<close>-th reading, a result is reached: fuel
  \<open>2 * K + 2\<close> is enough, for at most \<open>K\<close> rounds are made.
\<close>

theorem withTransaction_ends:
  assumes "\<forall>k \<ge> K. te_clock env k \<ge> te_clock env 0 + 120000"
  shows "\<exists>r. withTransaction (2 * K + 2) env options st = Some r"
  using attempts_return [where K = K and env = env and startTime = "te_clock env 0" and k = 1 and fuel = "2 * K + 2"
      and options = options and n = 0 and st = st] assms
  by (simp add: withTransaction_def MAX_WITH_TRANSACTION_TIMEOUT_def)

section \<open>It leaves no transaction behind\<close>

lemma startTransaction_error_inactive:
  assumes "startTransaction options st = (Some e, st1)" "\<not> inTransaction (fst st)"
  shows "\<not> inTransaction (fst st1)"
proof -
  obtain cs1 w1 where a: "assertAlive st = (None, (cs1, w1))" "cs_transaction cs1 = cs_transaction (fst st)"
    using assertAlive_None [of st] by auto
  let ?st2 = "if session_isPinned (cs1, w1) \<and> isCommitted (cs_transaction cs1) then unpin no_endOptions (cs1, w1) else (cs1, w1)"
  have st2: "\<not> inTransaction (fst ?st2)"
    using a(2) assms(2) unpin_state [of no_endOptions "(cs1, w1)"] by (simp add: inTransaction_def isActive_def)
  obtain cs3 w3 where i: "incrementTransactionNumber ?st2 = (cs3, w3)" by (rule prod.exhaust)
  have st3: "\<not> inTransaction cs3"
    using st2 i serverSession_get_Some [of ?st2] by (auto simp: incrementTransactionNumber_def inTransaction_def)
  have new: "transition t STARTING_TRANSACTION \<noteq> Inl e'" if "Transaction_new o' = Inr t" for t o' e'
    using that by (auto simp: Transaction_new_def transition_def Let_def rbind_Inr_iff split: if_splits)
  from assms a st2 st3 i new show ?thesis
    by (auto simp: startTransaction_def Let_def inTransaction_def split: if_splits sum.splits option.splits)
qed

lemma commandHandler_no_send: "fst (commandHandler name err st) \<noteq> Send c"
proof -
  have t: "fst (session_transition s (Finished None) st) = Finished None \<or> (\<exists>e. fst (session_transition s (Finished None) st) = Threw e)" for s
    by (cases st) (auto simp: session_transition_def split: sum.split)
  show ?thesis
    using t [of TRANSACTION_ABORTED] t [of TRANSACTION_COMMITTED]
    by (auto simp: commandHandler_def Let_def split: prod.split endStep.split option.split)
qed

lemma endTransaction_reply_cases:
  fixes st cmd
  defines "st' \<equiv> if tc_command cmd = AbortTransaction then unpin no_endOptions st else st"
  shows "endTransaction_reply cmd err st = commandHandler (tc_command cmd) err st'
    \<or> (\<exists>c. endTransaction_reply cmd err st = (Send c, st'))
    \<or> (\<exists>c. endTransaction_reply cmd err st = (Send c, unpin (no_endOptions\<lparr>eo_force := True\<rparr>) st'))"
  unfolding st'_def endTransaction_reply_def Let_def by (simp split: option.split if_split)

lemma end_rounds_handler:
  assumes "endTransaction name st = (Send cmd, st1)" "tc_command cmd = name" "keeps_txn_state exec"
  shows "\<exists>err st'. snd (end_rounds exec name st) = commandHandler name err st' \<and> txn_state st' = txn_state st1"
proof -
  obtain err st2 where x: "exec cmd st1 = (err, st2)" by (rule prod.exhaust)
  let ?st3 = "if name = AbortTransaction then unpin no_endOptions st2 else st2"
  have k: "txn_state (snd (exec c x)) = txn_state x" for c x using assms(3) by (simp add: keeps_txn_state_def del: split_paired_All)
  have t3: "txn_state ?st3 = txn_state st1" using k [of cmd st1] x by simp
  consider (handled) "endTransaction_reply cmd err st2 = commandHandler name err ?st3"
    | (again) c st4 where "endTransaction_reply cmd err st2 = (Send c, st4)" "txn_state st4 = txn_state ?st3"
    using endTransaction_reply_cases [of cmd err st2] unpin_state [of "no_endOptions\<lparr>eo_force := True\<rparr>" ?st3]
    unfolding assms(2) by metis
  then show ?thesis
  proof cases
    case handled
    obtain step st5 where h: "commandHandler name err ?st3 = (step, st5)" by (rule prod.exhaust)
    with commandHandler_no_send [of name err ?st3] have "step \<noteq> Send c" for c by auto
    then have "snd (end_rounds exec name st) = commandHandler name err ?st3"
      using assms(1) x handled h by (cases step) (auto simp: end_rounds_def)
    with t3 show ?thesis by blast
  next
    case again
    obtain err2 st5 where x2: "exec c st4 = (err2, st5)" by (rule prod.exhaust)
    with k [of c st4] again(2) t3 have "txn_state st5 = txn_state st1" by simp
    moreover have "snd (end_rounds exec name st) = commandHandler name err2 st5"
      using assms(1) x again(1) x2 by (simp add: end_rounds_def split: prod.split)
    ultimately show ?thesis by blast
  qed
qed

lemma end_promise_state: "snd (end_promise env name st) = snd (snd (end_rounds (te_exec env) name st))"
  by (auto simp: end_promise_def split: prod.splits endStep.splits option.splits)

lemma end_rounds_unsent:
  assumes "endTransaction name st = (step, st1)" "\<forall>c. step \<noteq> Send c"
  shows "end_rounds exec name st = ([], step, st1)"
  using assms by (cases step) (simp_all add: end_rounds_def)

lemma end_promise_inactive:
  assumes "keeps_txn_state (te_exec env)"
  shows "\<not> inTransaction (fst (snd (end_promise env name st)))"
proof (cases "txn_state st = TRANSACTION_IN_PROGRESS \<or> name = CommitTransaction \<and> txn_state st = TRANSACTION_COMMITTED")
  case True
  from endTransaction_sends [OF True] obtain cmd st1 where
    s: "endTransaction name st = (Send cmd, st1)" "tc_command cmd = name" "txn_state st1 = txn_state st" by blast
  from end_rounds_handler [OF s(1,2) assms] s(3) obtain err st' where
    h: "snd (end_rounds (te_exec env) name st) = commandHandler name err st'" "txn_state st' = txn_state st" by auto
  have "txn_state (snd (commandHandler name err st')) \<in> {TRANSACTION_COMMITTED, TRANSACTION_ABORTED}"
    using True h(2) commandHandler_commit(2) [of st' err] commandHandler_abort(2) [of st' err] by (cases name) auto
  with h(1) show ?thesis by (auto simp: end_promise_state inTransaction_def isActive_def ACTIVE_STATES_def)
next
  case False
  obtain st1 where a: "assertAlive st = (None, st1)" "cs_transaction (fst st1) = cs_transaction (fst st)"
    using assertAlive_None [of st] by auto
  obtain step st2 where e: "endTransaction name st = (step, st2)" by (rule prod.exhaust)
  have t: "\<exists>st'. session_transition s (Finished None) st1 = (Finished None, st') \<and> txn_state st' = s"
    if "s \<in> set (stateMachine (txn_state st))" for s
    using session_transition_ok [of s st1 "Finished None"] that a(2) by simp
  have "(\<forall>c. step \<noteq> Send c) \<and> txn_state st2 \<notin> set ACTIVE_STATES"
    using e False a t [of TRANSACTION_COMMITTED_EMPTY] t [of TRANSACTION_ABORTED]
    by (cases "txn_state st"; cases name) (auto simp: endTransaction_def txn_error_def ACTIVE_STATES_def)
  with end_rounds_unsent [OF e, of "te_exec env"] show ?thesis
    by (simp add: end_promise_state inTransaction_def isActive_def)
qed


lemma attempts_leave_no_transaction:
  assumes "keeps_txn_state (te_exec env)"
  shows "(\<not> inTransaction (fst st) \<longrightarrow> attemptTransaction fuel env options startTime k n st = Some (r, m, st')
            \<longrightarrow> \<not> inTransaction (fst st'))
    \<and> (attemptTransactionCommit fuel env options startTime k n st = Some (r, m, st') \<longrightarrow> \<not> inTransaction (fst st'))"
proof (induction fuel arbitrary: k n st)
  case (Suc fuel)
  note ended = end_promise_inactive [OF assms]
  show ?case
  proof (intro conjI impI)
    assume inactive: "\<not> inTransaction (fst st)"
      and r: "attemptTransaction (Suc fuel) env options startTime k n st = Some (r, m, st')"
    obtain e st1 where s: "startTransaction options st = (e, st1)" by (rule prod.exhaust)
    obtain out st2 where f: "te_fn env n st1 = (out, st2)" by (rule prod.exhaust)
    show "\<not> inTransaction (fst st')"
    proof (cases e)
      case (Some err)
      with s r startTransaction_error_inactive [of options st err st1] inactive show ?thesis by simp
    next
      case None
      show ?thesis
      proof (cases out)
        case FnResolved
        with r s None f Suc.IH show ?thesis
          by (auto simp: userExplicitlyEndedTransaction_def USER_EXPLICIT_TXN_END_STATES_def inTransaction_def isActive_def
              ACTIVE_STATES_def split: if_splits)
      next
        case (FnRejected err)
        obtain x st3 where x: "(if isActive (cs_transaction (fst st2)) then end_promise env AbortTransaction st2
            else (Resolved, st2)) = (x, st3)" by (rule prod.exhaust)
        then have "\<not> inTransaction (fst st3)"
          using ended [of AbortTransaction st2] by (auto simp: inTransaction_def split: if_splits)
        with r s None f FnRejected x Suc.IH [where k = "Suc k" and n = "Suc n" and st = st3] show ?thesis by (cases x) (auto split: if_splits)
      next
        case FnNotPromise
        with r s None f ended [of AbortTransaction st2] show ?thesis by simp
      qed
    qed
  next
    assume r: "attemptTransactionCommit (Suc fuel) env options startTime k n st = Some (r, m, st')"
    obtain x st1 where x: "end_promise env CommitTransaction st = (x, st1)" by (rule prod.exhaust)
    then have "\<not> inTransaction (fst st1)" using ended [of CommitTransaction st] by simp
    with r x Suc.IH [where k = "Suc k" and n = n and st = st1] show "\<not> inTransaction (fst st')" by (cases x) (auto split: if_splits)
  qed
qed simp

text \<open>
  (C18) \<open>withTransaction\<close> leaves no transaction behind: called on a session outside a transaction, it
  ends outside one, whether it succeeds or fails, whatever the user's function did to the session
  and however many rounds were made.
\<close>

theorem withTransaction_leaves_no_transaction:
  assumes "keeps_txn_state (te_exec env)" "\<not> inTransaction (fst st)"
    and "withTransaction fuel env options st = Some (r, n, st')"
  shows "\<not> inTransaction (fst st')"
  using attempts_leave_no_transaction [OF assms(1), of st fuel options "te_clock env 0" 1 0 r n st'] assms(2,3)
  by (simp add: withTransaction_def)

text \<open>A function that runs nothing and asks for another attempt, and a clock that ticks every minute.\<close>

definition impatient_env :: txnEnv where
  "impatient_env = \<lparr>te_fn = (\<lambda>n st. (FnRejected ((mk_error MongoError ''busy'')
       \<lparr>e_labels := [''TransientTransactionError'']\<rparr>), st)),
     te_clock = (\<lambda>k. 60000 * int k), te_exec = exec_failing\<rparr>"

theorem withTransaction_ends_witness:
  "\<exists>r. withTransaction 6 impatient_env None
     (example_session\<lparr>cs_transaction := example_transaction\<rparr>, example_world) = Some r"
  using withTransaction_ends [of 2 impatient_env None "(example_session\<lparr>cs_transaction := example_transaction\<rparr>, example_world)"]
  by (simp add: impatient_env_def)

theorem withTransaction_leaves_no_transaction_witness:
  "\<exists>r n st'. withTransaction 6 impatient_env None
     (example_session\<lparr>cs_transaction := example_transaction\<rparr>, example_world) = Some (r, n, st') \<and> \<not> inTransaction (fst st')"
proof -
  let ?st = "(example_session\<lparr>cs_transaction := example_transaction\<rparr>, example_world)"
  have "\<exists>r. withTransaction 6 impatient_env None ?st = Some r"
    using attempts_return [where K = 2 and env = impatient_env and startTime = 0 and k = 1 and fuel = 6
        and options = None and n = 0 and st = ?st]
    by (simp add: withTransaction_def impatient_env_def MAX_WITH_TRANSACTION_TIMEOUT_def)
  then obtain r n st' where w: "withTransaction 6 impatient_env None ?st = Some (r, n, st')"
    by (metis prod.collapse)
  moreover have "keeps_txn_state (te_exec impatient_env)"
    using keeps_txn_state_failing by (simp add: impatient_env_def)
  ultimately show ?thesis
    using withTransaction_leaves_no_transaction [OF _ _ w]
    by (auto simp: inTransaction_def isActive_def ACTIVE_STATES_def example_transaction_def)
qed

end
