(* ===== verification/Bulk.thy ===== *)
theory Bulk
  imports Utils "HOL-Library.Multiset"
begin

text \<open>
  Bulk writes: \<open>src/bulk/common.ts\<close>, \<open>src/bulk/ordered.ts\<close>, \<open>src/bulk/unordered.ts\<close> and the statements of
  \<open>src/operations/update.ts\<close> and \<open>src/operations/delete.ts\<close>.  A document is the list of its fields in
  order, a field value its serialised form.  The size of a statement is the BSON library's and is an
  argument; so is the identifier a new \<open>ObjectId\<close> gets.  An operation that throws returns the error
  with the state it left behind.
\<close>

section \<open>Statements\<close>

type_synonym bdoc = "(string, string) jsmap"

datatype batchType = INSERT | UPDATE | DELETE

datatype updateDoc = UDoc bdoc | UPipeline "bdoc list"

record updateStatement =
  us_q :: bdoc
  us_u :: updateDoc
  us_upsert :: "bool option"
  us_multi :: bool
  us_hint :: "string option"
  us_arrayFilters :: "bdoc list option"
  us_collation :: "bdoc option"

record deleteStatement =
  del_q :: "bdoc option"
  del_limit :: nat
  del_collation :: "bdoc option"
  del_hint :: "string option"
  del_comment :: "string option"

text \<open>What a batch holds; an array given as a document is refused, but only after some bookkeeping.\<close>

datatype statement = InsertDoc bdoc | InsertArray "bdoc list" | UpdateOp updateStatement | DeleteOp deleteStatement

definition hasAtomicOperators :: "updateDoc \<Rightarrow> bool" where
  "hasAtomicOperators u =
     (let atomic = (\<lambda>d. case d of [] \<Rightarrow> False | (k, _) # _ \<Rightarrow> take 1 k = ''$'')
      in case u of UDoc d \<Rightarrow> atomic d | UPipeline ds \<Rightarrow> list_ex atomic ds)"

record opOptions =
  oo_upsert :: "bool option"
  oo_hint :: "string option"
  oo_arrayFilters :: "bdoc list option"
  oo_collation :: "bdoc option"
  oo_single :: bool
  oo_comment :: "string option"

definition no_opOptions :: opOptions where
  "no_opOptions = \<lparr>oo_upsert = None, oo_hint = None, oo_arrayFilters = None, oo_collation = None,
     oo_single = False, oo_comment = None\<rparr>"

definition makeUpdateStatement ::
    "bdoc option \<Rightarrow> updateDoc option \<Rightarrow> opOptions \<Rightarrow> bool \<Rightarrow> mongoError + updateStatement" where
  "makeUpdateStatement selector update options multi =
     (case (selector, update) of
        (None, _) \<Rightarrow> Inl (invalid_argument ''Selector must be a valid JavaScript object'')
      | (_, None) \<Rightarrow> Inl (invalid_argument ''Document must be a valid JavaScript object'')
      | (Some q, Some u) \<Rightarrow>
          Inr \<lparr>us_q = q, us_u = u, us_upsert = oo_upsert options, us_multi = multi,
               us_hint = oo_hint options, us_arrayFilters = oo_arrayFilters options,
               us_collation = oo_collation options\<rparr>)"

definition makeDeleteStatement :: "bdoc option \<Rightarrow> opOptions \<Rightarrow> nat option \<Rightarrow> deleteStatement" where
  "makeDeleteStatement selector options limit =
     \<lparr>del_q = selector, del_limit = (if oo_single options then 1 else case limit of Some n \<Rightarrow> n | None \<Rightarrow> 0),
      del_collation = oo_collation options, del_hint = oo_hint options, del_comment = oo_comment options\<rparr>"

section \<open>Batches and results\<close>

record batch =
  ba_originalZeroIndex :: nat
  ba_originalIndexes :: "nat list"
  ba_batchType :: batchType
  ba_operations :: "statement list"
  ba_size :: int
  ba_sizeBytes :: int

definition Batch_new :: "batchType \<Rightarrow> nat \<Rightarrow> batch" where
  "Batch_new t originalZeroIndex =
     \<lparr>ba_originalZeroIndex = originalZeroIndex, ba_originalIndexes = [], ba_batchType = t,
      ba_operations = [], ba_size = 0, ba_sizeBytes = 0\<rparr>"

record writeError =
  we_index :: "nat option"
  we_code :: "int option"
  we_errmsg :: "string option"
  we_op :: "statement option"

record writeConcernErrorData =
  wced_code :: "int option"
  wced_errmsg :: string

record opTime =
  ot_ts :: int
  ot_t :: int

record bulkResult =
  br_ok :: int
  br_writeErrors :: "writeError list"
  br_writeConcernErrors :: "writeConcernErrorData list"
  br_insertedIds :: "(nat \<times> string option) list"
  br_nInserted :: int
  br_nUpserted :: int
  br_nMatched :: int
  br_nModified :: int
  br_nRemoved :: int
  br_upserted :: "(nat \<times> string) list"
  br_opTime :: "opTime option"

definition empty_bulkResult :: bulkResult where
  "empty_bulkResult = \<lparr>br_ok = 1, br_writeErrors = [], br_writeConcernErrors = [], br_insertedIds = [],
     br_nInserted = 0, br_nUpserted = 0, br_nMatched = 0, br_nModified = 0, br_nRemoved = 0,
     br_upserted = [], br_opTime = None\<rparr>"

text \<open>The queries of \<open>BulkWriteResult\<close> that compute something.\<close>

definition id_object :: "(nat \<times> 'a) list \<Rightarrow> (nat, 'a) jsmap" where
  "id_object ids = fold (\<lambda>(i, x) m. map_set i x m) ids []"

definition upsertedIds :: "bulkResult \<Rightarrow> (nat, string) jsmap" where
  "upsertedIds r = id_object (br_upserted r)"

definition insertedIds :: "bulkResult \<Rightarrow> (nat, string option) jsmap" where
  "insertedIds r = id_object (br_insertedIds r)"

definition upsertedCount :: "bulkResult \<Rightarrow> nat" where
  "upsertedCount r = length (br_upserted r)"

definition hasWriteErrors :: "bulkResult \<Rightarrow> bool" where
  "hasWriteErrors r = (length (br_writeErrors r) > 0)"

definition getWriteErrorAt :: "bulkResult \<Rightarrow> nat \<Rightarrow> writeError option" where
  "getWriteErrorAt r i = nth_opt (br_writeErrors r) i"

text \<open>Several write concern errors are combined; the word " and " follows the first message only.\<close>

definition getWriteConcernError :: "bulkResult \<Rightarrow> writeConcernErrorData option" where
  "getWriteConcernError r =
     (case br_writeConcernErrors r of
        [] \<Rightarrow> None
      | [e] \<Rightarrow> Some e
      | e # es \<Rightarrow> Some \<lparr>wced_code = Some (MONGODB_ERROR_CODES WriteConcernFailed),
            wced_errmsg = wced_errmsg e @ '' and '' @ concat (map wced_errmsg es)\<rparr>)"

definition isOk :: "bulkResult \<Rightarrow> bool" where
  "isOk r = (br_ok r = 1)"

section \<open>Merging the reply of a batch\<close>

datatype opTimeField = OTimestamp int | ODocument int int

datatype upsertedField = UpsertedArray "(nat \<times> string) list" | UpsertedId string

record replyError =
  rpe_index :: nat
  rpe_code :: "int option"
  rpe_errmsg :: "string option"

record serverReply =
  sr_ok :: "int option"
  sr_code :: "int option"
  sr_message :: "string option"
  sr_opTime :: "opTimeField option"
  sr_lastOp :: "opTimeField option"
  sr_n :: "int option"
  sr_nModified :: "int option"
  sr_upserted :: "upsertedField option"
  sr_writeErrors :: "replyError list option"
  sr_writeConcernError :: "writeConcernErrorData option"

definition normal_opTime :: "opTimeField \<Rightarrow> opTime" where
  "normal_opTime o' = (case o' of OTimestamp ts \<Rightarrow> \<lparr>ot_ts = ts, ot_t = 0\<rparr> | ODocument ts t \<Rightarrow> \<lparr>ot_ts = ts, ot_t = t\<rparr>)"

definition merge_opTime :: "serverReply \<Rightarrow> opTime option \<Rightarrow> opTime option" where
  "merge_opTime result old =
     (case coalesce (sr_lastOp result) (sr_opTime result) of
        None \<Rightarrow> old
      | Some f \<Rightarrow>
          (let new = normal_opTime f
           in case old of
                None \<Rightarrow> Some new
              | Some o' \<Rightarrow>
                  if ot_ts new > ot_ts o' then Some new
                  else if ot_ts new = ot_ts o' \<and> ot_t new > ot_t o' then Some new
                  else old))"

definition upserted_entries :: "batch \<Rightarrow> serverReply \<Rightarrow> (nat \<times> string) list" where
  "upserted_entries b result =
     (case sr_upserted result of
        Some (UpsertedArray us) \<Rightarrow> map (\<lambda>(i, x). (i + ba_originalZeroIndex b, x)) us
      | Some (UpsertedId x) \<Rightarrow> [(ba_originalZeroIndex b, x)]
      | None \<Rightarrow> [])"

text \<open>\<open>result.n\<close> counts when it is there and not zero.\<close>

definition count_of :: "serverReply \<Rightarrow> int" where
  "count_of result = (case sr_n result of Some n \<Rightarrow> n | None \<Rightarrow> 0)"

definition merge_counts :: "batch \<Rightarrow> serverReply \<Rightarrow> bulkResult \<Rightarrow> bulkResult" where
  "merge_counts b result r =
     (let n = count_of result; ups = upserted_entries b result;
          r1 = r\<lparr>br_upserted := br_upserted r @ ups\<rparr>
      in case ba_batchType b of
           INSERT \<Rightarrow> r1\<lparr>br_nInserted := br_nInserted r + n\<rparr>
         | DELETE \<Rightarrow> r1\<lparr>br_nRemoved := br_nRemoved r + n\<rparr>
         | UPDATE \<Rightarrow>
             if n = 0 then r1
             else r1\<lparr>br_nUpserted := br_nUpserted r + int (length ups),
                     br_nMatched := br_nMatched r + (n - int (length ups)),
                     br_nModified := (case sr_nModified result of Some k \<Rightarrow> br_nModified r + k | None \<Rightarrow> 0)\<rparr>)"

definition write_errors :: "batch \<Rightarrow> serverReply \<Rightarrow> writeError list" where
  "write_errors b result =
     (case sr_writeErrors result of
        None \<Rightarrow> []
      | Some es \<Rightarrow>
          map (\<lambda>e. \<lparr>we_index = nth_opt (ba_originalIndexes b) (rpe_index e), we_code = rpe_code e,
                    we_errmsg = rpe_errmsg e, we_op = nth_opt (ba_operations b) (rpe_index e)\<rparr>) es)"

definition mergeBatchResults :: "batch \<Rightarrow> serverReply option \<Rightarrow> bulkResult \<Rightarrow> bulkResult" where
  "mergeBatchResults b reply r =
     (case reply of
        None \<Rightarrow> r
      | Some result \<Rightarrow>
          if sr_ok result = Some 0 \<and> br_ok r = 1 then
            r\<lparr>br_ok := 0, br_writeErrors := br_writeErrors r @
                [\<lparr>we_index = Some 0, we_code = Some (case sr_code result of Some c \<Rightarrow> c | None \<Rightarrow> 0),
                  we_errmsg = sr_message result, we_op = nth_opt (ba_operations b) 0\<rparr>]\<rparr>
          else if sr_ok result = Some 0 \<and> br_ok r = 0 then r
          else
            (let r1 = merge_counts b result (r\<lparr>br_opTime := merge_opTime result (br_opTime r)\<rparr>)
             in r1\<lparr>br_writeErrors := br_writeErrors r1 @ write_errors b result,
                   br_writeConcernErrors := br_writeConcernErrors r1 @
                     (case sr_writeConcernError result of Some e \<Rightarrow> [e] | None \<Rightarrow> [])\<rparr>))"

section \<open>The bulk operation\<close>

record bulkOptions =
  bopt_forceServerObjectId :: "bool option"
  bopt_dbForceServerObjectId :: "bool option"
  bopt_retryWrites :: bool

record currentOp =
  cop_selector :: "bdoc option"
  cop_upsert :: "bool option"
  cop_collation :: "bdoc option"
  cop_arrayFilters :: "bdoc list option"

record bulk =
  b_isOrdered :: bool
  b_bulkResult :: bulkResult
  b_currentBatch :: "batch option"
  b_currentIndex :: nat
  b_currentBatchSize :: int
  b_currentBatchSizeBytes :: int
  b_currentInsertBatch :: "batch option"
  b_currentUpdateBatch :: "batch option"
  b_currentRemoveBatch :: "batch option"
  b_batches :: "batch list"
  b_maxBsonObjectSize :: int
  b_maxBatchSizeBytes :: int
  b_maxWriteBatchSize :: int
  b_maxKeySize :: int
  b_options :: bulkOptions
  b_currentOp :: "currentOp option"
  b_executed :: bool

text \<open>
  The constructor; the limits are those of the last hello (\<open>None\<close> when there is none or the field is
  missing or zero).
\<close>

definition digits :: "int \<Rightarrow> int" where
  "digits n = int (length (show_int n))"

definition BulkOperationBase_new :: "bool \<Rightarrow> int option \<Rightarrow> int option \<Rightarrow> bool \<Rightarrow> bulkOptions \<Rightarrow> bulk" where
  "BulkOperationBase_new isOrdered helloMaxBsonObjectSize helloMaxWriteBatchSize usingAutoEncryption options =
     (let maxBson = (if truthy_num helloMaxBsonObjectSize then the helloMaxBsonObjectSize else 1024 * 1024 * 16);
          maxWrite = (if truthy_num helloMaxWriteBatchSize then the helloMaxWriteBatchSize else 1000)
      in \<lparr>b_isOrdered = isOrdered, b_bulkResult = empty_bulkResult, b_currentBatch = None, b_currentIndex = 0,
          b_currentBatchSize = 0, b_currentBatchSizeBytes = 0, b_currentInsertBatch = None,
          b_currentUpdateBatch = None, b_currentRemoveBatch = None, b_batches = [],
          b_maxBsonObjectSize = maxBson,
          b_maxBatchSizeBytes = (if usingAutoEncryption then 1024 * 1024 * 2 else maxBson),
          b_maxWriteBatchSize = maxWrite, b_maxKeySize = digits (maxWrite - 1) + 2, b_options = options,
          b_currentOp = None, b_executed = False\<rparr>)"

definition too_large :: mongoError where
  "too_large = invalid_argument ''Document is larger than the maximum size''"

definition not_an_array :: mongoError where
  "not_an_array = invalid_argument ''Operation passed in cannot be an Array''"

definition statement_id :: "statement \<Rightarrow> string option" where
  "statement_id s = (case s of InsertDoc d \<Rightarrow> map_of d ''_id'' | _ \<Rightarrow> None)"

fun is_array :: "statement \<Rightarrow> bool" where
  "is_array (InsertArray ds) = True"
| "is_array _ = False"

definition insert_id :: "nat \<Rightarrow> statement \<Rightarrow> bulkResult \<Rightarrow> bulkResult" where
  "insert_id i s r = r\<lparr>br_insertedIds := br_insertedIds r @ [(i, statement_id s)]\<rparr>"

definition add_operation :: "nat \<Rightarrow> statement \<Rightarrow> batch \<Rightarrow> batch" where
  "add_operation i s b = b\<lparr>ba_originalIndexes := ba_originalIndexes b @ [i], ba_operations := ba_operations b @ [s]\<rparr>"

text \<open>\<open>OrderedBulkOperation.addToOperationsList\<close>: one current batch.\<close>

definition ordered_split :: "int \<Rightarrow> batchType \<Rightarrow> bulk \<Rightarrow> bulk" where
  "ordered_split bsonSize t b =
     (let cur = (case b_currentBatch b of Some c \<Rightarrow> c | None \<Rightarrow> Batch_new t (b_currentIndex b))
      in if b_currentBatchSize b + 1 \<ge> b_maxWriteBatchSize b
            \<or> (b_currentBatchSize b > 0
               \<and> b_currentBatchSizeBytes b + b_maxKeySize b + bsonSize \<ge> b_maxBatchSizeBytes b)
            \<or> ba_batchType cur \<noteq> t
         then b\<lparr>b_batches := b_batches b @ [cur], b_currentBatch := Some (Batch_new t (b_currentIndex b)),
                b_currentBatchSize := 0, b_currentBatchSizeBytes := 0\<rparr>
         else b\<lparr>b_currentBatch := Some cur\<rparr>)"

definition ordered_add :: "(statement \<Rightarrow> int) \<Rightarrow> batchType \<Rightarrow> statement \<Rightarrow> bulk \<Rightarrow> mongoError option \<times> bulk" where
  "ordered_add bsonSize t s b =
     (if bsonSize s \<ge> b_maxBsonObjectSize b then (Some too_large, b)
      else
        (let b1 = ordered_split (bsonSize s) t b; i = b_currentIndex b;
             b2 = (if t = INSERT then b1\<lparr>b_bulkResult := insert_id i s (b_bulkResult b1)\<rparr> else b1)
         in if is_array s then (Some not_an_array, b2)
            else (None, b2\<lparr>b_currentBatch := map_option (add_operation i s) (b_currentBatch b2),
                    b_currentBatchSize := b_currentBatchSize b2 + 1,
                    b_currentBatchSizeBytes := b_currentBatchSizeBytes b2 + (b_maxKeySize b2 + bsonSize s),
                    b_currentIndex := i + 1\<rparr>)))"

text \<open>\<open>UnorderedBulkOperation.addToOperationsList\<close>: one current batch for each type.\<close>

definition batch_for :: "batchType \<Rightarrow> bulk \<Rightarrow> batch option" where
  "batch_for t b = (case t of INSERT \<Rightarrow> b_currentInsertBatch b | UPDATE \<Rightarrow> b_currentUpdateBatch b
     | DELETE \<Rightarrow> b_currentRemoveBatch b)"

definition set_batch_for :: "batchType \<Rightarrow> batch \<Rightarrow> bulk \<Rightarrow> bulk" where
  "set_batch_for t c b = (case t of INSERT \<Rightarrow> b\<lparr>b_currentInsertBatch := Some c\<rparr>
     | UPDATE \<Rightarrow> b\<lparr>b_currentUpdateBatch := Some c\<rparr> | DELETE \<Rightarrow> b\<lparr>b_currentRemoveBatch := Some c\<rparr>)"

definition unordered_split :: "int \<Rightarrow> batchType \<Rightarrow> bulk \<Rightarrow> batch \<times> bulk" where
  "unordered_split bsonSize t b =
     (let cur = (case batch_for t b of Some c \<Rightarrow> c | None \<Rightarrow> Batch_new t (b_currentIndex b))
      in if ba_size cur + 1 \<ge> b_maxWriteBatchSize b
            \<or> (ba_size cur > 0 \<and> ba_sizeBytes cur + b_maxKeySize b + bsonSize \<ge> b_maxBatchSizeBytes b)
            \<or> ba_batchType cur \<noteq> t
         then (Batch_new t (b_currentIndex b), b\<lparr>b_batches := b_batches b @ [cur]\<rparr>)
         else (cur, b))"

definition unordered_add :: "(statement \<Rightarrow> int) \<Rightarrow> batchType \<Rightarrow> statement \<Rightarrow> bulk \<Rightarrow> mongoError option \<times> bulk" where
  "unordered_add bsonSize t s b =
     (if bsonSize s \<ge> b_maxBsonObjectSize b then (Some too_large, b)
      else
        (let (cur, b1) = unordered_split (bsonSize s) t b; i = b_currentIndex b
         in if is_array s then (Some not_an_array, b1\<lparr>b_currentBatch := Some cur\<rparr>)
            else
              (let cur1 = (add_operation i s cur)\<lparr>ba_size := ba_size cur + 1,
                            ba_sizeBytes := ba_sizeBytes cur + (b_maxKeySize b + bsonSize s)\<rparr>;
                   b2 = set_batch_for t cur1 (b1\<lparr>b_currentBatch := Some cur1, b_currentIndex := i + 1\<rparr>)
               in (None, if t = INSERT
                         then b2\<lparr>b_bulkResult := insert_id (length (br_insertedIds (b_bulkResult b2))) s (b_bulkResult b2)\<rparr>
                         else b2))))"

definition addToOperationsList :: "(statement \<Rightarrow> int) \<Rightarrow> batchType \<Rightarrow> statement \<Rightarrow> bulk \<Rightarrow> mongoError option \<times> bulk" where
  "addToOperationsList bsonSize t s b =
     (if b_isOrdered b then ordered_add bsonSize t s b else unordered_add bsonSize t s b)"

section \<open>Building the operation\<close>

definition shouldForceServerObjectId :: "bulk \<Rightarrow> bool" where
  "shouldForceServerObjectId b =
     (case bopt_forceServerObjectId (b_options b) of
        Some f \<Rightarrow> f
      | None \<Rightarrow> (case bopt_dbForceServerObjectId (b_options b) of Some f \<Rightarrow> f | None \<Rightarrow> False))"

text \<open>A document without an identifier gets a new one as its last field, unless the server is to assign it.\<close>

definition with_id :: "bulk \<Rightarrow> string \<Rightarrow> bdoc \<Rightarrow> bdoc" where
  "with_id b oid d =
     (if map_of d ''_id'' = None \<and> \<not> shouldForceServerObjectId b then d @ [(''_id'', oid)] else d)"

definition bulk_insert :: "(statement \<Rightarrow> int) \<Rightarrow> string \<Rightarrow> bdoc \<Rightarrow> bulk \<Rightarrow> mongoError option \<times> bulk" where
  "bulk_insert bsonSize oid d b = addToOperationsList bsonSize INSERT (InsertDoc (with_id b oid d)) b"

definition no_currentOp :: currentOp where
  "no_currentOp = \<lparr>cop_selector = None, cop_upsert = None, cop_collation = None, cop_arrayFilters = None\<rparr>"

definition bulk_find :: "bdoc option \<Rightarrow> bulk \<Rightarrow> mongoError option \<times> bulk" where
  "bulk_find selector b =
     (case selector of
        None \<Rightarrow> (Some (invalid_argument ''Bulk find operation must specify a selector''), b)
      | Some q \<Rightarrow> (None, b\<lparr>b_currentOp := Some (no_currentOp\<lparr>cop_selector := Some q\<rparr>)\<rparr>))"

text \<open>The modifiers of \<open>FindOperators\<close> and \<open>buildCurrentOp\<close>, which takes the current operation away.\<close>

definition modify_op :: "(currentOp \<Rightarrow> currentOp) \<Rightarrow> bulk \<Rightarrow> bulk" where
  "modify_op f b = b\<lparr>b_currentOp := Some (f (case b_currentOp b of Some c \<Rightarrow> c | None \<Rightarrow> no_currentOp))\<rparr>"

definition find_upsert :: "bulk \<Rightarrow> bulk" where
  "find_upsert = modify_op (\<lambda>c. c\<lparr>cop_upsert := Some True\<rparr>)"
definition find_collation :: "bdoc \<Rightarrow> bulk \<Rightarrow> bulk" where
  "find_collation x = modify_op (\<lambda>c. c\<lparr>cop_collation := Some x\<rparr>)"
definition find_arrayFilters :: "bdoc list \<Rightarrow> bulk \<Rightarrow> bulk" where
  "find_arrayFilters x = modify_op (\<lambda>c. c\<lparr>cop_arrayFilters := Some x\<rparr>)"

definition buildCurrentOp :: "bulk \<Rightarrow> currentOp \<times> bulk" where
  "buildCurrentOp b =
     ((case b_currentOp b of Some c \<Rightarrow> c | None \<Rightarrow> no_currentOp), b\<lparr>b_currentOp := None\<rparr>)"

definition op_options :: "currentOp \<Rightarrow> opOptions" where
  "op_options c = no_opOptions\<lparr>oo_upsert := cop_upsert c, oo_collation := cop_collation c,
     oo_arrayFilters := cop_arrayFilters c\<rparr>"

definition add_update :: "(statement \<Rightarrow> int) \<Rightarrow> mongoError + updateStatement \<Rightarrow> bulk \<Rightarrow> mongoError option \<times> bulk" where
  "add_update bsonSize u b =
     (case u of Inl e \<Rightarrow> (Some e, b) | Inr s \<Rightarrow> addToOperationsList bsonSize UPDATE (UpdateOp s) b)"

definition find_update :: "(statement \<Rightarrow> int) \<Rightarrow> updateDoc \<Rightarrow> bulk \<Rightarrow> mongoError option \<times> bulk" where
  "find_update bsonSize u b =
     (let (c, b1) = buildCurrentOp b
      in add_update bsonSize (makeUpdateStatement (cop_selector c) (Some u) (op_options c) True) b1)"

definition find_updateOne :: "(statement \<Rightarrow> int) \<Rightarrow> updateDoc \<Rightarrow> bulk \<Rightarrow> mongoError option \<times> bulk" where
  "find_updateOne bsonSize u b =
     (if \<not> hasAtomicOperators u then (Some (invalid_argument ''Update document requires atomic operators''), b)
      else (let (c, b1) = buildCurrentOp b
            in add_update bsonSize (makeUpdateStatement (cop_selector c) (Some u) (op_options c) False) b1))"

definition find_replaceOne :: "(statement \<Rightarrow> int) \<Rightarrow> updateDoc \<Rightarrow> bulk \<Rightarrow> mongoError option \<times> bulk" where
  "find_replaceOne bsonSize u b =
     (if hasAtomicOperators u then (Some (invalid_argument ''Replacement document must not use atomic operators''), b)
      else (let (c, b1) = buildCurrentOp b
            in add_update bsonSize (makeUpdateStatement (cop_selector c) (Some u) (op_options c) False) b1))"

definition find_delete :: "(statement \<Rightarrow> int) \<Rightarrow> nat \<Rightarrow> bulk \<Rightarrow> mongoError option \<times> bulk" where
  "find_delete bsonSize limit b =
     (let (c, b1) = buildCurrentOp b
      in addToOperationsList bsonSize DELETE (DeleteOp (makeDeleteStatement (cop_selector c) (op_options c) (Some limit))) b1)"

definition find_deleteOne :: "(statement \<Rightarrow> int) \<Rightarrow> bulk \<Rightarrow> mongoError option \<times> bulk" where
  "find_deleteOne bsonSize = find_delete bsonSize 1"

definition find_deleteMany :: "(statement \<Rightarrow> int) \<Rightarrow> bulk \<Rightarrow> mongoError option \<times> bulk" where
  "find_deleteMany bsonSize = find_delete bsonSize 0"

text \<open>
  \<open>raw\<close>: an operation of \<open>bulkWrite\<close>.  A legacy \<open>insertOne\<close> is the document itself; \<open>rm_hasQ\<close> says that
  the model has a field \<open>q\<close>.
\<close>

record rawModel =
  rm_hasQ :: bool
  rm_filter :: "bdoc option"
  rm_update :: "updateDoc option"
  rm_options :: opOptions

datatype anyBulkWriteOperation = InsertOne bdoc | InsertOneLegacy bdoc | ReplaceOne rawModel | UpdateOne rawModel
  | UpdateMany rawModel | DeleteOne rawModel | DeleteMany rawModel | UnknownOperation

definition raw_not_allowed :: mongoError where
  "raw_not_allowed = invalid_argument ''Raw operations are not allowed''"

definition raw_update ::
    "(statement \<Rightarrow> int) \<Rightarrow> bool \<Rightarrow> bool \<Rightarrow> rawModel \<Rightarrow> bulk \<Rightarrow> mongoError option \<times> bulk" where
  "raw_update bsonSize replacement multi m b =
     (if rm_hasQ m then (Some raw_not_allowed, b)
      else add_update bsonSize
        (rbind (makeUpdateStatement (rm_filter m) (rm_update m) (rm_options m) multi)
          (\<lambda>s. if replacement \<and> hasAtomicOperators (us_u s)
                then Inl (invalid_argument ''Replacement document must not use atomic operators'')
                else if \<not> replacement \<and> \<not> hasAtomicOperators (us_u s)
                then Inl (invalid_argument ''Update document requires atomic operators'')
                else Inr s)) b)"

definition raw_delete :: "(statement \<Rightarrow> int) \<Rightarrow> nat \<Rightarrow> rawModel \<Rightarrow> bulk \<Rightarrow> mongoError option \<times> bulk" where
  "raw_delete bsonSize limit m b =
     (if rm_hasQ m then (Some raw_not_allowed, b)
      else addToOperationsList bsonSize DELETE
        (DeleteOp (makeDeleteStatement (rm_filter m) (rm_options m) (Some limit))) b)"

fun bulk_raw :: "(statement \<Rightarrow> int) \<Rightarrow> string \<Rightarrow> anyBulkWriteOperation \<Rightarrow> bulk \<Rightarrow> mongoError option \<times> bulk" where
  "bulk_raw bsonSize oid (InsertOne d) b = bulk_insert bsonSize oid d b"
| "bulk_raw bsonSize oid (InsertOneLegacy d) b = bulk_insert bsonSize oid d b"
| "bulk_raw bsonSize oid (ReplaceOne m) b = raw_update bsonSize True False m b"
| "bulk_raw bsonSize oid (UpdateOne m) b = raw_update bsonSize False False m b"
| "bulk_raw bsonSize oid (UpdateMany m) b = raw_update bsonSize False True m b"
| "bulk_raw bsonSize oid (DeleteOne m) b = raw_delete bsonSize 1 m b"
| "bulk_raw bsonSize oid (DeleteMany m) b = raw_delete bsonSize 0 m b"
| "bulk_raw bsonSize oid UnknownOperation b =
     (Some (invalid_argument ''bulkWrite only supports insertOne, updateOne, updateMany, deleteOne, deleteMany''), b)"

definition all_batches :: "bulk \<Rightarrow> batch list" where
  "all_batches b = b_batches b @
     (if b_isOrdered b then (case b_currentBatch b of Some c \<Rightarrow> [c] | None \<Rightarrow> [])
      else List.map_filter id [b_currentInsertBatch b, b_currentUpdateBatch b, b_currentRemoveBatch b])"

section \<open>Executing\<close>

record bulkError =
  bke_message :: "string option"
  bke_code :: "int option"
  bke_writeErrors :: "writeError list"
  bke_err :: "writeConcernErrorData option"
  bke_result :: bulkResult

text \<open>How the callback is called: with a result, with an error, or with nothing at all.\<close>

datatype bulkOutcome = BulkDone bulkResult | BulkFailed bulkError | BulkNothing bulkResult

text \<open>
  What \<open>executeOperation\<close> does with the command of a batch: it throws, or calls back with an error
  (a write concern error brings the server's reply) or a reply.
\<close>

datatype batchOutcome = BatchThrew mongoError | BatchFailed mongoError
  | BatchConcernFailed serverReply | BatchReplied "serverReply option"

definition numeric_code :: "mongoError \<Rightarrow> int option" where
  "numeric_code e = (case e_code e of Some (CodeNum n) \<Rightarrow> Some n | _ \<Rightarrow> None)"

text \<open>An error taken as the reply of a batch, with \<open>ok\<close> set to 0.\<close>

definition error_reply :: "mongoError \<Rightarrow> serverReply" where
  "error_reply e = \<lparr>sr_ok = Some 0, sr_code = numeric_code e, sr_message = Some (e_message e), sr_opTime = None,
     sr_lastOp = None, sr_n = None, sr_nModified = None, sr_upserted = None, sr_writeErrors = None,
     sr_writeConcernError = None\<rparr>"

definition first_error_message :: "writeError list \<Rightarrow> string" where
  "first_error_message es = (case es of e # _ \<Rightarrow>
     (case we_errmsg e of Some (c # cs) \<Rightarrow> c # cs | _ \<Rightarrow> ''write operation failed'') | [] \<Rightarrow> '''')"

definition base_handleWriteError :: "bulkResult \<Rightarrow> bulkError option" where
  "base_handleWriteError r =
     (case br_writeErrors r of
        e # es \<Rightarrow> Some \<lparr>bke_message = Some (first_error_message (e # es)), bke_code = we_code e,
            bke_writeErrors = e # es, bke_err = None, bke_result = r\<rparr>
      | [] \<Rightarrow>
          (case getWriteConcernError r of
             Some w \<Rightarrow> Some \<lparr>bke_message = Some (wced_errmsg w), bke_code = wced_code w,
                 bke_writeErrors = [], bke_err = Some w, bke_result = r\<rparr>
           | None \<Rightarrow> None))"

text \<open>\<open>handleWriteError\<close>; an unordered operation reports only after its last batch.\<close>

definition handleWriteError :: "bool \<Rightarrow> batch list \<Rightarrow> bulkResult \<Rightarrow> bulkError option" where
  "handleWriteError isOrdered rest r =
     (if \<not> isOrdered \<and> rest \<noteq> [] then None else base_handleWriteError r)"

definition batch_retryWrites :: "bool \<Rightarrow> batch \<Rightarrow> bool" where
  "batch_retryWrites retryWrites b =
     (retryWrites
      \<and> (ba_batchType b = UPDATE \<longrightarrow> \<not> list_ex (\<lambda>s. case s of UpdateOp u \<Rightarrow> us_multi u | _ \<Rightarrow> False) (ba_operations b))
      \<and> (ba_batchType b = DELETE \<longrightarrow> \<not> list_ex (\<lambda>s. case s of DeleteOp d \<Rightarrow> del_limit d = 0 | _ \<Rightarrow> False) (ba_operations b)))"

text \<open>\<open>executeCommands\<close>, with the batches it ran; \<open>exec\<close> gets the batch and its \<open>retryWrites\<close> option.\<close>

fun executeCommands :: "(batch \<Rightarrow> bool \<Rightarrow> batchOutcome) \<Rightarrow> bool \<Rightarrow> bool \<Rightarrow> batch list \<Rightarrow> bulkResult
    \<Rightarrow> batch list \<times> bulkOutcome" where
  "executeCommands exec isOrdered retryWrites [] r = ([], BulkDone r)"
| "executeCommands exec isOrdered retryWrites (b # rest) r =
     (case exec b (batch_retryWrites retryWrites b) of
        BatchThrew e \<Rightarrow> ([b], BulkNothing (mergeBatchResults b (Some (error_reply e)) r))
      | BatchFailed e \<Rightarrow>
          ([b], BulkFailed \<lparr>bke_message = Some (e_message e), bke_code = numeric_code e, bke_writeErrors = [],
              bke_err = None, bke_result = r\<rparr>)
      | BatchConcernFailed reply \<Rightarrow>
          ([b], BulkFailed \<lparr>bke_message = map_option wced_errmsg (sr_writeConcernError reply), bke_code = None,
              bke_writeErrors = [], bke_err = None, bke_result = mergeBatchResults b (Some reply) r\<rparr>)
      | BatchReplied reply \<Rightarrow>
          (let r1 = mergeBatchResults b reply r
           in case handleWriteError isOrdered rest r1 of
                Some err \<Rightarrow> ([b], BulkFailed err)
              | None \<Rightarrow> (let (ran, out) = executeCommands exec isOrdered retryWrites rest r1 in (b # ran, out))))"

definition bulk_execute :: "bulk \<Rightarrow> mongoError option \<times> bulk" where
  "bulk_execute b =
     (if b_executed b then (Some (mk_error MongoBatchReExecutionError ''This batch has already been executed, create new batch to execute''), b)
      else if all_batches b = [] then (Some (invalid_argument ''Invalid BulkOperation, Batch cannot be empty''), b)
      else (None, b\<lparr>b_batches := all_batches b, b_executed := True\<rparr>))"

section \<open>Splitting into batches\<close>

text \<open>What the batches hold: each statement with its type and the index it was added at.\<close>

definition batch_contents :: "batch \<Rightarrow> (nat \<times> batchType \<times> statement) list" where
  "batch_contents bt = zip (ba_originalIndexes bt) (map (Pair (ba_batchType bt)) (ba_operations bt))"

definition contents :: "bulk \<Rightarrow> (nat \<times> batchType \<times> statement) list" where
  "contents b = concat (map batch_contents (all_batches b))"

definition batch_bytes :: "int \<Rightarrow> (statement \<Rightarrow> int) \<Rightarrow> statement list \<Rightarrow> int" where
  "batch_bytes key bsonSize ss = sum_list (map (\<lambda>s. key + bsonSize s) ss)"

definition good_batch :: "(statement \<Rightarrow> int) \<Rightarrow> bulk \<Rightarrow> batch \<Rightarrow> bool" where
  "good_batch bsonSize b bt =
     (ba_operations bt \<noteq> [] \<and> length (ba_originalIndexes bt) = length (ba_operations bt)
      \<and> int (length (ba_operations bt)) < b_maxWriteBatchSize b
      \<and> (length (ba_operations bt) > 1 \<longrightarrow> batch_bytes (b_maxKeySize b) bsonSize (ba_operations bt) < b_maxBatchSizeBytes b)
      \<and> ba_originalZeroIndex bt = hd (ba_originalIndexes bt))"

fun add_all :: "(batchType \<Rightarrow> statement \<Rightarrow> bulk \<Rightarrow> mongoError option \<times> bulk) \<Rightarrow> (batchType \<times> statement) list
    \<Rightarrow> bulk \<Rightarrow> mongoError + bulk" where
  "add_all add [] b = Inr b"
| "add_all add ((t, s) # xs) b =
     (case add t s b of (None, b1) \<Rightarrow> add_all add xs b1 | (Some e, _) \<Rightarrow> Inl e)"

text \<open>The contract of a batcher: the new statement lands in a batch under its index.\<close>

locale batcher =
  fixes add :: "batchType \<Rightarrow> statement \<Rightarrow> bulk \<Rightarrow> mongoError option \<times> bulk" and inv :: "bulk \<Rightarrow> bool"
  assumes inv_add: "inv b \<Longrightarrow> add t s b = (None, b') \<Longrightarrow> inv b'"
    and contents_add: "inv b \<Longrightarrow> add t s b = (None, b') \<Longrightarrow>
      mset (contents b') = add_mset (b_currentIndex b, t, s) (mset (contents b))"
    and index_add: "inv b \<Longrightarrow> add t s b = (None, b') \<Longrightarrow> b_currentIndex b' = Suc (b_currentIndex b)"
begin

lemma all_added:
  "inv b \<Longrightarrow> add_all add xs b = Inr b' \<Longrightarrow>
     inv b' \<and> b_currentIndex b' = b_currentIndex b + length xs
     \<and> mset (contents b') = mset (contents b) + mset (enumerate (b_currentIndex b) xs)"
proof (induction xs arbitrary: b)
  case (Cons x xs)
  obtain t s where x: "x = (t, s)" by (rule prod.exhaust)
  obtain e b1 where a: "add t s b = (e, b1)" by (rule prod.exhaust)
  with Cons.prems(2) x have e: "e = None" and rest: "add_all add xs b1 = Inr b'" by (auto split: option.splits)
  note add = a [unfolded e]
  from Cons.IH [OF inv_add [OF Cons.prems(1) add] rest] contents_add [OF Cons.prems(1) add] index_add [OF Cons.prems(1) add]
  show ?case using x by (simp add: enumerate_simps)
qed simp

lemma lands_once:
  assumes "inv b" "contents b = []" "b_currentIndex b = 0" "add_all add xs b = Inr b'"
  shows "mset (contents b') = mset (enumerate 0 xs)" "inv b'"
  using all_added [OF assms(1,4)] assms(2,3) by simp_all

end

text \<open>The ordered operation: a good list of full batches and a current one.\<close>

definition ordered_inv :: "(statement \<Rightarrow> int) \<Rightarrow> bulk \<Rightarrow> bool" where
  "ordered_inv bsonSize b =
     (b_isOrdered b \<and> 2 \<le> b_maxWriteBatchSize b \<and> list_all (good_batch bsonSize b) (all_batches b)
      \<and> (case b_currentBatch b of
           None \<Rightarrow> b_batches b = [] \<and> b_currentBatchSize b = 0 \<and> b_currentBatchSizeBytes b = 0
         | Some c \<Rightarrow> b_currentBatchSize b = int (length (ba_operations c))
             \<and> b_currentBatchSizeBytes b = batch_bytes (b_maxKeySize b) bsonSize (ba_operations c)))"

lemma good_batch_limits:
  "b_maxWriteBatchSize b' = b_maxWriteBatchSize b \<Longrightarrow> b_maxKeySize b' = b_maxKeySize b \<Longrightarrow>
   b_maxBatchSizeBytes b' = b_maxBatchSizeBytes b \<Longrightarrow> good_batch bsonSize b' bt = good_batch bsonSize b bt"
  by (simp add: good_batch_def)

lemma batch_contents_add:
  "length (ba_originalIndexes c) = length (ba_operations c) \<Longrightarrow>
     batch_contents (add_operation i s c) = batch_contents c @ [(i, ba_batchType c, s)]"
  by (simp add: batch_contents_def add_operation_def)

lemma batch_contents_new [simp]: "batch_contents (Batch_new t i) = []"
  by (simp add: batch_contents_def Batch_new_def)

lemma good_batch_first:
  "2 \<le> b_maxWriteBatchSize b \<Longrightarrow> good_batch bsonSize b (add_operation i s (Batch_new t i))"
  by (simp add: good_batch_def add_operation_def Batch_new_def batch_bytes_def)

lemma good_batch_add:
  assumes "good_batch bsonSize b c" "int (length (ba_operations c)) + 1 < b_maxWriteBatchSize b"
    "batch_bytes (b_maxKeySize b) bsonSize (ba_operations c) + b_maxKeySize b + bsonSize s < b_maxBatchSizeBytes b"
  shows "good_batch bsonSize b (add_operation i s c)"
  using assms by (cases "ba_originalIndexes c") (auto simp: good_batch_def add_operation_def batch_bytes_def)

lemma ordered_add_cases:
  assumes inv: "ordered_inv bsonSize b" and a: "ordered_add bsonSize t s b = (None, b')"
  obtains (fresh) "b_currentBatch b' = Some (add_operation (b_currentIndex b) s (Batch_new t (b_currentIndex b)))"
      "b_batches b' = all_batches b"
      "b_currentBatchSize b' = 1" "b_currentBatchSizeBytes b' = b_maxKeySize b + bsonSize s"
  | (same) c where "b_currentBatch b = Some c" "ba_batchType c = t"
      "b_currentBatch b' = Some (add_operation (b_currentIndex b) s c)" "b_batches b' = b_batches b"
      "int (length (ba_operations c)) + 1 < b_maxWriteBatchSize b"
      "batch_bytes (b_maxKeySize b) bsonSize (ba_operations c) + b_maxKeySize b + bsonSize s < b_maxBatchSizeBytes b"
      "b_currentBatchSize b' = b_currentBatchSize b + 1"
      "b_currentBatchSizeBytes b' = b_currentBatchSizeBytes b + (b_maxKeySize b + bsonSize s)"
proof (cases "b_currentBatch b")
  case None
  with inv have e: "all_batches b = []" "b_currentBatchSize b = 0" "b_currentBatchSizeBytes b = 0" "2 \<le> b_maxWriteBatchSize b"
    by (simp_all add: ordered_inv_def all_batches_def)
  with a None show ?thesis
    by (intro fresh) (auto simp: ordered_add_def ordered_split_def Batch_new_def Let_def all_batches_def split: if_splits)
next
  case (Some c)
  with inv have g: "good_batch bsonSize b c" "b_isOrdered b" "b_currentBatchSize b = int (length (ba_operations c))"
    "b_currentBatchSizeBytes b = batch_bytes (b_maxKeySize b) bsonSize (ba_operations c)"
    by (auto simp: ordered_inv_def all_batches_def)
  then have pos: "0 < b_currentBatchSize b" by (simp add: good_batch_def)
  show ?thesis
  proof (cases "b_currentBatchSize b + 1 \<ge> b_maxWriteBatchSize b
      \<or> b_currentBatchSizeBytes b + b_maxKeySize b + bsonSize s \<ge> b_maxBatchSizeBytes b \<or> ba_batchType c \<noteq> t")
    case True
    with a Some pos g(2) show ?thesis
      by (intro fresh) (auto simp: ordered_add_def ordered_split_def Let_def all_batches_def split: if_splits)
  next
    case False
    with a Some pos g(3,4) show ?thesis
      by (intro same [of c]) (auto simp: ordered_add_def ordered_split_def Let_def split: if_splits)
  qed
qed

lemma ordered_add_frame:
  assumes "ordered_add bsonSize t s b = (None, b')"
  shows "b_isOrdered b' = b_isOrdered b" "b_maxWriteBatchSize b' = b_maxWriteBatchSize b"
    "b_maxKeySize b' = b_maxKeySize b" "b_maxBatchSizeBytes b' = b_maxBatchSizeBytes b"
    "b_currentIndex b' = Suc (b_currentIndex b)"
  using assms by (auto simp: ordered_add_def ordered_split_def Let_def split: if_splits)

lemma ordered_add_contents:
  assumes inv: "ordered_inv bsonSize b" and a: "ordered_add bsonSize t s b = (None, b')"
  shows "ordered_inv bsonSize b' \<and> contents b' = contents b @ [(b_currentIndex b, t, s)]"
proof -
  note frame = ordered_add_frame [OF a]
  have lim: "good_batch bsonSize b' = good_batch bsonSize b" by (rule ext, rule good_batch_limits) (simp_all add: frame)
  have o': "b_isOrdered b" "2 \<le> b_maxWriteBatchSize b" "list_all (good_batch bsonSize b) (all_batches b)"
    using inv by (simp_all add: ordered_inv_def)
  from inv a show ?thesis
  proof (cases rule: ordered_add_cases)
    case fresh
    then have "all_batches b' = all_batches b @ [add_operation (b_currentIndex b) s (Batch_new t (b_currentIndex b))]"
      using o'(1) frame(1) by (simp add: all_batches_def)
    moreover have "batch_contents (add_operation (b_currentIndex b) s (Batch_new t (b_currentIndex b))) = [(b_currentIndex b, t, s)]"
      by (simp add: batch_contents_def add_operation_def Batch_new_def)
    ultimately show ?thesis
      using o' fresh good_batch_first [OF o'(2), of bsonSize "b_currentIndex b" s t]
      by (simp add: ordered_inv_def contents_def frame lim batch_bytes_def add_operation_def Batch_new_def)
  next
    case (same c)
    have c: "all_batches b = b_batches b @ [c]" "all_batches b' = b_batches b @ [add_operation (b_currentIndex b) s c]"
      using same(1,3,4) o'(1) frame(1) by (simp_all add: all_batches_def)
    have g: "good_batch bsonSize b c" using o'(3) c(1) by simp
    then have "batch_contents (add_operation (b_currentIndex b) s c) = batch_contents c @ [(b_currentIndex b, t, s)]"
      using batch_contents_add [of c] same(2) by (simp add: good_batch_def)
    with c good_batch_add [OF g same(5,6)] o' same inv show ?thesis
      by (simp add: ordered_inv_def contents_def frame lim batch_bytes_def add_operation_def)
  qed
qed

interpretation ob: batcher "ordered_add bsonSize" "ordered_inv bsonSize" for bsonSize
proof unfold_locales
  fix b t s b' assume a: "ordered_inv bsonSize b" "ordered_add bsonSize t s b = (None, b')"
  from ordered_add_contents [OF a] show "ordered_inv bsonSize b'"
    "mset (contents b') = add_mset (b_currentIndex b, t, s) (mset (contents b))" by simp_all
  from ordered_add_frame [OF a(2)] show "b_currentIndex b' = Suc (b_currentIndex b)" by simp
qed


text \<open>The unordered operation: a good batch of each type besides the full ones.\<close>

definition unordered_inv :: "(statement \<Rightarrow> int) \<Rightarrow> bulk \<Rightarrow> bool" where
  "unordered_inv bsonSize b =
     (\<not> b_isOrdered b \<and> 2 \<le> b_maxWriteBatchSize b \<and> list_all (good_batch bsonSize b) (all_batches b)
      \<and> (\<forall>t c. batch_for t b = Some c \<longrightarrow> ba_batchType c = t \<and> ba_size c = int (length (ba_operations c))
           \<and> ba_sizeBytes c = batch_bytes (b_maxKeySize b) bsonSize (ba_operations c)))"

lemma batch_for_mem: "\<not> b_isOrdered b \<Longrightarrow> batch_for t b = Some c \<Longrightarrow> c \<in> set (all_batches b)"
  by (cases t) (auto simp: batch_for_def all_batches_def List.map_filter_def)

lemma contents_unordered:
  "\<not> b_isOrdered b \<Longrightarrow> mset (contents b) = mset (concat (map batch_contents (b_batches b)))
     + (\<Sum>t \<in> {INSERT, UPDATE, DELETE}. mset (case batch_for t b of Some c \<Rightarrow> batch_contents c | None \<Rightarrow> []))"
  by (auto simp: contents_def all_batches_def batch_for_def List.map_filter_def split: option.split)

lemma all_batches_unordered:
  "\<not> b_isOrdered b \<Longrightarrow> set (all_batches b) = set (b_batches b) \<union> {c. \<exists>t. batch_for t b = Some c}"
proof -
  assume o': "\<not> b_isOrdered b"
  have "{c. \<exists>t. batch_for t b = Some c} = {c. batch_for INSERT b = Some c \<or> batch_for UPDATE b = Some c \<or> batch_for DELETE b = Some c}"
    using batchType.exhaust by metis
  with o' show ?thesis by (auto simp: all_batches_def batch_for_def List.map_filter_def split: option.splits)
qed

lemma unordered_add_cases:
  assumes inv: "unordered_inv bsonSize b" and a: "unordered_add bsonSize t s b = (None, b')"
  obtains c where "batch_for t b' = Some ((add_operation (b_currentIndex b) s c)\<lparr>ba_size := ba_size c + 1,
        ba_sizeBytes := ba_sizeBytes c + (b_maxKeySize b + bsonSize s)\<rparr>)"
      "\<forall>t'. t' \<noteq> t \<longrightarrow> batch_for t' b' = batch_for t' b"
      "c = Batch_new t (b_currentIndex b) \<and> b_batches b' = b_batches b @ (case batch_for t b of Some d \<Rightarrow> [d] | None \<Rightarrow> [])
       \<or> batch_for t b = Some c \<and> b_batches b' = b_batches b
         \<and> int (length (ba_operations c)) + 1 < b_maxWriteBatchSize b
         \<and> batch_bytes (b_maxKeySize b) bsonSize (ba_operations c) + b_maxKeySize b + bsonSize s < b_maxBatchSizeBytes b"
proof -
  obtain c b1 where sp: "unordered_split (bsonSize s) t b = (c, b1)" by (rule prod.exhaust)
  have b': "b' = (let cur1 = (add_operation (b_currentIndex b) s c)\<lparr>ba_size := ba_size c + 1,
                            ba_sizeBytes := ba_sizeBytes c + (b_maxKeySize b + bsonSize s)\<rparr>;
                   b2 = set_batch_for t cur1 (b1\<lparr>b_currentBatch := Some cur1, b_currentIndex := b_currentIndex b + 1\<rparr>)
               in if t = INSERT
                  then b2\<lparr>b_bulkResult := insert_id (length (br_insertedIds (b_bulkResult b2))) s (b_bulkResult b2)\<rparr> else b2)"
    using a sp by (simp add: unordered_add_def Let_def split: if_splits)
  have frame: "batch_for t' b1 = batch_for t' b" for t'
    using sp by (cases t') (auto simp: unordered_split_def batch_for_def Let_def split: if_splits)
  have "batch_for t b' = Some ((add_operation (b_currentIndex b) s c)\<lparr>ba_size := ba_size c + 1,
        ba_sizeBytes := ba_sizeBytes c + (b_maxKeySize b + bsonSize s)\<rparr>)"
    using b' by (cases t) (simp_all add: batch_for_def set_batch_for_def Let_def)
  moreover have "\<forall>t'. t' \<noteq> t \<longrightarrow> batch_for t' b' = batch_for t' b"
    using b' frame [of INSERT] frame [of UPDATE] frame [of DELETE]
    by (cases t) (auto simp: batch_for_def set_batch_for_def Let_def split: batchType.splits)
  moreover have "b_batches b' = b_batches b1" using b' by (cases t) (simp_all add: set_batch_for_def Let_def)
  moreover have "c = Batch_new t (b_currentIndex b) \<and> b_batches b1 = b_batches b @ (case batch_for t b of Some d \<Rightarrow> [d] | None \<Rightarrow> [])
       \<or> batch_for t b = Some c \<and> b_batches b1 = b_batches b
         \<and> int (length (ba_operations c)) + 1 < b_maxWriteBatchSize b
         \<and> batch_bytes (b_maxKeySize b) bsonSize (ba_operations c) + b_maxKeySize b + bsonSize s < b_maxBatchSizeBytes b"
  proof (cases "batch_for t b")
    case None
    with sp inv show ?thesis by (auto simp: unordered_split_def Batch_new_def unordered_inv_def Let_def split: if_splits)
  next
    case (Some d)
    with inv have "d \<in> set (all_batches b)" "ba_batchType d = t" "ba_size d = int (length (ba_operations d))"
      "ba_sizeBytes d = batch_bytes (b_maxKeySize b) bsonSize (ba_operations d)"
      by (auto simp: unordered_inv_def intro: batch_for_mem)
    moreover from this(1) inv have "ba_operations d \<noteq> []" by (auto simp: unordered_inv_def list_all_iff good_batch_def)
    ultimately show ?thesis using sp Some by (auto simp: unordered_split_def Let_def split: if_splits)
  qed
  ultimately show ?thesis using that by metis
qed


lemma unordered_add_frame:
  assumes "unordered_add bsonSize t s b = (None, b')"
  shows "b_isOrdered b' = b_isOrdered b" "b_maxWriteBatchSize b' = b_maxWriteBatchSize b"
    "b_maxKeySize b' = b_maxKeySize b" "b_maxBatchSizeBytes b' = b_maxBatchSizeBytes b"
    "b_currentIndex b' = Suc (b_currentIndex b)"
  using assms
  by (cases t; auto simp: unordered_add_def unordered_split_def set_batch_for_def Let_def split: if_splits)+

lemma sum_types_update:
  fixes f g :: "batchType \<Rightarrow> 'a multiset"
  assumes "f t + m = g t + m'" "\<forall>t'. t' \<noteq> t \<longrightarrow> f t' = g t'"
  shows "(\<Sum>t \<in> {INSERT, UPDATE, DELETE}. f t) + m = (\<Sum>t \<in> {INSERT, UPDATE, DELETE}. g t) + m'"
  using assms by (cases t) (simp_all add: union_ac)

lemma mset_exchange:
  fixes A :: "'a multiset"
  assumes "A' + x' = add_mset p (A + x)" "F' + x = F + x'"
  shows "A' + F' = add_mset p (A + F)"
proof -
  have "(A' + x') + (F' + x) = add_mset p (A + x) + (F + x')" by (simp only: assms)
  then have "(A' + F') + (x + x') = add_mset p (A + F) + (x + x')" by (simp add: ac_simps)
  then show ?thesis by simp
qed

lemma unordered_add_contents:
  assumes inv: "unordered_inv bsonSize b" and a: "unordered_add bsonSize t s b = (None, b')"
  shows "unordered_inv bsonSize b'" (is ?inv)
    and "mset (contents b') = add_mset (b_currentIndex b, t, s) (mset (contents b))" (is ?mset)
proof -
  note frame = unordered_add_frame [OF a]
  have lim: "good_batch bsonSize b' = good_batch bsonSize b" by (rule ext, rule good_batch_limits) (simp_all add: frame)
  have o': "\<not> b_isOrdered b" "\<not> b_isOrdered b'" "2 \<le> b_maxWriteBatchSize b" "\<forall>c \<in> set (all_batches b). good_batch bsonSize b c"
    using inv frame(1) by (simp_all add: unordered_inv_def list_all_iff)
  from inv a obtain c where
    c: "batch_for t b' = Some ((add_operation (b_currentIndex b) s c)\<lparr>ba_size := ba_size c + 1,
        ba_sizeBytes := ba_sizeBytes c + (b_maxKeySize b + bsonSize s)\<rparr>)" (is "_ = Some ?c'")
    and others: "\<forall>t'. t' \<noteq> t \<longrightarrow> batch_for t' b' = batch_for t' b"
    and which: "c = Batch_new t (b_currentIndex b) \<and> b_batches b' = b_batches b @ (case batch_for t b of Some d \<Rightarrow> [d] | None \<Rightarrow> [])
       \<or> batch_for t b = Some c \<and> b_batches b' = b_batches b
         \<and> int (length (ba_operations c)) + 1 < b_maxWriteBatchSize b
         \<and> batch_bytes (b_maxKeySize b) bsonSize (ba_operations c) + b_maxKeySize b + bsonSize s < b_maxBatchSizeBytes b"
    by (rule unordered_add_cases)
  have mem: "batch_for t' b = Some d \<Longrightarrow> good_batch bsonSize b d" for t' d using o'(1,4) batch_for_mem by blast
  have good: "good_batch bsonSize b ?c'"
  proof -
    have "good_batch bsonSize b (add_operation (b_currentIndex b) s c)"
      using which good_batch_first [OF o'(3), of bsonSize "b_currentIndex b" s t] good_batch_add [of bsonSize b c s] mem by blast
    then show ?thesis by (simp add: good_batch_def)
  qed
  have sizes: "ba_batchType c = t \<and> ba_size c = int (length (ba_operations c))
      \<and> ba_sizeBytes c = batch_bytes (b_maxKeySize b) bsonSize (ba_operations c)"
    using which inv by (auto simp: unordered_inv_def Batch_new_def batch_bytes_def)
  have "\<forall>d \<in> set (all_batches b'). good_batch bsonSize b d"
  proof
    fix d assume "d \<in> set (all_batches b')"
    then consider "d \<in> set (b_batches b')" | t' where "batch_for t' b' = Some d" using all_batches_unordered [OF o'(2)] by auto
    then show "good_batch bsonSize b d"
    proof cases
      case 1
      then have "d \<in> set (b_batches b) \<or> batch_for t b = Some d" using which by (auto split: option.splits)
      then show ?thesis using o'(4) all_batches_unordered [OF o'(1)] mem by auto
    next
      case 2
      then show ?thesis using others c good mem by (cases "t' = t") auto
    qed
  qed
  moreover have "ba_batchType d = t' \<and> ba_size d = int (length (ba_operations d))
      \<and> ba_sizeBytes d = batch_bytes (b_maxKeySize b) bsonSize (ba_operations d)" if "batch_for t' b' = Some d" for t' d
    using that others c sizes inv
    by (cases "t' = t") (auto simp: unordered_inv_def add_operation_def batch_bytes_def)
  ultimately show ?inv using o' frame by (simp add: unordered_inv_def list_all_iff lim)
  have eq: "batch_contents ?c' = batch_contents c @ [(b_currentIndex b, t, s)]"
  proof -
    have "length (ba_originalIndexes c) = length (ba_operations c)"
      using which mem by (auto simp: good_batch_def Batch_new_def)
    from batch_contents_add [OF this] sizes show ?thesis by (simp add: batch_contents_def)
  qed
  let ?f = "\<lambda>b t. mset (case batch_for t b of Some c \<Rightarrow> batch_contents c | None \<Rightarrow> [])"
  have "mset (concat (map batch_contents (b_batches b'))) + ?f b' t
      = add_mset (b_currentIndex b, t, s) (mset (concat (map batch_contents (b_batches b))) + ?f b t)"
    using which c eq by (auto split: option.split)
  moreover have "(\<Sum>t \<in> {INSERT, UPDATE, DELETE}. ?f b' t) + ?f b t = (\<Sum>t \<in> {INSERT, UPDATE, DELETE}. ?f b t) + ?f b' t"
    by (rule sum_types_update [of _ t]) (use others in \<open>simp_all add: union_commute\<close>)
  ultimately show ?mset
    unfolding contents_unordered [OF o'(1)] contents_unordered [OF o'(2)] by (rule mset_exchange)
qed

interpretation ub: batcher "unordered_add bsonSize" "unordered_inv bsonSize" for bsonSize
proof unfold_locales
  fix b t s b' assume a: "unordered_inv bsonSize b" "unordered_add bsonSize t s b = (None, b')"
  from unordered_add_contents [OF a] show "unordered_inv bsonSize b'"
    "mset (contents b') = add_mset (b_currentIndex b, t, s) (mset (contents b))" .
  from unordered_add_frame [OF a(2)] show "b_currentIndex b' = Suc (b_currentIndex b)" by simp
qed


section \<open>Properties of bulk operations\<close>

lemma new_bulk_inv:
  assumes "case w of None \<Rightarrow> True | Some v \<Rightarrow> v \<ge> 2"
  shows "ordered_inv bsonSize (BulkOperationBase_new True m w enc options)"
    "unordered_inv bsonSize (BulkOperationBase_new False m w enc options)"
    "contents (BulkOperationBase_new o' m w enc options) = []"
    "b_currentIndex (BulkOperationBase_new o' m w enc options) = 0"
    "b_isOrdered (BulkOperationBase_new o' m w enc options) = o'"
proof -
  have "batch_for t (BulkOperationBase_new False m w enc options) = None" for t
    by (cases t) (simp_all add: batch_for_def BulkOperationBase_new_def Let_def)
  with assms show "unordered_inv bsonSize (BulkOperationBase_new False m w enc options)"
    by (auto simp: unordered_inv_def BulkOperationBase_new_def all_batches_def List.map_filter_def Let_def split: option.splits)
  from assms show "ordered_inv bsonSize (BulkOperationBase_new True m w enc options)"
    by (auto simp: ordered_inv_def BulkOperationBase_new_def all_batches_def Let_def split: option.splits)
  show "contents (BulkOperationBase_new o' m w enc options) = []"
    "b_currentIndex (BulkOperationBase_new o' m w enc options) = 0"
    "b_isOrdered (BulkOperationBase_new o' m w enc options) = o'"
    by (simp_all add: contents_def BulkOperationBase_new_def all_batches_def List.map_filter_def Let_def)
qed

lemma add_all_dispatch:
  "add_all (addToOperationsList bsonSize) xs b =
     add_all (if b_isOrdered b then ordered_add bsonSize else unordered_add bsonSize) xs b"
proof (induction xs arbitrary: b)
  case (Cons x xs)
  obtain t s where x: "x = (t, s)" by (rule prod.exhaust)
  let ?add = "if b_isOrdered b then ordered_add bsonSize else unordered_add bsonSize"
  obtain e b1 where a: "?add t s b = (e, b1)" by (rule prod.exhaust)
  have "b_isOrdered b1 = b_isOrdered b" if "e = None"
    using a that ordered_add_frame(1) [of bsonSize t s b b1] unordered_add_frame(1) [of bsonSize t s b b1] by (auto split: if_splits)
  with Cons.IH [of b1] a x show ?case by (cases e) (auto simp: addToOperationsList_def)
qed simp

lemma ordered_contents_exact:
  "ordered_inv bsonSize b \<Longrightarrow> add_all (ordered_add bsonSize) xs b = Inr b' \<Longrightarrow>
     contents b' = contents b @ enumerate (b_currentIndex b) xs"
proof (induction xs arbitrary: b)
  case (Cons x xs)
  obtain t s where x: "x = (t, s)" by (rule prod.exhaust)
  obtain e b1 where a: "ordered_add bsonSize t s b = (e, b1)" by (rule prod.exhaust)
  with Cons.prems(2) x have e: "e = None" and rest: "add_all (ordered_add bsonSize) xs b1 = Inr b'" by (auto split: option.splits)
  from ordered_add_contents [OF Cons.prems(1) a [unfolded e]] ordered_add_frame(5) [OF a [unfolded e]] Cons.IH [OF _ rest] x
  show ?case by (simp add: enumerate_simps)
qed simp

text \<open>
  (C19) An ordered bulk write keeps the order.  Whatever statements are added, the batches one after
  the other hold exactly the statements added, in order, each with its index; no batch is empty,
  none has as many statements as the server allows or more, and one of several statements stays
  below the byte limit.
\<close>

theorem ordered_batches_keep_order:
  assumes "add_all (addToOperationsList bsonSize) xs (BulkOperationBase_new True m w enc options) = Inr b"
    and "case w of None \<Rightarrow> True | Some v \<Rightarrow> v \<ge> 2"
  shows "concat (map batch_contents (all_batches b)) = enumerate 0 xs
    \<and> list_all (good_batch bsonSize b) (all_batches b)"
proof -
  note new = new_bulk_inv [OF assms(2)]
  from assms(1) have a: "add_all (ordered_add bsonSize) xs (BulkOperationBase_new True m w enc options) = Inr b"
    by (simp add: add_all_dispatch new)
  from ordered_contents_exact [OF new(1) a] have "contents b = enumerate 0 xs" by (simp add: new)
  moreover from ob.all_added [OF new(1) a] have "list_all (good_batch bsonSize b) (all_batches b)" by (simp add: ordered_inv_def)
  ultimately show ?thesis by (simp add: contents_def)
qed

lemma bulk_contents:
  assumes "add_all (addToOperationsList bsonSize) xs (BulkOperationBase_new o' m w enc options) = Inr b"
    and "case w of None \<Rightarrow> True | Some v \<Rightarrow> v \<ge> 2"
  shows "mset (contents b) = mset (enumerate 0 xs)" "list_all (good_batch bsonSize b) (all_batches b)"
proof -
  note new = new_bulk_inv [OF assms(2)]
  show "mset (contents b) = mset (enumerate 0 xs)" "list_all (good_batch bsonSize b) (all_batches b)"
    using assms(1) ob.lands_once [OF new(1,3,4)] ub.lands_once [OF new(2,3,4)]
    by (cases o'; auto simp: add_all_dispatch new ordered_inv_def unordered_inv_def)+
qed

text \<open>
  An unordered bulk write loses nothing.  The batches together hold each added statement once,
  with the index it was added at, and each batch keeps within the limits.
\<close>

theorem unordered_batches_complete:
  assumes "add_all (addToOperationsList bsonSize) xs (BulkOperationBase_new False m w enc options) = Inr b"
    and "case w of None \<Rightarrow> True | Some v \<Rightarrow> v \<ge> 2"
  shows "mset (concat (map batch_contents (all_batches b))) = mset (enumerate 0 xs)
    \<and> list_all (good_batch bsonSize b) (all_batches b)"
  using bulk_contents [OF assms] by (simp add: contents_def)

lemma batch_position:
  assumes "good_batch bsonSize b bt" "i < length (ba_operations bt)"
  shows "(ba_originalIndexes bt ! i, ba_batchType bt, ba_operations bt ! i) \<in> set (batch_contents bt)"
  using assms by (auto simp: good_batch_def batch_contents_def set_zip)

text \<open>
  A write error names its statement.  Whatever the order of the operation, every write error
  made from a server's reply for a batch carries the index at which the failed statement was added,
  and that statement, when the server's indexes are within the batch.
\<close>

theorem write_error_names_statement:
  assumes "add_all (addToOperationsList bsonSize) xs (BulkOperationBase_new o' m w enc options) = Inr b"
    and "case w of None \<Rightarrow> True | Some v \<Rightarrow> v \<ge> 2" and "bt \<in> set (all_batches b)"
    and "\<forall>es. sr_writeErrors reply = Some es \<longrightarrow> (\<forall>e \<in> set es. rpe_index e < length (ba_operations bt))"
    and "e \<in> set (write_errors bt reply)"
  shows "\<exists>j < length xs. we_index e = Some j \<and> we_op e = Some (snd (xs ! j)) \<and> fst (xs ! j) = ba_batchType bt"
proof -
  note c = bulk_contents [OF assms(1,2)]
  have good: "good_batch bsonSize b bt" using c(2) assms(3) by (simp add: list_all_iff)
  from assms(5) obtain es r where r: "sr_writeErrors reply = Some es" "r \<in> set es"
    "we_index e = nth_opt (ba_originalIndexes bt) (rpe_index r)" "we_op e = nth_opt (ba_operations bt) (rpe_index r)"
    by (cases "sr_writeErrors reply") (auto simp: write_errors_def)
  then obtain i where i: "i < length (ba_operations bt)"
    "we_index e = nth_opt (ba_originalIndexes bt) i" "we_op e = nth_opt (ba_operations bt) i"
    using assms(4) by blast
  have "(ba_originalIndexes bt ! i, ba_batchType bt, ba_operations bt ! i) \<in> set (contents b)"
    using batch_position [OF good i(1)] assms(3) by (auto simp: contents_def)
  then have "(ba_originalIndexes bt ! i, ba_batchType bt, ba_operations bt ! i) \<in> set (enumerate 0 xs)"
    using c(1) by (metis set_mset_mset)
  then show ?thesis using i good by (auto simp: in_set_enumerate_eq nth_opt_def good_batch_def intro!: exI) 
qed


lemma contiguous_indexes:
  assumes "concat (map batch_contents bts) = enumerate 0 xs" "list_all (good_batch bsonSize b) bts" "bt \<in> set bts"
    and "i < length (ba_operations bt)"
  shows "ba_originalIndexes bt ! i = ba_originalZeroIndex bt + i"
proof -
  have idx: "map fst (batch_contents c) = ba_originalIndexes c" if "c \<in> set bts" for c
    using assms(2) that by (simp add: list_all_iff good_batch_def batch_contents_def)
  from assms(3) obtain p q where bts: "bts = p @ bt # q" by (auto simp: in_set_conv_decomp)
  have "concat (map ba_originalIndexes bts) = map fst (concat (map batch_contents bts))"
    using idx by (induction bts) auto
  also have "\<dots> = [0..<length xs]" by (simp add: assms(1) map_fst_enumerate)
  finally have u: "concat (map ba_originalIndexes p) @ ba_originalIndexes bt @ concat (map ba_originalIndexes q) = [0..<length xs]"
    using bts by simp
  let ?n = "length (concat (map ba_originalIndexes p))"
  have nth: "ba_originalIndexes bt ! k = ?n + k" if "k < length (ba_originalIndexes bt)" for k
  proof -
    have "?n + k < length xs"
      using arg_cong [OF u, of length] that by simp
    have "ba_originalIndexes bt ! k = [0..<length xs] ! (?n + k)"
      using that by (simp add: u [symmetric] nth_append)
    also have "\<dots> = ?n + k" using \<open>?n + k < length xs\<close> by (simp del: length_concat)
    finally show ?thesis .
  qed
  have g: "length (ba_originalIndexes bt) = length (ba_operations bt)" "ba_operations bt \<noteq> []"
    "ba_originalZeroIndex bt = hd (ba_originalIndexes bt)"
    using assms(2,3) by (auto simp: list_all_iff good_batch_def)
  then have "ba_originalZeroIndex bt = ?n" using nth [of 0] by (simp add: hd_conv_nth flip: length_greater_0_conv)
  with nth [of i] assms(4) g(1) show ?thesis by simp
qed

text \<open>
  Upserts of an ordered bulk write are reported under the index of their statement: the index
  the server gives within the batch, shifted by the index of the batch's first statement.
\<close>

theorem ordered_upsert_names_statement:
  assumes "add_all (addToOperationsList bsonSize) xs (BulkOperationBase_new True m w enc options) = Inr b"
    and "case w of None \<Rightarrow> True | Some v \<Rightarrow> v \<ge> 2" and "bt \<in> set (all_batches b)"
    and "sr_upserted reply = Some (UpsertedArray us)" "\<forall>(i, x) \<in> set us. i < length (ba_operations bt)"
  shows "upserted_entries bt reply = map (\<lambda>(i, x). (ba_originalIndexes bt ! i, x)) us"
proof -
  note new = new_bulk_inv [OF assms(2)]
  from assms(1) have a: "add_all (ordered_add bsonSize) xs (BulkOperationBase_new True m w enc options) = Inr b"
    by (simp add: add_all_dispatch new)
  from ordered_contents_exact [OF new(1) a] have "contents b = enumerate 0 xs" by (simp add: new)
  then have c: "concat (map batch_contents (all_batches b)) = enumerate 0 xs" by (simp add: contents_def)
  from contiguous_indexes [OF c bulk_contents(2) [OF assms(1,2)] assms(3)]
  have "ba_originalIndexes bt ! i = i + ba_originalZeroIndex bt" if "i < length (ba_operations bt)" for i using that by simp
  with assms(4,5) show ?thesis by (auto simp: upserted_entries_def)
qed

definition small_size :: "statement \<Rightarrow> int" where
  "small_size s = 10"

definition example_update :: "string \<Rightarrow> statement" where
  "example_update k = UpdateOp \<lparr>us_q = [(k, ''1'')], us_u = UDoc [(''$set'', k)], us_upsert = Some True, us_multi = False,
     us_hint = None, us_arrayFilters = None, us_collation = None\<rparr>"

definition empty_reply :: serverReply where
  "empty_reply = \<lparr>sr_ok = Some 1, sr_code = None, sr_message = None, sr_opTime = None, sr_lastOp = None,
     sr_n = None, sr_nModified = None, sr_upserted = None, sr_writeErrors = None, sr_writeConcernError = None\<rparr>"

definition no_bulkOptions :: bulkOptions where
  "no_bulkOptions = \<lparr>bopt_forceServerObjectId = None, bopt_dbForceServerObjectId = None, bopt_retryWrites = True\<rparr>"

lemma small_bulk_new:
  "BulkOperationBase_new o' None None False no_bulkOptions = \<lparr>b_isOrdered = o', b_bulkResult = empty_bulkResult,
     b_currentBatch = None, b_currentIndex = 0, b_currentBatchSize = 0, b_currentBatchSizeBytes = 0,
     b_currentInsertBatch = None, b_currentUpdateBatch = None, b_currentRemoveBatch = None, b_batches = [],
     b_maxBsonObjectSize = 16777216, b_maxBatchSizeBytes = 16777216, b_maxWriteBatchSize = 1000, b_maxKeySize = 5,
     b_options = no_bulkOptions, b_currentOp = None, b_executed = False\<rparr>"
  by (simp add: BulkOperationBase_new_def truthy_num_def digits_def show_int_def show_nat.simps)

lemmas add_example_defs = addToOperationsList_def unordered_add_def unordered_split_def ordered_add_def ordered_split_def
  batch_for_def set_batch_for_def Batch_new_def small_size_def example_update_def add_operation_def insert_id_def
  statement_id_def empty_bulkResult_def all_batches_def List.map_filter_def

text \<open>
  The indexes of an unordered bulk write can be wrong.  With an update, an insert and another
  update added in this order, an upsert by the second update is reported under index 1, the index
  of the insert, and the inserted document under index 0, the index of the first update.
\<close>

theorem unordered_indexes_wrong:
  "\<exists>b bt. add_all (addToOperationsList small_size)
        [(UPDATE, example_update ''a''), (INSERT, InsertDoc [(''_id'', ''7'')]), (UPDATE, example_update ''b'')]
        (BulkOperationBase_new False None None False no_bulkOptions) = Inr b
     \<and> bt \<in> set (all_batches b) \<and> ba_operations bt = [example_update ''a'', example_update ''b'']
     \<and> upserted_entries bt (empty_reply\<lparr>sr_upserted := Some (UpsertedArray [(1, ''x'')])\<rparr>) = [(1, ''x'')]
     \<and> ba_originalIndexes bt = [0, 2]
     \<and> br_insertedIds (b_bulkResult b) = [(0, Some ''7'')]"
  by (simp add: small_bulk_new add_example_defs upserted_entries_def empty_reply_def Let_def
      conj_disj_distribR ex_disj_distrib numeral_2_eq_2)


section \<open>Executing the batches\<close>

text \<open>A batch whose command succeeded and whose reply has no write error.\<close>

definition clean :: "(batch \<Rightarrow> bool \<Rightarrow> batchOutcome) \<Rightarrow> bool \<Rightarrow> batch \<Rightarrow> bool" where
  "clean exec retryWrites b =
     (case exec b (batch_retryWrites retryWrites b) of
        BatchReplied None \<Rightarrow> True
      | BatchReplied (Some reply) \<Rightarrow> sr_ok reply \<noteq> Some 0 \<and> write_errors b reply = []
      | _ \<Rightarrow> False)"

lemma merge_no_errors:
  "br_writeErrors (mergeBatchResults b reply r) = [] \<Longrightarrow> br_ok r = 1 \<Longrightarrow>
     (case reply of None \<Rightarrow> True | Some x \<Rightarrow> sr_ok x \<noteq> Some 0 \<and> write_errors b x = [])
     \<and> br_ok (mergeBatchResults b reply r) = 1"
  by (cases reply; cases "ba_batchType b")
    (auto simp: mergeBatchResults_def merge_counts_def Let_def split: if_splits option.splits)

lemma handleWriteError_None:
  "handleWriteError True rest r = None \<Longrightarrow> br_writeErrors r = []"
  by (auto simp: handleWriteError_def base_handleWriteError_def split: list.splits)

lemma ordered_run:
  assumes "executeCommands exec True retryWrites bs r = (sent, out)" "br_ok r = 1"
  shows "\<exists>rest. bs = sent @ rest \<and> (\<forall>b \<in> set (butlast sent). clean exec retryWrites b)
            \<and> (\<forall>r'. out = BulkDone r' \<longrightarrow> rest = [] \<and> (\<forall>b \<in> set sent. clean exec retryWrites b))"
  using assms
proof (induction bs arbitrary: r sent out)
  case (Cons b bs)
  show ?case
  proof (cases "exec b (batch_retryWrites retryWrites b)")
    case (BatchReplied reply)
    let ?r1 = "mergeBatchResults b reply r"
    show ?thesis
    proof (cases "handleWriteError True bs ?r1")
      case (Some err)
      with BatchReplied Cons.prems(1) show ?thesis by auto
    next
      case None
      obtain sent' out' where rec: "executeCommands exec True retryWrites bs ?r1 = (sent', out')" by (rule prod.exhaust)
      with None BatchReplied Cons.prems(1) have e: "sent = b # sent'" "out = out'" by simp_all
      from merge_no_errors [OF handleWriteError_None [OF None] Cons.prems(2)] have b: "clean exec retryWrites b" "br_ok ?r1 = 1"
        using BatchReplied by (auto simp: clean_def split: option.splits)
      from Cons.IH [OF rec b(2)] b(1) e show ?thesis by (cases sent') auto
    qed
  qed (use Cons.prems in auto)
qed simp

text \<open>A batch whose command was answered, with or without write errors.\<close>

definition replied :: "(batch \<Rightarrow> bool \<Rightarrow> batchOutcome) \<Rightarrow> bool \<Rightarrow> batch \<Rightarrow> bool" where
  "replied exec retryWrites b = (case exec b (batch_retryWrites retryWrites b) of BatchReplied _ \<Rightarrow> True | _ \<Rightarrow> False)"

lemma unordered_run:
  assumes "executeCommands exec False retryWrites bs r = (sent, out)"
  shows "\<exists>rest. bs = sent @ rest \<and> (\<forall>b \<in> set (butlast sent). replied exec retryWrites b)
    \<and> (rest \<noteq> [] \<longrightarrow> sent \<noteq> [] \<and> \<not> replied exec retryWrites (last sent))"
  using assms
proof (induction bs arbitrary: r sent out)
  case (Cons b bs)
  show ?case
  proof (cases "exec b (batch_retryWrites retryWrites b)")
    case (BatchReplied reply)
    then have ok: "replied exec retryWrites b" by (simp add: replied_def)
    let ?r1 = "mergeBatchResults b reply r"
    show ?thesis
    proof (cases "handleWriteError False bs ?r1")
      case None
      obtain sent' out' where run: "executeCommands exec False retryWrites bs ?r1 = (sent', out')" by (rule prod.exhaust)
      with Cons.IH obtain rest where rest: "bs = sent' @ rest" "\<forall>b \<in> set (butlast sent'). replied exec retryWrites b"
        "rest \<noteq> [] \<longrightarrow> sent' \<noteq> [] \<and> \<not> replied exec retryWrites (last sent')" by blast
      have "sent = b # sent'" using Cons.prems BatchReplied None run by simp
      with rest ok show ?thesis by (intro exI [of _ rest]) auto
    next
      case (Some err)
      then have "bs = []" by (auto simp: handleWriteError_def split: if_splits)
      with Cons.prems BatchReplied Some show ?thesis by auto
    qed
  qed (use Cons.prems in \<open>auto simp: replied_def\<close>)
qed simp

text \<open>
  (C20) Which batches run.  An ordered operation runs a prefix of its batches in order, only after
  batches that succeeded without write errors, and succeeds only if it ran them all.  An unordered
  one runs a prefix in order as well: it goes on after every batch whose command was answered, whatever
  write errors the answer has, and leaves batches out only after one whose command failed (it threw,
  called back with an error, or had a write concern error).
\<close>

theorem batches_run:
  assumes "executeCommands exec isOrdered retryWrites bs empty_bulkResult = (sent, out)"
  shows "(isOrdered \<longrightarrow> (\<exists>rest. bs = sent @ rest \<and> (\<forall>b \<in> set (butlast sent). clean exec retryWrites b)
            \<and> (\<forall>r'. out = BulkDone r' \<longrightarrow> rest = [] \<and> (\<forall>b \<in> set sent. clean exec retryWrites b))))
    \<and> (\<not> isOrdered \<longrightarrow> (\<exists>rest. bs = sent @ rest \<and> (\<forall>b \<in> set (butlast sent). replied exec retryWrites b)
            \<and> (rest \<noteq> [] \<longrightarrow> sent \<noteq> [] \<and> \<not> replied exec retryWrites (last sent))))"
proof (cases isOrdered)
  case True
  with ordered_run [of exec retryWrites bs empty_bulkResult sent out] assms show ?thesis
    by (simp add: empty_bulkResult_def)
next
  case False
  with unordered_run [of exec retryWrites bs empty_bulkResult sent out] assms show ?thesis by simp
qed

text \<open>
  An error thrown while a batch's command is built or started is not reported: the callback is
  called with neither an error nor a result, and the error is only in the operation's own record.
\<close>

theorem thrown_error_not_reported:
  assumes "exec b (batch_retryWrites retryWrites b) = BatchThrew e" "br_ok r = 1"
  shows "\<exists>r'. executeCommands exec isOrdered retryWrites (b # bs) r = ([b], BulkNothing r')
    \<and> br_writeErrors r' = br_writeErrors r @ [\<lparr>we_index = Some 0,
         we_code = Some (case numeric_code e of Some c \<Rightarrow> c | None \<Rightarrow> 0), we_errmsg = Some (e_message e),
         we_op = nth_opt (ba_operations b) 0\<rparr>]"
  using assms by (simp add: mergeBatchResults_def error_reply_def)

section \<open>Witnesses\<close>

definition example_statements :: "(batchType \<times> statement) list" where
  "example_statements = [(UPDATE, example_update ''a''), (INSERT, InsertDoc [(''_id'', ''7'')]), (UPDATE, example_update ''b'')]"

definition update_batch :: "nat \<Rightarrow> nat list \<Rightarrow> statement list \<Rightarrow> int \<Rightarrow> batch" where
  "update_batch z is ss n = \<lparr>ba_originalZeroIndex = z, ba_originalIndexes = is, ba_batchType = UPDATE, ba_operations = ss,
     ba_size = n, ba_sizeBytes = 15 * n\<rparr>"

lemma example_added:
  "\<exists>b. add_all (addToOperationsList small_size) example_statements (BulkOperationBase_new o' None None False no_bulkOptions) = Inr b
     \<and> (o' \<longrightarrow> update_batch 0 [0] [example_update ''a''] 0 \<in> set (all_batches b))
     \<and> (\<not> o' \<longrightarrow> update_batch 0 [0, 2] [example_update ''a'', example_update ''b''] 2 \<in> set (all_batches b))"
  by (cases o') (simp_all add: small_bulk_new add_example_defs example_statements_def update_batch_def Let_def numeral_2_eq_2)

theorem ordered_batches_keep_order_witness:
  "\<exists>b. add_all (addToOperationsList small_size) example_statements (BulkOperationBase_new True None None False no_bulkOptions) = Inr b
     \<and> concat (map batch_contents (all_batches b)) = enumerate 0 example_statements"
  using example_added [of True] ordered_batches_keep_order [of small_size example_statements None None False no_bulkOptions]
  by auto

theorem unordered_batches_complete_witness:
  "\<exists>b. add_all (addToOperationsList small_size) example_statements (BulkOperationBase_new False None None False no_bulkOptions) = Inr b
     \<and> mset (concat (map batch_contents (all_batches b))) = mset (enumerate 0 example_statements)"
  using example_added [of False] unordered_batches_complete [of small_size example_statements None None False no_bulkOptions]
  by auto

definition duplicate_reply :: "nat \<Rightarrow> serverReply" where
  "duplicate_reply i = empty_reply\<lparr>sr_writeErrors := Some [\<lparr>rpe_index = i, rpe_code = Some 11000, rpe_errmsg = None\<rparr>],
     sr_upserted := Some (UpsertedArray [(0, ''x'')])\<rparr>"

theorem write_error_names_statement_witness:
  "\<exists>b. add_all (addToOperationsList small_size) example_statements (BulkOperationBase_new False None None False no_bulkOptions) = Inr b
     \<and> (\<forall>e \<in> set (write_errors (update_batch 0 [0, 2] [example_update ''a'', example_update ''b''] 2) (duplicate_reply 1)).
          \<exists>j < 3. we_index e = Some j \<and> we_op e = Some (snd (example_statements ! j)))"
proof -
  let ?bt = "update_batch 0 [0, 2] [example_update ''a'', example_update ''b''] 2"
  obtain b where b: "add_all (addToOperationsList small_size) example_statements
      (BulkOperationBase_new False None None False no_bulkOptions) = Inr b" "?bt \<in> set (all_batches b)"
    using example_added [of False] by auto
  have "\<forall>es. sr_writeErrors (duplicate_reply 1) = Some es \<longrightarrow> (\<forall>e \<in> set es. rpe_index e < length (ba_operations ?bt))"
    by (simp add: duplicate_reply_def update_batch_def)
  from write_error_names_statement [OF b(1) _ b(2) this]
  have "\<exists>j < length example_statements. we_index e = Some j \<and> we_op e = Some (snd (example_statements ! j))"
    if "e \<in> set (write_errors ?bt (duplicate_reply 1))" for e using that by auto
  moreover have "length example_statements = 3" by (simp add: example_statements_def)
  ultimately show ?thesis using b(1) by auto
qed

theorem ordered_upsert_names_statement_witness:
  "upserted_entries (update_batch 0 [0] [example_update ''a''] 0) (duplicate_reply 0) = [(0, ''x'')]"
proof -
  let ?bt = "update_batch 0 [0] [example_update ''a''] 0"
  obtain b where b: "add_all (addToOperationsList small_size) example_statements
      (BulkOperationBase_new True None None False no_bulkOptions) = Inr b" "?bt \<in> set (all_batches b)"
    using example_added [of True] by auto
  have "sr_upserted (duplicate_reply 0) = Some (UpsertedArray [(0, ''x'')])" "\<forall>(i, x) \<in> set [(0, ''x'')]. i < length (ba_operations ?bt)"
    by (simp_all add: duplicate_reply_def update_batch_def)
  from ordered_upsert_names_statement [OF b(1) _ b(2) this] show ?thesis by (simp add: update_batch_def)
qed

theorem batches_run_witness:
  "\<exists>sent out. executeCommands (\<lambda>b _. BatchReplied (Some (duplicate_reply 0))) False True
      [update_batch 0 [0] [example_update ''a''] 0, update_batch 1 [1] [example_update ''b''] 0] empty_bulkResult = (sent, out)
    \<and> length sent = 2"
proof -
  let ?bs = "[update_batch 0 [0] [example_update ''a''] 0, update_batch 1 [1] [example_update ''b''] 0]"
  obtain sent out where e: "executeCommands (\<lambda>b _. BatchReplied (Some (duplicate_reply 0))) False True ?bs empty_bulkResult = (sent, out)"
    by (rule prod.exhaust)
  from batches_run [OF this] obtain rest where
    rest: "?bs = sent @ rest" "rest \<noteq> [] \<longrightarrow> sent \<noteq> []
      \<and> \<not> replied (\<lambda>b _. BatchReplied (Some (duplicate_reply 0))) True (last sent)" by auto
  then have "rest = []" by (auto simp: replied_def)
  with rest(1) have "sent = ?bs" by simp
  with e show ?thesis by simp
qed

theorem thrown_error_not_reported_witness:
  "\<exists>r'. executeCommands (\<lambda>b _. BatchThrew (invalid_argument ''bad'')) True True
      [update_batch 0 [0] [example_update ''a''] 0] empty_bulkResult
      = ([update_batch 0 [0] [example_update ''a''] 0], BulkNothing r')
    \<and> length (br_writeErrors r') = 1"
  using thrown_error_not_reported [of "\<lambda>b _. BatchThrew (invalid_argument ''bad'')" "update_batch 0 [0] [example_update ''a''] 0" True
      "invalid_argument ''bad''" empty_bulkResult True "[]"]
  by (auto simp: empty_bulkResult_def simp del: executeCommands.simps)

end
