(* ===== verification/Cursors.thy ===== *)
theory Cursors
  imports Utils Transactions
begin

text \<open>
  \<open>src/cursor/abstract_cursor.ts\<close> and \<open>src/cursor/find_cursor.ts\<close>: reading a result batch by batch.
  The commands a cursor sends are arguments: the reply to the initial command, and the reply to each
  getMore by its number.  The session of the cursor is the part a cursor looks at; the calls a
  cursor makes on it, on the server and on its listeners are logged in \<open>cu_events\<close> (the session
  itself is theory \<open>Sessions\<close>).  A document is of any type; a transform maps it.  Fetching may go on
  for ever on a tailable cursor, so it takes fuel.
\<close>

section \<open>State\<close>

text \<open>
  A cursor identifier: the constant \<open>Long.ZERO\<close>, with which the code compares by identity, or a
  number from the server.
\<close>

datatype cursorId = LongZero | LongId int

definition isZero :: "cursorId \<Rightarrow> bool" where
  "isZero i = (case i of LongZero \<Rightarrow> True | LongId n \<Rightarrow> n = 0)"

record cursorSession =
  cse_owned :: bool
  cse_explicit :: bool
  cse_inTransaction :: bool
  cse_hasEnded :: bool

datatype cursorEvent = CloseEvent | EndSession "mongoError option" | ClearPinned "mongoError option"
  | KillCursors cursorId | GetMoreSent cursorId int

record cursorOptions =
  cuo_batchSize :: "int option"
  cuo_maxTimeMS :: "int option"
  cuo_readPreference :: readPreference
  cuo_readConcern :: "readConcern option"
  cuo_tailable :: bool
  cuo_flags :: "(string, bool) jsmap"

record 'd cursor =
  cu_id :: "cursorId option"
  cu_session :: "cursorSession option"
  cu_server :: "string option"
  cu_namespace :: string
  cu_documents :: "'d list"
  cu_transform :: "('d \<Rightarrow> 'd) option"
  cu_initialized :: bool
  cu_closed :: bool
  cu_killed :: bool
  cu_options :: cursorOptions
  cu_isFind :: bool
  cu_numReturned :: "int option"
  cu_limit :: "int option"
  cu_builtTailable :: bool
  cu_gets :: nat
  cu_events :: "cursorEvent list"

text \<open>
  The constructors; the documents, flags and counters start empty.  A read preference that is not an
  instance of its class is replaced by the primary one.  A find cursor keeps the caller's options,
  \<open>limit\<close> and \<open>tailable\<close> among them, apart from the cursor's own; the latter do not take over \<open>tailable\<close>.
\<close>

record abstractCursorOptions =
  aco_readPreference :: "readPreferenceLike option"
  aco_readConcern :: "readConcernLike option"
  aco_level :: "string option"
  aco_batchSize :: "int option"
  aco_maxTimeMS :: "int option"
  aco_session :: "cursorSession option"

definition AbstractCursor_new :: "string \<Rightarrow> abstractCursorOptions \<Rightarrow> 'd cursor" where
  "AbstractCursor_new namespace options =
     \<lparr>cu_id = None, cu_session = aco_session options, cu_server = None, cu_namespace = namespace, cu_documents = [],
      cu_transform = None, cu_initialized = False, cu_closed = False, cu_killed = False,
      cu_options = \<lparr>cuo_batchSize = aco_batchSize options, cuo_maxTimeMS = aco_maxTimeMS options,
        cuo_readPreference = (case aco_readPreference options of Some (RPInstance rp) \<Rightarrow> rp | _ \<Rightarrow> ReadPreference_primary),
        cuo_readConcern = ReadConcern_fromOptions (Some (aco_readConcern options, aco_level options)),
        cuo_tailable = False, cuo_flags = []\<rparr>,
      cu_isFind = False, cu_numReturned = None, cu_limit = None, cu_builtTailable = False, cu_gets = 0, cu_events = []\<rparr>"

definition FindCursor_new :: "string \<Rightarrow> abstractCursorOptions \<Rightarrow> int option \<Rightarrow> bool \<Rightarrow> 'd cursor" where
  "FindCursor_new namespace options limit tailable =
     (AbstractCursor_new namespace options)\<lparr>cu_isFind := True, cu_limit := limit, cu_builtTailable := tailable\<rparr>"

text \<open>Replies.  A reply without a cursor is the raw response itself.\<close>

record 'd cursorDoc =
  cd_id :: "int option"
  cd_ns :: "string option"
  cd_firstBatch :: "'d list"

record 'd response =
  re_cursor :: "'d cursorDoc option"
  re_cursorId :: "int option"
  re_documents :: "'d list option"
  re_raw :: 'd

record 'd executionResult =
  er_server :: string
  er_session :: "cursorSession option"
  er_response :: "'d response"

record 'd cursorEnv =
  ce_hasSessionSupport :: bool
  ce_loadBalanced :: bool
  ce_init :: "cursorSession option \<Rightarrow> mongoError option \<times> 'd executionResult option"
  ce_getMore :: "nat \<Rightarrow> int \<Rightarrow> mongoError option \<times> (int \<times> 'd list) option"

definition emit :: "cursorEvent \<Rightarrow> 'd cursor \<Rightarrow> 'd cursor" where
  "emit e cu = cu\<lparr>cu_events := cu_events cu @ [e]\<rparr>"

section \<open>Cleaning up\<close>

definition cursorIsDead :: "'d cursor \<Rightarrow> bool" where
  "cursorIsDead cu = (case cu_id cu of None \<Rightarrow> False | Some i \<Rightarrow> isZero i)"

text \<open>What both ways of cleaning up do with the session; \<open>endSession\<close> marks it ended.\<close>

definition release_session :: "mongoError option \<Rightarrow> 'd cursor \<Rightarrow> 'd cursor" where
  "release_session err cu =
     (case cu_session cu of
        None \<Rightarrow> cu
      | Some s \<Rightarrow>
          if cse_owned s then emit (EndSession err) (cu\<lparr>cu_session := Some (s\<lparr>cse_hasEnded := True\<rparr>)\<rparr>)
          else if \<not> cse_inTransaction s then emit (ClearPinned err) cu
          else cu)"

definition completeCleanup :: "mongoError option \<Rightarrow> 'd cursor \<Rightarrow> 'd cursor" where
  "completeCleanup err cu = emit CloseEvent (release_session err cu)"

definition cleanupCursor :: "'d cursorEnv \<Rightarrow> mongoError option \<Rightarrow> bool option \<Rightarrow> 'd cursor \<Rightarrow> 'd cursor" where
  "cleanupCursor env err needs cu =
     (let needsToEmitClosed = (case needs of Some b \<Rightarrow> b | None \<Rightarrow> cu_documents cu = [])
      in if ce_loadBalanced env \<and> (case err of Some e \<Rightarrow> instanceof e MongoNetworkError | None \<Rightarrow> False)
         then completeCleanup err cu
         else if cu_id cu = None \<or> cu_server cu = None \<or> cursorIsDead cu then
           release_session err
             (if needsToEmitClosed then emit CloseEvent (cu\<lparr>cu_closed := True, cu_id := Some LongZero\<rparr>) else cu)
         else completeCleanup err (emit (KillCursors (the (cu_id cu))) (cu\<lparr>cu_killed := True\<rparr>)))"

definition cursor_close :: "'d cursorEnv \<Rightarrow> 'd cursor \<Rightarrow> 'd cursor" where
  "cursor_close env cu = cleanupCursor env None (Some (\<not> cu_closed cu)) (cu\<lparr>cu_closed := True\<rparr>)"

section \<open>Fetching\<close>

definition nextDocument :: "'d cursor \<Rightarrow> 'd option \<times> 'd cursor" where
  "nextDocument cu =
     (case cu_documents cu of
        [] \<Rightarrow> (None, cu)
      | d # ds \<Rightarrow> (Some (case cu_transform cu of Some f \<Rightarrow> f d | None \<Rightarrow> d), cu\<lparr>cu_documents := ds\<rparr>))"

text \<open>The implicit session of a cursor, and what the initial reply does to it.\<close>

definition ensure_session :: "'d cursorEnv \<Rightarrow> 'd cursor \<Rightarrow> 'd cursor" where
  "ensure_session env cu =
     (if cu_session cu = None \<and> ce_hasSessionSupport env
      then cu\<lparr>cu_session := Some \<lparr>cse_owned = True, cse_explicit = False, cse_inTransaction = False, cse_hasEnded = False\<rparr>\<rparr>
      else cu)"

definition initial_state :: "'d executionResult \<Rightarrow> 'd cursor \<Rightarrow> 'd cursor" where
  "initial_state st cu =
     (let r = er_response st;
          cu1 = cu\<lparr>cu_server := Some (er_server st), cu_session := er_session st,
                   cu_numReturned := (if cu_isFind cu
                     then Some (case re_cursor r of
                                  Some c \<Rightarrow> int (length (cd_firstBatch c))
                                | None \<Rightarrow> (case re_documents r of Some ds \<Rightarrow> int (length ds) | None \<Rightarrow> 0))
                     else cu_numReturned cu)\<rparr>;
          cu2 = (case re_cursor r of
                   Some c \<Rightarrow> cu1\<lparr>cu_id := map_option LongId (cd_id c),
                      cu_namespace := (case cd_ns c of Some n \<Rightarrow> (if n = [] then cu_namespace cu else n) | None \<Rightarrow> cu_namespace cu),
                      cu_documents := cd_firstBatch c\<rparr>
                 | None \<Rightarrow> cu1\<lparr>cu_id := map_option LongId (re_cursorId r),
                      cu_documents := (case re_documents r of Some ds \<Rightarrow> ds | None \<Rightarrow> [])\<rparr>)
      in if cu_id cu2 = None then cu2\<lparr>cu_id := Some LongZero, cu_documents := [re_raw r]\<rparr> else cu2)"

text \<open>
  \<open>_getMore\<close>, with the limit of a find cursor: when it has been reached the cursor is closed and the
  callback gets neither an error nor a reply.
\<close>

definition limited_size :: "'d cursor \<Rightarrow> int \<Rightarrow> int" where
  "limited_size cu batchSize =
     (case cu_numReturned cu of
        None \<Rightarrow> batchSize
      | Some n \<Rightarrow>
          if n = 0 then batchSize
          else (case cu_limit cu of
                  Some l \<Rightarrow> (if l > 0 \<and> n + batchSize > l then l - n else batchSize)
                | None \<Rightarrow> batchSize))"

definition getMore :: "'d cursorEnv \<Rightarrow> int \<Rightarrow> 'd cursor \<Rightarrow> (mongoError option \<times> (int \<times> 'd list) option) \<times> 'd cursor" where
  "getMore env batchSize cu =
     (let size = limited_size cu batchSize
      in if truthy_num (cu_numReturned cu) \<and> size \<le> 0 then ((None, None), cursor_close env cu)
         else (case (cu_id cu, cu_server cu) of
                 (None, _) \<Rightarrow> ((Some (mk_error MongoRuntimeError ''Unable to iterate cursor with no id''), None), cu)
               | (_, None) \<Rightarrow> ((Some (mk_error MongoRuntimeError ''Unable to iterate cursor without selected server''), None), cu)
               | (Some i, Some s) \<Rightarrow>
                   (let cu1 = emit (GetMoreSent i size) (cu\<lparr>cu_gets := Suc (cu_gets cu)\<rparr>)
                    in case ce_getMore env (cu_gets cu) size of
                         (Some e, _) \<Rightarrow> ((Some e, None), cu1)
                       | (None, Some (j, ds)) \<Rightarrow>
                           ((None, Some (j, ds)),
                            cu1\<lparr>cu_numReturned := (if cu_isFind cu then map_option (\<lambda>n. n + int (length ds)) (cu_numReturned cu)
                                                    else cu_numReturned cu)\<rparr>)
                       | (None, None) \<Rightarrow> ((None, None), cu1))))"

definition finish :: "'d cursorEnv \<Rightarrow> mongoError option \<Rightarrow> 'd cursor \<Rightarrow> (mongoError option \<times> 'd option) \<times> 'd cursor" where
  "finish env err cu = (let (d, cu1) = nextDocument (cleanupCursor env err None cu) in ((err, d), cu1))"

text \<open>The function \<open>next\<close>: the arguments of its callback and the cursor.\<close>

fun cursor_next :: "nat \<Rightarrow> 'd cursorEnv \<Rightarrow> bool \<Rightarrow> 'd cursor \<Rightarrow> ((mongoError option \<times> 'd option) \<times> 'd cursor) option" where
  "cursor_next 0 env blocking cu = None"
| "cursor_next (Suc fuel) env blocking cu =
     (if cu_closed cu then Some ((None, None), cu)
      else if cu_documents cu \<noteq> [] then (let (d, cu1) = nextDocument cu in Some ((None, d), cu1))
      else (case cu_id cu of
        None \<Rightarrow>
          (let cu1 = ensure_session env cu; (err, st) = ce_init env (cu_session cu1);
               cu2 = (case st of Some s \<Rightarrow> initial_state s cu1 | None \<Rightarrow> cu1)\<lparr>cu_initialized := True\<rparr>
           in if err \<noteq> None \<or> cursorIsDead cu2 then Some (finish env err cu2)
              else cursor_next fuel env blocking cu2)
      | Some i \<Rightarrow>
          if isZero i then Some ((None, None), cleanupCursor env None None cu)
          else
            (let batchSize = (case cuo_batchSize (cu_options cu) of Some n \<Rightarrow> (if n = 0 then 1000 else n) | None \<Rightarrow> 1000);
                 ((err, reply), cu1) = getMore env batchSize cu;
                 cu2 = (case reply of Some (j, ds) \<Rightarrow> cu1\<lparr>cu_documents := ds, cu_id := Some (LongId j)\<rparr> | None \<Rightarrow> cu1)
             in if err \<noteq> None \<or> cursorIsDead cu2 then Some (finish env err cu2)
                else if cu_documents cu2 = [] \<and> \<not> blocking then Some ((None, None), cu2)
                else cursor_next fuel env blocking cu2)))"

section \<open>The public operations\<close>

definition exhausted :: mongoError where
  "exhausted = mk_error MongoCursorExhaustedError ''Cursor is exhausted''"

definition next_op :: "nat \<Rightarrow> 'd cursorEnv \<Rightarrow> bool \<Rightarrow> 'd cursor \<Rightarrow> ((mongoError option \<times> 'd option) \<times> 'd cursor) option" where
  "next_op fuel env blocking cu =
     (if cu_id cu = Some LongZero then Some ((Some exhausted, None), cu) else cursor_next fuel env blocking cu)"

text \<open>\<open>next\<close> waits for a document, \<open>tryNext\<close> makes at most one trip.\<close>

definition next_doc :: "nat \<Rightarrow> 'd cursorEnv \<Rightarrow> 'd cursor \<Rightarrow> ((mongoError option \<times> 'd option) \<times> 'd cursor) option" where
  "next_doc fuel env cu = next_op fuel env True cu"

definition tryNext :: "nat \<Rightarrow> 'd cursorEnv \<Rightarrow> 'd cursor \<Rightarrow> ((mongoError option \<times> 'd option) \<times> 'd cursor) option" where
  "tryNext fuel env cu = next_op fuel env False cu"

definition hasNext :: "nat \<Rightarrow> 'd cursorEnv \<Rightarrow> 'd cursor \<Rightarrow> ((mongoError + bool) \<times> 'd cursor) option" where
  "hasNext fuel env cu =
     (if cu_id cu = Some LongZero then Some (Inr False, cu)
      else if cu_documents cu \<noteq> [] then Some (Inr True, cu)
      else (case cursor_next fuel env True cu of
              None \<Rightarrow> None
            | Some ((Some e, _), cu1) \<Rightarrow> Some (Inl e, cu1)
            | Some ((None, Some d), cu1) \<Rightarrow> Some (Inr True, cu1\<lparr>cu_documents := d # cu_documents cu1\<rparr>)
            | Some ((None, None), cu1) \<Rightarrow> Some (Inr False, cu1)))"

definition readBufferedDocuments :: "nat option \<Rightarrow> 'd cursor \<Rightarrow> 'd list \<times> 'd cursor" where
  "readBufferedDocuments n cu =
     (let k = (case n of Some k \<Rightarrow> k | None \<Rightarrow> length (cu_documents cu))
      in (take k (cu_documents cu), cu\<lparr>cu_documents := drop k (cu_documents cu)\<rparr>))"

definition transformed :: "'d cursor \<Rightarrow> 'd list \<Rightarrow> 'd list" where
  "transformed cu ds = (case cu_transform cu of Some f \<Rightarrow> map f ds | None \<Rightarrow> ds)"

fun toArray_loop :: "nat \<Rightarrow> 'd cursorEnv \<Rightarrow> 'd list \<Rightarrow> 'd cursor \<Rightarrow> ((mongoError + 'd list) \<times> 'd cursor) option" where
  "toArray_loop 0 env docs cu = None"
| "toArray_loop (Suc fuel) env docs cu =
     (case cursor_next (Suc fuel) env True cu of
        None \<Rightarrow> None
      | Some ((Some e, _), cu1) \<Rightarrow> Some (Inl e, cu1)
      | Some ((None, None), cu1) \<Rightarrow> Some (Inr docs, cu1)
      | Some ((None, Some d), cu1) \<Rightarrow>
          toArray_loop fuel env (docs @ d # transformed cu (cu_documents cu1)) (cu1\<lparr>cu_documents := []\<rparr>))"

definition toArray :: "nat \<Rightarrow> 'd cursorEnv \<Rightarrow> 'd cursor \<Rightarrow> ((mongoError + 'd list) \<times> 'd cursor) option" where
  "toArray fuel env cu = toArray_loop fuel env [] cu"

text \<open>
  \<open>forEach\<close>: the iterator says to go on, to stop, or throws; the documents it saw are returned in
  order.  After a document the rest of the batch is taken off the cursor at once.
\<close>

datatype iterated = GoOn | Stop | IterThrew mongoError

fun iterate_batch :: "('d \<Rightarrow> iterated) \<Rightarrow> 'd list \<Rightarrow> 'd list \<times> iterated" where
  "iterate_batch f [] = ([], GoOn)"
| "iterate_batch f (d # ds) =
     (case f d of GoOn \<Rightarrow> (let (seen, r) = iterate_batch f ds in (d # seen, r)) | r \<Rightarrow> ([d], r))"

fun forEach :: "nat \<Rightarrow> 'd cursorEnv \<Rightarrow> ('d \<Rightarrow> iterated) \<Rightarrow> 'd cursor \<Rightarrow> ('d list \<times> mongoError option \<times> 'd cursor) option" where
  "forEach 0 env f cu = None"
| "forEach (Suc fuel) env f cu =
     (case cursor_next (Suc fuel) env True cu of
        None \<Rightarrow> None
      | Some ((Some e, _), cu1) \<Rightarrow> Some ([], Some e, cu1)
      | Some ((None, None), cu1) \<Rightarrow> Some ([], None, cu1)
      | Some ((None, Some d), cu1) \<Rightarrow>
          (case f d of
             IterThrew e \<Rightarrow> Some ([d], Some e, cu1)
           | Stop \<Rightarrow> Some ([d], None, cu1)
           | GoOn \<Rightarrow>
               (let (seen, r) = iterate_batch f (transformed cu (cu_documents cu1)); cu2 = cu1\<lparr>cu_documents := []\<rparr>
                in case r of
                     IterThrew e \<Rightarrow> Some (d # seen, Some e, cu2)
                   | Stop \<Rightarrow> Some (d # seen, None, cu2)
                   | GoOn \<Rightarrow> map_option (\<lambda>(more, out). (d # seen @ more, out)) (forEach fuel env f cu2))))"

section \<open>Settings\<close>

definition in_use :: mongoError where
  "in_use = mk_error MongoCursorInUseError ''Cursor is already initialized''"

definition assertUninitialized :: "'d cursor \<Rightarrow> mongoError + unit" where
  "assertUninitialized cu = (if cu_initialized cu then Inl in_use else Inr ())"

definition set_option :: "(cursorOptions \<Rightarrow> mongoError + cursorOptions) \<Rightarrow> 'd cursor \<Rightarrow> mongoError + 'd cursor" where
  "set_option f cu =
     rbind (assertUninitialized cu) (\<lambda>_. rbind (f (cu_options cu)) (\<lambda>x. Inr (cu\<lparr>cu_options := x\<rparr>)))"

definition CURSOR_FLAGS :: "string list" where
  "CURSOR_FLAGS = [''tailable'', ''oplogReplay'', ''noCursorTimeout'', ''awaitData'', ''exhaust'', ''partial'']"

definition addCursorFlag :: "string \<Rightarrow> bool \<Rightarrow> 'd cursor \<Rightarrow> mongoError + 'd cursor" where
  "addCursorFlag flag value =
     set_option (\<lambda>x. if flag \<notin> set CURSOR_FLAGS then Inl (invalid_argument ''Flag is not one of the cursor flags'')
       else Inr (x\<lparr>cuo_flags := map_set flag value (cuo_flags x),
                   cuo_tailable := (if flag = ''tailable'' then value else cuo_tailable x)\<rparr>))"

definition cursor_map :: "('d \<Rightarrow> 'd) \<Rightarrow> 'd cursor \<Rightarrow> mongoError + 'd cursor" where
  "cursor_map f cu =
     rbind (assertUninitialized cu)
       (\<lambda>_. Inr (cu\<lparr>cu_transform := Some (case cu_transform cu of Some g \<Rightarrow> (\<lambda>d. f (g d)) | None \<Rightarrow> f)\<rparr>))"

definition withReadPreference :: "readPreferenceLike \<Rightarrow> 'd cursor \<Rightarrow> mongoError + 'd cursor" where
  "withReadPreference r =
     set_option (\<lambda>x. case r of
       RPInstance rp \<Rightarrow> Inr (x\<lparr>cuo_readPreference := rp\<rparr>)
     | RPString s \<Rightarrow> rbind (ReadPreference_fromString s) (\<lambda>rp. Inr (x\<lparr>cuo_readPreference := rp\<rparr>))
     | RPObject v \<Rightarrow> Inl (invalid_argument ''Invalid read preference''))"

definition withReadConcern :: "readConcernLike \<Rightarrow> 'd cursor \<Rightarrow> mongoError + 'd cursor" where
  "withReadConcern r =
     set_option (\<lambda>x. Inr (case ReadConcern_fromOptions (Some (Some r, None)) of
       Some rc \<Rightarrow> x\<lparr>cuo_readConcern := Some rc\<rparr> | None \<Rightarrow> x))"

definition set_maxTimeMS :: "int \<Rightarrow> 'd cursor \<Rightarrow> mongoError + 'd cursor" where
  "set_maxTimeMS v = set_option (\<lambda>x. Inr (x\<lparr>cuo_maxTimeMS := Some v\<rparr>))"

definition not_on_tailable :: "string \<Rightarrow> mongoError" where
  "not_on_tailable what = mk_error MongoTailableCursorError (''Tailable cursor does not support '' @ what)"

definition set_batchSize :: "int \<Rightarrow> 'd cursor \<Rightarrow> mongoError + 'd cursor" where
  "set_batchSize v =
     set_option (\<lambda>x. if cuo_tailable x then Inl (not_on_tailable ''batchSize'') else Inr (x\<lparr>cuo_batchSize := Some v\<rparr>))"

definition find_limit :: "int \<Rightarrow> 'd cursor \<Rightarrow> mongoError + 'd cursor" where
  "find_limit v cu =
     rbind (assertUninitialized cu)
       (\<lambda>_. if cu_builtTailable cu then Inl (not_on_tailable ''limit'') else Inr (cu\<lparr>cu_limit := Some v\<rparr>))"

text \<open>\<open>rewind\<close> ends a session the cursor made for itself.\<close>

definition rewind :: "'d cursor \<Rightarrow> 'd cursor" where
  "rewind cu =
     (if \<not> cu_initialized cu then cu
      else
        (let cu1 = cu\<lparr>cu_id := None, cu_documents := [], cu_closed := False, cu_killed := False, cu_initialized := False\<rparr>
         in case cu_session cu of
              None \<Rightarrow> cu1
            | Some s \<Rightarrow>
                (if \<not> cse_explicit s \<and> \<not> cse_hasEnded s then emit (EndSession None) cu1 else cu1)\<lparr>cu_session := None\<rparr>))"


section \<open>A cursor is a list\<close>

text \<open>The fields that cleaning up leaves alone.\<close>

lemma emit_fields [simp]:
  "cu_id (emit e cu) = cu_id cu" "cu_session (emit e cu) = cu_session cu" "cu_server (emit e cu) = cu_server cu"
  "cu_documents (emit e cu) = cu_documents cu" "cu_transform (emit e cu) = cu_transform cu"
  "cu_closed (emit e cu) = cu_closed cu" "cu_options (emit e cu) = cu_options cu" "cu_isFind (emit e cu) = cu_isFind cu"
  "cu_numReturned (emit e cu) = cu_numReturned cu" "cu_limit (emit e cu) = cu_limit cu" "cu_gets (emit e cu) = cu_gets cu"
  "cu_initialized (emit e cu) = cu_initialized cu"
  by (simp_all add: emit_def)

lemma release_session_fields [simp]:
  "cu_id (release_session err cu) = cu_id cu" "cu_server (release_session err cu) = cu_server cu"
  "cu_documents (release_session err cu) = cu_documents cu" "cu_transform (release_session err cu) = cu_transform cu"
  "cu_closed (release_session err cu) = cu_closed cu" "cu_options (release_session err cu) = cu_options cu"
  "cu_isFind (release_session err cu) = cu_isFind cu" "cu_numReturned (release_session err cu) = cu_numReturned cu"
  "cu_limit (release_session err cu) = cu_limit cu" "cu_gets (release_session err cu) = cu_gets cu"
  "cu_initialized (release_session err cu) = cu_initialized cu"
  by (simp_all add: release_session_def split: option.split)

definition requested_size :: "'d cursor \<Rightarrow> int" where
  "requested_size cu = (case cuo_batchSize (cu_options cu) of Some n \<Rightarrow> (if n = 0 then 1000 else n) | None \<Rightarrow> 1000)"

text \<open>The server still has the batches \<open>bs\<close> for the coming getMores, and says so by its identifier.\<close>

definition serves :: "'d cursorEnv \<Rightarrow> nat \<Rightarrow> 'd list list \<Rightarrow> bool" where
  "serves env k bs = (\<forall>j < length bs. \<forall>size. \<exists>i. ce_getMore env (k + j) size = (None, Some (i, bs ! j))
      \<and> (i = 0 \<longleftrightarrow> Suc j = length bs))"

definition streaming :: "'d cursorEnv \<Rightarrow> 'd list list \<Rightarrow> 'd cursor \<Rightarrow> bool" where
  "streaming env bs cu =
     (\<not> cu_closed cu \<and> (\<exists>i. cu_id cu = Some (LongId i) \<and> (i = 0 \<longleftrightarrow> bs = [])) \<and> cu_server cu \<noteq> None
      \<and> serves env (cu_gets cu) bs \<and> cu_limit cu = None \<and> requested_size cu > 0)"

definition apply_transform :: "'d cursor \<Rightarrow> 'd \<Rightarrow> 'd" where
  "apply_transform cu d = (case cu_transform cu of Some f \<Rightarrow> f d | None \<Rightarrow> d)"

lemma serves_Cons:
  assumes "serves env k (b # bs)"
  shows "\<exists>i. ce_getMore env k n = (None, Some (i, b)) \<and> (i = 0 \<longleftrightarrow> bs = [])" "serves env (Suc k) bs"
proof -
  from assms have all: "\<forall>j < Suc (length bs). \<forall>n. \<exists>i. ce_getMore env (k + j) n = (None, Some (i, (b # bs) ! j))
      \<and> (i = 0 \<longleftrightarrow> j = length bs)" by (simp add: serves_def)
  from all [rule_format, of 0 n] show "\<exists>i. ce_getMore env k n = (None, Some (i, b)) \<and> (i = 0 \<longleftrightarrow> bs = [])" by auto
  show "serves env (Suc k) bs" unfolding serves_def
  proof (intro allI impI)
    fix j n assume "j < length bs"
    with all [rule_format, of "Suc j" n] show "\<exists>i. ce_getMore env (Suc k + j) n = (None, Some (i, bs ! j)) \<and> (i = 0 \<longleftrightarrow> Suc j = length bs)"
      by simp
  qed
qed

lemma getMore_streaming:
  assumes "streaming env (b # bs) cu"
  shows "\<exists>i cu1. getMore env (requested_size cu) cu = ((None, Some (i, b)), cu1) \<and> (i = 0 \<longleftrightarrow> bs = [])
    \<and> cu_gets cu1 = Suc (cu_gets cu) \<and> cu_server cu1 = cu_server cu \<and> cu_transform cu1 = cu_transform cu
    \<and> cu_closed cu1 = cu_closed cu \<and> cu_limit cu1 = cu_limit cu \<and> cu_options cu1 = cu_options cu"
proof -
  let ?n = "requested_size cu"
  from assms have s: "cu_limit cu = None" "?n > 0" "cu_server cu \<noteq> None" "serves env (cu_gets cu) (b # bs)"
    by (auto simp: streaming_def)
  obtain j where j: "cu_id cu = Some (LongId j)" using assms by (auto simp: streaming_def)
  have size: "limited_size cu ?n = ?n" using s(1) by (auto simp: limited_size_def split: option.split)
  from serves_Cons(1) [OF s(4), of ?n] obtain i where
    i: "ce_getMore env (cu_gets cu) ?n = (None, Some (i, b))" "i = 0 \<longleftrightarrow> bs = []" by blast
  show ?thesis using s(2,3) j size i by (auto simp: getMore_def)
qed

text \<open>After a clean-up of an exhausted cursor: closed if no document is left, still readable otherwise.\<close>

lemma cleanup_dead:
  assumes "cu_id cu = Some (LongId 0)"
  shows "cleanupCursor env None None cu =
    release_session None (if cu_documents cu = [] then emit CloseEvent (cu\<lparr>cu_closed := True, cu_id := Some LongZero\<rparr>) else cu)"
  using assms by (simp add: cleanupCursor_def cursorIsDead_def isZero_def)

text \<open>A call that takes the next of the remaining documents off the front.\<close>

definition pops :: "'d cursorEnv \<Rightarrow> 'd list list \<Rightarrow> 'd cursor \<Rightarrow> ((mongoError option \<times> 'd option) \<times> 'd cursor) option \<Rightarrow> bool" where
  "pops env bs cu out =
     (case cu_documents cu @ concat bs of
        [] \<Rightarrow> \<exists>cu'. out = Some ((None, None), cu') \<and> cu_closed cu'
      | d # rest \<Rightarrow> \<exists>cu' bs'. out = Some ((None, Some (apply_transform cu d)), cu') \<and> streaming env bs' cu'
          \<and> cu_documents cu' @ concat bs' = rest \<and> cu_transform cu' = cu_transform cu
          \<and> length bs' \<le> length bs \<and> (cu_documents cu = [] \<longrightarrow> length bs' < length bs))"

lemma popsI:
  assumes "cu_documents cu @ concat bs = d # rest" "out = Some ((None, Some (apply_transform cu d)), cu')"
    "streaming env bs' cu'" "cu_documents cu' @ concat bs' = rest" "cu_transform cu' = cu_transform cu"
    "length bs' \<le> length bs" "cu_documents cu = [] \<longrightarrow> length bs' < length bs"
  shows "pops env bs cu out"
  using assms unfolding pops_def by auto

lemma pops_buffered:
  assumes "streaming env bs cu" "cu_documents cu = d # ds"
  shows "pops env bs cu (cursor_next (Suc f) env True cu)"
  by (rule popsI [where bs' = bs and cu' = "cu\<lparr>cu_documents := ds\<rparr>"])
    (use assms in \<open>auto simp: streaming_def nextDocument_def apply_transform_def requested_size_def\<close>)

lemma finish_dead:
  assumes "streaming env [] cu"
  shows "case cu_documents cu of
      [] \<Rightarrow> \<exists>cu'. finish env None cu = ((None, None), cu') \<and> cu_closed cu'
    | d # ds \<Rightarrow> \<exists>cu'. finish env None cu = ((None, Some (apply_transform cu d)), cu') \<and> streaming env [] cu'
        \<and> cu_documents cu' = ds \<and> cu_transform cu' = cu_transform cu"
proof -
  from assms have i: "cu_id cu = Some (LongId 0)" by (auto simp: streaming_def)
  show ?thesis
  proof (cases "cu_documents cu")
    case Nil
    with i show ?thesis by (simp add: finish_def cleanup_dead nextDocument_def)
  next
    case (Cons d ds)
    with assms i show ?thesis
      by (auto simp: finish_def cleanup_dead nextDocument_def apply_transform_def streaming_def requested_size_def)
  qed
qed

text \<open>What fetching does once a batch has arrived.\<close>

lemma after_batch:
  assumes "streaming env bs cu2" "cu_transform cu2 = cu_transform cu" "cu_documents cu2 = b" "cu_documents cu = []"
    and "bs \<noteq> [] \<Longrightarrow> pops env bs cu2 (cursor_next f env True cu2)"
  shows "pops env (b # bs) cu (if bs = [] then Some (finish env None cu2) else cursor_next f env True cu2)"
proof -
  have tr: "apply_transform cu2 = apply_transform cu" using assms(2) by (simp add: apply_transform_def fun_eq_iff)
  show ?thesis
  proof (cases "bs = []")
    case True
    with assms(1) have "streaming env [] cu2" by simp
    from finish_dead [OF this] assms(2,3,4) True tr show ?thesis
      by (cases b) (auto simp: pops_def split: list.splits)
  next
    case False
    note p = assms(5) [OF this, unfolded pops_def assms(3) tr]
    show ?thesis
    proof (cases "b @ concat bs")
      case Nil
      then have "cu_documents cu @ concat (b # bs) = []" using assms(4) by simp
      then show ?thesis unfolding pops_def using p [unfolded Nil] False by (simp only: list.case if_False)
    next
      case (Cons d rest)
      with p obtain cu' bs' where "cursor_next f env True cu2 = Some ((None, Some (apply_transform cu d)), cu')"
        "streaming env bs' cu'" "cu_documents cu' @ concat bs' = rest" "cu_transform cu' = cu_transform cu2" "length bs' \<le> length bs"
        by auto
      with Cons assms(2,4) False show ?thesis by (intro popsI [of cu _ d rest _ cu' env bs']) auto
    qed
  qed
qed

lemma next_pops:
  "streaming env bs cu \<Longrightarrow> length bs < fuel \<Longrightarrow> pops env bs cu (cursor_next fuel env True cu)"
proof (induction bs arbitrary: cu fuel)
  case Nil
  then obtain f where f: "fuel = Suc f" by (cases fuel) auto
  show ?case
  proof (cases "cu_documents cu")
    case Nil
    with Nil.prems f show ?thesis by (auto simp: streaming_def isZero_def cleanup_dead pops_def)
  next
    case (Cons d ds)
    with Nil.prems f show ?thesis by (simp only: pops_buffered)
  qed
next
  case (Cons b bs)
  then obtain f where f: "fuel = Suc f" "length bs < f" by (cases fuel) auto
  show ?case
  proof (cases "cu_documents cu")
    case docs: (Cons d ds)
    with Cons.prems f show ?thesis by (simp only: pops_buffered)
  next
    case docs: Nil
    from getMore_streaming [OF Cons.prems(1)] obtain i cu1 where
      g: "getMore env (requested_size cu) cu = ((None, Some (i, b)), cu1)" "i = 0 \<longleftrightarrow> bs = []"
      and cu1: "cu_gets cu1 = Suc (cu_gets cu)" "cu_server cu1 = cu_server cu" "cu_transform cu1 = cu_transform cu"
      "cu_closed cu1 = cu_closed cu" "cu_limit cu1 = cu_limit cu" "cu_options cu1 = cu_options cu" by blast
    let ?cu2 = "cu1\<lparr>cu_documents := b, cu_id := Some (LongId i)\<rparr>"
    obtain k where k: "cu_id cu = Some (LongId k)" "k \<noteq> 0" "\<not> cu_closed cu" using Cons.prems(1) by (auto simp: streaming_def)
    have st2: "streaming env bs ?cu2"
      using Cons.prems(1) serves_Cons(2) [of env "cu_gets cu" b bs] cu1 g(2) by (auto simp: streaming_def requested_size_def)
    have "cursor_next fuel env True cu = (if bs = [] then Some (finish env None ?cu2) else cursor_next f env True ?cu2)"
      using f k docs g by (simp add: isZero_def cursorIsDead_def requested_size_def [symmetric])
    with after_batch [OF st2 _ _ docs, of b f] Cons.IH [OF st2 f(2)] cu1(3) show ?thesis by simp
  qed
qed

text \<open>A cursor that has not been used yet, and a server that will answer with the batches \<open>bs\<close>.\<close>

definition fresh :: "'d cursor \<Rightarrow> bool" where
  "fresh cu = (cu_id cu = None \<and> \<not> cu_closed cu \<and> cu_documents cu = [] \<and> cu_limit cu = None \<and> requested_size cu > 0)"

definition will_serve :: "'d cursorEnv \<Rightarrow> nat \<Rightarrow> 'd list list \<Rightarrow> bool" where
  "will_serve env k bs =
     (bs \<noteq> [] \<and> serves env k (tl bs)
      \<and> (\<forall>s. \<exists>st i ns. ce_init env s = (None, Some st)
           \<and> re_cursor (er_response st) = Some \<lparr>cd_id = Some i, cd_ns = ns, cd_firstBatch = hd bs\<rparr>
           \<and> (i = 0 \<longleftrightarrow> tl bs = [])))"

lemma first_pops:
  assumes "fresh cu" "will_serve env (cu_gets cu) bs" "length bs < fuel"
  shows "pops env bs cu (cursor_next fuel env True cu)"
proof -
  obtain b bs' where bs: "bs = b # bs'" using assms(2) by (cases bs) (auto simp: will_serve_def)
  obtain f where f: "fuel = Suc f" "length bs' < f" using assms(3) bs by (cases fuel) auto
  let ?cu1 = "ensure_session env cu"
  have cu1: "cu_gets ?cu1 = cu_gets cu" "cu_transform ?cu1 = cu_transform cu" "cu_closed ?cu1 = cu_closed cu"
    "cu_limit ?cu1 = cu_limit cu" "cu_options ?cu1 = cu_options cu" by (simp_all add: ensure_session_def)
  from assms(2) bs obtain st i ns where st: "ce_init env (cu_session ?cu1) = (None, Some st)"
    "re_cursor (er_response st) = Some \<lparr>cd_id = Some i, cd_ns = ns, cd_firstBatch = b\<rparr>" "i = 0 \<longleftrightarrow> bs' = []"
    by (fastforce simp: will_serve_def)
  let ?cu2 = "(initial_state st ?cu1)\<lparr>cu_initialized := True\<rparr>"
  have i2: "cu_id ?cu2 = Some (LongId i)" "cu_documents ?cu2 = b" "cu_server ?cu2 = Some (er_server st)"
    "cu_gets ?cu2 = cu_gets cu" "cu_transform ?cu2 = cu_transform cu" "cu_closed ?cu2 = cu_closed cu"
    "cu_limit ?cu2 = cu_limit cu" "cu_options ?cu2 = cu_options cu"
    using st(2) cu1 by (simp_all add: initial_state_def Let_def)
  have st2: "streaming env bs' ?cu2"
    using assms(1,2) bs i2 st(3) by (auto simp: streaming_def fresh_def will_serve_def requested_size_def)
  have "cursor_next fuel env True cu = (if bs' = [] then Some (finish env None ?cu2) else cursor_next f env True ?cu2)"
    using f assms(1) st i2(1) by (simp add: fresh_def Let_def cursorIsDead_def isZero_def)
  with after_batch [OF st2 i2(5,2), of f] next_pops [OF st2, of f] f(2) bs assms(1) show ?thesis
    by (simp add: fresh_def)
qed


section \<open>A concrete result\<close>

text \<open>
  A server that cuts 1, 2, 3 into a first batch, an empty one and a last one, and a cursor on it whose
  transform adds ten.
\<close>

definition demo_env :: "int cursorEnv" where
  "demo_env = \<lparr>ce_hasSessionSupport = True, ce_loadBalanced = False,
     ce_init = (\<lambda>s. (None, Some \<lparr>er_server = ''a'', er_session = s,
        er_response = \<lparr>re_cursor = Some \<lparr>cd_id = Some 7, cd_ns = None, cd_firstBatch = [1, 2]\<rparr>, re_cursorId = None,
          re_documents = None, re_raw = 0\<rparr>\<rparr>)),
     ce_getMore = (\<lambda>k n. (None, Some (if k = 0 then (7, []) else (0, [3]))))\<rparr>"

definition demo_cursor :: "int cursor" where
  "demo_cursor = (FindCursor_new ''db.c''
     \<lparr>aco_readPreference = None, aco_readConcern = None, aco_level = None, aco_batchSize = Some 2, aco_maxTimeMS = None,
      aco_session = None\<rparr> None False)\<lparr>cu_transform := Some (\<lambda>d. d + 10)\<rparr>"

lemmas demo_defs = demo_env_def demo_cursor_def FindCursor_new_def AbstractCursor_new_def

lemma demo_fresh: "fresh demo_cursor" "cu_gets demo_cursor = 0" "cu_transform demo_cursor = Some (\<lambda>d. d + 10)"
  "cu_documents demo_cursor = []" "\<not> cu_closed demo_cursor"
  by (simp_all add: fresh_def requested_size_def demo_defs)

lemma demo_serves: "will_serve demo_env 0 [[1, 2], [], [3]]"
  by (auto simp: will_serve_def serves_def demo_env_def less_Suc_eq)

text \<open>
  (C27) A cursor is the list of its documents.  Whatever batches a server cuts the result into, empty
  ones among them, and wherever the cursor stands, \<open>next\<close> answers with the first document not read
  yet, through the transform, and leaves the others; when none is left it answers with none and the
  cursor is closed.
\<close>

theorem cursor_reads_in_order:
  assumes "streaming env bs cu \<or> fresh cu \<and> will_serve env (cu_gets cu) bs" "length bs < fuel"
  shows "case cu_documents cu @ concat bs of
      [] \<Rightarrow> \<exists>cu'. cursor_next fuel env True cu = Some ((None, None), cu') \<and> cu_closed cu'
    | d # rest \<Rightarrow> \<exists>cu' bs'. cursor_next fuel env True cu = Some ((None, Some (apply_transform cu d)), cu')
        \<and> streaming env bs' cu' \<and> cu_documents cu' @ concat bs' = rest \<and> cu_transform cu' = cu_transform cu
        \<and> length bs' \<le> length bs"
proof -
  have p: "pops env bs cu (cursor_next fuel env True cu)"
    using next_pops [of env bs cu fuel] first_pops [of cu env bs fuel] assms by blast
  show ?thesis
  proof (cases "cu_documents cu @ concat bs")
    case Nil
    from p [unfolded pops_def Nil] show ?thesis unfolding Nil by (simp only: list.case)
  next
    case (Cons d rest)
    from p [unfolded pops_def Cons] show ?thesis unfolding Cons by (simp only: list.case) blast
  qed
qed

theorem cursor_reads_in_order_witness:
  "\<exists>cu' bs'. cursor_next 4 demo_env True demo_cursor = Some ((None, Some 11), cu') \<and> streaming demo_env bs' cu'
     \<and> cu_documents cu' @ concat bs' = [2, 3]"
  using cursor_reads_in_order [of demo_env "[[1, 2], [], [3]]" demo_cursor 4] demo_fresh demo_serves
  by (auto simp: apply_transform_def simp del: cursor_next.simps)

section \<open>Collecting\<close>

lemma transformed_map: "transformed cu ds = map (apply_transform cu) ds"
  by (cases "cu_transform cu") (simp_all add: transformed_def apply_transform_def map_idI)

lemma apply_transform_cong: "cu_transform cu' = cu_transform cu \<Longrightarrow> apply_transform cu' = apply_transform cu"
  by (simp add: apply_transform_def fun_eq_iff)

text \<open>One round of the loop, from any cursor that pops.\<close>

lemma toArray_round:
  assumes "pops env bs cu (cursor_next (Suc f) env True cu)"
    and "\<And>bs' cu' acc'. streaming env bs' cu' \<Longrightarrow> cu_documents cu' = [] \<Longrightarrow> cu_transform cu' = cu_transform cu \<Longrightarrow>
      length bs' \<le> length bs \<Longrightarrow> (cu_documents cu = [] \<longrightarrow> length bs' < length bs) \<Longrightarrow>
      \<exists>cu''. toArray_loop f env acc' cu' = Some (Inr (acc' @ map (apply_transform cu) (concat bs')), cu'') \<and> cu_closed cu''"
  shows "\<exists>cu''. toArray_loop (Suc f) env acc cu = Some (Inr (acc @ map (apply_transform cu) (cu_documents cu @ concat bs)), cu'')
    \<and> cu_closed cu''"
proof (cases "cu_documents cu @ concat bs")
  case Nil
  with assms(1) show ?thesis by (auto simp: pops_def)
next
  case (Cons d rest)
  with assms(1) obtain cu' bs' where n: "cursor_next (Suc f) env True cu = Some ((None, Some (apply_transform cu d)), cu')"
    and s: "streaming env bs' cu'" "cu_documents cu' @ concat bs' = rest" "cu_transform cu' = cu_transform cu"
    "length bs' \<le> length bs" "cu_documents cu = [] \<longrightarrow> length bs' < length bs"
    by (auto simp: pops_def)
  let ?cu = "cu'\<lparr>cu_documents := []\<rparr>"
  have "streaming env bs' ?cu" using s(1) by (simp add: streaming_def requested_size_def)
  from assms(2) [OF this _ _ s(4,5), of "acc @ apply_transform cu d # transformed cu (cu_documents cu')"] s(3)
  obtain cu'' where "toArray_loop f env (acc @ apply_transform cu d # transformed cu (cu_documents cu')) ?cu
      = Some (Inr ((acc @ apply_transform cu d # transformed cu (cu_documents cu')) @ map (apply_transform cu) (concat bs')), cu'')"
    "cu_closed cu''" by auto
  moreover have "(acc @ apply_transform cu d # transformed cu (cu_documents cu')) @ map (apply_transform cu) (concat bs')
      = acc @ map (apply_transform cu) (d # rest)"
    using s(2) by (simp add: transformed_map flip: map_append)
  ultimately show ?thesis using n Cons by (simp del: cursor_next.simps)
qed

lemma toArray_streaming:
  "streaming env bs cu \<Longrightarrow> cu_documents cu = [] \<Longrightarrow> length bs < fuel \<Longrightarrow>
     \<exists>cu'. toArray_loop fuel env acc cu = Some (Inr (acc @ map (apply_transform cu) (concat bs)), cu') \<and> cu_closed cu'"
proof (induction fuel arbitrary: bs cu acc)
  case (Suc f)
  have "\<exists>cu''. toArray_loop f env acc' cu' = Some (Inr (acc' @ map (apply_transform cu) (concat bs')), cu'') \<and> cu_closed cu''"
    if "streaming env bs' cu'" "cu_documents cu' = []" "cu_transform cu' = cu_transform cu"
      "cu_documents cu = [] \<longrightarrow> length bs' < length bs" for bs' cu' acc'
    using Suc.IH [OF that(1,2), of acc'] that(3,4) Suc.prems(2,3) apply_transform_cong [OF that(3)] by simp
  then have "\<exists>cu'. toArray_loop (Suc f) env acc cu = Some (Inr (acc @ map (apply_transform cu) (cu_documents cu @ concat bs)), cu') \<and> cu_closed cu'"
    by (intro toArray_round next_pops [OF Suc.prems(1,3)]) blast
  then show ?case by (simp only: Suc.prems(2) append_Nil)
qed simp

text \<open>
  \<open>toArray\<close> returns the whole result: called on an unused cursor it returns, in order, all
  documents of all batches the server sends, through the transform, and closes the cursor; the
  number of batches plus two is enough fuel.
\<close>

theorem toArray_collects:
  assumes "fresh cu" "will_serve env (cu_gets cu) bs"
  shows "\<exists>cu'. toArray (length bs + 2) env cu = Some (Inr (map (apply_transform cu) (concat bs)), cu') \<and> cu_closed cu'"
proof -
  have "pops env bs cu (cursor_next (Suc (length bs + 1)) env True cu)" using first_pops [OF assms, of "length bs + 2"] by simp
  moreover have "\<exists>cu''. toArray_loop (length bs + 1) env acc' cu' = Some (Inr (acc' @ map (apply_transform cu) (concat bs')), cu'') \<and> cu_closed cu''"
    if "streaming env bs' cu'" "cu_documents cu' = []" "cu_transform cu' = cu_transform cu" "length bs' \<le> length bs" for bs' cu' acc'
    using toArray_streaming [OF that(1,2), of "length bs + 1" acc'] that(4) apply_transform_cong [OF that(3)] by simp
  ultimately have "\<exists>cu''. toArray_loop (Suc (length bs + 1)) env [] cu = Some (Inr ([] @ map (apply_transform cu) (cu_documents cu @ concat bs)), cu'')
    \<and> cu_closed cu''" by (rule toArray_round)
  moreover have "cu_documents cu = []" using assms(1) by (simp add: fresh_def)
  ultimately show ?thesis by (simp add: toArray_def)
qed

theorem toArray_collects_witness:
  "\<exists>cu'. toArray 5 demo_env demo_cursor = Some (Inr [11, 12, 13], cu') \<and> cu_closed cu'"
  using toArray_collects [of demo_cursor demo_env "[[1, 2], [], [3]]"] demo_fresh demo_serves
  by (simp add: apply_transform_def eval_nat_numeral)

text \<open>
  \<open>hasNext\<close> and a transform do not go together: on a cursor with a transform that has to fetch,
  \<open>hasNext\<close> puts the transformed document back, so the document the following \<open>next\<close> returns has been
  transformed twice.
\<close>

theorem hasNext_transforms_twice:
  assumes "fresh cu" "will_serve env (cu_gets cu) bs" "concat bs = d # rest" "cu_transform cu = Some t" "length bs < fuel"
  shows "\<exists>cu1 cu2. hasNext fuel env cu = Some (Inr True, cu1) \<and> next_doc fuel env cu1 = Some ((None, Some (t (t d))), cu2)"
proof -
  have "pops env bs cu (cursor_next fuel env True cu)" by (rule first_pops [OF assms(1,2,5)])
  moreover have e: "cu_documents cu = []" "cu_id cu = None" using assms(1) by (simp_all add: fresh_def)
  ultimately obtain cu' bs' where n: "cursor_next fuel env True cu = Some ((None, Some (t d)), cu')"
    "streaming env bs' cu'" "cu_transform cu' = Some t"
    using assms(3,4) by (auto simp: pops_def apply_transform_def)
  let ?cu1 = "cu'\<lparr>cu_documents := t d # cu_documents cu'\<rparr>"
  have "hasNext fuel env cu = Some (Inr True, ?cu1)" using n(1) e by (simp add: hasNext_def)
  moreover obtain f where "fuel = Suc f" using assms(5) by (cases fuel) auto
  then have "next_doc fuel env ?cu1 = Some ((None, Some (t (t d))), cu')"
    using n(2,3) by (auto simp: next_doc_def next_op_def streaming_def nextDocument_def)
  ultimately show ?thesis by blast
qed


theorem hasNext_transforms_twice_witness:
  "\<exists>cu1 cu2. hasNext 4 demo_env demo_cursor = Some (Inr True, cu1) \<and> next_doc 4 demo_env cu1 = Some ((None, Some 21), cu2)"
  using hasNext_transforms_twice [of demo_cursor demo_env "[[1, 2], [], [3]]" 1 "[2, 3]" "\<lambda>d. d + 10" 4] demo_fresh demo_serves
  by simp

section \<open>Sessions and limits\<close>

definition released :: "'d cursor \<Rightarrow> bool" where
  "released cu = (case cu_session cu of None \<Rightarrow> True | Some s \<Rightarrow> cse_owned s \<longrightarrow> cse_hasEnded s)"

lemma released_simps [simp]:
  "released (emit e cu) = released cu" "released (cu\<lparr>cu_documents := ds\<rparr>) = released cu"
  "released (cu\<lparr>cu_closed := b\<rparr>) = released cu" "released (cu\<lparr>cu_id := i\<rparr>) = released cu" "released (release_session err cu)"
  by (auto simp: released_def emit_def release_session_def split: option.splits)

lemma cleanup_released: "released (cleanupCursor env err needs cu)"
  by (simp add: cleanupCursor_def completeCleanup_def Let_def)

lemma finish_released: "finish env err cu = (r, cu') \<Longrightarrow> released cu' \<and> (fst r = err)"
  using cleanup_released [of env err None cu]
  by (auto simp: finish_def nextDocument_def split: list.splits prod.splits)

lemma getMore_closed:
  assumes "getMore env n cu = (r, cu')" "\<not> cu_closed cu" "cu_closed cu'"
  shows "released cu'"
  using assms cleanup_released [of env None "Some True" "cu\<lparr>cu_closed := True\<rparr>"]
  by (auto simp: getMore_def Let_def cursor_close_def split: if_splits option.splits prod.splits)

lemma next_released:
  "cursor_next fuel env True cu = Some ((err, doc), cu') \<Longrightarrow> (cu_closed cu \<longrightarrow> released cu) \<Longrightarrow> (doc = None \<or> err \<noteq> None) \<Longrightarrow> released cu'"
proof (induction fuel arbitrary: cu)
  case (Suc f)
  consider "cu_closed cu" | "\<not> cu_closed cu" "cu_documents cu \<noteq> []" | "\<not> cu_closed cu" "cu_documents cu = []" by blast
  then show ?case
  proof cases
    case 1 with Suc.prems show ?thesis by simp
  next
    case 2 with Suc.prems show ?thesis by (auto simp: nextDocument_def split: list.splits)
  next
    case fetch: 3
    show ?thesis
    proof (cases "cu_id cu")
      case None
      obtain e st where init: "ce_init env (cu_session (ensure_session env cu)) = (e, st)" by (cases "ce_init env (cu_session (ensure_session env cu))")
      let ?cu2 = "(case st of Some s \<Rightarrow> initial_state s (ensure_session env cu) | None \<Rightarrow> ensure_session env cu)\<lparr>cu_initialized := True\<rparr>"
      have "\<not> cu_closed ?cu2" using fetch(1) by (simp add: initial_state_def ensure_session_def Let_def split: option.split)
      with Suc.IH [of ?cu2] Suc.prems fetch None init finish_released [of env e ?cu2 "(err, doc)" cu'] show ?thesis
        by (simp add: Let_def split: if_splits)
    next
      case (Some i)
      show ?thesis
      proof (cases "isZero i")
        case True
        with Suc.prems fetch Some cleanup_released [of env None None cu] show ?thesis by auto
      next
        case False
        obtain e reply cu1 where g: "getMore env (requested_size cu) cu = ((e, reply), cu1)" by (metis prod.exhaust)
        let ?cu2 = "case reply of Some (j, ds) \<Rightarrow> cu1\<lparr>cu_documents := ds, cu_id := Some (LongId j)\<rparr> | None \<Rightarrow> cu1"
        have "cu_closed ?cu2 \<longrightarrow> released ?cu2"
          using getMore_closed [OF g fetch(1)] by (auto split: option.splits prod.splits)
        with Suc.IH [of ?cu2] Suc.prems fetch Some False g finish_released [of env e ?cu2 "(err, doc)" cu'] show ?thesis
          by (simp add: requested_size_def Let_def split: if_splits)
      qed
    qed
  qed
qed simp

text \<open>
  A session that a cursor made for itself does not leak: when \<open>next\<close> answers with no document or
  with an error, whatever the server replied on the way, the session the cursor owns has been ended.
\<close>

theorem cursor_ends_session:
  assumes "cursor_next fuel env True cu = Some ((err, doc), cu')" "\<not> cu_closed cu" "doc = None \<or> err \<noteq> None"
  shows "released cu'"
  using next_released [OF assms(1)] assms(2,3) by blast

theorem cursor_ends_session_witness:
  "\<exists>cu'. cursor_next 1 (demo_env\<lparr>ce_init := (\<lambda>_. (Some exhausted, None))\<rparr>) True demo_cursor = Some ((Some exhausted, None), cu')
     \<and> released cu' \<and> cu_session cu' \<noteq> None"
proof -
  have "\<exists>cu'. cursor_next (Suc 0) (demo_env\<lparr>ce_init := (\<lambda>_. (Some exhausted, None))\<rparr>) True demo_cursor = Some ((Some exhausted, None), cu')
     \<and> cu_session cu' \<noteq> None"
    by (simp add: demo_defs ensure_session_def finish_def cleanupCursor_def nextDocument_def Let_def release_session_def emit_def)
  then show ?thesis using cursor_ends_session [OF _ demo_fresh(5)] by (metis One_nat_def option.distinct(1))
qed

text \<open>
  A find cursor respects its limit once documents have come: no getMore asks for more documents
  than the limit leaves, so a server that sends at most what it is asked for never takes the count
  past the limit, and when the limit is reached no getMore is sent: the cursor is closed.
\<close>

theorem limit_respected:
  assumes "cu_isFind cu" "cu_limit cu = Some l" "cu_numReturned cu = Some n" "0 < n" "n \<le> l" "0 < b"
    and sends: "\<And>k m e j ds. ce_getMore env k m = (e, Some (j, ds)) \<Longrightarrow> 0 < m \<Longrightarrow> int (length ds) \<le> m"
    and call: "getMore env b cu = (r, cu')"
  shows "(\<exists>n'. cu_numReturned cu' = Some n' \<and> n \<le> n' \<and> n' \<le> l)
    \<and> (n = l \<longrightarrow> r = (None, None) \<and> cu_closed cu' \<and> cu_gets cu' = cu_gets cu)"
proof -
  have ls: "limited_size cu b = (if n + b > l then l - n else b)" "n + limited_size cu b \<le> l"
    using assms(2-6) by (auto simp: limited_size_def)
  have t: "truthy_num (cu_numReturned cu)" using assms(3,4) by (simp add: truthy_num_def)
  have cl: "cu_numReturned (cursor_close env cu) = cu_numReturned cu" "cu_closed (cursor_close env cu)" "cu_gets (cursor_close env cu) = cu_gets cu"
    by (simp_all add: cursor_close_def cleanupCursor_def completeCleanup_def Let_def)
  have "\<exists>n'. cu_numReturned cu' = Some n' \<and> n \<le> n' \<and> n' \<le> l"
    using call ls(2) t cl assms(1,3,5) sends [of "cu_gets cu" "limited_size cu b"]
    by (fastforce simp: getMore_def Let_def split: if_splits option.splits prod.splits)
  moreover have "n = l \<Longrightarrow> r = (None, None) \<and> cu_closed cu' \<and> cu_gets cu' = cu_gets cu"
    using call ls(1) t cl assms(6) by (auto simp: getMore_def)
  ultimately show ?thesis by blast
qed

theorem limit_respected_witness:
  "\<exists>n'. cu_numReturned (snd (getMore (demo_env\<lparr>ce_getMore := (\<lambda>k n. (None, Some (7, take (nat n) [3, 4])))\<rparr>) 2
      (demo_cursor\<lparr>cu_limit := Some 3, cu_numReturned := Some 2, cu_id := Some (LongId 7), cu_server := Some ''a''\<rparr>))) = Some n' \<and> n' \<le> 3"
proof -
  let ?env = "demo_env\<lparr>ce_getMore := (\<lambda>k n. (None, Some (7, take (nat n) [3, 4])))\<rparr>"
  let ?cu = "demo_cursor\<lparr>cu_limit := Some 3, cu_numReturned := Some 2, cu_id := Some (LongId 7), cu_server := Some ''a''\<rparr>"
  have sends: "int (length ds) \<le> m" if "ce_getMore ?env k m = (e, Some (j, ds))" "m > 0" for k m e j ds
    using that by auto
  have "cu_isFind ?cu" by (simp add: demo_defs)
  obtain r cu' where call: "getMore ?env 2 ?cu = (r, cu')" by (metis prod.exhaust)
  have "(\<exists>n'. cu_numReturned cu' = Some n' \<and> 2 \<le> n' \<and> n' \<le> 3) \<and> ((2::int) = 3 \<longrightarrow> r = (None, None) \<and> cu_closed cu' \<and> cu_gets cu' = cu_gets ?cu)"
    by (rule limit_respected [OF \<open>cu_isFind ?cu\<close> _ _ _ _ _ sends call]) simp_all
  then show ?thesis unfolding call by auto
qed

end
