(* ===== verification/Documents.thy ===== *)
theory Documents
  imports Utils
begin

text \<open>
  The dynamically typed values that options, filters and commands are made of, with the parts of the
  language the driver uses on them: property access, assignment and spreading, \<open>typeof\<close> tests,
  truthiness and conversion to a string; and \<open>src/sort.ts\<close>, which normalises sort specifications.
  A document is the list of its properties in order; the special order of integer-like property names
  is not modelled.
\<close>

section \<open>Values\<close>

datatype jsval = JUndef | JNull | JBool bool | JNum int | JNaN | JStr string | JArr "jsval list"
  | JDoc "(string \<times> jsval) list" | JMap "(string \<times> jsval) list" | JObjectId string | JFun string | JCode string

type_synonym doc = "(string, jsval) jsmap"

text \<open>\<open>d.k\<close>, \<open>d.k = v\<close> under a condition, and \<open>{...a, ...b}\<close>.\<close>

definition fld :: "string \<Rightarrow> doc \<Rightarrow> jsval" where
  "fld k d = (case map_of d k of Some v \<Rightarrow> v | None \<Rightarrow> JUndef)"

definition set_if :: "bool \<Rightarrow> string \<Rightarrow> jsval \<Rightarrow> doc \<Rightarrow> doc" where
  "set_if c k v d = (if c then map_set k v d else d)"

definition assign :: "doc \<Rightarrow> doc \<Rightarrow> doc" where
  "assign a b = fold (\<lambda>(k, v). map_set k v) b a"

fun truthy :: "jsval \<Rightarrow> bool" where
  "truthy JUndef = False"
| "truthy JNull = False"
| "truthy (JBool b) = b"
| "truthy (JNum n) = (n \<noteq> 0)"
| "truthy JNaN = False"
| "truthy (JStr s) = (s \<noteq> [])"
| "truthy _ = True"

definition nullish :: "jsval \<Rightarrow> bool" where
  "nullish v = (v = JUndef \<or> v = JNull)"

fun is_number :: "jsval \<Rightarrow> bool" where
  "is_number (JNum _) = True"
| "is_number JNaN = True"
| "is_number _ = False"

fun is_boolean :: "jsval \<Rightarrow> bool" where
  "is_boolean (JBool _) = True"
| "is_boolean _ = False"

fun is_string :: "jsval \<Rightarrow> bool" where
  "is_string (JStr _) = True"
| "is_string _ = False"

fun is_function :: "jsval \<Rightarrow> bool" where
  "is_function (JFun _) = True"
| "is_function _ = False"

text \<open>\<open>v != null && typeof v === 'object'\<close>.\<close>

definition is_object :: "jsval \<Rightarrow> bool" where
  "is_object v = (\<not> nullish v \<and> \<not> is_boolean v \<and> \<not> is_number v \<and> \<not> is_string v \<and> \<not> is_function v)"

text \<open>The own enumerable properties; a \<open>Map\<close> has none, an identifier keeps its bytes behind symbols.\<close>

fun props_of :: "jsval \<Rightarrow> doc" where
  "props_of (JDoc d) = d"
| "props_of (JArr vs) = map (\<lambda>(i, v). (show_nat i, v)) (enumerate 0 vs)"
| "props_of _ = []"

definition get_prop :: "string \<Rightarrow> jsval \<Rightarrow> jsval" where
  "get_prop k v = fld k (props_of v)"

text \<open>The conversion of template literals; \<open>null\<close> and \<open>undefined\<close> are empty inside an array.\<close>

fun js_show :: "jsval \<Rightarrow> string" where
  "js_show JUndef = ''undefined''"
| "js_show JNull = ''null''"
| "js_show (JBool b) = (if b then ''true'' else ''false'')"
| "js_show (JNum n) = show_int n"
| "js_show JNaN = ''NaN''"
| "js_show (JStr s) = s"
| "js_show (JArr vs) = join_with '','' (map (\<lambda>v. if nullish v then [] else js_show v) vs)"
| "js_show (JDoc _) = ''[object Object]''"
| "js_show (JMap _) = ''[object Map]''"
| "js_show (JObjectId h) = h"
| "js_show (JFun s) = s"
| "js_show (JCode s) = ''[object Object]''"

text \<open>Typed readings of a value, and the error made of a server's reply.\<close>

definition num_of :: "jsval \<Rightarrow> int option" where
  "num_of v = (case v of JNum n \<Rightarrow> Some n | _ \<Rightarrow> None)"

definition bool_of :: "jsval \<Rightarrow> bool option" where
  "bool_of v = (case v of JBool b \<Rightarrow> Some b | _ \<Rightarrow> None)"

definition str_of :: "jsval \<Rightarrow> string option" where
  "str_of v = (case v of JStr s \<Rightarrow> Some s | _ \<Rightarrow> None)"

definition strs_of :: "jsval \<Rightarrow> string list option" where
  "strs_of v = (case v of JArr vs \<Rightarrow> Some (map js_show vs) | _ \<Rightarrow> None)"

definition error_description :: "jsval \<Rightarrow> errorDescription" where
  "error_description v =
     \<lparr>ed_message = str_of (get_prop ''message'' v), ed_errmsg = str_of (get_prop ''errmsg'' v),
      ed_err = str_of (get_prop ''$err'' v), ed_errorLabels = strs_of (get_prop ''errorLabels'' v),
      ed_code = num_of (get_prop ''code'' v), ed_codeName = str_of (get_prop ''codeName'' v), ed_topologyVersion = None,
      ed_wceCode = num_of (get_prop ''code'' (get_prop ''writeConcernError'' v))\<rparr>"

definition server_error :: "jsval \<Rightarrow> mongoError" where
  "server_error v = MongoServerError_new (error_description v)"

lemma fld_simps [simp]: "fld k [] = JUndef" "fld k ((j, v) # d) = (if j = k then v else fld k d)"
  by (simp_all add: fld_def)

lemma fld_map_set [simp]: "fld j (map_set k v d) = (if j = k then v else fld j d)"
  by (induction d) auto

lemma fld_set_if [simp]: "fld j (set_if c k v d) = (if c \<and> j = k then v else fld j d)"
  by (simp add: set_if_def)

section \<open>Sort specifications\<close>

definition isMeta :: "jsval \<Rightarrow> bool" where
  "isMeta t = (case t of JDoc d \<Rightarrow> is_string (fld ''$meta'' d) | _ \<Rightarrow> False)"

definition prepareDirection :: "jsval \<Rightarrow> mongoError + jsval" where
  "prepareDirection d =
     (let direction = (if d = JUndef then JNum 1 else d); value = toLowerCase (js_show direction)
      in if isMeta direction then Inr direction
         else if value \<in> {''ascending'', ''asc'', ''1''} then Inr (JNum 1)
         else if value \<in> {''descending'', ''desc'', ''-1''} then Inr (JNum (-1))
         else Inl (invalid_argument ''Invalid sort direction''))"

definition isPair :: "jsval list \<Rightarrow> bool" where
  "isPair t = (length t = 2 \<and> (case prepareDirection (t ! 1) of Inr _ \<Rightarrow> True | Inl _ \<Rightarrow> False))"

definition isDeep :: "jsval list \<Rightarrow> bool" where
  "isDeep t = (case t of JArr _ # _ \<Rightarrow> True | _ \<Rightarrow> False)"

text \<open>\<open>new Map(entries)\<close>: a repeated key keeps its place and takes the last value.\<close>

definition new_Map :: "(string \<times> jsval) list \<Rightarrow> doc" where
  "new_Map entries = assign [] entries"

fun sort_entries :: "(string \<times> jsval) list \<Rightarrow> mongoError + (string \<times> jsval) list" where
  "sort_entries [] = Inr []"
| "sort_entries ((k, v) # es) = rbind (prepareDirection v) (\<lambda>d. rbind (sort_entries es) (\<lambda>r. Inr ((k, d) # r)))"

text \<open>The destructuring \<open>[k, v]\<close> of an element: arrays and strings are iterable, so are maps.\<close>

fun destruct_pair :: "jsval \<Rightarrow> mongoError + (string \<times> jsval)" where
  "destruct_pair (JArr vs) = Inr (js_show (case vs of [] \<Rightarrow> JUndef | k # _ \<Rightarrow> k), (case vs of _ # v # _ \<Rightarrow> v | _ \<Rightarrow> JUndef))"
| "destruct_pair (JStr s) = Inr (js_show (case s of [] \<Rightarrow> JUndef | c # _ \<Rightarrow> JStr [c]), (case s of _ # c # _ \<Rightarrow> JStr [c] | _ \<Rightarrow> JUndef))"
| "destruct_pair (JMap m) =
     Inr (js_show (case m of [] \<Rightarrow> JUndef | (k, v) # _ \<Rightarrow> JArr [JStr k, v]), (case m of _ # (k, v) # _ \<Rightarrow> JArr [JStr k, v] | _ \<Rightarrow> JUndef))"
| "destruct_pair _ = Inl (js_type_error ''object is not iterable'')"

fun deep_entries :: "jsval list \<Rightarrow> mongoError + (string \<times> jsval) list" where
  "deep_entries [] = Inr []"
| "deep_entries (v # vs) =
     rbind (destruct_pair v) (\<lambda>(k, d). rbind (prepareDirection d) (\<lambda>x. rbind (deep_entries vs) (\<lambda>r. Inr ((k, x) # r))))"

definition pairToMap :: "jsval list \<Rightarrow> mongoError + doc" where
  "pairToMap t = rbind (prepareDirection (JArr [t ! 1])) (\<lambda>d. Inr [(js_show (t ! 0), d)])"

definition deepToMap :: "jsval list \<Rightarrow> mongoError + doc" where
  "deepToMap t = rbind (deep_entries t) (\<lambda>es. Inr (new_Map es))"

definition stringsToMap :: "jsval list \<Rightarrow> doc" where
  "stringsToMap t = new_Map (map (\<lambda>k. (js_show k, JNum 1)) t)"

definition objectToMap :: "doc \<Rightarrow> mongoError + doc" where
  "objectToMap t = rbind (sort_entries t) (\<lambda>es. Inr (new_Map es))"

definition mapToMap :: "doc \<Rightarrow> mongoError + doc" where
  "mapToMap t = rbind (sort_entries t) (\<lambda>es. Inr (new_Map es))"

definition isMap :: "jsval \<Rightarrow> bool" where
  "isMap t = (case t of JMap m \<Rightarrow> m \<noteq> [] | _ \<Rightarrow> False)"

definition formatSort :: "jsval \<Rightarrow> jsval \<Rightarrow> mongoError + doc option" where
  "formatSort s direction =
     (if nullish s then Inr None
      else (case s of
        JStr k \<Rightarrow> rbind (prepareDirection direction) (\<lambda>d. Inr (Some [(k, d)]))
      | JArr vs \<Rightarrow>
          if vs = [] then Inr None
          else if isDeep vs then rbind (deepToMap vs) (\<lambda>m. Inr (Some m))
          else if isPair vs then rbind (pairToMap vs) (\<lambda>m. Inr (Some m))
          else Inr (Some (stringsToMap vs))
      | _ \<Rightarrow>
          if \<not> is_object s then Inl (invalid_argument ''Invalid sort format: Sort must be a valid object'')
          else (case s of
                  JMap m \<Rightarrow> if isMap s then rbind (mapToMap m) (\<lambda>x. Inr (Some x)) else Inr None
                | _ \<Rightarrow> if props_of s \<noteq> [] then rbind (objectToMap (props_of s)) (\<lambda>x. Inr (Some x)) else Inr None)))"

section \<open>What a sort specification becomes\<close>

text \<open>A direction the server understands.\<close>

definition command_direction :: "jsval \<Rightarrow> bool" where
  "command_direction v = (v = JNum 1 \<or> v = JNum (-1) \<or> isMeta v)"

lemma show_unit_direction: "toLowerCase (show_int 1) = ''1''" "toLowerCase (show_int (-1)) = ''-1''"
  by code_simp+

lemma prepared: "prepareDirection v = Inr d \<Longrightarrow> command_direction d"
  by (auto simp: prepareDirection_def command_direction_def Let_def split: if_splits)

lemma prepare_fixed: "command_direction d \<Longrightarrow> prepareDirection d = Inr d"
  by (auto simp: prepareDirection_def command_direction_def isMeta_def show_unit_direction)

text \<open>The shape of a prepared sort: not empty, no key twice, and every direction one the server knows.\<close>

definition prepared_sort :: "doc \<Rightarrow> bool" where
  "prepared_sort m = (m \<noteq> [] \<and> map_wf m \<and> (\<forall>e\<in>set m. command_direction (snd e)))"

lemma set_map_set: "set (map_set k v m) \<subseteq> insert (k, v) (set m)"
  by (induction m) (auto split: if_splits)

lemma map_set_not_empty [simp]: "map_set k v m \<noteq> []"
  by (cases m) (auto split: if_splits)

lemma assign_prepared:
  assumes "\<forall>e\<in>set es. command_direction (snd e)" "map_wf m" "\<forall>e\<in>set m. command_direction (snd e)" "es \<noteq> [] \<or> m \<noteq> []"
  shows "prepared_sort (assign m es)"
  using assms
proof (induction es arbitrary: m)
  case Nil
  then show ?case by (simp add: assign_def prepared_sort_def)
next
  case (Cons e es)
  obtain k v where e: "e = (k, v)" by (cases e)
  have "assign m (e # es) = assign (map_set k v m) es" by (simp add: assign_def e)
  moreover have "map_wf (map_set k v m)" using Cons.prems(2) by (simp add: jm.wf_upd)
  moreover have "\<forall>x\<in>set (map_set k v m). command_direction (snd x)"
    using Cons.prems(1,3) e set_map_set [of k v m] by (auto simp del: insert_iff)
  ultimately show ?case using Cons.IH [of "map_set k v m"] Cons.prems(1) by simp
qed

lemma new_Map_prepared:
  "es \<noteq> [] \<Longrightarrow> \<forall>e\<in>set es. command_direction (snd e) \<Longrightarrow> prepared_sort (new_Map es)"
  unfolding new_Map_def by (rule assign_prepared) (simp_all add: map_wf_def map_keys_def)

lemma assign_fresh: "distinct (map fst (m @ es)) \<Longrightarrow> assign m es = m @ es"
proof (induction es arbitrary: m)
  case (Cons e es)
  obtain k v where e: "e = (k, v)" by (cases e)
  have "k \<notin> set (map fst m)" using Cons.prems e by auto
  then have "map_set k v m = m @ [(k, v)]" by (induction m) auto
  then show ?case using Cons.IH [of "m @ [e]"] Cons.prems by (simp add: assign_def e)
qed (simp add: assign_def)

lemma sort_entries_directions:
  "sort_entries es = Inr r \<Longrightarrow> (\<forall>e\<in>set r. command_direction (snd e)) \<and> map fst r = map fst es"
proof (induction es arbitrary: r)
  case (Cons e es)
  obtain k v where e: "e = (k, v)" by (cases e)
  from Cons.prems e obtain d r' where "prepareDirection v = Inr d" "sort_entries es = Inr r'" "r = (k, d) # r'"
    by (auto simp: rbind_Inr_iff)
  then show ?case using Cons.IH [of r'] e prepared [of v d] by simp
qed simp

lemma deep_entries_directions:
  "deep_entries vs = Inr r \<Longrightarrow> (\<forall>e\<in>set r. command_direction (snd e)) \<and> length r = length vs"
proof (induction vs arbitrary: r)
  case (Cons v vs)
  from Cons.prems obtain k x d r' where "destruct_pair v = Inr (k, x)" "prepareDirection x = Inr d" "deep_entries vs = Inr r'" "r = (k, d) # r'"
    by (auto simp: rbind_Inr_iff)
  then show ?case using Cons.IH [of r'] prepared [of x d] by simp
qed simp

lemma sort_entries_fixed: "\<forall>e\<in>set es. command_direction (snd e) \<Longrightarrow> sort_entries es = Inr es"
  by (induction es) (auto simp: prepare_fixed)

lemma formatSort_prepared: "formatSort s d = Inr (Some m) \<Longrightarrow> prepared_sort m"
proof -
  have one: "prepared_sort [(k, v)]" if "command_direction v" for k v
    using that by (simp add: prepared_sort_def map_wf_def map_keys_def)
  have obj: "prepared_sort (new_Map r)" if "sort_entries es = Inr r" "es \<noteq> []" for es r
    using sort_entries_directions [OF that(1)] that(2) by (intro new_Map_prepared) auto
  have deep: "prepared_sort (new_Map r)" if "deep_entries vs = Inr r" "vs \<noteq> []" for vs r
    using deep_entries_directions [OF that(1)] that(2) by (intro new_Map_prepared) auto
  have strs: "prepared_sort (stringsToMap vs)" if "vs \<noteq> []" for vs
    unfolding stringsToMap_def by (rule new_Map_prepared) (use that in \<open>auto simp: command_direction_def\<close>)
  assume "formatSort s d = Inr (Some m)"
  then show ?thesis
    by (cases s) (auto simp: formatSort_def rbind_Inr_iff pairToMap_def deepToMap_def objectToMap_def mapToMap_def isMap_def
        split: if_splits dest: prepared intro: one obj deep strs)
qed

text \<open>
  A sort specification is normalised once and for all: whatever form it was given in, the result has
  at least one key, none twice, and only directions the server knows; and since cursor and command
  both normalise, the second time changes nothing.
\<close>

theorem formatSort_idempotent:
  assumes "formatSort s d = Inr (Some m)"
  shows "prepared_sort m \<and> formatSort (JMap m) d' = Inr (Some m)"
proof -
  have p: "prepared_sort m" by (rule formatSort_prepared [OF assms])
  then have "sort_entries m = Inr m" by (intro sort_entries_fixed) (simp add: prepared_sort_def)
  moreover have "new_Map m = m" using p assign_fresh [of "[]" m]
    by (simp add: new_Map_def prepared_sort_def map_wf_def map_keys_def)
  ultimately show ?thesis using p
    by (simp add: formatSort_def nullish_def is_object_def isMap_def prepared_sort_def mapToMap_def)
qed

theorem formatSort_idempotent_witness:
  "formatSort (JArr [JArr [JStr ''a'', JStr ''desc''], JArr [JStr ''b'', JNum 1]]) JUndef = Inr (Some [(''a'', JNum (-1)), (''b'', JNum 1)])
   \<and> formatSort (JMap [(''a'', JNum (-1)), (''b'', JNum 1)]) JUndef = Inr (Some [(''a'', JNum (-1)), (''b'', JNum 1)])"
proof -
  have "formatSort (JArr [JArr [JStr ''a'', JStr ''desc''], JArr [JStr ''b'', JNum 1]]) JUndef = Inr (Some [(''a'', JNum (-1)), (''b'', JNum 1)])"
    by code_simp
  then show ?thesis using formatSort_idempotent [of "JArr [JArr [JStr ''a'', JStr ''desc''], JArr [JStr ''b'', JNum 1]]" JUndef] by blast
qed

text \<open>
  A pair of a key and a text score direction is recognised as a pair and then refused: the direction
  is wrapped in an array before it is looked at, so that it is no longer an object with \<open>$meta\<close>.  The
  same direction inside an object is accepted.
\<close>

theorem meta_pair_refused:
  "\<exists>e. isPair [JStr k, JDoc [(''$meta'', JStr m)]] \<and> formatSort (JArr [JStr k, JDoc [(''$meta'', JStr m)]]) d = Inl e
     \<and> formatSort (JDoc [(k, JDoc [(''$meta'', JStr m)])]) d = Inr (Some [(k, JDoc [(''$meta'', JStr m)])])"
proof -
  have obj: "toLowerCase ''[object Object]'' = ''[object object]''" by code_simp
  then show ?thesis
    by (simp add: formatSort_def isPair_def prepareDirection_def isMeta_def nullish_def isDeep_def pairToMap_def
        is_object_def objectToMap_def new_Map_def assign_def)
qed

end
