(* ===== verification/Commands.thy ===== *)
theory Commands
  imports Documents Execute_Operation
begin

text \<open>
  \<open>src/operations/\<close>: how the operations turn their options into the command that is sent, with
  \<open>src/explain.ts\<close> and the helpers of \<open>src/utils.ts\<close> they share.  An operation ends in the request it
  makes of the server, or in the error its callback gets; sending is theory \<open>Server\<close>.  The session
  is present through the one question asked of it, whether it is in a transaction; the serialisation
  options, the read preference and the session that travel beside a command are left out.
\<close>

section \<open>Explain\<close>

definition Explain_new :: "jsval \<Rightarrow> string" where
  "Explain_new v =
     (case v of JBool b \<Rightarrow> (if b then ''allPlansExecution'' else ''queryPlanner'') | JStr s \<Rightarrow> s | _ \<Rightarrow> [])"

definition Explain_fromOptions :: "doc \<Rightarrow> mongoError + string option" where
  "Explain_fromOptions options =
     (let explain = fld ''explain'' options
      in if nullish explain then Inr None
         else if is_boolean explain \<or> is_string explain then Inr (Some (Explain_new explain))
         else Inl (invalid_argument ''Field \"explain\" must be a string or a boolean''))"

definition decorateWithExplain :: "doc \<Rightarrow> string \<Rightarrow> doc" where
  "decorateWithExplain command verbosity =
     (if truthy (fld ''explain'' command) then command
      else [(''explain'', JDoc command), (''verbosity'', JStr verbosity)])"

section \<open>Helpers\<close>

definition normalizeHintField :: "jsval \<Rightarrow> jsval" where
  "normalizeHintField hint =
     (case hint of
        JStr s \<Rightarrow> hint
      | JArr vs \<Rightarrow> JDoc (assign [] (map (\<lambda>p. (js_show p, JNum 1)) vs))
      | _ \<Rightarrow> if is_object hint then JDoc (assign [] (props_of hint)) else JUndef)"

text \<open>\<open>parseIndexOptions\<close>: the parts of the name and the keys, from one element of the specification.\<close>

definition isObject :: "jsval \<Rightarrow> bool" where
  "isObject v = (case v of JDoc _ \<Rightarrow> True | JObjectId _ \<Rightarrow> True | JCode _ \<Rightarrow> True | _ \<Rightarrow> False)"

definition or_one :: "jsval \<Rightarrow> jsval" where
  "or_one v = (if truthy v then v else JNum 1)"

definition index_part :: "string \<Rightarrow> jsval \<Rightarrow> string" where
  "index_part k v = k @ ''_'' @ js_show v"

definition index_fields :: "jsval \<Rightarrow> (string \<times> jsval) list" where
  "index_fields f =
     (case f of
        JStr s \<Rightarrow> [(s, JNum 1)]
      | JArr vs \<Rightarrow>
          [(js_show (case vs of k # _ \<Rightarrow> k | [] \<Rightarrow> JUndef), or_one (case vs of _ # v # _ \<Rightarrow> v | _ \<Rightarrow> JUndef))]
      | _ \<Rightarrow> (if isObject f then props_of f else []))"

record indexOptions =
  io_name :: string
  io_fieldHash :: doc

definition parseIndexOptions :: "jsval \<Rightarrow> indexOptions" where
  "parseIndexOptions spec =
     (let fields = (case spec of
                      JStr s \<Rightarrow> [(s, JNum 1)]
                    | JArr fs \<Rightarrow> concat (map index_fields fs)
                    | _ \<Rightarrow> if isObject spec then props_of spec else [])
      in \<lparr>io_name = join_with ''_'' (map (\<lambda>(k, v). index_part k v) fields), io_fieldHash = assign [] fields\<rparr>)"

definition filterOptions :: "doc \<Rightarrow> string list \<Rightarrow> doc" where
  "filterOptions options names = filter (\<lambda>(k, _). k \<in> set names) options"

definition mergeOptions :: "doc \<Rightarrow> doc \<Rightarrow> doc" where
  "mergeOptions target source = assign (assign [] target) source"

definition applyRetryableWrites :: "doc \<Rightarrow> doc option \<Rightarrow> doc" where
  "applyRetryableWrites target dbOptions =
     (case dbOptions of
        Some d \<Rightarrow> set_if (truthy (fld ''retryWrites'' d)) ''retryWrites'' (JBool True) target
      | None \<Rightarrow> target)"

text \<open>Concerns in options, and as documents.\<close>

definition w_of :: "jsval \<Rightarrow> wValue option" where
  "w_of v = (case v of JNum n \<Rightarrow> Some (WNum n) | JStr s \<Rightarrow> Some (WStr s) | _ \<Rightarrow> None)"

definition fsync_of :: "jsval \<Rightarrow> fsyncValue option" where
  "fsync_of v = (case v of JBool b \<Rightarrow> Some (FsyncBool b) | JNum n \<Rightarrow> Some FsyncOne | _ \<Rightarrow> None)"

definition settings_doc :: "doc \<Rightarrow> writeConcernSettings" where
  "settings_doc d =
     \<lparr>wcs_w = w_of (fld ''w'' d), wcs_wtimeoutMS = num_of (fld ''wtimeoutMS'' d), wcs_journal = bool_of (fld ''journal'' d),
      wcs_j = bool_of (fld ''j'' d), wcs_wtimeout = num_of (fld ''wtimeout'' d), wcs_fsync = fsync_of (fld ''fsync'' d)\<rparr>"

definition writeConcern_option :: "doc \<Rightarrow> writeConcern option" where
  "writeConcern_option options =
     WriteConcern_fromOptions
       (Some (WCOptions (case fld ''writeConcern'' options of JDoc d \<Rightarrow> Some (WCSettings (settings_doc d)) | _ \<Rightarrow> None))) None"

definition readConcern_option :: "doc \<Rightarrow> readConcern option" where
  "readConcern_option options =
     ReadConcern_fromOptions
       (Some ((case fld ''readConcern'' options of
                 JStr s \<Rightarrow> Some (RCString s) | JDoc d \<Rightarrow> Some (RCObject (str_of (fld ''level'' d))) | _ \<Rightarrow> None),
              str_of (fld ''level'' options)))"

definition readConcern_toJSON :: "readConcern \<Rightarrow> jsval" where
  "readConcern_toJSON rc = JDoc [(''level'', JStr (rc_level rc))]"

definition opt_fld :: "string \<Rightarrow> jsval option \<Rightarrow> doc" where
  "opt_fld k v = (case v of Some x \<Rightarrow> [(k, x)] | None \<Rightarrow> [])"

definition writeConcern_doc :: "writeConcern \<Rightarrow> jsval" where
  "writeConcern_doc wc =
     JDoc (opt_fld ''w'' (map_option (\<lambda>w. case w of WNum n \<Rightarrow> JNum n | WStr s \<Rightarrow> JStr s) (wc_w wc))
         @ opt_fld ''wtimeout'' (map_option JNum (wc_wtimeout wc)) @ opt_fld ''j'' (map_option JBool (wc_j wc))
         @ opt_fld ''fsync'' (map_option (\<lambda>f. case f of FsyncBool b \<Rightarrow> JBool b | FsyncOne \<Rightarrow> JNum 1) (wc_fsync wc)))"

text \<open>Inherited concerns: \<open>db\<close> and \<open>collection\<close> are the write concerns of the sources.\<close>

definition applyWriteConcern :: "doc \<Rightarrow> writeConcern option \<Rightarrow> writeConcern option \<Rightarrow> bool \<Rightarrow> doc \<Rightarrow> doc" where
  "applyWriteConcern target db collection inTxn options =
     (if inTxn then
        (if truthy (fld ''writeConcern'' target) then map_delete ''writeConcern'' target else target)
      else (case coalesce (writeConcern_option options) (coalesce collection db) of
              Some wc \<Rightarrow> map_set ''writeConcern'' (writeConcern_doc wc) target
            | None \<Rightarrow> target))"

definition decorateWithCollation :: "bool \<Rightarrow> doc \<Rightarrow> doc \<Rightarrow> mongoError + doc" where
  "decorateWithCollation takesCollation command options =
     (if is_object (fld ''collation'' options) then
        (if takesCollation then Inr (map_set ''collation'' (fld ''collation'' options) command)
         else Inl (mk_error MongoCompatibilityError ''Current topology does not support collation''))
      else Inr command)"

definition decorateWithReadConcern :: "doc \<Rightarrow> readConcern option \<Rightarrow> bool \<Rightarrow> doc" where
  "decorateWithReadConcern command coll inTxn =
     (if inTxn then command
      else
        (let own = props_of (fld ''readConcern'' command);
             rc = (case coll of Some c \<Rightarrow> map_set ''level'' (JStr (rc_level c)) own | None \<Rightarrow> own)
         in set_if (rc \<noteq> []) ''readConcern'' (JDoc rc) command))"

text \<open>\<open>hasAtomicOperators\<close>; the keys of a string are its positions.\<close>

fun doc_hasAtomicOperators :: "jsval \<Rightarrow> bool" where
  "doc_hasAtomicOperators (JArr vs) = list_ex doc_hasAtomicOperators vs"
| "doc_hasAtomicOperators (JDoc d) = (case d of [] \<Rightarrow> False | (k, _) # _ \<Rightarrow> take 1 k = ''$'')"
| "doc_hasAtomicOperators _ = False"

text \<open>
  \<open>resolveOptions\<close>: what an operation inherits from its parent, without the serialisation options.
  The read preference of the options themselves (theory \<open>Read_Preference\<close>) is an argument.
\<close>

record operationParent =
  pa_readConcern :: "readConcern option"
  pa_writeConcern :: "writeConcern option"
  pa_readPreference :: "jsval option"

definition resolveOptions :: "operationParent option \<Rightarrow> bool \<Rightarrow> jsval option \<Rightarrow> doc \<Rightarrow> doc" where
  "resolveOptions parent inTxn ownReadPreference options =
     (let result = assign [] options;
          with_rc = (case coalesce (readConcern_option options) (Option.bind parent pa_readConcern) of
                       Some rc \<Rightarrow> map_set ''readConcern'' (readConcern_toJSON rc) result | None \<Rightarrow> result);
          with_wc = (case coalesce (writeConcern_option options) (Option.bind parent pa_writeConcern) of
                       Some wc \<Rightarrow> map_set ''writeConcern'' (writeConcern_doc wc) with_rc | None \<Rightarrow> with_rc);
          concerned = (if inTxn then result else with_wc)
      in case coalesce ownReadPreference (Option.bind parent pa_readPreference) of
           Some rp \<Rightarrow> map_set ''readPreference'' rp concerned | None \<Rightarrow> concerned)"

section \<open>Command operations\<close>

record commandOp =
  co_aspects :: "aspect list"
  co_options :: doc
  co_ns :: mongoDBNamespace
  co_readConcern :: "readConcern option"
  co_writeConcern :: "writeConcern option"
  co_explain :: "string option"
  co_trySecondaryWrite :: bool

definition CommandOperation_new :: "aspect list \<Rightarrow> mongoDBNamespace option \<Rightarrow> doc \<Rightarrow> mongoError + commandOp" where
  "CommandOperation_new aspects parent options =
     (let override = (if truthy (fld ''dbName'' options) then fld ''dbName'' options else fld ''authdb'' options);
          ns = (if truthy override then \<lparr>ns_db = js_show override, ns_collection = Some ''$cmd''\<rparr>
                else (case parent of
                        Some p \<Rightarrow> withCollection p ''$cmd'' | None \<Rightarrow> \<lparr>ns_db = ''admin'', ns_collection = Some ''$cmd''\<rparr>));
          op = \<lparr>co_aspects = aspects, co_options = options, co_ns = ns, co_readConcern = readConcern_option options,
                co_writeConcern = writeConcern_option options, co_explain = None, co_trySecondaryWrite = False\<rparr>
      in if EXPLAINABLE \<in> set aspects
         then rbind (Explain_fromOptions options) (\<lambda>e. Inr (op\<lparr>co_explain := e\<rparr>))
         else if \<not> nullish (fld ''explain'' options)
         then Inl (invalid_argument ''Option \"explain\" is not supported on this command'')
         else Inr op)"

definition command_canRetryWrite :: "commandOp \<Rightarrow> bool" where
  "command_canRetryWrite op = (EXPLAINABLE \<in> set (co_aspects op) \<longrightarrow> co_explain op = None)"

record opEnv =
  oe_name :: string
  oe_wireVersion :: int
  oe_inTransaction :: bool
  oe_takesCollation :: bool
  oe_sharded :: bool

datatype request = SendCommand mongoDBNamespace doc doc | SendQuery mongoDBNamespace doc doc

definition supportsReadConcern :: "doc \<Rightarrow> bool" where
  "supportsReadConcern cmd = list_ex (\<lambda>k. truthy (fld k cmd)) [''aggregate'', ''count'', ''distinct'', ''find'', ''geoNear'']"

definition incompatible :: "string \<Rightarrow> mongoError" where
  "incompatible msg = mk_error MongoCompatibilityError msg"

definition decorated_command :: "opEnv \<Rightarrow> commandOp \<Rightarrow> doc \<Rightarrow> doc" where
  "decorated_command env op cmd =
     (let options = co_options op; w = oe_wireVersion env;
          c1 = (case co_readConcern op of
                  Some rc \<Rightarrow> set_if (supportsReadConcern cmd \<and> \<not> oe_inTransaction env) ''readConcern'' (readConcern_toJSON rc) cmd
                | None \<Rightarrow> cmd);
          c2 = (case co_writeConcern op of
                  Some wc \<Rightarrow> set_if (WRITE_OPERATION \<in> set (co_aspects op) \<and> \<not> oe_inTransaction env) ''writeConcern'' (writeConcern_doc wc) c1
                | None \<Rightarrow> c1);
          c3 = set_if (w \<ge> 5 \<and> is_object (fld ''collation'' options) \<and> SKIP_COLLATION \<notin> set (co_aspects op))
                 ''collation'' (fld ''collation'' options) c2;
          c4 = set_if (is_number (fld ''maxTimeMS'' options)) ''maxTimeMS'' (fld ''maxTimeMS'' options) c3
      in set_if (is_string (fld ''comment'' options)) ''comment'' (fld ''comment'' options) c4)"

definition executeCommand :: "opEnv \<Rightarrow> commandOp \<Rightarrow> doc \<Rightarrow> mongoError + request" where
  "executeCommand env op cmd =
     (let options = set_if (co_trySecondaryWrite op \<and> oe_wireVersion env < 13) ''omitReadPreference'' (JBool True) (co_options op);
          c = decorated_command env op cmd
      in if truthy (fld ''collation'' options) \<and> oe_wireVersion env < 5 then Inl (incompatible ''does not support collation'')
         else Inr (SendCommand (co_ns op)
           (case co_explain op of
              Some v \<Rightarrow> if EXPLAINABLE \<notin> set (co_aspects op) then c
                        else if oe_wireVersion env < 6 \<and> truthy (fld ''aggregate'' c) then map_set ''explain'' (JBool True) c
                        else decorateWithExplain c v
            | None \<Rightarrow> c) options))"

end
