(* ===== verification/Operations.thy ===== *)
theory Operations
  imports Commands
begin

text \<open>
  The operations of \<open>src/operations/\<close> one by one, and the settings of \<open>src/cursor/find_cursor.ts\<close> that
  end up in a find command.  A collection is its namespace; filters given as raw buffers are not
  modelled.
\<close>

section \<open>Copying options into a command\<close>

definition when_number :: "string \<Rightarrow> doc \<Rightarrow> doc \<Rightarrow> doc" where
  "when_number k options = set_if (is_number (fld k options)) k (fld k options)"

definition when_boolean :: "string \<Rightarrow> doc \<Rightarrow> doc \<Rightarrow> doc" where
  "when_boolean k options = set_if (is_boolean (fld k options)) k (fld k options)"

definition when_truthy :: "string \<Rightarrow> doc \<Rightarrow> doc \<Rightarrow> doc" where
  "when_truthy k options = set_if (truthy (fld k options)) k (fld k options)"

definition when_set :: "string \<Rightarrow> doc \<Rightarrow> doc \<Rightarrow> doc" where
  "when_set k options = set_if (\<not> nullish (fld k options)) k (fld k options)"

definition the_collection :: "mongoDBNamespace \<Rightarrow> jsval" where
  "the_collection ns = (case ns_collection ns of Some c \<Rightarrow> JStr c | None \<Rightarrow> JUndef)"

section \<open>Find\<close>

record findOp =
  fo_op :: commandOp
  fo_filter :: jsval

definition FindOperation_aspects :: "aspect list" where
  "FindOperation_aspects = [READ_OPERATION, RETRYABLE, EXPLAINABLE, CURSOR_CREATING]"

definition FindOperation_new :: "mongoDBNamespace option \<Rightarrow> mongoDBNamespace \<Rightarrow> jsval \<Rightarrow> doc \<Rightarrow> mongoError + findOp" where
  "FindOperation_new parent ns filt options =
     rbind (CommandOperation_new FindOperation_aspects parent options)
       (\<lambda>op. let f = (if filt = JUndef then JDoc [] else filt)
              in if (f \<noteq> JNull \<and> \<not> is_object f) \<or> (case f of JArr _ \<Rightarrow> True | _ \<Rightarrow> False)
                 then Inl (invalid_argument ''Query filter must be a plain object or ObjectId'')
                 else Inr \<lparr>fo_op = op\<lparr>co_ns := ns\<rparr>,
                           fo_filter = (case f of JObjectId _ \<Rightarrow> JDoc [(''_id'', f)] | _ \<Rightarrow> f)\<rparr>)"

definition find_projection :: "jsval \<Rightarrow> jsval" where
  "find_projection p =
     (case p of
        JArr fs \<Rightarrow> if fs = [] then JDoc [(''_id'', JNum 1)] else JDoc (assign [] (map (\<lambda>f. (js_show f, JNum 1)) fs))
      | _ \<Rightarrow> p)"

text \<open>Limit and batch size; a negative one asks for a single batch.\<close>

definition negative :: "jsval \<Rightarrow> bool" where
  "negative v = (case v of JNum n \<Rightarrow> n < 0 | _ \<Rightarrow> False)"

definition negated :: "jsval \<Rightarrow> jsval" where
  "negated v = (case v of JNum n \<Rightarrow> JNum (- n) | _ \<Rightarrow> JNaN)"

definition abs_less :: "jsval \<Rightarrow> jsval \<Rightarrow> bool" where
  "abs_less a b = (case (a, b) of (JNum m, JNum n) \<Rightarrow> \<bar>m\<bar> < \<bar>n\<bar> | _ \<Rightarrow> False)"

definition find_limits :: "doc \<Rightarrow> doc \<Rightarrow> doc" where
  "find_limits options cmd =
     (let limit = fld ''limit'' options; batchSize = fld ''batchSize'' options;
          c1 = (if \<not> is_number limit then cmd
                else if negative limit then map_set ''singleBatch'' (JBool True) (map_set ''limit'' (negated limit) cmd)
                else map_set ''limit'' limit cmd);
          c2 = (if \<not> is_number batchSize then c1
                else if negative batchSize then
                  map_set ''singleBatch'' (JBool True)
                    (set_if (truthy limit \<and> abs_less batchSize limit) ''limit'' (negated batchSize) c1)
                else map_set ''batchSize'' batchSize c1)
      in when_boolean ''singleBatch'' options c2)"

definition find_timeout :: "doc \<Rightarrow> doc \<Rightarrow> doc" where
  "find_timeout options cmd =
     (case fld ''timeout'' options of
        JBool b \<Rightarrow> map_set ''noCursorTimeout'' (JBool (\<not> b)) cmd
      | _ \<Rightarrow> when_boolean ''noCursorTimeout'' options cmd)"

definition the_sort :: "string \<Rightarrow> doc \<Rightarrow> doc \<Rightarrow> mongoError + doc" where
  "the_sort k options cmd =
     (if truthy (fld ''sort'' options)
      then rbind (formatSort (fld ''sort'' options) JUndef)
             (\<lambda>s. Inr (map_set k (case s of Some m \<Rightarrow> JMap m | None \<Rightarrow> JUndef) cmd))
      else Inr cmd)"

definition makeFindCommand :: "mongoDBNamespace \<Rightarrow> jsval \<Rightarrow> doc \<Rightarrow> mongoError + doc" where
  "makeFindCommand ns filt options =
     rbind (the_sort ''sort'' options [(''find'', the_collection ns), (''filter'', filt)])
       (\<lambda>c0.
          let c1 = set_if (truthy (fld ''projection'' options)) ''projection'' (find_projection (fld ''projection'' options)) c0;
              c2 = set_if (truthy (fld ''hint'' options)) ''hint'' (normalizeHintField (fld ''hint'' options)) c1;
              c3 = find_limits options (when_number ''skip'' options c2);
              c4 = when_number ''maxTimeMS'' options (when_truthy ''comment'' options c3);
              c5 = (case readConcern_option options of Some rc \<Rightarrow> map_set ''readConcern'' (readConcern_toJSON rc) c4 | None \<Rightarrow> c4);
              c6 = when_boolean ''tailable'' options (when_boolean ''showRecordId'' options (when_boolean ''returnKey'' options
                     (when_truthy ''min'' options (when_truthy ''max'' options c5))));
              c7 = when_boolean ''allowPartialResults'' options (when_boolean ''awaitData'' options (find_timeout options c6))
          in Inr (when_truthy ''let'' options (when_boolean ''allowDiskUse'' options (when_truthy ''collation'' options c7))))"

definition makeLegacyFindCommand :: "jsval \<Rightarrow> doc \<Rightarrow> mongoError + doc" where
  "makeLegacyFindCommand filt options =
     rbind (the_sort ''$orderby'' options [(''$query'', filt)])
       (\<lambda>c0.
          let copy = (\<lambda>test to from c. set_if (test (fld from options)) to (fld from options) c);
              c1 = set_if (truthy (fld ''hint'' options)) ''$hint'' (normalizeHintField (fld ''hint'' options)) c0;
              c2 = copy truthy ''$min'' ''min'' (copy truthy ''$max'' ''max'' (copy is_boolean ''$returnKey'' ''returnKey'' c1));
              c3 = copy is_number ''$maxTimeMS'' ''maxTimeMS'' (copy truthy ''$comment'' ''comment''
                     (copy is_boolean ''$showDiskLoc'' ''showRecordId'' c2))
          in Inr (set_if (\<not> nullish (fld ''explain'' options)) ''$explain'' (JBool True) c3))"

definition FindOperation_execute :: "opEnv \<Rightarrow> jsval \<Rightarrow> findOp \<Rightarrow> mongoError + request" where
  "FindOperation_execute env readPreference fo =
     (let op = fo_op fo; options = co_options op; w = oe_wireVersion env
      in if \<not> nullish (fld ''allowDiskUse'' options) \<and> w < 4
         then Inl (incompatible ''Option \"allowDiskUse\" is not supported on MongoDB < 3.2'')
         else if truthy (fld ''collation'' options) \<and> w < 5 then Inl (incompatible ''does not support collation'')
         else if w < 4 then
           (if (case co_readConcern op of Some rc \<Rightarrow> rc_level rc \<noteq> ''local'' | None \<Rightarrow> False)
            then Inl (incompatible ''Server find command does not support a readConcern level'')
            else rbind (makeLegacyFindCommand (fo_filter fo) options)
                   (\<lambda>c. Inr (SendQuery (co_ns op) (set_if (oe_sharded env) ''$readPreference'' readPreference c) options)))
         else rbind (makeFindCommand (co_ns op) (fo_filter fo) options)
                (\<lambda>c. Inr (SendCommand (co_ns op) (case co_explain op of Some v \<Rightarrow> decorateWithExplain c v | None \<Rightarrow> c) options)))"

section \<open>Settings of a find cursor\<close>

record findCursor =
  fc_initialized :: bool
  fc_filter :: jsval
  fc_built :: doc

definition fc_guard :: "findCursor \<Rightarrow> (findCursor \<Rightarrow> mongoError + findCursor) \<Rightarrow> mongoError + findCursor" where
  "fc_guard c f = (if fc_initialized c then Inl (mk_error MongoCursorInUseError ''Cursor is already initialized'') else f c)"

definition fc_set :: "string \<Rightarrow> jsval \<Rightarrow> findCursor \<Rightarrow> mongoError + findCursor" where
  "fc_set k v c = fc_guard c (\<lambda>c. Inr (c\<lparr>fc_built := map_set k v (fc_built c)\<rparr>))"

text \<open>The constructor normalises a sort in place; an error is thrown to the caller of \<open>find\<close>.\<close>

definition sort_value :: "doc option \<Rightarrow> jsval" where
  "sort_value s = (case s of Some m \<Rightarrow> JMap m | None \<Rightarrow> JUndef)"

definition findCursor_new :: "jsval \<Rightarrow> doc \<Rightarrow> mongoError + findCursor" where
  "findCursor_new filt options =
     (let c = \<lparr>fc_initialized = False, fc_filter = (if truthy filt then filt else JDoc []), fc_built = options\<rparr>
      in if nullish (fld ''sort'' options) then Inr c
         else rbind (formatSort (fld ''sort'' options) JUndef) (\<lambda>s. Inr (c\<lparr>fc_built := map_set ''sort'' (sort_value s) options\<rparr>)))"

definition findCursor_clone :: "findCursor \<Rightarrow> mongoError + findCursor" where
  "findCursor_clone c = findCursor_new (fc_filter c) (map_delete ''session'' (mergeOptions [] (fc_built c)))"

definition fc_setFilter :: "jsval \<Rightarrow> findCursor \<Rightarrow> mongoError + findCursor" where
  "fc_setFilter f c = fc_guard c (\<lambda>c. Inr (c\<lparr>fc_filter := f\<rparr>))"

definition fc_hint :: "jsval \<Rightarrow> findCursor \<Rightarrow> mongoError + findCursor" where
  "fc_hint = fc_set ''hint''"

definition fc_min :: "jsval \<Rightarrow> findCursor \<Rightarrow> mongoError + findCursor" where
  "fc_min = fc_set ''min''"

definition fc_max :: "jsval \<Rightarrow> findCursor \<Rightarrow> mongoError + findCursor" where
  "fc_max = fc_set ''max''"

definition fc_returnKey :: "jsval \<Rightarrow> findCursor \<Rightarrow> mongoError + findCursor" where
  "fc_returnKey = fc_set ''returnKey''"

definition fc_showRecordId :: "jsval \<Rightarrow> findCursor \<Rightarrow> mongoError + findCursor" where
  "fc_showRecordId = fc_set ''showRecordId''"

definition fc_comment :: "jsval \<Rightarrow> findCursor \<Rightarrow> mongoError + findCursor" where
  "fc_comment = fc_set ''comment''"

definition fc_number :: "string \<Rightarrow> jsval \<Rightarrow> findCursor \<Rightarrow> mongoError + findCursor" where
  "fc_number k v c =
     fc_guard c (\<lambda>c. if \<not> is_number v then Inl (invalid_argument (''Argument for '' @ k @ '' must be a number''))
                       else Inr (c\<lparr>fc_built := map_set k v (fc_built c)\<rparr>))"

definition fc_maxAwaitTimeMS :: "jsval \<Rightarrow> findCursor \<Rightarrow> mongoError + findCursor" where
  "fc_maxAwaitTimeMS = fc_number ''maxAwaitTimeMS''"

definition fc_maxTimeMS :: "jsval \<Rightarrow> findCursor \<Rightarrow> mongoError + findCursor" where
  "fc_maxTimeMS = fc_number ''maxTimeMS''"

definition fc_project :: "jsval \<Rightarrow> findCursor \<Rightarrow> mongoError + findCursor" where
  "fc_project = fc_set ''projection''"

definition fc_collation :: "jsval \<Rightarrow> findCursor \<Rightarrow> mongoError + findCursor" where
  "fc_collation = fc_set ''collation''"

definition tailable_error :: "string \<Rightarrow> mongoError" where
  "tailable_error what = mk_error MongoTailableCursorError (''Tailable cursor does not support '' @ what)"

definition fc_sort :: "jsval \<Rightarrow> jsval \<Rightarrow> findCursor \<Rightarrow> mongoError + findCursor" where
  "fc_sort s direction c =
     fc_guard c (\<lambda>c. if truthy (fld ''tailable'' (fc_built c)) then Inl (tailable_error ''sorting'')
       else rbind (formatSort s direction) (\<lambda>m. Inr (c\<lparr>fc_built := map_set ''sort'' (sort_value m) (fc_built c)\<rparr>)))"

definition fc_allowDiskUse :: "findCursor \<Rightarrow> mongoError + findCursor" where
  "fc_allowDiskUse c =
     fc_guard c (\<lambda>c. if \<not> truthy (fld ''sort'' (fc_built c))
       then Inl (invalid_argument ''Option \"allowDiskUse\" requires a sort specification'')
       else Inr (c\<lparr>fc_built := map_set ''allowDiskUse'' (JBool True) (fc_built c)\<rparr>))"

definition fc_notTailable :: "string \<Rightarrow> jsval \<Rightarrow> findCursor \<Rightarrow> mongoError + findCursor" where
  "fc_notTailable k v c =
     fc_guard c (\<lambda>c. if truthy (fld ''tailable'' (fc_built c)) then Inl (tailable_error k)
       else if \<not> is_number v then Inl (invalid_argument (''Operation \"'' @ k @ ''\" requires an integer''))
       else Inr (c\<lparr>fc_built := map_set k v (fc_built c)\<rparr>))"

definition fc_limit :: "jsval \<Rightarrow> findCursor \<Rightarrow> mongoError + findCursor" where
  "fc_limit = fc_notTailable ''limit''"

definition fc_skip :: "jsval \<Rightarrow> findCursor \<Rightarrow> mongoError + findCursor" where
  "fc_skip = fc_notTailable ''skip''"

definition addQueryModifier :: "string \<Rightarrow> jsval \<Rightarrow> findCursor \<Rightarrow> mongoError + findCursor" where
  "addQueryModifier name v c =
     fc_guard c (\<lambda>c.
       if take 1 name \<noteq> ''$'' then Inl (invalid_argument (name @ '' is not a valid query modifier''))
       else (let field = tl name; put = (\<lambda>k. Inr (c\<lparr>fc_built := map_set k v (fc_built c)\<rparr>))
             in if field \<in> {''comment'', ''explain'', ''hint'', ''max'', ''maxTimeMS'', ''min'', ''returnKey''} then put field
                else if field = ''orderby''
                then rbind (formatSort v JUndef) (\<lambda>m. Inr (c\<lparr>fc_built := map_set ''sort'' (sort_value m) (fc_built c)\<rparr>))
                else if field = ''query'' then Inr (c\<lparr>fc_filter := v\<rparr>)
                else if field = ''showDiskLoc'' then put ''showRecordId''
                else Inl (invalid_argument (''Invalid query modifier: '' @ name))))"

text \<open>\<open>_initialize\<close>: the options of the find operation; those of the cursor go over the built ones.\<close>

definition find_initialize :: "mongoDBNamespace \<Rightarrow> doc \<Rightarrow> findCursor \<Rightarrow> mongoError + findOp" where
  "find_initialize ns cursorOptions c = FindOperation_new None ns (fc_filter c) (assign (assign [] (fc_built c)) cursorOptions)"

text \<open>The cursor's own options, as the constructor takes them from the caller's.\<close>

definition cursor_options :: "doc \<Rightarrow> doc" where
  "cursor_options options =
     when_number ''maxTimeMS'' options (when_set ''comment'' options (when_number ''batchSize'' options
       (case readConcern_option options of Some rc \<Rightarrow> [(''readConcern'', readConcern_toJSON rc)] | None \<Rightarrow> [])))"

section \<open>Aggregate, count and distinct\<close>

record aggregateOp =
  ag_op :: commandOp
  ag_target :: jsval
  ag_pipeline :: "jsval list"
  ag_hasWriteStage :: bool

definition AggregateOperation_aspects :: "aspect list" where
  "AggregateOperation_aspects = [READ_OPERATION, RETRYABLE, EXPLAINABLE, CURSOR_CREATING]"

definition AggregateOperation_new :: "mongoDBNamespace \<Rightarrow> jsval list \<Rightarrow> doc \<Rightarrow> mongoError + aggregateOp" where
  "AggregateOperation_new ns pipeline options =
     rbind (CommandOperation_new AggregateOperation_aspects None (map_set ''dbName'' (JStr (ns_db ns)) (assign [] options)))
       (\<lambda>op0.
          let out = fld ''out'' options;
              final = (if pipeline = [] then JUndef else last pipeline);
              write = is_string out \<or> (pipeline \<noteq> [] \<and> (truthy (get_prop ''$out'' final) \<or> truthy (get_prop ''$merge'' final)));
              op = op0\<lparr>co_options := options, co_trySecondaryWrite := write\<rparr>
          in if co_explain op \<noteq> None \<and> co_writeConcern op \<noteq> None
             then Inl (invalid_argument ''Option \"explain\" cannot be used on an aggregate call with writeConcern'')
             else if \<not> nullish (fld ''cursor'' options) \<and> \<not> is_object (fld ''cursor'' options)
             then Inl (invalid_argument ''Cursor options must be an object'')
             else Inr \<lparr>ag_op = op,
               ag_target = (case ns_collection ns of Some c \<Rightarrow> (if c = [] then JNum 1 else JStr c) | None \<Rightarrow> JNum 1),
               ag_pipeline = (if is_string out then pipeline @ [JDoc [(''$out'', out)]] else pipeline),
               ag_hasWriteStage = write\<rparr>)"

definition aggregate_canRetryRead :: "aggregateOp \<Rightarrow> bool" where
  "aggregate_canRetryRead ag = (\<not> ag_hasWriteStage ag)"

definition addToPipeline :: "jsval \<Rightarrow> aggregateOp \<Rightarrow> aggregateOp" where
  "addToPipeline stage ag = ag\<lparr>ag_pipeline := ag_pipeline ag @ [stage]\<rparr>"

definition AggregateOperation_execute :: "opEnv \<Rightarrow> aggregateOp \<Rightarrow> mongoError + request" where
  "AggregateOperation_execute env ag =
     (let op = ag_op ag; options = co_options op; w = oe_wireVersion env; write = ag_hasWriteStage ag;
          op1 = (if write \<and> w < 8 then op\<lparr>co_readConcern := None\<rparr> else op);
          c0 = [(''aggregate'', ag_target ag), (''pipeline'', JArr (ag_pipeline ag))];
          c1 = (case co_writeConcern op of
                  Some wc \<Rightarrow> set_if (w \<ge> 5 \<and> write) ''writeConcern'' (writeConcern_doc wc) c0 | None \<Rightarrow> c0);
          c2 = set_if (fld ''bypassDocumentValidation'' options = JBool True) ''bypassDocumentValidation'' (JBool True) c1;
          c3 = when_truthy ''let'' options (when_truthy ''hint'' options (when_boolean ''allowDiskUse'' options c2));
          cursor = (if truthy (fld ''cursor'' options) then props_of (fld ''cursor'' options) else []);
          cursor1 = set_if (truthy (fld ''batchSize'' options) \<and> \<not> write) ''batchSize'' (fld ''batchSize'' options) cursor
      in executeCommand env op1 (map_set ''cursor'' (JDoc cursor1) c3))"

definition count_pipeline :: "jsval \<Rightarrow> doc \<Rightarrow> jsval list" where
  "count_pipeline query options =
     JDoc [(''$match'', query)]
     # (if is_number (fld ''skip'' options) then [JDoc [(''$skip'', fld ''skip'' options)]] else [])
     @ (if is_number (fld ''limit'' options) then [JDoc [(''$limit'', fld ''limit'' options)]] else [])
     @ [JDoc [(''$group'', JDoc [(''_id'', JNum 1), (''n'', JDoc [(''$sum'', JNum 1)])])]]"

definition CountDocumentsOperation_new :: "mongoDBNamespace \<Rightarrow> jsval \<Rightarrow> doc \<Rightarrow> mongoError + aggregateOp" where
  "CountDocumentsOperation_new ns query options = AggregateOperation_new ns (count_pipeline query options) options"

text \<open>The number in the first document of the first batch.\<close>

definition first_n :: "jsval \<Rightarrow> jsval" where
  "first_n response =
     (case get_prop ''firstBatch'' (get_prop ''cursor'' response) of JArr (d # _) \<Rightarrow> get_prop ''n'' d | _ \<Rightarrow> JNum 0)"

definition CountOperation_new :: "mongoDBNamespace \<Rightarrow> doc \<Rightarrow> mongoError + commandOp" where
  "CountOperation_new ns options = CommandOperation_new [READ_OPERATION, RETRYABLE] (Some ns) options"

definition CountOperation_execute :: "opEnv \<Rightarrow> mongoDBNamespace \<Rightarrow> jsval \<Rightarrow> commandOp \<Rightarrow> mongoError + request" where
  "CountOperation_execute env ns query op =
     (let options = co_options op
      in executeCommand env op
           (when_number ''maxTimeMS'' options (when_set ''hint'' options (when_number ''skip'' options
             (when_number ''limit'' options [(''count'', the_collection ns), (''query'', query)])))))"

definition EstimatedDocumentCount_execute :: "opEnv \<Rightarrow> mongoDBNamespace \<Rightarrow> commandOp \<Rightarrow> mongoError + request" where
  "EstimatedDocumentCount_execute env ns op =
     executeCommand env op
       (when_number ''maxTimeMS'' (co_options op)
         (if oe_wireVersion env < 12 then [(''count'', the_collection ns)]
          else [(''aggregate'', the_collection ns),
                (''pipeline'', JArr [JDoc [(''$collStats'', JDoc [(''count'', JDoc [])])],
                   JDoc [(''$group'', JDoc [(''_id'', JNum 1), (''n'', JDoc [(''$sum'', JStr ''$count'')])])]]),
                (''cursor'', JDoc [])]))"

definition DistinctOperation_execute ::
    "opEnv \<Rightarrow> mongoDBNamespace \<Rightarrow> readConcern option \<Rightarrow> string \<Rightarrow> jsval \<Rightarrow> commandOp \<Rightarrow> mongoError + request" where
  "DistinctOperation_execute env ns collReadConcern key query op =
     (let options = co_options op;
          c0 = when_number ''maxTimeMS'' options [(''distinct'', the_collection ns), (''key'', JStr key), (''query'', query)];
          c1 = decorateWithReadConcern c0 collReadConcern (oe_inTransaction env)
      in rbind (decorateWithCollation (oe_takesCollation env) c1 options)
           (\<lambda>c. if co_explain op \<noteq> None \<and> oe_wireVersion env < 4 then Inl (incompatible ''does not support explain on distinct'')
                 else executeCommand env op c))"

section \<open>Writes\<close>

definition the_ordered :: "doc \<Rightarrow> jsval" where
  "the_ordered options = (if is_boolean (fld ''ordered'' options) then fld ''ordered'' options else JBool True)"

definition InsertOperation_execute :: "opEnv \<Rightarrow> jsval list \<Rightarrow> commandOp \<Rightarrow> mongoError + request" where
  "InsertOperation_execute env documents op =
     (let options = co_options op
      in executeCommand env op
           (when_set ''comment'' options (when_boolean ''bypassDocumentValidation'' options
             [(''insert'', the_collection (co_ns op)), (''documents'', JArr documents), (''ordered'', the_ordered options)])))"

text \<open>\<open>prepareDocs\<close>: identifiers for documents without one, unless the server is to assign them.\<close>

definition prepareDocs :: "(nat \<Rightarrow> jsval) \<Rightarrow> jsval \<Rightarrow> doc \<Rightarrow> doc list \<Rightarrow> doc list" where
  "prepareDocs createPk dbForce options docs =
     (let force = (if is_boolean (fld ''forceServerObjectId'' options) then fld ''forceServerObjectId'' options else dbForce)
      in if force = JBool True then docs
         else map (\<lambda>(i, d). set_if (nullish (fld ''_id'' d)) ''_id'' (createPk i) d) (enumerate 0 docs))"

definition unacknowledged :: "commandOp \<Rightarrow> bool" where
  "unacknowledged op = (case co_writeConcern op of Some wc \<Rightarrow> wc_w wc = Some (WNum 0) | None \<Rightarrow> False)"

definition update_canRetryWrite :: "commandOp \<Rightarrow> doc list \<Rightarrow> bool" where
  "update_canRetryWrite op statements =
     (command_canRetryWrite op \<and> list_all (\<lambda>s. nullish (fld ''multi'' s) \<or> fld ''multi'' s = JBool False) statements)"

definition delete_canRetryWrite :: "commandOp \<Rightarrow> doc list \<Rightarrow> bool" where
  "delete_canRetryWrite op statements =
     (command_canRetryWrite op
      \<and> list_all (\<lambda>s. nullish (fld ''limit'' s) \<or> (case fld ''limit'' s of JNum n \<Rightarrow> n > 0 | JBool b \<Rightarrow> b | _ \<Rightarrow> False)) statements)"

definition statement_collation_unsupported :: "opEnv \<Rightarrow> doc list \<Rightarrow> bool" where
  "statement_collation_unsupported env statements =
     (oe_wireVersion env < 5 \<and> list_ex (\<lambda>s. truthy (fld ''collation'' s)) statements)"

definition UpdateOperation_execute :: "opEnv \<Rightarrow> doc list \<Rightarrow> commandOp \<Rightarrow> mongoError + request" where
  "UpdateOperation_execute env statements op =
     (let options = co_options op; w = oe_wireVersion env;
          command = when_truthy ''let'' options (when_boolean ''bypassDocumentValidation'' options
            [(''update'', the_collection (co_ns op)), (''updates'', JArr (map JDoc statements)), (''ordered'', the_ordered options)])
      in if (truthy (fld ''collation'' options) \<and> w < 5) \<or> statement_collation_unsupported env statements
         then Inl (incompatible ''does not support collation'')
         else if (unacknowledged op \<or> w < 5) \<and> list_ex (\<lambda>s. truthy (fld ''hint'' s)) statements
         then Inl (incompatible ''Servers < 3.4 do not support hint on update'')
         else if co_explain op \<noteq> None \<and> w < 3 then Inl (incompatible ''does not support explain on update'')
         else if list_ex (\<lambda>s. truthy (fld ''arrayFilters'' s)) statements \<and> w < 6
         then Inl (incompatible ''Option \"arrayFilters\" is only supported on MongoDB 3.6+'')
         else executeCommand env op command)"

definition DeleteOperation_execute :: "opEnv \<Rightarrow> doc list \<Rightarrow> commandOp \<Rightarrow> mongoError + request" where
  "DeleteOperation_execute env statements op =
     (let options = co_options op; w = oe_wireVersion env;
          command = when_truthy ''let'' options
            [(''delete'', the_collection (co_ns op)), (''deletes'', JArr (map JDoc statements)), (''ordered'', the_ordered options)]
      in if \<not> nullish (fld ''explain'' options) \<and> w < 3 then Inl (incompatible ''does not support explain on delete'')
         else if (unacknowledged op \<or> w < 5) \<and> list_ex (\<lambda>s. truthy (fld ''hint'' s)) statements
         then Inl (incompatible ''Servers < 3.4 do not support hint on delete'')
         else if statement_collation_unsupported env statements then Inl (incompatible ''does not support collation'')
         else executeCommand env op command)"

definition update_statement :: "jsval \<Rightarrow> jsval \<Rightarrow> doc \<Rightarrow> mongoError + doc" where
  "update_statement filt update options =
     (if \<not> is_object filt then Inl (invalid_argument ''Selector must be a valid JavaScript object'')
      else if \<not> is_object update then Inl (invalid_argument ''Document must be a valid JavaScript object'')
      else Inr (when_truthy ''collation'' options (when_truthy ''arrayFilters'' options (when_truthy ''hint'' options
             (when_truthy ''multi'' options (when_boolean ''upsert'' options [(''q'', filt), (''u'', update)]))))))"

definition delete_statement :: "jsval \<Rightarrow> doc \<Rightarrow> doc" where
  "delete_statement filt options =
     when_truthy ''comment'' options (when_truthy ''hint'' options (when_truthy ''collation'' options
       (set_if (fld ''single'' options = JBool True) ''limit'' (JNum 1)
         [(''q'', filt), (''limit'', if is_number (fld ''limit'' options) then fld ''limit'' options else JNum 0)])))"

definition write_parent :: "mongoDBNamespace \<Rightarrow> aspect list \<Rightarrow> doc \<Rightarrow> mongoError + commandOp" where
  "write_parent ns aspects options = rbind (CommandOperation_new aspects None options) (\<lambda>op. Inr (op\<lparr>co_ns := ns\<rparr>))"

text \<open>The single update, multi update and replacement: the statement is made first, then the operators are checked.\<close>

definition update_new :: "aspect list \<Rightarrow> bool \<Rightarrow> bool \<Rightarrow> mongoDBNamespace \<Rightarrow> jsval \<Rightarrow> jsval \<Rightarrow> doc \<Rightarrow> mongoError + commandOp \<times> doc list" where
  "update_new aspects replace multi ns filt update options =
     rbind (update_statement filt update (map_set ''multi'' (JBool multi) (assign [] options)))
       (\<lambda>s. rbind (write_parent ns aspects options)
         (\<lambda>op. if replace \<and> doc_hasAtomicOperators update
                then Inl (invalid_argument ''Replacement document must not contain atomic operators'')
                else if \<not> replace \<and> \<not> doc_hasAtomicOperators update
                then Inl (invalid_argument ''Update document requires atomic operators'')
                else Inr (op, [s])))"

definition UpdateOneOperation_new :: "mongoDBNamespace \<Rightarrow> jsval \<Rightarrow> jsval \<Rightarrow> doc \<Rightarrow> mongoError + commandOp \<times> doc list" where
  "UpdateOneOperation_new = update_new [RETRYABLE, WRITE_OPERATION, EXPLAINABLE, SKIP_COLLATION] False False"

definition UpdateManyOperation_new :: "mongoDBNamespace \<Rightarrow> jsval \<Rightarrow> jsval \<Rightarrow> doc \<Rightarrow> mongoError + commandOp \<times> doc list" where
  "UpdateManyOperation_new = update_new [WRITE_OPERATION, EXPLAINABLE, SKIP_COLLATION] False True"

definition ReplaceOneOperation_new :: "mongoDBNamespace \<Rightarrow> jsval \<Rightarrow> jsval \<Rightarrow> doc \<Rightarrow> mongoError + commandOp \<times> doc list" where
  "ReplaceOneOperation_new = update_new [RETRYABLE, WRITE_OPERATION, SKIP_COLLATION] True False"

definition DeleteOneOperation_new :: "mongoDBNamespace \<Rightarrow> jsval \<Rightarrow> doc \<Rightarrow> mongoError + commandOp \<times> doc list" where
  "DeleteOneOperation_new ns filt options =
     rbind (write_parent ns [RETRYABLE, WRITE_OPERATION, EXPLAINABLE, SKIP_COLLATION] options)
       (\<lambda>op. Inr (op, [delete_statement filt (map_set ''limit'' (JNum 1) (assign [] options))]))"

definition DeleteManyOperation_new :: "mongoDBNamespace \<Rightarrow> jsval \<Rightarrow> doc \<Rightarrow> mongoError + commandOp \<times> doc list" where
  "DeleteManyOperation_new ns filt options =
     rbind (write_parent ns [WRITE_OPERATION, EXPLAINABLE, SKIP_COLLATION] options)
       (\<lambda>op. Inr (op, [delete_statement filt options]))"

text \<open>What the callers of single writes get: the server's error, its first write error, or the counts.\<close>

definition write_errors :: "jsval \<Rightarrow> mongoError option" where
  "write_errors res =
     (if truthy (get_prop ''code'' res) then Some (server_error res)
      else if truthy (get_prop ''writeErrors'' res)
      then Some (server_error (case get_prop ''writeErrors'' res of JArr (e # _) \<Rightarrow> e | _ \<Rightarrow> JUndef))
      else None)"

definition update_result :: "commandOp \<Rightarrow> jsval \<Rightarrow> mongoError + jsval" where
  "update_result op res =
     (if co_explain op \<noteq> None then Inr res
      else (case write_errors res of
        Some e \<Rightarrow> Inl e
      | None \<Rightarrow>
          (let upserted = (case get_prop ''upserted'' res of JArr us \<Rightarrow> us | _ \<Rightarrow> []); n = get_prop ''n'' res
           in Inr (JDoc [(''acknowledged'', JBool (\<not> unacknowledged op)),
                (''modifiedCount'', if nullish (get_prop ''nModified'' res) then n else get_prop ''nModified'' res),
                (''upsertedId'', case upserted of u # _ \<Rightarrow> get_prop ''_id'' u | [] \<Rightarrow> JNull),
                (''upsertedCount'', JNum (int (length upserted))),
                (''matchedCount'', if upserted \<noteq> [] then JNum 0 else n)]))))"

definition delete_result :: "commandOp \<Rightarrow> jsval \<Rightarrow> mongoError + jsval" where
  "delete_result op res =
     (case write_errors res of
        Some e \<Rightarrow> Inl e
      | None \<Rightarrow> if co_explain op \<noteq> None then Inr res
                else Inr (JDoc [(''acknowledged'', JBool (\<not> unacknowledged op)), (''deletedCount'', get_prop ''n'' res)]))"

definition insertOne_result :: "commandOp \<Rightarrow> doc \<Rightarrow> jsval \<Rightarrow> mongoError + jsval" where
  "insertOne_result op document res =
     (case write_errors res of
        Some e \<Rightarrow> Inl e
      | None \<Rightarrow> Inr (JDoc [(''acknowledged'', JBool (\<not> unacknowledged op)), (''insertedId'', fld ''_id'' document)]))"

section \<open>Find and modify\<close>

record findAndModifyOp =
  fm_op :: commandOp
  fm_base :: doc
  fm_query :: jsval

definition findAndModify_new :: "mongoDBNamespace \<Rightarrow> jsval \<Rightarrow> doc \<Rightarrow> mongoError + findAndModifyOp" where
  "findAndModify_new ns query options =
     rbind (CommandOperation_new [WRITE_OPERATION, RETRYABLE, EXPLAINABLE] (Some ns) options)
       (\<lambda>op. rbind (formatSort (fld ''sort'' options) JUndef)
         (\<lambda>s. let b0 = [(''remove'', JBool False), (''new'', JBool False), (''upsert'', JBool False)];
                  b1 = (case s of Some m \<Rightarrow> map_set ''sort'' (JMap m) b0 | None \<Rightarrow> b0);
                  b2 = set_if (truthy (fld ''projection'' options)) ''fields'' (fld ''projection'' options) b1
              in Inr \<lparr>fm_op = op,
                      fm_base = when_truthy ''let'' options (when_truthy ''writeConcern'' options (when_truthy ''maxTimeMS'' options b2)),
                      fm_query = query\<rparr>))"

definition configureUpdateOpts :: "doc \<Rightarrow> doc \<Rightarrow> doc" where
  "configureUpdateOpts base options =
     set_if (fld ''bypassDocumentValidation'' options = JBool True) ''bypassDocumentValidation'' (JBool True)
       (map_set ''upsert'' (JBool (fld ''upsert'' options = JBool True))
         (map_set ''new'' (JBool (fld ''returnDocument'' options = JStr ''after'')) base))"

definition FindOneAndDelete_new :: "mongoDBNamespace \<Rightarrow> jsval \<Rightarrow> doc \<Rightarrow> mongoError + findAndModifyOp" where
  "FindOneAndDelete_new ns filt options =
     (if \<not> is_object filt then Inl (invalid_argument ''Argument \"filter\" must be an object'')
      else rbind (findAndModify_new ns filt options) (\<lambda>f. Inr (f\<lparr>fm_base := map_set ''remove'' (JBool True) (fm_base f)\<rparr>)))"

definition FindOneAndReplace_new :: "mongoDBNamespace \<Rightarrow> jsval \<Rightarrow> jsval \<Rightarrow> doc \<Rightarrow> mongoError + findAndModifyOp" where
  "FindOneAndReplace_new ns filt replacement options =
     (if \<not> is_object filt then Inl (invalid_argument ''Argument \"filter\" must be an object'')
      else if \<not> is_object replacement then Inl (invalid_argument ''Argument \"replacement\" must be an object'')
      else if doc_hasAtomicOperators replacement
      then Inl (invalid_argument ''Replacement document must not contain atomic operators'')
      else rbind (findAndModify_new ns filt options)
             (\<lambda>f. Inr (f\<lparr>fm_base := configureUpdateOpts (map_set ''update'' replacement (fm_base f)) options\<rparr>)))"

definition FindOneAndUpdate_new :: "mongoDBNamespace \<Rightarrow> jsval \<Rightarrow> jsval \<Rightarrow> doc \<Rightarrow> mongoError + findAndModifyOp" where
  "FindOneAndUpdate_new ns filt update options =
     (if \<not> is_object filt then Inl (invalid_argument ''Argument \"filter\" must be an object'')
      else if \<not> is_object update then Inl (invalid_argument ''Argument \"update\" must be an object'')
      else if \<not> doc_hasAtomicOperators update then Inl (invalid_argument ''Update document requires atomic operators'')
      else rbind (findAndModify_new ns filt options)
             (\<lambda>f. Inr (f\<lparr>fm_base := when_truthy ''arrayFilters'' options
                            (configureUpdateOpts (map_set ''update'' update (fm_base f)) options)\<rparr>)))"

definition findAndModify_execute :: "opEnv \<Rightarrow> mongoDBNamespace \<Rightarrow> findAndModifyOp \<Rightarrow> mongoError + request" where
  "findAndModify_execute env ns f =
     (let op = fm_op f; options = co_options op; w = oe_wireVersion env
      in rbind (decorateWithCollation (oe_takesCollation env)
                 (assign [(''findAndModify'', the_collection ns), (''query'', fm_query f)] (fm_base f)) options)
           (\<lambda>c. if truthy (fld ''hint'' options) \<and> (unacknowledged op \<or> w < 8)
                 then Inl (incompatible ''The current topology does not support a hint on findAndModify commands'')
                 else if co_explain op \<noteq> None \<and> w < 4 then Inl (incompatible ''does not support explain on findAndModify'')
                 else executeCommand env op (when_truthy ''hint'' options c)))"

section \<open>Indexes\<close>

definition VALID_INDEX_OPTIONS :: "string list" where
  "VALID_INDEX_OPTIONS = [''background'', ''unique'', ''name'', ''partialFilterExpression'', ''sparse'', ''hidden'',
     ''expireAfterSeconds'', ''storageEngine'', ''collation'', ''version'', ''weights'', ''default_language'',
     ''language_override'', ''textIndexVersion'', ''2dsphereIndexVersion'', ''bits'', ''min'', ''max'', ''bucketSize'',
     ''wildcardProjection'']"

definition makeIndexSpec :: "jsval \<Rightarrow> doc \<Rightarrow> doc" where
  "makeIndexSpec spec options =
     (let p = parseIndexOptions spec;
          name = (if is_string (fld ''name'' options) then fld ''name'' options else JStr (io_name p))
      in assign [(''name'', name), (''key'', JDoc (io_fieldHash p))] (filter (\<lambda>(k, _). k \<in> set VALID_INDEX_OPTIONS) options))"

text \<open>The name an index gets from its keys when it was given none.\<close>

definition generated_name :: "jsval \<Rightarrow> string" where
  "generated_name key = join_with ''_'' (map (\<lambda>(k, v). index_part k v) (props_of key))"

definition named_index :: "doc \<Rightarrow> doc" where
  "named_index ix = set_if (nullish (fld ''name'' ix)) ''name'' (JStr (generated_name (fld ''key'' ix))) ix"

definition CreateIndexes_new :: "mongoDBNamespace \<Rightarrow> doc \<Rightarrow> mongoError + commandOp" where
  "CreateIndexes_new parent options = CommandOperation_new [WRITE_OPERATION] (Some parent) options"

definition CreateIndexes_execute :: "opEnv \<Rightarrow> string \<Rightarrow> doc list \<Rightarrow> commandOp \<Rightarrow> mongoError + request" where
  "CreateIndexes_execute env name indexes op =
     (let options = co_options op; w = oe_wireVersion env;
          cmd = [(''createIndexes'', JStr name), (''indexes'', JArr (map (JDoc \<circ> named_index) indexes))]
      in if list_ex (\<lambda>ix. truthy (fld ''collation'' ix)) indexes \<and> w < 5 then Inl (incompatible ''does not support collation'')
         else if \<not> nullish (fld ''commitQuorum'' options) \<and> w < 9
         then Inl (incompatible ''Option `commitQuorum` for `createIndexes` not supported on servers < 4.4'')
         else executeCommand env (op\<lparr>co_options := map_set ''collation'' JUndef options\<rparr>) (when_set ''commitQuorum'' options cmd))"

definition CreateIndexes_result :: "doc list \<Rightarrow> string list" where
  "CreateIndexes_result indexes =
     map (\<lambda>ix. let n = fld ''name'' (named_index ix) in if truthy n then js_show n else []) indexes"

definition CreateIndex_new :: "mongoDBNamespace \<Rightarrow> jsval \<Rightarrow> doc \<Rightarrow> mongoError + commandOp \<times> doc list" where
  "CreateIndex_new parent spec options =
     rbind (CreateIndexes_new parent options) (\<lambda>op. Inr (op, [makeIndexSpec spec options]))"

text \<open>
  \<open>ensureIndex\<close> looks for the name first; a missing namespace counts as no indexes.  The answer is
  the name when the index is there and nothing when it has to be created.
\<close>

definition EnsureIndex_lookup :: "jsval \<Rightarrow> mongoError option \<times> doc list option \<Rightarrow> mongoError + jsval option" where
  "EnsureIndex_lookup indexName reply =
     (case reply of
        (Some e, indexes) \<Rightarrow>
          if e_code e \<noteq> Some (CodeNum (MONGODB_ERROR_CODES NamespaceNotFound)) then Inl e
          else Inr (if list_ex (\<lambda>ix. fld ''name'' ix = indexName) (the_default [] indexes) then Some indexName else None)
      | (None, indexes) \<Rightarrow> Inr (if list_ex (\<lambda>ix. fld ''name'' ix = indexName) (the_default [] indexes) then Some indexName else None))"

definition DropIndex_execute :: "opEnv \<Rightarrow> mongoDBNamespace \<Rightarrow> string \<Rightarrow> commandOp \<Rightarrow> mongoError + request" where
  "DropIndex_execute env ns indexName op =
     executeCommand env op [(''dropIndexes'', the_collection ns), (''index'', JStr indexName)]"

definition DropIndexes_execute :: "opEnv \<Rightarrow> mongoDBNamespace \<Rightarrow> commandOp \<Rightarrow> mongoError + request" where
  "DropIndexes_execute env ns op = DropIndex_execute env ns ''*'' op"

definition cursor_batch :: "jsval \<Rightarrow> jsval" where
  "cursor_batch batchSize = JDoc (if truthy batchSize then [(''batchSize'', batchSize)] else [])"

definition ListIndexes_execute :: "opEnv \<Rightarrow> mongoDBNamespace \<Rightarrow> commandOp \<Rightarrow> mongoError + request" where
  "ListIndexes_execute env ns op =
     (if oe_wireVersion env < 3
      then Inr (SendQuery (withCollection ns ''system.indexes'')
                 [(''query'', JDoc [(''ns'', JStr (MongoDBNamespace_toString ns))])] (co_options op))
      else executeCommand env op
             [(''listIndexes'', the_collection ns), (''cursor'', cursor_batch (fld ''batchSize'' (co_options op)))])"

text \<open>\<open>indexInformation\<close>, from the indexes listed; \<open>full\<close> returns them as they are.\<close>

definition index_pairs :: "doc \<Rightarrow> jsval" where
  "index_pairs ix = JArr (map (\<lambda>(k, v). JArr [JStr k, v]) (props_of (fld ''key'' ix)))"

definition indexInformation :: "bool \<Rightarrow> jsval \<Rightarrow> mongoError option \<times> doc list option \<Rightarrow> mongoError + jsval" where
  "indexInformation destroyed full reply =
     (if destroyed then Inl (mk_error MongoTopologyClosedError ''Topology is closed'')
      else (case reply of
        (Some e, _) \<Rightarrow> Inl e
      | (None, None) \<Rightarrow> Inr (JArr [])
      | (None, Some indexes) \<Rightarrow>
          if truthy full then Inr (JArr (map JDoc indexes))
          else Inr (JDoc (assign [] (map (\<lambda>ix. (js_show (fld ''name'' ix), index_pairs ix)) indexes)))))"

definition IndexExists :: "jsval \<Rightarrow> jsval \<Rightarrow> bool" where
  "IndexExists indexes information =
     (case indexes of
        JArr names \<Rightarrow> list_all (\<lambda>n. \<not> nullish (get_prop (js_show n) information)) names
      | name \<Rightarrow> \<not> nullish (get_prop (js_show name) information))"

section \<open>Collections and databases\<close>

definition generate_listCollections :: "jsval \<Rightarrow> doc \<Rightarrow> doc" where
  "generate_listCollections filt options =
     [(''listCollections'', JNum 1), (''filter'', filt),
      (''cursor'', cursor_batch (if is_number (fld ''batchSize'' options) then fld ''batchSize'' options else JUndef)),
      (''nameOnly'', JBool (truthy (fld ''nameOnly'' options))),
      (''authorizedCollections'', JBool (truthy (fld ''authorizedCollections'' options)))]"

definition ILLEGAL_COMMAND_FIELDS :: "string list" where
  "ILLEGAL_COMMAND_FIELDS = [''w'', ''wtimeout'', ''j'', ''fsync'', ''autoIndexId'', ''pkFactory'', ''raw'', ''readPreference'',
     ''session'', ''readConcern'', ''writeConcern'', ''raw'', ''fieldsAsRaw'', ''promoteLongs'', ''promoteValues'',
     ''promoteBuffers'', ''bsonRegExp'', ''serializeFunctions'', ''ignoreUndefined'', ''enableUtf8Validation'']"

definition CreateCollection_execute :: "opEnv \<Rightarrow> string \<Rightarrow> commandOp \<Rightarrow> mongoError + request" where
  "CreateCollection_execute env name op =
     executeCommand env op
       (assign [(''create'', JStr name)]
         (filter (\<lambda>(k, v). \<not> nullish v \<and> \<not> is_function v \<and> k \<notin> set ILLEGAL_COMMAND_FIELDS) (co_options op)))"

definition DropCollection_execute :: "opEnv \<Rightarrow> string \<Rightarrow> commandOp \<Rightarrow> mongoError + request" where
  "DropCollection_execute env name op = executeCommand env op [(''drop'', JStr name)]"

definition DropDatabase_execute :: "opEnv \<Rightarrow> commandOp \<Rightarrow> mongoError + request" where
  "DropDatabase_execute env op = executeCommand env op [(''dropDatabase'', JNum 1)]"

definition drop_result :: "mongoError + jsval \<Rightarrow> mongoError + bool" where
  "drop_result r = rbind r (\<lambda>v. Inr (truthy (get_prop ''ok'' v)))"

text \<open>\<open>Number(cmd.nameOnly)\<close> reads the command that is being built, which has no such field yet.\<close>

definition js_toNumber :: "jsval \<Rightarrow> jsval" where
  "js_toNumber v =
     (case v of JNum n \<Rightarrow> v | JBool b \<Rightarrow> JNum (if b then 1 else 0) | JNull \<Rightarrow> JNum 0
      | JStr s \<Rightarrow> (case js_Number s of Some n \<Rightarrow> JNum n | None \<Rightarrow> JNaN) | _ \<Rightarrow> JNaN)"

definition listDatabases_command :: "doc \<Rightarrow> doc" where
  "listDatabases_command options =
     (let c0 = [(''listDatabases'', JNum 1)];
          c1 = set_if (truthy (fld ''nameOnly'' options)) ''nameOnly'' (js_toNumber (fld ''nameOnly'' c0)) c0
      in when_boolean ''authorizedDatabases'' options (when_truthy ''filter'' options c1))"

definition ListDatabases_execute :: "opEnv \<Rightarrow> commandOp \<Rightarrow> mongoError + request" where
  "ListDatabases_execute env op =
     executeCommand env (op\<lparr>co_ns := \<lparr>ns_db = ''admin'', ns_collection = Some ''$cmd''\<rparr>\<rparr>) (listDatabases_command (co_options op))"

definition rename_command :: "mongoDBNamespace \<Rightarrow> string \<Rightarrow> doc \<Rightarrow> mongoError + doc" where
  "rename_command ns newName options =
     rbind (checkCollectionName newName)
       (\<lambda>_. Inr [(''renameCollection'', JStr (MongoDBNamespace_toString ns)),
                  (''to'', JStr (MongoDBNamespace_toString (withCollection ns newName))),
                  (''dropTarget'', if is_boolean (fld ''dropTarget'' options) then fld ''dropTarget'' options else JBool False)])"

definition CollStats_execute :: "opEnv \<Rightarrow> mongoDBNamespace \<Rightarrow> commandOp \<Rightarrow> mongoError + request" where
  "CollStats_execute env ns op = executeCommand env op (when_set ''scale'' (co_options op) [(''collStats'', the_collection ns)])"

definition DbStats_execute :: "opEnv \<Rightarrow> commandOp \<Rightarrow> mongoError + request" where
  "DbStats_execute env op = executeCommand env op (when_set ''scale'' (co_options op) [(''dbStats'', JBool True)])"

definition validate_command :: "string \<Rightarrow> doc \<Rightarrow> doc" where
  "validate_command name options = assign [(''validate'', JStr name)] (filter (\<lambda>(k, _). k \<noteq> ''session'') options)"

definition validate_result :: "string \<Rightarrow> jsval \<Rightarrow> mongoError + jsval" where
  "validate_result name d =
     (let result = get_prop ''result'' d; failed = (\<lambda>m. Inl (mk_error MongoRuntimeError m))
      in if get_prop ''ok'' d = JNum 0 then failed ''Error with validate command''
         else if \<not> nullish result \<and> \<not> is_string result then failed ''Error with validation data''
         else if (case result of JStr s \<Rightarrow> contains_sub ''exception'' s \<or> contains_sub ''corrupt'' s | _ \<Rightarrow> False)
         then failed (''Invalid collection '' @ name)
         else if \<not> nullish (get_prop ''valid'' d) \<and> \<not> truthy (get_prop ''valid'' d) then failed (''Invalid collection '' @ name)
         else Inr d)"

section \<open>Profiling, users and evaluation\<close>

definition profile_of :: "string \<Rightarrow> int" where
  "profile_of level = (if level = ''slow_only'' then 1 else if level = ''all'' then 2 else 0)"

definition level_of :: "jsval \<Rightarrow> mongoError + string" where
  "level_of was =
     (if was = JNum 0 then Inr ''off'' else if was = JNum 1 then Inr ''slow_only'' else if was = JNum 2 then Inr ''all''
      else Inl (mk_error MongoRuntimeError ''Illegal profiling level value''))"

definition SetProfilingLevel_execute :: "opEnv \<Rightarrow> string \<Rightarrow> commandOp \<Rightarrow> mongoError + request" where
  "SetProfilingLevel_execute env level op =
     (if level \<notin> {''off'', ''slow_only'', ''all''} then Inl (invalid_argument ''Profiling level must be one of the levels'')
      else executeCommand env op [(''profile'', JNum (profile_of level))])"

definition profiling_result :: "jsval \<Rightarrow> mongoError + string" where
  "profiling_result d =
     (if get_prop ''ok'' d = JNum 1 then level_of (get_prop ''was'' d)
      else Inl (mk_error MongoRuntimeError ''Error with profile command''))"

definition AddUser_execute :: "opEnv \<Rightarrow> (string \<Rightarrow> string) \<Rightarrow> string \<Rightarrow> string \<Rightarrow> string option \<Rightarrow> commandOp \<Rightarrow> mongoError + request" where
  "AddUser_execute env md5hex databaseName username password op =
     (let options = co_options op; roles = fld ''roles'' options; digestPassword = oe_wireVersion env \<ge> 7;
          rs = (if \<not> truthy roles \<or> roles = JArr []
                then [JStr (if toLowerCase databaseName = ''admin'' then ''root'' else ''dbOwner'')]
                else (case roles of JArr r \<Rightarrow> r | r \<Rightarrow> [r]));
          c0 = [(''createUser'', JStr username),
                (''customData'', if truthy (fld ''customData'' options) then fld ''customData'' options else JDoc []),
                (''roles'', JArr rs), (''digestPassword'', JBool digestPassword)]
      in if \<not> nullish (fld ''digestPassword'' options)
         then Inl (invalid_argument ''Option \"digestPassword\" not supported via addUser, use db.command(...) instead'')
         else executeCommand env op
           (case password of
              Some p \<Rightarrow> map_set ''pwd'' (JStr (if digestPassword then p else md5hex (username @ '':mongo:'' @ p))) c0
            | None \<Rightarrow> c0))"

definition RemoveUser_execute :: "opEnv \<Rightarrow> string \<Rightarrow> commandOp \<Rightarrow> mongoError + request" where
  "RemoveUser_execute env username op = executeCommand env op [(''dropUser'', JStr username)]"

definition Eval_execute :: "opEnv \<Rightarrow> jsval \<Rightarrow> jsval \<Rightarrow> commandOp \<Rightarrow> mongoError + request" where
  "Eval_execute env code parameters op =
     executeCommand env op
       (when_truthy ''nolock'' (co_options op)
         [(''$eval'', case code of JCode _ \<Rightarrow> code | _ \<Rightarrow> JCode (js_show code)),
          (''args'', JArr (if nullish parameters \<or> is_function parameters then []
                           else (case parameters of JArr ps \<Rightarrow> ps | p \<Rightarrow> [p])))])"

text \<open>\<open>isCapped\<close> and \<open>options\<close>, from the collections listed under the name.\<close>

definition listed_options :: "mongoError option \<times> doc list option \<Rightarrow> mongoError + jsval option" where
  "listed_options reply =
     (case reply of
        (Some e, _) \<Rightarrow> Inl e
      | (None, None) \<Rightarrow> Inr None
      | (None, Some []) \<Rightarrow> Inl (mk_error MongoAPIError ''collection not found'')
      | (None, Some (c # _)) \<Rightarrow> Inr (Some (fld ''options'' c)))"

definition is_capped :: "mongoError option \<times> doc list option \<Rightarrow> mongoError + bool option" where
  "is_capped reply = rbind (listed_options reply) (\<lambda>r. Inr (map_option (\<lambda>v. truthy (get_prop ''capped'' v)) r))"

definition legal_collections :: "doc list \<Rightarrow> string list" where
  "legal_collections documents =
     filter (\<lambda>n. CHR ''$'' \<notin> set n) (map (\<lambda>d. js_show (fld ''name'' d)) documents)"

section \<open>Map-reduce\<close>

definition mapReduce_exclusions :: "string list" where
  "mapReduce_exclusions = [''explain'', ''readPreference'', ''readConcern'', ''session'', ''bypassDocumentValidation'',
     ''writeConcern'', ''raw'', ''fieldsAsRaw'', ''promoteLongs'', ''promoteValues'', ''promoteBuffers'', ''bsonRegExp'',
     ''serializeFunctions'', ''ignoreUndefined'', ''enableUtf8Validation'', ''scope'']"

fun processScope :: "jsval \<Rightarrow> mongoError + jsval"
  and processProps :: "(string \<times> jsval) list \<Rightarrow> mongoError + (string \<times> jsval) list" where
  "processScope (JDoc d) = rbind (processProps d) (\<lambda>x. Inr (JDoc x))"
| "processScope v = Inr v"
| "processProps [] = Inr []"
| "processProps ((k, v) # d) =
     rbind (case v of
              JFun s \<Rightarrow> Inr (JCode s)
            | JCode s \<Rightarrow> Inr v
            | JNull \<Rightarrow> Inl (js_type_error ''Cannot read property of null'')
            | JUndef \<Rightarrow> Inl (js_type_error ''Cannot read property of undefined'')
            | _ \<Rightarrow> processScope v)
       (\<lambda>x. rbind (processProps d) (\<lambda>r. Inr ((k, x) # r)))"

definition mapReduce_out_collection :: "bool \<Rightarrow> doc \<Rightarrow> bool" where
  "mapReduce_out_collection primaryMode options =
     (primaryMode \<and> truthy (fld ''out'' options) \<and> get_prop ''inline'' (fld ''out'' options) \<noteq> JNum 1
      \<and> fld ''out'' options \<noteq> JStr ''inline'')"

definition MapReduce_execute ::
    "opEnv \<Rightarrow> mongoDBNamespace \<Rightarrow> readConcern option \<Rightarrow> writeConcern option \<Rightarrow> writeConcern option \<Rightarrow> bool
       \<Rightarrow> jsval \<Rightarrow> jsval \<Rightarrow> commandOp \<Rightarrow> mongoError + request" where
  "MapReduce_execute env ns collReadConcern collWriteConcern dbWriteConcern primaryMode mapf reducef op =
     (let options = co_options op; c0 = [(''mapReduce'', the_collection ns), (''map'', mapf), (''reduce'', reducef)]
      in rbind (if truthy (fld ''scope'' options)
                then rbind (processScope (fld ''scope'' options)) (\<lambda>s. Inr (map_set ''scope'' s c0)) else Inr c0)
           (\<lambda>c1.
              let c2 = assign c1 (filter (\<lambda>(k, _). k \<notin> set mapReduce_exclusions) options);
                  c3 = (if mapReduce_out_collection primaryMode options
                        then applyWriteConcern c2 dbWriteConcern collWriteConcern (oe_inTransaction env) options
                        else decorateWithReadConcern c2 collReadConcern (oe_inTransaction env));
                  c4 = set_if (fld ''bypassDocumentValidation'' options = JBool True) ''bypassDocumentValidation'' (JBool True) c3
              in rbind (decorateWithCollation (oe_takesCollation env) c4 options)
                   (\<lambda>c. if co_explain op \<noteq> None \<and> oe_wireVersion env < 9
                         then Inl (incompatible ''does not support explain on mapReduce'')
                         else executeCommand env op c)))"

end
