(* ===== verification/Operation_Rules.thy ===== *)
theory Operation_Rules
  imports Operations
begin

text \<open>
  What the operations send: the limits of a find command, the concerns of commands inside and outside
  transactions, index names, which writes may be retried, and the settings that are lost on the way.
\<close>

section \<open>What the commands say\<close>

lemma fld_copies [simp]:
  "fld j (when_number k options c) = (if j = k \<and> is_number (fld k options) then fld k options else fld j c)"
  "fld j (when_boolean k options c) = (if j = k \<and> is_boolean (fld k options) then fld k options else fld j c)"
  "fld j (when_truthy k options c) = (if j = k \<and> truthy (fld k options) then fld k options else fld j c)"
  "fld j (when_set k options c) = (if j = k \<and> \<not> nullish (fld k options) then fld k options else fld j c)"
  by (auto simp: when_number_def when_boolean_def when_truthy_def when_set_def)

lemma fld_find_timeout [simp]: "j \<noteq> ''noCursorTimeout'' \<Longrightarrow> fld j (find_timeout options c) = fld j c"
  by (cases "fld ''timeout'' options") (auto simp: find_timeout_def)

lemma fld_find_limits [simp]:
  "j \<noteq> ''limit'' \<Longrightarrow> j \<noteq> ''batchSize'' \<Longrightarrow> j \<noteq> ''singleBatch'' \<Longrightarrow> fld j (find_limits options c) = fld j c"
  by (simp add: find_limits_def Let_def)

lemma the_sort_fld: "the_sort k options c = Inr c' \<Longrightarrow> j \<noteq> k \<Longrightarrow> fld j c' = fld j c"
  by (auto simp: the_sort_def rbind_Inr_iff split: if_splits)

text \<open>Limit, batch size and single batch of a find command come from the options alone.\<close>

lemma find_command_limits:
  assumes "makeFindCommand ns filt options = Inr c" "j \<in> {''limit'', ''batchSize'', ''singleBatch''}"
  shows "fld j c = fld j (find_limits options [])"
proof -
  obtain c0 where c0: "the_sort ''sort'' options [(''find'', the_collection ns), (''filter'', filt)] = Inr c0"
    using assms(1) by (auto simp: makeFindCommand_def rbind_Inr_iff)
  then have u: "fld ''limit'' c0 = JUndef" "fld ''batchSize'' c0 = JUndef" "fld ''singleBatch'' c0 = JUndef"
    using the_sort_fld [OF c0, of "''limit''"] the_sort_fld [OF c0, of "''batchSize''"] the_sort_fld [OF c0, of "''singleBatch''"]
    by simp_all
  let ?c3 = "when_number ''skip'' options (set_if (truthy (fld ''hint'' options)) ''hint'' (normalizeHintField (fld ''hint'' options))
    (set_if (truthy (fld ''projection'' options)) ''projection'' (find_projection (fld ''projection'' options)) c0))"
  have u3: "fld ''limit'' ?c3 = JUndef" "fld ''batchSize'' ?c3 = JUndef" "fld ''singleBatch'' ?c3 = JUndef"
    using u by simp_all
  have j: "j = ''limit'' \<or> j = ''batchSize'' \<or> j = ''singleBatch''" using assms(2) by blast
  have "fld j c = fld j (find_limits options ?c3)"
    using assms(1) c0 j
    by (cases "readConcern_option options") (elim disjE; simp add: makeFindCommand_def Let_def; hypsubst; simp)+
  also have "\<dots> = fld j (find_limits options [])"
    using u3 j unfolding find_limits_def Let_def by (elim disjE; hypsubst) (simp_all del: fld_copies(1))
  finally show ?thesis .
qed

text \<open>
  A find command never carries a negative limit or batch size: negative options become their amount
  and ask for a single batch, the smaller of the two amounts is the limit, and an explicit
  \<open>singleBatch\<close> has the last word.
\<close>

theorem find_command_bounds:
  assumes "makeFindCommand ns filt options = Inr c" "fld ''limit'' options = JNum l" "l \<noteq> 0" "fld ''batchSize'' options = JNum b"
  shows "\<exists>n. fld ''limit'' c = JNum n \<and> 0 < n \<and> n \<le> \<bar>l\<bar> \<and> (b < 0 \<longrightarrow> n = min \<bar>l\<bar> \<bar>b\<bar>)
    \<and> (fld ''batchSize'' c = JNum b \<and> 0 \<le> b \<or> fld ''batchSize'' c = JUndef \<and> b < 0)
    \<and> (\<not> is_boolean (fld ''singleBatch'' options) \<longrightarrow> (fld ''singleBatch'' c = JBool True \<longleftrightarrow> l < 0 \<or> b < 0))"
proof -
  have f: "fld j c = fld j (find_limits options [])" if "j \<in> {''limit'', ''batchSize'', ''singleBatch''}" for j
    by (rule find_command_limits [OF assms(1) that])
  show ?thesis using f [of "''limit''"] f [of "''batchSize''"] f [of "''singleBatch''"] assms(2-4)
    by (auto simp: find_limits_def Let_def negative_def negated_def abs_less_def)
qed

theorem find_command_bounds_witness:
  "\<exists>c n. makeFindCommand \<lparr>ns_db = ''d'', ns_collection = Some ''c''\<rparr> (JDoc []) [(''limit'', JNum (-5)), (''batchSize'', JNum 2)] = Inr c
     \<and> fld ''limit'' c = JNum n \<and> 0 < n \<and> n \<le> 5"
proof -
  let ?o = "[(''limit'', JNum (-5)), (''batchSize'', JNum 2)]"
  obtain c where c: "makeFindCommand \<lparr>ns_db = ''d'', ns_collection = Some ''c''\<rparr> (JDoc []) ?o = Inr c"
    by (simp add: makeFindCommand_def the_sort_def Let_def)
  show ?thesis using c find_command_bounds [OF c, of "-5" 2] by auto
qed

section \<open>Concerns and transactions\<close>

lemma executeCommand_sends:
  assumes "executeCommand env op cmd = Inr (SendCommand ns c options)" "co_explain op = None"
  shows "c = decorated_command env op cmd \<and> ns = co_ns op"
  using assms by (auto simp: executeCommand_def Let_def split: if_splits)

lemma decorated_concerns:
  "fld ''writeConcern'' (decorated_command env op cmd) =
     (case co_writeConcern op of
        Some wc \<Rightarrow> if WRITE_OPERATION \<in> set (co_aspects op) \<and> \<not> oe_inTransaction env then writeConcern_doc wc else fld ''writeConcern'' cmd
      | None \<Rightarrow> fld ''writeConcern'' cmd)"
  "fld ''readConcern'' (decorated_command env op cmd) =
     (case co_readConcern op of
        Some rc \<Rightarrow> if supportsReadConcern cmd \<and> \<not> oe_inTransaction env then readConcern_toJSON rc else fld ''readConcern'' cmd
      | None \<Rightarrow> fld ''readConcern'' cmd)"
  by (cases "co_writeConcern op"; cases "co_readConcern op"; simp add: decorated_command_def Let_def)+

text \<open>
  What a command operation adds to its command: the write concern exactly to writes, the read concern
  exactly to the commands that take one, and neither inside a transaction, where the concerns of the
  transaction hold.
\<close>

theorem command_concerns:
  assumes "executeCommand env op cmd = Inr (SendCommand ns c options)" "co_explain op = None"
    "fld ''readConcern'' cmd = JUndef" "fld ''writeConcern'' cmd = JUndef"
  shows "(fld ''writeConcern'' c \<noteq> JUndef \<longleftrightarrow> co_writeConcern op \<noteq> None \<and> WRITE_OPERATION \<in> set (co_aspects op) \<and> \<not> oe_inTransaction env)
    \<and> (fld ''readConcern'' c \<noteq> JUndef \<longleftrightarrow> co_readConcern op \<noteq> None \<and> supportsReadConcern cmd \<and> \<not> oe_inTransaction env)"
  using executeCommand_sends [OF assms(1,2)] assms(3,4)
  by (auto simp: decorated_concerns writeConcern_doc_def readConcern_toJSON_def split: option.splits)

definition demo_ns :: mongoDBNamespace where
  "demo_ns = \<lparr>ns_db = ''d'', ns_collection = Some ''c''\<rparr>"

definition demo_opEnv :: opEnv where
  "demo_opEnv = \<lparr>oe_name = ''a'', oe_wireVersion = 13, oe_inTransaction = True, oe_takesCollation = True, oe_sharded = False\<rparr>"

definition demo_op :: commandOp where
  "demo_op = \<lparr>co_aspects = [WRITE_OPERATION], co_options = [], co_ns = demo_ns, co_readConcern = Some \<lparr>rc_level = ''local''\<rparr>,
     co_writeConcern = Some \<lparr>wc_w = Some (WNum 1), wc_wtimeout = None, wc_j = None, wc_fsync = None\<rparr>, co_explain = None,
     co_trySecondaryWrite = False\<rparr>"

theorem command_concerns_witness:
  "\<exists>c options. executeCommand (demo_opEnv\<lparr>oe_inTransaction := False\<rparr>) demo_op [(''drop'', JStr ''c'')] = Inr (SendCommand demo_ns c options)
     \<and> fld ''writeConcern'' c \<noteq> JUndef \<and> fld ''readConcern'' c = JUndef"
proof -
  let ?env = "demo_opEnv\<lparr>oe_inTransaction := False\<rparr>"
  have r: "executeCommand ?env demo_op [(''drop'', JStr ''c'')] = Inr (SendCommand demo_ns (decorated_command ?env demo_op [(''drop'', JStr ''c'')]) [])"
    by (simp add: executeCommand_def demo_op_def demo_opEnv_def Let_def set_if_def)
  from command_concerns [OF r] show ?thesis using r
    by (simp add: demo_op_def demo_opEnv_def supportsReadConcern_def)
qed

lemma fld_assign: "fld j (assign a b) = (case map_of (rev b) j of Some v \<Rightarrow> v | None \<Rightarrow> fld j a)"
proof (induction b arbitrary: a)
  case Nil
  then show ?case by (simp add: assign_def)
next
  case (Cons e b)
  obtain k v where e: "e = (k, v)" by (cases e)
  have "assign a (e # b) = assign (map_set k v a) b" by (simp add: assign_def e)
  with Cons.IH [of "map_set k v a"] show ?case by (auto simp: e map_add_def split: option.splits)
qed

lemma fld_assign_wf:
  assumes "map_wf b"
  shows "fld j (assign a b) = (case map_of b j of Some v \<Rightarrow> v | None \<Rightarrow> fld j a)"
proof -
  have "distinct (map fst b)" using assms by (simp add: map_wf_def map_keys_def)
  then have "map_of (rev b) = map_of b" by (subst map_of_inject_set) (simp_all flip: rev_map)
  then show ?thesis by (simp add: fld_assign)
qed

lemma map_wf_set [simp]: "map_wf m \<Longrightarrow> map_wf (map_set k v m)" "map_wf m \<Longrightarrow> map_wf (set_if b k v m)"
  "map_wf m \<Longrightarrow> map_wf (when_truthy k options m)"
  by (simp_all add: jm.wf_upd set_if_def when_truthy_def)

lemma fld_of_wf: "map_of b j = Some v \<Longrightarrow> fld j b = v" "fld j b \<noteq> JUndef \<Longrightarrow> map_of b j = Some (fld j b)"
  by (auto simp: fld_def split: option.splits)

lemma CommandOperation_new_fields:
  assumes "CommandOperation_new aspects parent options = Inr op"
  shows "co_options op = options" "co_aspects op = aspects" "fld ''explain'' options = JUndef \<Longrightarrow> co_explain op = None"
    "co_writeConcern op = writeConcern_option options" "co_readConcern op = readConcern_option options"
  using assms by (auto simp: CommandOperation_new_def Explain_fromOptions_def rbind_Inr_iff nullish_def Let_def split: if_splits)

lemma findAndModify_new_base:
  assumes "findAndModify_new ns query options = Inr f"
  shows "map_wf (fm_base f)" "truthy (fld ''writeConcern'' options) \<Longrightarrow> fld ''writeConcern'' (fm_base f) = fld ''writeConcern'' options"
    "CommandOperation_new [WRITE_OPERATION, RETRYABLE, EXPLAINABLE] (Some ns) options = Inr (fm_op f)"
proof -
  have wf: "map_wf [(''remove'', JBool False), (''new'', JBool False), (''upsert'', JBool False)]"
    "map_wf [(''remove'', JBool False), (''new'', JBool False), (''upsert'', JBool False), (''sort'', v)]" for v
    by (simp_all add: map_wf_def map_keys_def)
  from assms wf show "map_wf (fm_base f)"
    by (auto simp: findAndModify_new_def rbind_Inr_iff Let_def split: option.splits)
  from assms show "truthy (fld ''writeConcern'' options) \<Longrightarrow> fld ''writeConcern'' (fm_base f) = fld ''writeConcern'' options"
    by (auto simp: findAndModify_new_def rbind_Inr_iff Let_def)
  from assms show "CommandOperation_new [WRITE_OPERATION, RETRYABLE, EXPLAINABLE] (Some ns) options = Inr (fm_op f)"
    by (auto simp: findAndModify_new_def rbind_Inr_iff Let_def)
qed

lemma findAndModify_base:
  assumes "FindOneAndDelete_new ns filt options = Inr f"
  shows "map_wf (fm_base f)" "truthy (fld ''writeConcern'' options) \<Longrightarrow> fld ''writeConcern'' (fm_base f) = fld ''writeConcern'' options"
    "co_options (fm_op f) = options" "fld ''explain'' options = JUndef \<Longrightarrow> co_explain (fm_op f) = None"
proof -
  from assms obtain g where g: "findAndModify_new ns filt options = Inr g" "f = g\<lparr>fm_base := map_set ''remove'' (JBool True) (fm_base g)\<rparr>"
    by (auto simp: FindOneAndDelete_new_def rbind_Inr_iff split: if_splits)
  note b = findAndModify_new_base [OF g(1)] and op = CommandOperation_new_fields [OF findAndModify_new_base(3) [OF g(1)]]
  show "map_wf (fm_base f)" "co_options (fm_op f) = options" using b(1) op(1) g(2) by simp_all
  show "fld ''explain'' options = JUndef \<Longrightarrow> co_explain (fm_op f) = None" using op(3) g(2) by simp
  show "truthy (fld ''writeConcern'' options) \<Longrightarrow> fld ''writeConcern'' (fm_base f) = fld ''writeConcern'' options" using b(2) g(2) by simp
qed

text \<open>
  Find-and-modify takes the write concern option into its command itself, and does so inside a
  transaction too, where other operations leave it out and the server refuses it.
\<close>

theorem findAndModify_concern_in_transaction:
  assumes "FindOneAndDelete_new ns filt options = Inr f" "truthy (fld ''writeConcern'' options)" "fld ''collation'' options = JUndef"
    "fld ''explain'' options = JUndef" "oe_inTransaction env" "findAndModify_execute env ns f = Inr (SendCommand n c sent)"
  shows "fld ''writeConcern'' c = fld ''writeConcern'' options"
proof -
  let ?cmd = "assign [(''findAndModify'', the_collection ns), (''query'', fm_query f)] (fm_base f)"
  note base = findAndModify_base [OF assms(1)]
  have "fld ''writeConcern'' (fm_base f) \<noteq> JUndef" using base(2) [OF assms(2)] assms(2) by auto
  from fld_of_wf(2) [OF this] have w: "fld ''writeConcern'' ?cmd = fld ''writeConcern'' options"
    using base(2) [OF assms(2)] by (simp add: fld_assign_wf [OF base(1)])
  have "executeCommand env (fm_op f) (when_truthy ''hint'' options ?cmd) = Inr (SendCommand n c sent)"
    using assms(3,6) base(3)
    by (simp add: findAndModify_execute_def decorateWithCollation_def is_object_def nullish_def Let_def split: if_splits)
  from executeCommand_sends [OF this base(4) [OF assms(4)]] have "c = decorated_command env (fm_op f) (when_truthy ''hint'' options ?cmd)" by simp
  with assms(5) w show ?thesis by (simp add: decorated_concerns split: option.split)
qed

theorem findAndModify_concern_in_transaction_witness:
  "\<exists>f n c sent. FindOneAndDelete_new demo_ns (JDoc []) [(''writeConcern'', JDoc [(''w'', JNum 1)])] = Inr f
     \<and> findAndModify_execute demo_opEnv demo_ns f = Inr (SendCommand n c sent) \<and> fld ''writeConcern'' c = JDoc [(''w'', JNum 1)]"
proof -
  let ?o = "[(''writeConcern'', JDoc [(''w'', JNum 1)])]"
  obtain f where f: "FindOneAndDelete_new demo_ns (JDoc []) ?o = Inr f"
    by (simp add: FindOneAndDelete_new_def is_object_def nullish_def findAndModify_new_def CommandOperation_new_def
        Explain_fromOptions_def formatSort_def Let_def)
  obtain n c sent where e: "findAndModify_execute demo_opEnv demo_ns f = Inr (SendCommand n c sent)"
    using findAndModify_base(3,4) [OF f]
    by (auto simp: findAndModify_execute_def decorateWithCollation_def is_object_def nullish_def executeCommand_def demo_opEnv_def Let_def)
  show ?thesis using f e findAndModify_concern_in_transaction [OF f _ _ _ _ e] by (simp add: demo_opEnv_def)
qed

section \<open>Index specifications\<close>

lemma parse_pairs:
  assumes "\<forall>e\<in>set d. truthy (snd e)"
  shows "concat (map index_fields (map (\<lambda>(k, v). JArr [JStr k, v]) d)) = d"
  using assms by (induction d) (auto simp: index_fields_def or_one_def)

text \<open>
  The ways to write the keys of an index agree: as an object, as a list of one object and as a list
  of pairs they give the same specification, and the name is the one \<open>createIndexes\<close> generates for
  the same keys.
\<close>

theorem index_styles_agree:
  assumes "\<forall>e\<in>set d. truthy (snd e)" "map_wf d"
  shows "makeIndexSpec (JArr (map (\<lambda>(k, v). JArr [JStr k, v]) d)) options = makeIndexSpec (JDoc d) options
    \<and> makeIndexSpec (JArr [JDoc d]) options = makeIndexSpec (JDoc d) options
    \<and> named_index [(''key'', fld ''key'' (makeIndexSpec (JDoc d) []))]
        = [(''key'', JDoc d), (''name'', fld ''name'' (makeIndexSpec (JDoc d) []))]"
proof -
  have "parseIndexOptions (JArr (map (\<lambda>(k, v). JArr [JStr k, v]) d)) = parseIndexOptions (JDoc d)"
    using parse_pairs [OF assms(1)] by (simp add: parseIndexOptions_def isObject_def comp_def)
  moreover have "parseIndexOptions (JArr [JDoc d]) = parseIndexOptions (JDoc d)"
    by (simp add: parseIndexOptions_def isObject_def index_fields_def)
  moreover have "assign [] d = d" using assign_fresh [of "[]" d] assms(2) by (simp add: map_wf_def map_keys_def)
  ultimately show ?thesis
    by (simp add: makeIndexSpec_def named_index_def generated_name_def parseIndexOptions_def isObject_def Let_def assign_def
        nullish_def set_if_def)
qed

theorem index_styles_agree_witness:
  "makeIndexSpec (JArr [JArr [JStr ''a'', JNum 1], JArr [JStr ''b'', JStr ''2d'']]) [] = makeIndexSpec (JDoc [(''a'', JNum 1), (''b'', JStr ''2d'')]) []
   \<and> fld ''name'' (makeIndexSpec (JDoc [(''a'', JNum 1), (''b'', JStr ''2d'')]) []) = JStr ''a_1_b_2d''"
proof -
  have "fld ''name'' (makeIndexSpec (JDoc [(''a'', JNum 1), (''b'', JStr ''2d'')]) []) = JStr ''a_1_b_2d''" by code_simp
  with index_styles_agree [of "[(''a'', JNum 1), (''b'', JStr ''2d'')]" "[]"] show ?thesis
    by (simp add: map_wf_def map_keys_def)
qed

section \<open>Retries of writes\<close>

lemma update_statement_multi:
  assumes "update_statement filt update options = Inr s"
  shows "fld ''multi'' s = (if truthy (fld ''multi'' options) then fld ''multi'' options else JUndef)"
  using assms by (auto simp: update_statement_def split: if_splits)

text \<open>
  Only writes of a single document are retried: an update or a delete of many never can be, and an
  update or a delete of one can unless it is explained.
\<close>

theorem only_single_writes_retry:
  assumes "UpdateManyOperation_new ns filt update options = Inr (um, us)" "UpdateOneOperation_new ns filt update options = Inr (uo, ts)"
    "DeleteManyOperation_new ns filt options = Inr (dm, ds)" "DeleteOneOperation_new ns filt options = Inr (d1, es)"
    "fld ''limit'' options = JUndef" "fld ''single'' options = JUndef"
  shows "\<not> update_canRetryWrite um us \<and> \<not> delete_canRetryWrite dm ds
    \<and> update_canRetryWrite uo ts = (co_explain uo = None) \<and> delete_canRetryWrite d1 es = (co_explain d1 = None)"
proof -
  have "\<not> update_canRetryWrite um us"
    using assms(1) by (auto simp: UpdateManyOperation_new_def update_new_def rbind_Inr_iff update_canRetryWrite_def nullish_def
        dest!: update_statement_multi split: if_splits)
  moreover have "\<not> delete_canRetryWrite dm ds"
    using assms(3,5,6) by (auto simp: DeleteManyOperation_new_def rbind_Inr_iff delete_canRetryWrite_def delete_statement_def nullish_def)
  moreover have "update_canRetryWrite uo ts = (co_explain uo = None)"
    using assms(2) by (auto simp: UpdateOneOperation_new_def update_new_def rbind_Inr_iff update_canRetryWrite_def nullish_def
        write_parent_def command_canRetryWrite_def dest!: update_statement_multi CommandOperation_new_fields(2) split: if_splits)
  moreover have "delete_canRetryWrite d1 es = (co_explain d1 = None)"
    using assms(4) by (auto simp: DeleteOneOperation_new_def rbind_Inr_iff delete_canRetryWrite_def delete_statement_def nullish_def
        write_parent_def command_canRetryWrite_def dest!: CommandOperation_new_fields(2))
  ultimately show ?thesis by blast
qed

theorem only_single_writes_retry_witness:
  "\<exists>um us uo ts. UpdateManyOperation_new demo_ns (JDoc []) (JDoc [(''$set'', JDoc [])]) [] = Inr (um, us) \<and> \<not> update_canRetryWrite um us
     \<and> UpdateOneOperation_new demo_ns (JDoc []) (JDoc [(''$set'', JDoc [])]) [] = Inr (uo, ts) \<and> update_canRetryWrite uo ts"
proof -
  let ?u = "JDoc [(''$set'', JDoc [])]"
  have um: "\<exists>op ss. UpdateManyOperation_new demo_ns (JDoc []) ?u [] = Inr (op, ss)"
    and uo: "\<exists>op ss. UpdateOneOperation_new demo_ns (JDoc []) ?u [] = Inr (op, ss) \<and> co_explain op = None"
    by (simp_all add: UpdateManyOperation_new_def UpdateOneOperation_new_def update_new_def update_statement_def is_object_def nullish_def
        write_parent_def CommandOperation_new_def Explain_fromOptions_def Let_def)
  have dm: "\<exists>op ss. DeleteManyOperation_new demo_ns (JDoc []) [] = Inr (op, ss)" "\<exists>op ss. DeleteOneOperation_new demo_ns (JDoc []) [] = Inr (op, ss)"
    by (simp_all add: DeleteManyOperation_new_def DeleteOneOperation_new_def write_parent_def CommandOperation_new_def Explain_fromOptions_def
        nullish_def Let_def)
  from um uo dm only_single_writes_retry [of demo_ns "JDoc []" ?u "[]"] show ?thesis by fastforce
qed

section \<open>Settings that do not count\<close>

lemma cursor_options_wf: "map_wf (cursor_options options)"
  by (cases "readConcern_option options") (simp_all add: cursor_options_def when_number_def when_set_def set_if_def map_wf_def map_keys_def)

text \<open>
  The options a find cursor was made with win over its later \<open>maxTimeMS\<close> call: the constructor copies
  the option into the cursor's own options, the call changes the other set, and the cursor's own go on
  top.  Only without the option the call has an effect.
\<close>

theorem maxTimeMS_constructor_wins:
  assumes "findCursor_new filt options = Inr c" "fc_maxTimeMS v c = Inr c'" "find_initialize ns (cursor_options options) c' = Inr fo"
    "map_wf options"
  shows "fld ''maxTimeMS'' (co_options (fo_op fo)) = (if is_number (fld ''maxTimeMS'' options) then fld ''maxTimeMS'' options else v)"
proof -
  have built: "map_wf (fc_built c)" using assms(1,4) by (auto simp: findCursor_new_def rbind_Inr_iff Let_def split: if_splits)
  have v: "fc_built c' = map_set ''maxTimeMS'' v (fc_built c)"
    using assms(2) by (auto simp: fc_maxTimeMS_def fc_number_def fc_guard_def split: if_splits)
  have opts: "co_options (fo_op fo) = assign (assign [] (fc_built c')) (cursor_options options)"
    using assms(3)
    by (auto simp: find_initialize_def FindOperation_new_def rbind_Inr_iff Let_def split: if_splits dest!: CommandOperation_new_fields(1))
  have own: "map_of (cursor_options options) ''maxTimeMS''
      = (if is_number (fld ''maxTimeMS'' options) then Some (fld ''maxTimeMS'' options) else None)"
    by (simp add: cursor_options_def when_number_def when_set_def set_if_def jm.get_upd split: option.split)
  have "fld ''maxTimeMS'' (assign [] (fc_built c')) = v"
    using v fld_assign_wf [of "fc_built c'" "''maxTimeMS''" "[]"] built by (simp add: jm.get_upd)
  then show ?thesis unfolding opts by (simp add: fld_assign_wf [OF cursor_options_wf] own)
qed

theorem maxTimeMS_constructor_wins_witness:
  "\<exists>c c' fo. findCursor_new (JDoc []) [(''maxTimeMS'', JNum 100)] = Inr c \<and> fc_maxTimeMS (JNum 500) c = Inr c'
     \<and> find_initialize demo_ns (cursor_options [(''maxTimeMS'', JNum 100)]) c' = Inr fo \<and> fld ''maxTimeMS'' (co_options (fo_op fo)) = JNum 100"
proof -
  let ?o = "[(''maxTimeMS'', JNum 100)]"
  have "\<exists>c c' fo. findCursor_new (JDoc []) ?o = Inr c \<and> fc_maxTimeMS (JNum 500) c = Inr c' \<and> find_initialize demo_ns (cursor_options ?o) c' = Inr fo"
    by (simp add: findCursor_new_def nullish_def fc_maxTimeMS_def fc_number_def fc_guard_def find_initialize_def FindOperation_new_def
        is_object_def CommandOperation_new_def Explain_fromOptions_def Let_def fld_assign_wf [OF cursor_options_wf] assign_def
        cursor_options_def readConcern_option_def str_of_def ReadConcern_fromOptions_def when_number_def when_set_def set_if_def)
  then obtain c c' fo where r: "findCursor_new (JDoc []) ?o = Inr c" "fc_maxTimeMS (JNum 500) c = Inr c'"
    "find_initialize demo_ns (cursor_options ?o) c' = Inr fo" by blast
  from maxTimeMS_constructor_wins [OF r] r show ?thesis by (auto simp: map_wf_def map_keys_def)
qed

text \<open>
  Asking for database names only puts \<open>NaN\<close> into the command, whatever true value was given: the
  number is taken from the command that is being built instead of from the options.
\<close>

theorem nameOnly_is_NaN:
  assumes "truthy (fld ''nameOnly'' options)"
  shows "fld ''nameOnly'' (listDatabases_command options) = JNaN"
  using assms by (simp add: listDatabases_command_def js_toNumber_def Let_def)

theorem nameOnly_is_NaN_witness: "fld ''nameOnly'' (listDatabases_command [(''nameOnly'', JBool True)]) = JNaN"
  by (rule nameOnly_is_NaN) simp

text \<open>Setting a profiling level and reading it back agree.\<close>

theorem profiling_roundtrip:
  assumes "SetProfilingLevel_execute env level op = Inr (SendCommand ns c sent)" "co_explain op = None" "fld ''maxTimeMS'' (co_options op) = JUndef"
  shows "profiling_result (JDoc [(''ok'', JNum 1), (''was'', fld ''profile'' c)]) = Inr level"
proof -
  have l: "level \<in> {''off'', ''slow_only'', ''all''}" and e: "executeCommand env op [(''profile'', JNum (profile_of level))] = Inr (SendCommand ns c sent)"
    using assms(1) by (auto simp: SetProfilingLevel_execute_def split: if_splits)
  have "fld ''profile'' c = JNum (profile_of level)"
    using executeCommand_sends [OF e assms(2)] by (simp add: decorated_command_def Let_def split: option.split)
  with l show ?thesis by (auto simp: profiling_result_def get_prop_def level_of_def profile_of_def)
qed

theorem profiling_roundtrip_witness:
  "\<exists>ns c sent. SetProfilingLevel_execute demo_opEnv ''slow_only'' demo_op = Inr (SendCommand ns c sent)
     \<and> profiling_result (JDoc [(''ok'', JNum 1), (''was'', fld ''profile'' c)]) = Inr ''slow_only''"
proof -
  obtain ns c sent where r: "SetProfilingLevel_execute demo_opEnv ''slow_only'' demo_op = Inr (SendCommand ns c sent)"
    by (auto simp: SetProfilingLevel_execute_def executeCommand_def demo_op_def demo_opEnv_def Let_def)
  from profiling_roundtrip [OF r] r show ?thesis by (auto simp: demo_op_def)
qed

end
