(* ===== verification/Pausing.thy ===== *)
theory Pausing
  imports Documents "HOL-Library.Multiset"
begin

text \<open>
  \<open>src/querypie/\<close>: holding commands back.  While capturing, a command of a session is put into a queue
  before it is sent and again when its reply has come, and waits until the consumer resumes it or
  gives up.  A waiting command is a listener on the emitter of its session, with what it does next as
  data of type \<open>'k\<close>; listeners are kept in the order they registered.  Logging is left out.
\<close>

section \<open>State\<close>

datatype pausePhase = PrePhase | PostPhase

text \<open>The messages of the wire protocol, as far as they are told apart here.\<close>

datatype wireMessage = MGetMore | MKillCursor | MQuery doc | MMsg doc

record pauseContext =
  pc_id :: nat
  pc_sessionId :: string
  pc_phase :: pausePhase
  pc_command :: doc
  pc_result :: "jsval option"

record 'k waiter =
  wt_sessionId :: string
  wt_originalResult :: "jsval option"
  wt_next :: 'k

record 'k qpPause =
  qp_queue :: "pauseContext list"
  qp_current :: "pauseContext option"
  qp_isCommandCapturing :: bool
  qp_waiters :: "'k waiter list"

definition QpPause_new :: "'k qpPause" where
  "QpPause_new = \<lparr>qp_queue = [], qp_current = None, qp_isCommandCapturing = False, qp_waiters = []\<rparr>"

text \<open>What released commands are called with: an error, or the result.\<close>

type_synonym 'k released = "('k \<times> mongoError option \<times> jsval option) list"

section \<open>Listeners of a session\<close>

text \<open>
  An event of a session calls every listener registered on it, in order, and each takes itself off;
  \<open>updatedResult ?? originalResult\<close> is what a resumed one gets.
\<close>

definition aborted :: mongoError where
  "aborted = mk_error JSError ''[QPE] Command aborted''"

definition emit_resume :: "jsval option \<Rightarrow> string \<Rightarrow> 'k qpPause \<Rightarrow> 'k released \<times> 'k qpPause" where
  "emit_resume updated s q =
     (map (\<lambda>w. (wt_next w, None, coalesce updated (wt_originalResult w))) (filter (\<lambda>w. wt_sessionId w = s) (qp_waiters q)),
      q\<lparr>qp_waiters := filter (\<lambda>w. wt_sessionId w \<noteq> s) (qp_waiters q)\<rparr>)"

definition emit_abort :: "string \<Rightarrow> 'k qpPause \<Rightarrow> 'k released \<times> 'k qpPause" where
  "emit_abort s q =
     (map (\<lambda>w. (wt_next w, Some aborted, wt_originalResult w)) (filter (\<lambda>w. wt_sessionId w = s) (qp_waiters q)),
      q\<lparr>qp_waiters := filter (\<lambda>w. wt_sessionId w \<noteq> s) (qp_waiters q)\<rparr>)"

fun emit_all :: "(string \<Rightarrow> 'k qpPause \<Rightarrow> 'k released \<times> 'k qpPause) \<Rightarrow> pauseContext list \<Rightarrow> 'k qpPause \<Rightarrow> 'k released \<times> 'k qpPause" where
  "emit_all e [] q = ([], q)"
| "emit_all e (c # cs) q =
     (let (r1, q1) = e (pc_sessionId c) q; (r2, q2) = emit_all e cs q1 in (r1 @ r2, q2))"

section \<open>The consumer's operations\<close>

definition pause_start :: "'k qpPause \<Rightarrow> 'k qpPause" where
  "pause_start q = q\<lparr>qp_isCommandCapturing := True\<rparr>"

definition current_contexts :: "'k qpPause \<Rightarrow> pauseContext list" where
  "current_contexts q = (case qp_current q of Some c \<Rightarrow> [c] | None \<Rightarrow> [])"

text \<open>\<open>stop\<close> and \<open>abort\<close> end capturing and call the sessions of the current and of all queued contexts.\<close>

definition drain :: "(string \<Rightarrow> 'k qpPause \<Rightarrow> 'k released \<times> 'k qpPause) \<Rightarrow> 'k qpPause \<Rightarrow> 'k released \<times> 'k qpPause" where
  "drain e q =
     (let (r, q1) = emit_all e (current_contexts q @ qp_queue q) (q\<lparr>qp_isCommandCapturing := False\<rparr>)
      in (r, q1\<lparr>qp_queue := []\<rparr>))"

definition pause_stop :: "'k qpPause \<Rightarrow> 'k released \<times> 'k qpPause" where
  "pause_stop = drain (emit_resume None)"

definition pause_abort :: "'k qpPause \<Rightarrow> 'k released \<times> 'k qpPause" where
  "pause_abort = drain emit_abort"

definition pause_resume :: "jsval option \<Rightarrow> 'k qpPause \<Rightarrow> mongoError + 'k released \<times> 'k qpPause" where
  "pause_resume updated q =
     (case qp_current q of
        None \<Rightarrow> Inl (mk_error JSError ''Not paused currently'')
      | Some c \<Rightarrow> (let (r, q1) = emit_resume updated (pc_sessionId c) q in Inr (r, q1\<lparr>qp_current := None\<rparr>)))"

text \<open>One round of \<open>wait\<close>; without a context it goes on waiting for the next pause.\<close>

definition pause_wait :: "'k qpPause \<Rightarrow> pauseContext option \<times> 'k qpPause" where
  "pause_wait q =
     (case qp_current q of
        Some c \<Rightarrow> (Some c, q)
      | None \<Rightarrow> (case qp_queue q of
                   c # cs \<Rightarrow> (Some c, q\<lparr>qp_current := Some c, qp_queue := cs\<rparr>)
                 | [] \<Rightarrow> (None, q)))"

definition pause_enqueue :: "pauseContext \<Rightarrow> 'k qpPause \<Rightarrow> 'k qpPause" where
  "pause_enqueue c q = q\<lparr>qp_queue := qp_queue q @ [c]\<rparr>"

section \<open>Waiting\<close>

definition ignorables :: "string list" where
  "ignorables = [''ping'']"

definition isCommandIgnorable :: "doc \<Rightarrow> bool" where
  "isCommandIgnorable command = list_ex (\<lambda>i. fld i command = JNum 1) ignorables"

text \<open>The own properties of a message object, the ones its class declares.\<close>

definition message_object :: "wireMessage \<Rightarrow> doc" where
  "message_object m =
     (case m of
        MGetMore \<Rightarrow> [(''cursorId'', JNum 1)]
      | MKillCursor \<Rightarrow> [(''cursorIds'', JArr [])]
      | MQuery q \<Rightarrow> [(''ns'', JStr []), (''query'', JDoc q)]
      | MMsg c \<Rightarrow> [(''ns'', JStr []), (''command'', JDoc c), (''options'', JDoc []), (''requestId'', JNum 0)])"

definition waitInternal :: "string \<Rightarrow> jsval option \<Rightarrow> 'k \<Rightarrow> 'k qpPause \<Rightarrow> 'k qpPause" where
  "waitInternal s original k q =
     q\<lparr>qp_waiters := qp_waiters q @ [\<lparr>wt_sessionId = s, wt_originalResult = original, wt_next = k\<rparr>]\<rparr>"

text \<open>
  \<open>waitOnProtocol\<close>: whether the callback is called at once; if not, the command is queued and waits.
  Without a session (the null pause) nothing waits, and of the messages only \<open>Msg\<close> does.
\<close>

definition waitOnProtocol ::
    "string option \<Rightarrow> nat \<Rightarrow> pausePhase \<Rightarrow> wireMessage \<Rightarrow> bool \<Rightarrow> jsval option \<Rightarrow> 'k \<Rightarrow> 'k qpPause \<Rightarrow> bool \<times> 'k qpPause" where
  "waitOnProtocol session i phase message noPause result k q =
     (case (session, message) of
        (Some s, MMsg command) \<Rightarrow>
          if noPause \<or> \<not> qp_isCommandCapturing q \<or> isCommandIgnorable (message_object message) then (True, q)
          else (False, waitInternal s result k
                  (pause_enqueue \<lparr>pc_id = i, pc_sessionId = s, pc_phase = phase, pc_command = command, pc_result = result\<rparr> q))
      | _ \<Rightarrow> (True, q))"

text \<open>\<open>waitOnCommand\<close>, which the operations no longer call, looks at the command itself.\<close>

definition waitOnCommand ::
    "string option \<Rightarrow> nat \<Rightarrow> pausePhase \<Rightarrow> doc \<Rightarrow> bool \<Rightarrow> jsval option \<Rightarrow> 'k \<Rightarrow> 'k qpPause \<Rightarrow> bool \<times> 'k qpPause" where
  "waitOnCommand session i phase command noPause result k q =
     (case session of
        Some s \<Rightarrow>
          if noPause \<or> \<not> qp_isCommandCapturing q \<or> isCommandIgnorable command then (True, q)
          else (False, waitInternal s result k
                  (pause_enqueue \<lparr>pc_id = i, pc_sessionId = s, pc_phase = phase, pc_command = command, pc_result = result\<rparr> q))
      | None \<Rightarrow> (True, q))"

text \<open>
  \<open>createOrGet\<close>: the pause of a session, by the identifier of its server session in hexadecimal;
  sessions without one have no pause of their own.
\<close>

definition createOrGet :: "string option option \<Rightarrow> string option" where
  "createOrGet sessionId = (case sessionId of None \<Rightarrow> None | Some i \<Rightarrow> (if truthy_str i then i else None))"

section \<open>Nothing is left waiting\<close>

text \<open>Every waiting command has its session among the contexts to come, so it can be reached.\<close>

definition reachable_waiters :: "'k qpPause \<Rightarrow> bool" where
  "reachable_waiters q = (wt_sessionId ` set (qp_waiters q) \<subseteq> pc_sessionId ` set (current_contexts q @ qp_queue q))"

lemma mset_map_partition:
  "mset (map f (filter P xs)) + mset (map f (filter (\<lambda>x. \<not> P x) xs)) = mset (map f xs)"
  by (induction xs) auto

text \<open>The two events differ only in what the listeners are called with.\<close>

locale session_event =
  fixes e :: "string \<Rightarrow> 'k qpPause \<Rightarrow> 'k released \<times> 'k qpPause"
  assumes leaves: "snd (e s q) = q\<lparr>qp_waiters := filter (\<lambda>w. wt_sessionId w \<noteq> s) (qp_waiters q)\<rparr>"
    and calls: "map fst (fst (e s q)) = map wt_next (filter (\<lambda>w. wt_sessionId w = s) (qp_waiters q))"
begin

lemma emit_all_leaves:
  "snd (emit_all e cs q) = q\<lparr>qp_waiters := filter (\<lambda>w. wt_sessionId w \<notin> pc_sessionId ` set cs) (qp_waiters q)\<rparr>"
proof (induction cs arbitrary: q)
  case (Cons c cs)
  have "snd (emit_all e (c # cs) q) = snd (emit_all e cs (snd (e (pc_sessionId c) q)))"
    by (simp add: case_prod_beta Let_def)
  then show ?case by (auto simp: Cons.IH leaves conj_commute)
qed simp

lemma drained:
  assumes "reachable_waiters q"
  shows "qp_waiters (snd (drain e q)) = []" "qp_queue (snd (drain e q)) = []" "\<not> qp_isCommandCapturing (snd (drain e q))"
    "qp_current (snd (drain e q)) = qp_current q"
proof -
  have d: "snd (drain e q) = q\<lparr>qp_isCommandCapturing := False,
      qp_waiters := filter (\<lambda>w. wt_sessionId w \<notin> pc_sessionId ` set (current_contexts q @ qp_queue q)) (qp_waiters q), qp_queue := []\<rparr>"
    by (simp add: drain_def case_prod_beta emit_all_leaves)
  show "qp_waiters (snd (drain e q)) = []" using assms unfolding d reachable_waiters_def by (auto simp: filter_empty_conv)
  show "qp_queue (snd (drain e q)) = []" "\<not> qp_isCommandCapturing (snd (drain e q))" "qp_current (snd (drain e q)) = qp_current q"
    by (simp_all add: d)
qed

lemma emit_all_calls:
  "mset (map fst (fst (emit_all e cs q))) + mset (map wt_next (qp_waiters (snd (emit_all e cs q)))) = mset (map wt_next (qp_waiters q))"
proof (induction cs arbitrary: q)
  case (Cons c cs)
  obtain r1 q1 where e1: "e (pc_sessionId c) q = (r1, q1)" by (cases "e (pc_sessionId c) q")
  obtain r2 q2 where e2: "emit_all e cs q1 = (r2, q2)" by (cases "emit_all e cs q1")
  have "mset (map fst r1) + mset (map wt_next (qp_waiters q1)) = mset (map wt_next (qp_waiters q))"
    using calls [of "pc_sessionId c" q] leaves [of "pc_sessionId c" q] e1
      mset_map_partition [of wt_next "\<lambda>w. wt_sessionId w = pc_sessionId c" "qp_waiters q"] by simp
  with Cons.IH [of q1] e1 e2 show ?case by (simp add: union_assoc)
qed simp

lemma drain_calls:
  assumes "reachable_waiters q"
  shows "mset (map fst (fst (drain e q))) = mset (map wt_next (qp_waiters q))"
  using emit_all_calls [of "current_contexts q @ qp_queue q" "q\<lparr>qp_isCommandCapturing := False\<rparr>"] drained(1) [OF assms]
  by (simp add: drain_def case_prod_beta)

end

interpretation resume_event: session_event "emit_resume updated"
  by unfold_locales (simp_all add: emit_resume_def comp_def)

interpretation abort_event: session_event emit_abort
  by unfold_locales (simp_all add: emit_abort_def comp_def)

text \<open>What happens to a pause: the consumer's operations and commands that come to wait.\<close>

datatype 'k pauseOp = OpStart | OpStop | OpAbort | OpResume "jsval option" | OpWait
  | OpCommand "string option" nat pausePhase wireMessage bool "jsval option" 'k

fun pause_step :: "'k qpPause \<Rightarrow> 'k pauseOp \<Rightarrow> 'k qpPause" where
  "pause_step q OpStart = pause_start q"
| "pause_step q OpStop = snd (pause_stop q)"
| "pause_step q OpAbort = snd (pause_abort q)"
| "pause_step q (OpResume d) = (case pause_resume d q of Inr (_, q1) \<Rightarrow> q1 | Inl _ \<Rightarrow> q)"
| "pause_step q OpWait = snd (pause_wait q)"
| "pause_step q (OpCommand s i p m b r k) = snd (waitOnProtocol s i p m b r k q)"

lemma reachable_wait: "reachable_waiters q \<Longrightarrow> reachable_waiters (snd (pause_wait q))"
  unfolding reachable_waiters_def pause_wait_def current_contexts_def
  by (cases "qp_current q"; cases "qp_queue q") auto

lemma reachable_drained:
  "reachable_waiters q \<Longrightarrow> reachable_waiters (snd (pause_stop q))" "reachable_waiters q \<Longrightarrow> reachable_waiters (snd (pause_abort q))"
  using resume_event.drained(1) [of q None] abort_event.drained(1) [of q]
  by (simp_all add: pause_stop_def pause_abort_def reachable_waiters_def)

lemma reachable_resume:
  assumes "reachable_waiters q" "pause_resume d q = Inr (r, q')"
  shows "reachable_waiters q'"
proof (cases "qp_current q")
  case None
  with assms(2) show ?thesis by (simp add: pause_resume_def)
next
  case (Some c)
  with assms(2) have "q' = q\<lparr>qp_waiters := filter (\<lambda>w. wt_sessionId w \<noteq> pc_sessionId c) (qp_waiters q), qp_current := None\<rparr>"
    by (simp add: pause_resume_def emit_resume_def)
  moreover have "wt_sessionId ` set (qp_waiters q) \<subseteq> insert (pc_sessionId c) (pc_sessionId ` set (qp_queue q))"
    using assms(1) Some by (simp add: reachable_waiters_def current_contexts_def)
  ultimately show ?thesis by (auto simp: reachable_waiters_def current_contexts_def)
qed

lemma reachable_command: "reachable_waiters q \<Longrightarrow> reachable_waiters (snd (waitOnProtocol s i p m b r k q))"
  by (cases m; cases s) (auto simp: waitOnProtocol_def waitInternal_def pause_enqueue_def reachable_waiters_def current_contexts_def
        split: option.splits)

lemma reachable_start: "reachable_waiters (pause_start q) = reachable_waiters q"
  by (simp add: reachable_waiters_def pause_start_def current_contexts_def)

lemma reachable_step: "reachable_waiters q \<Longrightarrow> reachable_waiters (pause_step q x)"
  by (cases x) (auto simp: reachable_start reachable_wait reachable_drained reachable_command intro: reachable_resume split: sum.splits)

lemma reachable_run: "reachable_waiters q \<Longrightarrow> reachable_waiters (foldl pause_step q xs)"
  by (induction xs arbitrary: q) (auto intro: reachable_step)

lemma reachable_new: "reachable_waiters QpPause_new"
  by (simp add: reachable_waiters_def QpPause_new_def)

section \<open>What capturing does to commands\<close>

text \<open>
  Ending a capture lets go of every command: whatever was paused, waited for and resumed before,
  \<open>stop\<close> calls each waiting command once and without an error, \<open>abort\<close> calls each once with the error,
  and afterwards none waits and none is queued.
\<close>

theorem stop_releases_everyone:
  fixes xs :: "'k pauseOp list"
  defines "q \<equiv> foldl pause_step QpPause_new xs"
  shows "mset (map fst (fst (pause_stop q))) = mset (map wt_next (qp_waiters q)) \<and> (\<forall>x\<in>set (fst (pause_stop q)). fst (snd x) = None)
    \<and> mset (map fst (fst (pause_abort q))) = mset (map wt_next (qp_waiters q)) \<and> (\<forall>x\<in>set (fst (pause_abort q)). fst (snd x) = Some aborted)
    \<and> qp_waiters (snd (pause_stop q)) = [] \<and> qp_queue (snd (pause_stop q)) = []
    \<and> qp_waiters (snd (pause_abort q)) = [] \<and> qp_queue (snd (pause_abort q)) = []"
proof -
  have r: "reachable_waiters q" unfolding q_def by (rule reachable_run [OF reachable_new])
  have "\<forall>x\<in>set (fst (emit_all (emit_resume None) cs p)). fst (snd x) = None" for cs and p :: "'k qpPause"
    by (induction cs arbitrary: p) (simp_all add: emit_resume_def case_prod_beta ball_Un)
  moreover have "\<forall>x\<in>set (fst (emit_all emit_abort cs p)). fst (snd x) = Some aborted" for cs and p :: "'k qpPause"
    by (induction cs arbitrary: p) (simp_all add: emit_abort_def case_prod_beta ball_Un)
  ultimately have "\<forall>x\<in>set (fst (pause_stop q)). fst (snd x) = None" "\<forall>x\<in>set (fst (pause_abort q)). fst (snd x) = Some aborted"
    by (simp_all add: pause_stop_def pause_abort_def drain_def case_prod_beta)
  then show ?thesis
    using resume_event.drain_calls [OF r, of None] abort_event.drain_calls [OF r] resume_event.drained(1,2) [OF r, of None]
      abort_event.drained(1,2) [OF r]
    by (simp add: pause_stop_def pause_abort_def)
qed

text \<open>
  \<open>stop\<close> and \<open>abort\<close> forget to clear the current context: when a new capture starts, \<open>wait\<close> returns the
  context of the last one, whose command was let go long ago, instead of the first new one.
\<close>

theorem stale_context_after_stop:
  assumes "fst (pause_wait q) = Some c"
  shows "fst (pause_wait (snd (waitOnProtocol (Some s) i p (MMsg cmd) False r k (pause_start (snd (pause_stop (snd (pause_wait q)))))))) = Some c"
proof -
  have cur: "qp_current (snd (pause_wait q)) = Some c"
    using assms by (auto simp: pause_wait_def split: option.splits list.splits)
  have keep: "qp_current (snd (emit_all (emit_resume None) cs p)) = qp_current p" for cs and p :: "'a qpPause"
    by (simp add: resume_event.emit_all_leaves)
  have "qp_current (pause_start (snd (pause_stop (snd (pause_wait q))))) = Some c"
    using cur keep by (simp add: pause_start_def pause_stop_def drain_def case_prod_beta)
  then show ?thesis by (simp add: waitOnProtocol_def waitInternal_def pause_enqueue_def pause_wait_def)
qed

text \<open>
  Resuming the current command resumes every command of its session that waits, and a replacement
  result is given to all of them, not only to the command it was made for.
\<close>

theorem resume_releases_session:
  assumes "qp_current q = Some c"
  shows "\<exists>q'. pause_resume (Some d) q
      = Inr (map (\<lambda>w. (wt_next w, None, Some d)) (filter (\<lambda>w. wt_sessionId w = pc_sessionId c) (qp_waiters q)), q')
    \<and> qp_queue q' = qp_queue q"
  using assms by (simp add: pause_resume_def emit_resume_def)

text \<open>
  Pings are meant to pass, but on the wire the test looks at the message and not at the command in
  it, so that a ping of a session waits like any other command; on the command itself the test works.
\<close>

theorem ping_is_paused:
  assumes "qp_isCommandCapturing q"
  shows "fst (waitOnProtocol (Some s) i p (MMsg [(''ping'', JNum 1)]) False r k q) = False
    \<and> fst (waitOnCommand (Some s) i p [(''ping'', JNum 1)] False r k q) = True"
  using assms by (simp add: waitOnProtocol_def waitOnCommand_def isCommandIgnorable_def ignorables_def message_object_def)

section \<open>A concrete capture\<close>

definition demo_pause :: "nat qpPause" where
  "demo_pause = foldl pause_step QpPause_new
     [OpStart, OpCommand (Some ''s'') 1 PrePhase (MMsg [(''find'', JStr ''c'')]) False None 10,
      OpCommand (Some ''s'') 2 PrePhase (MMsg [(''drop'', JStr ''c'')]) False None 11, OpWait]"

lemma demo_pause_facts:
  "fst (pause_wait demo_pause) = Some \<lparr>pc_id = 1, pc_sessionId = ''s'', pc_phase = PrePhase, pc_command = [(''find'', JStr ''c'')], pc_result = None\<rparr>"
  "qp_current demo_pause = Some \<lparr>pc_id = 1, pc_sessionId = ''s'', pc_phase = PrePhase, pc_command = [(''find'', JStr ''c'')], pc_result = None\<rparr>"
  "map wt_next (qp_waiters demo_pause) = [10, 11]" "qp_isCommandCapturing demo_pause" "map wt_sessionId (qp_waiters demo_pause) = [''s'', ''s'']"
  by code_simp+

theorem stop_releases_everyone_witness:
  "mset (map fst (fst (pause_stop demo_pause))) = {#10, 11#} \<and> qp_waiters (snd (pause_stop demo_pause)) = []"
proof -
  let ?xs = "[OpStart, OpCommand (Some ''s'') 1 PrePhase (MMsg [(''find'', JStr ''c'')]) False None (10::nat),
      OpCommand (Some ''s'') 2 PrePhase (MMsg [(''drop'', JStr ''c'')]) False None 11, OpWait]"
  have "mset (map wt_next (qp_waiters demo_pause)) = {#10, 11#}" by (simp add: demo_pause_facts)
  with stop_releases_everyone [of ?xs] show ?thesis unfolding demo_pause_def by simp
qed

theorem stale_context_after_stop_witness:
  "fst (pause_wait (snd (waitOnProtocol (Some ''t'') 3 PrePhase (MMsg []) False None 12 (pause_start (snd (pause_stop (snd (pause_wait demo_pause)))))))) =
     Some \<lparr>pc_id = 1, pc_sessionId = ''s'', pc_phase = PrePhase, pc_command = [(''find'', JStr ''c'')], pc_result = None\<rparr>"
  by (rule stale_context_after_stop [OF demo_pause_facts(1)])

theorem resume_releases_session_witness:
  "\<exists>r q'. pause_resume (Some (JNum 5)) demo_pause = Inr (r, q') \<and> length r = 2 \<and> length (qp_queue q') = 1"
proof -
  have f: "length (filter (\<lambda>w. wt_sessionId w = ''s'') (qp_waiters demo_pause)) = 2" "length (qp_queue demo_pause) = 1" by code_simp+
  show ?thesis using resume_releases_session [OF demo_pause_facts(2), of "JNum 5"] f by auto
qed

theorem ping_is_paused_witness:
  "fst (waitOnProtocol (Some ''s'') 4 PrePhase (MMsg [(''ping'', JNum 1)]) False None 13 demo_pause) = False"
  using ping_is_paused [OF demo_pause_facts(4)] by blast

end
