(* ===== verification/Connection.thy ===== *)
theory Connection
  imports Pausing
begin

text \<open>
  \<open>src/cmap/connection.ts\<close> and \<open>src/cmap/stream_description.ts\<close>: a connection matches replies to the
  requests in flight.  The caller of a request is a number; what its callback is called with is logged
  in \<open>cn_answers\<close>, the calls on the stream, the sessions and the listeners in \<open>cn_events\<close>.  Both
  identifiers of a request, its request number and its caller, come from one counter: the numbers of
  the driver are unique too, since every connection takes them from one global counter.  Encryption
  is left out.
\<close>

section \<open>Stream descriptions\<close>

record streamDescription =
  sdn_address :: string
  sdn_type :: string
  sdn_fields :: doc
  sdn_loadBalanced :: bool
  sdn_compressors :: "string list"
  sdn_compressor :: "string option"
  sdn_mock :: jsval

definition RESPONSE_FIELDS :: "string list" where
  "RESPONSE_FIELDS = [''minWireVersion'', ''maxWireVersion'', ''maxBsonObjectSize'', ''maxMessageSizeBytes'', ''maxWriteBatchSize'',
     ''logicalSessionTimeoutMinutes'']"

definition StreamDescription_new :: "string \<Rightarrow> doc \<Rightarrow> streamDescription" where
  "StreamDescription_new address options =
     \<lparr>sdn_address = address, sdn_type = ''Unknown'',
      sdn_fields = [(''maxBsonObjectSize'', JNum 16777216), (''maxMessageSizeBytes'', JNum 48000000),
        (''maxWriteBatchSize'', JNum 100000), (''logicalSessionTimeoutMinutes'', fld ''logicalSessionTimeoutMinutes'' options)],
      sdn_loadBalanced = truthy (fld ''loadBalanced'' options),
      sdn_compressors = (case fld ''compressors'' options of JArr cs \<Rightarrow> map js_show cs | _ \<Rightarrow> []),
      sdn_compressor = None, sdn_mock = JUndef\<rparr>"

text \<open>The server type of the response (theory \<open>Server_Description\<close>) is an argument.\<close>

definition receiveResponse :: "string \<Rightarrow> doc \<Rightarrow> streamDescription \<Rightarrow> streamDescription" where
  "receiveResponse serverType response d =
     (let fields = foldl (\<lambda>fs k. set_if (\<not> nullish (fld k response)) k (fld k response) fs) (sdn_fields d) RESPONSE_FIELDS;
          mock = (if map_has response ''__nodejs_mock_server__'' then fld ''__nodejs_mock_server__'' response else sdn_mock d)
      in d\<lparr>sdn_type := serverType, sdn_fields := fields, sdn_mock := mock,
           sdn_compressor := (case fld ''compression'' response of
             JArr cs \<Rightarrow> (case filter (\<lambda>c. JStr c \<in> set cs) (sdn_compressors d) of c # _ \<Rightarrow> Some c | [] \<Rightarrow> None)
           | _ \<Rightarrow> sdn_compressor d)\<rparr>)"

definition conn_hasSessionSupport :: "streamDescription \<Rightarrow> bool" where
  "conn_hasSessionSupport d = (\<not> nullish (fld ''logicalSessionTimeoutMinutes'' (sdn_fields d)) \<or> sdn_loadBalanced d)"

definition conn_maxWireVersion :: "streamDescription \<Rightarrow> int" where
  "conn_maxWireVersion d = (case fld ''maxWireVersion'' (sdn_fields d) of JNum n \<Rightarrow> n | _ \<Rightarrow> 0)"

definition supportsOpMsg :: "streamDescription \<Rightarrow> bool" where
  "supportsOpMsg d = (conn_maxWireVersion d \<ge> 6 \<and> \<not> truthy (sdn_mock d))"

section \<open>Connections\<close>

record opDescription =
  od_requestId :: nat
  od_owner :: nat
  od_message :: wireMessage
  od_session :: "string option"
  od_fullResult :: bool
  od_noResponse :: bool
  od_command :: bool
  od_socketTimeoutOverride :: bool
  od_noPause :: bool

text \<open>What a paused request does next: send its message, or hand over its reply.\<close>

datatype continuation = ContinueWrite opDescription | ContinueReply opDescription

fun continued :: "continuation \<Rightarrow> opDescription" where
  "continued (ContinueWrite od) = od"
| "continued (ContinueReply od) = od"

datatype connEvent = CommandStarted nat | CommandSucceeded nat | CommandFailed nat | ClusterTimeReceived jsval
  | SessionUpdated string jsval | ConnectionClosed | StreamTimeout int | StreamDestroyed | StreamEnded

record connection =
  cn_id :: string
  cn_address :: string
  cn_socketTimeoutMS :: int
  cn_monitorCommands :: bool
  cn_closed :: bool
  cn_destroyed :: bool
  cn_hello :: "doc option"
  cn_description :: streamDescription
  cn_clusterTime :: jsval
  cn_generation :: nat
  cn_lastUseTime :: int
  cn_queue :: "(nat, opDescription) jsmap"
  cn_compressing :: "opDescription list"
  cn_answers :: "(nat \<times> mongoError option \<times> jsval option) list"
  cn_events :: "connEvent list"

definition Connection_new :: "string \<Rightarrow> string \<Rightarrow> int option \<Rightarrow> bool \<Rightarrow> nat \<Rightarrow> int \<Rightarrow> doc \<Rightarrow> connection" where
  "Connection_new i address socketTimeoutMS monitorCommands generation now options =
     \<lparr>cn_id = i, cn_address = address, cn_socketTimeoutMS = the_default 0 socketTimeoutMS, cn_monitorCommands = monitorCommands,
      cn_closed = False, cn_destroyed = False, cn_hello = None, cn_description = StreamDescription_new address options,
      cn_clusterTime = JUndef, cn_generation = generation, cn_lastUseTime = now, cn_queue = [], cn_compressing = [],
      cn_answers = [], cn_events = []\<rparr>"

definition set_hello :: "string \<Rightarrow> doc \<Rightarrow> connection \<Rightarrow> connection" where
  "set_hello serverType response c =
     c\<lparr>cn_description := receiveResponse serverType response (cn_description c), cn_hello := Some response\<rparr>"

definition idleTime :: "int \<Rightarrow> connection \<Rightarrow> int" where
  "idleTime now c = calculateDurationInMs now (cn_lastUseTime c)"

definition markAvailable :: "int \<Rightarrow> connection \<Rightarrow> connection" where
  "markAvailable now c = c\<lparr>cn_lastUseTime := now\<rparr>"

definition log_event :: "connEvent \<Rightarrow> connection \<Rightarrow> connection" where
  "log_event e c = c\<lparr>cn_events := cn_events c @ [e]\<rparr>"

text \<open>\<open>destroy\<close>: at once with force, else when the stream has ended.\<close>

definition conn_destroy :: "bool \<Rightarrow> connection \<Rightarrow> connection" where
  "conn_destroy force c =
     (if cn_destroyed c then c
      else (log_event (if force then StreamDestroyed else StreamEnded) c)\<lparr>cn_destroyed := True\<rparr>)"

section \<open>Answering\<close>

record sys =
  sy_conn :: connection
  sy_pause :: "continuation qpPause"

definition on_conn :: "(connection \<Rightarrow> connection) \<Rightarrow> sys \<Rightarrow> sys" where
  "on_conn f s = s\<lparr>sy_conn := f (sy_conn s)\<rparr>"

text \<open>The original callback: the monitoring events, then the caller.\<close>

definition reply_failed :: "jsval option \<Rightarrow> bool" where
  "reply_failed r = (case r of Some v \<Rightarrow> get_prop ''ok'' v = JNum 0 \<or> truthy (get_prop ''$err'' v) | None \<Rightarrow> False)"

definition answer :: "opDescription \<Rightarrow> mongoError option \<Rightarrow> jsval option \<Rightarrow> sys \<Rightarrow> sys" where
  "answer od err reply =
     on_conn (\<lambda>c. let c1 = (if cn_monitorCommands c
                             then log_event (if err \<noteq> None \<or> reply_failed reply then CommandFailed (od_requestId od)
                                             else CommandSucceeded (od_requestId od)) c
                             else c)
                   in c1\<lparr>cn_answers := cn_answers c1 @ [(od_owner od, err, reply)]\<rparr>)"

text \<open>The callback of a request in flight: errors go through, results wait for the consumer.\<close>

definition new_callback :: "opDescription \<Rightarrow> mongoError option \<Rightarrow> jsval option \<Rightarrow> sys \<Rightarrow> sys" where
  "new_callback od err result s =
     (case err of
        Some e \<Rightarrow> answer od (Some e) None s
      | None \<Rightarrow>
          (case waitOnProtocol (od_session od) (od_requestId od) PostPhase (od_message od) (od_noPause od) result (ContinueReply od) (sy_pause s) of
             (True, _) \<Rightarrow> answer od None result s
           | (False, q) \<Rightarrow> s\<lparr>sy_pause := q\<rparr>))"

section \<open>Writing\<close>

datatype writeOutcome = Written | Compressing | WriteThrew mongoError

definition write_send :: "(nat \<Rightarrow> writeOutcome) \<Rightarrow> opDescription \<Rightarrow> sys \<Rightarrow> sys" where
  "write_send outcome od s =
     (let s1 = (if od_noResponse od then s else on_conn (\<lambda>c. c\<lparr>cn_queue := map_set (od_requestId od) od (cn_queue c)\<rparr>) s)
      in case outcome (od_requestId od) of
           WriteThrew e \<Rightarrow>
             if od_noResponse od then new_callback od None None s1
             else new_callback od (Some e) None (on_conn (\<lambda>c. c\<lparr>cn_queue := map_delete (od_requestId od) (cn_queue c)\<rparr>) s1)
         | w \<Rightarrow>
             (let s2 = (if w = Compressing then on_conn (\<lambda>c. c\<lparr>cn_compressing := cn_compressing c @ [od]\<rparr>) s1 else s1)
              in if od_noResponse od then new_callback od None None s2 else s2))"

record writeOptions =
  wo_message :: wireMessage
  wo_session :: "string option"
  wo_fullResult :: bool
  wo_noResponse :: bool
  wo_command :: bool
  wo_socketTimeoutMS :: "int option"
  wo_noPause :: bool

definition describe_op :: "nat \<Rightarrow> writeOptions \<Rightarrow> opDescription" where
  "describe_op n wo =
     \<lparr>od_requestId = n, od_owner = n, od_message = wo_message wo, od_session = wo_session wo, od_fullResult = wo_fullResult wo,
      od_noResponse = wo_noResponse wo, od_command = wo_command wo, od_socketTimeoutOverride = (wo_socketTimeoutMS wo \<noteq> None),
      od_noPause = wo_noPause wo\<rparr>"

definition write_begin :: "nat \<Rightarrow> writeOptions \<Rightarrow> sys \<Rightarrow> sys" where
  "write_begin n wo =
     on_conn (\<lambda>c. let c1 = (case wo_socketTimeoutMS wo of Some t \<Rightarrow> log_event (StreamTimeout t) c | None \<Rightarrow> c)
                   in if cn_monitorCommands c1 then log_event (CommandStarted n) c1 else c1)"

definition write_op :: "(nat \<Rightarrow> writeOutcome) \<Rightarrow> nat \<Rightarrow> writeOptions \<Rightarrow> sys \<Rightarrow> sys" where
  "write_op outcome n wo s =
     (let od = describe_op n wo; s1 = write_begin n wo s
      in case waitOnProtocol (od_session od) n PrePhase (od_message od) (od_noPause od) None (ContinueWrite od) (sy_pause s1) of
           (True, _) \<Rightarrow> write_send outcome od s1
         | (False, q) \<Rightarrow> s1\<lparr>sy_pause := q\<rparr>)"

text \<open>What a released request does, with the arguments its listener was called with.\<close>

fun continue_with :: "(nat \<Rightarrow> writeOutcome) \<Rightarrow> continuation \<times> mongoError option \<times> jsval option \<Rightarrow> sys \<Rightarrow> sys" where
  "continue_with outcome (ContinueWrite od, Some e, _) s = answer od (Some e) None s"
| "continue_with outcome (ContinueWrite od, None, _) s = write_send outcome od s"
| "continue_with outcome (ContinueReply od, Some e, _) s = answer od (Some e) None s"
| "continue_with outcome (ContinueReply od, None, r) s = answer od None r s"

definition continue_all :: "(nat \<Rightarrow> writeOutcome) \<Rightarrow> continuation released \<times> continuation qpPause \<Rightarrow> sys \<Rightarrow> sys" where
  "continue_all outcome rq s = fold (continue_with outcome) (fst rq) (s\<lparr>sy_pause := snd rq\<rparr>)"

section \<open>Replies\<close>

record replyMessage =
  rm_requestId :: nat
  rm_responseTo :: nat
  rm_moreToCome :: bool
  rm_parsed :: "mongoError + doc list"

definition wc_result :: "jsval \<Rightarrow> wcResult" where
  "wc_result d = \<lparr>r_ok = num_of (get_prop ''ok'' d), r_errmsg = str_of (get_prop ''errmsg'' d), r_code = num_of (get_prop ''code'' d),
     r_codeName = str_of (get_prop ''codeName'' d), r_errorLabels = strs_of (get_prop ''errorLabels'' d)\<rparr>"

text \<open>The error a reply stands for.\<close>

definition reply_error :: "bool \<Rightarrow> doc \<Rightarrow> mongoError option" where
  "reply_error command d =
     (let failed = (fld ''ok'' d = JNum 0 \<or> truthy (fld ''$err'' d) \<or> truthy (fld ''errmsg'' d))
      in if command \<and> truthy (fld ''writeConcernError'' d)
         then Some (MongoWriteConcernError_new (error_description (fld ''writeConcernError'' d)) (Some (wc_result (JDoc d))))
         else if failed \<or> (command \<and> truthy (fld ''code'' d)) then Some (server_error (JDoc d))
         else None)"

definition message_value :: "doc list \<Rightarrow> jsval" where
  "message_value docs = JDoc [(''documents'', JArr (map JDoc docs))]"

definition learn :: "opDescription \<Rightarrow> doc \<Rightarrow> connection \<Rightarrow> connection" where
  "learn od d c =
     (let c1 = (case od_session od of Some s \<Rightarrow> log_event (SessionUpdated s (JDoc d)) c | None \<Rightarrow> c)
      in if truthy (fld ''$clusterTime'' d)
         then log_event (ClusterTimeReceived (fld ''$clusterTime'' d)) (c1\<lparr>cn_clusterTime := fld ''$clusterTime'' d\<rparr>)
         else c1)"

definition messageHandler :: "replyMessage \<Rightarrow> sys \<Rightarrow> sys" where
  "messageHandler m s =
     (case map_of (cn_queue (sy_conn s)) (rm_responseTo m) of
        None \<Rightarrow> s
      | Some od \<Rightarrow>
          (let s1 = on_conn (\<lambda>c. c\<lparr>cn_queue := map_delete (rm_responseTo m) (cn_queue c)\<rparr>) s;
               s2 = (if rm_moreToCome m then on_conn (\<lambda>c. c\<lparr>cn_queue := map_set (rm_requestId m) od (cn_queue c)\<rparr>) s1
                     else if od_socketTimeoutOverride od then on_conn (\<lambda>c. log_event (StreamTimeout (cn_socketTimeoutMS c)) c) s1
                     else s1)
           in case rm_parsed m of
                Inl e \<Rightarrow> new_callback od (Some e) None s2
              | Inr [] \<Rightarrow> new_callback od None (if od_fullResult od then Some (message_value []) else None) s2
              | Inr (d # ds) \<Rightarrow>
                  (let s3 = on_conn (learn od d) s2
                   in case reply_error (od_command od) d of
                        Some e \<Rightarrow> new_callback od (Some e) None s3
                      | None \<Rightarrow> new_callback od None (Some (if od_fullResult od then message_value (d # ds) else JDoc d)) s3)))"

section \<open>Trouble\<close>

datatype issue = IssueTimeout | IssueClose | IssueDestroy "mongoError option"

definition issue_error :: "connection \<Rightarrow> issue \<Rightarrow> mongoError option" where
  "issue_error c i =
     (let who = ''connection '' @ cn_id c @ '' to '' @ cn_address c
      in case i of
           IssueTimeout \<Rightarrow> Some ((mk_error MongoNetworkTimeoutError (who @ '' timed out''))\<lparr>e_beforeHandshake := Some (cn_hello c = None)\<rparr>)
         | IssueClose \<Rightarrow> Some (MongoNetworkError_new (who @ '' closed'') None)
         | IssueDestroy e \<Rightarrow> e)"

definition handleIssue :: "issue \<Rightarrow> sys \<Rightarrow> sys" where
  "handleIssue i s =
     (if cn_closed (sy_conn s) then s
      else
        (let s1 = on_conn (\<lambda>c. (if i = IssueClose then c else log_event StreamDestroyed c)\<lparr>cn_closed := True\<rparr>) s;
             s2 = fold (\<lambda>od. new_callback od (issue_error (sy_conn s) i) None) (map snd (cn_queue (sy_conn s1))) s1
         in on_conn (\<lambda>c. log_event ConnectionClosed (c\<lparr>cn_queue := []\<rparr>)) s2))"

section \<open>Commands\<close>

text \<open>
  \<open>command\<close>: the document that is sent.  Applying the session (theory \<open>Sessions\<close>) and the newer of two
  cluster times are arguments.
\<close>

record serverApi =
  sa_version :: string
  sa_strict :: "bool option"
  sa_deprecationErrors :: "bool option"

definition with_serverApi :: "serverApi option \<Rightarrow> doc \<Rightarrow> doc" where
  "with_serverApi api cmd =
     (case api of
        None \<Rightarrow> cmd
      | Some a \<Rightarrow>
          (let c1 = map_set ''apiVersion'' (JStr (sa_version a)) cmd;
               c2 = (case sa_strict a of Some b \<Rightarrow> map_set ''apiStrict'' (JBool b) c1 | None \<Rightarrow> c1)
           in case sa_deprecationErrors a of Some b \<Rightarrow> map_set ''apiDeprecationErrors'' (JBool b) c2 | None \<Rightarrow> c2))"

record sessionPart =
  sp_clusterTime :: jsval
  sp_apply :: "doc \<Rightarrow> mongoError + doc"

definition command_document ::
    "(jsval \<Rightarrow> jsval \<Rightarrow> bool) \<Rightarrow> serverApi option \<Rightarrow> sessionPart option \<Rightarrow> bool \<Rightarrow> jsval option \<Rightarrow> connection \<Rightarrow> doc \<Rightarrow> mongoError + doc" where
  "command_document newer api session sharded secondaryPreference c cmd =
     (let base = with_serverApi api (assign [] cmd); own = cn_clusterTime c;
          applied = (case session of
                       Some p \<Rightarrow>
                         if conn_hasSessionSupport (cn_description c)
                         then rbind (sp_apply p base)
                                (\<lambda>d. Inr (d, if truthy (sp_clusterTime p) \<and> truthy own \<and> newer (sp_clusterTime p) own
                                               then sp_clusterTime p else own))
                         else Inr (base, own)
                     | None \<Rightarrow> Inr (base, own))
      in rbind applied
           (\<lambda>(d, clusterTime).
              let d1 = set_if (truthy clusterTime) ''$clusterTime'' clusterTime d
              in Inr (case secondaryPreference of
                        Some rp \<Rightarrow> if sharded \<and> \<not> supportsOpMsg (cn_description c)
                                   then [(''$query'', JDoc d1), (''$readPreference'', rp)] else d1
                      | None \<Rightarrow> d1)))"

text \<open>The legacy query: how many documents the first reply is asked for.\<close>

definition query_numberToReturn :: "int option \<Rightarrow> int \<Rightarrow> bool \<Rightarrow> int" where
  "query_numberToReturn limit batchSize isExplain =
     (if isExplain then - \<bar>the_default 0 limit\<bar>
      else (case limit of
              Some l \<Rightarrow> if l \<noteq> 0 \<and> (l < 0 \<or> l < batchSize \<or> (l > 0 \<and> batchSize = 0)) then l else batchSize
            | None \<Rightarrow> batchSize))"

definition getMore_command :: "jsval \<Rightarrow> string option \<Rightarrow> doc \<Rightarrow> doc" where
  "getMore_command cursorId coll options =
     (let c0 = [(''getMore'', cursorId), (''collection'', case coll of Some x \<Rightarrow> JStr x | None \<Rightarrow> JUndef)];
          c1 = (case fld ''batchSize'' options of JNum n \<Rightarrow> map_set ''batchSize'' (JNum \<bar>n\<bar>) c0 | _ \<Rightarrow> c0)
      in set_if (is_number (fld ''maxAwaitTimeMS'' options)) ''maxTimeMS'' (fld ''maxAwaitTimeMS'' options) c1)"

definition killCursors_result :: "jsval \<Rightarrow> mongoError + jsval" where
  "killCursors_result response =
     (if truthy (get_prop ''cursorNotFound'' response) then Inl (MongoNetworkError_new ''cursor killed or timed out'' None)
      else (case get_prop ''documents'' response of
              JArr (d # _) \<Rightarrow> Inr d
            | _ \<Rightarrow> Inl (mk_error MongoRuntimeError ''invalid killCursors result returned'')))"

end
