(* ===== verification/Connection_Requests.thy ===== *)
theory Connection_Requests
  imports Connection
begin

text \<open>
  Requests on a connection, over whole runs: every request ever written is answered once, in flight or
  paused, and in no two places at once; what closing does; and that on requests that are not held back
  the pausing code behaves like the code it replaced.
\<close>

section \<open>Runs\<close>

datatype connStep = DoWrite writeOptions | DoReply replyMessage | DoIssue issue | DoCompressed nat "mongoError option"
  | DoStart | DoStop | DoAbort | DoResume "jsval option" | DoWait

text \<open>A run counts the requests; \<open>outcome\<close> says how writing each of them went.\<close>

definition compressed :: "nat \<Rightarrow> mongoError option \<Rightarrow> sys \<Rightarrow> sys" where
  "compressed i err s =
     (if i < length (cn_compressing (sy_conn s)) then
        (let od = cn_compressing (sy_conn s) ! i;
             s1 = on_conn (\<lambda>c. c\<lparr>cn_compressing := take i (cn_compressing c) @ drop (Suc i) (cn_compressing c)\<rparr>) s
         in case err of Some e \<Rightarrow> new_callback od (Some e) None s1 | None \<Rightarrow> s1)
      else s)"

fun conn_step :: "(nat \<Rightarrow> writeOutcome) \<Rightarrow> nat \<times> sys \<Rightarrow> connStep \<Rightarrow> nat \<times> sys" where
  "conn_step outcome (n, s) (DoWrite wo) = (Suc n, write_op outcome n wo s)"
| "conn_step outcome (n, s) (DoReply m) = (n, messageHandler m s)"
| "conn_step outcome (n, s) (DoIssue i) = (n, handleIssue i s)"
| "conn_step outcome (n, s) (DoCompressed i e) = (n, compressed i e s)"
| "conn_step outcome (n, s) DoStart = (n, s\<lparr>sy_pause := pause_start (sy_pause s)\<rparr>)"
| "conn_step outcome (n, s) DoStop = (n, continue_all outcome (pause_stop (sy_pause s)) s)"
| "conn_step outcome (n, s) DoAbort = (n, continue_all outcome (pause_abort (sy_pause s)) s)"
| "conn_step outcome (n, s) (DoResume d) =
     (n, case pause_resume d (sy_pause s) of Inr r \<Rightarrow> continue_all outcome r s | Inl _ \<Rightarrow> s)"
| "conn_step outcome (n, s) DoWait = (n, s\<lparr>sy_pause := snd (pause_wait (sy_pause s))\<rparr>)"

definition conn_run :: "(nat \<Rightarrow> writeOutcome) \<Rightarrow> sys \<Rightarrow> connStep list \<Rightarrow> nat \<times> sys" where
  "conn_run outcome s xs = foldl (conn_step outcome) (0, s) xs"

text \<open>The steps without exhaust replies and without failing compression.\<close>

fun ordinary :: "connStep \<Rightarrow> bool" where
  "ordinary (DoReply m) = (\<not> rm_moreToCome m)"
| "ordinary (DoCompressed i e) = (e = None)"
| "ordinary _ = True"

section \<open>Where a request is\<close>

definition places :: "sys \<Rightarrow> nat multiset" where
  "places s = mset (map fst (cn_answers (sy_conn s))) + mset (map (od_owner \<circ> snd) (cn_queue (sy_conn s)))
     + mset (map (od_owner \<circ> continued \<circ> wt_next) (qp_waiters (sy_pause s)))"

text \<open>Requests are kept under their own number.\<close>

definition numbered :: "opDescription \<Rightarrow> bool" where
  "numbered od = (od_requestId od = od_owner od)"

definition orderly :: "sys \<Rightarrow> bool" where
  "orderly s = (map_wf (cn_queue (sy_conn s)) \<and> (\<forall>(k, od)\<in>set (cn_queue (sy_conn s)). k = od_owner od \<and> numbered od)
     \<and> (\<forall>w\<in>set (qp_waiters (sy_pause s)). numbered (continued (wt_next w))))"

lemma on_conn_simps [simp]: "sy_conn (on_conn f s) = f (sy_conn s)" "sy_pause (on_conn f s) = sy_pause s"
  by (simp_all add: on_conn_def)

lemma log_event_simps [simp]:
  "cn_queue (log_event e c) = cn_queue c" "cn_answers (log_event e c) = cn_answers c" "cn_closed (log_event e c) = cn_closed c"
  "cn_compressing (log_event e c) = cn_compressing c"
  by (simp_all add: log_event_def)

lemma answer_simps [simp]:
  "sy_pause (answer od e r s) = sy_pause s" "cn_queue (sy_conn (answer od e r s)) = cn_queue (sy_conn s)"
  "cn_answers (sy_conn (answer od e r s)) = cn_answers (sy_conn s) @ [(od_owner od, e, r)]"
  "cn_closed (sy_conn (answer od e r s)) = cn_closed (sy_conn s)"
  "cn_compressing (sy_conn (answer od e r s)) = cn_compressing (sy_conn s)"
  by (simp_all add: answer_def Let_def)

lemma answer_places: "places (answer od e r s) = add_mset (od_owner od) (places s)"
  by (simp add: places_def)

lemma answer_orderly [simp]: "orderly (answer od e r s) = orderly s"
  by (simp add: orderly_def)

text \<open>Either called at once, or put among the waiters.\<close>

lemma waitOnProtocol_cases:
  obtains "waitOnProtocol session i p m b r k q = (True, q)"
  | q' w where "waitOnProtocol session i p m b r k q = (False, q')" "qp_waiters q' = qp_waiters q @ [w]" "wt_next w = k"
proof (cases "waitOnProtocol session i p m b r k q")
  case (Pair pass q')
  then show ?thesis
    by (cases pass) (auto simp: waitOnProtocol_def waitInternal_def pause_enqueue_def split: option.splits wireMessage.splits if_splits intro: that)
qed

lemma new_callback_queue [simp]:
  "cn_queue (sy_conn (new_callback od e r s)) = cn_queue (sy_conn s)"
  "cn_closed (sy_conn (new_callback od e r s)) = cn_closed (sy_conn s)"
  "cn_compressing (sy_conn (new_callback od e r s)) = cn_compressing (sy_conn s)"
  by (auto simp: new_callback_def split: option.splits prod.splits bool.splits)

lemma new_callback_places:
  "places (new_callback od e r s) = add_mset (od_owner od) (places s)"
proof (cases e)
  case None
  show ?thesis
    by (rule waitOnProtocol_cases [of "od_session od" "od_requestId od" PostPhase "od_message od" "od_noPause od" r "ContinueReply od" "sy_pause s"])
      (simp_all add: new_callback_def None answer_places, simp add: places_def)
qed (simp add: new_callback_def answer_places)

lemma new_callback_orderly:
  assumes "orderly s" "numbered od"
  shows "orderly (new_callback od e r s)"
proof (cases e)
  case None
  show ?thesis
    by (rule waitOnProtocol_cases [of "od_session od" "od_requestId od" PostPhase "od_message od" "od_noPause od" r "ContinueReply od" "sy_pause s"])
      (use assms in \<open>simp_all add: new_callback_def None\<close>, use assms in \<open>auto simp: orderly_def\<close>)
qed (use assms in \<open>simp add: new_callback_def\<close>)


section \<open>Every step keeps the requests\<close>

definition single :: "nat multiset \<Rightarrow> bool" where
  "single M = (\<forall>x. count M x \<le> 1)"

lemma single_add: "single (add_mset x M) \<longleftrightarrow> x \<notin># M \<and> single M"
proof
  assume l: "single (add_mset x M)"
  then have "count M y \<le> 1" for y using l [unfolded single_def, rule_format, of y] by (simp split: if_splits)
  moreover have "count M x = 0" using l [unfolded single_def, rule_format, of x] by simp
  ultimately show "x \<notin># M \<and> single M" by (simp add: single_def not_in_iff)
next
  assume "x \<notin># M \<and> single M"
  then show "single (add_mset x M)" by (simp add: single_def not_in_iff)
qed

lemma single_upt: "single (mset [0..<n])"
  by (simp add: single_def count_mset_set')

lemma queue_owner: "orderly s \<Longrightarrow> map_keys (cn_queue (sy_conn s)) = map (od_owner \<circ> snd) (cn_queue (sy_conn s))"
  unfolding map_keys_def by (rule map_cong [OF refl]) (auto simp: orderly_def)

lemma in_flight: "orderly s \<Longrightarrow> map_has (cn_queue (sy_conn s)) k \<Longrightarrow> k \<in># mset (map (od_owner \<circ> snd) (cn_queue (sy_conn s)))"
  by (metis jm.get_None map_has_def queue_owner set_mset_mset)

lemma fresh_key: "orderly s \<Longrightarrow> n \<notin># places s \<Longrightarrow> n \<notin> set (map_keys (cn_queue (sy_conn s)))"
  by (simp only: queue_owner places_def union_iff set_mset_mset) simp

lemma map_set_fresh: "k \<notin> set (map_keys m) \<Longrightarrow> map_set k v m = m @ [(k, v)]"
  by (induction m) (auto simp: map_keys_def)

lemma map_delete_fresh: "k \<notin> set (map_keys m) \<Longrightarrow> map_delete k (m @ [(k, v)]) = m"
  by (auto simp: map_delete_def map_keys_def filter_id_conv)

lemma mset_map_delete:
  assumes "map_wf m" "map_of m k = Some v"
  shows "mset (map f m) = add_mset (f (k, v)) (mset (map f (map_delete k m)))"
  using assms
proof (induction m)
  case (Cons e m)
  obtain j u where e: "e = (j, u)" by (cases e)
  show ?case
  proof (cases "j = k")
    case True
    with Cons.prems e have "k \<notin> set (map_keys m)" by (simp add: map_wf_def map_keys_def)
    then have "map_delete k m = m" by (auto simp: map_delete_def map_keys_def filter_id_conv)
    with True e Cons.prems show ?thesis by (simp add: map_delete_def)
  next
    case False
    with Cons e have "mset (map f m) = add_mset (f (k, v)) (mset (map f (map_delete k m)))" by (simp add: map_wf_def map_keys_def)
    with False e show ?thesis by (simp add: map_delete_def)
  qed
qed simp

lemma write_send_keeps:
  assumes "orderly s" "numbered od" "od_owner od \<notin># places s"
  shows "places (write_send outcome od s) = add_mset (od_owner od) (places s)" "orderly (write_send outcome od s)"
proof -
  let ?n = "od_requestId od"
  let ?put = "on_conn (\<lambda>c. c\<lparr>cn_queue := map_set ?n od (cn_queue c)\<rparr>)"
  let ?drop = "on_conn (\<lambda>c. c\<lparr>cn_queue := map_delete ?n (cn_queue c)\<rparr>)"
  let ?comp = "on_conn (\<lambda>c. c\<lparr>cn_compressing := cn_compressing c @ [od]\<rparr>)"
  have n: "?n = od_owner od" using assms(2) by (simp add: numbered_def)
  have fresh: "?n \<notin> set (map_keys (cn_queue (sy_conn s)))" using fresh_key [OF assms(1)] assms(3) n by simp
  have set: "map_set ?n od (cn_queue (sy_conn s)) = cn_queue (sy_conn s) @ [(?n, od)]" by (rule map_set_fresh [OF fresh])
  have put: "places (?put s) = add_mset (od_owner od) (places s)" "orderly (?put s)"
    using assms(1,2) fresh unfolding places_def orderly_def
    by (auto simp: set map_wf_def map_keys_def n [symmetric])
  have drop: "cn_queue (sy_conn (?drop (?put s))) = cn_queue (sy_conn s)" using map_delete_fresh [OF fresh] by (simp add: set)
  have drop': "places (?drop (?put s)) = places s" "orderly (?drop (?put s)) = orderly s"
    using drop by (simp_all add: places_def orderly_def)
  have comp: "places (?comp x) = places x" "orderly (?comp x) = orderly x" for x by (simp_all add: places_def orderly_def)
  show "places (write_send outcome od s) = add_mset (od_owner od) (places s)"
    using put(1) drop'(1) comp(1)
    by (simp add: write_send_def new_callback_places Let_def split: writeOutcome.split)
  show "orderly (write_send outcome od s)"
    using put(2) drop'(2) comp(2) assms(1,2)
    by (simp add: write_send_def new_callback_orderly Let_def split: writeOutcome.split)
qed

lemma continue_with_keeps:
  assumes "orderly s" "numbered (continued k)" "od_owner (continued k) \<notin># places s"
  shows "places (continue_with outcome (k, e, r) s) = add_mset (od_owner (continued k)) (places s) \<and> orderly (continue_with outcome (k, e, r) s)"
  using assms by (cases k; cases e) (auto simp: write_send_keeps answer_places)

lemma continue_fold_keeps:
  assumes "orderly s" "\<forall>x\<in>set rs. numbered (continued (fst x))"
    "single (places s + mset (map (od_owner \<circ> continued \<circ> fst) rs))"
  shows "places (fold (continue_with outcome) rs s) = places s + mset (map (od_owner \<circ> continued \<circ> fst) rs)
    \<and> orderly (fold (continue_with outcome) rs s)"
  using assms
proof (induction rs arbitrary: s)
  case (Cons x rs)
  obtain k e r where x: "x = (k, e, r)" by (cases x)
  let ?s1 = "continue_with outcome (k, e, r) s"
  have "od_owner (continued k) \<notin># places s" using Cons.prems(3) x by (auto simp: single_add)
  with Cons.prems x have s1: "places ?s1 = add_mset (od_owner (continued k)) (places s)" "orderly ?s1"
    using continue_with_keeps [of s k outcome e r] by auto
  with Cons.IH [of ?s1] Cons.prems x show ?case by simp
qed simp

text \<open>Requests let go by the consumer.\<close>

lemma continue_all_keeps:
  assumes "orderly s" "single (places s)"
    and "mset (map fst (fst rq)) + mset (map wt_next (qp_waiters (snd rq))) = mset (map wt_next (qp_waiters (sy_pause s)))"
  shows "places (continue_all outcome rq s) = places s \<and> orderly (continue_all outcome rq s)"
proof -
  let ?s1 = "s\<lparr>sy_pause := snd rq\<rparr>"
  have split: "set (map fst (fst rq)) \<union> set (map wt_next (qp_waiters (snd rq))) = set (map wt_next (qp_waiters (sy_pause s)))"
    using arg_cong [OF assms(3), of set_mset] by simp
  have num: "\<forall>k\<in>set (map wt_next (qp_waiters (sy_pause s))). numbered (continued k)" using assms(1) by (simp add: orderly_def)
  have "orderly ?s1" using assms(1) num [folded split] by (simp add: orderly_def)
  moreover have "\<forall>x\<in>set (fst rq). numbered (continued (fst x))" using num [folded split] by simp
  moreover have "places ?s1 + mset (map (od_owner \<circ> continued \<circ> fst) (fst rq)) = places s"
    using arg_cong [OF assms(3), of "image_mset (od_owner \<circ> continued)"]
    by (simp add: places_def multiset.map_comp union_ac)
  ultimately show ?thesis using continue_fold_keeps [of ?s1 "fst rq" outcome] assms(2) by (simp add: continue_all_def)
qed


lemma messageHandler_keeps:
  assumes "orderly s" "\<not> rm_moreToCome m"
  shows "places (messageHandler m s) = places s \<and> orderly (messageHandler m s)"
proof (cases "map_of (cn_queue (sy_conn s)) (rm_responseTo m)")
  case (Some od)
  have wf: "map_wf (cn_queue (sy_conn s))" using assms(1) by (simp add: orderly_def)
  have "(rm_responseTo m, od) \<in> set (cn_queue (sy_conn s))" using Some by (rule map_of_SomeD)
  with assms(1) have num: "numbered od" "rm_responseTo m = od_owner od" by (auto simp: orderly_def)
  let ?s1 = "on_conn (\<lambda>c. c\<lparr>cn_queue := map_delete (rm_responseTo m) (cn_queue c)\<rparr>) s"
  have s1: "places s = add_mset (od_owner od) (places ?s1)"
    using mset_map_delete [OF wf Some, of "od_owner \<circ> snd"] by (simp add: places_def)
  have "orderly ?s1" using assms(1) jm.wf_del [OF wf, of "rm_responseTo m"] by (auto simp: orderly_def map_delete_def)
  define s2 where "s2 = (if od_socketTimeoutOverride od then on_conn (\<lambda>c. log_event (StreamTimeout (cn_socketTimeoutMS c)) c) ?s1 else ?s1)"
  have s2: "places s = add_mset (od_owner od) (places s2)" "orderly s2"
    using \<open>orderly ?s1\<close> s1 by (simp_all add: s2_def places_def orderly_def)
  have learn: "cn_queue (learn od d c) = cn_queue c" "cn_answers (learn od d c) = cn_answers c" for d c
    by (simp_all add: learn_def Let_def split: option.split)
  have s3: "places (on_conn (learn od d) s2) = places s2" "orderly (on_conn (learn od d) s2)" for d
    using s2(2) by (simp_all add: places_def orderly_def learn)
  have "messageHandler m s = (case rm_parsed m of
        Inl e \<Rightarrow> new_callback od (Some e) None s2
      | Inr [] \<Rightarrow> new_callback od None (if od_fullResult od then Some (message_value []) else None) s2
      | Inr (d # ds) \<Rightarrow> (case reply_error (od_command od) d of
          Some e \<Rightarrow> new_callback od (Some e) None (on_conn (learn od d) s2)
        | None \<Rightarrow> new_callback od None (Some (if od_fullResult od then message_value (d # ds) else JDoc d)) (on_conn (learn od d) s2)))"
    using Some assms(2) unfolding messageHandler_def s2_def Let_def by simp
  with s2 s3 num(1) show ?thesis
    by (simp add: new_callback_places new_callback_orderly split: sum.split list.split option.split)
qed (use assms in \<open>simp add: messageHandler_def\<close>)

lemma callbacks_keep:
  assumes "orderly s" "\<forall>od\<in>set ods. numbered od"
  shows "places (fold (\<lambda>od. new_callback od e r) ods s) = places s + mset (map od_owner ods)
    \<and> orderly (fold (\<lambda>od. new_callback od e r) ods s)
    \<and> cn_queue (sy_conn (fold (\<lambda>od. new_callback od e r) ods s)) = cn_queue (sy_conn s)"
  using assms by (induction ods arbitrary: s) (simp_all add: new_callback_places new_callback_orderly)

lemma handleIssue_keeps:
  assumes "orderly s"
  shows "places (handleIssue i s) = places s \<and> orderly (handleIssue i s)"
proof (cases "cn_closed (sy_conn s)")
  case False
  let ?s1 = "on_conn (\<lambda>c. (if i = IssueClose then c else log_event StreamDestroyed c)\<lparr>cn_closed := True\<rparr>) s"
  let ?ods = "map snd (cn_queue (sy_conn s))"
  let ?s2 = "fold (\<lambda>od. new_callback od (issue_error (sy_conn s) i) None) ?ods ?s1"
  have "orderly ?s1" "places ?s1 = places s" using assms by (simp_all add: orderly_def places_def)
  moreover have "\<forall>od\<in>set ?ods. numbered od" using assms by (auto simp: orderly_def)
  ultimately have s2: "places ?s2 = places s + mset (map od_owner ?ods)" "orderly ?s2" "cn_queue (sy_conn ?s2) = cn_queue (sy_conn s)"
    using callbacks_keep [of ?s1 ?ods "issue_error (sy_conn s) i" None] by simp_all
  have "handleIssue i s = on_conn (\<lambda>c. log_event ConnectionClosed (c\<lparr>cn_queue := []\<rparr>)) ?s2"
    using False by (simp add: handleIssue_def Let_def)
  with s2 show ?thesis by (simp add: places_def orderly_def map_wf_def map_keys_def)
qed (use assms in \<open>simp add: handleIssue_def\<close>)

lemma write_op_keeps:
  assumes "orderly s" "n \<notin># places s"
  shows "places (write_op outcome n wo s) = add_mset n (places s) \<and> orderly (write_op outcome n wo s)"
proof -
  let ?od = "describe_op n wo" and ?s1 = "write_begin n wo s"
  have od: "od_owner ?od = n" "numbered ?od" by (simp_all add: describe_op_def numbered_def)
  have s1: "places ?s1 = places s" "orderly ?s1" "sy_pause ?s1 = sy_pause s"
    using assms(1) by (simp_all add: write_begin_def places_def orderly_def Let_def split: option.split)
  show ?thesis
  proof (rule waitOnProtocol_cases [of "od_session ?od" n PrePhase "od_message ?od" "od_noPause ?od" None "ContinueWrite ?od" "sy_pause ?s1"])
    assume "waitOnProtocol (od_session ?od) n PrePhase (od_message ?od) (od_noPause ?od) None (ContinueWrite ?od) (sy_pause ?s1) = (True, sy_pause ?s1)"
    with s1 od assms(2) write_send_keeps [of ?s1 ?od outcome] show ?thesis by (simp add: write_op_def)
  next
    fix q w
    assume w: "waitOnProtocol (od_session ?od) n PrePhase (od_message ?od) (od_noPause ?od) None (ContinueWrite ?od) (sy_pause ?s1) = (False, q)"
      "qp_waiters q = qp_waiters (sy_pause ?s1) @ [w]" "wt_next w = ContinueWrite ?od"
    then have "write_op outcome n wo s = ?s1\<lparr>sy_pause := q\<rparr>" by (simp add: write_op_def)
    with w s1 od show ?thesis by (auto simp: places_def orderly_def)
  qed
qed

lemma compressed_keeps: "places (compressed i None s) = places s" "orderly (compressed i None s) = orderly s"
  by (simp_all add: compressed_def places_def orderly_def Let_def)

lemma conn_step_keeps:
  assumes "orderly s" "places s = mset [0..<n]" "ordinary x" "conn_step outcome (n, s) x = (n', s')"
  shows "orderly s' \<and> places s' = mset [0..<n']"
proof -
  have one: "single (places s)" unfolding assms(2) by (rule single_upt)
  have n: "n \<notin># places s" by (simp add: assms(2))
  have drains: "mset (map fst (fst (drain e q))) + mset (map wt_next (qp_waiters (snd (drain e q)))) = mset (map wt_next (qp_waiters q))"
    if "session_event e" for e and q :: "continuation qpPause"
    using session_event.emit_all_calls [OF that, of "current_contexts q @ qp_queue q" "q\<lparr>qp_isCommandCapturing := False\<rparr>"]
    by (simp add: drain_def case_prod_beta)
  have resume: "mset (map fst (fst rq)) + mset (map wt_next (qp_waiters (snd rq))) = mset (map wt_next (qp_waiters q))"
    if pr: "pause_resume d q = Inr rq" for d rq and q :: "continuation qpPause"
  proof -
    obtain c where c: "qp_current q = Some c" using pr by (cases "qp_current q") (simp_all add: pause_resume_def)
    have rq: "fst rq = fst (emit_resume d (pc_sessionId c) q)" "qp_waiters (snd rq) = qp_waiters (snd (emit_resume d (pc_sessionId c) q))"
      using pr c by (auto simp: pause_resume_def case_prod_beta)
    have "mset (map wt_next (filter (\<lambda>w. wt_sessionId w = pc_sessionId c) (qp_waiters q)))
        + mset (map wt_next (filter (\<lambda>w. wt_sessionId w \<noteq> pc_sessionId c) (qp_waiters q))) = mset (map wt_next (qp_waiters q))"
      by (rule mset_map_partition)
    then show ?thesis unfolding rq resume_event.calls by (simp add: resume_event.leaves)
  qed
  show ?thesis
  proof (cases x)
    case (DoWrite wo)
    with assms write_op_keeps [OF assms(1) n] show ?thesis by (auto simp: atLeast0_lessThan_Suc)
  next
    case (DoReply m)
    with assms messageHandler_keeps [OF assms(1)] show ?thesis by auto
  next
    case (DoIssue i)
    with assms handleIssue_keeps [OF assms(1)] show ?thesis by auto
  next
    case (DoCompressed i e)
    with assms show ?thesis by (auto simp: compressed_keeps)
  next
    case DoStart
    with assms show ?thesis by (auto simp: pause_start_def places_def orderly_def)
  next
    case DoStop
    with assms continue_all_keeps [OF assms(1) one drains [OF resume_event.session_event_axioms], of outcome None] show ?thesis
      by (auto simp: pause_stop_def)
  next
    case DoAbort
    with assms continue_all_keeps [OF assms(1) one drains [OF abort_event.session_event_axioms], of outcome] show ?thesis
      by (auto simp: pause_abort_def)
  next
    case (DoResume d)
    with assms continue_all_keeps [OF assms(1) one resume, of d _ outcome] show ?thesis by (auto split: sum.splits)
  next
    case DoWait
    have "qp_waiters (snd (pause_wait q)) = qp_waiters q" for q :: "continuation qpPause"
      by (auto simp: pause_wait_def split: option.splits list.splits)
    with DoWait assms show ?thesis by (auto simp: places_def orderly_def)
  qed
qed

lemma conn_run_keeps:
  assumes "list_all ordinary xs" "orderly s" "places s = mset [0..<n]"
  shows "case foldl (conn_step outcome) (n, s) xs of (n', s') \<Rightarrow> orderly s' \<and> places s' = mset [0..<n']"
  using assms
proof (induction xs arbitrary: n s)
  case (Cons x xs)
  obtain n1 s1 where st: "conn_step outcome (n, s) x = (n1, s1)" by (metis prod.exhaust)
  with conn_step_keeps [OF Cons.prems(2,3) _ st] Cons.prems(1) Cons.IH [of s1 n1] show ?case by simp
qed simp


section \<open>What callers can rely on\<close>

definition fresh_sys :: "connection \<Rightarrow> sys" where
  "fresh_sys c = \<lparr>sy_conn = c, sy_pause = QpPause_new\<rparr>"

lemma fresh_start:
  assumes "cn_queue c = []" "cn_answers c = []"
  shows "orderly (fresh_sys c)" "places (fresh_sys c) = mset [0..<0]"
  using assms by (simp_all add: fresh_sys_def orderly_def places_def QpPause_new_def map_wf_def map_keys_def)

text \<open>
  (C24) No request is lost and none is answered twice.  After any run of writes, replies in any order and to
  any number, closes and timeouts, pausing, resuming and giving up, every request that was written is
  in exactly one of three places - answered, waiting for its reply, or paused - provided that the run has
  no exhaust reply, which answers a request several times on purpose, and no failing compression,
  which answers a request that stays in flight (see \<open>compression_error_answered_twice\<close>).
\<close>

theorem every_request_in_one_place:
  assumes "list_all ordinary xs" "conn_run outcome (fresh_sys (Connection_new i a t mon g now options)) xs = (n, s)"
  shows "mset (map fst (cn_answers (sy_conn s))) + mset (map (od_owner \<circ> snd) (cn_queue (sy_conn s)))
     + mset (map (od_owner \<circ> continued \<circ> wt_next) (qp_waiters (sy_pause s))) = mset [0..<n]"
proof -
  have "cn_queue (Connection_new i a t mon g now options) = []" "cn_answers (Connection_new i a t mon g now options) = []"
    by (simp_all add: Connection_new_def)
  from conn_run_keeps [OF assms(1) fresh_start [OF this], of outcome] assms(2) show ?thesis
    by (simp add: conn_run_def places_def)
qed

text \<open>Closing hands the same error to every request in flight, in order, and empties the queue.\<close>

lemma error_callbacks:
  "cn_answers (sy_conn (fold (\<lambda>od. new_callback od (Some err) None) ods u))
     = cn_answers (sy_conn u) @ map (\<lambda>od. (od_owner od, Some err, None)) ods"
  "sy_pause (fold (\<lambda>od. new_callback od (Some err) None) ods u) = sy_pause u"
  by (induction ods arbitrary: u) (simp_all add: new_callback_def)

lemma handleIssue_answers:
  assumes "\<not> cn_closed (sy_conn s)" "issue_error (sy_conn s) x = Some err"
  shows "cn_queue (sy_conn (handleIssue x s)) = []" "sy_pause (handleIssue x s) = sy_pause s"
    "cn_closed (sy_conn (handleIssue x s))"
    "cn_answers (sy_conn (handleIssue x s))
       = cn_answers (sy_conn s) @ map (\<lambda>(k, od). (od_owner od, Some err, None)) (cn_queue (sy_conn s))"
proof -
  have closed: "cn_closed (sy_conn (fold (\<lambda>od. new_callback od e None) ods u)) = cn_closed (sy_conn u)" for e ods u
    by (induction ods arbitrary: u) simp_all
  show "cn_queue (sy_conn (handleIssue x s)) = []" "sy_pause (handleIssue x s) = sy_pause s"
    "cn_closed (sy_conn (handleIssue x s))"
    "cn_answers (sy_conn (handleIssue x s))
       = cn_answers (sy_conn s) @ map (\<lambda>(k, od). (od_owner od, Some err, None)) (cn_queue (sy_conn s))"
    using assms by (auto simp: handleIssue_def error_callbacks closed Let_def comp_def case_prod_beta)
qed

lemma issue_network_error:
  "issue_error c IssueTimeout = Some err \<Longrightarrow> instanceof err MongoNetworkError"
  "issue_error c IssueClose = Some err \<Longrightarrow> instanceof err MongoNetworkError"
  by (auto simp: issue_error_def instanceof_def mk_error_def MongoNetworkError_new_def Let_def
      instanceof_class.simps [of MongoNetworkTimeoutError] instanceof_class.simps [of MongoNetworkError])

text \<open>
  (C25) Closing answers everyone in flight.  After a run as above, let an open connection time out, close or
  be destroyed with an error.  Then every request in its queue is answered, in order and without a
  result, with that error, which is a network error for a timeout and a close; the queue is empty and
  the connection closed.  So every request ever written has been answered exactly once, except for
  those that are paused, which are left as they are.
\<close>

theorem close_answers_requests:
  assumes "list_all ordinary xs" "conn_run outcome (fresh_sys (Connection_new i a t mon g now options)) xs = (n, s)"
    "\<not> cn_closed (sy_conn s)" "x = IssueTimeout \<or> x = IssueClose \<or> x = IssueDestroy (Some e)"
  shows "\<exists>err. (if x = IssueDestroy (Some e) then err = e else instanceof err MongoNetworkError)
    \<and> cn_answers (sy_conn (handleIssue x s))
        = cn_answers (sy_conn s) @ map (\<lambda>(k, od). (od_owner od, Some err, None)) (cn_queue (sy_conn s))
    \<and> cn_queue (sy_conn (handleIssue x s)) = [] \<and> cn_closed (sy_conn (handleIssue x s))
    \<and> mset (map fst (cn_answers (sy_conn (handleIssue x s))))
        + mset (map (od_owner \<circ> continued \<circ> wt_next) (qp_waiters (sy_pause s))) = mset [0..<n]"
proof -
  have c: "cn_queue (Connection_new i a t mon g now options) = []" "cn_answers (Connection_new i a t mon g now options) = []"
    by (simp_all add: Connection_new_def)
  from conn_run_keeps [OF assms(1) fresh_start [OF c], of outcome] assms(2) have s: "orderly s" "places s = mset [0..<n]"
    by (simp_all add: conn_run_def)
  obtain err where err: "issue_error (sy_conn s) x = Some err" using assms(4) by (auto simp: issue_error_def Let_def)
  have "if x = IssueDestroy (Some e) then err = e else instanceof err MongoNetworkError"
    using assms(4) err issue_network_error [of "sy_conn s" err] by (auto simp: issue_error_def)
  moreover have "mset (map fst (cn_answers (sy_conn (handleIssue x s))))
      + mset (map (od_owner \<circ> continued \<circ> wt_next) (qp_waiters (sy_pause s))) = mset [0..<n]"
    using handleIssue_keeps [OF s(1), of x] s(2) handleIssue_answers(1,2) [OF assms(3) err] by (simp add: places_def)
  ultimately show ?thesis using handleIssue_answers [OF assms(3) err] by blast
qed

text \<open>
  With capturing off the pausing code is the code it replaced: writing puts the request in flight and
  answers only a failed write or a request without reply, and a reply is handed to the caller at once.
\<close>

definition write_upstream :: "(nat \<Rightarrow> writeOutcome) \<Rightarrow> nat \<Rightarrow> writeOptions \<Rightarrow> sys \<Rightarrow> sys" where
  "write_upstream outcome n wo s =
     (let od = describe_op n wo; s1 = write_begin n wo s;
          put = on_conn (\<lambda>c. c\<lparr>cn_queue := map_set n od (cn_queue c)\<rparr>);
          drop = on_conn (\<lambda>c. c\<lparr>cn_queue := map_delete n (cn_queue c)\<rparr>);
          comp = on_conn (\<lambda>c. c\<lparr>cn_compressing := cn_compressing c @ [od]\<rparr>);
          s2 = (if od_noResponse od then s1 else put s1)
      in case outcome n of
           WriteThrew e \<Rightarrow> if od_noResponse od then answer od None None s2 else answer od (Some e) None (drop s2)
         | Written \<Rightarrow> if od_noResponse od then answer od None None s2 else s2
         | Compressing \<Rightarrow> if od_noResponse od then answer od None None (comp s2) else comp s2)"

lemma unheld_passes:
  "\<not> qp_isCommandCapturing q \<or> session = None \<or> noPause \<Longrightarrow> waitOnProtocol session i p m noPause r k q = (True, q)"
  by (auto simp: waitOnProtocol_def split: option.split wireMessage.split)

text \<open>
  (C26) The commented-out predecessor of the writing code and the pausing one agree on requests that are
  not held back: when no capture is on, for a request without a session (which has the null pause
  manager) even while capturing, and for one marked not to be paused.  The reply to such a request goes
  to its caller at once.
\<close>

theorem pausing_off_is_upstream:
  "(\<not> qp_isCommandCapturing (sy_pause s) \<or> wo_session wo = None \<or> wo_noPause wo \<longrightarrow>
      write_op outcome n wo s = write_upstream outcome n wo s)
   \<and> (\<not> qp_isCommandCapturing (sy_pause s) \<or> od_session od = None \<or> od_noPause od \<longrightarrow>
      new_callback od None r s = answer od None r s)"
proof -
  have cb: "new_callback od None r u = answer od None r u"
    if "\<not> qp_isCommandCapturing (sy_pause u) \<or> od_session od = None \<or> od_noPause od" for od r u
    using unheld_passes [OF that] by (simp add: new_callback_def)
  have "write_op outcome n wo s = write_upstream outcome n wo s"
    if held: "\<not> qp_isCommandCapturing (sy_pause s) \<or> wo_session wo = None \<or> wo_noPause wo"
  proof -
    let ?od = "describe_op n wo"
    have od: "od_requestId ?od = n" "od_session ?od = wo_session wo" "od_noPause ?od = wo_noPause wo"
      by (simp_all add: describe_op_def)
    have w: "sy_pause (write_begin n wo s) = sy_pause s" by (simp add: write_begin_def)
    have cb': "new_callback ?od None r u = answer ?od None r u" if "sy_pause u = sy_pause s" for r u
      using held that od by (intro cb) auto
    have "waitOnProtocol (wo_session wo) n PrePhase (od_message ?od) (wo_noPause wo) None (ContinueWrite ?od) (sy_pause s)
        = (True, sy_pause s)"
      using held by (rule unheld_passes)
    then show ?thesis using w
      by (auto simp: write_op_def write_upstream_def write_send_def cb' od Let_def new_callback_def [of _ "Some _"]
          split: writeOutcome.split)
  qed
  with cb show ?thesis by blast
qed

section \<open>Where requests are lost or answered twice\<close>

text \<open>A step that brings no reply.\<close>

fun no_reply :: "connStep \<Rightarrow> bool" where
  "no_reply (DoReply m) = False"
| "no_reply (DoCompressed i e) = False"
| "no_reply _ = True"

definition stays :: "nat \<Rightarrow> sys \<Rightarrow> bool" where
  "stays k s = (map_has (cn_queue (sy_conn s)) k \<and> cn_closed (sy_conn s))"

lemma stays_simps [simp]:
  "stays k (answer od e r s) = stays k s" "stays k (new_callback od e r s) = stays k s" "stays k (s\<lparr>sy_pause := q\<rparr>) = stays k s"
  by (simp_all add: stays_def)

lemma write_send_stays: "stays k s \<Longrightarrow> od_requestId od \<noteq> k \<Longrightarrow> stays k (write_send outcome od s)"
  by (auto simp: stays_def write_send_def map_has_def jm.get_upd jm.get_del Let_def split: writeOutcome.split)

lemma continue_fold_stays:
  "stays k s \<Longrightarrow> \<forall>x\<in>set rs. od_requestId (continued (fst x)) \<noteq> k \<Longrightarrow> stays k (fold (continue_with outcome) rs s)"
proof (induction rs arbitrary: s)
  case (Cons x rs)
  obtain c e r where x: "x = (c, e, r)" by (cases x)
  have "stays k (continue_with outcome (c, e, r) s)"
    using Cons.prems x by (cases c; cases e) (auto intro: write_send_stays)
  with Cons x show ?case by simp
qed simp

lemma waiting_not_in_flight:
  assumes "orderly s" "single (places s)" "stays k s" "w \<in> set (qp_waiters (sy_pause s))"
  shows "od_requestId (continued (wt_next w)) \<noteq> k"
proof
  assume k: "od_requestId (continued (wt_next w)) = k"
  have o: "od_owner (continued (wt_next w)) = k" using assms(1,4) k by (simp add: orderly_def numbered_def)
  have "k \<in># mset (map (od_owner \<circ> snd) (cn_queue (sy_conn s)))" using in_flight [OF assms(1)] assms(3) by (simp only: stays_def)
  then have "count (mset (map (od_owner \<circ> snd) (cn_queue (sy_conn s)))) k \<ge> 1" by (simp only: count_greater_eq_one_iff)
  moreover have "k \<in># mset (map (od_owner \<circ> continued \<circ> wt_next) (qp_waiters (sy_pause s)))"
    using imageI [OF assms(4), of "od_owner \<circ> continued \<circ> wt_next"] o by simp
  then have "count (mset (map (od_owner \<circ> continued \<circ> wt_next) (qp_waiters (sy_pause s)))) k \<ge> 1" by (simp only: count_greater_eq_one_iff)
  ultimately have "count (places s) k \<ge> 2" unfolding places_def count_union by linarith
  moreover have "count (places s) k \<le> 1" using assms(2) by (simp add: single_def)
  ultimately show False by simp
qed

lemma no_reply_stays:
  assumes "orderly s" "places s = mset [0..<n]" "stays k s" "no_reply x" "conn_step outcome (n, s) x = (n', s')"
  shows "stays k s'"
proof -
  have one: "single (places s)" unfolding assms(2) by (rule single_upt)
  have kn: "k \<noteq> n"
  proof
    assume "k = n"
    have "k \<in># mset (map (od_owner \<circ> snd) (cn_queue (sy_conn s)))" using in_flight [OF assms(1)] assms(3) by (simp only: stays_def)
    then have "k \<in># places s" unfolding places_def union_iff by blast
    with assms(2) \<open>k = n\<close> show False by simp
  qed
  have all: "stays k (continue_all outcome rq s)" if "set (map fst (fst rq)) \<subseteq> set (map wt_next (qp_waiters (sy_pause s)))" for rq
  proof -
    have "\<forall>x\<in>set (fst rq). od_requestId (continued (fst x)) \<noteq> k"
      using that waiting_not_in_flight [OF assms(1) one assms(3)] by fastforce
    then show ?thesis using continue_fold_stays [of k "s\<lparr>sy_pause := snd rq\<rparr>"] assms(3) by (simp add: continue_all_def)
  qed
  have drains: "set (map fst (fst (drain e q))) \<subseteq> set (map wt_next (qp_waiters q))" if "session_event e" for e and q :: "continuation qpPause"
    using arg_cong [OF session_event.emit_all_calls [OF that, of "current_contexts q @ qp_queue q" "q\<lparr>qp_isCommandCapturing := False\<rparr>"], of set_mset]
    by (auto simp: drain_def case_prod_beta)
  have resumes: "set (map fst (fst rq)) \<subseteq> set (map wt_next (qp_waiters q))" if pr: "pause_resume d q = Inr rq" for d rq and q :: "continuation qpPause"
    using pr by (auto simp: pause_resume_def emit_resume_def Let_def split: option.splits)
  show ?thesis
  proof (cases x)
    case (DoWrite wo)
    have "stays k (write_begin n wo s)" using assms(3) by (simp add: stays_def write_begin_def Let_def split: option.split)
    with DoWrite assms(5) kn write_send_stays [of k "write_begin n wo s" "describe_op n wo" outcome] show ?thesis
      by (auto simp: write_op_def describe_op_def Let_def split: prod.splits bool.splits)
  next
    case DoStop
    with assms(5) all [OF drains [OF resume_event.session_event_axioms], of None] show ?thesis by (auto simp: pause_stop_def)
  next
    case DoAbort
    with assms(5) all [OF drains [OF abort_event.session_event_axioms]] show ?thesis by (auto simp: pause_abort_def)
  next
    case (DoResume d)
    with assms(3,5) all [OF resumes] show ?thesis by (auto split: sum.splits)
  next
    case (DoIssue i)
    with assms(3,5) show ?thesis by (auto simp: stays_def handleIssue_def)
  qed (use assms(3,4,5) in auto)
qed

lemma no_reply_ordinary: "no_reply x \<Longrightarrow> ordinary x"
  by (cases x) auto

lemma no_reply_run_stays:
  assumes "orderly s" "places s = mset [0..<n]" "stays k s" "list_all no_reply ys" "foldl (conn_step outcome) (n, s) ys = (n', s')"
  shows "stays k s' \<and> orderly s' \<and> places s' = mset [0..<n']"
  using assms
proof (induction ys arbitrary: n s)
  case (Cons y ys)
  obtain n1 s1 where st: "conn_step outcome (n, s) y = (n1, s1)" by (metis prod.exhaust)
  have "stays k s1" by (rule no_reply_stays [OF Cons.prems(1-3) _ st]) (use Cons.prems(4) in simp)
  moreover have "orderly s1 \<and> places s1 = mset [0..<n1]"
    by (rule conn_step_keeps [OF Cons.prems(1,2) _ st]) (use Cons.prems(4) no_reply_ordinary in auto)
  ultimately show ?case using Cons.IH [of s1 n1] Cons.prems(4,5) st by simp
qed simp


text \<open>
  A request that is in flight on a closed connection is lost: without a reply nothing answers it,
  whatever is written, resumed, stopped or closed later.  Pausing leads there: a request that was held
  back while its connection closed is put in flight when it is resumed.
\<close>

theorem request_lost_after_close:
  assumes "list_all ordinary xs" "conn_run outcome (fresh_sys (Connection_new i a t mon g now options)) xs = (n, s)"
    "cn_closed (sy_conn s)" "map_has (cn_queue (sy_conn s)) k" "list_all no_reply ys" "foldl (conn_step outcome) (n, s) ys = (n', s')"
  shows "k \<notin> fst ` set (cn_answers (sy_conn s'))"
proof
  assume k: "k \<in> fst ` set (cn_answers (sy_conn s'))"
  have c: "cn_queue (Connection_new i a t mon g now options) = []" "cn_answers (Connection_new i a t mon g now options) = []"
    by (simp_all add: Connection_new_def)
  from conn_run_keeps [OF assms(1) fresh_start [OF c], of outcome] assms(2) have s: "orderly s" "places s = mset [0..<n]"
    by (simp_all add: conn_run_def)
  from no_reply_run_stays [OF s _ assms(5,6)] assms(3,4) have s': "stays k s'" "orderly s'" "places s' = mset [0..<n']"
    by (simp_all add: stays_def)
  have "k \<in># mset (map (od_owner \<circ> snd) (cn_queue (sy_conn s')))" using in_flight [OF s'(2)] s'(1) by (simp only: stays_def)
  then have "count (mset (map (od_owner \<circ> snd) (cn_queue (sy_conn s')))) k \<ge> 1" by (simp only: count_greater_eq_one_iff)
  moreover have "count (mset (map fst (cn_answers (sy_conn s')))) k \<ge> 1" using k by (simp only: count_greater_eq_one_iff) simp
  ultimately have "count (places s') k \<ge> 2" unfolding places_def count_union by linarith
  moreover have "count (places s') k \<le> 1" using single_upt [of n'] by (simp only: s'(3) single_def)
  ultimately show False by simp
qed

definition demo_write :: "string \<Rightarrow> writeOptions" where
  "demo_write session = \<lparr>wo_message = MMsg [(''find'', JStr ''c'')], wo_session = Some session, wo_fullResult = False, wo_noResponse = False,
     wo_command = True, wo_socketTimeoutMS = None, wo_noPause = False\<rparr>"

definition demo_sys :: sys where
  "demo_sys = fresh_sys (Connection_new ''1'' ''a:27017'' None False 0 0 [])"

theorem request_lost_after_close_witness:
  "0 \<notin> fst ` set (cn_answers (sy_conn (snd (conn_run (\<lambda>_. Written) demo_sys
     [DoStart, DoWrite (demo_write ''s''), DoIssue IssueClose, DoWait, DoResume None, DoIssue IssueTimeout, DoStop]))))"
proof -
  let ?xs = "[DoStart, DoWrite (demo_write ''s''), DoIssue IssueClose, DoWait, DoResume None]" and ?ys = "[DoIssue IssueTimeout, DoStop]"
  obtain n s where r: "conn_run (\<lambda>_. Written) demo_sys ?xs = (n, s)" by (metis prod.exhaust)
  have "cn_closed (sy_conn (snd (conn_run (\<lambda>_. Written) demo_sys ?xs))) \<and> map_has (cn_queue (sy_conn (snd (conn_run (\<lambda>_. Written) demo_sys ?xs)))) 0"
    by code_simp
  with r have q: "cn_closed (sy_conn s)" "map_has (cn_queue (sy_conn s)) 0" by simp_all
  obtain n' s' where r': "foldl (conn_step (\<lambda>_. Written)) (n, s) ?ys = (n', s')" by (metis prod.exhaust)
  have "conn_run (\<lambda>_. Written) demo_sys (?xs @ ?ys) = (n', s')" using r r' by (simp add: conn_run_def)
  moreover have "0 \<notin> fst ` set (cn_answers (sy_conn s'))"
    by (rule request_lost_after_close [OF _ r [unfolded demo_sys_def] q _ r']) simp_all
  ultimately show ?thesis by simp
qed

text \<open>
  A failing compression answers a request that stays in flight: the caller gets the error, and gets
  another one when the connection closes.
\<close>

theorem compression_error_answered_twice:
  assumes "i < length (cn_compressing (sy_conn s))" "od = cn_compressing (sy_conn s) ! i"
    "(od_requestId od, od) \<in> set (cn_queue (sy_conn s))" "\<not> cn_closed (sy_conn s)"
  shows "count (mset (map fst (cn_answers (sy_conn (handleIssue IssueClose (compressed i (Some e) s)))))) (od_owner od) \<ge> 2"
proof -
  let ?s1 = "compressed i (Some e) s"
  have s1: "cn_queue (sy_conn ?s1) = cn_queue (sy_conn s)" "cn_closed (sy_conn ?s1) = cn_closed (sy_conn s)"
    "map fst (cn_answers (sy_conn ?s1)) = map fst (cn_answers (sy_conn s)) @ [od_owner od]"
    using assms(1,2) by (simp_all add: compressed_def new_callback_def Let_def)
  have fold: "map fst (cn_answers (sy_conn (fold (\<lambda>od. new_callback od (Some e') None) ods u))) = map fst (cn_answers (sy_conn u)) @ map od_owner ods"
    for ods e' u by (induction ods arbitrary: u) (simp_all add: new_callback_def)
  have eq: "map fst (cn_answers (sy_conn (handleIssue IssueClose ?s1)))
      = map fst (cn_answers (sy_conn s)) @ od_owner od # map (od_owner \<circ> snd) (cn_queue (sy_conn s))"
    using assms(4) s1 by (simp add: handleIssue_def Let_def issue_error_def fold)
  have "od_owner od \<in> set (map (od_owner \<circ> snd) (cn_queue (sy_conn s)))"
    using imageI [OF assms(3), of "od_owner \<circ> snd"] by simp
  then have ge: "count (mset (map (od_owner \<circ> snd) (cn_queue (sy_conn s)))) (od_owner od) \<ge> 1"
    by (simp only: count_greater_eq_one_iff set_mset_mset)
  show ?thesis unfolding eq mset_append mset.simps count_union using ge by (simp only: count_add_mset refl if_True)
qed

theorem compression_error_answered_twice_witness:
  "count (mset (map fst (cn_answers (sy_conn (handleIssue IssueClose (compressed 0 (Some aborted) (write_op (\<lambda>_. Compressing) 0 (demo_write ''s'') demo_sys))))))) 0 \<ge> 2"
proof -
  let ?s = "write_op (\<lambda>_. Compressing) 0 (demo_write ''s'') demo_sys"
  have "cn_compressing (sy_conn ?s) = [describe_op 0 (demo_write ''s'')]" "cn_queue (sy_conn ?s) = [(0, describe_op 0 (demo_write ''s''))]"
    "\<not> cn_closed (sy_conn ?s)" by code_simp+
  then show ?thesis using compression_error_answered_twice [of 0 ?s "describe_op 0 (demo_write ''s'')" aborted]
    by (simp add: describe_op_def)
qed

text \<open>The run of a request that is captured, sent, answered and handed over, and one that is still in flight.\<close>

theorem every_request_in_one_place_witness:
  "mset (map fst (cn_answers (sy_conn (snd (conn_run (\<lambda>_. Written) demo_sys [DoWrite (demo_write ''s''), DoWrite (demo_write ''t''),
      DoReply \<lparr>rm_requestId = 9, rm_responseTo = 1, rm_moreToCome = False, rm_parsed = Inr [[(''ok'', JNum 1)]]\<rparr>])))))
   + mset (map (od_owner \<circ> snd) (cn_queue (sy_conn (snd (conn_run (\<lambda>_. Written) demo_sys [DoWrite (demo_write ''s''), DoWrite (demo_write ''t''),
      DoReply \<lparr>rm_requestId = 9, rm_responseTo = 1, rm_moreToCome = False, rm_parsed = Inr [[(''ok'', JNum 1)]]\<rparr>])))))
   = {#0, 1#}"
proof -
  let ?xs = "[DoWrite (demo_write ''s''), DoWrite (demo_write ''t''),
      DoReply \<lparr>rm_requestId = 9, rm_responseTo = 1, rm_moreToCome = False, rm_parsed = Inr [[(''ok'', JNum 1)]]\<rparr>]"
  have f: "fst (conn_run (\<lambda>_. Written) demo_sys ?xs) = 2" "qp_waiters (sy_pause (snd (conn_run (\<lambda>_. Written) demo_sys ?xs))) = []"
    by code_simp+
  obtain n s where r: "conn_run (\<lambda>_. Written) demo_sys ?xs = (n, s)" by (metis prod.exhaust)
  have "mset [0..<2::nat] = {#0, 1#}" by (simp add: numeral_2_eq_2)
  with every_request_in_one_place [OF _ r [unfolded demo_sys_def]] f r show ?thesis by (simp del: mset_upt)
qed

theorem close_answers_requests_witness:
  "\<exists>err. instanceof err MongoNetworkError
    \<and> cn_answers (sy_conn (handleIssue IssueTimeout (snd (conn_run (\<lambda>_. Written) demo_sys [DoWrite (demo_write ''s''), DoWrite (demo_write ''t'')]))))
        = [(0, Some err, None), (1, Some err, None)]"
proof -
  let ?xs = "[DoWrite (demo_write ''s''), DoWrite (demo_write ''t'')]"
  have f: "cn_queue (sy_conn (snd (conn_run (\<lambda>_. Written) demo_sys ?xs)))
        = [(0, describe_op 0 (demo_write ''s'')), (1, describe_op 1 (demo_write ''t''))]"
    "cn_answers (sy_conn (snd (conn_run (\<lambda>_. Written) demo_sys ?xs))) = []"
    "\<not> cn_closed (sy_conn (snd (conn_run (\<lambda>_. Written) demo_sys ?xs)))" by code_simp+
  obtain n s where r: "conn_run (\<lambda>_. Written) demo_sys ?xs = (n, s)" by (metis prod.exhaust)
  from close_answers_requests [OF _ r [unfolded demo_sys_def], of IssueTimeout aborted] f r show ?thesis
    by (auto simp: describe_op_def)
qed

theorem pausing_off_is_upstream_witness:
  "(let s = demo_sys\<lparr>sy_pause := pause_start (sy_pause demo_sys)\<rparr>; wo = (demo_write ''s'')\<lparr>wo_session := None\<rparr>
    in qp_isCommandCapturing (sy_pause s) \<and> write_op (\<lambda>_. Written) 0 wo s = write_upstream (\<lambda>_. Written) 0 wo s)
   \<and> write_op (\<lambda>_. Written) 0 (demo_write ''s'') demo_sys = write_upstream (\<lambda>_. Written) 0 (demo_write ''s'') demo_sys"
  using pausing_off_is_upstream [of "demo_sys\<lparr>sy_pause := pause_start (sy_pause demo_sys)\<rparr>" "(demo_write ''s'')\<lparr>wo_session := None\<rparr>"]
    pausing_off_is_upstream [of demo_sys "demo_write ''s''"]
  by (simp add: demo_sys_def fresh_sys_def QpPause_new_def pause_start_def)

end
