(* ===== verification/Change_Streams.thy ===== *)
theory Change_Streams
  imports Cursors Documents
begin

text \<open>
  \<open>src/change_stream.ts\<close>: change streams, their cursors and the way they resume after an error.
  A change stream keeps the cursors it made in a store, so that an outstanding call keeps its own
  cursor when the stream has moved on to another.  A call on a cursor is pending from the moment it
  is made to the moment its callback runs; the fetching itself (theory \<open>Cursors\<close>) is done in between
  in one piece.  The replies to the aggregate and getMore commands are arguments, by the number of the
  cursor; so is the fuel of the fetching.  The events \<open>init\<close>, \<open>more\<close> and \<open>response\<close> are left out.
\<close>

section \<open>The cursor of a change stream\<close>

text \<open>A reply to the aggregate or getMore command: its cursor document and the operation time.\<close>

record csReply =
  rp_id :: int
  rp_batch :: "jsval list"
  rp_postBatchResumeToken :: jsval
  rp_operationTime :: jsval

record csEnv =
  ev_hasSessionSupport :: bool
  ev_loadBalanced :: bool
  ev_wireVersion :: "string \<Rightarrow> int"
  ev_fuel :: nat
  ev_aggregate :: "nat \<Rightarrow> jsval list \<Rightarrow> doc \<Rightarrow> mongoError + string \<times> csReply"
  ev_getMore :: "nat \<Rightarrow> nat \<Rightarrow> mongoError + csReply"

record csCursor =
  csc_no :: nat
  csc_cursor :: "jsval cursor"
  csc_pipeline :: "jsval list"
  csc_options :: doc
  csc_resumeToken :: jsval
  csc_startAtOperationTime :: jsval
  csc_hasReceived :: bool
  csc_postBatchResumeToken :: jsval
  csc_tokensEmitted :: "jsval list"

definition CHANGE_STREAM_OPTIONS :: "string list" where
  "CHANGE_STREAM_OPTIONS = [''resumeAfter'', ''startAfter'', ''startAtOperationTime'', ''fullDocument'']"

definition CURSOR_OPTIONS :: "string list" where
  "CURSOR_OPTIONS = [''batchSize'', ''maxAwaitTimeMS'', ''collation'', ''readPreference''] @ CHANGE_STREAM_OPTIONS"

definition set_resumeToken :: "jsval \<Rightarrow> csCursor \<Rightarrow> csCursor" where
  "set_resumeToken token c = c\<lparr>csc_resumeToken := token, csc_tokensEmitted := csc_tokensEmitted c @ [token]\<rparr>"

definition cursor_settings :: "doc \<Rightarrow> abstractCursorOptions" where
  "cursor_settings options =
     \<lparr>aco_readPreference = None, aco_readConcern = None, aco_level = None, aco_batchSize = num_of (fld ''batchSize'' options),
      aco_maxTimeMS = None, aco_session = None\<rparr>"

text \<open>
  The constructor.  The token it sets is announced before anyone listens.
\<close>

definition ChangeStreamCursor_new :: "nat \<Rightarrow> string \<Rightarrow> jsval list \<Rightarrow> doc \<Rightarrow> csCursor" where
  "ChangeStreamCursor_new k namespace pipeline options =
     (let c = \<lparr>csc_no = k, csc_cursor = AbstractCursor_new namespace (cursor_settings options), csc_pipeline = pipeline,
               csc_options = options, csc_resumeToken = JNull, csc_startAtOperationTime = fld ''startAtOperationTime'' options,
               csc_hasReceived = False, csc_postBatchResumeToken = JUndef, csc_tokensEmitted = []\<rparr>
      in if truthy (fld ''startAfter'' options) then c\<lparr>csc_resumeToken := fld ''startAfter'' options\<rparr>
         else if truthy (fld ''resumeAfter'' options) then c\<lparr>csc_resumeToken := fld ''resumeAfter'' options\<rparr>
         else c)"

definition wire_version :: "csEnv \<Rightarrow> csCursor \<Rightarrow> int" where
  "wire_version ev c = (case cu_server (csc_cursor c) of Some s \<Rightarrow> ev_wireVersion ev s | None \<Rightarrow> 0)"

definition resumeOptions :: "csEnv \<Rightarrow> csCursor \<Rightarrow> doc" where
  "resumeOptions ev c =
     (let opts = csc_options c;
          r0 = fold (\<lambda>n r. case map_of opts n of Some v \<Rightarrow> map_set n v r | None \<Rightarrow> r) CURSOR_OPTIONS []
      in if truthy (csc_resumeToken c) \<or> truthy (csc_startAtOperationTime c) then
           (let r1 = fold map_delete [''resumeAfter'', ''startAfter'', ''startAtOperationTime''] r0
            in if truthy (csc_resumeToken c) then
                 map_set (if truthy (fld ''startAfter'' opts) \<and> \<not> csc_hasReceived c then ''startAfter'' else ''resumeAfter'')
                   (csc_resumeToken c) r1
               else if wire_version ev c \<ge> 7 then map_set ''startAtOperationTime'' (csc_startAtOperationTime c) r1
               else r1)
         else r0)"

definition cacheResumeToken :: "jsval \<Rightarrow> csCursor \<Rightarrow> csCursor" where
  "cacheResumeToken token c =
     (if cu_documents (csc_cursor c) = [] \<and> truthy (csc_postBatchResumeToken c)
      then set_resumeToken (csc_postBatchResumeToken c) c else set_resumeToken token c)\<lparr>csc_hasReceived := True\<rparr>"

definition processBatch :: "csReply \<Rightarrow> csCursor \<Rightarrow> csCursor" where
  "processBatch r c =
     (if truthy (rp_postBatchResumeToken r) then
        (let c1 = c\<lparr>csc_postBatchResumeToken := rp_postBatchResumeToken r\<rparr>
         in if rp_batch r = [] then set_resumeToken (rp_postBatchResumeToken r) c1 else c1)
      else c)"

text \<open>
  The commands of the cursor as the arguments of its fetching, and what \<open>_initialize\<close> and \<open>_getMore\<close>
  do with the replies on the way.  The fields \<open>resumeAfter\<close> and \<open>startAfter\<close> of the class are never
  assigned, so the guard of the operation time sees only the time and the wire version.
\<close>

definition cursor_env :: "csEnv \<Rightarrow> csCursor \<Rightarrow> jsval cursorEnv" where
  "cursor_env ev c =
     \<lparr>ce_hasSessionSupport = ev_hasSessionSupport ev, ce_loadBalanced = ev_loadBalanced ev,
      ce_init = (\<lambda>session. case ev_aggregate ev (csc_no c) (csc_pipeline c) (csc_options c) of
          Inl e \<Rightarrow> (Some e, None)
        | Inr (s, r) \<Rightarrow> (None, Some \<lparr>er_server = s, er_session = session,
            er_response = \<lparr>re_cursor = Some \<lparr>cd_id = Some (rp_id r), cd_ns = None, cd_firstBatch = rp_batch r\<rparr>,
                           re_cursorId = None, re_documents = None, re_raw = JUndef\<rparr>\<rparr>)),
      ce_getMore = (\<lambda>j size. case ev_getMore ev (csc_no c) j of
          Inl e \<Rightarrow> (Some e, None) | Inr r \<Rightarrow> (None, Some (rp_id r, rp_batch r)))\<rparr>"

definition process_initial :: "csEnv \<Rightarrow> csCursor \<Rightarrow> csCursor" where
  "process_initial ev c =
     (case ev_aggregate ev (csc_no c) (csc_pipeline c) (csc_options c) of
        Inl e \<Rightarrow> c
      | Inr (s, r) \<Rightarrow>
          processBatch r
            (if nullish (csc_startAtOperationTime c) \<and> ev_wireVersion ev s \<ge> 7
             then c\<lparr>csc_startAtOperationTime := rp_operationTime r\<rparr> else c))"

definition process_more :: "csEnv \<Rightarrow> nat \<Rightarrow> csCursor \<Rightarrow> csCursor" where
  "process_more ev j c = (case ev_getMore ev (csc_no c) j of Inl e \<Rightarrow> c | Inr r \<Rightarrow> processBatch r c)"

text \<open>After a call on the underlying cursor, which went from one state to another: the replies it saw.\<close>

definition absorb :: "csEnv \<Rightarrow> csCursor \<Rightarrow> jsval cursor \<Rightarrow> csCursor" where
  "absorb ev c cu =
     (let c1 = (if cu_initialized cu \<and> \<not> cu_initialized (csc_cursor c) then process_initial ev c else c)
      in (fold (process_more ev) [cu_gets (csc_cursor c)..<cu_gets cu] c1)\<lparr>csc_cursor := cu\<rparr>)"

definition with_cursor :: "csEnv \<Rightarrow> (nat \<Rightarrow> jsval cursorEnv \<Rightarrow> jsval cursor \<Rightarrow> ('r \<times> jsval cursor) option) \<Rightarrow> csCursor
    \<Rightarrow> ('r \<times> csCursor) option" where
  "with_cursor ev f c = map_option (\<lambda>(r, cu). (r, absorb ev c cu)) (f (ev_fuel ev) (cursor_env ev c) (csc_cursor c))"

section \<open>The stream\<close>

datatype mode = NoMode | Iterator | Emitter

datatype changeDomain = CollectionDomain | DatabaseDomain | ClusterDomain

text \<open>A callback that waits for a cursor, by its caller: the three calls, and the repetition of \<open>next\<close>.\<close>

datatype request = ReqHasNext nat | ReqNext nat | ReqTryNext nat | Again nat

text \<open>A call on a cursor whose callback has not run; the last is the one that tries a new cursor out.\<close>

datatype pendingCall = CallHasNext nat | CallNext nat | CallTryNext nat | CallResume

datatype csAnswer = Failed "mongoError option" | GotBool bool | GotDoc "jsval option" | GotNothing

datatype csEvent = ErrorEvent mongoError | ChangeEvent jsval

text \<open>\<open>cs_stream\<close> is the readable stream with the numbers of its listeners for data and for errors.\<close>

record changeStream =
  cs_type :: changeDomain
  cs_pipeline :: "jsval list"
  cs_options :: doc
  cs_namespace :: string
  cs_cursor :: "nat option"
  cs_store :: "csCursor list"
  cs_resumeQueue :: "request list"
  cs_stream :: "(nat \<times> nat \<times> nat) option"
  cs_closed :: bool
  cs_mode :: mode
  cs_listeners :: nat
  cs_calls :: "(pendingCall \<times> nat) list"
  cs_waits :: "(nat \<times> nat option) list"
  cs_answers :: "(nat \<times> csAnswer) list"
  cs_events :: "csEvent list"

definition closed_error :: mongoError where
  "closed_error = mk_error MongoAPIError ''ChangeStream is closed''"

definition answer :: "nat \<Rightarrow> csAnswer \<Rightarrow> changeStream \<Rightarrow> changeStream" where
  "answer i a cs = cs\<lparr>cs_answers := cs_answers cs @ [(i, a)]\<rparr>"

definition cs_emit :: "csEvent \<Rightarrow> changeStream \<Rightarrow> changeStream" where
  "cs_emit e cs = cs\<lparr>cs_events := cs_events cs @ [e]\<rparr>"

definition setIsEmitter :: "changeStream \<Rightarrow> mongoError + changeStream" where
  "setIsEmitter cs =
     (if cs_mode cs = Iterator
      then Inl (mk_error MongoAPIError ''ChangeStream cannot be used as an EventEmitter after being used as an iterator'')
      else Inr (cs\<lparr>cs_mode := Emitter\<rparr>))"

definition setIsIterator :: "changeStream \<Rightarrow> mongoError + changeStream" where
  "setIsIterator cs =
     (if cs_mode cs = Emitter
      then Inl (mk_error MongoAPIError ''ChangeStream cannot be used as an iterator after being used as an EventEmitter'')
      else Inr (cs\<lparr>cs_mode := Iterator\<rparr>))"

definition streamEvents :: "nat \<Rightarrow> changeStream \<Rightarrow> mongoError + changeStream" where
  "streamEvents k cs =
     rbind (setIsEmitter cs) (\<lambda>cs1.
       Inr (cs1\<lparr>cs_stream := Some (case cs_stream cs1 of Some (j, d, e) \<Rightarrow> (j, Suc d, Suc e) | None \<Rightarrow> (k, 1, 1))\<rparr>))"

definition endStream :: "changeStream \<Rightarrow> changeStream" where
  "endStream cs = cs\<lparr>cs_stream := None\<rparr>"

definition applyKnownOptions :: "doc \<Rightarrow> doc \<Rightarrow> string list \<Rightarrow> doc" where
  "applyKnownOptions target source names =
     fold (\<lambda>n t. if truthy (fld n source) then map_set n (fld n source) t else t) names target"

definition change_stage :: "changeDomain \<Rightarrow> doc \<Rightarrow> doc" where
  "change_stage domain options =
     (let s0 = [(''fullDocument'', if truthy (fld ''fullDocument'' options) then fld ''fullDocument'' options else JStr ''default'')];
          s1 = applyKnownOptions s0 options CHANGE_STREAM_OPTIONS
      in if domain = ClusterDomain then map_set ''allChangesForCluster'' (JBool True) s1 else s1)"

definition createChangeStreamCursor :: "doc \<Rightarrow> changeStream \<Rightarrow> mongoError + nat \<times> changeStream" where
  "createChangeStreamCursor options cs =
     (let pipeline = JDoc [(''$changeStream'', JDoc (change_stage (cs_type cs) options))] # cs_pipeline cs;
          k = length (cs_store cs);
          c = ChangeStreamCursor_new k (cs_namespace cs) pipeline (applyKnownOptions [] options CURSOR_OPTIONS);
          cs1 = cs\<lparr>cs_store := cs_store cs @ [c]\<rparr>
      in if cs_listeners cs > 0 then rbind (streamEvents k cs1) (\<lambda>cs2. Inr (k, cs2)) else Inr (k, cs1))"

text \<open>The parent of a stream is a collection, a database, a client, or something else.\<close>

definition ChangeStream_new :: "changeDomain option \<Rightarrow> string \<Rightarrow> jsval \<Rightarrow> jsval list \<Rightarrow> doc \<Rightarrow> mongoError + changeStream" where
  "ChangeStream_new parent namespace readPreference pipeline options =
     (case parent of
        None \<Rightarrow> Inl (mk_error MongoChangeStreamError
          ''Parent provided to ChangeStream constructor must be an instance of Collection, Db, or MongoClient'')
      | Some t \<Rightarrow>
          (let opts = (if \<not> truthy (fld ''readPreference'' options) \<and> truthy readPreference
                       then map_set ''readPreference'' readPreference options else options);
               cs = \<lparr>cs_type = t, cs_pipeline = pipeline, cs_options = opts, cs_namespace = namespace, cs_cursor = None,
                     cs_store = [], cs_resumeQueue = [], cs_stream = None, cs_closed = False, cs_mode = NoMode,
                     cs_listeners = 0, cs_calls = [], cs_waits = [], cs_answers = [], cs_events = []\<rparr>
           in rbind (createChangeStreamCursor opts cs) (\<lambda>(k, cs1). Inr (cs1\<lparr>cs_cursor := Some k\<rparr>))))"

text \<open>Adding and removing a listener for changes, with the listeners for listeners of the constructor.\<close>

definition on_change :: "changeStream \<Rightarrow> mongoError + changeStream" where
  "on_change cs =
     rbind (case cs_cursor cs of Some k \<Rightarrow> (if cs_listeners cs = 0 then streamEvents k cs else Inr cs) | None \<Rightarrow> Inr cs)
       (\<lambda>cs1. Inr (cs1\<lparr>cs_listeners := Suc (cs_listeners cs1)\<rparr>))"

definition off_change :: "changeStream \<Rightarrow> changeStream" where
  "off_change cs =
     (let cs1 = cs\<lparr>cs_listeners := cs_listeners cs - 1\<rparr>
      in if cs_listeners cs > 0 \<and> cs_listeners cs1 = 0 \<and> cs_cursor cs1 \<noteq> None
         then cs1\<lparr>cs_stream := map_option (\<lambda>(k, d, e). (k, 0, e)) (cs_stream cs1)\<rparr> else cs1)"

definition cs_resumeToken :: "changeStream \<Rightarrow> jsval" where
  "cs_resumeToken cs = (case cs_cursor cs of Some k \<Rightarrow> csc_resumeToken (cs_store cs ! k) | None \<Rightarrow> JUndef)"

definition cs_isClosed :: "changeStream \<Rightarrow> bool" where
  "cs_isClosed cs =
     (cs_closed cs \<or> (case cs_cursor cs of Some k \<Rightarrow> cu_closed (csc_cursor (cs_store cs ! k)) | None \<Rightarrow> False))"

definition update_cursor :: "nat \<Rightarrow> (csCursor \<Rightarrow> csCursor) \<Rightarrow> changeStream \<Rightarrow> changeStream" where
  "update_cursor k f cs = cs\<lparr>cs_store := (cs_store cs)[k := f (cs_store cs ! k)]\<rparr>"

definition close_cursor :: "csEnv \<Rightarrow> csCursor \<Rightarrow> csCursor" where
  "close_cursor ev c = c\<lparr>csc_cursor := cursor_close (cursor_env ev c) (csc_cursor c)\<rparr>"

definition cs_close :: "csEnv \<Rightarrow> changeStream \<Rightarrow> changeStream" where
  "cs_close ev cs =
     (let cs1 = cs\<lparr>cs_closed := True\<rparr>
      in case cs_cursor cs1 of
           None \<Rightarrow> cs1
         | Some k \<Rightarrow> (endStream (update_cursor k (close_cursor ev) cs1))\<lparr>cs_cursor := None\<rparr>)"

definition closeWithError :: "csEnv \<Rightarrow> mongoError \<Rightarrow> nat option \<Rightarrow> changeStream \<Rightarrow> changeStream" where
  "closeWithError ev e callback cs =
     (case callback of
        None \<Rightarrow> cs_close ev (cs_emit (ErrorEvent e) cs)
      | Some i \<Rightarrow> answer i (Failed (Some e)) (cs_close ev cs))"

section \<open>Asking for a cursor\<close>

definition cursor_call :: "pendingCall \<Rightarrow> nat \<Rightarrow> changeStream \<Rightarrow> changeStream" where
  "cursor_call p k cs = cs\<lparr>cs_calls := cs_calls cs @ [(p, k)]\<rparr>"

fun call_of :: "request \<Rightarrow> pendingCall" where
  "call_of (ReqHasNext i) = CallHasNext i"
| "call_of (ReqNext i) = CallNext i"
| "call_of (ReqTryNext i) = CallTryNext i"
| "call_of (Again i) = CallNext i"

fun caller :: "request \<Rightarrow> nat" where
  "caller (ReqHasNext i) = i"
| "caller (ReqNext i) = i"
| "caller (ReqTryNext i) = i"
| "caller (Again i) = i"

text \<open>The callback that the three calls give to \<open>getCursor\<close>.\<close>

definition with_got :: "request \<Rightarrow> mongoError option \<Rightarrow> nat option \<Rightarrow> changeStream \<Rightarrow> changeStream" where
  "with_got r err cursor cs =
     (case (err, cursor) of
        (None, Some k) \<Rightarrow> cursor_call (call_of r) k cs
      | _ \<Rightarrow> answer (caller r) (Failed err) cs)"

definition getCursor :: "request \<Rightarrow> changeStream \<Rightarrow> changeStream" where
  "getCursor r cs =
     (if cs_closed cs then with_got r (Some closed_error) None cs
      else (case cs_cursor cs of
              Some k \<Rightarrow> with_got r None (Some k) cs
            | None \<Rightarrow> cs\<lparr>cs_resumeQueue := cs_resumeQueue cs @ [r]\<rparr>))"

text \<open>\<open>hasNext\<close>, \<open>next\<close> and \<open>tryNext\<close>; the first statement may throw.\<close>

definition cs_ask :: "request \<Rightarrow> changeStream \<Rightarrow> mongoError + changeStream" where
  "cs_ask r cs = rbind (setIsIterator cs) (\<lambda>cs1. Inr (getCursor r cs1))"

text \<open>
  A queued callback is called.  The repetition of a \<open>next\<close> ignores its arguments; it was queued in
  iterator mode, so that it does not throw.
\<close>

definition run_request :: "mongoError option \<Rightarrow> request \<Rightarrow> changeStream \<Rightarrow> changeStream" where
  "run_request err r cs =
     (case r of
        Again i \<Rightarrow> (case cs_ask (ReqNext i) cs of Inl e \<Rightarrow> cs | Inr cs1 \<Rightarrow> cs1)
      | _ \<Rightarrow> with_got r err (cs_cursor cs) cs)"

fun drain :: "nat \<Rightarrow> mongoError option \<Rightarrow> changeStream \<Rightarrow> changeStream" where
  "drain 0 err cs = cs"
| "drain (Suc n) err cs =
     (if cs_resumeQueue cs = [] then cs
      else
        (let r = last (cs_resumeQueue cs); cs1 = cs\<lparr>cs_resumeQueue := butlast (cs_resumeQueue cs)\<rparr>
         in if err = None \<and> cs_closed cs1 then run_request (Some closed_error) r cs1
            else if err = None \<and> cs_cursor cs1 = None then
              run_request (Some (mk_error MongoChangeStreamError ''ChangeStream has no cursor'')) r cs1
            else drain n err (run_request err r cs1)))"

text \<open>As many rounds as there are requests: a request queues nothing when it is run here.\<close>

definition processResumeQueue :: "mongoError option \<Rightarrow> changeStream \<Rightarrow> changeStream" where
  "processResumeQueue err cs = drain (length (cs_resumeQueue cs)) err cs"

section \<open>Changes and errors\<close>

definition deliver :: "jsval \<Rightarrow> nat option \<Rightarrow> changeStream \<Rightarrow> changeStream" where
  "deliver change callback cs =
     (case callback of None \<Rightarrow> cs_emit (ChangeEvent change) cs | Some i \<Rightarrow> answer i (GotDoc (Some change)) cs)"

definition processNewChange :: "csEnv \<Rightarrow> jsval option \<Rightarrow> nat option \<Rightarrow> changeStream \<Rightarrow> changeStream" where
  "processNewChange ev change callback cs =
     (if cs_closed cs then (case callback of Some i \<Rightarrow> answer i (Failed (Some closed_error)) cs | None \<Rightarrow> cs)
      else (case change of
        None \<Rightarrow> closeWithError ev (mk_error MongoRuntimeError ''ChangeStream is closed'') callback cs
      | Some d \<Rightarrow>
          if \<not> truthy (get_prop ''_id'' d) then
            closeWithError ev (mk_error MongoChangeStreamError
              ''A change stream document has been received that lacks a resume token (_id).'') callback cs
          else
            (let cs1 = (case cs_cursor cs of Some k \<Rightarrow> update_cursor k (cacheResumeToken (get_prop ''_id'' d)) cs | None \<Rightarrow> cs);
                 cs2 = cs1\<lparr>cs_options := map_set ''startAtOperationTime'' JUndef (cs_options cs1)\<rparr>
             in deliver d callback cs2)))"

definition unresumableError :: "csEnv \<Rightarrow> mongoError \<Rightarrow> nat option \<Rightarrow> changeStream \<Rightarrow> changeStream" where
  "unresumableError ev e callback cs =
     processResumeQueue (Some e) (cs_close ev (if callback = None then cs_emit (ErrorEvent e) cs else cs))"

definition resumeWithCursor :: "nat \<Rightarrow> changeStream \<Rightarrow> changeStream" where
  "resumeWithCursor k cs = processResumeQueue None (cs\<lparr>cs_cursor := Some k\<rparr>)"

definition processError :: "csEnv \<Rightarrow> mongoError \<Rightarrow> nat option \<Rightarrow> changeStream \<Rightarrow> changeStream" where
  "processError ev e callback cs =
     (if cs_closed cs then (case callback of Some i \<Rightarrow> answer i (Failed (Some closed_error)) cs | None \<Rightarrow> cs)
      else (case cs_cursor cs of
        Some k \<Rightarrow>
          if isResumableError (Some e) (Some (wire_version ev (cs_store cs ! k)))
          then (update_cursor k (close_cursor ev) (endStream (cs\<lparr>cs_cursor := None\<rparr>)))\<lparr>cs_waits := cs_waits cs @ [(k, callback)]\<rparr>
          else closeWithError ev e callback cs
      | None \<Rightarrow> closeWithError ev e callback cs))"

text \<open>
  The wait for the topology is over.  Making the new cursor may throw, in a timer callback that
  nobody guards.
\<close>

definition wait_over :: "csEnv \<Rightarrow> mongoError option \<Rightarrow> nat \<Rightarrow> nat option \<Rightarrow> changeStream \<Rightarrow> mongoError + changeStream" where
  "wait_over ev err k callback cs =
     (case err of
        Some e \<Rightarrow> Inr (unresumableError ev e callback cs)
      | None \<Rightarrow>
          rbind (createChangeStreamCursor (resumeOptions ev (cs_store cs ! k)) cs)
            (\<lambda>(j, cs1). Inr (if callback = None then resumeWithCursor j cs1 else cursor_call CallResume j cs1)))"

text \<open>One look of \<open>waitForTopologyConnected\<close>, by the time of the first look: an answer, or another look.\<close>

datatype waitResult = Connected | TimedOut | Waiting

definition SELECTION_TIMEOUT :: int where
  "SELECTION_TIMEOUT = 30000"

fun waitForTopologyConnected :: "int option \<Rightarrow> (int \<times> bool) list \<Rightarrow> waitResult" where
  "waitForTopologyConnected start [] = Waiting"
| "waitForTopologyConnected start ((t, isConnected) # looks) =
     (let s = (case start of Some x \<Rightarrow> x | None \<Rightarrow> t); from = (if s = 0 then t else s)
      in if isConnected then Connected
         else if calculateDurationInMs t from > SELECTION_TIMEOUT then TimedOut
         else waitForTopologyConnected (Some s) looks)"

section \<open>Steps\<close>

text \<open>
  The callback of a pending call runs, on the cursor the call was made on.  \<open>None\<close> is a fetch that
  does not come back within the fuel.
\<close>

definition cursor_reply :: "csEnv \<Rightarrow> pendingCall \<Rightarrow> nat \<Rightarrow> changeStream \<Rightarrow> changeStream option" where
  "cursor_reply ev p k cs =
     (let c = cs_store cs ! k
      in case p of
        CallHasNext i \<Rightarrow>
          map_option (\<lambda>(r, c1). answer i (case r of Inl e \<Rightarrow> Failed (Some e) | Inr b \<Rightarrow> GotBool b) (update_cursor k (\<lambda>_. c1) cs))
            (with_cursor ev hasNext c)
      | CallTryNext i \<Rightarrow>
          map_option (\<lambda>((err, d), c1). answer i (case err of Some e \<Rightarrow> Failed (Some e) | None \<Rightarrow> GotDoc d) (update_cursor k (\<lambda>_. c1) cs))
            (with_cursor ev tryNext c)
      | CallNext i \<Rightarrow>
          map_option (\<lambda>((err, d), c1).
              let cs1 = update_cursor k (\<lambda>_. c1) cs
              in case err of
                   Some e \<Rightarrow> processError ev e (Some i) (cs1\<lparr>cs_resumeQueue := cs_resumeQueue cs1 @ [Again i]\<rparr>)
                 | None \<Rightarrow> processNewChange ev d (Some i) cs1)
            (with_cursor ev next_doc c)
      | CallResume \<Rightarrow>
          map_option (\<lambda>(r, c1).
              let cs1 = update_cursor k (\<lambda>_. c1) cs
              in case r of Inl e \<Rightarrow> unresumableError ev e (Some 0) cs1 | Inr _ \<Rightarrow> resumeWithCursor k cs1)
            (with_cursor ev hasNext c))"

text \<open>
  What the readable stream of a cursor does with the outcome of a fetch, \<open>readNext\<close> in
  \<open>abstract_cursor.ts\<close>: it hands a document to its listeners, ends, or fails.
\<close>

datatype streamed = Pushed jsval | Ended | Destroyed mongoError

definition readNext :: "jsval cursorEnv \<Rightarrow> (mongoError option \<times> jsval option) \<times> jsval cursor \<Rightarrow> streamed \<times> jsval cursor" where
  "readNext env res =
     (case res of
        ((Some e, _), cu) \<Rightarrow>
          if contains_sub ''server is closed'' (e_message e) then (Ended, cursor_close env cu)
          else if contains_sub ''interrupted'' (e_message e) then (Ended, cu)
          else (Destroyed e, cu)
      | ((None, None), cu) \<Rightarrow> (Ended, cu)
      | ((None, Some d), cu) \<Rightarrow> (Pushed d, cu))"

definition stream_read :: "csEnv \<Rightarrow> changeStream \<Rightarrow> changeStream option" where
  "stream_read ev cs =
     (case cs_stream cs of
        None \<Rightarrow> Some cs
      | Some (k, data, errors) \<Rightarrow>
          map_option (\<lambda>(r, c1).
              let (out, cu) = readNext (cursor_env ev c1) (r, csc_cursor c1);
                  cs1 = update_cursor k (\<lambda>_. c1\<lparr>csc_cursor := cu\<rparr>) cs
              in case out of
                   Pushed d \<Rightarrow> ((processNewChange ev (Some d) None) ^^ data) cs1
                 | Ended \<Rightarrow> cs1
                 | Destroyed e \<Rightarrow> ((processError ev e None) ^^ errors) cs1)
            (with_cursor ev (\<lambda>fuel env. cursor_next fuel env True) (cs_store cs ! k)))"

text \<open>What happens to a stream: calls, callbacks of cursors by their place, waits that end, listeners.\<close>

datatype csStep = Ask request | Close nat | CursorReplies nat | WaitOver nat "mongoError option" | StreamReads | OnChange | OffChange

definition remove_nth :: "nat \<Rightarrow> 'a list \<Rightarrow> 'a list" where
  "remove_nth i xs = take i xs @ drop (Suc i) xs"

text \<open>A step that throws leaves the stream as it was.\<close>

definition or_same :: "changeStream \<Rightarrow> mongoError + changeStream \<Rightarrow> changeStream" where
  "or_same cs r = (case r of Inl e \<Rightarrow> cs | Inr cs1 \<Rightarrow> cs1)"

definition cs_step :: "csEnv \<Rightarrow> csStep \<Rightarrow> changeStream \<Rightarrow> changeStream option" where
  "cs_step ev x cs =
     (case x of
        Ask r \<Rightarrow> Some (or_same cs (cs_ask r cs))
      | Close i \<Rightarrow> Some (answer i GotNothing (cs_close ev cs))
      | CursorReplies n \<Rightarrow>
          if n < length (cs_calls cs)
          then cursor_reply ev (fst (cs_calls cs ! n)) (snd (cs_calls cs ! n)) (cs\<lparr>cs_calls := remove_nth n (cs_calls cs)\<rparr>)
          else Some cs
      | WaitOver n err \<Rightarrow>
          if n < length (cs_waits cs)
          then (let cs1 = cs\<lparr>cs_waits := remove_nth n (cs_waits cs)\<rparr>
                in Some (or_same cs1 (wait_over ev err (fst (cs_waits cs ! n)) (snd (cs_waits cs ! n)) cs1)))
          else Some cs
      | StreamReads \<Rightarrow> stream_read ev cs
      | OnChange \<Rightarrow> Some (or_same cs (on_change cs))
      | OffChange \<Rightarrow> Some (off_change cs))"

fun cs_run :: "csEnv \<Rightarrow> csStep list \<Rightarrow> changeStream \<Rightarrow> changeStream option" where
  "cs_run ev [] cs = Some cs"
| "cs_run ev (x # xs) cs = (case cs_step ev x cs of None \<Rightarrow> None | Some cs1 \<Rightarrow> cs_run ev xs cs1)"

end
