(* ===== verification/Change_Stream_Rules.thy ===== *)
theory Change_Stream_Rules
  imports Change_Streams
begin

text \<open>
  What a change stream delivers.  A server that keeps a log of changes is described by what its replies
  carry; a stream that reads from it, breaks and resumes delivers the changes in their order.  The
  proof follows a cursor through its fetches (\<open>fetch\<close>) and then the stream through its steps
  (\<open>step_in_order\<close>).  After that: the wait for the topology ends, the requests of a resuming stream are
  all served, and four runs that show where the order or the stream is lost.
\<close>

section \<open>Where a stream resumes\<close>

lemma fld_map_delete [simp]: "fld j (map_delete k d) = (if j = k then JUndef else fld j d)"
  by (simp add: fld_def map_of_map_delete)

text \<open>The token that the first stage of a pipeline starts after.\<close>

definition start_token :: "jsval list \<Rightarrow> jsval" where
  "start_token pipeline =
     (case pipeline of
        [] \<Rightarrow> JUndef
      | stage # _ \<Rightarrow>
          (let s = get_prop ''$changeStream'' stage
           in if truthy (get_prop ''resumeAfter'' s) then get_prop ''resumeAfter'' s else get_prop ''startAfter'' s))"

lemma resume_start:
  assumes "truthy (csc_resumeToken c)"
  shows "\<exists>k \<in> {''resumeAfter'', ''startAfter''}. fld k (resumeOptions ev c) = csc_resumeToken c
     \<and> (\<forall>j \<in> {''resumeAfter'', ''startAfter'', ''startAtOperationTime''}. j \<noteq> k \<longrightarrow> fld j (resumeOptions ev c) = JUndef)"
  using assms by (auto simp: resumeOptions_def Let_def)

lemma fld_applyKnownOptions:
  "fld j (applyKnownOptions t s names) = (if j \<in> set names \<and> truthy (fld j s) then fld j s else fld j t)"
  unfolding applyKnownOptions_def by (induction names arbitrary: t) auto

lemma fld_change_stage:
  "j \<noteq> ''allChangesForCluster'' \<Longrightarrow> j \<noteq> ''fullDocument'' \<Longrightarrow> fld j (change_stage t options)
     = (if j \<in> set CHANGE_STREAM_OPTIONS \<and> truthy (fld j options) then fld j options else JUndef)"
  by (simp add: change_stage_def Let_def fld_applyKnownOptions)

lemma start_token_stage:
  assumes "k \<in> {''resumeAfter'', ''startAfter''}" "fld k options = t" "truthy t"
    "\<forall>j \<in> {''resumeAfter'', ''startAfter''}. j \<noteq> k \<longrightarrow> \<not> truthy (fld j options)"
  shows "start_token (JDoc [(''$changeStream'', JDoc (change_stage domain options))] # rest) = t"
    "csc_resumeToken (ChangeStreamCursor_new n ns pipe (applyKnownOptions [] options CURSOR_OPTIONS)) = t"
  using assms by (auto simp: start_token_def get_prop_def fld_change_stage CHANGE_STREAM_OPTIONS_def CURSOR_OPTIONS_def
      ChangeStreamCursor_new_def Let_def fld_applyKnownOptions)

section \<open>The log\<close>

definition changes :: "(nat \<Rightarrow> jsval option) \<Rightarrow> nat \<Rightarrow> nat \<Rightarrow> jsval list" where
  "changes lg a b = List.map_filter lg [a..<b]"

lemma upt_split: "a \<le> b \<Longrightarrow> b \<le> (c :: nat) \<Longrightarrow> [a..<c] = [a..<b] @ [b..<c]"
  using upt_add_eq_append [of a b "c - b"] by simp

lemma changes_split: "a \<le> b \<Longrightarrow> b \<le> c \<Longrightarrow> changes lg a c = changes lg a b @ changes lg b c"
  by (simp add: changes_def List.map_filter_def upt_split [of a b c])

lemma changes_self [simp]: "changes lg a a = []" by (simp add: changes_def List.map_filter_def)

lemma first_change:
  assumes "changes lg a b = d # ds"
  obtains i where "a \<le> i" "i < b" "lg i = Some d" "changes lg a (Suc i) = [d]" "changes lg (Suc i) b = ds"
proof -
  have "\<exists>i. a \<le> i \<and> i < b \<and> lg i = Some d \<and> changes lg a (Suc i) = [d] \<and> changes lg (Suc i) b = ds"
    using assms
  proof (induction "b - a" arbitrary: a)
    case 0
    then show ?case by (simp add: changes_def List.map_filter_def)
  next
    case (Suc n)
    then have ab: "a < b" by simp
    have one: "changes lg a (Suc a) = (case lg a of None \<Rightarrow> [] | Some x \<Rightarrow> [x])"
      by (simp add: changes_def List.map_filter_def split: option.split)
    have s: "changes lg a b = changes lg a (Suc a) @ changes lg (Suc a) b" using ab by (intro changes_split) auto
    show ?case
    proof (cases "lg a")
      case None
      then have e: "changes lg (Suc a) b = d # ds" using s one Suc.prems by simp
      obtain i where i: "Suc a \<le> i" "i < b" "lg i = Some d" "changes lg (Suc a) (Suc i) = [d]" "changes lg (Suc i) b = ds"
        using Suc.hyps(1) [OF _ e] Suc.hyps(2) by (metis Suc_diff_Suc Suc_inject ab)
      moreover have "changes lg a (Suc i) = [d]" using i None one changes_split [of a "Suc a" "Suc i" lg] by simp
      ultimately show ?thesis by (intro exI [of _ i]) simp
    next
      case (Some x)
      then have "x = d" "changes lg (Suc a) b = ds" using s one Suc.prems by simp_all
      then show ?thesis using ab one Some by (intro exI [of _ a]) simp
    qed
  qed
  then show thesis using that by blast
qed

text \<open>
  A server that keeps the log: \<open>q k j\<close> is how far it has read for cursor \<open>k\<close> after \<open>j\<close> getMores.  The
  token of a change stands behind it; a reply carries the changes up to where it has read and the token
  of that place; any command may fail.
\<close>

definition honest :: "csEnv \<Rightarrow> (nat \<Rightarrow> jsval option) \<Rightarrow> (jsval \<Rightarrow> nat) \<Rightarrow> (nat \<Rightarrow> nat \<Rightarrow> nat) \<Rightarrow> bool" where
  "honest ev lg pos q =
     ((\<forall>i d. lg i = Some d \<longrightarrow> truthy (get_prop ''_id'' d) \<and> pos (get_prop ''_id'' d) = Suc i)
      \<and> (\<forall>k pipeline options s r. ev_aggregate ev k pipeline options = Inr (s, r) \<longrightarrow>
           pos (start_token pipeline) \<le> q k 0 \<and> rp_batch r = changes lg (pos (start_token pipeline)) (q k 0)
           \<and> truthy (rp_postBatchResumeToken r) \<and> pos (rp_postBatchResumeToken r) = q k 0)
      \<and> (\<forall>k j. case ev_getMore ev k j of
           Inl _ \<Rightarrow> q k (Suc j) = q k j
         | Inr r \<Rightarrow> q k j \<le> q k (Suc j) \<and> rp_batch r = changes lg (q k j) (q k (Suc j))
             \<and> truthy (rp_postBatchResumeToken r) \<and> pos (rp_postBatchResumeToken r) = q k (Suc j)))"

section \<open>Fetching\<close>

lemma absorb_parts [simp]:
  "csc_cursor (absorb ev c cu) = cu" 
  by (simp add: absorb_def Let_def)

lemma processBatch_cursor: "(processBatch r c)\<lparr>csc_cursor := cu\<rparr> = processBatch r (c\<lparr>csc_cursor := cu\<rparr>)"
  by (simp add: processBatch_def Let_def set_resumeToken_def)

lemma processBatch_same [simp]:
  "csc_no (processBatch r c) = csc_no c" "csc_pipeline (processBatch r c) = csc_pipeline c"
  "csc_options (processBatch r c) = csc_options c" "csc_hasReceived (processBatch r c) = csc_hasReceived c"
  "csc_cursor (processBatch r c) = csc_cursor c"
  by (simp_all add: processBatch_def Let_def set_resumeToken_def)

lemma process_more_cursor: "(process_more ev j c)\<lparr>csc_cursor := cu\<rparr> = process_more ev j (c\<lparr>csc_cursor := cu\<rparr>)"
  by (simp add: process_more_def processBatch_cursor split: sum.split)

lemma process_initial_cursor: "(process_initial ev c)\<lparr>csc_cursor := cu\<rparr> = process_initial ev (c\<lparr>csc_cursor := cu\<rparr>)"
  by (cases c) (auto simp: process_initial_def processBatch_cursor split: sum.split)

lemma fold_more_cursor: "(fold (process_more ev) js c)\<lparr>csc_cursor := cu\<rparr> = fold (process_more ev) js (c\<lparr>csc_cursor := cu\<rparr>)"
  by (induction js arbitrary: c) (simp_all add: process_more_cursor)

lemma process_same [simp]:
  "csc_no (process_more ev j c) = csc_no c" "csc_pipeline (process_more ev j c) = csc_pipeline c"
  "csc_options (process_more ev j c) = csc_options c" "csc_cursor (process_more ev j c) = csc_cursor c"
  "csc_no (process_initial ev c) = csc_no c" "csc_pipeline (process_initial ev c) = csc_pipeline c"
  "csc_options (process_initial ev c) = csc_options c" "csc_cursor (process_initial ev c) = csc_cursor c"
  by (simp_all add: process_more_def process_initial_def split: sum.split prod.split)

lemma fold_more_same [simp]:
  "csc_no (fold (process_more ev) js c) = csc_no c" "csc_pipeline (fold (process_more ev) js c) = csc_pipeline c"
  "csc_options (fold (process_more ev) js c) = csc_options c" "csc_cursor (fold (process_more ev) js c) = csc_cursor c"
  by (induction js arbitrary: c) simp_all

lemma absorb_same [simp]:
  "csc_no (absorb ev c cu) = csc_no c" "csc_pipeline (absorb ev c cu) = csc_pipeline c" "csc_options (absorb ev c cu) = csc_options c"
  by (simp_all add: absorb_def Let_def)

lemma cursor_env_absorb [simp]: "cursor_env ev (absorb ev c cu) = cursor_env ev c"
  by (simp add: cursor_env_def)

lemma absorb_self [simp]: "absorb ev c (csc_cursor c) = c"
  by (simp add: absorb_def)

text \<open>The replies of two calls in a row are those of the first and then those of the second.\<close>

definition later :: "jsval cursor \<Rightarrow> jsval cursor \<Rightarrow> bool" where
  "later cu cu' = (cu_gets cu \<le> cu_gets cu' \<and> (cu_initialized cu \<longrightarrow> cu_initialized cu')
     \<and> (\<not> cu_initialized cu' \<longrightarrow> cu_gets cu' = cu_gets cu))"

lemma absorb_trans:
  assumes "later (csc_cursor c) cu1" "later cu1 cu2"
  shows "absorb ev (absorb ev c cu1) cu2 = absorb ev c cu2"
proof -
  have u: "[cu_gets (csc_cursor c)..<cu_gets cu2] = [cu_gets (csc_cursor c)..<cu_gets cu1] @ [cu_gets cu1..<cu_gets cu2]"
    using assms by (intro upt_split) (simp_all add: later_def)
  show ?thesis using assms unfolding absorb_def Let_def u
    by (cases "cu_initialized (csc_cursor c)"; cases "cu_initialized cu1"; cases "cu_initialized cu2")
       (simp_all add: later_def fold_more_cursor process_initial_cursor)
qed

definition plain :: "csCursor \<Rightarrow> bool" where
  "plain c = (truthy (csc_resumeToken c) \<and> cu_transform (csc_cursor c) = None \<and> cu_numReturned (csc_cursor c) = None
     \<and> \<not> cu_isFind (csc_cursor c))"

definition unopened :: "csEnv \<Rightarrow> csCursor \<Rightarrow> bool" where
  "unopened ev c =
     (cu_id (csc_cursor c) = None \<and> cu_documents (csc_cursor c) = [] \<and> cu_gets (csc_cursor c) = 0
      \<and> start_token (csc_pipeline c) = csc_resumeToken c
      \<and> (cu_initialized (csc_cursor c) \<longrightarrow> (\<exists>e. ev_aggregate ev (csc_no c) (csc_pipeline c) (csc_options c) = Inl e)))"

text \<open>The cursor has read \<open>ds\<close> from where its token stands, and knows the token of where it has read to.\<close>

definition reading :: "(nat \<Rightarrow> jsval option) \<Rightarrow> (jsval \<Rightarrow> nat) \<Rightarrow> (nat \<Rightarrow> nat \<Rightarrow> nat) \<Rightarrow> jsval list \<Rightarrow> csCursor \<Rightarrow> bool" where
  "reading lg pos q ds c =
     (let b = q (csc_no c) (cu_gets (csc_cursor c))
      in cu_id (csc_cursor c) \<noteq> None \<and> cu_initialized (csc_cursor c) \<and> pos (csc_resumeToken c) \<le> b
         \<and> ds = changes lg (pos (csc_resumeToken c)) b \<and> truthy (csc_postBatchResumeToken c)
         \<and> pos (csc_postBatchResumeToken c) = b)"

definition good :: "csEnv \<Rightarrow> (nat \<Rightarrow> jsval option) \<Rightarrow> (jsval \<Rightarrow> nat) \<Rightarrow> (nat \<Rightarrow> nat \<Rightarrow> nat) \<Rightarrow> csCursor \<Rightarrow> bool" where
  "good ev lg pos q c =
     (plain c \<and> (cu_closed (csc_cursor c) \<or> unopened ev c \<or> reading lg pos q (cu_documents (csc_cursor c)) c))"

definition passed :: "(nat \<Rightarrow> jsval option) \<Rightarrow> (jsval \<Rightarrow> nat) \<Rightarrow> csCursor \<Rightarrow> csCursor \<Rightarrow> bool" where
  "passed lg pos c c' =
     (pos (csc_resumeToken c) \<le> pos (csc_resumeToken c') \<and> changes lg (pos (csc_resumeToken c)) (pos (csc_resumeToken c')) = [])"

definition fetched :: "csEnv \<Rightarrow> (nat \<Rightarrow> jsval option) \<Rightarrow> (jsval \<Rightarrow> nat) \<Rightarrow> (nat \<Rightarrow> nat \<Rightarrow> nat) \<Rightarrow> csCursor
    \<Rightarrow> (mongoError option \<times> jsval option) \<times> jsval cursor \<Rightarrow> bool" where
  "fetched ev lg pos q c out =
     (case out of ((err, d), cu) \<Rightarrow>
        later (csc_cursor c) cu \<and> passed lg pos c (absorb ev c cu)
        \<and> (case d of
             None \<Rightarrow> good ev lg pos q (absorb ev c cu)
           | Some x \<Rightarrow> err = None \<and> plain (absorb ev c cu) \<and> \<not> cu_closed cu \<and> reading lg pos q (x # cu_documents cu) (absorb ev c cu)))"

lemma passed_refl [simp]: "passed lg pos c c" by (simp add: passed_def)

lemma passed_trans: "passed lg pos c1 c2 \<Longrightarrow> passed lg pos c2 c3 \<Longrightarrow> passed lg pos c1 c3"
  unfolding passed_def using changes_split [of "pos (csc_resumeToken c1)" "pos (csc_resumeToken c2)" "pos (csc_resumeToken c3)" lg] by simp

lemma later_trans: "later a b \<Longrightarrow> later b c \<Longrightarrow> later a c" by (auto simp: later_def)

lemma fetched_later:
  assumes "later (csc_cursor c) cu" "passed lg pos c (absorb ev c cu)" "fetched ev lg pos q (absorb ev c cu) out"
  shows "fetched ev lg pos q c out"
proof -
  obtain err d cu' where o: "out = ((err, d), cu')" by (metis prod.exhaust)
  have l: "later cu cu'" using assms(3) by (simp add: fetched_def o)
  then have t: "absorb ev (absorb ev c cu) cu' = absorb ev c cu'" using assms(1) by (intro absorb_trans)
  show ?thesis using assms(3) unfolding fetched_def o t absorb_parts prod.case
    by (intro conjI later_trans [OF assms(1) l] passed_trans [OF assms(2)]) auto
qed

text \<open>A call that fetches nothing more.\<close>

lemma absorb_no_fetch:
  assumes "cu_gets cu = cu_gets (csc_cursor c)" "cu_initialized cu = cu_initialized (csc_cursor c)"
  shows "absorb ev c cu = c\<lparr>csc_cursor := cu\<rparr>" "later (csc_cursor c) cu"
  using assms by (auto simp: absorb_def Let_def later_def)

lemma cleanup_fields [simp]:
  "cu_gets (cleanupCursor env err b cu) = cu_gets cu" "cu_initialized (cleanupCursor env err b cu) = cu_initialized cu"
  "cu_documents (cleanupCursor env err b cu) = cu_documents cu" "cu_transform (cleanupCursor env err b cu) = cu_transform cu"
  "cu_numReturned (cleanupCursor env err b cu) = cu_numReturned cu" "cu_isFind (cleanupCursor env err b cu) = cu_isFind cu"
  by (simp_all add: cleanupCursor_def completeCleanup_def Let_def)

lemma cleanup_id: "cu_closed (cleanupCursor env err b cu) \<or> cu_id (cleanupCursor env err b cu) = cu_id cu \<and> cu_closed (cleanupCursor env err b cu) = cu_closed cu"
  by (simp add: cleanupCursor_def completeCleanup_def Let_def)

lemma with_cursor_simps [simp]:
  "plain (c\<lparr>csc_cursor := cu\<rparr>) = (truthy (csc_resumeToken c) \<and> cu_transform cu = None \<and> cu_numReturned cu = None \<and> \<not> cu_isFind cu)"
  "passed lg pos c0 (c\<lparr>csc_cursor := cu\<rparr>) = passed lg pos c0 c"
  by (simp_all add: plain_def passed_def)

text \<open>Cleaning up a cursor without documents, and one whose server side is gone.\<close>

lemma cleanup_fetched:
  assumes "good ev lg pos q c" "cu_documents (csc_cursor c) = []"
  shows "fetched ev lg pos q c ((err, None), cleanupCursor env e b (csc_cursor c))"
  using assms cleanup_id [of env e b "csc_cursor c"]
  by (auto simp: fetched_def absorb_no_fetch good_def plain_def unopened_def reading_def)

lemma finish_fetched:
  assumes "good ev lg pos q c" "\<not> cu_closed (csc_cursor c)" "cu_documents (csc_cursor c) = [] \<or> err = None \<and> cursorIsDead (csc_cursor c)"
  shows "fetched ev lg pos q c (finish env err (csc_cursor c))"
proof (cases "cu_documents (csc_cursor c)")
  case Nil
  then have "finish env err (csc_cursor c) = ((err, None), cleanupCursor env err None (csc_cursor c))"
    by (simp add: finish_def nextDocument_def)
  then show ?thesis using cleanup_fetched [OF assms(1) Nil] by simp
next
  case (Cons x xs)
  let ?cu = "cleanupCursor env err None (csc_cursor c)"
  have k: "cu_id ?cu = cu_id (csc_cursor c)" "cu_closed ?cu = cu_closed (csc_cursor c)"
    using assms(3) Cons by (auto simp: cleanupCursor_def Let_def)
  have "cu_transform (csc_cursor c) = None" using assms(1) by (simp add: good_def plain_def)
  then have f: "finish env err (csc_cursor c) = ((None, Some x), ?cu\<lparr>cu_documents := xs\<rparr>)"
    using assms(3) Cons by (simp add: finish_def nextDocument_def)
  show ?thesis using assms(1,2) Cons k unfolding f
    by (auto simp: fetched_def absorb_no_fetch good_def plain_def unopened_def reading_def)
qed

lemma honest_change:
  "honest ev lg pos q \<Longrightarrow> lg i = Some d \<Longrightarrow> truthy (get_prop ''_id'' d) \<and> pos (get_prop ''_id'' d) = Suc i"
  by (simp add: honest_def)

lemma honest_first:
  assumes "honest ev lg pos q" "ev_aggregate ev k pipeline options = Inr (s, r)"
  shows "pos (start_token pipeline) \<le> q k 0" "rp_batch r = changes lg (pos (start_token pipeline)) (q k 0)"
    "truthy (rp_postBatchResumeToken r)" "pos (rp_postBatchResumeToken r) = q k 0"
  using assms unfolding honest_def by blast+

lemma honest_more:
  assumes "honest ev lg pos q"
  shows "case ev_getMore ev k j of
           Inl _ \<Rightarrow> q k (Suc j) = q k j
         | Inr r \<Rightarrow> q k j \<le> q k (Suc j) \<and> rp_batch r = changes lg (q k j) (q k (Suc j))
             \<and> truthy (rp_postBatchResumeToken r) \<and> pos (rp_postBatchResumeToken r) = q k (Suc j)"
  using assms unfolding honest_def by blast

lemma cursor_env_replies [simp]:
  "ce_init (cursor_env ev c) session =
     (case ev_aggregate ev (csc_no c) (csc_pipeline c) (csc_options c) of
          Inl e \<Rightarrow> (Some e, None)
        | Inr (s, r) \<Rightarrow> (None, Some \<lparr>er_server = s, er_session = session,
            er_response = \<lparr>re_cursor = Some \<lparr>cd_id = Some (rp_id r), cd_ns = None, cd_firstBatch = rp_batch r\<rparr>,
                           re_cursorId = None, re_documents = None, re_raw = JUndef\<rparr>\<rparr>))"
  "ce_getMore (cursor_env ev c) j sz =
     (case ev_getMore ev (csc_no c) j of Inl e \<Rightarrow> (Some e, None) | Inr r \<Rightarrow> (None, Some (rp_id r, rp_batch r)))"
  by (simp_all add: cursor_env_def)

definition initial_fetch :: "csEnv \<Rightarrow> csCursor \<Rightarrow> string \<Rightarrow> csReply \<Rightarrow> jsval cursor" where
  "initial_fetch ev c s r =
     (ensure_session (cursor_env ev c) (csc_cursor c))\<lparr>cu_server := Some s, cu_id := Some (LongId (rp_id r)), cu_documents := rp_batch r,
        cu_initialized := True\<rparr>"

lemma ensure_session_same [simp]:
  "cu_gets (ensure_session env cu) = cu_gets cu" "cu_initialized (ensure_session env cu) = cu_initialized cu"
  "cu_documents (ensure_session env cu) = cu_documents cu" "cu_transform (ensure_session env cu) = cu_transform cu"
  "cu_numReturned (ensure_session env cu) = cu_numReturned cu" "cu_isFind (ensure_session env cu) = cu_isFind cu"
  "cu_closed (ensure_session env cu) = cu_closed cu" "cu_id (ensure_session env cu) = cu_id cu"
  "cu_server (ensure_session env cu) = cu_server cu"
  by (simp_all add: ensure_session_def)

lemma initial_state_plain:
  assumes "cu_isFind cu = False"
  shows "(initial_state \<lparr>er_server = s, er_session = cu_session cu,
            er_response = \<lparr>re_cursor = Some \<lparr>cd_id = Some n, cd_ns = None, cd_firstBatch = b\<rparr>,
                           re_cursorId = None, re_documents = None, re_raw = x\<rparr>\<rparr> cu)\<lparr>cu_initialized := True\<rparr>
     = cu\<lparr>cu_server := Some s, cu_id := Some (LongId n), cu_documents := b, cu_initialized := True\<rparr>"
  using assms by (cases cu) (simp add: initial_state_def Let_def)

lemma initial_fetch_good:
  assumes h: "honest ev lg pos q" and p: "plain c" "unopened ev c" and a: "ev_aggregate ev (csc_no c) (csc_pipeline c) (csc_options c) = Inr (s, r)"
  shows "later (csc_cursor c) (initial_fetch ev c s r)" "passed lg pos c (absorb ev c (initial_fetch ev c s r))"
    "plain (absorb ev c (initial_fetch ev c s r))" "reading lg pos q (rp_batch r) (absorb ev c (initial_fetch ev c s r))"
proof -
  have i: "\<not> cu_initialized (csc_cursor c)" "cu_gets (csc_cursor c) = 0" using p(2) a by (auto simp: unopened_def)
  then show "later (csc_cursor c) (initial_fetch ev c s r)" by (simp add: later_def initial_fetch_def)
  have ab: "absorb ev c (initial_fetch ev c s r) = (process_initial ev c)\<lparr>csc_cursor := initial_fetch ev c s r\<rparr>"
    using i by (simp add: absorb_def initial_fetch_def)
  have b: "pos (csc_resumeToken c) \<le> q (csc_no c) 0" "rp_batch r = changes lg (pos (csc_resumeToken c)) (q (csc_no c) 0)"
    "truthy (rp_postBatchResumeToken r)" "pos (rp_postBatchResumeToken r) = q (csc_no c) 0"
    using honest_first [OF h a] p(2) by (simp_all add: unopened_def)
  have pi: "csc_resumeToken (process_initial ev c) = (if rp_batch r = [] then rp_postBatchResumeToken r else csc_resumeToken c)"
    "csc_postBatchResumeToken (process_initial ev c) = rp_postBatchResumeToken r"
    using b(3) by (simp_all add: process_initial_def a processBatch_def set_resumeToken_def Let_def)
  show "passed lg pos c (absorb ev c (initial_fetch ev c s r))" using b by (auto simp: ab passed_def pi)
  show "plain (absorb ev c (initial_fetch ev c s r))" using b(3) p(1) unfolding ab by (simp add: plain_def pi initial_fetch_def)
  show "reading lg pos q (rp_batch r) (absorb ev c (initial_fetch ev c s r))"
    using b i unfolding ab by (auto simp: reading_def pi initial_fetch_def)
qed

definition more_fetch :: "csCursor \<Rightarrow> int \<Rightarrow> csReply \<Rightarrow> jsval cursor" where
  "more_fetch c sz r =
     (emit (GetMoreSent (the (cu_id (csc_cursor c))) sz) ((csc_cursor c)\<lparr>cu_gets := Suc (cu_gets (csc_cursor c))\<rparr>))
        \<lparr>cu_numReturned := None, cu_documents := rp_batch r, cu_id := Some (LongId (rp_id r))\<rparr>"

lemma more_fetch_good:
  assumes h: "honest ev lg pos q" and p: "plain c" "reading lg pos q [] c" and a: "ev_getMore ev (csc_no c) (cu_gets (csc_cursor c)) = Inr r"
  shows "later (csc_cursor c) (more_fetch c sz r)" "passed lg pos c (absorb ev c (more_fetch c sz r))"
    "plain (absorb ev c (more_fetch c sz r))" "reading lg pos q (rp_batch r) (absorb ev c (more_fetch c sz r))"
proof -
  show "later (csc_cursor c) (more_fetch c sz r)" using p(2) by (simp add: later_def more_fetch_def reading_def Let_def)
  have ab: "absorb ev c (more_fetch c sz r) = (process_more ev (cu_gets (csc_cursor c)) c)\<lparr>csc_cursor := more_fetch c sz r\<rparr>"
    using p(2) by (simp add: absorb_def more_fetch_def reading_def Let_def)
  let ?b = "q (csc_no c) (cu_gets (csc_cursor c))" and ?e = "q (csc_no c) (Suc (cu_gets (csc_cursor c)))"
  have b: "?b \<le> ?e" "rp_batch r = changes lg ?b ?e" "truthy (rp_postBatchResumeToken r)" "pos (rp_postBatchResumeToken r) = ?e"
    using honest_more [OF h, of "csc_no c" "cu_gets (csc_cursor c)"] by (simp_all add: a)
  have t: "pos (csc_resumeToken c) \<le> ?b" "changes lg (pos (csc_resumeToken c)) ?b = []" using p(2) by (auto simp: reading_def Let_def)
  then have all: "changes lg (pos (csc_resumeToken c)) ?e = rp_batch r" using b(1,2) changes_split [of "pos (csc_resumeToken c)" ?b ?e lg] by simp
  have pi: "csc_resumeToken (process_more ev (cu_gets (csc_cursor c)) c) = (if rp_batch r = [] then rp_postBatchResumeToken r else csc_resumeToken c)"
    "csc_postBatchResumeToken (process_more ev (cu_gets (csc_cursor c)) c) = rp_postBatchResumeToken r"
    using b(3) by (simp_all add: process_more_def a processBatch_def set_resumeToken_def Let_def)
  show "passed lg pos c (absorb ev c (more_fetch c sz r))" using b t all by (auto simp: ab passed_def pi)
  show "plain (absorb ev c (more_fetch c sz r))" using b(3) p(1) unfolding ab by (simp add: plain_def pi more_fetch_def)
  show "reading lg pos q (rp_batch r) (absorb ev c (more_fetch c sz r))"
    using b t all p(2) unfolding ab by (auto simp: reading_def pi more_fetch_def Let_def)
qed

lemma failed_more:
  assumes h: "honest ev lg pos q" and p: "plain c" "reading lg pos q [] c" "\<not> cu_closed (csc_cursor c)" "cu_documents (csc_cursor c) = []"
    and a: "ev_getMore ev (csc_no c) (cu_gets (csc_cursor c)) = Inl e"
    and cu_def: "cu = emit (GetMoreSent i sz) ((csc_cursor c)\<lparr>cu_gets := Suc (cu_gets (csc_cursor c))\<rparr>)"
  shows "fetched ev lg pos q c (finish env err cu)"
proof -
  have q: "q (csc_no c) (Suc (cu_gets (csc_cursor c))) = q (csc_no c) (cu_gets (csc_cursor c))"
    using honest_more [OF h, of "csc_no c" "cu_gets (csc_cursor c)"] by (simp add: a)
  have l: "later (csc_cursor c) cu" using p(2) by (simp add: later_def cu_def reading_def Let_def)
  have ab: "absorb ev c cu = c\<lparr>csc_cursor := cu\<rparr>" by (simp add: absorb_def cu_def process_more_def a)
  have "good ev lg pos q (c\<lparr>csc_cursor := cu\<rparr>)" using p q by (simp add: good_def reading_def Let_def plain_def cu_def)
  then have "fetched ev lg pos q (absorb ev c cu) (finish env err (csc_cursor (absorb ev c cu)))" unfolding ab
    by (rule finish_fetched) (use p in \<open>simp_all add: cu_def\<close>)
  then show ?thesis using l ab fetched_later [of c cu lg pos ev q "finish env err cu"] by simp
qed

lemma fetch:
  assumes h: "honest ev lg pos q"
  shows "good ev lg pos q c \<Longrightarrow> cursor_next fuel (cursor_env ev c) True (csc_cursor c) = Some out \<Longrightarrow> fetched ev lg pos q c out"
proof (induction fuel arbitrary: c)
  case (Suc fuel)
  let ?cu = "csc_cursor c" and ?env = "cursor_env ev c"
  have go: "fetched ev lg pos q c out"
    if l: "later ?cu cu2" "passed lg pos c (absorb ev c cu2)" "plain (absorb ev c cu2)" "reading lg pos q (cu_documents cu2) (absorb ev c cu2)"
      and nc: "\<not> cu_closed cu2"
      and r: "(if cursorIsDead cu2 then Some (finish ?env None cu2) else cursor_next fuel ?env True cu2) = Some out" for cu2
  proof -
    have g: "good ev lg pos q (absorb ev c cu2)" using l(3,4) by (simp add: good_def)
    have "fetched ev lg pos q (absorb ev c cu2) out"
    proof (cases "cursorIsDead cu2")
      case True
      then show ?thesis using r finish_fetched [OF g, of None ?env] nc by simp
    next
      case False
      then show ?thesis using r Suc.IH [OF g] by simp
    qed
    then show ?thesis by (rule fetched_later [OF l(1,2)])
  qed
  consider (closed) "cu_closed ?cu" | (docs) "\<not> cu_closed ?cu" "cu_documents ?cu \<noteq> []" | (open1) "\<not> cu_closed ?cu" "cu_documents ?cu = []" by blast
  then show ?case
  proof cases
    case closed
    then show ?thesis using Suc.prems by (auto simp: fetched_def later_def)
  next
    case docs
    then obtain x xs where xs: "cu_documents ?cu = x # xs" by (cases "cu_documents ?cu") auto
    then have out: "out = ((None, Some x), ?cu\<lparr>cu_documents := xs\<rparr>)" using Suc.prems docs
      by (auto simp: nextDocument_def good_def plain_def)
    show ?thesis using Suc.prems(1) docs xs unfolding out
      by (auto simp: fetched_def absorb_no_fetch good_def plain_def unopened_def reading_def)
  next
    case open1
    show ?thesis
    proof (cases "cu_id ?cu")
      case None
      then have u: "plain c" "unopened ev c" using Suc.prems(1) open1 by (auto simp: good_def reading_def Let_def)
      show ?thesis
      proof (cases "ev_aggregate ev (csc_no c) (csc_pipeline c) (csc_options c)")
        case (Inl e)
        let ?cu2 = "(ensure_session ?env ?cu)\<lparr>cu_initialized := True\<rparr>"
        have out: "out = finish ?env (Some e) ?cu2" using Suc.prems(2) open1 None Inl by simp
        have l: "later ?cu ?cu2" by (simp add: later_def)
        have ab: "absorb ev c ?cu2 = c\<lparr>csc_cursor := ?cu2\<rparr>" by (simp add: absorb_def process_initial_def Inl)
        have "good ev lg pos q (c\<lparr>csc_cursor := ?cu2\<rparr>)" using u Inl by (auto simp: good_def plain_def unopened_def)
        then have "fetched ev lg pos q (absorb ev c ?cu2) out" unfolding ab out
          using finish_fetched [of ev lg pos q "c\<lparr>csc_cursor := ?cu2\<rparr>" "Some e" ?env] open1 by simp
        then show ?thesis using fetched_later [OF l, of lg pos ev q out] by (simp add: ab)
      next
        case (Inr sr)
        obtain s r where a: "ev_aggregate ev (csc_no c) (csc_pipeline c) (csc_options c) = Inr (s, r)" using Inr by (cases sr) simp
        have f: "cu_isFind ?cu = False" using u by (simp add: plain_def)
        note i = initial_fetch_good [OF h u a]
        have d: "cu_documents (initial_fetch ev c s r) = rp_batch r" by (simp add: initial_fetch_def)
        have "cursor_next (Suc fuel) ?env True ?cu
          = (if cursorIsDead (initial_fetch ev c s r) then Some (finish ?env None (initial_fetch ev c s r)) else cursor_next fuel ?env True (initial_fetch ev c s r))"
          using open1 None a initial_state_plain [of "ensure_session ?env ?cu" s "rp_id r" "rp_batch r" JUndef] f
          by (simp add: initial_fetch_def)
        then show ?thesis using Suc.prems(2) open1 by (intro go [OF i(1-3)]) (simp_all add: d i(4), simp add: initial_fetch_def)
      qed
    next
      case (Some i)
      then have u: "plain c" "reading lg pos q [] c" using Suc.prems(1) open1 by (auto simp: good_def unopened_def)
      let ?size = "case cuo_batchSize (cu_options ?cu) of Some n \<Rightarrow> (if n = 0 then 1000 else n) | None \<Rightarrow> 1000"
      show ?thesis
      proof (cases "isZero i")
        case True
        then show ?thesis using Suc.prems open1 Some cleanup_fetched [of ev lg pos q c None ?env None None] by simp
      next
        case nz: False
        have n: "cu_numReturned ?cu = None" "\<not> cu_isFind ?cu" using u by (simp_all add: plain_def)
        have size: "limited_size ?cu ?size = ?size" by (simp add: limited_size_def n)
        show ?thesis
        proof (cases "cu_server ?cu")
          case None
          then have "out = finish ?env (Some (mk_error MongoRuntimeError ''Unable to iterate cursor without selected server'')) ?cu"
            using Suc.prems(2) open1 Some nz n by (simp add: getMore_def truthy_num_def Let_def)
          then show ?thesis using finish_fetched [OF Suc.prems(1) open1(1)] open1(2) by simp
        next
          case (Some s)
          show ?thesis
          proof (cases "ev_getMore ev (csc_no c) (cu_gets ?cu)")
            case (Inl e)
            then have "out = finish ?env (Some e) (emit (GetMoreSent i ?size) (?cu\<lparr>cu_gets := Suc (cu_gets ?cu)\<rparr>))"
              using Suc.prems(2) open1 Some nz n \<open>cu_id ?cu = Some i\<close> size by (simp add: getMore_def truthy_num_def)
            then show ?thesis using failed_more [OF h u open1(1,2) Inl refl] by simp
          next
            case (Inr r)
            note i = more_fetch_good [OF h u Inr, of ?size]
            have d: "cu_documents (more_fetch c ?size r) = rp_batch r" by (simp add: more_fetch_def)
            have "cursor_next (Suc fuel) ?env True ?cu
              = (if cursorIsDead (more_fetch c ?size r) then Some (finish ?env None (more_fetch c ?size r)) else cursor_next fuel ?env True (more_fetch c ?size r))"
              using open1 Inr Some nz n \<open>cu_id ?cu = Some i\<close> size by (simp add: getMore_def truthy_num_def more_fetch_def Let_def)
            then show ?thesis using Suc.prems(2) open1 by (intro go [OF i(1-3)]) (simp_all add: d i(4), simp add: more_fetch_def)
          qed
        qed
      qed
    qed
  qed
qed simp

section \<open>What is delivered\<close>

lemma with_next:
  assumes h: "honest ev lg pos q" "good ev lg pos q c" and w: "with_cursor ev next_doc c = Some ((err, d), c1)"
  shows "passed lg pos c c1" "csc_no c1 = csc_no c"
    "case d of None \<Rightarrow> good ev lg pos q c1
     | Some x \<Rightarrow> err = None \<and> plain c1 \<and> reading lg pos q (x # cu_documents (csc_cursor c1)) c1"
proof -
  obtain cu where n: "next_doc (ev_fuel ev) (cursor_env ev c) (csc_cursor c) = Some ((err, d), cu)" and c1: "c1 = absorb ev c cu"
    using w by (auto simp: with_cursor_def)
  have "fetched ev lg pos q c ((err, d), cu)"
  proof (cases "cu_id (csc_cursor c) = Some LongZero")
    case True
    then have "((err, d), cu) = ((Some exhausted, None), csc_cursor c)" using n by (simp add: next_doc_def next_op_def)
    then show ?thesis using h(2) by (simp add: fetched_def later_def)
  next
    case False
    then show ?thesis using n fetch [OF h] by (simp add: next_doc_def next_op_def)
  qed
  then show "passed lg pos c c1" "csc_no c1 = csc_no c"
    "case d of None \<Rightarrow> good ev lg pos q c1
     | Some x \<Rightarrow> err = None \<and> plain c1 \<and> reading lg pos q (x # cu_documents (csc_cursor c1)) c1"
    by (auto simp: fetched_def c1 split: option.splits)
qed

lemma with_hasNext:
  assumes h: "honest ev lg pos q" "good ev lg pos q c" and w: "with_cursor ev hasNext c = Some (r, c1)"
  shows "passed lg pos c c1 \<and> csc_no c1 = csc_no c \<and> good ev lg pos q c1"
proof -
  obtain cu where n: "hasNext (ev_fuel ev) (cursor_env ev c) (csc_cursor c) = Some (r, cu)" and c1: "c1 = absorb ev c cu"
    using w by (auto simp: with_cursor_def)
  show ?thesis
  proof (cases "cu_id (csc_cursor c) = Some LongZero \<or> cu_documents (csc_cursor c) \<noteq> []")
    case True
    then have "cu = csc_cursor c" using n by (auto simp: hasNext_def split: if_splits)
    then show ?thesis using h(2) by (simp add: c1)
  next
    case False
    then obtain err d cu1 where f: "cursor_next (ev_fuel ev) (cursor_env ev c) True (csc_cursor c) = Some ((err, d), cu1)"
      and put: "cu = (case (err, d) of (None, Some x) \<Rightarrow> cu1\<lparr>cu_documents := x # cu_documents cu1\<rparr> | _ \<Rightarrow> cu1)"
      using n by (auto simp: hasNext_def split: option.splits)
    have g: "fetched ev lg pos q c ((err, d), cu1)" by (rule fetch [OF h f])
    show ?thesis
    proof (cases d)
      case None
      then have "cu = cu1" using put by (simp split: option.splits)
      then show ?thesis using g None by (simp add: fetched_def c1)
    next
      case (Some x)
      then have x: "err = None" "plain (absorb ev c cu1)" "reading lg pos q (x # cu_documents cu1) (absorb ev c cu1)" "passed lg pos c (absorb ev c cu1)"
        using g by (auto simp: fetched_def)
      have cu: "cu = cu1\<lparr>cu_documents := x # cu_documents cu1\<rparr>" using put Some x(1) by simp
      have "absorb ev c cu = (absorb ev c cu1)\<lparr>csc_cursor := cu\<rparr>" by (simp add: absorb_def cu Let_def)
      then show ?thesis using x by (auto simp: c1 good_def reading_def plain_def passed_def cu Let_def)
    qed
  qed
qed

lemma closed_calls:
  assumes "cu_closed (csc_cursor c)"
  shows "with_cursor ev next_doc c = Some ((err, d), c1) \<Longrightarrow> c1 = c \<and> d = None \<and> (err = None \<or> err = Some exhausted)"
    "with_cursor ev hasNext c = Some (r, c1) \<Longrightarrow> c1 = c"
  using assms by (cases "ev_fuel ev"; auto simp: with_cursor_def next_doc_def next_op_def hasNext_def split: if_splits)+

lemma cached:
  assumes h: "honest ev lg pos q" and c: "plain c" "reading lg pos q (x # cu_documents (csc_cursor c)) c"
  defines "c' \<equiv> cacheResumeToken (get_prop ''_id'' x) c"
  shows "truthy (get_prop ''_id'' x)" "good ev lg pos q c'" "pos (csc_resumeToken c) \<le> pos (csc_resumeToken c')"
    "changes lg (pos (csc_resumeToken c)) (pos (csc_resumeToken c')) = [x]" "csc_no c' = csc_no c" "csc_cursor c' = csc_cursor c"
proof -
  let ?b = "q (csc_no c) (cu_gets (csc_cursor c))"
  have b: "pos (csc_resumeToken c) \<le> ?b" "changes lg (pos (csc_resumeToken c)) ?b = x # cu_documents (csc_cursor c)"
    "truthy (csc_postBatchResumeToken c)" "pos (csc_postBatchResumeToken c) = ?b" using c(2) by (simp_all add: reading_def Let_def)
  obtain i where i: "pos (csc_resumeToken c) \<le> i" "i < ?b" "lg i = Some x" "changes lg (pos (csc_resumeToken c)) (Suc i) = [x]"
    "changes lg (Suc i) ?b = cu_documents (csc_cursor c)" by (rule first_change [OF b(2)])
  have t: "truthy (get_prop ''_id'' x)" "pos (get_prop ''_id'' x) = Suc i" using honest_change [OF h i(3)] by simp_all
  show "truthy (get_prop ''_id'' x)" by (rule t)
  have tok: "csc_resumeToken c' = (if cu_documents (csc_cursor c) = [] then csc_postBatchResumeToken c else get_prop ''_id'' x)"
    using b(3) by (simp add: c'_def cacheResumeToken_def set_resumeToken_def)
  show same: "csc_no c' = csc_no c" "csc_cursor c' = csc_cursor c"
    by (simp_all add: c'_def cacheResumeToken_def set_resumeToken_def)
  have pb: "csc_postBatchResumeToken c' = csc_postBatchResumeToken c"
    by (simp add: c'_def cacheResumeToken_def set_resumeToken_def)
  show "pos (csc_resumeToken c) \<le> pos (csc_resumeToken c')" "changes lg (pos (csc_resumeToken c)) (pos (csc_resumeToken c')) = [x]"
    using b i t by (auto simp: tok)
  have "reading lg pos q (cu_documents (csc_cursor c)) c'"
    using b i t c(2) by (auto simp: reading_def same tok pb Let_def)
  moreover have "plain c'" using c(1) b t by (simp add: plain_def same tok)
  ultimately show "good ev lg pos q c'" by (simp add: good_def same)
qed

definition delivered :: "changeStream \<Rightarrow> jsval list" where
  "delivered cs = concat (map (\<lambda>(i, a). case a of GotDoc (Some d) \<Rightarrow> [d] | _ \<Rightarrow> []) (cs_answers cs))"

definition no_try :: "changeStream \<Rightarrow> bool" where
  "no_try cs = ((\<forall>x \<in> set (cs_calls cs). \<forall>i. fst x \<noteq> CallTryNext i) \<and> (\<forall>i. ReqTryNext i \<notin> set (cs_resumeQueue cs)))"

text \<open>Nothing was delivered on the way from one state to another.\<close>

definition silent :: "changeStream \<Rightarrow> changeStream \<Rightarrow> bool" where
  "silent cs cs' = (delivered cs' = delivered cs \<and> (no_try cs \<longrightarrow> no_try cs') \<and> (cs_closed cs \<longrightarrow> cs_closed cs'))"

lemma silent_trans: "silent a b \<Longrightarrow> silent b c \<Longrightarrow> silent a c" by (simp add: silent_def)

lemma silent_refl [simp]: "silent a a" by (simp add: silent_def)

lemma answer_silent: "(\<forall>d. a \<noteq> GotDoc (Some d)) \<Longrightarrow> silent cs (answer i a cs)"
  by (auto simp: silent_def answer_def delivered_def no_try_def split: csAnswer.split option.split)

lemma close_silent: "silent cs (cs_close ev cs)" "cs_closed (cs_close ev cs)"
  by (simp_all add: silent_def cs_close_def delivered_def no_try_def update_cursor_def endStream_def Let_def split: option.split)

lemma emit_silent: "silent cs (cs_emit e cs)"
  by (simp add: silent_def cs_emit_def delivered_def no_try_def)

lemma closeWithError_silent: "silent cs (closeWithError ev e cb cs)" "cs_closed (closeWithError ev e cb cs)"
  by (auto simp: closeWithError_def close_silent intro: silent_trans [OF close_silent(1) answer_silent] silent_trans [OF emit_silent close_silent(1)] split: option.split)
     (simp add: answer_def close_silent(2))

lemma with_got_silent: "(\<forall>i. r \<noteq> ReqTryNext i) \<Longrightarrow> silent cs (with_got r err cur cs)"
  by (cases r) (auto simp: with_got_def cursor_call_def answer_silent split: option.split; simp add: silent_def delivered_def no_try_def)+

lemma getCursor_silent: "(\<forall>i. r \<noteq> ReqTryNext i) \<Longrightarrow> silent cs (getCursor r cs)"
proof -
  assume r: "\<forall>i. r \<noteq> ReqTryNext i"
  then have "\<forall>i. ReqTryNext i \<noteq> r" by metis
  then have "silent cs (cs\<lparr>cs_resumeQueue := cs_resumeQueue cs @ [r]\<rparr>)" by (simp add: silent_def delivered_def no_try_def)
  then show ?thesis using with_got_silent [OF r] by (simp add: getCursor_def split: option.split)
qed

lemma ask_silent: "(\<forall>i. r \<noteq> ReqTryNext i) \<Longrightarrow> silent cs (or_same cs (cs_ask r cs))"
proof -
  assume r: "\<forall>i. r \<noteq> ReqTryNext i"
  have "silent cs (cs\<lparr>cs_mode := Iterator\<rparr>)" by (simp add: silent_def delivered_def no_try_def)
  from silent_trans [OF this getCursor_silent [OF r]] show ?thesis
    by (simp add: or_same_def cs_ask_def setIsIterator_def)
qed

lemma run_request_silent: "(\<forall>i. r \<noteq> ReqTryNext i) \<Longrightarrow> silent cs (run_request err r cs)"
  using ask_silent [of "ReqNext i" cs for i] by (cases r) (simp_all add: run_request_def with_got_silent or_same_def)

lemma drain_silent: "no_try cs \<Longrightarrow> silent cs (drain n err cs)"
proof (induction n arbitrary: cs)
  case (Suc n)
  show ?case
  proof (cases "cs_resumeQueue cs = []")
    case False
    let ?cs = "cs\<lparr>cs_resumeQueue := butlast (cs_resumeQueue cs)\<rparr>" and ?r = "last (cs_resumeQueue cs)"
    have s: "silent cs ?cs" by (auto simp: silent_def delivered_def no_try_def dest: in_set_butlastD)
    have r: "\<forall>i. ?r \<noteq> ReqTryNext i" using Suc.prems False by (metis last_in_set no_try_def)
    have t: "silent cs (run_request e ?r ?cs)" for e by (rule silent_trans [OF s run_request_silent [OF r]])
    then have "no_try (run_request err ?r ?cs)" using Suc.prems by (simp add: silent_def)
    then show ?thesis using t silent_trans [OF t Suc.IH] by (simp add: Let_def)
  qed simp
qed simp

lemma queue_silent: "no_try cs \<Longrightarrow> silent cs (processResumeQueue err cs)"
  by (simp add: processResumeQueue_def drain_silent)

lemma unresumable_silent:
  assumes "no_try cs"
  shows "silent cs (unresumableError ev e cb cs)" "cs_closed (unresumableError ev e cb cs)"
proof -
  have e: "silent cs (if cb = None then cs_emit (ErrorEvent e) cs else cs)" by (simp add: emit_silent)
  then have c: "silent cs (cs_close ev (if cb = None then cs_emit (ErrorEvent e) cs else cs))"
    by (rule silent_trans [OF _ close_silent(1)])
  then have "no_try (cs_close ev (if cb = None then cs_emit (ErrorEvent e) cs else cs))" using assms by (simp add: silent_def)
  from queue_silent [OF this] c show "silent cs (unresumableError ev e cb cs)" "cs_closed (unresumableError ev e cb cs)"
    using close_silent(2) by (auto simp: unresumableError_def silent_def)
qed

section \<open>A stream at work\<close>

definition resumes :: "changeStream \<Rightarrow> nat list" where
  "resumes cs = map snd (filter (\<lambda>x. fst x = CallResume) (cs_calls cs))"

text \<open>
  The stream reads by cursor \<open>k\<close>, waits for the topology after an error on it, or tries it out; every
  other cursor is closed.
\<close>

definition phase :: "nat \<Rightarrow> changeStream \<Rightarrow> bool" where
  "phase k cs =
     (cs_cursor cs = Some k \<and> cs_waits cs = [] \<and> resumes cs = []
      \<or> cs_cursor cs = None \<and> cu_closed (csc_cursor (cs_store cs ! k)) \<and> (\<exists>i. cs_waits cs = [(k, Some i)]) \<and> resumes cs = []
      \<or> cs_cursor cs = None \<and> cs_waits cs = [] \<and> resumes cs = [k] \<and> (\<forall>x \<in> set (cs_calls cs). snd x = k \<longrightarrow> fst x = CallResume))"

definition store_good :: "csEnv \<Rightarrow> (nat \<Rightarrow> jsval option) \<Rightarrow> (jsval \<Rightarrow> nat) \<Rightarrow> (nat \<Rightarrow> nat \<Rightarrow> nat) \<Rightarrow> nat \<Rightarrow> csCursor list \<Rightarrow> bool" where
  "store_good ev lg pos q k cs =
     (k < length cs \<and> (\<forall>j < length cs. csc_no (cs ! j) = j \<and> good ev lg pos q (cs ! j) \<and> (j \<noteq> k \<longrightarrow> cu_closed (csc_cursor (cs ! j)))))"

definition at_work :: "csEnv \<Rightarrow> (nat \<Rightarrow> jsval option) \<Rightarrow> (jsval \<Rightarrow> nat) \<Rightarrow> (nat \<Rightarrow> nat \<Rightarrow> nat) \<Rightarrow> nat \<Rightarrow> nat \<Rightarrow> changeStream \<Rightarrow> bool" where
  "at_work ev lg pos q a k cs =
     (cs_listeners cs = 0 \<and> no_try cs \<and> store_good ev lg pos q k (cs_store cs) \<and> phase k cs
      \<and> (\<forall>x \<in> set (cs_calls cs). snd x < length (cs_store cs))
      \<and> a \<le> pos (csc_resumeToken (cs_store cs ! k)) \<and> delivered cs = changes lg a (pos (csc_resumeToken (cs_store cs ! k))))"

definition in_order :: "csEnv \<Rightarrow> (nat \<Rightarrow> jsval option) \<Rightarrow> (jsval \<Rightarrow> nat) \<Rightarrow> (nat \<Rightarrow> nat \<Rightarrow> nat) \<Rightarrow> nat \<Rightarrow> changeStream \<Rightarrow> bool" where
  "in_order ev lg pos q a cs =
     (no_try cs \<and> (\<exists>b. delivered cs = changes lg a b) \<and> (cs_closed cs \<or> (\<exists>k. at_work ev lg pos q a k cs)))"

lemma at_work_in_order: "at_work ev lg pos q a k cs \<Longrightarrow> in_order ev lg pos q a cs"
  by (auto simp: in_order_def at_work_def)

lemma closing_in_order: "in_order ev lg pos q a cs \<Longrightarrow> silent cs cs' \<Longrightarrow> cs_closed cs' \<Longrightarrow> in_order ev lg pos q a cs'"
  by (auto simp: in_order_def silent_def)

text \<open>Steps that only take calls and requests in.\<close>

definition takes_in :: "nat \<Rightarrow> changeStream \<Rightarrow> changeStream \<Rightarrow> bool" where
  "takes_in k cs cs' =
     (silent cs cs' \<and> cs_listeners cs' = cs_listeners cs \<and> cs_store cs' = cs_store cs \<and> cs_cursor cs' = cs_cursor cs
      \<and> cs_waits cs' = cs_waits cs \<and> cs_closed cs' = cs_closed cs
      \<and> (\<exists>new. cs_calls cs' = cs_calls cs @ new \<and> (\<forall>x \<in> set new. snd x = k \<and> fst x \<noteq> CallResume \<and> cs_cursor cs = Some k)))"

lemma takes_in_trans: "takes_in k a b \<Longrightarrow> takes_in k b c \<Longrightarrow> takes_in k a c"
  unfolding takes_in_def by (auto intro: silent_trans)

lemma takes_in_refl: "takes_in k cs cs" by (simp add: takes_in_def)

lemma takes_in_work:
  assumes "at_work ev lg pos q a k cs" "takes_in k cs cs'"
  shows "at_work ev lg pos q a k cs'"
proof -
  obtain new where new: "cs_calls cs' = cs_calls cs @ new" "\<forall>x \<in> set new. snd x = k \<and> fst x \<noteq> CallResume \<and> cs_cursor cs = Some k"
    using assms(2) by (auto simp: takes_in_def)
  have r: "resumes cs' = resumes cs" using new by (auto simp: resumes_def filter_empty_conv)
  have "phase k cs'" using assms new r unfolding at_work_def takes_in_def phase_def by auto
  moreover have "\<forall>x \<in> set (cs_calls cs'). snd x < length (cs_store cs')"
    using assms new unfolding at_work_def takes_in_def store_good_def by auto
  ultimately show ?thesis using assms unfolding at_work_def takes_in_def silent_def by simp
qed

lemma call_of_not_resume [simp]: "call_of r \<noteq> CallResume" by (cases r) simp_all

lemma with_got_takes_in:
  assumes "\<forall>i. r \<noteq> ReqTryNext i" "cs_cursor cs = Some k"
  shows "takes_in k cs (with_got r err (Some k) cs)"
  using with_got_silent [OF assms(1), of cs err "Some k"] assms(2)
  by (auto simp: takes_in_def with_got_def cursor_call_def answer_def split: option.split)

lemma getCursor_takes_in:
  assumes "\<forall>i. r \<noteq> ReqTryNext i" "\<not> cs_closed cs" "cs_cursor cs = None \<or> cs_cursor cs = Some k"
  shows "takes_in k cs (getCursor r cs)"
proof (cases "cs_cursor cs")
  case None
  then show ?thesis using getCursor_silent [OF assms(1), of cs] assms(2) by (simp add: takes_in_def getCursor_def)
next
  case (Some j)
  then show ?thesis using with_got_takes_in [OF assms(1)] assms(2,3) by (simp add: getCursor_def)
qed

lemma ask_takes_in:
  assumes "\<forall>i. r \<noteq> ReqTryNext i" "\<not> cs_closed cs" "cs_cursor cs = None \<or> cs_cursor cs = Some k"
  shows "takes_in k cs (or_same cs (cs_ask r cs))"
proof -
  have "takes_in k cs (cs\<lparr>cs_mode := Iterator\<rparr>)" by (simp add: takes_in_def silent_def delivered_def no_try_def)
  from takes_in_trans [OF this getCursor_takes_in [OF assms(1)]] assms(2,3) show ?thesis
    by (simp add: or_same_def cs_ask_def setIsIterator_def takes_in_refl)
qed

lemma run_request_takes_in:
  assumes "\<forall>i. r \<noteq> ReqTryNext i" "\<not> cs_closed cs" "cs_cursor cs = Some k"
  shows "takes_in k cs (run_request err r cs)"
  using ask_takes_in [of "ReqNext i" cs k for i] assms with_got_takes_in [OF assms(1,3)]
  by (cases r) (simp_all add: run_request_def or_same_def)

lemma drain_takes_in:
  "no_try cs \<Longrightarrow> \<not> cs_closed cs \<Longrightarrow> cs_cursor cs = Some k \<Longrightarrow> takes_in k cs (drain n None cs)"
proof (induction n arbitrary: cs)
  case (Suc n)
  show ?case
  proof (cases "cs_resumeQueue cs = []")
    case False
    let ?cs = "cs\<lparr>cs_resumeQueue := butlast (cs_resumeQueue cs)\<rparr>" and ?r = "last (cs_resumeQueue cs)"
    have s: "takes_in k cs ?cs" by (auto simp: takes_in_def silent_def delivered_def no_try_def dest: in_set_butlastD)
    have r: "\<forall>i. ?r \<noteq> ReqTryNext i" using Suc.prems False by (metis last_in_set no_try_def)
    have t: "takes_in k cs (run_request None ?r ?cs)" using Suc.prems by (intro takes_in_trans [OF s] run_request_takes_in [OF r]) simp_all
    then have "takes_in k (run_request None ?r ?cs) (drain n None (run_request None ?r ?cs))"
      using Suc.prems by (intro Suc.IH) (simp_all add: takes_in_def silent_def)
    then show ?thesis using takes_in_trans [OF t] False Suc.prems by (simp add: Let_def)
  qed (simp add: takes_in_refl)
qed (simp add: takes_in_refl)

section \<open>The steps keep the order\<close>

text \<open>The cursor \<open>k\<close> is replaced by one that stands no further than a place before the next change.\<close>

lemma replace_cursor:
  assumes "store_good ev lg pos q k st" "csc_no c = k" "good ev lg pos q c"
  shows "store_good ev lg pos q k (st[k := c])"
  using assms by (auto simp: store_good_def nth_list_update)

lemma moved_on:
  assumes "passed lg pos c c'" "a \<le> pos (csc_resumeToken c)"
  shows "a \<le> pos (csc_resumeToken c')" "changes lg a (pos (csc_resumeToken c')) = changes lg a (pos (csc_resumeToken c))"
  using assms changes_split [of a "pos (csc_resumeToken c)" "pos (csc_resumeToken c')" lg] by (auto simp: passed_def)

lemma update_work:
  assumes w: "at_work ev lg pos q a k cs" and c: "passed lg pos (cs_store cs ! k) c" "csc_no c = k" "good ev lg pos q c"
    and p: "cs_cursor cs \<noteq> None \<or> cs_waits cs = [] \<or> c = cs_store cs ! k"
  shows "at_work ev lg pos q a k (update_cursor k (\<lambda>_. c) cs)"
proof -
  have k: "k < length (cs_store cs)" using w by (simp add: at_work_def store_good_def)
  have sg: "store_good ev lg pos q k ((cs_store cs)[k := c])" using w c by (intro replace_cursor) (simp_all add: at_work_def)
  have ph: "phase k (update_cursor k (\<lambda>_. c) cs)" using w p k by (auto simp: at_work_def phase_def update_cursor_def resumes_def)
  show ?thesis using w sg ph moved_on [OF c(1), of a] k
    by (auto simp: at_work_def update_cursor_def delivered_def no_try_def)
qed

text \<open>A call is taken off the list before its callback runs.\<close>

lemma set_remove_nth: "set (remove_nth n xs) \<subseteq> set xs"
  by (auto simp: remove_nth_def dest: in_set_takeD in_set_dropD)

lemma filter_remove_nth:
  assumes "n < length xs"
  shows "\<not> P (xs ! n) \<Longrightarrow> filter P (remove_nth n xs) = filter P xs"
    "P (xs ! n) \<Longrightarrow> filter P xs = [y] \<Longrightarrow> xs ! n = y \<and> filter P (remove_nth n xs) = []"
proof -
  have "filter P xs = filter P (take n xs) @ filter P [xs ! n] @ filter P (drop (Suc n) xs)"
    by (subst id_take_nth_drop [OF assms]) (simp only: filter_append [symmetric] append_Cons append_Nil)
  then show "\<not> P (xs ! n) \<Longrightarrow> filter P (remove_nth n xs) = filter P xs"
    "P (xs ! n) \<Longrightarrow> filter P xs = [y] \<Longrightarrow> xs ! n = y \<and> filter P (remove_nth n xs) = []"
    by (auto simp: remove_nth_def append_eq_Cons_conv Cons_eq_append_conv)
qed

lemma take_off:
  assumes w: "at_work ev lg pos q a k cs" and n: "n < length (cs_calls cs)" "fst (cs_calls cs ! n) \<noteq> CallResume"
  shows "at_work ev lg pos q a k (cs\<lparr>cs_calls := remove_nth n (cs_calls cs)\<rparr>)"
proof -
  have r: "resumes (cs\<lparr>cs_calls := remove_nth n (cs_calls cs)\<rparr>) = resumes cs"
    using filter_remove_nth(1) [OF n(1), of "\<lambda>x. fst x = CallResume"] n(2) by (simp add: resumes_def)
  show ?thesis using w set_remove_nth [of n "cs_calls cs"] r
    by (auto simp: at_work_def phase_def delivered_def no_try_def; blast)
qed

lemma processError_closing:
  assumes "cs_closed cs \<or> cs_cursor cs = None \<or> (\<exists>k. cs_cursor cs = Some k \<and> \<not> isResumableError (Some e) (Some (wire_version ev (cs_store cs ! k))))"
  shows "silent cs (processError ev e cb cs)" "cs_closed (processError ev e cb cs)"
proof -
  have "processError ev e cb cs = (if cs_closed cs then (case cb of Some i \<Rightarrow> answer i (Failed (Some closed_error)) cs | None \<Rightarrow> cs) else closeWithError ev e cb cs)"
    using assms by (auto simp: processError_def split: option.splits)
  then show "silent cs (processError ev e cb cs)" "cs_closed (processError ev e cb cs)"
    by (auto simp: closeWithError_silent answer_silent split: option.split) (simp_all add: answer_def)
qed

lemma processNewChange_closing:
  assumes "cs_closed cs \<or> d = None"
  shows "silent cs (processNewChange ev d cb cs)" "cs_closed (processNewChange ev d cb cs)"
proof -
  have "processNewChange ev d cb cs = (if cs_closed cs then (case cb of Some i \<Rightarrow> answer i (Failed (Some closed_error)) cs | None \<Rightarrow> cs)
     else closeWithError ev (mk_error MongoRuntimeError ''ChangeStream is closed'') cb cs)"
    using assms by (auto simp: processNewChange_def split: option.splits)
  then show "silent cs (processNewChange ev d cb cs)" "cs_closed (processNewChange ev d cb cs)"
    by (auto simp: closeWithError_silent answer_silent split: option.split) (simp_all add: answer_def)
qed

lemma queued_silent: "silent cs (cs\<lparr>cs_resumeQueue := cs_resumeQueue cs @ [Again i]\<rparr>)"
  by (simp add: silent_def delivered_def no_try_def)

lemma update_cursor_silent: "silent cs (update_cursor k f cs)"
  by (simp add: silent_def delivered_def no_try_def update_cursor_def)

lemma exhausted_not_resumable: "\<not> isResumableError (Some exhausted) w"
  proof -
  have "\<not> instanceof exhausted MongoNetworkError" "e_code exhausted = None" "\<not> hasErrorLabel exhausted ''ResumableChangeStreamError''" by code_simp+
  then show ?thesis by (simp add: isResumableError_def)
qed

text \<open>After the stream was closed nothing more is delivered.\<close>

lemma reply_after_close:
  assumes "cs_closed cs" "no_try cs" "\<forall>i. p \<noteq> CallTryNext i" "cursor_reply ev p k cs = Some cs'"
  shows "silent cs cs' \<and> cs_closed cs'"
proof -
  have u: "silent cs (update_cursor k f cs)" "cs_closed (update_cursor k f cs)" "no_try (update_cursor k f cs)" for f
    using update_cursor_silent [of cs k f] assms by (simp_all add: silent_def)
  show ?thesis
  proof (cases p)
    case (CallHasNext i)
    then obtain r c1 where "cs' = answer i (case r of Inl e \<Rightarrow> Failed (Some e) | Inr b \<Rightarrow> GotBool b) (update_cursor k (\<lambda>_. c1) cs)"
      using assms(4) by (auto simp: cursor_reply_def)
    moreover have "\<forall>d. (case r of Inl e \<Rightarrow> Failed (Some e) | Inr b \<Rightarrow> GotBool b) \<noteq> GotDoc (Some d)" by (simp split: sum.split)
    ultimately obtain a f where "cs' = answer i a (update_cursor k f cs)" "\<forall>d. a \<noteq> GotDoc (Some d)" by blast
    then show ?thesis using silent_trans [OF u(1) answer_silent] assms(1) by (auto simp: silent_def)
  next
    case (CallNext i)
    then obtain err d c1 where c: "cs' = (let cs1 = update_cursor k (\<lambda>_. c1) cs in case err of
        Some e \<Rightarrow> processError ev e (Some i) (cs1\<lparr>cs_resumeQueue := cs_resumeQueue cs1 @ [Again i]\<rparr>)
      | None \<Rightarrow> processNewChange ev d (Some i) cs1)" using assms(4) by (auto simp: cursor_reply_def)
    have "silent (update_cursor k (\<lambda>_. c1) cs) cs'"
      using c u(2) processNewChange_closing [of "update_cursor k (\<lambda>_. c1) cs" d ev "Some i"]
        silent_trans [OF queued_silent processError_closing(1)] by (cases err) (auto simp: Let_def)
    from silent_trans [OF u(1) this] show ?thesis using assms(1) by (simp add: silent_def)
  next
    case CallResume
    then obtain r c1 where "with_cursor ev hasNext (cs_store cs ! k) = Some (r, c1)" and c: "cs' = (let cs1 = update_cursor k (\<lambda>_. c1) cs in case r of
        Inl e \<Rightarrow> unresumableError ev e (Some 0) cs1 | Inr _ \<Rightarrow> resumeWithCursor k cs1)"
      using assms(4) by (auto simp: cursor_reply_def)
    have m: "silent x (x\<lparr>cs_cursor := Some k\<rparr>)" for x by (simp add: silent_def delivered_def no_try_def)
    have "silent x (resumeWithCursor k x)" if "no_try x" for x
      unfolding resumeWithCursor_def by (rule silent_trans [OF m queue_silent]) (use that m in \<open>simp add: silent_def\<close>)
    then have "silent (update_cursor k (\<lambda>_. c1) cs) cs'"
      using c u(3) unresumable_silent(1) [OF u(3)] by (cases r) (auto simp: Let_def)
    from silent_trans [OF u(1) this] show ?thesis using assms(1) by (simp add: silent_def)
  qed (use assms(3) in simp)
qed

text \<open>The callbacks of a stream at work.\<close>

lemma phase_cursor: "phase k cs \<Longrightarrow> cs_cursor cs = None \<or> cs_cursor cs = Some k" by (auto simp: phase_def)

lemma waiting_closed: "phase k cs \<Longrightarrow> cs_cursor cs \<noteq> None \<or> cs_waits cs = [] \<or> cu_closed (csc_cursor (cs_store cs ! k))"
  by (auto simp: phase_def)

lemma hasNext_reply:
  assumes h: "honest ev lg pos q" and w: "at_work ev lg pos q a k cs" "j < length (cs_store cs)"
    and r: "with_cursor ev hasNext (cs_store cs ! j) = Some (r, c1)"
  shows "at_work ev lg pos q a k (update_cursor j (\<lambda>_. c1) cs)"
proof (cases "j = k")
  case True
  have g: "good ev lg pos q (cs_store cs ! k)" "csc_no (cs_store cs ! k) = k" using w by (auto simp: at_work_def store_good_def)
  have p: "cs_cursor cs \<noteq> None \<or> cs_waits cs = [] \<or> c1 = cs_store cs ! k"
    using waiting_closed [of k cs] w(1) closed_calls(2) [of "cs_store cs ! k" ev r c1] r True by (auto simp: at_work_def)
  show ?thesis using update_work [OF w(1) _ _ _ p] with_hasNext [OF h g(1)] r g True by auto
next
  case False
  then have "c1 = cs_store cs ! j" using w r closed_calls(2) by (auto simp: at_work_def store_good_def)
  then have "update_cursor j (\<lambda>_. c1) cs = cs" by (simp add: update_cursor_def)
  then show ?thesis using w(1) by simp
qed

lemma close_cursor_same [simp]:
  "csc_no (close_cursor ev c) = csc_no c" "csc_resumeToken (close_cursor ev c) = csc_resumeToken c" "cu_closed (csc_cursor (close_cursor ev c))"
  by (auto simp: close_cursor_def cursor_close_def cleanupCursor_def completeCleanup_def Let_def)

lemma close_good: "plain c \<Longrightarrow> good ev lg pos q (close_cursor ev c)"
  using close_cursor_same(3) [of ev c] by (simp add: good_def) (simp add: plain_def close_cursor_def cursor_close_def)

lemma next_reply:
  assumes h: "honest ev lg pos q" and w: "at_work ev lg pos q a k cs" "\<not> cs_closed cs" "j < length (cs_store cs)"
    and ph: "cs_cursor cs = Some k \<or> cu_closed (csc_cursor (cs_store cs ! j))"
    and r: "cursor_reply ev (CallNext i) j cs = Some cs'"
  shows "in_order ev lg pos q a cs'"
proof -
  obtain err d c1 where n: "with_cursor ev next_doc (cs_store cs ! j) = Some ((err, d), c1)"
    and cs': "cs' = (let cs1 = update_cursor j (\<lambda>_. c1) cs in case err of
        Some e \<Rightarrow> processError ev e (Some i) (cs1\<lparr>cs_resumeQueue := cs_resumeQueue cs1 @ [Again i]\<rparr>)
      | None \<Rightarrow> processNewChange ev d (Some i) cs1)" using r by (auto simp: cursor_reply_def)
  have io: "in_order ev lg pos q a cs" by (rule at_work_in_order [OF w(1)])
  show ?thesis
  proof (cases "cu_closed (csc_cursor (cs_store cs ! j))")
    case True
    note c = closed_calls(1) [OF True n]
    then have same: "update_cursor j (\<lambda>_. c1) cs = cs" by (simp add: update_cursor_def)
    have "silent cs cs'" "cs_closed cs'"
    proof -
      show "silent cs cs'" using cs' c same processNewChange_closing(1) [of cs d ev "Some i"]
          silent_trans [OF queued_silent processError_closing(1)] exhausted_not_resumable by (cases "cs_cursor cs") (auto simp: Let_def)
      show "cs_closed cs'" using cs' c same processNewChange_closing(2) [of cs d ev "Some i"]
          processError_closing(2) exhausted_not_resumable by (cases "cs_cursor cs") (auto simp: Let_def)
    qed
    then show ?thesis by (rule closing_in_order [OF io])
  next
    case False
    then have jk: "j = k" "cs_cursor cs = Some k" using w ph by (auto simp: at_work_def store_good_def)
    have g: "good ev lg pos q (cs_store cs ! k)" "csc_no (cs_store cs ! k) = k" "k < length (cs_store cs)"
      using w by (auto simp: at_work_def store_good_def)
    note f = with_next [OF h g(1) n [unfolded jk]]
    let ?cs = "update_cursor k (\<lambda>_. c1) cs"
    have up: "at_work ev lg pos q a k ?cs" if "good ev lg pos q c1"
      using update_work [OF w(1) f(1) _ that] f(2) g(2) jk by simp
    show ?thesis
    proof (cases err)
      case (Some e)
      then have d: "d = None" "good ev lg pos q c1" using f(3) by (auto split: option.splits)
      let ?q = "?cs\<lparr>cs_resumeQueue := cs_resumeQueue ?cs @ [Again i]\<rparr>"
      have cs'q: "cs' = processError ev e (Some i) ?q" using cs' Some jk by (simp add: Let_def)
      have qw: "at_work ev lg pos q a k ?q" using up [OF d(2)] by (auto simp: at_work_def phase_def resumes_def delivered_def no_try_def)
      show ?thesis
      proof (cases "isResumableError (Some e) (Some (wire_version ev (cs_store ?q ! k)))")
        case True
        have cs'': "cs' = (update_cursor k (close_cursor ev) (endStream (?q\<lparr>cs_cursor := None\<rparr>)))\<lparr>cs_waits := cs_waits ?q @ [(k, Some i)]\<rparr>"
          using True w(2) jk cs'q by (simp add: processError_def update_cursor_def)
        have st: "store_good ev lg pos q k ((cs_store ?q)[k := close_cursor ev (cs_store ?q ! k)])"
          using qw by (intro replace_cursor close_good) (auto simp: at_work_def store_good_def good_def)
        have kl: "k < length (cs_store ?q)" using g(3) by (simp add: update_cursor_def)
        have "at_work ev lg pos q a k cs'" using qw st kl jk unfolding cs''
          by (auto simp: at_work_def phase_def resumes_def delivered_def no_try_def update_cursor_def endStream_def)
        then show ?thesis by (rule at_work_in_order)
      next
        case False
        have c: "cs_cursor ?q = Some k" using jk by (simp add: update_cursor_def)
        have "silent ?q cs'" "cs_closed cs'" unfolding cs'q using processError_closing [of ?q e ev "Some i"] False c by blast+
        then show ?thesis by (rule closing_in_order [OF at_work_in_order [OF qw]])
      qed
    next
      case None
      then have cs'n: "cs' = processNewChange ev d (Some i) ?cs" using cs' jk by (simp add: Let_def)
      show ?thesis
      proof (cases d)
        case None
        then have "good ev lg pos q c1" using f(3) by simp
        from closing_in_order [OF at_work_in_order [OF up [OF this]]] show ?thesis
          unfolding cs'n None using processNewChange_closing [of ?cs None ev "Some i"] by simp
      next
        case (Some x)
        then have x: "plain c1" "reading lg pos q (x # cu_documents (csc_cursor c1)) c1" using f(3) by auto
        note cx = cached [OF h x]
        let ?c = "cacheResumeToken (get_prop ''_id'' x) c1"
        have cs'x: "cs' = answer i (GotDoc (Some x)) ((cs\<lparr>cs_store := (cs_store cs)[k := ?c]\<rparr>)\<lparr>cs_options := map_set ''startAtOperationTime'' JUndef (cs_options cs)\<rparr>)"
          using cs'n Some cx(1) w(2) jk g(3) by (simp add: processNewChange_def update_cursor_def deliver_def Let_def)
        have st: "store_good ev lg pos q k ((cs_store cs)[k := ?c])"
          using w cx f(2) g(2) by (intro replace_cursor) (simp_all add: at_work_def)
        have m: "a \<le> pos (csc_resumeToken c1)" "changes lg a (pos (csc_resumeToken c1)) = delivered cs"
          using moved_on [OF f(1), of a] w(1) by (simp_all add: at_work_def)
        then have dl: "a \<le> pos (csc_resumeToken ?c)" "changes lg a (pos (csc_resumeToken ?c)) = delivered cs @ [x]"
          using changes_split [of a "pos (csc_resumeToken c1)" "pos (csc_resumeToken ?c)" lg] cx(3,4) by simp_all
        have "at_work ev lg pos q a k cs'" using w(1) st dl g(3) jk unfolding cs'x
          by (auto simp: at_work_def phase_def resumes_def delivered_def no_try_def answer_def)
        then show ?thesis by (rule at_work_in_order)
      qed
    qed
  qed
qed

lemma new_cursor_token:
  assumes "truthy (csc_resumeToken c)"
  shows "\<exists>c'. createChangeStreamCursor (resumeOptions ev c) cs = (if cs_listeners cs > 0 then rbind (streamEvents (length (cs_store cs)) (cs\<lparr>cs_store := cs_store cs @ [c']\<rparr>)) (\<lambda>cs2. Inr (length (cs_store cs), cs2))
      else Inr (length (cs_store cs), cs\<lparr>cs_store := cs_store cs @ [c']\<rparr>))
     \<and> csc_resumeToken c' = csc_resumeToken c \<and> csc_no c' = length (cs_store cs) \<and> plain c' \<and> unopened ev c'"
proof -
  let ?o = "resumeOptions ev c"
  let ?pipe = "JDoc [(''$changeStream'', JDoc (change_stage (cs_type cs) ?o))] # cs_pipeline cs"
  let ?c = "ChangeStreamCursor_new (length (cs_store cs)) (cs_namespace cs) ?pipe (applyKnownOptions [] ?o CURSOR_OPTIONS)"
  obtain k where k: "k \<in> {''resumeAfter'', ''startAfter''}" "fld k ?o = csc_resumeToken c"
    "\<forall>j \<in> {''resumeAfter'', ''startAfter''}. j \<noteq> k \<longrightarrow> \<not> truthy (fld j ?o)"
    using resume_start [OF assms, of ev] by fastforce
  note s = start_token_stage [OF k(1,2) assms k(3)]
  have f: "csc_no ?c = length (cs_store cs)" "csc_pipeline ?c = ?pipe" "csc_cursor ?c = AbstractCursor_new (cs_namespace cs) (cursor_settings (applyKnownOptions [] ?o CURSOR_OPTIONS))"
    by (simp_all add: ChangeStreamCursor_new_def Let_def)
  have "plain ?c" "unopened ev ?c" using s assms by (simp_all add: plain_def unopened_def f AbstractCursor_new_def)
  then show ?thesis using s f(1) by (intro exI [of _ ?c]) (simp add: createChangeStreamCursor_def Let_def)
qed

lemma wait_keeps:
  assumes w: "at_work ev lg pos q a k cs" and n: "n < length (cs_waits cs)"
  defines "cs1 \<equiv> cs\<lparr>cs_waits := remove_nth n (cs_waits cs)\<rparr>"
  shows "in_order ev lg pos q a (or_same cs1 (wait_over ev err (fst (cs_waits cs ! n)) (snd (cs_waits cs ! n)) cs1))"
proof -
  obtain i where p: "cs_cursor cs = None" "cu_closed (csc_cursor (cs_store cs ! k))" "cs_waits cs = [(k, Some i)]" "resumes cs = []"
    using w n by (auto simp: at_work_def phase_def)
  then have n0: "n = 0" using n by simp
  have io: "silent cs cs1" "no_try cs1" using w by (auto simp: cs1_def silent_def delivered_def no_try_def at_work_def)
  show ?thesis
  proof (cases err)
    case (Some e)
    note u = unresumable_silent [OF io(2), of ev e "Some i"]
    have "in_order ev lg pos q a (unresumableError ev e (Some i) cs1)"
      using closing_in_order [OF at_work_in_order [OF w] silent_trans [OF io(1) u(1)] u(2)] .
    then show ?thesis using Some p n0 by (simp add: or_same_def wait_over_def)
  next
    case None
    let ?c = "cs_store cs1 ! k"
    have t: "truthy (csc_resumeToken ?c)" using w by (auto simp: cs1_def at_work_def store_good_def good_def plain_def)
    obtain c' where c': "createChangeStreamCursor (resumeOptions ev ?c) cs1 = Inr (length (cs_store cs1), cs1\<lparr>cs_store := cs_store cs1 @ [c']\<rparr>)"
      "csc_resumeToken c' = csc_resumeToken ?c" "csc_no c' = length (cs_store cs1)" "plain c'" "unopened ev c'"
      using new_cursor_token [OF t, of ev cs1] w by (auto simp: cs1_def at_work_def)
    let ?cs = "cursor_call CallResume (length (cs_store cs1)) (cs1\<lparr>cs_store := cs_store cs1 @ [c']\<rparr>)"
    have out: "or_same cs1 (wait_over ev err (fst (cs_waits cs ! n)) (snd (cs_waits cs ! n)) cs1) = ?cs"
      using None p n0 c'(1) by (simp add: or_same_def wait_over_def)
    have "good ev lg pos q c'" using c' by (simp add: good_def)
    then have st: "store_good ev lg pos q (length (cs_store cs)) (cs_store cs @ [c'])"
      using w p(2) c'(3) by (auto simp: cs1_def at_work_def store_good_def nth_append less_Suc_eq)
    have "at_work ev lg pos q a (length (cs_store cs)) ?cs" using w st p c'(2) n0
      by (auto simp: cs1_def at_work_def phase_def resumes_def delivered_def no_try_def cursor_call_def remove_nth_def less_Suc_eq filter_empty_conv)
    then show ?thesis unfolding out by (rule at_work_in_order)
  qed
qed

lemma resume_reply:
  assumes h: "honest ev lg pos q" and w: "at_work ev lg pos q a k cs" "\<not> cs_closed cs" "n < length (cs_calls cs)" "cs_calls cs ! n = (CallResume, j)"
    and r: "cursor_reply ev CallResume j (cs\<lparr>cs_calls := remove_nth n (cs_calls cs)\<rparr>) = Some cs'"
  shows "in_order ev lg pos q a cs'"
proof -
  let ?P = "\<lambda>x. fst x = CallResume" and ?old = "cs\<lparr>cs_calls := remove_nth n (cs_calls cs)\<rparr>"
  have "(CallResume, j) \<in> set (filter ?P (cs_calls cs))" using w(3,4) nth_mem [OF w(3)] by simp
  then have "j \<in> set (resumes cs)" by (force simp: resumes_def)
  then have p: "cs_cursor cs = None" "cs_waits cs = []" "resumes cs = [k]" "j = k" using w(1) by (auto simp: at_work_def phase_def)
  obtain y where y: "filter ?P (cs_calls cs) = [y]" using p(3) by (auto simp: resumes_def)
  have rs: "filter ?P (remove_nth n (cs_calls cs)) = []" using filter_remove_nth(2) [OF w(3) _ y] w(4) by simp
  obtain b c1 where c: "with_cursor ev hasNext (cs_store cs ! k) = Some (b, c1)"
    and cs': "cs' = (let cs1 = update_cursor k (\<lambda>_. c1) ?old in case b of Inl e \<Rightarrow> unresumableError ev e (Some 0) cs1 | Inr _ \<Rightarrow> resumeWithCursor k cs1)"
    using r p(4) by (auto simp: cursor_reply_def)
  have k: "k < length (cs_store cs)" using w(1) by (simp add: at_work_def store_good_def)
  have hw: "at_work ev lg pos q a k (update_cursor k (\<lambda>_. c1) cs)" by (rule hasNext_reply [OF h w(1) k c])
  let ?cs = "(update_cursor k (\<lambda>_. c1) ?old)\<lparr>cs_cursor := Some k\<rparr>"
  have nt: "no_try (update_cursor k (\<lambda>_. c1) ?old)" using w(1) set_remove_nth [of n "cs_calls cs"]
    by (auto simp: at_work_def no_try_def update_cursor_def)
  show ?thesis
  proof (cases b)
    case (Inl e)
    have "silent cs (update_cursor k (\<lambda>_. c1) ?old)" using nt by (simp add: silent_def delivered_def update_cursor_def)
    from closing_in_order [OF at_work_in_order [OF w(1)] silent_trans [OF this unresumable_silent(1) [OF nt]] unresumable_silent(2) [OF nt]]
    show ?thesis using cs' Inl by (simp add: Let_def)
  next
    case (Inr x)
    have aw: "at_work ev lg pos q a k ?cs" using hw p rs nt set_remove_nth [of n "cs_calls cs"]
      by (auto simp: at_work_def phase_def resumes_def delivered_def no_try_def update_cursor_def)
    have "takes_in k ?cs (drain m None ?cs)" for m using aw w(2)
      by (intro drain_takes_in) (simp_all add: at_work_def update_cursor_def)
    from at_work_in_order [OF takes_in_work [OF aw this]] show ?thesis
      using cs' Inr by (simp only: Let_def sum.case resumeWithCursor_def processResumeQueue_def)
  qed
qed

text \<open>What an iterating caller does, without \<open>tryNext\<close>, and what happens to it.\<close>

fun iterates :: "csStep \<Rightarrow> bool" where
  "iterates (Ask (ReqHasNext i)) = True"
| "iterates (Ask (ReqNext i)) = True"
| "iterates (Close i) = True"
| "iterates (CursorReplies n) = True"
| "iterates (WaitOver n err) = True"
| "iterates _ = False"

lemma closed_step:
  assumes "cs_closed cs" "no_try cs" "iterates x" "cs_step ev x cs = Some cs'"
  shows "silent cs cs' \<and> cs_closed cs'"
proof (cases x)
  case (Ask r)
  then have "\<forall>i. r \<noteq> ReqTryNext i" using assms(3) by auto
  then show ?thesis using ask_silent [of r cs] assms Ask by (auto simp: cs_step_def silent_def)
next
  case (Close i)
  have "silent cs (answer i GotNothing (cs_close ev cs))" by (rule silent_trans [OF close_silent(1) answer_silent]) simp
  then show ?thesis using assms Close by (auto simp: cs_step_def silent_def)
next
  case (CursorReplies n)
  let ?cs = "cs\<lparr>cs_calls := remove_nth n (cs_calls cs)\<rparr>"
  have s: "silent cs ?cs" "no_try ?cs" using assms(2) set_remove_nth [of n "cs_calls cs"] by (auto simp: silent_def delivered_def no_try_def)
  show ?thesis
  proof (cases "n < length (cs_calls cs)")
    case True
    then have "\<forall>i. fst (cs_calls cs ! n) \<noteq> CallTryNext i" using assms(2) by (simp add: no_try_def)
    from reply_after_close [OF _ s(2) this, of ev "snd (cs_calls cs ! n)" cs'] s(1) True assms CursorReplies show ?thesis
      by (auto simp: cs_step_def intro: silent_trans)
  qed (use assms CursorReplies in \<open>simp add: cs_step_def\<close>)
next
  case (WaitOver n err)
  show ?thesis
  proof (cases "n < length (cs_waits cs)")
    case True
    let ?cs = "cs\<lparr>cs_waits := remove_nth n (cs_waits cs)\<rparr>" and ?cb = "snd (cs_waits cs ! n)" and ?k = "fst (cs_waits cs ! n)"
    have s: "silent cs ?cs" "no_try ?cs" "cs_closed ?cs" using assms(1,2) by (auto simp: silent_def delivered_def no_try_def)
    have st: "silent y z" if "streamEvents j y = Inr z" for j y z
      using that by (auto simp: streamEvents_def setIsEmitter_def silent_def delivered_def no_try_def split: if_splits)
    have cr: "silent ?cs cs1" if "createChangeStreamCursor opts ?cs = Inr (j, cs1)" for opts j cs1
    proof -
      have m: "silent ?cs (?cs\<lparr>cs_store := y\<rparr>)" for y by (simp add: silent_def delivered_def no_try_def)
      from that show ?thesis
        by (auto simp: createChangeStreamCursor_def Let_def rbind_Inr_iff m split: if_splits intro: silent_trans [OF m st])
    qed
    have m: "silent y (y\<lparr>cs_cursor := Some j\<rparr>)" for y j by (simp add: silent_def delivered_def no_try_def)
    have rw: "silent y (resumeWithCursor j y)" if "no_try y" for y j
      unfolding resumeWithCursor_def by (rule silent_trans [OF m queue_silent]) (use that m in \<open>simp add: silent_def\<close>)
    have cc: "silent y (cursor_call CallResume j y)" for y j by (simp add: silent_def delivered_def no_try_def cursor_call_def)
    have "silent ?cs (or_same ?cs (wait_over ev err ?k ?cb ?cs))"
    proof (cases err)
      case None
      show ?thesis
      proof (cases "createChangeStreamCursor (resumeOptions ev (cs_store ?cs ! ?k)) ?cs")
        case (Inr jc)
        obtain j cs1 where jc: "jc = (j, cs1)" by (cases jc)
        have c1: "silent ?cs cs1" using cr Inr jc by blast
        then have "no_try cs1" using s(2) by (simp add: silent_def)
        then show ?thesis using None Inr jc silent_trans [OF c1 rw] silent_trans [OF c1 cc] by (simp add: or_same_def wait_over_def)
      qed (simp add: None or_same_def wait_over_def)
    qed (simp add: or_same_def wait_over_def unresumable_silent [OF s(2)])
    from silent_trans [OF s(1) this] show ?thesis using assms WaitOver True by (auto simp: cs_step_def Let_def silent_def)
  qed (use assms WaitOver in \<open>simp add: cs_step_def\<close>)
qed (use assms(3) in simp_all)

lemma step_in_order:
  assumes h: "honest ev lg pos q" and i: "in_order ev lg pos q a cs" "iterates x" and s: "cs_step ev x cs = Some cs'"
  shows "in_order ev lg pos q a cs'"
proof (cases "cs_closed cs")
  case True
  then show ?thesis using closed_step [OF True _ i(2) s] closing_in_order [OF i(1)] i(1) by (auto simp: in_order_def)
next
  case False
  then obtain k where w: "at_work ev lg pos q a k cs" using i(1) by (auto simp: in_order_def)
  note ph = phase_cursor [of k cs]
  show ?thesis
  proof (cases x)
    case (Ask r)
    then have "\<forall>i. r \<noteq> ReqTryNext i" using i(2) by auto
    from takes_in_work [OF w ask_takes_in [OF this False]] ph w show ?thesis
      using s Ask by (intro at_work_in_order) (auto simp: cs_step_def at_work_def)
  next
    case (Close j)
    have "silent cs (answer j GotNothing (cs_close ev cs))" by (rule silent_trans [OF close_silent(1) answer_silent]) simp
    then show ?thesis using closing_in_order [OF i(1)] s Close close_silent(2) by (auto simp: cs_step_def answer_def)
  next
    case (CursorReplies n)
    let ?cs = "cs\<lparr>cs_calls := remove_nth n (cs_calls cs)\<rparr>"
    show ?thesis
    proof (cases "n < length (cs_calls cs)")
      case True
      obtain p j where pj: "cs_calls cs ! n = (p, j)" by (cases "cs_calls cs ! n")
      have m: "(p, j) \<in> set (cs_calls cs)" using True pj nth_mem by metis
      then have jl: "j < length (cs_store cs)" using w by (auto simp: at_work_def)
      have r: "cursor_reply ev p j ?cs = Some cs'" using s CursorReplies True pj by (simp add: cs_step_def)
      show ?thesis
      proof (cases "p = CallResume")
        case True
        then show ?thesis using resume_reply [OF h w False \<open>n < _\<close>] pj r by simp
      next
        case np: False
        have w': "at_work ev lg pos q a k ?cs" using take_off [OF w True] np pj by simp
        show ?thesis
        proof (cases p)
          case (CallHasNext i')
          obtain b c1 where c: "with_cursor ev hasNext (cs_store ?cs ! j) = Some (b, c1)"
            and cs': "cs' = answer i' (case b of Inl e \<Rightarrow> Failed (Some e) | Inr b \<Rightarrow> GotBool b) (update_cursor j (\<lambda>_. c1) ?cs)"
            using r CallHasNext by (auto simp: cursor_reply_def)
          have u: "at_work ev lg pos q a k (update_cursor j (\<lambda>_. c1) ?cs)" using hasNext_reply [OF h w' _ c] jl by simp
          have t: "takes_in k y (answer i' (case b of Inl e \<Rightarrow> Failed (Some e) | Inr b \<Rightarrow> GotBool b) y)" for y
            using answer_silent [of "case b of Inl e \<Rightarrow> Failed (Some e) | Inr b \<Rightarrow> GotBool b" y i']
            by (auto simp: takes_in_def answer_def split: sum.splits)
          show ?thesis unfolding cs' by (rule at_work_in_order [OF takes_in_work [OF u t]])
        next
          case (CallNext i')
          have "cs_cursor cs = Some k \<or> cu_closed (csc_cursor (cs_store cs ! j))"
            using w m jl CallNext by (auto simp: at_work_def phase_def store_good_def)
          then show ?thesis using next_reply [OF h w' _ _ _ r [unfolded CallNext]] False jl by simp
        next
          case (CallTryNext i')
          then show ?thesis using w m by (auto simp: at_work_def no_try_def)
        qed (use np in simp)
      qed
    qed (use s CursorReplies i(1) in \<open>simp add: cs_step_def\<close>)
  next
    case (WaitOver n err)
    then show ?thesis using wait_keeps [OF w, of n err] s i(1) by (auto simp: cs_step_def Let_def split: if_splits)
  qed (use i(2) in simp_all)
qed

lemma run_in_order:
  assumes h: "honest ev lg pos q"
  shows "in_order ev lg pos q a cs \<Longrightarrow> list_all iterates xs \<Longrightarrow> cs_run ev xs cs = Some cs' \<Longrightarrow> in_order ev lg pos q a cs'"
  by (induction xs arbitrary: cs) (auto split: option.splits dest: step_in_order [OF h])

text \<open>The options name one token to start after.\<close>

definition starts_after :: "jsval \<Rightarrow> doc \<Rightarrow> bool" where
  "starts_after t options =
     (truthy t \<and> (fld ''resumeAfter'' options = t \<and> \<not> truthy (fld ''startAfter'' options)
                   \<or> fld ''startAfter'' options = t \<and> \<not> truthy (fld ''resumeAfter'' options)))"

lemma new_stream:
  assumes "ChangeStream_new parent ns rp pipeline options = Inr cs"
  obtains ty opts where "cs_store cs = [ChangeStreamCursor_new 0 ns (JDoc [(''$changeStream'', JDoc (change_stage ty opts))] # pipeline) (applyKnownOptions [] opts CURSOR_OPTIONS)]"
    "cs_cursor cs = Some 0 \<and> cs_listeners cs = 0 \<and> cs_calls cs = [] \<and> cs_waits cs = [] \<and> cs_answers cs = [] \<and> cs_resumeQueue cs = []"
    "\<forall>j. j \<noteq> ''readPreference'' \<longrightarrow> fld j opts = fld j options"
proof (cases parent)
  case (Some ty)
  let ?base = "\<lambda>opts. \<lparr>cs_type = ty, cs_pipeline = pipeline, cs_options = opts, cs_namespace = ns, cs_cursor = None,
                     cs_store = [], cs_resumeQueue = [], cs_stream = None, cs_closed = False, cs_mode = NoMode,
                     cs_listeners = 0, cs_calls = [], cs_waits = [], cs_answers = [], cs_events = []\<rparr>"
  define opts where "opts = (if \<not> truthy (fld ''readPreference'' options) \<and> truthy rp then map_set ''readPreference'' rp options else options)"
  have eq: "rbind (createChangeStreamCursor opts (?base opts)) (\<lambda>(k, cs1). Inr (cs1\<lparr>cs_cursor := Some k\<rparr>)) = Inr cs"
    using assms unfolding Some ChangeStream_new_def option.case Let_def opts_def [symmetric] .
  have o: "\<forall>j. j \<noteq> ''readPreference'' \<longrightarrow> fld j opts = fld j options" by (simp add: opts_def)
  have "createChangeStreamCursor opts (?base opts) = Inr (0, (?base opts)\<lparr>cs_store := [ChangeStreamCursor_new 0 ns (JDoc [(''$changeStream'', JDoc (change_stage ty opts))] # pipeline) (applyKnownOptions [] opts CURSOR_OPTIONS)]\<rparr>)"
    by (simp add: createChangeStreamCursor_def Let_def)
  then have "cs = (?base opts)\<lparr>cs_store := [ChangeStreamCursor_new 0 ns (JDoc [(''$changeStream'', JDoc (change_stage ty opts))] # pipeline) (applyKnownOptions [] opts CURSOR_OPTIONS)], cs_cursor := Some 0\<rparr>"
    using eq by simp
  then show ?thesis using o by (intro that [of ty opts]) simp_all
qed (use assms in \<open>simp add: ChangeStream_new_def\<close>)

lemma new_stream_in_order:
  assumes "ChangeStream_new parent ns rp pipeline options = Inr cs" "starts_after t options"
  shows "in_order ev lg pos q (pos t) cs"
proof -
  obtain ty opts where new: "cs_store cs = [ChangeStreamCursor_new 0 ns (JDoc [(''$changeStream'', JDoc (change_stage ty opts))] # pipeline) (applyKnownOptions [] opts CURSOR_OPTIONS)]"
    and cs: "cs_cursor cs = Some 0 \<and> cs_listeners cs = 0 \<and> cs_calls cs = [] \<and> cs_waits cs = [] \<and> cs_answers cs = [] \<and> cs_resumeQueue cs = []"
    and o: "\<forall>j. j \<noteq> ''readPreference'' \<longrightarrow> fld j opts = fld j options"
    by (rule new_stream [OF assms(1)])
  define c where "c = ChangeStreamCursor_new 0 ns (JDoc [(''$changeStream'', JDoc (change_stage ty opts))] # pipeline) (applyKnownOptions [] opts CURSOR_OPTIONS)"
  have st: "cs_store cs = [c]" by (simp only: new c_def)
  have fo: "fld ''resumeAfter'' opts = fld ''resumeAfter'' options" "fld ''startAfter'' opts = fld ''startAfter'' options" using o by simp_all
  obtain k where k: "k \<in> {''resumeAfter'', ''startAfter''}" "fld k opts = t" "truthy t" "\<forall>j \<in> {''resumeAfter'', ''startAfter''}. j \<noteq> k \<longrightarrow> \<not> truthy (fld j opts)"
  proof (cases "fld ''resumeAfter'' options = t \<and> \<not> truthy (fld ''startAfter'' options)")
    case True
    show thesis by (rule that [of "''resumeAfter''"]) (use True assms(2) fo in \<open>simp_all add: starts_after_def\<close>)
  next
    case False
    show thesis by (rule that [of "''startAfter''"]) (use False assms(2) fo in \<open>auto simp: starts_after_def\<close>)
  qed
  note s = start_token_stage [OF k]
  have f: "csc_no c = 0" "csc_pipeline c = JDoc [(''$changeStream'', JDoc (change_stage ty opts))] # pipeline"
    "csc_cursor c = AbstractCursor_new ns (cursor_settings (applyKnownOptions [] opts CURSOR_OPTIONS))" "csc_resumeToken c = t"
    using s(2) by (simp_all only: c_def) (simp_all add: ChangeStreamCursor_new_def Let_def)
  have "plain c" "unopened ev c" using s k(3) by (simp_all add: plain_def unopened_def f AbstractCursor_new_def)
  then have "store_good ev lg pos q 0 (cs_store cs)" using f by (simp add: store_good_def st good_def)
  then have "at_work ev lg pos q (pos t) 0 cs" using cs st f(4)
    by (simp add: at_work_def phase_def resumes_def delivered_def no_try_def)
  then show ?thesis by (rule at_work_in_order)
qed


section \<open>An example\<close>

definition demo_change :: "nat \<Rightarrow> jsval" where
  "demo_change n = JDoc [(''_id'', JNum (int n))]"

definition demo_log :: "nat \<Rightarrow> jsval option" where
  "demo_log i = (if i < 4 then Some (demo_change (Suc i)) else None)"

definition demo_pos :: "jsval \<Rightarrow> nat" where
  "demo_pos t = (case t of JNum n \<Rightarrow> nat n | _ \<Rightarrow> 0)"

text \<open>Cursor 0 fails after one change; a later one gets two batches.\<close>

definition demo_read :: "nat \<Rightarrow> nat \<Rightarrow> nat" where
  "demo_read k j = k + 2 + (if k = 0 \<or> j = 0 then 0 else 1)"

definition demo_reply :: "nat \<Rightarrow> nat \<Rightarrow> csReply" where
  "demo_reply a b = \<lparr>rp_id = 5, rp_batch = changes demo_log a b, rp_postBatchResumeToken = JNum (int b), rp_operationTime = JNum 9\<rparr>"

definition demo_failure :: mongoError where
  "demo_failure = MongoNetworkError_new ''connection closed'' None"

definition demo_ev :: csEnv where
  "demo_ev = \<lparr>ev_hasSessionSupport = True, ev_loadBalanced = False, ev_wireVersion = (\<lambda>_. 13), ev_fuel = 9,
     ev_aggregate = (\<lambda>k pipeline options. let a = demo_pos (start_token pipeline)
        in if a \<le> k + 2 then Inr (''a:1'', demo_reply a (k + 2)) else Inl demo_failure),
     ev_getMore = (\<lambda>k j. if k = 0 \<or> j > 0 then Inl demo_failure else Inr (demo_reply (k + 2) (k + 3)))\<rparr>"

definition demo_stream :: changeStream where
  "demo_stream = (case ChangeStream_new (Some CollectionDomain) ''db.c'' JUndef [] [(''resumeAfter'', JNum 1)] of Inr cs \<Rightarrow> cs)"

lemma demo_honest: "honest demo_ev demo_log demo_pos demo_read"
  unfolding honest_def
  by (auto simp: demo_ev_def demo_log_def demo_pos_def demo_read_def demo_reply_def demo_change_def get_prop_def Let_def eval_nat_numeral split: if_splits)

lemma demo_stream_new: "ChangeStream_new (Some CollectionDomain) ''db.c'' JUndef [] [(''resumeAfter'', JNum 1)] = Inr demo_stream"
  by (simp add: demo_stream_def ChangeStream_new_def createChangeStreamCursor_def Let_def)

text \<open>A \<open>next\<close> that succeeds, one on which the cursor breaks and the stream resumes, and another.\<close>

definition demo_steps :: "csStep list" where
  "demo_steps = [Ask (ReqNext 1), CursorReplies 0, Ask (ReqNext 2), CursorReplies 0, WaitOver 0 None, CursorReplies 0, CursorReplies 0,
     Ask (ReqNext 3), CursorReplies 0]"


section \<open>Waiting for the topology\<close>

lemma wait_from:
  assumes "s > 0" "looks \<noteq> []" "fst (hd looks) \<ge> s" "successively (\<lambda>x y. fst y \<ge> fst x + 500) looks"
    "fst (hd looks) + 500 * int (length looks - 1) > s + SELECTION_TIMEOUT"
  shows "waitForTopologyConnected (Some s) looks \<noteq> Waiting"
  using assms
proof (induction looks)
  case (Cons l looks)
  obtain t b where l: "l = (t, b)" by (cases l)
  show ?case
  proof (cases "b \<or> calculateDurationInMs t s > SELECTION_TIMEOUT")
    case False
    then have late: "t \<le> s + SELECTION_TIMEOUT" using Cons.prems l by (auto simp: calculateDurationInMs_def Let_def split: if_splits)
    then have "looks \<noteq> []" using Cons.prems l by auto
    then have "waitForTopologyConnected (Some s) looks \<noteq> Waiting"
      using Cons.prems l by (intro Cons.IH) (cases looks; auto simp: of_nat_diff algebra_simps)+
    then show ?thesis using False Cons.prems(1) by (simp add: l)
  qed (use Cons.prems(1) in \<open>auto simp: l\<close>)
qed simp

text \<open>
  The wait for the topology ends: the looks are at least half a second apart, so that after sixty-two of
  them, if not before, it is connected or the time is up.
\<close>

theorem wait_ends:
  assumes "successively (\<lambda>x y. fst y \<ge> fst x + 500) looks" "length looks \<ge> 62" "fst (hd looks) > 0"
  shows "waitForTopologyConnected None looks \<in> {Connected, TimedOut}"
proof -
  obtain t b rest where l: "looks = (t, b) # rest" using assms(2) by (cases looks) auto
  have "waitForTopologyConnected None looks = waitForTopologyConnected (Some t) looks" by (simp add: l)
  moreover have "waitForTopologyConnected (Some t) looks \<noteq> Waiting"
    using assms l by (intro wait_from) (auto simp: SELECTION_TIMEOUT_def)
  ultimately show ?thesis by (cases "waitForTopologyConnected (Some t) looks") simp_all
qed

lemma regular_looks: "successively (\<lambda>x y. fst y \<ge> fst x + 500) (map (\<lambda>i. (int (1000 + 500 * i), False)) [0..<n])"
  by (simp add: successively_map successively_conv_nth)

theorem wait_ends_witness:
  "waitForTopologyConnected None (map (\<lambda>i. (int (1000 + 500 * i), False)) [0..<62]) \<in> {Connected, TimedOut}
   \<and> waitForTopologyConnected None (map (\<lambda>i. (int (1000 + 500 * i), False)) [0..<3]) = Waiting"
proof -
  let ?l = "\<lambda>n. map (\<lambda>i. (int (1000 + 500 * i), False)) [0..<n]"
  have h: "fst (hd (?l n)) > 0" if "n > 0" for n using that by (simp add: hd_map)
  have "length (?l n) \<ge> 62" if "n \<ge> 62" for n using that by simp
  from wait_ends [OF regular_looks this h, of 62] have "waitForTopologyConnected None (?l 62) \<in> {Connected, TimedOut}" by (simp only: order.refl zero_less_numeral)
  moreover have "waitForTopologyConnected None (?l 3) = Waiting" by code_simp
  ultimately show ?thesis by (rule conjI)
qed

section \<open>The queue of a resuming stream\<close>

lemma ask_with_cursor:
  assumes "\<not> cs_closed cs" "cs_cursor cs = Some k" "cs_mode cs = Iterator"
  shows "run_request None r cs = cs\<lparr>cs_calls := cs_calls cs @ [(call_of r, k)]\<rparr>"
  using assms by (cases cs; cases r) (simp_all add: run_request_def with_got_def cursor_call_def cs_ask_def setIsIterator_def getCursor_def)

lemma ask_when_closed:
  assumes "cs_closed cs" "cs_mode cs = Iterator"
  shows "run_request (Some e) r cs = answer (caller r) (Failed (Some (case r of Again i \<Rightarrow> closed_error | _ \<Rightarrow> e))) cs"
  using assms by (cases cs; cases r) (simp_all add: run_request_def with_got_def cs_ask_def setIsIterator_def getCursor_def answer_def)

lemma drain_open:
  assumes "\<not> cs_closed cs" "cs_cursor cs = Some k" "cs_mode cs = Iterator"
  shows "drain (length (cs_resumeQueue cs)) None cs
     = cs\<lparr>cs_calls := cs_calls cs @ map (\<lambda>r. (call_of r, k)) (rev (cs_resumeQueue cs)), cs_resumeQueue := []\<rparr>"
  using assms
proof (induction "cs_resumeQueue cs" arbitrary: cs rule: rev_induct)
  case (snoc r rs)
  let ?cs = "cs\<lparr>cs_resumeQueue := rs, cs_calls := cs_calls cs @ [(call_of r, k)]\<rparr>"
  have q: "cs_resumeQueue cs = rs @ [r]" using snoc.hyps(2) by simp
  have "run_request None r (cs\<lparr>cs_resumeQueue := rs\<rparr>) = ?cs" using ask_with_cursor [of "cs\<lparr>cs_resumeQueue := rs\<rparr>" k r] snoc.prems by simp
  then show ?case using snoc.hyps(1) [of ?cs] snoc.prems q by (simp add: Let_def)
qed simp

lemma drain_closed:
  assumes "cs_closed cs" "cs_mode cs = Iterator"
  shows "drain (length (cs_resumeQueue cs)) (Some e) cs
     = cs\<lparr>cs_answers := cs_answers cs @ map (\<lambda>r. (caller r, Failed (Some (case r of Again i \<Rightarrow> closed_error | _ \<Rightarrow> e)))) (rev (cs_resumeQueue cs)),
          cs_resumeQueue := []\<rparr>"
  using assms
proof (induction "cs_resumeQueue cs" arbitrary: cs rule: rev_induct)
  case (snoc r rs)
  let ?a = "(caller r, Failed (Some (case r of Again i \<Rightarrow> closed_error | _ \<Rightarrow> e)))"
  let ?cs = "cs\<lparr>cs_resumeQueue := rs, cs_answers := cs_answers cs @ [?a]\<rparr>"
  have q: "cs_resumeQueue cs = rs @ [r]" using snoc.hyps(2) by simp
  have "run_request (Some e) r (cs\<lparr>cs_resumeQueue := rs\<rparr>) = ?cs"
    using ask_when_closed [of "cs\<lparr>cs_resumeQueue := rs\<rparr>" e r] snoc.prems by (simp add: answer_def)
  then show ?case using snoc.hyps(1) [of ?cs] snoc.prems q by (simp add: Let_def)
qed simp

text \<open>
  (C29) The requests that wait while an iterated stream resumes.  If the stream has not been closed when
  its new cursor is there, every one of them is made on that cursor, the last one first, and none is left
  in the queue; when the stream gives up resuming, every one is answered with an error, and none is
  left either.  (A stream that is closed while it resumes leaves requests behind when its cursor comes,
  see \<open>closed_while_resuming\<close>.)
\<close>

theorem resume_queue_emptied:
  assumes "cs_mode cs = Iterator"
  shows "(\<not> cs_closed cs \<longrightarrow> resumeWithCursor k cs
       = cs\<lparr>cs_cursor := Some k, cs_calls := cs_calls cs @ map (\<lambda>r. (call_of r, k)) (rev (cs_resumeQueue cs)), cs_resumeQueue := []\<rparr>)
     \<and> cs_resumeQueue (unresumableError ev e (Some i) cs) = []
     \<and> cs_answers (unresumableError ev e (Some i) cs) = cs_answers cs
         @ map (\<lambda>r. (caller r, Failed (Some (case r of Again j \<Rightarrow> closed_error | _ \<Rightarrow> e)))) (rev (cs_resumeQueue cs))"
proof -
  have c: "cs_mode (cs_close ev cs) = Iterator" "cs_resumeQueue (cs_close ev cs) = cs_resumeQueue cs" "cs_answers (cs_close ev cs) = cs_answers cs"
    using assms by (simp_all add: cs_close_def Let_def update_cursor_def endStream_def split: option.split)
  have r: "resumeWithCursor k cs = cs\<lparr>cs_cursor := Some k, cs_calls := cs_calls cs @ map (\<lambda>r. (call_of r, k)) (rev (cs_resumeQueue cs)), cs_resumeQueue := []\<rparr>"
    if "\<not> cs_closed cs" using drain_open [of "cs\<lparr>cs_cursor := Some k\<rparr>" k] assms that by (simp add: resumeWithCursor_def processResumeQueue_def)
  show ?thesis using drain_closed [OF close_silent(2) c(1), of e] c(2,3) r
    by (simp add: unresumableError_def processResumeQueue_def)
qed

text \<open>A stream that is resuming, with two requests waiting.\<close>

definition resuming_stream :: changeStream where
  "resuming_stream = demo_stream\<lparr>cs_cursor := None, cs_mode := Iterator, cs_resumeQueue := [ReqNext 1, ReqHasNext 2]\<rparr>"

theorem resume_queue_emptied_witness:
  "cs_calls (resumeWithCursor 0 resuming_stream) = [(CallHasNext 2, 0), (CallNext 1, 0)]
   \<and> map fst (cs_answers (unresumableError demo_ev demo_failure (Some 1) resuming_stream)) = [2, 1]"
proof -
  have "cs_mode resuming_stream = Iterator" "\<not> cs_closed resuming_stream" "cs_calls resuming_stream = []" "cs_answers resuming_stream = []"
    "cs_resumeQueue resuming_stream = [ReqNext 1, ReqHasNext 2]" by code_simp+
  then show ?thesis using resume_queue_emptied [of resuming_stream 0 demo_ev demo_failure 1] by simp
qed

section \<open>Where the order breaks\<close>

text \<open>
  \<open>tryNext\<close> hands a change out without noting its token: after the next error the stream resumes before
  it, and the same change comes again.
\<close>

theorem tryNext_repeats_change:
  "map_option delivered (cs_run demo_ev
     [Ask (ReqTryNext 1), CursorReplies 0, Ask (ReqNext 2), CursorReplies 0, WaitOver 0 None, CursorReplies 0, CursorReplies 0] demo_stream)
   = Some [demo_change 2, demo_change 2]"
  by code_simp

text \<open>
  Two \<open>next\<close> calls are outstanding when the cursor breaks.  The error of the first starts to resume; the
  second finds no cursor to resume and closes the stream, although the error was one to resume from.
  When the wait is over the first is told that the stream is closed.
\<close>

theorem second_failure_closes_stream:
  "map_option (\<lambda>cs. (map fst (cs_answers cs), cs_closed cs, cs_resumeQueue cs)) (cs_run demo_ev
     [Ask (ReqNext 1), CursorReplies 0, Ask (ReqNext 2), Ask (ReqNext 3), CursorReplies 0, CursorReplies 0, WaitOver 0 None, CursorReplies 0] demo_stream)
   = Some ([1, 3, 2], True, [])"
  by code_simp

text \<open>
  A listener that is removed and added again leaves two listeners for errors on the readable stream:
  an error that the stream could resume from closes it.
\<close>

theorem listening_again_closes_stream:
  "map_option (\<lambda>cs. (cs_closed cs, cs_events cs)) (cs_run demo_ev [OnChange, StreamReads, OffChange, OnChange, StreamReads] demo_stream)
     = Some (True, [ChangeEvent (demo_change 2), ErrorEvent demo_failure])
   \<and> map_option (\<lambda>cs. (cs_closed cs, cs_events cs)) (cs_run demo_ev [OnChange, StreamReads, StreamReads] demo_stream)
     = Some (False, [ChangeEvent (demo_change 2)])"
  by code_simp

text \<open>
  A stream closed while it resumes: the wait goes on, the new cursor is kept and never closed, and of
  the waiting requests only the last is answered.
\<close>

theorem closed_while_resuming:
  "map_option (\<lambda>cs. (cs_closed cs, cs_cursor cs, cu_closed (csc_cursor (cs_store cs ! 1)), map fst (cs_answers cs), cs_resumeQueue cs))
     (cs_run demo_ev [Ask (ReqNext 1), CursorReplies 0, Ask (ReqNext 2), CursorReplies 0, Ask (ReqHasNext 3), Close 4, WaitOver 0 None, CursorReplies 0] demo_stream)
   = Some (True, Some 1, False, [1, 4, 3], [Again 2])"
  by code_simp

end
