(* ===== verification/GridFS.thy ===== *)
theory GridFS
  imports Buffers Documents Transactions
begin

text \<open>
  \<open>src/gridfs\<close>: files kept as numbered chunks in one collection and a document in another.  An upload
  stream sends its inserts without waiting for them; the inserts it has sent are pending until their
  callbacks run, in any order, and only then stored.  The collections are lists of documents; the
  identifier that the BSON library makes for a chunk is left out.  Inserting, finding and sorting are
  the documented behaviour of the server.
\<close>

section \<open>Documents\<close>

record gridFSChunk =
  ch_files_id :: objectId
  ch_n :: nat
  ch_data :: "byte list"

record gridFSFile =
  gf_id :: objectId
  gf_length :: nat
  gf_chunkSize :: nat
  gf_uploadDate :: int
  gf_filename :: string
  gf_contentType :: "string option"
  gf_aliases :: "string list option"
  gf_metadata :: "doc option"

section \<open>Upload\<close>

text \<open>What runs when a write has been taken over: nothing, the caller's function, or the rest of \<open>end\<close>.\<close>

datatype gridCallback = NoCallback | UserCallback nat | RemnantCallback

text \<open>An insert that has been sent: a chunk of a numbered write, the last chunk, or the files document.\<close>

datatype gridInsert = ChunkInsert gridFSChunk nat | RemnantInsert gridFSChunk | FileInsert gridFSFile gridCallback

datatype gridWaiting = WaitWrite "byte list" gridCallback | WaitRemnant

datatype gridEvent = Drain gridFSChunk | Finish gridFSFile | StreamClose | StreamError mongoError | Called nat "mongoError option"

text \<open>
  \<open>ws_writes\<close> holds, for each call of \<open>doWrite\<close> that flushed, how many of its inserts are out and what to
  call after the last.  \<open>ws_checkedIndexes\<close> and \<open>ws_waiting\<close> are the bucket's flag and the listeners for its
  \<open>index\<close> event; the last two fields are the collections.
\<close>

record writeStream =
  ws_id :: objectId
  ws_filename :: string
  ws_contentType :: "string option"
  ws_aliases :: "string list option"
  ws_metadata :: "doc option"
  ws_chunkSizeBytes :: nat
  ws_bufToStore :: "byte list"
  ws_length :: nat
  ws_n :: nat
  ws_pos :: nat
  ws_done :: bool
  ws_streamEnd :: bool
  ws_outstandingRequests :: nat
  ws_errored :: bool
  ws_aborted :: bool
  ws_checkedIndexes :: bool
  ws_waiting :: "gridWaiting list"
  ws_writes :: "(nat \<times> gridCallback) list"
  ws_inserts :: "gridInsert list"
  ws_events :: "gridEvent list"
  ws_now :: int
  ws_chunks :: "gridFSChunk list"
  ws_files :: "gridFSFile list"

definition GridFSBucketWriteStream_new :: "objectId option \<Rightarrow> objectId \<Rightarrow> string \<Rightarrow> nat option \<Rightarrow> nat \<Rightarrow> bool \<Rightarrow> writeStream" where
  "GridFSBucketWriteStream_new givenId newId filename givenSize bucketSize checkedIndexes =
     (let size = (case givenSize of Some n \<Rightarrow> (if n = 0 then bucketSize else n) | None \<Rightarrow> bucketSize)
      in \<lparr>ws_id = (case givenId of Some i \<Rightarrow> i | None \<Rightarrow> newId), ws_filename = filename, ws_contentType = None, ws_aliases = None,
          ws_metadata = None, ws_chunkSizeBytes = size, ws_bufToStore = replicate size 0, ws_length = 0, ws_n = 0, ws_pos = 0,
          ws_done = False, ws_streamEnd = False, ws_outstandingRequests = 0, ws_errored = False, ws_aborted = False,
          ws_checkedIndexes = checkedIndexes, ws_waiting = [], ws_writes = [], ws_inserts = [], ws_events = [], ws_now = 0,
          ws_chunks = [], ws_files = []\<rparr>)"

definition grid_emit :: "gridEvent \<Rightarrow> writeStream \<Rightarrow> writeStream" where
  "grid_emit e s = s\<lparr>ws_events := ws_events s @ [e]\<rparr>"

definition aborted_error :: mongoError where
  "aborted_error = mk_error MongoAPIError ''Stream has been aborted''"

text \<open>A callback of the caller runs with or without an error.\<close>

definition call_user :: "gridCallback \<Rightarrow> mongoError option \<Rightarrow> writeStream \<Rightarrow> writeStream" where
  "call_user cb err s = (case cb of UserCallback i \<Rightarrow> grid_emit (Called i err) s | _ \<Rightarrow> s)"

definition handleError :: "mongoError \<Rightarrow> gridCallback \<Rightarrow> writeStream \<Rightarrow> writeStream" where
  "handleError e cb s =
     (if ws_errored s then s
      else
        (let s1 = s\<lparr>ws_errored := True\<rparr>
         in if cb = NoCallback then grid_emit (StreamError e) s1 else call_user cb (Some e) s1))"

definition createChunkDoc :: "objectId \<Rightarrow> nat \<Rightarrow> byte list \<Rightarrow> gridFSChunk" where
  "createChunkDoc filesId n data = \<lparr>ch_files_id = filesId, ch_n = n, ch_data = data\<rparr>"

definition createFilesDoc :: "writeStream \<Rightarrow> gridFSFile" where
  "createFilesDoc s =
     \<lparr>gf_id = ws_id s, gf_length = ws_length s, gf_chunkSize = ws_chunkSizeBytes s, gf_uploadDate = ws_now s, gf_filename = ws_filename s,
      gf_contentType = (if ws_contentType s = Some [] then None else ws_contentType s), gf_aliases = ws_aliases s, gf_metadata = ws_metadata s\<rparr>"

definition send :: "gridInsert \<Rightarrow> writeStream \<Rightarrow> writeStream" where
  "send i s = s\<lparr>ws_inserts := ws_inserts s @ [i]\<rparr>"

definition checkDone :: "gridCallback \<Rightarrow> writeStream \<Rightarrow> writeStream" where
  "checkDone cb s =
     (if ws_done s then s
      else if ws_streamEnd s \<and> ws_outstandingRequests s = 0 \<and> \<not> ws_errored s then
        (let s1 = s\<lparr>ws_done := True\<rparr>
         in if ws_aborted s1 then call_user cb (Some aborted_error) s1 else send (FileInsert (createFilesDoc s1) cb) s1)
      else s)"

definition writeRemnant :: "writeStream \<Rightarrow> writeStream" where
  "writeRemnant s =
     (if ws_pos s = 0 then checkDone NoCallback s
      else
        (let s1 = s\<lparr>ws_outstandingRequests := Suc (ws_outstandingRequests s)\<rparr>
         in if ws_aborted s1 then s1
            else send (RemnantInsert (createChunkDoc (ws_id s1) (ws_n s1) (take (ws_pos s1) (ws_bufToStore s1)))) s1))"

definition run_callback :: "gridCallback \<Rightarrow> mongoError option \<Rightarrow> writeStream \<Rightarrow> writeStream" where
  "run_callback cb err s = (case cb of RemnantCallback \<Rightarrow> writeRemnant s | _ \<Rightarrow> call_user cb err s)"

text \<open>\<open>inputBuf.copy(bufToStore, pos)\<close>.\<close>

definition copy_into :: "byte list \<Rightarrow> nat \<Rightarrow> byte list \<Rightarrow> byte list" where
  "copy_into source pos target = take pos target @ take (length target - pos) source @ drop (pos + length source) target"

text \<open>
  The loop of \<open>doWrite\<close>, on what is left of the input.  Each round copies up to the end of the buffer; a
  full buffer is sent as a chunk.  The position stays below the chunk size, so that every round copies
  something; the test for an aborted stream inside the loop repeats the one before it and is left out.
\<close>

function write_loop :: "nat \<Rightarrow> byte list \<Rightarrow> writeStream \<Rightarrow> nat \<times> writeStream" where
  "write_loop w input s =
     (if input = [] \<or> ws_chunkSizeBytes s \<le> ws_pos s then (0, s)
      else
        (let numToCopy = min (ws_chunkSizeBytes s - ws_pos s) (length input);
             s1 = s\<lparr>ws_bufToStore := copy_into (take numToCopy input) (ws_pos s) (ws_bufToStore s), ws_pos := ws_pos s + numToCopy\<rparr>
         in if ws_pos s1 = ws_chunkSizeBytes s1 then
              (let s2 = send (ChunkInsert (createChunkDoc (ws_id s1) (ws_n s1) (ws_bufToStore s1)) w)
                          (s1\<lparr>ws_outstandingRequests := Suc (ws_outstandingRequests s1)\<rparr>);
                   (k, s3) = write_loop w (drop numToCopy input) (s2\<lparr>ws_pos := 0, ws_n := Suc (ws_n s2)\<rparr>)
               in (Suc k, s3))
            else write_loop w (drop numToCopy input) s1))"
  by pat_completeness auto
termination by (relation "measure (\<lambda>(w, input, s). length input)") auto

definition doWrite :: "byte list \<Rightarrow> gridCallback \<Rightarrow> writeStream \<Rightarrow> writeStream" where
  "doWrite input cb s =
     (if ws_aborted s then run_callback cb (Some aborted_error) s
      else
        (let s1 = s\<lparr>ws_length := ws_length s + length input\<rparr>
         in if ws_pos s1 + length input < ws_chunkSizeBytes s1 then
              run_callback cb None
                (s1\<lparr>ws_bufToStore := copy_into input (ws_pos s1) (ws_bufToStore s1), ws_pos := ws_pos s1 + length input\<rparr>)
            else
              (let (k, s2) = write_loop (length (ws_writes s1)) input s1
               in s2\<lparr>ws_writes := ws_writes s2 @ [(k, cb)]\<rparr>)))"

definition run_waiting :: "gridWaiting \<Rightarrow> writeStream \<Rightarrow> writeStream" where
  "run_waiting w s = (case w of WaitWrite input cb \<Rightarrow> doWrite input cb s | WaitRemnant \<Rightarrow> writeRemnant s)"

definition waitForIndexes :: "gridWaiting \<Rightarrow> writeStream \<Rightarrow> writeStream" where
  "waitForIndexes w s = (if ws_checkedIndexes s then run_waiting w s else s\<lparr>ws_waiting := ws_waiting s @ [w]\<rparr>)"

definition grid_write :: "byte list \<Rightarrow> gridCallback \<Rightarrow> writeStream \<Rightarrow> writeStream" where
  "grid_write input cb = waitForIndexes (WaitWrite input cb)"

definition grid_end :: "byte list option \<Rightarrow> gridCallback \<Rightarrow> writeStream \<Rightarrow> writeStream" where
  "grid_end chunk cb s =
     (if ws_aborted s then call_user cb (Some aborted_error) s
      else
        (let s1 = s\<lparr>ws_streamEnd := True\<rparr>
         in case chunk of None \<Rightarrow> waitForIndexes WaitRemnant s1 | Some input \<Rightarrow> grid_write input RemnantCallback s1))"

text \<open>The outcome of \<open>abort\<close>: an error at once, or the reply to the deletion of the chunks.\<close>

definition grid_abort :: "mongoError option \<Rightarrow> writeStream \<Rightarrow> mongoError option \<times> writeStream" where
  "grid_abort reply s =
     (if ws_streamEnd s then (Some (mk_error MongoAPIError ''Cannot abort a stream that has already completed''), s)
      else if ws_aborted s then (Some (mk_error MongoAPIError ''Cannot call abort() on a stream twice''), s)
      else
        (let s1 = s\<lparr>ws_aborted := True\<rparr>
         in case reply of
              Some e \<Rightarrow> (Some e, s1)
            | None \<Rightarrow> (None, s1\<lparr>ws_chunks := filter (\<lambda>c. ch_files_id c \<noteq> ws_id s1) (ws_chunks s1)\<rparr>)))"

text \<open>The callbacks of the inserts.  Storing the document is the server's part.\<close>

definition inserted :: "gridInsert \<Rightarrow> mongoError option \<Rightarrow> writeStream \<Rightarrow> writeStream" where
  "inserted i err s =
     (case (i, err) of
        (FileInsert f cb, Some e) \<Rightarrow> handleError e cb s
      | (_, Some e) \<Rightarrow> handleError e NoCallback s
      | (ChunkInsert c w, None) \<Rightarrow>
          (let s1 = s\<lparr>ws_chunks := ws_chunks s @ [c], ws_outstandingRequests := ws_outstandingRequests s - 1\<rparr>;
               (k, cb) = ws_writes s1 ! w;
               s2 = s1\<lparr>ws_writes := (ws_writes s1)[w := (k - 1, cb)]\<rparr>
           in if k - 1 = 0 then checkDone NoCallback (run_callback cb None (grid_emit (Drain c) s2)) else s2)
      | (RemnantInsert c, None) \<Rightarrow>
          checkDone NoCallback (s\<lparr>ws_chunks := ws_chunks s @ [c], ws_outstandingRequests := ws_outstandingRequests s - 1\<rparr>)
      | (FileInsert f cb, None) \<Rightarrow> grid_emit StreamClose (grid_emit (Finish f) (s\<lparr>ws_files := ws_files s @ [f]\<rparr>)))"

text \<open>The \<open>index\<close> event: the listeners run in their order.\<close>

definition indexed :: "writeStream \<Rightarrow> writeStream" where
  "indexed s = fold run_waiting (ws_waiting s) (s\<lparr>ws_checkedIndexes := True, ws_waiting := []\<rparr>)"

datatype gridStep = Write "byte list" | End "byte list option" | Indexed | Inserted nat "mongoError option" | Abort "mongoError option"

definition remove_at :: "nat \<Rightarrow> 'a list \<Rightarrow> 'a list" where
  "remove_at i xs = take i xs @ drop (Suc i) xs"

definition grid_step :: "int \<Rightarrow> gridStep \<Rightarrow> writeStream \<Rightarrow> writeStream" where
  "grid_step now x s0 =
     (let s = s0\<lparr>ws_now := now\<rparr>
      in case x of
           Write input \<Rightarrow> grid_write input NoCallback s
         | End chunk \<Rightarrow> grid_end chunk NoCallback s
         | Indexed \<Rightarrow> if ws_checkedIndexes s then s else indexed s
         | Inserted n err \<Rightarrow>
             if n < length (ws_inserts s) then inserted (ws_inserts s ! n) err (s\<lparr>ws_inserts := remove_at n (ws_inserts s)\<rparr>) else s
         | Abort reply \<Rightarrow> snd (grid_abort reply s))"

definition grid_run :: "(int \<times> gridStep) list \<Rightarrow> writeStream \<Rightarrow> writeStream" where
  "grid_run xs s = fold (\<lambda>(now, x). grid_step now x) xs s"

section \<open>Indexes\<close>

text \<open>
  The replies to the commands that look for and make the indexes.  The result is the indexes that were
  asked for, on the files and on the chunks, and the error handed to the callback, which ignores it.
\<close>

record indexEnv =
  ix_findOne :: "mongoError + bool"
  ix_filesIndexes :: "mongoError + doc list"
  ix_chunksIndexes :: "mongoError + doc list"
  ix_createFiles :: "mongoError option"
  ix_createChunks :: "mongoError option"

definition has_index :: "string \<Rightarrow> string \<Rightarrow> doc list \<Rightarrow> bool" where
  "has_index a b indexes =
     list_ex (\<lambda>i. length (props_of (fld ''key'' i)) = 2 \<and> get_prop a (fld ''key'' i) = JNum 1 \<and> get_prop b (fld ''key'' i) = JNum 1) indexes"

definition namespace_missing :: "mongoError \<Rightarrow> bool" where
  "namespace_missing e = (instanceof e MongoError \<and> e_code e = Some (CodeNum 26))"

definition checkChunksIndex :: "indexEnv \<Rightarrow> string list \<times> mongoError option" where
  "checkChunksIndex env =
     (case ix_chunksIndexes env of
        Inl e \<Rightarrow> if namespace_missing e then ([''chunks''], ix_createChunks env) else ([], Some e)
      | Inr indexes \<Rightarrow> if has_index ''files_id'' ''n'' indexes then ([], None) else ([''chunks''], ix_createChunks env))"

definition create_files_index :: "indexEnv \<Rightarrow> string list \<times> mongoError option" where
  "create_files_index env =
     (case ix_createFiles env of
        Some e \<Rightarrow> ([''files''], Some e)
      | None \<Rightarrow> (let (made, err) = checkChunksIndex env in (''files'' # made, err)))"

definition checkIndexes :: "indexEnv \<Rightarrow> string list \<times> mongoError option" where
  "checkIndexes env =
     (case ix_findOne env of
        Inl e \<Rightarrow> ([], Some e)
      | Inr True \<Rightarrow> ([], None)
      | Inr False \<Rightarrow>
          (case ix_filesIndexes env of
             Inl e \<Rightarrow> if namespace_missing e then create_files_index env else ([], Some e)
           | Inr indexes \<Rightarrow>
               if has_index ''filename'' ''uploadDate'' indexes then checkChunksIndex env else create_files_index env))"

section \<open>Download\<close>

datatype readEvent = ReadData "byte list" | ReadEnd | ReadError mongoError | ReadClose | ReadFile gridFSFile

record readStream =
  rs_bytesToTrim :: int
  rs_bytesToSkip :: int
  rs_bytesRead :: int
  rs_expected :: nat
  rs_expectedEnd :: int
  rs_start :: "int option"
  rs_end :: "int option"
  rs_file :: "gridFSFile option"
  rs_cursor :: "gridFSChunk list option"
  rs_init :: bool
  rs_destroyed :: bool
  rs_events :: "readEvent list"

text \<open>The options of the caller are spread over the defaults; an option may be given as undefined.\<close>

definition GridFSBucketReadStream_new :: "int option option \<Rightarrow> int option option \<Rightarrow> readStream" where
  "GridFSBucketReadStream_new givenStart givenEnd =
     \<lparr>rs_bytesToTrim = 0, rs_bytesToSkip = 0, rs_bytesRead = 0, rs_expected = 0, rs_expectedEnd = 0,
      rs_start = (case givenStart of Some x \<Rightarrow> x | None \<Rightarrow> Some 0), rs_end = (case givenEnd of Some x \<Rightarrow> x | None \<Rightarrow> Some 0),
      rs_file = None, rs_cursor = None, rs_init = False, rs_destroyed = False, rs_events = []\<rparr>"

definition read_emit :: "readEvent \<Rightarrow> readStream \<Rightarrow> readStream" where
  "read_emit e r = r\<lparr>rs_events := rs_events r @ [e]\<rparr>"

definition throwIfInitialized :: "readStream \<Rightarrow> mongoError + unit" where
  "throwIfInitialized r =
     (if rs_init r then Inl (mk_error MongoGridFSStreamError ''Options cannot be changed after the stream is initialized'') else Inr ())"

definition set_start :: "int \<Rightarrow> readStream \<Rightarrow> mongoError + readStream" where
  "set_start n r = rbind (throwIfInitialized r) (\<lambda>_. Inr (r\<lparr>rs_start := Some n\<rparr>))"

definition set_end :: "int \<Rightarrow> readStream \<Rightarrow> mongoError + readStream" where
  "set_end n r = rbind (throwIfInitialized r) (\<lambda>_. Inr (r\<lparr>rs_end := Some n\<rparr>))"

definition read_abort :: "readStream \<Rightarrow> readStream" where
  "read_abort r =
     (let r1 = (read_emit ReadEnd r)\<lparr>rs_destroyed := True\<rparr>
      in if rs_cursor r1 \<noteq> None \<or> \<not> rs_init r1 then read_emit ReadClose r1 else r1)"

definition ceil_div :: "int \<Rightarrow> int \<Rightarrow> int" where
  "ceil_div a b = - ((- a) div b)"

definition handleStartOption :: "gridFSFile \<Rightarrow> readStream \<Rightarrow> mongoError + int \<times> readStream" where
  "handleStartOption f r =
     (case rs_start r of
        None \<Rightarrow> Inl (invalid_argument ''Start option must be defined'')
      | Some start \<Rightarrow>
          if start > int (gf_length f) then Inl (invalid_argument ''Stream start must not be more than the length of the file'')
          else if start < 0 then Inl (invalid_argument ''Stream start must not be negative'')
          else if (case rs_end r of Some e \<Rightarrow> e < start | None \<Rightarrow> False) then
            Inl (invalid_argument ''Stream start must not be greater than stream end'')
          else
            (let q = start div int (gf_chunkSize f)
             in Inr (start - q * int (gf_chunkSize f), r\<lparr>rs_bytesRead := q * int (gf_chunkSize f), rs_expected := nat q\<rparr>)))"

text \<open>The end option also limits the cursor.  A limit of zero is none.\<close>

definition handleEndOption :: "gridFSFile \<Rightarrow> gridFSChunk list \<Rightarrow> readStream \<Rightarrow> mongoError + int \<times> readStream" where
  "handleEndOption f found r =
     (case rs_end r of
        None \<Rightarrow> Inl (invalid_argument ''End option must be defined'')
      | Some e \<Rightarrow>
          if e > int (gf_length f) then Inl (invalid_argument ''Stream end must not be more than the length of the file'')
          else (case rs_start r of
            None \<Rightarrow> Inl (invalid_argument ''Stream end must not be negative'')
          | Some start \<Rightarrow>
              if start < 0 then Inl (invalid_argument ''Stream end must not be negative'')
              else
                (let last = ceil_div e (int (gf_chunkSize f)); limit = last - start div int (gf_chunkSize f)
                 in Inr (last * int (gf_chunkSize f) - e,
                         r\<lparr>rs_expectedEnd := last, rs_cursor := Some (if limit = 0 then found else take (nat \<bar>limit\<bar>) found)\<rparr>))))"

text \<open>\<open>find({files_id, n: {$gte: skip}}).sort({n: 1})\<close>.\<close>

definition find_chunks :: "gridFSFile \<Rightarrow> int option \<Rightarrow> gridFSChunk list \<Rightarrow> gridFSChunk list" where
  "find_chunks f start chunks =
     (let skip = (case start of Some n \<Rightarrow> n div int (gf_chunkSize f) | None \<Rightarrow> 0)
      in sort_key ch_n (filter (\<lambda>c. ch_files_id c = gf_id f \<and> (skip > 0 \<longrightarrow> int (ch_n c) \<ge> skip)) chunks))"

text \<open>\<open>init\<close> with the reply to the search for the files document.\<close>

definition file_not_found :: mongoError where
  "file_not_found = (mk_error MongoRuntimeError ''FileNotFound: file was not found'')\<lparr>e_code := Some (CodeStr ''ENOENT'')\<rparr>"

definition read_init :: "mongoError + gridFSFile option \<Rightarrow> gridFSChunk list \<Rightarrow> readStream \<Rightarrow> readStream" where
  "read_init reply chunks r0 =
     (let r = r0\<lparr>rs_init := True\<rparr>
      in case reply of
           Inl e \<Rightarrow> read_emit (ReadError e) r
         | Inr None \<Rightarrow> read_emit (ReadError file_not_found) r
         | Inr (Some f) \<Rightarrow>
             if gf_length f = 0 then read_emit ReadEnd r
             else if rs_destroyed r then read_emit ReadClose r
             else (case handleStartOption f r of
               Inl e \<Rightarrow> read_emit (ReadError e) r
             | Inr (skip, r1) \<Rightarrow>
                 (let found = find_chunks f (rs_start r1) chunks;
                      r2 = r1\<lparr>rs_bytesToSkip := skip, rs_cursor := Some found,
                              rs_expectedEnd := ceil_div (int (gf_length f)) (int (gf_chunkSize f)), rs_file := Some f\<rparr>
                  in case handleEndOption f found r2 of
                       Inl e \<Rightarrow> read_emit (ReadError e) r2
                     | Inr (trim, r3) \<Rightarrow> read_emit (ReadFile f) (r3\<lparr>rs_bytesToTrim := trim\<rparr>))))"

definition chunk_error :: "string \<Rightarrow> mongoError" where
  "chunk_error = mk_error MongoGridFSChunkError"

text \<open>
  Where a chunk is cut off; zero is the end of the chunk.  The bytes to skip have just been reset
  when the end option is compared with the length of the chunk.
\<close>

definition slice_end :: "nat \<Rightarrow> int \<Rightarrow> int \<Rightarrow> int option \<Rightarrow> nat \<Rightarrow> int \<Rightarrow> int" where
  "slice_end chunkSize expectedEnd bytesToTrim endOption expectedN n =
     (let atEndOfStream = int expectedN = expectedEnd - 1;
          bytesLeftToRead = (case endOption of Some e \<Rightarrow> e | None \<Rightarrow> 0)
      in if atEndOfStream then int chunkSize - bytesToTrim
         else if bytesLeftToRead \<noteq> 0 \<and> bytesLeftToRead < n then bytesLeftToRead else 0)"

text \<open>\<open>doRead\<close>, with the chunk the cursor answers with.\<close>

definition doRead :: "readStream \<Rightarrow> readStream" where
  "doRead r =
     (case (rs_cursor r, rs_file r) of
        (Some cursor, Some f) \<Rightarrow>
          if rs_destroyed r then r
          else (case cursor of
            [] \<Rightarrow> read_emit ReadClose (read_emit ReadEnd r)
          | c # rest \<Rightarrow>
              (let bytesRemaining = int (gf_length f) - rs_bytesRead r;
                   expectedN = rs_expected r;
                   r1 = r\<lparr>rs_cursor := Some rest, rs_expected := Suc expectedN\<rparr>;
                   expectedLength = min (int (gf_chunkSize f)) bytesRemaining;
                   n = int (length (ch_data c))
               in if ch_n c > expectedN then read_emit (ReadError (chunk_error ''ChunkIsMissing'')) r1
                  else if ch_n c < expectedN then read_emit (ReadError (chunk_error ''ExtraChunk'')) r1
                  else if n \<noteq> expectedLength then
                    read_emit (ReadError (chunk_error (if bytesRemaining \<le> 0 then ''ExtraChunk'' else ''ChunkIsWrongSize''))) r1
                  else
                    (let r2 = r1\<lparr>rs_bytesRead := rs_bytesRead r1 + n\<rparr>
                     in if n = 0 then read_emit ReadEnd r2
                        else
                          (let sliceStart = rs_bytesToSkip r2;
                               sliceEnd = slice_end (gf_chunkSize f) (rs_expectedEnd r2) (rs_bytesToTrim r2) (rs_end r2) expectedN n
                           in read_emit (ReadData (slice (ch_data c) sliceStart (if sliceEnd = 0 then n else sliceEnd)))
                                (r2\<lparr>rs_bytesToSkip := 0\<rparr>)))))
      | _ \<Rightarrow> r)"

text \<open>A reader that reads on until the stream ends or fails.\<close>

definition stopped :: "readStream \<Rightarrow> bool" where
  "stopped r = list_ex (\<lambda>e. case e of ReadEnd \<Rightarrow> True | ReadError _ \<Rightarrow> True | ReadClose \<Rightarrow> True | _ \<Rightarrow> False) (rs_events r)"

fun read_all :: "nat \<Rightarrow> readStream \<Rightarrow> readStream" where
  "read_all 0 r = r"
| "read_all (Suc n) r = (if stopped r then r else read_all n (doRead r))"

definition read_data :: "readStream \<Rightarrow> byte list" where
  "read_data r = concat (map (\<lambda>e. case e of ReadData b \<Rightarrow> b | _ \<Rightarrow> []) (rs_events r))"

definition read_errors :: "readStream \<Rightarrow> mongoError list" where
  "read_errors r = concat (map (\<lambda>e. case e of ReadError x \<Rightarrow> [x] | _ \<Rightarrow> []) (rs_events r))"

section \<open>The bucket\<close>

text \<open>
  \<open>openDownloadStreamByName\<close> searches with a sort on the upload date and a number of files to skip; the
  server sorts the files of that name and skips them.
\<close>

definition revision_query :: "int option \<Rightarrow> int \<times> int option" where
  "revision_query revision =
     (case revision of
        None \<Rightarrow> (-1, None)
      | Some n \<Rightarrow> if n \<ge> 0 then (1, Some n) else (-1, Some (- n - 1)))"

definition find_by_name :: "string \<Rightarrow> int \<times> int option \<Rightarrow> gridFSFile list \<Rightarrow> gridFSFile option" where
  "find_by_name filename query files =
     (case query of (dir, skip) \<Rightarrow>
        (let named = sort_key (\<lambda>f. dir * gf_uploadDate f) (filter (\<lambda>f. gf_filename f = filename) files);
             rest = drop (nat (case skip of Some n \<Rightarrow> n | None \<Rightarrow> 0)) named
         in case rest of [] \<Rightarrow> None | f # _ \<Rightarrow> Some f))"

text \<open>Deleting and renaming, on both collections; the commands may fail.\<close>

definition grid_delete :: "objectId \<Rightarrow> mongoError option \<Rightarrow> mongoError option \<Rightarrow> gridFSFile list \<times> gridFSChunk list
    \<Rightarrow> mongoError option \<times> gridFSFile list \<times> gridFSChunk list" where
  "grid_delete i err1 err2 store =
     (case store of (files, chunks) \<Rightarrow>
        (case err1 of
           Some e \<Rightarrow> (Some e, files, chunks)
         | None \<Rightarrow>
             (let there = list_ex (\<lambda>f. gf_id f = i) files; files1 = filter (\<lambda>f. gf_id f \<noteq> i) files
              in case err2 of
                   Some e \<Rightarrow> (Some e, files1, chunks)
                 | None \<Rightarrow> (if there then None else Some (mk_error MongoRuntimeError ''File not found for id''),
                            files1, filter (\<lambda>c. ch_files_id c \<noteq> i) chunks))))"

definition grid_rename :: "objectId \<Rightarrow> string \<Rightarrow> mongoError option \<Rightarrow> gridFSFile list \<Rightarrow> mongoError option \<times> gridFSFile list" where
  "grid_rename i filename err files =
     (case err of
        Some e \<Rightarrow> (Some e, files)
      | None \<Rightarrow>
          (if list_ex (\<lambda>f. gf_id f = i) files then None else Some (mk_error MongoRuntimeError ''File with id not found''),
           map (\<lambda>f. if gf_id f = i then f\<lparr>gf_filename := filename\<rparr> else f) files))"

definition grid_drop :: "mongoError option \<Rightarrow> mongoError option \<Rightarrow> gridFSFile list \<times> gridFSChunk list
    \<Rightarrow> mongoError option \<times> gridFSFile list \<times> gridFSChunk list" where
  "grid_drop err1 err2 store =
     (case err1 of
        Some e \<Rightarrow> (Some e, store)
      | None \<Rightarrow> (case err2 of Some e \<Rightarrow> (Some e, [], snd store) | None \<Rightarrow> (None, [], [])))"

end
