(* ===== verification/GridFS_Rules.thy ===== *)
theory GridFS_Rules
  imports GridFS
begin

text \<open>
  A file written to GridFS comes back as it was.  The proof follows the buffer of an upload
  (\<open>write_loop_spec\<close>), then the inserts on their way through every interleaving of writes and replies
  (\<open>step_uploading\<close>), then a reader over the chunks (\<open>read_all_data\<close>).
\<close>

section \<open>Filling the buffer\<close>

definition chunk_of :: "nat \<Rightarrow> byte list \<Rightarrow> nat \<Rightarrow> byte list" where
  "chunk_of sz data i = take sz (drop (i * sz) data)"

text \<open>The stream has taken in \<open>D\<close>: whole chunks are out, and the rest is at the front of the buffer.\<close>

definition buffered :: "byte list \<Rightarrow> writeStream \<Rightarrow> bool" where
  "buffered D s =
     (ws_pos s < ws_chunkSizeBytes s \<and> length (ws_bufToStore s) = ws_chunkSizeBytes s
      \<and> length D = ws_n s * ws_chunkSizeBytes s + ws_pos s \<and> take (ws_pos s) (ws_bufToStore s) = drop (ws_n s * ws_chunkSizeBytes s) D)"

lemma copy_into_buffer:
  assumes "pos + length x \<le> length buf"
  shows "length (copy_into x pos buf) = length buf" "take (pos + length x) (copy_into x pos buf) = take pos buf @ x"
  using assms by (auto simp: copy_into_def)

lemma chunk_of_append: "Suc i * sz \<le> length D \<Longrightarrow> chunk_of sz (D @ E) i = chunk_of sz D i"
  by (simp add: chunk_of_def)

declare write_loop.simps [simp del]

lemma write_loop_spec:
  assumes "buffered D s" "write_loop w input s = (k, s')"
  shows "buffered (D @ input) s' \<and> s' = s\<lparr>ws_bufToStore := ws_bufToStore s', ws_pos := ws_pos s', ws_n := ws_n s + k,
      ws_outstandingRequests := ws_outstandingRequests s + k,
      ws_inserts := ws_inserts s @ map (\<lambda>i. ChunkInsert (createChunkDoc (ws_id s) i (chunk_of (ws_chunkSizeBytes s) (D @ input) i)) w) [ws_n s..<ws_n s + k]\<rparr>"
  using assms
proof (induction w input s arbitrary: D k s' rule: write_loop.induct)
  case (1 w input s)
  show ?case
  proof (cases "input = []")
    case True
    then show ?thesis using "1.prems" by (simp add: write_loop.simps)
  next
    case False
    have b: "ws_pos s < ws_chunkSizeBytes s" "length (ws_bufToStore s) = ws_chunkSizeBytes s"
      "length D = ws_n s * ws_chunkSizeBytes s + ws_pos s" "take (ws_pos s) (ws_bufToStore s) = drop (ws_n s * ws_chunkSizeBytes s) D"
      using "1.prems"(1) by (simp_all add: buffered_def)
    then have go: "\<not> (input = [] \<or> ws_chunkSizeBytes s \<le> ws_pos s)" using False by simp
    define m where "m = min (ws_chunkSizeBytes s - ws_pos s) (length input)"
    define s1 where "s1 = s\<lparr>ws_bufToStore := copy_into (take m input) (ws_pos s) (ws_bufToStore s), ws_pos := ws_pos s + m\<rparr>"
    have ml: "length (take m input) = m" "ws_pos s + m \<le> ws_chunkSizeBytes s" using b(1) by (simp_all add: m_def)
    note cb = copy_into_buffer [of "ws_pos s" "take m input" "ws_bufToStore s", unfolded ml, OF ml(2) [folded b(2)]]
    have dd: "D @ input = (D @ take m input) @ drop m input" by simp
    have front: "take (ws_pos s + m) (ws_bufToStore s1) = drop (ws_n s * ws_chunkSizeBytes s) (D @ take m input)"
      using cb(2) b(3,4) by (simp add: s1_def)
    show ?thesis
    proof (cases "ws_pos s1 = ws_chunkSizeBytes s1")
      case full: True
      define s2 where "s2 = send (ChunkInsert (createChunkDoc (ws_id s1) (ws_n s1) (ws_bufToStore s1)) w) (s1\<lparr>ws_outstandingRequests := Suc (ws_outstandingRequests s1)\<rparr>)"
      define s3 where "s3 = s2\<lparr>ws_pos := 0, ws_n := Suc (ws_n s2)\<rparr>"
      have whole: "ws_bufToStore s1 = drop (ws_n s * ws_chunkSizeBytes s) (D @ take m input)"
        using front full cb(1) b(2) by (simp add: s1_def)
      have len: "length (D @ take m input) = Suc (ws_n s) * ws_chunkSizeBytes s" using b(3) full ml(1) by (simp add: s1_def)
      have b3: "buffered (D @ take m input) s3" using b(1) cb(1) b(2) len
        by (simp add: buffered_def s3_def s2_def s1_def send_def)
      obtain k1 where k1: "write_loop w (drop m input) s3 = (k1, s')" "k = Suc k1"
        using "1.prems"(2) go full by (auto simp: write_loop.simps [of w input s] Let_def s3_def s2_def s1_def m_def split: prod.splits)
      have ih: "buffered ((D @ take m input) @ drop m input) s' \<and> s' = s3\<lparr>ws_bufToStore := ws_bufToStore s', ws_pos := ws_pos s', ws_n := ws_n s3 + k1,
          ws_outstandingRequests := ws_outstandingRequests s3 + k1,
          ws_inserts := ws_inserts s3 @ map (\<lambda>i. ChunkInsert (createChunkDoc (ws_id s3) i (chunk_of (ws_chunkSizeBytes s3) ((D @ take m input) @ drop m input) i)) w) [ws_n s3..<ws_n s3 + k1]\<rparr>"
        using "1.IH"(1) [OF go m_def s1_def full s2_def b3 [unfolded s3_def] k1(1) [unfolded s3_def]] unfolding s3_def .
      have "chunk_of (ws_chunkSizeBytes s) (D @ input) (ws_n s) = chunk_of (ws_chunkSizeBytes s) (D @ take m input) (ws_n s)"
        unfolding dd by (rule chunk_of_append) (simp only: len)
      also have "\<dots> = drop (ws_n s * ws_chunkSizeBytes s) (D @ take m input)"
        unfolding chunk_of_def using len by (intro take_all) (simp only: length_drop len mult_Suc)
      finally have ch: "ws_bufToStore s1 = chunk_of (ws_chunkSizeBytes s) (D @ input) (ws_n s)" using whole by simp
      have up: "[ws_n s..<ws_n s + Suc k1] = ws_n s # [Suc (ws_n s)..<Suc (ws_n s) + k1]" by (simp add: upt_rec)
      have f3: "ws_n s3 = Suc (ws_n s)" "ws_id s3 = ws_id s" "ws_chunkSizeBytes s3 = ws_chunkSizeBytes s" "ws_outstandingRequests s3 = Suc (ws_outstandingRequests s)"
        "ws_inserts s3 = ws_inserts s @ [ChunkInsert (createChunkDoc (ws_id s) (ws_n s) (ws_bufToStore s1)) w]"
        by (simp_all add: s3_def s2_def s1_def send_def)
      show ?thesis
      proof
        show "buffered (D @ input) s'" using ih by (simp only: dd)
        show "s' = s\<lparr>ws_bufToStore := ws_bufToStore s', ws_pos := ws_pos s', ws_n := ws_n s + k, ws_outstandingRequests := ws_outstandingRequests s + k,
           ws_inserts := ws_inserts s @ map (\<lambda>i. ChunkInsert (createChunkDoc (ws_id s) i (chunk_of (ws_chunkSizeBytes s) (D @ input) i)) w) [ws_n s..<ws_n s + k]\<rparr>"
          using conjunct2 [OF ih] unfolding k1(2) up f3 append_assoc append_take_drop_id ch
          by (simp add: s3_def s2_def s1_def send_def)
      qed
    next
      case False
      have b1: "buffered (D @ take m input) s1"
        unfolding buffered_def using False b cb(1) front ml by (simp add: s1_def)
      have k1: "write_loop w (drop m input) s1 = (k, s')"
        using "1.prems"(2) go False by (simp add: write_loop.simps [of w input s] Let_def s1_def m_def)
      have ih: "buffered ((D @ take m input) @ drop m input) s' \<and> s' = s1\<lparr>ws_bufToStore := ws_bufToStore s', ws_pos := ws_pos s', ws_n := ws_n s1 + k,
          ws_outstandingRequests := ws_outstandingRequests s1 + k,
          ws_inserts := ws_inserts s1 @ map (\<lambda>i. ChunkInsert (createChunkDoc (ws_id s1) i (chunk_of (ws_chunkSizeBytes s1) ((D @ take m input) @ drop m input) i)) w) [ws_n s1..<ws_n s1 + k]\<rparr>"
        by (rule "1.IH"(2) [OF go m_def s1_def False b1 k1])
      then show ?thesis unfolding dd [symmetric] by (simp add: s1_def)
    qed
  qed
qed

section \<open>Inserts on their way\<close>

fun chunk_insert :: "gridInsert \<Rightarrow> gridFSChunk list" where
  "chunk_insert (ChunkInsert c w) = [c]"
| "chunk_insert (RemnantInsert c) = [c]"
| "chunk_insert (FileInsert f cb) = []"

fun file_insert :: "gridInsert \<Rightarrow> gridFSFile list" where
  "file_insert (FileInsert f cb) = [f]"
| "file_insert _ = []"

definition pending_chunks :: "gridInsert list \<Rightarrow> gridFSChunk list" where
  "pending_chunks xs = concat (map chunk_insert xs)"

definition pending_files :: "gridInsert list \<Rightarrow> gridFSFile list" where
  "pending_files xs = concat (map file_insert xs)"

definition of_write :: "nat \<Rightarrow> gridInsert \<Rightarrow> bool" where
  "of_write w i = (case i of ChunkInsert c v \<Rightarrow> v = w | _ \<Rightarrow> False)"

definition out_of_write :: "nat \<Rightarrow> gridInsert list \<Rightarrow> nat" where
  "out_of_write w xs = length (filter (of_write w) xs)"

lemma pending_simps [simp]:
  "pending_chunks (xs @ ys) = pending_chunks xs @ pending_chunks ys" "pending_files (xs @ ys) = pending_files xs @ pending_files ys"
  "out_of_write w (xs @ ys) = out_of_write w xs + out_of_write w ys"
  "pending_chunks [] = []" "pending_files [] = []" "out_of_write w [] = 0"
  "pending_chunks [i] = chunk_insert i" "pending_files [i] = file_insert i" "out_of_write w [i] = (if of_write w i then 1 else 0)"
  by (simp_all add: pending_chunks_def pending_files_def out_of_write_def)

lemma pending_map_chunks [simp]:
  "pending_chunks (map (\<lambda>i. ChunkInsert (f i) w) is) = map f is" "pending_files (map (\<lambda>i. ChunkInsert (f i) w) is) = []"
  "out_of_write v (map (\<lambda>i. ChunkInsert (f i) w) is) = (if v = w then length is else 0)"
  by (induction "is") (simp_all add: pending_chunks_def pending_files_def out_of_write_def of_write_def)

lemma taken_insert:
  assumes "n < length xs"
  shows "mset (pending_chunks xs) = mset (chunk_insert (xs ! n)) + mset (pending_chunks (remove_at n xs))"
    "file_insert (xs ! n) = [] \<Longrightarrow> pending_files (remove_at n xs) = pending_files xs"
    "pending_files xs = [f] \<Longrightarrow> file_insert (xs ! n) = [g] \<Longrightarrow> g = f \<and> pending_files (remove_at n xs) = []"
    "out_of_write w xs = (if of_write w (xs ! n) then 1 else 0) + out_of_write w (remove_at n xs)"
    "length (pending_chunks xs) = length (chunk_insert (xs ! n)) + length (pending_chunks (remove_at n xs))"
    "set (remove_at n xs) \<subseteq> set xs"
proof -
  have x: "xs = take n xs @ [xs ! n] @ drop (Suc n) xs" using id_take_nth_drop [OF assms] by simp
  have p: "pending_chunks xs = pending_chunks (take n xs) @ chunk_insert (xs ! n) @ pending_chunks (drop (Suc n) xs)"
    and f: "pending_files xs = pending_files (take n xs) @ file_insert (xs ! n) @ pending_files (drop (Suc n) xs)"
    and w: "out_of_write w xs = out_of_write w (take n xs) + ((if of_write w (xs ! n) then 1 else 0) + out_of_write w (drop (Suc n) xs))"
    by (subst x, simp only: pending_simps)+
  show "mset (pending_chunks xs) = mset (chunk_insert (xs ! n)) + mset (pending_chunks (remove_at n xs))"
    "length (pending_chunks xs) = length (chunk_insert (xs ! n)) + length (pending_chunks (remove_at n xs))"
    by (simp_all add: p remove_at_def)
  show "file_insert (xs ! n) = [] \<Longrightarrow> pending_files (remove_at n xs) = pending_files xs"
    "pending_files xs = [f] \<Longrightarrow> file_insert (xs ! n) = [g] \<Longrightarrow> g = f \<and> pending_files (remove_at n xs) = []"
    by (auto simp: f remove_at_def append_eq_Cons_conv)
  show "out_of_write w xs = (if of_write w (xs ! n) then 1 else 0) + out_of_write w (remove_at n xs)"
    by (simp add: w remove_at_def)
  show "set (remove_at n xs) \<subseteq> set xs" by (auto simp: remove_at_def dest: in_set_takeD in_set_dropD)
qed

section \<open>What an upload keeps\<close>

definition chunk_docs :: "objectId \<Rightarrow> nat \<Rightarrow> byte list \<Rightarrow> nat \<Rightarrow> gridFSChunk list" where
  "chunk_docs i sz D k = map (\<lambda>j. createChunkDoc i j (chunk_of sz D j)) [0..<k]"

text \<open>
  Every chunk of \<open>D\<close> is stored or on its way, exactly once, and the counters say how many are on their way;
  \<open>rem\<close> says whether the last, incomplete one was sent.
\<close>

definition core :: "byte list \<Rightarrow> bool \<Rightarrow> writeStream \<Rightarrow> bool" where
  "core D rem s =
     (buffered D s \<and> ws_length s = length D \<and> \<not> ws_errored s \<and> \<not> ws_aborted s
      \<and> mset (ws_chunks s) + mset (pending_chunks (ws_inserts s)) = mset (chunk_docs (ws_id s) (ws_chunkSizeBytes s) D (ws_n s + (if rem then 1 else 0)))
      \<and> ws_outstandingRequests s = length (pending_chunks (ws_inserts s))
      \<and> (\<forall>w < length (ws_writes s). fst (ws_writes s ! w) = out_of_write w (ws_inserts s))
      \<and> (\<forall>c w. ChunkInsert c w \<in> set (ws_inserts s) \<longrightarrow> w < length (ws_writes s))
      \<and> (\<forall>c. RemnantInsert c \<in> set (ws_inserts s) \<longrightarrow> rem))"

definition no_file :: "writeStream \<Rightarrow> bool" where
  "no_file s = (ws_files s = [] \<and> \<not> ws_done s \<and> pending_files (ws_inserts s) = [])"

lemma chunk_docs_append:
  assumes "k * sz \<le> length D" shows "chunk_docs i sz (D @ E) k = chunk_docs i sz D k"
proof -
  have "Suc j * sz \<le> length D" if "j < k" for j using that assms mult_le_mono1 [of "Suc j" k sz] by simp
  then show ?thesis by (auto simp: chunk_docs_def chunk_of_append)
qed

lemma chunk_docs_add: "chunk_docs i sz D (n + k) = chunk_docs i sz D n @ map (\<lambda>j. createChunkDoc i j (chunk_of sz D j)) [n..<n + k]"
  by (simp add: chunk_docs_def upt_add_eq_append [of 0 n k] flip: map_append)

text \<open>Data that fits into the buffer.\<close>

lemma core_small:
  assumes c: "core D False s" and l: "ws_pos s + length input < ws_chunkSizeBytes s"
  defines "s' \<equiv> s\<lparr>ws_length := ws_length s + length input, ws_bufToStore := copy_into input (ws_pos s) (ws_bufToStore s), ws_pos := ws_pos s + length input\<rparr>"
  shows "core (D @ input) False s'"
proof -
  have b: "buffered D s" using c by (simp add: core_def)
  have "buffered (D @ input) s'" using b l copy_into_buffer [of "ws_pos s" input "ws_bufToStore s"]
    by (auto simp: buffered_def s'_def)
  moreover have "ws_n s * ws_chunkSizeBytes s \<le> length D" using b by (simp add: buffered_def)
  ultimately show ?thesis using c by (simp add: core_def s'_def chunk_docs_append)
qed

text \<open>Data that fills it.\<close>

lemma core_flush:
  assumes c: "core D False s" and l: "\<not> ws_pos s + length input < ws_chunkSizeBytes s"
    and r: "write_loop (length (ws_writes s)) input (s\<lparr>ws_length := ws_length s + length input\<rparr>) = (k, s2)"
  shows "core (D @ input) False (s2\<lparr>ws_writes := ws_writes s2 @ [(k, cb)]\<rparr>)" "k > 0" "no_file s \<Longrightarrow> no_file s2"
    "ws_writes s2 = ws_writes s" "ws_streamEnd s2 = ws_streamEnd s" "ws_checkedIndexes s2 = ws_checkedIndexes s" "ws_waiting s2 = ws_waiting s"
    "ws_id s2 = ws_id s" "ws_chunkSizeBytes s2 = ws_chunkSizeBytes s" "ws_filename s2 = ws_filename s"
proof -
  let ?s = "s\<lparr>ws_length := ws_length s + length input\<rparr>"
  have b: "buffered D ?s" using c by (simp add: core_def buffered_def)
  note w = write_loop_spec [OF b r]
  let ?f = "\<lambda>i. createChunkDoc (ws_id s) i (chunk_of (ws_chunkSizeBytes s) (D @ input) i)"
  have f: "ws_writes s2 = ws_writes s" "ws_streamEnd s2 = ws_streamEnd s" "ws_checkedIndexes s2 = ws_checkedIndexes s" "ws_waiting s2 = ws_waiting s"
    "ws_id s2 = ws_id s" "ws_chunkSizeBytes s2 = ws_chunkSizeBytes s" "ws_length s2 = ws_length s + length input" "ws_errored s2 = ws_errored s"
    "ws_aborted s2 = ws_aborted s" "ws_files s2 = ws_files s" "ws_done s2 = ws_done s" "ws_chunks s2 = ws_chunks s" "ws_n s2 = ws_n s + k"
    "ws_outstandingRequests s2 = ws_outstandingRequests s + k" "ws_filename s2 = ws_filename s"
    and i: "ws_inserts s2 = ws_inserts s @ map (\<lambda>i. ChunkInsert (?f i) (length (ws_writes s))) [ws_n s..<ws_n s + k]"
    by (subst conjunct2 [OF w], simp)+
  show "ws_writes s2 = ws_writes s" "ws_streamEnd s2 = ws_streamEnd s" "ws_checkedIndexes s2 = ws_checkedIndexes s" "ws_waiting s2 = ws_waiting s"
    "ws_id s2 = ws_id s" "ws_chunkSizeBytes s2 = ws_chunkSizeBytes s" "ws_filename s2 = ws_filename s" by (fact f)+
  show "no_file s \<Longrightarrow> no_file s2" by (simp add: no_file_def f i)
  have b2: "buffered (D @ input) s2" using w by simp
  show "k > 0"
  proof (rule ccontr)
    assume "\<not> k > 0"
    then have "length D + length input = ws_n s * ws_chunkSizeBytes s + ws_pos s2" "ws_pos s2 < ws_chunkSizeBytes s"
      using b2 f by (simp_all add: buffered_def)
    moreover have "length D = ws_n s * ws_chunkSizeBytes s + ws_pos s" using b by (simp add: buffered_def)
    ultimately show False using l by simp
  qed
  have nd: "ws_n s * ws_chunkSizeBytes s \<le> length D" using b by (simp add: buffered_def)
  have none: "out_of_write (length (ws_writes s)) (ws_inserts s) = 0"
    using c by (fastforce simp: core_def out_of_write_def of_write_def filter_empty_conv split: gridInsert.splits)
  show "core (D @ input) False (s2\<lparr>ws_writes := ws_writes s2 @ [(k, cb)]\<rparr>)"
    using c b2 none unfolding core_def
    by (auto simp: f i chunk_docs_add chunk_docs_append [OF nd] nth_append less_Suc_eq buffered_def add.assoc [symmetric])
qed

section \<open>From the first write to the files document\<close>

text \<open>The fields that say who the stream is.\<close>

definition same_stream :: "writeStream \<Rightarrow> writeStream \<Rightarrow> bool" where
  "same_stream s s' = (ws_id s' = ws_id s \<and> ws_chunkSizeBytes s' = ws_chunkSizeBytes s \<and> ws_filename s' = ws_filename s)"

definition calm :: "writeStream \<Rightarrow> bool" where
  "calm s = (no_file s \<and> (\<forall>x \<in> set (ws_writes s). snd x = NoCallback))"

text \<open>Between \<open>end\<close> and its last write.\<close>

definition closing :: "byte list \<Rightarrow> writeStream \<Rightarrow> bool" where
  "closing D s =
     (core D False s \<and> no_file s \<and> ws_streamEnd s
      \<and> (\<exists>w < length (ws_writes s). snd (ws_writes s ! w) = RemnantCallback \<and> fst (ws_writes s ! w) > 0
          \<and> (\<forall>v < length (ws_writes s). v \<noteq> w \<longrightarrow> snd (ws_writes s ! v) = NoCallback)))"

definition settled :: "writeStream \<Rightarrow> bool" where
  "settled s = (\<forall>x \<in> set (ws_writes s). snd x = NoCallback \<or> snd x = RemnantCallback \<and> fst x = 0)"

definition filed :: "byte list \<Rightarrow> writeStream \<Rightarrow> bool" where
  "filed D s =
     (if ws_done s
      then ws_outstandingRequests s = 0 \<and> (\<exists>f. ws_files s @ pending_files (ws_inserts s) = [f] \<and> gf_id f = ws_id s \<and> gf_length f = length D
             \<and> gf_chunkSize f = ws_chunkSizeBytes s \<and> gf_filename f = ws_filename s)
      else no_file s \<and> ws_outstandingRequests s > 0)"

definition closed :: "byte list \<Rightarrow> writeStream \<Rightarrow> bool" where
  "closed D s = (core D (ws_pos s > 0) s \<and> ws_streamEnd s \<and> settled s \<and> filed D s)"

lemma checkDone_closed:
  assumes "core D (ws_pos s > 0) s" "ws_streamEnd s" "settled s" "no_file s"
  shows "closed D (checkDone NoCallback s)"
  using assms by (auto simp: closed_def checkDone_def filed_def no_file_def settled_def core_def buffered_def send_def createFilesDoc_def of_write_def Let_def)

lemma checkDone_same [simp]:
  "ws_checkedIndexes (checkDone cb s) = ws_checkedIndexes s" "ws_waiting (checkDone cb s) = ws_waiting s" "same_stream s (checkDone cb s)"
  by (cases cb; simp add: checkDone_def send_def call_user_def grid_emit_def same_stream_def Let_def)+

lemma writeRemnant_same [simp]:
  "ws_checkedIndexes (writeRemnant s) = ws_checkedIndexes s" "ws_waiting (writeRemnant s) = ws_waiting s" "same_stream s (writeRemnant s)"
  by (simp_all add: writeRemnant_def send_def Let_def) (simp_all add: same_stream_def)

lemma writeRemnant_closed:
  assumes c: "core D False s" and r: "ws_streamEnd s" "settled s" "no_file s"
  shows "closed D (writeRemnant s)"
proof (cases "ws_pos s = 0")
  case True
  then show ?thesis using checkDone_closed [of D s] assms by (simp add: writeRemnant_def)
next
  case False
  have "chunk_of (ws_chunkSizeBytes s) D (ws_n s) = take (ws_pos s) (ws_bufToStore s)"
    using c by (simp add: core_def buffered_def chunk_of_def)
  then have "core D True (writeRemnant s)" using c False
    by (auto simp: core_def writeRemnant_def send_def Let_def of_write_def buffered_def chunk_docs_def)
  then show ?thesis using r c False
    by (simp add: closed_def writeRemnant_def send_def Let_def filed_def no_file_def settled_def core_def)
qed

lemma doWrite_plain:
  assumes c: "core D False s" "calm s"
  shows "core (D @ input) False (doWrite input NoCallback s) \<and> calm (doWrite input NoCallback s)
     \<and> ws_streamEnd (doWrite input NoCallback s) = ws_streamEnd s \<and> ws_checkedIndexes (doWrite input NoCallback s) = ws_checkedIndexes s
     \<and> ws_waiting (doWrite input NoCallback s) = ws_waiting s \<and> same_stream s (doWrite input NoCallback s)"
proof (cases "ws_pos s + length input < ws_chunkSizeBytes s")
  case True
  let ?s = "s\<lparr>ws_length := ws_length s + length input, ws_bufToStore := copy_into input (ws_pos s) (ws_bufToStore s), ws_pos := ws_pos s + length input\<rparr>"
  have d: "doWrite input NoCallback s = ?s" using True c(1) by (simp add: doWrite_def core_def run_callback_def call_user_def Let_def)
  show ?thesis unfolding d using core_small [OF c(1) True] c(2) by (simp add: calm_def no_file_def same_stream_def)
next
  case False
  obtain k s2 where r: "write_loop (length (ws_writes s)) input (s\<lparr>ws_length := ws_length s + length input\<rparr>) = (k, s2)" by fastforce
  note f = core_flush [OF c(1) False r]
  have d: "doWrite input NoCallback s = s2\<lparr>ws_writes := ws_writes s2 @ [(k, NoCallback)]\<rparr>" using False r c(1)
    by (simp add: doWrite_def core_def Let_def)
  show ?thesis unfolding d using f c(2) by (auto simp: calm_def no_file_def same_stream_def)
qed

lemma calm_settled: "calm s \<Longrightarrow> settled s" by (simp add: calm_def settled_def)

lemma doWrite_last:
  assumes c: "core D False s" "calm s" "ws_streamEnd s"
  shows "(closing (D @ input) (doWrite input RemnantCallback s) \<or> closed (D @ input) (doWrite input RemnantCallback s))
     \<and> ws_checkedIndexes (doWrite input RemnantCallback s) = ws_checkedIndexes s
     \<and> ws_waiting (doWrite input RemnantCallback s) = ws_waiting s \<and> same_stream s (doWrite input RemnantCallback s)"
proof (cases "ws_pos s + length input < ws_chunkSizeBytes s")
  case True
  let ?s = "s\<lparr>ws_length := ws_length s + length input, ws_bufToStore := copy_into input (ws_pos s) (ws_bufToStore s), ws_pos := ws_pos s + length input\<rparr>"
  have d: "doWrite input RemnantCallback s = writeRemnant ?s" using True c(1) by (simp add: doWrite_def core_def run_callback_def Let_def)
  have "closed (D @ input) (writeRemnant ?s)"
    by (rule writeRemnant_closed [OF core_small [OF c(1) True]]) (use c in \<open>simp_all add: calm_def settled_def no_file_def\<close>)
  moreover have "same_stream s (writeRemnant ?s)" using writeRemnant_same(3) [of ?s] by (simp add: same_stream_def)
  ultimately show ?thesis unfolding d by simp
next
  case False
  obtain k s2 where r: "write_loop (length (ws_writes s)) input (s\<lparr>ws_length := ws_length s + length input\<rparr>) = (k, s2)" by fastforce
  note f = core_flush [OF c(1) False r]
  let ?s = "s2\<lparr>ws_writes := ws_writes s2 @ [(k, RemnantCallback)]\<rparr>"
  have d: "doWrite input RemnantCallback s = ?s" using False r c(1) by (simp add: doWrite_def core_def Let_def)
  have "closing (D @ input) ?s" unfolding closing_def
  proof (intro conjI exI [of _ "length (ws_writes s)"])
    show "no_file ?s" using f(3) c(2) by (simp add: calm_def no_file_def)
    show "\<forall>v < length (ws_writes ?s). v \<noteq> length (ws_writes s) \<longrightarrow> snd (ws_writes ?s ! v) = NoCallback"
      using c(2) f(4) by (auto simp: calm_def nth_append less_Suc_eq)
  qed (use f c(3) in \<open>simp_all add: nth_append\<close>)
  then show ?thesis unfolding d using f by (simp add: same_stream_def)
qed

text \<open>An insert comes back.\<close>

lemma core_chunk_stored:
  assumes c: "core D rem s" and n: "n < length (ws_inserts s)" "ws_inserts s ! n = ChunkInsert x w"
    and s': "s' = s\<lparr>ws_inserts := remove_at n (ws_inserts s), ws_chunks := ws_chunks s @ [x], ws_outstandingRequests := ws_outstandingRequests s - 1,
       ws_writes := (ws_writes s)[w := (fst (ws_writes s ! w) - 1, snd (ws_writes s ! w))]\<rparr>"
  shows "core D rem s'" "w < length (ws_writes s)" "fst (ws_writes s ! w) > 0"
proof -
  have m: "ChunkInsert x w \<in> set (ws_inserts s)" using n nth_mem by metis
  then show w: "w < length (ws_writes s)" using c by (auto simp: core_def)
  note t = taken_insert [OF n(1)]
  have o: "out_of_write v (ws_inserts s) = (if v = w then 1 else 0) + out_of_write v (remove_at n (ws_inserts s))" for v
    using t(4) [of v] n(2) by (auto simp: of_write_def)
  show "fst (ws_writes s ! w) > 0" using c w o [of w] by (simp add: core_def)
  show "core D rem s'" using c t(1,5,6) n(2) o w unfolding core_def s'
    by (auto simp: buffered_def nth_list_update)
qed

lemma core_remnant_stored:
  assumes c: "core D rem s" and n: "n < length (ws_inserts s)" "ws_inserts s ! n = RemnantInsert x"
    and s': "s' = s\<lparr>ws_inserts := remove_at n (ws_inserts s), ws_chunks := ws_chunks s @ [x], ws_outstandingRequests := ws_outstandingRequests s - 1\<rparr>"
  shows "core D rem s'"
proof -
  note t = taken_insert [OF n(1)]
  have o: "out_of_write v (ws_inserts s) = out_of_write v (remove_at n (ws_inserts s))" for v
    using t(4) [of v] n(2) by (auto simp: of_write_def)
  show ?thesis using c t(1,5,6) n(2) o unfolding core_def s' by (auto simp: buffered_def)
qed

lemma core_file_stored:
  assumes c: "core D rem s" and n: "n < length (ws_inserts s)" "ws_inserts s ! n = FileInsert f cb"
  shows "core D rem (s\<lparr>ws_inserts := remove_at n (ws_inserts s), ws_files := ws_files s @ [f], ws_events := ev\<rparr>)"
proof -
  note t = taken_insert [OF n(1)]
  have o: "out_of_write v (ws_inserts s) = out_of_write v (remove_at n (ws_inserts s))" for v
    using t(4) [of v] n(2) by (auto simp: of_write_def)
  show ?thesis using c t(1,5,6) n(2) o unfolding core_def by (auto simp: buffered_def)
qed

lemma out_pending: "out_of_write w xs > 0 \<Longrightarrow> pending_chunks xs \<noteq> []"
  by (induction xs) (auto simp: out_of_write_def pending_chunks_def of_write_def split: gridInsert.splits if_splits)

text \<open>A callback of a chunk, in each phase of an upload.\<close>

lemma chunk_reply:
  assumes n: "n < length (ws_inserts s)" "ws_inserts s ! n = ChunkInsert x w"
  shows "inserted (ws_inserts s ! n) None (s\<lparr>ws_inserts := remove_at n (ws_inserts s)\<rparr>)
     = (let s2 = s\<lparr>ws_inserts := remove_at n (ws_inserts s), ws_chunks := ws_chunks s @ [x], ws_outstandingRequests := ws_outstandingRequests s - 1,
           ws_writes := (ws_writes s)[w := (fst (ws_writes s ! w) - 1, snd (ws_writes s ! w))]\<rparr>
        in if fst (ws_writes s ! w) - 1 = 0 then checkDone NoCallback (run_callback (snd (ws_writes s ! w)) None (grid_emit (Drain x) s2)) else s2)"
  by (simp add: inserted_def n Let_def split: prod.split)

lemma emit_same [simp]: "core D rem (grid_emit e s) = core D rem s" "no_file (grid_emit e s) = no_file s" "settled (grid_emit e s) = settled s"
  "calm (grid_emit e s) = calm s" "same_stream s0 (grid_emit e s) = same_stream s0 s"
  by (simp_all add: core_def no_file_def settled_def calm_def grid_emit_def buffered_def same_stream_def)

lemma grid_emit_fields [simp]:
  "ws_streamEnd (grid_emit e s) = ws_streamEnd s" "ws_pos (grid_emit e s) = ws_pos s" "ws_checkedIndexes (grid_emit e s) = ws_checkedIndexes s"
  "ws_waiting (grid_emit e s) = ws_waiting s" "ws_done (grid_emit e s) = ws_done s"
  by (simp_all add: grid_emit_def)

lemma same_stream_trans: "same_stream a b \<Longrightarrow> same_stream b c \<Longrightarrow> same_stream a c" by (simp add: same_stream_def)

lemma closed_done: "closed D s \<Longrightarrow> ws_done s \<Longrightarrow> checkDone NoCallback s = s" by (simp add: checkDone_def)

lemma closed_checkDone: "closed D s \<Longrightarrow> closed D (checkDone NoCallback s)"
  using checkDone_closed [of D s] closed_done [of D s] by (cases "ws_done s") (auto simp: closed_def filed_def)

text \<open>The phases together.\<close>

fun waiting_input :: "gridWaiting \<Rightarrow> byte list" where
  "waiting_input (WaitWrite input cb) = input"
| "waiting_input WaitRemnant = []"

definition plain_wait :: "gridWaiting \<Rightarrow> bool" where
  "plain_wait w = (case w of WaitWrite input cb \<Rightarrow> cb = NoCallback | WaitRemnant \<Rightarrow> False)"

definition last_wait :: "gridWaiting \<Rightarrow> bool" where
  "last_wait w = (case w of WaitWrite input cb \<Rightarrow> cb = RemnantCallback | WaitRemnant \<Rightarrow> True)"

definition waits :: "bool \<Rightarrow> gridWaiting list \<Rightarrow> bool" where
  "waits ended ws = (if ended then ws \<noteq> [] \<and> list_all plain_wait (butlast ws) \<and> last_wait (last ws) else list_all plain_wait ws)"

definition uploading :: "byte list \<Rightarrow> writeStream \<Rightarrow> bool" where
  "uploading T s =
     (if \<not> ws_checkedIndexes s
      then core [] False s \<and> calm s \<and> ws_inserts s = [] \<and> concat (map waiting_input (ws_waiting s)) = T \<and> waits (ws_streamEnd s) (ws_waiting s)
      else ws_waiting s = [] \<and> (core T False s \<and> calm s \<and> \<not> ws_streamEnd s \<or> closing T s \<or> closed T s))"

lemma chunk_reply_keeps:
  assumes u: "uploading T s" and n: "n < length (ws_inserts s)" "ws_inserts s ! n = ChunkInsert x w"
  shows "uploading T (inserted (ws_inserts s ! n) None (s\<lparr>ws_inserts := remove_at n (ws_inserts s)\<rparr>))"
proof -
  define s2 where "s2 = s\<lparr>ws_inserts := remove_at n (ws_inserts s), ws_chunks := ws_chunks s @ [x], ws_outstandingRequests := ws_outstandingRequests s - 1,
     ws_writes := (ws_writes s)[w := (fst (ws_writes s ! w) - 1, snd (ws_writes s ! w))]\<rparr>"
  let ?out = "inserted (ws_inserts s ! n) None (s\<lparr>ws_inserts := remove_at n (ws_inserts s)\<rparr>)"
  have out: "?out = (if fst (ws_writes s ! w) - 1 = 0 then checkDone NoCallback (run_callback (snd (ws_writes s ! w)) None (grid_emit (Drain x) s2)) else s2)"
    unfolding chunk_reply [OF n] s2_def Let_def ..
  have ck: "ws_checkedIndexes s" "ws_waiting s = []" using u n by (auto simp: uploading_def split: if_splits)
  note f = core_chunk_stored [OF _ n s2_def]
  have nf: "no_file s2" if "no_file s" using that taken_insert(2) [OF n(1)] n(2) by (simp add: no_file_def s2_def)
  have fl: "ws_checkedIndexes s2" "ws_waiting s2 = []" "ws_streamEnd s2 = ws_streamEnd s" "ws_pos s2 = ws_pos s" "ws_done s2 = ws_done s"
    using ck by (simp_all add: s2_def)
  consider (open1) "core T False s" "calm s" "\<not> ws_streamEnd s" | (closing) "closing T s" | (closed) "closed T s"
    using u ck by (auto simp: uploading_def)
  then show ?thesis
  proof cases
    case open1
    have w: "w < length (ws_writes s)" by (rule f(2) [OF open1(1)])
    have nc: "snd (ws_writes s ! w) = NoCallback" using open1(2) w by (simp add: calm_def)
    have cm: "calm s2" using open1(2) nf nc w by (auto simp: calm_def s2_def dest: set_update_subset_insert [THEN subsetD])
    have "core T False s2" by (rule f(1) [OF open1(1)])
    then have "core T False ?out \<and> calm ?out \<and> \<not> ws_streamEnd ?out \<and> ws_checkedIndexes ?out \<and> ws_waiting ?out = []"
      unfolding out nc using cm open1(3) fl by (simp add: run_callback_def call_user_def checkDone_def)
    then show ?thesis by (simp add: uploading_def)
  next
    case closing
    then obtain v where v: "v < length (ws_writes s)" "snd (ws_writes s ! v) = RemnantCallback" "fst (ws_writes s ! v) > 0"
        "\<forall>u < length (ws_writes s). u \<noteq> v \<longrightarrow> snd (ws_writes s ! u) = NoCallback" and c: "core T False s" "no_file s" "ws_streamEnd s"
      by (auto simp: closing_def)
    have w: "w < length (ws_writes s)" "fst (ws_writes s ! w) > 0" by (rule f(2,3) [OF c(1)])+
    have c2: "core T False s2" "no_file s2" using f(1) [OF c(1)] nf c(2) by simp_all
    have stay: "closing T s2" if "\<not> (v = w \<and> fst (ws_writes s ! w) - 1 = 0)" unfolding closing_def
      using c2 fl c(3) v w that by (intro conjI exI [of _ v]) (auto simp: s2_def nth_list_update)
    show ?thesis
    proof (cases "v = w \<and> fst (ws_writes s ! w) - 1 = 0")
      case True
      have st: "settled s2" using v w True by (simp add: settled_def s2_def all_set_conv_all_nth nth_list_update)
      have "closed T (writeRemnant (grid_emit (Drain x) s2))" by (rule writeRemnant_closed) (use c2 st fl c(3) in simp_all)
      from closed_checkDone [OF this] True v(2) show ?thesis unfolding out using fl by (simp add: run_callback_def uploading_def)
    next
      case False
      then have "?out = s2 \<or> (\<exists>e. ?out = checkDone NoCallback (grid_emit e s2)) \<and> v \<noteq> w"
        unfolding out using v w by (auto simp: run_callback_def call_user_def)
      moreover have "closing T (grid_emit e s2)" for e using stay [OF False] by (simp add: closing_def) (simp add: grid_emit_def)
      moreover have "checkDone NoCallback y = y" if "closing T y" for y
      proof -
        obtain u where "u < length (ws_writes y)" "fst (ws_writes y ! u) > 0" "core T False y" using \<open>closing T y\<close> by (auto simp: closing_def)
        then have "out_of_write u (ws_inserts y) > 0" by (simp add: core_def)
        then have "pending_chunks (ws_inserts y) \<noteq> []" by (rule out_pending)
        then show ?thesis using \<open>core T False y\<close> by (simp add: checkDone_def core_def)
      qed
      ultimately show ?thesis using stay [OF False] fl by (auto simp: uploading_def)
    qed
  next
    case closed
    then have c: "core T (ws_pos s > 0) s" "ws_streamEnd s" "settled s" by (simp_all add: closed_def)
    have w: "w < length (ws_writes s)" "fst (ws_writes s ! w) > 0" by (rule f(2,3) [OF c(1)])+
    have nc: "snd (ws_writes s ! w) = NoCallback" using c(3) w by (auto simp: settled_def)
    have c2: "core T (ws_pos s2 > 0) s2" using f(1) [OF c(1)] fl by simp
    have os: "ws_outstandingRequests s > 0" using c(1) n taken_insert(5) [OF n(1)] by (simp add: core_def)
    then have nd: "\<not> ws_done s" "no_file s2" using closed nf by (auto simp: closed_def filed_def split: if_splits)
    have st: "settled s2" using c(3) nc by (auto simp: settled_def s2_def dest: set_update_subset_insert [THEN subsetD])
    have "closed T (checkDone NoCallback (grid_emit (Drain x) s2))" by (rule checkDone_closed) (use c2 c(2) fl st nd in simp_all)
    moreover have "closed T s2" if "fst (ws_writes s ! w) - 1 \<noteq> 0"
    proof -
      have "\<forall>v < length (ws_writes s2). fst (ws_writes s2 ! v) = out_of_write v (ws_inserts s2)" using c2 by (simp add: core_def)
      moreover have "fst (ws_writes s2 ! w) = fst (ws_writes s ! w) - 1" "w < length (ws_writes s2)" using w by (simp_all add: s2_def)
      ultimately have "out_of_write w (ws_inserts s2) > 0" using that by (metis not_gr_zero)
      then have "pending_chunks (ws_inserts s2) \<noteq> []" by (rule out_pending)
      then show ?thesis using c2 c(2) st nd fl by (simp add: closed_def filed_def) (simp add: core_def)
    qed
    ultimately show ?thesis unfolding out nc using fl by (simp add: run_callback_def call_user_def uploading_def)
  qed
qed

lemma remnant_reply_keeps:
  assumes n: "n < length (ws_inserts s)" "ws_inserts s ! n = RemnantInsert x" and nr: "closed T s"
  shows "closed T (inserted (ws_inserts s ! n) None (s\<lparr>ws_inserts := remove_at n (ws_inserts s)\<rparr>))"
proof -
  let ?s2 = "s\<lparr>ws_inserts := remove_at n (ws_inserts s), ws_chunks := ws_chunks s @ [x], ws_outstandingRequests := ws_outstandingRequests s - 1\<rparr>"
  have c: "core T (ws_pos s > 0) s" "ws_streamEnd s" "settled s" using nr by (simp_all add: closed_def)
  have "ws_outstandingRequests s > 0" using c(1) n taken_insert(5) [OF n(1)] by (simp add: core_def)
  then have nf: "no_file s" using nr by (auto simp: closed_def filed_def split: if_splits)
  have "closed T (checkDone NoCallback ?s2)"
    by (rule checkDone_closed) (use core_remnant_stored [OF c(1) n refl] c nf taken_insert(2) [OF n(1)] n(2) in \<open>simp_all add: settled_def no_file_def\<close>)
  then show ?thesis by (simp add: inserted_def n)
qed

lemma file_reply_keeps:
  assumes n: "n < length (ws_inserts s)" "ws_inserts s ! n = FileInsert f cb" and c: "closed T s"
  shows "closed T (inserted (ws_inserts s ! n) None (s\<lparr>ws_inserts := remove_at n (ws_inserts s)\<rparr>))"
proof -
  let ?ev = "ws_events s @ [Finish f, StreamClose]"
  let ?s2 = "s\<lparr>ws_inserts := remove_at n (ws_inserts s), ws_files := ws_files s @ [f], ws_events := ?ev\<rparr>"
  have m: "f \<in> set (pending_files (ws_inserts s))" using n nth_mem [OF n(1)] by (force simp: pending_files_def)
  have fd: "filed T s" using c by (simp add: closed_def)
  then have "ws_done s" "ws_files s = []" using m by (auto simp: filed_def no_file_def append_eq_Cons_conv split: if_splits)
  moreover from this have "pending_files (remove_at n (ws_inserts s)) = []" "pending_files (ws_inserts s) = [f]"
    using fd m taken_insert(3) [OF n(1), of f f] n(2) by (auto simp: filed_def split: if_splits)
  ultimately have "filed T ?s2" using fd by (simp add: filed_def)
  then have "closed T ?s2" using c core_file_stored [OF _ n] by (simp add: closed_def settled_def)
  then show ?thesis by (simp add: inserted_def n grid_emit_def)
qed

lemma run_waiting_plain:
  assumes "list_all plain_wait ws" "core D False s" "calm s"
  defines "s' \<equiv> fold run_waiting ws s"
  shows "core (D @ concat (map waiting_input ws)) False s' \<and> calm s' \<and> ws_streamEnd s' = ws_streamEnd s
    \<and> ws_checkedIndexes s' = ws_checkedIndexes s \<and> ws_waiting s' = ws_waiting s \<and> same_stream s s'"
  unfolding s'_def using assms(1-3)
proof (induction ws arbitrary: D s)
  case Nil
  then show ?case by (simp add: same_stream_def)
next
  case (Cons w ws)
  then obtain input where w: "w = WaitWrite input NoCallback" by (cases w) (auto simp: plain_wait_def)
  note d = doWrite_plain [OF Cons.prems(2,3), of input]
  have p: "list_all plain_wait ws" using Cons.prems(1) by simp
  have "core ((D @ input) @ concat (map waiting_input ws)) False (fold run_waiting ws (doWrite input NoCallback s))"
    "calm (fold run_waiting ws (doWrite input NoCallback s))"
    "ws_streamEnd (fold run_waiting ws (doWrite input NoCallback s)) = ws_streamEnd s"
    "ws_checkedIndexes (fold run_waiting ws (doWrite input NoCallback s)) = ws_checkedIndexes s"
    "ws_waiting (fold run_waiting ws (doWrite input NoCallback s)) = ws_waiting s"
    "same_stream s (fold run_waiting ws (doWrite input NoCallback s))"
    using Cons.IH [OF p, of "D @ input" "doWrite input NoCallback s"] d by (auto intro: same_stream_trans [of s "doWrite input NoCallback s"])
  moreover have "fold run_waiting (w # ws) s = fold run_waiting ws (doWrite input NoCallback s)" by (simp add: w) (simp add: run_waiting_def)
  ultimately show ?case by (simp add: w del: fold.simps)
qed

lemma indexed_inv:
  assumes u: "uploading T s" "\<not> ws_checkedIndexes s"
  shows "uploading T (indexed s) \<and> ws_streamEnd (indexed s) = ws_streamEnd s"
proof -
  let ?s = "s\<lparr>ws_checkedIndexes := True, ws_waiting := []\<rparr>"
  have c: "core [] False ?s" "calm ?s" and T: "concat (map waiting_input (ws_waiting s)) = T" and w: "waits (ws_streamEnd s) (ws_waiting s)"
    using u by (auto simp: uploading_def core_def calm_def no_file_def buffered_def)
  show ?thesis
  proof (cases "ws_streamEnd s")
    case False
    then have "list_all plain_wait (ws_waiting s)" using w by (simp add: waits_def)
    from run_waiting_plain [OF this c] T False show ?thesis by (simp add: indexed_def uploading_def)
  next
    case True
    then have p: "ws_waiting s \<noteq> []" "list_all plain_wait (butlast (ws_waiting s))" "last_wait (last (ws_waiting s))" using w by (simp_all add: waits_def)
    let ?s1 = "fold run_waiting (butlast (ws_waiting s)) ?s" and ?D = "concat (map waiting_input (butlast (ws_waiting s)))"
    note r = run_waiting_plain [OF p(2) c]
    have split: "ws_waiting s = butlast (ws_waiting s) @ [last (ws_waiting s)]" using p(1) by simp
    have i: "indexed s = run_waiting (last (ws_waiting s)) ?s1" unfolding indexed_def by (subst split) simp
    have T2: "T = ?D @ waiting_input (last (ws_waiting s))" unfolding T [symmetric] by (subst split) simp
    show ?thesis
    proof (cases "last (ws_waiting s)")
      case (WaitWrite input cb)
      then have "cb = RemnantCallback" using p(3) by (simp add: last_wait_def)
      then show ?thesis using doWrite_last [of ?D ?s1 input] r True T2 WaitWrite by (auto simp: i run_waiting_def uploading_def closing_def closed_def)
    next
      case WaitRemnant
      have "closed ?D (writeRemnant ?s1)" using r True by (intro writeRemnant_closed) (simp_all add: calm_settled calm_def)
      then show ?thesis using r True T2 WaitRemnant by (auto simp: i run_waiting_def uploading_def closed_def)
    qed
  qed
qed

text \<open>A caller that writes, then ends, with inserts that succeed.\<close>

fun well_used :: "bool \<Rightarrow> (int \<times> gridStep) list \<Rightarrow> bool" where
  "well_used ended [] = True"
| "well_used ended ((t, Write input) # xs) = (\<not> ended \<and> well_used ended xs)"
| "well_used ended ((t, End chunk) # xs) = (\<not> ended \<and> well_used True xs)"
| "well_used ended ((t, Indexed) # xs) = well_used ended xs"
| "well_used ended ((t, Inserted n err) # xs) = (err = None \<and> well_used ended xs)"
| "well_used ended ((t, Abort r) # xs) = False"

fun written :: "gridStep \<Rightarrow> byte list" where
  "written (Write input) = input"
| "written (End (Some input)) = input"
| "written _ = []"

definition written_by :: "(int \<times> gridStep) list \<Rightarrow> byte list" where
  "written_by xs = concat (map (written \<circ> snd) xs)"

lemma uploading_now: "uploading T (s\<lparr>ws_now := t\<rparr>) = uploading T s"
  by (simp add: uploading_def closed_def closing_def core_def calm_def no_file_def settled_def filed_def buffered_def)

lemma write_inv:
  assumes u: "uploading T s" "\<not> ws_streamEnd s"
  shows "uploading (T @ input) (grid_write input NoCallback s)" "\<not> ws_streamEnd (grid_write input NoCallback s)"
proof -
  have "uploading (T @ input) (grid_write input NoCallback s) \<and> \<not> ws_streamEnd (grid_write input NoCallback s)"
  proof (cases "ws_checkedIndexes s")
    case True
    then have c: "core T False s" "calm s" "ws_waiting s = []"
      using u by (auto simp: uploading_def closing_def closed_def)
    show ?thesis using doWrite_plain [OF c(1,2), of input] True u(2) c(3)
      by (simp add: grid_write_def waitForIndexes_def run_waiting_def uploading_def)
  next
    case False
    then show ?thesis using u
      by (auto simp: grid_write_def waitForIndexes_def uploading_def core_def buffered_def calm_def no_file_def waits_def plain_wait_def)
  qed
  then show "uploading (T @ input) (grid_write input NoCallback s)" "\<not> ws_streamEnd (grid_write input NoCallback s)" by simp_all
qed

lemma end_inv:
  assumes u: "uploading T s" "\<not> ws_streamEnd s"
  shows "uploading (T @ (case chunk of Some input \<Rightarrow> input | None \<Rightarrow> [])) (grid_end chunk NoCallback s) \<and> ws_streamEnd (grid_end chunk NoCallback s)"
proof -
  let ?s = "s\<lparr>ws_streamEnd := True\<rparr>"
  have na: "\<not> ws_aborted s" using u by (auto simp: uploading_def closing_def closed_def core_def split: if_splits)
  show ?thesis
  proof (cases "ws_checkedIndexes s")
    case True
    then have c: "core T False ?s" "calm ?s" "ws_waiting ?s = []"
      using u by (auto simp: uploading_def closing_def closed_def core_def calm_def no_file_def buffered_def)
    have "closed T (writeRemnant ?s)" using c by (intro writeRemnant_closed) (simp_all add: calm_settled calm_def)
    then show ?thesis using doWrite_last [OF c(1,2)] na True c(3)
      by (auto simp: grid_end_def grid_write_def waitForIndexes_def run_waiting_def uploading_def closing_def closed_def split: option.split)
  next
    case False
    then show ?thesis using u na
      by (auto simp: grid_end_def grid_write_def waitForIndexes_def uploading_def core_def buffered_def calm_def no_file_def
          waits_def last_wait_def split: option.split)
  qed
qed

lemma inserted_inv:
  assumes u: "uploading T s" and n: "n < length (ws_inserts s)"
  shows "uploading T (inserted (ws_inserts s ! n) None (s\<lparr>ws_inserts := remove_at n (ws_inserts s)\<rparr>))"
proof (cases "ws_inserts s ! n")
  case (ChunkInsert x w)
  show ?thesis by (rule chunk_reply_keeps [OF u n ChunkInsert])
next
  case (RemnantInsert x)
  then have "RemnantInsert x \<in> set (ws_inserts s)" using n nth_mem by metis
  then have c: "closed T s" "ws_checkedIndexes s" "ws_waiting s = []" using u by (auto simp: uploading_def closing_def core_def split: if_splits)
  then show ?thesis using remnant_reply_keeps [OF n RemnantInsert c(1)] by (simp add: uploading_def inserted_def RemnantInsert)
next
  case (FileInsert f cb)
  then have "FileInsert f cb \<in> set (ws_inserts s)" using n nth_mem by metis
  then have "pending_files (ws_inserts s) \<noteq> []" by (force simp: pending_files_def)
  then have c: "closed T s" "ws_checkedIndexes s" "ws_waiting s = []" using u by (auto simp: uploading_def closing_def calm_def no_file_def split: if_splits)
  then show ?thesis using file_reply_keeps [OF n FileInsert c(1)] by (simp add: uploading_def inserted_def FileInsert)
qed

lemma checkDone_end [simp]: "ws_streamEnd (checkDone cb s) = ws_streamEnd s"
  by (simp add: checkDone_def call_user_def send_def grid_emit_def Let_def split: gridCallback.split)

lemma writeRemnant_end [simp]: "ws_streamEnd (writeRemnant s) = ws_streamEnd s"
  by (simp add: writeRemnant_def send_def Let_def)

lemma inserted_end: "ws_streamEnd (inserted i None s) = ws_streamEnd s"
  by (cases i) (auto simp: inserted_def run_callback_def call_user_def Let_def split: gridCallback.split prod.split)

lemma step_uploading:
  assumes "uploading T s" "ws_streamEnd s = ended" "well_used ended ((t, x) # xs)"
  shows "uploading (T @ written x) (grid_step t x s) \<and> well_used (ws_streamEnd (grid_step t x s)) xs"
proof -
  let ?s = "s\<lparr>ws_now := t\<rparr>"
  have u: "uploading T ?s" "ws_streamEnd ?s = ended" using assms by (simp_all add: uploading_now)
  show ?thesis
  proof (cases x)
    case (Write input)
    then show ?thesis using write_inv [OF u(1), of input] u(2) assms(3) by (cases ended) (simp_all add: grid_step_def Let_def)
  next
    case (End chunk)
    then show ?thesis using end_inv [OF u(1), of chunk] u(2) assms(3) by (auto simp: grid_step_def Let_def split: option.splits)
  next
    case Indexed
    then show ?thesis using indexed_inv [OF u(1)] u assms(3) by (simp add: grid_step_def Let_def)
  next
    case (Inserted n err)
    then show ?thesis using inserted_inv [OF u(1), of n] u assms(3) by (simp add: grid_step_def inserted_end Let_def)
  next
    case (Abort r)
    then show ?thesis using assms(3) by simp
  qed
qed

lemma run_uploading:
  "uploading T s \<Longrightarrow> well_used (ws_streamEnd s) xs \<Longrightarrow> uploading (T @ written_by xs) (grid_run xs s)"
proof (induction xs arbitrary: T s)
  case (Cons x xs)
  obtain t y where x: "x = (t, y)" by (cases x)
  show ?case using Cons.IH [of "T @ written y" "grid_step t y s"] step_uploading [OF Cons.prems(1) refl Cons.prems(2) [unfolded x]]
    by (simp add: x grid_run_def written_by_def)
qed (simp add: grid_run_def written_by_def)

lemma new_uploading:
  assumes "GridFSBucketWriteStream_new givenId newId filename givenSize bucketSize checked = s" "bucketSize > 0"
  shows "uploading [] s \<and> \<not> ws_streamEnd s \<and> ws_chunkSizeBytes s > 0"
  using assms by (auto simp: GridFSBucketWriteStream_new_def Let_def uploading_def core_def calm_def no_file_def buffered_def chunk_docs_def waits_def split: option.split)

text \<open>The identity of the stream through a run.\<close>

lemma write_loop_same: "same_stream s (snd (write_loop w input s))"
proof (induction w input s rule: write_loop.induct)
  case (1 w input s)
  show ?case
  proof (cases "input = [] \<or> ws_chunkSizeBytes s \<le> ws_pos s")
    case True
    then show ?thesis by (subst write_loop.simps) (simp add: same_stream_def)
  next
    case False
    note ih = "1.IH" [OF False refl refl]
    show ?thesis
    proof (cases "ws_pos s + min (ws_chunkSizeBytes s - ws_pos s) (length input) = ws_chunkSizeBytes s")
      case True
      then show ?thesis using ih(1) False by (subst write_loop.simps) (simp add: Let_def same_stream_def send_def case_prod_beta)
    next
      case no: False
      then show ?thesis using ih(2) False by (subst write_loop.simps) (simp add: Let_def same_stream_def)
    qed
  qed
qed

lemma same_stream_refl [simp]: "same_stream s s" by (simp add: same_stream_def)

lemma callback_same: "same_stream s (call_user cb err s)" "same_stream s (run_callback cb err s)"
  by (cases cb; simp add: run_callback_def call_user_def)+

lemma doWrite_same: "same_stream s (doWrite input cb s)"
proof -
  obtain k s2 where r: "write_loop (length (ws_writes s)) input (s\<lparr>ws_length := ws_length s + length input\<rparr>) = (k, s2)" by fastforce
  let ?s = "s\<lparr>ws_length := ws_length s + length input, ws_bufToStore := copy_into input (ws_pos s) (ws_bufToStore s), ws_pos := ws_pos s + length input\<rparr>"
  have "same_stream s (run_callback cb None ?s)" using callback_same(2) [of ?s cb None] by (simp add: same_stream_def)
  moreover have "same_stream s s2" using write_loop_same [of "s\<lparr>ws_length := ws_length s + length input\<rparr>" "length (ws_writes s)" input] r
    by (simp add: same_stream_def)
  ultimately show ?thesis using r callback_same(2) [of s cb "Some aborted_error"] by (simp add: doWrite_def Let_def) (simp add: same_stream_def)
qed

lemma run_waiting_same: "same_stream s (run_waiting w s)"
  by (cases w) (simp_all add: run_waiting_def doWrite_same)

lemma inserted_same: "same_stream s (inserted i None s)"
proof (cases i)
  case (ChunkInsert c w)
  obtain k cb where w: "ws_writes s ! w = (k, cb)" by fastforce
  let ?s = "\<lambda>v. s\<lparr>ws_chunks := ws_chunks s @ [c], ws_outstandingRequests := ws_outstandingRequests s - 1, ws_writes := v\<rparr>"
  have "same_stream s (checkDone NoCallback (run_callback cb None (grid_emit (Drain c) (?s v))))" for v
    using callback_same(2) [of "grid_emit (Drain c) (?s v)" cb None]
      checkDone_same(3) [of "run_callback cb None (grid_emit (Drain c) (?s v))" NoCallback, unfolded same_stream_def]
    by (simp add: same_stream_def grid_emit_def)
  then show ?thesis by (simp add: inserted_def ChunkInsert w Let_def) (simp add: same_stream_def)
next
  case (RemnantInsert c)
  let ?s = "s\<lparr>ws_chunks := ws_chunks s @ [c], ws_outstandingRequests := ws_outstandingRequests s - 1\<rparr>"
  show ?thesis using checkDone_same(3) [of ?s NoCallback, unfolded same_stream_def] by (simp add: inserted_def RemnantInsert same_stream_def)
qed (simp add: inserted_def same_stream_def grid_emit_def)

lemma step_same: "well_used ended ((t, x) # xs) \<Longrightarrow> same_stream s (grid_step t x s)"
proof -
  assume u: "well_used ended ((t, x) # xs)"
  have f: "same_stream y (fold run_waiting ws y)" for ws y
    by (induction ws arbitrary: y) (auto intro: same_stream_trans run_waiting_same)
  have w: "same_stream y (waitForIndexes v y)" for v y
    by (simp add: waitForIndexes_def run_waiting_same) (simp add: same_stream_def)
  have i: "same_stream y (indexed y)" for y
    using f [of "y\<lparr>ws_checkedIndexes := True, ws_waiting := []\<rparr>" "ws_waiting y"] by (simp add: indexed_def same_stream_def)
  have e: "same_stream y (grid_end chunk NoCallback y)" for chunk y
    using w [of "y\<lparr>ws_streamEnd := True\<rparr>"] callback_same(1) [of y NoCallback "Some aborted_error"]
    by (auto simp: grid_end_def grid_write_def same_stream_def Let_def split: option.split)
  let ?s = "s\<lparr>ws_now := t\<rparr>"
  have "same_stream ?s (grid_step t x s)"
    using u w [of ?s] i [of ?s] e [of ?s] inserted_same [of "?s\<lparr>ws_inserts := remove_at n (ws_inserts ?s)\<rparr>" "ws_inserts ?s ! n" for n]
    by (cases x) (auto simp: grid_step_def grid_write_def same_stream_def Let_def)
  then show ?thesis by (simp add: same_stream_def)
qed

lemma run_same: "well_used ended xs \<Longrightarrow> same_stream s (grid_run xs s)"
proof (induction xs arbitrary: s ended)
  case (Cons x xs)
  obtain t y where x: "x = (t, y)" by (cases x)
  have "\<exists>e. well_used e xs" using Cons.prems x by (cases y) auto
  then obtain e where "well_used e xs" by blast
  then have "same_stream (grid_step t y s) (grid_run xs (grid_step t y s))" by (rule Cons.IH)
  with step_same [OF Cons.prems [unfolded x]] show ?case by (simp add: x grid_run_def) (auto intro: same_stream_trans)
qed (simp add: grid_run_def)

section \<open>Reading the chunks back\<close>

lemma sort_key_unique:
  assumes m: "mset xs = mset ys" and s: "sorted (map f ys)" and d: "distinct (map f ys)"
  shows "sort_key f xs = ys"
proof -
  let ?zs = "sort_key f xs"
  have mz: "mset ?zs = mset ys" using m by simp
  have mm: "mset (map f ?zs) = mset (map f ys)" unfolding mset_map mz ..
  have dz: "distinct (map f ?zs)" and sz: "set (map f ?zs) = set (map f ys)"
    using d mset_eq_imp_distinct_iff [OF mm] mset_eq_setD [OF mm] by (simp_all only:)
  have "map f ?zs = map f ys" by (rule sorted_distinct_set_unique [OF sorted_sort_key dz s d sz])
  moreover have "set ?zs = set ys" by (rule mset_eq_setD [OF mz])
  then have "inj_on f (set ?zs \<union> set ys)" using d unfolding distinct_map by (simp only: Un_absorb)
  ultimately show ?thesis by (rule map_inj_on)
qed

text \<open>The part of the data from one place to another.\<close>

definition part :: "byte list \<Rightarrow> nat \<Rightarrow> nat \<Rightarrow> byte list" where
  "part T a b = take (b - a) (drop a T)"

lemma part_append: "a \<le> b \<Longrightarrow> b \<le> c \<Longrightarrow> part T a b @ part T b c = part T a c"
  using take_add [of "b - a" "c - b" "drop a T"] by (simp add: part_def)

lemma slice_chunk:
  assumes "j * sz \<le> a" "a \<le> b" "b \<le> Suc j * sz" "b \<le> length T"
  shows "slice (chunk_of sz T j) (int (a - j * sz)) (int (b - j * sz)) = part T a b"
proof -
  have l: "length (chunk_of sz T j) = min sz (length T - j * sz)" by (simp add: chunk_of_def)
  have "a - j * sz \<le> length (chunk_of sz T j)" "b - j * sz \<le> length (chunk_of sz T j)" using assms by (auto simp: l)
  then have "slice (chunk_of sz T j) (int (a - j * sz)) (int (b - j * sz)) = take (b - j * sz - (a - j * sz)) (drop (a - j * sz) (chunk_of sz T j))"
    by (simp add: slice_def clamp_def min_def Let_def)
  also have "\<dots> = take (b - a) (drop a T)" using assms
    by (simp add: chunk_of_def drop_take min_def)
  finally show ?thesis by (simp add: part_def)
qed

lemma ceil_div_bounds:
  fixes a b :: int
  assumes "b > 0"
  shows "(ceil_div a b - 1) * b < a" "a \<le> ceil_div a b * b"
proof -
  define k m where "k = (- a) div b" and "m = (- a) mod b"
  have "- a = k * b + m" "0 \<le> m" "m < b" using assms by (simp_all add: k_def m_def)
  then show "(ceil_div a b - 1) * b < a" "a \<le> ceil_div a b * b" by (simp_all add: ceil_div_def flip: k_def) (simp_all add: algebra_simps)
qed

text \<open>
  A stream that reads chunks \<open>j\<close> to \<open>K\<close> of the data up to the place \<open>stop\<close>, and stands at the place \<open>a\<close>.
\<close>

definition reads_on :: "byte list \<Rightarrow> gridFSFile \<Rightarrow> nat \<Rightarrow> nat \<Rightarrow> nat \<Rightarrow> nat \<Rightarrow> readStream \<Rightarrow> bool" where
  "reads_on T f stop K j a r =
     (let sz = gf_chunkSize f
      in sz > 0 \<and> gf_length f = length T \<and> stop \<le> length T \<and> a \<le> stop \<and> j \<le> K \<and> (j < K \<longrightarrow> j * sz \<le> a \<and> a < Suc j * sz) \<and> (j = K \<longrightarrow> a = stop) \<and> (K > 0 \<longrightarrow> (K - 1) * sz < stop) \<and> stop \<le> K * sz
         \<and> rs_file r = Some f \<and> rs_cursor r = Some (map (\<lambda>i. createChunkDoc (gf_id f) i (chunk_of sz T i)) [j..<K])
         \<and> rs_expected r = j \<and> (j < K \<longrightarrow> rs_bytesRead r = int (j * sz) \<and> rs_bytesToSkip r = int (a - j * sz)) \<and> \<not> rs_destroyed r \<and> \<not> stopped r
         \<and> (rs_end r = Some (int stop) \<and> stop > 0 \<and> rs_expectedEnd r = int K \<and> rs_bytesToTrim r = int (K * sz) - int stop
            \<or> rs_end r = Some 0 \<and> stop = length T \<and> rs_expectedEnd r = 0))"

lemma stopped_emit [simp]: "stopped (read_emit e r) = (stopped r \<or> (case e of ReadEnd \<Rightarrow> True | ReadError _ \<Rightarrow> True | ReadClose \<Rightarrow> True | _ \<Rightarrow> False))"
  by (simp add: stopped_def read_emit_def)

lemma read_data_emit [simp]: "read_data (read_emit e r) = read_data r @ (case e of ReadData b \<Rightarrow> b | _ \<Rightarrow> [])"
  "read_errors (read_emit e r) = read_errors r @ (case e of ReadError x \<Rightarrow> [x] | _ \<Rightarrow> [])"
  by (simp_all add: read_data_def read_errors_def read_emit_def)

lemma doRead_step:
  assumes r: "reads_on T f stop K j a r" and j: "j < K"
  shows "reads_on T f stop K (Suc j) (min stop (Suc j * gf_chunkSize f)) (doRead r)"
    "read_data (doRead r) = read_data r @ part T a (min stop (Suc j * gf_chunkSize f))" "read_errors (doRead r) = read_errors r"
proof -
  define sz where "sz = gf_chunkSize f"
  define b where "b = min stop (Suc j * sz)"
  have f: "sz > 0" "gf_length f = length T" "stop \<le> length T" "j * sz \<le> a" "a \<le> stop" "a < Suc j * sz" "(K - 1) * sz < stop" "stop \<le> K * sz"
    "rs_file r = Some f" "rs_cursor r = Some (map (\<lambda>i. createChunkDoc (gf_id f) i (chunk_of sz T i)) [j..<K])"
    "rs_expected r = j" "rs_bytesRead r = int (j * sz)" "rs_bytesToSkip r = int (a - j * sz)" "\<not> rs_destroyed r" "\<not> stopped r"
    and e: "rs_end r = Some (int stop) \<and> stop > 0 \<and> rs_expectedEnd r = int K \<and> rs_bytesToTrim r = int (K * sz) - int stop
            \<or> rs_end r = Some 0 \<and> stop = length T \<and> rs_expectedEnd r = 0"
    using r j unfolding reads_on_def Let_def sz_def by (auto simp del: of_nat_mult)
  have up: "[j..<K] = j # [Suc j..<K]" using j by (simp add: upt_rec)
  have jK: "j * sz \<le> (K - 1) * sz" using j by (intro mult_le_mono1) simp
  define n where "n = length (chunk_of sz T j)"
  have n: "n = min sz (length T - j * sz)" by (simp add: n_def chunk_of_def)
  have lt: "j * sz < length T" using jK f(3,7) by linarith
  then have n0: "n > 0" using n f(1) by simp
  have exp: "int n = min (int sz) (int (length T) - int (j * sz))" unfolding n using lt by (simp add: of_nat_min of_nat_diff)
  have sl: "slice (chunk_of sz T j) (int (a - j * sz)) (int (b - j * sz)) = part T a b"
    using f by (intro slice_chunk) (auto simp: b_def)
  define sliceEnd where "sliceEnd = slice_end sz (rs_expectedEnd r) (rs_bytesToTrim r) (rs_end r) j (int n)"
  have cut: "slice (chunk_of sz T j) (int (a - j * sz)) (if sliceEnd = 0 then int n else sliceEnd) = part T a b"
  proof -
    have same: "slice (chunk_of sz T j) (int (a - j * sz)) (int n) = part T a b" if "min (length T) (Suc j * sz) = b"
    proof -
      have "int n = int (b - j * sz)" using n that lt by (auto simp: min_def split: if_splits)
      then show ?thesis using sl by simp
    qed
    from e show ?thesis
    proof
      assume e1: "rs_end r = Some (int stop) \<and> stop > 0 \<and> rs_expectedEnd r = int K \<and> rs_bytesToTrim r = int (K * sz) - int stop"
      show ?thesis
      proof (cases "Suc j = K")
        case True
        then have b: "b = stop" using f(8) by (simp add: b_def)
        have "j * sz < stop" using True f(7) by auto
        then have se: "sliceEnd = int (stop - j * sz)" using True e1 f(8) by (auto simp: sliceEnd_def slice_end_def algebra_simps of_nat_diff)
        moreover have "sliceEnd \<noteq> 0" unfolding se using \<open>j * sz < stop\<close> by linarith
        ultimately show ?thesis using sl unfolding b by (simp only: if_False)
      next
        case False
        then have "Suc j * sz \<le> (K - 1) * sz" using j by (intro mult_le_mono1) simp
        then have s: "Suc j * sz < stop" using f(7) by simp
        then have "\<not> stop < n" using n by simp
        then have "sliceEnd = 0" using False e1 by (simp add: sliceEnd_def slice_end_def)
        then show ?thesis using same s f(3) by (simp add: b_def)
      qed
    next
      assume e2: "rs_end r = Some 0 \<and> stop = length T \<and> rs_expectedEnd r = 0"
      then show ?thesis using same by (simp add: sliceEnd_def slice_end_def b_def)
    qed
  qed
  define r2 where "r2 = r\<lparr>rs_cursor := Some (map (\<lambda>i. createChunkDoc (gf_id f) i (chunk_of sz T i)) [Suc j..<K]), rs_expected := Suc j,
      rs_bytesRead := int (j * sz) + int n, rs_bytesToSkip := 0\<rparr>"
  have d: "doRead r = read_emit (ReadData (part T a b)) r2"
    unfolding doRead_def f(9,10) up list.map createChunkDoc_def option.case prod.case list.case Let_def
    using n0 f(11-15) exp [symmetric] f(2)
    by (simp add: r2_def createChunkDoc_def sz_def [symmetric] flip: n_def of_nat_mult)
       (use cut in \<open>auto simp: sliceEnd_def split: if_splits\<close>)
  have ff: "rs_file (doRead r) = Some f" "rs_cursor (doRead r) = rs_cursor r2" "rs_expected (doRead r) = Suc j" "rs_bytesRead (doRead r) = int (j * sz) + int n"
    "rs_bytesToSkip (doRead r) = 0" "rs_destroyed (doRead r) = rs_destroyed r" "rs_end (doRead r) = rs_end r" "rs_expectedEnd (doRead r) = rs_expectedEnd r"
    "rs_bytesToTrim (doRead r) = rs_bytesToTrim r" using f(9) by (simp_all add: d read_emit_def r2_def)
  have st: "\<not> stopped (doRead r)" using f(15) by (simp add: d) (simp add: r2_def stopped_def)
  have rd: "read_data r2 = read_data r" "read_errors r2 = read_errors r" by (simp_all add: r2_def read_data_def read_errors_def)
  show "read_data (doRead r) = read_data r @ part T a (min stop (Suc j * gf_chunkSize f))" "read_errors (doRead r) = read_errors r"
    using rd by (simp_all add: d b_def sz_def)
  have next1: "Suc j < K \<longrightarrow> int (j * sz) + int n = int (Suc j * sz) \<and> b = Suc j * sz"
  proof
    assume "Suc j < K"
    then have "Suc j * sz \<le> (K - 1) * sz" by (intro mult_le_mono1) simp
    then have "Suc j * sz < stop" using f(7) by simp
    then show "int (j * sz) + int n = int (Suc j * sz) \<and> b = Suc j * sz" using n f(3) by (simp add: b_def)
  qed
  have bK: "Suc j = K \<longrightarrow> b = stop" using f(8) by (auto simp: b_def)
  show "reads_on T f stop K (Suc j) (min stop (Suc j * gf_chunkSize f)) (doRead r)"
    unfolding reads_on_def Let_def sz_def [symmetric] b_def [symmetric] ff r2_def
    using f st e next1 bK j by (simp add: b_def del: of_nat_mult)
qed

lemma read_all_data:
  "reads_on T f stop K j a r \<Longrightarrow> K - j < n \<Longrightarrow>
     read_data (read_all n r) = read_data r @ part T a stop \<and> read_errors (read_all n r) = read_errors r \<and> stopped (read_all n r)"
proof (induction n arbitrary: j a r)
  case (Suc n)
  have ns: "\<not> stopped r" using Suc.prems(1) by (simp add: reads_on_def Let_def)
  show ?case
  proof (cases "j < K")
    case True
    let ?b = "min stop (Suc j * gf_chunkSize f)"
    note d = doRead_step [OF Suc.prems(1) True]
    have "a \<le> ?b" "?b \<le> stop" using Suc.prems(1) True by (auto simp: reads_on_def Let_def)
    then have "part T a ?b @ part T ?b stop = part T a stop" by (rule part_append)
    then show ?thesis using Suc.IH [OF d(1)] Suc.prems(2) True ns d(2,3) by simp
  next
    case False
    then have jK: "j = K" "a = stop" "rs_cursor r = Some []" "rs_file r = Some f" "\<not> rs_destroyed r" using Suc.prems(1) by (auto simp: reads_on_def Let_def)
    have "doRead r = read_emit ReadClose (read_emit ReadEnd r)" using jK by (simp add: doRead_def)
    moreover have "read_all n y = y" if "stopped y" for y using that by (cases n) simp_all
    ultimately show ?thesis using ns jK by (simp add: part_def)
  qed
qed simp

lemma found_chunks:
  assumes m: "mset cks = mset (chunk_docs (gf_id f) sz T k)" and j: "start div int (gf_chunkSize f) = int j"
  shows "find_chunks f (Some start) cks = map (\<lambda>i. createChunkDoc (gf_id f) i (chunk_of sz T i)) [j..<k]"
proof -
  let ?d = "\<lambda>i. createChunkDoc (gf_id f) i (chunk_of sz T i)" and ?P = "\<lambda>c. ch_files_id c = gf_id f \<and> (int j > 0 \<longrightarrow> int (ch_n c) \<ge> int j)"
  have "filter ?P (map ?d [0..<k]) = map ?d [j..<k]"
  proof (cases "j \<le> k")
    case True
    then have "[0..<k] = [0..<j] @ [j..<k]" using upt_add_eq_append [of 0 j "k - j"] by simp
    moreover have "filter ?P (map ?d [0..<j]) = []" by (auto simp: filter_empty_conv createChunkDoc_def)
    moreover have "filter ?P (map ?d [j..<k]) = map ?d [j..<k]" by (auto simp: filter_id_conv createChunkDoc_def)
    ultimately show ?thesis by simp
  qed (auto simp: filter_empty_conv createChunkDoc_def)
  moreover have "mset (filter ?P cks) = mset (filter ?P (map ?d [0..<k]))" using m unfolding chunk_docs_def mset_filter by (rule arg_cong)
  ultimately have "mset (filter ?P cks) = mset (map ?d [j..<k])" by (simp only:)
  moreover have "map ch_n (map ?d [j..<k]) = [j..<k]" by (simp add: createChunkDoc_def comp_def)
  ultimately have "sort_key ch_n (filter ?P cks) = map ?d [j..<k]" by (intro sort_key_unique) (simp_all del: map_map)
  then show ?thesis by (simp add: find_chunks_def j Let_def)
qed

text \<open>The ranges a caller may ask for: a part that is not empty, or nothing said at all.\<close>

definition good_range :: "int \<Rightarrow> int \<Rightarrow> nat \<Rightarrow> bool" where
  "good_range start stop len = (0 \<le> start \<and> start < stop \<and> stop \<le> int len \<or> start = 0 \<and> stop = 0)"

definition range_end :: "int \<Rightarrow> nat \<Rightarrow> nat" where
  "range_end stop len = (if stop = 0 then len else nat stop)"

lemma init_reads_on:
  assumes f: "gf_length f = length T" "gf_chunkSize f = sz" "sz > 0" and T: "T \<noteq> []"
    and m: "mset cks = mset (chunk_docs (gf_id f) sz T k)" and k: "length T \<le> k * sz" "(k - 1) * sz < length T"
    and g: "good_range start stop (length T)"
  defines "r \<equiv> read_init (Inr (Some f)) cks (GridFSBucketReadStream_new (Some (Some start)) (Some (Some stop)))"
  shows "\<exists>K j. K \<le> k \<and> reads_on T f (range_end stop (length T)) K j (nat start) r \<and> read_data r = [] \<and> read_errors r = []"
proof -
  define j where "j = nat start div sz"
  have s0: "start \<ge> 0" "start \<le> int (length T)" using g by (auto simp: good_range_def)
  have dj: "start div int (gf_chunkSize f) = int j" using s0(1) f(2) by (simp add: j_def zdiv_int)
  note fc = found_chunks [OF m dj]
  define last where "last = ceil_div stop (int sz)"
  let ?docs = "map (\<lambda>i. createChunkDoc (gf_id f) i (chunk_of sz T i)) [j..<k]"
  let ?cur = "if last - int j = 0 then ?docs else take (nat \<bar>last - int j\<bar>) ?docs"
  have r: "r = \<lparr>rs_bytesToTrim = last * int sz - stop, rs_bytesToSkip = start - int j * int sz, rs_bytesRead = int j * int sz, rs_expected = j, rs_expectedEnd = last,
      rs_start = Some start, rs_end = Some stop, rs_file = Some f, rs_cursor = Some ?cur, rs_init = True, rs_destroyed = False, rs_events = [ReadFile f]\<rparr>"
    using f T g s0 unfolding r_def
    by (auto simp: read_init_def GridFSBucketReadStream_new_def handleStartOption_def handleEndOption_def dj [unfolded f(2)] fc last_def good_range_def
        read_emit_def Let_def)
  have e: "read_data r = []" "read_errors r = []" "\<not> stopped r" by (simp_all add: r read_data_def read_errors_def stopped_def)
  have js: "j * sz \<le> nat start" "nat start < Suc j * sz"
    using f(3) by (simp_all add: j_def dividend_less_div_times [of sz "nat start", simplified add.commute])
  have skip: "start - int j * int sz = int (nat start - j * sz)" using js(1) s0(1) by (simp add: of_nat_diff)
  show ?thesis
  proof (cases "stop = 0")
    case True
    then have z: "start = 0" "last = 0" "j = 0" using g by (auto simp: good_range_def last_def ceil_div_def j_def)
    have "k > 0" using k(1) T by (cases k) auto
    then have "reads_on T f (length T) k 0 0 r" using f k e(3) z True T unfolding reads_on_def
      by (simp add: r Let_def)
    then show ?thesis using e(1,2) z True by (intro exI [of _ k] exI [of _ 0]) (simp add: range_end_def)
  next
    case False
    then have st: "0 < stop" "start < stop" "stop \<le> int (length T)" using g by (auto simp: good_range_def)
    have cb: "(last - 1) * int sz < stop" "stop \<le> last * int sz" unfolding last_def using ceil_div_bounds [of "int sz" stop] f(3) by simp_all
    have lp: "last > 0" using cb(2) st(1) by (smt (verit) mult_nonpos_nonneg of_nat_0_le_iff)
    define K where "K = nat last"
    have lK: "last = int K" "K > 0" using lp by (simp_all add: K_def)
    have K1: "(K - 1) * sz < nat stop" "nat stop \<le> K * sz"
    proof -
      have "int ((K - 1) * sz) < stop" "stop \<le> int (K * sz)" using cb lK by (simp_all add: of_nat_diff)
      then show "(K - 1) * sz < nat stop" "nat stop \<le> K * sz" by linarith+
    qed
    have jK: "j < K"
    proof -
      have "j * sz < K * sz" using js(1) K1(2) st by linarith
      then show ?thesis by simp
    qed
    have Kk: "K \<le> k"
    proof -
      have "(K - 1) * sz < k * sz" using K1(1) k(1) st(3) by linarith
      then have "K - 1 < k" by simp
      then show ?thesis using lK(2) by simp
    qed
    have cur: "?cur = map (\<lambda>i. createChunkDoc (gf_id f) i (chunk_of sz T i)) [j..<K]"
      using jK Kk by (simp add: lK take_map nat_diff_distrib)
    have rr: "rs_file r = Some f" "rs_expected r = j" "rs_bytesRead r = int (j * sz)" "rs_bytesToSkip r = int (nat start - j * sz)" "\<not> rs_destroyed r"
      "rs_end r = Some (int (nat stop))" "rs_expectedEnd r = int K" "rs_bytesToTrim r = int (K * sz) - int (nat stop)"
      using skip lK st(1) by (simp_all add: r)
    have rc: "rs_cursor r = Some (map (\<lambda>i. createChunkDoc (gf_id f) i (chunk_of sz T i)) [j..<K])" unfolding r by (simp only: readStream.select_convs cur)
    have "nat stop \<le> length T" "nat start \<le> nat stop" "0 < nat stop" using st by linarith+
    then have "reads_on T f (nat stop) K j (nat start) r" unfolding reads_on_def Let_def f(2)
      using f(1,3) js jK less_imp_le [OF jK] less_not_refl3 [OF jK] K1 e(3) rr rc by blast
    then show ?thesis using e(1,2) Kk False by (intro exI [of _ K] exI [of _ j]) (simp add: range_end_def)
  qed
qed

section \<open>Round trip\<close>

lemma closed_counts:
  assumes "closed T s"
  shows "\<exists>k. mset (ws_chunks s) + mset (pending_chunks (ws_inserts s)) = mset (chunk_docs (ws_id s) (ws_chunkSizeBytes s) T k)
    \<and> length T \<le> k * ws_chunkSizeBytes s \<and> (T \<noteq> [] \<longrightarrow> (k - 1) * ws_chunkSizeBytes s < length T) \<and> ws_chunkSizeBytes s > 0"
proof -
  have c: "core T (ws_pos s > 0) s" using assms by (simp add: closed_def)
  then have b: "length T = ws_n s * ws_chunkSizeBytes s + ws_pos s" "ws_pos s < ws_chunkSizeBytes s" by (simp_all add: core_def buffered_def)
  show ?thesis
  proof (cases "ws_pos s > 0")
    case True
    then show ?thesis using c b by (intro exI [of _ "Suc (ws_n s)"]) (simp add: core_def)
  next
    case False
    have "(ws_n s - 1) * ws_chunkSizeBytes s < length T" if "T \<noteq> []" using that b False by (cases "ws_n s") auto
    then show ?thesis using c b False by (intro exI [of _ "ws_n s"]) (simp add: core_def)
  qed
qed

lemma finished_upload:
  assumes s0: "GridFSBucketWriteStream_new givenId newId filename givenSize bucketSize checked = s0" "bucketSize > 0"
    and xs: "well_used False xs" and f: "ws_files (grid_run xs s0) = [f]"
  defines "s \<equiv> grid_run xs s0"
  shows "closed (written_by xs) s" "pending_chunks (ws_inserts s) = []" "gf_id f = ws_id s" "gf_length f = length (written_by xs)" "gf_chunkSize f = ws_chunkSizeBytes s"
    "gf_filename f = filename"
proof -
  have u: "uploading (written_by xs) s" using run_uploading [of "[]" s0 xs] new_uploading [OF s0] xs by (simp add: s_def)
  show c: "closed (written_by xs) s" using u f by (auto simp: uploading_def closing_def calm_def no_file_def s_def split: if_splits)
  then have fd: "filed (written_by xs) s" and co: "core (written_by xs) (ws_pos s > 0) s" by (simp_all add: closed_def)
  have d: "ws_done s" using fd f by (auto simp: filed_def no_file_def s_def split: if_splits)
  then have "ws_outstandingRequests s = 0" using fd by (simp add: filed_def)
  then show "pending_chunks (ws_inserts s) = []" using co by (simp add: core_def)
  have n: "ws_filename s = filename" using run_same [OF xs, of s0] s0(1) by (auto simp: s_def same_stream_def GridFSBucketWriteStream_new_def Let_def)
  show "gf_id f = ws_id s" "gf_length f = length (written_by xs)" "gf_chunkSize f = ws_chunkSizeBytes s" "gf_filename f = filename"
    using fd d f n by (auto simp: filed_def s_def)
qed

text \<open>
  (C30) A file comes back as it was written.  However the data was cut into writes, whenever the indexes were
  ready, and in whatever order the inserts of the chunks came back: once the files document is there, a
  reader of the whole file or of a part of it gets exactly those bytes, and no error.
\<close>

theorem grid_roundtrip:
  assumes "GridFSBucketWriteStream_new givenId newId filename givenSize bucketSize checked = s0" "bucketSize > 0"
    and "well_used False xs" "ws_files (grid_run xs s0) = [f]" and g: "good_range start stop (length (written_by xs))"
  shows "\<exists>n. let r = read_all n (read_init (Inr (Some f)) (ws_chunks (grid_run xs s0)) (GridFSBucketReadStream_new (Some (Some start)) (Some (Some stop))))
     in read_data r = part (written_by xs) (nat start) (range_end stop (length (written_by xs))) \<and> read_errors r = [] \<and> stopped r"
proof -
  let ?T = "written_by xs" and ?s = "grid_run xs s0"
  note u = finished_upload [OF assms(1-4)]
  obtain k where k: "mset (ws_chunks ?s) = mset (chunk_docs (gf_id f) (gf_chunkSize f) ?T k)" "length ?T \<le> k * gf_chunkSize f"
    "?T \<noteq> [] \<longrightarrow> (k - 1) * gf_chunkSize f < length ?T" "gf_chunkSize f > 0" using closed_counts [OF u(1)] u(2,3,5) by auto
  let ?r = "read_init (Inr (Some f)) (ws_chunks ?s) (GridFSBucketReadStream_new (Some (Some start)) (Some (Some stop)))"
  show ?thesis
  proof (cases "?T = []")
    case True
    then have "?r = read_emit ReadEnd ((GridFSBucketReadStream_new (Some (Some start)) (Some (Some stop)))\<lparr>rs_init := True\<rparr>)" using u(4) by (simp add: read_init_def Let_def)
    then show ?thesis using True by (intro exI [of _ 0]) (simp add: part_def Let_def, simp add: GridFSBucketReadStream_new_def read_data_def read_errors_def)
  next
    case False
    obtain K j where "reads_on ?T f (range_end stop (length ?T)) K j (nat start) ?r" "read_data ?r = []" "read_errors ?r = []"
      using init_reads_on [OF u(4) refl k(4) False k(1,2) _ g] k(3) False by blast
    then show ?thesis using read_all_data [of ?T f _ K j _ ?r "Suc (K - j)"] by (intro exI [of _ "Suc (K - j)"]) (simp add: Let_def del: read_all.simps)
  qed
qed

text \<open>
  (C31) An upload that was ended comes to its end: when the indexes have been checked and every insert that was
  sent has come back, the files document has been stored, once, with the length of the data.
\<close>

theorem upload_completes:
  assumes "GridFSBucketWriteStream_new givenId newId filename givenSize bucketSize checked = s0" "bucketSize > 0"
    and "well_used False xs" and e: "ws_streamEnd (grid_run xs s0)" "ws_checkedIndexes (grid_run xs s0)" "ws_inserts (grid_run xs s0) = []"
  shows "\<exists>f. ws_files (grid_run xs s0) = [f] \<and> gf_length f = length (written_by xs) \<and> gf_filename f = filename
     \<and> sum_list (map (length \<circ> ch_data) (ws_chunks (grid_run xs s0))) = gf_length f"
proof -
  let ?T = "written_by xs" and ?s = "grid_run xs s0"
  have u: "uploading ?T ?s" using run_uploading [of "[]" s0 xs] new_uploading [OF assms(1,2)] assms(3) by simp
  have "\<not> closing ?T ?s" using e(3) by (auto simp: closing_def core_def)
  then have c: "closed ?T ?s" using u e by (auto simp: uploading_def split: if_splits)
  then have "ws_outstandingRequests ?s = 0" using e(3) by (simp add: closed_def core_def)
  then have "ws_done ?s" using c by (auto simp: closed_def filed_def split: if_splits)
  then obtain f where f: "ws_files ?s = [f]" using c e(3) by (auto simp: closed_def filed_def)
  note r = finished_upload [OF assms(1-3) f]
  have n: "ws_n ?s * ws_chunkSizeBytes ?s + ws_pos ?s = length ?T" "ws_pos ?s < ws_chunkSizeBytes ?s" using c by (simp_all add: closed_def core_def buffered_def)
  have sum: "sum_list (map (length \<circ> ch_data) (chunk_docs i sz ?T m)) = min (m * sz) (length ?T)" for i sz m
    by (induction m) (auto simp: chunk_docs_def createChunkDoc_def chunk_of_def min_def)
  have "mset (ws_chunks ?s) = mset (chunk_docs (ws_id ?s) (ws_chunkSizeBytes ?s) ?T (ws_n ?s + (if ws_pos ?s > 0 then 1 else 0)))"
    using c r(2) by (simp add: closed_def core_def)
  then have "sum_list (map (length \<circ> ch_data) (ws_chunks ?s)) = sum_list (map (length \<circ> ch_data) (chunk_docs (ws_id ?s) (ws_chunkSizeBytes ?s) ?T (ws_n ?s + (if ws_pos ?s > 0 then 1 else 0))))"
    by (metis mset_map sum_mset_sum_list)
  then have "sum_list (map (length \<circ> ch_data) (ws_chunks ?s)) = length ?T" unfolding sum using n by (auto simp: min_def)
  then show ?thesis using f r by simp
qed

section \<open>An example\<close>

definition demo_stream :: writeStream where
  "demo_stream = GridFSBucketWriteStream_new (Some [7]) [1] ''notes'' (Some 4) 1024 False"

text \<open>Ten bytes in chunks of four: two writes before the indexes are ready; the inserts come back out of order.\<close>

definition demo_upload :: "(int \<times> gridStep) list" where
  "demo_upload = [(1, Write [1, 2, 3]), (2, Write [4, 5, 6, 7, 8]), (3, Indexed), (4, End (Some [9, 10])), (5, Inserted 2 None), (6, Inserted 1 None),
     (7, Inserted 0 None), (8, Inserted 0 None)]"

definition demo_file :: gridFSFile where
  "demo_file = \<lparr>gf_id = [7], gf_length = 10, gf_chunkSize = 4, gf_uploadDate = 7, gf_filename = ''notes'', gf_contentType = None, gf_aliases = None, gf_metadata = None\<rparr>"

lemma demo_upload_facts:
  "well_used False demo_upload" "written_by demo_upload = [1, 2, 3, 4, 5, 6, 7, 8, 9, 10]" "ws_files (grid_run demo_upload demo_stream) = [demo_file]"
  "map ch_n (ws_chunks (grid_run demo_upload demo_stream)) = [2, 1, 0]" "ws_streamEnd (grid_run demo_upload demo_stream)"
  "ws_checkedIndexes (grid_run demo_upload demo_stream)" "ws_inserts (grid_run demo_upload demo_stream) = []"
  by code_simp+

theorem grid_roundtrip_witness:
  "\<exists>n. read_data (read_all n (read_init (Inr (Some demo_file)) (ws_chunks (grid_run demo_upload demo_stream)) (GridFSBucketReadStream_new (Some (Some 3)) (Some (Some 9)))))
     = [4, 5, 6, 7, 8, 9]"
proof -
  have "good_range 3 9 (length (written_by demo_upload))" by (simp add: demo_upload_facts good_range_def)
  from grid_roundtrip [OF demo_stream_def [symmetric] _ demo_upload_facts(1,3) this]
  show ?thesis by (auto simp: demo_upload_facts part_def range_end_def Let_def)
qed

theorem upload_completes_witness:
  "\<exists>f. ws_files (grid_run demo_upload demo_stream) = [f] \<and> gf_length f = 10
     \<and> sum_list (map (length \<circ> ch_data) (ws_chunks (grid_run demo_upload demo_stream))) = 10"
  using upload_completes [OF demo_stream_def [symmetric] _ demo_upload_facts(1,5-7)] by (auto simp: demo_upload_facts(2))

section \<open>Where the ranges go wrong\<close>

text \<open>
  A start without an end is refused: the default of the end option is zero, and a start must not be
  greater than the end.
\<close>

theorem start_alone_refused:
  assumes "0 < start" "start \<le> int (gf_length f)"
  shows "\<exists>e. rs_events (read_init (Inr (Some f)) cks (GridFSBucketReadStream_new (Some (Some start)) None)) = [ReadError e]"
  using assms by (simp add: read_init_def GridFSBucketReadStream_new_def handleStartOption_def read_emit_def Let_def)

theorem start_alone_refused_witness:
  "\<exists>e. rs_events (read_init (Inr (Some demo_file)) [] (GridFSBucketReadStream_new (Some (Some 3)) None)) = [ReadError e]"
  by (rule start_alone_refused) (simp_all add: demo_file_def)

text \<open>
  An empty range that lies on a boundary between chunks reads the rest of the file: the limit of the
  cursor is the number of chunks, zero, and that means no limit.
\<close>

theorem empty_range_reads_rest:
  "read_data (read_all 5 (read_init (Inr (Some demo_file)) (ws_chunks (grid_run demo_upload demo_stream)) (GridFSBucketReadStream_new (Some (Some 4)) (Some (Some 4)))))
     = [5, 6, 7, 8, 9, 10]"
  by code_simp

section \<open>Revisions\<close>

text \<open>
  Revisions count from the oldest file of a name upwards from zero, and from the newest downwards from
  minus one; without a revision the newest is taken.
\<close>

theorem revisions_by_age:
  assumes f: "f \<in> set files" "gf_filename f = name"
  shows "(\<exists>g. find_by_name name (revision_query (Some 0)) files = Some g \<and> gf_filename g = name \<and> gf_uploadDate g \<le> gf_uploadDate f)
     \<and> (\<exists>g. find_by_name name (revision_query (Some (-1))) files = Some g \<and> gf_filename g = name \<and> gf_uploadDate f \<le> gf_uploadDate g)
     \<and> find_by_name name (revision_query None) files = find_by_name name (revision_query (Some (-1))) files"
proof -
  have first: "\<exists>g. (case sort_key k (filter (\<lambda>f. gf_filename f = name) files) of [] \<Rightarrow> None | g # _ \<Rightarrow> Some g) = Some g \<and> gf_filename g = name \<and> k g \<le> k f"
    for k :: "gridFSFile \<Rightarrow> int"
  proof -
    let ?zs = "sort_key k (filter (\<lambda>f. gf_filename f = name) files)"
    have fz: "f \<in> set ?zs" using f by simp
    then obtain g zs where z: "?zs = g # zs" by (cases ?zs) auto
    have "sorted (map k ?zs)" by simp
    then have "k g \<le> k f" using fz unfolding z by auto
    moreover have "g \<in> set ?zs" unfolding z by simp
    then have "gf_filename g = name" by simp
    ultimately show ?thesis unfolding z by simp
  qed
  show ?thesis using first [of "\<lambda>f. 1 * gf_uploadDate f"] first [of "\<lambda>f. -1 * gf_uploadDate f"]
    by (auto simp: find_by_name_def revision_query_def Let_def)
qed

theorem revisions_by_age_witness:
  "\<exists>g. find_by_name ''notes'' (revision_query (Some 0)) [demo_file\<lparr>gf_uploadDate := 9\<rparr>, demo_file] = Some g \<and> gf_uploadDate g \<le> 7"
  using revisions_by_age [of demo_file "[demo_file\<lparr>gf_uploadDate := 9\<rparr>, demo_file]" "''notes''"] by (auto simp: demo_file_def)

end
