(* ===== verification/Credentials.thy ===== *)
theory Credentials
  imports Documents
begin

text \<open>
  \<open>src/cmap/auth/providers.ts\<close> and \<open>src/cmap/auth/mongo_credentials.ts\<close>: the authentication
  mechanisms and the credentials of a client.  The name and the password given by the user, and the
  authentication source, may be any value.  A credentials object and its mechanism properties are
  frozen once constructed: \<open>props_arg\<close> says whether the properties a constructor is given already
  are, since assigning to a frozen object throws in strict mode.  The process environment is an
  argument.  Warnings are left out.
\<close>

section \<open>Mechanisms\<close>

definition MONGODB_AWS :: string where "MONGODB_AWS = ''MONGODB-AWS''"
definition MONGODB_CR :: string where "MONGODB_CR = ''MONGODB-CR''"
definition MONGODB_DEFAULT :: string where "MONGODB_DEFAULT = ''DEFAULT''"
definition MONGODB_GSSAPI :: string where "MONGODB_GSSAPI = ''GSSAPI''"
definition MONGODB_PLAIN :: string where "MONGODB_PLAIN = ''PLAIN''"
definition MONGODB_SCRAM_SHA1 :: string where "MONGODB_SCRAM_SHA1 = ''SCRAM-SHA-1''"
definition MONGODB_SCRAM_SHA256 :: string where "MONGODB_SCRAM_SHA256 = ''SCRAM-SHA-256''"
definition MONGODB_X509 :: string where "MONGODB_X509 = ''MONGODB-X509''"

definition AuthMechanisms :: "string list" where
  "AuthMechanisms = [MONGODB_AWS, MONGODB_CR, MONGODB_DEFAULT, MONGODB_GSSAPI, MONGODB_PLAIN,
     MONGODB_SCRAM_SHA1, MONGODB_SCRAM_SHA256, MONGODB_X509]"

definition AUTH_MECHS_AUTH_SRC_EXTERNAL :: "string list" where
  "AUTH_MECHS_AUTH_SRC_EXTERNAL = [MONGODB_GSSAPI, MONGODB_AWS, MONGODB_X509]"

lemmas mechanism_defs = MONGODB_AWS_def MONGODB_CR_def MONGODB_DEFAULT_def MONGODB_GSSAPI_def
  MONGODB_PLAIN_def MONGODB_SCRAM_SHA1_def MONGODB_SCRAM_SHA256_def MONGODB_X509_def

text \<open>The default mechanism for a hello reply.\<close>

definition getDefaultAuthMechanism :: "doc option \<Rightarrow> string" where
  "getDefaultAuthMechanism hello =
     (case hello of
        None \<Rightarrow> MONGODB_CR
      | Some h \<Rightarrow>
          (case fld ''saslSupportedMechs'' h of
             JArr ms \<Rightarrow> (if JStr MONGODB_SCRAM_SHA256 \<in> set ms then MONGODB_SCRAM_SHA256 else MONGODB_SCRAM_SHA1)
           | _ \<Rightarrow> (case fld ''maxWireVersion'' h of
                     JNum n \<Rightarrow> (if n \<ge> 3 then MONGODB_SCRAM_SHA1 else MONGODB_CR)
                   | _ \<Rightarrow> MONGODB_CR)))"

section \<open>Credentials\<close>

record mongoCredentials =
  mc_username :: jsval
  mc_password :: jsval
  mc_source :: jsval
  mc_mechanism :: string
  mc_mechanismProperties :: doc

type_synonym environment = "string \<Rightarrow> string option"

definition env_val :: "environment \<Rightarrow> string \<Rightarrow> jsval" where
  "env_val env k = (case env k of Some s \<Rightarrow> JStr s | None \<Rightarrow> JUndef)"

text \<open>\<open>s.match(/lit/i)\<close> for a literal.\<close>

definition match_i :: "string \<Rightarrow> string \<Rightarrow> bool" where
  "match_i lit s = contains_sub (toLowerCase lit) (toLowerCase s)"

datatype props_arg = Fresh doc | Frozen doc

fun props_doc :: "props_arg \<Rightarrow> doc" where
  "props_doc (Fresh d) = d"
| "props_doc (Frozen d) = d"

record credentialsOptions =
  co_username :: jsval
  co_password :: jsval
  co_source :: jsval
  co_db :: jsval
  co_mechanism :: "string option"
  co_mechanismProperties :: "props_arg option"

definition no_credentialsOptions :: credentialsOptions where
  "no_credentialsOptions = \<lparr>co_username = JUndef, co_password = JUndef, co_source = JUndef, co_db = JUndef,
     co_mechanism = None, co_mechanismProperties = None\<rparr>"

text \<open>\<open>a ?? b\<close>, and \<open>!a && b ? b : a\<close>.\<close>

definition or_else :: "jsval \<Rightarrow> jsval \<Rightarrow> jsval" where
  "or_else a b = (if nullish a then b else a)"

definition fill :: "jsval \<Rightarrow> jsval \<Rightarrow> jsval" where
  "fill a b = (if \<not> truthy a \<and> truthy b then b else a)"

definition aws_properties :: "environment \<Rightarrow> props_arg \<Rightarrow> props_arg" where
  "aws_properties env p =
     (if nullish (fld ''AWS_SESSION_TOKEN'' (props_doc p)) \<and> env ''AWS_SESSION_TOKEN'' \<noteq> None
      then Fresh (map_set ''AWS_SESSION_TOKEN'' (env_val env ''AWS_SESSION_TOKEN'') (props_doc p))
      else p)"

text \<open>The deprecated name of the canonicalisation property is copied to the new one.\<close>

definition canonicalize_property :: "props_arg \<Rightarrow> mongoError + doc" where
  "canonicalize_property p =
     (if map_has (props_doc p) ''gssapiCanonicalizeHostName'' then
        (case p of
           Frozen d \<Rightarrow> Inl (js_type_error ''Cannot assign to read only property'')
         | Fresh d \<Rightarrow> Inr (map_set ''CANONICALIZE_HOST_NAME'' (fld ''gssapiCanonicalizeHostName'' d) d))
      else Inr (props_doc p))"

definition MongoCredentials_new :: "environment \<Rightarrow> credentialsOptions \<Rightarrow> mongoError + mongoCredentials" where
  "MongoCredentials_new env co =
     (let source = fill (co_source co) (co_db co);
          mechanism = (case co_mechanism co of Some m \<Rightarrow> (if m = [] then MONGODB_DEFAULT else m) | None \<Rightarrow> MONGODB_DEFAULT);
          properties = the_default (Fresh []) (co_mechanismProperties co);
          aws = match_i ''MONGODB-AWS'' mechanism;
          username = (if aws then fill (co_username co) (env_val env ''AWS_ACCESS_KEY_ID'') else co_username co);
          password = (if aws then fill (co_password co) (env_val env ''AWS_SECRET_ACCESS_KEY'') else co_password co);
          properties' = (if aws then aws_properties env properties else properties)
      in rbind (canonicalize_property properties') (\<lambda>d.
           Inr \<lparr>mc_username = username, mc_password = password, mc_source = source,
                mc_mechanism = mechanism, mc_mechanismProperties = d\<rparr>))"

definition MongoCredentials_equals :: "mongoCredentials \<Rightarrow> mongoCredentials \<Rightarrow> bool" where
  "MongoCredentials_equals a b =
     (mc_mechanism a = mc_mechanism b \<and> mc_username a = mc_username b \<and> mc_password a = mc_password b
      \<and> mc_source a = mc_source b)"

definition resolveAuthMechanism :: "environment \<Rightarrow> mongoCredentials \<Rightarrow> doc option \<Rightarrow> mongoError + mongoCredentials" where
  "resolveAuthMechanism env c hello =
     (if match_i ''DEFAULT'' (mc_mechanism c)
      then MongoCredentials_new env
             \<lparr>co_username = mc_username c, co_password = mc_password c, co_source = mc_source c, co_db = JUndef,
              co_mechanism = Some (getDefaultAuthMechanism hello),
              co_mechanismProperties = Some (Frozen (mc_mechanismProperties c))\<rparr>
      else Inr c)"

definition GSSAPICanonicalizationValues :: "jsval list" where
  "GSSAPICanonicalizationValues =
     [JBool True, JBool False, JStr ''none'', JStr ''forward'', JStr ''forwardAndReverse'']"

definition mechs_with_username :: "string list" where
  "mechs_with_username = [MONGODB_GSSAPI, MONGODB_CR, MONGODB_PLAIN, MONGODB_SCRAM_SHA1, MONGODB_SCRAM_SHA256]"

text \<open>
  \<open>validate\<close> throws or returns nothing: its \<open>Reflect.set\<close> of the password has no effect on the
  frozen object, and returns before the canonicalisation value is looked at.
\<close>

definition MongoCredentials_validate :: "mongoCredentials \<Rightarrow> mongoError + unit" where
  "MongoCredentials_validate c =
     (let m = mc_mechanism c in
      if m \<in> set mechs_with_username \<and> \<not> truthy (mc_username c)
      then Inl (mk_error MongoMissingCredentialsError ''Username required for mechanism'')
      else if m \<in> set AUTH_MECHS_AUTH_SRC_EXTERNAL \<and> \<not> nullish (mc_source c) \<and> mc_source c \<noteq> JStr ''$external''
      then Inl (mk_error MongoAPIError ''Invalid source for mechanism specified.'')
      else if m = MONGODB_PLAIN \<and> nullish (mc_source c)
      then Inl (mk_error MongoAPIError ''PLAIN Authentication Mechanism needs an auth source'')
      else if m = MONGODB_X509 \<and> \<not> nullish (mc_password c)
      then (if mc_password c = JStr [] then Inr ()
            else Inl (mk_error MongoAPIError ''Password not allowed for mechanism MONGODB-X509''))
      else if or_else (fld ''CANONICALIZE_HOST_NAME'' (mc_mechanismProperties c)) (JBool False)
                \<notin> set GSSAPICanonicalizationValues
      then Inl (mk_error MongoAPIError ''Invalid CANONICALIZE_HOST_NAME value'')
      else Inr ())"

definition MongoCredentials_merge ::
    "environment \<Rightarrow> mongoCredentials option \<Rightarrow> credentialsOptions \<Rightarrow> mongoError + mongoCredentials" where
  "MongoCredentials_merge env creds co =
     (let c = (\<lambda>f. case creds of Some x \<Rightarrow> f x | None \<Rightarrow> JUndef) in
      MongoCredentials_new env
        \<lparr>co_username = or_else (co_username co) (or_else (c mc_username) (JStr [])),
         co_password = or_else (co_password co) (or_else (c mc_password) (JStr [])),
         co_source = or_else (co_source co) (or_else (co_db co) (or_else (c mc_source) (JStr ''admin''))),
         co_db = JUndef,
         co_mechanism = Some (the_default MONGODB_DEFAULT (coalesce (co_mechanism co) (map_option mc_mechanism creds))),
         co_mechanismProperties = Some (the_default (Fresh [])
           (coalesce (co_mechanismProperties co) (map_option (\<lambda>x. Frozen (mc_mechanismProperties x)) creds)))\<rparr>)"

section \<open>What credentials keep\<close>

text \<open>The credentials a constructor returns have been given the mechanism asked for.\<close>

lemma new_mechanism:
  "MongoCredentials_new env co = Inr c \<Longrightarrow> co_mechanism co = Some m \<Longrightarrow> m \<noteq> [] \<Longrightarrow> mc_mechanism c = m"
  by (auto simp: MongoCredentials_new_def Let_def canonicalize_property_def split: if_splits props_arg.splits)

lemma new_defined:
  "MongoCredentials_new env co = Inr c \<Longrightarrow> \<not> nullish (co_source co) \<Longrightarrow> \<not> nullish (mc_source c)"
  by (auto simp: MongoCredentials_new_def Let_def canonicalize_property_def fill_def nullish_def
      split: if_splits props_arg.splits)

lemma nullish_or_else [simp]: "nullish (or_else a b) \<longleftrightarrow> nullish a \<and> nullish b"
  by (simp add: or_else_def)

lemma nullish_simps [simp]: "nullish JUndef" "nullish JNull" "\<not> nullish (JStr s)" "\<not> nullish (JNum n)"
  "\<not> nullish (JBool b)" "\<not> nullish (JDoc d)" "\<not> nullish (JArr vs)"
  by (simp_all add: nullish_def)

lemma merge_defined: "MongoCredentials_merge env creds co = Inr c \<Longrightarrow> \<not> nullish (mc_source c)"
  unfolding MongoCredentials_merge_def Let_def by (drule new_defined) simp_all

lemma merge_mechanism:
  assumes "MongoCredentials_merge env creds co = Inr c"
    and "co_mechanism co \<noteq> Some []" "\<And>x. creds = Some x \<Longrightarrow> mc_mechanism x \<noteq> []"
  shows "mc_mechanism c = the_default MONGODB_DEFAULT (coalesce (co_mechanism co) (map_option mc_mechanism creds))"
proof -
  have "the_default MONGODB_DEFAULT (coalesce (co_mechanism co) (map_option mc_mechanism creds)) \<noteq> []"
    using assms(2, 3) by (cases "co_mechanism co"; cases creds) (auto simp: the_default_def MONGODB_DEFAULT_def)
  then show ?thesis
    using new_mechanism [OF assms(1) [unfolded MongoCredentials_merge_def Let_def]] by simp
qed

end
