(* ===== verification/Client_Options.thy ===== *)
theory Client_Options
  imports Credentials Transactions
begin

text \<open>
  \<open>src/connection_string.ts\<close>, \<open>parseOptions\<close> and its table of options, with the parts of
  \<open>src/utils.ts\<close>, \<open>src/write_concern.ts\<close>, \<open>src/read_concern.ts\<close> and \<open>src/read_preference.ts\<close> it
  calls on values the user gives, which may be of any type.  The parsed connection string (a
  third-party package), the files read, the regular expression engine for patterns with
  metacharacters and the construction of the encrypter are fields of the argument \<open>host\<close>, with the
  process and operating system values.  Numbers are integers, strings are ASCII, and warnings are left
  out.  An array given as an option holds no instances of the driver's classes.
\<close>

section \<open>Option values\<close>

datatype instClass = CReadPreference | CWriteConcern | CReadConcern | CLogger | COther string

datatype optval = Plain jsval | Inst instClass doc | Creds mongoCredentials

type_synonym optmap = "(string, optval) jsmap"

fun opt_nullish :: "optval \<Rightarrow> bool" where
  "opt_nullish (Plain v) = nullish v"
| "opt_nullish _ = False"

fun opt_truthy :: "optval \<Rightarrow> bool" where
  "opt_truthy (Plain v) = truthy v"
| "opt_truthy _ = True"

text \<open>\<open>String(v)\<close>, and \<open>{...v}\<close> of an option.\<close>

fun opt_show :: "optval \<Rightarrow> string" where
  "opt_show (Plain v) = js_show v"
| "opt_show _ = ''[object Object]''"

fun opt_props :: "optval \<Rightarrow> doc" where
  "opt_props (Plain v) = props_of v"
| "opt_props (Inst _ d) = d"
| "opt_props (Creds c) = [(''username'', mc_username c), (''password'', mc_password c), (''source'', mc_source c),
     (''mechanism'', JStr (mc_mechanism c)), (''mechanismProperties'', JDoc (mc_mechanismProperties c))]"

definition opt_get :: "string \<Rightarrow> optmap \<Rightarrow> optval" where
  "opt_get k m = the_default (Plain JUndef) (map_of m k)"

fun is_inst :: "instClass \<Rightarrow> optval \<Rightarrow> bool" where
  "is_inst c (Inst d _) = (c = d)"
| "is_inst c _ = False"

text \<open>\<open>v > 0\<close> of a number, \<open>v <= 0\<close> of any value, and \<open>Number(v)\<close> (\<^term>\<open>None\<close> is \<open>NaN\<close>).\<close>

fun to_number :: "jsval \<Rightarrow> int option" where
  "to_number JUndef = None"
| "to_number JNull = Some 0"
| "to_number (JBool b) = Some (if b then 1 else 0)"
| "to_number (JNum n) = Some n"
| "to_number JNaN = None"
| "to_number v = js_Number (js_show v)"

definition js_positive :: "optval \<Rightarrow> bool" where
  "js_positive v = (case v of Plain j \<Rightarrow> (case to_number j of Some n \<Rightarrow> n > 0 | None \<Rightarrow> False) | _ \<Rightarrow> False)"

definition js_le0 :: "jsval \<Rightarrow> bool" where
  "js_le0 v = (case to_number v of Some n \<Rightarrow> n \<le> 0 | None \<Rightarrow> False)"

text \<open>
  \<open>isRecord\<close>: a plain object whose own \<open>constructor\<close>, if any, has no prototype or one that looks
  like \<open>Object.prototype\<close>; a function's prototype does not.
\<close>

definition plain_ctor :: "jsval \<Rightarrow> bool" where
  "plain_ctor ctor =
     (case ctor of
        JFun _ \<Rightarrow> False
      | _ \<Rightarrow>
          (let p = get_prop ''prototype'' ctor in
           \<not> truthy p \<or> (case p of JDoc d \<Rightarrow> map_has d ''isPrototypeOf'' | _ \<Rightarrow> False)))"

definition isRecord :: "string list \<Rightarrow> optval \<Rightarrow> bool" where
  "isRecord requiredKeys v =
     (case v of
        Plain (JDoc d) \<Rightarrow>
          (\<not> truthy (fld ''constructor'' d) \<or> plain_ctor (fld ''constructor'' d)) \<and> isSuperset (map_keys d) requiredKeys
      | _ \<Rightarrow> False)"

section \<open>What the options are parsed with\<close>

record connectionString =
  cs_hosts :: "string list"
  cs_isSRV :: bool
  cs_pathname :: string
  cs_username :: string
  cs_password :: "string option"
  cs_searchParams :: "(string \<times> string list) list"

record host =
  h_env :: environment
  h_driverVersion :: string
  h_osType :: string
  h_platform :: string
  h_arch :: string
  h_osRelease :: string
  h_nodeVersion :: string
  h_endianness :: string
  h_readFile :: "string \<Rightarrow> mongoError + string"
  h_regexp :: "string \<Rightarrow> string \<Rightarrow> mongoError + bool"
  h_connectionString :: "string \<Rightarrow> mongoError + connectionString"
  h_encrypter :: "string \<Rightarrow> optmap \<Rightarrow> mongoError + (optval \<times> optval)"

definition parse_error :: "string \<Rightarrow> mongoError" where
  "parse_error m = mk_error MongoParseError m"

section \<open>Converting values\<close>

definition TRUTHS :: "string list" where "TRUTHS = [''true'', ''t'', ''1'', ''y'', ''yes'']"
definition FALSEHOODS :: "string list" where "FALSEHOODS = [''false'', ''f'', ''0'', ''n'', ''no'', ''-1'']"

definition getBoolean :: "string \<Rightarrow> optval \<Rightarrow> mongoError + bool" where
  "getBoolean name v =
     (case v of
        Plain (JBool b) \<Rightarrow> Inr b
      | _ \<Rightarrow>
          (let s = toLowerCase (opt_show v) in
           if s \<in> set TRUTHS then Inr True
           else if s \<in> set FALSEHOODS then Inr False
           else Inl (parse_error (''Expected '' @ name @ '' to be stringified boolean value''))))"

text \<open>\<open>Number.parseInt(s, 10)\<close>: the digits at the front, after blanks and a sign.\<close>

definition parseInt :: "string \<Rightarrow> int option" where
  "parseInt s =
     (let t = dropWhile (\<lambda>c. c = CHR '' '' \<or> of_char c \<in> {9 :: nat, 10, 11, 12, 13}) s;
          neg = (t \<noteq> [] \<and> hd t = CHR ''-'');
          r = (if t \<noteq> [] \<and> (hd t = CHR ''-'' \<or> hd t = CHR ''+'') then tl t else t);
          ds = takeWhile is_digit r
      in if ds = [] then None else Some (if neg then - int (parse_nat ds) else int (parse_nat ds)))"

definition getInt :: "string \<Rightarrow> optval \<Rightarrow> mongoError + jsval" where
  "getInt name v =
     (case v of
        Plain (JNum n) \<Rightarrow> Inr (JNum n)
      | Plain JNaN \<Rightarrow> Inr JNaN
      | _ \<Rightarrow> (case parseInt (opt_show v) of
                Some n \<Rightarrow> Inr (JNum n)
              | None \<Rightarrow> Inl (parse_error (''Expected '' @ name @ '' to be stringified int value''))))"

definition getUint :: "string \<Rightarrow> optval \<Rightarrow> mongoError + jsval" where
  "getUint name v =
     rbind (getInt name v) (\<lambda>n.
       (case n of
          JNum i \<Rightarrow> if i < 0 then Inl (parse_error (name @ '' can only be a positive int value'')) else Inr n
        | _ \<Rightarrow> Inr n))"

definition toArray :: "optval \<Rightarrow> optval list" where
  "toArray v = (case v of Plain (JArr vs) \<Rightarrow> map Plain vs | _ \<Rightarrow> [v])"

fun entries_of :: "string list \<Rightarrow> mongoError + (string \<times> string) list" where
  "entries_of [] = Inr []"
| "entries_of (kv # kvs) =
     (case split_char (CHR '':'') kv of
        key # value # _ \<Rightarrow> rbind (entries_of kvs) (\<lambda>es. Inr ((key, value) # es))
      | _ \<Rightarrow> Inl (parse_error ''Cannot have undefined values in key value pairs''))"

definition entriesFromString :: "string \<Rightarrow> mongoError + (string \<times> string) list" where
  "entriesFromString value = entries_of (split_char (CHR '','') value)"

text \<open>\<open>CaseInsensitiveMap\<close>.\<close>

definition cim_set :: "string \<Rightarrow> 'v \<Rightarrow> (string, 'v) jsmap \<Rightarrow> (string, 'v) jsmap" where
  "cim_set k v m = map_set (toLowerCase k) v m"

definition cim_get :: "string \<Rightarrow> (string, 'v) jsmap \<Rightarrow> 'v option" where
  "cim_get k m = map_of m (toLowerCase k)"

definition cim_has :: "string \<Rightarrow> (string, 'v) jsmap \<Rightarrow> bool" where
  "cim_has k m = map_has m (toLowerCase k)"

definition cim_delete :: "string \<Rightarrow> (string, 'v) jsmap \<Rightarrow> (string, 'v) jsmap" where
  "cim_delete k m = map_delete (toLowerCase k) m"

definition cim_new :: "(string \<times> 'v) list \<Rightarrow> (string, 'v) jsmap" where
  "cim_new entries = fold (\<lambda>(k, v). cim_set k v) entries []"

section \<open>Client metadata\<close>

text \<open>The name of the application is cut at 128 bytes.\<close>

definition makeClientMetadata :: "host \<Rightarrow> doc \<Rightarrow> doc" where
  "makeClientMetadata h options =
     (let driverInfo = fld ''driverInfo'' options;
          info = truthy driverInfo;
          iname = get_prop ''name'' driverInfo;
          iversion = get_prop ''version'' driverInfo;
          iplatform = get_prop ''platform'' driverInfo;
          name = (if info \<and> truthy iname then ''nodejs|'' @ js_show iname else ''nodejs'');
          platform0 = ''Node.js '' @ h_nodeVersion h @ '', '' @ h_endianness h @ '' (unified)'';
          platform = (if info \<and> truthy iplatform then platform0 @ ''|'' @ js_show iplatform else platform0);
          appName = fld ''appName'' options;
          m0 = [(''driver'', JDoc [(''name'', JStr name), (''version'', JStr (h_driverVersion h))]),
                (''os'', JDoc [(''type'', JStr (h_osType h)), (''name'', JStr (h_platform h)),
                   (''architecture'', JStr (h_arch h)), (''version'', JStr (h_osRelease h))]),
                (''platform'', JStr platform)];
          m1 = set_if (info \<and> truthy iversion) ''version'' (JStr (h_driverVersion h @ ''|'' @ js_show iversion)) m0
      in set_if (truthy appName) ''application''
           (JDoc [(''name'', if length (js_show appName) > 128 then JStr (take 128 (js_show appName)) else appName)]) m1)"

section \<open>Concerns and preferences from values of any type\<close>

text \<open>\<open>WriteConcern.fromOptions({ writeConcern: d })\<close> and the constructor.\<close>

definition writeConcern_new :: "jsval \<Rightarrow> jsval \<Rightarrow> jsval \<Rightarrow> jsval \<Rightarrow> optval" where
  "writeConcern_new w wtimeout j fsync =
     Inst CWriteConcern
       (set_if (\<not> nullish fsync) ''fsync'' fsync
         (set_if (\<not> nullish j) ''j'' j
           (set_if (\<not> nullish wtimeout) ''wtimeout'' wtimeout
             (set_if (\<not> nullish w) ''w'' (case to_number w of Some n \<Rightarrow> JNum n | None \<Rightarrow> w) []))))"

definition writeConcern_from :: "doc \<Rightarrow> optval" where
  "writeConcern_from d =
     (if list_ex (\<lambda>k. \<not> nullish (fld k d)) [''w'', ''wtimeout'', ''wtimeoutMS'', ''j'', ''journal'', ''fsync'']
      then writeConcern_new (fld ''w'' d) (or_else (fld ''wtimeout'' d) (fld ''wtimeoutMS'' d))
             (or_else (fld ''j'' d) (fld ''journal'' d)) (fld ''fsync'' d)
      else Plain JUndef)"

text \<open>\<open>new ReadConcern(level)\<close>, and \<open>ReadConcern.fromOptions(d)\<close>.\<close>

definition readConcern_new :: "jsval \<Rightarrow> optval" where
  "readConcern_new level = Inst CReadConcern [(''level'', level)]"

definition readConcern_from :: "doc \<Rightarrow> mongoError + optval" where
  "readConcern_from d =
     (let rc = fld ''readConcern'' d;
          by_level = (if truthy (fld ''level'' d) then readConcern_new (fld ''level'' d) else Plain JUndef)
      in if \<not> truthy rc then Inr by_level
         else (case rc of
                 JStr s \<Rightarrow> Inr (readConcern_new rc)
               | JBool _ \<Rightarrow> Inl (js_type_error ''Cannot use 'in' operator'')
               | JNum _ \<Rightarrow> Inl (js_type_error ''Cannot use 'in' operator'')
               | _ \<Rightarrow> if truthy (get_prop ''level'' rc) then Inr (readConcern_new (get_prop ''level'' rc)) else Inr by_level))"

text \<open>\<open>new ReadPreference(mode, tags, options)\<close>.\<close>

definition valid_mode :: "jsval \<Rightarrow> bool" where
  "valid_mode mode = (case mode of JNull \<Rightarrow> ReadPreference_isValid None | JStr s \<Rightarrow> ReadPreference_isValid (Some s) | _ \<Rightarrow> False)"

fun is_array :: "jsval \<Rightarrow> bool" where
  "is_array (JArr _) = True"
| "is_array _ = False"

fun array_length :: "jsval \<Rightarrow> nat" where
  "array_length (JArr vs) = length vs"
| "array_length _ = 0"

definition readPreference_new :: "jsval \<Rightarrow> jsval \<Rightarrow> jsval \<Rightarrow> mongoError + optval" where
  "readPreference_new mode tags0 options0 =
     (let swapped = (nullish options0 \<and> (tags0 = JNull \<or> is_object tags0) \<and> \<not> is_array tags0);
          options = (if swapped then tags0 else options0);
          tags = (if swapped then JUndef else tags0);
          hedge = get_prop ''hedge'' options;
          ms = get_prop ''maxStalenessSeconds'' options;
          primary = (mode = JStr ''primary'')
      in if \<not> valid_mode mode then Inl (invalid_argument ''Invalid read preference mode'')
         else if \<not> swapped \<and> truthy tags0 \<and> \<not> is_array tags0
         then Inl (invalid_argument ''ReadPreference tags must be an array'')
         else if \<not> nullish ms \<and> js_le0 ms
         then Inl (invalid_argument ''maxStalenessSeconds must be a positive integer'')
         else if primary \<and> array_length tags > 0
         then Inl (invalid_argument ''Primary read preference cannot be combined with tags'')
         else if primary \<and> truthy ms
         then Inl (invalid_argument ''Primary read preference cannot be combined with maxStalenessSeconds'')
         else if primary \<and> truthy hedge
         then Inl (invalid_argument ''Primary read preference cannot be combined with hedge'')
         else Inr (Inst CReadPreference
                [(''mode'', mode), (''tags'', tags), (''hedge'', hedge),
                 (''maxStalenessSeconds'', if nullish ms then JUndef else ms),
                 (''minWireVersion'', if nullish ms then JUndef else JNum 5)]))"

text \<open>The static \<open>ReadPreference.primary\<close>.\<close>

definition readPreference_primary :: optval where
  "readPreference_primary = Inst CReadPreference
     [(''mode'', JStr ''primary''), (''tags'', JUndef), (''hedge'', JUndef), (''maxStalenessSeconds'', JUndef),
      (''minWireVersion'', JUndef)]"

text \<open>
  \<open>ReadPreference.fromOptions\<close>: \<open>rp\<close> is \<open>options.readPreference\<close>, \<open>d\<close> the other options, which
  hold no session here.  An instance, or a value without a mode, is returned with its tags replaced.
\<close>

definition or_truthy :: "jsval \<Rightarrow> jsval \<Rightarrow> jsval" where
  "or_truthy a b = (if truthy a then a else b)"

fun set_tags :: "jsval \<Rightarrow> optval \<Rightarrow> mongoError + optval" where
  "set_tags tags (Inst c d) = Inr (Inst c (map_set ''tags'' tags d))"
| "set_tags tags (Plain (JDoc d)) = Inr (Plain (JDoc (map_set ''tags'' tags d)))"
| "set_tags tags (Plain (JBool b)) = Inl (js_type_error ''Cannot create property 'tags' '')"
| "set_tags tags (Plain (JNum n)) = Inl (js_type_error ''Cannot create property 'tags' '')"
| "set_tags tags v = Inr v"

definition readPreference_from :: "optval \<Rightarrow> doc \<Rightarrow> mongoError + optval" where
  "readPreference_from rp d =
     (let tags = fld ''readPreferenceTags'' d;
          rest = (if truthy tags then set_tags tags rp else Inr rp)
      in if opt_nullish rp then Inr (Plain JUndef)
         else (case rp of
                 Plain (JStr s) \<Rightarrow>
                   readPreference_new (JStr s) tags
                     (JDoc [(''maxStalenessSeconds'', fld ''maxStalenessSeconds'' d), (''hedge'', fld ''hedge'' d)])
               | Plain v \<Rightarrow>
                   (let mode = or_truthy (get_prop ''mode'' v) (get_prop ''preference'' v) in
                    if is_object v \<and> truthy mode \<and> is_string mode
                    then readPreference_new mode (or_else (get_prop ''tags'' v) tags)
                           (JDoc [(''maxStalenessSeconds'', get_prop ''maxStalenessSeconds'' v), (''hedge'', fld ''hedge'' d)])
                    else rest)
               | _ \<Rightarrow> rest))"

section \<open>The options that need more than a conversion\<close>

type_synonym transform = "host \<Rightarrow> string \<Rightarrow> optmap \<Rightarrow> optval list \<Rightarrow> mongoError + (optmap \<times> optval)"

definition first_value :: "optval list \<Rightarrow> optval" where
  "first_value vs = (case vs of [] \<Rightarrow> Plain JUndef | v # _ \<Rightarrow> v)"

text \<open>A transform that leaves the options as they are.\<close>

definition pure_transform :: "optmap \<Rightarrow> mongoError + optval \<Rightarrow> mongoError + (optmap \<times> optval)" where
  "pure_transform options r = rbind r (\<lambda>v. Inr (options, v))"

definition creds_of :: "optmap \<Rightarrow> mongoCredentials option" where
  "creds_of options = (case map_of options ''credentials'' of Some (Creds c) \<Rightarrow> Some c | _ \<Rightarrow> None)"

definition merge_creds :: "host \<Rightarrow> optmap \<Rightarrow> credentialsOptions \<Rightarrow> mongoError + (optmap \<times> optval)" where
  "merge_creds h options co =
     pure_transform options (rbind (MongoCredentials_merge (h_env h) (creds_of options) co) (\<lambda>c. Inr (Creds c)))"

definition appName_transform :: transform where
  "appName_transform h name options values =
     Inr (options, Plain (JDoc (makeClientMetadata h
       (map_set ''appName'' (JStr (opt_show (first_value values))) (opt_props (opt_get ''driverInfo'' options))))))"

definition auth_transform :: transform where
  "auth_transform h name options values =
     (let v = first_value values in
      if \<not> isRecord [''username'', ''password''] v
      then Inl (parse_error (name @ '' must be an object with 'username' and 'password' properties''))
      else merge_creds h options (no_credentialsOptions\<lparr>co_username := fld ''username'' (opt_props v),
             co_password := fld ''password'' (opt_props v)\<rparr>))"

text \<open>
  The mechanism is the first whose name matches the value between word boundaries, as a regular
  expression that ignores case.
\<close>

definition is_word :: "char \<Rightarrow> bool" where
  "is_word c = (let n = (of_char c :: nat) in
     (48 \<le> n \<and> n \<le> 57) \<or> (65 \<le> n \<and> n \<le> 90) \<or> (97 \<le> n \<and> n \<le> 122) \<or> n = 95)"

definition word_boundary :: "string \<Rightarrow> nat \<Rightarrow> bool" where
  "word_boundary s i = ((i > 0 \<and> i \<le> length s \<and> is_word (s ! (i - 1))) \<noteq> (i < length s \<and> is_word (s ! i)))"

definition word_match :: "string \<Rightarrow> string \<Rightarrow> bool" where
  "word_match lit s =
     list_ex (\<lambda>i. take (length lit) (drop i s) = lit \<and> i + length lit \<le> length s \<and> word_boundary s i
                  \<and> word_boundary s (i + length lit)) [0..<length s + 1]"

definition is_meta :: "char \<Rightarrow> bool" where
  "is_meta c = (c \<in> set ''^$.|?*+()[]{}'' \<or> c = CHR 0x5C)"

definition mechanism_matches :: "host \<Rightarrow> string \<Rightarrow> string \<Rightarrow> mongoError + bool" where
  "mechanism_matches h value m =
     (if list_ex is_meta value then h_regexp h (CHR 0x5C # ''b'' @ value @ CHR 0x5C # ''b'') m
      else Inr (word_match (toLowerCase value) (toLowerCase m)))"

fun matching_mechanisms :: "host \<Rightarrow> string \<Rightarrow> string list \<Rightarrow> mongoError + string list" where
  "matching_mechanisms h value [] = Inr []"
| "matching_mechanisms h value (m # ms) =
     rbind (mechanism_matches h value m) (\<lambda>b. rbind (matching_mechanisms h value ms) (\<lambda>r. Inr (if b then m # r else r)))"

definition authMechanism_transform :: transform where
  "authMechanism_transform h name options values =
     rbind (matching_mechanisms h (opt_show (first_value values)) AuthMechanisms) (\<lambda>ms.
       (case ms of
          [] \<Rightarrow> Inl (parse_error ''authMechanism not one of the mechanisms'')
        | mechanism # _ \<Rightarrow>
            (let source = (if mechanism = MONGODB_PLAIN \<or> mechanism \<in> set AUTH_MECHS_AUTH_SRC_EXTERNAL then JStr ''$external''
                   else (case creds_of options of Some c \<Rightarrow> mc_source c | None \<Rightarrow> JUndef));
                 password0 = (case creds_of options of Some c \<Rightarrow> mc_password c | None \<Rightarrow> JUndef);
                 password = (if mechanism = MONGODB_X509 \<and> password0 = JStr [] then JUndef else password0)
             in merge_creds h options (no_credentialsOptions\<lparr>co_mechanism := Some mechanism, co_source := source,
                  co_password := password\<rparr>))))"

definition property_value :: "string \<Rightarrow> string \<Rightarrow> jsval" where
  "property_value key value = (case getBoolean key (Plain (JStr value)) of Inr b \<Rightarrow> JBool b | Inl _ \<Rightarrow> JStr value)"

definition authMechanismProperties_transform :: transform where
  "authMechanismProperties_transform h name options values =
     (let v = first_value values in
      case v of
        Plain (JStr s) \<Rightarrow>
          rbind (entriesFromString s) (\<lambda>es.
            merge_creds h options (no_credentialsOptions\<lparr>co_mechanismProperties :=
              Some (Fresh (fold (\<lambda>(k, x). map_set k (property_value k x)) es []))\<rparr>))
      | _ \<Rightarrow>
          if \<not> isRecord [] v then Inl (parse_error ''AuthMechanismProperties must be an object'')
          else merge_creds h options (no_credentialsOptions\<lparr>co_mechanismProperties := Some (Fresh (opt_props v))\<rparr>))"

definition authSource_transform :: transform where
  "authSource_transform h name options values =
     merge_creds h options (no_credentialsOptions\<lparr>co_source := JStr (opt_show (first_value values))\<rparr>)"

definition ServerApiVersions :: "jsval list" where
  "ServerApiVersions = [JStr ''1'']"

definition serverApi_transform :: transform where
  "serverApi_transform h name options values =
     (let v = first_value values;
          api = (case v of Plain (JStr s) \<Rightarrow> Plain (JDoc [(''version'', JStr s)]) | _ \<Rightarrow> v);
          version = (if opt_truthy api then fld ''version'' (opt_props api) else JUndef)
      in if \<not> truthy version then Inl (parse_error ''Invalid `serverApi` property; must specify a version'')
         else if version \<notin> set ServerApiVersions then Inl (parse_error ''Invalid server API version'')
         else Inr (options, api))"

definition Compressors :: "string list" where
  "Compressors = [''none'', ''snappy'', ''zlib'']"

fun add_compressors :: "string list \<Rightarrow> string list \<Rightarrow> mongoError + string list" where
  "add_compressors [] acc = Inr acc"
| "add_compressors (c # cs) acc =
     (if c \<in> set Compressors then add_compressors cs (if c \<in> set acc then acc else acc @ [c])
      else Inl (invalid_argument ''not a valid compression mechanism''))"

fun compression_list :: "optval list \<Rightarrow> string list \<Rightarrow> mongoError + string list" where
  "compression_list [] acc = Inr acc"
| "compression_list (v # vs) acc =
     (case v of
        Plain (JStr s) \<Rightarrow> rbind (add_compressors (split_char (CHR '','') s) acc) (compression_list vs)
      | Plain (JArr cs) \<Rightarrow> rbind (add_compressors (map js_show cs) acc) (compression_list vs)
      | _ \<Rightarrow> Inl (invalid_argument ''compressors must be an array or a comma-delimited list of strings''))"

definition compressors_transform :: transform where
  "compressors_transform h name options values =
     rbind (compression_list values []) (\<lambda>cs. Inr (options, Plain (JArr (map JStr cs))))"

definition driverInfo_transform :: transform where
  "driverInfo_transform h name options values =
     (let v = first_value values in
      if \<not> isRecord [] v then Inl (parse_error ''DriverInfo must be an object'')
      else Inr (options, Plain (JDoc (makeClientMetadata h
             [(''driverInfo'', JDoc (opt_props v)),
              (''appName'', get_prop ''name'' (fld ''application'' (opt_props (opt_get ''metadata'' options))))]))))"

definition family_transform :: transform where
  "family_transform h name options values =
     rbind (getInt name (first_value values)) (\<lambda>n.
       if n = JNum 4 \<or> n = JNum 6 then Inr (options, Plain n)
       else Inl (parse_error ''Option 'family' must be 4 or 6''))"

text \<open>Adding one field to the write concern so far; \<open>undefined\<close> is refused where the code does.\<close>

definition wc_with :: "optmap \<Rightarrow> doc \<Rightarrow> optval" where
  "wc_with options d = writeConcern_from (assign (opt_props (opt_get ''writeConcern'' options)) d)"

definition wc_checked :: "optmap \<Rightarrow> optval \<Rightarrow> mongoError + (optmap \<times> optval)" where
  "wc_checked options wc =
     (if opt_truthy wc then Inr (options, wc) else Inl (parse_error ''Unable to make a writeConcern''))"

definition fsync_transform :: transform where
  "fsync_transform h name options values =
     rbind (getBoolean name (first_value values)) (\<lambda>b. wc_checked options (wc_with options [(''fsync'', JBool b)]))"

definition journal_transform :: transform where
  "journal_transform h name options values =
     rbind (getBoolean name (first_value values)) (\<lambda>b. wc_checked options (wc_with options [(''journal'', JBool b)]))"

definition wtimeout_transform :: transform where
  "wtimeout_transform h name options values =
     rbind (getUint ''wtimeout'' (first_value values)) (\<lambda>n. wc_checked options (wc_with options [(''wtimeout'', n)]))"

definition wtimeoutMS_transform :: transform where
  "wtimeoutMS_transform h name options values =
     rbind (getUint ''wtimeoutMS'' (first_value values)) (\<lambda>n. wc_checked options (wc_with options [(''wtimeoutMS'', n)]))"

text \<open>An instance or an object as \<open>w\<close> is not a number and is kept; only its properties are seen here.\<close>

definition value_of :: "optval \<Rightarrow> jsval" where
  "value_of v = (case v of Plain j \<Rightarrow> j | _ \<Rightarrow> JDoc (opt_props v))"

definition w_transform :: transform where
  "w_transform h name options values =
     Inr (options, wc_with options [(''w'', value_of (first_value values))])"

definition writeConcern_transform :: transform where
  "writeConcern_transform h name options values =
     (let v = first_value values in
      if isRecord [] v \<or> is_inst CWriteConcern v then Inr (options, wc_with options (opt_props v))
      else if v = Plain (JStr ''majority'') \<or> is_number (value_of v)
      then Inr (options, wc_with options [(''w'', value_of v)])
      else Inl (parse_error ''Invalid WriteConcern cannot parse''))"

definition logger_transform :: transform where
  "logger_transform h name options values =
     (let v = first_value values in Inr (options, if is_inst CLogger v then v else Plain JUndef))"

definition Logger_new :: "string \<Rightarrow> optval" where
  "Logger_new className = Inst CLogger [(''className'', JStr className)]"

definition loggerLevel_transform :: transform where
  "loggerLevel_transform h name options values = Inr (options, Logger_new ''MongoClient'')"

definition maxStalenessSeconds_transform :: transform where
  "maxStalenessSeconds_transform h name options values =
     rbind (getUint name (first_value values)) (\<lambda>n.
       pure_transform options
         (if opt_truthy (opt_get ''readPreference'' options)
          then readPreference_from
                 (Plain (JDoc (assign (opt_props (opt_get ''readPreference'' options)) [(''maxStalenessSeconds'', n)]))) []
          else readPreference_new (JStr ''secondary'') JUndef (JDoc [(''maxStalenessSeconds'', n)])))"

definition name_transform :: transform where
  "name_transform h name options values =
     Inr (options, Plain (JDoc (assign (opt_props (opt_get ''driverInfo'' options))
       [(''name'', JStr (opt_show (first_value values)))])))"

definition pkFactory_transform :: transform where
  "pkFactory_transform h name options values =
     (let v = first_value values in
      if isRecord [''createPk''] v \<and> is_function (fld ''createPk'' (opt_props v)) then Inr (options, v)
      else Inl (parse_error ''Option pkFactory must be an object with a createPk function''))"

definition readConcern_transform :: transform where
  "readConcern_transform h name options values =
     (let v = first_value values in
      if is_inst CReadConcern v \<or> isRecord [''level''] v
      then pure_transform options (readConcern_from (assign (opt_props (opt_get ''readConcern'' options)) (opt_props v)))
      else Inl (parse_error ''ReadConcern must be an object''))"

definition readConcernLevel_transform :: transform where
  "readConcernLevel_transform h name options values =
     pure_transform options (readConcern_from
       (assign (opt_props (opt_get ''readConcern'' options)) [(''level'', value_of (first_value values))]))"

text \<open>
  \<open>{ readPreference: { ...options.readPreference, ...value }, ...value }\<close>: a field \<open>readPreference\<close>
  of the value would replace the first one.
\<close>

definition readPreference_spread :: "optmap \<Rightarrow> doc \<Rightarrow> mongoError + optval" where
  "readPreference_spread options d =
     (let o' = assign [(''readPreference'', JDoc (assign (opt_props (opt_get ''readPreference'' options)) d))] d
      in readPreference_from (Plain (fld ''readPreference'' o')) o')"

definition readPreference_transform :: transform where
  "readPreference_transform h name options values =
     (let v = first_value values; rp = opt_props (opt_get ''readPreference'' options) in
      if is_inst CReadPreference v then pure_transform options (readPreference_spread options (opt_props v))
      else if isRecord [''mode''] v
      then rbind (readPreference_spread options (opt_props v)) (\<lambda>r.
             if opt_truthy r then Inr (options, r) else Inl (parse_error ''Cannot make read preference''))
      else (case v of
              Plain (JStr s) \<Rightarrow>
                pure_transform options (readPreference_new (JStr s) (fld ''tags'' rp)
                  (JDoc [(''hedge'', fld ''hedge'' rp), (''maxStalenessSeconds'', fld ''maxStalenessSeconds'' rp)]))
            | _ \<Rightarrow> Inr (options, Plain JUndef)))"

fun tag_sets :: "optval list \<Rightarrow> mongoError + jsval list" where
  "tag_sets [] = Inr []"
| "tag_sets (t # ts) =
     rbind (case t of
              Plain (JStr s) \<Rightarrow> rbind (entriesFromString s) (\<lambda>es. Inr (fold (\<lambda>(k, x). map_set k (JStr x)) es []))
            | _ \<Rightarrow> if isRecord [] t then Inr (assign [] (opt_props t)) else Inr [])
       (\<lambda>d. rbind (tag_sets ts) (\<lambda>r. Inr (JDoc d # r)))"

definition readPreferenceTags_transform :: transform where
  "readPreferenceTags_transform h name options values =
     rbind (tag_sets values) (\<lambda>ts.
       pure_transform options (readPreference_from (opt_get ''readPreference'' options) [(''readPreferenceTags'', JArr ts)]))"

definition readFile_transform :: transform where
  "readFile_transform h name options values =
     rbind (h_readFile h (opt_show (first_value values))) (\<lambda>s. Inr (options, Plain (JStr s)))"

definition noop :: optval where "noop = Plain (JFun ''() => undefined'')"

definition tlsAllowInvalidCertificates_transform :: transform where
  "tlsAllowInvalidCertificates_transform h name options values =
     rbind (getBoolean name (first_value values)) (\<lambda>b. Inr (options, Plain (JBool (\<not> b))))"

definition tlsAllowInvalidHostnames_transform :: transform where
  "tlsAllowInvalidHostnames_transform h name options values =
     rbind (getBoolean name (first_value values)) (\<lambda>b. Inr (options, if b then noop else Plain JUndef))"

definition tlsInsecure_transform :: transform where
  "tlsInsecure_transform h name options values =
     rbind (getBoolean name (first_value values)) (\<lambda>b.
       Inr (if b then map_set ''rejectUnauthorized'' (Plain (JBool False)) (map_set ''checkServerIdentity'' noop options)
            else map_set ''rejectUnauthorized''
                   (Plain (JBool (\<not> opt_truthy (opt_get ''tlsAllowInvalidCertificates'' options))))
                   (map_set ''checkServerIdentity''
                     (if opt_truthy (opt_get ''tlsAllowInvalidHostnames'' options) then noop else Plain JUndef) options),
            Plain (JBool b)))"

section \<open>The table of options\<close>

datatype optionType = TBoolean | TInt | TUint | TString | TRecord | TAny | TTransform transform

record optionDescriptor =
  od_target :: "string option"
  od_type :: optionType
  od_default :: "optval option"
  od_deprecated :: bool

definition descriptor :: "string option \<Rightarrow> optionType \<Rightarrow> optval option \<Rightarrow> bool \<Rightarrow> optionDescriptor" where
  "descriptor target type dflt deprecated =
     \<lparr>od_target = target, od_type = type, od_default = dflt, od_deprecated = deprecated\<rparr>"

definition DEFAULT_PK_FACTORY :: optval where
  "DEFAULT_PK_FACTORY = Plain (JDoc [(''createPk'', JFun ''createPk'')])"

definition OPTIONS :: "host \<Rightarrow> (string \<times> optionDescriptor) list" where
  "OPTIONS h = [
     (''appName'', descriptor (Some ''metadata'') (TTransform appName_transform) None False),
     (''auth'', descriptor (Some ''credentials'') (TTransform auth_transform) None False),
     (''authMechanism'', descriptor (Some ''credentials'') (TTransform authMechanism_transform) None False),
     (''authMechanismProperties'', descriptor (Some ''credentials'') (TTransform authMechanismProperties_transform) None False),
     (''authSource'', descriptor (Some ''credentials'') (TTransform authSource_transform) None False),
     (''autoEncryption'', descriptor None TRecord None False),
     (''bsonRegExp'', descriptor None TBoolean None False),
     (''serverApi'', descriptor (Some ''serverApi'') (TTransform serverApi_transform) None False),
     (''checkKeys'', descriptor None TBoolean None False),
     (''compressors'', descriptor (Some ''compressors'') (TTransform compressors_transform) (Some (Plain (JStr ''none''))) False),
     (''connectTimeoutMS'', descriptor None TUint (Some (Plain (JNum 30000))) False),
     (''dbName'', descriptor None TString None False),
     (''directConnection'', descriptor None TBoolean (Some (Plain (JBool False))) False),
     (''driverInfo'', descriptor (Some ''metadata'') (TTransform driverInfo_transform) (Some (Plain (JDoc (makeClientMetadata h [])))) False),
     (''enableUtf8Validation'', descriptor None TBoolean (Some (Plain (JBool True))) False),
     (''family'', descriptor None (TTransform family_transform) None False),
     (''fieldsAsRaw'', descriptor None TRecord None False),
     (''forceServerObjectId'', descriptor None TBoolean (Some (Plain (JBool False))) False),
     (''fsync'', descriptor (Some ''writeConcern'') (TTransform fsync_transform) None True),
     (''heartbeatFrequencyMS'', descriptor None TUint (Some (Plain (JNum 10000))) False),
     (''ignoreUndefined'', descriptor None TBoolean None False),
     (''j'', descriptor (Some ''writeConcern'') (TTransform journal_transform) None True),
     (''journal'', descriptor (Some ''writeConcern'') (TTransform journal_transform) None False),
     (''keepAlive'', descriptor None TBoolean (Some (Plain (JBool True))) False),
     (''keepAliveInitialDelay'', descriptor None TUint (Some (Plain (JNum 120000))) False),
     (''loadBalanced'', descriptor None TBoolean (Some (Plain (JBool False))) False),
     (''localThresholdMS'', descriptor None TUint (Some (Plain (JNum 15))) False),
     (''logger'', descriptor None (TTransform logger_transform) (Some (Logger_new ''MongoClient'')) False),
     (''loggerLevel'', descriptor (Some ''logger'') (TTransform loggerLevel_transform) None False),
     (''maxIdleTimeMS'', descriptor None TUint (Some (Plain (JNum 0))) False),
     (''maxPoolSize'', descriptor None TUint (Some (Plain (JNum 100))) False),
     (''maxStalenessSeconds'', descriptor (Some ''readPreference'') (TTransform maxStalenessSeconds_transform) None False),
     (''minInternalBufferSize'', descriptor None TUint None False),
     (''minPoolSize'', descriptor None TUint (Some (Plain (JNum 0))) False),
     (''minHeartbeatFrequencyMS'', descriptor None TUint (Some (Plain (JNum 500))) False),
     (''monitorCommands'', descriptor None TBoolean (Some (Plain (JBool False))) False),
     (''name'', descriptor (Some ''driverInfo'') (TTransform name_transform) None False),
     (''noDelay'', descriptor None TBoolean (Some (Plain (JBool True))) False),
     (''pkFactory'', descriptor None (TTransform pkFactory_transform) (Some (DEFAULT_PK_FACTORY)) False),
     (''promiseLibrary'', descriptor None TAny None True),
     (''promoteBuffers'', descriptor None TBoolean None False),
     (''promoteLongs'', descriptor None TBoolean None False),
     (''promoteValues'', descriptor None TBoolean None False),
     (''proxyHost'', descriptor None TString None False),
     (''proxyPassword'', descriptor None TString None False),
     (''proxyPort'', descriptor None TUint None False),
     (''proxyUsername'', descriptor None TString None False),
     (''raw'', descriptor None TBoolean (Some (Plain (JBool False))) False),
     (''readConcern'', descriptor None (TTransform readConcern_transform) None False),
     (''readConcernLevel'', descriptor (Some ''readConcern'') (TTransform readConcernLevel_transform) None False),
     (''readPreference'', descriptor None (TTransform readPreference_transform) (Some (readPreference_primary)) False),
     (''readPreferenceTags'', descriptor (Some ''readPreference'') (TTransform readPreferenceTags_transform) None False),
     (''replicaSet'', descriptor None TString None False),
     (''retryReads'', descriptor None TBoolean (Some (Plain (JBool True))) False),
     (''retryWrites'', descriptor None TBoolean (Some (Plain (JBool True))) False),
     (''serializeFunctions'', descriptor None TBoolean None False),
     (''serverSelectionTimeoutMS'', descriptor None TUint (Some (Plain (JNum 30000))) False),
     (''servername'', descriptor None TString None False),
     (''socketTimeoutMS'', descriptor None TUint (Some (Plain (JNum 0))) False),
     (''srvMaxHosts'', descriptor None TUint (Some (Plain (JNum 0))) False),
     (''srvServiceName'', descriptor None TString (Some (Plain (JStr ''mongodb''))) False),
     (''ssl'', descriptor (Some ''tls'') TBoolean None False),
     (''sslCA'', descriptor (Some ''ca'') (TTransform readFile_transform) None False),
     (''sslCRL'', descriptor (Some ''crl'') (TTransform readFile_transform) None False),
     (''sslCert'', descriptor (Some ''cert'') (TTransform readFile_transform) None False),
     (''sslKey'', descriptor (Some ''key'') (TTransform readFile_transform) None False),
     (''sslPass'', descriptor (Some ''passphrase'') TString None True),
     (''sslValidate'', descriptor (Some ''rejectUnauthorized'') TBoolean None False),
     (''tls'', descriptor None TBoolean None False),
     (''tlsAllowInvalidCertificates'', descriptor (Some ''rejectUnauthorized'') (TTransform tlsAllowInvalidCertificates_transform) None False),
     (''tlsAllowInvalidHostnames'', descriptor (Some ''checkServerIdentity'') (TTransform tlsAllowInvalidHostnames_transform) None False),
     (''tlsCAFile'', descriptor (Some ''ca'') (TTransform readFile_transform) None False),
     (''tlsCertificateFile'', descriptor (Some ''cert'') (TTransform readFile_transform) None False),
     (''tlsCertificateKeyFile'', descriptor (Some ''key'') (TTransform readFile_transform) None False),
     (''tlsCertificateKeyFilePassword'', descriptor (Some ''passphrase'') TAny None False),
     (''tlsInsecure'', descriptor None (TTransform tlsInsecure_transform) None False),
     (''w'', descriptor (Some ''writeConcern'') (TTransform w_transform) None False),
     (''waitQueueTimeoutMS'', descriptor None TUint (Some (Plain (JNum 0))) False),
     (''writeConcern'', descriptor (Some ''writeConcern'') (TTransform writeConcern_transform) None False),
     (''wtimeout'', descriptor (Some ''writeConcern'') (TTransform wtimeout_transform) None True),
     (''wtimeoutMS'', descriptor (Some ''writeConcern'') (TTransform wtimeoutMS_transform) None False),
     (''zlibCompressionLevel'', descriptor None TInt (Some (Plain (JNum 0))) False),
     (''connectionType'', descriptor None TAny None False),
     (''srvPoller'', descriptor None TAny None False),
     (''minDHSize'', descriptor None TAny None False),
     (''pskCallback'', descriptor None TAny None False),
     (''secureContext'', descriptor None TAny None False),
     (''enableTrace'', descriptor None TAny None False),
     (''requestCert'', descriptor None TAny None False),
     (''rejectUnauthorized'', descriptor None TAny None False),
     (''checkServerIdentity'', descriptor None TAny None False),
     (''ALPNProtocols'', descriptor None TAny None False),
     (''SNICallback'', descriptor None TAny None False),
     (''session'', descriptor None TAny None False),
     (''requestOCSP'', descriptor None TAny None False),
     (''localAddress'', descriptor None TAny None False),
     (''localPort'', descriptor None TAny None False),
     (''hints'', descriptor None TAny None False),
     (''lookup'', descriptor None TAny None False),
     (''ca'', descriptor None TAny None False),
     (''cert'', descriptor None TAny None False),
     (''ciphers'', descriptor None TAny None False),
     (''crl'', descriptor None TAny None False),
     (''ecdhCurve'', descriptor None TAny None False),
     (''key'', descriptor None TAny None False),
     (''passphrase'', descriptor None TAny None False),
     (''pfx'', descriptor None TAny None False),
     (''secureProtocol'', descriptor None TAny None False),
     (''index'', descriptor None TAny None False),
     (''useNewUrlParser'', descriptor None TBoolean None False),
     (''useUnifiedTopology'', descriptor None TBoolean None False)]"

definition DEFAULT_OPTIONS :: "host \<Rightarrow> optmap" where
  "DEFAULT_OPTIONS h =
     cim_new (map (\<lambda>(k, d). (k, the (od_default d))) (filter (\<lambda>(k, d). od_default d \<noteq> None) (OPTIONS h)))"

definition option_name :: "string \<Rightarrow> optionDescriptor \<Rightarrow> string" where
  "option_name key d = the_default key (od_target d)"

definition setOption :: "host \<Rightarrow> optmap \<Rightarrow> string \<Rightarrow> optionDescriptor \<Rightarrow> optval list \<Rightarrow> mongoError + optmap" where
  "setOption h options key d values =
     (let name = option_name key d; v = first_value values; set = (\<lambda>x. map_set name x options) in
      case od_type d of
        TBoolean \<Rightarrow> rbind (getBoolean name v) (\<lambda>b. Inr (set (Plain (JBool b))))
      | TInt \<Rightarrow> rbind (getInt name v) (\<lambda>n. Inr (set (Plain n)))
      | TUint \<Rightarrow> rbind (getUint name v) (\<lambda>n. Inr (set (Plain n)))
      | TString \<Rightarrow> (if opt_nullish v then Inr options else Inr (set (Plain (JStr (opt_show v)))))
      | TRecord \<Rightarrow> (if isRecord [] v then Inr (set v) else Inl (parse_error (name @ '' must be an object'')))
      | TAny \<Rightarrow> Inr (set v)
      | TTransform t \<Rightarrow> rbind (t h name options values) (\<lambda>(options', x). Inr (map_set name x options')))"

section \<open>Parsing\<close>

fun host_addresses :: "string list \<Rightarrow> mongoError + hostAddress list" where
  "host_addresses [] = Inr []"
| "host_addresses (s # ss) = rbind (HostAddress_new s) (\<lambda>a. rbind (host_addresses ss) (\<lambda>as. Inr (a # as)))"

type_synonym urlmap = "(string, optval list) jsmap"

definition decoded :: "string \<Rightarrow> mongoError + string" where
  "decoded s = (case decodeURIComponent s of Some t \<Rightarrow> Inr t | None \<Rightarrow> Inl (js_type_error ''URI malformed''))"

definition url_dbName :: "connectionString \<Rightarrow> urlmap \<Rightarrow> mongoError + urlmap" where
  "url_dbName url m =
     (let p = cs_pathname url in
      if p \<noteq> ''/'' \<and> p \<noteq> [] then
        rbind (decoded (if hd p = CHR ''/'' then tl p else p)) (\<lambda>dbName.
          Inr (if dbName \<noteq> [] then cim_set ''dbName'' [Plain (JStr dbName)] m else m))
      else Inr m)"

definition url_auth :: "connectionString \<Rightarrow> urlmap \<Rightarrow> mongoError + urlmap" where
  "url_auth url m =
     (if cs_username url \<noteq> [] then
        rbind (decoded (cs_username url)) (\<lambda>u.
          (case cs_password url of
             Some p \<Rightarrow> rbind (decoded p) (\<lambda>p'.
               Inr (cim_set ''auth'' [Plain (JDoc [(''username'', JStr u), (''password'', JStr p')])] m))
           | None \<Rightarrow> Inr (cim_set ''auth'' [Plain (JDoc [(''username'', JStr u)])] m)))
      else Inr m)"

fun url_params :: "(string \<times> string list) list \<Rightarrow> urlmap \<Rightarrow> mongoError + urlmap" where
  "url_params [] m = Inr m"
| "url_params ((key, values) # ps) m =
     (if [] \<in> set values then Inl (mk_error MongoAPIError ''URI cannot contain options with no value'')
      else url_params ps (if cim_has key m then m else cim_set key (map (Plain \<circ> JStr) values) m))"

definition url_options :: "connectionString \<Rightarrow> mongoError + urlmap" where
  "url_options url =
     rbind (url_dbName url []) (\<lambda>m1. rbind (url_auth url m1) (\<lambda>m2. url_params (cs_searchParams url) m2))"

definition object_options :: "optmap \<Rightarrow> optmap" where
  "object_options options = cim_new (filter (\<lambda>(k, v). \<not> opt_nullish v) options)"

text \<open>The keys in the order a \<open>Set\<close> keeps them, and the values of one: object, then URI, then default.\<close>

definition js_set :: "'a list \<Rightarrow> 'a list" where
  "js_set xs = fold (\<lambda>x acc. if x \<in> set acc then acc else acc @ [x]) xs []"

definition option_values :: "optmap \<Rightarrow> optmap \<Rightarrow> urlmap \<Rightarrow> string \<Rightarrow> optval list" where
  "option_values dflt obj url key =
     (case cim_get key obj of Some v \<Rightarrow> toArray v | None \<Rightarrow> [])
     @ (case cim_get key url of Some vs \<Rightarrow> vs | None \<Rightarrow> [])
     @ (case cim_get key dflt of Some v \<Rightarrow> toArray v | None \<Rightarrow> [])"

definition all_keys :: "optmap \<Rightarrow> optmap \<Rightarrow> urlmap \<Rightarrow> string list" where
  "all_keys dflt obj url = js_set (map_keys url @ map_keys obj @ map_keys dflt)"

definition certificate_file :: "urlmap \<Rightarrow> urlmap" where
  "certificate_file m =
     (if cim_has ''tlsCertificateKeyFile'' m \<and> \<not> cim_has ''tlsCertificateFile'' m
      then cim_set ''tlsCertificateFile'' (the_default [] (cim_get ''tlsCertificateKeyFile'' m)) m else m)"

definition all_options :: "optmap \<Rightarrow> optmap \<Rightarrow> urlmap \<Rightarrow> urlmap" where
  "all_options dflt obj url =
     certificate_file (fold (\<lambda>k. cim_set k (option_values dflt obj url k)) (all_keys dflt obj url) [])"

fun booleans :: "optval list \<Rightarrow> mongoError + bool list" where
  "booleans [] = Inr []"
| "booleans (v # vs) = rbind (getBoolean ''tls/ssl'' v) (\<lambda>b. rbind (booleans vs) (\<lambda>bs. Inr (b # bs)))"

definition check_tls_ssl :: "urlmap \<Rightarrow> mongoError + unit" where
  "check_tls_ssl m =
     (if cim_has ''tls'' m \<or> cim_has ''ssl'' m then
        rbind (booleans (the_default [] (cim_get ''tls'' m) @ the_default [] (cim_get ''ssl'' m))) (\<lambda>bs.
          if length (js_set bs) \<noteq> 1 then Inl (parse_error ''All values of tls/ssl must be the same.'') else Inr ())
      else Inr ())"

definition unsupported_options :: "host \<Rightarrow> string list \<Rightarrow> string list" where
  "unsupported_options h keys = setDifference keys (map (\<lambda>(k, d). toLowerCase k) (OPTIONS h))"

fun parse_entries :: "host \<Rightarrow> urlmap \<Rightarrow> (string \<times> optionDescriptor) list \<Rightarrow> optmap \<Rightarrow> mongoError + optmap" where
  "parse_entries h m [] options = Inr options"
| "parse_entries h m ((key, d) # ds) options =
     (case the_default [] (cim_get key m) of
        [] \<Rightarrow> parse_entries h m ds options
      | v # vs \<Rightarrow> rbind (setOption h options key d (v # vs)) (parse_entries h m ds))"

text \<open>The source of the credentials, their validation, and credentials that only name a source.\<close>

definition check_credentials :: "host \<Rightarrow> urlmap \<Rightarrow> optmap \<Rightarrow> mongoError + optmap" where
  "check_credentials h m options =
     (case creds_of options of
        None \<Rightarrow> Inr options
      | Some c \<Rightarrow>
          (let isGssapi = (mc_mechanism c = MONGODB_GSSAPI); isX509 = (mc_mechanism c = MONGODB_X509);
               isAws = (mc_mechanism c = MONGODB_AWS); dbName = opt_get ''dbName'' options
           in if (isGssapi \<or> isX509) \<and> cim_has ''authSource'' m \<and> mc_source c \<noteq> JStr ''$external''
              then Inl (parse_error ''can only have authSource set to '$external' '')
              else
                rbind (if \<not> (isGssapi \<or> isX509 \<or> isAws) \<and> opt_truthy dbName \<and> \<not> cim_has ''authSource'' m
                       then MongoCredentials_merge (h_env h) (Some c) (no_credentialsOptions\<lparr>co_source := value_of dbName\<rparr>)
                       else Inr c) (\<lambda>c'.
                rbind (MongoCredentials_validate c') (\<lambda>_.
                  Inr (if mc_password c' = JStr [] \<and> mc_username c' = JStr [] \<and> mc_mechanism c' = MONGODB_DEFAULT
                          \<and> mc_mechanismProperties c' = []
                       then map_delete ''credentials'' options
                       else map_set ''credentials'' (Creds c') options)))))"

definition default_dbName :: "optmap \<Rightarrow> optmap" where
  "default_dbName options =
     (if opt_truthy (opt_get ''dbName'' options) then options else map_set ''dbName'' (Plain (JStr ''test'')) options)"

definition check_pair :: "optmap \<Rightarrow> string \<Rightarrow> string \<Rightarrow> mongoError + unit" where
  "check_pair options a b =
     (if map_has options a \<and> map_has options b then Inl (parse_error (''The '' @ a @ '' option cannot be used with '' @ b))
      else Inr ())"

fun check_pairs :: "optmap \<Rightarrow> (string \<times> string) list \<Rightarrow> mongoError + unit" where
  "check_pairs options [] = Inr ()"
| "check_pairs options ((a, b) # ps) = rbind (check_pair options a b) (\<lambda>_. check_pairs options ps)"

definition TLS_CONFLICTS :: "(string \<times> string) list" where
  "TLS_CONFLICTS =
     [(''tlsInsecure'', ''tlsAllowInvalidCertificates''), (''tlsInsecure'', ''tlsAllowInvalidHostnames''),
      (''tlsInsecure'', ''tlsDisableCertificateRevocationCheck''), (''tlsInsecure'', ''tlsDisableOCSPEndpointCheck''),
      (''tlsAllowInvalidCertificates'', ''tlsDisableCertificateRevocationCheck''),
      (''tlsAllowInvalidCertificates'', ''tlsDisableOCSPEndpointCheck''),
      (''tlsDisableCertificateRevocationCheck'', ''tlsDisableOCSPEndpointCheck'')]"

definition checkTLSOptions :: "optmap \<Rightarrow> mongoError + unit" where
  "checkTLSOptions options = check_pairs options TLS_CONFLICTS"

definition validateLoadBalancedOptions :: "nat \<Rightarrow> optmap \<Rightarrow> bool \<Rightarrow> mongoError option" where
  "validateLoadBalancedOptions hosts options isSrv =
     (if opt_truthy (opt_get ''loadBalanced'' options) then
        (if hosts > 1 then Some (parse_error ''loadBalanced option only supported with a single host in the URI'')
         else if opt_truthy (opt_get ''replicaSet'' options)
         then Some (parse_error ''loadBalanced option not supported with a replicaSet option'')
         else if opt_truthy (opt_get ''directConnection'' options)
         then Some (parse_error ''loadBalanced option not supported when directConnection is provided'')
         else if isSrv \<and> js_positive (opt_get ''srvMaxHosts'' options)
         then Some (parse_error ''Cannot limit srv hosts with loadBalanced enabled'')
         else None)
      else None)"

definition PromiseProvider_set :: "optval \<Rightarrow> mongoError + optval" where
  "PromiseProvider_set lib =
     (case lib of Plain (JFun f) \<Rightarrow> Inr lib | _ \<Rightarrow> Inl (invalid_argument ''Promise must be a function''))"

definition set_promise_library :: "optmap \<Rightarrow> mongoError + optval option" where
  "set_promise_library options =
     (if opt_truthy (opt_get ''promiseLibrary'' options)
      then rbind (PromiseProvider_set (opt_get ''promiseLibrary'' options)) (\<lambda>l. Inr (Some l)) else Inr None)"

definition add_encrypter :: "host \<Rightarrow> bool \<Rightarrow> string \<Rightarrow> optmap \<Rightarrow> optmap \<Rightarrow> mongoError + optmap" where
  "add_encrypter h client uri userOptions options =
     (if client \<and> opt_truthy (opt_get ''autoEncryption'' options) then
        rbind (h_encrypter h uri userOptions) (\<lambda>(e, a).
          Inr (map_set ''autoEncrypter'' a (map_set ''encrypter'' e options)))
      else Inr options)"

definition srv_stage :: "connectionString \<Rightarrow> optmap \<Rightarrow> urlmap \<Rightarrow> optmap \<Rightarrow> mongoError + optmap" where
  "srv_stage url obj urlOpts options =
     (let given = (\<lambda>k. cim_has k obj \<or> cim_has k urlOpts) in
      if cs_isSRV url then
        (let options' = map_set ''srvHost'' (case cs_hosts url of s # _ \<Rightarrow> Plain (JStr s) | [] \<Rightarrow> Plain JUndef) options
         in if opt_truthy (opt_get ''directConnection'' options')
            then Inl (mk_error MongoAPIError ''SRV URI does not support directConnection'')
            else if js_positive (opt_get ''srvMaxHosts'' options') \<and> is_string (value_of (opt_get ''replicaSet'' options'))
            then Inl (parse_error ''Cannot use srvMaxHosts option with replicaSet'')
            else Inr (if \<not> given ''tls'' \<and> \<not> given ''ssl'' then map_set ''tls'' (Plain (JBool True)) options' else options'))
      else if given ''srvMaxHosts'' \<or> given ''srvServiceName''
      then Inl (parse_error ''Cannot use srvMaxHosts or srvServiceName with a non-srv connection string'')
      else Inr options)"

definition proxy_stage :: "urlmap \<Rightarrow> optmap \<Rightarrow> mongoError + unit" where
  "proxy_stage urlOpts options =
     (let on = (\<lambda>k. opt_truthy (opt_get k options)) in
      if \<not> on ''proxyHost'' \<and> (on ''proxyPort'' \<or> on ''proxyUsername'' \<or> on ''proxyPassword'')
      then Inl (parse_error ''Must specify proxyHost if other proxy options are passed'')
      else if (on ''proxyUsername'' \<and> \<not> on ''proxyPassword'') \<or> (\<not> on ''proxyUsername'' \<and> on ''proxyPassword'')
      then Inl (parse_error ''Can only specify both of proxy username/password or neither'')
      else if list_ex (\<lambda>k. length (the_default [] (cim_get k urlOpts)) > 1)
                [''proxyHost'', ''proxyPort'', ''proxyUsername'', ''proxyPassword'']
      then Inl (parse_error ''Proxy options cannot be specified multiple times in the connection string'')
      else Inr ())"

record mongoOptions =
  mo_hosts :: "hostAddress list"
  mo_options :: optmap
  mo_promiseLibrary :: "optval option"

text \<open>From the options collected, under their keys, to the options of the table.\<close>

definition read_options :: "host \<Rightarrow> optmap \<Rightarrow> urlmap \<Rightarrow> string list \<Rightarrow> urlmap \<Rightarrow> mongoError + optmap" where
  "read_options h obj urlOpts keys m =
     (if cim_has ''serverApi'' urlOpts
      then Inl (parse_error ''URI cannot contain `serverApi`, it can only be passed to the client'')
      else if cim_has ''loadBalanced'' obj then Inl (parse_error ''loadBalanced is only a valid option in the URI'')
      else rbind (check_tls_ssl m) (\<lambda>_.
        if unsupported_options h keys \<noteq> [] then Inl (parse_error ''option is not supported'')
        else rbind (parse_entries h m (OPTIONS h) []) (\<lambda>options.
          rbind (check_credentials h m options) (\<lambda>options'. Inr (default_dbName options')))))"

text \<open>
  The checks on the options read.  \<open>userSpecified*\<close> are set before the checks on an SRV connection
  string; the hosts of an SRV connection string are resolved on connecting.
\<close>

definition finish_options ::
    "host \<Rightarrow> bool \<Rightarrow> string \<Rightarrow> connectionString \<Rightarrow> optmap \<Rightarrow> optmap \<Rightarrow> urlmap \<Rightarrow> hostAddress list \<Rightarrow> optmap \<Rightarrow> mongoError + mongoOptions" where
  "finish_options h client uri url userOptions obj urlOpts hosts options =
     rbind (checkTLSOptions options) (\<lambda>_.
     rbind (set_promise_library userOptions) (\<lambda>lib.
       (case validateLoadBalancedOptions (length (cs_hosts url)) options (cs_isSRV url) of
          Some e \<Rightarrow> Inl e
        | None \<Rightarrow>
            rbind (add_encrypter h client uri userOptions options) (\<lambda>o1.
            rbind (srv_stage url obj urlOpts
                (map_set ''userSpecifiedReplicaSet'' (Plain (JBool (cim_has ''replicaSet'' obj \<or> cim_has ''replicaSet'' urlOpts)))
                  (map_set ''userSpecifiedAuthSource'' (Plain (JBool (cim_has ''authSource'' obj \<or> cim_has ''authSource'' urlOpts)))
                    o1))) (\<lambda>o2.
              if opt_truthy (opt_get ''directConnection'' o2) \<and> length hosts \<noteq> 1
              then Inl (parse_error ''directConnection option requires exactly one host'')
              else rbind (proxy_stage urlOpts o2) (\<lambda>_.
                Inr \<lparr>mo_hosts = hosts, mo_options = o2, mo_promiseLibrary = lib\<rparr>))))))"

text \<open>\<open>client\<close> says whether a \<open>MongoClient\<close> is given.\<close>

definition parseOptions :: "host \<Rightarrow> string \<Rightarrow> bool \<Rightarrow> optmap \<Rightarrow> mongoError + mongoOptions" where
  "parseOptions h uri client options =
     rbind (h_connectionString h uri) (\<lambda>url.
     rbind (if cs_isSRV url then Inr [] else host_addresses (cs_hosts url)) (\<lambda>hosts.
     rbind (url_options url) (\<lambda>urlOpts.
       (let obj = object_options options in
        rbind (read_options h obj urlOpts (all_keys (DEFAULT_OPTIONS h) obj urlOpts)
            (all_options (DEFAULT_OPTIONS h) obj urlOpts)) (\<lambda>o1.
          finish_options h client uri url options obj urlOpts hosts o1)))))"

section \<open>An example\<close>

text \<open>An SRV connection string with a user and one option, on some machine.\<close>

definition example_url :: connectionString where
  "example_url = \<lparr>cs_hosts = [''cluster.example.com''], cs_isSRV = True, cs_pathname = ''/'', cs_username = ''joe'',
     cs_password = Some ''s'', cs_searchParams = [(''maxPoolSize'', [''7''])]\<rparr>"

definition example_host :: host where
  "example_host = \<lparr>h_env = (\<lambda>_. None), h_driverVersion = ''4'', h_osType = ''L'', h_platform = ''l'', h_arch = ''x'',
     h_osRelease = ''5'', h_nodeVersion = ''v16'', h_endianness = ''LE'', h_readFile = (\<lambda>_. Inr []),
     h_regexp = (\<lambda>_ _. Inr False), h_connectionString = (\<lambda>_. Inr example_url),
     h_encrypter = (\<lambda>_ _. Inr (Plain JNull, Plain JNull))\<rparr>"

definition example_object :: optmap where
  "example_object = [(''maxPoolSize'', Plain (JNum 50))]"

end
