(* ===== verification/Option_Table.thy ===== *)
theory Option_Table
  imports Client_Options
begin

text \<open>
  What each entry of the table of options writes, which values are collected for an option, and
  the stages of \<open>parseOptions\<close>: the lemmas the properties of the parsed options rest on.
\<close>

section \<open>What an entry of the table writes\<close>

text \<open>The two options \<open>tlsInsecure\<close> sets beside its own.\<close>

definition side_names :: "string list" where
  "side_names = [''checkServerIdentity'', ''rejectUnauthorized'']"

definition keeps_others :: "transform \<Rightarrow> bool" where
  "keeps_others t \<longleftrightarrow>
     (\<forall>h name options values options' v k.
        t h name options values = Inr (options', v) \<longrightarrow> k \<notin> set side_names \<longrightarrow> map_of options' k = map_of options k)"

lemma keepsI:
  assumes "\<And>h name options values options' v. t h name options values = Inr (options', v) \<Longrightarrow> options' = options"
  shows "keeps_others t"
  unfolding keeps_others_def using assms by blast

lemma rbind_Inr_E: "rbind a f = Inr y \<Longrightarrow> (\<And>x. a = Inr x \<Longrightarrow> f x = Inr y \<Longrightarrow> P) \<Longrightarrow> P"
  by (cases a) auto

lemma keepsD:
  "keeps_others t \<Longrightarrow> t h name options values = Inr (options', v) \<Longrightarrow> k \<notin> set side_names
    \<Longrightarrow> map_of options' k = map_of options k"
  unfolding keeps_others_def by blast

lemma pure_transform_keeps: "pure_transform options r = Inr (options', v) \<Longrightarrow> options' = options"
  by (cases r) (auto simp: pure_transform_def)

lemma merge_creds_keeps: "merge_creds h options co = Inr (options', v) \<Longrightarrow> options' = options"
  unfolding merge_creds_def by (rule pure_transform_keeps)

lemma wc_checked_keeps: "wc_checked options wc = Inr (options', v) \<Longrightarrow> options' = options"
  by (auto simp: wc_checked_def split: if_splits)

lemmas keeps_rules = pure_transform_keeps merge_creds_keeps wc_checked_keeps

lemma keeps_simple:
  "keeps_others appName_transform" "keeps_others serverApi_transform" "keeps_others compressors_transform"
  "keeps_others driverInfo_transform" "keeps_others family_transform" "keeps_others logger_transform"
  "keeps_others loggerLevel_transform" "keeps_others name_transform" "keeps_others pkFactory_transform"
  "keeps_others w_transform" "keeps_others writeConcern_transform" "keeps_others readFile_transform"
  "keeps_others tlsAllowInvalidCertificates_transform" "keeps_others tlsAllowInvalidHostnames_transform"
  by (rule keepsI, auto simp: appName_transform_def serverApi_transform_def compressors_transform_def
      driverInfo_transform_def family_transform_def logger_transform_def loggerLevel_transform_def
      name_transform_def pkFactory_transform_def w_transform_def writeConcern_transform_def readFile_transform_def
      tlsAllowInvalidCertificates_transform_def tlsAllowInvalidHostnames_transform_def Let_def
      elim!: rbind_Inr_E split: if_splits)+

lemma keeps_composed:
  "keeps_others auth_transform" "keeps_others authMechanism_transform" "keeps_others authMechanismProperties_transform"
  "keeps_others authSource_transform" "keeps_others fsync_transform" "keeps_others journal_transform"
  "keeps_others wtimeout_transform" "keeps_others wtimeoutMS_transform" "keeps_others maxStalenessSeconds_transform"
  "keeps_others readConcern_transform" "keeps_others readConcernLevel_transform" "keeps_others readPreference_transform"
  "keeps_others readPreferenceTags_transform"
  by (rule keepsI, auto simp: auth_transform_def authMechanism_transform_def authMechanismProperties_transform_def
      authSource_transform_def fsync_transform_def journal_transform_def wtimeout_transform_def wtimeoutMS_transform_def
      maxStalenessSeconds_transform_def readConcern_transform_def readConcernLevel_transform_def
      readPreference_transform_def readPreferenceTags_transform_def Let_def
      elim!: rbind_Inr_E dest: keeps_rules split: if_splits list.splits optval.splits jsval.splits)+

lemma keeps_tlsInsecure: "keeps_others tlsInsecure_transform"
  by (auto simp: keeps_others_def tlsInsecure_transform_def side_names_def map_of_map_set elim!: rbind_Inr_E)

text \<open>Every entry of the table keeps to its own option and these two.\<close>

definition entry_keeps :: "string \<times> optionDescriptor \<Rightarrow> bool" where
  "entry_keeps e = (case od_type (snd e) of TTransform t \<Rightarrow> keeps_others t | _ \<Rightarrow> True)"

lemma OPTIONS_keep: "list_all entry_keeps (OPTIONS h)"
  by (simp add: OPTIONS_def entry_keeps_def descriptor_def keeps_simple keeps_composed keeps_tlsInsecure)

lemma setOption_keeps:
  assumes "setOption h options key d values = Inr options'" "entry_keeps (key, d)"
    "k \<noteq> option_name key d" "k \<notin> set side_names"
  shows "map_of options' k = map_of options k"
  using assms
  by (auto simp: setOption_def Let_def entry_keeps_def map_of_map_set dest: keepsD
      elim!: rbind_Inr_E split: optionType.splits if_splits)

lemma parse_entries_keeps:
  assumes "parse_entries h m ds options = Inr options'" "list_all entry_keeps ds"
    "k \<notin> set side_names" "filter (\<lambda>(j, d). option_name j d = k) ds = []"
  shows "map_of options' k = map_of options k"
  using assms
proof (induction ds arbitrary: options)
  case Nil
  then show ?case by simp
next
  case (Cons e ds)
  obtain key d where e: "e = (key, d)" by (cases e)
  show ?case
  proof (cases "the_default [] (cim_get key m)")
    case Nil
    with Cons e show ?thesis by (auto split: if_splits)
  next
    case (Cons v vs)
    with Cons.prems(1) e obtain o1 where "setOption h options key d (v # vs) = Inr o1"
        "parse_entries h m ds o1 = Inr options'"
      by (auto elim: rbind_Inr_E)
    with Cons.prems Cons.IH e setOption_keeps show ?thesis by (auto split: if_splits)
  qed
qed

text \<open>The value an entry without a transform gives its option.\<close>

fun simple_value :: "optionType \<Rightarrow> string \<Rightarrow> optval \<Rightarrow> mongoError + optval" where
  "simple_value TBoolean name v = rbind (getBoolean name v) (\<lambda>b. Inr (Plain (JBool b)))"
| "simple_value TInt name v = rbind (getInt name v) (\<lambda>n. Inr (Plain n))"
| "simple_value TUint name v = rbind (getUint name v) (\<lambda>n. Inr (Plain n))"
| "simple_value TString name v = Inr (Plain (JStr (opt_show v)))"
| "simple_value TRecord name v = (if isRecord [] v then Inr v else Inl (parse_error (name @ '' must be an object'')))"
| "simple_value TAny name v = Inr v"
| "simple_value (TTransform t) name v = Inl (parse_error ''transform'')"

lemma setOption_simple:
  assumes "setOption h options key d (v # vs) = Inr options'" "\<And>t. od_type d \<noteq> TTransform t" "\<not> opt_nullish v"
  shows "\<exists>x. simple_value (od_type d) (option_name key d) v = Inr x \<and> map_of options' (option_name key d) = Some x"
  using assms
  by (cases "od_type d")
    (auto simp: setOption_def Let_def first_value_def map_of_map_set elim!: rbind_Inr_E split: if_splits)

lemma parse_entries_own:
  assumes "parse_entries h m ds options = Inr options'" "list_all entry_keeps ds"
    "filter (\<lambda>(j, d). option_name j d = k) ds = [(key, d)]" "k \<notin> set side_names" "cim_get key m = Some (v # vs)"
    "\<And>t. od_type d \<noteq> TTransform t" "\<not> opt_nullish v"
  shows "\<exists>x. simple_value (od_type d) k v = Inr x \<and> map_of options' k = Some x"
  using assms
proof (induction ds arbitrary: options)
  case Nil
  then show ?case by simp
next
  case (Cons e ds)
  obtain j c where e: "e = (j, c)" by (cases e)
  show ?case
  proof (cases "option_name j c = k")
    case True
    with Cons.prems(3) e have same: "j = key" "c = d" and rest: "filter (\<lambda>(j, d). option_name j d = k) ds = []"
      by auto
    from Cons.prems(1, 5) e same obtain o1 where o1: "setOption h options key d (v # vs) = Inr o1"
        "parse_entries h m ds o1 = Inr options'"
      by (auto elim: rbind_Inr_E)
    have "map_of options' k = map_of o1 k"
      using parse_entries_keeps [OF o1(2) _ Cons.prems(4) rest] Cons.prems(2) by simp
    with setOption_simple [OF o1(1) Cons.prems(6, 7)] True same show ?thesis by simp
  next
    case False
    then have f: "filter (\<lambda>(j, d). option_name j d = k) ds = [(key, d)]" using Cons.prems(3) e by simp
    obtain o1 where "parse_entries h m ds o1 = Inr options'"
      using Cons.prems(1) e by (auto elim: rbind_Inr_E split: list.splits)
    with Cons.IH f Cons.prems(2, 4-7) show ?thesis by simp
  qed
qed

lemma parse_entries_absent:
  assumes "parse_entries h m ds options = Inr options'" "list_all entry_keeps ds"
    "filter (\<lambda>(j, d). option_name j d = k) ds = [(key, d)]" "k \<notin> set side_names" "the_default [] (cim_get key m) = []"
  shows "map_of options' k = map_of options k"
  using assms
proof (induction ds arbitrary: options)
  case Nil
  then show ?case by simp
next
  case (Cons e ds)
  obtain j c where e: "e = (j, c)" by (cases e)
  show ?case
  proof (cases "option_name j c = k")
    case True
    with Cons.prems e have "parse_entries h m ds options = Inr options'"
        "filter (\<lambda>(j, d). option_name j d = k) ds = []" by auto
    with Cons.prems(2, 4) parse_entries_keeps show ?thesis by simp
  next
    case False
    then have f: "filter (\<lambda>(j, d). option_name j d = k) ds = [(key, d)]" using Cons.prems(3) e by simp
    show ?thesis
    proof (cases "the_default [] (cim_get j m)")
      case Nil
      with Cons.prems Cons.IH f e show ?thesis by simp
    next
      case (Cons v vs)
      with Cons.prems(1) e obtain o1 where "setOption h options j c (v # vs) = Inr o1"
          "parse_entries h m ds o1 = Inr options'"
        by (auto elim: rbind_Inr_E)
      moreover have "map_of o1 k = map_of options k"
        using setOption_keeps [OF \<open>setOption h options j c (v # vs) = Inr o1\<close>] Cons.prems(2, 4) e False by simp
      ultimately show ?thesis using Cons.IH f Cons.prems(2, 4, 5) by simp
    qed
  qed
qed

lemma parse_entries_keys:
  assumes "parse_entries h m ds options = Inr options'" "list_all entry_keeps ds"
    "map_has options' k" "k \<notin> set side_names"
  shows "map_has options k \<or> k \<in> set (map (\<lambda>(j, d). option_name j d) ds)"
proof (cases "filter (\<lambda>(j, d). option_name j d = k) ds = []")
  case True
  from parse_entries_keeps [OF assms(1, 2, 4) True] assms(3) show ?thesis by (simp add: map_has_def)
next
  case False
  then show ?thesis by (force simp: filter_empty_conv)
qed

section \<open>What is collected\<close>

lemma cim_get_set [simp]: "cim_get j (cim_set k v m) = (if toLowerCase j = toLowerCase k then Some v else cim_get j m)"
  by (simp add: cim_get_def cim_set_def map_of_map_set)

lemma lower_char_bits [code]:
  "lower_char (Char b0 b1 b2 b3 b4 b5 b6 b7) =
     (if b6 \<and> \<not> b5 \<and> \<not> b7 \<and> (b0 \<or> b1 \<or> b2 \<or> b3 \<or> b4) \<and> \<not> (b4 \<and> b3 \<and> (b2 \<or> b1 \<and> b0))
      then Char b0 b1 b2 b3 b4 True b6 b7 else Char b0 b1 b2 b3 b4 b5 b6 b7)"
  by (cases b0; cases b1; cases b2; cases b3; cases b4; cases b5; cases b6; cases b7)
    (simp_all add: lower_char_def char_of_def bit_iff_odd)

lemma lower_char_idem [simp]: "lower_char (lower_char c) = lower_char c"
proof -
  have "of_char (char_of (n + 32 :: nat)) = n + 32" if "n \<le> 90" for n :: nat
    using that by simp
  then show ?thesis by (auto simp: lower_char_def Let_def)
qed

lemma toLowerCase_idem [simp]: "toLowerCase (toLowerCase s) = toLowerCase s"
  by (simp add: toLowerCase_def)

lemma set_js_set_acc: "set (fold (\<lambda>x acc. if x \<in> set acc then acc else acc @ [x]) xs acc) = set xs \<union> set acc"
  by (induction xs arbitrary: acc) auto

lemma set_js_set [simp]: "set (js_set xs) = set xs"
  by (simp add: js_set_def set_js_set_acc)

lemma cim_get_fold:
  "\<forall>k \<in> set ks. toLowerCase k = k \<Longrightarrow> cim_get key (fold (\<lambda>k. cim_set k (f k)) ks m)
     = (if toLowerCase key \<in> set ks then Some (f (toLowerCase key)) else cim_get key m)"
  by (induction ks arbitrary: m) auto

definition lower_keys :: "(string, 'v) jsmap \<Rightarrow> bool" where
  "lower_keys m \<longleftrightarrow> (\<forall>k \<in> set (map_keys m). toLowerCase k = k)"

lemma lower_keys_set [simp]: "lower_keys m \<Longrightarrow> lower_keys (cim_set k v m)"
  by (auto simp: lower_keys_def cim_set_def map_keys_map_set)

lemma lower_keys_Nil [simp]: "lower_keys []"
  by (simp add: lower_keys_def)

lemma lower_keys_fold: "lower_keys m \<Longrightarrow> lower_keys (fold (\<lambda>(k, v). cim_set k v) es m)"
  by (induction es arbitrary: m) auto

lemma lower_keys_cim_new [simp]: "lower_keys (cim_new es)"
  by (simp add: cim_new_def lower_keys_fold)

lemma cim_get_Nil [simp]: "cim_get k [] = None"
  by (simp add: cim_get_def)

lemma url_params_lower: "url_params ps m = Inr m' \<Longrightarrow> lower_keys m \<Longrightarrow> lower_keys m'"
  by (induction ps m rule: url_params.induct) (auto split: if_splits)

lemma url_dbName_lower: "url_dbName url m = Inr m' \<Longrightarrow> lower_keys m \<Longrightarrow> lower_keys m'"
  by (auto simp: url_dbName_def Let_def elim!: rbind_Inr_E split: if_splits)

lemma url_auth_lower: "url_auth url m = Inr m' \<Longrightarrow> lower_keys m \<Longrightarrow> lower_keys m'"
  by (auto simp: url_auth_def elim!: rbind_Inr_E split: if_splits option.splits)

lemma url_options_lower: "url_options url = Inr m \<Longrightarrow> lower_keys m"
  unfolding url_options_def
  by (elim rbind_Inr_E) (auto dest!: url_dbName_lower url_auth_lower url_params_lower)

lemma option_values_lower [simp]: "option_values dflt obj url (toLowerCase k) = option_values dflt obj url k"
  by (simp add: option_values_def cim_get_def)

lemma in_keys_cim: "k \<in> set (map_keys m) \<longleftrightarrow> map_of m k \<noteq> None"
  by (simp add: map_of_None_keys)

text \<open>Every option but the certificate file is looked up in the object, the URI and the defaults, in this order.\<close>

lemma all_options_get:
  assumes "lower_keys dflt" "lower_keys obj" "lower_keys url" "toLowerCase k \<noteq> toLowerCase ''tlsCertificateFile''"
  shows "the_default [] (cim_get k (all_options dflt obj url)) = option_values dflt obj url k"
proof -
  let ?m = "fold (\<lambda>k. cim_set k (option_values dflt obj url k)) (all_keys dflt obj url) []"
  have low: "\<forall>k \<in> set (all_keys dflt obj url). toLowerCase k = k"
    using assms(1-3) unfolding all_keys_def lower_keys_def by auto
  have "the_default [] (cim_get k ?m) = option_values dflt obj url k"
  proof (cases "toLowerCase k \<in> set (all_keys dflt obj url)")
    case True
    then show ?thesis by (simp add: cim_get_fold [OF low])
  next
    case False
    then have "option_values dflt obj url k = []"
      by (simp add: option_values_def all_keys_def cim_get_def in_keys_cim)
    with False show ?thesis by (simp add: cim_get_fold [OF low])
  qed
  with assms(4) show ?thesis by (simp add: all_options_def certificate_file_def)
qed

section \<open>The table\<close>

text \<open>The names that later stages write have no entry of their own, or several.\<close>

definition later_names :: "string list" where
  "later_names = side_names @ [''credentials'', ''tls'', ''encrypter'', ''autoEncrypter'', ''srvHost'',
     ''userSpecifiedAuthSource'', ''userSpecifiedReplicaSet'']"

definition option_names :: "string list" where
  "option_names = [
     ''metadata'', ''credentials'', ''credentials'', ''credentials'', ''credentials'', ''autoEncryption'',
     ''bsonRegExp'', ''serverApi'', ''checkKeys'', ''compressors'', ''connectTimeoutMS'', ''dbName'',
     ''directConnection'', ''metadata'', ''enableUtf8Validation'', ''family'', ''fieldsAsRaw'',
     ''forceServerObjectId'', ''writeConcern'', ''heartbeatFrequencyMS'', ''ignoreUndefined'', ''writeConcern'',
     ''writeConcern'', ''keepAlive'', ''keepAliveInitialDelay'', ''loadBalanced'', ''localThresholdMS'',
     ''logger'', ''logger'', ''maxIdleTimeMS'', ''maxPoolSize'', ''readPreference'', ''minInternalBufferSize'',
     ''minPoolSize'', ''minHeartbeatFrequencyMS'', ''monitorCommands'', ''driverInfo'', ''noDelay'',
     ''pkFactory'', ''promiseLibrary'', ''promoteBuffers'', ''promoteLongs'', ''promoteValues'', ''proxyHost'',
     ''proxyPassword'', ''proxyPort'', ''proxyUsername'', ''raw'', ''readConcern'', ''readConcern'',
     ''readPreference'', ''readPreference'', ''replicaSet'', ''retryReads'', ''retryWrites'',
     ''serializeFunctions'', ''serverSelectionTimeoutMS'', ''servername'', ''socketTimeoutMS'', ''srvMaxHosts'',
     ''srvServiceName'', ''tls'', ''ca'', ''crl'', ''cert'', ''key'', ''passphrase'', ''rejectUnauthorized'',
     ''tls'', ''rejectUnauthorized'', ''checkServerIdentity'', ''ca'', ''cert'', ''key'', ''passphrase'',
     ''tlsInsecure'', ''writeConcern'', ''waitQueueTimeoutMS'', ''writeConcern'', ''writeConcern'',
     ''writeConcern'', ''zlibCompressionLevel'', ''connectionType'', ''srvPoller'', ''minDHSize'',
     ''pskCallback'', ''secureContext'', ''enableTrace'', ''requestCert'', ''rejectUnauthorized'',
     ''checkServerIdentity'', ''ALPNProtocols'', ''SNICallback'', ''session'', ''requestOCSP'', ''localAddress'',
     ''localPort'', ''hints'', ''lookup'', ''ca'', ''cert'', ''ciphers'', ''crl'', ''ecdhCurve'', ''key'',
     ''passphrase'', ''pfx'', ''secureProtocol'', ''index'', ''useNewUrlParser'', ''useUnifiedTopology'']"

lemma OPTIONS_names: "map (\<lambda>(j, e). option_name j e) (OPTIONS h) = option_names"
  by (simp add: OPTIONS_def option_name_def descriptor_def option_names_def)

lemma later_names_shared: "list_all (\<lambda>k. length (filter (\<lambda>n. n = k) option_names) \<noteq> 1) later_names"
  by code_simp

lemma single_writer_not_later:
  assumes "filter (\<lambda>(j, e). option_name j e = k) (OPTIONS h) = [(key, d)]"
  shows "k \<notin> set later_names"
proof -
  have "length (filter (\<lambda>n. n = k) option_names) = 1"
    using arg_cong [OF assms, of length] unfolding OPTIONS_names [of h, symmetric]
    by (simp add: filter_map comp_def case_prod_beta')
  with later_names_shared show ?thesis by (auto simp: list_all_iff)
qed

lemma lower_eval [simp]: "toLowerCase [] = []" "toLowerCase (c # cs) = lower_char c # toLowerCase cs"
  by (simp_all add: toLowerCase_def)

lemma certificate_file_transform:
  "(key, d) \<in> set (OPTIONS h) \<Longrightarrow> toLowerCase key = toLowerCase ''tlsCertificateFile'' \<Longrightarrow> \<exists>t. od_type d = TTransform t"
proof -
  have "list_all (\<lambda>(j, e). toLowerCase j = toLowerCase ''tlsCertificateFile'' \<longrightarrow> (\<exists>t. od_type e = TTransform t)) (OPTIONS h)"
    by (simp add: OPTIONS_def descriptor_def lower_char_bits)
  then show "(key, d) \<in> set (OPTIONS h) \<Longrightarrow> toLowerCase key = toLowerCase ''tlsCertificateFile'' \<Longrightarrow> \<exists>t. od_type d = TTransform t"
    by (auto simp: list_all_iff)
qed

definition scalar :: "optval \<Rightarrow> bool" where
  "scalar v = (\<not> opt_nullish v \<and> (\<forall>vs. v \<noteq> Plain (JArr vs)))"

lemma scalar_simps [simp]: "scalar (Plain (JStr s))" "scalar (Plain (JNum n))" "scalar (Plain (JBool b))"
  "scalar (Plain (JDoc d))" "scalar (Inst c d)"
  by (simp_all add: scalar_def)

lemma toArray_scalar: "scalar v \<Longrightarrow> toArray v = [v]"
  by (auto simp: scalar_def toArray_def split: optval.splits jsval.splits)

lemma cim_new_values: "cim_get k (cim_new es) = Some v \<Longrightarrow> v \<in> snd ` set es"
proof -
  have "cim_get k (fold (\<lambda>(k, v). cim_set k v) es m) = Some v \<Longrightarrow> v \<in> snd ` set es \<or> cim_get k m = Some v" for m
    by (induction es arbitrary: m) (fastforce split: if_splits)+
  from this [of "[]"] show "cim_get k (cim_new es) = Some v \<Longrightarrow> v \<in> snd ` set es"
    by (simp add: cim_new_def)
qed

lemma defaults_scalar: "cim_get k (DEFAULT_OPTIONS h) = Some v \<Longrightarrow> scalar v"
proof -
  have "list_all (\<lambda>(k, d). \<forall>v. od_default d = Some v \<longrightarrow> scalar v) (OPTIONS h)"
    by (simp add: OPTIONS_def descriptor_def DEFAULT_PK_FACTORY_def readPreference_primary_def Logger_new_def)
  then show "cim_get k (DEFAULT_OPTIONS h) = Some v \<Longrightarrow> scalar v"
    unfolding DEFAULT_OPTIONS_def by (fastforce dest!: cim_new_values simp: list_all_iff)
qed

lemma object_not_null: "cim_get k (object_options options) = Some v \<Longrightarrow> \<not> opt_nullish v"
  unfolding object_options_def by (drule cim_new_values) auto

definition scalar_values :: "urlmap \<Rightarrow> bool" where
  "scalar_values m \<longleftrightarrow> (\<forall>k vs. cim_get k m = Some vs \<longrightarrow> list_all scalar vs)"

lemma scalar_values_set [simp]: "scalar_values m \<Longrightarrow> list_all scalar vs \<Longrightarrow> scalar_values (cim_set k vs m)"
  by (simp add: scalar_values_def)

lemma url_params_scalar: "url_params ps m = Inr m' \<Longrightarrow> scalar_values m \<Longrightarrow> scalar_values m'"
  by (induction ps m rule: url_params.induct) (auto simp: list_all_iff split: if_splits)

lemma url_dbName_scalar: "url_dbName url m = Inr m' \<Longrightarrow> scalar_values m \<Longrightarrow> scalar_values m'"
  by (auto simp: url_dbName_def Let_def elim!: rbind_Inr_E split: if_splits)

lemma url_auth_scalar: "url_auth url m = Inr m' \<Longrightarrow> scalar_values m \<Longrightarrow> scalar_values m'"
  by (auto simp: url_auth_def elim!: rbind_Inr_E split: if_splits option.splits)

lemma url_options_scalar: "url_options url = Inr m \<Longrightarrow> scalar_values m"
  unfolding url_options_def
  by (elim rbind_Inr_E)
    (auto dest!: url_dbName_scalar url_auth_scalar url_params_scalar simp: scalar_values_def)

section \<open>Which value an option has\<close>

definition preferred :: "optmap \<Rightarrow> optmap \<Rightarrow> urlmap \<Rightarrow> string \<Rightarrow> optval option" where
  "preferred dflt obj url key =
     (case cim_get key obj of
        Some v \<Rightarrow> Some v
      | None \<Rightarrow> (case cim_get key url of Some (v # _) \<Rightarrow> Some v | _ \<Rightarrow> cim_get key dflt))"

lemma scalar_values_hd: "scalar_values m \<Longrightarrow> cim_get k m = Some (v # vs) \<Longrightarrow> scalar v"
  by (force simp: scalar_values_def)

lemma preferred_values:
  assumes "scalar_values url" "\<And>v. cim_get key obj = Some v \<Longrightarrow> scalar v"
  shows "case preferred (DEFAULT_OPTIONS h) obj url key of
           None \<Rightarrow> option_values (DEFAULT_OPTIONS h) obj url key = []
         | Some v \<Rightarrow> scalar v \<and> (\<exists>vs. option_values (DEFAULT_OPTIONS h) obj url key = v # vs)"
  using assms defaults_scalar [of key h]
  by (auto simp: preferred_def option_values_def toArray_scalar dest: scalar_values_hd split: option.splits list.splits)

section \<open>The stages of parsing\<close>

lemma check_credentials_keeps:
  "check_credentials h m options = Inr options' \<Longrightarrow> k \<noteq> ''credentials'' \<Longrightarrow> map_of options' k = map_of options k"
  by (auto simp: check_credentials_def Let_def map_laws elim!: rbind_Inr_E split: option.splits if_splits)

lemma default_dbName_keeps: "k \<noteq> ''dbName'' \<Longrightarrow> map_of (default_dbName options) k = map_of options k"
  by (simp add: default_dbName_def map_laws)

lemma read_options_parsed:
  assumes "read_options h obj url keys m = Inr options"
  obtains p where "parse_entries h m (OPTIONS h) [] = Inr p"
    "\<And>k. k \<noteq> ''credentials'' \<Longrightarrow> k \<noteq> ''dbName'' \<Longrightarrow> map_of options k = map_of p k"
  using assms that
  by (auto simp: read_options_def Let_def default_dbName_keeps check_credentials_keeps elim!: rbind_Inr_E split: if_splits)

lemma add_encrypter_keeps:
  "add_encrypter h client uri u options = Inr options' \<Longrightarrow> k \<notin> set later_names \<Longrightarrow> map_of options' k = map_of options k"
  by (auto simp: add_encrypter_def later_names_def map_laws elim!: rbind_Inr_E split: if_splits)

lemma srv_stage_keeps:
  "srv_stage url obj urlOpts options = Inr options' \<Longrightarrow> k \<notin> set later_names \<Longrightarrow> map_of options' k = map_of options k"
  by (auto simp: srv_stage_def Let_def later_names_def map_laws split: if_splits)

lemma finish_options_keeps:
  assumes "finish_options h client uri url u obj urlOpts hosts options = Inr mo" "k \<notin> set later_names"
  shows "map_of (mo_options mo) k = map_of options k"
proof -
  have k: "k \<noteq> ''userSpecifiedReplicaSet''" "k \<noteq> ''userSpecifiedAuthSource''"
    using assms(2) by (auto simp: later_names_def)
  from assms(1) obtain o1 where "add_encrypter h client uri u options = Inr o1"
    and "srv_stage url obj urlOpts
          (map_set ''userSpecifiedReplicaSet'' (Plain (JBool (cim_has ''replicaSet'' obj \<or> cim_has ''replicaSet'' urlOpts)))
            (map_set ''userSpecifiedAuthSource'' (Plain (JBool (cim_has ''authSource'' obj \<or> cim_has ''authSource'' urlOpts))) o1))
          = Inr (mo_options mo)"
    unfolding finish_options_def by (auto elim!: rbind_Inr_E split: option.splits if_splits)
  with assms(2) k show ?thesis by (simp add: add_encrypter_keeps srv_stage_keeps map_laws)
qed

lemma parseOptions_stages:
  assumes "parseOptions h uri client options = Inr mo"
  obtains url hosts urlOpts o1 where "h_connectionString h uri = Inr url"
    "(if cs_isSRV url then Inr [] else host_addresses (cs_hosts url)) = Inr hosts" "url_options url = Inr urlOpts"
    "read_options h (object_options options) urlOpts (all_keys (DEFAULT_OPTIONS h) (object_options options) urlOpts)
       (all_options (DEFAULT_OPTIONS h) (object_options options) urlOpts) = Inr o1"
    "finish_options h client uri url options (object_options options) urlOpts hosts o1 = Inr mo"
  using assms unfolding parseOptions_def Let_def by (auto elim!: rbind_Inr_E)

end
