(* ===== verification/Client_Option_Rules.thy ===== *)
theory Client_Option_Rules
  imports Option_Table
begin

text \<open>
  The properties of the options \<open>parseOptions\<close> returns: which value an option has, which options go
  together, what credentials are accepted; and what the parser does with options it should refuse.
\<close>

section \<open>Options that go together\<close>

lemma parse_entries_inv:
  assumes "parse_entries h m ds options = Inr options'" "P options"
    and "\<And>key d options vs options'. (key, d) \<in> set ds \<Longrightarrow> P options \<Longrightarrow> setOption h options key d vs = Inr options' \<Longrightarrow> P options'"
  shows "P options'"
  using assms
proof (induction ds arbitrary: options)
  case Nil
  then show ?case by simp
next
  case (Cons e ds)
  obtain key d where e: "e = (key, d)" by (cases e)
  have ih: "parse_entries h m ds o1 = Inr options' \<Longrightarrow> P o1 \<Longrightarrow> P options'" for o1
    by (rule Cons.IH) (auto intro: Cons.prems(3))
  show ?case
  proof (cases "the_default [] (cim_get key m)")
    case Nil
    with Cons.prems(1, 2) ih e show ?thesis by simp
  next
    case (Cons v vs)
    with Cons.prems(1) e obtain o1 where o1: "setOption h options key d (v # vs) = Inr o1"
        "parse_entries h m ds o1 = Inr options'"
      by (auto elim: rbind_Inr_E)
    have "P o1" by (rule Cons.prems(3) [OF _ Cons.prems(2) o1(1)]) (simp add: e)
    then show ?thesis by (rule ih [OF o1(2)])
  qed
qed

text \<open>The credentials are made by \<open>merge\<close>: their mechanism is one of the table and their source is given.\<close>

definition made_credentials :: "mongoCredentials \<Rightarrow> bool" where
  "made_credentials c \<longleftrightarrow> mc_mechanism c \<in> set AuthMechanisms \<and> \<not> nullish (mc_source c)"

definition creds_inv :: "optmap \<Rightarrow> bool" where
  "creds_inv options \<longleftrightarrow> (\<forall>v. map_of options ''credentials'' = Some v \<longrightarrow> (\<exists>c. v = Creds c \<and> made_credentials c))"

lemma mechanisms_nonempty: "m \<in> set AuthMechanisms \<Longrightarrow> m \<noteq> []"
  by (auto simp: AuthMechanisms_def mechanism_defs)

lemma merge_made:
  assumes "MongoCredentials_merge env creds co = Inr c"
    and "\<And>x. creds = Some x \<Longrightarrow> made_credentials x" "\<And>m. co_mechanism co = Some m \<Longrightarrow> m \<in> set AuthMechanisms"
  shows "made_credentials c"
proof -
  have "mc_mechanism c = the_default MONGODB_DEFAULT (coalesce (co_mechanism co) (map_option mc_mechanism creds))"
    using assms(2, 3) mechanisms_nonempty by (intro merge_mechanism [OF assms(1)]) (auto simp: made_credentials_def)
  moreover have "MONGODB_DEFAULT \<in> set AuthMechanisms" by (simp add: AuthMechanisms_def)
  ultimately show ?thesis
    using assms merge_defined [OF assms(1)] unfolding made_credentials_def
    by (cases "co_mechanism co"; cases creds) auto
qed

lemma creds_of_made: "creds_inv options \<Longrightarrow> creds_of options = Some c \<Longrightarrow> made_credentials c"
  by (auto simp: creds_inv_def creds_of_def split: option.splits optval.splits)

definition makes_credentials :: "transform \<Rightarrow> bool" where
  "makes_credentials t \<longleftrightarrow>
     (\<forall>h name options values options' v. creds_inv options \<longrightarrow> t h name options values = Inr (options', v)
        \<longrightarrow> (\<exists>c. v = Creds c \<and> made_credentials c))"

lemma makes_credentialsD:
  "makes_credentials t \<Longrightarrow> creds_inv options \<Longrightarrow> t h name options values = Inr (options', v)
    \<Longrightarrow> \<exists>c. v = Creds c \<and> made_credentials c"
  unfolding makes_credentials_def by blast

lemma merge_creds_makes:
  assumes "merge_creds h options co = Inr (options', v)" "creds_inv options"
    "\<And>m. co_mechanism co = Some m \<Longrightarrow> m \<in> set AuthMechanisms"
  shows "\<exists>c. v = Creds c \<and> made_credentials c"
  using assms(1) merge_made creds_of_made [OF assms(2)] assms(3)
  by (auto simp: merge_creds_def pure_transform_def elim!: rbind_Inr_E)

lemma matching_subset: "matching_mechanisms h value ms = Inr r \<Longrightarrow> set r \<subseteq> set ms"
  by (induction ms arbitrary: r) (auto elim!: rbind_Inr_E split: if_splits)

lemma makes_credentials_all:
  "makes_credentials auth_transform" "makes_credentials authMechanism_transform"
  "makes_credentials authMechanismProperties_transform" "makes_credentials authSource_transform"
proof -
  show "makes_credentials auth_transform" "makes_credentials authMechanismProperties_transform"
    "makes_credentials authSource_transform"
    by (auto simp: makes_credentials_def auth_transform_def authMechanismProperties_transform_def
        authSource_transform_def Let_def no_credentialsOptions_def
        elim!: rbind_Inr_E dest!: merge_creds_makes split: if_splits optval.splits jsval.splits)
  show "makes_credentials authMechanism_transform"
    unfolding makes_credentials_def authMechanism_transform_def Let_def
    by (auto dest!: matching_subset merge_creds_makes elim!: rbind_Inr_E simp: no_credentialsOptions_def split: list.splits)
qed

text \<open>The entries that write the credentials.\<close>

definition entry_creds :: "string \<times> optionDescriptor \<Rightarrow> bool" where
  "entry_creds e \<longleftrightarrow> (option_name (fst e) (snd e) = ''credentials'' \<longrightarrow>
     (case od_type (snd e) of TTransform t \<Rightarrow> makes_credentials t | _ \<Rightarrow> False))"

lemma OPTIONS_creds: "list_all entry_creds (OPTIONS h)"
  by (simp add: OPTIONS_def entry_creds_def option_name_def descriptor_def makes_credentials_all)

lemma setOption_creds:
  assumes "(key, d) \<in> set (OPTIONS h)" "creds_inv options" "setOption h options key d vs = Inr options'"
  shows "creds_inv options'"
proof (cases "option_name key d = ''credentials''")
  case True
  have "entry_creds (key, d)" using OPTIONS_creds [of h] assms(1) by (auto simp: list_all_iff)
  with True obtain t where t: "od_type d = TTransform t" "makes_credentials t"
    by (auto simp: entry_creds_def split: optionType.splits)
  with assms(3) True obtain o1 x where "t h ''credentials'' options vs = Inr (o1, x)"
      "options' = map_set ''credentials'' x o1"
    by (auto simp: setOption_def Let_def elim!: rbind_Inr_E)
  with makes_credentialsD [OF t(2) assms(2)] show ?thesis
    by (auto simp: creds_inv_def map_laws)
next
  case False
  have "entry_keeps (key, d)" using OPTIONS_keep [of h] assms(1) by (auto simp: list_all_iff)
  from setOption_keeps [OF assms(3) this False [symmetric]] assms(2) show ?thesis
    by (simp add: creds_inv_def side_names_def)
qed

lemma parsed_creds: "parse_entries h m (OPTIONS h) [] = Inr options \<Longrightarrow> creds_inv options"
  by (erule parse_entries_inv [where P = creds_inv]) (simp add: creds_inv_def, rule setOption_creds)

text \<open>What \<open>validate\<close> accepts, for credentials made by \<open>merge\<close>.\<close>

definition valid_credentials :: "mongoCredentials \<Rightarrow> bool" where
  "valid_credentials c \<longleftrightarrow>
     mc_mechanism c \<in> set AuthMechanisms
     \<and> (mc_mechanism c \<in> set mechs_with_username \<longrightarrow> truthy (mc_username c))
     \<and> (mc_mechanism c \<in> set AUTH_MECHS_AUTH_SRC_EXTERNAL \<longrightarrow> mc_source c = JStr ''$external'')
     \<and> (mc_mechanism c = MONGODB_X509 \<longrightarrow> nullish (mc_password c) \<or> mc_password c = JStr [])
     \<and> \<not> nullish (mc_source c)"

lemma validate_valid: "made_credentials c \<Longrightarrow> MongoCredentials_validate c = Inr () \<Longrightarrow> valid_credentials c"
  by (auto simp: valid_credentials_def made_credentials_def MongoCredentials_validate_def Let_def split: if_splits)

lemma creds_of_set [simp]: "creds_of (map_set ''credentials'' (Creds c) options) = Some c"
  by (simp add: creds_of_def map_laws)

lemma creds_of_delete [simp]: "creds_of (map_delete ''credentials'' options) = None"
  by (simp add: creds_of_def map_laws)

lemma check_credentials_valid:
  assumes "check_credentials h m options = Inr options'" "creds_inv options" "creds_of options' = Some c"
  shows "valid_credentials c"
proof (cases "creds_of options")
  case None
  with assms show ?thesis by (simp add: check_credentials_def)
next
  case (Some c0)
  have c0: "made_credentials c0" by (rule creds_of_made [OF assms(2) Some])
  have one: "MongoCredentials_merge (h_env h) (Some c0) (no_credentialsOptions\<lparr>co_source := s\<rparr>) = Inr c' \<Longrightarrow> made_credentials c'"
    for s c' using c0 by (erule_tac merge_made) (auto simp: no_credentialsOptions_def)
  from assms(1, 3) Some c0 show ?thesis
    by (auto simp: check_credentials_def Let_def elim!: rbind_Inr_E dest!: one intro: validate_valid split: if_splits)
qed

text \<open>
  (C33) Where a simple option gets its value.  Take an option other than \<open>dbName\<close> that exactly one entry of
  the table writes and that is converted without a transform (like \<open>maxPoolSize\<close>, \<open>replicaSet\<close> or
  \<open>retryWrites\<close>), and let its value in the options object, if it has one, be neither null nor an array.
  If the options are accepted it has the value of the options object, else the one of the connection
  string, else the default, converted to its type; no later stage changes it.  Options with a transform,
  such as read preferences and concerns, are made of several values and not covered.
\<close>

theorem object_before_uri_before_default:
  assumes ok: "parseOptions h uri client options = Inr mo"
    and url: "h_connectionString h uri = Inr url" "url_options url = Inr urlOpts"
    and entry: "filter (\<lambda>(j, e). option_name j e = k) (OPTIONS h) = [(key, d)]"
    and simple: "\<And>t. od_type d \<noteq> TTransform t" and k: "k \<noteq> ''dbName''"
    and given: "\<And>v. cim_get key (object_options options) = Some v \<Longrightarrow> scalar v"
  shows "case preferred (DEFAULT_OPTIONS h) (object_options options) urlOpts key of
           None \<Rightarrow> map_of (mo_options mo) k = None
         | Some v \<Rightarrow> \<exists>x. simple_value (od_type d) k v = Inr x \<and> map_of (mo_options mo) k = Some x"
proof -
  let ?obj = "object_options options"
  let ?m = "all_options (DEFAULT_OPTIONS h) ?obj urlOpts"
  have later: "k \<notin> set later_names" by (rule single_writer_not_later [OF entry])
  then have side: "k \<notin> set side_names" "k \<noteq> ''credentials''" by (auto simp: later_names_def)
  have "(key, d) \<in> set (filter (\<lambda>(j, e). option_name j e = k) (OPTIONS h))" unfolding entry by simp
  then have "(key, d) \<in> set (OPTIONS h)" by simp
  then have nofile: "toLowerCase key \<noteq> toLowerCase ''tlsCertificateFile''"
    using certificate_file_transform simple by blast
  obtain o1 hosts where o1: "read_options h ?obj urlOpts (all_keys (DEFAULT_OPTIONS h) ?obj urlOpts) ?m = Inr o1"
      "finish_options h client uri url options ?obj urlOpts hosts o1 = Inr mo"
    by (rule parseOptions_stages [OF ok]) (use url in auto)
  obtain p where p: "parse_entries h ?m (OPTIONS h) [] = Inr p" and "map_of o1 k = map_of p k"
    by (rule read_options_parsed [OF o1(1)]) (use side k in auto)
  then have mo: "map_of (mo_options mo) k = map_of p k"
    using finish_options_keeps [OF o1(2) later] by simp
  have vals: "the_default [] (cim_get key ?m) = option_values (DEFAULT_OPTIONS h) ?obj urlOpts key"
    using all_options_get [OF _ _ url_options_lower [OF url(2)] nofile] by (simp add: object_options_def DEFAULT_OPTIONS_def)
  note pv = preferred_values [OF url_options_scalar [OF url(2)], of key ?obj h, OF given]
  show ?thesis
  proof (cases "preferred (DEFAULT_OPTIONS h) ?obj urlOpts key")
    case None
    with pv have "the_default [] (cim_get key ?m) = []"
      unfolding vals by simp
    with parse_entries_absent [OF p OPTIONS_keep entry side(1)] None mo show ?thesis by simp
  next
    case (Some v)
    with pv obtain vs
      where "scalar v" "cim_get key ?m = Some (v # vs)"
      unfolding vals [symmetric] by (cases "cim_get key ?m") auto
    with parse_entries_own [OF p OPTIONS_keep entry side(1) _ simple] mo Some show ?thesis
      by (simp add: scalar_def)
  qed
qed

lemma truthy_given: "opt_truthy (opt_get k options) \<Longrightarrow> map_has options k"
  by (auto simp: opt_get_def map_has_def the_default_def split: option.splits)

lemma opt_get_cong: "map_of a k = map_of b k \<Longrightarrow> opt_get k a = opt_get k b"
  by (simp add: opt_get_def)

lemma not_later:
  "''loadBalanced'' \<notin> set later_names" "''replicaSet'' \<notin> set later_names" "''directConnection'' \<notin> set later_names"
  "''srvMaxHosts'' \<notin> set later_names" "''dbName'' \<notin> set later_names"
  by (simp_all add: later_names_def side_names_def)

lemma read_options_dbName: "read_options h obj url keys m = Inr options \<Longrightarrow> opt_truthy (opt_get ''dbName'' options)"
  by (auto simp: read_options_def Let_def default_dbName_def opt_get_def map_laws elim!: rbind_Inr_E split: if_splits)

lemma read_options_creds:
  assumes "read_options h obj url keys m = Inr options" "creds_of options = Some c" shows "valid_credentials c"
proof -
  from assms(1) obtain p o1 where p: "parse_entries h m (OPTIONS h) [] = Inr p"
      "check_credentials h m p = Inr o1" "options = default_dbName o1"
    by (auto simp: read_options_def Let_def elim!: rbind_Inr_E split: if_splits)
  have "creds_of o1 = Some c"
    using assms(2) p(3) by (simp add: creds_of_def default_dbName_keeps)
  with check_credentials_valid [OF p(2) parsed_creds [OF p(1)]] show ?thesis .
qed

lemma srv_stage_facts:
  assumes "srv_stage url obj urlOpts options = Inr options'" "cs_isSRV url"
  shows "\<not> opt_truthy (opt_get ''directConnection'' options')"
    "js_positive (opt_get ''srvMaxHosts'' options') \<Longrightarrow> \<not> is_string (value_of (opt_get ''replicaSet'' options'))"
  using assms by (auto simp: srv_stage_def Let_def opt_get_def map_laws split: if_splits)

lemma proxy_stage_facts:
  assumes "proxy_stage urlOpts options = Inr ()"
  shows "opt_truthy (opt_get ''proxyPort'' options) \<or> opt_truthy (opt_get ''proxyUsername'' options)
      \<or> opt_truthy (opt_get ''proxyPassword'' options) \<Longrightarrow> opt_truthy (opt_get ''proxyHost'' options)"
    "opt_truthy (opt_get ''proxyUsername'' options) \<longleftrightarrow> opt_truthy (opt_get ''proxyPassword'' options)"
  using assms by (auto simp: proxy_stage_def Let_def split: if_splits)

lemma lb_facts:
  assumes "validateLoadBalancedOptions n options srv = None" "opt_truthy (opt_get ''loadBalanced'' options)"
  shows "n \<le> 1" "\<not> opt_truthy (opt_get ''replicaSet'' options)" "\<not> opt_truthy (opt_get ''directConnection'' options)"
    "srv \<Longrightarrow> \<not> js_positive (opt_get ''srvMaxHosts'' options)"
  using assms by (auto simp: validateLoadBalancedOptions_def split: if_splits)

lemma finish_options_stages:
  assumes "finish_options h client uri url u obj urlOpts hosts options = Inr mo"
  obtains o1 where "validateLoadBalancedOptions (length (cs_hosts url)) options (cs_isSRV url) = None"
    "srv_stage url obj urlOpts o1 = Inr (mo_options mo)" "proxy_stage urlOpts (mo_options mo) = Inr ()"
    "opt_truthy (opt_get ''directConnection'' (mo_options mo)) \<Longrightarrow> length hosts = 1" "mo_hosts mo = hosts"
  using assms that unfolding finish_options_def
  by (auto elim!: rbind_Inr_E split: option.splits if_splits)

lemma creds_of_other [simp]: "k \<noteq> ''credentials'' \<Longrightarrow> creds_of (map_set k v options) = creds_of options"
  by (simp add: creds_of_def map_of_map_set)

lemma add_encrypter_creds: "add_encrypter h client uri u options = Inr o1 \<Longrightarrow> creds_of o1 = creds_of options"
  by (auto simp: add_encrypter_def elim!: rbind_Inr_E split: if_splits)

lemma srv_stage_creds: "srv_stage url obj urlOpts options = Inr o1 \<Longrightarrow> creds_of o1 = creds_of options"
  by (auto simp: srv_stage_def Let_def split: if_splits)

lemma finish_options_creds:
  "finish_options h client uri url u obj urlOpts hosts options = Inr mo \<Longrightarrow> creds_of (mo_options mo) = creds_of options"
  unfolding finish_options_def
  by (auto elim!: rbind_Inr_E dest!: add_encrypter_creds srv_stage_creds split: option.splits if_splits)

text \<open>
  (C32) Which combinations \<open>parseOptions\<close> lets through.  In options it returns, load balancing goes with at
  most one host, without a replica set, a direct connection or a limit on the SRV hosts; a direct
  connection has one host that is no SRV name; a limit on the SRV hosts goes without a replica set; the
  proxy options come with a proxy host, its user with its password; there is a database name; and the
  credentials have a known mechanism with the user name, source and password it demands.  The rules on
  conflicting TLS options are not among these: their check never refuses anything (see
  \<open>tls_conflicts_unnoticed\<close>).
\<close>

theorem parsed_options_consistent:
  assumes "parseOptions h uri client options = Inr mo" "h_connectionString h uri = Inr url"
  shows "let value = (\<lambda>k. opt_get k (mo_options mo)); on = (\<lambda>k. opt_truthy (value k)) in
      (on ''loadBalanced'' \<longrightarrow> length (cs_hosts url) \<le> 1 \<and> \<not> on ''replicaSet'' \<and> \<not> on ''directConnection''
          \<and> \<not> (cs_isSRV url \<and> js_positive (value ''srvMaxHosts'')))
    \<and> (on ''directConnection'' \<longrightarrow> \<not> cs_isSRV url \<and> length (mo_hosts mo) = 1)
    \<and> (cs_isSRV url \<and> js_positive (value ''srvMaxHosts'') \<longrightarrow> \<not> is_string (value_of (value ''replicaSet'')))
    \<and> (on ''proxyPort'' \<or> on ''proxyUsername'' \<or> on ''proxyPassword'' \<longrightarrow> on ''proxyHost'')
    \<and> (on ''proxyUsername'' \<longleftrightarrow> on ''proxyPassword'')
    \<and> on ''dbName'' \<and> (\<forall>c. creds_of (mo_options mo) = Some c \<longrightarrow> valid_credentials c)"
proof -
  obtain hosts urlOpts o0 where r: "read_options h (object_options options) urlOpts
        (all_keys (DEFAULT_OPTIONS h) (object_options options) urlOpts)
        (all_options (DEFAULT_OPTIONS h) (object_options options) urlOpts) = Inr o0"
    and f: "finish_options h client uri url options (object_options options) urlOpts hosts o0 = Inr mo"
    by (rule parseOptions_stages [OF assms(1)]) (use assms(2) in auto)
  obtain o1 where lb: "validateLoadBalancedOptions (length (cs_hosts url)) o0 (cs_isSRV url) = None"
    and s: "srv_stage url (object_options options) urlOpts o1 = Inr (mo_options mo)"
    and p: "proxy_stage urlOpts (mo_options mo) = Inr ()"
    and d: "opt_truthy (opt_get ''directConnection'' (mo_options mo)) \<Longrightarrow> length hosts = 1" and mh: "mo_hosts mo = hosts"
    by (rule finish_options_stages [OF f]) blast
  have same: "opt_get k (mo_options mo) = opt_get k o0" if "k \<notin> set later_names" for k
    by (rule opt_get_cong [OF finish_options_keeps [OF f that]])
  have c: "creds_of (mo_options mo) = creds_of o0" using finish_options_creds [OF f] .
  show ?thesis
    using lb_facts [OF lb] srv_stage_facts [OF s] proxy_stage_facts [OF p] d mh read_options_dbName [OF r] read_options_creds [OF r]
    unfolding Let_def c same [OF not_later(1)] same [OF not_later(2)] same [OF not_later(3)] same [OF not_later(4)]
      same [OF not_later(5)]
    by blast
qed

section \<open>What the parser lets through\<close>

definition tls_conflict_names :: "string list" where
  "tls_conflict_names = [''tlsAllowInvalidCertificates'', ''tlsAllowInvalidHostnames'',
     ''tlsDisableCertificateRevocationCheck'', ''tlsDisableOCSPEndpointCheck'']"

lemma tls_names_absent: "list_all (\<lambda>k. k \<notin> set option_names \<and> k \<notin> set side_names \<and> k \<noteq> ''credentials'' \<and> k \<noteq> ''dbName'') tls_conflict_names"
  by code_simp

text \<open>
  The checks on conflicting TLS options never refuse anything: they look for the names of the options,
  and the table stores all but one of them under other names, or does not have them.
\<close>

theorem tls_conflicts_unnoticed:
  "case read_options h obj urlOpts keys m of Inr options \<Rightarrow> checkTLSOptions options = Inr () | Inl _ \<Rightarrow> True"
proof (cases "read_options h obj urlOpts keys m")
  case (Inr options)
  have no: "\<not> map_has options k" if k: "k \<in> set tls_conflict_names" for k
  proof -
    have names: "k \<notin> set option_names" "k \<notin> set side_names" "k \<noteq> ''credentials''" "k \<noteq> ''dbName''"
      using tls_names_absent k by (auto simp: list_all_iff)
    obtain p where p: "parse_entries h m (OPTIONS h) [] = Inr p" "map_of options k = map_of p k"
      by (rule read_options_parsed [OF Inr]) (use names in auto)
    with parse_entries_keys [OF p(1) OPTIONS_keep _ names(2)] names(1) show ?thesis
      unfolding OPTIONS_names by (cases "map_of p k") (auto simp: map_has_def)
  qed
  show ?thesis
    using Inr no by (simp add: checkTLSOptions_def TLS_CONFLICTS_def check_pair_def tls_conflict_names_def)
qed simp

text \<open>
  The platform of a client without driver information is written twice into its metadata: the default
  of the option is metadata already, and is taken for the information of a wrapping library.
\<close>

theorem default_platform_twice:
  "let platform = ''Node.js '' @ h_nodeVersion h @ '', '' @ h_endianness h @ '' (unified)'' in
     case driverInfo_transform h ''metadata'' [] [Plain (JDoc (makeClientMetadata h []))] of
       Inr (_, Plain (JDoc d)) \<Rightarrow> fld ''platform'' d = JStr (platform @ ''|'' @ platform)
     | _ \<Rightarrow> False"
  by (simp add: driverInfo_transform_def first_value_def Let_def makeClientMetadata_def set_if_def get_prop_def opt_get_def
      isRecord_def isSuperset_def)

text \<open>
  A staleness bound without a read preference is dropped: the default, the primary preference, is
  spread over the preference that holds the bound, its absent bound included.
\<close>

theorem staleness_alone_lost:
  assumes "n > 0" "map_of options ''readPreference'' = None"
  shows "case rbind (setOption h options ''maxStalenessSeconds''
             (descriptor (Some ''readPreference'') (TTransform maxStalenessSeconds_transform) None False) [Plain (JNum n)])
           (\<lambda>o1. setOption h o1 ''readPreference''
             (descriptor None (TTransform readPreference_transform) (Some readPreference_primary) False) [readPreference_primary]) of
         Inr options' \<Rightarrow> map_of options' ''readPreference'' = Some readPreference_primary
       | Inl _ \<Rightarrow> False"
  using assms
  by (simp add: setOption_def descriptor_def option_name_def first_value_def maxStalenessSeconds_transform_def getUint_def
      getInt_def opt_get_def readPreference_new_def valid_mode_def ReadPreference_isValid_def VALID_MODES_def mode_defs
      is_object_def get_prop_def js_le0_def pure_transform_def map_laws readPreference_transform_def readPreference_primary_def
      readPreference_spread_def readPreference_from_def assign_def or_truthy_def or_else_def Let_def)

text \<open>An empty mechanism name matches every mechanism, and selects the first.\<close>

theorem empty_mechanism_matches: "matching_mechanisms h [] AuthMechanisms = Inr AuthMechanisms"
  by (simp add: AuthMechanisms_def mechanism_defs mechanism_matches_def word_match_def word_boundary_def is_word_def
      toLowerCase_def lower_char_def upt_rec)

text \<open>
  Credentials with the deprecated canonicalisation property cannot be merged again: the constructor
  assigns to the properties it froze the first time.
\<close>

theorem deprecated_property_merged_once:
  assumes "map_has (mc_mechanismProperties c) ''gssapiCanonicalizeHostName''" "\<not> match_i ''MONGODB-AWS'' (mc_mechanism c)"
    "mc_mechanism c \<noteq> []"
  shows "MongoCredentials_merge env (Some c) (no_credentialsOptions\<lparr>co_source := s\<rparr>)
    = Inl (js_type_error ''Cannot assign to read only property'')"
  using assms
  by (simp add: MongoCredentials_merge_def MongoCredentials_new_def Let_def canonicalize_property_def no_credentialsOptions_def)

section \<open>Examples\<close>

definition example_all :: urlmap where
  "example_all =
     [(''auth'', [Plain (JDoc [(''username'', JStr ''joe''), (''password'', JStr ''s'')])]), (''maxpoolsize'',
     [Plain (JNum 50), Plain (JStr ''7''), Plain (JNum 100)]), (''compressors'', [Plain (JStr ''none'')]),
     (''connecttimeoutms'', [Plain (JNum 30000)]), (''directconnection'', [Plain (JBool False)]), (''driverinfo'',
     [Plain (JDoc [(''driver'', JDoc [(''name'', JStr ''nodejs''), (''version'', JStr ''4'')]), (''os'', JDoc
     [(''type'', JStr ''L''), (''name'', JStr ''l''), (''architecture'', JStr ''x''), (''version'', JStr ''5'')]),
     (''platform'', JStr ''Node.js v16, LE (unified)'')])]), (''enableutf8validation'', [Plain (JBool True)]),
     (''forceserverobjectid'', [Plain (JBool False)]), (''heartbeatfrequencyms'', [Plain (JNum 10000)]),
     (''keepalive'', [Plain (JBool True)]), (''keepaliveinitialdelay'', [Plain (JNum 120000)]), (''loadbalanced'',
     [Plain (JBool False)]), (''localthresholdms'', [Plain (JNum 15)]), (''logger'', [Inst CLogger [(''className'',
     JStr ''MongoClient'')]]), (''maxidletimems'', [Plain (JNum 0)]), (''minpoolsize'', [Plain (JNum 0)]),
     (''minheartbeatfrequencyms'', [Plain (JNum 500)]), (''monitorcommands'', [Plain (JBool False)]), (''nodelay'',
     [Plain (JBool True)]), (''pkfactory'', [Plain (JDoc [(''createPk'', JFun ''createPk'')])]), (''raw'', [Plain
     (JBool False)]), (''readpreference'', [Inst CReadPreference [(''mode'', JStr ''primary''), (''tags'', JUndef),
     (''hedge'', JUndef), (''maxStalenessSeconds'', JUndef), (''minWireVersion'', JUndef)]]), (''retryreads'',
     [Plain (JBool True)]), (''retrywrites'', [Plain (JBool True)]), (''serverselectiontimeoutms'', [Plain (JNum
     30000)]), (''sockettimeoutms'', [Plain (JNum 0)]), (''srvmaxhosts'', [Plain (JNum 0)]), (''srvservicename'',
     [Plain (JStr ''mongodb'')]), (''waitqueuetimeoutms'', [Plain (JNum 0)]), (''zlibcompressionlevel'', [Plain
     (JNum 0)])]"

lemma example_url_options:
  "url_options example_url = Inr [(''auth'', [Plain (JDoc [(''username'', JStr ''joe''), (''password'', JStr ''s'')])]),
     (''maxpoolsize'', [Plain (JStr ''7'')])]"
  by code_simp

lemma example_object_options: "object_options example_object = [(''maxpoolsize'', Plain (JNum 50))]"
  by code_simp

lemma example_all_options:
  "all_options (DEFAULT_OPTIONS example_host) [(''maxpoolsize'', Plain (JNum 50))]
     [(''auth'', [Plain (JDoc [(''username'', JStr ''joe''), (''password'', JStr ''s'')])]), (''maxpoolsize'', [Plain (JStr ''7'')])]
     = example_all"
  by code_simp

lemma example_supported:
  "unsupported_options example_host (all_keys (DEFAULT_OPTIONS example_host) [(''maxpoolsize'', Plain (JNum 50))]
     [(''auth'', [Plain (JDoc [(''username'', JStr ''joe''), (''password'', JStr ''s'')])]), (''maxpoolsize'', [Plain (JStr ''7'')])]) = []"
  by code_simp

lemma example_entries:
  "\<not> isl (rbind (rbind (parse_entries example_host example_all (OPTIONS example_host) [])
      (\<lambda>options. rbind (check_credentials example_host example_all options) (\<lambda>options'. Inr (default_dbName options'))))
      (finish_options example_host False [] example_url example_object [(''maxpoolsize'', Plain (JNum 50))]
         [(''auth'', [Plain (JDoc [(''username'', JStr ''joe''), (''password'', JStr ''s'')])]), (''maxpoolsize'', [Plain (JStr ''7'')])] []))"
  by code_simp

lemma example_checks:
  "\<not> cim_has ''serverApi'' [(''auth'', [Plain (JDoc [(''username'', JStr ''joe''), (''password'', JStr ''s'')])]),
     (''maxpoolsize'', [Plain (JStr ''7'')])]"
  "\<not> cim_has ''loadBalanced'' [(''maxpoolsize'', Plain (JNum 50))]" "check_tls_ssl example_all = Inr ()"
  by code_simp+

lemma example_parses: "\<exists>mo. parseOptions example_host [] False example_object = Inr mo"
proof -
  have url: "h_connectionString example_host [] = Inr example_url" "cs_isSRV example_url"
    by (simp_all add: example_host_def example_url_def)
  have "\<not> isl (parseOptions example_host [] False example_object)"
    using example_entries
    by (simp add: parseOptions_def url example_url_options example_object_options read_options_def example_all_options
        example_supported example_checks Let_def)
  then show ?thesis by (cases "parseOptions example_host [] False example_object") auto
qed

lemma example_entry:
  "filter (\<lambda>(j, e). option_name j e = ''maxPoolSize'') (OPTIONS example_host)
     = [(''maxPoolSize'', descriptor None TUint (Some (Plain (JNum 100))) False)]"
  by (simp add: OPTIONS_def option_name_def descriptor_def)

theorem object_before_uri_before_default_witness:
  "\<exists>mo. parseOptions example_host [] False example_object = Inr mo
     \<and> map_of (mo_options mo) ''maxPoolSize'' = Some (Plain (JNum 50))"
proof -
  obtain mo where mo: "parseOptions example_host [] False example_object = Inr mo" using example_parses by blast
  have "preferred (DEFAULT_OPTIONS example_host) (object_options example_object)
      [(''auth'', [Plain (JDoc [(''username'', JStr ''joe''), (''password'', JStr ''s'')])]), (''maxpoolsize'', [Plain (JStr ''7'')])]
      ''maxPoolSize'' = Some (Plain (JNum 50))"
    unfolding example_object_options by (simp add: preferred_def cim_get_def lower_char_bits)
  moreover have "h_connectionString example_host [] = Inr example_url" by (simp add: example_host_def)
  ultimately have "map_of (mo_options mo) ''maxPoolSize'' = Some (Plain (JNum 50))"
    using object_before_uri_before_default [OF mo _ example_url_options example_entry]
    by (simp add: descriptor_def scalar_def example_object_options cim_get_def lower_char_bits getUint_def getInt_def)
  with mo show ?thesis by blast
qed

theorem parsed_options_consistent_witness:
  "\<exists>mo. parseOptions example_host [] False example_object = Inr mo \<and> opt_truthy (opt_get ''dbName'' (mo_options mo))
     \<and> (\<forall>c. creds_of (mo_options mo) = Some c \<longrightarrow> valid_credentials c)"
proof -
  obtain mo where mo: "parseOptions example_host [] False example_object = Inr mo" using example_parses by blast
  have "h_connectionString example_host [] = Inr example_url" by (simp add: example_host_def)
  from parsed_options_consistent [OF mo this] mo show ?thesis unfolding Let_def by blast
qed

end
