(* ===== verification/Srv_Records.thy ===== *)
theory Srv_Records
  imports Option_Table
begin

text \<open>
  \<open>resolveSRVRecord\<close> of \<open>src/connection_string.ts\<close> and \<open>src/sdam/srv_polling.ts\<close>: the hosts of an
  SRV connection string are the targets of the DNS records of its name, which must lie below the same
  parent domain; the poller looks the records up again while the topology is sharded.  The replies of
  the name servers are arguments.  Host names hold no line terminators, text records are ASCII.
\<close>

section \<open>The parent domain\<close>

text \<open>\<open>s.replace(/^.*?\./, '')\<close>: without the first label.\<close>

definition strip_label :: "string \<Rightarrow> string" where
  "strip_label s = (case dropWhile (\<lambda>c. c \<noteq> CHR ''.'') s of [] \<Rightarrow> s | _ # r \<Rightarrow> r)"

definition matchesParentDomain :: "string \<Rightarrow> string \<Rightarrow> bool" where
  "matchesParentDomain srvAddress parentDomain =
     (let srv = ''.'' @ strip_label srvAddress; parent = ''.'' @ strip_label parentDomain in ends_with parent srv)"

section \<open>Text records\<close>

text \<open>\<open>new URLSearchParams(s)\<close>: pairs in order, with \<open>+\<close> and percent escapes decoded.\<close>

fun query_decode :: "string \<Rightarrow> string" where
  "query_decode [] = []"
| "query_decode (c # cs) =
     (if c = CHR ''+'' then CHR '' '' # query_decode cs
      else if c = CHR ''%'' then
        (case cs of
           a # b # rest \<Rightarrow>
             (case (hex_val a, hex_val b) of
                (Some x, Some y) \<Rightarrow> char_of (16 * x + y) # query_decode rest
              | _ \<Rightarrow> c # query_decode cs)
         | _ \<Rightarrow> c # query_decode cs)
      else c # query_decode cs)"

definition query_pair :: "string \<Rightarrow> string \<times> string" where
  "query_pair s =
     (query_decode (takeWhile (\<lambda>c. c \<noteq> CHR ''='') s),
      query_decode (case dropWhile (\<lambda>c. c \<noteq> CHR ''='') s of [] \<Rightarrow> [] | _ # v \<Rightarrow> v))"

definition URLSearchParams :: "string \<Rightarrow> (string \<times> string) list" where
  "URLSearchParams s =
     map query_pair (filter (\<lambda>p. p \<noteq> []) (split_char (CHR ''&'') (if s \<noteq> [] \<and> hd s = CHR ''?'' then tl s else s)))"

definition VALID_TXT_RECORDS :: "string list" where
  "VALID_TXT_RECORDS = [''authSource'', ''replicaSet'', ''loadBalanced'']"

section \<open>Resolving\<close>

type_synonym srvRecord = "string \<times> nat option"

record dns =
  dns_resolveSrv :: "string \<Rightarrow> mongoError + srvRecord list"
  dns_resolveTxt :: "string \<Rightarrow> mongoError + string list list"

text \<open>The callback is called, or an exception leaves the handler of the reply.\<close>

datatype srvOutcome = Called "mongoError + hostAddress list" | Thrown mongoError

definition record_address :: "srvRecord \<Rightarrow> string" where
  "record_address r = fst r @ '':'' @ show_nat (the_default 27017 (snd r))"

text \<open>The options of a text record, applied to the options so far; the error is given to the callback.\<close>

definition apply_txt :: "host \<Rightarrow> (string \<times> string) list \<Rightarrow> optmap \<Rightarrow> mongoError + optmap" where
  "apply_txt h params options =
     (let source = map_of params ''authSource''; replicaSet = map_of params ''replicaSet'';
          loadBalanced = map_of params ''loadBalanced''
      in rbind (case (source, creds_of options) of
                  (Some s, Some c) \<Rightarrow>
                    if \<not> opt_truthy (opt_get ''userSpecifiedAuthSource'' options) \<and> s \<noteq> []
                       \<and> mc_mechanism c \<notin> set AUTH_MECHS_AUTH_SRC_EXTERNAL
                    then rbind (MongoCredentials_merge (h_env h) (Some c) (no_credentialsOptions\<lparr>co_source := JStr s\<rparr>))
                           (\<lambda>c'. Inr (map_set ''credentials'' (Creds c') options))
                    else Inr options
                | _ \<Rightarrow> Inr options) (\<lambda>o1.
         let o2 = (case replicaSet of
                     Some s \<Rightarrow> if \<not> opt_truthy (opt_get ''userSpecifiedReplicaSet'' o1) \<and> s \<noteq> []
                               then map_set ''replicaSet'' (Plain (JStr s)) o1 else o1
                   | None \<Rightarrow> o1)
         in Inr (if loadBalanced = Some ''true'' then map_set ''loadBalanced'' (Plain (JBool True)) o2 else o2)))"

definition txt_stage :: "host \<Rightarrow> string list list \<Rightarrow> hostAddress list \<Rightarrow> optmap \<Rightarrow> optmap \<times> srvOutcome" where
  "txt_stage h record hosts options =
     (if length record > 1 then (options, Called (Inl (parse_error ''Multiple text records not allowed'')))
      else (case record of
        [] \<Rightarrow> (options, Thrown (js_type_error ''Cannot read property 'join' of undefined''))
      | r # _ \<Rightarrow>
          (let params = URLSearchParams (concat r) in
           if list_ex (\<lambda>(k, v). k \<notin> set VALID_TXT_RECORDS) params
           then (options, Called (Inl (parse_error ''Text record may only set any of: authSource, replicaSet, loadBalanced'')))
           else if list_ex (\<lambda>k. map_of params k = Some []) VALID_TXT_RECORDS
           then (options, Called (Inl (parse_error ''Cannot have empty URI params in DNS TXT Record'')))
           else (case apply_txt h params options of
                   Inl e \<Rightarrow> (options, Thrown e)
                 | Inr options' \<Rightarrow>
                     (options',
                      Called (if opt_truthy (opt_get ''replicaSet'' options') \<and> js_positive (opt_get ''srvMaxHosts'' options')
                              then Inl (parse_error ''Cannot combine replicaSet option with srvMaxHosts'')
                              else (case validateLoadBalancedOptions (length hosts) options' True of
                                      Some e \<Rightarrow> Inl e | None \<Rightarrow> Inr hosts)))))))"

definition resolveSRVRecord :: "host \<Rightarrow> dns \<Rightarrow> optmap \<Rightarrow> optmap \<times> srvOutcome" where
  "resolveSRVRecord h dns options =
     (case opt_get ''srvHost'' options of
        Plain (JStr lookupAddress) \<Rightarrow>
          (if length (split_char (CHR ''.'') lookupAddress) < 3
           then (options, Called (Inl (mk_error MongoAPIError ''URI must include hostname, domain name, and tld'')))
           else (case dns_resolveSrv dns (''_'' @ opt_show (opt_get ''srvServiceName'' options) @ ''._tcp.'' @ lookupAddress) of
                   Inl e \<Rightarrow> (options, Called (Inl e))
                 | Inr addresses \<Rightarrow>
                     if addresses = [] then (options, Called (Inl (mk_error MongoAPIError ''No addresses found at host'')))
                     else if list_ex (\<lambda>r. \<not> matchesParentDomain (fst r) lookupAddress) addresses
                     then (options, Called (Inl (mk_error MongoAPIError ''Server record does not share hostname with parent URI'')))
                     else (case host_addresses (map record_address addresses) of
                             Inl e \<Rightarrow> (options, Thrown e)
                           | Inr hosts \<Rightarrow>
                               (case validateLoadBalancedOptions (length hosts) options True of
                                  Some e \<Rightarrow> (options, Called (Inl e))
                                | None \<Rightarrow>
                                    (case dns_resolveTxt dns lookupAddress of
                                       Inl e \<Rightarrow>
                                         (options,
                                          Called (if e_code e = Some (CodeStr ''ENODATA'') \<or> e_code e = Some (CodeStr ''ENOTFOUND'')
                                                  then Inr hosts else Inl e))
                                     | Inr record \<Rightarrow> txt_stage h record hosts options)))))
      | _ \<Rightarrow> (options, Called (Inl (mk_error MongoAPIError ''Option \"srvHost\" must not be empty''))))"

section \<open>The poller\<close>

text \<open>
  \<open>sp_timeout\<close> is the delay of the timer that is set, \<open>sp_polls\<close> the generations of the lookups
  under way, \<open>sp_discovered\<close> the records of the events emitted, last first.
\<close>

record srvPoller =
  sp_srvHost :: string
  sp_srvServiceName :: string
  sp_srvMaxHosts :: int
  sp_rescanSrvIntervalMS :: nat
  sp_heartbeatFrequencyMS :: nat
  sp_haMode :: bool
  sp_generation :: nat
  sp_timeout :: "nat option"
  sp_polls :: "nat list"
  sp_discovered :: "(string \<times> nat) list list"

definition SrvPoller_new ::
    "string \<Rightarrow> int option \<Rightarrow> string option \<Rightarrow> nat option \<Rightarrow> mongoError + srvPoller" where
  "SrvPoller_new srvHost srvMaxHosts srvServiceName heartbeatFrequencyMS =
     (if srvHost = [] then Inl (mk_error MongoRuntimeError ''Options for SrvPoller must exist and include srvHost'')
      else Inr \<lparr>sp_srvHost = srvHost, sp_srvServiceName = the_default ''mongodb'' srvServiceName,
                sp_srvMaxHosts = the_default 0 srvMaxHosts, sp_rescanSrvIntervalMS = 60000,
                sp_heartbeatFrequencyMS = the_default 10000 heartbeatFrequencyMS, sp_haMode = False,
                sp_generation = 0, sp_timeout = None, sp_polls = [], sp_discovered = []\<rparr>)"

definition srvAddress :: "srvPoller \<Rightarrow> string" where
  "srvAddress p = ''_'' @ sp_srvServiceName p @ ''._tcp.'' @ sp_srvHost p"

definition intervalMS :: "srvPoller \<Rightarrow> nat" where
  "intervalMS p = (if sp_haMode p then sp_heartbeatFrequencyMS p else sp_rescanSrvIntervalMS p)"

definition sp_schedule :: "srvPoller \<Rightarrow> srvPoller" where
  "sp_schedule p = p\<lparr>sp_timeout := Some (intervalMS p)\<rparr>"

definition sp_start :: "srvPoller \<Rightarrow> srvPoller" where
  "sp_start p = (if sp_timeout p = None then sp_schedule p else p)"

definition sp_stop :: "srvPoller \<Rightarrow> srvPoller" where
  "sp_stop p = (if sp_timeout p \<noteq> None then p\<lparr>sp_generation := Suc (sp_generation p), sp_timeout := None\<rparr> else p)"

definition sp_success :: "(string \<times> nat) list \<Rightarrow> srvPoller \<Rightarrow> srvPoller" where
  "sp_success srvRecords p =
     (let p1 = sp_schedule (p\<lparr>sp_haMode := False\<rparr>) in p1\<lparr>sp_discovered := srvRecords # sp_discovered p1\<rparr>)"

definition sp_failure :: "srvPoller \<Rightarrow> srvPoller" where
  "sp_failure p = sp_schedule (p\<lparr>sp_haMode := True\<rparr>)"

text \<open>The lookup that the timer starts, and the reply to one; a fired timer stays recorded in \<open>_timeout\<close>.\<close>

definition sp_poll :: "srvPoller \<Rightarrow> srvPoller" where
  "sp_poll p = p\<lparr>sp_polls := sp_polls p @ [sp_generation p]\<rparr>"

definition sp_reply :: "nat \<Rightarrow> mongoError + (string \<times> nat) list \<Rightarrow> srvPoller \<Rightarrow> srvPoller" where
  "sp_reply generation reply p =
     (let p1 = p\<lparr>sp_polls := remove1 generation (sp_polls p)\<rparr> in
      if generation \<noteq> sp_generation p1 then p1
      else (case reply of
              Inl e \<Rightarrow> sp_failure p1
            | Inr srvRecords \<Rightarrow>
                (let finalAddresses = filter (\<lambda>r. matchesParentDomain (fst r) (sp_srvHost p1)) srvRecords in
                 if finalAddresses = [] then sp_failure p1 else sp_success finalAddresses p1)))"

text \<open>The host names of an event, without repetition.\<close>

fun addresses_of :: "(string \<times> nat) list \<Rightarrow> mongoError + string list" where
  "addresses_of [] = Inr []"
| "addresses_of ((name, port) # rs) =
     rbind (HostAddress_fromHostPort name port) (\<lambda>a. rbind (addresses_of rs) (\<lambda>as. Inr (HostAddress_toString a False # as)))"

definition hostnames :: "(string \<times> nat) list \<Rightarrow> mongoError + string list" where
  "hostnames srvRecords = rbind (addresses_of srvRecords) (\<lambda>as. Inr (js_set as))"

text \<open>What can happen to a poller: the topology starts and stops it, its timer fires, a reply arrives.\<close>

inductive sp_step :: "srvPoller \<Rightarrow> srvPoller \<Rightarrow> bool" where
  start: "sp_step p (sp_start p)"
| stop: "sp_step p (sp_stop p)"
| timer: "sp_timeout p \<noteq> None \<Longrightarrow> sp_step p (sp_poll p)"
| reply: "generation \<in> set (sp_polls p) \<Longrightarrow> sp_step p (sp_reply generation r p)"

inductive sp_reachable :: "srvPoller \<Rightarrow> srvPoller \<Rightarrow> bool" where
  init: "sp_reachable p p"
| step: "sp_reachable p q \<Longrightarrow> sp_step q r \<Longrightarrow> sp_reachable p r"

section \<open>Below the parent domain\<close>

lemma ends_with_append: "ends_with suf s \<longleftrightarrow> (\<exists>pre. s = pre @ suf)"
proof
  assume "ends_with suf s"
  then have d: "drop (length s - length suf) s = suf" by (simp add: ends_with_def)
  have "s = take (length s - length suf) s @ suf" 
    by (rule append_take_drop_id [of "length s - length suf" s, unfolded d, symmetric])
  then show "\<exists>pre. s = pre @ suf" ..
qed (auto simp: ends_with_def)

lemma strip_label_cases:
  obtains "CHR ''.'' \<notin> set s" "strip_label s = s"
  | l r where "s = l @ ''.'' @ r" "CHR ''.'' \<notin> set l" "strip_label s = r"
proof (cases "dropWhile (\<lambda>c. c \<noteq> CHR ''.'') s")
  case Nil
  have "strip_label s = s" unfolding strip_label_def Nil by simp
  with Nil show ?thesis by (intro that(1)) (auto simp: dropWhile_eq_Nil_conv)
next
  case (Cons c r)
  then have "c = CHR ''.''" using hd_dropWhile [of "\<lambda>c. c \<noteq> CHR ''.''" s] by simp
  with Cons have "s = takeWhile (\<lambda>c. c \<noteq> CHR ''.'') s @ ''.'' @ r"
    using takeWhile_dropWhile_id [of "\<lambda>c. c \<noteq> CHR ''.''" s] by simp
  moreover have "CHR ''.'' \<notin> set (takeWhile (\<lambda>c. c \<noteq> CHR ''.'') s)" by (auto dest: set_takeWhileD)
  moreover have "strip_label s = r" unfolding strip_label_def Cons by simp
  ultimately show ?thesis by (rule that(2))
qed

text \<open>A name with three labels keeps a dot without its first one.\<close>

lemma three_labels:
  assumes "length (split_char (CHR ''.'') s) \<ge> 3" shows "CHR ''.'' \<in> set (strip_label s)"
proof (cases s rule: strip_label_cases)
  case 1
  with assms show ?thesis by (simp add: split_char_single)
next
  case (2 l r)
  then have "split_char (CHR ''.'') s = l # split_char (CHR ''.'') r"
    by (simp add: split_char_append)
  with assms 2 split_char_single [of "CHR ''.''" r] show ?thesis by (cases "CHR ''.'' \<in> set r") auto
qed

lemma matches_below:
  assumes "matchesParentDomain name parent" "length (split_char (CHR ''.'') parent) \<ge> 3"
  shows "\<exists>pre. name = pre @ ''.'' @ strip_label parent"
proof -
  obtain q where q: "''.'' @ strip_label name = q @ ''.'' @ strip_label parent"
    using assms(1) by (auto simp: matchesParentDomain_def Let_def ends_with_append)
  show ?thesis
  proof (cases name rule: strip_label_cases)
    case 1
    have "CHR ''.'' \<in> set (strip_label parent)" by (rule three_labels [OF assms(2)])
    moreover have "set (strip_label parent) \<subseteq> set name" using arg_cong [OF q, of "\<lambda>s. set (tl s)"] 1(2) by (cases q) auto
    ultimately show ?thesis using 1(1) by blast
  next
    case (2 l r)
    then have "name = (l @ q) @ ''.'' @ strip_label parent" using q by simp
    then show ?thesis by blast
  qed
qed

section \<open>The hosts of an SRV connection string\<close>

lemma host_addresses_length: "host_addresses ss = Inr hosts \<Longrightarrow> length hosts = length ss"
  by (induction ss arbitrary: hosts) (auto elim!: rbind_Inr_E)

lemma txt_stage_done:
  assumes "txt_stage h record hosts options = (options', Called (Inr hosts'))"
  shows "hosts = hosts' \<and> validateLoadBalancedOptions (length hosts') options' True = None"
  using assms by (auto simp: txt_stage_def Let_def split: if_splits list.splits sum.splits option.splits)

lemma plain_record_address:
  assumes "plain_host name" "0 < the_default 27017 port" "the_default 27017 port \<le> 65535"
  shows "HostAddress_new (record_address (name, port))
    = Inr \<lparr>ha_host = Some name, ha_port = Some (the_default 27017 port), ha_socketPath = None, ha_isIPv6 = False\<rparr>"
  using plain_address_canonical [OF assms] by (simp add: record_address_def)

lemma host_addresses_nth:
  "host_addresses ss = Inr hosts \<Longrightarrow> i < length ss \<Longrightarrow> HostAddress_new (ss ! i) = Inr (hosts ! i)"
  by (induction ss arbitrary: hosts i) (auto elim!: rbind_Inr_E simp: nth_Cons split: nat.splits)

text \<open>
  (C34) The hosts a successful lookup gives.  They come, in order, from the SRV records of the service
  name, of which there is one at least, and the name in every record ends in the parent domain of the
  name in the connection string.  A record with a plain name (lower-case letters, digits, dots and
  dashes) and a valid port gives the host of just that name and port, which therefore lies below the parent
  domain; on other names see \<open>foreign_host_accepted\<close>.  With load balancing, from the connection string
  or the text record, there is one host and no replica set.
\<close>

theorem srv_hosts_below_parent:
  assumes "resolveSRVRecord h dns options = (options', Called (Inr hosts))"
  shows "\<exists>srvHost records.
      opt_get ''srvHost'' options = Plain (JStr srvHost)
    \<and> dns_resolveSrv dns (''_'' @ opt_show (opt_get ''srvServiceName'' options) @ ''._tcp.'' @ srvHost) = Inr records
    \<and> records \<noteq> [] \<and> host_addresses (map record_address records) = Inr hosts
    \<and> (\<forall>r \<in> set records. \<exists>pre. fst r = pre @ ''.'' @ strip_label srvHost)
    \<and> (\<forall>i < length records. plain_host (fst (records ! i)) \<and> the_default 27017 (snd (records ! i)) \<in> {1..65535} \<longrightarrow>
          (\<exists>pre. hosts ! i = \<lparr>ha_host = Some (pre @ ''.'' @ strip_label srvHost),
             ha_port = Some (the_default 27017 (snd (records ! i))), ha_socketPath = None, ha_isIPv6 = False\<rparr>))
    \<and> (opt_truthy (opt_get ''loadBalanced'' options') \<longrightarrow> length hosts = 1 \<and> \<not> opt_truthy (opt_get ''replicaSet'' options'))"
proof -
  obtain srvHost where s: "opt_get ''srvHost'' options = Plain (JStr srvHost)"
    using assms by (auto simp: resolveSRVRecord_def split: optval.splits jsval.splits)
  have lb: "opt_truthy (opt_get ''loadBalanced'' x) \<longrightarrow> length hosts = 1 \<and> \<not> opt_truthy (opt_get ''replicaSet'' x)"
    if "validateLoadBalancedOptions (length hosts) x True = None" "hosts \<noteq> []" for x
    using that by (cases "length hosts") (auto simp: validateLoadBalancedOptions_def split: if_splits)
  from assms s obtain records where labels: "length (split_char (CHR ''.'') srvHost) \<ge> 3"
    and r: "dns_resolveSrv dns (''_'' @ opt_show (opt_get ''srvServiceName'' options) @ ''._tcp.'' @ srvHost) = Inr records"
      "records \<noteq> []" "\<forall>r \<in> set records. matchesParentDomain (fst r) srvHost" "host_addresses (map record_address records) = Inr hosts"
    and v: "validateLoadBalancedOptions (length hosts) options' True = None"
    by (auto simp: resolveSRVRecord_def list_ex_iff dest!: txt_stage_done split: if_splits sum.splits option.splits)
  have "hosts \<noteq> []" using host_addresses_length [OF r(4)] r(2) by auto
  have below: "\<forall>r \<in> set records. \<exists>pre. fst r = pre @ ''.'' @ strip_label srvHost"
    using r(3) matches_below [OF _ labels] by blast
  have "\<exists>pre. hosts ! i = \<lparr>ha_host = Some (pre @ ''.'' @ strip_label srvHost),
             ha_port = Some (the_default 27017 (snd (records ! i))), ha_socketPath = None, ha_isIPv6 = False\<rparr>"
    if i: "i < length records" "plain_host (fst (records ! i))" "the_default 27017 (snd (records ! i)) \<in> {1..65535}" for i
  proof -
    obtain pre where pre: "fst (records ! i) = pre @ ''.'' @ strip_label srvHost" using below i(1) nth_mem by blast
    have "HostAddress_new (record_address (records ! i)) = Inr (hosts ! i)"
      using host_addresses_nth [OF r(4), of i] i(1) by simp
    moreover have "HostAddress_new (record_address (records ! i))
        = Inr \<lparr>ha_host = Some (fst (records ! i)), ha_port = Some (the_default 27017 (snd (records ! i))),
               ha_socketPath = None, ha_isIPv6 = False\<rparr>"
      using plain_record_address [of "fst (records ! i)" "snd (records ! i)"] i by simp
    ultimately have "hosts ! i = \<lparr>ha_host = Some (fst (records ! i)), ha_port = Some (the_default 27017 (snd (records ! i))),
               ha_socketPath = None, ha_isIPv6 = False\<rparr>" by simp
    with pre show ?thesis by metis
  qed
  with s r(1,2,4) below lb [OF v \<open>hosts \<noteq> []\<close>] show ?thesis by blast
qed

text \<open>
  The check is on the name as it stands in the record, but the host is what the URL parser makes of
  it: a name with a slash passes the check, and the host is the part before the slash, wherever it is.
\<close>

theorem foreign_host_accepted:
  assumes "plain_host evil" "CHR '' '' \<notin> set srvHost"
  shows "matchesParentDomain (evil @ ''/.'' @ strip_label srvHost) srvHost
    \<and> HostAddress_new (record_address (evil @ ''/.'' @ strip_label srvHost, port))
        = Inr \<lparr>ha_host = Some evil, ha_port = Some 27017, ha_socketPath = None, ha_isIPv6 = False\<rparr>"
proof
  let ?p = "strip_label srvHost" and ?s = "record_address (evil @ ''/.'' @ strip_label srvHost, port)"
  have e: "evil \<noteq> []" "list_all plain_host_char evil" "\<not> ends_with ''.sock'' evil"
    using assms(1) by (auto simp: plain_host_def)
  show "matchesParentDomain (evil @ ''/.'' @ ?p) srvHost"
  proof (cases evil rule: strip_label_cases)
    case 1
    then have "strip_label (evil @ ''/.'' @ ?p) = ?p" by (simp add: strip_label_def dropWhile_append1 dropWhile_append)
    then show ?thesis by (simp add: matchesParentDomain_def ends_with_append)
  next
    case (2 l r)
    then have "strip_label (evil @ ''/.'' @ ?p) = r @ ''/.'' @ ?p" by (simp add: strip_label_def dropWhile_append)
    then have "''.'' @ strip_label (evil @ ''/.'' @ ?p) = (''.'' @ r @ ''/'') @ ''.'' @ ?p" by simp
    then show ?thesis unfolding matchesParentDomain_def ends_with_append Let_def by blast
  qed
  have "set ?p \<subseteq> set srvHost" by (cases srvHost rule: strip_label_cases) auto
  then have "CHR '' '' \<notin> set ?s"
    using assms(2) plain_no_space [OF e(2)] plain_no_space [of "show_nat n" for n] show_nat_digits is_digit_plain
    by (auto simp: record_address_def list_all_iff)
  then have escaped: "join_with ''%20'' (split_char (CHR '' '') ?s) = ?s" by (simp add: split_char_single)
  have chars: "\<forall>c \<in> set evil. c \<notin> set '' #/:<>?@[]^|%''" using e(2) plain_host_char_neq(1) by (auto simp: list_all_iff)
  have "takeWhile (\<lambda>c. c \<notin> set ''/?#'') (evil @ ''/.'' @ ?p @ rest) = evil" for rest
    using chars by (subst takeWhile_append2) auto
  moreover have "takeWhile (\<lambda>c. c \<noteq> CHR ''@'') (rev evil) = rev evil"
    using chars by (simp add: takeWhile_eq_all_conv)
  then have "rev (takeWhile (\<lambda>c. c \<noteq> CHR ''@'') (rev evil)) = evil" by (simp only: rev_rev_ident)
  ultimately have auth: "url_authority ?s = evil" by (simp add: url_authority_def record_address_def)
  have colon: "takeWhile (\<lambda>c. c \<noteq> CHR '':'') evil = evil" "dropWhile (\<lambda>c. c \<noteq> CHR '':'') evil = []"
    using chars by (simp_all add: takeWhile_eq_all_conv dropWhile_eq_Nil_conv)
  have bracket: "hd evil \<noteq> CHR ''[''" using chars e(1) by (cases evil) auto
  have "url_host_port ?s = Some (evil, [])"
    unfolding url_host_port_def Let_def auth colon using bracket plain_not_forbidden [OF e(2)] by simp
  then show "HostAddress_new ?s = Inr \<lparr>ha_host = Some evil, ha_port = Some 27017, ha_socketPath = None, ha_isIPv6 = False\<rparr>"
    using e(3) bracket plain_decode [OF e(2)] plain_lower [OF e(2)] unfolding HostAddress_new_def escaped Let_def by simp
qed

section \<open>Polling\<close>

lemma sp_reply_srvHost [simp]: "sp_srvHost (sp_reply g r p) = sp_srvHost p"
  by (simp add: sp_reply_def sp_failure_def sp_success_def sp_schedule_def Let_def split: sum.splits)

lemma sp_step_srvHost: "sp_step p q \<Longrightarrow> sp_srvHost q = sp_srvHost p"
  by (induction rule: sp_step.induct) (auto simp: sp_start_def sp_stop_def sp_schedule_def sp_poll_def)

definition discovered_below :: "srvPoller \<Rightarrow> bool" where
  "discovered_below p \<longleftrightarrow>
     (\<forall>rs \<in> set (sp_discovered p). rs \<noteq> [] \<and> (\<forall>r \<in> set rs. matchesParentDomain (fst r) (sp_srvHost p)))"

lemma discovered_below_step: "sp_step p q \<Longrightarrow> discovered_below p \<Longrightarrow> discovered_below q"
  by (induction rule: sp_step.induct)
    (auto simp: discovered_below_def sp_start_def sp_stop_def sp_schedule_def sp_poll_def sp_reply_def sp_failure_def
      sp_success_def Let_def split: sum.splits if_splits)

text \<open>Whatever the name servers answer, the names in the records of an event end in the parent domain.\<close>

theorem polled_hosts_below_parent:
  assumes "sp_reachable p q" "sp_discovered p = []" "length (split_char (CHR ''.'') (sp_srvHost p)) \<ge> 3"
  shows "\<forall>rs \<in> set (sp_discovered q). rs \<noteq> [] \<and> (\<forall>r \<in> set rs. \<exists>pre. fst r = pre @ ''.'' @ strip_label (sp_srvHost p))"
proof -
  have "discovered_below q \<and> sp_srvHost q = sp_srvHost p"
    using assms(1, 2)
  proof (induction rule: sp_reachable.induct)
    case (init p)
    then show ?case by (simp add: discovered_below_def)
  next
    case (step p q r)
    then show ?case using discovered_below_step sp_step_srvHost by simp
  qed
  then have "\<forall>rs \<in> set (sp_discovered q). rs \<noteq> [] \<and> (\<forall>r \<in> set rs. matchesParentDomain (fst r) (sp_srvHost p))"
    unfolding discovered_below_def by metis
  with matches_below [OF _ assms(3)] show ?thesis by blast
qed

text \<open>
  A reply of the current generation sets the timer again, to the heartbeat interval after a failure;
  one that arrives after the poller was stopped changes nothing but the list of lookups.
\<close>

theorem polling_goes_on:
  "sp_reply g reply p =
     (if g \<noteq> sp_generation p then p\<lparr>sp_polls := remove1 g (sp_polls p)\<rparr>
      else (let found = (case reply of Inl _ \<Rightarrow> [] | Inr rs \<Rightarrow> filter (\<lambda>r. matchesParentDomain (fst r) (sp_srvHost p)) rs)
            in p\<lparr>sp_polls := remove1 g (sp_polls p), sp_haMode := (found = []),
                  sp_timeout := Some (if found = [] then sp_heartbeatFrequencyMS p else sp_rescanSrvIntervalMS p),
                  sp_discovered := (if found = [] then sp_discovered p else found # sp_discovered p)\<rparr>))"
  by (auto simp: sp_reply_def sp_failure_def sp_success_def sp_schedule_def intervalMS_def Let_def split: sum.splits)

section \<open>An example\<close>

definition example_dns :: dns where
  "example_dns = \<lparr>dns_resolveSrv = (\<lambda>_. Inr [(''db1.example.com'', Some 27017), (''db2.example.com'', None)]),
     dns_resolveTxt = (\<lambda>_. Inl ((mk_error JSError ''queryTxt'')\<lparr>e_code := Some (CodeStr ''ENODATA'')\<rparr>))\<rparr>"

definition example_srv_options :: optmap where
  "example_srv_options = [(''srvHost'', Plain (JStr ''cluster.example.com'')), (''srvServiceName'', Plain (JStr ''mongodb''))]"

lemma example_addresses:
  "host_addresses (map record_address [(''db1.example.com'', Some 27017), (''db2.example.com'', None)])
     = Inr [\<lparr>ha_host = Some ''db1.example.com'', ha_port = Some 27017, ha_socketPath = None, ha_isIPv6 = False\<rparr>,
            \<lparr>ha_host = Some ''db2.example.com'', ha_port = Some 27017, ha_socketPath = None, ha_isIPv6 = False\<rparr>]"
proof -
  have "plain_host ''db1.example.com''" "plain_host ''db2.example.com''"
    by (simp_all add: plain_host_def plain_host_char_def ends_with_def)
  then show ?thesis by (simp add: plain_record_address)
qed

lemma example_resolves:
  "\<exists>hosts. resolveSRVRecord example_host example_dns example_srv_options = (example_srv_options, Called (Inr hosts))"
proof -
  have "length (split_char (CHR ''.'') ''cluster.example.com'') = 3" by simp
  moreover have "matchesParentDomain ''db1.example.com'' ''cluster.example.com''"
    "matchesParentDomain ''db2.example.com'' ''cluster.example.com''"
    by (simp_all add: matchesParentDomain_def strip_label_def ends_with_def)
  ultimately show ?thesis
    unfolding resolveSRVRecord_def example_srv_options_def example_dns_def
    using example_addresses by (simp add: opt_get_def validateLoadBalancedOptions_def)
qed

theorem srv_hosts_below_parent_witness:
  "\<exists>hosts. resolveSRVRecord example_host example_dns example_srv_options = (example_srv_options, Called (Inr hosts))
     \<and> (\<exists>pre. hosts ! 0 = \<lparr>ha_host = Some (pre @ ''.example.com''), ha_port = Some 27017, ha_socketPath = None, ha_isIPv6 = False\<rparr>)
     \<and> (\<exists>pre. hosts ! 1 = \<lparr>ha_host = Some (pre @ ''.example.com''), ha_port = Some 27017, ha_socketPath = None, ha_isIPv6 = False\<rparr>)"
proof -
  obtain hosts where hosts: "resolveSRVRecord example_host example_dns example_srv_options = (example_srv_options, Called (Inr hosts))"
    using example_resolves by blast
  let ?rs = "[(''db1.example.com'', Some 27017), (''db2.example.com'', None)]"
  from srv_hosts_below_parent [OF hosts] obtain srvHost records where
    r: "opt_get ''srvHost'' example_srv_options = Plain (JStr srvHost)"
      "dns_resolveSrv example_dns (''_'' @ opt_show (opt_get ''srvServiceName'' example_srv_options) @ ''._tcp.'' @ srvHost) = Inr records"
      "\<forall>i < length records. plain_host (fst (records ! i)) \<and> the_default 27017 (snd (records ! i)) \<in> {1..65535} \<longrightarrow>
          (\<exists>pre. hosts ! i = \<lparr>ha_host = Some (pre @ ''.'' @ strip_label srvHost),
             ha_port = Some (the_default 27017 (snd (records ! i))), ha_socketPath = None, ha_isIPv6 = False\<rparr>)"
    by blast
  from r(1) have "srvHost = ''cluster.example.com''" by (simp add: example_srv_options_def opt_get_def)
  then have d: "strip_label srvHost = ''example.com''" by (simp add: strip_label_def)
  have rs: "records = ?rs" using r(2) by (simp add: example_dns_def)
  have "plain_host ''db1.example.com''" "plain_host ''db2.example.com''"
    by (simp_all add: plain_host_def plain_host_char_def ends_with_def)
  with r(3) [rule_format, of 0] r(3) [rule_format, of 1] d rs hosts show ?thesis by simp
qed

definition example_poller :: srvPoller where
  "example_poller = \<lparr>sp_srvHost = ''cluster.example.com'', sp_srvServiceName = ''mongodb'', sp_srvMaxHosts = 0,
     sp_rescanSrvIntervalMS = 60000, sp_heartbeatFrequencyMS = 10000, sp_haMode = False, sp_generation = 0,
     sp_timeout = None, sp_polls = [], sp_discovered = []\<rparr>"

definition example_polled :: srvPoller where
  "example_polled = sp_reply 0 (Inr [(''db1.example.com'', 27017), (''db.evil.com'', 27017)]) (sp_poll (sp_start example_poller))"

lemma example_polled_reachable: "sp_reachable example_poller example_polled"
proof -
  have "sp_reachable example_poller (sp_start example_poller)" by (rule step [OF init start])
  then have "sp_reachable example_poller (sp_poll (sp_start example_poller))"
    by (rule step) (rule timer, simp add: sp_start_def sp_schedule_def example_poller_def)
  then show ?thesis unfolding example_polled_def
    by (rule step) (rule reply, simp add: sp_poll_def sp_start_def sp_schedule_def example_poller_def)
qed

theorem polled_hosts_below_parent_witness:
  "sp_discovered example_polled = [[(''db1.example.com'', 27017)]]
   \<and> (\<forall>rs \<in> set (sp_discovered example_polled). rs \<noteq> []
        \<and> (\<forall>r \<in> set rs. \<exists>pre. fst r = pre @ ''.'' @ strip_label (sp_srvHost example_poller)))"
proof
  show "sp_discovered example_polled = [[(''db1.example.com'', 27017)]]"
    by (simp add: example_polled_def example_poller_def sp_reply_def sp_poll_def sp_start_def sp_schedule_def sp_success_def
        matchesParentDomain_def strip_label_def ends_with_def)
  show "\<forall>rs \<in> set (sp_discovered example_polled). rs \<noteq> []
        \<and> (\<forall>r \<in> set rs. \<exists>pre. fst r = pre @ ''.'' @ strip_label (sp_srvHost example_poller))"
    by (rule polled_hosts_below_parent [OF example_polled_reachable]) (simp_all add: example_poller_def)
qed

end
