(* ===== verification/Scram.thy ===== *)
theory Scram
  imports Option_Table
begin

unbundle bit_operations_syntax

text \<open>
  \<open>src/cmap/auth/scram.ts\<close> with the base of \<open>src/cmap/auth/auth_provider.ts\<close>: the SCRAM conversation
  in which client and server prove to each other that they know the password.  Byte strings are
  strings of 8-bit characters, and text is ASCII, so that encoding text leaves it as it is.  The hash
  functions of Node and the optional preparation of passwords are fields of \<open>crypto\<close>; the server is a
  function of the commands sent to it so far, and answers the last of them.
\<close>

section \<open>Base 64\<close>

definition b64_alphabet :: string where
  "b64_alphabet = ''ABCDEFGHIJKLMNOPQRSTUVWXYZabcdefghijklmnopqrstuvwxyz0123456789+/''"

definition b64_char :: "nat \<Rightarrow> char" where
  "b64_char n = b64_alphabet ! n"

text \<open>Node reads the URL alphabet too.\<close>

definition b64_val :: "char \<Rightarrow> nat option" where
  "b64_val c =
     (let n = (of_char c :: nat) in
      if 65 \<le> n \<and> n \<le> 90 then Some (n - 65)
      else if 97 \<le> n \<and> n \<le> 122 then Some (n - 71)
      else if 48 \<le> n \<and> n \<le> 57 then Some (n + 4)
      else if n = 43 \<or> n = 45 then Some 62
      else if n = 47 \<or> n = 95 then Some 63
      else None)"

text \<open>\<open>b.toString('base64')\<close>.\<close>

fun base64_encode :: "string \<Rightarrow> string" where
  "base64_encode [] = []"
| "base64_encode [a] = [b64_char (of_char a div 4), b64_char (of_char a mod 4 * 16), CHR ''='', CHR ''='']"
| "base64_encode [a, b] =
     [b64_char (of_char a div 4), b64_char (of_char a mod 4 * 16 + of_char b div 16), b64_char (of_char b mod 16 * 4), CHR ''='']"
| "base64_encode (a # b # c # r) =
     [b64_char (of_char a div 4), b64_char (of_char a mod 4 * 16 + of_char b div 16),
      b64_char (of_char b mod 16 * 4 + of_char c div 64), b64_char (of_char c mod 64)] @ base64_encode r"

text \<open>\<open>Buffer.from(s, 'base64')\<close>: up to the padding, other characters are skipped.\<close>

fun sextets_decode :: "nat list \<Rightarrow> string" where
  "sextets_decode (a # b # c # d # r) =
     [char_of (a * 4 + b div 16), char_of (b mod 16 * 16 + c div 4), char_of (c mod 4 * 64 + d)] @ sextets_decode r"
| "sextets_decode [a, b, c] = [char_of (a * 4 + b div 16), char_of (b mod 16 * 16 + c div 4)]"
| "sextets_decode [a, b] = [char_of (a * 4 + b div 16)]"
| "sextets_decode _ = []"

definition base64_decode :: "string \<Rightarrow> string" where
  "base64_decode s = sextets_decode (List.map_filter b64_val (takeWhile (\<lambda>c. c \<noteq> CHR ''='') s))"

section \<open>Messages\<close>

datatype cryptoMethod = Sha1 | Sha256

record crypto =
  cr_randomBytes :: "mongoError + string"
  cr_md5 :: "string \<Rightarrow> string"
  cr_hash :: "cryptoMethod \<Rightarrow> string \<Rightarrow> string"
  cr_hmac :: "cryptoMethod \<Rightarrow> string \<Rightarrow> string \<Rightarrow> string"
  cr_pbkdf2 :: "string \<Rightarrow> string \<Rightarrow> int option \<Rightarrow> nat \<Rightarrow> cryptoMethod \<Rightarrow> mongoError + string"
  cr_saslprep :: "(string \<Rightarrow> mongoError + string) option"

text \<open>\<open>s.replace(c, r)\<close> for a one-character string: the first occurrence.\<close>

fun replace_first :: "char \<Rightarrow> string \<Rightarrow> string \<Rightarrow> string" where
  "replace_first c r [] = []"
| "replace_first c r (x # xs) = (if x = c then r @ xs else x # replace_first c r xs)"

definition cleanUsername :: "string \<Rightarrow> string" where
  "cleanUsername username = replace_first (CHR '','') ''=2C'' (replace_first (CHR ''='') ''=3D'' username)"

definition clientFirstMessageBare :: "string \<Rightarrow> string \<Rightarrow> string" where
  "clientFirstMessageBare username nonce = ''n='' @ username @ '',r='' @ base64_encode nonce"

fun scram_mechanism :: "cryptoMethod \<Rightarrow> string" where
  "scram_mechanism Sha1 = MONGODB_SCRAM_SHA1"
| "scram_mechanism Sha256 = MONGODB_SCRAM_SHA256"

definition makeFirstMessage :: "cryptoMethod \<Rightarrow> string \<Rightarrow> string \<Rightarrow> doc" where
  "makeFirstMessage m user nonce =
     [(''saslStart'', JNum 1), (''mechanism'', JStr (scram_mechanism m)),
      (''payload'', JStr (''n,,'' @ clientFirstMessageBare (cleanUsername user) nonce)), (''autoAuthorize'', JNum 1),
      (''options'', JDoc [(''skipEmptyExchange'', JBool True)])]"

definition parsePayload :: "string \<Rightarrow> doc" where
  "parsePayload payload =
     fold (\<lambda>part. case split_char (CHR ''='') part of
             k # v # _ \<Rightarrow> map_set k (JStr v)
           | [k] \<Rightarrow> map_set k JUndef
           | [] \<Rightarrow> id) (split_char (CHR '','') payload) []"

definition passwordDigest :: "crypto \<Rightarrow> jsval \<Rightarrow> jsval \<Rightarrow> mongoError + string" where
  "passwordDigest cr username password =
     (case (username, password) of
        (JStr u, JStr p) \<Rightarrow>
          if p = [] then Inl (invalid_argument ''Password cannot be empty'') else Inr (cr_md5 cr (u @ '':mongo:'' @ p))
      | (JStr _, _) \<Rightarrow> Inl (invalid_argument ''Password must be a string'')
      | _ \<Rightarrow> Inl (invalid_argument ''Username must be a string''))"

text \<open>\<open>a[i] ^ b[i]\<close>, where a missing byte counts as zero; \<open>xor\<close> gives the base 64 of the result.\<close>

definition byte_at :: "string \<Rightarrow> nat \<Rightarrow> nat" where
  "byte_at s i = (if i < length s then of_char (s ! i) else 0)"

definition xor_bytes :: "string \<Rightarrow> string \<Rightarrow> string" where
  "xor_bytes a b = map (\<lambda>i. char_of (byte_at a i XOR byte_at b i)) [0..<max (length a) (length b)]"

definition scram_xor :: "string \<Rightarrow> string \<Rightarrow> string" where
  "scram_xor a b = base64_encode (xor_bytes a b)"

section \<open>Salted passwords\<close>

record hiCache =
  hc_map :: "(string, string) jsmap"
  hc_count :: nat

definition hiCachePurge :: "hiCache \<Rightarrow> hiCache" where
  "hiCachePurge c = \<lparr>hc_map = [], hc_count = 0\<rparr>"

fun hiLengthMap :: "cryptoMethod \<Rightarrow> nat" where
  "hiLengthMap Sha256 = 32"
| "hiLengthMap Sha1 = 20"

definition show_iterations :: "int option \<Rightarrow> string" where
  "show_iterations i = (case i of Some n \<Rightarrow> show_int n | None \<Rightarrow> ''NaN'')"

definition HI :: "crypto \<Rightarrow> string \<Rightarrow> string \<Rightarrow> int option \<Rightarrow> cryptoMethod \<Rightarrow> hiCache \<Rightarrow> hiCache \<times> (mongoError + string)" where
  "HI cr data salt iterations m c =
     (let key = join_with ''_'' [data, base64_encode salt, show_iterations iterations] in
      case map_of (hc_map c) key of
        Some v \<Rightarrow> (c, Inr v)
      | None \<Rightarrow>
          (case cr_pbkdf2 cr data salt iterations (hiLengthMap m) m of
             Inl e \<Rightarrow> (c, Inl e)
           | Inr saltedData \<Rightarrow>
               (let c' = (if hc_count c \<ge> 200 then hiCachePurge c else c)
                in (\<lparr>hc_map = map_set key saltedData (hc_map c'), hc_count = hc_count c' + 1\<rparr>, Inr saltedData))))"

section \<open>The conversation\<close>

text \<open>Commands sent with the database they go to, and the server that answers the last of them.\<close>

type_synonym sent = "(string \<times> doc) list"
type_synonym server = "sent \<Rightarrow> mongoError + doc"

definition run_command :: "server \<Rightarrow> string \<Rightarrow> doc \<Rightarrow> sent \<Rightarrow> sent \<times> (mongoError + doc)" where
  "run_command srv db cmd log' = (let l = log' @ [(db, cmd)] in (l, srv l))"

text \<open>The end of an authentication: its callback is called, or an exception leaves a callback.\<close>

datatype authOutcome = AuthDone | AuthFailed mongoError | AuthThrown mongoError

record authContext =
  ac_credentials :: "mongoCredentials option"
  ac_response :: "doc option"
  ac_nonce :: "string option"

definition no_credentials_error :: mongoError where
  "no_credentials_error = mk_error MongoMissingCredentialsError ''AuthContext must provide credentials.''"

definition resolveError :: "mongoError + doc \<Rightarrow> mongoError option" where
  "resolveError r =
     (case r of
        Inl e \<Rightarrow> Some e
      | Inr d \<Rightarrow> if truthy (fld ''$err'' d) \<or> truthy (fld ''errmsg'' d) then Some (server_error (JDoc d)) else None)"

definition compareDigest :: "string \<Rightarrow> string \<Rightarrow> bool" where
  "compareDigest lhs rhs = (length lhs = length rhs \<and> lhs = rhs)"

definition processed_password :: "crypto \<Rightarrow> cryptoMethod \<Rightarrow> string \<Rightarrow> jsval \<Rightarrow> mongoError + string" where
  "processed_password cr m username password =
     (case m of
        Sha256 \<Rightarrow> (case cr_saslprep cr of Some f \<Rightarrow> f (js_show password) | None \<Rightarrow> Inr (js_show password))
      | Sha1 \<Rightarrow> passwordDigest cr (JStr username) password)"

text \<open>What the client computes from the salted password and the messages.\<close>

record scramKeys =
  sk_clientFinal :: string
  sk_serverSignature :: string

definition auth_message :: "string \<Rightarrow> string \<Rightarrow> string \<Rightarrow> string \<Rightarrow> string" where
  "auth_message username nonce payload rnonce =
     join_with '','' [clientFirstMessageBare username nonce, payload, ''c=biws,r='' @ rnonce]"

definition scram_keys :: "crypto \<Rightarrow> cryptoMethod \<Rightarrow> string \<Rightarrow> string \<Rightarrow> string \<Rightarrow> scramKeys" where
  "scram_keys cr m saltedPassword authMessage rnonce =
     (let withoutProof = ''c=biws,r='' @ rnonce;
          clientKey = cr_hmac cr m saltedPassword ''Client Key'';
          serverKey = cr_hmac cr m saltedPassword ''Server Key'';
          storedKey = cr_hash cr m clientKey;
          clientSignature = cr_hmac cr m storedKey authMessage;
          clientProof = ''p='' @ scram_xor clientKey clientSignature
      in \<lparr>sk_clientFinal = join_with '','' [withoutProof, clientProof],
          sk_serverSignature = cr_hmac cr m serverKey authMessage\<rparr>)"

text \<open>After the reply to the client's final message; a last empty exchange if the server wants one.\<close>

definition finish_scram :: "server \<Rightarrow> string \<Rightarrow> string \<Rightarrow> sent \<Rightarrow> mongoError + doc \<Rightarrow> sent \<times> authOutcome" where
  "finish_scram srv db serverSignature l reply =
     (case resolveError reply of
        Some e \<Rightarrow> (l, AuthFailed e)
      | None \<Rightarrow>
          (let r = (case reply of Inr d \<Rightarrow> d | Inl _ \<Rightarrow> []) in
           case fld ''payload'' r of
             JStr p \<Rightarrow>
               (case fld ''v'' (parsePayload p) of
                  JStr v \<Rightarrow>
                    if \<not> compareDigest (base64_decode v) serverSignature
                    then (l, AuthFailed (mk_error MongoRuntimeError ''Server returned an invalid signature''))
                    else if fld ''done'' r \<noteq> JBool False then (l, AuthDone)
                    else (case run_command srv db [(''saslContinue'', JNum 1), (''conversationId'', fld ''conversationId'' r),
                                 (''payload'', JStr [])] l of
                            (l', Inl e) \<Rightarrow> (l', AuthFailed e)
                          | (l', Inr _) \<Rightarrow> (l', AuthDone))
                | _ \<Rightarrow> (l, AuthThrown (js_type_error ''first argument must be a string'')))
           | _ \<Rightarrow> (l, AuthThrown (js_type_error ''Cannot read property 'value' of undefined''))))"

text \<open>
  The continuation on the server's first message: the iteration count and the nonce are looked at, then
  the client proves that it knows the password.
\<close>

definition send_proof ::
    "crypto \<Rightarrow> server \<Rightarrow> cryptoMethod \<Rightarrow> string \<Rightarrow> string \<Rightarrow> string \<Rightarrow> string \<Rightarrow> doc \<Rightarrow> string \<Rightarrow> string \<Rightarrow> sent \<Rightarrow> sent \<times> authOutcome" where
  "send_proof cr srv m db username nonce payload response rnonce saltedPassword l =
     (let keys = scram_keys cr m saltedPassword (auth_message username nonce payload rnonce) rnonce;
          (l', reply) = run_command srv db [(''saslContinue'', JNum 1), (''conversationId'', fld ''conversationId'' response),
             (''payload'', JStr (sk_clientFinal keys))] l
      in finish_scram srv db (sk_serverSignature keys) l' reply)"

definition continueScramConversation ::
    "crypto \<Rightarrow> server \<Rightarrow> cryptoMethod \<Rightarrow> doc \<Rightarrow> authContext \<Rightarrow> hiCache \<Rightarrow> sent \<Rightarrow> hiCache \<times> sent \<times> authOutcome" where
  "continueScramConversation cr srv m response ctx c l =
     (case ac_credentials ctx of
        None \<Rightarrow> (c, l, AuthFailed no_credentials_error)
      | Some creds \<Rightarrow>
          (case ac_nonce ctx of
             None \<Rightarrow> (c, l, AuthFailed (invalid_argument ''Unable to continue SCRAM without valid nonce''))
           | Some nonce \<Rightarrow>
               (case mc_username creds of
                  JStr user \<Rightarrow>
                    (let db = js_show (mc_source creds); username = cleanUsername user in
                     case processed_password cr m username (mc_password creds) of
                       Inl e \<Rightarrow> (c, l, if m = Sha256 then AuthThrown e else AuthFailed e)
                     | Inr password \<Rightarrow>
                         (case fld ''payload'' response of
                            JStr payload \<Rightarrow>
                              (let dict = parsePayload payload; iterations = parseInt (js_show (fld ''i'' dict)) in
                               if (case iterations of Some n \<Rightarrow> n \<noteq> 0 \<and> n < 4096 | None \<Rightarrow> False)
                               then (c, l, AuthFailed (mk_error MongoRuntimeError ''Server returned an invalid iteration count''))
                               else (case (fld ''s'' dict, fld ''r'' dict) of
                                       (s, JStr rnonce) \<Rightarrow>
                                         if take 5 rnonce = ''nonce''
                                         then (c, l, AuthFailed (mk_error MongoRuntimeError ''Server returned an invalid nonce''))
                                         else (case s of
                                                 JStr salt \<Rightarrow>
                                                   (case HI cr password (base64_decode salt) iterations m c of
                                                      (c', Inl e) \<Rightarrow> (c', l, AuthThrown e)
                                                    | (c', Inr saltedPassword) \<Rightarrow>
                                                        (c', send_proof cr srv m db username nonce payload response rnonce saltedPassword l))
                                               | _ \<Rightarrow> (c, l, AuthThrown (js_type_error ''first argument must be a string'')))
                                     | _ \<Rightarrow> (c, l, AuthThrown (js_type_error ''Cannot read property 'startsWith' of undefined''))))
                          | _ \<Rightarrow> (c, l, AuthThrown (js_type_error ''Cannot read property 'value' of undefined''))))
                | _ \<Rightarrow> (c, l, AuthThrown (js_type_error ''username.replace is not a function'')))))"

definition executeScram ::
    "crypto \<Rightarrow> server \<Rightarrow> cryptoMethod \<Rightarrow> authContext \<Rightarrow> hiCache \<Rightarrow> sent \<Rightarrow> hiCache \<times> sent \<times> authOutcome" where
  "executeScram cr srv m ctx c l =
     (case ac_credentials ctx of
        None \<Rightarrow> (c, l, AuthFailed no_credentials_error)
      | Some creds \<Rightarrow>
          (case ac_nonce ctx of
             None \<Rightarrow> (c, l, AuthFailed (invalid_argument ''AuthContext must contain a valid nonce property''))
           | Some nonce \<Rightarrow>
               (case mc_username creds of
                  JStr user \<Rightarrow>
                    (let (l', reply) = run_command srv (js_show (mc_source creds)) (makeFirstMessage m user nonce) l in
                     case resolveError reply of
                       Some e \<Rightarrow> (c, l', AuthFailed e)
                     | None \<Rightarrow> continueScramConversation cr srv m (case reply of Inr d \<Rightarrow> d | Inl _ \<Rightarrow> []) ctx c l')
                | _ \<Rightarrow> (c, l, AuthThrown (js_type_error ''username.replace is not a function'')))))"

definition ScramSHA_auth ::
    "crypto \<Rightarrow> server \<Rightarrow> cryptoMethod \<Rightarrow> authContext \<Rightarrow> hiCache \<Rightarrow> sent \<Rightarrow> hiCache \<times> sent \<times> authOutcome" where
  "ScramSHA_auth cr srv m ctx c l =
     (case ac_response ctx of
        Some response \<Rightarrow>
          (let spec = fld ''speculativeAuthenticate'' response in
           if truthy spec then continueScramConversation cr srv m (props_of spec) ctx c l
           else executeScram cr srv m ctx c l)
      | None \<Rightarrow> executeScram cr srv m ctx c l)"

text \<open>\<open>prepare\<close>: a nonce, kept in the context, and the first message inside the handshake document.\<close>

datatype prepareOutcome = Prepared doc | PrepareFailed mongoError | PrepareThrown mongoError

definition ScramSHA_prepare :: "crypto \<Rightarrow> cryptoMethod \<Rightarrow> doc \<Rightarrow> authContext \<Rightarrow> authContext \<times> prepareOutcome" where
  "ScramSHA_prepare cr m handshakeDoc ctx =
     (case ac_credentials ctx of
        None \<Rightarrow> (ctx, PrepareFailed no_credentials_error)
      | Some creds \<Rightarrow>
          (case cr_randomBytes cr of
             Inl e \<Rightarrow> (ctx, PrepareFailed e)
           | Inr nonce \<Rightarrow>
               (let ctx' = ctx\<lparr>ac_nonce := Some nonce\<rparr> in
                case mc_username creds of
                  JStr user \<Rightarrow>
                    (ctx', Prepared (map_set ''speculativeAuthenticate''
                       (JDoc (map_set ''db'' (mc_source creds) (makeFirstMessage m user nonce))) handshakeDoc))
                | _ \<Rightarrow> (ctx', PrepareThrown (js_type_error ''username.replace is not a function'')))))"

section \<open>Base 64 and exclusive or\<close>

lemma b64_chars: "list_all (\<lambda>n. b64_val (b64_char n) = Some n \<and> b64_char n \<noteq> CHR ''='') [0..<64]"
  by (simp add: upt_rec b64_char_def b64_alphabet_def b64_val_def)

lemma b64_char_val: "n < 64 \<Longrightarrow> b64_val (b64_char n) = Some n" "n < 64 \<Longrightarrow> b64_char n \<noteq> CHR ''=''"
  using b64_chars by (simp_all add: list_all_iff)

lemma of_char_less: "(of_char c :: nat) < 256"
  by simp

lemma div_bounds: "(a :: nat) < 256 \<Longrightarrow> a div 4 < 64" "(a :: nat) < 256 \<Longrightarrow> a div 16 < 16" "(a :: nat) < 256 \<Longrightarrow> a div 64 < 4"
  by (simp_all add: less_mult_imp_div_less)

lemma sextets_lt:
  "(a :: nat) < 256 \<Longrightarrow> a div 4 < 64" "a mod 4 * 16 < (64 :: nat)" "(b :: nat) < 256 \<Longrightarrow> a mod 4 * 16 + b div 16 < 64"
  "b mod 16 * 4 < (64 :: nat)" "(c :: nat) < 256 \<Longrightarrow> b mod 16 * 4 + c div 64 < 64" "c mod 64 < (64 :: nat)"
proof -
  have m: "a mod 4 < 4" "b mod 16 < 16" "c mod 64 < 64" by simp_all
  show "a < 256 \<Longrightarrow> a div 4 < 64" by (rule div_bounds)
  show "a mod 4 * 16 < 64" "b mod 16 * 4 < 64" "c mod 64 < 64" using m by linarith+
  show "b < 256 \<Longrightarrow> a mod 4 * 16 + b div 16 < 64" using m(1) div_bounds(2) [of b] by linarith
  show "c < 256 \<Longrightarrow> b mod 16 * 4 + c div 64 < 64" using m(2) div_bounds(3) [of c] by linarith
qed

lemma sextets_join:
  fixes a b c :: nat
  shows "b < 256 \<Longrightarrow> a div 4 * 4 + (a mod 4 * 16 + b div 16) div 16 = a"
    "b < 256 \<Longrightarrow> c < 256 \<Longrightarrow> (a mod 4 * 16 + b div 16) mod 16 * 16 + (b mod 16 * 4 + c div 64) div 4 = b"
    "c < 256 \<Longrightarrow> (b mod 16 * 4 + c div 64) mod 4 * 64 + c mod 64 = c"
  using div_bounds(2) [of b] div_bounds(3) [of c] by simp_all

lemma base64_roundtrip: "base64_decode (base64_encode s) = s"
proof (induction s rule: base64_encode.induct)
  case 1
  show ?case by (simp add: base64_decode_def map_filter_simps)
next
  case (2 a)
  then show ?case
    by (simp add: base64_decode_def map_filter_simps b64_char_val sextets_lt)
next
  case (3 a b)
  then show ?case
    using sextets_join(1) [of "of_char b" "of_char a"] sextets_join(2) [of "of_char b" 0 "of_char a"]
    by (simp add: base64_decode_def map_filter_simps b64_char_val sextets_lt)
next
  case (4 a b c r)
  then show ?case
    using sextets_join(1) [of "of_char b" "of_char a"] sextets_join(2) [of "of_char b" "of_char c" "of_char a"]
      sextets_join(3) [of "of_char c" "of_char b"]
    by (simp add: base64_decode_def map_filter_simps b64_char_val sextets_lt)
qed

lemma xor_mod_twice:
  fixes x y :: nat
  assumes "x < 256" "y < 256" shows "(x XOR y) mod 256 XOR y = x"
proof -
  have "take_bit 8 x = x" "take_bit 8 y = y" using assms by (simp_all add: take_bit_nat_eq_self)
  then have "take_bit 8 (x XOR y) = x XOR y" by (simp only: take_bit_xor)
  then have "(x XOR y) mod 256 = x XOR y" by (simp add: take_bit_eq_mod)
  then show ?thesis by (simp add: xor.assoc)
qed

lemma xor_bytes_twice:
  assumes "length a = length b" shows "xor_bytes (xor_bytes a b) b = a"
proof (rule nth_equalityI)
  show "length (xor_bytes (xor_bytes a b) b) = length a" using assms by (simp add: xor_bytes_def)
  fix i assume "i < length (xor_bytes (xor_bytes a b) b)"
  then have i: "i < length a" "i < length b" using assms by (auto simp: xor_bytes_def)
  have "(of_char (a ! i) XOR of_char (b ! i) :: nat) mod 256 XOR of_char (b ! i) = of_char (a ! i)"
    by (rule xor_mod_twice) simp_all
  then show "xor_bytes (xor_bytes a b) b ! i = a ! i"
    using i assms by (simp add: xor_bytes_def byte_at_def)
qed

section \<open>The cache of salted passwords\<close>

definition cache_inv :: "hiCache \<Rightarrow> bool" where
  "cache_inv c \<longleftrightarrow> length (hc_map c) \<le> hc_count c \<and> hc_count c \<le> 200"

lemma length_map_set: "length (map_set k v m) \<le> Suc (length m)"
  by (induction m) auto

lemma cache_inv_HI: "cache_inv c \<Longrightarrow> cache_inv (fst (HI cr data salt iterations m c))"
  by (auto simp: HI_def Let_def cache_inv_def hiCachePurge_def split: option.splits sum.splits
      intro: le_trans [OF length_map_set])

text \<open>Whatever passwords are salted one after another, the cache never holds more than 200 entries.\<close>

theorem cache_bounded:
  "length (hc_map (fold (\<lambda>(data, salt, iterations, m) c. fst (HI cr data salt iterations m c)) requests \<lparr>hc_map = [], hc_count = 0\<rparr>)) \<le> 200"
proof -
  have "cache_inv c \<Longrightarrow> cache_inv (fold (\<lambda>(data, salt, iterations, m) c. fst (HI cr data salt iterations m c)) requests c)" for c
    by (induction requests arbitrary: c) (auto simp: cache_inv_HI)
  from this [of "\<lparr>hc_map = [], hc_count = 0\<rparr>"] show ?thesis by (auto simp: cache_inv_def)
qed

text \<open>The key of the cache leaves the hash function out: the second result is that of the first one.\<close>

theorem cache_ignores_method:
  assumes "HI cr data salt iterations Sha1 c = (c', Inr salted)"
  shows "HI cr data salt iterations Sha256 c' = (c', Inr salted)"
  using assms by (auto simp: HI_def Let_def map_laws split: option.splits sum.splits)

text \<open>
  While only one hash function is used with it, the cache holds what PBKDF2 gives and nothing else: the
  parts of a key can be read back from it, since neither base 64 nor a number holds an underscore.
\<close>

definition cache_key :: "string \<Rightarrow> string \<Rightarrow> int option \<Rightarrow> string" where
  "cache_key data salt iterations = join_with ''_'' [data, base64_encode salt, show_iterations iterations]"

definition cache_sound :: "crypto \<Rightarrow> cryptoMethod \<Rightarrow> hiCache \<Rightarrow> bool" where
  "cache_sound cr m c \<longleftrightarrow>
     (\<forall>data salt iterations v. map_of (hc_map c) (cache_key data salt iterations) = Some v
        \<longrightarrow> cr_pbkdf2 cr data salt iterations (hiLengthMap m) m = Inr v)"

lemma split_at_last:
  assumes "a @ x # b = a' @ x # b'" "x \<notin> set b" "x \<notin> set b'"
  shows "a = a' \<and> b = b'"
proof -
  have "takeWhile (\<lambda>y. y \<noteq> x) (rev (a @ x # b)) = rev b" if "x \<notin> set b" for a b
    using that by (simp add: takeWhile_append)
  from this [OF assms(2), of a] this [OF assms(3), of a'] have "b = b'" using assms(1) by simp
  with assms(1) show ?thesis by simp
qed

lemma base64_no_underscore: "CHR ''_'' \<notin> set (base64_encode s)"
proof -
  have "list_all (\<lambda>n. b64_char n \<noteq> CHR ''_'') [0..<64]"
    by (simp add: upt_rec b64_char_def b64_alphabet_def)
  then have "n < 64 \<Longrightarrow> b64_char n \<noteq> CHR ''_''" for n by (simp add: list_all_iff)
  then show ?thesis
    by (induction s rule: base64_encode.induct) (simp_all add: sextets_lt eq_sym_conv [of "CHR ''_''"])
qed

lemma base64_inject: "base64_encode s = base64_encode t \<Longrightarrow> s = t"
  using base64_roundtrip by metis

lemma show_nat_not: "\<not> is_digit c \<Longrightarrow> c \<notin> set (show_nat n)"
  using show_nat_digits by blast

lemma show_nat_inject: "show_nat m = show_nat n \<Longrightarrow> m = n"
  by (metis parse_show_nat)

lemma show_int_inject: "show_int i = show_int j \<Longrightarrow> i = j"
proof -
  have minus: "show_nat m \<noteq> CHR ''-'' # show_nat n" for m n
    using show_nat_not [of "CHR ''-''" m] by (auto simp: is_digit_def)
  then have "show_nat m = CHR ''-'' # show_nat n \<longleftrightarrow> False" "CHR ''-'' # show_nat n = show_nat m \<longleftrightarrow> False" for m n
    by (auto simp: eq_commute)
  then show "show_int i = show_int j \<Longrightarrow> i = j"
    by (auto simp: show_int_def split: if_splits dest!: show_nat_inject)
qed

lemma show_int_not: "\<not> is_digit c \<Longrightarrow> c \<noteq> CHR ''-'' \<Longrightarrow> c \<notin> set (show_int i)"
  by (auto simp: show_int_def show_nat_not)

lemma show_iterations_inject: "show_iterations i = show_iterations j \<Longrightarrow> i = j"
proof -
  have "''NaN'' \<noteq> show_int n" "show_int n \<noteq> ''NaN''" for n
  proof -
    have "show_int n \<noteq> ''NaN''" using show_int_not [of "CHR ''N''" n] by (auto simp: is_digit_def)
    then show "''NaN'' \<noteq> show_int n" "show_int n \<noteq> ''NaN''" by (simp_all add: eq_commute)
  qed
  then show "show_iterations i = show_iterations j \<Longrightarrow> i = j"
    by (auto simp: show_iterations_def dest: show_int_inject split: option.splits)
qed

lemma cache_key_inject:
  assumes "cache_key data salt i = cache_key data' salt' i'"
  shows "data = data' \<and> salt = salt' \<and> i = i'"
proof -
  have "CHR ''_'' \<notin> set (show_iterations j)" for j
    using show_int_not [of "CHR ''_''"] by (simp add: show_iterations_def is_digit_def split: option.splits)
  moreover have "(data @ ''_'' @ base64_encode salt) @ CHR ''_'' # show_iterations i
      = (data' @ ''_'' @ base64_encode salt') @ CHR ''_'' # show_iterations i'"
    using assms by (simp add: cache_key_def)
  ultimately have "data @ CHR ''_'' # base64_encode salt = data' @ CHR ''_'' # base64_encode salt'
      \<and> show_iterations i = show_iterations i'"
    using split_at_last [of "data @ ''_'' @ base64_encode salt"] by (metis append_Cons append_Nil)
  then show ?thesis using show_iterations_inject split_at_last [OF _ base64_no_underscore base64_no_underscore] base64_inject by blast
qed

lemma cache_sound_empty: "cache_sound cr m \<lparr>hc_map = [], hc_count = 0\<rparr>"
  by (simp add: cache_sound_def)

lemma HI_salts: "cache_sound cr m c \<Longrightarrow> HI cr data salt i m c = (c', Inr salted)
    \<Longrightarrow> cr_pbkdf2 cr data salt i (hiLengthMap m) m = Inr salted"
  by (auto simp: HI_def Let_def cache_sound_def cache_key_def split: option.splits sum.splits)

theorem cache_stays_sound:
  assumes "cache_sound cr m c" shows "cache_sound cr m (fst (HI cr data salt i m c))"
proof (cases "map_of (hc_map c) (cache_key data salt i)")
  case None
  show ?thesis
  proof (cases "cr_pbkdf2 cr data salt i (hiLengthMap m) m")
    case (Inr v)
    obtain m0 n where m0: "fst (HI cr data salt i m c) = \<lparr>hc_map = map_set (cache_key data salt i) v m0, hc_count = n\<rparr>"
      and origin: "m0 = [] \<or> m0 = hc_map c"
      using None Inr by (auto simp: HI_def Let_def hiCachePurge_def cache_key_def)
    show ?thesis
      unfolding m0 cache_sound_def
      using assms origin Inr by (auto simp: map_laws cache_sound_def dest!: cache_key_inject split: if_splits)
  qed (use assms None in \<open>simp add: HI_def Let_def cache_key_def\<close>)
qed (use assms in \<open>simp add: HI_def Let_def cache_key_def\<close>)

section \<open>Proofs and signatures\<close>

text \<open>What a server checks that stores only the hash of the client key.\<close>

definition server_accepts :: "crypto \<Rightarrow> cryptoMethod \<Rightarrow> string \<Rightarrow> string \<Rightarrow> string \<Rightarrow> bool" where
  "server_accepts cr m storedKey authMessage clientFinal \<longleftrightarrow>
     (\<exists>w p. clientFinal = w @ '',p='' @ p
        \<and> cr_hash cr m (xor_bytes (base64_decode p) (cr_hmac cr m storedKey authMessage)) = storedKey)"

definition stored_key :: "crypto \<Rightarrow> cryptoMethod \<Rightarrow> string \<Rightarrow> string" where
  "stored_key cr m salted = cr_hash cr m (cr_hmac cr m salted ''Client Key'')"

definition server_signature :: "crypto \<Rightarrow> cryptoMethod \<Rightarrow> string \<Rightarrow> string \<Rightarrow> string" where
  "server_signature cr m salted authMessage = cr_hmac cr m (cr_hmac cr m salted ''Server Key'') authMessage"

definition fixed_length_hmac :: "crypto \<Rightarrow> cryptoMethod \<Rightarrow> bool" where
  "fixed_length_hmac cr m \<longleftrightarrow> (\<forall>k t k' t'. length (cr_hmac cr m k t) = length (cr_hmac cr m k' t'))"

lemma proof_accepted:
  assumes "fixed_length_hmac cr m"
  shows "server_accepts cr m (stored_key cr m salted) msg (sk_clientFinal (scram_keys cr m salted msg rnonce))"
proof -
  let ?ck = "cr_hmac cr m salted ''Client Key''" and ?sig = "cr_hmac cr m (stored_key cr m salted) msg"
  have len: "length ?ck = length ?sig" using assms unfolding fixed_length_hmac_def by blast
  have "sk_clientFinal (scram_keys cr m salted msg rnonce) = (''c=biws,r='' @ rnonce) @ '',p='' @ scram_xor ?ck ?sig"
    by (simp add: scram_keys_def Let_def stored_key_def)
  moreover have "cr_hash cr m (xor_bytes (base64_decode (scram_xor ?ck ?sig)) ?sig) = stored_key cr m salted"
    unfolding scram_xor_def base64_roundtrip xor_bytes_twice [OF len] by (simp add: stored_key_def)
  ultimately show ?thesis unfolding server_accepts_def by blast
qed

lemma signature_of_keys: "sk_serverSignature (scram_keys cr m salted msg rnonce) = server_signature cr m salted msg"
  by (simp add: scram_keys_def Let_def server_signature_def)

text \<open>The signature survives the way it is written into the last message and read from it.\<close>

lemma base64_no_comma: "CHR '','' \<notin> set (base64_encode s)"
proof -
  have "list_all (\<lambda>n. b64_char n \<noteq> CHR '','') [0..<64]"
    by (simp add: upt_rec b64_char_def b64_alphabet_def)
  then have "n < 64 \<Longrightarrow> b64_char n \<noteq> CHR '',''" for n by (simp add: list_all_iff)
  then show ?thesis
    by (induction s rule: base64_encode.induct) (simp_all add: sextets_lt eq_sym_conv [of "CHR '',''"])
qed

lemma split_head: "\<exists>ps. split_char c s = takeWhile (\<lambda>x. x \<noteq> c) s # ps"
  by (induction s) (auto split: list.splits)

lemma decode_unpadded: "base64_decode (takeWhile (\<lambda>c. c \<noteq> CHR ''='') s) = base64_decode s"
  by (simp add: base64_decode_def takeWhile_takeWhile)

lemma signature_read:
  "\<exists>v. fld ''v'' (parsePayload (''v='' @ base64_encode sig)) = JStr v \<and> base64_decode v = sig"
proof -
  obtain ps where ps: "split_char (CHR ''='') (base64_encode sig) = takeWhile (\<lambda>x. x \<noteq> CHR ''='') (base64_encode sig) # ps"
    using split_head by blast
  have one: "split_char (CHR '','') (''v='' @ base64_encode sig) = [''v='' @ base64_encode sig]"
    by (rule split_char_single) (simp add: base64_no_comma)
  have "fld ''v'' (parsePayload (''v='' @ base64_encode sig)) = JStr (takeWhile (\<lambda>x. x \<noteq> CHR ''='') (base64_encode sig))"
    unfolding parsePayload_def one by (simp add: ps)
  then show ?thesis by (simp add: decode_unpadded base64_roundtrip)
qed

section \<open>The conversation\<close>

lemma finish_scram_done:
  assumes "finish_scram srv db sig l reply = (l', AuthDone)"
  shows "\<exists>r p v. reply = Inr r \<and> fld ''payload'' r = JStr p \<and> fld ''v'' (parsePayload p) = JStr v \<and> base64_decode v = sig"
proof (cases reply)
  case (Inr r)
  with assms show ?thesis
    by (auto simp: finish_scram_def Let_def resolveError_def compareDigest_def split: if_splits jsval.splits)
qed (use assms in \<open>simp add: finish_scram_def resolveError_def\<close>)

definition proof_command :: "crypto \<Rightarrow> cryptoMethod \<Rightarrow> string \<Rightarrow> string \<Rightarrow> string \<Rightarrow> doc \<Rightarrow> string \<Rightarrow> doc" where
  "proof_command cr m username nonce salted response payload =
     (let rnonce = (case fld ''r'' (parsePayload payload) of JStr r \<Rightarrow> r | _ \<Rightarrow> []) in
      [(''saslContinue'', JNum 1), (''conversationId'', fld ''conversationId'' response),
       (''payload'', JStr (sk_clientFinal (scram_keys cr m salted (auth_message username nonce payload rnonce) rnonce)))])"

text \<open>The parts of a conversation that got as far as the proof.\<close>

lemma continue_stages:
  assumes "continueScramConversation cr srv m response ctx c l = (c', l', AuthDone)"
  obtains creds nonce user pw payload rnonce salt salted where
    "ac_credentials ctx = Some creds" "ac_nonce ctx = Some nonce" "mc_username creds = JStr user"
    "processed_password cr m (cleanUsername user) (mc_password creds) = Inr pw"
    "fld ''payload'' response = JStr payload" "fld ''r'' (parsePayload payload) = JStr rnonce"
    "fld ''s'' (parsePayload payload) = JStr salt"
    "HI cr pw (base64_decode salt) (parseInt (js_show (fld ''i'' (parsePayload payload)))) m c = (c', Inr salted)"
    "send_proof cr srv m (js_show (mc_source creds)) (cleanUsername user) nonce payload response rnonce salted l = (l', AuthDone)"
  using assms that unfolding continueScramConversation_def Let_def
  by (auto split: option.splits jsval.splits sum.splits if_splits prod.splits)

text \<open>The reply to the proof holds the signature.\<close>

lemma proof_signed:
  assumes "send_proof cr srv m db user nonce payload first rnonce salted l = (l', AuthDone)" "fld ''r'' (parsePayload payload) = JStr rnonce"
  shows "\<exists>r p v. srv (l @ [(db, proof_command cr m user nonce salted first payload)]) = Inr r
    \<and> fld ''payload'' r = JStr p \<and> fld ''v'' (parsePayload p) = JStr v
    \<and> base64_decode v = server_signature cr m salted (auth_message user nonce payload rnonce)"
proof -
  let ?sent = "l @ [(db, proof_command cr m user nonce salted first payload)]"
  have "finish_scram srv db (server_signature cr m salted (auth_message user nonce payload rnonce)) ?sent (srv ?sent) = (l', AuthDone)"
    using assms by (simp add: send_proof_def run_command_def proof_command_def signature_of_keys Let_def)
  from finish_scram_done [OF this] show ?thesis by blast
qed

text \<open>
  A completed conversation means that the server proved to know the server key of the password: its
  last message holds the signature, under that key, of the messages exchanged.
\<close>

theorem scram_server_authenticated:
  assumes "continueScramConversation cr srv m response ctx c l = (c', l', AuthDone)"
  shows "\<exists>creds nonce user pw payload rnonce salt salted r p v.
      ac_credentials ctx = Some creds \<and> ac_nonce ctx = Some nonce \<and> mc_username creds = JStr user
    \<and> processed_password cr m (cleanUsername user) (mc_password creds) = Inr pw
    \<and> fld ''payload'' response = JStr payload \<and> fld ''r'' (parsePayload payload) = JStr rnonce
    \<and> fld ''s'' (parsePayload payload) = JStr salt
    \<and> HI cr pw (base64_decode salt) (parseInt (js_show (fld ''i'' (parsePayload payload)))) m c = (c', Inr salted)
    \<and> srv (l @ [(js_show (mc_source creds), proof_command cr m (cleanUsername user) nonce salted response payload)]) = Inr r
    \<and> fld ''payload'' r = JStr p \<and> fld ''v'' (parsePayload p) = JStr v
    \<and> base64_decode v = server_signature cr m salted (auth_message (cleanUsername user) nonce payload rnonce)"
proof -
  obtain creds nonce user pw payload rnonce salt salted where s:
    "ac_credentials ctx = Some creds" "ac_nonce ctx = Some nonce" "mc_username creds = JStr user"
    "processed_password cr m (cleanUsername user) (mc_password creds) = Inr pw"
    "fld ''payload'' response = JStr payload" "fld ''r'' (parsePayload payload) = JStr rnonce"
    "fld ''s'' (parsePayload payload) = JStr salt"
    "HI cr pw (base64_decode salt) (parseInt (js_show (fld ''i'' (parsePayload payload)))) m c = (c', Inr salted)"
    and p: "send_proof cr srv m (js_show (mc_source creds)) (cleanUsername user) nonce payload response rnonce salted l = (l', AuthDone)"
    by (rule continue_stages [OF assms]) blast
  from proof_signed [OF p s(6)] s show ?thesis by blast
qed

text \<open>
  (C36) With a server that stores the keys of the password, checks the proof against its stored key and
  answers with its signature, the conversation completes: the proof is accepted, and so is the
  signature.  Of the nonce of the server the code only demands that it does not begin with the five
  letters \<open>nonce\<close>; it need not extend the nonce of the client.
\<close>

theorem scram_completes:
  assumes "ac_credentials ctx = Some creds" "ac_nonce ctx = Some nonce" "mc_username creds = JStr user"
    and "processed_password cr m (cleanUsername user) (mc_password creds) = Inr pw"
    and "fld ''payload'' response = JStr payload" "fld ''r'' (parsePayload payload) = JStr rnonce"
      "fld ''s'' (parsePayload payload) = JStr salt" "fld ''i'' (parsePayload payload) = JStr i" "parseInt i = Some n"
    and "4096 \<le> n" "take 5 rnonce \<noteq> ''nonce''"
    and "HI cr pw (base64_decode salt) (Some n) m c = (c', Inr salted)"
    and "fixed_length_hmac cr m" and "msg = auth_message (cleanUsername user) nonce payload rnonce"
    and "\<And>cmd final. fld ''payload'' cmd = JStr final \<Longrightarrow> server_accepts cr m (stored_key cr m salted) msg final
      \<Longrightarrow> srv (l @ [(js_show (mc_source creds), cmd)])
          = Inr [(''payload'', JStr (''v='' @ base64_encode (server_signature cr m salted msg)))]"
  shows "\<exists>l'. continueScramConversation cr srv m response ctx c l = (c', l', AuthDone)"
proof -
  let ?cmd = "proof_command cr m (cleanUsername user) nonce salted response payload"
  have "srv (l @ [(js_show (mc_source creds), ?cmd)])
      = Inr [(''payload'', JStr (''v='' @ base64_encode (server_signature cr m salted msg)))]"
  proof (rule assms(15))
    show "fld ''payload'' ?cmd = JStr (sk_clientFinal (scram_keys cr m salted msg rnonce))"
      using assms(6, 14) by (simp add: proof_command_def Let_def)
    show "server_accepts cr m (stored_key cr m salted) msg (sk_clientFinal (scram_keys cr m salted msg rnonce))"
      by (rule proof_accepted [OF assms(13)])
  qed
  moreover obtain v where "fld ''v'' (parsePayload (''v='' @ base64_encode (server_signature cr m salted msg))) = JStr v"
      "base64_decode v = server_signature cr m salted msg"
    using signature_read by blast
  ultimately have "\<exists>l'. send_proof cr srv m (js_show (mc_source creds)) (cleanUsername user) nonce payload response rnonce salted l
      = (l', AuthDone)"
    using assms(6, 14)
    by (simp add: send_proof_def run_command_def finish_scram_def resolveError_def compareDigest_def proof_command_def
        signature_of_keys Let_def)
  then show ?thesis
    using assms(1-12) by (simp add: continueScramConversation_def Let_def)
qed

section \<open>An example\<close>

definition example_crypto :: crypto where
  "example_crypto = \<lparr>cr_randomBytes = Inr ''abc'', cr_md5 = (\<lambda>s. ''d''), cr_hash = (\<lambda>m s. s), cr_hmac = (\<lambda>m k t. ''k''),
     cr_pbkdf2 = (\<lambda>d s i n m. Inr ''sp''), cr_saslprep = None\<rparr>"

definition example_credentials :: mongoCredentials where
  "example_credentials = \<lparr>mc_username = JStr ''joe'', mc_password = JStr ''secret'', mc_source = JStr ''admin'',
     mc_mechanism = MONGODB_SCRAM_SHA256, mc_mechanismProperties = []\<rparr>"

definition example_ctx :: authContext where
  "example_ctx = \<lparr>ac_credentials = Some example_credentials, ac_response = None, ac_nonce = Some ''abc''\<rparr>"

definition example_first :: doc where
  "example_first = [(''conversationId'', JNum 1), (''payload'', JStr ''r=xyz,s=c2Fs,i=4096'')]"

definition example_server :: server where
  "example_server = (\<lambda>_. Inr [(''payload'', JStr (''v='' @ base64_encode ''k''))])"

definition empty_cache :: hiCache where
  "empty_cache = \<lparr>hc_map = [], hc_count = 0\<rparr>"

lemma example_payload:
  "fld ''r'' (parsePayload ''r=xyz,s=c2Fs,i=4096'') = JStr ''xyz''" "fld ''s'' (parsePayload ''r=xyz,s=c2Fs,i=4096'') = JStr ''c2Fs''"
  "fld ''i'' (parsePayload ''r=xyz,s=c2Fs,i=4096'') = JStr ''4096''"
  by (simp_all add: parsePayload_def)

lemma example_iterations: "parseInt ''4096'' = Some 4096"
  by (simp add: parseInt_def is_digit_def parse_nat_def digit_val_def)

lemma example_salted:
  "\<exists>c'. HI example_crypto ''secret'' (base64_decode ''c2Fs'') (Some 4096) Sha256 empty_cache = (c', Inr ''sp'')"
  by (simp add: HI_def example_crypto_def empty_cache_def Let_def)

lemma example_password: "processed_password example_crypto Sha256 (cleanUsername ''joe'') (mc_password example_credentials) = Inr ''secret''"
  by (simp add: processed_password_def example_crypto_def example_credentials_def)

lemma example_signature: "server_signature example_crypto m salted msg = ''k''" "fixed_length_hmac example_crypto m"
  by (simp_all add: server_signature_def example_crypto_def fixed_length_hmac_def)

theorem scram_completes_witness:
  "\<exists>c' l'. continueScramConversation example_crypto example_server Sha256 example_first example_ctx empty_cache []
     = (c', l', AuthDone)"
proof -
  obtain c' where c: "HI example_crypto ''secret'' (base64_decode ''c2Fs'') (Some 4096) Sha256 empty_cache = (c', Inr ''sp'')"
    using example_salted by blast
  have "\<exists>l'. continueScramConversation example_crypto example_server Sha256 example_first example_ctx empty_cache []
      = (c', l', AuthDone)"
    by (rule scram_completes [OF _ _ _ example_password _ example_payload example_iterations _ _ c example_signature(2) refl])
      (simp_all add: example_ctx_def example_credentials_def example_first_def example_server_def example_signature)
  then show ?thesis by blast
qed

lemma example_conversation:
  "\<exists>c' l'. continueScramConversation example_crypto example_server Sha256 example_first example_ctx empty_cache []
     = (c', l', AuthDone)"
proof -
  obtain v where v: "fld ''v'' (parsePayload (''v='' @ base64_encode ''k'')) = JStr v" "base64_decode v = ''k''"
    using signature_read by blast
  obtain c' where c: "HI example_crypto ''secret'' (base64_decode ''c2Fs'') (Some 4096) Sha256 empty_cache = (c', Inr ''sp'')"
    using example_salted by blast
  have "\<exists>l'. send_proof example_crypto example_server Sha256 db user nonce payload response rnonce ''sp'' []
      = (l', AuthDone)" for db user nonce payload response rnonce
    using v by (simp add: send_proof_def run_command_def finish_scram_def resolveError_def compareDigest_def example_server_def
        signature_of_keys example_signature Let_def)
  then show ?thesis
    using c example_password
    by (simp add: continueScramConversation_def example_ctx_def example_first_def example_payload example_iterations
        example_credentials_def Let_def)
qed

theorem scram_server_authenticated_witness:
  "\<exists>r p v salted msg. example_server r = Inr p \<and> fld ''payload'' p = JStr v
     \<and> (\<exists>u. fld ''v'' (parsePayload v) = JStr u \<and> base64_decode u = server_signature example_crypto Sha256 salted msg)"
proof -
  obtain c' l' where "continueScramConversation example_crypto example_server Sha256 example_first example_ctx empty_cache []
      = (c', l', AuthDone)"
    using example_conversation by blast
  from scram_server_authenticated [OF this] show ?thesis by blast
qed

text \<open>Only the first comma and the first equals sign of a user name are escaped.\<close>

lemma second_comma_kept: "cleanUsername ''a,b,c'' = ''a=2Cb,c''"
  by (simp add: cleanUsername_def)

end
