(* ===== verification/Handshake.thy ===== *)
theory Handshake
  imports Scram Topology_Description
begin

text \<open>
  \<open>src/cmap/connect.ts\<close> and the other authentication providers: opening a socket, the handshake that
  tells client and server about each other, and the authentication that follows.  The two mechanisms
  that rest on optional packages (\<open>MONGODB-AWS\<close> and \<open>GSSAPI\<close>) are an argument, as are the clock, the
  events of the socket and Node's test for IP addresses.
\<close>

section \<open>The other mechanisms\<close>

text \<open>\<open>src/cmap/auth/plain.ts\<close>.\<close>

definition answer :: "sent \<times> (mongoError + doc) \<Rightarrow> sent \<times> authOutcome" where
  "answer x = (case x of (l, Inl e) \<Rightarrow> (l, AuthFailed e) | (l, Inr _) \<Rightarrow> (l, AuthDone))"

definition Plain_auth :: "server \<Rightarrow> authContext \<Rightarrow> sent \<Rightarrow> sent \<times> authOutcome" where
  "Plain_auth srv ctx l =
     (case ac_credentials ctx of
        None \<Rightarrow> (l, AuthFailed no_credentials_error)
      | Some creds \<Rightarrow>
          answer (run_command srv ''$external''
            [(''saslStart'', JNum 1), (''mechanism'', JStr ''PLAIN''),
             (''payload'', JStr (CHR 0x00 # js_show (mc_username creds) @ CHR 0x00 # js_show (mc_password creds))),
             (''autoAuthorize'', JNum 1)] l))"

text \<open>\<open>src/cmap/auth/mongocr.ts\<close>: after an error of \<open>getnonce\<close> the command is sent with neither nonce nor key.\<close>

definition MongoCR_auth :: "crypto \<Rightarrow> server \<Rightarrow> authContext \<Rightarrow> sent \<Rightarrow> sent \<times> authOutcome" where
  "MongoCR_auth cr srv ctx l =
     (case ac_credentials ctx of
        None \<Rightarrow> (l, AuthFailed no_credentials_error)
      | Some creds \<Rightarrow>
          (let db = js_show (mc_source creds); user = js_show (mc_username creds); password = js_show (mc_password creds);
               (l1, reply) = run_command srv db [(''getnonce'', JNum 1)] l;
               (nonce, key) = (case reply of
                   Inr r \<Rightarrow> (fld ''nonce'' r,
                             JStr (cr_md5 cr (js_show (fld ''nonce'' r) @ user @ cr_md5 cr (user @ '':mongo:'' @ password))))
                 | Inl _ \<Rightarrow> (JNull, JNull))
           in answer (run_command srv db [(''authenticate'', JNum 1), (''user'', mc_username creds), (''nonce'', nonce),
                (''key'', key)] l1)))"

text \<open>\<open>src/cmap/auth/x509.ts\<close>.\<close>

definition x509AuthenticateCommand :: "mongoCredentials \<Rightarrow> doc" where
  "x509AuthenticateCommand creds =
     set_if (truthy (mc_username creds)) ''user'' (mc_username creds)
       [(''authenticate'', JNum 1), (''mechanism'', JStr ''MONGODB-X509'')]"

definition X509_prepare :: "doc \<Rightarrow> authContext \<Rightarrow> authContext \<times> prepareOutcome" where
  "X509_prepare handshakeDoc ctx =
     (case ac_credentials ctx of
        None \<Rightarrow> (ctx, PrepareFailed no_credentials_error)
      | Some creds \<Rightarrow>
          (ctx, Prepared (map_set ''speculativeAuthenticate'' (JDoc (x509AuthenticateCommand creds)) handshakeDoc)))"

definition X509_auth :: "server \<Rightarrow> authContext \<Rightarrow> sent \<Rightarrow> sent \<times> authOutcome" where
  "X509_auth srv ctx l =
     (case ac_credentials ctx of
        None \<Rightarrow> (l, AuthFailed no_credentials_error)
      | Some creds \<Rightarrow>
          if (case ac_response ctx of Some r \<Rightarrow> truthy (fld ''speculativeAuthenticate'' r) | None \<Rightarrow> False) then (l, AuthDone)
          else answer (run_command srv ''$external'' (x509AuthenticateCommand creds) l))"

text \<open>\<open>AUTH_PROVIDERS\<close>: the provider of a mechanism.\<close>

datatype provider = PScram cryptoMethod | PPlain | PMongoCR | PX509 | PPackage string

definition AUTH_PROVIDERS :: "(string, provider) jsmap" where
  "AUTH_PROVIDERS =
     [(MONGODB_AWS, PPackage MONGODB_AWS), (MONGODB_CR, PMongoCR), (MONGODB_GSSAPI, PPackage MONGODB_GSSAPI),
      (MONGODB_PLAIN, PPlain), (MONGODB_SCRAM_SHA1, PScram Sha1), (MONGODB_SCRAM_SHA256, PScram Sha256),
      (MONGODB_X509, PX509)]"

type_synonym package_auth = "string \<Rightarrow> authContext \<Rightarrow> sent \<Rightarrow> sent \<times> authOutcome"

fun provider_prepare :: "crypto \<Rightarrow> provider \<Rightarrow> doc \<Rightarrow> authContext \<Rightarrow> authContext \<times> prepareOutcome" where
  "provider_prepare cr (PScram m) d ctx = ScramSHA_prepare cr m d ctx"
| "provider_prepare cr PX509 d ctx = X509_prepare d ctx"
| "provider_prepare cr _ d ctx = (ctx, Prepared d)"

fun provider_auth ::
    "crypto \<Rightarrow> package_auth \<Rightarrow> server \<Rightarrow> provider \<Rightarrow> authContext \<Rightarrow> hiCache \<Rightarrow> sent \<Rightarrow> hiCache \<times> sent \<times> authOutcome" where
  "provider_auth cr pk srv (PScram m) ctx c l = ScramSHA_auth cr srv m ctx c l"
| "provider_auth cr pk srv PPlain ctx c l = (c, Plain_auth srv ctx l)"
| "provider_auth cr pk srv PMongoCR ctx c l = (c, MongoCR_auth cr srv ctx l)"
| "provider_auth cr pk srv PX509 ctx c l = (c, X509_auth srv ctx l)"
| "provider_auth cr pk srv (PPackage name) ctx c l = (c, pk name ctx l)"

text \<open>
  What the handshake relies on in a provider: it only adds commands to those sent, and without
  credentials it fails and sends nothing.
\<close>

locale auth_provider =
  fixes auth :: "authContext \<Rightarrow> sent \<Rightarrow> sent \<times> authOutcome"
  assumes sends: "\<exists>cmds. fst (auth ctx l) = l @ cmds"
    and refuses: "ac_credentials ctx = None \<Longrightarrow> \<exists>e. auth ctx l = (l, AuthFailed e)"
begin

lemma done_with_credentials: "auth ctx l = (l', AuthDone) \<Longrightarrow> \<exists>creds. ac_credentials ctx = Some creds"
  using refuses [of ctx l] by (cases "ac_credentials ctx") auto

lemma log_grows: "auth ctx l = (l', r) \<Longrightarrow> take (length l) l' = l"
  using sends [of ctx l] by auto

end

lemma fst_answer [simp]: "fst (answer x) = fst x"
  by (simp add: answer_def split: prod.splits sum.splits)

lemma fst_run_command [simp]: "fst (run_command srv db cmd l) = l @ [(db, cmd)]"
  by (simp add: run_command_def Let_def)

interpretation plain: auth_provider "Plain_auth srv" for srv
  by unfold_locales (auto simp: Plain_auth_def split: option.splits)

interpretation mongocr: auth_provider "MongoCR_auth cr srv" for cr srv
proof
  fix ctx l
  show "\<exists>cmds. fst (MongoCR_auth cr srv ctx l) = l @ cmds"
    by (auto simp: MongoCR_auth_def run_command_def Let_def split: option.splits sum.splits)
  show "ac_credentials ctx = None \<Longrightarrow> \<exists>e. MongoCR_auth cr srv ctx l = (l, AuthFailed e)"
    by (simp add: MongoCR_auth_def)
qed

interpretation x509: auth_provider "X509_auth srv" for srv
  by unfold_locales (auto simp: X509_auth_def split: option.splits)

lemma finish_scram_log: "\<exists>cmds. fst (finish_scram srv db sig l reply) = l @ cmds"
  by (auto simp: finish_scram_def run_command_def Let_def split: option.splits jsval.splits sum.splits)

lemma send_proof_log: "\<exists>cmds. fst (send_proof cr srv m db user nonce payload response rnonce salted l) = l @ cmds"
proof -
  have "\<exists>cmds. fst (finish_scram srv db sig (l @ [x]) reply) = l @ cmds" for sig x reply
    using finish_scram_log [of srv db sig "l @ [x]" reply] by auto
  then show ?thesis by (simp add: send_proof_def run_command_def Let_def)
qed

lemma continue_log: "\<exists>cmds. fst (snd (continueScramConversation cr srv m response ctx c l)) = l @ cmds"
  using send_proof_log
  by (simp add: continueScramConversation_def Let_def split: option.splits jsval.splits sum.splits prod.splits)

lemma execute_log: "\<exists>cmds. fst (snd (executeScram cr srv m ctx c l)) = l @ cmds"
proof -
  have "\<exists>cmds. fst (snd (continueScramConversation cr srv m response ctx c (l @ [x]))) = l @ cmds" for response x
    using continue_log [of cr srv m response ctx c "l @ [x]"] by auto
  then show ?thesis
    by (simp add: executeScram_def run_command_def Let_def split: option.splits jsval.splits)
qed

interpretation scram_sha: auth_provider "\<lambda>ctx l. snd (ScramSHA_auth cr srv m ctx c l)" for cr srv m c
proof
  fix ctx l
  show "\<exists>cmds. fst (snd (ScramSHA_auth cr srv m ctx c l)) = l @ cmds"
    using continue_log execute_log by (simp add: ScramSHA_auth_def Let_def split: option.splits)
  show "ac_credentials ctx = None \<Longrightarrow> \<exists>e. snd (ScramSHA_auth cr srv m ctx c l) = (l, AuthFailed e)"
    by (simp add: ScramSHA_auth_def executeScram_def continueScramConversation_def Let_def split: option.splits)
qed

text \<open>So every provider does, if those of the packages do.\<close>

lemma provider_log_grows:
  assumes "provider_auth cr pk srv p ctx c l = (c', l', r)" "\<And>name. auth_provider (pk name)"
  shows "take (length l) l' = l"
proof (cases p)
  case (PScram m)
  with assms(1) have "snd (ScramSHA_auth cr srv m ctx c l) = (l', r)" by simp
  then show ?thesis by (rule scram_sha.log_grows)
next
  case (PPackage name)
  with assms(1) have "pk name ctx l = (l', r)" by simp
  then show ?thesis by (rule auth_provider.log_grows [OF assms(2)])
qed (use assms(1) plain.log_grows mongocr.log_grows x509.log_grows in auto)

section \<open>The handshake\<close>

record connectOptions =
  cn_credentials :: "mongoCredentials option"
  cn_compressors :: jsval
  cn_metadata :: jsval
  cn_loadBalanced :: jsval
  cn_serverApiVersion :: jsval

definition LEGACY_HELLO_COMMAND :: string where "LEGACY_HELLO_COMMAND = ''ismaster''"

definition compatibility_error :: "string \<Rightarrow> mongoError" where
  "compatibility_error m = mk_error MongoCompatibilityError m"

definition checkSupportedServer :: "doc \<Rightarrow> mongoError option" where
  "checkSupportedServer hello =
     (let highEnough = (case fld ''maxWireVersion'' hello of JNum n \<Rightarrow> n \<ge> MIN_SUPPORTED_WIRE_VERSION | _ \<Rightarrow> False);
          lowEnough = (case fld ''minWireVersion'' hello of JNum n \<Rightarrow> n \<le> MAX_SUPPORTED_WIRE_VERSION | _ \<Rightarrow> False)
      in if highEnough then
           (if lowEnough then None else Some (compatibility_error ''Server reports a minimum wire version that is too high''))
         else Some (compatibility_error ''Server reports a maximum wire version that is too low''))"

definition handshake_document :: "host \<Rightarrow> connectOptions \<Rightarrow> doc" where
  "handshake_document h options =
     [(if truthy (cn_serverApiVersion options) then ''hello'' else LEGACY_HELLO_COMMAND, JBool True), (''helloOk'', JBool True),
      (''client'', if truthy (cn_metadata options) then cn_metadata options else JDoc (makeClientMetadata h [])),
      (''compression'', if truthy (cn_compressors options) then cn_compressors options else JArr []),
      (''loadBalanced'', cn_loadBalanced options)]"

definition prepareHandshakeDocument ::
    "host \<Rightarrow> crypto \<Rightarrow> connectOptions \<Rightarrow> authContext \<Rightarrow> authContext \<times> prepareOutcome" where
  "prepareHandshakeDocument h cr options ctx =
     (let d = handshake_document h options in
      case ac_credentials ctx of
        None \<Rightarrow> (ctx, Prepared d)
      | Some creds \<Rightarrow>
          if mc_mechanism creds = MONGODB_DEFAULT \<and> truthy (mc_username creds)
          then (let d1 = map_set ''saslSupportedMechs''
                      (JStr (js_show (mc_source creds) @ ''.'' @ js_show (mc_username creds))) d in
                case map_of AUTH_PROVIDERS MONGODB_SCRAM_SHA256 of
                  None \<Rightarrow> (ctx, PrepareFailed (invalid_argument ''No AuthProvider defined.''))
                | Some p \<Rightarrow> provider_prepare cr p d1 ctx)
          else (case map_of AUTH_PROVIDERS (mc_mechanism creds) of
                  None \<Rightarrow> (ctx, PrepareFailed (invalid_argument ''No AuthProvider defined.''))
                | Some p \<Rightarrow> provider_prepare cr p d ctx))"

record handshake =
  hs_sent :: sent
  hs_cache :: hiCache
  hs_destroyed :: bool
  hs_helloOk :: bool
  hs_hello :: "doc option"
  hs_lastHelloMS :: "int option"

datatype handshakeOutcome = HsReady | HsFailed mongoError | HsThrown mongoError

text \<open>The callback of the handshake destroys the connection on an error.\<close>

definition hs_fail :: "mongoError \<Rightarrow> handshake \<Rightarrow> handshake \<times> handshakeOutcome" where
  "hs_fail e s = (s\<lparr>hs_destroyed := True\<rparr>, HsFailed e)"

definition authenticate_handshake ::
    "host \<Rightarrow> crypto \<Rightarrow> package_auth \<Rightarrow> server \<Rightarrow> mongoCredentials \<Rightarrow> doc \<Rightarrow> authContext \<Rightarrow> handshake \<Rightarrow> handshake \<times> handshakeOutcome" where
  "authenticate_handshake h cr pk srv creds response ctx s =
     (case resolveAuthMechanism (h_env h) creds (Some response) of
        Inl e \<Rightarrow> (s, HsThrown e)
      | Inr resolved \<Rightarrow>
          (case map_of AUTH_PROVIDERS (mc_mechanism resolved) of
             None \<Rightarrow> hs_fail (invalid_argument ''No AuthProvider defined.'') s
           | Some p \<Rightarrow>
               (let (c, l, r) = provider_auth cr pk srv p (ctx\<lparr>ac_response := Some response\<rparr>) (hs_cache s) (hs_sent s);
                    s' = s\<lparr>hs_cache := c, hs_sent := l\<rparr>
                in case r of AuthDone \<Rightarrow> (s', HsReady) | AuthFailed e \<Rightarrow> hs_fail e s' | AuthThrown e \<Rightarrow> (s', HsThrown e))))"

text \<open>What the client does with the server's hello reply; \<open>start\<close> and \<open>now\<close> are readings of the clock.\<close>

definition hello_style :: "doc \<Rightarrow> doc" where
  "hello_style response =
     (if map_has response ''isWritablePrimary'' then response
      else map_set ''isWritablePrimary'' (fld LEGACY_HELLO_COMMAND response) response)"

definition handle_hello ::
    "host \<Rightarrow> crypto \<Rightarrow> package_auth \<Rightarrow> server \<Rightarrow> connectOptions \<Rightarrow> int \<Rightarrow> int \<Rightarrow> doc \<Rightarrow> authContext \<Rightarrow> handshake \<Rightarrow> handshake \<times> handshakeOutcome" where
  "handle_hello h cr pk srv options start now reply ctx s =
     (if fld ''ok'' reply = JNum 0 then hs_fail (server_error (JDoc reply)) s
      else
        (let response = hello_style reply; s1 = (if truthy (fld ''helloOk'' response) then s\<lparr>hs_helloOk := True\<rparr> else s) in
         case checkSupportedServer response of
           Some e \<Rightarrow> hs_fail e s1
         | None \<Rightarrow>
             if truthy (cn_loadBalanced options) \<and> \<not> truthy (fld ''serviceId'' response)
             then hs_fail (compatibility_error ''Driver attempted to initialize in load balancing mode, but the server does not support this mode.'') s1
             else
               (let s2 = s1\<lparr>hs_hello := Some response, hs_lastHelloMS := Some (now - start)\<rparr> in
                case cn_credentials options of
                  Some creds \<Rightarrow>
                    if truthy (fld ''arbiterOnly'' response) then (s2, HsReady)
                    else authenticate_handshake h cr pk srv creds response ctx s2
                | None \<Rightarrow> (s2, HsReady))))"

definition performInitialHandshake ::
    "host \<Rightarrow> crypto \<Rightarrow> package_auth \<Rightarrow> server \<Rightarrow> connectOptions \<Rightarrow> int \<Rightarrow> int \<Rightarrow> handshake \<Rightarrow> handshake \<times> handshakeOutcome" where
  "performInitialHandshake h cr pk srv options start now s =
     (if (case cn_credentials options of
            Some c \<Rightarrow> mc_mechanism c \<noteq> MONGODB_DEFAULT \<and> map_of AUTH_PROVIDERS (mc_mechanism c) = None
          | None \<Rightarrow> False)
      then hs_fail (invalid_argument ''AuthMechanism not supported'') s
      else
        (case prepareHandshakeDocument h cr options \<lparr>ac_credentials = cn_credentials options, ac_response = None, ac_nonce = None\<rparr> of
           (ctx, PrepareFailed e) \<Rightarrow> hs_fail e s
         | (ctx, PrepareThrown e) \<Rightarrow> (s, HsThrown e)
         | (ctx, Prepared d) \<Rightarrow>
             (let (l, reply) = run_command srv ''admin'' d (hs_sent s); s' = s\<lparr>hs_sent := l\<rparr> in
              case reply of
                Inl e \<Rightarrow> hs_fail e s'
              | Inr r \<Rightarrow> handle_hello h cr pk srv options start now r ctx s')))"

section \<open>Sockets\<close>

definition LEGAL_TLS_SOCKET_OPTIONS :: "string list" where
  "LEGAL_TLS_SOCKET_OPTIONS = [''ALPNProtocols'', ''ca'', ''cert'', ''checkServerIdentity'', ''ciphers'', ''crl'', ''ecdhCurve'',
     ''key'', ''minDHSize'', ''passphrase'', ''pfx'', ''rejectUnauthorized'', ''secureContext'', ''secureProtocol'',
     ''servername'', ''session'']"

definition LEGAL_TCP_SOCKET_OPTIONS :: "string list" where
  "LEGAL_TCP_SOCKET_OPTIONS = [''family'', ''hints'', ''localAddress'', ''localPort'', ''lookup'']"

text \<open>The options of a list that are given.\<close>

definition copy_options :: "string list \<Rightarrow> optmap \<Rightarrow> optmap \<Rightarrow> optmap" where
  "copy_options names options result =
     fold (\<lambda>k r. if opt_nullish (opt_get k options) then r else map_set k (opt_get k options) r) names result"

definition parseConnectOptions :: "hostAddress option \<Rightarrow> optmap \<Rightarrow> mongoError + optmap" where
  "parseConnectOptions hostAddress options =
     (case hostAddress of
        None \<Rightarrow> Inl (invalid_argument ''Option hostAddress is required'')
      | Some a \<Rightarrow>
          (let result = copy_options LEGAL_TCP_SOCKET_OPTIONS options [] in
           case ha_socketPath a of
             Some p \<Rightarrow> Inr (map_set ''path'' (Plain (JStr p)) result)
           | None \<Rightarrow>
               (case ha_host a of
                  Some host \<Rightarrow>
                    Inr (map_set ''port'' (Plain (case ha_port a of Some n \<Rightarrow> JNum (int n) | None \<Rightarrow> JUndef))
                          (map_set ''host'' (Plain (JStr host)) result))
                | None \<Rightarrow> Inl (mk_error MongoRuntimeError ''Unexpected HostAddress''))))"

definition parseSslOptions :: "(string \<Rightarrow> bool) \<Rightarrow> hostAddress option \<Rightarrow> optmap \<Rightarrow> mongoError + optmap" where
  "parseSslOptions isIP hostAddress options =
     rbind (parseConnectOptions hostAddress options) (\<lambda>r0.
       (let r1 = copy_options LEGAL_TLS_SOCKET_OPTIONS options r0;
            existing = opt_get ''existingSocket'' options;
            r2 = (if opt_truthy existing then map_set ''socket'' existing r1 else r1);
            host = opt_get ''host'' r2
        in Inr (if opt_nullish (opt_get ''servername'' r2) \<and> opt_truthy host \<and> \<not> isIP (opt_show host)
                then map_set ''servername'' host r2 else r2)))"

text \<open>The numbers a socket is set up with; \<open>Math.round(n / 2)\<close> rounds a half up.\<close>

record socketOptions =
  sko_tls :: bool
  sko_keepAlive :: bool
  sko_socketTimeoutMS :: int
  sko_noDelay :: bool
  sko_connectTimeoutMS :: int
  sko_rejectUnauthorized :: bool
  sko_keepAliveInitialDelay :: "int option"
  sko_existing :: bool
  sko_cancellable :: bool

definition keepAliveInitialDelay :: "socketOptions \<Rightarrow> int" where
  "keepAliveInitialDelay o' =
     (if the_default 120000 (sko_keepAliveInitialDelay o') > sko_socketTimeoutMS o'
      then (sko_socketTimeoutMS o' + 1) div 2
      else the_default 120000 (sko_keepAliveInitialDelay o'))"

text \<open>
  A socket with its listeners: those for errors, the one for the connect event (for an existing
  socket a scheduled call, which cannot be withdrawn), the one on the cancellation token.
\<close>

record socket =
  so_keepAliveDelay :: int
  so_timeout :: int
  so_onError :: bool
  so_onConnect :: bool
  so_onCancel :: bool
  so_destroyed :: bool
  so_answers :: "(mongoError + unit) list"

datatype socketEvent = SoError mongoError | SoClose | SoTimeout | SoParseError mongoError | SoCancel
  | SoConnect "mongoError option"

definition makeConnection :: "socketOptions \<Rightarrow> socket" where
  "makeConnection o' = \<lparr>so_keepAliveDelay = keepAliveInitialDelay o', so_timeout = sko_connectTimeoutMS o', so_onError = True,
     so_onConnect = True, so_onCancel = sko_cancellable o', so_destroyed = False, so_answers = []\<rparr>"

fun connectionFailureError :: "socketEvent \<Rightarrow> mongoError" where
  "connectionFailureError (SoError e) = MongoNetworkError_new (e_message e) None"
| "connectionFailureError SoTimeout = (mk_error MongoNetworkTimeoutError ''connection timed out'')"
| "connectionFailureError SoClose = MongoNetworkError_new ''connection closed'' None"
| "connectionFailureError SoCancel = MongoNetworkError_new ''connection establishment was cancelled'' None"
| "connectionFailureError _ = MongoNetworkError_new ''unknown network error'' None"

definition so_callback :: "mongoError + unit \<Rightarrow> socket \<Rightarrow> socket" where
  "so_callback r s =
     (let s1 = s\<lparr>so_answers := so_answers s @ [r]\<rparr> in case r of Inl _ \<Rightarrow> s1\<lparr>so_destroyed := True\<rparr> | Inr _ \<Rightarrow> s1)"

definition errorHandler :: "socketOptions \<Rightarrow> socketEvent \<Rightarrow> socket \<Rightarrow> socket" where
  "errorHandler o' ev s =
     so_callback (Inl (connectionFailureError ev))
       (s\<lparr>so_onError := False, so_onCancel := False, so_onConnect := so_onConnect s \<and> sko_existing o'\<rparr>)"

definition connectHandler :: "socketOptions \<Rightarrow> mongoError option \<Rightarrow> socket \<Rightarrow> socket" where
  "connectHandler o' authorizationError s =
     (let s1 = s\<lparr>so_onError := False, so_onCancel := False, so_onConnect := False\<rparr> in
      case authorizationError of
        Some e \<Rightarrow> if sko_rejectUnauthorized o' then so_callback (Inl e) s1
                  else so_callback (Inr ()) (s1\<lparr>so_timeout := sko_socketTimeoutMS o'\<rparr>)
      | None \<Rightarrow> so_callback (Inr ()) (s1\<lparr>so_timeout := sko_socketTimeoutMS o'\<rparr>))"

fun socket_event :: "socketOptions \<Rightarrow> socketEvent \<Rightarrow> socket \<Rightarrow> socket" where
  "socket_event o' (SoConnect a) s = (if so_onConnect s then connectHandler o' a s else s)"
| "socket_event o' SoCancel s = (if so_onCancel s then errorHandler o' SoCancel s else s)"
| "socket_event o' ev s = (if so_onError s then errorHandler o' ev s else s)"

text \<open>
  The way through a SOCKS proxy: the results of the three stages (the socket to the proxy, the
  proxy's connection, the socket over it) are arguments.  The second component says whether the socket
  to the proxy stays open though the connection failed; the SOCKS client closes it after an error of
  its own.
\<close>

datatype socksOutcome = SocksCalled "mongoError + unit" | SocksThrown mongoError

definition makeSocks5Connection ::
    "mongoError + unit \<Rightarrow> hostAddress option \<Rightarrow> optmap \<Rightarrow> mongoError + unit \<Rightarrow> mongoError + unit \<Rightarrow> socksOutcome \<times> bool" where
  "makeSocks5Connection raw hostAddress options socks final =
     (case raw of
        Inl e \<Rightarrow> (SocksCalled (Inl e), False)
      | Inr _ \<Rightarrow>
          (case parseConnectOptions hostAddress options of
             Inl e \<Rightarrow> (SocksThrown e, True)
           | Inr destination \<Rightarrow>
               if \<not> (is_string (value_of (opt_get ''host'' destination)) \<and> is_number (value_of (opt_get ''port'' destination)))
               then (SocksCalled (Inl (invalid_argument ''Can only make Socks5 connections to TCP hosts'')), True)
               else (case socks of
                       Inl e \<Rightarrow> (SocksCalled (Inl (connectionFailureError (SoError e))), False)
                     | Inr _ \<Rightarrow> (SocksCalled final, False))))"

section \<open>What a finished handshake shows\<close>

lemma supported_versions:
  "checkSupportedServer hello = None \<longleftrightarrow>
     (\<exists>hi lo. fld ''maxWireVersion'' hello = JNum hi \<and> hi \<ge> MIN_SUPPORTED_WIRE_VERSION
        \<and> fld ''minWireVersion'' hello = JNum lo \<and> lo \<le> MAX_SUPPORTED_WIRE_VERSION)"
  by (auto simp: checkSupportedServer_def Let_def split: jsval.splits if_splits)

lemma hs_fail_not_ready [simp]: "hs_fail e s \<noteq> (s', HsReady)"
  by (simp add: hs_fail_def)

text \<open>The connection authenticated itself: the provider of the resolved mechanism finished without an error.\<close>

definition authenticated :: "host \<Rightarrow> crypto \<Rightarrow> package_auth \<Rightarrow> server \<Rightarrow> mongoCredentials \<Rightarrow> doc \<Rightarrow> bool" where
  "authenticated h cr pk srv creds response \<longleftrightarrow>
     (\<exists>resolved p ctx c l c' l'. resolveAuthMechanism (h_env h) creds (Some response) = Inr resolved
        \<and> map_of AUTH_PROVIDERS (mc_mechanism resolved) = Some p \<and> ac_response ctx = Some response
        \<and> ac_credentials ctx = Some creds \<and> provider_auth cr pk srv p ctx c l = (c', l', AuthDone))"

lemma authenticate_ready:
  assumes "authenticate_handshake h cr pk srv creds response ctx s = (s', HsReady)" "ac_credentials ctx = Some creds"
  shows "authenticated h cr pk srv creds response \<and> hs_hello s' = hs_hello s"
proof -
  obtain resolved p where r: "resolveAuthMechanism (h_env h) creds (Some response) = Inr resolved"
      "map_of AUTH_PROVIDERS (mc_mechanism resolved) = Some p"
    using assms(1) by (auto simp: authenticate_handshake_def split: sum.splits option.splits)
  obtain c l x where p: "provider_auth cr pk srv p (ctx\<lparr>ac_response := Some response\<rparr>) (hs_cache s) (hs_sent s) = (c, l, x)"
    by (cases "provider_auth cr pk srv p (ctx\<lparr>ac_response := Some response\<rparr>) (hs_cache s) (hs_sent s)")
  have "x = AuthDone" "hs_hello s' = hs_hello s"
    using assms(1) r p by (auto simp: authenticate_handshake_def Let_def split: authOutcome.splits)
  moreover have "ac_credentials (ctx\<lparr>ac_response := Some response\<rparr>) = Some creds"
      "ac_response (ctx\<lparr>ac_response := Some response\<rparr>) = Some response"
    using assms(2) by simp_all
  ultimately show ?thesis unfolding authenticated_def using r p by blast
qed

lemma handle_hello_keeps_reply:
  assumes "handle_hello h cr pk srv options start now reply ctx s = (s', HsReady)"
  shows "hs_hello s' = Some (hello_style reply)"
proof -
  have a: "hs_hello s2 = hs_hello s1" if "authenticate_handshake h cr pk srv creds response ctx s1 = (s2, HsReady)" for creds response s1 s2
    using that by (auto simp: authenticate_handshake_def Let_def split: sum.splits option.splits prod.splits authOutcome.splits)
  show ?thesis using assms by (auto simp: handle_hello_def Let_def dest!: a split: if_splits option.splits)
qed

lemma prepare_keeps_credentials:
  assumes "prepareHandshakeDocument h cr options ctx = (ctx', r)"
  shows "ac_credentials ctx' = ac_credentials ctx"
proof -
  have "provider_prepare cr p d ctx = (ctx', r) \<Longrightarrow> ac_credentials ctx' = ac_credentials ctx" for p d
    by (cases p) (auto simp: ScramSHA_prepare_def X509_prepare_def Let_def split: option.splits sum.splits jsval.splits)
  with assms show ?thesis
    by (auto simp: prepareHandshakeDocument_def Let_def split: option.splits if_splits)
qed

text \<open>
  A handshake that ends well has seen a reply with wire versions the driver supports, a service
  identifier when load balancing, and, unless the server is an arbiter, the end of an authentication
  with the credentials of the client by the mechanism they name or the server's default.
\<close>

theorem handshake_ready:
  assumes "performInitialHandshake h cr pk srv options start now s = (s', HsReady)"
  shows "\<exists>response. hs_hello s' = Some response
    \<and> (\<exists>hi lo. fld ''maxWireVersion'' response = JNum hi \<and> hi \<ge> MIN_SUPPORTED_WIRE_VERSION
        \<and> fld ''minWireVersion'' response = JNum lo \<and> lo \<le> MAX_SUPPORTED_WIRE_VERSION)
    \<and> (truthy (cn_loadBalanced options) \<longrightarrow> truthy (fld ''serviceId'' response))
    \<and> (\<forall>creds. cn_credentials options = Some creds \<longrightarrow> \<not> truthy (fld ''arbiterOnly'' response)
        \<longrightarrow> authenticated h cr pk srv creds response)"
proof -
  let ?ctx0 = "\<lparr>ac_credentials = cn_credentials options, ac_response = None, ac_nonce = None\<rparr>"
  from assms obtain ctx d r s1 where p: "prepareHandshakeDocument h cr options ?ctx0 = (ctx, Prepared d)"
    and hello: "handle_hello h cr pk srv options start now r ctx s1 = (s', HsReady)"
    unfolding performInitialHandshake_def run_command_def Let_def
    by (auto split: if_splits prod.splits prepareOutcome.splits sum.splits)
  have creds: "ac_credentials ctx = cn_credentials options"
    using prepare_keeps_credentials [OF p] by simp
  let ?response = "hello_style r"
  have "checkSupportedServer ?response = None"
    using hello by (auto simp: handle_hello_def Let_def split: if_splits option.splits)
  moreover have "truthy (cn_loadBalanced options) \<longrightarrow> truthy (fld ''serviceId'' ?response)"
    using hello by (auto simp: handle_hello_def Let_def split: if_splits option.splits)
  moreover have "hs_hello s' = Some ?response \<and> (\<forall>creds. cn_credentials options = Some creds
      \<longrightarrow> \<not> truthy (fld ''arbiterOnly'' ?response) \<longrightarrow> authenticated h cr pk srv creds ?response)"
    using hello authenticate_ready creds
    by (fastforce simp: handle_hello_def Let_def split: if_splits option.splits)
  ultimately show ?thesis unfolding supported_versions by blast
qed

text \<open>Every error the handshake reports destroys the connection.\<close>

theorem failed_handshake_destroys:
  "case performInitialHandshake h cr pk srv options start now s of
     (s', HsFailed e) \<Rightarrow> hs_destroyed s'
   | _ \<Rightarrow> True"
proof -
  have f: "hs_destroyed (fst (hs_fail e s))" for e s by (simp add: hs_fail_def)
  have a: "authenticate_handshake h cr pk srv creds response ctx s = (s', HsFailed e) \<Longrightarrow> hs_destroyed s'"
    for creds response ctx s s' e
    by (auto simp: authenticate_handshake_def hs_fail_def Let_def split: sum.splits option.splits prod.splits authOutcome.splits)
  have b: "handle_hello h cr pk srv options start now r ctx s = (s', HsFailed e) \<Longrightarrow> hs_destroyed s'" for r ctx s s' e
    using a by (auto simp: handle_hello_def hs_fail_def Let_def split: if_splits option.splits)
  show ?thesis
    using b by (auto simp: performInitialHandshake_def hs_fail_def Let_def split: handshakeOutcome.splits if_splits prod.splits
        prepareOutcome.splits sum.splits)
qed

lemma socket_silent:
  "\<not> so_onError s \<Longrightarrow> \<not> so_onConnect s \<Longrightarrow> \<not> so_onCancel s \<Longrightarrow> fold (socket_event o') evs s = s"
proof (induction evs)
  case (Cons ev evs)
  then show ?case by (cases ev) simp_all
qed simp

lemma socket_event_silences:
  "\<not> sko_existing o' \<Longrightarrow> so_onError s \<Longrightarrow> so_onConnect s \<Longrightarrow> ev \<noteq> SoCancel \<or> so_onCancel s \<Longrightarrow>
     \<not> so_onError (socket_event o' ev s) \<and> \<not> so_onConnect (socket_event o' ev s) \<and> \<not> so_onCancel (socket_event o' ev s)
     \<and> (\<exists>r. so_answers (socket_event o' ev s) = so_answers s @ [r] \<and> (so_destroyed (socket_event o' ev s) \<longleftrightarrow> so_destroyed s \<or> isl r))"
  by (cases ev) (auto simp: errorHandler_def connectHandler_def so_callback_def Let_def split: option.splits)

text \<open>
  (C37) A new socket answers once: whatever events arrive, in whatever order, it is answered by the first
  that its listeners hear, with an error it is destroyed, and later events change nothing.
\<close>

theorem socket_answers_once:
  assumes "\<not> sko_existing o'" "s = fold (socket_event o') evs (makeConnection o')"
  shows "(if filter (\<lambda>ev. ev \<noteq> SoCancel \<or> sko_cancellable o') evs = [] then so_answers s = [] \<and> \<not> so_destroyed s
          else \<exists>r. so_answers s = [r] \<and> (so_destroyed s \<longleftrightarrow> isl r))"
  unfolding assms(2)
proof (induction evs)
  case Nil
  then show ?case by (simp add: makeConnection_def)
next
  case (Cons ev evs)
  show ?case
  proof (cases "ev \<noteq> SoCancel \<or> sko_cancellable o'")
    case True
    let ?s = "socket_event o' ev (makeConnection o')"
    have "\<not> so_onError ?s \<and> \<not> so_onConnect ?s \<and> \<not> so_onCancel ?s \<and> (\<exists>r. so_answers ?s = [r] \<and> (so_destroyed ?s \<longleftrightarrow> isl r))"
      using socket_event_silences [OF assms(1), of "makeConnection o'" ev] True by (simp add: makeConnection_def)
    with True socket_silent [of ?s o' evs] show ?thesis by simp
  next
    case False
    then have "socket_event o' ev (makeConnection o') = makeConnection o'" by (simp add: makeConnection_def)
    with False Cons.IH show ?thesis by simp
  qed
qed

text \<open>A TLS peer that is not authorised is never handed out while unauthorised peers are rejected.\<close>

theorem unauthorized_rejected:
  "sko_rejectUnauthorized o' \<Longrightarrow> so_onConnect s \<Longrightarrow>
     so_answers (socket_event o' (SoConnect (Some e)) s) = so_answers s @ [Inl e] \<and> so_destroyed (socket_event o' (SoConnect (Some e)) s)"
  by (simp add: connectHandler_def so_callback_def Let_def)

text \<open>Without a socket timeout the delay of keep-alive probes is 0, not the documented two minutes.\<close>

theorem keep_alive_delay_lost:
  "sko_socketTimeoutMS o' = 0 \<Longrightarrow> the_default 120000 (sko_keepAliveInitialDelay o') > 0 \<Longrightarrow> so_keepAliveDelay (makeConnection o') = 0"
  by (simp add: makeConnection_def keepAliveInitialDelay_def)

section \<open>Handshake and SCRAM together\<close>

lemma default_resolves_scram:
  assumes "resolveAuthMechanism env creds (Some response) = Inr resolved" "mc_mechanism creds = MONGODB_DEFAULT"
    "getDefaultAuthMechanism (Some response) = scram_mechanism m"
  shows "map_of AUTH_PROVIDERS (mc_mechanism resolved) = Some (PScram m)"
proof -
  have "match_i ''DEFAULT'' (mc_mechanism creds)"
    using assms(2) by (simp add: match_i_def MONGODB_DEFAULT_def toLowerCase_def lower_char_def)
  then have "mc_mechanism resolved = scram_mechanism m"
    using assms(1, 3) by (cases m) (auto simp: resolveAuthMechanism_def mechanism_defs intro: new_mechanism)
  then show ?thesis by (cases m) (auto simp: AUTH_PROVIDERS_def mechanism_defs)
qed

text \<open>With the default mechanism the nonce of the conversation is drawn while the handshake is prepared.\<close>

lemma default_prepares_nonce:
  assumes "prepareHandshakeDocument h cr options ctx = (ctx', Prepared d)"
    and "ac_credentials ctx = Some creds" "mc_mechanism creds = MONGODB_DEFAULT"
  shows "\<exists>nonce. cr_randomBytes cr = Inr nonce \<and> ac_nonce ctx' = Some nonce"
proof -
  have "map_of AUTH_PROVIDERS MONGODB_DEFAULT = None" "map_of AUTH_PROVIDERS MONGODB_SCRAM_SHA256 = Some (PScram Sha256)"
    by (simp_all add: AUTH_PROVIDERS_def mechanism_defs)
  then show ?thesis
    using assms by (auto simp: prepareHandshakeDocument_def ScramSHA_prepare_def Let_def split: if_splits sum.splits jsval.splits)
qed

text \<open>
  The first message of the server, as it comes with the reply to the hello or answers a command of its
  own, and the commands sent up to then.
\<close>

definition server_first :: "server \<Rightarrow> cryptoMethod \<Rightarrow> string \<Rightarrow> string \<Rightarrow> string \<Rightarrow> doc \<Rightarrow> sent \<Rightarrow> doc \<Rightarrow> sent \<Rightarrow> bool" where
  "server_first srv m db user nonce response l first l1 \<longleftrightarrow>
     (if truthy (fld ''speculativeAuthenticate'' response)
      then first = props_of (fld ''speculativeAuthenticate'' response) \<and> l1 = l
      else l1 = l @ [(db, makeFirstMessage m user nonce)] \<and> srv l1 = Inr first)"

lemma scram_auth_continues:
  assumes "ScramSHA_auth cr srv m ctx c l = (c', l', AuthDone)" "ac_response ctx = Some response"
    and "ac_credentials ctx = Some creds" "ac_nonce ctx = Some nonce" "mc_username creds = JStr user"
  obtains first l1 where "continueScramConversation cr srv m first ctx c l1 = (c', l', AuthDone)"
    "server_first srv m (js_show (mc_source creds)) user nonce response l first l1"
proof (cases "truthy (fld ''speculativeAuthenticate'' response)")
  case True
  with assms that show ?thesis by (simp add: ScramSHA_auth_def server_first_def)
next
  case False
  let ?l1 = "l @ [(js_show (mc_source creds), makeFirstMessage m user nonce)]"
  show ?thesis
  proof (cases "srv ?l1")
    case (Inl e)
    with assms False show ?thesis by (simp add: ScramSHA_auth_def executeScram_def run_command_def resolveError_def)
  next
    case (Inr first)
    with assms False that [of first ?l1] show ?thesis
      by (auto simp: ScramSHA_auth_def executeScram_def run_command_def server_first_def split: option.splits)
  qed
qed

lemma scram_auth_user:
  assumes "ScramSHA_auth cr srv m ctx c l = (c', l', AuthDone)" "ac_response ctx = Some response"
  obtains creds nonce user where "ac_credentials ctx = Some creds" "ac_nonce ctx = Some nonce" "mc_username creds = JStr user"
  using assms that unfolding ScramSHA_auth_def executeScram_def continueScramConversation_def run_command_def Let_def
  by (simp split: option.splits if_splits jsval.splits)

text \<open>What was sent after the proof, if anything, is the empty exchange the server asked for.\<close>

lemma proof_in_log:
  assumes "send_proof cr srv m db user nonce payload first rnonce salted l = (l', r)" "fld ''r'' (parsePayload payload) = JStr rnonce"
  shows "\<exists>rest. l' = l @ (db, proof_command cr m user nonce salted first payload) # rest"
proof -
  let ?l = "l @ [(db, proof_command cr m user nonce salted first payload)]"
  have "\<exists>sig. finish_scram srv db sig ?l (srv ?l) = (l', r)"
    using assms by (auto simp: send_proof_def run_command_def proof_command_def Let_def)
  then obtain sig where "finish_scram srv db sig ?l (srv ?l) = (l', r)" by blast
  with finish_scram_log [of srv db sig ?l "srv ?l"] show ?thesis by auto
qed

lemma conversation_authenticates:
  assumes "continueScramConversation cr srv m first ctx c l1 = (c', l', AuthDone)"
    and "ac_credentials ctx = Some creds" "ac_nonce ctx = Some nonce" "mc_username creds = JStr user" "cache_sound cr m c"
  shows "\<exists>pw payload salt rnonce salted rest r p v. processed_password cr m (cleanUsername user) (mc_password creds) = Inr pw
    \<and> fld ''payload'' first = JStr payload \<and> fld ''s'' (parsePayload payload) = JStr salt
    \<and> fld ''r'' (parsePayload payload) = JStr rnonce
    \<and> cr_pbkdf2 cr pw (base64_decode salt) (parseInt (js_show (fld ''i'' (parsePayload payload)))) (hiLengthMap m) m = Inr salted
    \<and> l' = l1 @ (js_show (mc_source creds), proof_command cr m (cleanUsername user) nonce salted first payload) # rest
    \<and> srv (l1 @ [(js_show (mc_source creds), proof_command cr m (cleanUsername user) nonce salted first payload)]) = Inr r
    \<and> fld ''payload'' r = JStr p \<and> fld ''v'' (parsePayload p) = JStr v
    \<and> base64_decode v = server_signature cr m salted (auth_message (cleanUsername user) nonce payload rnonce)"
proof -
  obtain creds' nonce' user' pw payload rnonce salt salted where f: "ac_credentials ctx = Some creds'" "ac_nonce ctx = Some nonce'"
    "mc_username creds' = JStr user'" "processed_password cr m (cleanUsername user') (mc_password creds') = Inr pw"
    "fld ''payload'' first = JStr payload" "fld ''r'' (parsePayload payload) = JStr rnonce"
    "fld ''s'' (parsePayload payload) = JStr salt"
    and hi: "HI cr pw (base64_decode salt) (parseInt (js_show (fld ''i'' (parsePayload payload)))) m c = (c', Inr salted)"
    and sp: "send_proof cr srv m (js_show (mc_source creds')) (cleanUsername user') nonce' payload first rnonce salted l1 = (l', AuthDone)"
    by (rule continue_stages [OF assms(1)])
  have e: "creds' = creds" "nonce' = nonce" "user' = user" using f assms(2-4) by auto
  have salted: "cr_pbkdf2 cr pw (base64_decode salt) (parseInt (js_show (fld ''i'' (parsePayload payload)))) (hiLengthMap m) m = Inr salted"
    by (rule HI_salts [OF assms(5) hi])
  from proof_in_log [OF sp f(6)] proof_signed [OF sp f(6)] salted f(4-7) show ?thesis
    unfolding e by (elim exE conjE) (intro exI conjI, assumption+)
qed

text \<open>The authentication in a handshake: its context, its cache and the commands around it.\<close>

lemma handshake_runs_provider:
  assumes "performInitialHandshake h cr pk srv options start now s = (s', HsReady)"
    and "cn_credentials options = Some creds" "hs_hello s' = Some response" "\<not> truthy (fld ''arbiterOnly'' response)"
  obtains ctx d reply resolved p c' where
    "prepareHandshakeDocument h cr options \<lparr>ac_credentials = Some creds, ac_response = None, ac_nonce = None\<rparr> = (ctx, Prepared d)"
    "srv (hs_sent s @ [(''admin'', d)]) = Inr reply" "response = hello_style reply"
    "resolveAuthMechanism (h_env h) creds (Some response) = Inr resolved" "map_of AUTH_PROVIDERS (mc_mechanism resolved) = Some p"
    "provider_auth cr pk srv p (ctx\<lparr>ac_response := Some response\<rparr>) (hs_cache s) (hs_sent s @ [(''admin'', d)]) = (c', hs_sent s', AuthDone)"
proof -
  let ?ctx0 = "\<lparr>ac_credentials = Some creds, ac_response = None, ac_nonce = None\<rparr>"
  from assms(1, 2) obtain ctx d reply where prep: "prepareHandshakeDocument h cr options ?ctx0 = (ctx, Prepared d)"
    and reply: "srv (hs_sent s @ [(''admin'', d)]) = Inr reply"
    and hello: "handle_hello h cr pk srv options start now reply ctx (s\<lparr>hs_sent := hs_sent s @ [(''admin'', d)]\<rparr>) = (s', HsReady)"
    unfolding performInitialHandshake_def run_command_def Let_def
    by (auto split: if_splits prod.splits prepareOutcome.splits sum.splits)
  let ?r = "hello_style reply"
  have r: "response = ?r"
    using handle_hello_keeps_reply [OF hello] assms(3) by simp
  obtain s2 where s2: "authenticate_handshake h cr pk srv creds ?r ctx s2 = (s', HsReady)"
      "hs_cache s2 = hs_cache s" "hs_sent s2 = hs_sent s @ [(''admin'', d)]"
    using hello assms(2, 4) unfolding r handle_hello_def Let_def by (auto split: if_splits option.splits)
  obtain resolved p where p: "resolveAuthMechanism (h_env h) creds (Some ?r) = Inr resolved"
      "map_of AUTH_PROVIDERS (mc_mechanism resolved) = Some p"
    using s2(1) by (auto simp: authenticate_handshake_def split: sum.splits option.splits)
  obtain c l x where q: "provider_auth cr pk srv p (ctx\<lparr>ac_response := Some ?r\<rparr>) (hs_cache s2) (hs_sent s2) = (c, l, x)"
    by (cases "provider_auth cr pk srv p (ctx\<lparr>ac_response := Some ?r\<rparr>) (hs_cache s2) (hs_sent s2)")
  have "x = AuthDone" "l = hs_sent s'"
    using s2(1) p q by (auto simp: authenticate_handshake_def Let_def split: authOutcome.splits)
  with that [OF prep reply r] p q s2(2, 3) show ?thesis unfolding r by simp
qed

text \<open>
  (C35) A handshake with the default mechanism that ends well, with a server that is no arbiter and
  negotiates SCRAM with the hash function \<open>m\<close>, has authenticated the server.  The password of the
  credentials, salted by PBKDF2 with the salt and the iteration count of the server's first message in
  this conversation, gives the server key; after the messages before it, the client sent the proof made
  from it and from the nonce drawn for this handshake; and the reply to that proof holds the signature,
  under the server key, of the messages of this conversation.  The cache of salted passwords is supposed
  to hold results of PBKDF2 for \<open>m\<close> only, which stays so while no other hash function is used with it.
\<close>

theorem handshake_authenticates_server:
  assumes "performInitialHandshake h cr pk srv options start now s = (s', HsReady)"
    and "cn_credentials options = Some creds" "mc_mechanism creds = MONGODB_DEFAULT"
    and "hs_hello s' = Some response" "\<not> truthy (fld ''arbiterOnly'' response)"
    and "getDefaultAuthMechanism (Some response) = scram_mechanism m"
    and "cache_sound cr m (hs_cache s)"
  shows "\<exists>user pw nonce d first l1 payload salt rnonce salted rest r p v.
      mc_username creds = JStr user \<and> processed_password cr m (cleanUsername user) (mc_password creds) = Inr pw
    \<and> cr_randomBytes cr = Inr nonce
    \<and> server_first srv m (js_show (mc_source creds)) user nonce response (hs_sent s @ [(''admin'', d)]) first l1
    \<and> fld ''payload'' first = JStr payload \<and> fld ''s'' (parsePayload payload) = JStr salt
    \<and> fld ''r'' (parsePayload payload) = JStr rnonce
    \<and> cr_pbkdf2 cr pw (base64_decode salt) (parseInt (js_show (fld ''i'' (parsePayload payload)))) (hiLengthMap m) m = Inr salted
    \<and> hs_sent s' = l1 @ (js_show (mc_source creds), proof_command cr m (cleanUsername user) nonce salted first payload) # rest
    \<and> srv (l1 @ [(js_show (mc_source creds), proof_command cr m (cleanUsername user) nonce salted first payload)]) = Inr r
    \<and> fld ''payload'' r = JStr p \<and> fld ''v'' (parsePayload p) = JStr v
    \<and> base64_decode v = server_signature cr m salted (auth_message (cleanUsername user) nonce payload rnonce)"
proof -
  obtain ctx d reply resolved q c' where prep:
    "prepareHandshakeDocument h cr options \<lparr>ac_credentials = Some creds, ac_response = None, ac_nonce = None\<rparr> = (ctx, Prepared d)"
    and res: "resolveAuthMechanism (h_env h) creds (Some response) = Inr resolved" "map_of AUTH_PROVIDERS (mc_mechanism resolved) = Some q"
    and auth: "provider_auth cr pk srv q (ctx\<lparr>ac_response := Some response\<rparr>) (hs_cache s) (hs_sent s @ [(''admin'', d)])
      = (c', hs_sent s', AuthDone)"
    by (rule handshake_runs_provider [OF assms(1, 2, 4, 5)])
  let ?ctx = "ctx\<lparr>ac_response := Some response\<rparr>" and ?db = "js_show (mc_source creds)" and ?l = "hs_sent s @ [(''admin'', d)]"
  have scram: "ScramSHA_auth cr srv m ?ctx (hs_cache s) ?l = (c', hs_sent s', AuthDone)"
    using auth res(2) default_resolves_scram [OF res(1) assms(3, 6)] by auto
  have creds: "ac_credentials ?ctx = Some creds" using prepare_keeps_credentials [OF prep] by simp
  obtain nonce where nonce: "cr_randomBytes cr = Inr nonce" "ac_nonce ?ctx = Some nonce"
    using default_prepares_nonce [OF prep _ assms(3)] by auto
  obtain user where user: "mc_username creds = JStr user"
    using scram_auth_user [OF scram] creds by auto
  obtain first l1 where cont: "continueScramConversation cr srv m first ?ctx (hs_cache s) l1 = (c', hs_sent s', AuthDone)"
    and first: "server_first srv m ?db user nonce response ?l first l1"
    by (rule scram_auth_continues [OF scram _ creds nonce(2) user]) simp_all
  show ?thesis
    using conversation_authenticates [OF cont creds nonce(2) user assms(7)] nonce(1) user first by blast
qed

section \<open>An example\<close>

definition example_hello :: doc where
  "example_hello = [(''ok'', JNum 1), (''isWritablePrimary'', JBool True), (''minWireVersion'', JNum 0), (''maxWireVersion'', JNum 13),
     (''saslSupportedMechs'', JArr [JStr MONGODB_SCRAM_SHA256]), (''speculativeAuthenticate'', JDoc example_first)]"

definition example_peer :: server where
  "example_peer = (\<lambda>l. if length l = 1 then Inr example_hello else Inr [(''payload'', JStr (''v='' @ base64_encode ''k''))])"

definition example_connect :: connectOptions where
  "example_connect = \<lparr>cn_credentials = Some (example_credentials\<lparr>mc_mechanism := MONGODB_DEFAULT\<rparr>), cn_compressors = JUndef,
     cn_metadata = JDoc [], cn_loadBalanced = JBool False, cn_serverApiVersion = JUndef\<rparr>"

definition example_handshake :: handshake where
  "example_handshake = \<lparr>hs_sent = [], hs_cache = empty_cache, hs_destroyed = False, hs_helloOk = False, hs_hello = None,
     hs_lastHelloMS = None\<rparr>"

definition no_package :: package_auth where
  "no_package = (\<lambda>_ _ l. (l, AuthFailed no_credentials_error))"

lemma example_continues:
  assumes "ac_credentials ctx = Some (example_credentials\<lparr>mc_mechanism := MONGODB_DEFAULT\<rparr>)" "ac_nonce ctx = Some nonce"
  shows "\<exists>c' l'. continueScramConversation example_crypto example_peer Sha256 example_first ctx empty_cache [x] = (c', l', AuthDone)"
proof -
  obtain v where v: "fld ''v'' (parsePayload (''v='' @ base64_encode ''k'')) = JStr v" "base64_decode v = ''k''"
    using signature_read by blast
  obtain c' where c: "HI example_crypto ''secret'' (base64_decode ''c2Fs'') (Some 4096) Sha256 empty_cache = (c', Inr ''sp'')"
    using example_salted by blast
  have "\<exists>l'. send_proof example_crypto example_peer Sha256 db user n payload response rnonce ''sp'' [x] = (l', AuthDone)"
    for db user n payload response rnonce
    using v by (simp add: send_proof_def run_command_def finish_scram_def resolveError_def compareDigest_def example_peer_def
        signature_of_keys example_signature Let_def)
  then show ?thesis
    using c example_password assms
    by (simp add: continueScramConversation_def example_first_def example_payload example_iterations
        example_credentials_def Let_def)
qed

lemma example_resolved:
  "\<exists>c. resolveAuthMechanism (\<lambda>_. None) (example_credentials\<lparr>mc_mechanism := MONGODB_DEFAULT\<rparr>) (Some example_hello) = Inr c
     \<and> mc_mechanism c = MONGODB_SCRAM_SHA256"
  by (simp add: resolveAuthMechanism_def MongoCredentials_new_def example_credentials_def example_hello_def getDefaultAuthMechanism_def
      canonicalize_property_def match_i_def mechanism_defs toLowerCase_def lower_char_def Let_def map_has_def)

lemma example_providers:
  "map_of AUTH_PROVIDERS MONGODB_SCRAM_SHA256 = Some (PScram Sha256)"
  by (simp add: AUTH_PROVIDERS_def mechanism_defs)

lemma example_prepared:
  "\<exists>ctx d. prepareHandshakeDocument example_host example_crypto example_connect
      \<lparr>ac_credentials = cn_credentials example_connect, ac_response = None, ac_nonce = None\<rparr> = (ctx, Prepared d)
    \<and> ac_nonce ctx = Some ''abc'' \<and> ac_credentials ctx = Some (example_credentials\<lparr>mc_mechanism := MONGODB_DEFAULT\<rparr>)"
  by (simp add: prepareHandshakeDocument_def example_connect_def example_credentials_def example_providers ScramSHA_prepare_def
      example_crypto_def Let_def)

lemma example_hello_facts:
  "hello_style example_hello = example_hello" "fld ''ok'' example_hello = JNum 1" "fld ''helloOk'' example_hello = JUndef"
  "checkSupportedServer example_hello = None" "fld ''arbiterOnly'' example_hello = JUndef"
  "fld ''saslSupportedMechs'' example_hello = JArr [JStr MONGODB_SCRAM_SHA256]"
  "fld ''speculativeAuthenticate'' example_hello = JDoc example_first"
  by (simp_all add: hello_style_def example_hello_def map_has_def checkSupportedServer_def MIN_SUPPORTED_WIRE_VERSION_def
      MAX_SUPPORTED_WIRE_VERSION_def)

lemma example_authenticates:
  assumes "ac_nonce ctx = Some nonce" "ac_credentials ctx = Some (example_credentials\<lparr>mc_mechanism := MONGODB_DEFAULT\<rparr>)"
    "hs_cache s = empty_cache" "hs_sent s = [x]"
  shows "\<exists>s'. authenticate_handshake example_host example_crypto no_package example_peer
      (example_credentials\<lparr>mc_mechanism := MONGODB_DEFAULT\<rparr>) example_hello ctx s = (s', HsReady) \<and> hs_hello s' = hs_hello s"
proof -
  obtain c where c: "resolveAuthMechanism (\<lambda>_. None) (example_credentials\<lparr>mc_mechanism := MONGODB_DEFAULT\<rparr>) (Some example_hello) = Inr c"
      "mc_mechanism c = MONGODB_SCRAM_SHA256"
    using example_resolved by blast
  obtain c' l' where "continueScramConversation example_crypto example_peer Sha256 example_first
      (ctx\<lparr>ac_response := Some example_hello\<rparr>) empty_cache [x] = (c', l', AuthDone)"
    using example_continues [of "ctx\<lparr>ac_response := Some example_hello\<rparr>" nonce x] assms(1, 2) by auto
  then have "ScramSHA_auth example_crypto example_peer Sha256 (ctx\<lparr>ac_response := Some example_hello\<rparr>) empty_cache [x] = (c', l', AuthDone)"
    by (simp add: ScramSHA_auth_def example_hello_facts)
  moreover have "h_env example_host = (\<lambda>_. None)" by (simp add: example_host_def)
  ultimately show ?thesis
    using c assms(3, 4) by (simp add: authenticate_handshake_def example_providers)
qed

lemma example_ready:
  "\<exists>s'. performInitialHandshake example_host example_crypto no_package example_peer example_connect 0 5 example_handshake = (s', HsReady)
     \<and> hs_hello s' = Some example_hello"
proof -
  obtain ctx d where p: "prepareHandshakeDocument example_host example_crypto example_connect
      \<lparr>ac_credentials = cn_credentials example_connect, ac_response = None, ac_nonce = None\<rparr> = (ctx, Prepared d)"
    and ctx: "ac_nonce ctx = Some ''abc''" "ac_credentials ctx = Some (example_credentials\<lparr>mc_mechanism := MONGODB_DEFAULT\<rparr>)"
    using example_prepared by blast
  let ?s = "example_handshake\<lparr>hs_sent := [(''admin'', d)]\<rparr>"
  obtain s' where s': "authenticate_handshake example_host example_crypto no_package example_peer
      (example_credentials\<lparr>mc_mechanism := MONGODB_DEFAULT\<rparr>) example_hello ctx
      (?s\<lparr>hs_hello := Some example_hello, hs_lastHelloMS := Some 5\<rparr>) = (s', HsReady)" "hs_hello s' = Some example_hello"
    using example_authenticates [OF ctx, of "?s\<lparr>hs_hello := Some example_hello, hs_lastHelloMS := Some 5\<rparr>" "(''admin'', d)"]
    by (auto simp: example_handshake_def)
  have creds: "cn_credentials example_connect = Some (example_credentials\<lparr>mc_mechanism := MONGODB_DEFAULT\<rparr>)"
      "cn_loadBalanced example_connect = JBool False"
    by (simp_all add: example_connect_def)
  have "handle_hello example_host example_crypto no_package example_peer example_connect 0 5 example_hello ctx ?s = (s', HsReady)"
    using s' by (simp add: handle_hello_def example_hello_facts creds Let_def)
  then have "performInitialHandshake example_host example_crypto no_package example_peer example_connect 0 5 example_handshake = (s', HsReady)"
    using p creds by (simp add: performInitialHandshake_def run_command_def example_peer_def example_handshake_def)
  with s'(2) show ?thesis by blast
qed

theorem handshake_authenticates_server_witness:
  "\<exists>s' l1 rest r p v. performInitialHandshake example_host example_crypto no_package example_peer example_connect 0 5 example_handshake
       = (s', HsReady)
     \<and> hs_sent s' = l1 @ (''admin'', proof_command example_crypto Sha256 ''joe'' ''abc'' ''sp'' example_first ''r=xyz,s=c2Fs,i=4096'') # rest
     \<and> example_peer (l1 @ [(''admin'', proof_command example_crypto Sha256 ''joe'' ''abc'' ''sp'' example_first ''r=xyz,s=c2Fs,i=4096'')]) = Inr r
     \<and> fld ''payload'' r = JStr p \<and> fld ''v'' (parsePayload p) = JStr v
     \<and> base64_decode v = server_signature example_crypto Sha256 ''sp'' (auth_message ''joe'' ''abc'' ''r=xyz,s=c2Fs,i=4096'' ''xyz'')"
proof -
  obtain s' where s': "performInitialHandshake example_host example_crypto no_package example_peer example_connect 0 5 example_handshake
      = (s', HsReady)" "hs_hello s' = Some example_hello"
    using example_ready by blast
  have h: "cn_credentials example_connect = Some (example_credentials\<lparr>mc_mechanism := MONGODB_DEFAULT\<rparr>)"
      "mc_mechanism (example_credentials\<lparr>mc_mechanism := MONGODB_DEFAULT\<rparr>) = MONGODB_DEFAULT"
      "\<not> truthy (fld ''arbiterOnly'' example_hello)"
      "getDefaultAuthMechanism (Some example_hello) = scram_mechanism Sha256"
      "cache_sound example_crypto Sha256 (hs_cache example_handshake)"
    by (simp_all add: example_connect_def example_hello_facts getDefaultAuthMechanism_def example_handshake_def empty_cache_def
        cache_sound_empty)
  have e: "mc_username (example_credentials\<lparr>mc_mechanism := MONGODB_DEFAULT\<rparr>) = JStr ''joe''"
      "js_show (mc_source (example_credentials\<lparr>mc_mechanism := MONGODB_DEFAULT\<rparr>)) = ''admin''" "cleanUsername ''joe'' = ''joe''"
      "cr_randomBytes example_crypto = Inr ''abc''" "cr_pbkdf2 example_crypto pw salt i n m = Inr ''sp''" for pw salt i n m
    by (simp_all add: example_credentials_def cleanUsername_def example_crypto_def)
  have first: "server_first example_peer Sha256 db user nonce example_hello l f l1 \<Longrightarrow> f = example_first" for db user nonce l f l1
    by (simp add: server_first_def example_hello_facts example_first_def)
  have payload: "fld ''payload'' example_first = JStr p \<Longrightarrow> p = ''r=xyz,s=c2Fs,i=4096''" for p
    by (simp add: example_first_def)
  from handshake_authenticates_server [OF s'(1) h(1, 2) s'(2) h(3-5)] show ?thesis
    unfolding e sum.inject jsval.inject
  proof (elim exE conjE)
    fix user pw nonce d f l1 payload salt rnonce salted rest r p v
    assume f: "server_first example_peer Sha256 ''admin'' user nonce example_hello (hs_sent example_handshake @ [(''admin'', d)]) f l1"
      and g: "fld ''payload'' f = JStr payload" "fld ''r'' (parsePayload payload) = JStr rnonce"
      and eqs: "''joe'' = user" "''abc'' = nonce" "''sp'' = salted"
      and rest: "hs_sent s' = l1 @ (''admin'', proof_command example_crypto Sha256 (cleanUsername user) nonce salted f payload) # rest"
        "example_peer (l1 @ [(''admin'', proof_command example_crypto Sha256 (cleanUsername user) nonce salted f payload)]) = Inr r"
        "fld ''payload'' r = JStr p" "fld ''v'' (parsePayload p) = JStr v"
        "base64_decode v = server_signature example_crypto Sha256 salted (auth_message (cleanUsername user) nonce payload rnonce)"
    have f1: "f = example_first" by (rule first [OF f])
    with g(1) have p1: "payload = ''r=xyz,s=c2Fs,i=4096''" using payload by blast
    with g(2) have "rnonce = ''xyz''" by (simp add: example_payload)
    with rest have "hs_sent s' = l1 @ (''admin'', proof_command example_crypto Sha256 ''joe'' ''abc'' ''sp'' example_first ''r=xyz,s=c2Fs,i=4096'') # rest"
      "example_peer (l1 @ [(''admin'', proof_command example_crypto Sha256 ''joe'' ''abc'' ''sp'' example_first ''r=xyz,s=c2Fs,i=4096'')]) = Inr r"
      "base64_decode v = server_signature example_crypto Sha256 ''sp'' (auth_message ''joe'' ''abc'' ''r=xyz,s=c2Fs,i=4096'' ''xyz'')"
      unfolding f1 p1 eqs [symmetric] e by simp_all
    with s'(1) rest(3, 4) show ?thesis by blast
  qed
qed

theorem socket_answers_once_witness:
  "let o' = \<lparr>sko_tls = True, sko_keepAlive = True, sko_socketTimeoutMS = 0, sko_noDelay = True, sko_connectTimeoutMS = 30000,
             sko_rejectUnauthorized = True, sko_keepAliveInitialDelay = None, sko_existing = False, sko_cancellable = False\<rparr>
   in \<exists>r. so_answers (fold (socket_event o') [SoCancel, SoTimeout, SoConnect None] (makeConnection o')) = [r]"
  unfolding Let_def
  using socket_answers_once [of "\<lparr>sko_tls = True, sko_keepAlive = True, sko_socketTimeoutMS = 0, sko_noDelay = True,
      sko_connectTimeoutMS = 30000, sko_rejectUnauthorized = True, sko_keepAliveInitialDelay = None, sko_existing = False,
      sko_cancellable = False\<rparr>" _ "[SoCancel, SoTimeout, SoConnect None]", OF _ refl]
  by (simp del: fold.simps) blast

end
