(* ===== verification/Spec2Isabelle.thy ===== *)
theory Spec2Isabelle
  imports Topology_Rules Server_Selection Sessions Pool_Requests Selection_Requests Message_Stream
    Execute_Operation With_Transaction Bulk Cursors Operation_Rules Connection_Requests
    Change_Stream_Rules GridFS_Rules Client_Option_Rules Srv_Records Handshake
begin

text \<open>
  \<^bold>\<open>The MongoDB driver for Node.js: models and properties.\<close>

  The sources are those under \<open>src/src\<close>.  A client reads its options, from a connection string and
  an object, and builds a topology.  The topology keeps one server per known host; each server has a
  monitor, which asks the host for its state at intervals, and a pool of connections.  What the
  monitors report is folded into a topology description; the requests of operations for a server
  wait until the description has one that suits them.  An operation runs with a session, possibly in
  a transaction, on a connection checked out of the pool of the selected server, and is retried once
  where that is allowed.  A connection writes its commands as messages and matches replies to
  requests; bytes from the socket are cut into messages by a message stream.  Cursors, bulk writes,
  change streams and GridFS are built on operations.  This version of the driver has an extra part,
  \<open>querypie\<close>, that can hold commands back before they are written.

  \<^bold>\<open>How the code is modelled.\<close>  A class is a record with the fields of the class, a method a function
  that returns the updated record; errors are values of \<open>mongoError\<close> in a sum or an option; callbacks
  that were called are a list of answers in the record of whoever calls them, so that ``called exactly
  once'' can be stated; timers, sockets and replies are inputs of steps, and a component that is driven
  from outside in any order is an inductive step relation with its reachable states.  \<open>Map\<close> is an
  association list in insertion order.  Dynamically typed values are \<open>jsval\<close>.  Numbers are
  \<open>int\<close> or \<open>nat\<close>; where the code writes integers of a fixed width the range errors of Node's buffers
  are written out.  Dates and the clock are integers in milliseconds.

  \<^bold>\<open>Theories and sources.\<close>

  \<^item> \<open>Prelude\<close>: truthiness, \<open>Map\<close> and \<open>Set\<close>, strings, state machines, and the locales \<open>js_map\<close>,
    \<open>transition_table\<close> and \<open>advancing\<close>.
  \<^item> \<open>Errors\<close>: \<open>error.ts\<close>, \<open>cmap/errors.ts\<close>.  \<open>Utils\<close>: \<open>utils.ts\<close>.  \<open>Documents\<close>: the values of
    options and commands, used by all that follow.
  \<^item> Discovery and monitoring: \<open>Server_Description\<close> (\<open>sdam/common.ts\<close>, \<open>sdam/server_description.ts\<close>),
    \<open>Topology_Description\<close> and \<open>Topology_Rules\<close> (\<open>sdam/topology_description.ts\<close>), \<open>Monitor\<close>
    (\<open>sdam/monitor.ts\<close>), \<open>Server\<close> (\<open>sdam/server.ts\<close>), \<open>Topology\<close> and \<open>Selection_Requests\<close>
    (\<open>sdam/topology.ts\<close>), \<open>Srv_Records\<close> (\<open>sdam/srv_polling.ts\<close>, \<open>resolveSRVRecord\<close>).
  \<^item> Selection: \<open>Read_Preference\<close> (\<open>read_preference.ts\<close>), \<open>Server_Selection\<close>
    (\<open>sdam/server_selection.ts\<close>).
  \<^item> Sessions: \<open>Transactions\<close> (\<open>transactions.ts\<close>, \<open>read_concern.ts\<close>, \<open>write_concern.ts\<close>),
    \<open>Session_Pool\<close>, \<open>Sessions\<close>, \<open>With_Transaction\<close> (\<open>sessions.ts\<close>).
  \<^item> Connections: \<open>Connection_Pool\<close> and \<open>Pool_Requests\<close> (\<open>cmap/connection_pool.ts\<close>), \<open>Pausing\<close>
    (\<open>querypie/\<close>), \<open>Connection\<close> and \<open>Connection_Requests\<close> (\<open>cmap/connection.ts\<close>), \<open>Scram\<close> and
    \<open>Handshake\<close> (\<open>cmap/connect.ts\<close>, \<open>cmap/auth/\<close>).
  \<^item> Bytes: \<open>Buffers\<close> (Node buffers and \<open>BufferPool\<close>), \<open>Wire_Protocol\<close> (\<open>cmap/commands.ts\<close>),
    \<open>Message_Stream\<close> (\<open>cmap/message_stream.ts\<close>, \<open>cmap/wire_protocol/compression.ts\<close>).
  \<^item> Operations: \<open>Execute_Operation\<close> (\<open>operations/execute_operation.ts\<close>), \<open>Commands\<close>
    (\<open>operations/command.ts\<close>, \<open>explain.ts\<close>, \<open>sort.ts\<close>), \<open>Operations\<close> and \<open>Operation_Rules\<close> (the files
    of \<open>operations/\<close> one by one), \<open>Cursors\<close> (\<open>cursor/\<close>), \<open>Bulk\<close> (\<open>bulk/\<close>).
  \<^item> On top: \<open>Change_Streams\<close> and \<open>Change_Stream_Rules\<close> (\<open>change_stream.ts\<close>), \<open>GridFS\<close> and
    \<open>GridFS_Rules\<close> (\<open>gridfs/\<close>), \<open>Credentials\<close>, \<open>Client_Options\<close>, \<open>Option_Table\<close> and
    \<open>Client_Option_Rules\<close> (\<open>connection_string.ts\<close>, \<open>cmap/auth/providers.ts\<close>,
    \<open>cmap/auth/mongo_credentials.ts\<close>).

  \<^bold>\<open>What is shown.\<close>

  \<^item> A topology description has at most one primary, unless it is of a single server; a primary that
    is not stale defines the members, and the election and set versions never go back; while the
    deployment is compatible the servers of a topology are those of its description; SRV records
    with plain host names bring in only hosts below the parent domain, from the name servers' replies
    to the servers of the topology (at the end of this theory).
  \<^item> Selected servers have a type that the topology and the mode of the read preference allow; every
    selection request is answered once, and none that a server suits is left waiting after the queue
    is processed.
  \<^item> A pool never has more connections than its maximum; check-out requests are answered once; what
    comes out of the pool is usable, and what has just been established is open and current unless
    the pool was cleared meanwhile; an error clears the pool once.
  \<^item> A request on a connection is in exactly one place (in flight, paused or answered), exhaust
    replies and failing compression apart; closing answers all in flight with a network error; for
    requests that are not held back the pausing code behaves like the code without it.
  \<^item> Bytes give the same messages however they arrive; a command that is written, compressed or not,
    is read back as it was; \<open>BufferPool\<close> refines a queue of bytes.
  \<^item> Operations run at most twice, a retried write has the same transaction number, raised once;
    implicit sessions are ended; \<open>commitTransaction\<close> sends one or two commands and always calls back;
    \<open>withTransaction\<close> ends and leaves no transaction open; server sessions are never shared.
  \<^item> Cursors give the documents of the batches in their order; ordered bulk writes keep the order of
    their statements and stop at the first error, unordered ones only at a failed command; change
    streams read with \<open>next\<close> and \<open>hasNext\<close> deliver the changes in order across resumption; a file
    written to GridFS is read back as it was, whatever the order in which the inserts are answered.
  \<^item> Parsed options satisfy the rules on their combinations, those on TLS apart; a simple option is
    taken from the object before the connection string before the default; a handshake that succeeds
    with SCRAM has seen the server's signature, under the key of the salted password, of its own
    messages (while the cache of salted passwords serves one hash function); a conversation with the
    right keys completes, and opening a socket is answered once.
  \<^item> Theorems whose text says so describe places where the code does not do what it means to.

  \<^bold>\<open>Interfaces.\<close>  Each locale is interpreted on the definitions of the model: \<open>js_map\<close> on association
  lists, \<open>transition_table\<close> on the transaction states, \<open>advancing\<close> on cluster and operation times,
  \<open>server_selector\<close> on the selectors of writes, of one server and of a read preference, \<open>byte_queue\<close>
  on \<open>BufferPool\<close>, \<open>batcher\<close> on the ordered and the unordered bulk, \<open>monitor_listener\<close> on the
  server's handlers, \<open>session_event\<close> on the events that resume and abort a session,
  \<open>auth_provider\<close> on the four mechanisms in the source.

  \<^bold>\<open>Loops and fuel.\<close>  Loops of the code that shrink their input are recursive functions.  Three may go
  on: reading a cursor (a server can send empty batches for ever), so \<open>Cursors\<close> gives it fuel, and its
  theorem shows that one unit per batch is enough; \<open>withTransaction\<close>, where two units for each
  reading of the clock are enough, since the clock passes the limit of 120 seconds; and a
  resuming change stream, whose wait for the topology ends after 30 seconds with looks every 500
  milliseconds (\<open>ev_fuel\<close> is the fuel of the cursor below it).  The theorems on these say that the code
  returns, not only what it returns.

  \<^bold>\<open>Parameters.\<close>  Code outside the repository and the outside world are arguments: the BSON library,
  compression, hash functions, the parser of connection strings, name servers, files, the regular
  expression engine, the encrypter, the optional packages of \<open>MONGODB-AWS\<close> and \<open>GSSAPI\<close>, replies of
  servers, clocks and random numbers.  What the code relies on is a hypothesis of the theorem
  that needs it, such as that decompression undoes compression.

  \<^bold>\<open>Not modelled.\<close>  \<open>collection.ts\<close>, \<open>db.ts\<close>, \<open>admin.ts\<close> and \<open>mongo_client.ts\<close> (except for the
  part that builds options) pass their arguments on to the operations, cursors and the topology;
  \<open>operations/run_command.ts\<close>, \<open>get_more.ts\<close>, \<open>bulk_write.ts\<close>, \<open>connect.ts\<close> and
  \<open>cursor/aggregation_cursor.ts\<close> likewise.  \<open>encrypter.ts\<close>, \<open>cmap/auth/mongodb_aws.ts\<close>, \<open>gssapi.ts\<close>
  and \<open>deps.ts\<close> are about optional packages that are not in the repository.  \<open>sdam/events.ts\<close>,
  \<open>cmap/command_monitoring_events.ts\<close> and \<open>cmap/connection_pool_events.ts\<close> are the payload of
  events for observers; \<open>logger.ts\<close> prints.  \<open>bson.ts\<close>, \<open>constants.ts\<close>, \<open>mongo_types.ts\<close> and
  \<open>index.ts\<close> re-export and declare types.
\<close>


section \<open>From SRV records to the servers of a topology\<close>

text \<open>
  The poller, the addresses of its events and the update of the topology description together.
  \<open>srv_record_ok\<close> holds of records with a plain host name and a valid port.
\<close>

definition srv_record_ok :: "string \<times> nat \<Rightarrow> bool" where
  "srv_record_ok r \<longleftrightarrow> plain_host (fst r) \<and> 0 < snd r \<and> snd r \<le> 65535"

lemma record_ok_address:
  assumes "srv_record_ok (name, port)"
  shows "\<exists>a. HostAddress_fromHostPort name port = Inr a \<and> HostAddress_toString a False = name @ '':'' @ show_nat port"
    "canonical_address (name @ '':'' @ show_nat port)"
proof -
  have plain: "plain_host name" "0 < port" "port \<le> 65535" using assms by (simp_all add: srv_record_ok_def)
  have "CHR '':'' \<notin> set name"
    using plain(1) plain_host_char_neq(1) by (auto simp: plain_host_def list_all_iff)
  with plain_address_canonical [OF plain]
  show "\<exists>a. HostAddress_fromHostPort name port = Inr a \<and> HostAddress_toString a False = name @ '':'' @ show_nat port"
    by (simp add: HostAddress_fromHostPort_def HostAddress_toString_def)
  from plain_address_canonical [OF plain] show "canonical_address (name @ '':'' @ show_nat port)"
    by (simp add: canonical_address_def addressOf_def HostAddress_toString_def)
qed

lemma addresses_of_ok:
  "list_all srv_record_ok rs \<Longrightarrow> addresses_of rs = Inr (map (\<lambda>r. fst r @ '':'' @ show_nat (snd r)) rs)"
proof (induction rs)
  case (Cons r rs)
  obtain name port where r: "r = (name, port)" by (cases r)
  with Cons.prems record_ok_address(1) [of name port] Cons.IH show ?case by auto
qed simp

lemma set_hosts_keys: "set_hosts now hs m = Inr m' \<Longrightarrow> set (map_keys m') \<subseteq> set (map_keys m) \<union> set hs"
proof (induction hs arbitrary: m)
  case (Cons x hs)
  from Cons.prems obtain sd where "set_hosts now hs (map_set x sd m) = Inr m'" by (auto simp: rbind_Inr_iff)
  from Cons.IH [OF this] show ?case by (auto simp: map_keys_map_set split: if_splits)
qed simp

text \<open>With any limit on their number, the servers after a polling event are among its hosts.\<close>

lemma polled_keys:
  assumes "updateFromSrvPollingEvent now rnd td hosts limit = Inr td'" "\<And>k. 0 < k \<Longrightarrow> rnd k < k"
  shows "set (map_keys (td_servers td')) \<subseteq> set hosts"
proof -
  let ?add = "filter (\<lambda>h. h \<notin> set (map_keys (td_servers td))) hosts"
  let ?rem = "filter (\<lambda>h. h \<notin> set hosts) (map_keys (td_servers td))"
  let ?m = "fold map_delete ?rem (td_servers td)"
  have m: "set (map_keys ?m) \<subseteq> set hosts" by (auto simp: map_laws)
  show ?thesis
  proof (cases "?add = [] \<and> ?rem = []")
    case True
    with assms(1) have "td' = td" by (simp add: updateFromSrvPollingEvent_def Let_def)
    with True show ?thesis by (auto simp: filter_empty_conv)
  next
    case False
    have shuffled: "set ys \<subseteq> set hosts" if "shuffle rnd ?add n = Inr ys" for n ys
    proof -
      have "mset ys \<subseteq># mset ?add" using shuffle_selects [of rnd ?add n, OF assms(2)] that by (auto split: if_splits)
      then have "set_mset (mset ys) \<subseteq> set_mset (mset ?add)" by (rule set_mset_mono)
      then show ?thesis by auto
    qed
    obtain m' where m': "td_servers td' = m'" "m' = ?m \<or> (\<exists>hs. set hs \<subseteq> set hosts \<and> set_hosts now hs ?m = Inr m')"
    proof -
      from assms(1) False obtain m1 where "td_servers td' = m1"
        "(if ?add \<noteq> [] then (if limit = 0 then set_hosts now ?add ?m
            else if length ?m < limit then rbind (shuffle rnd ?add (limit - length ?m)) (\<lambda>selected. set_hosts now selected ?m)
            else Inr ?m) else Inr ?m) = Inr m1"
        by (auto simp: updateFromSrvPollingEvent_def Let_def rbind_Inr_iff TopologyDescription_new_def)
      with shuffled show thesis
        by (intro that [of m1]) (auto simp: rbind_Inr_iff split: if_splits)
    qed
    from m'(2) show ?thesis
    proof
      assume "m' = ?m"
      with m m'(1) show ?thesis by simp
    next
      assume "\<exists>hs. set hs \<subseteq> set hosts \<and> set_hosts now hs ?m = Inr m'"
      then obtain hs where hs: "set hs \<subseteq> set hosts" "set_hosts now hs ?m = Inr m'" by blast
      from set_hosts_keys [OF hs(2)] hs(1) m m'(1) show ?thesis by blast
    qed
  qed
qed

text \<open>
  (C38) From the name servers to the servers of a topology.  A poller that starts without events on an SRV
  name of at least three labels may get any replies, at any time.  Take one of its events, all of
  whose records have a plain host name and a valid port.  Its hosts can be read, a topology that takes
  them without a limit is updated, and whatever the limit, after the update all servers of the topology lie
  below the parent domain of the SRV name and have a port of the records.
\<close>

theorem polled_topology_below_parent:
  assumes "sp_reachable p q" "sp_discovered p = []" "length (split_char (CHR ''.'') (sp_srvHost p)) \<ge> 3"
    and "rs \<in> set (sp_discovered q)" "list_all srv_record_ok rs" "\<And>k. 0 < k \<Longrightarrow> rnd k < k"
  shows "\<exists>hosts. hostnames rs = Inr hosts \<and> (\<exists>td'. updateFromSrvPollingEvent now rnd td hosts 0 = Inr td')
    \<and> (\<forall>limit td'. updateFromSrvPollingEvent now rnd td hosts limit = Inr td' \<longrightarrow>
         (\<forall>k \<in> set (map_keys (td_servers td')).
           \<exists>pre port. k = pre @ ''.'' @ strip_label (sp_srvHost p) @ '':'' @ show_nat port \<and> port \<in> snd ` set rs))"
proof -
  let ?addr = "\<lambda>r :: string \<times> nat. fst r @ '':'' @ show_nat (snd r)"
  let ?hosts = "js_set (map ?addr rs)"
  have h: "hostnames rs = Inr ?hosts"
    using addresses_of_ok [OF assms(5)] by (simp add: hostnames_def)
  have "\<forall>k \<in> set ?hosts. canonical_address k"
    using assms(5) record_ok_address(2) by (auto simp: list_all_iff)
  from srv_poll_members [OF this, of now rnd td]
  have unlimited: "\<exists>td'. updateFromSrvPollingEvent now rnd td ?hosts 0 = Inr td'" by blast
  have below: "\<exists>pre. fst r = pre @ ''.'' @ strip_label (sp_srvHost p)" if "r \<in> set rs" for r
    using polled_hosts_below_parent [OF assms(1-3)] assms(4) that by blast
  have "\<exists>pre port. k = pre @ ''.'' @ strip_label (sp_srvHost p) @ '':'' @ show_nat port \<and> port \<in> snd ` set rs"
    if "updateFromSrvPollingEvent now rnd td ?hosts limit = Inr td'" "k \<in> set (map_keys (td_servers td'))" for limit td' k
  proof -
    have "k \<in> set ?hosts" using polled_keys [OF that(1) assms(6)] that(2) by blast
    then obtain r where r: "r \<in> set rs" "k = ?addr r" by auto
    from below [OF r(1)] r show ?thesis by fastforce
  qed
  with h unlimited show ?thesis by blast
qed

theorem polled_topology_below_parent_witness:
  "\<exists>hosts td'. hostnames [(''db1.example.com'', 27017)] = Inr hosts
    \<and> updateFromSrvPollingEvent 9 (\<lambda>_. 0) example_replicaset hosts 0 = Inr td'
    \<and> (\<forall>k \<in> set (map_keys (td_servers td')).
         \<exists>pre port. k = pre @ ''.'' @ strip_label (sp_srvHost example_poller) @ '':'' @ show_nat port
           \<and> port \<in> snd ` set [(''db1.example.com'', 27017)])"
proof -
  have "sp_discovered example_poller = []" "3 \<le> length (split_char (CHR ''.'') (sp_srvHost example_poller))"
    by (simp_all add: example_poller_def)
  moreover have "[(''db1.example.com'', 27017)] \<in> set (sp_discovered example_polled)"
    by (simp add: example_polled_def example_poller_def sp_reply_def sp_poll_def sp_start_def sp_schedule_def sp_success_def
        matchesParentDomain_def strip_label_def ends_with_def)
  moreover have "list_all srv_record_ok [(''db1.example.com'', 27017)]"
    by (simp add: srv_record_ok_def plain_host_def plain_host_char_def ends_with_def)
  ultimately have "\<exists>hosts. hostnames [(''db1.example.com'', 27017)] = Inr hosts
    \<and> (\<exists>td'. updateFromSrvPollingEvent 9 (\<lambda>_. 0) example_replicaset hosts 0 = Inr td')
    \<and> (\<forall>limit td'. updateFromSrvPollingEvent 9 (\<lambda>_. 0) example_replicaset hosts limit = Inr td' \<longrightarrow>
         (\<forall>k \<in> set (map_keys (td_servers td')).
           \<exists>pre port. k = pre @ ''.'' @ strip_label (sp_srvHost example_poller) @ '':'' @ show_nat port
             \<and> port \<in> snd ` set [(''db1.example.com'', 27017)]))"
    by (intro polled_topology_below_parent [OF example_polled_reachable]) simp_all
  then show ?thesis by blast
qed

end
